(* ===== verification/Go_Prelude.thy ===== *)
theory Go_Prelude
  imports Main "HOL-Library.AList" "HOL-Library.Word" "HOL-Library.List_Lexorder" "HOL-Library.Char_ord"
begin

text \<open>
  Shared vocabulary of the development: the parts of the Go language and its
  standard library that the sources use (byte strings, \<^verbatim>\<open>strings.Split\<close>,
  \<^verbatim>\<open>strings.SplitN\<close>, \<^verbatim>\<open>strings.TrimSpace\<close>, \<^verbatim>\<open>strconv.Atoi\<close>, decimal printing,
  64-bit durations), Go maps as association lists, and the lemma collections the
  component theories use.

  A Go \<^verbatim>\<open>string\<close> is a byte sequence, so it is an Isabelle \<^typ>\<open>string\<close>. A Go map that
  the code iterates over is an association list with distinct keys: the order of the
  list is the (unspecified) iteration order of the run, so a theorem about every such
  list is a theorem about every iteration order.
\<close>

named_theorems go_simps \<open>unfolding rules of the standard library model\<close>
named_theorems result_iff \<open>when a sum-typed operation succeeds or fails\<close>

section \<open>Association lists as Go maps\<close>

type_synonym ('k, 'v) gomap = "('k \<times> 'v) list"

abbreviation keys :: "('k, 'v) gomap \<Rightarrow> 'k list" where
  "keys m \<equiv> map fst m"

abbreviation gm_get :: "('k, 'v) gomap \<Rightarrow> 'k \<Rightarrow> 'v option" where
  "gm_get m k \<equiv> map_of m k"

abbreviation gm_put :: "'k \<Rightarrow> 'v \<Rightarrow> ('k, 'v) gomap \<Rightarrow> ('k, 'v) gomap" where
  "gm_put k v m \<equiv> AList.update k v m"

abbreviation gm_del :: "'k \<Rightarrow> ('k, 'v) gomap \<Rightarrow> ('k, 'v) gomap" where
  "gm_del k m \<equiv> AList.delete k m"

definition gm_wf :: "('k, 'v) gomap \<Rightarrow> bool" where
  "gm_wf m \<longleftrightarrow> distinct (keys m)"

lemma gm_wf_Nil [simp]: "gm_wf []"
  by (simp add: gm_wf_def)

lemma gm_wf_put [simp, intro]: "gm_wf m \<Longrightarrow> gm_wf (gm_put k v m)"
  by (simp add: gm_wf_def distinct_update)

lemma gm_wf_del [simp, intro]: "gm_wf m \<Longrightarrow> gm_wf (gm_del k m)"
  by (simp add: gm_wf_def distinct_delete)

lemma gm_get_put [simp]: "gm_get (gm_put k v m) k' = (if k' = k then Some v else gm_get m k')"
  by (simp add: update_conv')

lemma gm_get_del [simp]: "gm_get (gm_del k m) k' = (if k' = k then None else gm_get m k')"
  by (simp add: delete_conv')

lemma gm_in_get: "gm_wf m \<Longrightarrow> (k, v) \<in> set m \<longleftrightarrow> gm_get m k = Some v"
  by (simp add: gm_wf_def)

lemma gm_get_None_iff: "gm_get m k = None \<longleftrightarrow> k \<notin> set (keys m)"
  by (simp add: map_of_eq_None_iff)

lemma gm_put_new_length: "k \<notin> set (keys m) \<Longrightarrow> length (gm_put k v m) = Suc (length m)"
  by (simp add: update_nonempty update_triv) (induction m, auto)

lemma gm_put_old_length: "k \<in> set (keys m) \<Longrightarrow> length (gm_put k v m) = length m"
  by (induction m) auto

lemma gm_put_length: "length (gm_put k v m) = (if k \<in> set (keys m) then length m else Suc (length m))"
  using gm_put_new_length gm_put_old_length by metis

lemma gm_del_absent [simp]: "k \<notin> set (keys m) \<Longrightarrow> gm_del k m = m"
  by (simp add: delete_idem)

lemma gm_del_length_le: "length (gm_del k m) \<le> length m"
  by (rule length_delete_le)

lemma gm_del_length: "gm_wf m \<Longrightarrow> k \<in> set (keys m) \<Longrightarrow> Suc (length (gm_del k m)) = length m"
proof (induction m)
  case Nil
  then show ?case by simp
next
  case (Cons a m)
  then show ?case by (cases "fst a = k") (auto simp: gm_wf_def)
qed


section \<open>Byte strings\<close>

definition has_prefix :: "string \<Rightarrow> string \<Rightarrow> bool" where
  "has_prefix s p \<longleftrightarrow> take (length p) s = p"

text \<open>\<^verbatim>\<open>strings.Index\<close>: the first position at which \<open>sub\<close> occurs.\<close>

fun index_of :: "string \<Rightarrow> string \<Rightarrow> nat option" where
  "index_of sub [] = (if sub = [] then Some 0 else None)"
| "index_of sub (c # cs) =
     (if has_prefix (c # cs) sub then Some 0 else map_option Suc (index_of sub cs))"

definition contains_str :: "string \<Rightarrow> string \<Rightarrow> bool" where
  "contains_str s sub \<longleftrightarrow> index_of sub s \<noteq> None"

lemma index_of_bound: "index_of sub s = Some i \<Longrightarrow> i + length sub \<le> length s"
proof (induction sub s arbitrary: i rule: index_of.induct)
  case (1 sub)
  then show ?case by (auto split: if_splits)
next
  case (2 sub c cs)
  show ?case
  proof (cases "has_prefix (c # cs) sub")
    case True
    then have "take (length sub) (c # cs) = sub" by (simp add: has_prefix_def)
    then have "length sub \<le> length (c # cs)" by (metis length_take min.cobounded1)
    with "2.prems" True show ?thesis by simp
  next
    case False
    with "2" show ?thesis by fastforce
  qed
qed

lemma index_of_char_None: "index_of [c] s = None \<longleftrightarrow> c \<notin> set s"
  by (induction s) (auto simp: has_prefix_def)

lemma index_of_char_append: "c \<notin> set xs \<Longrightarrow> index_of [c] (xs @ c # ys) = Some (length xs)"
  by (induction xs) (auto simp: has_prefix_def)

text \<open>\<^verbatim>\<open>strings.Split(s, sep)\<close> for a non-empty separator.\<close>

function split_str :: "string \<Rightarrow> string \<Rightarrow> string list" where
  "split_str sep s =
     (if sep = [] then map (\<lambda>c. [c]) s
      else case index_of sep s of
             None \<Rightarrow> [s]
           | Some i \<Rightarrow> take i s # split_str sep (drop (i + length sep) s))"
  by pat_completeness auto
termination
proof (relation "measure (\<lambda>(sep, s). length s)", goal_cases)
  case 1
  show ?case by simp
next
  case (2 sep s i)
  then have "i + length sep \<le> length s" by (auto dest: index_of_bound)
  with 2 show ?case by (cases sep) auto
qed

declare split_str.simps [simp del]

text \<open>\<^verbatim>\<open>strings.SplitN(s, sep, 2)\<close>.\<close>

definition splitN2 :: "string \<Rightarrow> string \<Rightarrow> string list" where
  "splitN2 sep s =
     (case index_of sep s of None \<Rightarrow> [s] | Some i \<Rightarrow> [take i s, drop (i + length sep) s])"

lemma split_str_absent: "c \<notin> set s \<Longrightarrow> split_str [c] s = [s]"
  using index_of_char_None [of c s] by (simp add: split_str.simps)

lemma split_str_cons: "c \<notin> set xs \<Longrightarrow> split_str [c] (xs @ c # ys) = xs # split_str [c] ys"
  by (simp add: split_str.simps [of "[c]" "xs @ c # ys"] index_of_char_append)

lemma splitN2_absent: "c \<notin> set s \<Longrightarrow> splitN2 [c] s = [s]"
  using index_of_char_None [of c s] by (simp add: splitN2_def)

lemma splitN2_cons: "c \<notin> set xs \<Longrightarrow> splitN2 [c] (xs @ c # ys) = [xs, ys]"
  by (simp add: splitN2_def index_of_char_append)

lemma split_str_nonempty: "sep \<noteq> [] \<Longrightarrow> split_str sep s \<noteq> []"
  by (subst split_str.simps) (simp split: option.split)

lemma splitN2_nonempty: "splitN2 sep s \<noteq> []"
  by (simp add: splitN2_def split: option.split)

lemma splitN2_length: "length (splitN2 sep s) \<le> 2"
  by (simp add: splitN2_def split: option.split)

text \<open>\<^verbatim>\<open>strings.Join\<close> undoes \<^verbatim>\<open>strings.Split\<close>.\<close>

fun join_str :: "string \<Rightarrow> string list \<Rightarrow> string" where
  "join_str sep [] = []"
| "join_str sep [x] = x"
| "join_str sep (x # y # ys) = x @ sep @ join_str sep (y # ys)"

text \<open>ASCII letter case and white space, as \<^verbatim>\<open>strings.ToLower\<close>, \<^verbatim>\<open>strings.EqualFold\<close> and
  \<^verbatim>\<open>strings.TrimSpace\<close> treat ASCII input.\<close>

definition lower_char :: "char \<Rightarrow> char" where
  "lower_char c = (let n = of_char c :: nat in if 65 \<le> n \<and> n \<le> 90 then char_of (n + 32) else c)"

definition to_lower :: "string \<Rightarrow> string" where
  "to_lower s = map lower_char s"

definition equal_fold :: "string \<Rightarrow> string \<Rightarrow> bool" where
  "equal_fold s t \<longleftrightarrow> to_lower s = to_lower t"

lemma lower_char_idem [simp]: "lower_char (lower_char c) = lower_char c"
  by (simp add: lower_char_def Let_def)

lemma to_lower_idem [simp]: "to_lower (to_lower s) = to_lower s"
  by (simp add: to_lower_def)

lemma to_lower_Nil_iff [simp]: "to_lower s = [] \<longleftrightarrow> s = []"
  by (simp add: to_lower_def)

definition is_space :: "char \<Rightarrow> bool" where
  "is_space c \<longleftrightarrow> (let n = of_char c :: nat in n = 32 \<or> (9 \<le> n \<and> n \<le> 13))"

definition trim_space :: "string \<Rightarrow> string" where
  "trim_space s = rev (dropWhile is_space (rev (dropWhile is_space s)))"

lemma trim_space_id: "\<forall>c \<in> set s. \<not> is_space c \<Longrightarrow> trim_space s = s"
proof -
  assume a: "\<forall>c \<in> set s. \<not> is_space c"
  then have "dropWhile is_space s = s" by (cases s) auto
  moreover from a have "dropWhile is_space (rev s) = rev s" by (cases s rule: rev_cases) auto
  ultimately show ?thesis by (simp add: trim_space_def)
qed

section \<open>Integers and their decimal form\<close>

definition is_digit :: "char \<Rightarrow> bool" where
  "is_digit c \<longleftrightarrow> (let n = of_char c :: nat in 48 \<le> n \<and> n \<le> 57)"

definition digit_val :: "char \<Rightarrow> nat" where
  "digit_val c = of_char c - 48"

definition digit_char :: "nat \<Rightarrow> char" where
  "digit_char n = char_of (48 + n)"

lemma digit_char_props [simp]:
  "d < 10 \<Longrightarrow> is_digit (digit_char d)" "d < 10 \<Longrightarrow> digit_val (digit_char d) = d"
  by (simp_all add: is_digit_def digit_val_def digit_char_def Let_def)

fun digits_val :: "nat \<Rightarrow> string \<Rightarrow> nat option" where
  "digits_val n [] = Some n"
| "digits_val n (c # cs) = (if is_digit c then digits_val (10 * n + digit_val c) cs else None)"

lemma digits_val_append:
  "digits_val n (xs @ ys) = Option.bind (digits_val n xs) (\<lambda>m. digits_val m ys)"
  by (induction n xs rule: digits_val.induct) auto

lemma digits_val_Some_digits: "digits_val n s = Some m \<Longrightarrow> \<forall>c \<in> set s. is_digit c"
  by (induction n s rule: digits_val.induct) (auto split: if_splits)

text \<open>\<^verbatim>\<open>strconv.Itoa\<close> and \<^verbatim>\<open>fmt.Sprintf("%d")\<close>.\<close>

fun show_nat :: "nat \<Rightarrow> string" where
  "show_nat n = (if n < 10 then [digit_char n] else show_nat (n div 10) @ [digit_char (n mod 10)])"

declare show_nat.simps [simp del]

definition itoa :: "int \<Rightarrow> string" where
  "itoa i = (if i < 0 then CHR ''-'' # show_nat (nat (- i)) else show_nat (nat i))"

lemma show_nat_digits: "\<forall>c \<in> set (show_nat n). is_digit c"
proof (induction n rule: show_nat.induct)
  case (1 n)
  then show ?case by (cases "n < 10") (simp_all add: show_nat.simps [of n])
qed

lemma show_nat_nonempty [simp]: "show_nat n \<noteq> []"
  by (subst show_nat.simps) simp

lemma digits_val_show_nat: "digits_val 0 (show_nat n) = Some n"
proof (induction n rule: show_nat.induct)
  case (1 n)
  show ?case
  proof (cases "n < 10")
    case True
    then show ?thesis by (simp add: show_nat.simps [of n])
  next
    case False
    with 1 show ?thesis by (simp add: show_nat.simps [of n] digits_val_append)
  qed
qed

text \<open>\<^verbatim>\<open>strconv.Atoi\<close> on a 64-bit platform: an optional sign, at least one digit, a value
  that fits in \<^verbatim>\<open>int64\<close>. \<open>None\<close> stands for the syntax and the range error.\<close>

definition int64_min :: int where "int64_min = - (2 ^ 63)"
definition int64_max :: int where "int64_max = 2 ^ 63 - 1"

definition in_int64 :: "int \<Rightarrow> bool" where
  "in_int64 i \<longleftrightarrow> int64_min \<le> i \<and> i \<le> int64_max"

definition atoi :: "string \<Rightarrow> int option" where
  "atoi s =
     (let (neg, ds) = (case s of
                          [] \<Rightarrow> (False, [])
                        | c # cs \<Rightarrow> if c = CHR ''-'' then (True, cs)
                                   else if c = CHR ''+'' then (False, cs) else (False, s))
      in if ds = [] then None
         else case digits_val 0 ds of
                None \<Rightarrow> None
              | Some n \<Rightarrow> let i = (if neg then - int n else int n)
                          in if in_int64 i then Some i else None)"

lemma digit_not_sign: "is_digit c \<Longrightarrow> c \<noteq> CHR ''-'' \<and> c \<noteq> CHR ''+'' \<and> c \<noteq> CHR ''/'' \<and> c \<noteq> CHR '':'' \<and> c \<noteq> CHR ''>''"
  by (auto simp: is_digit_def Let_def)

lemma atoi_show_nat: "int n \<le> int64_max \<Longrightarrow> atoi (show_nat n) = Some (int n)"
proof -
  assume b: "int n \<le> int64_max"
  obtain c cs where s: "show_nat n = c # cs" by (cases "show_nat n") auto
  then have "is_digit c" using show_nat_digits [of n] by simp
  then have "c \<noteq> CHR ''-''" "c \<noteq> CHR ''+''" using digit_not_sign by blast+
  with s b show ?thesis
    using digits_val_show_nat [of n] by (simp add: atoi_def in_int64_def int64_min_def)
qed

text \<open>Parsing what was printed gives the number back.\<close>

lemma atoi_itoa: "in_int64 i \<Longrightarrow> atoi (itoa i) = Some i"
proof (cases "i < 0")
  case True
  assume "in_int64 i"
  with True show ?thesis
    using digits_val_show_nat [of "nat (- i)"] by (simp add: itoa_def atoi_def)
next
  case False
  assume "in_int64 i"
  with False show ?thesis
    using atoi_show_nat [of "nat i"] by (simp add: itoa_def in_int64_def)
qed

lemma atoi_in_int64: "atoi s = Some i \<Longrightarrow> in_int64 i"
  by (auto simp: atoi_def Let_def split: list.splits option.splits if_splits prod.splits)

lemma itoa_digits: "0 \<le> i \<Longrightarrow> \<forall>c \<in> set (itoa i). is_digit c"
  using show_nat_digits by (simp add: itoa_def)

lemma itoa_nonempty [simp]: "itoa i \<noteq> []"
  by (simp add: itoa_def)

section \<open>Further facts on maps and substrings\<close>

lemma index_of_head_absent: "c \<notin> set s \<Longrightarrow> index_of (c # cs) s = None"
  by (induction s) (auto simp: has_prefix_def)

lemma index_of_last_absent: "d \<notin> set s \<Longrightarrow> index_of [c, d] s = None"
proof (induction s)
  case Nil
  then show ?case by simp
next
  case (Cons a s)
  then show ?case by (cases s) (auto simp: has_prefix_def)
qed

lemma show_nat_inj [simp]: "show_nat a = show_nat b \<longleftrightarrow> a = b"
  by (metis digits_val_show_nat option.inject)

lemma gm_put_new: "k \<notin> set (keys m) \<Longrightarrow> gm_put k v m = m @ [(k, v)]"
  by (induction m) auto

lemma has_prefix_append: "has_prefix k pfx \<Longrightarrow> has_prefix (k @ x) pfx"
  by (auto simp: has_prefix_def) (metis append_take_drop_id length_take min.absorb2 nat_le_linear take_all take_append)

lemma gm_put_set: "(k', v') \<in> set (gm_put k v m) \<Longrightarrow> (k', v') = (k, v) \<or> (k', v') \<in> set m"
  by (induction m) (auto split: if_splits)

lemma gm_del_set: "(k', v') \<in> set (gm_del k m) \<Longrightarrow> k' \<noteq> k \<and> (k', v') \<in> set m"
  by (induction m) (auto split: if_splits)

lemma keys_put_old: "k \<in> set (keys m) \<Longrightarrow> keys (gm_put k v m) = keys m"
  by (induction m) auto

lemma keys_put: "set (keys (gm_put k v m)) = insert k (set (keys m))"
  by (induction m) auto

lemma keys_del: "set (keys (gm_del k m)) = set (keys m) - {k}"
  by (induction m) auto

lemma set_list_updateD: "x \<in> set (xs[i := y]) \<Longrightarrow> x = y \<or> x \<in> set xs"
  using set_update_subset_insert by fastforce

section \<open>Machine integers\<close>

text \<open>The value an \<^verbatim>\<open>int64\<close> holds after an operation whose exact result is given.\<close>

definition wrap64 :: "int \<Rightarrow> int" where
  "wrap64 i = (i + 2 ^ 63) mod 2 ^ 64 - 2 ^ 63"

lemma le_div_iff_int:
  assumes "0 < (m :: int)"
  shows "a \<le> b div m \<longleftrightarrow> a * m \<le> b"
proof
  assume "a \<le> b div m"
  then have "a * m \<le> b div m * m" using assms by (simp add: mult_right_mono)
  also have "\<dots> = b - b mod m" by (simp add: minus_mod_eq_div_mult)
  finally show "a * m \<le> b" using assms pos_mod_sign [of m b] by linarith
next
  assume "a * m \<le> b"
  then show "a \<le> b div m" using zdiv_mono1 [of "a * m" b m] assms by simp
qed

lemma wrap64_in: "in_int64 (wrap64 i)"
  by (simp add: wrap64_def in_int64_def int64_min_def int64_max_def)

lemma wrap64_id: "in_int64 i \<Longrightarrow> wrap64 i = i"
  by (simp add: wrap64_def in_int64_def int64_min_def int64_max_def)

lemma wrap64_word: "wrap64 i = sint (word_of_int i :: 64 word)"
  by (simp add: wrap64_def sint_sbintrunc' signed_take_bit_eq_take_bit_shift take_bit_eq_mod)

section \<open>Counting in a list under an update\<close>

definition count_if :: "('a \<Rightarrow> bool) \<Rightarrow> 'a list \<Rightarrow> nat" where
  "count_if P xs = length (filter P xs)"

lemma count_if_simps [simp]:
  "count_if P [] = 0"
  "count_if P (x # xs) = (if P x then Suc (count_if P xs) else count_if P xs)"
  "count_if P (xs @ ys) = count_if P xs + count_if P ys"
  by (simp_all add: count_if_def)

lemma count_if_update:
  "i < length xs \<Longrightarrow>
   count_if P (xs[i := y]) + (if P (xs ! i) then 1 else 0) = count_if P xs + (if P y then 1 else 0)"
proof (induction xs arbitrary: i)
  case (Cons x xs)
  then show ?case by (cases i) auto
qed simp

lemma count_if_0_iff: "count_if P xs = 0 \<longleftrightarrow> (\<forall>x \<in> set xs. \<not> P x)"
  by (simp add: count_if_def filter_empty_conv)

lemma count_if_pos: "x \<in> set xs \<Longrightarrow> P x \<Longrightarrow> 0 < count_if P xs"
  using count_if_0_iff [of P xs] by blast

lemma count_if_two:
  assumes "i < j" "j < length xs" "P (xs ! i)" "P (xs ! j)"
  shows "2 \<le> count_if P xs"
proof -
  have xs: "xs = take j xs @ drop j xs" by simp
  have "xs ! i \<in> set (take j xs)"
    using assms by (metis in_set_conv_nth length_take min.absorb4 nth_take)
  moreover have "xs ! j \<in> set (drop j xs)"
    using assms by (metis Cons_nth_drop_Suc list.set_intros(1))
  ultimately have "0 < count_if P (take j xs)" "0 < count_if P (drop j xs)"
    using assms by (auto intro: count_if_pos)
  then show ?thesis by (subst xs) (simp only: count_if_simps)
qed

section \<open>Reachable states and inductive invariants\<close>

inductive reach :: "('s \<Rightarrow> bool) \<Rightarrow> ('s \<Rightarrow> 's \<Rightarrow> bool) \<Rightarrow> 's \<Rightarrow> bool" for init step where
  reach_init: "init s \<Longrightarrow> reach init step s"
| reach_step: "reach init step s \<Longrightarrow> step s s' \<Longrightarrow> reach init step s'"

text \<open>
  The contract between a state machine and the safety facts clients derive from it: an
  invariant that holds initially and that no step breaks.
\<close>

locale invariant_system =
  fixes init :: "'s \<Rightarrow> bool" and step :: "'s \<Rightarrow> 's \<Rightarrow> bool" and Inv :: "'s \<Rightarrow> bool"
  assumes inv_init: "init s \<Longrightarrow> Inv s"
    and inv_step: "Inv s \<Longrightarrow> step s s' \<Longrightarrow> Inv s'"
begin

lemma reach_inv: "reach init step s \<Longrightarrow> Inv s"
  by (induction rule: reach.induct) (auto intro: inv_init inv_step)

lemma rtrancl_inv: "step\<^sup>*\<^sup>* s s' \<Longrightarrow> Inv s \<Longrightarrow> Inv s'"
  by (induction rule: rtranclp_induct) (auto intro: inv_step)

lemma reach_safe: "reach init step s \<Longrightarrow> (\<And>t. Inv t \<Longrightarrow> P t) \<Longrightarrow> P s"
  using reach_inv by blast

end

end
