(* ===== verification/Go_Net.thy ===== *)
theory Go_Net
  imports Go_Prelude
begin

text \<open>
  The parts of Go's \<^verbatim>\<open>net\<close> and \<^verbatim>\<open>net/url\<close> packages (Go 1.26) that the sources call:
  \<^verbatim>\<open>net.SplitHostPort\<close>, \<^verbatim>\<open>net.ParseIP\<close> and \<^verbatim>\<open>IP.IsLoopback\<close>, \<^verbatim>\<open>url.Parse\<close>,
  \<^verbatim>\<open>URL.String\<close>, \<^verbatim>\<open>URL.Hostname\<close> and \<^verbatim>\<open>URL.Port\<close>. A URL keeps its path and fragment
  in the escaped form it was written in; \<open>url_String\<close> re-escapes them the way
  \<^verbatim>\<open>EscapedPath\<close> and \<^verbatim>\<open>EscapedFragment\<close> do. IPv6 zone identifiers are not distinguished
  from the rest of a bracketed host.
\<close>

section \<open>Character positions\<close>

definition last_index :: "char \<Rightarrow> string \<Rightarrow> nat option" where
  "last_index c s = map_option (\<lambda>i. length s - Suc i) (index_of [c] (rev s))"

definition cut_str :: "char \<Rightarrow> string \<Rightarrow> string \<times> string option" where
  "cut_str c s = (case index_of [c] s of None \<Rightarrow> (s, None) | Some i \<Rightarrow> (take i s, Some (drop (Suc i) s)))"

lemma last_index_None: "last_index c s = None \<longleftrightarrow> c \<notin> set s"
  using index_of_char_None [of c "rev s"] by (simp add: last_index_def)

lemma last_index_append: "c \<notin> set ys \<Longrightarrow> last_index c (xs @ c # ys) = Some (length xs)"
  using index_of_char_append [of c "rev ys" "rev xs"] by (simp add: last_index_def)

section \<open>Host and port\<close>

text \<open>\<^verbatim>\<open>net.SplitHostPort\<close>; every address error is \<open>None\<close>.\<close>

definition split_host_port :: "string \<Rightarrow> (string \<times> string) option" where
  "split_host_port hp =
     (case last_index (CHR '':'') hp of
        None \<Rightarrow> None
      | Some i \<Rightarrow>
          (let res =
             (if hd hp = CHR ''['' then
                (case index_of '']'' hp of
                   None \<Rightarrow> None
                 | Some e \<Rightarrow> if Suc e = i then Some (take (e - 1) (drop 1 hp), 1, Suc e) else None)
              else (let h = take i hp in if CHR '':'' \<in> set h then None else Some (h, 0, 0)))
           in case res of
                None \<Rightarrow> None
              | Some (host, j, k) \<Rightarrow>
                  if CHR ''['' \<in> set (drop j hp) \<or> CHR '']'' \<in> set (drop k hp) then None
                  else Some (host, drop (Suc i) hp)))"

section \<open>IP addresses\<close>

text \<open>A parsed address is its 16-byte form, as \<^verbatim>\<open>Addr.As16\<close> gives it.\<close>

type_synonym ip = "nat list"

definition v4_prefix :: "nat list" where
  "v4_prefix = replicate 10 0 @ [255, 255]"

definition parse_octet :: "string \<Rightarrow> nat option" where
  "parse_octet f =
     (case digits_val 0 f of
        None \<Rightarrow> None
      | Some n \<Rightarrow> if f \<noteq> [] \<and> (length f = 1 \<or> hd f \<noteq> CHR ''0'') \<and> n \<le> 255 then Some n else None)"

definition parse_ipv4 :: "string \<Rightarrow> nat list option" where
  "parse_ipv4 s =
     (case map parse_octet (split_str ''.'' s) of
        [Some a, Some b, Some c, Some d] \<Rightarrow> Some [a, b, c, d]
      | _ \<Rightarrow> None)"

definition hex_val :: "char \<Rightarrow> nat option" where
  "hex_val c =
     (let n = of_char c :: nat
      in if 48 \<le> n \<and> n \<le> 57 then Some (n - 48)
         else if 97 \<le> n \<and> n \<le> 102 then Some (n - 87)
         else if 65 \<le> n \<and> n \<le> 70 then Some (n - 55) else None)"

fun hex_num :: "nat \<Rightarrow> string \<Rightarrow> nat" where
  "hex_num acc [] = acc"
| "hex_num acc (c # cs) = (case hex_val c of None \<Rightarrow> acc | Some d \<Rightarrow> hex_num (16 * acc + d) cs)"

definition is_hex :: "char \<Rightarrow> bool" where
  "is_hex c \<longleftrightarrow> hex_val c \<noteq> None"

text \<open>The group loop of \<^verbatim>\<open>netip.parseIPv6\<close>: at most eight groups, so eight units of fuel are
  the loop's own bound \<^verbatim>\<open>i < 16\<close>. The result is the rest of the input, the bytes read and
  the position of the ellipsis.\<close>

fun ip6_loop :: "nat \<Rightarrow> string \<Rightarrow> nat list \<Rightarrow> nat option \<Rightarrow> (string \<times> nat list \<times> nat option) option" where
  "ip6_loop 0 s acc ell = Some (s, acc, ell)"
| "ip6_loop (Suc f) s acc ell =
     (let g = takeWhile is_hex s; rest = dropWhile is_hex s; n = hex_num 0 g
      in if g = [] \<or> length g > 4 then None
         else if rest \<noteq> [] \<and> hd rest = CHR ''.'' then
           (if (ell = None \<and> length acc \<noteq> 12) \<or> length acc + 4 > 16 then None
            else case parse_ipv4 s of None \<Rightarrow> None | Some q \<Rightarrow> Some ([], acc @ q, ell))
         else (let acc' = acc @ [n div 256, n mod 256]
               in if rest = [] then Some ([], acc', ell)
                  else if hd rest \<noteq> CHR '':'' \<or> length rest = 1 then None
                  else (let s' = tl rest
                        in if hd s' = CHR '':'' then
                             (if ell \<noteq> None then None
                              else if tl s' = [] then Some ([], acc', Some (length acc'))
                              else ip6_loop f (tl s') acc' (Some (length acc')))
                           else ip6_loop f s' acc' ell)))"

definition parse_ipv6 :: "string \<Rightarrow> nat list option" where
  "parse_ipv6 s =
     (let (s', ell) = (if has_prefix s ''::'' then (drop 2 s, Some 0) else (s, None))
      in if ell \<noteq> None \<and> s' = [] then Some (replicate 16 0)
         else case ip6_loop 8 s' [] ell of
                None \<Rightarrow> None
              | Some (rest, acc, ell') \<Rightarrow>
                  if rest \<noteq> [] then None
                  else if length acc < 16 then
                    (case ell' of
                       None \<Rightarrow> None
                     | Some e \<Rightarrow> Some (take e acc @ replicate (16 - length acc) 0 @ drop e acc))
                  else if ell' \<noteq> None then None else Some acc)"

text \<open>\<^verbatim>\<open>net.ParseIP\<close>: the first dot or colon decides the family; zones are refused.\<close>

definition parse_ip :: "string \<Rightarrow> ip option" where
  "parse_ip s =
     (if CHR ''%'' \<in> set s then None
      else case dropWhile (\<lambda>c. c \<noteq> CHR ''.'' \<and> c \<noteq> CHR '':'') s of
             [] \<Rightarrow> None
           | c # _ \<Rightarrow> if c = CHR ''.'' then map_option (\<lambda>q. v4_prefix @ q) (parse_ipv4 s)
                      else parse_ipv6 s)"

definition is_v4 :: "ip \<Rightarrow> bool" where
  "is_v4 a \<longleftrightarrow> take 12 a = v4_prefix"

definition is_loopback :: "ip \<Rightarrow> bool" where
  "is_loopback a \<longleftrightarrow> (if is_v4 a then a ! 12 = 127 else a = replicate 15 0 @ [1])"

lemma parse_octet_bound: "parse_octet f = Some n \<Longrightarrow> n \<le> 255"
  by (auto simp: parse_octet_def split: option.splits if_splits)

lemma parse_ipv4_length: "parse_ipv4 s = Some q \<Longrightarrow> length q = 4"
  by (auto simp: parse_ipv4_def split: list.splits option.splits)

lemma ip6_loop_length:
  "ip6_loop f s acc ell = Some (r, acc', ell') \<Longrightarrow> length acc + 2 * f \<le> 16 \<Longrightarrow>
   length acc' \<le> 16"
proof (induction f arbitrary: s acc ell)
  case 0
  then show ?case by simp
next
  case (Suc f)
  have IH: "ip6_loop f s' (acc @ [a, b]) e = Some (r, acc', ell') \<Longrightarrow> length acc' \<le> 16" for s' a b e
    using Suc.IH [of s' "acc @ [a, b]" e] Suc.prems(2) by simp
  from Suc.prems show ?case
    by (auto simp: Let_def split: if_splits option.splits dest!: parse_ipv4_length dest: IH)
qed

lemma parse_ip_length: "parse_ip s = Some a \<Longrightarrow> length a = 16"
proof -
  assume a: "parse_ip s = Some a"
  have six: "parse_ipv6 s = Some a \<Longrightarrow> length a = 16"
    by (auto simp: parse_ipv6_def Let_def split: if_splits option.splits prod.splits
        dest!: ip6_loop_length)
  from a show ?thesis
    by (auto simp: parse_ip_def v4_prefix_def dest: six parse_ipv4_length
        split: if_splits list.splits)
qed


section \<open>URLs\<close>

record url =
  u_scheme :: string
  u_opaque :: string
  u_user :: "(string \<times> string option) option"
  u_host :: string
  u_path :: string
  u_query :: "string option"
  u_fragment :: string

datatype esc_mode = EncPath | EncHost | EncUser | EncFragment

definition unreserved :: "char \<Rightarrow> bool" where
  "unreserved c \<longleftrightarrow>
     (let n = of_char c :: nat
      in (97 \<le> n \<and> n \<le> 122) \<or> (65 \<le> n \<and> n \<le> 90) \<or> (48 \<le> n \<and> n \<le> 57)) \<or>
     c \<in> set ''-_.~''"

text \<open>\<^verbatim>\<open>shouldEscape\<close>.\<close>

definition should_escape :: "esc_mode \<Rightarrow> char \<Rightarrow> bool" where
  "should_escape m c =
     (if unreserved c then False
      else if m = EncHost \<and> (c \<in> set ''!$&()*+,;=:[]<>'' \<or> of_char c = (39 :: nat) \<or> of_char c = (34 :: nat)) then False
      else if c \<in> set ''$&+,/:;=?@'' then
        (case m of EncPath \<Rightarrow> c = CHR ''?'' | EncUser \<Rightarrow> c \<in> set ''@/?:''
                 | EncFragment \<Rightarrow> False | EncHost \<Rightarrow> True)
      else if m = EncFragment \<and> c \<in> set ''!()*'' then False
      else True)"

text \<open>\<^verbatim>\<open>unescape\<close>: percent decoding; in a host only non-ASCII bytes and \<^verbatim>\<open>%25\<close> may be
  written as escapes, and plain ASCII bytes must be legal there.\<close>

fun unescape :: "esc_mode \<Rightarrow> string \<Rightarrow> string option" where
  "unescape m [] = Some []"
| "unescape m (c # cs) =
     (if c = CHR ''%'' then
        (case cs of
           a # b # cs' \<Rightarrow>
             (case (hex_val a, hex_val b) of
                (Some x, Some y) \<Rightarrow>
                  if m = EncHost \<and> x < 8 \<and> \<not> (x = 2 \<and> y = 5) then None
                  else map_option (\<lambda>r. char_of (16 * x + y) # r) (unescape m cs')
              | _ \<Rightarrow> None)
         | _ \<Rightarrow> None)
      else if m = EncHost \<and> (of_char c :: nat) < 128 \<and> should_escape m c then None
      else map_option (\<lambda>r. c # r) (unescape m cs))"

definition hex_digit :: "nat \<Rightarrow> char" where
  "hex_digit d = (if d < 10 then char_of (48 + d) else char_of (55 + d))"

definition escape :: "esc_mode \<Rightarrow> string \<Rightarrow> string" where
  "escape m s =
     concat (map (\<lambda>c. if should_escape m c
                      then [CHR ''%'', hex_digit (of_char c div 16), hex_digit (of_char c mod 16)]
                      else [c]) s)"

definition valid_encoded :: "esc_mode \<Rightarrow> string \<Rightarrow> bool" where
  "valid_encoded m s \<longleftrightarrow>
     list_all (\<lambda>c. c \<in> set ''!$&()*+,;=:@[]%'' \<or> of_char c = (39 :: nat) \<or> \<not> should_escape m c) s"

definition escaped_text :: "esc_mode \<Rightarrow> string \<Rightarrow> string" where
  "escaped_text m s =
     (if valid_encoded m s then s else case unescape m s of None \<Rightarrow> s | Some t \<Rightarrow> escape m t)"

definition scheme_char :: "char \<Rightarrow> bool" where
  "scheme_char c \<longleftrightarrow>
     (let n = of_char c :: nat
      in (97 \<le> n \<and> n \<le> 122) \<or> (65 \<le> n \<and> n \<le> 90) \<or> (48 \<le> n \<and> n \<le> 57)) \<or> c \<in> set ''+-.''"

definition scheme_start :: "char \<Rightarrow> bool" where
  "scheme_start c \<longleftrightarrow> (let n = of_char c :: nat in (97 \<le> n \<and> n \<le> 122) \<or> (65 \<le> n \<and> n \<le> 90))"

text \<open>\<^verbatim>\<open>getScheme\<close>: \<open>None\<close> is the missing-scheme error of a leading colon.\<close>

definition get_scheme :: "string \<Rightarrow> (string \<times> string) option" where
  "get_scheme s =
     (case s of
        [] \<Rightarrow> Some ([], [])
      | c # cs \<Rightarrow>
          if c = CHR '':'' then None
          else if \<not> scheme_start c then Some ([], s)
          else (case dropWhile scheme_char s of
                  [] \<Rightarrow> Some ([], s)
                | d # ds \<Rightarrow> if d = CHR '':'' then Some (takeWhile scheme_char s, ds) else Some ([], s)))"

definition valid_optional_port :: "string \<Rightarrow> bool" where
  "valid_optional_port p \<longleftrightarrow> p = [] \<or> (hd p = CHR '':'' \<and> list_all is_digit (tl p))"

definition parse_host :: "string \<Rightarrow> string \<Rightarrow> string option" where
  "parse_host scheme host =
     (case last_index (CHR ''['') host of
        Some 0 \<Rightarrow>
          (case last_index (CHR '']'') host of
             None \<Rightarrow> None
           | Some e \<Rightarrow>
               (let colon_port = drop (Suc e) host
                in if \<not> valid_optional_port colon_port then None
                   else case unescape EncHost (take (e - 1) (drop 1 host)) of
                          None \<Rightarrow> None
                        | Some h \<Rightarrow>
                            (case parse_ip h of
                               None \<Rightarrow> None
                             | Some a \<Rightarrow> if CHR '':'' \<in> set h then Some (''['' @ h @ '']'' @ colon_port) else None)))
      | Some (Suc _) \<Rightarrow> None
      | None \<Rightarrow>
          (case index_of '':'' host of
             None \<Rightarrow> unescape EncHost host
           | Some i \<Rightarrow>
               (let j = (if scheme = ''http'' \<or> scheme = ''https'' then i
                         else case last_index (CHR '':'') host of None \<Rightarrow> i | Some k \<Rightarrow> k)
                in if valid_optional_port (drop j host) then unescape EncHost host else None)))"

definition valid_userinfo :: "string \<Rightarrow> bool" where
  "valid_userinfo s \<longleftrightarrow>
     list_all (\<lambda>c. unreserved c \<or> c \<in> set '':!$&()*+,;=%@'' \<or> of_char c = (39 :: nat)) s"

definition parse_authority :: "string \<Rightarrow> string \<Rightarrow> ((string \<times> string option) option \<times> string) option" where
  "parse_authority scheme a =
     (case last_index (CHR ''@'') a of
        None \<Rightarrow> map_option (\<lambda>h. (None, h)) (parse_host scheme a)
      | Some i \<Rightarrow>
          (case parse_host scheme (drop (Suc i) a) of
             None \<Rightarrow> None
           | Some h \<Rightarrow>
               (let ui = take i a
                in if \<not> valid_userinfo ui then None
                   else case cut_str (CHR '':'') ui of
                          (u, None) \<Rightarrow> map_option (\<lambda>u'. (Some (u', None), h)) (unescape EncUser u)
                        | (u, Some p) \<Rightarrow>
                            (case (unescape EncUser u, unescape EncUser p) of
                               (Some u', Some p') \<Rightarrow> Some (Some (u', Some p'), h)
                             | _ \<Rightarrow> None))))"

definition mk_url :: "string \<Rightarrow> (string \<times> string option) option \<Rightarrow> string \<Rightarrow> string \<Rightarrow> string option \<Rightarrow> url" where
  "mk_url sch us h p q =
     \<lparr>u_scheme = sch, u_opaque = [], u_user = us, u_host = h, u_path = p, u_query = q, u_fragment = []\<rparr>"

text \<open>The body of \<^verbatim>\<open>url.Parse\<close> on the part before the fragment.\<close>

definition parse_no_frag :: "string \<Rightarrow> url option" where
  "parse_no_frag raw =
     (if list_ex (\<lambda>c. (of_char c :: nat) < 32 \<or> of_char c = (127 :: nat)) raw then None
      else if raw = ''*'' then Some (mk_url [] None [] ''*'' None)
      else case get_scheme raw of
             None \<Rightarrow> None
           | Some (sch0, rest0) \<Rightarrow>
               (let sch = to_lower sch0; (rest, q) = cut_str (CHR ''?'') rest0
                in if \<not> has_prefix rest ''/'' \<and> sch \<noteq> [] then
                     Some (mk_url sch None [] [] q \<lparr>u_opaque := rest\<rparr>)
                   else if \<not> has_prefix rest ''/'' \<and> CHR '':'' \<in> set (fst (cut_str (CHR ''/'') rest)) then None
                   else if (sch \<noteq> [] \<or> \<not> has_prefix rest ''///'') \<and> has_prefix rest ''//'' then
                     (let a = drop 2 rest;
                          (auth, path) = (case index_of ''/'' a of None \<Rightarrow> (a, []) | Some i \<Rightarrow> (take i a, drop i a))
                      in case parse_authority sch auth of
                           None \<Rightarrow> None
                         | Some (us, h) \<Rightarrow>
                             if unescape EncPath path = None then None else Some (mk_url sch us h path q))
                   else if unescape EncPath rest = None then None
                   else Some (mk_url sch None [] rest q)))"

definition url_parse :: "string \<Rightarrow> url option" where
  "url_parse raw =
     (let (u, frag) = cut_str (CHR ''#'') raw
      in case parse_no_frag u of
           None \<Rightarrow> None
         | Some r \<Rightarrow>
             (case frag of
                None \<Rightarrow> Some r
              | Some f \<Rightarrow> if unescape EncFragment f = None then None else Some (r\<lparr>u_fragment := f\<rparr>)))"

definition user_String :: "string \<times> string option \<Rightarrow> string" where
  "user_String u = escape EncUser (fst u) @ (case snd u of None \<Rightarrow> [] | Some p \<Rightarrow> '':'' @ escape EncUser p)"

text \<open>\<^verbatim>\<open>URL.String\<close>.\<close>

definition url_String :: "url \<Rightarrow> string" where
  "url_String u =
     (let sch = (if u_scheme u = [] then [] else u_scheme u @ '':'');
          path = escaped_text EncPath (u_path u);
          auth = (if u_host u = [] \<and> u_user u = None then []
                  else ''//'' @ (case u_user u of None \<Rightarrow> [] | Some us \<Rightarrow> user_String us @ ''@'') @
                       escape EncHost (u_host u));
          slash = (if path \<noteq> [] \<and> hd path \<noteq> CHR ''/'' \<and> u_host u \<noteq> [] then ''/'' else []);
          dot = (if sch @ auth @ slash = [] \<and> CHR '':'' \<in> set (fst (cut_str (CHR ''/'') path)) then ''./'' else []);
          body = (if u_opaque u \<noteq> [] then u_opaque u else auth @ slash @ dot @ path);
          qry = (case u_query u of None \<Rightarrow> [] | Some q \<Rightarrow> ''?'' @ q);
          frg = (if u_fragment u = [] then [] else ''#'' @ escaped_text EncFragment (u_fragment u))
      in sch @ body @ qry @ frg)"

text \<open>\<^verbatim>\<open>URL.Hostname\<close> and \<^verbatim>\<open>URL.Port\<close>.\<close>

definition url_split_host :: "string \<Rightarrow> string \<times> string" where
  "url_split_host hp =
     (let (h, p) = (case last_index (CHR '':'') hp of
                      None \<Rightarrow> (hp, [])
                    | Some i \<Rightarrow> if valid_optional_port (drop i hp) then (take i hp, drop (Suc i) hp) else (hp, []))
      in if has_prefix h ''['' \<and> last h = CHR '']'' then (butlast (tl h), p) else (h, p))"

definition url_Hostname :: "url \<Rightarrow> string" where
  "url_Hostname u = fst (url_split_host (u_host u))"

definition url_Port :: "url \<Rightarrow> string" where
  "url_Port u = snd (url_split_host (u_host u))"

text \<open>\<^verbatim>\<open>net.JoinHostPort\<close>.\<close>

definition join_host_port :: "string \<Rightarrow> string \<Rightarrow> string" where
  "join_host_port host port = (if CHR '':'' \<in> set host then ''['' @ host @ '']:'' @ port else host @ '':'' @ port)"

section \<open>Facts about the parser\<close>

lemma list_set_consE:
  assumes "c \<in> set (x # xs)" obtains "c = x" | "c \<in> set xs"
  using assms by auto

lemma cut_str_absent: "c \<notin> set s \<Longrightarrow> cut_str c s = (s, None)"
  using index_of_char_None [of c s] by (simp add: cut_str_def)

lemma unescape_plain:
  assumes "\<forall>c \<in> set s. c \<noteq> CHR ''%'' \<and> (m = EncHost \<longrightarrow> \<not> should_escape m c)"
  shows "unescape m s = Some s"
  using assms by (induction s) auto

lemma digit_facts:
  assumes "is_digit c"
  shows "c \<notin> set ''#?/:@[]%-+>.'' " "unreserved c" "\<not> ((of_char c :: nat) < 32)" "of_char c \<noteq> (127 :: nat)"
  using assms by (auto simp: is_digit_def unreserved_def Let_def)

end
