(* ===== verification/Port_Config.thy ===== *)
theory Port_Config
  imports Go_Net
begin

text \<open>
  \<^verbatim>\<open>src/internal/model/port.go\<close>: the port labels of a target, their parser, the
  expansion of port ranges, the options a label may carry, and the list of target
  URLs of a port. The pointer to the shared \<^verbatim>\<open>targetState\<close> is an optional list of URLs
  inside the record (\<open>None\<close> is the nil pointer); its mutex makes each operation atomic.
  On an error the Go parser also returns a half-filled config, which every caller
  drops: here an error is \<open>Inl\<close>.
\<close>

section \<open>Data\<close>

record TailscalePort =
  tp_Funnel :: bool

record PortConfig =
  pc_targets :: "url list option"
  pc_name :: string
  pc_ProxyProtocol :: string
  pc_ProxyPort :: int
  pc_TLSValidate :: bool
  pc_NoAutoDetect :: bool
  pc_IsRedirect :: bool
  pc_Tailscale :: TailscalePort

type_synonym PortConfigList = "(string, PortConfig) gomap"

datatype port_cause = NotANumber string | PortOutOfRange int

datatype port_error =
    ErrInvalidProxyConfig
  | ErrInvalidTargetConfig
  | InvalidProxyPort port_cause
  | InvalidTargetPort port_cause
  | InvalidProxyProtocol string
  | UrlParseError string
  | InvalidTargetURL string
  | InvalidRedirectScheme string
  | RangeRedirectUnsupported
  | RangeBadFormat string
  | RangeStartGreater int int
  | RangeTooLarge int
  | RangeLengthMismatch nat nat
  | RangeCause port_cause

definition redirectSeparator :: string where "redirectSeparator = ''->''"
definition proxySeparator :: string where "proxySeparator = '':''"
definition protocolSeparator :: string where "protocolSeparator = ''/''"
definition rangeSep :: string where "rangeSep = ''-''"
definition defaultProxyPort :: int where "defaultProxyPort = 443"
definition minPort :: int where "minPort = 1"
definition maxPort :: int where "maxPort = 65535"
definition maxRangeLen :: int where "maxRangeLen = 1000"
definition DefaultTLSValidate :: bool where "DefaultTLSValidate = True"

abbreviation ProtoHTTPS :: string where "ProtoHTTPS \<equiv> ''https''"
abbreviation ProtoHTTP :: string where "ProtoHTTP \<equiv> ''http''"
abbreviation ProtoTCP :: string where "ProtoTCP \<equiv> ''tcp''"
abbreviation ProtoUDP :: string where "ProtoUDP \<equiv> ''udp''"

definition protocols :: "string list" where
  "protocols = [ProtoHTTPS, ProtoHTTP, ProtoTCP, ProtoUDP]"

lemmas port_consts = redirectSeparator_def proxySeparator_def protocolSeparator_def rangeSep_def
  defaultProxyPort_def minPort_def maxPort_def maxRangeLen_def DefaultTLSValidate_def

section \<open>Targets of a port\<close>

definition ts_replace :: "url \<Rightarrow> url \<Rightarrow> url list \<Rightarrow> url list" where
  "ts_replace origin target ts = map (\<lambda>v. if url_String v = url_String origin then target else v) ts"

text \<open>\<^verbatim>\<open>getFirst\<close> copies through a print and a parse.\<close>

definition ts_getFirst :: "url list \<Rightarrow> url option" where
  "ts_getFirst ts = (case ts of [] \<Rightarrow> None | t # _ \<Rightarrow> url_parse (url_String t))"

definition GetTargets :: "PortConfig \<Rightarrow> url list" where
  "GetTargets p = (case pc_targets p of None \<Rightarrow> [] | Some ts \<Rightarrow> ts)"

definition GetFirstTarget :: "PortConfig \<Rightarrow> url option" where
  "GetFirstTarget p = (case pc_targets p of None \<Rightarrow> None | Some ts \<Rightarrow> ts_getFirst ts)"

definition GetFirstTargetString :: "PortConfig \<Rightarrow> string" where
  "GetFirstTargetString p = (case GetFirstTarget p of None \<Rightarrow> [] | Some t \<Rightarrow> url_String t)"

definition AddTarget :: "url \<Rightarrow> PortConfig \<Rightarrow> PortConfig" where
  "AddTarget t p = p\<lparr>pc_targets := Some ((case pc_targets p of None \<Rightarrow> [] | Some ts \<Rightarrow> ts) @ [t])\<rparr>"

definition ReplaceTarget :: "url \<Rightarrow> url \<Rightarrow> PortConfig \<Rightarrow> PortConfig" where
  "ReplaceTarget origin target p = p\<lparr>pc_targets := map_option (ts_replace origin target) (pc_targets p)\<rparr>"

section \<open>Parsing one label\<close>

definition validatePortRange :: "int \<Rightarrow> port_cause option" where
  "validatePortRange port = (if port < minPort \<or> port > maxPort then Some (PortOutOfRange port) else None)"

definition defaultPortConfig :: "string \<Rightarrow> PortConfig" where
  "defaultPortConfig name =
     \<lparr>pc_targets = Some [], pc_name = name, pc_ProxyProtocol = ProtoHTTPS,
      pc_ProxyPort = defaultProxyPort, pc_TLSValidate = DefaultTLSValidate,
      pc_NoAutoDetect = False, pc_IsRedirect = False, pc_Tailscale = \<lparr>tp_Funnel = False\<rparr>\<rparr>"

definition detectSeparator :: "string \<Rightarrow> string" where
  "detectSeparator s = (if contains_str s redirectSeparator then redirectSeparator else proxySeparator)"

definition parseProxySegment :: "string \<Rightarrow> PortConfig \<Rightarrow> port_error + PortConfig" where
  "parseProxySegment segment config =
     (let proxyParts = split_str protocolSeparator segment
      in if length proxyParts > 2 then Inl ErrInvalidProxyConfig
         else case atoi (hd proxyParts) of
                None \<Rightarrow> Inl (InvalidProxyPort (NotANumber (hd proxyParts)))
              | Some proxyPort \<Rightarrow>
                  (case validatePortRange proxyPort of
                     Some e \<Rightarrow> Inl (InvalidProxyPort e)
                   | None \<Rightarrow>
                       (let config = config\<lparr>pc_ProxyPort := proxyPort\<rparr>
                        in if length proxyParts = 2 then
                             (let proto = proxyParts ! 1
                              in if proto \<in> set protocols then Inr (config\<lparr>pc_ProxyProtocol := proto\<rparr>)
                                 else Inl (InvalidProxyProtocol proto))
                           else Inr config)))"

definition defaultTargetProtocol :: "string \<Rightarrow> string" where
  "defaultTargetProtocol proxyProtocol =
     (if proxyProtocol = ProtoTCP then ProtoTCP
      else if proxyProtocol = ProtoUDP then ProtoUDP else ProtoHTTP)"

definition parseTargetSegment :: "string \<Rightarrow> PortConfig \<Rightarrow> port_error + PortConfig" where
  "parseTargetSegment segment config =
     (let targetParts = split_str protocolSeparator segment
      in if length targetParts > 2 then Inl ErrInvalidTargetConfig
         else case atoi (hd targetParts) of
                None \<Rightarrow> Inl (InvalidTargetPort (NotANumber (hd targetParts)))
              | Some targetPort \<Rightarrow>
                  (case validatePortRange targetPort of
                     Some e \<Rightarrow> Inl (InvalidTargetPort e)
                   | None \<Rightarrow>
                       (let targetProtocol =
                              (if length targetParts = 2 then targetParts ! 1
                               else defaultTargetProtocol (pc_ProxyProtocol config));
                            raw = targetProtocol @ ''://0.0.0.0:'' @ hd targetParts
                        in case url_parse raw of
                             None \<Rightarrow> Inl (UrlParseError raw)
                           | Some u \<Rightarrow> Inr (config\<lparr>pc_targets := Some [u]\<rparr>))))"

definition parseRedirectTarget :: "string \<Rightarrow> PortConfig \<Rightarrow> port_error + PortConfig" where
  "parseRedirectTarget segment config =
     (case url_parse segment of
        None \<Rightarrow> Inl (InvalidTargetURL segment)
      | Some u \<Rightarrow>
          if u_scheme u = [] \<or> u_host u = [] then Inl (InvalidTargetURL segment)
          else if u_scheme u \<noteq> ProtoHTTP \<and> u_scheme u \<noteq> ProtoHTTPS then Inl (InvalidRedirectScheme (u_scheme u))
          else Inr (AddTarget u config))"

definition NewPortLongLabel :: "string \<Rightarrow> port_error + PortConfig" where
  "NewPortLongLabel s =
     (let config = defaultPortConfig s;
          separator = detectSeparator s;
          parts = split_str separator s
      in if length parts \<noteq> 2 then Inl ErrInvalidProxyConfig
         else case parseProxySegment (parts ! 0) config of
                Inl e \<Rightarrow> Inl e
              | Inr config \<Rightarrow>
                  if separator = redirectSeparator then
                    parseRedirectTarget (parts ! 1) (config\<lparr>pc_IsRedirect := True\<rparr>)
                  else parseTargetSegment (parts ! 1) config)"

definition NewPortShortLabel :: "string \<Rightarrow> port_error + PortConfig" where
  "NewPortShortLabel s = parseProxySegment s (defaultPortConfig s)"

section \<open>Ranges\<close>

definition isPortRange :: "string \<Rightarrow> bool" where
  "isPortRange s =
     (let parts = splitN2 rangeSep s
      in if length parts \<noteq> 2 then False else atoi (parts ! 0) \<noteq> None \<and> atoi (parts ! 1) \<noteq> None)"

definition parsePortRange :: "string \<Rightarrow> port_error + (int \<times> int)" where
  "parsePortRange s =
     (let parts = splitN2 rangeSep s
      in if length parts \<noteq> 2 then Inl (RangeBadFormat s)
         else case atoi (parts ! 0) of
                None \<Rightarrow> Inl (RangeCause (NotANumber (parts ! 0)))
              | Some start \<Rightarrow>
                  (case atoi (parts ! 1) of
                     None \<Rightarrow> Inl (RangeCause (NotANumber (parts ! 1)))
                   | Some end' \<Rightarrow>
                       (case validatePortRange start of
                          Some e \<Rightarrow> Inl (RangeCause e)
                        | None \<Rightarrow>
                            (case validatePortRange end' of
                               Some e \<Rightarrow> Inl (RangeCause e)
                             | None \<Rightarrow>
                                 if start > end' then Inl (RangeStartGreater start end')
                                 else if end' - start + 1 > maxRangeLen then Inl (RangeTooLarge (end' - start + 1))
                                 else Inr (start, end')))))"

definition IsPortRangeLabel :: "string \<Rightarrow> bool" where
  "IsPortRangeLabel s =
     (let separator = detectSeparator s;
          parts = split_str separator s
      in if length parts \<noteq> 2 then False
         else if isPortRange (hd (splitN2 protocolSeparator (parts ! 0))) then True
         else if separator \<noteq> redirectSeparator then isPortRange (hd (splitN2 protocolSeparator (parts ! 1)))
         else False)"

definition parsePortList :: "string \<Rightarrow> port_error + int list" where
  "parsePortList s =
     (if isPortRange s then
        (case parsePortRange s of Inl e \<Rightarrow> Inl e | Inr (start, end') \<Rightarrow> Inr [start..end'])
      else case atoi s of
             None \<Rightarrow> Inl (RangeCause (NotANumber s))
           | Some port \<Rightarrow>
               (case validatePortRange port of Some e \<Rightarrow> Inl (RangeCause e) | None \<Rightarrow> Inr [port]))"

definition port_at :: "int list \<Rightarrow> nat \<Rightarrow> int" where
  "port_at ports i = (if length ports > 1 then ports ! i else ports ! 0)"

definition range_name :: "int \<Rightarrow> string \<Rightarrow> int \<Rightarrow> string \<Rightarrow> string" where
  "range_name p pr t tr = itoa p @ ''/'' @ pr @ '':'' @ itoa t @ ''/'' @ tr"

definition range_cfg :: "int \<Rightarrow> string \<Rightarrow> string \<Rightarrow> url list \<Rightarrow> PortConfig" where
  "range_cfg port proto name targets =
     \<lparr>pc_targets = Some targets, pc_name = name, pc_ProxyProtocol = proto, pc_ProxyPort = port,
      pc_TLSValidate = DefaultTLSValidate, pc_NoAutoDetect = False, pc_IsRedirect = False,
      pc_Tailscale = \<lparr>tp_Funnel = False\<rparr>\<rparr>"

definition range_key :: "nat \<Rightarrow> string" where
  "range_key i = ''range_'' @ show_nat i"

fun expand_loop :: "int list \<Rightarrow> int list \<Rightarrow> string \<Rightarrow> string \<Rightarrow> nat list \<Rightarrow> PortConfigList \<Rightarrow> port_error + PortConfigList" where
  "expand_loop pps tps pr tr [] result = Inr result"
| "expand_loop pps tps pr tr (i # is) result =
     (let proxyPort = port_at pps i; targetPort = port_at tps i;
          name = range_name proxyPort pr targetPort tr;
          raw = tr @ ''://0.0.0.0:'' @ itoa targetPort
      in case url_parse raw of
           None \<Rightarrow> Inl (UrlParseError raw)
         | Some u \<Rightarrow> expand_loop pps tps pr tr is (gm_put (range_key i) (range_cfg proxyPort pr name [u]) result))"

definition expandPortConfigs :: "int list \<Rightarrow> int list \<Rightarrow> string \<Rightarrow> string \<Rightarrow> port_error + PortConfigList" where
  "expandPortConfigs pps tps pr tr =
     (if length pps > 1 \<and> length tps > 1 \<and> length pps \<noteq> length tps
      then Inl (RangeLengthMismatch (length pps) (length tps))
      else let count = (if length tps > length pps then length tps else length pps)
           in expand_loop pps tps pr tr [0..<count] [])"

definition ExpandPortRangeLabel :: "string \<Rightarrow> port_error + PortConfigList" where
  "ExpandPortRangeLabel s =
     (let separator = detectSeparator s
      in if separator = redirectSeparator then Inl RangeRedirectUnsupported
         else let parts = split_str separator s
              in if length parts \<noteq> 2 then Inl ErrInvalidProxyConfig
                 else let proxyParts = splitN2 protocolSeparator (parts ! 0);
                          proxyProtocol = (if length proxyParts = 2 then proxyParts ! 1 else ProtoHTTPS);
                          targetParts = splitN2 protocolSeparator (parts ! 1);
                          targetProtocol = (if length targetParts = 2 then targetParts ! 1
                                            else defaultTargetProtocol proxyProtocol)
                      in case parsePortList (proxyParts ! 0) of
                           Inl e \<Rightarrow> Inl e
                         | Inr proxyPorts \<Rightarrow>
                             (case parsePortList (targetParts ! 0) of
                                Inl e \<Rightarrow> Inl e
                              | Inr targetPorts \<Rightarrow>
                                  expandPortConfigs proxyPorts targetPorts proxyProtocol targetProtocol))"

definition short_range_cfg :: "string \<Rightarrow> int \<Rightarrow> PortConfig" where
  "short_range_cfg proto p = range_cfg p proto (itoa p @ ''/'' @ proto) []"

definition ExpandPortRangeShortLabel :: "string \<Rightarrow> port_error + PortConfigList" where
  "ExpandPortRangeShortLabel s =
     (let proxyParts = splitN2 protocolSeparator s;
          proxyProtocol = (if length proxyParts = 2 then proxyParts ! 1 else ProtoHTTPS)
      in if \<not> isPortRange (proxyParts ! 0) then
           (case NewPortShortLabel s of Inl e \<Rightarrow> Inl e | Inr cfg \<Rightarrow> Inr [(''range_0'', cfg)])
         else case parsePortRange (proxyParts ! 0) of
                Inl e \<Rightarrow> Inl e
              | Inr (start, end') \<Rightarrow>
                  Inr (fold (\<lambda>(idx, p) r. gm_put (range_key idx) (short_range_cfg proxyProtocol p) r)
                         (List.enumerate 0 [start..end']) []))"

definition IsPortRangeShortLabel :: "string \<Rightarrow> bool" where
  "IsPortRangeShortLabel s = isPortRange (hd (splitN2 protocolSeparator s))"

section \<open>Options\<close>

record PortOptionGates =
  g_FunnelSettingName :: string
  g_AllowTLSValidateDisable :: bool
  g_AllowFunnel :: bool
  g_SupportNoAutoDetect :: bool

definition PortOptionNoTLSValidate :: string where "PortOptionNoTLSValidate = ''no_tlsvalidate''"
definition PortOptionTailscaleFunnel :: string where "PortOptionTailscaleFunnel = ''tailscale_funnel''"
definition PortOptionNoAutoDetect :: string where "PortOptionNoAutoDetect = ''no_autodetect''"

text \<open>One iteration of \<^verbatim>\<open>ApplyPortOptions\<close>; refused and unknown options only log a warning.\<close>

definition apply_option :: "PortOptionGates \<Rightarrow> string \<Rightarrow> PortConfig \<Rightarrow> PortConfig" where
  "apply_option gates opt port =
     (let opt = trim_space opt
      in if opt = PortOptionNoTLSValidate then
           (if \<not> g_AllowTLSValidateDisable gates then port else port\<lparr>pc_TLSValidate := False\<rparr>)
         else if opt = PortOptionTailscaleFunnel then
           (if \<not> g_AllowFunnel gates then port
            else port\<lparr>pc_Tailscale := (pc_Tailscale port)\<lparr>tp_Funnel := True\<rparr>\<rparr>)
         else if opt = PortOptionNoAutoDetect then
           (if \<not> g_SupportNoAutoDetect gates then port else port\<lparr>pc_NoAutoDetect := True\<rparr>)
         else port)"

definition ApplyPortOptions :: "PortOptionGates \<Rightarrow> PortConfig \<Rightarrow> string list \<Rightarrow> PortConfig" where
  "ApplyPortOptions gates port options = fold (apply_option gates) options port"

section \<open>The ports of a target\<close>

text \<open>The target resolver is supplied by the target provider; \<open>None\<close> is its error.\<close>

type_synonym TargetResolver = "PortConfig \<Rightarrow> PortConfig option"

definition finish_port :: "PortOptionGates \<Rightarrow> TargetResolver \<Rightarrow> string list \<Rightarrow> PortConfig \<Rightarrow> PortConfig option" where
  "finish_port gates resolve options port =
     (let port = ApplyPortOptions gates port options
      in if \<not> pc_IsRedirect port then resolve port else Some port)"

definition add_port :: "string \<Rightarrow> PortConfig option \<Rightarrow> PortConfigList \<Rightarrow> PortConfigList" where
  "add_port k r ports = (case r of None \<Rightarrow> ports | Some port \<Rightarrow> gm_put k port ports)"

definition ports_entry :: "string \<Rightarrow> PortOptionGates \<Rightarrow> TargetResolver \<Rightarrow> string \<times> string \<Rightarrow> PortConfigList \<Rightarrow> PortConfigList" where
  "ports_entry pfx gates resolve kv ports =
     (let (k, v) = kv
      in if \<not> has_prefix k pfx then ports
         else let parts = split_str '','' v; configStr = parts ! 0
              in if IsPortRangeLabel configStr then
                   (case ExpandPortRangeLabel configStr of
                      Inl _ \<Rightarrow> ports
                    | Inr expanded \<Rightarrow>
                        fold (\<lambda>(rangeKey, port) acc.
                                add_port (k @ ''.'' @ rangeKey) (finish_port gates resolve (tl parts) port) acc)
                          expanded ports)
                 else case NewPortLongLabel (parts ! 0) of
                        Inl _ \<Rightarrow> ports
                      | Inr port \<Rightarrow> add_port k (finish_port gates resolve (tl parts) port) ports)"

definition Ports :: "(string, string) gomap \<Rightarrow> string \<Rightarrow> PortOptionGates \<Rightarrow> TargetResolver \<Rightarrow> PortConfigList" where
  "Ports m pfx gates resolve = fold (ports_entry pfx gates resolve) m []"

end
