(* ===== verification/Port_Labels.thy ===== *)
theory Port_Labels
  imports Port_Config
begin

text \<open>
  What the label parser of \<^verbatim>\<open>src/internal/model/port.go\<close> guarantees: a printed label parses
  back, whatever parses is in range, a range label is the sequence of its individual
  labels, and the options of a label act exactly as their gates allow.
\<close>

section \<open>Vocabulary of the statements\<close>

definition target_url :: "string \<Rightarrow> int \<Rightarrow> url" where
  "target_url pr t = mk_url pr None (''0.0.0.0:'' @ itoa t) [] None"

definition range_entry :: "int list \<Rightarrow> int list \<Rightarrow> string \<Rightarrow> string \<Rightarrow> nat \<Rightarrow> string \<times> PortConfig" where
  "range_entry pps tps pr tr i =
     (range_key i, range_cfg (port_at pps i) pr (range_name (port_at pps i) pr (port_at tps i) tr)
        [the (url_parse (tr @ ''://0.0.0.0:'' @ itoa (port_at tps i)))])"

definition range_label :: "int \<Rightarrow> int \<Rightarrow> string \<Rightarrow> int \<Rightarrow> int \<Rightarrow> string \<Rightarrow> string" where
  "range_label a b pr c d tr =
     (itoa a @ ''-'' @ itoa b @ ''/'' @ pr) @ '':'' @ (itoa c @ ''-'' @ itoa d @ ''/'' @ tr)"

definition gated :: "PortOptionGates \<Rightarrow> PortConfig \<Rightarrow> bool" where
  "gated g c \<longleftrightarrow> (pc_TLSValidate c \<or> g_AllowTLSValidateDisable g) \<and>
     (tp_Funnel (pc_Tailscale c) \<longrightarrow> g_AllowFunnel g)"

definition ungated_default :: "PortConfig \<Rightarrow> bool" where
  "ungated_default c \<longleftrightarrow> pc_TLSValidate c \<and> \<not> tp_Funnel (pc_Tailscale c)"

definition ports_ok :: "string \<Rightarrow> PortOptionGates \<Rightarrow> PortConfigList \<Rightarrow> bool" where
  "ports_ok pfx g ports \<longleftrightarrow> (\<forall>(k, c) \<in> set ports. has_prefix k pfx \<and> gated g c)"

section \<open>Parsing lemmas\<close>

lemma unescape_any_host:
  assumes ds: "\<forall>c \<in> set ds. is_digit c"
  shows "unescape EncHost (''0.0.0.0:'' @ ds) = Some (''0.0.0.0:'' @ ds)"
proof (rule unescape_plain, intro ballI conjI impI)
  fix c assume c: "c \<in> set (''0.0.0.0:'' @ ds)"
  then show "c \<noteq> CHR ''%''" using ds digit_facts(1) by fastforce
  from c ds have "c \<in> set ''0.:'' \<or> is_digit c" by auto
  then have "unreserved c \<or> c = CHR '':''"
  proof
    assume "c \<in> set ''0.:''"
    then show ?thesis by (elim list_set_consE) (simp_all add: unreserved_def)
  next
    assume "is_digit c"
    then show ?thesis by (simp add: digit_facts(2))
  qed
  then show "\<not> should_escape EncHost c"
    by (elim disjE) (simp_all add: should_escape_def)
qed

lemma parse_authority_any:
  assumes ds: "\<forall>c \<in> set ds. is_digit c"
  shows "parse_authority sc (''0.0.0.0:'' @ ds) = Some (None, ''0.0.0.0:'' @ ds)"
proof -
  have nd: "c \<notin> set ds" if "c \<in> set ''#?/:@[]%-+>.''" for c
    using ds that digit_facts(1) by blast
  have vp: "valid_optional_port ('':'' @ ds)"
    using ds by (simp add: valid_optional_port_def list_all_iff)
  have ix: "index_of '':'' (''0.0.0.0:'' @ ds) = Some 7"
    by (simp add: has_prefix_def)
  have lx: "last_index (CHR '':'') (''0.0.0.0:'' @ ds) = Some 7"
    using last_index_append [of "CHR '':''" ds "''0.0.0.0''"] nd by simp
  have nb: "last_index (CHR ''['') (''0.0.0.0:'' @ ds) = None" "last_index (CHR ''@'') (''0.0.0.0:'' @ ds) = None"
    using nd by (simp_all add: last_index_None)
  have "parse_host sc (''0.0.0.0:'' @ ds) = Some (''0.0.0.0:'' @ ds)"
    using vp unescape_any_host [OF ds] unfolding parse_host_def nb(1) ix lx by simp
  then show ?thesis
    unfolding parse_authority_def nb(2) by simp
qed

lemma parse_no_frag_target:
  assumes pr: "pr \<in> set protocols" and ds: "\<forall>c \<in> set ds. is_digit c"
  shows "parse_no_frag (pr @ ''://0.0.0.0:'' @ ds) = Some (mk_url pr None (''0.0.0.0:'' @ ds) [] None)"
proof -
  have nd: "c \<notin> set ds" if "c \<in> set ''#?/:@[]%-+>.''" for c
    using ds that digit_facts(1) by blast
  have "\<not> list_ex (\<lambda>c. (of_char c :: nat) < 32 \<or> of_char c = (127 :: nat)) ds"
    using ds by (simp add: list_ex_iff digit_facts(3,4))
  then have ctl: "\<not> list_ex (\<lambda>c. (of_char c :: nat) < 32 \<or> of_char c = (127 :: nat)) (pr @ ''://0.0.0.0:'' @ ds)"
    using pr by (auto simp: protocols_def)
  have sch: "get_scheme (pr @ ''://0.0.0.0:'' @ ds) = Some (pr, ''//0.0.0.0:'' @ ds)"
    using pr by (auto simp: protocols_def get_scheme_def scheme_start_def scheme_char_def)
  have low: "to_lower pr = pr"
    using pr by (auto simp: protocols_def to_lower_def lower_char_def)
  have q: "cut_str (CHR ''?'') (''//0.0.0.0:'' @ ds) = (''//0.0.0.0:'' @ ds, None)"
    by (rule cut_str_absent) (simp add: nd)
  have sl: "index_of ''/'' (''0.0.0.0:'' @ ds) = None"
    unfolding index_of_char_None by (simp add: nd)
  have ne: "pr @ ''://0.0.0.0:'' @ ds \<noteq> ''*''" "pr \<noteq> []"
    using pr by (auto simp: protocols_def)
  have pre: "has_prefix (''//0.0.0.0:'' @ ds) ''/''" "has_prefix (''//0.0.0.0:'' @ ds) ''//''"
    "drop 2 (''//0.0.0.0:'' @ ds) = ''0.0.0.0:'' @ ds"
    by (simp_all add: has_prefix_def)
  show ?thesis
    unfolding parse_no_frag_def sch q option.case prod.case Let_def low pre(3) sl parse_authority_any [OF ds]
    by (simp only: ctl ne pre if_False if_True simp_thms unescape.simps option.distinct)
qed

lemma url_parse_target:
  assumes pr: "pr \<in> set protocols" and ds: "\<forall>c \<in> set ds. is_digit c"
  shows "url_parse (pr @ ''://0.0.0.0:'' @ ds) = Some (mk_url pr None (''0.0.0.0:'' @ ds) [] None)"
proof -
  have "CHR ''#'' \<notin> set ds" using ds digit_facts(1) by fastforce
  moreover have "CHR ''#'' \<notin> set pr" using pr by (auto simp: protocols_def)
  ultimately have "cut_str (CHR ''#'') (pr @ ''://0.0.0.0:'' @ ds) = (pr @ ''://0.0.0.0:'' @ ds, None)"
    by (intro cut_str_absent) simp
  then show ?thesis
    unfolding url_parse_def using parse_no_frag_target [OF assms] by simp
qed

lemma proto_chars: "pr \<in> set protocols \<Longrightarrow> CHR ''>'' \<notin> set pr \<and> CHR ''-'' \<notin> set pr \<and> CHR '':'' \<notin> set pr \<and> CHR ''/'' \<notin> set pr"
  by (auto simp: protocols_def)

lemma itoa_chars: "0 \<le> i \<Longrightarrow> c \<in> set ''#?/:@[]%-+>.'' \<Longrightarrow> c \<notin> set (itoa i)"
  using itoa_digits digit_facts(1) by blast

lemma url_parse_target_url:
  "pr \<in> set protocols \<Longrightarrow> 0 \<le> t \<Longrightarrow> url_parse (pr @ ''://0.0.0.0:'' @ itoa t) = Some (target_url pr t)"
  using url_parse_target itoa_digits by (simp add: target_url_def)

lemma validatePortRange_None: "validatePortRange p = None \<longleftrightarrow> 1 \<le> p \<and> p \<le> 65535"
  by (auto simp: validatePortRange_def port_consts)

lemma port_in_int64: "1 \<le> p \<Longrightarrow> p \<le> 65535 \<Longrightarrow> in_int64 p"
  by (simp add: in_int64_def int64_min_def int64_max_def)

lemma parseProxySegment_print:
  assumes "1 \<le> p" "p \<le> 65535" "pr \<in> set protocols"
  shows "parseProxySegment (itoa p @ ''/'' @ pr) c = Inr (c\<lparr>pc_ProxyPort := p, pc_ProxyProtocol := pr\<rparr>)"
proof -
  have "split_str ''/'' (itoa p @ CHR ''/'' # pr) = [itoa p, pr]"
    using assms proto_chars itoa_chars by (simp add: split_str_cons split_str_absent)
  moreover have "atoi (itoa p) = Some p" "validatePortRange p = None"
    using assms by (simp_all add: atoi_itoa port_in_int64 validatePortRange_None)
  ultimately show ?thesis
    using assms(3) by (simp add: parseProxySegment_def protocolSeparator_def)
qed

lemma parseTargetSegment_print:
  assumes "1 \<le> t" "t \<le> 65535" "tr \<in> set protocols"
  shows "parseTargetSegment (itoa t @ ''/'' @ tr) c = Inr (c\<lparr>pc_targets := Some [target_url tr t]\<rparr>)"
proof -
  have "split_str ''/'' (itoa t @ CHR ''/'' # tr) = [itoa t, tr]"
    using assms proto_chars itoa_chars by (simp add: split_str_cons split_str_absent)
  moreover have "atoi (itoa t) = Some t" "validatePortRange t = None"
    using assms by (simp_all add: atoi_itoa port_in_int64 validatePortRange_None)
  ultimately show ?thesis
    using assms url_parse_target_url [of tr t] by (simp add: parseTargetSegment_def protocolSeparator_def)
qed

lemma range_name_parts:
  assumes "0 \<le> p" "0 \<le> t" "pr \<in> set protocols" "tr \<in> set protocols"
  shows "detectSeparator (range_name p pr t tr) = '':''"
    and "split_str '':'' (range_name p pr t tr) = [itoa p @ ''/'' @ pr, itoa t @ ''/'' @ tr]"
proof -
  have "CHR ''-'' \<notin> set (range_name p pr t tr)"
    using assms proto_chars itoa_chars by (simp add: range_name_def)
  then show "detectSeparator (range_name p pr t tr) = '':''"
    by (simp add: detectSeparator_def contains_str_def port_consts index_of_head_absent)
  have "CHR '':'' \<notin> set (itoa p @ ''/'' @ pr)" "CHR '':'' \<notin> set (itoa t @ ''/'' @ tr)"
    using assms proto_chars itoa_chars by simp_all
  then show "split_str '':'' (range_name p pr t tr) = [itoa p @ ''/'' @ pr, itoa t @ ''/'' @ tr]"
    using split_str_cons [of "CHR '':''" "itoa p @ ''/'' @ pr" "itoa t @ ''/'' @ tr"]
    by (simp add: range_name_def split_str_absent)
qed

lemma NewPortLongLabel_plain:
  assumes "detectSeparator s = '':''" and "split_str '':'' s = [a, b]"
  shows "NewPortLongLabel s =
    (case parseProxySegment a (defaultPortConfig s) of Inl e \<Rightarrow> Inl e | Inr c \<Rightarrow> parseTargetSegment b c)"
  by (simp add: NewPortLongLabel_def assms redirectSeparator_def Let_def split: sum.split)

lemma NewPortLongLabel_roundtrip_aux:
  assumes "1 \<le> p" "p \<le> 65535" "1 \<le> t" "t \<le> 65535"
    and "pr \<in> set protocols" "tr \<in> set protocols"
  shows "NewPortLongLabel (range_name p pr t tr) = Inr (range_cfg p pr (range_name p pr t tr) [target_url tr t])"
proof -
  have "NewPortLongLabel (range_name p pr t tr) =
      (case parseProxySegment (itoa p @ ''/'' @ pr) (defaultPortConfig (range_name p pr t tr)) of
         Inl e \<Rightarrow> Inl e | Inr c \<Rightarrow> parseTargetSegment (itoa t @ ''/'' @ tr) c)"
    by (rule NewPortLongLabel_plain) (use assms range_name_parts in simp_all)
  also have "\<dots> = Inr (range_cfg p pr (range_name p pr t tr) [target_url tr t])"
    unfolding parseProxySegment_print [OF assms(1,2,5)] sum.case parseTargetSegment_print [OF assms(3,4,6)]
    by (simp add: defaultPortConfig_def range_cfg_def)
  finally show ?thesis .
qed

text \<open>
  C20: printing a port pair as the label \<^verbatim>\<open>P/proto:T/proto\<close> and parsing it with
  \<^verbatim>\<open>NewPortLongLabel\<close> gives back exactly that proxy port, proxy protocol and target
  URL, for every pair of valid ports and every pair of supported protocols.
\<close>

theorem NewPortLongLabel_roundtrip:
  assumes "1 \<le> p" "p \<le> 65535" "1 \<le> t" "t \<le> 65535"
    and "pr \<in> set protocols" "tr \<in> set protocols"
  shows "NewPortLongLabel (range_name p pr t tr) = Inr (range_cfg p pr (range_name p pr t tr) [target_url tr t])"
  using assms by (rule NewPortLongLabel_roundtrip_aux)

theorem NewPortLongLabel_roundtrip_witness:
  "NewPortLongLabel ''443/https:8080/http'' =
     Inr (range_cfg 443 ''https'' ''443/https:8080/http'' [target_url ''http'' 8080])"
proof -
  have n: "range_name 443 ''https'' 8080 ''http'' = ''443/https:8080/http''"
    by (simp add: range_name_def itoa_def show_nat.simps digit_char_def char_of_def bit_0)
  show ?thesis
    using NewPortLongLabel_roundtrip [of 443 8080 "''https''" "''http''"] by (simp add: n protocols_def)
qed

section \<open>Whatever parses is in range\<close>

lemma parseProxySegment_ok:
  assumes "parseProxySegment seg c = Inr c'"
  shows "1 \<le> pc_ProxyPort c' \<and> pc_ProxyPort c' \<le> 65535 \<and>
    (pc_ProxyProtocol c' \<in> set protocols \<or> pc_ProxyProtocol c' = pc_ProxyProtocol c) \<and>
    pc_targets c' = pc_targets c \<and> pc_IsRedirect c' = pc_IsRedirect c \<and>
    pc_TLSValidate c' = pc_TLSValidate c \<and> pc_Tailscale c' = pc_Tailscale c \<and> pc_name c' = pc_name c"
  using assms
  by (auto simp: parseProxySegment_def Let_def validatePortRange_None split: if_splits option.splits)

lemma parseTargetSegment_ok:
  assumes "parseTargetSegment seg c = Inr c'"
  obtains u where "c' = c\<lparr>pc_targets := Some [u]\<rparr>"
  using assms by (auto simp: parseTargetSegment_def Let_def split: if_splits option.splits)

lemma parseRedirectTarget_ok:
  assumes "parseRedirectTarget seg c = Inr c'"
  obtains u where "c' = AddTarget u c" "u_scheme u \<in> {ProtoHTTP, ProtoHTTPS}" "u_host u \<noteq> []"
  using assms by (auto simp: parseRedirectTarget_def split: if_splits option.splits)

lemma NewPortLongLabel_sound_aux:
  assumes "NewPortLongLabel s = Inr c"
  shows "1 \<le> pc_ProxyPort c \<and> pc_ProxyPort c \<le> 65535 \<and> pc_ProxyProtocol c \<in> set protocols \<and>
    pc_name c = s \<and> pc_TLSValidate c \<and> \<not> tp_Funnel (pc_Tailscale c) \<and>
    (\<exists>u. pc_targets c = Some [u] \<and>
         (pc_IsRedirect c \<longrightarrow> u_scheme u \<in> {ProtoHTTP, ProtoHTTPS} \<and> u_host u \<noteq> []))"
proof -
  from assms obtain c1 where p: "parseProxySegment (split_str (detectSeparator s) s ! 0) (defaultPortConfig s) = Inr c1"
    and r: "(if detectSeparator s = redirectSeparator
             then parseRedirectTarget (split_str (detectSeparator s) s ! 1) (c1\<lparr>pc_IsRedirect := True\<rparr>)
             else parseTargetSegment (split_str (detectSeparator s) s ! 1) c1) = Inr c"
    by (auto simp: NewPortLongLabel_def Let_def split: if_splits sum.splits)
  note ok = parseProxySegment_ok [OF p]
  have proto: "pc_ProxyProtocol c1 \<in> set protocols"
    using ok by (auto simp: defaultPortConfig_def protocols_def)
  show ?thesis
  proof (cases "detectSeparator s = redirectSeparator")
    case True
    with r obtain u where "c = AddTarget u (c1\<lparr>pc_IsRedirect := True\<rparr>)"
      "u_scheme u \<in> {ProtoHTTP, ProtoHTTPS}" "u_host u \<noteq> []"
      by (auto elim: parseRedirectTarget_ok)
    with ok proto show ?thesis
      by (simp add: AddTarget_def defaultPortConfig_def DefaultTLSValidate_def)
  next
    case False
    with r obtain u where "c = c1\<lparr>pc_targets := Some [u]\<rparr>" by (auto elim: parseTargetSegment_ok)
    with ok proto show ?thesis
      by (simp add: defaultPortConfig_def DefaultTLSValidate_def)
  qed
qed

text \<open>
  Every label \<^verbatim>\<open>NewPortLongLabel\<close> accepts yields a proxy port in 1..65535, one of the four
  protocols, exactly one target, TLS validation on and the funnel off; a redirect
  target is an absolute http or https URL.
\<close>

theorem NewPortLongLabel_sound:
  assumes "NewPortLongLabel s = Inr c"
  shows "1 \<le> pc_ProxyPort c \<and> pc_ProxyPort c \<le> 65535 \<and> pc_ProxyProtocol c \<in> set protocols \<and>
    pc_name c = s \<and> pc_TLSValidate c \<and> \<not> tp_Funnel (pc_Tailscale c) \<and>
    (\<exists>u. pc_targets c = Some [u] \<and>
         (pc_IsRedirect c \<longrightarrow> u_scheme u \<in> {ProtoHTTP, ProtoHTTPS} \<and> u_host u \<noteq> []))"
  using assms by (rule NewPortLongLabel_sound_aux)

theorem NewPortLongLabel_sound_witness:
  "\<exists>c. NewPortLongLabel ''80/http->https://a.b'' = Inr c \<and> pc_IsRedirect c \<and> pc_ProxyPort c = 80 \<and>
     pc_ProxyProtocol c \<in> set protocols \<and> (\<exists>u. pc_targets c = Some [u] \<and> u_scheme u \<in> {ProtoHTTP, ProtoHTTPS})"
proof -
  obtain c where c: "NewPortLongLabel ''80/http->https://a.b'' = Inr c" "pc_IsRedirect c" "pc_ProxyPort c = 80"
  proof -
    have "case NewPortLongLabel ''80/http->https://a.b'' of Inl _ \<Rightarrow> False
      | Inr c \<Rightarrow> pc_IsRedirect c \<and> pc_ProxyPort c = 80" by code_simp
    then show ?thesis using that by (auto split: sum.splits)
  qed
  show ?thesis using c NewPortLongLabel_sound [OF c(1)] by blast
qed

section \<open>Range labels\<close>

lemma range_key_inj [simp]: "range_key i = range_key j \<longleftrightarrow> i = j"
  by (simp add: range_key_def)

lemma expand_loop_result:
  assumes "expand_loop pps tps pr tr is acc = Inr m" "distinct is"
    and "\<forall>i \<in> set is. range_key i \<notin> set (keys acc)"
  shows "m = acc @ map (range_entry pps tps pr tr) is"
  using assms
proof (induction "is" arbitrary: acc)
  case Nil
  then show ?case by simp
next
  case (Cons i js)
  from Cons.prems have "expand_loop pps tps pr tr js (acc @ [range_entry pps tps pr tr i]) = Inr m"
    by (simp add: Let_def gm_put_new range_entry_def split: option.splits)
  moreover from Cons.prems have
    "\<forall>j \<in> set js. range_key j \<notin> set (keys (acc @ [range_entry pps tps pr tr i]))"
    by (auto simp: range_entry_def)
  ultimately show ?case
    using Cons.IH [of "acc @ [range_entry pps tps pr tr i]"] Cons.prems(2) by simp
qed

lemma expand_loop_total:
  assumes "\<forall>i \<in> set is. url_parse (tr @ ''://0.0.0.0:'' @ itoa (port_at tps i)) \<noteq> None"
  shows "\<exists>m. expand_loop pps tps pr tr is acc = Inr m"
  using assms by (induction "is" arbitrary: acc) (auto simp: Let_def)

lemma expandPortConfigs_result:
  assumes "expandPortConfigs pps tps pr tr = Inr m"
  shows "m = map (range_entry pps tps pr tr) [0..<max (length pps) (length tps)] \<and>
    (length pps \<le> 1 \<or> length tps \<le> 1 \<or> length pps = length tps)"
proof -
  have "max (length pps) (length tps) = (if length tps > length pps then length tps else length pps)"
    by simp
  with assms show ?thesis
    by (auto simp: expandPortConfigs_def Let_def split: if_splits dest!: expand_loop_result)
qed

lemma parsePortRange_ok:
  "parsePortRange s = Inr (a, b) \<Longrightarrow> 1 \<le> a \<and> a \<le> b \<and> b \<le> 65535 \<and> b - a + 1 \<le> 1000"
  by (auto simp: parsePortRange_def Let_def validatePortRange_None maxRangeLen_def
      split: if_splits option.splits)

lemma parsePortList_ok:
  assumes "parsePortList s = Inr ps"
  shows "ps \<noteq> [] \<and> length ps \<le> 1000 \<and> (\<forall>p \<in> set ps. 1 \<le> p \<and> p \<le> 65535)"
proof (cases "isPortRange s")
  case True
  with assms obtain a b where "parsePortRange s = Inr (a, b)" "ps = [a..b]"
    by (auto simp: parsePortList_def split: sum.splits)
  with parsePortRange_ok [of s a b] show ?thesis by auto
next
  case False
  with assms show ?thesis
    by (auto simp: parsePortList_def validatePortRange_None split: option.splits)
qed

lemma port_at_in: "ps \<noteq> [] \<Longrightarrow> length ps \<le> 1 \<or> i < length ps \<Longrightarrow> port_at ps i \<in> set ps"
  by (auto simp: port_at_def)

lemma ExpandPortRangeLabel_bounds_aux:
  assumes "ExpandPortRangeLabel s = Inr m"
  shows "gm_wf m \<and> 1 \<le> length m \<and> length m \<le> 1000 \<and>
    (\<forall>(k, c) \<in> set m. 1 \<le> pc_ProxyPort c \<and> pc_ProxyPort c \<le> 65535 \<and> \<not> pc_IsRedirect c \<and>
       pc_TLSValidate c \<and> \<not> tp_Funnel (pc_Tailscale c) \<and> (\<exists>u. pc_targets c = Some [u]))"
proof -
  from assms obtain x y pps tps pr tr where
    pl: "parsePortList x = Inr pps" "parsePortList y = Inr tps"
    and e: "expandPortConfigs pps tps pr tr = Inr m"
    by (auto simp: ExpandPortRangeLabel_def Let_def split: if_splits sum.splits)
  note ok = parsePortList_ok [OF pl(1)] parsePortList_ok [OF pl(2)]
  note res = expandPortConfigs_result [OF e]
  have ports: "port_at pps i \<in> set pps" if "i < max (length pps) (length tps)" for i
    using that res ok by (intro port_at_in) auto
  have "distinct (keys m)"
    using res by (auto simp: range_entry_def o_def distinct_map inj_on_def)
  moreover have "length m = max (length pps) (length tps)" using res by simp
  then have "1 \<le> length m" "length m \<le> 1000"
    using ok by (simp_all add: Suc_le_eq less_max_iff_disj)
  moreover have "\<forall>(k, c) \<in> set m. 1 \<le> pc_ProxyPort c \<and> pc_ProxyPort c \<le> 65535 \<and> \<not> pc_IsRedirect c \<and>
       pc_TLSValidate c \<and> \<not> tp_Funnel (pc_Tailscale c) \<and> (\<exists>u. pc_targets c = Some [u])"
    using res ok ports by (auto simp: range_entry_def range_cfg_def DefaultTLSValidate_def)
  ultimately show ?thesis by (simp add: gm_wf_def)
qed

text \<open>
  Every range label \<^verbatim>\<open>ExpandPortRangeLabel\<close> accepts expands to between 1 and 1000 ports
  under distinct keys, each with a proxy port in 1..65535, exactly one target, TLS
  validation on, the funnel off and no redirect.
\<close>

theorem ExpandPortRangeLabel_bounds:
  assumes "ExpandPortRangeLabel s = Inr m"
  shows "gm_wf m \<and> 1 \<le> length m \<and> length m \<le> 1000 \<and>
    (\<forall>(k, c) \<in> set m. 1 \<le> pc_ProxyPort c \<and> pc_ProxyPort c \<le> 65535 \<and> \<not> pc_IsRedirect c \<and>
       pc_TLSValidate c \<and> \<not> tp_Funnel (pc_Tailscale c) \<and> (\<exists>u. pc_targets c = Some [u]))"
  using assms by (rule ExpandPortRangeLabel_bounds_aux)

theorem ExpandPortRangeLabel_bounds_witness:
  "\<exists>m. ExpandPortRangeLabel ''1-2/tcp:3-4'' = Inr m \<and> gm_wf m \<and> 1 \<le> length m \<and> length m \<le> 1000"
proof -
  have "\<not> isl (ExpandPortRangeLabel ''1-2/tcp:3-4'')" by code_simp
  then obtain m where "ExpandPortRangeLabel ''1-2/tcp:3-4'' = Inr m"
    by (cases "ExpandPortRangeLabel ''1-2/tcp:3-4''") auto
  with ExpandPortRangeLabel_bounds [OF this] show ?thesis by blast
qed

lemma splitN2_range: "0 \<le> a \<Longrightarrow> splitN2 ''-'' (itoa a @ ''-'' @ itoa b) = [itoa a, itoa b]"
  using splitN2_cons [of "CHR ''-''" "itoa a" "itoa b"] itoa_chars by simp

lemma parsePortList_range:
  assumes "1 \<le> a" "a \<le> b" "b \<le> 65535" "b - a < 1000"
  shows "parsePortList (itoa a @ ''-'' @ itoa b) = Inr [a..b]"
proof -
  note sp = splitN2_range [of a b]
  have at: "atoi (itoa a) = Some a" "atoi (itoa b) = Some b"
    using assms by (simp_all add: atoi_itoa port_in_int64)
  have v: "validatePortRange a = None" "validatePortRange b = None"
    using assms by (simp_all add: validatePortRange_None)
  have "isPortRange (itoa a @ ''-'' @ itoa b)"
    unfolding isPortRange_def rangeSep_def using sp assms(1) at by simp
  moreover have "parsePortRange (itoa a @ ''-'' @ itoa b) = Inr (a, b)"
    unfolding parsePortRange_def rangeSep_def using sp assms at v by (simp add: maxRangeLen_def)
  ultimately show ?thesis by (simp add: parsePortList_def)
qed

lemma port_at_upto: "i < nat (b - a + 1) \<Longrightarrow> port_at [a..b] i = a + int i"
  by (auto simp: port_at_def)

lemma ExpandPortRangeLabel_label:
  assumes "1 \<le> a" "a \<le> b" "b \<le> 65535" "b - a < 1000" "1 \<le> c" "c \<le> d" "d \<le> 65535" "d - c < 1000"
    and "pr \<in> set protocols" "tr \<in> set protocols"
  shows "ExpandPortRangeLabel (range_label a b pr c d tr) = expandPortConfigs [a..b] [c..d] pr tr"
proof -
  define x y where "x = itoa a @ ''-'' @ itoa b" and "y = itoa c @ ''-'' @ itoa d"
  have nopos: "CHR ''/'' \<notin> set x" "CHR ''/'' \<notin> set y" "CHR '':'' \<notin> set (x @ ''/'' @ pr)"
    "CHR '':'' \<notin> set (y @ ''/'' @ tr)" "CHR ''>'' \<notin> set (x @ ''/'' @ pr @ '':'' @ y @ ''/'' @ tr)"
    using assms proto_chars itoa_chars by (simp_all add: x_def y_def)
  have lab: "range_label a b pr c d tr = (x @ ''/'' @ pr) @ '':'' @ (y @ ''/'' @ tr)"
    by (simp add: range_label_def x_def y_def)
  have sep: "detectSeparator (range_label a b pr c d tr) = '':''"
    using nopos(5) lab by (simp add: detectSeparator_def contains_str_def port_consts index_of_last_absent)
  have parts: "split_str '':'' (range_label a b pr c d tr) = [x @ ''/'' @ pr, y @ ''/'' @ tr]"
    using split_str_cons [OF nopos(3), of "y @ ''/'' @ tr"] split_str_absent [OF nopos(4)]
    unfolding lab by simp
  have sp: "splitN2 ''/'' (x @ ''/'' @ pr) = [x, pr]" "splitN2 ''/'' (y @ ''/'' @ tr) = [y, tr]"
    using splitN2_cons [OF nopos(1), of pr] splitN2_cons [OF nopos(2), of tr] by simp_all
  have pl: "parsePortList x = Inr [a..b]" "parsePortList y = Inr [c..d]"
    using assms parsePortList_range [of a b] parsePortList_range [of c d] by (simp_all add: x_def y_def)
  show ?thesis
    unfolding ExpandPortRangeLabel_def Let_def sep parts protocolSeparator_def
    using sp pl by (simp add: redirectSeparator_def)
qed

lemma expandPortConfigs_upto:
  assumes "1 \<le> c" "length [a..b] = length [c..d]" and tr: "tr \<in> set protocols"
  shows "expandPortConfigs [a..b] [c..d] pr tr =
    Inr (map (\<lambda>i. (range_key i, range_cfg (a + int i) pr (range_name (a + int i) pr (c + int i) tr)
                                 [target_url tr (c + int i)])) [0..<length [a..b]])"
proof -
  have at: "port_at [a..b] i = a + int i" "port_at [c..d] i = c + int i" if "i < length [a..b]" for i
    using that assms(2) by (simp_all add: port_at_upto)
  have tgt: "url_parse (tr @ ''://0.0.0.0:'' @ itoa (port_at [c..d] i)) = Some (target_url tr (c + int i))"
    if "i < length [a..b]" for i
    using that at url_parse_target_url [OF tr, of "c + int i"] assms(1) by simp
  have "\<exists>m. expandPortConfigs [a..b] [c..d] pr tr = Inr m"
    unfolding expandPortConfigs_def Let_def using tgt assms(2) by (auto intro!: expand_loop_total)
  then obtain m where m: "expandPortConfigs [a..b] [c..d] pr tr = Inr m" by blast
  have "m = map (range_entry [a..b] [c..d] pr tr) [0..<length [a..b]]"
    using expandPortConfigs_result [OF m] assms(2) by simp
  with m show ?thesis
    using at tgt by (auto simp: range_entry_def)
qed

text \<open>
  A range label \<^verbatim>\<open>a-b/proto:c-d/proto\<close> over ranges of equal length expands to one port per
  index, and the i-th is exactly what \<^verbatim>\<open>NewPortLongLabel\<close> gives for the single label
  \<^verbatim>\<open>a+i/proto:c+i/proto\<close>: the range is a shorthand for its individual labels.
\<close>

theorem ExpandPortRangeLabel_individual:
  assumes "1 \<le> a" "a \<le> b" "b \<le> 65535" "b - a < 1000" "1 \<le> c" "c + (b - a) \<le> 65535"
    and pr: "pr \<in> set protocols" and tr: "tr \<in> set protocols"
  shows "\<exists>m. ExpandPortRangeLabel (range_label a b pr c (c + (b - a)) tr) = Inr m \<and>
    length m = nat (b - a + 1) \<and>
    (\<forall>i < nat (b - a + 1). \<exists>cfg. gm_get m (range_key i) = Some cfg \<and>
       NewPortLongLabel (range_name (a + int i) pr (c + int i) tr) = Inr cfg)"
proof -
  let ?n = "nat (b - a + 1)"
  let ?cfg = "\<lambda>i. range_cfg (a + int i) pr (range_name (a + int i) pr (c + int i) tr) [target_url tr (c + int i)]"
  let ?m = "map (\<lambda>i. (range_key i, ?cfg i)) [0..<?n]"
  have "ExpandPortRangeLabel (range_label a b pr c (c + (b - a)) tr) = Inr ?m"
    using assms ExpandPortRangeLabel_label [of a b c "c + (b - a)" pr tr]
      expandPortConfigs_upto [of c a b "c + (b - a)" tr pr] by simp
  moreover have "gm_get ?m (range_key i) = Some (?cfg i)" if "i < ?n" for i
    using that by (intro map_of_is_SomeI) (auto simp: o_def distinct_map inj_on_def)
  moreover have "NewPortLongLabel (range_name (a + int i) pr (c + int i) tr) = Inr (?cfg i)" if "i < ?n" for i
    using that assms by (intro NewPortLongLabel_roundtrip_aux) auto
  ultimately show ?thesis by (intro exI [of _ ?m]) auto
qed

theorem ExpandPortRangeLabel_individual_witness:
  "\<exists>m. ExpandPortRangeLabel ''1-2/tcp:3-4/tcp'' = Inr m \<and> length m = 2 \<and>
    (\<exists>cfg. gm_get m ''range_1'' = Some cfg \<and> NewPortLongLabel ''2/tcp:4/tcp'' = Inr cfg)"
proof -
  have l: "range_label 1 2 ''tcp'' 3 4 ''tcp'' = ''1-2/tcp:3-4/tcp''" by code_simp
  have n: "range_name 2 ''tcp'' 4 ''tcp'' = ''2/tcp:4/tcp''" by code_simp
  have k: "range_key 1 = ''range_1''" by code_simp
  obtain m where m: "ExpandPortRangeLabel ''1-2/tcp:3-4/tcp'' = Inr m" "length m = 2"
    and i: "\<forall>i < 2. \<exists>cfg. gm_get m (range_key i) = Some cfg \<and>
       NewPortLongLabel (range_name (1 + int i) ''tcp'' (3 + int i) ''tcp'') = Inr cfg"
    using ExpandPortRangeLabel_individual [of 1 2 3 "''tcp''" "''tcp''"] l by (auto simp: protocols_def)
  from i [rule_format, of 1] m show ?thesis using n k by auto
qed

text \<open>
  The parser of a single label refuses a proxy protocol outside the supported ones, the
  range expansion does not: \<^verbatim>\<open>1/ftp:80\<close> is an error and \<^verbatim>\<open>1-2/ftp:80\<close> is accepted as two ports
  of protocol ftp.
\<close>

theorem ExpandPortRangeLabel_unchecked_protocol:
  "NewPortLongLabel ''1/ftp:80'' = Inl (InvalidProxyProtocol ''ftp'') \<and>
   (\<exists>m. ExpandPortRangeLabel ''1-2/ftp:80'' = Inr m \<and>
        map (pc_ProxyProtocol \<circ> snd) m = [''ftp'', ''ftp''])"
proof -
  have "NewPortLongLabel ''1/ftp:80'' = Inl (InvalidProxyProtocol ''ftp'')" by code_simp
  moreover have "case ExpandPortRangeLabel ''1-2/ftp:80'' of Inl _ \<Rightarrow> False
    | Inr m \<Rightarrow> map (pc_ProxyProtocol \<circ> snd) m = [''ftp'', ''ftp'']" by code_simp
  ultimately show ?thesis by (cases "ExpandPortRangeLabel ''1-2/ftp:80''") auto
qed

section \<open>Options and their gates\<close>

lemma ApplyPortOptions_spec_aux:
  "ApplyPortOptions g p os =
     p\<lparr>pc_TLSValidate := pc_TLSValidate p \<and>
         \<not> (g_AllowTLSValidateDisable g \<and> PortOptionNoTLSValidate \<in> trim_space ` set os),
       pc_Tailscale := (pc_Tailscale p)\<lparr>tp_Funnel := tp_Funnel (pc_Tailscale p) \<or>
         (g_AllowFunnel g \<and> PortOptionTailscaleFunnel \<in> trim_space ` set os)\<rparr>,
       pc_NoAutoDetect := pc_NoAutoDetect p \<or>
         (g_SupportNoAutoDetect g \<and> PortOptionNoAutoDetect \<in> trim_space ` set os)\<rparr>"
proof (induction os arbitrary: p)
  case Nil
  then show ?case by (simp add: ApplyPortOptions_def)
next
  case (Cons o' os)
  have ne: "PortOptionNoTLSValidate \<noteq> PortOptionTailscaleFunnel" "PortOptionNoTLSValidate \<noteq> PortOptionNoAutoDetect"
    "PortOptionTailscaleFunnel \<noteq> PortOptionNoAutoDetect"
    by (simp_all add: PortOptionNoTLSValidate_def PortOptionTailscaleFunnel_def PortOptionNoAutoDetect_def)
  have "ApplyPortOptions g p (o' # os) = ApplyPortOptions g (apply_option g o' p) os"
    by (simp add: ApplyPortOptions_def)
  then show ?case
    unfolding Cons.IH using ne by (auto simp: apply_option_def Let_def)
qed

text \<open>
  \<^verbatim>\<open>ApplyPortOptions\<close> turns TLS validation off exactly when some option, after trimming, is
  \<^verbatim>\<open>no_tlsvalidate\<close> and the gate allows it, turns the funnel on exactly when \<^verbatim>\<open>tailscale_funnel\<close>
  is present and allowed, sets no-auto-detect likewise and changes nothing else,
  whatever the order of the options.
\<close>

theorem ApplyPortOptions_spec:
  "ApplyPortOptions g p os =
     p\<lparr>pc_TLSValidate := pc_TLSValidate p \<and>
         \<not> (g_AllowTLSValidateDisable g \<and> PortOptionNoTLSValidate \<in> trim_space ` set os),
       pc_Tailscale := (pc_Tailscale p)\<lparr>tp_Funnel := tp_Funnel (pc_Tailscale p) \<or>
         (g_AllowFunnel g \<and> PortOptionTailscaleFunnel \<in> trim_space ` set os)\<rparr>,
       pc_NoAutoDetect := pc_NoAutoDetect p \<or>
         (g_SupportNoAutoDetect g \<and> PortOptionNoAutoDetect \<in> trim_space ` set os)\<rparr>"
  by (rule ApplyPortOptions_spec_aux)

lemma finish_port_gated:
  assumes res: "\<And>p q. resolve p = Some q \<Longrightarrow>
      pc_TLSValidate q = pc_TLSValidate p \<and> pc_Tailscale q = pc_Tailscale p"
    and "finish_port g resolve os p = Some q" "ungated_default p"
  shows "gated g q"
  using assms by (auto simp: finish_port_def Let_def ApplyPortOptions_spec_aux gated_def ungated_default_def
      split: if_splits)

lemma add_port_ok:
  assumes "ports_ok pfx g ports" "has_prefix k pfx" "\<And>q. r = Some q \<Longrightarrow> gated g q"
  shows "ports_ok pfx g (add_port k r ports)"
  using assms by (auto simp: add_port_def ports_ok_def split: option.splits dest!: gm_put_set)

lemma range_ports_ok:
  assumes res: "\<And>p q. resolve p = Some q \<Longrightarrow>
      pc_TLSValidate q = pc_TLSValidate p \<and> pc_Tailscale q = pc_Tailscale p"
    and inv: "ports_ok pfx g ports" and pf: "has_prefix k pfx" and ex: "ExpandPortRangeLabel s = Inr ex"
  shows "ports_ok pfx g (fold (\<lambda>(rk, port) acc. add_port (k @ ''.'' @ rk) (finish_port g resolve os port) acc) ex ports)"
proof (rule fold_invariant [where Q = "\<lambda>(rk, port). ungated_default port"])
  show "case x of (rk, port) \<Rightarrow> ungated_default port" if "x \<in> set ex" for x
    using ExpandPortRangeLabel_bounds_aux [OF ex] that by (cases x) (auto simp: ungated_default_def)
  show "ports_ok pfx g ports" by (rule inv)
  show "ports_ok pfx g ((case x of (rk, port) \<Rightarrow> \<lambda>acc. add_port (k @ ''.'' @ rk) (finish_port g resolve os port) acc) acc)"
    if "case x of (rk, port) \<Rightarrow> ungated_default port" "ports_ok pfx g acc" for x acc
  proof (cases x)
    case (Pair rk port)
    with that(1) have "gated g q" if "finish_port g resolve os port = Some q" for q
      using finish_port_gated [OF res that] by simp
    with Pair that(2) pf show ?thesis by (simp add: add_port_ok has_prefix_append)
  qed
qed

lemma ports_entry_ok:
  assumes res: "\<And>p q. resolve p = Some q \<Longrightarrow>
      pc_TLSValidate q = pc_TLSValidate p \<and> pc_Tailscale q = pc_Tailscale p"
    and inv: "ports_ok pfx g ports"
  shows "ports_ok pfx g (ports_entry pfx g resolve (k, v) ports)"
proof (cases "has_prefix k pfx")
  case False
  with inv show ?thesis by (simp add: ports_entry_def)
next
  case pf: True
  let ?s = "split_str '','' v ! 0"
  have long: "gated g q" if "NewPortLongLabel ?s = Inr p" "finish_port g resolve os p = Some q" for p os q
    using finish_port_gated [OF res that(2)] NewPortLongLabel_sound_aux [OF that(1)]
    by (simp add: ungated_default_def)
  show ?thesis
  proof (cases "IsPortRangeLabel ?s")
    case True
    show ?thesis
    proof (cases "ExpandPortRangeLabel ?s")
      case (Inl e)
      with True pf inv show ?thesis by (simp add: ports_entry_def)
    next
      case (Inr ex)
      with True pf range_ports_ok [OF res inv pf Inr] show ?thesis by (simp add: ports_entry_def)
    qed
  next
    case False
    show ?thesis
    proof (cases "NewPortLongLabel ?s")
      case (Inl e)
      with False pf inv show ?thesis by (simp add: ports_entry_def)
    next
      case (Inr p)
      with False pf long [OF Inr] show ?thesis
        by (auto simp: ports_entry_def intro!: add_port_ok inv)
    qed
  qed
qed

text \<open>
  Every port the label map of a target yields comes from a label under the port
  prefix, has TLS validation on unless the gate allows disabling it, and has the
  funnel on only if the gate allows it, provided the resolver of the target provider
  leaves these two fields alone.
\<close>

theorem Ports_gated:
  assumes res: "\<And>p q. resolve p = Some q \<Longrightarrow>
      pc_TLSValidate q = pc_TLSValidate p \<and> pc_Tailscale q = pc_Tailscale p"
    and mem: "(k, c) \<in> set (Ports m pfx g resolve)"
  shows "has_prefix k pfx \<and> (pc_TLSValidate c \<or> g_AllowTLSValidateDisable g) \<and>
    (tp_Funnel (pc_Tailscale c) \<longrightarrow> g_AllowFunnel g)"
proof -
  have step: "ports_ok pfx g (ports_entry pfx g resolve kv ports)" if "ports_ok pfx g ports" for kv ports
    using ports_entry_ok [OF res that] by (cases kv) simp
  have "ports_ok pfx g (Ports m pfx g resolve)"
    unfolding Ports_def by (rule fold_invariant [where Q = "\<lambda>_. True"]) (simp_all add: step, simp add: ports_ok_def)
  with mem show ?thesis by (auto simp: gated_def ports_ok_def)
qed

theorem Ports_gated_witness:
  "\<exists>k c. (k, c) \<in> set (Ports [(''p.1'', ''1/tcp:2, no_tlsvalidate'')] ''p.'' \<lparr>g_FunnelSettingName = [],
      g_AllowTLSValidateDisable = False, g_AllowFunnel = False, g_SupportNoAutoDetect = False\<rparr> Some) \<and>
     pc_TLSValidate c \<and> \<not> tp_Funnel (pc_Tailscale c)"
proof -
  let ?g = "\<lparr>g_FunnelSettingName = [], g_AllowTLSValidateDisable = False, g_AllowFunnel = False,
      g_SupportNoAutoDetect = False\<rparr>"
  let ?P = "Ports [(''p.1'', ''1/tcp:2, no_tlsvalidate'')] ''p.'' ?g Some"
  have "?P \<noteq> []" by code_simp
  then obtain k c where kc: "(k, c) \<in> set ?P" by (metis list.set_intros(1) neq_Nil_conv prod.exhaust)
  with Ports_gated [of Some k c _ "''p.''" ?g] have "pc_TLSValidate c \<and> \<not> tp_Funnel (pc_Tailscale c)" by simp
  with kc show ?thesis by blast
qed

end
