(* ===== verification/Keyed_Locks.thy ===== *)
theory Keyed_Locks
  imports Go_Prelude
begin

text \<open>
  \<^verbatim>\<open>src/internal/proxymanager/locks.go\<close>: per-key mutexes with reference counts, by which the
  proxy manager serializes the events of one target and of one hostname. The map guard
  \<^verbatim>\<open>kl.mu\<close> makes each of its critical sections one step; between them the goroutines
  interleave freely. A mutex is an address in a heap, so a released entry and its
  successor under the same key are different objects, as the pointers of the code are.
  A client is one call of \<^verbatim>\<open>Lock\<close>; its closure runs \<^verbatim>\<open>unlock\<close> once (\<^verbatim>\<open>sync.Once\<close>), a later call
  changes nothing.
\<close>

section \<open>State\<close>

record refCountedMutex =
  rm_locked :: bool
  rm_refs :: int

record keyedLocks =
  kl_locks :: "(string, nat) gomap"
  kl_heap :: "refCountedMutex list"

text \<open>
  A client waits for the mutex, holds it, has left the map but not yet released the
  mutex, or is done.
\<close>

datatype phase = Waiting | Held | Releasing | Done

record client =
  c_key :: string
  c_rc :: nat
  c_phase :: phase

record world =
  w_kl :: keyedLocks
  w_clients :: "client list"

definition newKeyedLocks :: keyedLocks where
  "newKeyedLocks = \<lparr>kl_locks = [], kl_heap = []\<rparr>"

definition world0 :: world where
  "world0 = \<lparr>w_kl = newKeyedLocks, w_clients = []\<rparr>"

section \<open>Operations\<close>

definition add_refs :: "nat \<Rightarrow> int \<Rightarrow> keyedLocks \<Rightarrow> keyedLocks" where
  "add_refs r d kl = kl\<lparr>kl_heap := (kl_heap kl)[r := (kl_heap kl ! r)\<lparr>rm_refs := rm_refs (kl_heap kl ! r) + d\<rparr>]\<rparr>"

definition set_locked :: "nat \<Rightarrow> bool \<Rightarrow> keyedLocks \<Rightarrow> keyedLocks" where
  "set_locked r b kl = kl\<lparr>kl_heap := (kl_heap kl)[r := (kl_heap kl ! r)\<lparr>rm_locked := b\<rparr>]\<rparr>"

text \<open>The entry of a key, created when it is absent.\<close>

definition ensure_entry :: "string \<Rightarrow> keyedLocks \<Rightarrow> nat \<times> keyedLocks" where
  "ensure_entry key kl =
     (case gm_get (kl_locks kl) key of
        Some rc \<Rightarrow> (rc, kl)
      | None \<Rightarrow>
          (let rc = length (kl_heap kl)
           in (rc, kl\<lparr>kl_heap := kl_heap kl @ [\<lparr>rm_locked = False, rm_refs = 0\<rparr>],
                      kl_locks := gm_put key rc (kl_locks kl)\<rparr>)))"

text \<open>The critical section of \<^verbatim>\<open>Lock\<close>; the caller then waits for the mutex.\<close>

definition Lock_enter :: "string \<Rightarrow> world \<Rightarrow> world" where
  "Lock_enter key w =
     (let (rc, kl) = ensure_entry key (w_kl w)
      in w\<lparr>w_kl := add_refs rc 1 kl,
           w_clients := w_clients w @ [\<lparr>c_key = key, c_rc = rc, c_phase = Waiting\<rparr>]\<rparr>)"

definition set_phase :: "nat \<Rightarrow> phase \<Rightarrow> world \<Rightarrow> world" where
  "set_phase i p w = w\<lparr>w_clients := (w_clients w)[i := (w_clients w ! i)\<lparr>c_phase := p\<rparr>]\<rparr>"

text \<open>\<^verbatim>\<open>rc.mu.Lock()\<close>: possible only when the mutex is free.\<close>

definition Lock_acquire :: "nat \<Rightarrow> world \<Rightarrow> world option" where
  "Lock_acquire i w =
     (if i < length (w_clients w) \<and> c_phase (w_clients w ! i) = Waiting \<and>
         \<not> rm_locked (kl_heap (w_kl w) ! c_rc (w_clients w ! i))
      then Some (set_phase i Held (w\<lparr>w_kl := set_locked (c_rc (w_clients w ! i)) True (w_kl w)\<rparr>))
      else None)"

text \<open>
  The critical section of \<^verbatim>\<open>unlock\<close>: the stale case returns without touching the mutex.
\<close>

definition unlock_enter :: "nat \<Rightarrow> world \<Rightarrow> world option" where
  "unlock_enter i w =
     (if i < length (w_clients w) \<and> c_phase (w_clients w ! i) = Held
      then let c = w_clients w ! i; rc = c_rc c
           in if gm_get (kl_locks (w_kl w)) (c_key c) \<noteq> Some rc then Some (set_phase i Done w)
              else let kl = add_refs rc (- 1) (w_kl w);
                       kl = (if rm_refs (kl_heap kl ! rc) = 0
                             then kl\<lparr>kl_locks := gm_del (c_key c) (kl_locks kl)\<rparr> else kl)
                   in Some (set_phase i Releasing (w\<lparr>w_kl := kl\<rparr>))
      else None)"

text \<open>\<^verbatim>\<open>rc.mu.Unlock()\<close> at the end of \<^verbatim>\<open>unlock\<close>.\<close>

definition unlock_release :: "nat \<Rightarrow> world \<Rightarrow> world option" where
  "unlock_release i w =
     (if i < length (w_clients w) \<and> c_phase (w_clients w ! i) = Releasing
      then Some (set_phase i Done (w\<lparr>w_kl := set_locked (c_rc (w_clients w ! i)) False (w_kl w)\<rparr>))
      else None)"

definition kl_count :: "keyedLocks \<Rightarrow> nat" where
  "kl_count kl = length (kl_locks kl)"

inductive kl_step :: "world \<Rightarrow> world \<Rightarrow> bool" where
  Enter: "kl_step w (Lock_enter key w)"
| Acquire: "Lock_acquire i w = Some w' \<Longrightarrow> kl_step w w'"
| Unlock: "unlock_enter i w = Some w' \<Longrightarrow> kl_step w w'"
| Release: "unlock_release i w = Some w' \<Longrightarrow> kl_step w w'"

abbreviation kl_reach :: "world \<Rightarrow> bool" where
  "kl_reach \<equiv> reach (\<lambda>w. w = world0) kl_step"

section \<open>Invariant\<close>

definition active_on :: "nat \<Rightarrow> client \<Rightarrow> bool" where
  "active_on r c \<longleftrightarrow> c_rc c = r \<and> (c_phase c = Waiting \<or> c_phase c = Held)"

definition holds_on :: "nat \<Rightarrow> client \<Rightarrow> bool" where
  "holds_on r c \<longleftrightarrow> c_rc c = r \<and> (c_phase c = Held \<or> c_phase c = Releasing)"

text \<open>
  Keys map to distinct live mutexes; an active client's key maps to its mutex; the
  reference count is the number of active clients; a mutex is locked exactly when one
  client is between acquiring and releasing it; a mapped mutex has a positive count.
\<close>

definition kl_inv :: "world \<Rightarrow> bool" where
  "kl_inv w \<longleftrightarrow>
     (let m = kl_locks (w_kl w); h = kl_heap (w_kl w); cs = w_clients w in
      (\<forall>k r. gm_get m k = Some r \<longrightarrow> r < length h \<and> 0 < rm_refs (h ! r)) \<and>
      (\<forall>k k' r. gm_get m k = Some r \<longrightarrow> gm_get m k' = Some r \<longrightarrow> k = k') \<and>
      (\<forall>c \<in> set cs. c_rc c < length h \<and> (active_on (c_rc c) c \<longrightarrow> gm_get m (c_key c) = Some (c_rc c))) \<and>
      (\<forall>r < length h. rm_refs (h ! r) = int (count_if (active_on r) cs)) \<and>
      (\<forall>r < length h. count_if (holds_on r) cs = (if rm_locked (h ! r) then 1 else 0)))"

lemma kl_inv_init: "kl_inv world0"
  by (simp add: kl_inv_def world0_def newKeyedLocks_def)

lemma kl_invD:
  assumes "kl_inv w"
  shows "gm_get (kl_locks (w_kl w)) k = Some r \<Longrightarrow> r < length (kl_heap (w_kl w)) \<and> 0 < rm_refs (kl_heap (w_kl w) ! r)"
    and "gm_get (kl_locks (w_kl w)) k = Some r \<Longrightarrow> gm_get (kl_locks (w_kl w)) k' = Some r \<Longrightarrow> k = k'"
    and "c \<in> set (w_clients w) \<Longrightarrow> c_rc c < length (kl_heap (w_kl w))"
    and "c \<in> set (w_clients w) \<Longrightarrow> active_on (c_rc c) c \<Longrightarrow> gm_get (kl_locks (w_kl w)) (c_key c) = Some (c_rc c)"
    and "r < length (kl_heap (w_kl w)) \<Longrightarrow> rm_refs (kl_heap (w_kl w) ! r) = int (count_if (active_on r) (w_clients w))"
    and "r < length (kl_heap (w_kl w)) \<Longrightarrow> count_if (holds_on r) (w_clients w) = (if rm_locked (kl_heap (w_kl w) ! r) then 1 else 0)"
  using assms unfolding kl_inv_def Let_def by blast+

lemma kl_invI:
  assumes "\<And>k r. gm_get (kl_locks (w_kl w)) k = Some r \<Longrightarrow> r < length (kl_heap (w_kl w)) \<and> 0 < rm_refs (kl_heap (w_kl w) ! r)"
    and "\<And>k k' r. gm_get (kl_locks (w_kl w)) k = Some r \<Longrightarrow> gm_get (kl_locks (w_kl w)) k' = Some r \<Longrightarrow> k = k'"
    and "\<And>c. c \<in> set (w_clients w) \<Longrightarrow> c_rc c < length (kl_heap (w_kl w))"
    and "\<And>c. c \<in> set (w_clients w) \<Longrightarrow> active_on (c_rc c) c \<Longrightarrow> gm_get (kl_locks (w_kl w)) (c_key c) = Some (c_rc c)"
    and "\<And>r. r < length (kl_heap (w_kl w)) \<Longrightarrow> rm_refs (kl_heap (w_kl w) ! r) = int (count_if (active_on r) (w_clients w))"
    and "\<And>r. r < length (kl_heap (w_kl w)) \<Longrightarrow> count_if (holds_on r) (w_clients w) = (if rm_locked (kl_heap (w_kl w) ! r) then 1 else 0)"
  shows "kl_inv w"
  using assms unfolding kl_inv_def Let_def by blast

text \<open>Creating the entry keeps everything but the positive count of the new mutex.\<close>

lemma fresh_not_counted:
  assumes "kl_inv w" "r = length (kl_heap (w_kl w))"
  shows "count_if (active_on r) (w_clients w) = 0" "count_if (holds_on r) (w_clients w) = 0"
proof -
  have "c_rc c \<noteq> r" if "c \<in> set (w_clients w)" for c
    using kl_invD(3) [OF assms(1) that] assms(2) by simp
  then show "count_if (active_on r) (w_clients w) = 0" "count_if (holds_on r) (w_clients w) = 0"
    by (auto simp: count_if_0_iff active_on_def holds_on_def)
qed

lemma Lock_enter_inv:
  assumes inv: "kl_inv w"
  shows "kl_inv (Lock_enter key w)"
proof (cases "gm_get (kl_locks (w_kl w)) key")
  case (Some rc)
  note I = kl_invD [OF inv]
  from Some show ?thesis
    by (intro kl_invI)
      (auto simp: Lock_enter_def ensure_entry_def add_refs_def active_on_def holds_on_def nth_list_update I
        dest: I(1,2,3) intro: I)
next
  case None
  note I = kl_invD [OF inv]
  note fresh = fresh_not_counted [OF inv refl]
  have old: "gm_get (kl_locks (w_kl w)) k \<noteq> Some (length (kl_heap (w_kl w)))" for k
    using I(1) by blast
  have new: "Lock_enter key w =
      \<lparr>w_kl = \<lparr>kl_locks = gm_put key (length (kl_heap (w_kl w))) (kl_locks (w_kl w)),
               kl_heap = kl_heap (w_kl w) @ [\<lparr>rm_locked = False, rm_refs = 1\<rparr>]\<rparr>,
       w_clients = w_clients w @ [\<lparr>c_key = key, c_rc = length (kl_heap (w_kl w)), c_phase = Waiting\<rparr>]\<rparr>"
    using None by (simp add: Lock_enter_def ensure_entry_def add_refs_def Let_def)
  show ?thesis
    unfolding new
  proof (rule kl_invI, goal_cases)
    case (1 k r)
    then show ?case using I(1) by (auto simp: nth_append split: if_splits)
  next
    case (2 k k' r)
    then show ?case using I(2) old by (auto split: if_splits)
  next
    case (3 c)
    then show ?case using I(3) by (auto intro: less_SucI)
  next
    case (4 c)
    then show ?case using I(4) None by fastforce
  next
    case (5 r)
    then show ?case using I(5) fresh by (auto simp: nth_append active_on_def less_Suc_eq)
  next
    case (6 r)
    then show ?case using I(6) fresh by (auto simp: nth_append holds_on_def less_Suc_eq)
  qed
qed

text \<open>
  What a step of an existing client must preserve: it moves to another phase, the heap
  changes only at its mutex.
\<close>

lemma client_step_inv:
  assumes inv: "kl_inv w" and i: "i < length (w_clients w)"
    and w': "w' = \<lparr>w_kl = \<lparr>kl_locks = m, kl_heap = (kl_heap (w_kl w))[rc := x]\<rparr>,
                   w_clients = (w_clients w)[i := c\<lparr>c_phase := p\<rparr>]\<rparr>"
    and c: "c = w_clients w ! i" "rc = c_rc c" and active: "active_on rc c \<or> p \<notin> {Waiting, Held}"
    and m: "\<And>k r. gm_get m k = Some r \<Longrightarrow> gm_get (kl_locks (w_kl w)) k = Some r \<and> (r = rc \<longrightarrow> 0 < rm_refs x)"
    and keep: "\<And>k r. gm_get (kl_locks (w_kl w)) k = Some r \<Longrightarrow> r \<noteq> rc \<or> 0 < rm_refs x \<Longrightarrow> gm_get m k = Some r"
    and refs: "rm_refs x = int (count_if (active_on rc) ((w_clients w)[i := c\<lparr>c_phase := p\<rparr>]))"
    and locked: "count_if (holds_on rc) ((w_clients w)[i := c\<lparr>c_phase := p\<rparr>]) = (if rm_locked x then 1 else 0)"
  shows "kl_inv w'"
  unfolding w'
proof (rule kl_invI, goal_cases)
  note I = kl_invD [OF inv]
  have other: "count_if (active_on r) ((w_clients w)[i := c\<lparr>c_phase := p\<rparr>]) = count_if (active_on r) (w_clients w)"
    "count_if (holds_on r) ((w_clients w)[i := c\<lparr>c_phase := p\<rparr>]) = count_if (holds_on r) (w_clients w)" if "r \<noteq> rc" for r
    using that c count_if_update [OF i, of "active_on r" "c\<lparr>c_phase := p\<rparr>"]
      count_if_update [OF i, of "holds_on r" "c\<lparr>c_phase := p\<rparr>"] by (simp_all add: active_on_def holds_on_def)
  have cin: "c \<in> set (w_clients w)" using c i by simp
  {
    case (1 k r)
    then show ?case using m [of k r] I(1) [of k r] by (cases "r = rc") auto
  next
    case (2 k k' r)
    then show ?case using m [of k r] m [of k' r] I(2) [of k r k'] by simp
  next
    case (3 d)
    then show ?case using I(3) cin set_update_subset_insert [of "w_clients w" i "c\<lparr>c_phase := p\<rparr>"] by auto
  next
    case (4 d)
    then have d: "d \<in> set ((w_clients w)[i := c\<lparr>c_phase := p\<rparr>])" and a: "active_on (c_rc d) d" by simp_all
    have get: "gm_get (kl_locks (w_kl w)) (c_key d) = Some (c_rc d)"
    proof (cases "d = c\<lparr>c_phase := p\<rparr>")
      case True
      with a active c have "active_on (c_rc c) c" by (auto simp: active_on_def)
      with True show ?thesis using I(4) [OF cin] by simp
    next
      case False
      with d have "d \<in> set (w_clients w)" using set_update_subset_insert [of "w_clients w" i "c\<lparr>c_phase := p\<rparr>"] by auto
      with a show ?thesis using I(4) by blast
    qed
    have "0 < rm_refs x" if "c_rc d = rc" using d a that refs count_if_pos [of d _ "active_on rc"] by force
    with keep [OF get] show ?case by auto
  next
    case (5 r)
    then show ?case using I(5) [of r] refs other by (cases "r = rc") auto
  next
    case (6 r)
    then show ?case using I(6) [of r] locked other by (cases "r = rc") auto
  }
qed

lemma Lock_acquire_inv:
  assumes inv: "kl_inv w" and st: "Lock_acquire i w = Some w'"
  shows "kl_inv w'"
proof -
  define c where "c = w_clients w ! i"
  from st have i: "i < length (w_clients w)" and ph: "c_phase c = Waiting"
    and free: "\<not> rm_locked (kl_heap (w_kl w) ! c_rc c)"
    by (auto simp: Lock_acquire_def c_def split: if_splits)
  note I = kl_invD [OF inv]
  have cin: "c \<in> set (w_clients w)" using i by (simp add: c_def)
  note rc = I(3) [OF cin]
  have cnt: "count_if (active_on (c_rc c)) ((w_clients w)[i := c\<lparr>c_phase := Held\<rparr>]) = count_if (active_on (c_rc c)) (w_clients w)"
    "count_if (holds_on (c_rc c)) ((w_clients w)[i := c\<lparr>c_phase := Held\<rparr>]) = Suc (count_if (holds_on (c_rc c)) (w_clients w))"
    using ph count_if_update [OF i, of "active_on (c_rc c)" "c\<lparr>c_phase := Held\<rparr>"]
      count_if_update [OF i, of "holds_on (c_rc c)" "c\<lparr>c_phase := Held\<rparr>"]
    by (simp_all add: c_def active_on_def holds_on_def)
  show ?thesis
  proof (rule client_step_inv [OF inv i _ c_def refl, where p = Held and m = "kl_locks (w_kl w)"
        and x = "(kl_heap (w_kl w) ! c_rc c)\<lparr>rm_locked := True\<rparr>"], goal_cases)
    case 1
    from st show ?case by (auto simp: Lock_acquire_def set_phase_def set_locked_def c_def split: if_splits)
  qed (use ph I(5,6) [OF rc] cnt free in \<open>auto simp: active_on_def dest: I(1)\<close>)
qed

lemma unlock_not_stale:
  assumes inv: "kl_inv w" and "i < length (w_clients w)" "c_phase (w_clients w ! i) = Held"
  shows "gm_get (kl_locks (w_kl w)) (c_key (w_clients w ! i)) = Some (c_rc (w_clients w ! i))"
  using kl_invD(4) [OF inv, of "w_clients w ! i"] assms(2,3) by (simp add: active_on_def)

lemma unlock_enter_inv:
  assumes inv: "kl_inv w" and st: "unlock_enter i w = Some w'"
  shows "kl_inv w'"
proof -
  define c where "c = w_clients w ! i"
  define rc where "rc = c_rc c"
  define x where "x = (kl_heap (w_kl w) ! rc)\<lparr>rm_refs := rm_refs (kl_heap (w_kl w) ! rc) - 1\<rparr>"
  define m where "m = (if rm_refs x = 0 then gm_del (c_key c) (kl_locks (w_kl w)) else kl_locks (w_kl w))"
  from st have i: "i < length (w_clients w)" and ph: "c_phase c = Held"
    by (auto simp: unlock_enter_def c_def split: if_splits)
  note I = kl_invD [OF inv]
  have cin: "c \<in> set (w_clients w)" using i by (simp add: c_def)
  note rc = I(3) [OF cin]
  have get: "gm_get (kl_locks (w_kl w)) (c_key c) = Some rc"
    using unlock_not_stale [OF inv i] ph by (simp add: c_def rc_def)
  have cnt: "Suc (count_if (active_on rc) ((w_clients w)[i := c\<lparr>c_phase := Releasing\<rparr>])) = count_if (active_on rc) (w_clients w)"
    "count_if (holds_on rc) ((w_clients w)[i := c\<lparr>c_phase := Releasing\<rparr>]) = count_if (holds_on rc) (w_clients w)"
    using ph count_if_update [OF i, of "active_on rc" "c\<lparr>c_phase := Releasing\<rparr>"]
      count_if_update [OF i, of "holds_on rc" "c\<lparr>c_phase := Releasing\<rparr>"]
    by (simp_all add: c_def rc_def active_on_def holds_on_def)
  have refs: "rm_refs x = int (count_if (active_on rc) ((w_clients w)[i := c\<lparr>c_phase := Releasing\<rparr>]))"
    using I(5) [OF rc] cnt(1) by (simp add: x_def rc_def)
  show ?thesis
  proof (rule client_step_inv [OF inv i _ c_def rc_def, where p = Releasing and m = m and x = x], goal_cases)
    case 1
    from st get rc show ?case
      by (auto simp: unlock_enter_def set_phase_def add_refs_def c_def rc_def x_def m_def Let_def split: if_splits)
  next
    case (3 k r)
    then show ?case using refs get I(2) [of k rc "c_key c"] by (auto simp: m_def split: if_splits)
  next
    case (4 k r)
    then show ?case using refs get by (auto simp: m_def)
  qed (use refs cnt I(6) [OF rc] in \<open>auto simp: x_def rc_def\<close>)
qed

lemma unlock_release_inv:
  assumes inv: "kl_inv w" and st: "unlock_release i w = Some w'"
  shows "kl_inv w'" "rm_locked (kl_heap (w_kl w) ! c_rc (w_clients w ! i))"
proof -
  define c where "c = w_clients w ! i"
  from st have i: "i < length (w_clients w)" and ph: "c_phase c = Releasing"
    by (auto simp: unlock_release_def c_def split: if_splits)
  note I = kl_invD [OF inv]
  have cin: "c \<in> set (w_clients w)" using i by (simp add: c_def)
  note rc = I(3) [OF cin]
  have pos: "0 < count_if (holds_on (c_rc c)) (w_clients w)"
    by (rule count_if_pos [OF cin]) (simp add: holds_on_def ph)
  then show lk: "rm_locked (kl_heap (w_kl w) ! c_rc (w_clients w ! i))"
    using I(6) [OF rc] by (auto simp: c_def split: if_splits)
  have cnt: "count_if (active_on (c_rc c)) ((w_clients w)[i := c\<lparr>c_phase := Done\<rparr>]) = count_if (active_on (c_rc c)) (w_clients w)"
    "Suc (count_if (holds_on (c_rc c)) ((w_clients w)[i := c\<lparr>c_phase := Done\<rparr>])) = count_if (holds_on (c_rc c)) (w_clients w)"
    using ph count_if_update [OF i, of "active_on (c_rc c)" "c\<lparr>c_phase := Done\<rparr>"]
      count_if_update [OF i, of "holds_on (c_rc c)" "c\<lparr>c_phase := Done\<rparr>"]
    by (simp_all add: c_def active_on_def holds_on_def)
  show "kl_inv w'"
  proof (rule client_step_inv [OF inv i _ c_def refl, where p = Done and m = "kl_locks (w_kl w)"
        and x = "(kl_heap (w_kl w) ! c_rc c)\<lparr>rm_locked := False\<rparr>"], goal_cases)
    case 1
    from st show ?case by (auto simp: unlock_release_def set_phase_def set_locked_def c_def split: if_splits)
  qed (use ph I(5,6) [OF rc] cnt lk in \<open>auto simp: active_on_def c_def dest: I(1)\<close>)
qed

interpretation kl: invariant_system "\<lambda>w. w = world0" kl_step kl_inv
proof
  show "kl_inv w" if "w = world0" for w using that kl_inv_init by simp
  show "kl_inv w'" if "kl_inv w" "kl_step w w'" for w w'
    using that(2,1) by (cases rule: kl_step.cases)
      (auto intro: Lock_enter_inv Lock_acquire_inv unlock_enter_inv unlock_release_inv(1))
qed

section \<open>Properties\<close>

text \<open>
  C4: in every interleaving of any number of goroutines over any keys, two different
  callers never hold the lock of the same key at the same time, even while an entry
  is being removed and recreated.
\<close>

theorem Lock_mutual_exclusion:
  assumes "kl_reach w" and "i < length (w_clients w)" "j < length (w_clients w)"
    and "c_phase (w_clients w ! i) = Held" "c_phase (w_clients w ! j) = Held"
    and "c_key (w_clients w ! i) = c_key (w_clients w ! j)"
  shows "i = j"
proof (rule ccontr)
  assume ne: "i \<noteq> j"
  note inv = kl.reach_inv [OF assms(1)]
  let ?r = "c_rc (w_clients w ! i)"
  have same: "c_rc (w_clients w ! j) = ?r"
    using unlock_not_stale [OF inv assms(2,4)] unlock_not_stale [OF inv assms(3,5)] assms(6) by simp
  have "2 \<le> count_if (holds_on ?r) (w_clients w)"
    using ne count_if_two [of i j "w_clients w" "holds_on ?r"] count_if_two [of j i "w_clients w" "holds_on ?r"] assms same
    by (cases "i < j") (auto simp: holds_on_def)
  then show False
    using kl_invD(6) [OF inv kl_invD(3) [OF inv, of "w_clients w ! i"]] assms(2) by (auto split: if_splits)
qed

text \<open>
  The lock table never leaks: in every reachable state each entry belongs to a caller
  that waits for or holds its key, so when all callers have released, no entry is left.
\<close>

theorem Lock_no_leak:
  assumes "kl_reach w" "gm_get (kl_locks (w_kl w)) k = Some r"
  shows "\<exists>c \<in> set (w_clients w). c_key c = k \<and> c_phase c \<in> {Waiting, Held}"
proof -
  note inv = kl.reach_inv [OF assms(1)]
  note r = kl_invD(1) [OF inv assms(2)]
  then have "count_if (active_on r) (w_clients w) \<noteq> 0"
    using kl_invD(5) [OF inv, of r] by auto
  then obtain c where c: "c \<in> set (w_clients w)" "active_on r c" by (auto simp: count_if_0_iff)
  then have "gm_get (kl_locks (w_kl w)) (c_key c) = Some r"
    using kl_invD(4) [OF inv c(1)] by (simp add: active_on_def)
  with assms(2) have "c_key c = k" using kl_invD(2) [OF inv] by blast
  with c show ?thesis by (auto simp: active_on_def)
qed

text \<open>
  The lock cannot get stuck: whenever some caller waits for a key, a step of the
  callers already in the system is possible, namely an acquisition, an unlock of a
  holder (which never takes the stale branch) or the release of a mutex that is locked.
\<close>

theorem Lock_progress:
  assumes "kl_reach w" "c \<in> set (w_clients w)" "c_phase c = Waiting"
  shows "\<exists>i w'. Lock_acquire i w = Some w' \<or>
    (unlock_enter i w = Some w' \<and>
       gm_get (kl_locks (w_kl w)) (c_key (w_clients w ! i)) = Some (c_rc (w_clients w ! i))) \<or>
    (unlock_release i w = Some w' \<and> rm_locked (kl_heap (w_kl w) ! c_rc (w_clients w ! i)))"
proof -
  note inv = kl.reach_inv [OF assms(1)]
  obtain j where j: "j < length (w_clients w)" "c = w_clients w ! j"
    using assms(2) by (auto simp: in_set_conv_nth)
  show ?thesis
  proof (cases "rm_locked (kl_heap (w_kl w) ! c_rc c)")
    case False
    with j assms(3) have "Lock_acquire j w \<noteq> None" by (simp add: Lock_acquire_def)
    then show ?thesis by blast
  next
    case True
    with kl_invD(6) [OF inv kl_invD(3) [OF inv assms(2)]]
    have "count_if (holds_on (c_rc c)) (w_clients w) \<noteq> 0" by simp
    then obtain i where i: "i < length (w_clients w)" "holds_on (c_rc c) (w_clients w ! i)"
      by (auto simp: count_if_0_iff in_set_conv_nth)
    then consider "c_phase (w_clients w ! i) = Held" | "c_phase (w_clients w ! i) = Releasing"
      by (auto simp: holds_on_def)
    then show ?thesis
    proof cases
      case 1
      have "unlock_enter i w \<noteq> None" using i 1 by (simp add: unlock_enter_def Let_def)
      then show ?thesis using unlock_not_stale [OF inv i(1) 1] by blast
    next
      case 2
      then obtain w' where "unlock_release i w = Some w'" using i by (simp add: unlock_release_def)
      then show ?thesis using unlock_release_inv(2) [OF inv] by blast
    qed
  qed
qed

section \<open>Witnesses\<close>

definition example_world :: world where
  "example_world = the (Lock_acquire 0 (Lock_enter ''b'' (Lock_enter ''a'' (Lock_enter ''a'' world0))))"

lemma example_reach: "kl_reach example_world"
proof -
  let ?w = "Lock_enter ''b'' (Lock_enter ''a'' (Lock_enter ''a'' world0))"
  have enter: "kl_reach (Lock_enter k w)" if "kl_reach w" for k w
    using that Enter by (rule reach_step)
  have "kl_reach ?w" by (intro enter reach_init) simp
  moreover have "Lock_acquire 0 ?w = Some example_world" by code_simp
  ultimately show ?thesis by (blast intro: reach_step Acquire)
qed

theorem Lock_mutual_exclusion_witness:
  "{j. j < length (w_clients example_world) \<and> c_phase (w_clients example_world ! j) = Held \<and>
       c_key (w_clients example_world ! j) = ''a''} = {0}"
proof -
  have h: "0 < length (w_clients example_world)" "c_phase (w_clients example_world ! 0) = Held"
    "c_key (w_clients example_world ! 0) = ''a''" by code_simp+
  with Lock_mutual_exclusion [OF example_reach _ h(1) _ h(2)] show ?thesis by auto
qed

theorem Lock_no_leak_witness:
  "\<exists>c \<in> set (w_clients example_world). c_key c = ''b'' \<and> c_phase c \<in> {Waiting, Held}"
proof -
  have "gm_get (kl_locks (w_kl example_world)) ''b'' = Some 1" by code_simp
  from Lock_no_leak [OF example_reach this] show ?thesis .
qed

theorem Lock_progress_witness:
  "\<exists>i w'. Lock_acquire i example_world = Some w' \<or> (\<exists>v. unlock_enter i example_world = Some v) \<or>
     (\<exists>v. unlock_release i example_world = Some v)"
proof -
  have "w_clients example_world ! 1 \<in> set (w_clients example_world)"
    "c_phase (w_clients example_world ! 1) = Waiting" by code_simp+
  from Lock_progress [OF example_reach this] show ?thesis by blast
qed

end
