(* ===== verification/Proxy_Model.thy ===== *)
theory Proxy_Model
  imports Port_Config
begin

text \<open>
  \<^verbatim>\<open>src/internal/model\<close> beside the port labels: the status of a proxy (\<^verbatim>\<open>status.go\<close>), the
  configuration of a proxy and its validation (\<^verbatim>\<open>proxyconfig.go\<close>), and the peer address
  helpers on which the rate limiter and the management routes rely (\<^verbatim>\<open>whois.go\<close>).
\<close>

section \<open>Status\<close>

datatype ProxyStatus =
    ProxyStatusInitializing
  | ProxyStatusStarting
  | ProxyStatusAuthenticating
  | ProxyStatusRunning
  | ProxyStatusStopping
  | ProxyStatusStopped
  | ProxyStatusError
  | ProxyStatusPaused
  | ProxyStatusAwaitingApproval
  | ProxyStatusAuthFailed
  | ProxyStatusDeviceConflict
  | ProxyStatusReconciling

record ProxyEvent =
  ev_ID :: string
  ev_Port :: string
  ev_AuthURL :: string
  ev_ErrorMessage :: string
  ev_Status :: ProxyStatus
  ev_OldStatus :: ProxyStatus

text \<open>The \<^verbatim>\<open>iota\<close> value of a status.\<close>

fun ProxyStatus_iota :: "ProxyStatus \<Rightarrow> int" where
  "ProxyStatus_iota ProxyStatusInitializing = 0"
| "ProxyStatus_iota ProxyStatusStarting = 1"
| "ProxyStatus_iota ProxyStatusAuthenticating = 2"
| "ProxyStatus_iota ProxyStatusRunning = 3"
| "ProxyStatus_iota ProxyStatusStopping = 4"
| "ProxyStatus_iota ProxyStatusStopped = 5"
| "ProxyStatus_iota ProxyStatusError = 6"
| "ProxyStatus_iota ProxyStatusPaused = 7"
| "ProxyStatus_iota ProxyStatusAwaitingApproval = 8"
| "ProxyStatus_iota ProxyStatusAuthFailed = 9"
| "ProxyStatus_iota ProxyStatusDeviceConflict = 10"
| "ProxyStatus_iota ProxyStatusReconciling = 11"

definition proxyStatusStrings :: "string list" where
  "proxyStatusStrings =
     [''Initializing'', ''Starting'', ''Authenticating'', ''Running'', ''Stopping'', ''Stopped'', ''Error'',
      ''Paused'', ''AwaitingApproval'', ''AuthFailed'', ''DeviceConflict'', ''Reconciling'']"

definition ProxyStatus_String :: "int \<Rightarrow> string" where
  "ProxyStatus_String s =
     (if s < 0 \<or> s \<ge> int (length proxyStatusStrings) then ''Unknown'' else proxyStatusStrings ! nat s)"

section \<open>Configuration\<close>

record Tailscale =
  ts_Tags :: string
  ts_AuthKey :: string
  ts_ResolvedAuthKey :: string
  ts_Ephemeral :: bool
  ts_RunWebClient :: bool
  ts_Verbose :: bool

record Dashboard =
  db_Label :: string
  db_Icon :: string
  db_Category :: string
  db_Visible :: bool

record Config =
  cfg_Ports :: PortConfigList
  cfg_TargetProvider :: string
  cfg_TargetID :: string
  cfg_TargetImage :: string
  cfg_ProxyProvider :: string
  cfg_Hostname :: string
  cfg_Domain :: string
  cfg_DNSProvider :: string
  cfg_TLSProvider :: string
  cfg_Tailscale :: Tailscale
  cfg_Dashboard :: Dashboard
  cfg_HealthCheckInterval :: int
  cfg_HealthCheckFailures :: int
  cfg_HealthCheckCooldown :: int
  cfg_RateLimitRPS :: int
  cfg_RateLimitBurst :: int
  cfg_ProxyAccessLog :: bool
  cfg_IdentityHeaders :: bool
  cfg_AutoRestart :: bool
  cfg_HealthCheckEnabled :: bool
  cfg_RateLimitEnabled :: bool

definition ProviderModeShared :: string where "ProviderModeShared = ''shared''"
definition ProviderModeServices :: string where "ProviderModeServices = ''services''"

datatype config_error =
    FunnelRequiresHTTPS string string
  | ServicesNoDomain
  | ServicesNoUDP string
  | SharedNeedsDomain

fun funnel_check :: "PortConfigList \<Rightarrow> config_error option" where
  "funnel_check [] = None"
| "funnel_check ((key, port) # ps) =
     (if tp_Funnel (pc_Tailscale port) \<and> pc_ProxyProtocol port \<noteq> ProtoHTTPS
      then Some (FunnelRequiresHTTPS key (pc_ProxyProtocol port)) else funnel_check ps)"

definition ValidateProxyPorts :: "Config \<Rightarrow> config_error option" where
  "ValidateProxyPorts cfg = funnel_check (cfg_Ports cfg)"

fun udp_check :: "PortConfigList \<Rightarrow> config_error option" where
  "udp_check [] = None"
| "udp_check ((key, port) # ps) =
     (if pc_ProxyProtocol port = ProtoUDP then Some (ServicesNoUDP key) else udp_check ps)"

definition ValidateProxyConfigForMode :: "Config \<Rightarrow> string \<Rightarrow> config_error option" where
  "ValidateProxyConfigForMode cfg mode =
     (if mode = ProviderModeServices then
        (if cfg_Domain cfg \<noteq> [] then Some ServicesNoDomain
         else case udp_check (cfg_Ports cfg) of
                Some e \<Rightarrow> Some e
              | None \<Rightarrow> ValidateProxyPorts cfg)
      else if mode = ProviderModeShared then
        (if cfg_Domain cfg = [] then Some SharedNeedsDomain else ValidateProxyPorts cfg)
      else ValidateProxyPorts cfg)"

section \<open>Peer addresses\<close>

definition IsLocalhost :: "string \<Rightarrow> bool" where
  "IsLocalhost remoteAddr =
     (let host = (case split_host_port remoteAddr of None \<Rightarrow> remoteAddr | Some (h, _) \<Rightarrow> h)
      in case parse_ip host of None \<Rightarrow> False | Some ip \<Rightarrow> is_loopback ip)"

definition NormalizeIP :: "string \<Rightarrow> string" where
  "NormalizeIP addr0 =
     (let addr = trim_space addr0
      in case split_host_port addr of
           Some (host, _) \<Rightarrow> (if parse_ip host \<noteq> None then host else [])
         | None \<Rightarrow> (if parse_ip addr \<noteq> None then addr else []))"

section \<open>Facts\<close>

lemma ProxyStatus_String_inj:
  "ProxyStatus_String (ProxyStatus_iota s) = ProxyStatus_String (ProxyStatus_iota t) \<longleftrightarrow> s = t"
  by (cases s; cases t) (simp_all add: ProxyStatus_String_def proxyStatusStrings_def)

lemma parse_ip_Nil: "parse_ip [] = None"
  by code_simp

lemma NormalizeIP_parses: "NormalizeIP a \<noteq> [] \<longleftrightarrow> parse_ip (NormalizeIP a) \<noteq> None"
  using parse_ip_Nil by (auto simp: NormalizeIP_def Let_def split: option.splits)

lemma funnel_check_iff:
  "funnel_check ps = None \<longleftrightarrow> (\<forall>(k, p) \<in> set ps. tp_Funnel (pc_Tailscale p) \<longrightarrow> pc_ProxyProtocol p = ProtoHTTPS)"
  by (induction ps rule: funnel_check.induct) auto

lemma udp_check_iff: "udp_check ps = None \<longleftrightarrow> (\<forall>(k, p) \<in> set ps. pc_ProxyProtocol p \<noteq> ProtoUDP)"
  by (induction ps rule: udp_check.induct) auto

text \<open>
  \<^verbatim>\<open>ValidateProxyConfigForMode\<close> accepts a configuration exactly when funnel ports are https
  and, in services mode, there is no custom domain and no UDP port, in shared mode,
  there is a domain; whatever the iteration order over the ports.
\<close>

theorem ValidateProxyConfigForMode_iff:
  "ValidateProxyConfigForMode cfg mode = None \<longleftrightarrow>
     list_all (\<lambda>(k, p). \<not> (tp_Funnel (pc_Tailscale p) \<and> pc_ProxyProtocol p \<noteq> ProtoHTTPS)) (cfg_Ports cfg) \<and>
     \<not> (mode = ''services'' \<and> cfg_Domain cfg \<noteq> []) \<and>
     \<not> (mode = ''services'' \<and> list_ex (\<lambda>(k, p). pc_ProxyProtocol p = ProtoUDP) (cfg_Ports cfg)) \<and>
     \<not> (mode = ''shared'' \<and> cfg_Domain cfg = [])"
  using udp_check_iff [of "cfg_Ports cfg"] funnel_check_iff [of "cfg_Ports cfg"]
  by (auto simp: ValidateProxyConfigForMode_def ValidateProxyPorts_def ProviderModeServices_def ProviderModeShared_def
      list_all_iff list_ex_iff split: option.splits)

end
