(* ===== verification/Rate_Limit.thy ===== *)
theory Rate_Limit
  imports Proxy_Model
begin

text \<open>
  \<^verbatim>\<open>src/internal/proxymanager/ratelimit.go\<close>: a token bucket per client address in an LRU of at
  most 4096 entries, and the address a request is accounted to. The token bucket is the
  package \<^verbatim>\<open>golang.org/x/time/rate\<close>, which is not part of the sources: its two operations
  are parameters (\<open>newLim\<close>, the state \<^verbatim>\<open>NewLimiter\<close> gives, and \<open>Allow\<close>).
  \<^verbatim>\<open>lruList\<close> is the list of keys, front first.
\<close>

section \<open>State and operations\<close>

definition httpRateLimitClients :: nat where "httpRateLimitClients = 4096"

record 'lim rateLimitEntry =
  re_lastSeen :: int
  re_limiter :: 'lim

record 'lim ipRateLimiter =
  rl_clients :: "(string, 'lim rateLimitEntry) gomap"
  rl_lruList :: "string list"

definition newIPRateLimiter :: "'lim ipRateLimiter" where
  "newIPRateLimiter = \<lparr>rl_clients = [], rl_lruList = []\<rparr>"

definition evict_oldest :: "'lim ipRateLimiter \<Rightarrow> 'lim ipRateLimiter" where
  "evict_oldest l =
     (if length (rl_clients l) \<ge> httpRateLimitClients \<and> rl_lruList l \<noteq> [] then
        l\<lparr>rl_clients := gm_del (last (rl_lruList l)) (rl_clients l), rl_lruList := butlast (rl_lruList l)\<rparr>
      else l)"

text \<open>\<^verbatim>\<open>get\<close> makes the client the most recent one and returns its limiter.\<close>

definition rl_get :: "'lim \<Rightarrow> int \<Rightarrow> string \<Rightarrow> 'lim ipRateLimiter \<Rightarrow> 'lim \<times> 'lim ipRateLimiter" where
  "rl_get newLim now clientIP l =
     (case gm_get (rl_clients l) clientIP of
        Some entry \<Rightarrow>
          (re_limiter entry,
           l\<lparr>rl_clients := gm_put clientIP (entry\<lparr>re_lastSeen := now\<rparr>) (rl_clients l),
             rl_lruList := clientIP # remove1 clientIP (rl_lruList l)\<rparr>)
      | None \<Rightarrow>
          (let l = evict_oldest l
           in (newLim,
               l\<lparr>rl_clients := gm_put clientIP \<lparr>re_lastSeen = now, re_limiter = newLim\<rparr> (rl_clients l),
                 rl_lruList := clientIP # rl_lruList l\<rparr>)))"

text \<open>The limiter is shared by pointer: its new state is stored back in the entry.\<close>

definition rl_allow :: "'lim \<Rightarrow> (int \<Rightarrow> 'lim \<Rightarrow> bool \<times> 'lim) \<Rightarrow> int \<Rightarrow> string \<Rightarrow> 'lim ipRateLimiter \<Rightarrow> bool \<times> 'lim ipRateLimiter" where
  "rl_allow newLim Allow now clientIP l =
     (let (lim, l) = rl_get newLim now clientIP l; (ok, lim) = Allow now lim
      in (ok, l\<lparr>rl_clients := gm_put clientIP \<lparr>re_lastSeen = now, re_limiter = lim\<rparr> (rl_clients l)\<rparr>))"

definition rl_close :: "'lim ipRateLimiter \<Rightarrow> 'lim ipRateLimiter" where
  "rl_close l = l\<lparr>rl_clients := [], rl_lruList := []\<rparr>"

section \<open>The address of a request\<close>

record request =
  rq_RemoteAddr :: string
  rq_XForwardedFor :: "string list"

definition resolvePeerIP :: "request \<Rightarrow> string" where
  "resolvePeerIP r =
     (if \<not> IsLocalhost (rq_RemoteAddr r) then NormalizeIP (rq_RemoteAddr r)
      else let xffVals = rq_XForwardedFor r
           in if length xffVals \<noteq> 1 then []
              else if contains_str (xffVals ! 0) '','' then []
              else let ip = NormalizeIP (xffVals ! 0)
                   in case parse_ip ip of
                        Some parsed \<Rightarrow> (if is_loopback parsed then [] else ip)
                      | None \<Rightarrow> ip)"

datatype rl_response = TooManyRequests | ServeNext

definition rateLimitMiddleware ::
  "'lim \<Rightarrow> (int \<Rightarrow> 'lim \<Rightarrow> bool \<times> 'lim) \<Rightarrow> int \<Rightarrow> request \<Rightarrow> 'lim ipRateLimiter \<Rightarrow> rl_response \<times> 'lim ipRateLimiter" where
  "rateLimitMiddleware newLim Allow now r l =
     (let ip = resolvePeerIP r;
          ip = (if ip = [] then rq_RemoteAddr r else ip);
          (ok, l) = rl_allow newLim Allow now ip l
      in (if \<not> ok then TooManyRequests else ServeNext, l))"

section \<open>The abstract recency list\<close>

text \<open>The distinct clients of a history given newest first, most recent first.\<close>

fun mru :: "string list \<Rightarrow> string list" where
  "mru [] = []"
| "mru (x # h) = x # removeAll x (mru h)"

definition rl_inv :: "'lim ipRateLimiter \<Rightarrow> bool" where
  "rl_inv l \<longleftrightarrow> gm_wf (rl_clients l) \<and> distinct (rl_lruList l) \<and>
     set (rl_lruList l) = set (keys (rl_clients l)) \<and> length (rl_clients l) \<le> httpRateLimitClients"

text \<open>The limiter after a history of accesses \<open>(now, client)\<close>, newest first.\<close>

fun rl_run :: "'lim \<Rightarrow> (int \<Rightarrow> 'lim \<Rightarrow> bool \<times> 'lim) \<Rightarrow> (int \<times> string) list \<Rightarrow> 'lim ipRateLimiter" where
  "rl_run newLim Allow [] = newIPRateLimiter"
| "rl_run newLim Allow ((now, ip) # h) = snd (rl_allow newLim Allow now ip (rl_run newLim Allow h))"

lemma mru_distinct [simp]: "distinct (mru h)"
  by (induction h) (auto simp: distinct_removeAll)

lemma rl_inv_lengths: "rl_inv l \<Longrightarrow> length (rl_lruList l) = length (rl_clients l)"
  using distinct_card [of "rl_lruList l"] distinct_card [of "keys (rl_clients l)"]
  by (simp add: rl_inv_def gm_wf_def)

lemma set_butlast_distinct: "distinct xs \<Longrightarrow> xs \<noteq> [] \<Longrightarrow> set (butlast xs) = set xs - {last xs}"
  by (cases xs rule: rev_cases) auto

lemma cap_pos: "0 < httpRateLimitClients"
  by (simp add: httpRateLimitClients_def)

lemma evict_oldest_ok:
  assumes inv: "rl_inv l"
  shows "rl_inv (evict_oldest l)" "length (rl_clients (evict_oldest l)) < httpRateLimitClients"
    "rl_lruList (evict_oldest l) = take (httpRateLimitClients - 1) (rl_lruList l)"
    "set (rl_clients (evict_oldest l)) \<subseteq> set (rl_clients l)"
proof -
  note len = rl_inv_lengths [OF inv]
  have all: "rl_inv (evict_oldest l) \<and> length (rl_clients (evict_oldest l)) < httpRateLimitClients \<and>
    rl_lruList (evict_oldest l) = take (httpRateLimitClients - 1) (rl_lruList l) \<and>
    set (rl_clients (evict_oldest l)) \<subseteq> set (rl_clients l)"
  proof (cases "length (rl_clients l) \<ge> httpRateLimitClients")
    case False
    then show ?thesis using inv len by (auto simp: evict_oldest_def)
  next
    case True
    with inv len cap_pos have full: "length (rl_lruList l) = httpRateLimitClients" and ne: "rl_lruList l \<noteq> []"
      by (auto simp: rl_inv_def)
    let ?m = "gm_del (last (rl_lruList l)) (rl_clients l)"
    have eq: "evict_oldest l = l\<lparr>rl_clients := ?m, rl_lruList := butlast (rl_lruList l)\<rparr>"
      using True ne by (simp add: evict_oldest_def)
    have keys: "set (butlast (rl_lruList l)) = set (keys ?m)"
      using inv ne by (simp add: set_butlast_distinct keys_del rl_inv_def del: set_map)
    have wf: "gm_wf ?m" using inv by (simp add: rl_inv_def)
    have dis: "distinct (butlast (rl_lruList l))" using inv by (simp add: rl_inv_def distinct_butlast)
    have "length ?m = length (butlast (rl_lruList l))"
      using distinct_card [OF dis] distinct_card [of "keys ?m"] wf keys by (simp add: gm_wf_def)
    then have lt: "length ?m < httpRateLimitClients" using full cap_pos by simp
    moreover have "set ?m \<subseteq> set (rl_clients l)" by (auto dest: gm_del_set)
    ultimately show ?thesis
      using eq keys wf dis full by (simp add: rl_inv_def butlast_conv_take del: set_map)
  qed
  then show "rl_inv (evict_oldest l)" "length (rl_clients (evict_oldest l)) < httpRateLimitClients"
    "rl_lruList (evict_oldest l) = take (httpRateLimitClients - 1) (rl_lruList l)"
    "set (rl_clients (evict_oldest l)) \<subseteq> set (rl_clients l)" by blast+
qed

lemma rl_get_ok:
  assumes inv: "rl_inv l" and g: "rl_get newLim now ip l = (lim, l')"
  shows "rl_inv l'" "gm_get (rl_clients l') ip = Some \<lparr>re_lastSeen = now, re_limiter = lim\<rparr>"
    "rl_lruList l' = (if ip \<in> set (rl_lruList l) then ip # remove1 ip (rl_lruList l)
       else ip # take (httpRateLimitClients - 1) (rl_lruList l))"
proof -
  note e = evict_oldest_ok [OF inv]
  have "rl_inv l' \<and> gm_get (rl_clients l') ip = Some \<lparr>re_lastSeen = now, re_limiter = lim\<rparr> \<and>
    rl_lruList l' = (if ip \<in> set (rl_lruList l) then ip # remove1 ip (rl_lruList l)
       else ip # take (httpRateLimitClients - 1) (rl_lruList l))"
  proof (cases "gm_get (rl_clients l) ip")
    case (Some entry)
    then have mem: "ip \<in> set (keys (rl_clients l))" by (metis gm_get_None_iff option.distinct(1))
    with inv have mem': "ip \<in> set (rl_lruList l)" by (simp add: rl_inv_def)
    from g Some have l': "lim = re_limiter entry" "l' = l\<lparr>rl_clients := gm_put ip (entry\<lparr>re_lastSeen := now\<rparr>) (rl_clients l),
             rl_lruList := ip # remove1 ip (rl_lruList l)\<rparr>"
      by (simp_all add: rl_get_def)
    have "rl_inv l'" using inv mem mem' by (auto simp: l'(2) rl_inv_def keys_put gm_put_length simp del: set_map)
    with l' mem' show ?thesis by simp
  next
    case None
    then have mem: "ip \<notin> set (keys (rl_clients l))" by (simp add: gm_get_None_iff)
    with inv have mem': "ip \<notin> set (rl_lruList l)" by (simp add: rl_inv_def)
    then have notl: "ip \<notin> set (rl_lruList (evict_oldest l))" using e(3) in_set_takeD by metis
    with e(1) have notk: "ip \<notin> set (keys (rl_clients (evict_oldest l)))" by (simp add: rl_inv_def)
    from g None have l': "lim = newLim" "l' = (evict_oldest l)\<lparr>rl_clients := gm_put ip \<lparr>re_lastSeen = now, re_limiter = newLim\<rparr> (rl_clients (evict_oldest l)),
             rl_lruList := ip # rl_lruList (evict_oldest l)\<rparr>"
      by (auto simp: rl_get_def Let_def)
    have "rl_inv l'" using e(1,2) notl notk by (auto simp: l'(2) rl_inv_def keys_put gm_put_length simp del: set_map)
    with l' mem' e(3) show ?thesis by simp
  qed
  then show "rl_inv l'" "gm_get (rl_clients l') ip = Some \<lparr>re_lastSeen = now, re_limiter = lim\<rparr>"
    "rl_lruList l' = (if ip \<in> set (rl_lruList l) then ip # remove1 ip (rl_lruList l)
       else ip # take (httpRateLimitClients - 1) (rl_lruList l))" by blast+
qed


lemma rl_allow_ok:
  assumes inv: "rl_inv l" and a: "rl_allow newLim Allow now ip l = (ok, l')"
  shows "rl_inv l'" "rl_lruList l' = (if ip \<in> set (rl_lruList l) then ip # remove1 ip (rl_lruList l)
       else ip # take (httpRateLimitClients - 1) (rl_lruList l))"
proof -
  obtain lim l1 where g: "rl_get newLim now ip l = (lim, l1)" by (cases "rl_get newLim now ip l")
  note ok = rl_get_ok [OF inv g]
  then have "ip \<in> set (keys (rl_clients l1))" by (metis gm_get_None_iff option.distinct(1))
  with a g ok show "rl_inv l'" "rl_lruList l' = (if ip \<in> set (rl_lruList l) then ip # remove1 ip (rl_lruList l)
       else ip # take (httpRateLimitClients - 1) (rl_lruList l))"
    by (auto simp: rl_allow_def rl_inv_def keys_put gm_put_length split: prod.splits simp del: set_map)
qed

lemma remove1_take: "distinct m \<Longrightarrow> x \<in> set (take n m) \<Longrightarrow> remove1 x (take n m) = take (n - 1) (removeAll x m)"
proof (induction m arbitrary: n)
  case (Cons y m)
  show ?case
  proof (cases "x = y")
    case True
    with Cons.prems show ?thesis by (cases n) simp_all
  next
    case False
    with Cons.prems obtain k where k: "n = Suc k" "x \<in> set (take k m)" by (cases n) auto
    then obtain j where "k = Suc j" by (cases k) auto
    with Cons.IH [of k] Cons.prems False k show ?thesis by simp
  qed
qed simp

lemma take_removeAll: "x \<notin> set (take n m) \<Longrightarrow> take (n - 1) (take n m) = take (n - 1) (removeAll x m)"
proof (induction m arbitrary: n)
  case (Cons y m)
  show ?case
  proof (cases n)
    case (Suc k)
    with Cons.prems Cons.IH [of k] show ?thesis by (cases k) auto
  qed simp
qed simp

lemma mru_step:
  assumes "0 < n"
  shows "take n (mru (x # h)) =
    (if x \<in> set (take n (mru h)) then x # remove1 x (take n (mru h)) else x # take (n - 1) (take n (mru h)))"
  using assms remove1_take [OF mru_distinct, of x n h] take_removeAll [of x n "mru h"] by (cases n) auto

lemma rl_run_ok:
  "rl_inv (rl_run newLim Allow h) \<and> rl_lruList (rl_run newLim Allow h) = take httpRateLimitClients (mru (map snd h))"
proof (induction h)
  case Nil
  then show ?case by (simp add: newIPRateLimiter_def rl_inv_def)
next
  case (Cons a h)
  obtain now ip where a: "a = (now, ip)" by (cases a)
  obtain ok l' where r: "rl_allow newLim Allow now ip (rl_run newLim Allow h) = (ok, l')"
    by (cases "rl_allow newLim Allow now ip (rl_run newLim Allow h)")
  from Cons.IH rl_allow_ok [OF _ r] mru_step [OF cap_pos, of ip "map snd h"] show ?case by (simp add: a r)
qed

section \<open>Isolation of clients\<close>

text \<open>The token bucket of one client that sees only its own requests.\<close>

fun private_limiter :: "'lim \<Rightarrow> (int \<Rightarrow> 'lim \<Rightarrow> bool \<times> 'lim) \<Rightarrow> string \<Rightarrow> (int \<times> string) list \<Rightarrow> 'lim" where
  "private_limiter newLim Allow ip [] = newLim"
| "private_limiter newLim Allow ip ((now, x) # h) =
     (let lim = private_limiter newLim Allow ip h in if x = ip then snd (Allow now lim) else lim)"

lemma no_eviction:
  assumes "rl_inv l" "length (rl_lruList l) < httpRateLimitClients"
  shows "evict_oldest l = l"
  using assms(2) rl_inv_lengths [OF assms(1)] by (simp add: evict_oldest_def)

lemma mru_set: "set (mru h) = set h"
  by (induction h) auto

lemma mru_length_mono: "length (mru h) \<le> length (mru (x # h))"
proof -
  have "card (set h) \<le> card (set (x # h))" by (rule card_mono) auto
  then show ?thesis using distinct_card [OF mru_distinct] by (metis mru_set)
qed

lemma mru_length_new: "x \<notin> set h \<Longrightarrow> length (mru (x # h)) = Suc (length (mru h))"
  by (simp add: removeAll_id mru_set)

lemma rl_allow_get:
  "gm_get (rl_clients (snd (rl_allow newLim Allow now x l))) ip =
    (if ip = x then Some \<lparr>re_lastSeen = now, re_limiter =
        snd (Allow now (case gm_get (rl_clients l) x of None \<Rightarrow> newLim | Some e \<Rightarrow> re_limiter e))\<rparr>
     else gm_get (rl_clients (if gm_get (rl_clients l) x = None then evict_oldest l else l)) ip)"
  by (auto simp: rl_allow_def rl_get_def Let_def split: option.splits prod.splits)

lemma rl_allow_decision:
  "fst (rl_allow newLim Allow now x l) =
     fst (Allow now (case gm_get (rl_clients l) x of None \<Rightarrow> newLim | Some e \<Rightarrow> re_limiter e))"
  by (auto simp: rl_allow_def rl_get_def Let_def split: option.splits prod.splits)

lemma private_limiter_new: "ip \<notin> set (map snd h) \<Longrightarrow> private_limiter newLim Allow ip h = newLim"
  by (induction h) (auto simp: Let_def)

lemma rl_run_limiter:
  assumes "length (mru (map snd h)) \<le> httpRateLimitClients"
  shows "map_option re_limiter (gm_get (rl_clients (rl_run newLim Allow h)) ip) =
    (if ip \<in> set (map snd h) then Some (private_limiter newLim Allow ip h) else None)"
  using assms
proof (induction h)
  case Nil
  then show ?case by (simp add: newIPRateLimiter_def)
next
  case (Cons a h)
  obtain now x where a: "a = (now, x)" by (cases a)
  let ?l = "rl_run newLim Allow h"
  have le: "length (mru (map snd h)) \<le> httpRateLimitClients"
    using Cons.prems mru_length_mono [of "map snd h" x] by (simp add: a)
  note inv = rl_run_ok [of newLim Allow h, THEN conjunct1] and lru = rl_run_ok [of newLim Allow h, THEN conjunct2]
  have full: "rl_lruList ?l = mru (map snd h)" using lru le by simp
  have mem: "gm_get (rl_clients ?l) x = None \<longleftrightarrow> x \<notin> set (map snd h)"
    using inv full mru_set [of "map snd h"] by (simp add: rl_inv_def gm_get_None_iff del: set_map)
  have ev: "evict_oldest ?l = ?l" if "x \<notin> set (map snd h)"
    using Cons.prems that mru_length_new [of x "map snd h"] full inv by (intro no_eviction) (simp_all add: a)
  have same: "(if gm_get (rl_clients ?l) x = None then evict_oldest ?l else ?l) = ?l"
    using mem ev by simp
  show ?case
  proof (cases "ip = x")
    case False
    with Cons.IH [OF le] same show ?thesis by (simp add: a rl_allow_get Let_def)
  next
    case True
    with Cons.IH [OF le] mem private_limiter_new [of x h newLim Allow] show ?thesis
      by (cases "gm_get (rl_clients ?l) x") (auto simp: a rl_allow_get Let_def simp del: set_map)
  qed
qed

text \<open>
  The recency list of the limiter is always the 4096 most recently seen distinct clients,
  most recent first, so the table never holds more than 4096 entries and evicts the
  least recently seen client.
\<close>

theorem rate_limit_lru:
  "rl_lruList (rl_run newLim Allow h) = take 4096 (mru (map snd h)) \<and>
   length (rl_clients (rl_run newLim Allow h)) \<le> 4096 \<and>
   set (keys (rl_clients (rl_run newLim Allow h))) = set (take 4096 (mru (map snd h)))"
  using rl_run_ok [of newLim Allow h] unfolding rl_inv_def httpRateLimitClients_def by metis

text \<open>
  As long as the history has at most 4096 distinct clients, the decision on a request
  depends only on the earlier requests of the same client: it is the decision of a token
  bucket that saw just those. Other clients cannot exhaust it nor reset it.
\<close>

theorem rate_limit_isolation:
  assumes "length (mru (ip # map snd h)) \<le> 4096"
  shows "fst (rl_allow newLim Allow now ip (rl_run newLim Allow h)) =
    fst (Allow now (private_limiter newLim Allow ip h))"
proof -
  have "length (mru (map snd h)) \<le> httpRateLimitClients"
    using assms mru_length_mono [of "map snd h" ip] by (simp add: httpRateLimitClients_def)
  note st = rl_run_limiter [OF this, of newLim Allow ip]
  then have "(case gm_get (rl_clients (rl_run newLim Allow h)) ip of None \<Rightarrow> newLim | Some e \<Rightarrow> re_limiter e) =
      private_limiter newLim Allow ip h"
    using private_limiter_new [of ip h newLim Allow]
    by (cases "gm_get (rl_clients (rl_run newLim Allow h)) ip") (auto split: if_splits simp del: set_map)
  then show ?thesis by (simp add: rl_allow_decision)
qed

theorem rate_limit_isolation_witness:
  "fst (rl_allow 1 (\<lambda>_ n. (0 < n, n - 1)) 5 ''a'' (rl_run (1 :: nat) (\<lambda>_ n. (0 < n, n - 1)) [(4, ''b''), (3, ''a'')])) = False"
  using rate_limit_isolation [of "''a''" "[(4, ''b''), (3, ''a'')]" 1 "\<lambda>_ n. (0 < n, n - (1 :: nat))" 5] by simp

section \<open>Which address is trusted\<close>

lemma NormalizeIP_not_loopback:
  assumes "trim_space a = a" "\<not> IsLocalhost a" "parse_ip (NormalizeIP a) = Some ip"
  shows "\<not> is_loopback ip"
  using assms parse_ip_Nil by (auto simp: NormalizeIP_def IsLocalhost_def split: option.splits if_splits)

text \<open>
  The address a request is accounted to is either empty or a valid IP address that is not
  a loopback one, and \<^verbatim>\<open>X-Forwarded-For\<close> has no influence on it unless the connection itself
  comes from the loopback interface, so a remote client cannot choose its bucket.
\<close>

theorem resolvePeerIP_trust:
  assumes "trim_space (rq_RemoteAddr r) = rq_RemoteAddr r"
  shows "(resolvePeerIP r = [] \<or> (\<exists>ip. parse_ip (resolvePeerIP r) = Some ip \<and> \<not> is_loopback ip)) \<and>
    (\<not> IsLocalhost (rq_RemoteAddr r) \<longrightarrow> resolvePeerIP (r\<lparr>rq_XForwardedFor := h\<rparr>) = resolvePeerIP r)"
proof
  show "resolvePeerIP r = [] \<or> (\<exists>ip. parse_ip (resolvePeerIP r) = Some ip \<and> \<not> is_loopback ip)"
  proof (cases "IsLocalhost (rq_RemoteAddr r)")
    case False
    then show ?thesis
      using NormalizeIP_parses [of "rq_RemoteAddr r"] NormalizeIP_not_loopback [OF assms]
      by (auto simp: resolvePeerIP_def)
  next
    case True
    then show ?thesis
      using NormalizeIP_parses [of "rq_XForwardedFor r ! 0"] by (auto simp: resolvePeerIP_def Let_def split: option.splits)
  qed
qed (simp add: resolvePeerIP_def)

theorem resolvePeerIP_trust_witness:
  "\<exists>ip. parse_ip (resolvePeerIP \<lparr>rq_RemoteAddr = ''10.0.0.1:80'', rq_XForwardedFor = [''9.9.9.9'']\<rparr>) = Some ip \<and>
     \<not> is_loopback ip"
proof -
  let ?r = "\<lparr>rq_RemoteAddr = ''10.0.0.1:80'', rq_XForwardedFor = [''9.9.9.9'']\<rparr>"
  have "trim_space (rq_RemoteAddr ?r) = rq_RemoteAddr ?r" "resolvePeerIP ?r \<noteq> []" by code_simp+
  with resolvePeerIP_trust [of ?r] show ?thesis by auto
qed

end
