(* ===== verification/Health.thy ===== *)
theory Health
  imports Proxy_Model "HOL-Library.Signed_Division"
begin

text \<open>
  \<^verbatim>\<open>src/internal/proxymanager/health.go\<close>: the health checker of a proxy. It probes one port
  of the proxy, counts failures, asks for a re-resolution of the target after a number
  of them and backs off. Durations are \<^verbatim>\<open>int64\<close> nanoseconds with the wrap-around of Go;
  instants are unbounded. What the network answers to a probe and the configuration the
  target provider re-resolves are inputs.
\<close>

section \<open>Durations\<close>

definition second :: int where "second = 1000000000"
definition healthCheckMaxInterval :: int where "healthCheckMaxInterval = 3600 * second"
definition healthCheckMaxCooldown :: int where "healthCheckMaxCooldown = 24 * 3600 * second"
definition maxBackoff :: int where "maxBackoff = 24 * 3600 * second"
definition maxBackoffShift :: int where "maxBackoffShift = 62"

lemmas duration_defs = second_def healthCheckMaxInterval_def healthCheckMaxCooldown_def maxBackoff_def maxBackoffShift_def

text \<open>\<^verbatim>\<open>1 << uint(n)\<close> on an \<^verbatim>\<open>int64\<close>: 64 and more bits shift everything out.\<close>

definition shl1 :: "int \<Rightarrow> int" where
  "shl1 n = (let u = n mod 2 ^ 64 in if u \<ge> 64 then 0 else wrap64 (2 ^ nat u))"

definition nextBackoff :: "int \<Rightarrow> int \<Rightarrow> int" where
  "nextBackoff interval attempt =
     (if attempt > maxBackoffShift then maxBackoff
      else let shift = shl1 attempt
           in if shift > 0 \<and> interval > maxBackoff sdiv shift then maxBackoff
              else let d = wrap64 (interval * shift) in if d > maxBackoff then maxBackoff else d)"

definition clampDuration :: "int \<Rightarrow> int \<Rightarrow> int \<Rightarrow> int" where
  "clampDuration seconds minVal maxVal =
     (let d = wrap64 (seconds * second) in if d < minVal then minVal else if d > maxVal then maxVal else d)"

section \<open>Probes\<close>

datatype HealthStatus = HealthUnknown | HealthHealthy | HealthDown

fun HealthStatus_String :: "HealthStatus \<Rightarrow> string" where
  "HealthStatus_String HealthHealthy = ''healthy''"
| "HealthStatus_String HealthDown = ''down''"
| "HealthStatus_String HealthUnknown = ''unknown''"

record HealthResult =
  hr_Error :: string
  hr_Status :: HealthStatus

abbreviation down :: "string \<Rightarrow> HealthResult" where "down e \<equiv> \<lparr>hr_Error = e, hr_Status = HealthDown\<rparr>"
abbreviation healthy :: HealthResult where "healthy \<equiv> \<lparr>hr_Error = [], hr_Status = HealthHealthy\<rparr>"

text \<open>What a probe observes: the first failing call with its error, or the answer.\<close>

datatype http_obs = NewRequestError string | DoError string | Response

fun checkHTTP :: "http_obs \<Rightarrow> HealthResult" where
  "checkHTTP (NewRequestError e) = down (''invalid target URL: '' @ e)"
| "checkHTTP (DoError e) = down e"
| "checkHTTP Response = healthy"

datatype tcp_obs = DialError string | Connected

fun checkTCP :: "tcp_obs \<Rightarrow> HealthResult" where
  "checkTCP (DialError e) = down e"
| "checkTCP Connected = healthy"

text \<open>A read error, whether it implements \<^verbatim>\<open>net.Error\<close>, and whether it is a timeout.\<close>

record read_error =
  er_net :: bool
  er_timeout :: bool
  er_msg :: string

datatype udp_obs =
    ResolveError string
  | DialUDPError string
  | WriteError string
  | DeadlineError string
  | Read "string option" "read_error option"

text \<open>\<open>Read ctxErr readErr\<close>: the context error after the wait, and the result of the read.\<close>

fun checkUDP :: "udp_obs \<Rightarrow> HealthResult" where
  "checkUDP (ResolveError e) = down (''error resolving address: '' @ e)"
| "checkUDP (DialUDPError e) = down e"
| "checkUDP (WriteError e) = down e"
| "checkUDP (DeadlineError e) = down e"
| "checkUDP (Read ctxErr readErr) =
     (case ctxErr of
        Some e \<Rightarrow> down e
      | None \<Rightarrow>
          (case readErr of
             None \<Rightarrow> healthy
           | Some e \<Rightarrow> if er_net e then healthy else down (er_msg e)))"

section \<open>The checker\<close>

record healthChecker =
  hc_cooldownUntil :: "int option"
  hc_target :: string
  hc_result :: HealthResult
  hc_scheme :: string
  hc_interval :: int
  hc_cooldown :: int
  hc_failThreshold :: int
  hc_retryAttempt :: int
  hc_consecutiveFailures :: int
  hc_tlsValidate :: bool

definition newHealthChecker :: "string \<Rightarrow> string \<Rightarrow> int \<Rightarrow> int \<Rightarrow> int \<Rightarrow> bool \<Rightarrow> healthChecker" where
  "newHealthChecker target scheme interval failThreshold cooldown tlsValidate =
     \<lparr>hc_cooldownUntil = None, hc_target = target, hc_result = \<lparr>hr_Error = [], hr_Status = HealthUnknown\<rparr>,
      hc_scheme = scheme, hc_interval = interval, hc_cooldown = cooldown, hc_failThreshold = failThreshold,
      hc_retryAttempt = 0, hc_consecutiveFailures = 0, hc_tlsValidate = tlsValidate\<rparr>"

definition SetTarget :: "string \<Rightarrow> healthChecker \<Rightarrow> healthChecker" where
  "SetTarget target hc = hc\<lparr>hc_target := target\<rparr>"

definition GetHealth :: "healthChecker option \<Rightarrow> HealthResult" where
  "GetHealth hc = (case hc of None \<Rightarrow> \<lparr>hr_Error = [], hr_Status = HealthUnknown\<rparr> | Some h \<Rightarrow> hc_result h)"

record probe_env =
  pe_http :: http_obs
  pe_tcp :: tcp_obs
  pe_udp :: udp_obs
  pe_now :: int
  pe_later :: int
  pe_ctxErr :: bool

definition run_probe :: "string \<Rightarrow> probe_env \<Rightarrow> HealthResult" where
  "run_probe scheme env =
     (if scheme = ProtoHTTP \<or> scheme = ProtoHTTPS then checkHTTP (pe_http env)
      else if scheme = ProtoUDP then checkUDP (pe_udp env)
      else checkTCP (pe_tcp env))"

text \<open>
  One check on the state \<open>(s, hc)\<close>; \<open>onRedetect\<close> is the callback, which may change both.
  \<open>pe_now\<close> is the clock at the cooldown test, \<open>pe_later\<close> after the callback.
\<close>

definition check :: "('s \<times> healthChecker \<Rightarrow> 's \<times> healthChecker) \<Rightarrow> probe_env \<Rightarrow> 's \<times> healthChecker \<Rightarrow> 's \<times> healthChecker" where
  "check onRedetect env st =
     (let (s, hc) = st; result = run_probe (hc_scheme hc) env; hc = hc\<lparr>hc_result := result\<rparr>
      in if hr_Status result = HealthHealthy then
           (s, hc\<lparr>hc_consecutiveFailures := 0, hc_retryAttempt := 0, hc_cooldownUntil := None\<rparr>)
         else if (case hc_cooldownUntil hc of None \<Rightarrow> False | Some t \<Rightarrow> pe_now env < t) then (s, hc)
         else let hc = hc\<lparr>hc_consecutiveFailures := hc_consecutiveFailures hc + 1\<rparr>
              in if \<not> pe_ctxErr env \<and> hc_consecutiveFailures hc \<ge> hc_failThreshold hc then
                   (let bo = (if hc_cooldown hc = 0 then nextBackoff (hc_interval hc) (hc_retryAttempt hc)
                              else hc_cooldown hc);
                        hc = hc\<lparr>hc_retryAttempt := hc_retryAttempt hc + 1\<rparr>;
                        (s, hc) = onRedetect (s, hc)
                    in (s, hc\<lparr>hc_consecutiveFailures := 0, hc_cooldownUntil := Some (pe_later env + bo)\<rparr>))
                 else (s, hc))"

section \<open>Which port is checked\<close>

definition check_target :: "string \<Rightarrow> url \<Rightarrow> string" where
  "check_target scheme target =
     (if scheme = ProtoHTTP \<or> scheme = ProtoHTTPS then url_String target else u_host target)"

fun pick_port :: "PortConfigList \<Rightarrow> string list \<Rightarrow> (string \<times> PortConfig \<times> url) option" where
  "pick_port ports [] = None"
| "pick_port ports (k # ks) =
     (case gm_get ports k of
        None \<Rightarrow> pick_port ports ks
      | Some pc \<Rightarrow>
          if pc_IsRedirect pc then pick_port ports ks
          else case GetFirstTarget pc of
                 None \<Rightarrow> pick_port ports ks
               | Some target \<Rightarrow> if u_host target = [] then pick_port ports ks else Some (k, pc, target))"

definition startHealthChecker :: "Config \<Rightarrow> (string \<times> healthChecker) option" where
  "startHealthChecker cfg =
     (if \<not> cfg_HealthCheckEnabled cfg then None
      else case pick_port (cfg_Ports cfg) (sort (keys (cfg_Ports cfg))) of
             None \<Rightarrow> None
           | Some (k, pc, target) \<Rightarrow>
               (let interval = clampDuration (cfg_HealthCheckInterval cfg) second healthCheckMaxInterval;
                    cooldown = clampDuration (cfg_HealthCheckCooldown cfg) 0 healthCheckMaxCooldown
                in Some (k, newHealthChecker (check_target (pc_ProxyProtocol pc) target) (pc_ProxyProtocol pc)
                              interval (cfg_HealthCheckFailures cfg) cooldown (pc_TLSValidate pc))))"

section \<open>Re-resolution\<close>

text \<open>One port of the re-resolved configuration.\<close>

definition reresolve_port ::
  "string \<Rightarrow> string \<times> PortConfig \<Rightarrow> PortConfigList \<times> healthChecker option \<Rightarrow> PortConfigList \<times> healthChecker option" where
  "reresolve_port healthPortName np st =
     (let (portName, newPC) = np; (ports, health) = st
      in if pc_IsRedirect newPC then (ports, health)
         else case gm_get ports portName of
                None \<Rightarrow> (ports, health)
              | Some oldPC \<Rightarrow>
                  (case (GetFirstTarget oldPC, GetFirstTarget newPC) of
                     (Some oldTarget, Some newTarget) \<Rightarrow>
                       if url_String oldTarget = url_String newTarget then (ports, health)
                       else (gm_put portName (ReplaceTarget oldTarget newTarget oldPC) ports,
                             if portName = healthPortName
                             then map_option (SetTarget (check_target (pc_ProxyProtocol oldPC) newTarget)) health
                             else health)
                   | _ \<Rightarrow> (ports, health)))"

text \<open>
  \<open>newCfg\<close> is the answer of the target provider: \<open>None\<close> when there is no resolver,
  \<open>Inl\<close> its error.
\<close>

definition reResolveHealthTarget ::
  "bool \<Rightarrow> (string + Config) option \<Rightarrow> bool \<Rightarrow> string \<Rightarrow> PortConfigList \<times> healthChecker option \<Rightarrow>
   string option \<times> PortConfigList \<times> healthChecker option" where
  "reResolveHealthTarget autoRestart newCfg ctxErr healthPortName st =
     (if \<not> autoRestart then (None, st)
      else case newCfg of
             None \<Rightarrow> (None, st)
           | Some (Inl e) \<Rightarrow> (Some e, st)
           | Some (Inr cfg) \<Rightarrow>
               if ctxErr then (None, st) else (None, fold (reresolve_port healthPortName) (cfg_Ports cfg) st))"

section \<open>Arithmetic\<close>

lemma shl1_pow: "0 \<le> n \<Longrightarrow> n \<le> 62 \<Longrightarrow> shl1 n = 2 ^ nat n"
proof -
  assume n: "0 \<le> n" "n \<le> 62"
  have "(2 :: int) ^ nat n \<le> 2 ^ 62" using n by (intro power_increasing) auto
  then have "wrap64 (2 ^ nat n) = 2 ^ nat n"
    by (intro wrap64_id) (simp add: in_int64_def int64_min_def int64_max_def order.trans [of _ 0])
  with n show ?thesis by (simp add: shl1_def)
qed

text \<open>
  For every positive interval and every non-negative attempt, the 64-bit computation of
  \<^verbatim>\<open>nextBackoff\<close> gives exactly the smaller of 24 hours and interval times two to the attempt:
  no intermediate overflow is visible, however large the attempt.
\<close>

theorem nextBackoff_exact:
  assumes "0 < interval" "in_int64 interval" "0 \<le> attempt"
  shows "nextBackoff interval attempt = min maxBackoff (interval * 2 ^ nat attempt)"
proof (cases "attempt > 62")
  case True
  have "(2 :: int) ^ 63 \<le> 2 ^ nat attempt" using True by (intro power_increasing) auto
  moreover have "maxBackoff \<le> 2 ^ 63" by (simp add: duration_defs)
  moreover have "2 ^ nat attempt \<le> interval * 2 ^ nat attempt" using assms(1) by simp
  ultimately have "maxBackoff \<le> interval * 2 ^ nat attempt" by (meson order.trans)
  with True show ?thesis by (simp add: nextBackoff_def maxBackoffShift_def)
next
  case False
  define m where "m = (2 :: int) ^ nat attempt"
  have m: "0 < m" "shl1 attempt = m" using False assms by (simp_all add: m_def shl1_pow)
  have mb: "0 < maxBackoff" "maxBackoff < 2 ^ 63" by (simp_all add: duration_defs)
  have sd: "maxBackoff sdiv m = maxBackoff div m" using m mb by (simp add: signed_divide_int_def)
  have iff: "interval > maxBackoff div m \<longleftrightarrow> interval * m > maxBackoff"
    using le_div_iff_int [OF m(1), of interval maxBackoff] by auto
  show ?thesis
  proof (cases "interval * m > maxBackoff")
    case True
    with False m sd iff show ?thesis by (simp add: nextBackoff_def maxBackoffShift_def m_def)
  next
    case le: False
    have "0 < interval * m" using assms(1) m(1) by simp
    with le mb have "wrap64 (interval * m) = interval * m"
      by (intro wrap64_id) (simp add: in_int64_def int64_min_def int64_max_def)
    with False le m sd iff show ?thesis by (simp add: nextBackoff_def maxBackoffShift_def m_def)
  qed
qed

theorem nextBackoff_exact_witness: "nextBackoff second 100 = maxBackoff \<and> nextBackoff second 3 = 8 * second"
proof -
  have "in_int64 second" by (simp add: in_int64_def int64_min_def int64_max_def duration_defs)
  with nextBackoff_exact [of second 100] nextBackoff_exact [of second 3] show ?thesis
    by (simp add: duration_defs)
qed

text \<open>
  \<^verbatim>\<open>clampDuration\<close> always lands in the given interval, even when the multiplication by a
  second wraps around, so no ticker is created with a negative or zero period; without
  overflow it is the exact clamp.
\<close>

theorem clampDuration_bounds:
  assumes "lo \<le> hi"
  shows "lo \<le> clampDuration seconds lo hi \<and> clampDuration seconds lo hi \<le> hi \<and>
    (in_int64 (seconds * second) \<longrightarrow> clampDuration seconds lo hi = max lo (min hi (seconds * second)))"
  using assms by (auto simp: clampDuration_def Let_def wrap64_id)

theorem clampDuration_bounds_witness:
  "second \<le> clampDuration (2 ^ 62) second healthCheckMaxInterval \<and>
   clampDuration 30 second healthCheckMaxInterval = 30 * second"
proof -
  have "in_int64 (30 * second)" "second \<le> healthCheckMaxInterval"
    by (simp_all add: in_int64_def int64_min_def int64_max_def duration_defs)
  with clampDuration_bounds [of second healthCheckMaxInterval "2 ^ 62"]
    clampDuration_bounds [of second healthCheckMaxInterval 30]
  show ?thesis by (simp add: duration_defs)
qed

section \<open>Failure counting and cooldown\<close>

definition unhealthy :: "healthChecker \<Rightarrow> probe_env \<Rightarrow> bool" where
  "unhealthy hc env \<longleftrightarrow> hr_Status (run_probe (hc_scheme hc) env) \<noteq> HealthHealthy"

definition cooling :: "healthChecker \<Rightarrow> probe_env \<Rightarrow> bool" where
  "cooling hc env \<longleftrightarrow> (case hc_cooldownUntil hc of None \<Rightarrow> False | Some t \<Rightarrow> pe_now env < t)"

definition backoff_of :: "healthChecker \<Rightarrow> int" where
  "backoff_of hc = (if hc_cooldown hc = 0 then nextBackoff (hc_interval hc) (hc_retryAttempt hc) else hc_cooldown hc)"

lemma check_cooling:
  "unhealthy hc env \<Longrightarrow> cooling hc env \<Longrightarrow>
   check f env (s, hc) = (s, hc\<lparr>hc_result := run_probe (hc_scheme hc) env\<rparr>)"
  by (simp add: check_def unhealthy_def cooling_def Let_def)

lemma check_counts:
  "unhealthy hc env \<Longrightarrow> \<not> cooling hc env \<Longrightarrow> hc_consecutiveFailures hc + 1 < hc_failThreshold hc \<Longrightarrow>
   check f env (s, hc) = (s, hc\<lparr>hc_result := run_probe (hc_scheme hc) env,
     hc_consecutiveFailures := hc_consecutiveFailures hc + 1\<rparr>)"
  by (auto simp: check_def unhealthy_def cooling_def Let_def)

lemma check_fires:
  assumes "unhealthy hc env" "\<not> cooling hc env" "\<not> pe_ctxErr env"
    and "hc_failThreshold hc \<le> hc_consecutiveFailures hc + 1"
  shows "check f env (s, hc) =
    (let (s', hc') = f (s, hc\<lparr>hc_result := run_probe (hc_scheme hc) env,
           hc_consecutiveFailures := hc_consecutiveFailures hc + 1, hc_retryAttempt := hc_retryAttempt hc + 1\<rparr>)
     in (s', hc'\<lparr>hc_consecutiveFailures := 0, hc_cooldownUntil := Some (pe_later env + backoff_of hc)\<rparr>))"
proof -
  have "hc\<lparr>hc_result := r, hc_consecutiveFailures := n, hc_retryAttempt := k\<rparr> =
      hc\<lparr>hc_result := r, hc_retryAttempt := k, hc_consecutiveFailures := n\<rparr>" for r n k
    by (cases hc) simp
  with assms show ?thesis
    by (auto simp: check_def unhealthy_def cooling_def backoff_of_def Let_def)
qed

text \<open>
  While the cooldown after a re-resolution runs, failing checks only record their result:
  no number of them counts a failure or triggers another re-resolution.
\<close>

theorem checks_in_cooldown:
  assumes "hc_cooldownUntil hc = Some t"
    and "\<forall>env \<in> set envs. pe_now env < t \<and> unhealthy hc env"
  shows "\<exists>r. fold (check f) envs (s, hc) = (s, hc\<lparr>hc_result := r\<rparr>)"
  using assms(2)
proof (induction envs rule: rev_induct)
  case Nil
  have "hc = hc\<lparr>hc_result := hc_result hc\<rparr>" by simp
  then show ?case by (metis fold_simps(1))
next
  case (snoc env envs)
  then obtain r where r: "fold (check f) envs (s, hc) = (s, hc\<lparr>hc_result := r\<rparr>)" by auto
  have "unhealthy (hc\<lparr>hc_result := r\<rparr>) env" "cooling (hc\<lparr>hc_result := r\<rparr>) env"
    using snoc.prems assms(1) by (simp_all add: unhealthy_def cooling_def)
  from check_cooling [OF this] r show ?case
    by (intro exI [of _ "run_probe (hc_scheme hc) env"]) simp
qed

lemma failures_before_threshold:
  assumes "hc_consecutiveFailures hc = 0" "int (length envs) < hc_failThreshold hc"
    and "\<forall>env \<in> set envs. unhealthy hc env \<and> \<not> cooling hc env"
  shows "\<exists>r. fold (check f) envs (s, hc) = (s, hc\<lparr>hc_result := r, hc_consecutiveFailures := int (length envs)\<rparr>)"
  using assms(2,3)
proof (induction envs rule: rev_induct)
  case Nil
  show ?case using assms(1) by (intro exI [of _ "hc_result hc"]) (cases hc, simp)
next
  case (snoc env envs)
  then obtain r where r: "fold (check f) envs (s, hc) =
      (s, hc\<lparr>hc_result := r, hc_consecutiveFailures := int (length envs)\<rparr>)" by auto
  let ?hc = "hc\<lparr>hc_result := r, hc_consecutiveFailures := int (length envs)\<rparr>"
  have "unhealthy ?hc env" "\<not> cooling ?hc env" "hc_consecutiveFailures ?hc + 1 < hc_failThreshold ?hc"
    using snoc.prems by (simp_all add: unhealthy_def cooling_def)
  from check_counts [OF this, of f s] r show ?case
    by (intro exI [of _ "run_probe (hc_scheme hc) env"]) (cases hc, simp)
qed

text \<open>
  Re-resolution fires exactly at the threshold: starting from no failures and outside a
  cooldown, fewer failing checks than the threshold change nothing but the counter, and
  the check that reaches it calls the re-resolution once, resets the counter and starts
  a cooldown of the configured length (or of the exponential backoff when none is set).
\<close>

theorem check_threshold:
  assumes "hc_consecutiveFailures hc = 0" "int (length envs) + 1 = hc_failThreshold hc"
    and "\<forall>e \<in> set (envs @ [env]). unhealthy hc e \<and> \<not> cooling hc e" and "\<not> pe_ctxErr env"
  shows "fst (fold (check f) envs (s, hc)) = s \<and>
    (\<exists>r. let (s', hc') = f (s, hc\<lparr>hc_result := r, hc_consecutiveFailures := hc_failThreshold hc,
                                  hc_retryAttempt := hc_retryAttempt hc + 1\<rparr>)
         in fold (check f) (envs @ [env]) (s, hc) =
            (s', hc'\<lparr>hc_consecutiveFailures := 0, hc_cooldownUntil := Some (pe_later env + backoff_of hc)\<rparr>))"
proof -
  obtain r where r: "fold (check f) envs (s, hc) = (s, hc\<lparr>hc_result := r, hc_consecutiveFailures := int (length envs)\<rparr>)"
    using failures_before_threshold [of hc envs f s] assms by auto
  let ?hc = "hc\<lparr>hc_result := r, hc_consecutiveFailures := int (length envs)\<rparr>"
  have "unhealthy ?hc env" "\<not> cooling ?hc env" "hc_failThreshold ?hc \<le> hc_consecutiveFailures ?hc + 1"
    using assms by (simp_all add: unhealthy_def cooling_def)
  note fire = check_fires [OF this(1,2) assms(4) this(3), of f s]
  have "hc\<lparr>hc_result := r, hc_consecutiveFailures := n, hc_result := r'\<rparr> = hc\<lparr>hc_result := r', hc_consecutiveFailures := n\<rparr>" for r' n
    by (cases hc) simp
  then show ?thesis
    using r fire assms(2) by (auto simp: backoff_of_def intro!: exI [of _ "run_probe (hc_scheme hc) env"] split: prod.splits)
qed


section \<open>The checked port\<close>

definition eligible :: "PortConfigList \<Rightarrow> string \<Rightarrow> bool" where
  "eligible ports k \<longleftrightarrow> (case gm_get ports k of
     None \<Rightarrow> False
   | Some pc \<Rightarrow> \<not> pc_IsRedirect pc \<and>
       (case GetFirstTarget pc of None \<Rightarrow> False | Some t \<Rightarrow> u_host t \<noteq> []))"

lemma pick_port_sound:
  assumes "pick_port ports ks = Some (k, pc, t)" "sorted ks"
  shows "k \<in> set ks \<and> eligible ports k \<and> (\<forall>k' \<in> set ks. eligible ports k' \<longrightarrow> k \<le> k')"
  using assms by (induction ks) (auto simp: eligible_def split: option.splits if_splits)

lemma pick_port_cong: "gm_get p = gm_get q \<Longrightarrow> pick_port p ks = pick_port q ks"
  by (induction ks) (simp_all split: option.split)

lemma pick_port_None: "pick_port ports ks = None \<longleftrightarrow> (\<forall>k \<in> set ks. \<not> eligible ports k)"
  by (induction ks) (auto simp: eligible_def split: option.splits if_splits)

text \<open>
  The port a proxy's health is measured on does not depend on the iteration order of the
  port map: it is the eligible port (no redirect, first target with a host) of the
  smallest name, and with health checks enabled there is a checker iff some port is
  eligible.
\<close>

theorem startHealthChecker_port:
  assumes "gm_wf (cfg_Ports cfg)" "cfg_HealthCheckEnabled cfg"
  shows "(startHealthChecker cfg = None \<longleftrightarrow> (\<forall>k. \<not> eligible (cfg_Ports cfg) k)) \<and>
    (\<forall>k hc. startHealthChecker cfg = Some (k, hc) \<longrightarrow>
       eligible (cfg_Ports cfg) k \<and> (\<forall>k'. eligible (cfg_Ports cfg) k' \<longrightarrow> k \<le> k')) \<and>
    (\<forall>ps. gm_wf ps \<longrightarrow> gm_get ps = gm_get (cfg_Ports cfg) \<longrightarrow>
       startHealthChecker (cfg\<lparr>cfg_Ports := ps\<rparr>) = startHealthChecker cfg)"
proof (intro conjI allI impI)
  have el: "k \<in> set (keys ports)" if "eligible ports k" for ports k
    using that gm_get_None_iff [of ports k] by (auto simp: eligible_def split: option.splits)
  show "startHealthChecker cfg = None \<longleftrightarrow> (\<forall>k. \<not> eligible (cfg_Ports cfg) k)"
    using assms(2) pick_port_None [of "cfg_Ports cfg" "sort (keys (cfg_Ports cfg))"] el
    by (auto simp: startHealthChecker_def Let_def split: option.splits)
  fix k hc assume "startHealthChecker cfg = Some (k, hc)"
  then obtain pc t where "pick_port (cfg_Ports cfg) (sort (keys (cfg_Ports cfg))) = Some (k, pc, t)"
    by (auto simp: startHealthChecker_def Let_def split: if_splits option.splits)
  from pick_port_sound [OF this]
  have "eligible (cfg_Ports cfg) k" "\<forall>k' \<in> set (keys (cfg_Ports cfg)). eligible (cfg_Ports cfg) k' \<longrightarrow> k \<le> k'"
    by simp_all
  then show "eligible (cfg_Ports cfg) k" and "\<And>k'. eligible (cfg_Ports cfg) k' \<Longrightarrow> k \<le> k'" using el by blast+
next
  fix ps assume wf: "gm_wf ps" and eq: "gm_get ps = gm_get (cfg_Ports cfg)"
  have "set (keys ps) = set (keys (cfg_Ports cfg))" using eq by (metis dom_map_of_conv_image_fst list.set_map)
  then have "sort (keys ps) = sort (keys (cfg_Ports cfg))"
    using wf assms(1) by (intro sorted_distinct_set_unique) (auto simp: gm_wf_def)
  with pick_port_cong [OF eq] show "startHealthChecker (cfg\<lparr>cfg_Ports := ps\<rparr>) = startHealthChecker cfg"
    by (simp add: startHealthChecker_def split: option.split)
qed

section \<open>Hot swap\<close>

lemma reresolve_port_other:
  "k \<noteq> k' \<Longrightarrow> gm_get (fst (reresolve_port h (k, npc) st)) k' = gm_get (fst st) k'"
  by (auto simp: reresolve_port_def Let_def split: option.splits prod.splits)

lemma reresolve_port_health_other:
  "k \<noteq> h \<Longrightarrow> snd (reresolve_port h (k, npc) st) = snd st"
  by (auto simp: reresolve_port_def Let_def split: option.splits prod.splits)

lemma reresolve_fold_other:
  "k \<notin> set (keys nps) \<Longrightarrow> gm_get (fst (fold (reresolve_port h) nps st)) k = gm_get (fst st) k"
  by (induction nps arbitrary: st) (auto simp: reresolve_port_other)

lemma reresolve_fold_health_other:
  "h \<notin> set (keys nps) \<Longrightarrow> snd (fold (reresolve_port h) nps st) = snd st"
  by (induction nps arbitrary: st) (auto simp: reresolve_port_health_other)

definition swapped :: "PortConfig \<Rightarrow> url \<Rightarrow> PortConfig \<Rightarrow> bool" where
  "swapped old n new \<longleftrightarrow> new = old\<lparr>pc_targets := pc_targets new\<rparr> \<and>
     (\<exists>t ts. pc_targets new = Some (t # ts) \<and> url_String t = url_String n)"

lemma reresolve_port_swap:
  assumes "gm_get (fst st) k = Some old" "pc_targets old = Some (t # ts)" "GetFirstTarget old = Some tgt"
    and "url_String tgt = url_String t" "\<not> pc_IsRedirect npc" "GetFirstTarget npc = Some n"
  shows "\<exists>new. gm_get (fst (reresolve_port h (k, npc) st)) k = Some new \<and> swapped old n new"
  using assms
  by (cases st) (auto simp: reresolve_port_def Let_def swapped_def ReplaceTarget_def ts_replace_def)

text \<open>
  A successful re-resolution hot-swaps the target of every port it names: the port keeps
  all its other settings, its first target becomes the new one, and when the port is the
  one being health-checked the checker probes the new target from then on.
\<close>

theorem reResolve_swaps:
  assumes cfg: "gm_wf (cfg_Ports cfg)" "(k, npc) \<in> set (cfg_Ports cfg)" "\<not> pc_IsRedirect npc" "GetFirstTarget npc = Some n"
    and old: "gm_get ports k = Some old" "pc_targets old = Some (t # ts)" "GetFirstTarget old = Some tgt"
      "url_String tgt = url_String t" "url_String tgt \<noteq> url_String n"
    and res: "reResolveHealthTarget True (Some (Inr cfg)) False hp (ports, Some hc) = (e, ports', health')"
  shows "e = None \<and> (\<exists>new. gm_get ports' k = Some new \<and> swapped old n new) \<and>
    (hp = k \<longrightarrow> health' = Some (hc\<lparr>hc_target := check_target (pc_ProxyProtocol old) n\<rparr>))"
proof -
  obtain xs ys where sp: "cfg_Ports cfg = xs @ (k, npc) # ys" using cfg(2) by (meson split_list)
  then have ni: "k \<notin> set (keys xs)" "k \<notin> set (keys ys)" using cfg(1) by (auto simp: gm_wf_def)
  let ?st = "fold (reresolve_port hp) xs (ports, Some hc)"
  have r: "e = None" "(ports', health') = fold (reresolve_port hp) ys (reresolve_port hp (k, npc) ?st)"
    using res sp by (auto simp: reResolveHealthTarget_def)
  have g: "gm_get (fst ?st) k = Some old" using old(1) ni(1) by (simp add: reresolve_fold_other)
  obtain new where new: "gm_get (fst (reresolve_port hp (k, npc) ?st)) k = Some new" "swapped old n new"
    using reresolve_port_swap [OF g old(2,3,4) cfg(3,4)] by blast
  then have p: "gm_get ports' k = Some new" using r(2) ni(2) reresolve_fold_other by (metis fst_conv)
  have "health' = Some (hc\<lparr>hc_target := check_target (pc_ProxyProtocol old) n\<rparr>)" if "hp = k"
  proof -
    have "snd ?st = Some hc" using ni(1) that by (simp add: reresolve_fold_health_other)
    then have "snd (reresolve_port hp (k, npc) ?st) = Some (hc\<lparr>hc_target := check_target (pc_ProxyProtocol old) n\<rparr>)"
      using g old cfg that by (cases ?st) (simp add: reresolve_port_def SetTarget_def)
    then show ?thesis using r(2) ni(2) that reresolve_fold_health_other by (metis snd_conv)
  qed
  with r p new show ?thesis by blast
qed

text \<open>
  The UDP probe takes every read error that implements \<^verbatim>\<open>net.Error\<close> for a sign of health,
  because it never asks whether the error is a timeout.
\<close>

lemma checkUDP_ignores_timeout:
  "checkUDP (Read None (Some e)) = (if er_net e then healthy else down (er_msg e))"
  by simp

section \<open>Witnesses\<close>

definition example_hc :: healthChecker where
  "example_hc = (newHealthChecker ''10.0.0.1:80'' ''tcp'' second 2 0 True)"

definition failing :: "int \<Rightarrow> probe_env" where
  "failing now = \<lparr>pe_http = Response, pe_tcp = DialError ''refused'', pe_udp = Read None None, pe_now = now,
     pe_later = now, pe_ctxErr = False\<rparr>"

lemma example_unhealthy:
  "unhealthy (example_hc\<lparr>hc_cooldownUntil := c\<rparr>) (failing n)" "unhealthy example_hc (failing n)" "\<not> cooling example_hc (failing n)"
  by (simp_all add: unhealthy_def cooling_def example_hc_def newHealthChecker_def failing_def run_probe_def)

theorem checks_in_cooldown_witness:
  "\<exists>r. fold (check id) [failing 1, failing 2] (0 :: nat, example_hc\<lparr>hc_cooldownUntil := Some 5\<rparr>) =
     (0, example_hc\<lparr>hc_cooldownUntil := Some 5, hc_result := r\<rparr>)"
proof -
  have "\<forall>env \<in> set [failing 1, failing 2]. pe_now env < 5 \<and> unhealthy (example_hc\<lparr>hc_cooldownUntil := Some 5\<rparr>) env"
    by (simp add: example_unhealthy) (simp add: failing_def)
  from checks_in_cooldown [OF _ this, of id 0] show ?thesis by simp
qed

theorem check_threshold_witness:
  "fst (fold (check (\<lambda>(s, h). (Suc s, h))) [failing 1] (0, example_hc)) = 0 \<and>
   fst (fold (check (\<lambda>(s, h). (Suc s, h))) [failing 1, failing 2] (0, example_hc)) = 1"
proof -
  have h: "hc_consecutiveFailures example_hc = 0" "int (length [failing 1]) + 1 = hc_failThreshold example_hc"
    by (simp_all add: example_hc_def newHealthChecker_def)
  have u: "\<forall>e \<in> set ([failing 1] @ [failing 2]). unhealthy example_hc e \<and> \<not> cooling example_hc e"
    by (simp add: example_unhealthy)
  have "\<not> pe_ctxErr (failing 2)" by (simp add: failing_def)
  from check_threshold [OF h u this, of "\<lambda>(s, h). (Suc s, h)" 0] show ?thesis by auto
qed

definition example_port :: "string \<Rightarrow> PortConfig" where
  "example_port target = (defaultPortConfig ''443'')\<lparr>pc_targets := Some [the (url_parse target)]\<rparr>"

definition example_cfg :: "string \<Rightarrow> Config" where
  "example_cfg target =
     \<lparr>cfg_Ports = [(''b'', example_port target), (''a'', example_port target)], cfg_TargetProvider = [],
      cfg_TargetID = [], cfg_TargetImage = [], cfg_ProxyProvider = [], cfg_Hostname = ''h'', cfg_Domain = [],
      cfg_DNSProvider = [], cfg_TLSProvider = [],
      cfg_Tailscale = \<lparr>ts_Tags = [], ts_AuthKey = [], ts_ResolvedAuthKey = [], ts_Ephemeral = False,
        ts_RunWebClient = False, ts_Verbose = False\<rparr>,
      cfg_Dashboard = \<lparr>db_Label = [], db_Icon = [], db_Category = [], db_Visible = True\<rparr>,
      cfg_HealthCheckInterval = 30, cfg_HealthCheckFailures = 3, cfg_HealthCheckCooldown = 0,
      cfg_RateLimitRPS = 100, cfg_RateLimitBurst = 200, cfg_ProxyAccessLog = True, cfg_IdentityHeaders = True,
      cfg_AutoRestart = True, cfg_HealthCheckEnabled = True, cfg_RateLimitEnabled = True\<rparr>"

theorem startHealthChecker_port_witness:
  "\<exists>k hc. startHealthChecker (example_cfg ''http://a:1'') = Some (k, hc) \<and> eligible (cfg_Ports (example_cfg ''http://a:1'')) k"
proof -
  let ?c = "example_cfg ''http://a:1''"
  have c: "gm_wf (cfg_Ports ?c)" "cfg_HealthCheckEnabled ?c" "eligible (cfg_Ports ?c) ''a''" by code_simp+
  note p = startHealthChecker_port [OF c(1,2)]
  with c(3) obtain k hc where "startHealthChecker ?c = Some (k, hc)" by (cases "startHealthChecker ?c") auto
  with p show ?thesis by blast
qed

theorem reResolve_swaps_witness:
  "\<exists>ports' health' new. reResolveHealthTarget True (Some (Inr (example_cfg ''http://b:1''))) False ''a''
     ([(''a'', example_port ''http://a:1'')], Some example_hc) = (None, ports', health') \<and>
     gm_get ports' ''a'' = Some new \<and> swapped (example_port ''http://a:1'') (the (url_parse ''http://b:1'')) new"
proof -
  let ?u = "the (url_parse ''http://a:1'')" and ?v = "the (url_parse ''http://b:1'')"
  obtain e ports' health' where r: "reResolveHealthTarget True (Some (Inr (example_cfg ''http://b:1''))) False ''a''
     ([(''a'', example_port ''http://a:1'')], Some example_hc) = (e, ports', health')"
    by (metis prod_cases3)
  have 1: "gm_wf (cfg_Ports (example_cfg ''http://b:1''))" "(''a'', example_port ''http://b:1'') \<in> set (cfg_Ports (example_cfg ''http://b:1''))"
    "\<not> pc_IsRedirect (example_port ''http://b:1'')" "GetFirstTarget (example_port ''http://b:1'') = Some ?v"
    by code_simp+
  have 2: "gm_get [(''a'', example_port ''http://a:1'')] ''a'' = Some (example_port ''http://a:1'')"
    "pc_targets (example_port ''http://a:1'') = Some [?u]" "GetFirstTarget (example_port ''http://a:1'') = Some ?u"
    "url_String ?u = url_String ?u" "url_String ?u \<noteq> url_String ?v"
    by code_simp+
  from reResolve_swaps [OF 1 2 r] r show ?thesis by blast
qed

end
