(* ===== verification/Log_Buffer.thy ===== *)
theory Log_Buffer
  imports Go_Prelude
begin

text \<open>
  \<^verbatim>\<open>src/internal/proxymanager/logbuffer.go\<close>: the log lines of a proxy, kept in a ring and
  fanned out to the subscribers of the dashboard over bounded channels. The mutex makes
  every operation atomic; the receiver of a channel runs between them (\<open>lb_recv\<close>).
  A channel is an identity with its queued lines, its capacity and a closed flag.
  Writing to an index out of range panics (\<open>None\<close>).
\<close>

section \<open>State\<close>

record chan =
  ch_queue :: "string list"
  ch_cap :: nat
  ch_closed :: bool

record LogRingBuffer =
  lb_lines :: "string list"
  lb_pos :: nat
  lb_size :: nat
  lb_full :: bool
  lb_subscribers :: "(nat, int) gomap"
  lb_chans :: "chan list"

definition DefaultLogBufferSize :: nat where "DefaultLogBufferSize = 100"

definition NewLogRingBuffer :: "nat \<Rightarrow> LogRingBuffer" where
  "NewLogRingBuffer n =
     \<lparr>lb_lines = replicate n [], lb_pos = 0, lb_size = n, lb_full = False, lb_subscribers = [], lb_chans = []\<rparr>"

section \<open>The ring\<close>

definition trim_newlines :: "string \<Rightarrow> string" where
  "trim_newlines s = rev (dropWhile (\<lambda>c. of_char c = (10 :: nat)) (rev s))"

definition appendLocked :: "string \<Rightarrow> LogRingBuffer \<Rightarrow> LogRingBuffer option" where
  "appendLocked line b =
     (if lb_pos b < length (lb_lines b) then
        (let pos = (lb_pos b + 1) mod lb_size b;
             b' = b\<lparr>lb_lines := (lb_lines b)[lb_pos b := line], lb_pos := pos\<rparr>
         in Some (if pos = 0 then b'\<lparr>lb_full := True\<rparr> else b'))
      else None)"

definition snapshotLocked :: "LogRingBuffer \<Rightarrow> string list" where
  "snapshotLocked b =
     (if \<not> lb_full b then take (lb_pos b) (lb_lines b)
      else drop (lb_pos b) (lb_lines b) @ take (lb_pos b) (lb_lines b))"

section \<open>Fan-out\<close>

definition try_send :: "string \<Rightarrow> chan \<Rightarrow> chan option" where
  "try_send x c = (if length (ch_queue c) < ch_cap c then Some (c\<lparr>ch_queue := ch_queue c @ [x]\<rparr>) else None)"

definition dropped_marker :: "int \<Rightarrow> string" where
  "dropped_marker d = ''--- '' @ itoa d @ '' lines dropped (slow consumer) ---''"

text \<open>The part of \<^verbatim>\<open>fanOutLocked\<close> that reports earlier drops.\<close>

definition send_marker :: "nat \<Rightarrow> int \<Rightarrow> chan \<Rightarrow> int \<times> chan" where
  "send_marker n pending c =
     (if pending > 0 then
        (let d = (if pending > int n then int n else pending)
         in case try_send (dropped_marker d) c of Some c' \<Rightarrow> (0, c') | None \<Rightarrow> (d, c))
      else (pending, c))"

text \<open>
  The part that sends the line: on a full channel everything queued is drained (no
  receiver runs meanwhile: whatever a concurrent receiver takes first, the drain does not
  find) and the line is tried again.
\<close>

definition send_line :: "nat \<Rightarrow> string \<Rightarrow> int \<times> chan \<Rightarrow> int \<times> chan" where
  "send_line n line pc =
     (let (pending, c) = pc
      in case try_send line c of
           Some c' \<Rightarrow> (pending, c')
         | None \<Rightarrow>
             (let dropped = 1 + int (length (ch_queue c)); c = c\<lparr>ch_queue := []\<rparr>;
                  (dropped, c) = (case try_send line c of Some c' \<Rightarrow> (dropped, c') | None \<Rightarrow> (dropped + 1, c));
                  pending = pending + dropped
              in (if pending > int n * 2 then int n else pending, c)))"

definition fanOut_one :: "string \<Rightarrow> nat \<times> int \<Rightarrow> LogRingBuffer \<Rightarrow> LogRingBuffer" where
  "fanOut_one line sub b =
     (let (ch, pending) = sub;
          (pending, c) = send_line (lb_size b) line (send_marker (lb_size b) pending (lb_chans b ! ch))
      in b\<lparr>lb_subscribers := gm_put ch pending (lb_subscribers b), lb_chans := (lb_chans b)[ch := c]\<rparr>)"

definition fanOutLocked :: "string \<Rightarrow> LogRingBuffer \<Rightarrow> LogRingBuffer" where
  "fanOutLocked line b = fold (fanOut_one line) (lb_subscribers b) b"

definition lb_Write :: "string \<Rightarrow> LogRingBuffer \<Rightarrow> LogRingBuffer option" where
  "lb_Write p b =
     (let line = trim_newlines p
      in case appendLocked line b of None \<Rightarrow> None | Some b' \<Rightarrow> Some (fanOutLocked line b'))"

section \<open>Subscriptions\<close>

definition SubscribeWithSnapshot :: "LogRingBuffer \<Rightarrow> (string list \<times> nat) \<times> LogRingBuffer" where
  "SubscribeWithSnapshot b =
     (let ch = length (lb_chans b)
      in ((snapshotLocked b, ch),
          b\<lparr>lb_chans := lb_chans b @ [\<lparr>ch_queue = [], ch_cap = lb_size b, ch_closed = False\<rparr>],
            lb_subscribers := gm_put ch 0 (lb_subscribers b)\<rparr>))"

text \<open>Closing a closed channel panics (\<open>None\<close>).\<close>

definition close_chan :: "nat \<Rightarrow> LogRingBuffer \<Rightarrow> LogRingBuffer option" where
  "close_chan ch b =
     (if ch_closed (lb_chans b ! ch) then None
      else Some (b\<lparr>lb_chans := (lb_chans b)[ch := (lb_chans b ! ch)\<lparr>ch_closed := True\<rparr>]\<rparr>))"

definition Unsubscribe :: "nat \<Rightarrow> LogRingBuffer \<Rightarrow> LogRingBuffer option" where
  "Unsubscribe ch b =
     (if gm_get (lb_subscribers b) ch \<noteq> None
      then close_chan ch (b\<lparr>lb_subscribers := gm_del ch (lb_subscribers b)\<rparr>)
      else Some b)"

fun close_all :: "nat list \<Rightarrow> LogRingBuffer \<Rightarrow> LogRingBuffer option" where
  "close_all [] b = Some b"
| "close_all (ch # chs) b =
     (case close_chan ch b of
        None \<Rightarrow> None
      | Some b' \<Rightarrow> close_all chs (b'\<lparr>lb_subscribers := gm_del ch (lb_subscribers b')\<rparr>))"

definition lb_Close :: "LogRingBuffer \<Rightarrow> LogRingBuffer option" where
  "lb_Close b = close_all (keys (lb_subscribers b)) b"

text \<open>A receive by the subscriber.\<close>

definition lb_recv :: "nat \<Rightarrow> LogRingBuffer \<Rightarrow> LogRingBuffer" where
  "lb_recv ch b = b\<lparr>lb_chans := (lb_chans b)[ch := (lb_chans b ! ch)\<lparr>ch_queue := tl (ch_queue (lb_chans b ! ch))\<rparr>]\<rparr>"

section \<open>Invariant\<close>

definition ring_inv :: "LogRingBuffer \<Rightarrow> bool" where
  "ring_inv b \<longleftrightarrow> 0 < lb_size b \<and> length (lb_lines b) = lb_size b \<and> lb_pos b < lb_size b"

definition subs_inv :: "LogRingBuffer \<Rightarrow> bool" where
  "subs_inv b \<longleftrightarrow> gm_wf (lb_subscribers b) \<and>
     (\<forall>c \<in> set (lb_chans b). ch_cap c = lb_size b \<and> length (ch_queue c) \<le> lb_size b) \<and>
     (\<forall>(ch, d) \<in> set (lb_subscribers b). ch < length (lb_chans b) \<and> \<not> ch_closed (lb_chans b ! ch) \<and>
        0 \<le> d \<and> d \<le> 2 * int (lb_size b))"

definition lb_inv :: "LogRingBuffer \<Rightarrow> bool" where
  "lb_inv b \<longleftrightarrow> ring_inv b \<and> subs_inv b"

definition last_n :: "nat \<Rightarrow> 'a list \<Rightarrow> 'a list" where
  "last_n n xs = drop (length xs - n) xs"

inductive lb_step :: "LogRingBuffer \<Rightarrow> LogRingBuffer \<Rightarrow> bool" where
  Wr: "lb_Write p b = Some b' \<Longrightarrow> lb_step b b'"
| Sub: "SubscribeWithSnapshot b = (r, b') \<Longrightarrow> lb_step b b'"
| Unsub: "Unsubscribe ch b = Some b' \<Longrightarrow> lb_step b b'"
| Cls: "lb_Close b = Some b' \<Longrightarrow> lb_step b b'"
| Recv: "ch < length (lb_chans b) \<Longrightarrow> lb_step b (lb_recv ch b)"

abbreviation lb_reach :: "LogRingBuffer \<Rightarrow> bool" where
  "lb_reach \<equiv> reach (\<lambda>b. \<exists>n > 0. b = NewLogRingBuffer n) lb_step"

text \<open>A sequence of writes, a panic being \<open>None\<close>.\<close>

fun write_all :: "string list \<Rightarrow> LogRingBuffer \<Rightarrow> LogRingBuffer option" where
  "write_all [] b = Some b"
| "write_all (p # ps) b = (case lb_Write p b of None \<Rightarrow> None | Some b' \<Rightarrow> write_all ps b')"

section \<open>The ring refines the last lines written\<close>

lemma last_n_append1: "0 < n \<Longrightarrow> last_n n (last_n n xs @ [x]) = last_n n (xs @ [x])"
  by (cases "n \<le> length xs") (simp_all add: last_n_def Suc_diff_le)

lemma ring_snapshot_step:
  assumes inv: "ring_inv b"
  obtains b' where "appendLocked line b = Some b'" "ring_inv b'" "lb_size b' = lb_size b"
    "snapshotLocked b' = last_n (lb_size b) (snapshotLocked b @ [line])"
    "lb_subscribers b' = lb_subscribers b" "lb_chans b' = lb_chans b"
proof -
  let ?ls = "lb_lines b" and ?p = "lb_pos b" and ?n = "lb_size b"
  from inv have n: "0 < ?n" "length ?ls = ?n" "?p < ?n" by (simp_all add: ring_inv_def)
  have tk: "take (Suc ?p) (?ls[?p := line]) = take ?p ?ls @ [line]"
    using n by (simp add: take_Suc_conv_app_nth)
  have dr: "drop (Suc ?p) (?ls[?p := line]) = drop (Suc ?p) ?ls" by simp
  obtain b' where b': "appendLocked line b = Some b'" using n by (simp add: appendLocked_def Let_def)
  have len: "length (drop ?p ?ls @ take ?p ?ls) = ?n" using n by simp
  have tl: "tl (drop ?p ?ls) = drop (Suc ?p) ?ls" by (simp add: drop_Suc tl_drop)
  have ne: "drop ?p ?ls \<noteq> []" using n by simp
  have snap: "snapshotLocked b' = last_n ?n (snapshotLocked b @ [line])"
  proof (cases "Suc ?p = ?n")
    case True
    then have "b' = b\<lparr>lb_lines := ?ls[?p := line], lb_pos := 0, lb_full := True\<rparr>"
      using b' n by (auto simp: appendLocked_def Let_def)
    moreover have "?ls[?p := line] = take ?p ?ls @ [line]" using tk True n by simp
    moreover have "drop (Suc ?p) ?ls = []" using True n by simp
    ultimately show ?thesis
      using True n tl ne by (auto simp: snapshotLocked_def last_n_def drop_Suc)
  next
    case False
    then have "b' = b\<lparr>lb_lines := ?ls[?p := line], lb_pos := Suc ?p\<rparr>"
      using b' n by (auto simp: appendLocked_def Let_def)
    with False show ?thesis
      using n tk dr tl ne by (auto simp: snapshotLocked_def last_n_def drop_Suc)
  qed
  have "ring_inv b'" "lb_size b' = lb_size b" "lb_subscribers b' = lb_subscribers b" "lb_chans b' = lb_chans b"
    using b' n by (auto simp: appendLocked_def ring_inv_def Let_def split: if_splits)
  with b' snap show ?thesis using that by blast
qed

lemma subs_invD:
  assumes "subs_inv b"
  shows "gm_wf (lb_subscribers b)"
    and "c \<in> set (lb_chans b) \<Longrightarrow> ch_cap c = lb_size b \<and> length (ch_queue c) \<le> lb_size b"
    and "(ch, d) \<in> set (lb_subscribers b) \<Longrightarrow> ch < length (lb_chans b) \<and> \<not> ch_closed (lb_chans b ! ch) \<and>
        0 \<le> d \<and> d \<le> 2 * int (lb_size b)"
  using assms unfolding subs_inv_def by blast+

lemma subs_invI:
  assumes "gm_wf (lb_subscribers b)"
    and "\<And>c. c \<in> set (lb_chans b) \<Longrightarrow> ch_cap c = lb_size b \<and> length (ch_queue c) \<le> lb_size b"
    and "\<And>ch d. (ch, d) \<in> set (lb_subscribers b) \<Longrightarrow> ch < length (lb_chans b) \<and> \<not> ch_closed (lb_chans b ! ch) \<and>
        0 \<le> d \<and> d \<le> 2 * int (lb_size b)"
  shows "subs_inv b"
  using assms unfolding subs_inv_def by blast

lemma chan_update_inv:
  assumes inv: "lb_inv b" and ch: "ch < length (lb_chans b)"
    and c: "ch_cap c = lb_size b" "length (ch_queue c) \<le> lb_size b"
    and wf: "gm_wf subs" and old: "\<And>x d. (x, d) \<in> set subs \<Longrightarrow> 
      ((x, d) \<in> set (lb_subscribers b) \<or> x = ch \<and> 0 \<le> d \<and> d \<le> 2 * int (lb_size b)) \<and> (x = ch \<longrightarrow> \<not> ch_closed c)"
  shows "lb_inv (b\<lparr>lb_subscribers := subs, lb_chans := (lb_chans b)[ch := c]\<rparr>)"
proof -
  from inv have sb: "subs_inv b" and r: "ring_inv b" by (simp_all add: lb_inv_def)
  have "subs_inv (b\<lparr>lb_subscribers := subs, lb_chans := (lb_chans b)[ch := c]\<rparr>)"
  proof (rule subs_invI, goal_cases)
    case (2 e)
    then show ?case using c subs_invD(2) [OF sb, of e] by (auto dest!: set_list_updateD)
  next
    case (3 x d)
    then show ?case using old [of x d] subs_invD(3) [OF sb, of x d] ch by (auto simp: nth_list_update)
  qed (simp add: wf)
  with r show ?thesis by (simp add: lb_inv_def ring_inv_def)
qed

section \<open>Fan-out keeps every channel within its capacity\<close>

lemma try_send_simps:
  "try_send x c = Some c' \<longleftrightarrow> length (ch_queue c) < ch_cap c \<and> c' = c\<lparr>ch_queue := ch_queue c @ [x]\<rparr>"
  "try_send x c = None \<longleftrightarrow> ch_cap c \<le> length (ch_queue c)"
  by (auto simp: try_send_def)

lemma send_marker_ok:
  assumes "send_marker n d c = (d', c')" "0 \<le> d" "d \<le> 2 * int n" "length (ch_queue c) \<le> ch_cap c"
  shows "0 \<le> d' \<and> d' \<le> int n \<and> ch_cap c' = ch_cap c \<and> ch_closed c' = ch_closed c \<and> length (ch_queue c') \<le> ch_cap c"
  using assms by (auto simp: send_marker_def Let_def try_send_simps split: if_splits option.splits)

lemma send_line_ok:
  assumes "send_line n line (d, c) = (d', c')" "0 \<le> d" "d \<le> int n" "length (ch_queue c) \<le> ch_cap c" "0 < ch_cap c"
  shows "0 \<le> d' \<and> d' \<le> 2 * int n \<and> ch_cap c' = ch_cap c \<and> ch_closed c' = ch_closed c \<and>
    length (ch_queue c') \<le> ch_cap c \<and> ch_queue c' \<noteq> [] \<and> last (ch_queue c') = line"
proof (cases "try_send line c")
  case None
  have "try_send line (c\<lparr>ch_queue := []\<rparr>) = Some (c\<lparr>ch_queue := [line]\<rparr>)"
    using assms(5) by (simp add: try_send_def)
  with None assms show ?thesis by (auto simp: send_line_def Let_def)
next
  case (Some c2)
  with assms show ?thesis by (auto simp: send_line_def try_send_simps)
qed

definition fan_pre :: "(nat, int) gomap \<Rightarrow> LogRingBuffer \<Rightarrow> bool" where
  "fan_pre subs b \<longleftrightarrow> lb_inv b \<and> gm_wf subs \<and> set subs \<subseteq> set (lb_subscribers b)"

lemma fanOut_one_ok:
  assumes "fan_pre ((ch, d) # subs) b"
  shows "fan_pre subs (fanOut_one line (ch, d) b) \<and>
    snapshotLocked (fanOut_one line (ch, d) b) = snapshotLocked b \<and>
    lb_size (fanOut_one line (ch, d) b) = lb_size b \<and>
    keys (lb_subscribers (fanOut_one line (ch, d) b)) = keys (lb_subscribers b) \<and>
    length (lb_chans (fanOut_one line (ch, d) b)) = length (lb_chans b) \<and>
    ch_queue (lb_chans (fanOut_one line (ch, d) b) ! ch) \<noteq> [] \<and>
    last (ch_queue (lb_chans (fanOut_one line (ch, d) b) ! ch)) = line \<and>
    (\<forall>x. x \<noteq> ch \<longrightarrow> lb_chans (fanOut_one line (ch, d) b) ! x = lb_chans b ! x)"
proof -
  let ?n = "lb_size b" and ?c = "lb_chans b ! ch"
  from assms have inv: "lb_inv b" and wf: "gm_wf ((ch, d) # subs)"
    and sub: "(ch, d) \<in> set (lb_subscribers b)" "set subs \<subseteq> set (lb_subscribers b)"
    by (auto simp: fan_pre_def)
  from inv sub have ch: "ch < length (lb_chans b)" "\<not> ch_closed ?c" "0 \<le> d" "d \<le> 2 * int ?n" "0 < ?n"
    by (auto simp: lb_inv_def subs_inv_def ring_inv_def)
  with inv have cap: "ch_cap ?c = ?n" "length (ch_queue ?c) \<le> ?n"
    by (auto simp: lb_inv_def subs_inv_def)
  obtain d1 c1 where m: "send_marker ?n d ?c = (d1, c1)" by (cases "send_marker ?n d ?c")
  obtain d2 c2 where l: "send_line ?n line (d1, c1) = (d2, c2)" by (cases "send_line ?n line (d1, c1)")
  note ok1 = send_marker_ok [OF m ch(3,4)]
  have ok2: "0 \<le> d2 \<and> d2 \<le> 2 * int ?n \<and> ch_cap c2 = ?n \<and> \<not> ch_closed c2 \<and> length (ch_queue c2) \<le> ?n \<and>
      ch_queue c2 \<noteq> [] \<and> last (ch_queue c2) = line"
    using ok1 cap ch send_line_ok [OF l] by simp
  have eq: "fanOut_one line (ch, d) b =
      b\<lparr>lb_subscribers := gm_put ch d2 (lb_subscribers b), lb_chans := (lb_chans b)[ch := c2]\<rparr>"
    by (simp add: fanOut_one_def m l)
  have sb: "subs_inv b" using inv by (simp add: lb_inv_def)
  have inv': "lb_inv (fanOut_one line (ch, d) b)"
    unfolding eq using ok2 subs_invD(1) [OF sb] by (intro chan_update_inv inv ch(1)) (auto dest!: gm_put_set)
  have "(x, e) \<in> set (gm_put ch d2 (lb_subscribers b))" if "(x, e) \<in> set subs" for x e
  proof -
    have "x \<noteq> ch" using that wf by (auto simp: gm_wf_def rev_image_eqI)
    moreover have "gm_get (lb_subscribers b) x = Some e"
      using that sub inv by (auto simp: lb_inv_def subs_inv_def gm_in_get)
    ultimately show ?thesis using inv by (simp add: gm_in_get lb_inv_def subs_inv_def)
  qed
  then have "fan_pre subs (fanOut_one line (ch, d) b)"
    using inv' wf by (auto simp: fan_pre_def eq gm_wf_def)
  moreover have "ch \<in> set (keys (lb_subscribers b))" using sub(1) by force
  ultimately show ?thesis
    using eq ok2 ch(1) by (simp add: snapshotLocked_def keys_put_old del: set_map)
qed

lemma fanOut_fold:
  assumes "fan_pre subs b"
  shows "lb_inv (fold (fanOut_one line) subs b) \<and>
    snapshotLocked (fold (fanOut_one line) subs b) = snapshotLocked b \<and>
    lb_size (fold (fanOut_one line) subs b) = lb_size b \<and>
    keys (lb_subscribers (fold (fanOut_one line) subs b)) = keys (lb_subscribers b) \<and>
    (\<forall>ch \<in> set (keys subs). ch_queue (lb_chans (fold (fanOut_one line) subs b) ! ch) \<noteq> [] \<and>
       last (ch_queue (lb_chans (fold (fanOut_one line) subs b) ! ch)) = line) \<and>
    (\<forall>ch. ch \<notin> set (keys subs) \<longrightarrow> lb_chans (fold (fanOut_one line) subs b) ! ch = lb_chans b ! ch)"
  using assms
proof (induction subs arbitrary: b)
  case Nil
  then show ?case by (simp add: fan_pre_def)
next
  case (Cons s subs)
  obtain ch d where s: "s = (ch, d)" by (cases s)
  note one = fanOut_one_ok [OF Cons.prems [unfolded s], of line]
  then have "ch \<notin> set (keys subs)" using Cons.prems s by (simp add: fan_pre_def gm_wf_def)
  with one Cons.IH [of "fanOut_one line (ch, d) b"] show ?case by (simp add: s)
qed

lemma Write_ok:
  assumes inv: "lb_inv b"
  obtains b' where "lb_Write p b = Some b'" "lb_inv b'" "lb_size b' = lb_size b"
    "snapshotLocked b' = last_n (lb_size b) (snapshotLocked b @ [trim_newlines p])"
    "\<forall>ch. gm_get (lb_subscribers b) ch \<noteq> None \<longrightarrow>
       ch_queue (lb_chans b' ! ch) \<noteq> [] \<and> last (ch_queue (lb_chans b' ! ch)) = trim_newlines p"
    "keys (lb_subscribers b') = keys (lb_subscribers b)"
proof -
  from inv have "ring_inv b" by (simp add: lb_inv_def)
  then obtain b1 where a: "appendLocked (trim_newlines p) b = Some b1" "ring_inv b1" "lb_size b1 = lb_size b"
    "snapshotLocked b1 = last_n (lb_size b) (snapshotLocked b @ [trim_newlines p])"
    "lb_subscribers b1 = lb_subscribers b" "lb_chans b1 = lb_chans b"
    by (rule ring_snapshot_step)
  then have "fan_pre (lb_subscribers b1) b1"
    using inv by (simp add: fan_pre_def lb_inv_def subs_inv_def)
  from fanOut_fold [OF this, of "trim_newlines p"] a that show ?thesis
    by (auto simp: lb_Write_def fanOutLocked_def gm_get_None_iff)
qed

section \<open>Every operation keeps the invariant and none panics\<close>

lemma Subscribe_inv: "lb_inv b \<Longrightarrow> SubscribeWithSnapshot b = (r, b') \<Longrightarrow> lb_inv b'"
  unfolding lb_inv_def SubscribeWithSnapshot_def Let_def
  by (auto simp: ring_inv_def nth_append less_Suc_eq intro!: subs_invI
      dest!: gm_put_set dest: subs_invD split: if_splits)

lemma close_chan_ok:
  assumes "lb_inv b" "gm_get (lb_subscribers b) ch \<noteq> None"
  obtains b1 where "close_chan ch b = Some b1" "lb_inv (b1\<lparr>lb_subscribers := gm_del ch (lb_subscribers b1)\<rparr>)"
    "lb_subscribers b1 = lb_subscribers b" "ch_closed (lb_chans b1 ! ch)"
    "snapshotLocked b1 = snapshotLocked b"
proof -
  from assms obtain d where d: "(ch, d) \<in> set (lb_subscribers b)" by (auto dest: map_of_SomeD)
  with assms have ch: "ch < length (lb_chans b)" "\<not> ch_closed (lb_chans b ! ch)"
    by (auto simp: lb_inv_def subs_inv_def)
  let ?b1 = "b\<lparr>lb_chans := (lb_chans b)[ch := (lb_chans b ! ch)\<lparr>ch_closed := True\<rparr>]\<rparr>"
  from assms(1) have sb: "subs_inv b" by (simp add: lb_inv_def)
  note cap = subs_invD(2) [OF sb nth_mem [OF ch(1)]]
  have "lb_inv (b\<lparr>lb_subscribers := gm_del ch (lb_subscribers b),
      lb_chans := (lb_chans b)[ch := (lb_chans b ! ch)\<lparr>ch_closed := True\<rparr>]\<rparr>)"
    by (rule chan_update_inv [OF assms(1) ch(1)]) (use cap subs_invD(1) [OF sb] in \<open>auto dest: gm_del_set\<close>)
  moreover have "b\<lparr>lb_subscribers := s, lb_chans := l\<rparr> = b\<lparr>lb_chans := l, lb_subscribers := s\<rparr>" for s l
    by (cases b) simp
  ultimately have "lb_inv (?b1\<lparr>lb_subscribers := gm_del ch (lb_subscribers ?b1)\<rparr>)" by simp
  with ch that [of ?b1] show ?thesis by (simp add: close_chan_def snapshotLocked_def)
qed

lemma Unsubscribe_ok:
  assumes "lb_inv b"
  obtains b' where "Unsubscribe ch b = Some b'" "lb_inv b'" "gm_get (lb_subscribers b') ch = None"
proof (cases "gm_get (lb_subscribers b) ch")
  case None
  then show ?thesis using that assms by (simp add: Unsubscribe_def)
next
  case (Some d)
  obtain b1 where b1: "close_chan ch b = Some b1" "lb_inv (b1\<lparr>lb_subscribers := gm_del ch (lb_subscribers b1)\<rparr>)"
    "lb_subscribers b1 = lb_subscribers b"
    using close_chan_ok [OF assms, of ch] Some by auto
  then have "Unsubscribe ch b = Some (b1\<lparr>lb_subscribers := gm_del ch (lb_subscribers b1)\<rparr>)"
    using Some by (auto simp: Unsubscribe_def close_chan_def split: if_splits)
  with b1 that show ?thesis by simp
qed

lemma close_all_ok:
  assumes "lb_inv b" "distinct chs" "\<forall>ch \<in> set chs. gm_get (lb_subscribers b) ch \<noteq> None"
  shows "\<exists>b'. close_all chs b = Some b' \<and> lb_inv b' \<and>
    (\<forall>ch. gm_get (lb_subscribers b') ch = (if ch \<in> set chs then None else gm_get (lb_subscribers b) ch))"
  using assms
proof (induction chs arbitrary: b)
  case (Cons ch chs)
  obtain b1 where b1: "close_chan ch b = Some b1" "lb_inv (b1\<lparr>lb_subscribers := gm_del ch (lb_subscribers b1)\<rparr>)"
    "lb_subscribers b1 = lb_subscribers b"
    using close_chan_ok [OF Cons.prems(1), of ch] Cons.prems(3) by auto
  with Cons.IH [OF b1(2)] Cons.prems show ?case by fastforce
qed simp

lemma Close_ok:
  assumes "lb_inv b"
  obtains b' where "lb_Close b = Some b'" "lb_inv b'" "lb_subscribers b' = []"
proof -
  have "distinct (keys (lb_subscribers b))" using assms by (simp add: lb_inv_def subs_inv_def gm_wf_def)
  moreover have "\<forall>ch \<in> set (keys (lb_subscribers b)). gm_get (lb_subscribers b) ch \<noteq> None"
    by (simp add: gm_get_None_iff)
  ultimately obtain b' where b': "close_all (keys (lb_subscribers b)) b = Some b'" "lb_inv b'"
    and get: "\<forall>ch. gm_get (lb_subscribers b') ch =
      (if ch \<in> set (keys (lb_subscribers b)) then None else gm_get (lb_subscribers b) ch)"
    using close_all_ok [OF assms] by blast
  have "gm_get (lb_subscribers b') ch = None" for ch
    using get gm_get_None_iff [of "lb_subscribers b" ch] by (cases "ch \<in> set (keys (lb_subscribers b))") auto
  then have "lb_subscribers b' = []" using gm_get_None_iff [of "lb_subscribers b'"] by (cases "lb_subscribers b'") auto
  with b' that show ?thesis by (simp add: lb_Close_def)
qed

lemma recv_inv:
  assumes "lb_inv b" "ch < length (lb_chans b)"
  shows "lb_inv (lb_recv ch b)"
proof -
  let ?c = "(lb_chans b ! ch)\<lparr>ch_queue := tl (ch_queue (lb_chans b ! ch))\<rparr>"
  from assms(1) have sb: "subs_inv b" by (simp add: lb_inv_def)
  note cap = subs_invD(2) [OF sb nth_mem [OF assms(2)]]
  have "lb_inv (b\<lparr>lb_subscribers := lb_subscribers b, lb_chans := (lb_chans b)[ch := ?c]\<rparr>)"
    by (rule chan_update_inv [OF assms]) (use cap subs_invD(1,3) [OF sb] in auto)
  then show ?thesis by (simp add: lb_recv_def)
qed

interpretation lb: invariant_system "\<lambda>b. \<exists>n > 0. b = NewLogRingBuffer n" lb_step lb_inv
proof
  show "lb_inv b" if "\<exists>n > 0. b = NewLogRingBuffer n" for b
    using that by (auto simp: NewLogRingBuffer_def lb_inv_def ring_inv_def subs_inv_def)
  show "lb_inv b'" if "lb_inv b" "lb_step b b'" for b b'
    using that(2,1)
  proof cases
    case (Wr p)
    then show ?thesis using Write_ok [OF that(1), of p] by auto
  next
    case (Unsub ch)
    then show ?thesis using Unsubscribe_ok [OF that(1), of ch] by auto
  next
    case Cls
    then show ?thesis using Close_ok [OF that(1)] by auto
  qed (auto intro: Subscribe_inv recv_inv that(1))
qed

section \<open>Properties\<close>

lemma write_all_ok:
  "lb_inv b \<Longrightarrow> snapshotLocked b = last_n (lb_size b) hist \<Longrightarrow>
   \<exists>b'. write_all ps b = Some b' \<and> snapshotLocked b' = last_n (lb_size b) (hist @ map trim_newlines ps)"
proof (induction ps arbitrary: b hist)
  case (Cons p ps)
  obtain b1 where b1: "lb_Write p b = Some b1" "lb_inv b1" "lb_size b1 = lb_size b"
    "snapshotLocked b1 = last_n (lb_size b) (snapshotLocked b @ [trim_newlines p])"
    using Write_ok [OF Cons.prems(1)] by metis
  have "0 < lb_size b" using Cons.prems(1) by (simp add: lb_inv_def ring_inv_def)
  with b1 Cons.prems(2) have "snapshotLocked b1 = last_n (lb_size b1) (hist @ [trim_newlines p])"
    by (simp add: last_n_append1)
  from Cons.IH [OF b1(2) this] b1 show ?case by auto
qed simp

text \<open>
  C35: a ring of positive size never panics on a write, and after any sequence of writes its
  snapshot is exactly the last \<open>n\<close> lines written, oldest first, with trailing newlines
  removed: the ring implements the bounded history.
\<close>

theorem Write_history:
  assumes "0 < n"
  shows "\<exists>b. write_all ps (NewLogRingBuffer n) = Some b \<and> snapshotLocked b = last_n n (map trim_newlines ps)"
proof -
  have "lb_inv (NewLogRingBuffer n)" using assms lb.inv_init by blast
  from write_all_ok [OF this, of "[]" ps] show ?thesis
    by (simp add: NewLogRingBuffer_def snapshotLocked_def last_n_def)
qed

theorem Write_history_witness:
  "\<exists>b. write_all [''a'', ''b'', ''c''] (NewLogRingBuffer 2) = Some b \<and> snapshotLocked b = [''b'', ''c'']"
proof -
  have "last_n 2 (map trim_newlines [''a'', ''b'', ''c'']) = [''b'', ''c'']" by code_simp
  with Write_history [of 2 "[''a'', ''b'', ''c'']"] show ?thesis by simp
qed

text \<open>
  Whatever the interleaving of writers, subscribers and receivers, a write appends its
  line to the snapshot and leaves it as the newest queued line of every subscriber, slow
  ones included: a full channel loses older lines, never the current one.
\<close>

theorem Write_delivers:
  assumes "lb_reach b" "gm_get (lb_subscribers b) ch = Some d"
  shows "\<exists>b'. lb_Write p b = Some b' \<and>
    snapshotLocked b' = last_n (lb_size b) (snapshotLocked b @ [trim_newlines p]) \<and>
    ch_queue (lb_chans b' ! ch) \<noteq> [] \<and> last (ch_queue (lb_chans b' ! ch)) = trim_newlines p"
  using Write_ok [OF lb.reach_inv [OF assms(1)], of p] assms(2) by (metis option.distinct(1))

text \<open>
  In every reachable state no operation of the log buffer panics (no index out of range,
  no channel closed twice), every channel holds at most \<open>size\<close> lines, and the count of
  dropped lines a subscriber is owed stays between 0 and twice the size.
\<close>

theorem log_no_panic:
  assumes "lb_reach b"
  shows "lb_Write p b \<noteq> None \<and> Unsubscribe ch b \<noteq> None \<and> lb_Close b \<noteq> None \<and>
    list_all (\<lambda>c. length (ch_queue c) \<le> lb_size b) (lb_chans b) \<and>
    list_all (\<lambda>(ch, d). \<not> ch_closed (lb_chans b ! ch) \<and> 0 \<le> d \<and> d \<le> 2 * int (lb_size b)) (lb_subscribers b)"
proof -
  note inv = lb.reach_inv [OF assms]
  then have sb: "subs_inv b" by (simp add: lb_inv_def)
  have "lb_Write p b \<noteq> None" using Write_ok [OF inv] by (metis option.distinct(1))
  moreover have "Unsubscribe ch b \<noteq> None" using Unsubscribe_ok [OF inv] by (metis option.distinct(1))
  moreover have "lb_Close b \<noteq> None" using Close_ok [OF inv] by (metis option.distinct(1))
  ultimately show ?thesis using subs_invD(2,3) [OF sb] by (auto simp: list_all_iff)
qed

section \<open>Witnesses\<close>

definition example_log :: LogRingBuffer where
  "example_log = snd (SubscribeWithSnapshot (NewLogRingBuffer 1))"

lemma example_log_reach: "lb_reach example_log"
proof -
  have "lb_reach (NewLogRingBuffer 1)" by (rule reach_init) auto
  moreover have "lb_step (NewLogRingBuffer 1) example_log"
    by (rule Sub [of _ "fst (SubscribeWithSnapshot (NewLogRingBuffer 1))"]) (simp add: example_log_def)
  ultimately show ?thesis by (rule reach_step)
qed

theorem Write_delivers_witness:
  "\<exists>b'. lb_Write ''x'' example_log = Some b' \<and> last (ch_queue (lb_chans b' ! 0)) = ''x''"
proof -
  have "gm_get (lb_subscribers example_log) 0 = Some 0" "trim_newlines ''x'' = ''x''" by code_simp+
  with Write_delivers [OF example_log_reach this(1), of "''x''"] show ?thesis by auto
qed

theorem log_no_panic_witness:
  "lb_Write ''x'' example_log \<noteq> None \<and> lb_Close example_log \<noteq> None"
  using log_no_panic [OF example_log_reach, of "''x''" 0] by blast

end
