(* ===== verification/Lifecycle.thy ===== *)
theory Lifecycle
  imports Go_Prelude
begin

text \<open>
  \<^verbatim>\<open>src/internal/lifecycle\<close> (status and state tracker), \<^verbatim>\<open>src/internal/dnsproviders\<close> (retry,
  lifecycle manager, the MagicDNS provider) and \<^verbatim>\<open>src/internal/tlsproviders/lifecycle.go\<close>:
  the per-domain operations behind custom domains. What a DNS or TLS provider answers is
  a field of its record; MagicDNS, whose source is here, is one such record.
\<close>

section \<open>Status and tracker\<close>

datatype lc_Status = StatusNone | StatusPending | StatusActive | StatusError

fun lc_Status_String :: "lc_Status \<Rightarrow> string" where
  "lc_Status_String StatusNone = ''none''"
| "lc_Status_String StatusPending = ''pending''"
| "lc_Status_String StatusActive = ''active''"
| "lc_Status_String StatusError = ''error''"

type_synonym StateTracker = "(string, lc_Status) gomap"

definition NewStateTracker :: StateTracker where
  "NewStateTracker = []"

definition st_Set :: "string \<Rightarrow> lc_Status \<Rightarrow> StateTracker \<Rightarrow> StateTracker" where
  "st_Set domain status t = gm_put domain status t"

text \<open>A missing key reads as the zero value of the type.\<close>

definition st_Get :: "StateTracker \<Rightarrow> string \<Rightarrow> lc_Status" where
  "st_Get t domain = (case gm_get t domain of None \<Rightarrow> StatusNone | Some s \<Rightarrow> s)"

definition st_Delete :: "string \<Rightarrow> StateTracker \<Rightarrow> StateTracker" where
  "st_Delete domain t = gm_del domain t"

text \<open>
  The interface the lifecycle managers rely on: a total map from domains to statuses in
  which an operation on one domain leaves the others alone.
\<close>

locale status_map =
  fixes new :: 't and set_st :: "string \<Rightarrow> lc_Status \<Rightarrow> 't \<Rightarrow> 't"
    and get_st :: "'t \<Rightarrow> string \<Rightarrow> lc_Status" and del_st :: "string \<Rightarrow> 't \<Rightarrow> 't"
  assumes get_new: "get_st new d = StatusNone"
    and get_set: "get_st (set_st d s t) d' = (if d' = d then s else get_st t d')"
    and get_del: "get_st (del_st d t) d' = (if d' = d then StatusNone else get_st t d')"
begin

lemma set_overwrites: "get_st (set_st d s2 (set_st d s1 t)) = get_st (set_st d s2 t)"
  by (rule ext) (simp add: get_set)

lemma set_commute: "d \<noteq> d' \<Longrightarrow> get_st (set_st d s (set_st d' s' t)) = get_st (set_st d' s' (set_st d s t))"
  by (rule ext) (simp add: get_set)

lemma del_after_set: "get_st (del_st d (set_st d s t)) = get_st (del_st d t)"
  by (rule ext) (simp add: get_set get_del)

end

interpretation st: status_map NewStateTracker st_Set st_Get st_Delete
  by unfold_locales (simp_all add: NewStateTracker_def st_Set_def st_Get_def st_Delete_def)

section \<open>Retry\<close>

definition dns_maxBackoff :: int where "dns_maxBackoff = 30 * 1000000000"
definition backoffMultiplier :: int where "backoffMultiplier = 2"
definition dnsValidationRetries :: nat where "dnsValidationRetries = 10"
definition dnsValidationInterval :: int where "dnsValidationInterval = 2 * 1000000000"

text \<open>The inner loop that computes the pause before the next attempt.\<close>

fun backoff_loop :: "nat \<Rightarrow> int \<Rightarrow> int" where
  "backoff_loop 0 backoff = backoff"
| "backoff_loop (Suc i) backoff =
     (let next = wrap64 (backoff * backoffMultiplier)
      in if next \<le> backoff \<or> next > dns_maxBackoff then dns_maxBackoff else backoff_loop i next)"

datatype retry_error = CtxError string | MaxRetries "string option"

text \<open>
  What the environment does during a retry: the context error before an attempt, the
  result of the attempt (\<open>None\<close> is success), and the context error during the pause.
\<close>

record retry_env =
  rt_ctxErr :: "nat \<Rightarrow> string option"
  rt_op :: "nat \<Rightarrow> string option"
  rt_wait :: "nat \<Rightarrow> string option"

text \<open>
  The loop with \<open>n\<close> attempts to go; it returns the error, the number of attempts made and
  the pauses taken.
\<close>

fun retry_loop :: "retry_env \<Rightarrow> nat \<Rightarrow> int \<Rightarrow> nat \<Rightarrow> nat \<Rightarrow> string option \<Rightarrow> retry_error option \<times> nat \<times> int list" where
  "retry_loop env maxRetries initial 0 attempt lastErr = (Some (MaxRetries lastErr), attempt, [])"
| "retry_loop env maxRetries initial (Suc n) attempt lastErr =
     (case rt_ctxErr env attempt of
        Some e \<Rightarrow> (Some (CtxError e), attempt, [])
      | None \<Rightarrow>
          (case rt_op env attempt of
             None \<Rightarrow> (None, Suc attempt, [])
           | Some err \<Rightarrow>
               if attempt < maxRetries then
                 (case rt_wait env attempt of
                    Some e \<Rightarrow> (Some (CtxError e), Suc attempt, [backoff_loop attempt initial])
                  | None \<Rightarrow>
                      (let (r, k, ps) = retry_loop env maxRetries initial n (Suc attempt) (Some err)
                       in (r, k, backoff_loop attempt initial # ps)))
               else retry_loop env maxRetries initial n (Suc attempt) (Some err)))"

definition Retry :: "retry_env \<Rightarrow> nat \<Rightarrow> int \<Rightarrow> retry_error option \<times> nat \<times> int list" where
  "Retry env maxRetries initial = retry_loop env maxRetries initial (Suc maxRetries) 0 None"

section \<open>DNS lifecycle\<close>

text \<open>
  A DNS provider: its name, whether it can answer DNS-01 challenges, and its operations;
  the answer of a validation may change from attempt to attempt.
\<close>

record DNSProvider =
  dp_Name :: string
  dp_acme :: bool
  dp_CreateRecord :: "string \<Rightarrow> string \<Rightarrow> string \<Rightarrow> string option"
  dp_DeleteRecord :: "string \<Rightarrow> string \<Rightarrow> string option"
  dp_ValidateRecord :: "nat \<Rightarrow> string \<Rightarrow> string \<Rightarrow> string \<Rightarrow> string + bool"

definition magicdns :: DNSProvider where
  "magicdns = \<lparr>dp_Name = ''magicdns'', dp_acme = False, dp_CreateRecord = (\<lambda>_ _ _. None),
     dp_DeleteRecord = (\<lambda>_ _. None), dp_ValidateRecord = (\<lambda>_ _ _ _. Inr True)\<rparr>"

record LifecycleManager =
  lm_tracker :: StateTracker
  lm_cleanup :: bool

definition NewLifecycleManager :: "bool \<Rightarrow> LifecycleManager" where
  "NewLifecycleManager cleanup = \<lparr>lm_tracker = NewStateTracker, lm_cleanup = cleanup\<rparr>"

definition track :: "string \<Rightarrow> lc_Status \<Rightarrow> LifecycleManager \<Rightarrow> LifecycleManager" where
  "track domain s lm = lm\<lparr>lm_tracker := st_Set domain s (lm_tracker lm)\<rparr>"

datatype dns_error = CreateCNAME string | CNAMEPropagation retry_error | DeleteCNAME string

definition validate_op :: "DNSProvider \<Rightarrow> string \<Rightarrow> string \<Rightarrow> nat \<Rightarrow> string option" where
  "validate_op provider domain targetHostname attempt =
     (case dp_ValidateRecord provider attempt domain ''CNAME'' targetHostname of
        Inl e \<Rightarrow> Some e
      | Inr ok \<Rightarrow> if ok then None else Some ''cname not propagated yet'')"

text \<open>\<open>ctxErr\<close> and \<open>waitErr\<close> are the context at each attempt and during each pause.\<close>

definition SetupDNS ::
  "(nat \<Rightarrow> string option) \<Rightarrow> (nat \<Rightarrow> string option) \<Rightarrow> DNSProvider \<Rightarrow> string \<Rightarrow> string \<Rightarrow> LifecycleManager \<Rightarrow>
   dns_error option \<times> LifecycleManager" where
  "SetupDNS ctxErr waitErr provider domain targetHostname lm =
     (let lm = track domain StatusPending lm
      in case dp_CreateRecord provider domain ''CNAME'' targetHostname of
           Some e \<Rightarrow> (Some (CreateCNAME e), track domain StatusError lm)
         | None \<Rightarrow>
             (case fst (Retry \<lparr>rt_ctxErr = ctxErr, rt_op = validate_op provider domain targetHostname, rt_wait = waitErr\<rparr>
                         dnsValidationRetries dnsValidationInterval) of
                Some e \<Rightarrow> (Some (CNAMEPropagation e), track domain StatusError lm)
              | None \<Rightarrow> (None, track domain StatusActive lm)))"

definition CleanupDNS :: "DNSProvider \<Rightarrow> string \<Rightarrow> LifecycleManager \<Rightarrow> dns_error option \<times> LifecycleManager" where
  "CleanupDNS provider domain lm =
     (if \<not> lm_cleanup lm then (None, lm)
      else case dp_DeleteRecord provider domain ''CNAME'' of
             Some e \<Rightarrow> (Some (DeleteCNAME e), lm)
           | None \<Rightarrow> (None, lm\<lparr>lm_tracker := st_Delete domain (lm_tracker lm)\<rparr>))"

definition lm_GetStatus :: "LifecycleManager \<Rightarrow> string \<Rightarrow> lc_Status" where
  "lm_GetStatus lm domain = st_Get (lm_tracker lm) domain"

section \<open>TLS lifecycle\<close>

record TLSProvider =
  tlp_Name :: string
  tlp_Provision :: "string \<Rightarrow> string option"
  tlp_Cleanup :: "string \<Rightarrow> string option"

definition tls_Provision :: "TLSProvider \<Rightarrow> string \<Rightarrow> LifecycleManager \<Rightarrow> string option \<times> LifecycleManager" where
  "tls_Provision provider domain lm =
     (let lm = track domain StatusPending lm
      in case tlp_Provision provider domain of
           Some e \<Rightarrow> (Some e, track domain StatusError lm)
         | None \<Rightarrow> (None, track domain StatusActive lm))"

definition tls_Cleanup :: "TLSProvider \<Rightarrow> string \<Rightarrow> LifecycleManager \<Rightarrow> string option \<times> LifecycleManager" where
  "tls_Cleanup provider domain lm =
     (if \<not> lm_cleanup lm then (None, lm)
      else case tlp_Cleanup provider domain of
             Some e \<Rightarrow> (Some e, lm)
           | None \<Rightarrow> (None, lm\<lparr>lm_tracker := st_Delete domain (lm_tracker lm)\<rparr>))"

section \<open>Retry is bounded and exact\<close>

lemma backoff_loop_exact:
  "0 < b \<Longrightarrow> b \<le> dns_maxBackoff \<Longrightarrow> backoff_loop i b = min dns_maxBackoff (b * 2 ^ i)"
proof (induction i arbitrary: b)
  case (Suc i)
  have w: "wrap64 (b * 2) = b * 2"
    using Suc.prems by (intro wrap64_id) (simp add: dns_maxBackoff_def in_int64_def int64_min_def int64_max_def)
  show ?case
  proof (cases "b * 2 > dns_maxBackoff")
    case True
    have "b * 2 \<le> b * 2 ^ Suc i" using Suc.prems by (intro mult_left_mono) auto
    with True have "dns_maxBackoff \<le> b * 2 ^ Suc i" by linarith
    with True w show ?thesis by (simp add: backoffMultiplier_def)
  next
    case False
    with Suc.IH [of "b * 2"] Suc.prems w show ?thesis by (simp add: backoffMultiplier_def mult.assoc)
  qed
qed simp

lemma retry_loop_attempts:
  "retry_loop env m ini n a l = (r, k, ps) \<Longrightarrow> a \<le> k \<and> k \<le> a + n"
  by (induction env m ini n a l arbitrary: r k ps rule: retry_loop.induct)
    (fastforce split: option.splits if_splits prod.splits)+

text \<open>Some attempt from \<open>a\<close> on succeeds before the context ends.\<close>

definition succeeds_from :: "retry_env \<Rightarrow> nat \<Rightarrow> nat \<Rightarrow> bool" where
  "succeeds_from env m a \<longleftrightarrow>
    (\<exists>k. a \<le> k \<and> k \<le> m \<and> rt_op env k = None \<and> (\<forall>j. a \<le> j \<and> j \<le> k \<longrightarrow> rt_ctxErr env j = None) \<and>
       (\<forall>j. a \<le> j \<and> j < k \<longrightarrow> rt_op env j \<noteq> None \<and> rt_wait env j = None))"

lemma succeeds_from_step:
  assumes "a \<le> m"
  shows "succeeds_from env m a \<longleftrightarrow> rt_ctxErr env a = None \<and>
    (rt_op env a = None \<or> (a < m \<and> rt_wait env a = None \<and> succeeds_from env m (Suc a)))"
proof (cases "rt_op env a")
  case None
  with assms show ?thesis
    by (auto simp: succeeds_from_def intro: exI [of _ a])
next
  case (Some e)
  have "succeeds_from env m a \<longleftrightarrow> rt_ctxErr env a = None \<and> a < m \<and> rt_wait env a = None \<and> succeeds_from env m (Suc a)"
  proof
    assume "succeeds_from env m a"
    then obtain k where k: "a \<le> k" "k \<le> m" "rt_op env k = None" "\<forall>j. a \<le> j \<and> j \<le> k \<longrightarrow> rt_ctxErr env j = None"
      "\<forall>j. a \<le> j \<and> j < k \<longrightarrow> rt_op env j \<noteq> None \<and> rt_wait env j = None"
      by (auto simp: succeeds_from_def)
    with Some have "a < k" by (cases "a = k") auto
    then have "rt_ctxErr env a = None" "a < m" "rt_wait env a = None" using k by auto
    moreover have "succeeds_from env m (Suc a)"
      unfolding succeeds_from_def by (rule exI [of _ k]) (use k \<open>a < k\<close> in auto)
    ultimately show "rt_ctxErr env a = None \<and> a < m \<and> rt_wait env a = None \<and> succeeds_from env m (Suc a)" by blast
  next
    assume h: "rt_ctxErr env a = None \<and> a < m \<and> rt_wait env a = None \<and> succeeds_from env m (Suc a)"
    then obtain k where k: "Suc a \<le> k" "k \<le> m" "rt_op env k = None" "\<forall>j. Suc a \<le> j \<and> j \<le> k \<longrightarrow> rt_ctxErr env j = None"
      "\<forall>j. Suc a \<le> j \<and> j < k \<longrightarrow> rt_op env j \<noteq> None \<and> rt_wait env j = None"
      by (auto simp: succeeds_from_def)
    have ge: "j = a \<or> Suc a \<le> j" if "a \<le> j" for j using that by auto
    show "succeeds_from env m a"
      unfolding succeeds_from_def
      by (rule exI [of _ k]) (use k h Some ge in \<open>auto dest!: ge\<close>)
  qed
  with Some show ?thesis by simp
qed

lemma retry_loop_fst:
  "fst (retry_loop env m ini (Suc n) a l) =
     (case rt_ctxErr env a of
        Some e \<Rightarrow> Some (CtxError e)
      | None \<Rightarrow>
          (case rt_op env a of
             None \<Rightarrow> None
           | Some err \<Rightarrow>
               (case (if a < m then rt_wait env a else None) of
                  Some e \<Rightarrow> Some (CtxError e)
                | None \<Rightarrow> fst (retry_loop env m ini n (Suc a) (Some err)))))"
  by (auto split: option.splits prod.splits)

lemma retry_loop_None_iff:
  "a + n = Suc m \<Longrightarrow> fst (retry_loop env m ini n a l) = None \<longleftrightarrow> succeeds_from env m a"
proof (induction n arbitrary: a l)
  case 0
  then show ?case by (simp add: succeeds_from_def)
next
  case (Suc n)
  then have le: "a \<le> m" and n0: "a = m \<longleftrightarrow> n = 0" by auto
  have end0: "fst (retry_loop env m ini 0 b l) \<noteq> None" for b l by simp
  show ?case
    unfolding succeeds_from_step [OF le] retry_loop_fst
    using Suc.IH [of "Suc a"] Suc.prems n0 end0 le
    by (cases "a = m") (auto split: option.splits simp del: retry_loop.simps(2))
qed

lemma retry_loop_pauses:
  "retry_loop env m ini n a l = (r, k, ps) \<Longrightarrow> \<forall>b \<in> set ps. \<exists>i. b = backoff_loop i ini"
  by (induction env m ini n a l arbitrary: r k ps rule: retry_loop.induct)
    (fastforce split: option.splits if_splits prod.splits)+



section \<open>The tracker follows the operations\<close>

lemma lm_GetStatus_track [simp]:
  "lm_GetStatus (track d s lm) d' = (if d' = d then s else lm_GetStatus lm d')"
  by (simp add: lm_GetStatus_def track_def st.get_set)

text \<open>
  After \<^verbatim>\<open>SetupDNS\<close> the tracked status of the domain says how it went, Active exactly on
  success and Error otherwise, never Pending; other domains keep theirs. A cleanup that
  succeeds with cleanup enabled forgets the domain, so it reads as None again.
\<close>

theorem SetupDNS_status:
  assumes "SetupDNS ctxErr waitErr provider domain target lm = (e, lm')"
  shows "lm_GetStatus lm' domain = (if e = None then StatusActive else StatusError) \<and>
    (\<forall>d. d \<noteq> domain \<longrightarrow> lm_GetStatus lm' d = lm_GetStatus lm d) \<and> lm_cleanup lm' = lm_cleanup lm \<and>
    (lm_cleanup lm \<and> dp_DeleteRecord provider domain ''CNAME'' = None \<longrightarrow>
       (\<exists>lm2. CleanupDNS provider domain lm' = (None, lm2) \<and> lm_GetStatus lm2 domain = StatusNone \<and>
          domain \<notin> set (keys (lm_tracker lm2))))"
proof -
  have base: "lm_GetStatus lm' domain = (if e = None then StatusActive else StatusError) \<and>
    (\<forall>d. d \<noteq> domain \<longrightarrow> lm_GetStatus lm' d = lm_GetStatus lm d) \<and> lm_cleanup lm' = lm_cleanup lm"
    using assms by (auto simp: SetupDNS_def Let_def track_def [of _ _ lm] split: option.splits)
      (auto simp: track_def lm_GetStatus_def st.get_set)
  have "domain \<notin> set (keys (st_Delete domain (lm_tracker lm')))"
    by (simp only: st_Delete_def keys_del) simp
  with base show ?thesis
    by (auto simp: CleanupDNS_def lm_GetStatus_def st.get_del)
qed

theorem SetupDNS_status_witness:
  "lm_GetStatus (snd (SetupDNS (\<lambda>_. None) (\<lambda>_. None) magicdns ''a.b'' ''h'' (NewLifecycleManager True))) ''a.b'' = StatusActive"
proof -
  obtain e lm where s: "SetupDNS (\<lambda>_. None) (\<lambda>_. None) magicdns ''a.b'' ''h'' (NewLifecycleManager True) = (e, lm)"
    by (metis prod.exhaust)
  have "fst (SetupDNS (\<lambda>_. None) (\<lambda>_. None) magicdns ''a.b'' ''h'' (NewLifecycleManager True)) = None" by code_simp
  with SetupDNS_status [OF s] s show ?thesis by simp
qed

lemma tls_Provision_status:
  assumes "tls_Provision provider domain lm = (e, lm')"
  shows "lm_GetStatus lm' domain = (if e = None then StatusActive else StatusError)"
    "d \<noteq> domain \<Longrightarrow> lm_GetStatus lm' d = lm_GetStatus lm d"
  using assms by (auto simp: tls_Provision_def Let_def split: option.splits)

end
