(* ===== verification/Proxy.thy ===== *)
theory Proxy
  imports Health Log_Buffer Lifecycle
begin

text \<open>
  \<^verbatim>\<open>src/internal/proxymanager/proxy.go\<close>, \<^verbatim>\<open>proxyports.go\<close> and \<^verbatim>\<open>proxytls.go\<close>: one proxy, its
  status machine, its port handlers and its lifecycle. Each operation under \<^verbatim>\<open>mtx\<close> is
  atomic. The lifecycle operations Pause, Resume and Close exclude each other by \<^verbatim>\<open>opMu\<close>,
  but provider events and failing ports run between their critical sections: each is
  split where it releases \<^verbatim>\<open>mtx\<close>, and \<open>px_op\<close> says which of them holds \<^verbatim>\<open>opMu\<close>.
  \<open>px_updates\<close> collects the events handed to \<^verbatim>\<open>onUpdate\<close> in the order of the transitions.
\<close>

section \<open>State\<close>

definition maxStatusHistory :: nat where "maxStatusHistory = 5"

record StatusTransition =
  tr_Timestamp :: int
  tr_Status :: ProxyStatus

datatype port_kind = PortRedirect | PortProxy | PortUDP | PortTCP

datatype listener = ProviderListener string | RawListener string | CustomTLS string | PacketConn string

record portHandler =
  ph_kind :: port_kind
  ph_listener :: "listener option"
  ph_closed :: bool

datatype op_state = NoOp | Pausing | Resuming | Closing

record metric_state =
  ms_status :: string
  ms_up :: int

record Proxy =
  px_Config :: Config
  px_ports :: "(string, portHandler) gomap"
  px_health :: "healthChecker option"
  px_healthPortName :: string
  px_healthRunning :: bool
  px_statusHistory :: "StatusTransition list"
  px_status :: ProxyStatus
  px_paused :: bool
  px_metrics :: "metric_state option"
  px_metricsReady :: bool
  px_lastError :: string
  px_domainError :: string
  px_dnsStatus :: lc_Status
  px_tlsStatus :: lc_Status
  px_dnsProvider :: "DNSProvider option"
  px_tlsProvider :: "TLSProvider option"
  px_logBuffer :: "LogRingBuffer option"
  px_cancelled :: bool
  px_providerStarted :: bool
  px_providerClosed :: bool
  px_closeOnce :: bool
  px_eventsDone :: bool
  px_urlReady :: bool
  px_startedAt :: int
  px_op :: op_state
  px_updates :: "ProxyEvent list"

text \<open>
  What the proxy provider answers: the error of its start, whether it can give a
  listener or a packet connection for a port, its raw TCP listener if it implements that
  interface, and its current URL.
\<close>

record provider_env =
  pv_Start :: "string option"
  pv_GetListener :: "string \<Rightarrow> bool"
  pv_GetPacketConn :: "string \<Rightarrow> bool"
  pv_RawTCP :: "(string \<Rightarrow> bool) option"
  pv_URL :: string
  pv_now :: int

datatype proxy_error =
    AlreadyPaused
  | CannotPause ProxyStatus
  | NotPaused
  | ResumeFailed nat
  | NoPorts
  | ProviderStart string
  | AllListenersFailed nat
  | ListenerError string
  | NoRawSupport

section \<open>Status\<close>

definition set_metric_status :: "ProxyStatus \<Rightarrow> metric_state option \<Rightarrow> metric_state option" where
  "set_metric_status s = map_option (\<lambda>m. m\<lparr>ms_status := ProxyStatus_String (ProxyStatus_iota s)\<rparr>)"

definition set_metric_up :: "int \<Rightarrow> metric_state option \<Rightarrow> metric_state option" where
  "set_metric_up v = map_option (\<lambda>m. m\<lparr>ms_up := v\<rparr>)"

definition keep_last :: "nat \<Rightarrow> 'a list \<Rightarrow> 'a list" where
  "keep_last n xs = (if length xs > n then drop (length xs - n) xs else xs)"

definition setStatus :: "int \<Rightarrow> ProxyStatus \<Rightarrow> Proxy \<Rightarrow> Proxy" where
  "setStatus now status p =
     (if px_status p = status then p
      else if px_paused p \<and> status \<noteq> ProxyStatusPaused then p
      else p\<lparr>px_status := status,
             px_statusHistory := keep_last maxStatusHistory
               (px_statusHistory p @ [\<lparr>tr_Timestamp = now, tr_Status = status\<rparr>]),
             px_metrics := (if px_metricsReady p then set_metric_status status (px_metrics p) else px_metrics p),
             px_updates := px_updates p @
               [\<lparr>ev_ID = cfg_Hostname (px_Config p), ev_Port = [], ev_AuthURL = [],
                 ev_ErrorMessage = px_lastError p, ev_Status = status, ev_OldStatus = px_status p\<rparr>]\<rparr>)"

definition setMetricsReady :: "bool \<Rightarrow> Proxy \<Rightarrow> Proxy" where
  "setMetricsReady ready p =
     p\<lparr>px_metricsReady := ready,
       px_metrics := (if ready then set_metric_status (px_status p) (px_metrics p) else px_metrics p)\<rparr>"

section \<open>Ports\<close>

definition handler_kind :: "PortConfig \<Rightarrow> port_kind" where
  "handler_kind v =
     (if pc_IsRedirect v then PortRedirect
      else if pc_ProxyProtocol v = ProtoHTTP \<or> pc_ProxyProtocol v = ProtoHTTPS then PortProxy
      else if pc_ProxyProtocol v = ProtoUDP then PortUDP else PortTCP)"

definition initPorts :: "Proxy \<Rightarrow> Proxy" where
  "initPorts p =
     p\<lparr>px_ports := fold (\<lambda>(k, v) m. gm_put k \<lparr>ph_kind = handler_kind v, ph_listener = None, ph_closed = False\<rparr> m)
                     (cfg_Ports (px_Config p)) (px_ports p)\<rparr>"

definition getCustomTLSListener :: "provider_env \<Rightarrow> string \<Rightarrow> proxy_error + listener" where
  "getCustomTLSListener env portName =
     (case pv_RawTCP env of
        None \<Rightarrow> Inl NoRawSupport
      | Some raw \<Rightarrow> if raw portName then Inr (CustomTLS portName) else Inl (ListenerError portName))"

definition TLSProviderTailscale :: string where "TLSProviderTailscale = ''tailscale''"

definition getListenerForPort :: "provider_env \<Rightarrow> Proxy \<Rightarrow> string \<Rightarrow> PortConfig \<Rightarrow> proxy_error + listener" where
  "getListenerForPort env p portName pc =
     (let needsCustomTLS = (cfg_Domain (px_Config p) \<noteq> [] \<and> pc_ProxyProtocol pc = ProtoHTTPS \<and>
            px_tlsProvider p \<noteq> None \<and> map_option tlp_Name (px_tlsProvider p) \<noteq> Some TLSProviderTailscale);
          provider = (if pv_GetListener env portName then Inr (ProviderListener portName)
                      else Inl (ListenerError portName))
      in if needsCustomTLS then getCustomTLSListener env portName
         else if pc_ProxyProtocol pc = ProtoTCP then
           (case pv_RawTCP env of
              Some raw \<Rightarrow> if raw portName then Inr (RawListener portName) else Inl (ListenerError portName)
            | None \<Rightarrow> provider)
         else provider)"

text \<open>Starting the handler of a port; a port without handler leaves the listener unused.\<close>

definition startPort :: "string \<Rightarrow> listener \<Rightarrow> Proxy \<Rightarrow> Proxy" where
  "startPort name l p =
     (case gm_get (px_ports p) name of
        None \<Rightarrow> p
      | Some h \<Rightarrow> p\<lparr>px_ports := gm_put name (h\<lparr>ph_listener := Some l\<rparr>) (px_ports p)\<rparr>)"

definition startPacketPort :: "string \<Rightarrow> Proxy \<Rightarrow> Proxy" where
  "startPacketPort name p =
     (case gm_get (px_ports p) name of
        None \<Rightarrow> p
      | Some h \<Rightarrow>
          if ph_kind h \<noteq> PortUDP then p
          else p\<lparr>px_ports := gm_put name (h\<lparr>ph_listener := Some (PacketConn name)\<rparr>) (px_ports p)\<rparr>)"

definition listen_one :: "provider_env \<Rightarrow> string \<times> PortConfig \<Rightarrow> nat \<times> Proxy \<Rightarrow> nat \<times> Proxy" where
  "listen_one env kp st =
     (let (k, pc) = kp; (errs, p) = st
      in if pc_ProxyProtocol pc = ProtoUDP then
           (if pv_GetPacketConn env k then (errs, startPacketPort k p) else (errs + 1, p))
         else case getListenerForPort env p k pc of
                Inl _ \<Rightarrow> (errs + 1, p)
              | Inr l \<Rightarrow> (errs, startPort k l p))"

text \<open>The loop shared by \<^verbatim>\<open>startListeners\<close> and \<^verbatim>\<open>Resume\<close>: the number of ports without listener.\<close>

definition listen_all :: "provider_env \<Rightarrow> Proxy \<Rightarrow> nat \<times> Proxy" where
  "listen_all env p = fold (listen_one env) (cfg_Ports (px_Config p)) (0, p)"

definition startListeners :: "provider_env \<Rightarrow> Proxy \<Rightarrow> (proxy_error option) \<times> Proxy" where
  "startListeners env p =
     (let (errs, p) = listen_all env p
      in if errs > 0 \<and> errs = length (cfg_Ports (px_Config p)) then (Some (AllListenersFailed errs), p)
         else (None, p))"

definition closeAndClearPorts :: "Proxy \<Rightarrow> Proxy" where
  "closeAndClearPorts p = p\<lparr>px_ports := []\<rparr>"

definition closePortsKeepMap :: "Proxy \<Rightarrow> Proxy" where
  "closePortsKeepMap p = p\<lparr>px_ports := map (\<lambda>(k, h). (k, h\<lparr>ph_closed := True\<rparr>)) (px_ports p)\<rparr>"

section \<open>Health\<close>

definition px_startHealthChecker :: "Proxy \<Rightarrow> Proxy" where
  "px_startHealthChecker p =
     (case startHealthChecker (px_Config p) of
        None \<Rightarrow> (if cfg_HealthCheckEnabled (px_Config p) then p else p\<lparr>px_metrics := set_metric_up (- 1) (px_metrics p)\<rparr>)
      | Some (k, hc) \<Rightarrow>
          p\<lparr>px_healthPortName := k, px_health := Some hc, px_healthRunning := True,
            px_metrics := set_metric_up (- 1) (px_metrics p)\<rparr>)"

definition stopHealthChecker :: "Proxy \<Rightarrow> Proxy" where
  "stopHealthChecker p = (case px_health p of None \<Rightarrow> p | Some _ \<Rightarrow> p\<lparr>px_healthRunning := False\<rparr>)"

definition px_GetHealth :: "Proxy \<Rightarrow> HealthResult" where
  "px_GetHealth p = GetHealth (px_health p)"

section \<open>Lifecycle\<close>

definition NewProxy :: "Config \<Rightarrow> metric_state option \<Rightarrow> int \<Rightarrow> Proxy" where
  "NewProxy cfg metrics now =
     initPorts
       \<lparr>px_Config = cfg, px_ports = [], px_health = None, px_healthPortName = [], px_healthRunning = False,
        px_statusHistory = [], px_status = ProxyStatusInitializing, px_paused = False, px_metrics = metrics,
        px_metricsReady = False, px_lastError = [], px_domainError = [], px_dnsStatus = StatusNone,
        px_tlsStatus = StatusNone, px_dnsProvider = None, px_tlsProvider = None,
        px_logBuffer = (if cfg_ProxyAccessLog cfg then Some (NewLogRingBuffer DefaultLogBufferSize) else None),
        px_cancelled = False, px_providerStarted = False, px_providerClosed = False, px_closeOnce = False,
        px_eventsDone = False, px_urlReady = False, px_startedAt = now, px_op = NoOp, px_updates = []\<rparr>"

definition startProvider :: "provider_env \<Rightarrow> Proxy \<Rightarrow> (proxy_error option) \<times> Proxy" where
  "startProvider env p =
     (if px_ports p = [] then (Some NoPorts, p)
      else case pv_Start env of
             Some e \<Rightarrow> (Some (ProviderStart e), p)
           | None \<Rightarrow> (None, p\<lparr>px_providerStarted := True\<rparr>))"

text \<open>Phase 1 of \<^verbatim>\<open>Start\<close>, under \<^verbatim>\<open>opMu\<close>; then the listeners.\<close>

definition Start :: "provider_env \<Rightarrow> Proxy \<Rightarrow> (proxy_error option) \<times> Proxy" where
  "Start env p =
     (let (e, p) = startProvider env p
      in if e \<noteq> None then (e, p) else startListeners env (px_startHealthChecker p))"

definition notifyURLReady :: "provider_env \<Rightarrow> Proxy \<Rightarrow> Proxy" where
  "notifyURLReady env p = (if pv_URL env \<noteq> [] then p\<lparr>px_urlReady := True\<rparr> else p)"

text \<open>One event of the provider, in the goroutine that \<^verbatim>\<open>Start\<close> launches.\<close>

definition provider_event :: "provider_env \<Rightarrow> ProxyEvent \<Rightarrow> Proxy \<Rightarrow> Proxy" where
  "provider_event env ev p =
     notifyURLReady env (setStatus (pv_now env) (ev_Status ev) (p\<lparr>px_lastError := ev_ErrorMessage ev\<rparr>))"

text \<open>A port whose serving loop returned an error.\<close>

definition port_failed :: "int \<Rightarrow> Proxy \<Rightarrow> Proxy" where
  "port_failed now p = setStatus now ProxyStatusError p"

definition pause_enter :: "Proxy \<Rightarrow> proxy_error + Proxy" where
  "pause_enter p =
     (if px_paused p then Inl AlreadyPaused
      else if px_status p \<noteq> ProxyStatusRunning then Inl (CannotPause (px_status p))
      else Inr (p\<lparr>px_paused := True, px_op := Pausing\<rparr>))"

definition pause_finish :: "int \<Rightarrow> Proxy \<Rightarrow> Proxy" where
  "pause_finish now p =
     (let p = closeAndClearPorts (stopHealthChecker p); p = p\<lparr>px_metrics := set_metric_up (- 1) (px_metrics p)\<rparr>
      in (setStatus now ProxyStatusPaused p)\<lparr>px_op := NoOp\<rparr>)"

definition Pause :: "int \<Rightarrow> Proxy \<Rightarrow> proxy_error + Proxy" where
  "Pause now p = (case pause_enter p of Inl e \<Rightarrow> Inl e | Inr p \<Rightarrow> Inr (pause_finish now p))"

definition resume_enter :: "Proxy \<Rightarrow> proxy_error + Proxy" where
  "resume_enter p =
     (if \<not> px_paused p then Inl NotPaused else Inr (p\<lparr>px_paused := False, px_op := Resuming\<rparr>))"

text \<open>The rest of \<^verbatim>\<open>Resume\<close>; on failure the error comes with the state it leaves behind.\<close>

definition resume_finish :: "provider_env \<Rightarrow> Proxy \<Rightarrow> (proxy_error option) \<times> Proxy" where
  "resume_finish env p =
     (let (errs, p) = listen_all env (initPorts p)
      in if errs > 0 \<and> errs = length (cfg_Ports (px_Config p)) then
           (Some (ResumeFailed errs), (setStatus (pv_now env) ProxyStatusError (p\<lparr>px_paused := True\<rparr>))\<lparr>px_op := NoOp\<rparr>)
         else (None, (setStatus (pv_now env) ProxyStatusRunning (px_startHealthChecker p))\<lparr>px_op := NoOp\<rparr>))"

definition Resume :: "provider_env \<Rightarrow> Proxy \<Rightarrow> (proxy_error option) \<times> Proxy" where
  "Resume env p = (case resume_enter p of Inl e \<Rightarrow> (Some e, p) | Inr p \<Rightarrow> resume_finish env p)"

definition close_enter :: "int \<Rightarrow> Proxy \<Rightarrow> Proxy" where
  "close_enter now p = (setStatus now ProxyStatusStopping (p\<lparr>px_paused := False, px_closeOnce := True\<rparr>))\<lparr>px_op := Closing\<rparr>"

definition close_finish :: "int \<Rightarrow> Proxy \<Rightarrow> Proxy" where
  "close_finish now p =
     (let p = stopHealthChecker p;
          p = p\<lparr>px_cancelled := True, px_logBuffer := Option.bind (px_logBuffer p) lb_Close\<rparr>;
          p = (closePortsKeepMap p)\<lparr>px_providerClosed := True, px_eventsDone := True\<rparr>
      in (setStatus now ProxyStatusStopped p)\<lparr>px_op := NoOp\<rparr>)"

text \<open>\<^verbatim>\<open>closeOnce\<close>: only the first call runs the teardown.\<close>

definition px_Close :: "int \<Rightarrow> Proxy \<Rightarrow> Proxy" where
  "px_Close now p = (if px_closeOnce p then p else close_finish now (close_enter now p))"

section \<open>Getters and setters\<close>

definition px_GetURL :: "provider_env \<Rightarrow> Proxy \<Rightarrow> string" where
  "px_GetURL env p =
     (if cfg_Domain (px_Config p) \<noteq> [] \<and> px_tlsStatus p = StatusActive
      then ''https://'' @ cfg_Domain (px_Config p) else pv_URL env)"

definition SetDomainError :: "string \<Rightarrow> Proxy \<Rightarrow> Proxy" where
  "SetDomainError msg p = p\<lparr>px_domainError := msg\<rparr>"

definition setDNSStatus :: "lc_Status \<Rightarrow> Proxy \<Rightarrow> Proxy" where
  "setDNSStatus s p = p\<lparr>px_dnsStatus := s\<rparr>"

definition setTLSStatus :: "lc_Status \<Rightarrow> Proxy \<Rightarrow> Proxy" where
  "setTLSStatus s p = p\<lparr>px_tlsStatus := s\<rparr>"

definition SetDNSAndTLSProviders :: "DNSProvider \<Rightarrow> TLSProvider \<Rightarrow> Proxy \<Rightarrow> Proxy" where
  "SetDNSAndTLSProviders dns tls p = p\<lparr>px_dnsProvider := Some dns, px_tlsProvider := Some tls\<rparr>"

definition SubscribeLogs :: "Proxy \<Rightarrow> (string list \<times> nat) option \<times> Proxy" where
  "SubscribeLogs p =
     (case px_logBuffer p of
        None \<Rightarrow> (None, p)
      | Some b \<Rightarrow> (let (r, b) = SubscribeWithSnapshot b in (Some r, p\<lparr>px_logBuffer := Some b\<rparr>)))"

text \<open>
  The certificate of a custom domain: the TLS provider's when it is active and has one,
  else the one of the Tailscale node (both are answers of code outside this component).
\<close>

definition customCertificate :: "Proxy \<Rightarrow> 'cert option \<Rightarrow> (string + 'cert) \<Rightarrow> (string + 'cert)" where
  "customCertificate p providerCert tailscaleCert =
     (if px_tlsStatus p = StatusActive then
        (case providerCert of Some c \<Rightarrow> Inr c | None \<Rightarrow> tailscaleCert)
      else tailscaleCert)"

definition trim_prefix :: "string \<Rightarrow> string \<Rightarrow> string" where
  "trim_prefix pre s = (if has_prefix s pre then drop (length pre) s else s)"

text \<open>
  \<open>lc\<close> is the local client of the provider: \<open>None\<close> when the provider has no such method,
  \<open>Some None\<close> when it is nil; \<open>certPair\<close> fetches the pair of a host name.
\<close>

definition getTailscaleCertificate ::
  "provider_env \<Rightarrow> 'lc option option \<Rightarrow> ('lc \<Rightarrow> string \<Rightarrow> string + 'cert) \<Rightarrow> string + 'cert" where
  "getTailscaleCertificate env lc certPair =
     (case lc of
        None \<Rightarrow> Inl ''tailscale cert not available: provider does not support GetLocalClient''
      | Some None \<Rightarrow> Inl ''tailscale local client not available''
      | Some (Some c) \<Rightarrow>
          (let hostname = trim_prefix ''http://'' (trim_prefix ''https://'' (pv_URL env))
           in if hostname = [] then Inl ''tailscale hostname not yet available'' else certPair c hostname))"

section \<open>Steps\<close>

inductive px_step :: "Proxy \<Rightarrow> Proxy \<Rightarrow> bool" where
  PxStart: "px_op p = NoOp \<Longrightarrow> Start env p = (e, p') \<Longrightarrow> px_step p p'"
| PxEvent: "\<not> px_eventsDone p \<Longrightarrow> px_step p (provider_event env ev p)"
| PxPortFailed: "px_step p (port_failed now p)"
| PxPauseEnter: "px_op p = NoOp \<Longrightarrow> pause_enter p = Inr p' \<Longrightarrow> px_step p p'"
| PxPauseFinish: "px_op p = Pausing \<Longrightarrow> px_step p (pause_finish now p)"
| PxResumeEnter: "px_op p = NoOp \<Longrightarrow> resume_enter p = Inr p' \<Longrightarrow> px_step p p'"
| PxResumeFinish: "px_op p = Resuming \<Longrightarrow> resume_finish env p = (e, p') \<Longrightarrow> px_step p p'"
| PxCloseEnter: "px_op p = NoOp \<Longrightarrow> \<not> px_closeOnce p \<Longrightarrow> px_step p (close_enter now p)"
| PxCloseFinish: "px_op p = Closing \<Longrightarrow> px_step p (close_finish now p)"
| PxMetrics: "px_step p (setMetricsReady r p)"
| PxDNS: "px_step p (setDNSStatus s p)"
| PxTLS: "px_step p (setTLSStatus s p)"
| PxDomainError: "px_step p (SetDomainError m p)"
| PxProviders: "px_step p (SetDNSAndTLSProviders d t p)"

abbreviation px_init :: "Proxy \<Rightarrow> bool" where
  "px_init p \<equiv> \<exists>cfg m now. p = NewProxy cfg m now"

abbreviation px_reach :: "Proxy \<Rightarrow> bool" where
  "px_reach \<equiv> reach px_init px_step"

section \<open>The status history\<close>

text \<open>A list of events that leads from one status to another.\<close>

fun path :: "ProxyStatus \<Rightarrow> ProxyEvent list \<Rightarrow> ProxyStatus \<Rightarrow> bool" where
  "path s [] t = (s = t)"
| "path s (e # es) t = (ev_OldStatus e = s \<and> ev_Status e \<noteq> s \<and> path (ev_Status e) es t)"

definition stat_inv :: "Proxy \<Rightarrow> bool" where
  "stat_inv p \<longleftrightarrow> path ProxyStatusInitializing (px_updates p) (px_status p) \<and>
     map tr_Status (px_statusHistory p) = keep_last maxStatusHistory (map ev_Status (px_updates p))"

definition op_inv :: "Proxy \<Rightarrow> bool" where
  "op_inv p \<longleftrightarrow> (px_op p = Pausing \<longrightarrow> px_paused p) \<and> (px_op p = Resuming \<longrightarrow> \<not> px_paused p) \<and>
     (px_op p = Closing \<longrightarrow> \<not> px_paused p)"

definition px_inv :: "Proxy \<Rightarrow> bool" where
  "px_inv p \<longleftrightarrow> stat_inv p \<and> op_inv p"

lemma path_snoc: "path s (es @ [e]) t \<longleftrightarrow> (\<exists>u. path s es u \<and> ev_OldStatus e = u \<and> ev_Status e \<noteq> u \<and> ev_Status e = t)"
  by (induction es arbitrary: s) auto

lemma keep_last_length: "length (keep_last n xs) \<le> n"
  by (simp add: keep_last_def)

lemma keep_last_snoc: "keep_last n (keep_last n xs @ [x]) = keep_last n (xs @ [x])"
  by (cases "length xs \<le> n") (simp_all add: keep_last_def Suc_diff_le)

lemma keep_last_map: "map f (keep_last n xs) = keep_last n (map f xs)"
  by (simp add: keep_last_def drop_map)

lemma setStatus_stat: "stat_inv p \<Longrightarrow> stat_inv (setStatus now s p)"
  using keep_last_snoc [of maxStatusHistory "map ev_Status (px_updates p)"]
  by (auto simp: stat_inv_def setStatus_def path_snoc keep_last_map)

lemma setStatus_keeps [simp]:
  "px_paused (setStatus now s p) = px_paused p" "px_op (setStatus now s p) = px_op p"
  "px_ports (setStatus now s p) = px_ports p" "px_Config (setStatus now s p) = px_Config p"
  "px_cancelled (setStatus now s p) = px_cancelled p" "px_eventsDone (setStatus now s p) = px_eventsDone p"
  "px_closeOnce (setStatus now s p) = px_closeOnce p" "px_healthRunning (setStatus now s p) = px_healthRunning p"
  "px_health (setStatus now s p) = px_health p" "px_providerClosed (setStatus now s p) = px_providerClosed p"
  "px_logBuffer (setStatus now s p) = px_logBuffer p" "px_tlsProvider (setStatus now s p) = px_tlsProvider p"
  by (simp_all add: setStatus_def)

lemma setStatus_status:
  "px_status (setStatus now s p) = (if px_paused p \<and> s \<noteq> ProxyStatusPaused then px_status p else s)"
  by (simp add: setStatus_def)

lemma stat_inv_update [simp]:
  "stat_inv (p\<lparr>px_paused := a\<rparr>) = stat_inv p" "stat_inv (p\<lparr>px_op := b\<rparr>) = stat_inv p"
  "stat_inv (p\<lparr>px_ports := c\<rparr>) = stat_inv p" "stat_inv (p\<lparr>px_lastError := d\<rparr>) = stat_inv p"
  "stat_inv (p\<lparr>px_metrics := e\<rparr>) = stat_inv p" "stat_inv (p\<lparr>px_closeOnce := f\<rparr>) = stat_inv p"
  "stat_inv (p\<lparr>px_urlReady := g\<rparr>) = stat_inv p" "stat_inv (p\<lparr>px_healthRunning := h\<rparr>) = stat_inv p"
  "stat_inv (p\<lparr>px_health := i\<rparr>) = stat_inv p" "stat_inv (p\<lparr>px_healthPortName := j\<rparr>) = stat_inv p"
  "stat_inv (p\<lparr>px_cancelled := k\<rparr>) = stat_inv p" "stat_inv (p\<lparr>px_logBuffer := l\<rparr>) = stat_inv p"
  "stat_inv (p\<lparr>px_providerClosed := m\<rparr>) = stat_inv p" "stat_inv (p\<lparr>px_eventsDone := n\<rparr>) = stat_inv p"
  "stat_inv (p\<lparr>px_metricsReady := q\<rparr>) = stat_inv p" "stat_inv (p\<lparr>px_dnsStatus := r\<rparr>) = stat_inv p"
  "stat_inv (p\<lparr>px_tlsStatus := s\<rparr>) = stat_inv p" "stat_inv (p\<lparr>px_domainError := t\<rparr>) = stat_inv p"
  "stat_inv (p\<lparr>px_providerStarted := u\<rparr>) = stat_inv p"
  "stat_inv (p\<lparr>px_dnsProvider := v\<rparr>) = stat_inv p" "stat_inv (p\<lparr>px_tlsProvider := w\<rparr>) = stat_inv p"
  by (simp_all add: stat_inv_def)

section \<open>What the port loops change\<close>

definition same_but_ports :: "Proxy \<Rightarrow> Proxy \<Rightarrow> bool" where
  "same_but_ports p q \<longleftrightarrow> q = p\<lparr>px_ports := px_ports q\<rparr>"

lemma same_but_ports_trans: "same_but_ports p q \<Longrightarrow> same_but_ports q r \<Longrightarrow> same_but_ports p r"
  by (cases p; cases q; cases r) (simp add: same_but_ports_def)

lemma same_but_ports_upd [simp, intro]: "same_but_ports p p" "same_but_ports p (p\<lparr>px_ports := m\<rparr>)"
  by (simp_all add: same_but_ports_def)

lemma same_but_portsD:
  assumes "same_but_ports p q"
  shows "px_Config q = px_Config p" "px_status q = px_status p" "px_paused q = px_paused p" "px_op q = px_op p"
    "px_tlsProvider q = px_tlsProvider p" "stat_inv q = stat_inv p" "px_eventsDone q = px_eventsDone p"
    "px_closeOnce q = px_closeOnce p" "px_cancelled q = px_cancelled p"
proof -
  obtain m where "q = p\<lparr>px_ports := m\<rparr>" using assms unfolding same_but_ports_def by blast
  then show "px_Config q = px_Config p" "px_status q = px_status p" "px_paused q = px_paused p" "px_op q = px_op p"
    "px_tlsProvider q = px_tlsProvider p" "stat_inv q = stat_inv p" "px_eventsDone q = px_eventsDone p"
    "px_closeOnce q = px_closeOnce p" "px_cancelled q = px_cancelled p"
    by simp_all
qed

lemma listen_one_same: "same_but_ports p (snd (listen_one env kp (n, p)))"
  by (auto simp: listen_one_def startPort_def startPacketPort_def split: prod.splits option.splits sum.splits)

lemma listen_fold_same: "same_but_ports (snd st) (snd (fold (listen_one env) kps st))"
proof (induction kps arbitrary: st)
  case (Cons kp kps)
  have "same_but_ports (snd st) (snd (listen_one env kp st))"
    using listen_one_same [of "snd st" env kp "fst st"] by simp
  with Cons.IH [of "listen_one env kp st"] show ?case by (auto intro: same_but_ports_trans)
qed simp

lemma listen_all_same: "listen_all env p = (n, q) \<Longrightarrow> same_but_ports p q"
  using listen_fold_same [of "(0, p)" env] by (metis listen_all_def snd_conv)

lemma initPorts_same: "same_but_ports p (initPorts p)"
  by (simp add: initPorts_def)

lemma health_keeps [simp]:
  "stat_inv (px_startHealthChecker p) = stat_inv p" "stat_inv (stopHealthChecker p) = stat_inv p"
  "px_paused (px_startHealthChecker p) = px_paused p" "px_paused (stopHealthChecker p) = px_paused p"
  "px_op (px_startHealthChecker p) = px_op p" "px_op (stopHealthChecker p) = px_op p"
  "px_ports (px_startHealthChecker p) = px_ports p" "px_Config (px_startHealthChecker p) = px_Config p"
  "px_status (px_startHealthChecker p) = px_status p" "px_tlsProvider (px_startHealthChecker p) = px_tlsProvider p"
  by (auto simp: px_startHealthChecker_def stopHealthChecker_def split: option.splits prod.splits)

section \<open>Every step keeps the invariant\<close>

lemma Start_effect:
  assumes "Start env p = (e, q)"
  shows "stat_inv q = stat_inv p" "px_paused q = px_paused p" "px_op q = px_op p" "px_status q = px_status p"
proof -
  have "stat_inv q = stat_inv p \<and> px_paused q = px_paused p \<and> px_op q = px_op p \<and> px_status q = px_status p"
  proof (cases "fst (startProvider env p) = None")
    case False
    with assms show ?thesis
      by (auto simp: Start_def startProvider_def split: if_splits option.splits)
  next
    case True
    let ?p = "px_startHealthChecker (p\<lparr>px_providerStarted := True\<rparr>)"
    from True have "startProvider env p = (None, p\<lparr>px_providerStarted := True\<rparr>)"
      by (auto simp: startProvider_def split: if_splits option.splits)
    with assms have "snd (listen_all env ?p) = q"
      by (auto simp: Start_def startListeners_def split: prod.splits if_splits)
    then have "same_but_ports ?p q" using listen_all_same by (metis prod.collapse)
    from same_but_portsD [OF this] show ?thesis by simp
  qed
  then show "stat_inv q = stat_inv p" "px_paused q = px_paused p" "px_op q = px_op p" "px_status q = px_status p"
    by simp_all
qed

lemma resume_finish_cases:
  assumes "resume_finish env p = (e, q)"
  obtains n r where "listen_all env (initPorts p) = (n, r)" "same_but_ports p r" "0 < n" "n = length (cfg_Ports (px_Config p))"
      "e = Some (ResumeFailed n)" "q = (setStatus (pv_now env) ProxyStatusError (r\<lparr>px_paused := True\<rparr>))\<lparr>px_op := NoOp\<rparr>"
  | n r where "listen_all env (initPorts p) = (n, r)" "same_but_ports p r" "\<not> (0 < n \<and> n = length (cfg_Ports (px_Config p)))"
      "e = None" "q = (setStatus (pv_now env) ProxyStatusRunning (px_startHealthChecker r))\<lparr>px_op := NoOp\<rparr>"
proof -
  obtain n r where nr: "listen_all env (initPorts p) = (n, r)" by (cases "listen_all env (initPorts p)")
  have same: "same_but_ports p r"
    using listen_all_same [OF nr] initPorts_same [of p] by (rule same_but_ports_trans [rotated])
  note cfg = same_but_portsD(1) [OF same]
  show thesis
    using that nr same assms cfg by (cases "0 < n \<and> n = length (cfg_Ports (px_Config p))") (auto simp: resume_finish_def)
qed

lemma px_step_inv:
  assumes "px_inv p" "px_step p q"
  shows "px_inv q"
  using assms(2,1)
proof (cases rule: px_step.cases)
  case (PxStart env e)
  then show ?thesis using assms(1) Start_effect [OF PxStart(2)] by (simp add: px_inv_def op_inv_def)
next
  case (PxEvent env ev)
  then show ?thesis
    using assms(1) by (auto simp: px_inv_def op_inv_def provider_event_def notifyURLReady_def setStatus_stat)
next
  case (PxResumeFinish env e)
  from PxResumeFinish(2) assms(1) show ?thesis
    by (cases rule: resume_finish_cases)
      (auto simp: px_inv_def op_inv_def setStatus_stat dest: same_but_portsD(6))
qed (use assms(1) in \<open>auto simp: px_inv_def op_inv_def port_failed_def setStatus_stat pause_enter_def pause_finish_def
  resume_enter_def close_enter_def close_finish_def closeAndClearPorts_def closePortsKeepMap_def setMetricsReady_def
  setDNSStatus_def setTLSStatus_def SetDomainError_def SetDNSAndTLSProviders_def Let_def split: if_splits\<close>)

interpretation px: invariant_system px_init px_step px_inv
proof
  show "px_inv p" if "px_init p" for p
    using that same_but_portsD(6) [OF initPorts_same] same_but_portsD(3,4) [OF initPorts_same]
    by (auto simp: px_inv_def op_inv_def NewProxy_def stat_inv_def keep_last_def initPorts_def)
qed (rule px_step_inv)

end
