(* ===== verification/Proxy_Lifecycle.thy ===== *)
theory Proxy_Lifecycle
  imports Proxy
begin

text \<open>
  What the lifecycle of a proxy guarantees: the path of its published statuses, the
  meaning of a pause, which listeners run after a start or a resume, and the state a
  close leaves behind.
\<close>

section \<open>Properties of the status machine\<close>


text \<open>
  While a proxy is paused nothing but the end of the pause itself changes its status: any
  step that leaves it paused leaves the status as it is or sets it to Paused, whatever
  the provider reports and however its ports fail.
\<close>

theorem paused_status_frozen:
  assumes "px_reach p" "px_step p q" "px_paused p" "px_paused q"
  shows "px_status q = px_status p \<or> px_status q = ProxyStatusPaused"
  using assms(2)
proof (cases rule: px_step.cases)
  case (PxStart env e)
  then show ?thesis using Start_effect [OF PxStart(2)] by simp
next
  case (PxResumeFinish env e)
  then show ?thesis using px.reach_inv [OF assms(1)] assms(3) by (simp add: px_inv_def op_inv_def)
qed (use assms(3,4) in \<open>auto simp: setStatus_status provider_event_def notifyURLReady_def port_failed_def pause_enter_def
    pause_finish_def resume_enter_def close_enter_def closePortsKeepMap_def closeAndClearPorts_def stopHealthChecker_def
    setMetricsReady_def setDNSStatus_def setTLSStatus_def SetDomainError_def SetDNSAndTLSProviders_def close_finish_def Let_def
    split: if_splits option.splits\<close>)

text \<open>
  When every listener of a paused proxy fails, \<^verbatim>\<open>Resume\<close> returns an error and pauses the
  proxy again, and although the code sets the status to Error at that point the status
  never becomes Error: the paused flag set just before blocks the update.
\<close>

theorem Resume_failure_status:
  assumes "px_paused p" "px_status p \<noteq> ProxyStatusError" and "Resume env p = (Some (ResumeFailed n), q)"
  shows "px_paused q \<and> px_status q = px_status p"
proof -
  from assms have "resume_finish env (p\<lparr>px_paused := False, px_op := Resuming\<rparr>) = (Some (ResumeFailed n), q)"
    by (simp add: Resume_def resume_enter_def)
  then show ?thesis
  proof (cases rule: resume_finish_cases)
    case (1 m r)
    from same_but_portsD(2) [OF 1(2)] 1 show ?thesis by (simp add: setStatus_status)
  qed simp
qed

section \<open>Listeners\<close>

definition can_listen :: "provider_env \<Rightarrow> Proxy \<Rightarrow> string \<times> PortConfig \<Rightarrow> bool" where
  "can_listen env p kp \<longleftrightarrow>
     (let (k, pc) = kp in if pc_ProxyProtocol pc = ProtoUDP then pv_GetPacketConn env k
                          else \<not> isl (getListenerForPort env p k pc))"

lemma getListener_same: "same_but_ports p q \<Longrightarrow> getListenerForPort env q k pc = getListenerForPort env p k pc"
  using same_but_portsD(1,5) [of p q] by (simp add: getListenerForPort_def)

lemma can_listen_same: "same_but_ports p q \<Longrightarrow> can_listen env q kp = can_listen env p kp"
  using getListener_same [of p q env] by (simp add: can_listen_def split: prod.splits)

lemma listen_one_errs: "fst (listen_one env kp (n, p)) = n + (if can_listen env p kp then 0 else 1)"
  by (auto simp: listen_one_def can_listen_def split: prod.splits sum.splits)

lemma listen_one_get:
  "gm_get (px_ports (snd (listen_one env (k, pc) (n, p)))) k' =
    (case gm_get (px_ports p) k' of
       None \<Rightarrow> None
     | Some h \<Rightarrow> Some (if k' = k \<and> can_listen env p (k, pc) \<and> (pc_ProxyProtocol pc = ProtoUDP \<longrightarrow> ph_kind h = PortUDP)
                    then h\<lparr>ph_listener := Some (if pc_ProxyProtocol pc = ProtoUDP then PacketConn k
                            else projr (getListenerForPort env p k pc))\<rparr>
                    else h))"
  by (auto simp: listen_one_def can_listen_def startPort_def startPacketPort_def split: option.splits sum.splits)

lemma listen_fold_spec:
  assumes "gm_wf kps"
  shows "fst (fold (listen_one env) kps (n, p)) = n + count_if (\<lambda>kp. \<not> can_listen env p kp) kps \<and>
    (\<forall>k. k \<notin> set (keys kps) \<longrightarrow> gm_get (px_ports (snd (fold (listen_one env) kps (n, p)))) k = gm_get (px_ports p) k) \<and>
    (\<forall>k pc h. (k, pc) \<in> set kps \<longrightarrow> gm_get (px_ports p) k = Some h \<longrightarrow>
       (\<exists>h'. gm_get (px_ports (snd (fold (listen_one env) kps (n, p)))) k = Some h' \<and> ph_kind h' = ph_kind h \<and>
          (can_listen env p (k, pc) \<and> (pc_ProxyProtocol pc = ProtoUDP \<longrightarrow> ph_kind h = PortUDP) \<longrightarrow> ph_listener h' \<noteq> None)))"
  using assms
proof (induction kps arbitrary: n p)
  case Nil
  then show ?case by simp
next
  case (Cons kp kps)
  obtain k0 pc0 where kp: "kp = (k0, pc0)" by (cases kp)
  obtain n1 p1 where st: "listen_one env kp (n, p) = (n1, p1)" by (cases "listen_one env kp (n, p)")
  have n1: "n1 = n + (if can_listen env p kp then 0 else 1)" using listen_one_errs [of env kp n p] st by simp
  have same: "same_but_ports p p1" using listen_one_same [of p env kp n] st by simp
  note get = listen_one_get [of env k0 pc0 n p, unfolded kp [symmetric] st snd_conv]
  have wf: "gm_wf kps" "k0 \<notin> set (keys kps)" using Cons.prems kp by (simp_all add: gm_wf_def)
  note IH = Cons.IH [OF wf(1), of n1 p1, unfolded can_listen_same [OF same]]
  show ?case
  proof (intro conjI allI impI)
    show "fst (fold (listen_one env) (kp # kps) (n, p)) = n + count_if (\<lambda>kp. \<not> can_listen env p kp) (kp # kps)"
      using IH n1 st by simp
    show "gm_get (px_ports (snd (fold (listen_one env) (kp # kps) (n, p)))) k = gm_get (px_ports p) k"
      if "k \<notin> set (keys (kp # kps))" for k
      using that IH get [of k] st kp by (auto split: option.splits)
    fix k pc h assume mem: "(k, pc) \<in> set (kp # kps)" and h: "gm_get (px_ports p) k = Some h"
    show "\<exists>h'. gm_get (px_ports (snd (fold (listen_one env) (kp # kps) (n, p)))) k = Some h' \<and> ph_kind h' = ph_kind h \<and>
          (can_listen env p (k, pc) \<and> (pc_ProxyProtocol pc = ProtoUDP \<longrightarrow> ph_kind h = PortUDP) \<longrightarrow> ph_listener h' \<noteq> None)"
    proof (cases "(k, pc) = kp")
      case True
      then have "k \<notin> set (keys kps)" using wf(2) kp by simp
      with IH st have "gm_get (px_ports (snd (fold (listen_one env) (kp # kps) (n, p)))) k = gm_get (px_ports p1) k" by simp
      with get [of k] h True kp show ?thesis by auto
    next
      case False
      with mem have mem': "(k, pc) \<in> set kps" by simp
      then have "k \<noteq> k0" using wf(2) by force
      with get [of k] h have "gm_get (px_ports p1) k = Some h" by simp
      with IH mem' st show ?thesis by simp
    qed
  qed
qed

lemma fold_put_get:
  "gm_wf xs \<Longrightarrow> gm_get (fold (\<lambda>(k, v) m. gm_put k (f v) m) xs m) k =
     (case gm_get xs k of Some v \<Rightarrow> Some (f v) | None \<Rightarrow> gm_get m k)"
proof (induction xs arbitrary: m)
  case (Cons x xs)
  obtain k0 v0 where x: "x = (k0, v0)" by (cases x)
  with Cons.prems have wf: "gm_wf xs" "k0 \<notin> set (keys xs)" by (simp_all add: gm_wf_def)
  then have "gm_get xs k0 = None" by (simp add: gm_get_None_iff)
  with Cons.IH [OF wf(1)] x show ?case by (auto split: option.splits)
qed simp

definition fresh_handler :: "PortConfig \<Rightarrow> portHandler" where
  "fresh_handler v = \<lparr>ph_kind = handler_kind v, ph_listener = None, ph_closed = False\<rparr>"

lemma initPorts_get:
  "gm_wf (cfg_Ports (px_Config p)) \<Longrightarrow> gm_get (px_ports (initPorts p)) k =
     (case gm_get (cfg_Ports (px_Config p)) k of Some v \<Rightarrow> Some (fresh_handler v) | None \<Rightarrow> gm_get (px_ports p) k)"
  using fold_put_get [of "cfg_Ports (px_Config p)" fresh_handler "px_ports p" k]
  by (simp add: initPorts_def fresh_handler_def)

text \<open>What the listener loop does on freshly initialised ports.\<close>

definition listening_as_configured :: "provider_env \<Rightarrow> Proxy \<Rightarrow> Proxy \<Rightarrow> bool" where
  "listening_as_configured env p q \<longleftrightarrow>
     (\<forall>(k, pc) \<in> set (cfg_Ports (px_Config p)). \<exists>h. gm_get (px_ports q) k = Some h \<and> ph_kind h = handler_kind pc \<and>
        (can_listen env p (k, pc) \<and> (pc_ProxyProtocol pc = ProtoUDP \<longrightarrow> \<not> pc_IsRedirect pc) \<longrightarrow> ph_listener h \<noteq> None))"

lemma listen_all_fresh:
  assumes wf: "gm_wf (cfg_Ports (px_Config p))" and fresh: "\<And>k. gm_get (px_ports p) k = map_option fresh_handler (gm_get (cfg_Ports (px_Config p)) k)"
    and la: "listen_all env p = (n, q)"
  shows "n = count_if (\<lambda>kp. \<not> can_listen env p kp) (cfg_Ports (px_Config p))" "listening_as_configured env p q"
proof -
  note L = listen_fold_spec [OF wf, of env 0 p, folded listen_all_def, unfolded la fst_conv snd_conv]
  from L show "n = count_if (\<lambda>kp. \<not> can_listen env p kp) (cfg_Ports (px_Config p))" by simp
  show "listening_as_configured env p q"
    unfolding listening_as_configured_def
  proof safe
    fix k pc assume mem: "(k, pc) \<in> set (cfg_Ports (px_Config p))"
    then have h: "gm_get (px_ports p) k = Some (fresh_handler pc)" using wf by (simp add: fresh gm_in_get)
    with L mem obtain h' where "gm_get (px_ports q) k = Some h'" "ph_kind h' = handler_kind pc"
      "can_listen env p (k, pc) \<and> (pc_ProxyProtocol pc = ProtoUDP \<longrightarrow> handler_kind pc = PortUDP) \<longrightarrow> ph_listener h' \<noteq> None"
      by (force simp: fresh_handler_def)
    then show "\<exists>h. gm_get (px_ports q) k = Some h \<and> ph_kind h = handler_kind pc \<and>
        (can_listen env p (k, pc) \<and> (pc_ProxyProtocol pc = ProtoUDP \<longrightarrow> \<not> pc_IsRedirect pc) \<longrightarrow> ph_listener h \<noteq> None)"
      by (intro exI [of _ h']) (auto simp: handler_kind_def)
  qed
qed

lemma count_all: "count_if (\<lambda>x. \<not> P x) xs = length xs \<longleftrightarrow> \<not> list_ex P xs"
  using length_filter_le [of _ xs] by (induction xs) (auto simp: count_if_def le_imp_less_Suc less_imp_neq)

text \<open>
  Starting a new proxy whose provider starts succeeds iff at least one of its ports can be
  listened on; otherwise it fails with the error that counts them all. Either way every
  configured port has a handler of the kind its configuration asks for, and every port
  for which the provider gives a listener is listening.
\<close>

theorem Start_new_proxy:
  assumes wf: "gm_wf (cfg_Ports cfg)" and ne: "cfg_Ports cfg \<noteq> []" and prov: "pv_Start env = None"
    and st: "Start env (NewProxy cfg m now) = (e, q)"
  shows "e = (if list_ex (can_listen env (NewProxy cfg m now)) (cfg_Ports cfg) then None
              else Some (AllListenersFailed (length (cfg_Ports cfg)))) \<and>
    listening_as_configured env (NewProxy cfg m now) q"
proof -
  let ?n = "NewProxy cfg m now"
  let ?p = "px_startHealthChecker (?n\<lparr>px_providerStarted := True\<rparr>)"
  have cfg: "px_Config ?n = cfg" using same_but_portsD(1) [OF initPorts_same] by (simp add: NewProxy_def)
  have get: "gm_get (px_ports ?n) k = map_option fresh_handler (gm_get (cfg_Ports cfg) k)" for k
    using wf by (simp add: NewProxy_def initPorts_get split: option.split)
  have "px_ports ?n \<noteq> []"
    using get [of "fst (hd (cfg_Ports cfg))"] ne by (cases "cfg_Ports cfg") auto
  then have sp: "startProvider env ?n = (None, ?n\<lparr>px_providerStarted := True\<rparr>)" using prov by (simp add: startProvider_def)
  obtain k r where la: "listen_all env ?p = (k, r)" by (cases "listen_all env ?p")
  have wf': "gm_wf (cfg_Ports (px_Config ?p))" and get': "gm_get (px_ports ?p) x = map_option fresh_handler (gm_get (cfg_Ports (px_Config ?p)) x)" for x
    using wf get cfg by simp_all
  have can: "can_listen env ?p kp = can_listen env ?n kp" for kp
    by (simp add: can_listen_def getListenerForPort_def split: prod.splits)
  note L = listen_all_fresh [OF wf' get' la]
  have q: "q = r" "e = (if k > 0 \<and> k = length (cfg_Ports (px_Config r)) then Some (AllListenersFailed k) else None)"
    using st sp la by (auto simp: Start_def startListeners_def split: if_splits)
  have rc: "px_Config r = cfg" using same_but_portsD(1) [OF listen_all_same [OF la]] cfg by simp
  have "k = length (cfg_Ports cfg) \<longleftrightarrow> \<not> list_ex (can_listen env ?n) (cfg_Ports cfg)"
    using L(1) count_all [of "can_listen env ?n" "cfg_Ports cfg"] cfg by (simp add: can)
  moreover have "0 < length (cfg_Ports cfg)" using ne by simp
  moreover have "listening_as_configured env ?n q"
    using L(2) q(1) by (simp add: listening_as_configured_def can)
  ultimately show ?thesis using q(2) rc by auto
qed

lemma Pause_state:
  assumes "Pause now p = Inr q"
  shows "px_paused q" "px_status q = ProxyStatusPaused" "px_ports q = []" "px_Config q = px_Config p" "px_op q = NoOp"
    "px_status p = ProxyStatusRunning" "\<not> px_paused p" "px_tlsProvider q = px_tlsProvider p" "px_closeOnce q = px_closeOnce p"
  using assms by (auto simp: Pause_def pause_enter_def pause_finish_def closeAndClearPorts_def setStatus_status Let_def
      stopHealthChecker_def split: if_splits sum.splits option.splits)

text \<open>
  C40: a pause followed by a resume brings a running proxy back: if some port can be listened
  on (or there is none), \<^verbatim>\<open>Resume\<close> succeeds, the proxy is Running and not paused, and every
  configured port has a fresh handler, listening where the provider gives a listener.
\<close>

theorem Pause_Resume_running:
  assumes wf: "gm_wf (cfg_Ports (px_Config p))" and pause: "Pause now p = Inr p1"
    and can: "list_ex (can_listen env p1) (cfg_Ports (px_Config p)) \<or> cfg_Ports (px_Config p) = []"
  shows "\<exists>p2. Resume env p1 = (None, p2) \<and> px_status p2 = ProxyStatusRunning \<and> \<not> px_paused p2 \<and>
    listening_as_configured env p1 p2"
proof -
  note P = Pause_state [OF pause]
  let ?p = "p1\<lparr>px_paused := False, px_op := Resuming\<rparr>"
  obtain e q where rf: "resume_finish env ?p = (e, q)" by (cases "resume_finish env ?p")
  obtain n r where la: "listen_all env (initPorts ?p) = (n, r)" by (cases "listen_all env (initPorts ?p)")
  have ci: "px_Config (initPorts ?p) = px_Config p" using same_but_portsD(1) [OF initPorts_same, of ?p] P(4) by simp
  have wf': "gm_wf (cfg_Ports (px_Config (initPorts ?p)))" using wf ci by simp
  have get: "gm_get (px_ports (initPorts ?p)) k = map_option fresh_handler (gm_get (cfg_Ports (px_Config (initPorts ?p))) k)" for k
    using wf P(3,4) ci by (simp add: initPorts_get split: option.split)
  have can': "can_listen env (initPorts ?p) kp = can_listen env p1 kp" for kp
    using can_listen_same [OF initPorts_same, of env ?p] by (simp add: can_listen_def getListenerForPort_def split: prod.splits)
  note L = listen_all_fresh [OF wf' get la]
  have "\<not> (0 < n \<and> n = length (cfg_Ports (px_Config p)))"
    using L(1) can count_all [of "can_listen env p1" "cfg_Ports (px_Config p)"] ci by (auto simp: can')
  with rf la P(4) have q: "e = None" "q = (setStatus (pv_now env) ProxyStatusRunning (px_startHealthChecker r))\<lparr>px_op := NoOp\<rparr>"
    using same_but_portsD(1) [OF listen_all_same [OF la]] ci by (auto simp: resume_finish_def)
  have "\<not> px_paused r" using same_but_portsD(3) [OF listen_all_same [OF la]] same_but_portsD(3) [OF initPorts_same, of ?p] by simp
  then have "px_status q = ProxyStatusRunning" "\<not> px_paused q" using q(2) by (simp_all add: setStatus_status)
  moreover have "listening_as_configured env p1 q"
    using L(2) ci P(4) q(2) by (simp add: listening_as_configured_def can')
  moreover have "Resume env p1 = (None, q)" using P(1) rf q(1) by (simp add: Resume_def resume_enter_def)
  ultimately show ?thesis by blast
qed

text \<open>
  \<^verbatim>\<open>Close\<close> leaves a proxy stopped: not paused even if it was, status Stopped, context
  cancelled, provider and every port handler closed, health checks and event handling
  over; and a second \<^verbatim>\<open>Close\<close> changes nothing.
\<close>

theorem Close_final:
  assumes "\<not> px_closeOnce p"
  shows "px_status (px_Close now p) = ProxyStatusStopped \<and> \<not> px_paused (px_Close now p) \<and>
    px_cancelled (px_Close now p) \<and> px_providerClosed (px_Close now p) \<and> px_eventsDone (px_Close now p) \<and>
    (px_health (px_Close now p) \<noteq> None \<longrightarrow> \<not> px_healthRunning (px_Close now p)) \<and>
    keys (px_ports (px_Close now p)) = keys (px_ports p) \<and>
    list_all (\<lambda>(k, h). ph_closed h) (px_ports (px_Close now p)) \<and>
    px_Close later (px_Close now p) = px_Close now p"
proof -
  define p1 where "p1 = close_enter now p"
  have p1: "\<not> px_paused p1" "px_ports p1 = px_ports p" "px_closeOnce p1" by (simp_all add: p1_def close_enter_def)
  have c: "px_Close now p = close_finish now p1" using assms by (simp add: px_Close_def p1_def)
  have sh: "px_paused (stopHealthChecker p1) = px_paused p1" "px_ports (stopHealthChecker p1) = px_ports p1"
    "px_closeOnce (stopHealthChecker p1) = px_closeOnce p1"
    "px_health (stopHealthChecker p1) \<noteq> None \<longrightarrow> \<not> px_healthRunning (stopHealthChecker p1)"
    by (auto simp: stopHealthChecker_def split: option.splits)
  have "px_closeOnce (px_Close now p)" using c p1 sh by (simp add: close_finish_def closePortsKeepMap_def Let_def)
  then have "px_Close later (px_Close now p) = px_Close now p" by (simp add: px_Close_def)
  with c p1 sh show ?thesis
    by (auto simp: close_finish_def closePortsKeepMap_def setStatus_status list_all_iff Let_def)
qed

section \<open>Witnesses\<close>

definition one_port_cfg :: Config where
  "one_port_cfg = (example_cfg ''http://a:1'')\<lparr>cfg_Ports := [(''a'', example_port ''http://a:1'')]\<rparr>"

definition good_env :: provider_env where
  "good_env = \<lparr>pv_Start = None, pv_GetListener = (\<lambda>_. True), pv_GetPacketConn = (\<lambda>_. True), pv_RawTCP = None,
     pv_URL = [], pv_now = 1\<rparr>"

definition running_event :: ProxyEvent where
  "running_event = \<lparr>ev_ID = [], ev_Port = [], ev_AuthURL = [], ev_ErrorMessage = [], ev_Status = ProxyStatusRunning,
     ev_OldStatus = ProxyStatusStarting\<rparr>"

definition example_proxy :: Proxy where
  "example_proxy = provider_event good_env running_event (NewProxy one_port_cfg None 0)"

definition example_paused :: Proxy where
  "example_paused = projr (Pause 2 example_proxy)"

lemma example_cfg_wf: "gm_wf (cfg_Ports one_port_cfg)" "px_Config example_proxy = one_port_cfg" "cfg_Ports one_port_cfg \<noteq> []"
  by (simp_all add: one_port_cfg_def gm_wf_def example_proxy_def provider_event_def notifyURLReady_def NewProxy_def initPorts_def good_env_def)

lemma example_pause: "Pause 2 example_proxy = Inr example_paused"
proof -
  have "px_status example_proxy = ProxyStatusRunning" "\<not> px_paused example_proxy"
    by (simp_all add: example_proxy_def provider_event_def notifyURLReady_def NewProxy_def initPorts_def good_env_def
        setStatus_status running_event_def)
  then show ?thesis by (simp add: example_paused_def Pause_def pause_enter_def)
qed

lemma example_fields: "px_tlsProvider example_paused = None" "\<not> px_closeOnce example_paused"
  using Pause_state(8,9) [OF example_pause]
  by (simp_all add: example_proxy_def provider_event_def notifyURLReady_def NewProxy_def initPorts_def good_env_def)

lemma example_px_reach: "px_reach example_proxy"
proof -
  have "px_step (NewProxy one_port_cfg None 0) example_proxy"
    unfolding example_proxy_def by (rule PxEvent) (simp add: NewProxy_def initPorts_def)
  then show ?thesis by (blast intro: reach_init reach_step)
qed

lemma example_paused_reach: "px_reach example_paused"
proof -
  obtain p1 where e: "pause_enter example_proxy = Inr p1" and f: "example_paused = pause_finish 2 p1"
    using example_pause by (auto simp: Pause_def split: sum.splits)
  have "px_op example_proxy = NoOp" "px_op p1 = Pausing"
    using e by (auto simp: example_proxy_def provider_event_def notifyURLReady_def NewProxy_def initPorts_def good_env_def
        pause_enter_def split: if_splits)
  then have "px_step example_proxy p1" "px_step p1 example_paused"
    unfolding f using e by (auto intro: PxPauseEnter PxPauseFinish)
  then show ?thesis using example_px_reach by (blast intro: reach_step)
qed


theorem paused_status_frozen_witness:
  "px_status (port_failed 3 example_paused) = ProxyStatusPaused"
proof -
  note P = Pause_state [OF example_pause]
  have "px_paused (port_failed 3 example_paused)" using P(1) by (simp add: port_failed_def)
  from paused_status_frozen [OF example_paused_reach PxPortFailed P(1) this] P(2) show ?thesis by simp
qed

theorem Resume_failure_status_witness:
  "\<exists>q. Resume (good_env\<lparr>pv_GetListener := \<lambda>_. False\<rparr>) example_paused = (Some (ResumeFailed 1), q) \<and>
     px_paused q \<and> px_status q = ProxyStatusPaused"
proof -
  note P = Pause_state [OF example_pause]
  let ?env = "good_env\<lparr>pv_GetListener := \<lambda>_. False\<rparr>"
  note example_fields(1)
  moreover have "pc_ProxyProtocol (example_port ''http://a:1'') = ProtoHTTPS"
    by (simp add: example_port_def defaultPortConfig_def)
  ultimately obtain q where q: "Resume ?env example_paused = (Some (ResumeFailed 1), q)"
    using P(1,4) example_cfg_wf(2)
    by (simp add: Resume_def resume_enter_def resume_finish_def listen_all_def initPorts_def one_port_cfg_def
        listen_one_def getListenerForPort_def good_env_def)
  from Resume_failure_status [OF P(1) _ q] P(2) q show ?thesis by auto
qed

theorem Start_new_proxy_witness:
  "\<exists>e q. Start good_env (NewProxy one_port_cfg None 0) = (e, q) \<and>
     listening_as_configured good_env (NewProxy one_port_cfg None 0) q"
proof -
  obtain e q where s: "Start good_env (NewProxy one_port_cfg None 0) = (e, q)" by (metis prod.exhaust)
  have "pv_Start good_env = None" by (simp add: good_env_def)
  from Start_new_proxy [OF example_cfg_wf(1,3) this s] s show ?thesis by blast
qed

theorem Pause_Resume_running_witness:
  "\<exists>p2. Resume good_env example_paused = (None, p2) \<and> px_status p2 = ProxyStatusRunning \<and> \<not> px_paused p2"
proof -
  note tls = example_fields(1)
  have "list_ex (can_listen good_env example_paused) (cfg_Ports (px_Config example_proxy))"
    using example_cfg_wf(2) tls by (simp add: one_port_cfg_def can_listen_def getListenerForPort_def good_env_def Let_def)
  with Pause_Resume_running [of example_proxy 2 example_paused good_env] example_cfg_wf example_pause show ?thesis by auto
qed

theorem Close_final_witness:
  "px_status (px_Close 5 example_paused) = ProxyStatusStopped \<and> \<not> px_paused (px_Close 5 example_paused)"
  using Close_final [OF example_fields(2), of 5] by blast

end
