(* ===== verification/Domain_Setup.thy ===== *)
theory Domain_Setup
  imports Proxy_Lifecycle
begin

text \<open>
  Custom domains: \<^verbatim>\<open>src/internal/proxymanager/domain.go\<close>, the provider resolution of
  \<^verbatim>\<open>providers.go\<close>, the Tailscale TLS provider (\<^verbatim>\<open>src/internal/tlsproviders/tailscale\<close>) and
  the parts of \<^verbatim>\<open>src/internal/config/validator.go\<close> that guard them. The ACME provider wraps
  a package outside the sources: its constructor is a parameter. A dereference of a nil
  pointer is the result \<open>NilDeref\<close>.
\<close>

section \<open>Configuration\<close>

record DNSProviderConfig =
  dpc_Provider :: string
  dpc_APIToken :: string

record TLSProviderConfig =
  tpc_Provider :: string
  tpc_Email :: string

text \<open>The part of the configuration file that is about providers; \<open>None\<close> is a nil entry.\<close>

record domain_config =
  dc_DefaultDNSProvider :: string
  dc_DefaultTLSProvider :: string
  dc_DNSProviders :: "(string, DNSProviderConfig option) gomap"
  dc_TLSProviders :: "(string, TLSProviderConfig option) gomap"

abbreviation DNSProviderCloudflare :: string where "DNSProviderCloudflare \<equiv> ''cloudflare''"
abbreviation DNSProviderMagicDNS :: string where "DNSProviderMagicDNS \<equiv> ''magicdns''"
abbreviation TLSProviderACME :: string where "TLSProviderACME \<equiv> ''acme''"

datatype validation_error =
    DefaultDNSNotFound string
  | CloudflareNeedsToken string
  | UnknownDNSType string string
  | DefaultTLSNotFound string
  | ACMENeedsEmail string
  | ACMENeedsDNSProvider string
  | UnknownTLSType string string
  | DomainProviderError string string

fun dns_entries_check :: "(string, DNSProviderConfig option) gomap \<Rightarrow> validation_error option" where
  "dns_entries_check [] = None"
| "dns_entries_check ((name, cfg) # rest) =
     (case cfg of
        None \<Rightarrow> dns_entries_check rest
      | Some c \<Rightarrow>
          if dpc_Provider c = DNSProviderCloudflare then
            (if dpc_APIToken c = [] then Some (CloudflareNeedsToken name) else dns_entries_check rest)
          else if dpc_Provider c = DNSProviderMagicDNS then dns_entries_check rest
          else Some (UnknownDNSType name (dpc_Provider c)))"

definition validateDNSProviders :: "domain_config \<Rightarrow> validation_error option" where
  "validateDNSProviders c =
     (if dc_DefaultDNSProvider c \<noteq> [] \<and> gm_get (dc_DNSProviders c) (dc_DefaultDNSProvider c) = None
      then Some (DefaultDNSNotFound (dc_DefaultDNSProvider c))
      else dns_entries_check (dc_DNSProviders c))"

definition has_dns01 :: "domain_config \<Rightarrow> bool" where
  "has_dns01 c \<longleftrightarrow> list_ex (\<lambda>(_, d). case d of None \<Rightarrow> False | Some x \<Rightarrow> dpc_Provider x = DNSProviderCloudflare) (dc_DNSProviders c)"

fun tls_entries_check :: "domain_config \<Rightarrow> (string, TLSProviderConfig option) gomap \<Rightarrow> validation_error option" where
  "tls_entries_check c [] = None"
| "tls_entries_check c ((name, cfg) # rest) =
     (case cfg of
        None \<Rightarrow> tls_entries_check c rest
      | Some t \<Rightarrow>
          if tpc_Provider t = TLSProviderTailscale then tls_entries_check c rest
          else if tpc_Provider t = TLSProviderACME then
            (if tpc_Email t = [] then Some (ACMENeedsEmail name)
             else if dc_DefaultDNSProvider c = [] \<and> \<not> has_dns01 c then Some (ACMENeedsDNSProvider name)
             else tls_entries_check c rest)
          else Some (UnknownTLSType name (tpc_Provider t)))"

definition validateTLSProviders :: "domain_config \<Rightarrow> validation_error option" where
  "validateTLSProviders c =
     (if dc_DefaultTLSProvider c \<noteq> [] \<and> gm_get (dc_TLSProviders c) (dc_DefaultTLSProvider c) = None
      then Some (DefaultTLSNotFound (dc_DefaultTLSProvider c))
      else tls_entries_check c (dc_TLSProviders c))"

definition ValidateProxyConfig :: "string \<Rightarrow> string \<Rightarrow> string \<Rightarrow> string \<Rightarrow> string \<Rightarrow> validation_error option" where
  "ValidateProxyConfig domain dnsProvider tlsProvider defaultDNSProvider defaultTLSProvider =
     (if domain = [] then None
      else if dnsProvider = [] \<and> defaultDNSProvider = [] then Some (DomainProviderError domain ''DNS'')
      else if tlsProvider = [] \<and> defaultTLSProvider = [] then Some (DomainProviderError domain ''TLS'')
      else None)"

section \<open>The Tailscale TLS provider\<close>

definition has_suffix :: "string \<Rightarrow> string \<Rightarrow> bool" where
  "has_suffix s suf \<longleftrightarrow> has_prefix (rev s) (rev suf)"

definition isMagicDNSDomain :: "string \<Rightarrow> bool" where
  "isMagicDNSDomain domain = has_suffix (to_lower domain) ''.ts.net''"

text \<open>
  \<open>lc\<close> is the local client, whose \<^verbatim>\<open>CertPair\<close> answers a domain (\<open>None\<close> is success) and whose
  semaphore may refuse (\<open>sem\<close>).
\<close>

definition tailscale_tls :: "(string \<Rightarrow> string option) option \<Rightarrow> string option \<Rightarrow> TLSProvider" where
  "tailscale_tls lc sem =
     \<lparr>tlp_Name = TLSProviderTailscale,
      tlp_Provision = (\<lambda>domain.
        if \<not> isMagicDNSDomain domain then Some ''tailscale tls: domain is not a MagicDNS domain''
        else case lc of
               None \<Rightarrow> Some ''tailscale tls: local client is nil''
             | Some certPair \<Rightarrow> (case sem of Some e \<Rightarrow> Some e | None \<Rightarrow> certPair domain)),
      tlp_Cleanup = (\<lambda>_. None)\<rparr>"

section \<open>Resolution\<close>

datatype resolve_error =
    DNSProviderNotFound string
  | DefaultDNSProviderNotFound string
  | ErrNoDNSProvider
  | ErrNoTLSProvider
  | ACMERequiresDNS string
  | ACMEUnsupportedDNS string
  | ACMEFailed string
  | TLSProviderNotFound string
  | NilDeref

definition resolveTLSProviderName :: "domain_config \<Rightarrow> Config \<Rightarrow> string" where
  "resolveTLSProviderName c proxyCfg =
     (if cfg_TLSProvider proxyCfg = [] then dc_DefaultTLSProvider c else cfg_TLSProvider proxyCfg)"

definition resolveDNSProviderLocked ::
  "domain_config \<Rightarrow> (string, DNSProvider) gomap \<Rightarrow> Config \<Rightarrow> resolve_error + DNSProvider" where
  "resolveDNSProviderLocked c dnsProviders proxyCfg =
     (if cfg_DNSProvider proxyCfg \<noteq> [] then
        (case gm_get dnsProviders (cfg_DNSProvider proxyCfg) of
           None \<Rightarrow> Inl (DNSProviderNotFound (cfg_DNSProvider proxyCfg))
         | Some p \<Rightarrow> Inr p)
      else if dc_DefaultDNSProvider c \<noteq> [] then
        (case gm_get dnsProviders (dc_DefaultDNSProvider c) of
           None \<Rightarrow> Inl (DefaultDNSProviderNotFound (dc_DefaultDNSProvider c))
         | Some p \<Rightarrow> Inr p)
      else Inl ErrNoDNSProvider)"

type_synonym acme_ctor = "TLSProviderConfig \<Rightarrow> DNSProvider \<Rightarrow> string + TLSProvider"

definition acme_provider :: "acme_ctor \<Rightarrow> string \<Rightarrow> TLSProviderConfig \<Rightarrow> DNSProvider option \<Rightarrow> resolve_error + TLSProvider" where
  "acme_provider newACME name tlsCfg dnsProvider =
     (case dnsProvider of
        None \<Rightarrow> Inl (ACMERequiresDNS name)
      | Some d \<Rightarrow>
          if \<not> dp_acme d then Inl (ACMEUnsupportedDNS (dp_Name d))
          else case newACME tlsCfg d of Inl e \<Rightarrow> Inl (ACMEFailed e) | Inr p \<Rightarrow> Inr p)"

definition resolveTLSProviderLocked ::
  "acme_ctor \<Rightarrow> domain_config \<Rightarrow> (string, TLSProvider) gomap \<Rightarrow> Config \<Rightarrow> DNSProvider option \<Rightarrow> resolve_error + TLSProvider" where
  "resolveTLSProviderLocked newACME c tlsProviders proxyCfg dnsProvider =
     (let name = resolveTLSProviderName c proxyCfg;
          registered = (case gm_get tlsProviders name of None \<Rightarrow> Inl (TLSProviderNotFound name) | Some p \<Rightarrow> Inr p)
      in if name = [] then Inl ErrNoTLSProvider
         else if name = TLSProviderTailscale then Inr (tailscale_tls None None)
         else case gm_get (dc_TLSProviders c) name of
                None \<Rightarrow> registered
              | Some None \<Rightarrow> Inl NilDeref
              | Some (Some tlsCfg) \<Rightarrow>
                  if tpc_Provider tlsCfg = TLSProviderTailscale then Inr (tailscale_tls None None)
                  else if tpc_Provider tlsCfg = TLSProviderACME then acme_provider newACME name tlsCfg dnsProvider
                  else registered)"

record provider_tables =
  pt_cfg :: domain_config
  pt_DNS :: "(string, DNSProvider) gomap"
  pt_TLS :: "(string, TLSProvider) gomap"

definition resolveAndSetProviders :: "acme_ctor \<Rightarrow> provider_tables \<Rightarrow> Config \<Rightarrow> Proxy \<Rightarrow> resolve_error + Proxy" where
  "resolveAndSetProviders newACME t proxyCfg p =
     (case resolveDNSProviderLocked (pt_cfg t) (pt_DNS t) proxyCfg of
        Inl e \<Rightarrow> Inl e
      | Inr dns \<Rightarrow>
          (case resolveTLSProviderLocked newACME (pt_cfg t) (pt_TLS t) proxyCfg (Some dns) of
             Inl e \<Rightarrow> Inl e
           | Inr tls \<Rightarrow> Inr (SetDNSAndTLSProviders dns tls p)))"

text \<open>\<open>None\<close> is a nil dereference; otherwise whether to skip the asynchronous part.\<close>

definition prepareDomainSetup :: "acme_ctor \<Rightarrow> provider_tables \<Rightarrow> Config \<Rightarrow> Proxy \<Rightarrow> (bool \<times> Proxy) option" where
  "prepareDomainSetup newACME t proxyCfg p =
     (case ValidateProxyConfig (cfg_Domain proxyCfg) (cfg_DNSProvider proxyCfg) (cfg_TLSProvider proxyCfg)
             (dc_DefaultDNSProvider (pt_cfg t)) (dc_DefaultTLSProvider (pt_cfg t)) of
        Some _ \<Rightarrow> Some (True, p)
      | None \<Rightarrow>
          (case resolveAndSetProviders newACME t proxyCfg p of
             Inl NilDeref \<Rightarrow> None
           | Inl _ \<Rightarrow> Some (True, p)
           | Inr p \<Rightarrow> Some (px_tlsProvider p = None, p)))"

definition magic_provider_entry :: "string \<times> DNSProviderConfig option \<Rightarrow> (DNSProviderConfig \<Rightarrow> DNSProvider) \<Rightarrow> (string, DNSProvider) gomap \<Rightarrow> (string, DNSProvider) gomap" where
  "magic_provider_entry nc cloudflare m =
     (let (name, cfg) = nc
      in case cfg of
           None \<Rightarrow> m
         | Some c \<Rightarrow>
             if dpc_Provider c = DNSProviderCloudflare then
               (if dpc_APIToken c = [] then m else gm_put name (cloudflare c) m)
             else if dpc_Provider c = DNSProviderMagicDNS then gm_put name magicdns m
             else m)"

text \<open>\<open>cloudflare\<close> is the constructor of the Cloudflare provider.\<close>

definition addDNSProviders :: "(DNSProviderConfig \<Rightarrow> DNSProvider) \<Rightarrow> domain_config \<Rightarrow> (string, DNSProvider) gomap" where
  "addDNSProviders cloudflare c = fold (\<lambda>nc. magic_provider_entry nc cloudflare) (dc_DNSProviders c) []"

section \<open>Setup\<close>

definition extractHost :: "string \<Rightarrow> string + string" where
  "extractHost rawURL =
     (if rawURL = [] then Inl ''empty URL''
      else case url_parse rawURL of
             None \<Rightarrow> Inl ''parsing URL''
           | Some u \<Rightarrow> if u_host u = [] then Inl ''URL has no host'' else Inr (u_host u))"

text \<open>
  What \<^verbatim>\<open>waitForProxyURL\<close> sees: each case of its \<^verbatim>\<open>select\<close> with the provider's URL at that
  moment; when nothing more happens the timer fires.
\<close>

datatype url_wait = UrlReady string | Tick string | CtxDone string

fun wait_loop :: "url_wait list \<Rightarrow> string + string" where
  "wait_loop [] = Inl ''timeout waiting for proxy URL to become available''"
| "wait_loop (UrlReady u # _) = extractHost u"
| "wait_loop (Tick u # rest) = (case extractHost u of Inr h \<Rightarrow> Inr h | Inl _ \<Rightarrow> wait_loop rest)"
| "wait_loop (CtxDone e # _) = Inl (''context canceled while waiting for proxy URL: '' @ e)"

definition waitForProxyURL :: "string \<Rightarrow> url_wait list \<Rightarrow> string + string" where
  "waitForProxyURL url0 obs = (case extractHost url0 of Inr h \<Rightarrow> Inr h | Inl _ \<Rightarrow> wait_loop obs)"

text \<open>
  The environment of one setup: the local client of the provider (\<open>None\<close>: the provider has
  no such method; \<open>Some None\<close>: nil), the URL observations, the context during the DNS
  validation, and whether the context has ended when TLS provisioning fails.
\<close>

record setup_env =
  se_lc :: "(string \<Rightarrow> string option) option option"
  se_sem :: "string option"
  se_url0 :: string
  se_obs :: "url_wait list"
  se_ctxErr :: "nat \<Rightarrow> string option"
  se_waitErr :: "nat \<Rightarrow> string option"
  se_ctxDone :: bool

definition configureTailscaleTLS :: "setup_env \<Rightarrow> Proxy \<Rightarrow> string + Proxy" where
  "configureTailscaleTLS env p =
     (case se_lc env of
        None \<Rightarrow> Inl ''tailscale tls requires a tailscale proxy provider''
      | Some None \<Rightarrow> Inl ''tailscale local client not available (proxy not started?)''
      | Some (Some lc) \<Rightarrow> Inr (p\<lparr>px_tlsProvider := Some (tailscale_tls (Some lc) (se_sem env))\<rparr>))"

datatype setup_error =
    TailscaleTLSSetup string
  | WaitingForURL string
  | DNSSetup dns_error
  | TLSProvisioning string
  | SetupNilDeref

record domain_state =
  ds_proxy :: Proxy
  ds_dns :: LifecycleManager
  ds_tls :: LifecycleManager

definition tls_stage :: "setup_env \<Rightarrow> DNSProvider \<Rightarrow> TLSProvider \<Rightarrow> string \<Rightarrow> domain_state \<Rightarrow> setup_error option \<times> domain_state" where
  "tls_stage env dns tls domain s =
     (let p = setTLSStatus StatusPending (setDNSStatus StatusActive (ds_proxy s))
      in case tls_Provision tls domain (ds_tls s) of
           (None, tlsLM) \<Rightarrow> (None, s\<lparr>ds_proxy := setTLSStatus StatusActive p, ds_tls := tlsLM\<rparr>)
         | (Some e, tlsLM) \<Rightarrow>
             (let dnsLM = (if se_ctxDone env then ds_dns s else snd (CleanupDNS dns domain (ds_dns s)))
              in (Some (TLSProvisioning e),
                  s\<lparr>ds_proxy := setDNSStatus StatusError (setTLSStatus StatusError p), ds_dns := dnsLM, ds_tls := tlsLM\<rparr>)))"

definition dns_stage :: "setup_env \<Rightarrow> DNSProvider \<Rightarrow> TLSProvider \<Rightarrow> string \<Rightarrow> domain_state \<Rightarrow> setup_error option \<times> domain_state" where
  "dns_stage env dns tls domain s =
     (case waitForProxyURL (se_url0 env) (se_obs env) of
        Inl e \<Rightarrow> (Some (WaitingForURL e), s)
      | Inr targetHostname \<Rightarrow>
          (let p = setDNSStatus StatusPending (ds_proxy s)
           in case SetupDNS (se_ctxErr env) (se_waitErr env) dns domain targetHostname (ds_dns s) of
                (Some e, dnsLM) \<Rightarrow> (Some (DNSSetup e), s\<lparr>ds_proxy := setDNSStatus StatusError p, ds_dns := dnsLM\<rparr>)
              | (None, dnsLM) \<Rightarrow> tls_stage env dns tls domain (s\<lparr>ds_proxy := p, ds_dns := dnsLM\<rparr>)))"

definition setupDomainForProxy :: "setup_env \<Rightarrow> domain_state \<Rightarrow> setup_error option \<times> domain_state" where
  "setupDomainForProxy env s =
     (case (px_dnsProvider (ds_proxy s), px_tlsProvider (ds_proxy s)) of
        (Some dns, Some tls) \<Rightarrow>
          (let domain = cfg_Domain (px_Config (ds_proxy s))
           in if tlp_Name tls = TLSProviderTailscale then
                (case configureTailscaleTLS env (ds_proxy s) of
                   Inl e \<Rightarrow> (Some (TailscaleTLSSetup e), s)
                 | Inr p \<Rightarrow> dns_stage env dns (the (px_tlsProvider p)) domain (s\<lparr>ds_proxy := p\<rparr>))
              else dns_stage env dns tls domain s)
      | _ \<Rightarrow> (Some SetupNilDeref, s))"

definition cleanupDomainForProxy :: "domain_state \<Rightarrow> domain_state" where
  "cleanupDomainForProxy s =
     (let p = ds_proxy s; domain = cfg_Domain (px_Config p)
      in if domain = [] then s
         else let tlsLM = (case px_tlsProvider p of None \<Rightarrow> ds_tls s | Some t \<Rightarrow> snd (tls_Cleanup t domain (ds_tls s)));
                  dnsLM = (case px_dnsProvider p of None \<Rightarrow> ds_dns s | Some d \<Rightarrow> snd (CleanupDNS d domain (ds_dns s)))
              in \<lparr>ds_proxy = setTLSStatus StatusNone (setDNSStatus StatusNone p), ds_dns = dnsLM, ds_tls = tlsLM\<rparr>)"

text \<open>
  \<^verbatim>\<open>configureProxyDomain\<close>: the synchronous part, then the setup (which the code runs in a
  goroutine that shares only the proxy and the lifecycle managers with the rest).
\<close>

definition configureProxyDomain :: "acme_ctor \<Rightarrow> provider_tables \<Rightarrow> setup_env \<Rightarrow> (setup_error \<Rightarrow> string) \<Rightarrow> domain_state \<Rightarrow> domain_state option" where
  "configureProxyDomain newACME t env msg s =
     (if cfg_Domain (px_Config (ds_proxy s)) = [] then Some s
      else case prepareDomainSetup newACME t (px_Config (ds_proxy s)) (ds_proxy s) of
             None \<Rightarrow> None
           | Some (True, p) \<Rightarrow> Some (s\<lparr>ds_proxy := p\<rparr>)
           | Some (False, p) \<Rightarrow>
               (case setupDomainForProxy env (s\<lparr>ds_proxy := p\<rparr>) of
                  (None, s) \<Rightarrow> Some s
                | (Some e, s) \<Rightarrow> Some (s\<lparr>ds_proxy := SetDomainError (msg e) (ds_proxy s)\<rparr>)))"

section \<open>Properties\<close>

lemma SetupDNS_statusD:
  assumes "SetupDNS ctxErr waitErr provider domain target lm = (e, lm')"
  shows "lm_GetStatus lm' domain = (if e = None then StatusActive else StatusError)" "lm_cleanup lm' = lm_cleanup lm"
  using assms by (auto simp: SetupDNS_def Let_def track_def lm_GetStatus_def st.get_set split: option.splits)

lemma CleanupDNS_forgets:
  "lm_cleanup lm \<Longrightarrow> dp_DeleteRecord d domain ''CNAME'' = None \<Longrightarrow>
   lm_GetStatus (snd (CleanupDNS d domain lm)) domain = StatusNone"
  by (simp add: CleanupDNS_def lm_GetStatus_def st.get_del)

definition setup_outcome :: "setup_env \<Rightarrow> DNSProvider \<Rightarrow> string \<Rightarrow> setup_error option \<Rightarrow> domain_state \<Rightarrow> domain_state \<Rightarrow> bool" where
  "setup_outcome env dns domain e s s' \<longleftrightarrow>
     (case e of
        None \<Rightarrow> px_dnsStatus (ds_proxy s') = StatusActive \<and> px_tlsStatus (ds_proxy s') = StatusActive \<and>
          lm_GetStatus (ds_dns s') domain = StatusActive \<and> lm_GetStatus (ds_tls s') domain = StatusActive
      | Some (TLSProvisioning _) \<Rightarrow>
          px_dnsStatus (ds_proxy s') = StatusError \<and> px_tlsStatus (ds_proxy s') = StatusError \<and>
          lm_GetStatus (ds_tls s') domain = StatusError \<and>
          (\<not> se_ctxDone env \<and> lm_cleanup (ds_dns s) \<and> dp_DeleteRecord dns domain ''CNAME'' = None \<longrightarrow>
             lm_GetStatus (ds_dns s') domain = StatusNone)
      | Some (DNSSetup _) \<Rightarrow>
          px_dnsStatus (ds_proxy s') = StatusError \<and> px_tlsStatus (ds_proxy s') = px_tlsStatus (ds_proxy s) \<and>
          ds_tls s' = ds_tls s
      | Some _ \<Rightarrow> px_dnsStatus (ds_proxy s') = px_dnsStatus (ds_proxy s) \<and>
          px_tlsStatus (ds_proxy s') = px_tlsStatus (ds_proxy s) \<and> ds_dns s' = ds_dns s \<and> ds_tls s' = ds_tls s)"

lemma tls_stage_outcome:
  assumes "tls_stage env dns tls domain s = (e, s')" and act: "lm_GetStatus (ds_dns s) domain = StatusActive"
  shows "setup_outcome env dns domain e s s'"
proof (cases "tls_Provision tls domain (ds_tls s)")
  case (Pair r tlsLM)
  note st = tls_Provision_status(1) [OF Pair]
  show ?thesis
  proof (cases r)
    case None
    with assms Pair st show ?thesis
      by (auto simp: tls_stage_def Let_def setup_outcome_def setTLSStatus_def setDNSStatus_def)
  next
    case (Some x)
    with assms(1) Pair st CleanupDNS_forgets [of "ds_dns s" dns domain] show ?thesis
      by (auto simp: tls_stage_def Let_def setup_outcome_def setTLSStatus_def setDNSStatus_def)
  qed
qed

lemma dns_stage_outcome:
  assumes "dns_stage env dns tls domain s = (e, s')"
  shows "setup_outcome env dns domain e s s'"
proof (cases "waitForProxyURL (se_url0 env) (se_obs env)")
  case (Inl x)
  with assms show ?thesis by (auto simp: dns_stage_def setup_outcome_def)
next
  case (Inr host)
  obtain r dnsLM where d: "SetupDNS (se_ctxErr env) (se_waitErr env) dns domain host (ds_dns s) = (r, dnsLM)"
    by (metis prod.exhaust)
  note st = SetupDNS_statusD [OF d]
  show ?thesis
  proof (cases r)
    case (Some x)
    with assms Inr d show ?thesis by (auto simp: dns_stage_def Let_def setup_outcome_def setDNSStatus_def)
  next
    case None
    let ?s = "s\<lparr>ds_proxy := setDNSStatus StatusPending (ds_proxy s), ds_dns := dnsLM\<rparr>"
    from None assms Inr d have "tls_stage env dns tls domain ?s = (e, s')" by (simp add: dns_stage_def)
    moreover have "lm_GetStatus (ds_dns ?s) domain = StatusActive" using st None by simp
    ultimately have "setup_outcome env dns domain e ?s s'" by (rule tls_stage_outcome)
    moreover have "\<exists>x. e = None \<or> e = Some (TLSProvisioning x)"
      using \<open>tls_stage env dns tls domain ?s = (e, s')\<close> by (auto simp: tls_stage_def Let_def split: prod.splits option.splits)
    ultimately show ?thesis using st(2) by (auto simp: setup_outcome_def)
  qed
qed

text \<open>
  A finished domain setup never leaves a half state: on success the proxy's DNS and TLS
  status and both lifecycle managers say Active; if TLS provisioning fails both statuses
  say Error and the DNS record is rolled back (unless the proxy is being torn down); if
  DNS fails only the DNS status says Error; if it never gets that far nothing changes.
\<close>

theorem setupDomain_outcome:
  assumes "px_dnsProvider (ds_proxy s) = Some dns" "px_tlsProvider (ds_proxy s) = Some tls"
    and "setupDomainForProxy env s = (e, s')"
  shows "setup_outcome env dns (cfg_Domain (px_Config (ds_proxy s))) e s s'"
proof (cases "tlp_Name tls = TLSProviderTailscale")
  case False
  with assms dns_stage_outcome show ?thesis by (simp add: setupDomainForProxy_def)
next
  case True
  show ?thesis
  proof (cases "configureTailscaleTLS env (ds_proxy s)")
    case (Inl x)
    with True assms show ?thesis by (auto simp: setupDomainForProxy_def setup_outcome_def)
  next
    case (Inr p)
    then have p: "px_dnsStatus p = px_dnsStatus (ds_proxy s)" "px_tlsStatus p = px_tlsStatus (ds_proxy s)"
      by (auto simp: configureTailscaleTLS_def split: option.splits)
    from True Inr assms have "dns_stage env dns (the (px_tlsProvider p)) (cfg_Domain (px_Config (ds_proxy s))) (s\<lparr>ds_proxy := p\<rparr>) = (e, s')"
      by (simp add: setupDomainForProxy_def)
    from dns_stage_outcome [OF this] p show ?thesis
      by (auto simp: setup_outcome_def split: option.splits setup_error.splits)
  qed
qed

text \<open>
  When \<^verbatim>\<open>prepareDomainSetup\<close> lets the setup go on, the proxy has both its providers: the DNS
  provider its configuration names, or the default one, and a TLS provider that is
  either the Tailscale one or, for ACME, one bound to that very DNS provider, which
  supports DNS-01 (no other kind is ever registered).
\<close>

theorem prepareDomainSetup_providers:
  assumes "prepareDomainSetup newACME t cfg p = Some (False, q)" and "pt_TLS t = []"
  shows "\<exists>dns tls. px_dnsProvider q = Some dns \<and> px_tlsProvider q = Some tls \<and>
    gm_get (pt_DNS t) (if cfg_DNSProvider cfg = [] then dc_DefaultDNSProvider (pt_cfg t) else cfg_DNSProvider cfg) = Some dns \<and>
    (tls = tailscale_tls None None \<or> (\<exists>c. newACME c dns = Inr tls \<and> dp_acme dns \<and> tpc_Provider c = TLSProviderACME))"
proof -
  from assms(1) have r: "resolveAndSetProviders newACME t cfg p = Inr q"
    by (auto simp: prepareDomainSetup_def split: option.splits sum.splits resolve_error.splits)
  then obtain dns tls where d: "resolveDNSProviderLocked (pt_cfg t) (pt_DNS t) cfg = Inr dns"
    and tl: "resolveTLSProviderLocked newACME (pt_cfg t) (pt_TLS t) cfg (Some dns) = Inr tls"
    and q: "q = SetDNSAndTLSProviders dns tls p"
    by (auto simp: resolveAndSetProviders_def split: sum.splits)
  have "gm_get (pt_DNS t) (if cfg_DNSProvider cfg = [] then dc_DefaultDNSProvider (pt_cfg t) else cfg_DNSProvider cfg) = Some dns"
    using d by (auto simp: resolveDNSProviderLocked_def split: if_splits option.splits)
  moreover have "tls = tailscale_tls None None \<or> (\<exists>c. newACME c dns = Inr tls \<and> dp_acme dns \<and> tpc_Provider c = TLSProviderACME)"
    using tl assms(2) by (auto simp: resolveTLSProviderLocked_def Let_def acme_provider_def split: if_splits option.splits sum.splits)
  ultimately show ?thesis using q by (simp add: SetDNSAndTLSProviders_def)
qed

definition nil_tls_config :: domain_config where
  "nil_tls_config = \<lparr>dc_DefaultDNSProvider = ''magic'', dc_DefaultTLSProvider = ''mytls'',
     dc_DNSProviders = [(''magic'', Some \<lparr>dpc_Provider = ''magicdns'', dpc_APIToken = []\<rparr>)],
     dc_TLSProviders = [(''mytls'', None)]\<rparr>"

text \<open>
  An empty TLS provider entry passes the configuration check, even as the default TLS
  provider, and then the resolution of the providers of any proxy with a domain
  dereferences the nil entry: the setup of that proxy panics.
\<close>

theorem nil_TLS_entry_panics:
  "validateDNSProviders nil_tls_config = None \<and> validateTLSProviders nil_tls_config = None \<and>
   (\<exists>cfg p. cfg_Domain cfg = ''a.example.com'' \<and>
      prepareDomainSetup newACME \<lparr>pt_cfg = nil_tls_config, pt_DNS = addDNSProviders cloudflare nil_tls_config, pt_TLS = []\<rparr> cfg p = None)"
proof -
  let ?cfg = "(example_cfg ''http://a:1'')\<lparr>cfg_Domain := ''a.example.com''\<rparr>"
  have "validateDNSProviders nil_tls_config = None" "validateTLSProviders nil_tls_config = None" by code_simp+
  moreover have "prepareDomainSetup newACME \<lparr>pt_cfg = nil_tls_config, pt_DNS = addDNSProviders cloudflare nil_tls_config, pt_TLS = []\<rparr> ?cfg p = None" for p
    by (simp add: prepareDomainSetup_def ValidateProxyConfig_def nil_tls_config_def example_cfg_def resolveAndSetProviders_def
        resolveDNSProviderLocked_def addDNSProviders_def magic_provider_entry_def resolveTLSProviderLocked_def
        resolveTLSProviderName_def TLSProviderTailscale_def)
  ultimately show ?thesis by (intro conjI exI [of _ ?cfg] exI) (simp_all)
qed

section \<open>Witnesses\<close>

definition example_tables :: provider_tables where
  "example_tables = \<lparr>pt_cfg = nil_tls_config, pt_DNS = [(''magic'', magicdns)], pt_TLS = []\<rparr>"

definition domain_cfg :: Config where
  "domain_cfg = one_port_cfg\<lparr>cfg_Domain := ''a.ts.net'', cfg_TLSProvider := ''tailscale''\<rparr>"

theorem prepareDomainSetup_providers_witness:
  "\<exists>q dns. prepareDomainSetup (\<lambda>_ _. Inl []) example_tables domain_cfg (NewProxy domain_cfg None 0) = Some (False, q) \<and>
     px_dnsProvider q = Some dns \<and> gm_get (pt_DNS example_tables) ''magic'' = Some dns"
proof -
  let ?q = "SetDNSAndTLSProviders magicdns (tailscale_tls None None) (NewProxy domain_cfg None 0)"
  have c: "cfg_DNSProvider domain_cfg = []" "dc_DefaultDNSProvider (pt_cfg example_tables) = ''magic''" "pt_TLS example_tables = []"
    by (simp_all add: domain_cfg_def one_port_cfg_def example_cfg_def example_tables_def nil_tls_config_def)
  have "prepareDomainSetup (\<lambda>_ _. Inl []) example_tables domain_cfg (NewProxy domain_cfg None 0) = Some (False, ?q)"
    by (simp add: prepareDomainSetup_def ValidateProxyConfig_def example_tables_def domain_cfg_def one_port_cfg_def nil_tls_config_def
        example_cfg_def resolveAndSetProviders_def resolveDNSProviderLocked_def resolveTLSProviderLocked_def
        resolveTLSProviderName_def TLSProviderTailscale_def SetDNSAndTLSProviders_def)
  from this prepareDomainSetup_providers [OF this c(3)] c show ?thesis by auto
qed

definition example_state :: domain_state where
  "example_state = \<lparr>ds_proxy = SetDNSAndTLSProviders magicdns (tailscale_tls None None) (NewProxy domain_cfg None 0),
     ds_dns = NewLifecycleManager True, ds_tls = NewLifecycleManager True\<rparr>"

definition example_env :: "string option \<Rightarrow> setup_env" where
  "example_env cert = \<lparr>se_lc = Some (Some (\<lambda>_. cert)), se_sem = None, se_url0 = ''https://h.ts.net'', se_obs = [],
     se_ctxErr = (\<lambda>_. None), se_waitErr = (\<lambda>_. None), se_ctxDone = False\<rparr>"

theorem setupDomain_outcome_witness:
  "\<exists>e s'. setupDomainForProxy (example_env (Some ''no cert'')) example_state = (e, s') \<and>
     setup_outcome (example_env (Some ''no cert'')) magicdns ''a.ts.net'' e example_state s'"
proof -
  obtain e s' where r: "setupDomainForProxy (example_env (Some ''no cert'')) example_state = (e, s')" by (metis prod.exhaust)
  have p: "px_dnsProvider (ds_proxy example_state) = Some magicdns" "px_tlsProvider (ds_proxy example_state) = Some (tailscale_tls None None)"
    "cfg_Domain (px_Config (ds_proxy example_state)) = ''a.ts.net''"
    by (simp_all add: example_state_def SetDNSAndTLSProviders_def NewProxy_def initPorts_def domain_cfg_def)
  from setupDomain_outcome [OF p(1,2) r] r p(3) show ?thesis by auto
qed

end
