(* ===== verification/Proxy_Manager.thy ===== *)
theory Proxy_Manager
  imports Domain_Setup
begin

text \<open>
  \<^verbatim>\<open>src/internal/proxymanager/proxymanager.go\<close>, \<^verbatim>\<open>events.go\<close>, \<^verbatim>\<open>broadcast.go\<close> and the provider
  lookup of \<^verbatim>\<open>providers.go\<close>: the registry of proxies, the index from targets to host names,
  and the events of the target providers. A proxy is an address in a heap, so that the
  identity checks of the code are checks of addresses. The critical sections of \<^verbatim>\<open>proxyMu\<close>
  are atomic; \<open>pm_building\<close> lists the host names whose lock a \<^verbatim>\<open>newProxy\<close> holds between
  removing the old proxy and registering the new one, with the proxy being built (that
  at most one caller holds the lock of a host name is shown in \<open>Keyed_Locks\<close>).
\<close>

section \<open>State\<close>

text \<open>What a proxy provider answers, and how the proxy it creates for a configuration behaves.\<close>

record ProxyProvider =
  pp_DomainRequired :: bool
  pp_ResolveAuthKey :: "Config \<Rightarrow> string + string"
  pp_NewProxy :: "Config \<Rightarrow> string option"
  pp_env :: "Config \<Rightarrow> provider_env"

record TargetProvider =
  tg_DefaultProxyProviderName :: string
  tg_AddTarget :: "string \<Rightarrow> string + Config"

definition statusSubChanBuf :: nat where "statusSubChanBuf = 64"

record ProxyManager =
  pm_heap :: "Proxy list"
  pm_Proxies :: "(string, nat) gomap"
  pm_targetIndex :: "(string, string) gomap"
  pm_building :: "(string, nat) gomap"
  pm_TargetProviders :: "(string, TargetProvider) gomap"
  pm_ProxyProviders :: "(string, ProxyProvider) gomap"
  pm_DefaultProxyProvider :: string
  pm_tables :: provider_tables
  pm_dns :: LifecycleManager
  pm_tls :: LifecycleManager
  pm_stopping :: bool
  pm_count :: nat
  pm_subs :: "(nat, ProxyEvent list) gomap"
  pm_nextSub :: nat

datatype pm_error =
    ErrProxyProviderNotFound
  | ErrTargetProviderNotFound
  | DomainRequired
  | AuthKeyError string
  | ShuttingDown
  | CreateProxy string
  | AddTargetError string
  | ProxyNotFound string
  | ProxyRemoved string
  | StartFailed proxy_error
  | LifecycleError proxy_error
  | DomainPanic

text \<open>The clock and the answers of the environment during one operation.\<close>

record pm_env =
  me_now :: int
  me_newACME :: acme_ctor
  me_setup :: setup_env
  me_msg :: "setup_error \<Rightarrow> string"

section \<open>Status events\<close>

definition offer :: "ProxyEvent \<Rightarrow> ProxyEvent list \<Rightarrow> ProxyEvent list" where
  "offer ev q = (if length q < statusSubChanBuf then q @ [ev] else q)"

definition broadcastStatusEvents :: "ProxyEvent \<Rightarrow> ProxyManager \<Rightarrow> ProxyManager" where
  "broadcastStatusEvents ev pm = pm\<lparr>pm_subs := map (\<lambda>(s, q). (s, offer ev q)) (pm_subs pm)\<rparr>"

definition SubscribeStatusEvents :: "ProxyManager \<Rightarrow> nat \<times> ProxyManager" where
  "SubscribeStatusEvents pm =
     (pm_nextSub pm, pm\<lparr>pm_subs := gm_put (pm_nextSub pm) [] (pm_subs pm), pm_nextSub := pm_nextSub pm + 1\<rparr>)"

text \<open>The cancel function of a subscription; its \<^verbatim>\<open>sync.Once\<close> makes a second call do nothing.\<close>

definition cancelSubscription :: "nat \<Rightarrow> ProxyManager \<Rightarrow> ProxyManager" where
  "cancelSubscription s pm = pm\<lparr>pm_subs := gm_del s (pm_subs pm)\<rparr>"

definition mk_event :: "string \<Rightarrow> ProxyStatus \<Rightarrow> string \<Rightarrow> ProxyEvent" where
  "mk_event host status msg =
     \<lparr>ev_ID = host, ev_Port = [], ev_AuthURL = [], ev_ErrorMessage = msg, ev_Status = status,
      ev_OldStatus = ProxyStatusInitializing\<rparr>"

text \<open>Replace the proxy at an address and publish the transitions it made (its \<^verbatim>\<open>onUpdate\<close>).\<close>

definition put_proxy :: "nat \<Rightarrow> Proxy \<Rightarrow> ProxyManager \<Rightarrow> ProxyManager" where
  "put_proxy a p pm =
     fold broadcastStatusEvents (drop (length (px_updates (pm_heap pm ! a))) (px_updates p))
       (pm\<lparr>pm_heap := (pm_heap pm)[a := p]\<rparr>)"

section \<open>Providers\<close>

definition addTargetProvider :: "TargetProvider \<Rightarrow> string \<Rightarrow> ProxyManager \<Rightarrow> ProxyManager" where
  "addTargetProvider provider name pm = pm\<lparr>pm_TargetProviders := gm_put name provider (pm_TargetProviders pm)\<rparr>"

definition addProxyProvider :: "ProxyProvider \<Rightarrow> string \<Rightarrow> ProxyManager \<Rightarrow> ProxyManager" where
  "addProxyProvider provider name pm = pm\<lparr>pm_ProxyProviders := gm_put (to_lower name) provider (pm_ProxyProviders pm)\<rparr>"

definition getProxyProvider :: "ProxyManager \<Rightarrow> Config \<Rightarrow> pm_error + ProxyProvider" where
  "getProxyProvider pm cfg =
     (if cfg_ProxyProvider cfg \<noteq> [] then
        (case gm_get (pm_ProxyProviders pm) (to_lower (cfg_ProxyProvider cfg)) of
           None \<Rightarrow> Inl ErrProxyProviderNotFound
         | Some p \<Rightarrow> Inr p)
      else case gm_get (pm_TargetProviders pm) (cfg_TargetProvider cfg) of
             None \<Rightarrow> Inl ErrTargetProviderNotFound
           | Some t \<Rightarrow>
               (case gm_get (pm_ProxyProviders pm) (to_lower (tg_DefaultProxyProviderName t)) of
                  Some p \<Rightarrow> Inr p
                | None \<Rightarrow>
                    (case gm_get (pm_ProxyProviders pm) (to_lower (pm_DefaultProxyProvider pm)) of
                       Some p \<Rightarrow> Inr p
                     | None \<Rightarrow> Inl ErrProxyProviderNotFound)))"

definition resolveProxyProvider :: "ProxyManager \<Rightarrow> Config \<Rightarrow> pm_error + (ProxyProvider \<times> Config)" where
  "resolveProxyProvider pm cfg =
     (case getProxyProvider pm cfg of
        Inl e \<Rightarrow> Inl e
      | Inr provider \<Rightarrow>
          if pp_DomainRequired provider \<and> cfg_Domain cfg = [] then Inl DomainRequired
          else case pp_ResolveAuthKey provider cfg of
                 Inl e \<Rightarrow> Inl (AuthKeyError e)
               | Inr authKey \<Rightarrow>
                   Inr (provider, cfg\<lparr>cfg_Tailscale := (cfg_Tailscale cfg)\<lparr>ts_ResolvedAuthKey := authKey\<rparr>\<rparr>))"

section \<open>Removal\<close>

abbreviation proxy_at :: "ProxyManager \<Rightarrow> nat \<Rightarrow> Proxy" where
  "proxy_at pm a \<equiv> pm_heap pm ! a"

definition updateProxyCount :: "ProxyManager \<Rightarrow> ProxyManager" where
  "updateProxyCount pm = pm\<lparr>pm_count := length (pm_Proxies pm)\<rparr>"

definition teardownProxy :: "int \<Rightarrow> nat \<Rightarrow> ProxyManager \<Rightarrow> ProxyManager" where
  "teardownProxy now a pm =
     (let s = cleanupDomainForProxy \<lparr>ds_proxy = (proxy_at pm a)\<lparr>px_cancelled := True\<rparr>, ds_dns = pm_dns pm, ds_tls = pm_tls pm\<rparr>;
          pm = put_proxy a (px_Close now (ds_proxy s)) (pm\<lparr>pm_dns := ds_dns s, pm_tls := ds_tls s\<rparr>)
      in updateProxyCount pm)"

definition unregister :: "string \<Rightarrow> nat \<Rightarrow> ProxyManager \<Rightarrow> ProxyManager" where
  "unregister hostname a pm =
     (let t = cfg_TargetID (px_Config (proxy_at pm a))
      in pm\<lparr>pm_Proxies := gm_del hostname (pm_Proxies pm),
            pm_targetIndex := (if gm_get (pm_targetIndex pm) t = Some hostname then gm_del t (pm_targetIndex pm)
                               else pm_targetIndex pm)\<rparr>)"

definition removeAndTeardown :: "int \<Rightarrow> string \<Rightarrow> (nat \<Rightarrow> bool) \<Rightarrow> ProxyManager \<Rightarrow> nat option \<times> ProxyManager" where
  "removeAndTeardown now hostname identity pm =
     (case gm_get (pm_Proxies pm) hostname of
        None \<Rightarrow> (None, pm)
      | Some a \<Rightarrow>
          if \<not> identity a then (None, pm)
          else (Some a, teardownProxy now a (unregister hostname a pm)))"

definition closeAndRemoveProxy :: "int \<Rightarrow> string \<Rightarrow> ProxyManager \<Rightarrow> ProxyManager" where
  "closeAndRemoveProxy now hostname pm = snd (removeAndTeardown now hostname (\<lambda>_. True) pm)"

definition closeProxyIfStillCurrent :: "int \<Rightarrow> nat \<Rightarrow> ProxyManager \<Rightarrow> ProxyManager" where
  "closeProxyIfStillCurrent now target pm =
     snd (removeAndTeardown now (cfg_Hostname (px_Config (proxy_at pm target))) (\<lambda>a. a = target) pm)"

definition removeProxy :: "int \<Rightarrow> string \<Rightarrow> ProxyManager \<Rightarrow> ProxyManager" where
  "removeProxy now hostname pm = snd (removeAndTeardown now hostname (\<lambda>_. True) pm)"

section \<open>Creation\<close>

definition registerProxy :: "nat \<Rightarrow> Config \<Rightarrow> ProxyManager \<Rightarrow> pm_error + ProxyManager" where
  "registerProxy a cfg pm =
     (if pm_stopping pm then Inl ShuttingDown
      else Inr (pm\<lparr>pm_Proxies := gm_put (cfg_Hostname cfg) a (pm_Proxies pm),
                   pm_targetIndex := gm_put (cfg_TargetID cfg) (cfg_Hostname cfg) (pm_targetIndex pm)\<rparr>))"

text \<open>
  The first half of \<^verbatim>\<open>newProxy\<close>, up to the built proxy; on success the host name is in
  \<open>pm_building\<close>.
\<close>

definition newProxy_begin :: "pm_env \<Rightarrow> Config \<Rightarrow> ProxyManager \<Rightarrow> (pm_error + nat) \<times> ProxyManager" where
  "newProxy_begin env cfg pm =
     (if pm_stopping pm then (Inl ShuttingDown, pm)
      else case resolveProxyProvider pm cfg of
             Inl e \<Rightarrow> (Inl e, pm)
           | Inr (provider, cfg) \<Rightarrow>
               (let pm = closeAndRemoveProxy (me_now env) (cfg_Hostname cfg) pm
                in case pp_NewProxy provider cfg of
                     Some e \<Rightarrow> (Inl (CreateProxy e), pm)
                   | None \<Rightarrow>
                       (let a = length (pm_heap pm)
                        in (Inr a, pm\<lparr>pm_heap := pm_heap pm @ [NewProxy cfg (Some \<lparr>ms_status = [], ms_up = 0\<rparr>) (me_now env)],
                                      pm_building := gm_put (cfg_Hostname cfg) a (pm_building pm)\<rparr>))))"

definition configure_domain :: "pm_env \<Rightarrow> nat \<Rightarrow> ProxyManager \<Rightarrow> ProxyManager option" where
  "configure_domain env a pm =
     (case configureProxyDomain (me_newACME env) (pm_tables pm) (me_setup env) (me_msg env)
             \<lparr>ds_proxy = proxy_at pm a, ds_dns = pm_dns pm, ds_tls = pm_tls pm\<rparr> of
        None \<Rightarrow> None
      | Some s \<Rightarrow> Some (put_proxy a (ds_proxy s) (pm\<lparr>pm_dns := ds_dns s, pm_tls := ds_tls s\<rparr>)))"

text \<open>The second half, which gives up the host name lock.\<close>

definition newProxy_finish :: "pm_env \<Rightarrow> nat \<Rightarrow> ProxyManager \<Rightarrow> (pm_error + nat) \<times> ProxyManager" where
  "newProxy_finish env a pm =
     (let cfg = px_Config (proxy_at pm a);
          pm = pm\<lparr>pm_building := gm_del (cfg_Hostname cfg) (pm_building pm)\<rparr>
      in case registerProxy a cfg pm of
           Inl e \<Rightarrow> (Inl e, put_proxy a (px_Close (me_now env) (proxy_at pm a)) pm)
         | Inr pm \<Rightarrow>
             (case configure_domain env a pm of
                None \<Rightarrow> (Inl DomainPanic, pm)
              | Some pm \<Rightarrow>
                  (Inr a, broadcastStatusEvents (mk_event (cfg_Hostname cfg) ProxyStatusInitializing [])
                     (updateProxyCount (put_proxy a (setMetricsReady True (proxy_at pm a)) pm)))))"

definition newProxy :: "pm_env \<Rightarrow> Config \<Rightarrow> ProxyManager \<Rightarrow> (pm_error + nat) \<times> ProxyManager" where
  "newProxy env cfg pm =
     (case newProxy_begin env cfg pm of
        (Inl e, pm) \<Rightarrow> (Inl e, pm)
      | (Inr a, pm) \<Rightarrow> newProxy_finish env a pm)"

definition start_at :: "provider_env \<Rightarrow> nat \<Rightarrow> ProxyManager \<Rightarrow> proxy_error option \<times> ProxyManager" where
  "start_at penv a pm = (let (e, p) = Start penv (proxy_at pm a) in (e, put_proxy a p pm))"

definition restartProxyLocked :: "pm_env \<Rightarrow> provider_env \<Rightarrow> Config \<Rightarrow> ProxyManager \<Rightarrow> pm_error option \<times> ProxyManager" where
  "restartProxyLocked env penv cfg pm =
     (case newProxy env cfg pm of
        (Inl e, pm) \<Rightarrow> (Some e, pm)
      | (Inr a, pm) \<Rightarrow>
          (case start_at penv a pm of
             (Some e, pm) \<Rightarrow> (Some (StartFailed e), closeProxyIfStillCurrent (me_now env) a pm)
           | (None, pm) \<Rightarrow> (None, pm)))"

section \<open>Dashboard actions\<close>

definition GetProxy :: "ProxyManager \<Rightarrow> string \<Rightarrow> nat option" where
  "GetProxy pm name = gm_get (pm_Proxies pm) name"

text \<open>
  \<^verbatim>\<open>withCurrentProxy\<close>: \<open>first\<close> is the proxy the caller looked up before it waited for the
  target lock; the action runs only if it is still the registered one.
\<close>

definition withCurrentProxy ::
  "string \<Rightarrow> nat option \<Rightarrow> (nat \<Rightarrow> ProxyManager \<Rightarrow> pm_error option \<times> ProxyManager) \<Rightarrow> ProxyManager \<Rightarrow> pm_error option \<times> ProxyManager" where
  "withCurrentProxy name first fn pm =
     (case first of
        None \<Rightarrow> (Some (ProxyNotFound name), pm)
      | Some a \<Rightarrow> if GetProxy pm name \<noteq> Some a then (Some (ProxyRemoved name), pm) else fn a pm)"

definition RestartProxy :: "pm_env \<Rightarrow> provider_env \<Rightarrow> string \<Rightarrow> nat option \<Rightarrow> ProxyManager \<Rightarrow> pm_error option \<times> ProxyManager" where
  "RestartProxy env penv name first pm =
     withCurrentProxy name first (\<lambda>a pm. restartProxyLocked env penv (px_Config (proxy_at pm a)) pm) pm"

definition PauseProxy :: "int \<Rightarrow> string \<Rightarrow> nat option \<Rightarrow> ProxyManager \<Rightarrow> pm_error option \<times> ProxyManager" where
  "PauseProxy now name first pm =
     withCurrentProxy name first (\<lambda>a pm. case Pause now (proxy_at pm a) of
        Inl e \<Rightarrow> (Some (LifecycleError e), pm) | Inr p \<Rightarrow> (None, put_proxy a p pm)) pm"

definition ResumeProxy :: "provider_env \<Rightarrow> string \<Rightarrow> nat option \<Rightarrow> ProxyManager \<Rightarrow> pm_error option \<times> ProxyManager" where
  "ResumeProxy penv name first pm =
     withCurrentProxy name first (\<lambda>a pm. case Resume penv (proxy_at pm a) of
        (Some e, p) \<Rightarrow> (Some (LifecycleError e), put_proxy a p pm) | (None, p) \<Rightarrow> (None, put_proxy a p pm)) pm"

section \<open>Target events\<close>

datatype ActionType = ActionStartProxy | ActionStopProxy | ActionRestartProxy | ActionStartPort | ActionStopPort | ActionRestartPort

record TargetEvent =
  te_TargetProvider :: TargetProvider
  te_ID :: string
  te_Action :: ActionType

definition eventStart :: "pm_env \<Rightarrow> TargetEvent \<Rightarrow> ProxyManager \<Rightarrow> (pm_error + nat) \<times> ProxyManager" where
  "eventStart env ev pm =
     (case tg_AddTarget (te_TargetProvider ev) (te_ID ev) of
        Inl e \<Rightarrow> (Inl (AddTargetError e), pm)
      | Inr cfg \<Rightarrow> newProxy env cfg pm)"

definition eventStop :: "int \<Rightarrow> TargetEvent \<Rightarrow> ProxyManager \<Rightarrow> ProxyManager" where
  "eventStop now ev pm =
     (case gm_get (pm_targetIndex pm) (te_ID ev) of
        None \<Rightarrow> pm
      | Some hostname \<Rightarrow>
          if hostname = [] then pm
          else snd (removeAndTeardown now hostname (\<lambda>a. cfg_TargetID (px_Config (proxy_at pm a)) = te_ID ev) pm))"

text \<open>The part of \<^verbatim>\<open>HandleProxyEvent\<close> under the target lock: the proxy to start, if any.\<close>

definition handle_locked :: "pm_env \<Rightarrow> TargetEvent \<Rightarrow> ProxyManager \<Rightarrow> (pm_error + nat) option \<times> ProxyManager" where
  "handle_locked env ev pm =
     (case te_Action ev of
        ActionStartProxy \<Rightarrow> (let (r, pm) = eventStart env ev pm in (Some r, pm))
      | ActionStopProxy \<Rightarrow> (None, eventStop (me_now env) ev pm)
      | ActionRestartProxy \<Rightarrow> (let (r, pm) = eventStart env ev (eventStop (me_now env) ev pm) in (Some r, pm))
      | _ \<Rightarrow> (None, pm))"

text \<open>
  The rest: start the proxy if it is still the registered one, and on failure publish
  the error and take it down. \<open>errText\<close> prints the error.
\<close>

definition start_created :: "pm_env \<Rightarrow> provider_env \<Rightarrow> (proxy_error \<Rightarrow> string) \<Rightarrow> nat \<Rightarrow> ProxyManager \<Rightarrow> ProxyManager" where
  "start_created env penv errText a pm =
     (let host = cfg_Hostname (px_Config (proxy_at pm a))
      in if GetProxy pm host \<noteq> Some a then pm
         else case start_at penv a pm of
                (None, pm) \<Rightarrow> pm
              | (Some e, pm) \<Rightarrow>
                  (let pm = put_proxy a ((proxy_at pm a)\<lparr>px_lastError := errText e\<rparr>) pm;
                       pm = broadcastStatusEvents (mk_event host ProxyStatusError (errText e)) pm
                   in closeProxyIfStillCurrent (me_now env) a pm))"

definition HandleProxyEvent :: "pm_env \<Rightarrow> provider_env \<Rightarrow> (proxy_error \<Rightarrow> string) \<Rightarrow> TargetEvent \<Rightarrow> ProxyManager \<Rightarrow> ProxyManager" where
  "HandleProxyEvent env penv errText ev pm =
     (case handle_locked env ev pm of
        (Some (Inr a), pm) \<Rightarrow> start_created env penv errText a pm
      | (_, pm) \<Rightarrow> pm)"

definition dispatchProxyEvent :: "pm_env \<Rightarrow> provider_env \<Rightarrow> (proxy_error \<Rightarrow> string) \<Rightarrow> TargetEvent \<Rightarrow> ProxyManager \<Rightarrow> ProxyManager" where
  "dispatchProxyEvent env penv errText ev pm =
     (if pm_stopping pm then pm else HandleProxyEvent env penv errText ev pm)"

definition StopAllProxies :: "int \<Rightarrow> ProxyManager \<Rightarrow> ProxyManager" where
  "StopAllProxies now pm =
     (let pm = pm\<lparr>pm_stopping := True\<rparr>
      in fold (removeProxy now) (keys (pm_Proxies pm)) pm)"

definition maxWatchBackoff :: int where "maxWatchBackoff = 5 * 60 * 1000000000"

text \<open>The pause before the next reconnection to a target provider, after one of \<open>current\<close>.\<close>

definition reconnectBackoff :: "int \<Rightarrow> int" where
  "reconnectBackoff current =
     (let next = wrap64 (current * backoffMultiplier)
      in if next > maxWatchBackoff then maxWatchBackoff else next)"

section \<open>Steps\<close>

text \<open>
  The atomic actions of the goroutines of the manager: the two halves of \<^verbatim>\<open>newProxy\<close> (the
  first needs the lock of the host name), removals, what a proxy does by itself or on
  behalf of an action, subscriptions, and the shutdown flag.
\<close>

inductive pm_step :: "ProxyManager \<Rightarrow> ProxyManager \<Rightarrow> bool" where
  PmBegin: "gm_get (pm_building pm) (cfg_Hostname cfg) = None \<Longrightarrow> newProxy_begin env cfg pm = (r, pm') \<Longrightarrow> pm_step pm pm'"
| PmFinish: "gm_get (pm_building pm) h = Some a \<Longrightarrow> newProxy_finish env a pm = (r, pm') \<Longrightarrow> pm_step pm pm'"
| PmRemove: "removeAndTeardown now h identity pm = (r, pm') \<Longrightarrow> pm_step pm pm'"
| PmProxy: "a < length (pm_heap pm) \<Longrightarrow> px_step (proxy_at pm a) q \<Longrightarrow> pm_step pm (put_proxy a q pm)"
| PmLastError: "a < length (pm_heap pm) \<Longrightarrow> pm_step pm (put_proxy a ((proxy_at pm a)\<lparr>px_lastError := m\<rparr>) pm)"
| PmBroadcast: "pm_step pm (broadcastStatusEvents ev pm)"
| PmSubscribe: "SubscribeStatusEvents pm = (s, pm') \<Longrightarrow> pm_step pm pm'"
| PmCancel: "pm_step pm (cancelSubscription s pm)"
| PmReceive: "gm_get (pm_subs pm) s = Some q \<Longrightarrow> pm_step pm (pm\<lparr>pm_subs := gm_put s (tl q) (pm_subs pm)\<rparr>)"
| PmStop: "pm_step pm (pm\<lparr>pm_stopping := True\<rparr>)"

definition pm_start :: "ProxyManager \<Rightarrow> bool" where
  "pm_start pm \<longleftrightarrow> pm_heap pm = [] \<and> pm_Proxies pm = [] \<and> pm_targetIndex pm = [] \<and> pm_building pm = [] \<and> pm_subs pm = []"

abbreviation pm_reach :: "ProxyManager \<Rightarrow> bool" where
  "pm_reach \<equiv> reach pm_start pm_step"

section \<open>Invariant\<close>

definition reg_inv :: "ProxyManager \<Rightarrow> bool" where
  "reg_inv pm \<longleftrightarrow>
     (\<forall>h a. gm_get (pm_Proxies pm) h = Some a \<longrightarrow> a < length (pm_heap pm) \<and> cfg_Hostname (px_Config (proxy_at pm a)) = h) \<and>
     (\<forall>t h. gm_get (pm_targetIndex pm) t = Some h \<longrightarrow>
        (\<exists>a. gm_get (pm_Proxies pm) h = Some a \<and> cfg_TargetID (px_Config (proxy_at pm a)) = t)) \<and>
     (\<forall>h a. gm_get (pm_building pm) h = Some a \<longrightarrow> a < length (pm_heap pm) \<and>
        cfg_Hostname (px_Config (proxy_at pm a)) = h \<and> gm_get (pm_Proxies pm) h = None) \<and>
     (\<forall>a < length (pm_heap pm). (\<forall>h. gm_get (pm_Proxies pm) h \<noteq> Some a) \<longrightarrow> (\<forall>h. gm_get (pm_building pm) h \<noteq> Some a) \<longrightarrow>
        px_closeOnce (proxy_at pm a))"

definition subs_ok :: "ProxyManager \<Rightarrow> bool" where
  "subs_ok pm \<longleftrightarrow> (\<forall>(s, q) \<in> set (pm_subs pm). length q \<le> statusSubChanBuf)"

definition pm_inv :: "ProxyManager \<Rightarrow> bool" where
  "pm_inv pm \<longleftrightarrow> reg_inv pm \<and> subs_ok pm"

lemma reg_invD:
  assumes "reg_inv pm"
  shows "gm_get (pm_Proxies pm) h = Some a \<Longrightarrow> a < length (pm_heap pm) \<and> cfg_Hostname (px_Config (proxy_at pm a)) = h"
    and "gm_get (pm_targetIndex pm) t = Some h \<Longrightarrow> \<exists>a. gm_get (pm_Proxies pm) h = Some a \<and> cfg_TargetID (px_Config (proxy_at pm a)) = t"
    and "gm_get (pm_building pm) h = Some a \<Longrightarrow> a < length (pm_heap pm) \<and>
        cfg_Hostname (px_Config (proxy_at pm a)) = h \<and> gm_get (pm_Proxies pm) h = None"
    and "a < length (pm_heap pm) \<Longrightarrow> (\<And>h. gm_get (pm_Proxies pm) h \<noteq> Some a) \<Longrightarrow> (\<And>h. gm_get (pm_building pm) h \<noteq> Some a) \<Longrightarrow>
        px_closeOnce (proxy_at pm a)"
  using assms unfolding reg_inv_def by blast+

lemma reg_invI:
  assumes "\<And>h a. gm_get (pm_Proxies pm) h = Some a \<Longrightarrow> a < length (pm_heap pm) \<and> cfg_Hostname (px_Config (proxy_at pm a)) = h"
    and "\<And>t h. gm_get (pm_targetIndex pm) t = Some h \<Longrightarrow> \<exists>a. gm_get (pm_Proxies pm) h = Some a \<and> cfg_TargetID (px_Config (proxy_at pm a)) = t"
    and "\<And>h a. gm_get (pm_building pm) h = Some a \<Longrightarrow> a < length (pm_heap pm) \<and>
        cfg_Hostname (px_Config (proxy_at pm a)) = h \<and> gm_get (pm_Proxies pm) h = None"
    and "\<And>a. a < length (pm_heap pm) \<Longrightarrow> (\<forall>h. gm_get (pm_Proxies pm) h \<noteq> Some a) \<Longrightarrow> (\<forall>h. gm_get (pm_building pm) h \<noteq> Some a) \<Longrightarrow>
        px_closeOnce (proxy_at pm a)"
  shows "reg_inv pm"
  using assms unfolding reg_inv_def by blast

subsection \<open>Publishing touches only the subscriptions\<close>

lemma broadcast_keeps [simp]:
  "pm_heap (broadcastStatusEvents ev pm) = pm_heap pm" "pm_Proxies (broadcastStatusEvents ev pm) = pm_Proxies pm"
  "pm_targetIndex (broadcastStatusEvents ev pm) = pm_targetIndex pm" "pm_building (broadcastStatusEvents ev pm) = pm_building pm"
  "pm_stopping (broadcastStatusEvents ev pm) = pm_stopping pm" "pm_tables (broadcastStatusEvents ev pm) = pm_tables pm"
  "pm_dns (broadcastStatusEvents ev pm) = pm_dns pm" "pm_tls (broadcastStatusEvents ev pm) = pm_tls pm"
  "reg_inv (broadcastStatusEvents ev pm) = reg_inv pm"
  by (simp_all add: broadcastStatusEvents_def reg_inv_def)

lemma fold_broadcast_keeps [simp]:
  "pm_heap (fold broadcastStatusEvents evs pm) = pm_heap pm" "pm_Proxies (fold broadcastStatusEvents evs pm) = pm_Proxies pm"
  "pm_targetIndex (fold broadcastStatusEvents evs pm) = pm_targetIndex pm" "pm_building (fold broadcastStatusEvents evs pm) = pm_building pm"
  "pm_stopping (fold broadcastStatusEvents evs pm) = pm_stopping pm" "pm_tables (fold broadcastStatusEvents evs pm) = pm_tables pm"
  "pm_dns (fold broadcastStatusEvents evs pm) = pm_dns pm" "pm_tls (fold broadcastStatusEvents evs pm) = pm_tls pm"
  by (induction evs arbitrary: pm) simp_all

lemma broadcast_subs_ok: "subs_ok pm \<Longrightarrow> subs_ok (broadcastStatusEvents ev pm)"
  by (auto simp: subs_ok_def broadcastStatusEvents_def offer_def statusSubChanBuf_def)

lemma fold_broadcast_subs_ok: "subs_ok pm \<Longrightarrow> subs_ok (fold broadcastStatusEvents evs pm)"
  by (induction evs arbitrary: pm) (simp_all add: broadcast_subs_ok)

lemma put_proxy_keeps [simp]:
  "pm_heap (put_proxy a p pm) = (pm_heap pm)[a := p]" "pm_Proxies (put_proxy a p pm) = pm_Proxies pm"
  "pm_targetIndex (put_proxy a p pm) = pm_targetIndex pm" "pm_building (put_proxy a p pm) = pm_building pm"
  "pm_stopping (put_proxy a p pm) = pm_stopping pm" "pm_tables (put_proxy a p pm) = pm_tables pm"
  "pm_dns (put_proxy a p pm) = pm_dns pm" "pm_tls (put_proxy a p pm) = pm_tls pm"
  by (simp_all add: put_proxy_def)

lemma subs_ok_cong: "pm_subs pm = pm_subs pm' \<Longrightarrow> subs_ok pm = subs_ok pm'"
  by (simp add: subs_ok_def)

lemma put_proxy_subs_ok: "subs_ok pm \<Longrightarrow> subs_ok (put_proxy a p pm)"
  unfolding put_proxy_def by (rule fold_broadcast_subs_ok) (simp add: subs_ok_def)

text \<open>A proxy may change in place as long as it keeps its configuration and stays closed once closed.\<close>

lemma put_proxy_reg_inv:
  assumes inv: "reg_inv pm" and a: "a < length (pm_heap pm)" and cfg: "px_Config p = px_Config (proxy_at pm a)"
    and cl: "px_closeOnce (proxy_at pm a) \<Longrightarrow> px_closeOnce p"
  shows "reg_inv (put_proxy a p pm)"
proof -
  note I = reg_invD [OF inv]
  have at: "px_Config (proxy_at (put_proxy a p pm) b) = px_Config (proxy_at pm b)" for b
    using cfg a by (cases "b = a") simp_all
  have at_cl: "px_closeOnce (proxy_at pm b) \<Longrightarrow> px_closeOnce (proxy_at (put_proxy a p pm) b)" for b
    using cl a by (cases "b = a") simp_all
  show ?thesis
  proof (rule reg_invI, goal_cases)
    case (1 h b)
    then show ?case using I(1) [of h b] at [of b] by simp
  next
    case (2 t h)
    then obtain b where "gm_get (pm_Proxies pm) h = Some b" "cfg_TargetID (px_Config (proxy_at pm b)) = t"
      using I(2) [of t h] by auto
    then show ?case using at [of b] by simp
  next
    case (3 h b)
    then show ?case using I(3) [of h b] at [of b] by simp
  next
    case (4 b)
    then have "px_closeOnce (proxy_at pm b)" by (intro I(4)) simp_all
    then show ?case by (rule at_cl)
  qed
qed

subsection \<open>What the proxy operations keep\<close>

lemma close_keeps: "px_Config (px_Close now p) = px_Config p" "px_closeOnce (px_Close now p)"
  by (auto simp: px_Close_def close_finish_def close_enter_def closePortsKeepMap_def stopHealthChecker_def Let_def
      split: option.splits)

lemma cleanupDomain_config: "px_Config (ds_proxy (cleanupDomainForProxy s)) = px_Config (ds_proxy s)"
  by (simp add: cleanupDomainForProxy_def setTLSStatus_def setDNSStatus_def Let_def)

lemma health_config [simp]:
  "px_Config (stopHealthChecker p) = px_Config p" "px_closeOnce (stopHealthChecker p) = px_closeOnce p"
  "px_closeOnce (px_startHealthChecker p) = px_closeOnce p"
  by (auto simp: px_startHealthChecker_def stopHealthChecker_def split: option.splits prod.splits)

lemma Start_config:
  assumes "Start env p = (e, q)"
  shows "px_Config q = px_Config p \<and> px_closeOnce q = px_closeOnce p"
proof (cases "fst (startProvider env p) = None")
  case False
  with assms show ?thesis by (auto simp: Start_def startProvider_def split: if_splits option.splits)
next
  case True
  let ?p = "px_startHealthChecker (p\<lparr>px_providerStarted := True\<rparr>)"
  from True have "startProvider env p = (None, p\<lparr>px_providerStarted := True\<rparr>)"
    by (auto simp: startProvider_def split: if_splits option.splits)
  with assms have "snd (listen_all env ?p) = q"
    by (auto simp: Start_def startListeners_def split: prod.splits if_splits)
  then have "same_but_ports ?p q" using listen_all_same by (metis prod.collapse)
  from same_but_portsD(1,8) [OF this] show ?thesis by simp
qed

lemma px_step_config:
  assumes "px_step p q"
  shows "px_Config q = px_Config p \<and> (px_closeOnce p \<longrightarrow> px_closeOnce q)"
  using assms
proof (cases rule: px_step.cases)
  case (PxStart env e)
  then show ?thesis using Start_config [OF PxStart(2)] by simp
next
  case (PxResumeFinish env e)
  from PxResumeFinish(2) show ?thesis
    by (cases rule: resume_finish_cases) (auto dest: same_but_portsD(1,8))
qed (auto simp: provider_event_def notifyURLReady_def port_failed_def pause_enter_def pause_finish_def
  resume_enter_def close_enter_def close_finish_def closeAndClearPorts_def closePortsKeepMap_def setMetricsReady_def
  setDNSStatus_def setTLSStatus_def SetDomainError_def SetDNSAndTLSProviders_def Let_def split: if_splits)

subsection \<open>Removal\<close>

lemma teardown_keeps:
  "pm_heap (teardownProxy now a pm) = (pm_heap pm)[a := px_Close now (ds_proxy (cleanupDomainForProxy
      \<lparr>ds_proxy = (proxy_at pm a)\<lparr>px_cancelled := True\<rparr>, ds_dns = pm_dns pm, ds_tls = pm_tls pm\<rparr>))]"
  "pm_Proxies (teardownProxy now a pm) = pm_Proxies pm" "pm_targetIndex (teardownProxy now a pm) = pm_targetIndex pm"
  "pm_building (teardownProxy now a pm) = pm_building pm" "pm_stopping (teardownProxy now a pm) = pm_stopping pm"
  by (simp_all add: teardownProxy_def updateProxyCount_def Let_def)

lemma teardown_at:
  assumes "a < length (pm_heap pm)"
  shows "px_Config (proxy_at (teardownProxy now a pm) b) = px_Config (proxy_at pm b)"
    "px_closeOnce (proxy_at (teardownProxy now a pm) a)"
    "b \<noteq> a \<Longrightarrow> proxy_at (teardownProxy now a pm) b = proxy_at pm b"
  using assms close_keeps cleanupDomain_config by (cases "b = a"; simp add: teardown_keeps)+

lemma unregister_fields [simp]:
  "pm_heap (unregister h a pm) = pm_heap pm" "pm_building (unregister h a pm) = pm_building pm"
  "pm_stopping (unregister h a pm) = pm_stopping pm"
  "pm_Proxies (unregister h a pm) = gm_del h (pm_Proxies pm)" "pm_subs (unregister h a pm) = pm_subs pm"
  "pm_targetIndex (unregister h a pm) =
     (if gm_get (pm_targetIndex pm) (cfg_TargetID (px_Config (proxy_at pm a))) = Some h
      then gm_del (cfg_TargetID (px_Config (proxy_at pm a))) (pm_targetIndex pm) else pm_targetIndex pm)"
  by (simp_all add: unregister_def Let_def)

lemma remove_reg_inv:
  assumes inv: "reg_inv pm" and h: "gm_get (pm_Proxies pm) h = Some a"
  shows "reg_inv (teardownProxy now a (unregister h a pm))"
proof -
  note I = reg_invD [OF inv]
  have a: "a < length (pm_heap (unregister h a pm))" using I(1) [OF h] by simp
  note at = teardown_at [OF a, where now = now]
  show ?thesis
  proof (rule reg_invI, goal_cases)
    case (1 k b)
    then have "gm_get (pm_Proxies pm) k = Some b" by (simp add: teardown_keeps split: if_splits)
    then show ?case using I(1) [of k b] at(1) [of b] by (simp add: teardown_keeps)
  next
    case (2 t k)
    then have t: "gm_get (pm_targetIndex pm) t = Some k" "t = cfg_TargetID (px_Config (proxy_at pm a)) \<longrightarrow> k \<noteq> h"
      by (auto simp: teardown_keeps split: if_splits)
    then obtain b where b: "gm_get (pm_Proxies pm) k = Some b" "cfg_TargetID (px_Config (proxy_at pm b)) = t"
      using I(2) by blast
    with t h have "k \<noteq> h" by auto
    with b at(1) [of b] show ?case by (simp add: teardown_keeps)
  next
    case (3 k b)
    then have "gm_get (pm_building pm) k = Some b" by (simp add: teardown_keeps)
    then show ?case using I(3) [of k b] at(1) [of b] by (simp add: teardown_keeps)
  next
    case (4 b)
    show ?case
    proof (cases "b = a")
      case True
      then show ?thesis using at(2) by simp
    next
      case False
      have "gm_get (pm_Proxies pm) k \<noteq> Some b" for k
        using 4(2) [rule_format, of k] h False by (auto simp: teardown_keeps split: if_splits)
      moreover have "gm_get (pm_building pm) k \<noteq> Some b" for k using 4(3) by (simp add: teardown_keeps)
      moreover have "b < length (pm_heap pm)" using 4(1) by (simp add: teardown_keeps)
      ultimately have "px_closeOnce (proxy_at pm b)" by (intro I(4))
      with at(3) [OF False] show ?thesis by simp
    qed
  qed
qed

lemma teardown_subs_ok: "subs_ok pm \<Longrightarrow> subs_ok (teardownProxy now a pm)"
proof -
  assume "subs_ok pm"
  then have "subs_ok (put_proxy a p (pm\<lparr>pm_dns := d, pm_tls := t\<rparr>))" for p d t
    by (intro put_proxy_subs_ok) (simp add: subs_ok_def)
  then show ?thesis by (simp add: teardownProxy_def Let_def updateProxyCount_def subs_ok_def)
qed

lemma removeAndTeardown_inv:
  assumes "pm_inv pm" "removeAndTeardown now h identity pm = (r, pm')"
  shows "pm_inv pm'"
proof -
  have "subs_ok (unregister h a pm) = subs_ok pm" for a by (simp add: subs_ok_def)
  with assms remove_reg_inv [of pm h _ now] teardown_subs_ok show ?thesis
    by (auto simp: removeAndTeardown_def pm_inv_def split: option.splits if_splits)
qed

lemma removeAndTeardown_Proxies:
  "removeAndTeardown now h identity pm = (r, pm') \<Longrightarrow>
   pm_Proxies pm' = (if r = None then pm_Proxies pm else gm_del h (pm_Proxies pm)) \<and> pm_building pm' = pm_building pm \<and>
   length (pm_heap pm') = length (pm_heap pm) \<and> pm_stopping pm' = pm_stopping pm \<and> (r = None \<longrightarrow> pm' = pm)"
  by (auto simp: removeAndTeardown_def teardown_keeps split: option.splits if_splits)

subsection \<open>Creation\<close>

lemma resolve_hostname:
  "resolveProxyProvider pm cfg = Inr (prov, cfg') \<Longrightarrow> cfg_Hostname cfg' = cfg_Hostname cfg \<and> cfg_TargetID cfg' = cfg_TargetID cfg"
  by (auto simp: resolveProxyProvider_def split: sum.splits if_splits)

lemma NewProxy_config: "px_Config (NewProxy cfg m now) = cfg"
  by (simp add: NewProxy_def initPorts_def)

lemma closeAndRemove_gone:
  assumes "pm_inv pm"
  shows "pm_inv (closeAndRemoveProxy now h pm)" "gm_get (pm_Proxies (closeAndRemoveProxy now h pm)) h = None"
    "pm_building (closeAndRemoveProxy now h pm) = pm_building pm"
    "k \<noteq> h \<Longrightarrow> gm_get (pm_Proxies (closeAndRemoveProxy now h pm)) k = gm_get (pm_Proxies pm) k"
    "pm_stopping (closeAndRemoveProxy now h pm) = pm_stopping pm"
proof -
  obtain r pm' where r: "removeAndTeardown now h (\<lambda>_. True) pm = (r, pm')" by (metis prod.exhaust)
  have c: "closeAndRemoveProxy now h pm = pm'" using r by (simp add: closeAndRemoveProxy_def)
  show "pm_inv (closeAndRemoveProxy now h pm)" using removeAndTeardown_inv [OF assms r] c by simp
  have "r = None \<longrightarrow> gm_get (pm_Proxies pm) h = None" using r by (auto simp: removeAndTeardown_def split: option.splits)
  with removeAndTeardown_Proxies [OF r] c
  show "gm_get (pm_Proxies (closeAndRemoveProxy now h pm)) h = None"
    "pm_building (closeAndRemoveProxy now h pm) = pm_building pm"
    "k \<noteq> h \<Longrightarrow> gm_get (pm_Proxies (closeAndRemoveProxy now h pm)) k = gm_get (pm_Proxies pm) k"
    "pm_stopping (closeAndRemoveProxy now h pm) = pm_stopping pm"
    by auto
qed

text \<open>Adding a new proxy that is still being built.\<close>

lemma build_reg_inv:
  assumes inv: "reg_inv pm" and free: "gm_get (pm_Proxies pm) h = None" "gm_get (pm_building pm) h = None"
    and host: "cfg_Hostname (px_Config p) = h"
  shows "reg_inv (pm\<lparr>pm_heap := pm_heap pm @ [p], pm_building := gm_put h (length (pm_heap pm)) (pm_building pm)\<rparr>)"
proof (rule reg_invI, goal_cases)
  note I = reg_invD [OF inv]
  {
    case (1 k b)
    then show ?case using I(1) [of k b] by (simp add: nth_append)
  next
    case (2 t k)
    then obtain b where b: "gm_get (pm_Proxies pm) k = Some b" "cfg_TargetID (px_Config (proxy_at pm b)) = t"
      using I(2) [of t k] by auto
    with I(1) [OF b(1)] show ?case by (simp add: nth_append)
  next
    case (3 k b)
    then show ?case using I(3) [of k b] free host by (auto simp: nth_append split: if_splits)
  next
    case (4 b)
    then have nb: "b \<noteq> length (pm_heap pm)" "\<forall>k. gm_get (pm_building pm) k \<noteq> Some b"
      using free(2) by (auto split: if_splits) (metis option.distinct(1))
    with 4 have "b < length (pm_heap pm)" by simp
    moreover from this 4 nb have "px_closeOnce (proxy_at pm b)" by (intro I(4)) auto
    ultimately show ?case by (simp add: nth_append)
  }
qed

lemma newProxy_begin_inv:
  assumes inv: "pm_inv pm" and free: "gm_get (pm_building pm) (cfg_Hostname cfg) = None"
    and st: "newProxy_begin env cfg pm = (r, pm')"
  shows "pm_inv pm'"
proof (cases "pm_stopping pm \<or> isl (resolveProxyProvider pm cfg)")
  case True
  with st inv show ?thesis by (auto simp: newProxy_begin_def split: sum.splits prod.splits if_splits)
next
  case False
  then obtain prov cfg' where rp: "resolveProxyProvider pm cfg = Inr (prov, cfg')"
    by (cases "resolveProxyProvider pm cfg") auto
  let ?pm = "closeAndRemoveProxy (me_now env) (cfg_Hostname cfg') pm"
  note h = resolve_hostname [OF rp]
  note C = closeAndRemove_gone [OF inv, where now = "me_now env" and h = "cfg_Hostname cfg'"]
  show ?thesis
  proof (cases "pp_NewProxy prov cfg'")
    case (Some e)
    with st False rp C(1) show ?thesis by (auto simp: newProxy_begin_def)
  next
    case None
    let ?q = "NewProxy cfg' (Some \<lparr>ms_status = [], ms_up = 0\<rparr>) (me_now env)"
    from None st False rp have pm': "pm' = ?pm\<lparr>pm_heap := pm_heap ?pm @ [?q],
        pm_building := gm_put (cfg_Hostname cfg') (length (pm_heap ?pm)) (pm_building ?pm)\<rparr>"
      by (auto simp: newProxy_begin_def Let_def)
    have "reg_inv pm'"
      unfolding pm' by (rule build_reg_inv) (use C h free NewProxy_config in \<open>simp_all add: pm_inv_def\<close>)
    then show ?thesis using C(1) by (simp add: pm' pm_inv_def subs_ok_def)
  qed
qed

text \<open>The proxy being built becomes the registered one.\<close>

lemma register_reg_inv:
  assumes inv: "reg_inv pm" and b: "gm_get (pm_building pm) h = Some a"
  shows "reg_inv (pm\<lparr>pm_building := gm_del h (pm_building pm), pm_Proxies := gm_put h a (pm_Proxies pm),
    pm_targetIndex := gm_put (cfg_TargetID (px_Config (proxy_at pm a))) h (pm_targetIndex pm)\<rparr>)"
proof (rule reg_invI, goal_cases)
  note I = reg_invD [OF inv]
  note B = I(3) [OF b]
  {
    case (1 k c)
    then show ?case using I(1) [of k c] B by (auto split: if_splits)
  next
    case (2 t k)
    then show ?case using I(2) [of t k] B by (auto split: if_splits)
  next
    case (3 k c)
    then show ?case using I(3) [of k c] by (auto split: if_splits)
  next
    case (4 c)
    then have c: "c < length (pm_heap pm)" by simp
    from 4(2) have "c \<noteq> a" by (auto split: if_splits)
    moreover have "gm_get (pm_Proxies pm) k \<noteq> Some c" for k
      using 4(2) [rule_format, of k] B by (auto split: if_splits)
    moreover have "gm_get (pm_building pm) k \<noteq> Some c" for k
      using 4(3) [rule_format, of k] b \<open>c \<noteq> a\<close> by (auto split: if_splits)
    ultimately show ?case using I(4) [OF c] by simp
  }
qed

text \<open>The proxy being built is dropped, closed.\<close>

lemma drop_reg_inv:
  assumes inv: "reg_inv pm" and b: "gm_get (pm_building pm) h = Some a"
    and p: "px_Config p = px_Config (proxy_at pm a)" "px_closeOnce p"
  shows "reg_inv (put_proxy a p (pm\<lparr>pm_building := gm_del h (pm_building pm)\<rparr>))"
proof (rule reg_invI, goal_cases)
  note I = reg_invD [OF inv]
  note B = I(3) [OF b]
  have at: "px_Config ((pm_heap pm)[a := p] ! c) = px_Config (proxy_at pm c)" for c
    using p B by (cases "c = a") simp_all
  {
    case (1 k c)
    then show ?case using I(1) [of k c] by (simp add: at)
  next
    case (2 t k)
    then show ?case using I(2) [of t k] by (simp add: at)
  next
    case (3 k c)
    then show ?case using I(3) [of k c] by (simp add: at split: if_splits)
  next
    case (4 c)
    show ?case
    proof (cases "c = a")
      case True
      then show ?thesis using B p(2) by simp
    next
      case False
      have "gm_get (pm_building pm) k \<noteq> Some c" for k
        using 4(3) [rule_format, of k] b False by (auto split: if_splits)
      then have "px_closeOnce (proxy_at pm c)" using 4(1,2) by (intro I(4)) simp_all
      with False show ?thesis by simp
    qed
  }
qed

definition same_cfg :: "Proxy \<Rightarrow> Proxy \<Rightarrow> bool" where
  "same_cfg p q \<longleftrightarrow> px_Config q = px_Config p \<and> px_closeOnce q = px_closeOnce p"

lemma same_cfg_simps [simp]:
  "same_cfg p p" "same_cfg p (setDNSStatus s q) = same_cfg p q" "same_cfg p (setTLSStatus s q) = same_cfg p q"
  "same_cfg p (SetDomainError m q) = same_cfg p q" "same_cfg p (SetDNSAndTLSProviders d t q) = same_cfg p q"
  "same_cfg p (q\<lparr>px_tlsProvider := x\<rparr>) = same_cfg p q" "same_cfg p (setMetricsReady r q) = same_cfg p q"
  by (simp_all add: same_cfg_def setDNSStatus_def setTLSStatus_def SetDomainError_def SetDNSAndTLSProviders_def setMetricsReady_def)

lemma tls_stage_same: "same_cfg (ds_proxy s) (ds_proxy (snd (tls_stage env dns tls domain s)))"
  by (auto simp: tls_stage_def Let_def split: prod.splits option.splits)

lemma dns_stage_same: "same_cfg (ds_proxy s) (ds_proxy (snd (dns_stage env dns tls domain s)))"
proof -
  have "same_cfg (ds_proxy s) (ds_proxy (snd (tls_stage env dns tls domain (s\<lparr>ds_proxy := setDNSStatus x (ds_proxy s), ds_dns := l\<rparr>))))" for x l
    using tls_stage_same [of "s\<lparr>ds_proxy := setDNSStatus x (ds_proxy s), ds_dns := l\<rparr>" env dns tls domain]
    by (simp add: same_cfg_def setDNSStatus_def)
  then show ?thesis by (auto simp: dns_stage_def Let_def split: prod.splits option.splits sum.splits)
qed

lemma setupDomain_same: "same_cfg (ds_proxy s) (ds_proxy (snd (setupDomainForProxy env s)))"
proof -
  have "same_cfg (ds_proxy s) (ds_proxy (snd (dns_stage env dns tls dom (s\<lparr>ds_proxy := (ds_proxy s)\<lparr>px_tlsProvider := x\<rparr>\<rparr>))))" for dns tls dom x
    using dns_stage_same [of "s\<lparr>ds_proxy := (ds_proxy s)\<lparr>px_tlsProvider := x\<rparr>\<rparr>" env dns tls dom] by (simp add: same_cfg_def)
  then show ?thesis
    using dns_stage_same [of s env]
    by (auto simp: setupDomainForProxy_def configureTailscaleTLS_def Let_def split: option.splits sum.splits)
qed

lemma prepareDomain_same: "prepareDomainSetup nA t cfg p = Some (skip, q) \<Longrightarrow> same_cfg p q"
  by (auto simp: prepareDomainSetup_def resolveAndSetProviders_def split: option.splits sum.splits resolve_error.splits)

lemma configureDomain_same:
  assumes "configureProxyDomain nA t env msg s = Some s'"
  shows "same_cfg (ds_proxy s) (ds_proxy s')"
proof (cases "cfg_Domain (px_Config (ds_proxy s)) = []")
  case True
  with assms show ?thesis by (simp add: configureProxyDomain_def)
next
  case False
  with assms obtain skip q where pr: "prepareDomainSetup nA t (px_Config (ds_proxy s)) (ds_proxy s) = Some (skip, q)"
    by (auto simp: configureProxyDomain_def split: option.splits)
  note sq = prepareDomain_same [OF pr]
  have "same_cfg (ds_proxy s) (ds_proxy (snd (setupDomainForProxy env (s\<lparr>ds_proxy := q\<rparr>))))"
    using setupDomain_same [of "s\<lparr>ds_proxy := q\<rparr>" env] sq by (simp add: same_cfg_def)
  with assms False pr sq show ?thesis
    by (cases skip) (auto simp: configureProxyDomain_def split: prod.splits option.splits)
qed

lemma configure_domain_inv:
  assumes inv: "pm_inv pm" and a: "a < length (pm_heap pm)" and c: "configure_domain env a pm = Some pm'"
  shows "pm_inv pm'" "length (pm_heap pm') = length (pm_heap pm)" "pm_Proxies pm' = pm_Proxies pm"
    "pm_targetIndex pm' = pm_targetIndex pm" "px_Config (proxy_at pm' a) = px_Config (proxy_at pm a)"
proof -
  obtain s where s: "configureProxyDomain (me_newACME env) (pm_tables pm) (me_setup env) (me_msg env)
             \<lparr>ds_proxy = proxy_at pm a, ds_dns = pm_dns pm, ds_tls = pm_tls pm\<rparr> = Some s"
    and pm': "pm' = put_proxy a (ds_proxy s) (pm\<lparr>pm_dns := ds_dns s, pm_tls := ds_tls s\<rparr>)"
    using c by (auto simp: configure_domain_def split: option.splits)
  have same: "same_cfg (proxy_at pm a) (ds_proxy s)" using configureDomain_same [OF s] by simp
  have i: "reg_inv (pm\<lparr>pm_dns := ds_dns s, pm_tls := ds_tls s\<rparr>)" "subs_ok (pm\<lparr>pm_dns := ds_dns s, pm_tls := ds_tls s\<rparr>)"
    using inv by (simp_all add: pm_inv_def reg_inv_def subs_ok_def)
  have "reg_inv pm'" unfolding pm' by (rule put_proxy_reg_inv [OF i(1)]) (use a same in \<open>simp_all add: same_cfg_def\<close>)
  moreover have "subs_ok pm'" unfolding pm' by (rule put_proxy_subs_ok [OF i(2)])
  ultimately show "pm_inv pm'" by (simp add: pm_inv_def)
  show "length (pm_heap pm') = length (pm_heap pm)" "pm_Proxies pm' = pm_Proxies pm" "pm_targetIndex pm' = pm_targetIndex pm"
    "px_Config (proxy_at pm' a) = px_Config (proxy_at pm a)"
    using pm' same a by (simp_all add: same_cfg_def)
qed

text \<open>What a successful second half leaves behind.\<close>

lemma newProxy_finish_ok:
  assumes inv: "pm_inv pm" and b: "gm_get (pm_building pm) h = Some a" and st: "newProxy_finish env a pm = (r, pm')"
  shows "pm_inv pm'"
    "pm_stopping pm \<Longrightarrow> r = Inl ShuttingDown"
    "\<not> pm_stopping pm \<Longrightarrow> pm_Proxies pm' = gm_put h a (pm_Proxies pm) \<and>
       pm_targetIndex pm' = gm_put (cfg_TargetID (px_Config (proxy_at pm a))) h (pm_targetIndex pm) \<and>
       px_Config (proxy_at pm' a) = px_Config (proxy_at pm a)"
proof -
  let ?cfg = "px_Config (proxy_at pm a)"
  have B: "a < length (pm_heap pm)" "cfg_Hostname ?cfg = h" "gm_get (pm_Proxies pm) h = None"
    using reg_invD(3) [OF _ b] inv by (auto simp: pm_inv_def)
  let ?pm0 = "pm\<lparr>pm_building := gm_del h (pm_building pm)\<rparr>"
  let ?pm1 = "pm\<lparr>pm_building := gm_del h (pm_building pm), pm_Proxies := gm_put h a (pm_Proxies pm),
    pm_targetIndex := gm_put (cfg_TargetID ?cfg) h (pm_targetIndex pm)\<rparr>"
  have i1: "pm_inv ?pm1" using register_reg_inv [OF _ b] inv by (simp add: pm_inv_def subs_ok_def)
  have swap: "?pm0\<lparr>pm_Proxies := x, pm_targetIndex := y\<rparr> =
      pm\<lparr>pm_building := gm_del h (pm_building pm), pm_Proxies := x, pm_targetIndex := y\<rparr>" for x y
    by simp
  have reg: "registerProxy a ?cfg ?pm0 = (if pm_stopping pm then Inl ShuttingDown else Inr ?pm1)"
    using B by (simp add: registerProxy_def)
  have "pm_inv pm' \<and> (pm_stopping pm \<longrightarrow> r = Inl ShuttingDown) \<and> (\<not> pm_stopping pm \<longrightarrow> pm_Proxies pm' = gm_put h a (pm_Proxies pm) \<and>
       pm_targetIndex pm' = gm_put (cfg_TargetID ?cfg) h (pm_targetIndex pm) \<and> px_Config (proxy_at pm' a) = ?cfg)"
  proof (cases "pm_stopping pm")
    case True
    with st B reg have pm': "r = Inl ShuttingDown" "pm' = put_proxy a (px_Close (me_now env) (proxy_at pm a)) ?pm0"
      by (auto simp: newProxy_finish_def Let_def)
    have "reg_inv pm'" unfolding pm'(2)
      by (rule drop_reg_inv [OF _ b]) (use inv close_keeps in \<open>simp_all add: pm_inv_def\<close>)
    moreover have "subs_ok pm'" unfolding pm'(2) by (rule put_proxy_subs_ok) (use inv in \<open>simp add: pm_inv_def subs_ok_def\<close>)
    ultimately show ?thesis using True pm' by (simp add: pm_inv_def)
  next
    case False
    show ?thesis
    proof (cases "configure_domain env a ?pm1")
      case None
      with False st B reg have "pm' = ?pm1" by (auto simp: newProxy_finish_def Let_def)
      with i1 False show ?thesis by simp
    next
      case (Some pm2)
      note C = configure_domain_inv [OF i1 _ Some]
      let ?pm3 = "put_proxy a (setMetricsReady True (proxy_at pm2 a)) pm2"
      from Some False st B reg have pm': "pm' = broadcastStatusEvents (mk_event (cfg_Hostname ?cfg) ProxyStatusInitializing [])
          (updateProxyCount ?pm3)" by (auto simp: newProxy_finish_def Let_def)
      have a2: "a < length (pm_heap pm2)" using C(2) B by simp
      have "reg_inv ?pm3"
        by (rule put_proxy_reg_inv) (use C(1) B a2 in \<open>simp_all add: pm_inv_def setMetricsReady_def\<close>)
      moreover have "subs_ok ?pm3" by (rule put_proxy_subs_ok) (use C(1) B in \<open>simp add: pm_inv_def\<close>)
      ultimately have "pm_inv pm'"
        unfolding pm' pm_inv_def by (auto simp: updateProxyCount_def reg_inv_def subs_ok_def intro!: broadcast_subs_ok [unfolded subs_ok_def])
      moreover have "px_Config (proxy_at pm' a) = ?cfg"
        using pm' C(5) B a2 by (simp add: updateProxyCount_def setMetricsReady_def)
      ultimately show ?thesis using False pm' C(3,4) B by (simp add: updateProxyCount_def)
    qed
  qed
  then show "pm_inv pm'" "pm_stopping pm \<Longrightarrow> r = Inl ShuttingDown" "\<not> pm_stopping pm \<Longrightarrow> pm_Proxies pm' = gm_put h a (pm_Proxies pm) \<and>
       pm_targetIndex pm' = gm_put (cfg_TargetID ?cfg) h (pm_targetIndex pm) \<and> px_Config (proxy_at pm' a) = ?cfg" by simp_all
qed

lemma put_same_inv:
  "pm_inv pm \<Longrightarrow> a < length (pm_heap pm) \<Longrightarrow> px_Config p = px_Config (proxy_at pm a) \<Longrightarrow>
   (px_closeOnce (proxy_at pm a) \<Longrightarrow> px_closeOnce p) \<Longrightarrow> pm_inv (put_proxy a p pm)"
  by (simp add: pm_inv_def put_proxy_reg_inv put_proxy_subs_ok)

lemma pm_step_inv:
  assumes "pm_inv pm" "pm_step pm pm'"
  shows "pm_inv pm'"
  using assms(2)
proof (cases rule: pm_step.cases)
  case (PmBegin cfg env r)
  then show ?thesis using newProxy_begin_inv [OF assms(1)] by blast
next
  case (PmFinish h a env r)
  then show ?thesis using newProxy_finish_ok(1) [OF assms(1)] by blast
next
  case (PmRemove now h identity r)
  then show ?thesis using removeAndTeardown_inv [OF assms(1)] by blast
next
  case (PmProxy a q)
  then show ?thesis using px_step_config [OF PmProxy(3)] by (auto intro!: put_same_inv assms(1))
next
  case (PmLastError a m)
  then show ?thesis by (auto intro!: put_same_inv assms(1))
next
  case (PmBroadcast ev)
  then show ?thesis using assms(1) by (simp add: pm_inv_def broadcast_subs_ok)
next
  case (PmSubscribe s)
  then show ?thesis
    using assms(1) by (auto simp: SubscribeStatusEvents_def pm_inv_def reg_inv_def subs_ok_def dest!: gm_put_set)
next
  case (PmCancel s)
  then show ?thesis
    using assms(1) by (auto simp: cancelSubscription_def pm_inv_def reg_inv_def subs_ok_def dest!: gm_del_set)
next
  case (PmReceive s q)
  then have "length (tl q) \<le> statusSubChanBuf" using assms(1) by (auto simp: pm_inv_def subs_ok_def dest!: map_of_SomeD)
  then show ?thesis using PmReceive assms(1) by (auto simp: pm_inv_def reg_inv_def subs_ok_def dest!: gm_put_set)
next
  case PmStop
  then show ?thesis using assms(1) by (simp add: pm_inv_def reg_inv_def subs_ok_def)
qed

interpretation pm: invariant_system pm_start pm_step pm_inv
proof
  show "pm_inv s" if "pm_start s" for s
    using that by (simp add: pm_start_def pm_inv_def reg_inv_def subs_ok_def)
qed (rule pm_step_inv)

end
