(* ===== verification/Registry.thy ===== *)
theory Registry
  imports Proxy_Manager
begin

text \<open>
  What the registry of the proxy manager guarantees: its maps agree with each other in
  every interleaving, no proxy is dropped without being closed, and what the events of
  a target do to it.
\<close>

section \<open>Consistency in every interleaving\<close>


text \<open>
  Publishing status events never blocks and never grows without bound: in every reachable
  state each dashboard subscription has at most 64 events queued.
\<close>

theorem subscribers_bounded:
  assumes "pm_reach pm" "gm_get (pm_subs pm) s = Some q"
  shows "length q \<le> 64"
  using pm.reach_inv [OF assms(1)] assms(2)
  by (auto simp: pm_inv_def subs_ok_def statusSubChanBuf_def dest!: map_of_SomeD)

section \<open>Stop events\<close>

lemma close_status: "\<not> px_closeOnce p \<Longrightarrow> px_status (px_Close now p) = ProxyStatusStopped"
  by (auto simp: px_Close_def close_finish_def close_enter_def closePortsKeepMap_def setStatus_status Let_def)

lemma cleanup_closeOnce: "px_closeOnce (ds_proxy (cleanupDomainForProxy s)) = px_closeOnce (ds_proxy s)"
  by (simp add: cleanupDomainForProxy_def setTLSStatus_def setDNSStatus_def Let_def)

lemma teardown_status:
  assumes "a < length (pm_heap pm)" "\<not> px_closeOnce (proxy_at pm a)"
  shows "px_status (proxy_at (teardownProxy now a pm) a) = ProxyStatusStopped"
  using assms by (simp add: teardown_keeps close_status cleanup_closeOnce)

lemma eventStop_indexed:
  assumes inv: "pm_inv pm" and idx: "gm_get (pm_targetIndex pm) (te_ID ev) = Some h" "h \<noteq> []"
  obtains a where "gm_get (pm_Proxies pm) h = Some a" "cfg_TargetID (px_Config (proxy_at pm a)) = te_ID ev"
    "a < length (pm_heap pm)" "eventStop now ev pm = teardownProxy now a (unregister h a pm)"
proof -
  obtain a where a: "gm_get (pm_Proxies pm) h = Some a" "cfg_TargetID (px_Config (proxy_at pm a)) = te_ID ev"
    using inv idx by (auto simp: pm_inv_def dest: reg_invD(2))
  moreover have "a < length (pm_heap pm)" using inv a(1) by (auto simp: pm_inv_def dest: reg_invD(1))
  ultimately show ?thesis using that idx by (simp add: eventStop_def removeAndTeardown_def)
qed

text \<open>
  C19: a stop event for a target takes down exactly the proxy indexed for it: afterwards the
  target is not indexed, its host name is free, the proxy is closed (and Stopped, if it
  was not closed already), and every other host name keeps its proxy.
\<close>

theorem eventStop_effect:
  assumes "pm_reach pm" and "gm_get (pm_targetIndex pm) (te_ID ev) = Some h" "h \<noteq> []" and "gm_get (pm_Proxies pm) h = Some a"
  shows "gm_get (pm_targetIndex (eventStop now ev pm)) (te_ID ev) = None \<and> gm_get (pm_Proxies (eventStop now ev pm)) h = None \<and>
    px_closeOnce (proxy_at (eventStop now ev pm) a) \<and>
    (\<not> px_closeOnce (proxy_at pm a) \<longrightarrow> px_status (proxy_at (eventStop now ev pm) a) = ProxyStatusStopped) \<and>
    (\<forall>k. k \<noteq> h \<longrightarrow> gm_get (pm_Proxies (eventStop now ev pm)) k = gm_get (pm_Proxies pm) k) \<and>
    (\<forall>t. t \<noteq> te_ID ev \<longrightarrow> gm_get (pm_targetIndex (eventStop now ev pm)) t = gm_get (pm_targetIndex pm) t)"
proof -
  note inv = pm.reach_inv [OF assms(1)]
  obtain b where b: "gm_get (pm_Proxies pm) h = Some b" "cfg_TargetID (px_Config (proxy_at pm b)) = te_ID ev"
    "b < length (pm_heap pm)" "eventStop now ev pm = teardownProxy now b (unregister h b pm)"
    using eventStop_indexed [OF inv assms(2,3)] by blast
  with assms(4) have ab: "b = a" by simp
  have "px_closeOnce (proxy_at (eventStop now ev pm) a)" using teardown_at(2) [of b "unregister h b pm" now] b ab by simp
  moreover have "px_status (proxy_at (eventStop now ev pm) a) = ProxyStatusStopped" if "\<not> px_closeOnce (proxy_at pm a)"
    using teardown_status [of b "unregister h b pm" now] b ab that by simp
  ultimately show ?thesis using b ab assms(2) by (auto simp: teardown_keeps)
qed

section \<open>Start events\<close>

lemma newProxy_ok:
  assumes inv: "pm_inv pm" and free: "gm_get (pm_building pm) (cfg_Hostname cfg) = None"
    and np: "newProxy env cfg pm = (Inr a, pm1)"
  shows "pm_inv pm1" "gm_get (pm_Proxies pm1) (cfg_Hostname cfg) = Some a" "a < length (pm_heap pm1)"
    "gm_get (pm_targetIndex pm1) (cfg_TargetID cfg) = Some (cfg_Hostname cfg)"
    "cfg_Hostname (px_Config (proxy_at pm1 a)) = cfg_Hostname cfg" "cfg_TargetID (px_Config (proxy_at pm1 a)) = cfg_TargetID cfg"
    "k \<noteq> cfg_Hostname cfg \<Longrightarrow> gm_get (pm_Proxies pm1) k = gm_get (pm_Proxies pm) k"
proof -
  obtain pm0 where bg: "newProxy_begin env cfg pm = (Inr a, pm0)" and fin: "newProxy_finish env a pm0 = (Inr a, pm1)"
    using np by (auto simp: newProxy_def newProxy_finish_def Let_def split: prod.splits sum.splits option.splits)
  obtain prov cfg' where ns: "\<not> pm_stopping pm" and rp: "resolveProxyProvider pm cfg = Inr (prov, cfg')"
    using bg by (auto simp: newProxy_begin_def split: if_splits sum.splits)
  note h = resolve_hostname [OF rp]
  let ?pm = "closeAndRemoveProxy (me_now env) (cfg_Hostname cfg') pm"
  note C = closeAndRemove_gone [OF inv, where now = "me_now env" and h = "cfg_Hostname cfg'"]
  have a: "a = length (pm_heap ?pm)" and pm0: "pm0 = ?pm\<lparr>pm_heap := pm_heap ?pm @ [NewProxy cfg' (Some \<lparr>ms_status = [], ms_up = 0\<rparr>) (me_now env)],
      pm_building := gm_put (cfg_Hostname cfg') a (pm_building ?pm)\<rparr>"
    using bg ns rp by (auto simp: newProxy_begin_def Let_def split: option.splits)
  have cfg0: "px_Config (proxy_at pm0 a) = cfg'" by (simp add: pm0 a NewProxy_config)
  have bld: "gm_get (pm_building pm0) (cfg_Hostname cfg) = Some a" using h by (simp add: pm0)
  have st0: "\<not> pm_stopping pm0" using C(5) ns by (simp add: pm0)
  note F = newProxy_finish_ok [OF newProxy_begin_inv [OF inv free bg] bld fin]
  show "pm_inv pm1" by (rule F(1))
  show P: "gm_get (pm_Proxies pm1) (cfg_Hostname cfg) = Some a" using F(3) [OF st0] by simp
  then show "a < length (pm_heap pm1)" using F(1) by (auto simp: pm_inv_def dest: reg_invD(1))
  show "gm_get (pm_targetIndex pm1) (cfg_TargetID cfg) = Some (cfg_Hostname cfg)" using F(3) [OF st0] cfg0 h by simp
  show "cfg_Hostname (px_Config (proxy_at pm1 a)) = cfg_Hostname cfg" "cfg_TargetID (px_Config (proxy_at pm1 a)) = cfg_TargetID cfg"
    using F(3) [OF st0] cfg0 h by simp_all
  show "gm_get (pm_Proxies pm1) k = gm_get (pm_Proxies pm) k" if "k \<noteq> cfg_Hostname cfg"
    using that F(3) [OF st0] C(4) h by (simp add: pm0)
qed

lemma start_at_ok:
  assumes inv: "pm_inv pm" and a: "a < length (pm_heap pm)" and st: "start_at penv a pm = (e, pm')"
  shows "pm_inv pm'" "pm_Proxies pm' = pm_Proxies pm" "pm_targetIndex pm' = pm_targetIndex pm"
    "px_Config (proxy_at pm' a) = px_Config (proxy_at pm a)" "length (pm_heap pm') = length (pm_heap pm)"
    "e = fst (Start penv (proxy_at pm a))"
proof -
  obtain q where q: "Start penv (proxy_at pm a) = (e, q)" "pm' = put_proxy a q pm"
    using st by (auto simp: start_at_def Let_def split: prod.splits)
  note c = Start_config [OF q(1)]
  show "pm_inv pm'" unfolding q(2) by (rule put_same_inv [OF inv a]) (use c in simp_all)
  show "pm_Proxies pm' = pm_Proxies pm" "pm_targetIndex pm' = pm_targetIndex pm"
    "px_Config (proxy_at pm' a) = px_Config (proxy_at pm a)" "length (pm_heap pm') = length (pm_heap pm)"
    "e = fst (Start penv (proxy_at pm a))"
    using q a c by simp_all
qed

lemma closeIfCurrent_effect:
  assumes inv: "pm_inv pm" and cur: "gm_get (pm_Proxies pm) (cfg_Hostname (px_Config (proxy_at pm a))) = Some a"
  shows "gm_get (pm_Proxies (closeProxyIfStillCurrent now a pm)) (cfg_Hostname (px_Config (proxy_at pm a))) = None"
    "px_closeOnce (proxy_at (closeProxyIfStillCurrent now a pm) a)"
    "gm_get (pm_targetIndex (closeProxyIfStillCurrent now a pm)) (cfg_TargetID (px_Config (proxy_at pm a))) \<noteq>
       Some (cfg_Hostname (px_Config (proxy_at pm a)))"
proof -
  let ?h = "cfg_Hostname (px_Config (proxy_at pm a))"
  have a: "a < length (pm_heap (unregister ?h a pm))" using inv cur by (auto simp: pm_inv_def dest: reg_invD(1))
  have eq: "closeProxyIfStillCurrent now a pm = teardownProxy now a (unregister ?h a pm)"
    using cur by (simp add: closeProxyIfStillCurrent_def removeAndTeardown_def)
  show "gm_get (pm_Proxies (closeProxyIfStillCurrent now a pm)) ?h = None" by (simp add: eq teardown_keeps)
  show "px_closeOnce (proxy_at (closeProxyIfStillCurrent now a pm) a)" unfolding eq by (rule teardown_at(2) [OF a])
  show "gm_get (pm_targetIndex (closeProxyIfStillCurrent now a pm)) (cfg_TargetID (px_Config (proxy_at pm a))) \<noteq> Some ?h"
    by (simp add: eq teardown_keeps)
qed

text \<open>
  C8: handling a start event whose proxy could be created ends in one of two states: if the
  proxy starts, it is registered under its host name and its target is indexed there; if
  it does not, nothing is registered under that host name, the target does not point to
  it, and the proxy has been closed. No failed proxy stays registered.
\<close>

theorem start_event_outcome:
  assumes reach: "pm_reach pm" and act: "te_Action ev = ActionStartProxy" and add: "tg_AddTarget (te_TargetProvider ev) (te_ID ev) = Inr cfg"
    and free: "gm_get (pm_building pm) (cfg_Hostname cfg) = None" and np: "newProxy env cfg pm = (Inr a, pm1)"
  shows "let pm' = HandleProxyEvent env penv errText ev pm in
    if fst (Start penv (proxy_at pm1 a)) = None
    then gm_get (pm_Proxies pm') (cfg_Hostname cfg) = Some a \<and>
         gm_get (pm_targetIndex pm') (cfg_TargetID cfg) = Some (cfg_Hostname cfg)
    else gm_get (pm_Proxies pm') (cfg_Hostname cfg) = None \<and>
         gm_get (pm_targetIndex pm') (cfg_TargetID cfg) \<noteq> Some (cfg_Hostname cfg) \<and> px_closeOnce (proxy_at pm' a)"
proof -
  note inv = pm.reach_inv [OF reach]
  note N = newProxy_ok [OF inv free np]
  obtain e pm2 where st: "start_at penv a pm1 = (e, pm2)" by (metis prod.exhaust)
  note S = start_at_ok [OF N(1,3) st]
  have h: "HandleProxyEvent env penv errText ev pm = start_created env penv errText a pm1"
    using act add np by (simp add: HandleProxyEvent_def handle_locked_def eventStart_def)
  show ?thesis
  proof (cases e)
    case None
    then have "HandleProxyEvent env penv errText ev pm = pm2" using h st N by (simp add: start_created_def GetProxy_def)
    with None S N show ?thesis by simp
  next
    case (Some err)
    let ?p3 = "put_proxy a ((proxy_at pm2 a)\<lparr>px_lastError := errText err\<rparr>) pm2"
    let ?p4 = "broadcastStatusEvents (mk_event (cfg_Hostname cfg) ProxyStatusError (errText err)) ?p3"
    have res: "HandleProxyEvent env penv errText ev pm = closeProxyIfStillCurrent (me_now env) a ?p4"
      using Some h st N by (simp add: start_created_def GetProxy_def Let_def)
    have a2: "a < length (pm_heap pm2)" using S(5) N(3) by simp
    have i3: "pm_inv ?p3" by (rule put_same_inv [OF S(1) a2]) simp_all
    then have i4: "pm_inv ?p4" by (simp add: pm_inv_def broadcast_subs_ok)
    have c4: "px_Config (proxy_at ?p4 a) = px_Config (proxy_at pm1 a)" using a2 S(4) by simp
    have cur: "gm_get (pm_Proxies ?p4) (cfg_Hostname (px_Config (proxy_at ?p4 a))) = Some a"
      unfolding c4 using N(2,5) S(2) by simp
    note X = closeIfCurrent_effect [OF i4 cur, of "me_now env", unfolded c4 N(5,6)]
    show ?thesis using X res Some S(6) by simp
  qed
qed

text \<open>
  A start event that gives a target a new host name strands its old proxy: the target
  index is overwritten, so the proxy stays registered under the old host name while no
  stop event of the target, however often repeated, removes it.
\<close>

theorem renamed_target_strands_proxy:
  assumes reach: "pm_reach pm" and old: "gm_get (pm_Proxies pm) h0 = Some a0" "cfg_TargetID (px_Config (proxy_at pm a0)) = t"
    and free: "gm_get (pm_building pm) (cfg_Hostname cfg) = None" and np: "newProxy env cfg pm = (Inr a, pm1)"
    and new: "cfg_TargetID cfg = t" "cfg_Hostname cfg \<noteq> h0" "cfg_Hostname cfg \<noteq> []" and ev: "te_ID ev = t"
  shows "gm_get (pm_Proxies (eventStop now ev pm1)) h0 = Some a0 \<and>
    eventStop now' ev (eventStop now ev pm1) = eventStop now ev pm1"
proof -
  note N = newProxy_ok [OF pm.reach_inv [OF reach] free np]
  have idx: "gm_get (pm_targetIndex pm1) (te_ID ev) = Some (cfg_Hostname cfg)" using N(4) new ev by simp
  obtain b where b: "gm_get (pm_Proxies pm1) (cfg_Hostname cfg) = Some b" "cfg_TargetID (px_Config (proxy_at pm1 b)) = te_ID ev"
    "eventStop now ev pm1 = teardownProxy now b (unregister (cfg_Hostname cfg) b pm1)"
    using eventStop_indexed [OF N(1) idx new(3)] by blast
  have p0: "gm_get (pm_Proxies pm1) h0 = Some a0" using N(7) [of h0] new(2) old(1) by simp
  have "gm_get (pm_targetIndex (eventStop now ev pm1)) (te_ID ev) = None"
    using b idx by (simp add: teardown_keeps)
  then have "eventStop now' ev (eventStop now ev pm1) = eventStop now ev pm1" by (simp add: eventStop_def)
  moreover have "gm_get (pm_Proxies (eventStop now ev pm1)) h0 = Some a0" using b p0 new(2) by (simp add: teardown_keeps)
  ultimately show ?thesis by blast
qed

section \<open>Shutdown\<close>

lemma removeProxy_ok:
  assumes "pm_inv pm"
  shows "pm_inv (removeProxy now h pm)" "gm_get (pm_Proxies (removeProxy now h pm)) k = (if k = h then None else gm_get (pm_Proxies pm) k)"
    "pm_building (removeProxy now h pm) = pm_building pm" "pm_stopping (removeProxy now h pm) = pm_stopping pm"
  using closeAndRemove_gone [OF assms, where now = now and h = h] by (simp_all add: removeProxy_def closeAndRemoveProxy_def)

lemma removeAll_ok:
  assumes "pm_inv pm"
  shows "pm_inv (fold (removeProxy now) hs pm) \<and>
    (\<forall>k. gm_get (pm_Proxies (fold (removeProxy now) hs pm)) k = (if k \<in> set hs then None else gm_get (pm_Proxies pm) k)) \<and>
    pm_building (fold (removeProxy now) hs pm) = pm_building pm \<and> pm_stopping (fold (removeProxy now) hs pm) = pm_stopping pm"
  using assms
proof (induction hs arbitrary: pm)
  case (Cons h hs)
  show ?case using Cons.IH [OF removeProxy_ok(1) [OF Cons.prems], of now h] removeProxy_ok [OF Cons.prems] by simp
qed simp

text \<open>
  C39: once no proxy is under construction, \<^verbatim>\<open>StopAllProxies\<close> empties the registry and the target
  index, leaves every proxy ever created closed, and no later event can create another
  one.
\<close>

theorem StopAllProxies_final:
  assumes reach: "pm_reach pm" and idle: "pm_building pm = []"
  shows "pm_Proxies (StopAllProxies now pm) = [] \<and> pm_targetIndex (StopAllProxies now pm) = [] \<and>
    list_all px_closeOnce (pm_heap (StopAllProxies now pm)) \<and>
    newProxy env cfg (StopAllProxies now pm) = (Inl ShuttingDown, StopAllProxies now pm) \<and>
    dispatchProxyEvent env penv errText ev (StopAllProxies now pm) = StopAllProxies now pm"
proof -
  have "pm_inv (pm\<lparr>pm_stopping := True\<rparr>)"
    using pm.reach_inv [OF reach] by (simp add: pm_inv_def reg_inv_def subs_ok_def)
  note R = removeAll_ok [OF this, of now "keys (pm_Proxies pm)"]
  let ?q = "StopAllProxies now pm"
  have q: "?q = fold (removeProxy now) (keys (pm_Proxies pm)) (pm\<lparr>pm_stopping := True\<rparr>)" by (simp add: StopAllProxies_def)
  have get: "gm_get (pm_Proxies ?q) k = None" for k
    using R gm_get_None_iff [of "pm_Proxies pm" k] by (cases "k \<in> set (keys (pm_Proxies pm))") (simp_all add: q)
  then have P: "pm_Proxies ?q = []" using gm_get_None_iff [of "pm_Proxies ?q"] by (cases "pm_Proxies ?q") auto
  have inv: "reg_inv ?q" using R q by (simp add: pm_inv_def)
  have "gm_get (pm_targetIndex ?q) t = None" for t
    using reg_invD(2) [OF inv, of t] get by (cases "gm_get (pm_targetIndex ?q) t") auto
  then have T: "pm_targetIndex ?q = []" using gm_get_None_iff [of "pm_targetIndex ?q"] by (cases "pm_targetIndex ?q") auto
  have b: "pm_building ?q = []" "pm_stopping ?q" using R q idle by simp_all
  have "px_closeOnce (proxy_at ?q a)" if "a < length (pm_heap ?q)" for a
    by (rule reg_invD(4) [OF inv that]) (simp_all add: get b(1))
  then have "list_all px_closeOnce (pm_heap ?q)" by (simp add: list_all_length)
  with P T b show ?thesis by (simp add: newProxy_def newProxy_begin_def dispatchProxyEvent_def)
qed

section \<open>Providers and reconnection\<close>

text \<open>
  proxy providers are found by name whatever the case: a provider added under one spelling
  serves every proxy whose configuration names it under another.
\<close>

theorem proxy_provider_case_insensitive:
  assumes "to_lower (cfg_ProxyProvider cfg) = to_lower name" "cfg_ProxyProvider cfg \<noteq> []"
  shows "getProxyProvider (addProxyProvider provider name pm) cfg = Inr provider"
  using assms by (simp add: getProxyProvider_def addProxyProvider_def)

text \<open>
  The pause between reconnections to a target provider doubles from one second and stops
  at five minutes: the n-th one is exactly the smaller of the two.
\<close>

theorem reconnectBackoff_iterate:
  "(reconnectBackoff ^^ n) 1000000000 = min maxWatchBackoff (1000000000 * 2 ^ n)"
proof (induction n)
  case 0
  then show ?case by (simp add: maxWatchBackoff_def)
next
  case (Suc n)
  have step: "reconnectBackoff c = min maxWatchBackoff (c * 2)" if "0 < c" "c \<le> maxWatchBackoff" for c
  proof -
    have "wrap64 (c * 2) = c * 2"
      using that by (intro wrap64_id) (simp add: maxWatchBackoff_def in_int64_def int64_min_def int64_max_def)
    then show ?thesis by (simp add: reconnectBackoff_def backoffMultiplier_def min_def Let_def)
  qed
  have "0 < min maxWatchBackoff (1000000000 * 2 ^ n)" by (simp add: maxWatchBackoff_def)
  with Suc.IH step [of "min maxWatchBackoff (1000000000 * 2 ^ n)"] show ?case by (simp add: min_def maxWatchBackoff_def)
qed

section \<open>Witnesses\<close>

lemma newProxy_reach:
  assumes "pm_reach pm" "gm_get (pm_building pm) (cfg_Hostname cfg) = None" "newProxy env cfg pm = (r, pm')"
  shows "pm_reach pm'"
proof -
  obtain r0 pm0 where bg: "newProxy_begin env cfg pm = (r0, pm0)" by (metis prod.exhaust)
  have R0: "pm_reach pm0" using assms(1) PmBegin [OF assms(2) bg] by (rule reach_step)
  show ?thesis
  proof (cases r0)
    case (Inl e)
    with assms(3) bg R0 show ?thesis by (simp add: newProxy_def)
  next
    case (Inr a)
    then obtain prov cfg' where "resolveProxyProvider pm cfg = Inr (prov, cfg')"
      using bg by (auto simp: newProxy_begin_def split: if_splits sum.splits)
    then have "gm_get (pm_building pm0) (cfg_Hostname cfg') = Some a"
      using bg Inr by (auto simp: newProxy_begin_def Let_def split: if_splits option.splits)
    moreover have "newProxy_finish env a pm0 = (r, pm')" using assms(3) bg Inr by (simp add: newProxy_def)
    ultimately have "pm_step pm0 pm'" by (rule PmFinish)
    with R0 show ?thesis by (rule reach_step)
  qed
qed

definition plain_provider :: ProxyProvider where
  "plain_provider = \<lparr>pp_DomainRequired = False, pp_ResolveAuthKey = (\<lambda>_. Inr []), pp_NewProxy = (\<lambda>_. None), pp_env = (\<lambda>_. good_env)\<rparr>"

definition empty_manager :: ProxyManager where
  "empty_manager = \<lparr>pm_heap = [], pm_Proxies = [], pm_targetIndex = [], pm_building = [], pm_TargetProviders = [],
     pm_ProxyProviders = [(''default'', plain_provider)], pm_DefaultProxyProvider = ''default'',
     pm_tables = \<lparr>pt_cfg = nil_tls_config, pt_DNS = [], pt_TLS = []\<rparr>, pm_dns = NewLifecycleManager True,
     pm_tls = NewLifecycleManager True, pm_stopping = False, pm_count = 0, pm_subs = [], pm_nextSub = 0\<rparr>"

definition web_cfg :: Config where
  "web_cfg = one_port_cfg\<lparr>cfg_Hostname := ''web'', cfg_TargetID := ''t1'', cfg_ProxyProvider := ''Default'', cfg_Domain := []\<rparr>"

definition calm_env :: pm_env where
  "calm_env = \<lparr>me_now = 1, me_newACME = (\<lambda>_ _. Inl []), me_setup = example_env None, me_msg = (\<lambda>_. [])\<rparr>"

definition web_manager :: ProxyManager where "web_manager = snd (newProxy calm_env web_cfg empty_manager)"

lemma fold_broadcast_providers [simp]: "pm_ProxyProviders (fold broadcastStatusEvents evs pm) = pm_ProxyProviders pm"
  by (induction evs arbitrary: pm) (simp_all add: broadcastStatusEvents_def)

lemma keeps_providers [simp]:
  "pm_ProxyProviders (put_proxy a p pm) = pm_ProxyProviders pm"
  "pm_ProxyProviders (closeAndRemoveProxy now h pm) = pm_ProxyProviders pm"
  by (simp_all add: put_proxy_def closeAndRemoveProxy_def removeAndTeardown_def teardownProxy_def unregister_def
      updateProxyCount_def Let_def split: option.splits)

lemma plain_newProxy:
  assumes inv: "pm_inv pm" and pm: "\<not> pm_stopping pm" "gm_get (pm_ProxyProviders pm) ''default'' = Some plain_provider" "pm_building pm = []"
    and cfg: "to_lower (cfg_ProxyProvider cfg) = ''default''" "cfg_Domain cfg = []"
  obtains a pm' where "newProxy env cfg pm = (Inr a, pm')" "\<not> pm_stopping pm'" "pm_building pm' = []"
    "gm_get (pm_ProxyProviders pm') ''default'' = Some plain_provider"
proof -
  note C = closeAndRemove_gone [OF inv]
  have ne: "cfg_ProxyProvider cfg \<noteq> []" using cfg(1) by (auto simp: to_lower_def)
  let ?cfg = "cfg\<lparr>cfg_Tailscale := (cfg_Tailscale cfg)\<lparr>ts_ResolvedAuthKey := []\<rparr>\<rparr>"
  have "resolveProxyProvider pm cfg = Inr (plain_provider, ?cfg)"
    using pm cfg ne by (simp add: resolveProxyProvider_def getProxyProvider_def plain_provider_def)
  then have "\<exists>a pm'. newProxy env cfg pm = (Inr a, pm') \<and> \<not> pm_stopping pm' \<and> pm_building pm' = [] \<and>
      gm_get (pm_ProxyProviders pm') ''default'' = Some plain_provider"
    using pm cfg(2) C
    by (auto simp: newProxy_def newProxy_begin_def newProxy_finish_def registerProxy_def configure_domain_def configureProxyDomain_def
        plain_provider_def NewProxy_config updateProxyCount_def broadcastStatusEvents_def Let_def)
  then show ?thesis using that by blast
qed

lemma web_manager_new:
  "newProxy calm_env web_cfg empty_manager = (Inr 0, web_manager)" "pm_reach web_manager" "\<not> pm_stopping web_manager" "pm_building web_manager = []"
  "gm_get (pm_ProxyProviders web_manager) ''default'' = Some plain_provider"
proof -
  have st: "pm_start empty_manager" by (simp add: pm_start_def empty_manager_def)
  then have R: "pm_reach empty_manager" by (rule reach_init)
  note inv = pm.reach_inv [OF R]
  have b: "gm_get (pm_building empty_manager) (cfg_Hostname web_cfg) = None" by (simp add: empty_manager_def)
  have "to_lower ''Default'' = ''default''" by code_simp
  then have c: "to_lower (cfg_ProxyProvider web_cfg) = ''default''" "cfg_Domain web_cfg = []" "cfg_Hostname web_cfg = ''web''"
    by (simp_all add: web_cfg_def)
  obtain a pm' where np: "newProxy calm_env web_cfg empty_manager = (Inr a, pm')" and P: "\<not> pm_stopping pm'" "pm_building pm' = []"
    "gm_get (pm_ProxyProviders pm') ''default'' = Some plain_provider"
    by (rule plain_newProxy [OF inv _ _ _ c(1,2), of calm_env]) (auto simp: empty_manager_def)
  have pm': "pm' = web_manager" using np by (simp add: web_manager_def)
  have "a = 0" using np by (auto simp: newProxy_def newProxy_begin_def newProxy_finish_def empty_manager_def closeAndRemoveProxy_def
        removeAndTeardown_def Let_def split: sum.splits option.splits prod.splits)
  with np pm' show "newProxy calm_env web_cfg empty_manager = (Inr 0, web_manager)" by simp
  show "pm_reach web_manager" using newProxy_reach [OF R b np] pm' by simp
  show "\<not> pm_stopping web_manager" "pm_building web_manager = []"
    "gm_get (pm_ProxyProviders web_manager) ''default'' = Some plain_provider" using P pm' by simp_all
qed

text \<open>A second start event of the target moves it to the host name \<open>www\<close>.\<close>

definition www_cfg :: Config where "www_cfg = web_cfg\<lparr>cfg_Hostname := ''www''\<rparr>"

definition web_event :: "ActionType \<Rightarrow> TargetEvent" where
  "web_event act = \<lparr>te_TargetProvider = \<lparr>tg_DefaultProxyProviderName = ''default'', tg_AddTarget = (\<lambda>_. Inr www_cfg)\<rparr>,
     te_ID = ''t1'', te_Action = act\<rparr>"

lemma web_manager_state:
  "gm_get (pm_Proxies web_manager) ''web'' = Some 0" "gm_get (pm_targetIndex web_manager) ''t1'' = Some ''web''"
  "cfg_TargetID (px_Config (proxy_at web_manager 0)) = ''t1''"
proof -
  have st: "pm_start empty_manager" by (simp add: pm_start_def empty_manager_def)
  then have R: "pm_reach empty_manager" by (rule reach_init)
  have b: "gm_get (pm_building empty_manager) (cfg_Hostname web_cfg) = None" by (simp add: empty_manager_def)
  note N = newProxy_ok [OF pm.reach_inv [OF R] b web_manager_new(1)]
  show "gm_get (pm_Proxies web_manager) ''web'' = Some 0" "gm_get (pm_targetIndex web_manager) ''t1'' = Some ''web''"
    "cfg_TargetID (px_Config (proxy_at web_manager 0)) = ''t1''"
    using N by (simp_all add: web_cfg_def)
qed

lemma www_new:
  obtains a pm1 where "newProxy calm_env www_cfg web_manager = (Inr a, pm1)"
proof -
  have "to_lower ''Default'' = ''default''" by code_simp
  then have c: "to_lower (cfg_ProxyProvider www_cfg) = ''default''" "cfg_Domain www_cfg = []" by (simp_all add: www_cfg_def web_cfg_def)
  show ?thesis by (rule plain_newProxy [OF pm.reach_inv [OF web_manager_new(2)] web_manager_new(3,5,4) c]) (rule that)
qed


theorem subscribers_bounded_witness:
  "\<exists>q. gm_get (pm_subs (snd (SubscribeStatusEvents web_manager))) (pm_nextSub web_manager) = Some q \<and> length q \<le> 64"
  using subscribers_bounded [OF reach_step [OF web_manager_new(2) PmSubscribe [OF surjective_pairing]], of "pm_nextSub web_manager" "[]"]
  by (simp add: SubscribeStatusEvents_def)

theorem eventStop_effect_witness:
  "gm_get (pm_Proxies (eventStop 2 (web_event ActionStopProxy) web_manager)) ''web'' = None"
  using eventStop_effect [OF web_manager_new(2), of "web_event ActionStopProxy" "''web''" 0 2] web_manager_state
  by (simp add: web_event_def)

theorem start_event_outcome_witness:
  "\<exists>a pm1 pm'. newProxy calm_env www_cfg web_manager = (Inr a, pm1) \<and>
     HandleProxyEvent calm_env good_env (\<lambda>_. []) (web_event ActionStartProxy) web_manager = pm' \<and>
     (fst (Start good_env (proxy_at pm1 a)) = None \<longrightarrow> gm_get (pm_Proxies pm') ''www'' = Some a)"
proof -
  obtain a pm1 where np: "newProxy calm_env www_cfg web_manager = (Inr a, pm1)" by (rule www_new)
  have "cfg_Hostname www_cfg = ''www''" by (simp add: www_cfg_def)
  with start_event_outcome [OF web_manager_new(2), of "web_event ActionStartProxy" www_cfg calm_env a pm1 good_env "\<lambda>_. []"] np web_manager_new(4)
  show ?thesis by (auto simp: web_event_def Let_def split: if_splits)
qed

theorem renamed_target_strands_proxy_witness:
  "\<exists>a pm1. newProxy calm_env www_cfg web_manager = (Inr a, pm1) \<and>
     gm_get (pm_Proxies (eventStop 3 (web_event ActionStopProxy) pm1)) ''web'' = Some 0"
proof -
  obtain a pm1 where np: "newProxy calm_env www_cfg web_manager = (Inr a, pm1)" by (rule www_new)
  have c: "cfg_Hostname www_cfg = ''www''" "cfg_TargetID www_cfg = ''t1''" by (simp_all add: www_cfg_def web_cfg_def)
  from np renamed_target_strands_proxy [OF web_manager_new(2) web_manager_state(1,3) _ np, of "web_event ActionStopProxy" 3 3] c
    web_manager_new(4) show ?thesis by (auto simp: web_event_def)
qed

theorem StopAllProxies_final_witness:
  "pm_Proxies (StopAllProxies 5 web_manager) = [] \<and> list_all px_closeOnce (pm_heap (StopAllProxies 5 web_manager))"
  using StopAllProxies_final [OF web_manager_new(2,4), of 5] by blast

theorem proxy_provider_case_insensitive_witness:
  "getProxyProvider (addProxyProvider plain_provider ''DEFAULT'' empty_manager) web_cfg = Inr plain_provider"
proof -
  have "to_lower ''Default'' = to_lower ''DEFAULT''" by code_simp
  then show ?thesis using proxy_provider_case_insensitive [of web_cfg "''DEFAULT''"] by (simp add: web_cfg_def)
qed

end
