(* ===== verification/Port_Forward.thy ===== *)
theory Port_Forward
  imports Port_Labels
begin

text \<open>
  \<^verbatim>\<open>src/internal/proxymanager/port_tcp.go\<close>, \<^verbatim>\<open>port_udp.go\<close> and the connection limit of
  \<^verbatim>\<open>port_http.go\<close>: the limits on concurrent connections and clients of a port. Goroutines
  interleave between the points where they touch shared state, so each such point is one
  step. A buffered channel used as a semaphore is the number of its elements.
\<close>

section \<open>Slot pools\<close>

text \<open>
  The contract of a semaphore and its users: a step takes a free slot for a new holder,
  gives one back for a holder that ends, or leaves both alone.
\<close>

locale slot_pool =
  fixes init :: "'s \<Rightarrow> bool" and step :: "'s \<Rightarrow> 's \<Rightarrow> bool" and used cap holders :: "'s \<Rightarrow> nat"
  assumes slots_init: "init s \<Longrightarrow> used s = 0 \<and> holders s = 0"
    and slots_step: "step s s' \<Longrightarrow> cap s' = cap s \<and>
      (used s' = used s \<and> holders s' = holders s \<or>
       used s < cap s \<and> used s' = Suc (used s) \<and> holders s' = Suc (holders s) \<or>
       used s = Suc (used s') \<and> holders s = Suc (holders s'))"
begin

lemma slots_exact: "reach init step s \<Longrightarrow> used s = holders s \<and> used s \<le> cap s"
proof (induction rule: reach.induct)
  case (reach_init s)
  then show ?case using slots_init by simp
next
  case (reach_step s s')
  then show ?case using slots_step [of s s'] by auto
qed

lemma holder_has_slot: "reach init step s \<Longrightarrow> 0 < holders s \<Longrightarrow> 0 < used s"
  using slots_exact by simp

end

section \<open>TCP ports\<close>

definition maxTCPAcceptRetries :: nat where "maxTCPAcceptRetries = 5"
definition defaultMaxTCPConns :: nat where "defaultMaxTCPConns = 1024"

datatype tcp_phase = TAcquired | TDialing | TCopying nat | TExited | TReleased | TDone | TRejected

record tcp_conn =
  tc_phase :: tcp_phase
  tc_client_open :: bool
  tc_backend_open :: bool

record tcpPort =
  tp_cap :: nat
  tp_sem :: nat
  tp_active :: int
  tp_conns :: "tcp_conn list"
  tp_cancelled :: bool
  tp_started :: bool
  tp_accepting :: bool

definition newPortTCPWithLimit :: "int \<Rightarrow> tcpPort" where
  "newPortTCPWithLimit maxConns =
     \<lparr>tp_cap = (if maxConns < 1 then defaultMaxTCPConns else nat maxConns), tp_sem = 0, tp_active = 0, tp_conns = [],
      tp_cancelled = False, tp_started = False, tp_accepting = False\<rparr>"

definition newPortTCP :: tcpPort where
  "newPortTCP = newPortTCPWithLimit (int defaultMaxTCPConns)"

text \<open>
  \<^verbatim>\<open>portStartLock\<close> and the start of the accept loop: \<open>None\<close> when the port was closed before
  (its state then only records the start).
\<close>

definition tcp_start :: "tcpPort \<Rightarrow> tcpPort option \<times> tcpPort" where
  "tcp_start p =
     (if tp_cancelled p then (None, p\<lparr>tp_started := True\<rparr>)
      else let p = p\<lparr>tp_started := True, tp_accepting := True\<rparr> in (Some p, p))"

text \<open>What the accept loop does with a connection: a slot for it, or it is closed.\<close>

definition accept_conn :: "tcpPort \<Rightarrow> tcpPort" where
  "accept_conn p =
     (if tp_sem p < tp_cap p then
        p\<lparr>tp_sem := tp_sem p + 1, tp_conns := tp_conns p @ [\<lparr>tc_phase = TAcquired, tc_client_open = True, tc_backend_open = False\<rparr>]\<rparr>
      else p\<lparr>tp_conns := tp_conns p @ [\<lparr>tc_phase = TRejected, tc_client_open = False, tc_backend_open = False\<rparr>]\<rparr>)"

definition upd_conn :: "nat \<Rightarrow> (tcp_conn \<Rightarrow> tcp_conn) \<Rightarrow> tcpPort \<Rightarrow> tcpPort" where
  "upd_conn i f p = p\<lparr>tp_conns := (tp_conns p)[i := f (tp_conns p ! i)]\<rparr>"

definition count_conn :: "nat \<Rightarrow> tcpPort \<Rightarrow> tcpPort" where
  "count_conn i p = upd_conn i (\<lambda>c. c\<lparr>tc_phase := TDialing\<rparr>) (p\<lparr>tp_active := tp_active p + 1\<rparr>)"

text \<open>\<^verbatim>\<open>handleConn\<close>: the dial (\<open>ok\<close> when there is a target and it answers), the end of one copy, shutdown.\<close>

definition handle_dial :: "bool \<Rightarrow> nat \<Rightarrow> tcpPort \<Rightarrow> tcpPort" where
  "handle_dial ok i p =
     upd_conn i (\<lambda>c. if ok then c\<lparr>tc_backend_open := True, tc_phase := TCopying 2\<rparr>
                     else c\<lparr>tc_client_open := False, tc_phase := TExited\<rparr>) p"

definition close_both :: "tcp_conn \<Rightarrow> tcp_conn" where
  "close_both c = c\<lparr>tc_client_open := False, tc_backend_open := False\<rparr>"

definition handle_copied :: "nat \<Rightarrow> tcpPort \<Rightarrow> tcpPort" where
  "handle_copied i p =
     upd_conn i (\<lambda>c. close_both c\<lparr>tc_phase := (if tc_phase c = TCopying 2 then TCopying 1 else TExited)\<rparr>) p"

definition handle_cancelled :: "nat \<Rightarrow> tcpPort \<Rightarrow> tcpPort" where
  "handle_cancelled i p = upd_conn i close_both p"

definition release_slot :: "nat \<Rightarrow> tcpPort \<Rightarrow> tcpPort" where
  "release_slot i p = upd_conn i (\<lambda>c. c\<lparr>tc_phase := TReleased\<rparr>) (p\<lparr>tp_sem := tp_sem p - 1\<rparr>)"

definition release_active :: "nat \<Rightarrow> tcpPort \<Rightarrow> tcpPort" where
  "release_active i p = upd_conn i (\<lambda>c. c\<lparr>tc_phase := TDone\<rparr>) (p\<lparr>tp_active := tp_active p - 1\<rparr>)"

abbreviation conn_phase :: "tcpPort \<Rightarrow> nat \<Rightarrow> tcp_phase" where
  "conn_phase p i \<equiv> tc_phase (tp_conns p ! i)"

inductive tcp_step :: "tcpPort \<Rightarrow> tcpPort \<Rightarrow> bool" where
  TcpStart: "tcp_start p = (r, p') \<Longrightarrow> tcp_step p p'"
| TcpAccept: "tp_accepting p \<Longrightarrow> tcp_step p (accept_conn p)"
| TcpCount: "i < length (tp_conns p) \<Longrightarrow> conn_phase p i = TAcquired \<Longrightarrow> tcp_step p (count_conn i p)"
| TcpDial: "i < length (tp_conns p) \<Longrightarrow> conn_phase p i = TDialing \<Longrightarrow> tcp_step p (handle_dial ok i p)"
| TcpCopied: "i < length (tp_conns p) \<Longrightarrow> conn_phase p i \<in> {TCopying 2, TCopying 1} \<Longrightarrow> tcp_step p (handle_copied i p)"
| TcpCancelled: "i < length (tp_conns p) \<Longrightarrow> conn_phase p i \<in> {TCopying 2, TCopying 1} \<Longrightarrow> tp_cancelled p \<Longrightarrow>
    tcp_step p (handle_cancelled i p)"
| TcpRelease: "i < length (tp_conns p) \<Longrightarrow> conn_phase p i = TExited \<Longrightarrow> 0 < tp_sem p \<Longrightarrow> tcp_step p (release_slot i p)"
| TcpReleaseActive: "i < length (tp_conns p) \<Longrightarrow> conn_phase p i = TReleased \<Longrightarrow> tcp_step p (release_active i p)"
| TcpCancel: "tcp_step p (p\<lparr>tp_cancelled := True\<rparr>)"
| TcpStop: "tcp_step p (p\<lparr>tp_accepting := False\<rparr>)"

abbreviation tcp_init :: "tcpPort \<Rightarrow> bool" where
  "tcp_init p \<equiv> \<exists>n. p = newPortTCPWithLimit n"

abbreviation tcp_reach :: "tcpPort \<Rightarrow> bool" where
  "tcp_reach \<equiv> reach tcp_init tcp_step"

fun holds_slot :: "tcp_phase \<Rightarrow> bool" where
  "holds_slot TAcquired = True"
| "holds_slot TDialing = True"
| "holds_slot (TCopying n) = True"
| "holds_slot TExited = True"
| "holds_slot _ = False"

fun is_counted :: "tcp_phase \<Rightarrow> bool" where
  "is_counted TDialing = True"
| "is_counted (TCopying n) = True"
| "is_counted TExited = True"
| "is_counted TReleased = True"
| "is_counted _ = False"

definition tcp_holders :: "tcpPort \<Rightarrow> nat" where
  "tcp_holders p = count_if (\<lambda>c. holds_slot (tc_phase c)) (tp_conns p)"

definition tcp_counted :: "tcpPort \<Rightarrow> nat" where
  "tcp_counted p = count_if (\<lambda>c. is_counted (tc_phase c)) (tp_conns p)"

text \<open>A connection whose handler has returned has both ends closed.\<close>

fun conn_ok :: "tcp_conn \<Rightarrow> bool" where
  "conn_ok c \<longleftrightarrow> tc_phase c \<in> {TExited, TReleased, TDone, TRejected} \<longrightarrow> \<not> tc_client_open c \<and> \<not> tc_backend_open c"

definition tcp_inv :: "tcpPort \<Rightarrow> bool" where
  "tcp_inv p \<longleftrightarrow> tp_active p = int (tcp_counted p) \<and> list_all conn_ok (tp_conns p) \<and>
     list_all (\<lambda>c. tc_phase c \<in> {TAcquired, TDialing} \<longrightarrow> \<not> tc_backend_open c) (tp_conns p)"

lemma count_upd_conn:
  assumes "i < length (tp_conns p)"
  shows "count_if P (tp_conns (upd_conn i f p)) + (if P (tp_conns p ! i) then 1 else 0) =
    count_if P (tp_conns p) + (if P (f (tp_conns p ! i)) then 1 else 0)"
  using count_if_update [OF assms] by (simp add: upd_conn_def)

lemma count_upd_same:
  assumes "i < length (tp_conns p)" "P (f (tp_conns p ! i)) = P (tp_conns p ! i)"
  shows "count_if P (tp_conns (upd_conn i f p)) = count_if P (tp_conns p)"
  using count_upd_conn [OF assms(1), of P f] assms(2) by simp

lemma upd_conn_fields [simp]:
  "tp_cap (upd_conn i f p) = tp_cap p" "tp_sem (upd_conn i f p) = tp_sem p" "tp_active (upd_conn i f p) = tp_active p"
  by (simp_all add: upd_conn_def)

lemma list_all_update: "list_all P xs \<Longrightarrow> P y \<Longrightarrow> list_all P (xs[i := y])"
  by (auto simp: list_all_iff dest: set_list_updateD)

lemmas tcp_ops = count_conn_def handle_dial_def handle_copied_def handle_cancelled_def release_slot_def release_active_def close_both_def

interpretation tcp: slot_pool tcp_init tcp_step tp_sem tp_cap tcp_holders
proof unfold_locales
  fix p p' assume "tcp_step p p'"
  then show "tp_cap p' = tp_cap p \<and>
      (tp_sem p' = tp_sem p \<and> tcp_holders p' = tcp_holders p \<or>
       tp_sem p < tp_cap p \<and> tp_sem p' = Suc (tp_sem p) \<and> tcp_holders p' = Suc (tcp_holders p) \<or>
       tp_sem p = Suc (tp_sem p') \<and> tcp_holders p = Suc (tcp_holders p'))"
  proof cases
    case (TcpCount i)
    then show ?thesis by (simp add: tcp_ops tcp_holders_def count_upd_same)
  next
    case (TcpDial i ok)
    then show ?thesis by (simp add: tcp_ops tcp_holders_def count_upd_same)
  next
    case (TcpCopied i)
    then show ?thesis by (auto simp: tcp_ops tcp_holders_def count_upd_same)
  next
    case (TcpCancelled i)
    then show ?thesis by (auto simp: tcp_ops tcp_holders_def count_upd_same)
  next
    case (TcpRelease i)
    then show ?thesis
      using count_upd_conn [of i "p\<lparr>tp_sem := tp_sem p - 1\<rparr>" "\<lambda>c. holds_slot (tc_phase c)" "\<lambda>c. c\<lparr>tc_phase := TReleased\<rparr>"]
      by (simp add: tcp_ops tcp_holders_def)
  next
    case (TcpReleaseActive i)
    then show ?thesis by (simp add: tcp_ops tcp_holders_def count_upd_same)
  qed (auto simp: tcp_start_def accept_conn_def tcp_holders_def Let_def split: if_splits)
qed (auto simp: newPortTCPWithLimit_def tcp_holders_def)

lemma tcp_inv_upd:
  assumes "tcp_inv p" "i < length (tp_conns p)" and f: "conn_ok (f (tp_conns p ! i))"
    "tc_phase (f (tp_conns p ! i)) \<in> {TAcquired, TDialing} \<longrightarrow> \<not> tc_backend_open (f (tp_conns p ! i))"
    and act: "a = tp_active p + (if is_counted (tc_phase (f (tp_conns p ! i))) then 1 else 0) - (if is_counted (conn_phase p i) then 1 else 0)"
  shows "tcp_inv (upd_conn i f (p\<lparr>tp_active := a, tp_sem := m\<rparr>))"
proof -
  have "int (tcp_counted (upd_conn i f (p\<lparr>tp_active := a, tp_sem := m\<rparr>))) = a"
    using count_upd_conn [of i "p\<lparr>tp_active := a, tp_sem := m\<rparr>" "\<lambda>c. is_counted (tc_phase c)" f] assms
    by (simp add: tcp_inv_def tcp_counted_def split: if_splits)
  then show ?thesis using assms by (simp add: tcp_inv_def upd_conn_def list_all_update del: conn_ok.simps)
qed

lemma tcp_step_inv:
  assumes "tcp_inv p" "tcp_step p p'"
  shows "tcp_inv p'"
  using assms(2)
proof cases
  case (TcpCount i)
  then show ?thesis using tcp_inv_upd [OF assms(1), of i "\<lambda>c. c\<lparr>tc_phase := TDialing\<rparr>" "tp_active p + 1" "tp_sem p"] assms(1)
    by (auto simp: tcp_ops tcp_inv_def list_all_length)
next
  case (TcpDial i ok)
  then show ?thesis
    using tcp_inv_upd [OF assms(1), of i "\<lambda>c. if ok then c\<lparr>tc_backend_open := True, tc_phase := TCopying 2\<rparr>
        else c\<lparr>tc_client_open := False, tc_phase := TExited\<rparr>" "tp_active p" "tp_sem p"] assms(1)
    by (cases ok) (auto simp: tcp_ops tcp_inv_def list_all_length)
next
  case (TcpCopied i)
  then show ?thesis
    using tcp_inv_upd [OF assms(1), of i "\<lambda>c. close_both c\<lparr>tc_phase := (if tc_phase c = TCopying 2 then TCopying 1 else TExited)\<rparr>"
        "tp_active p" "tp_sem p"] by (auto simp: tcp_ops)
next
  case (TcpCancelled i)
  then show ?thesis using tcp_inv_upd [OF assms(1), of i close_both "tp_active p" "tp_sem p"] by (auto simp: tcp_ops)
next
  case (TcpRelease i)
  then show ?thesis using tcp_inv_upd [OF assms(1), of i "\<lambda>c. c\<lparr>tc_phase := TReleased\<rparr>" "tp_active p" "tp_sem p - 1"] assms(1)
    by (auto simp: tcp_ops tcp_inv_def list_all_length)
next
  case (TcpReleaseActive i)
  then show ?thesis using tcp_inv_upd [OF assms(1), of i "\<lambda>c. c\<lparr>tc_phase := TDone\<rparr>" "tp_active p - 1" "tp_sem p"] assms(1)
    by (auto simp: tcp_ops tcp_inv_def list_all_length)
qed (use assms(1) in \<open>auto simp: tcp_start_def accept_conn_def tcp_inv_def tcp_counted_def Let_def split: if_splits\<close>)

interpretation tcp_ends: invariant_system tcp_init tcp_step tcp_inv
proof unfold_locales
  show "tcp_init p \<Longrightarrow> tcp_inv p" for p by (auto simp: newPortTCPWithLimit_def tcp_inv_def tcp_counted_def)
qed (rule tcp_step_inv)

section \<open>The accept loop\<close>

text \<open>
  What \<^verbatim>\<open>Accept\<close> answers, one after the other; an error says whether the port is cancelled
  during the pause that follows. The result is the error the loop returns with and the
  pauses in seconds, or \<open>Accepting\<close> while it still waits for a connection.
\<close>

datatype accept_obs = AcceptClosed | AcceptError bool | AcceptConn
datatype loop_result = Accepting | LoopEnded | LoopFailed

fun accept_loop :: "nat \<Rightarrow> accept_obs list \<Rightarrow> loop_result \<times> nat list" where
  "accept_loop retries [] = (Accepting, [])"
| "accept_loop retries (AcceptClosed # obs) = (LoopEnded, [])"
| "accept_loop retries (AcceptError cancelled # obs) =
     (if retries < maxTCPAcceptRetries then
        (if cancelled then (LoopEnded, [retries + 1])
         else let (r, ps) = accept_loop (retries + 1) obs in (r, (retries + 1) # ps))
      else (LoopFailed, []))"
| "accept_loop retries (AcceptConn # obs) =
     (let retries = 0 in accept_loop (retries + 1) obs)"

lemma accept_loop_errors:
  "r \<le> 5 \<Longrightarrow> accept_loop r (replicate n (AcceptError False) @ obs) =
     (if r + n \<le> 5 then let (x, ps) = accept_loop (r + n) obs in (x, [r + 1..<r + n + 1] @ ps) else (LoopFailed, [r + 1..<6]))"
proof (induction n arbitrary: r)
  case (Suc n)
  show ?case
  proof (cases "r = 5")
    case True
    then show ?thesis by (simp add: maxTCPAcceptRetries_def)
  next
    case False
    with Suc.prems have "accept_loop (r + 1) (replicate n (AcceptError False) @ obs) =
        (if r + 1 + n \<le> 5 then let (x, ps) = accept_loop (r + 1 + n) obs in (x, [r + 1 + 1..<r + 1 + n + 1] @ ps) else (LoopFailed, [r + 1 + 1..<6]))"
      by (intro Suc.IH) simp
    then show ?thesis using Suc.prems False
      by (auto simp: maxTCPAcceptRetries_def upt_conv_Cons Let_def split: prod.splits)
  qed
qed (simp add: Let_def)

text \<open>
  The accept loop of a TCP port survives five consecutive errors, with pauses of 1 to 5
  seconds, only until its first connection; afterwards the counter restarts at one, and
  the fifth consecutive error already ends the port, after pauses of 2 to 5 seconds.
\<close>

theorem accept_retries_after_first:
  "accept_loop 0 (replicate 5 (AcceptError False)) = (Accepting, [1, 2, 3, 4, 5]) \<and>
   accept_loop 0 (AcceptConn # replicate 5 (AcceptError False)) = (LoopFailed, [2, 3, 4, 5])"
  using accept_loop_errors [of 0 5 "[]"] accept_loop_errors [of 1 5 "[]"] by (simp add: upt_rec)

section \<open>HTTP ports: the limited listener\<close>

text \<open>
  \<open>ll_pending\<close>: \<^verbatim>\<open>Accept\<close> has a connection from the inner listener and waits for a slot. A
  connection is its \<^verbatim>\<open>sync.Once\<close>: whether its slot was given back.
\<close>

definition defaultMaxHTTPConns :: nat where "defaultMaxHTTPConns = 2048"

record limitedListener =
  ll_cap :: nat
  ll_sem :: nat
  ll_active :: int
  ll_done :: bool
  ll_pending :: bool
  ll_conns :: "bool list"

definition newLimitedListener :: "int \<Rightarrow> limitedListener" where
  "newLimitedListener maxConns =
     \<lparr>ll_cap = (if maxConns \<le> 0 then defaultMaxHTTPConns else nat maxConns), ll_sem = 0, ll_active = 0, ll_done = False,
      ll_pending = False, ll_conns = []\<rparr>"

definition ll_accept :: "limitedListener \<Rightarrow> limitedListener" where
  "ll_accept l = l\<lparr>ll_pending := True\<rparr>"

text \<open>The two cases of the select: a slot, or the listener was closed.\<close>

definition ll_acquire :: "limitedListener \<Rightarrow> limitedListener" where
  "ll_acquire l = l\<lparr>ll_pending := False, ll_sem := ll_sem l + 1, ll_active := ll_active l + 1, ll_conns := ll_conns l @ [False]\<rparr>"

definition ll_refuse :: "limitedListener \<Rightarrow> limitedListener" where
  "ll_refuse l = l\<lparr>ll_pending := False\<rparr>"

definition limitedConn_Close :: "nat \<Rightarrow> limitedListener \<Rightarrow> limitedListener" where
  "limitedConn_Close i l =
     (if ll_conns l ! i then l
      else l\<lparr>ll_conns := (ll_conns l)[i := True], ll_sem := ll_sem l - 1, ll_active := ll_active l - 1\<rparr>)"

definition limitedListener_Close :: "limitedListener \<Rightarrow> limitedListener" where
  "limitedListener_Close l = l\<lparr>ll_done := True\<rparr>"

inductive ll_step :: "limitedListener \<Rightarrow> limitedListener \<Rightarrow> bool" where
  LlAccept: "\<not> ll_pending l \<Longrightarrow> ll_step l (ll_accept l)"
| LlAcquire: "ll_pending l \<Longrightarrow> ll_sem l < ll_cap l \<Longrightarrow> ll_step l (ll_acquire l)"
| LlRefuse: "ll_pending l \<Longrightarrow> ll_done l \<Longrightarrow> ll_step l (ll_refuse l)"
| LlConnClose: "i < length (ll_conns l) \<Longrightarrow> ll_conns l ! i \<or> 0 < ll_sem l \<Longrightarrow> ll_step l (limitedConn_Close i l)"
| LlClose: "ll_step l (limitedListener_Close l)"

abbreviation ll_init :: "limitedListener \<Rightarrow> bool" where
  "ll_init l \<equiv> \<exists>n. l = newLimitedListener n"

definition ll_open :: "limitedListener \<Rightarrow> nat" where
  "ll_open l = count_if Not (ll_conns l)"

interpretation http: slot_pool ll_init ll_step ll_sem ll_cap ll_open
proof unfold_locales
  fix l l' assume "ll_step l l'"
  then show "ll_cap l' = ll_cap l \<and>
      (ll_sem l' = ll_sem l \<and> ll_open l' = ll_open l \<or>
       ll_sem l < ll_cap l \<and> ll_sem l' = Suc (ll_sem l) \<and> ll_open l' = Suc (ll_open l) \<or>
       ll_sem l = Suc (ll_sem l') \<and> ll_open l = Suc (ll_open l'))"
  proof cases
    case (LlConnClose i)
    then show ?thesis using count_if_update [of i "ll_conns l" Not True]
      by (simp add: limitedConn_Close_def ll_open_def split: if_splits)
  qed (simp_all add: ll_accept_def ll_acquire_def ll_refuse_def limitedListener_Close_def ll_open_def)
qed (auto simp: newLimitedListener_def ll_open_def)

text \<open>
  C17: connection limits hold in every interleaving: a TCP port never handles more connections
  than its limit and an HTTP port never has more open connections than its limit, and
  in both the semaphore counts exactly these, so a slot is neither lost nor given back
  twice; when a TCP handler is gone, both ends of its connection are closed.
\<close>

theorem connection_limits:
  assumes "tcp_reach p" "reach ll_init ll_step l"
  shows "tp_sem p = tcp_holders p \<and> tcp_holders p \<le> tp_cap p \<and> tp_active p = int (tcp_counted p) \<and>
    list_all (\<lambda>c. \<not> (tc_phase c = TDone \<and> (tc_client_open c \<or> tc_backend_open c))) (tp_conns p) \<and>
    ll_sem l = ll_open l \<and> ll_open l \<le> ll_cap l"
  using tcp.slots_exact [OF assms(1)] tcp_ends.reach_inv [OF assms(1)] http.slots_exact [OF assms(2)]
  by (auto simp: tcp_inv_def list_all_iff)

text \<open>
  A handler that ends never blocks on giving its slot back.
\<close>

lemma release_never_blocks:
  assumes "tcp_reach p" "i < length (tp_conns p)" "conn_phase p i = TExited"
  shows "tcp_step p (release_slot i p)"
proof -
  have "0 < tcp_holders p" unfolding tcp_holders_def
    using assms(2,3) by (intro count_if_pos [of "tp_conns p ! i"]) simp_all
  with tcp.holder_has_slot [OF assms(1)] assms show ?thesis by (blast intro: TcpRelease)
qed

section \<open>Witnesses\<close>

text \<open>A port with one slot and two clients: the second is rejected.\<close>

definition example_tcp :: tcpPort where
  "example_tcp = accept_conn (accept_conn (snd (tcp_start (newPortTCPWithLimit 1))))"

lemma example_tcp_reach: "tcp_reach example_tcp"
proof -
  have "tcp_reach (newPortTCPWithLimit 1)" by (rule reach_init) blast
  then have "tcp_reach (snd (tcp_start (newPortTCPWithLimit 1)))" by (rule reach_step) (rule TcpStart [OF surjective_pairing])
  moreover have "tp_accepting (snd (tcp_start (newPortTCPWithLimit 1)))" by (simp add: tcp_start_def newPortTCPWithLimit_def Let_def)
  moreover have "tp_accepting (accept_conn q) = tp_accepting q" for q by (simp add: accept_conn_def)
  ultimately show ?thesis unfolding example_tcp_def by (metis TcpAccept reach_step)
qed

theorem connection_limits_witness:
  "tp_sem example_tcp = 1 \<and> tcp_holders example_tcp \<le> 1 \<and> ll_open (newLimitedListener 3) \<le> 3"
proof -
  have "reach ll_init ll_step (newLimitedListener 3)" by (rule reach_init) blast
  from connection_limits [OF example_tcp_reach this] show ?thesis
    by (auto simp: example_tcp_def accept_conn_def tcp_start_def newPortTCPWithLimit_def newLimitedListener_def Let_def)
qed

end
