(* ===== verification/Udp_Port.thy ===== *)
theory Udp_Port
  imports Port_Labels
begin

text \<open>
  \<^verbatim>\<open>src/internal/proxymanager/port_udp.go\<close>: the table of backend connections of a UDP port, one
  per client. One goroutine reads packets and installs connections, one per connection
  relays the answers, and \<^verbatim>\<open>close\<close> may come at any time; every critical section of
  \<^verbatim>\<open>clientMapMtx\<close> is one step. An entry is an address, so that the check that an entry was
  not replaced is a check of addresses. The rate limiter of a client is a parameter.
\<close>

section \<open>State\<close>

definition udpMaxClients :: nat where "udpMaxClients = 1024"

text \<open>The relay goroutine of an entry: running, or with its connection closed, or ended.\<close>

datatype relay = RelayRunning | RelayClosed | RelayDone

record 'lim clientEntry =
  ce_client :: string
  ce_open :: bool
  ce_lastSeen :: int
  ce_limiter :: 'lim
  ce_relay :: relay

text \<open>
  The reading goroutine: waiting for a packet, about to install the connection it has
  dialled for a client, or returned.
\<close>

datatype reader = Reading | Dialed string | Stopped

record 'lim udpPort =
  up_entries :: "'lim clientEntry list"
  up_clientMap :: "(string, nat) gomap"
  up_reader :: reader
  up_cancelled :: bool

definition newPortUDP :: "'lim udpPort" where
  "newPortUDP = \<lparr>up_entries = [], up_clientMap = [], up_reader = Reading, up_cancelled = False\<rparr>"

datatype udp_start_error = UdpClosedBeforeStart | UdpNoTarget

definition startWithPacketConn :: "PortConfig \<Rightarrow> 'lim udpPort \<Rightarrow> udp_start_error + 'lim udpPort" where
  "startWithPacketConn pconfig p =
     (if up_cancelled p then Inl UdpClosedBeforeStart
      else case GetFirstTarget pconfig of
             None \<Rightarrow> Inl UdpNoTarget
           | Some target \<Rightarrow> if u_host target = [] then Inl UdpNoTarget
                            else Inr (p\<lparr>up_clientMap := [], up_reader := Reading\<rparr>))"

definition upd_entry :: "nat \<Rightarrow> ('lim clientEntry \<Rightarrow> 'lim clientEntry) \<Rightarrow> 'lim udpPort \<Rightarrow> 'lim udpPort" where
  "upd_entry a f p = p\<lparr>up_entries := (up_entries p)[a := f (up_entries p ! a)]\<rparr>"

abbreviation entry :: "'lim udpPort \<Rightarrow> nat \<Rightarrow> 'lim clientEntry" where
  "entry p a \<equiv> up_entries p ! a"

definition close_entry :: "nat \<Rightarrow> 'lim udpPort \<Rightarrow> 'lim udpPort" where
  "close_entry a p = upd_entry a (\<lambda>e. e\<lparr>ce_open := False\<rparr>) p"

definition close_entries :: "(string, nat) gomap \<Rightarrow> 'lim udpPort \<Rightarrow> 'lim udpPort" where
  "close_entries clientMap p = fold (\<lambda>(k, a) p. close_entry a p) clientMap p"

definition closeAllClients :: "'lim udpPort \<Rightarrow> 'lim udpPort" where
  "closeAllClients p = close_entries (up_clientMap p) p"

section \<open>Eviction\<close>

text \<open>The loop of \<^verbatim>\<open>evictOldestClient\<close>; the empty key stands for no candidate yet.\<close>

fun oldest_loop :: "(nat \<Rightarrow> int) \<Rightarrow> (string \<times> nat) list \<Rightarrow> string \<Rightarrow> int \<Rightarrow> string" where
  "oldest_loop seen [] oldestKey oldestTime = oldestKey"
| "oldest_loop seen ((k, v) # kvs) oldestKey oldestTime =
     (if oldestKey = [] \<or> seen v < oldestTime then oldest_loop seen kvs k (seen v)
      else oldest_loop seen kvs oldestKey oldestTime)"

definition evictOldestClient :: "'lim udpPort \<Rightarrow> 'lim udpPort" where
  "evictOldestClient p =
     (let oldestKey = oldest_loop (\<lambda>a. ce_lastSeen (entry p a)) (up_clientMap p) [] 0
      in case gm_get (up_clientMap p) oldestKey of
           None \<Rightarrow> p
         | Some a \<Rightarrow> let p = close_entry a p in p\<lparr>up_clientMap := gm_del oldestKey (up_clientMap p)\<rparr>)"

section \<open>A packet of a client\<close>

datatype udp_result = UdpConn nat | UdpRateLimited | UdpDial | UdpError

text \<open>The entry is seen now and asks its limiter.\<close>

definition touch :: "(int \<Rightarrow> 'lim \<Rightarrow> bool \<times> 'lim) \<Rightarrow> int \<Rightarrow> nat \<Rightarrow> 'lim udpPort \<Rightarrow> bool \<times> 'lim udpPort" where
  "touch Allow now a p =
     (let (ok, lim) = Allow now (ce_limiter (entry p a))
      in (ok, upd_entry a (\<lambda>e. e\<lparr>ce_lastSeen := now, ce_limiter := lim\<rparr>) p))"

text \<open>Phases 1 and 2 of \<^verbatim>\<open>getOrCreateBackendConn\<close>; \<open>dial\<close> tells whether target and dial succeed.\<close>

definition getOrCreate_lookup ::
  "(int \<Rightarrow> 'lim \<Rightarrow> bool \<times> 'lim) \<Rightarrow> int \<Rightarrow> bool \<Rightarrow> string \<Rightarrow> 'lim udpPort \<Rightarrow> udp_result \<times> 'lim udpPort" where
  "getOrCreate_lookup Allow now dial key p =
     (case gm_get (up_clientMap p) key of
        Some a \<Rightarrow> (let (ok, p) = touch Allow now a p in (if ok then UdpConn a else UdpRateLimited, p))
      | None \<Rightarrow> (if dial then (UdpDial, p\<lparr>up_reader := Dialed key\<rparr>) else (UdpError, p)))"

text \<open>
  Phase 3: install the dialled connection. In the cases that close it nothing of it remains.
\<close>

definition getOrCreate_install ::
  "'lim \<Rightarrow> (int \<Rightarrow> 'lim \<Rightarrow> bool \<times> 'lim) \<Rightarrow> int \<Rightarrow> string \<Rightarrow> 'lim udpPort \<Rightarrow> udp_result \<times> 'lim udpPort" where
  "getOrCreate_install newLim Allow now key p0 =
     (let p = p0\<lparr>up_reader := Reading\<rparr>
      in if up_cancelled p then (UdpError, p)
         else case gm_get (up_clientMap p) key of
                Some a \<Rightarrow> (let (ok, p) = touch Allow now a p in (if ok then UdpConn a else UdpRateLimited, p))
              | None \<Rightarrow>
                  (let (ok, lim) = Allow now newLim; a = length (up_entries p)
                   in if \<not> ok then (UdpRateLimited, p)
                      else let p = p\<lparr>up_entries := up_entries p @ [\<lparr>ce_client = key, ce_open = True, ce_lastSeen = now,
                                       ce_limiter = lim, ce_relay = RelayRunning\<rparr>],
                                     up_clientMap := gm_put key a (up_clientMap p)\<rparr>;
                               p = (if length (up_clientMap p) \<ge> udpMaxClients then evictOldestClient p else p)
                           in (UdpConn a, p)))"

section \<open>Relays and shutdown\<close>

text \<open>The deferred function of \<^verbatim>\<open>relayBackendToClient\<close>: close the connection, then forget the entry.\<close>

definition relay_close :: "nat \<Rightarrow> 'lim udpPort \<Rightarrow> 'lim udpPort" where
  "relay_close a p = upd_entry a (\<lambda>e. e\<lparr>ce_open := False, ce_relay := RelayClosed\<rparr>) p"

definition relay_forget :: "nat \<Rightarrow> 'lim udpPort \<Rightarrow> 'lim udpPort" where
  "relay_forget a p =
     (let p = upd_entry a (\<lambda>e. e\<lparr>ce_relay := RelayDone\<rparr>) p; key = ce_client (entry p a)
      in if gm_get (up_clientMap p) key = Some a then p\<lparr>up_clientMap := gm_del key (up_clientMap p)\<rparr> else p)"

text \<open>The return of \<^verbatim>\<open>relayPackets\<close>, and the two effects of \<^verbatim>\<open>close\<close>.\<close>

definition relayPackets_return :: "'lim udpPort \<Rightarrow> 'lim udpPort" where
  "relayPackets_return p = (closeAllClients p)\<lparr>up_reader := Stopped\<rparr>"

definition udp_cancel :: "'lim udpPort \<Rightarrow> 'lim udpPort" where
  "udp_cancel p = p\<lparr>up_cancelled := True\<rparr>"

inductive udp_step :: "'lim \<Rightarrow> (int \<Rightarrow> 'lim \<Rightarrow> bool \<times> 'lim) \<Rightarrow> 'lim udpPort \<Rightarrow> 'lim udpPort \<Rightarrow> bool" for newLim Allow where
  UdpPacket: "up_reader p = Reading \<Longrightarrow> getOrCreate_lookup Allow now dial key p = (r, p') \<Longrightarrow> udp_step newLim Allow p p'"
| UdpInstall: "up_reader p = Dialed key \<Longrightarrow> getOrCreate_install newLim Allow now key p = (r, p') \<Longrightarrow> udp_step newLim Allow p p'"
| UdpReturn: "up_reader p = Reading \<Longrightarrow> udp_step newLim Allow p (relayPackets_return p)"
| UdpRelayClose: "a < length (up_entries p) \<Longrightarrow> ce_relay (entry p a) = RelayRunning \<Longrightarrow> udp_step newLim Allow p (relay_close a p)"
| UdpRelayForget: "a < length (up_entries p) \<Longrightarrow> ce_relay (entry p a) = RelayClosed \<Longrightarrow> udp_step newLim Allow p (relay_forget a p)"
| UdpCloseAll: "udp_step newLim Allow p (closeAllClients p)"
| UdpCancel: "udp_step newLim Allow p (udp_cancel p)"

abbreviation udp_init :: "'lim udpPort \<Rightarrow> bool" where
  "udp_init p \<equiv> p = newPortUDP"

section \<open>Invariant\<close>

definition entries_ok :: "'lim udpPort \<Rightarrow> bool" where
  "entries_ok p \<longleftrightarrow>
     (\<forall>k a. gm_get (up_clientMap p) k = Some a \<longrightarrow>
        a < length (up_entries p) \<and> ce_client (entry p a) = k \<and> ce_relay (entry p a) \<noteq> RelayDone) \<and>
     (\<forall>a < length (up_entries p). ce_open (entry p a) \<longrightarrow>
        ce_relay (entry p a) = RelayRunning \<and> gm_get (up_clientMap p) (ce_client (entry p a)) = Some a)"

definition udp_inv :: "'lim udpPort \<Rightarrow> bool" where
  "udp_inv p \<longleftrightarrow> entries_ok p \<and> gm_wf (up_clientMap p) \<and> length (up_clientMap p) < udpMaxClients \<and>
     (up_reader p = Stopped \<longrightarrow> (\<forall>a < length (up_entries p). \<not> ce_open (entry p a)))"

lemma entries_okD:
  assumes "entries_ok p"
  shows "gm_get (up_clientMap p) k = Some a \<Longrightarrow>
      a < length (up_entries p) \<and> ce_client (entry p a) = k \<and> ce_relay (entry p a) \<noteq> RelayDone"
    and "a < length (up_entries p) \<Longrightarrow> ce_open (entry p a) \<Longrightarrow>
      ce_relay (entry p a) = RelayRunning \<and> gm_get (up_clientMap p) (ce_client (entry p a)) = Some a"
  using assms unfolding entries_ok_def by blast+

lemma upd_entry_fields [simp]:
  "up_clientMap (upd_entry a f p) = up_clientMap p" "up_reader (upd_entry a f p) = up_reader p"
  "up_cancelled (upd_entry a f p) = up_cancelled p" "length (up_entries (upd_entry a f p)) = length (up_entries p)"
  by (simp_all add: upd_entry_def)

lemma upd_entry_nth:
  "b < length (up_entries p) \<Longrightarrow> entry (upd_entry a f p) b = (if a = b then f (entry p b) else entry p b)"
  by (simp add: upd_entry_def nth_list_update)

lemma upd_entries_ok:
  assumes ok: "entries_ok p" and f: "ce_client (f (entry p a)) = ce_client (entry p a)"
    "ce_open (f (entry p a)) \<Longrightarrow> ce_open (entry p a) \<and> ce_relay (f (entry p a)) = ce_relay (entry p a)"
    "ce_relay (f (entry p a)) = RelayDone \<Longrightarrow> ce_relay (entry p a) = RelayDone"
  shows "entries_ok (upd_entry a f p)"
proof -
  have nth: "b < length (up_entries p) \<Longrightarrow> entry (upd_entry a f p) b = (if b = a then f (entry p a) else entry p b)" for b
    by (auto simp: upd_entry_nth)
  show ?thesis unfolding entries_ok_def
  proof (intro conjI allI impI, goal_cases)
    case (1 k b)
    then show ?case using entries_okD(1) [OF ok, of k b] by simp
  next
    case (2 k b)
    then show ?case using entries_okD(1) [OF ok, of k b] nth [of b] f(1) by auto
  next
    case (3 k b)
    then show ?case using entries_okD(1) [OF ok, of k b] nth [of b] f(3) by auto
  next
    case (4 b)
    then show ?case using entries_okD(2) [OF ok, of b] nth [of b] f(2) by (auto split: if_splits)
  next
    case (5 b)
    then show ?case using entries_okD(2) [OF ok, of b] nth [of b] f(1,2) by (auto split: if_splits)
  qed
qed

lemma close_entry_ok: "entries_ok p \<Longrightarrow> entries_ok (close_entry a p)"
  unfolding close_entry_def by (rule upd_entries_ok) simp_all

lemma touch_ok:
  assumes "touch Allow now a p = (ok, p')" "entries_ok p"
  shows "entries_ok p'" "up_clientMap p' = up_clientMap p" "up_reader p' = up_reader p" "length (up_entries p') = length (up_entries p)"
proof -
  obtain lim where p': "p' = upd_entry a (\<lambda>e. e\<lparr>ce_lastSeen := now, ce_limiter := lim\<rparr>) p"
    using assms(1) by (auto simp: touch_def split: prod.splits)
  show "entries_ok p'" unfolding p' by (rule upd_entries_ok [OF assms(2)]) simp_all
  show "up_clientMap p' = up_clientMap p" "up_reader p' = up_reader p" "length (up_entries p') = length (up_entries p)"
    by (simp_all add: p')
qed

text \<open>Closing all clients closes exactly the entries in the map.\<close>

lemma close_fold:
  "up_clientMap (close_entries kvs p) = up_clientMap p \<and> up_reader (close_entries kvs p) = up_reader p \<and>
    up_cancelled (close_entries kvs p) = up_cancelled p \<and> length (up_entries (close_entries kvs p)) = length (up_entries p) \<and>
    (entries_ok p \<longrightarrow> entries_ok (close_entries kvs p)) \<and>
    (\<forall>a < length (up_entries p). ce_client (entry (close_entries kvs p) a) = ce_client (entry p a) \<and>
       ce_relay (entry (close_entries kvs p) a) = ce_relay (entry p a) \<and>
       (ce_open (entry (close_entries kvs p) a) \<longleftrightarrow> ce_open (entry p a) \<and> a \<notin> snd ` set kvs))"
  unfolding close_entries_def
proof (induction kvs arbitrary: p)
  case (Cons kv kvs)
  have "entry (close_entry (snd kv) p) a = (if snd kv = a then (entry p a)\<lparr>ce_open := False\<rparr> else entry p a)"
    if "a < length (up_entries p)" for a
    using that by (simp add: close_entry_def upd_entry_nth)
  moreover have "up_clientMap (close_entry (snd kv) p) = up_clientMap p" "up_reader (close_entry (snd kv) p) = up_reader p"
    "up_cancelled (close_entry (snd kv) p) = up_cancelled p" "length (up_entries (close_entry (snd kv) p)) = length (up_entries p)"
    by (simp_all add: close_entry_def)
  ultimately show ?case
    using Cons.IH [of "close_entry (snd kv) p"] close_entry_ok [of p "snd kv"] by (auto simp: case_prod_beta split: if_splits)
qed simp

lemma closeAll_ok:
  assumes "udp_inv p"
  shows "udp_inv (closeAllClients p)" "a < length (up_entries p) \<Longrightarrow> \<not> ce_open (entry (closeAllClients p) a)"
proof -
  note C = close_fold [of "up_clientMap p" p, folded closeAllClients_def]
  have ok: "entries_ok p" using assms by (simp add: udp_inv_def)
  show c: "\<not> ce_open (entry (closeAllClients p) a)" if "a < length (up_entries p)" for a
  proof
    assume "ce_open (entry (closeAllClients p) a)"
    with C that have o: "ce_open (entry p a)" and n: "a \<notin> snd ` set (up_clientMap p)" by auto
    from entries_okD(2) [OF ok that o] have "(ce_client (entry p a), a) \<in> set (up_clientMap p)" by (auto dest: map_of_SomeD)
    with n show False by force
  qed
  show "udp_inv (closeAllClients p)" using assms C c by (auto simp: udp_inv_def)
qed

section \<open>Which client is evicted\<close>

lemma oldest_in: "oldest_loop seen kvs k t \<in> insert k (fst ` set kvs) \<and> (kvs \<noteq> [] \<and> k = [] \<longrightarrow> oldest_loop seen kvs k t \<in> fst ` set kvs)"
proof (induction kvs arbitrary: k t)
  case (Cons kv kvs)
  show ?case using Cons.IH [of "fst kv" "seen (snd kv)"] Cons.IH [of k t] by (cases kv) auto
qed simp

lemma oldest_min:
  assumes "gm_wf m" "kvs \<noteq> [] \<or> k \<noteq> []" "list_all (\<lambda>(k, _). k \<noteq> []) kvs" "set kvs \<subseteq> set m" "k \<noteq> [] \<Longrightarrow> \<exists>v. gm_get m k = Some v \<and> seen v = t"
  shows "\<exists>v. gm_get m (oldest_loop seen kvs k t) = Some v \<and> list_all (\<lambda>(_, w). seen v \<le> seen w) kvs \<and> (k \<noteq> [] \<longrightarrow> seen v \<le> t)"
  using assms(2-)
proof (induction kvs arbitrary: k t)
  case (Cons kv kvs)
  obtain k1 v1 where kv: "kv = (k1, v1)" by force
  have g: "gm_get m k1 = Some v1" "k1 \<noteq> []" using Cons.prems kv assms(1) by (auto simp: gm_in_get)
  show ?case
  proof (cases "k = [] \<or> seen v1 < t")
    case True
    with Cons.IH [of k1 "seen v1"] Cons.prems g kv show ?thesis by auto
  next
    case False
    with Cons.IH [of k t] Cons.prems g kv show ?thesis by fastforce
  qed
qed auto

lemma evict_ok:
  assumes ok: "entries_ok p" and wf: "gm_wf (up_clientMap p)" and ne: "up_clientMap p \<noteq> []"
  shows "entries_ok (evictOldestClient p)" "gm_wf (up_clientMap (evictOldestClient p))"
    "Suc (length (up_clientMap (evictOldestClient p))) = length (up_clientMap p)"
    "up_reader (evictOldestClient p) = up_reader p" "length (up_entries (evictOldestClient p)) = length (up_entries p)"
proof -
  let ?k = "oldest_loop (\<lambda>a. ce_lastSeen (entry p a)) (up_clientMap p) [] 0"
  have "?k \<in> set (keys (up_clientMap p))" using oldest_in [of _ "up_clientMap p" "[]"] ne by auto
  then obtain a where a: "gm_get (up_clientMap p) ?k = Some a" using gm_get_None_iff [of "up_clientMap p" ?k] by blast
  let ?p = "close_entry a p"
  have m: "up_clientMap ?p = up_clientMap p" by (simp add: close_entry_def)
  have ev: "evictOldestClient p = ?p\<lparr>up_clientMap := gm_del ?k (up_clientMap p)\<rparr>"
    using a m by (simp add: evictOldestClient_def Let_def)
  note A = entries_okD(1) [OF ok a]
  have closed: "\<not> ce_open (entry ?p a)" using A by (simp add: close_entry_def upd_entry_nth)
  note ok' = close_entry_ok [OF ok, of a]
  show "entries_ok (evictOldestClient p)"
    unfolding entries_ok_def ev
  proof (intro conjI allI impI, goal_cases)
    case (1 k b)
    then show ?case using entries_okD(1) [OF ok', of k b] m by (simp split: if_splits)
  next
    case (2 k b)
    then show ?case using entries_okD(1) [OF ok', of k b] m by (simp split: if_splits)
  next
    case (3 k b)
    then show ?case using entries_okD(1) [OF ok', of k b] m by (simp split: if_splits)
  next
    case (4 b)
    then show ?case using entries_okD(2) [OF ok', of b] by simp
  next
    case (5 b)
    then have "gm_get (up_clientMap p) (ce_client (entry ?p b)) = Some b" using entries_okD(2) [OF ok', of b] m by simp
    moreover have "b \<noteq> a" using 5 closed by auto
    ultimately show ?case using a by auto
  qed
  show "gm_wf (up_clientMap (evictOldestClient p))" using wf by (simp add: ev)
  show "Suc (length (up_clientMap (evictOldestClient p))) = length (up_clientMap p)"
    using gm_del_length [OF wf \<open>?k \<in> _\<close>] by (simp add: ev)
  show "up_reader (evictOldestClient p) = up_reader p" "length (up_entries (evictOldestClient p)) = length (up_entries p)"
    by (simp_all add: ev close_entry_def)
qed

lemma evict_client:
  assumes "b < length (up_entries p)"
  shows "ce_client (entry (evictOldestClient p) b) = ce_client (entry p b)" "length (up_entries (evictOldestClient p)) = length (up_entries p)"
  using assms by (simp_all add: evictOldestClient_def close_entry_def upd_entry_nth Let_def split: option.split)

section \<open>Every step keeps the invariant\<close>

lemma udp_inv_cong:
  "udp_inv p \<Longrightarrow> up_reader p \<noteq> Stopped \<Longrightarrow> entries_ok p' \<Longrightarrow> up_clientMap p' = up_clientMap p \<Longrightarrow> up_reader p' \<noteq> Stopped \<Longrightarrow> udp_inv p'"
  by (simp add: udp_inv_def)

lemma entries_ok_reader: "entries_ok (p\<lparr>up_reader := x\<rparr>) = entries_ok p"
  by (simp add: entries_ok_def)

lemma lookup_inv:
  assumes "udp_inv p" "up_reader p = Reading" "getOrCreate_lookup Allow now dial key p = (r, p')"
  shows "udp_inv p'"
proof -
  have ok: "entries_ok p" using assms(1) by (simp add: udp_inv_def)
  show ?thesis
  proof (cases "gm_get (up_clientMap p) key")
    case None
    with assms show ?thesis by (auto simp: getOrCreate_lookup_def udp_inv_def entries_ok_reader split: if_splits)
  next
    case (Some a)
    then obtain b where "touch Allow now a p = (b, p')"
      using assms(3) by (auto simp: getOrCreate_lookup_def split: prod.splits)
    from touch_ok [OF this ok] assms(1,2) show ?thesis by (auto intro: udp_inv_cong)
  qed
qed

lemma install_entry_ok:
  assumes ok: "entries_ok p" and new: "gm_get (up_clientMap p) key = None"
    and q: "q = p\<lparr>up_entries := up_entries p @ [e], up_clientMap := gm_put key (length (up_entries p)) (up_clientMap p)\<rparr>"
    and e: "ce_client e = key" "ce_relay e = RelayRunning"
  shows "entries_ok q"
  unfolding entries_ok_def
proof (intro conjI allI impI, goal_cases)
  case (1 k b)
  then show ?case using entries_okD(1) [OF ok, of k b] by (auto simp: q split: if_splits)
next
  case (2 k b)
  then show ?case using entries_okD(1) [OF ok, of k b] e by (auto simp: q nth_append split: if_splits)
next
  case (3 k b)
  then show ?case using entries_okD(1) [OF ok, of k b] e by (auto simp: q nth_append split: if_splits)
next
  case (4 b)
  then show ?case using entries_okD(2) [OF ok, of b] e by (auto simp: q nth_append less_Suc_eq split: if_splits)
next
  case (5 b)
  then show ?case using entries_okD(2) [OF ok, of b] e new by (auto simp: q nth_append less_Suc_eq split: if_splits)
qed

lemma install_new:
  assumes "\<not> up_cancelled p" "gm_get (up_clientMap p) key = None" "Allow now newLim = (True, lim)"
  defines "q \<equiv> p\<lparr>up_reader := Reading, up_entries := up_entries p @ [\<lparr>ce_client = key, ce_open = True, ce_lastSeen = now,
      ce_limiter = lim, ce_relay = RelayRunning\<rparr>], up_clientMap := gm_put key (length (up_entries p)) (up_clientMap p)\<rparr>"
  shows "getOrCreate_install newLim Allow now key p =
    (UdpConn (length (up_entries p)), if length (up_clientMap q) \<ge> udpMaxClients then evictOldestClient q else q)"
  using assms by (simp add: getOrCreate_install_def Let_def)

lemma install_inv:
  assumes inv: "udp_inv p" and rd: "up_reader p = Dialed k0" and st: "getOrCreate_install newLim Allow now key p = (r, p')"
  shows "udp_inv p'"
proof -
  let ?p = "p\<lparr>up_reader := Reading\<rparr>"
  have ok: "entries_ok ?p" using inv by (simp add: udp_inv_def entries_ok_reader)
  have inv': "udp_inv ?p" using inv rd by (simp add: udp_inv_def entries_ok_reader)
  show ?thesis
  proof (cases "up_cancelled p \<or> gm_get (up_clientMap p) key = None \<and> \<not> fst (Allow now newLim)")
    case True
    then have "p' = ?p" using st by (cases "Allow now newLim") (auto simp: getOrCreate_install_def Let_def split: if_splits)
    with inv' show ?thesis by simp
  next
    case False
    show ?thesis
    proof (cases "gm_get (up_clientMap p) key")
      case (Some a)
      then obtain b where "touch Allow now a ?p = (b, p')"
        using st False by (auto simp: getOrCreate_install_def Let_def split: prod.splits)
      from touch_ok [OF this ok] inv' show ?thesis by (auto intro: udp_inv_cong)
    next
      case None
      obtain lim where lim: "Allow now newLim = (True, lim)" using False None by (cases "Allow now newLim") auto
      define q where "q = p\<lparr>up_reader := Reading, up_entries := up_entries p @ [\<lparr>ce_client = key, ce_open = True, ce_lastSeen = now,
        ce_limiter = lim, ce_relay = RelayRunning\<rparr>], up_clientMap := gm_put key (length (up_entries p)) (up_clientMap p)\<rparr>"
      have p': "p' = (if length (up_clientMap q) \<ge> udpMaxClients then evictOldestClient q else q)"
        using st install_new [of p key Allow now newLim lim] False None lim by (simp add: q_def)
      have okq: "entries_ok q" 
        using install_entry_ok [OF ok, of key q "\<lparr>ce_client = key, ce_open = True, ce_lastSeen = now, ce_limiter = lim, ce_relay = RelayRunning\<rparr>"]
          None by (simp add: q_def)
      have wf: "gm_wf (up_clientMap q)" and len: "length (up_clientMap q) \<le> udpMaxClients"
        using inv None by (simp_all add: q_def udp_inv_def gm_put_new_length gm_get_None_iff)
      have rq: "up_reader q = Reading" by (simp add: q_def)
      show ?thesis
      proof (cases "length (up_clientMap q) \<ge> udpMaxClients")
        case True
        then have "up_clientMap q \<noteq> []" by (auto simp: udpMaxClients_def)
        note E = evict_ok [OF okq wf this]
        show ?thesis using E p' True len rq by (simp add: udp_inv_def)
      qed (use okq wf rq p' in \<open>simp add: udp_inv_def\<close>)
    qed
  qed
qed

lemma relay_close_inv:
  assumes "udp_inv p" "a < length (up_entries p)"
  shows "udp_inv (relay_close a p)"
proof -
  have "entries_ok (relay_close a p)" unfolding relay_close_def
    using assms(1) by (intro upd_entries_ok) (simp_all add: udp_inv_def)
  with assms show ?thesis by (auto simp: udp_inv_def relay_close_def upd_entry_nth)
qed

lemma relay_forget_inv:
  assumes inv: "udp_inv p" and a: "a < length (up_entries p)" "ce_relay (entry p a) = RelayClosed"
  shows "udp_inv (relay_forget a p)"
proof -
  let ?f = "\<lambda>e :: 'a clientEntry. e\<lparr>ce_relay := RelayDone\<rparr>"
  let ?q = "upd_entry a ?f p" and ?k = "ce_client (entry p a)"
  have ok: "entries_ok p" using inv by (simp add: udp_inv_def)
  have nth: "entry ?q b = (if b = a then (entry p a)\<lparr>ce_relay := RelayDone\<rparr> else entry p b)" if "b < length (up_entries p)" for b
    using that by (auto simp: upd_entry_nth)
  have closed: "\<not> ce_open (entry p a)" using entries_okD(2) [OF ok a(1)] a(2) by auto
  define m where "m = (if gm_get (up_clientMap p) ?k = Some a then gm_del ?k (up_clientMap p) else up_clientMap p)"
  have rf: "relay_forget a p = ?q\<lparr>up_clientMap := m\<rparr>" using a nth [of a] by (simp add: relay_forget_def Let_def m_def)
  have na: "gm_get m k \<noteq> Some a" for k using entries_okD(1) [OF ok, of k a] by (auto simp: m_def)
  have keep: "gm_get m k = gm_get (up_clientMap p) k" if "gm_get (up_clientMap p) k \<noteq> Some a" for k
    using that by (auto simp: m_def)
  have sub: "gm_get m k = Some b \<Longrightarrow> gm_get (up_clientMap p) k = Some b" for k b by (auto simp: m_def split: if_splits)
  have "entries_ok (relay_forget a p)" unfolding entries_ok_def rf
  proof (intro conjI allI impI, goal_cases)
    case (1 k b)
    then show ?case using entries_okD(1) [OF ok sub, of k b] by simp
  next
    case (2 k b)
    then show ?case using entries_okD(1) [OF ok sub, of k b] nth [of b] by auto
  next
    case (3 k b)
    then show ?case using entries_okD(1) [OF ok sub, of k b] nth [of b] na [of k] by auto
  next
    case (4 b)
    then show ?case using entries_okD(2) [OF ok, of b] nth [of b] closed by (auto split: if_splits)
  next
    case (5 b)
    then have "b \<noteq> a" "ce_open (entry p b)" using nth [of b] closed by (auto split: if_splits)
    with 5 show ?case using entries_okD(2) [OF ok, of b] nth [of b] keep [of "ce_client (entry p b)"] by auto
  qed
  moreover have "gm_wf m" "length m < udpMaxClients"
    using inv gm_del_length_le [of ?k "up_clientMap p"] by (auto simp: udp_inv_def m_def)
  ultimately show ?thesis using inv nth by (auto simp: udp_inv_def rf)
qed

lemma udp_step_inv:
  assumes "udp_inv p" "udp_step newLim Allow p p'"
  shows "udp_inv p'"
  using assms(2)
proof cases
  case UdpReturn
  have "length (up_entries (closeAllClients p)) = length (up_entries p)"
    using close_fold [of "up_clientMap p" p] by (simp add: closeAllClients_def)
  then show ?thesis using closeAll_ok [OF assms(1)] UdpReturn
    by (auto simp: relayPackets_return_def udp_inv_def entries_ok_reader)
next
  case UdpCancel
  then show ?thesis using assms(1) by (simp add: udp_cancel_def udp_inv_def entries_ok_def)
qed (use assms(1) in \<open>auto intro: lookup_inv install_inv relay_close_inv relay_forget_inv closeAll_ok\<close>)

interpretation udp: invariant_system udp_init "udp_step newLim Allow" udp_inv
proof unfold_locales
  show "udp_init p \<Longrightarrow> udp_inv p" for p :: "'a udpPort"
    by (simp add: newPortUDP_def udp_inv_def entries_ok_def udpMaxClients_def)
qed (rule udp_step_inv)

section \<open>Properties\<close>

abbreviation udp_reach :: "'lim \<Rightarrow> (int \<Rightarrow> 'lim \<Rightarrow> bool \<times> 'lim) \<Rightarrow> 'lim udpPort \<Rightarrow> bool" where
  "udp_reach newLim Allow \<equiv> reach udp_init (udp_step newLim Allow)"

text \<open>
  C18: in every interleaving of packets, relays and shutdown, a UDP port serves at most 1023
  clients, every open backend connection is the one registered for its client and has a
  running relay that will close it, and once the reading loop has returned no backend
  connection is open any more.
\<close>

theorem udp_clients:
  assumes "udp_reach newLim Allow p"
  shows "length (up_clientMap p) \<le> 1023 \<and>
    (\<forall>a < length (up_entries p). ce_open (entry p a) \<longrightarrow>
       ce_relay (entry p a) = RelayRunning \<and> gm_get (up_clientMap p) (ce_client (entry p a)) = Some a \<and> up_reader p \<noteq> Stopped)"
  using udp.reach_inv [OF assms] by (auto simp: udp_inv_def udpMaxClients_def dest: entries_okD(2))

text \<open>
  A packet is relayed on the connection of its own client, and answers go back there: the
  connection a packet of a client gets belongs to that client, whether it was there
  already or is installed now, and whatever else happens in between.
\<close>

theorem udp_packet_connection:
  assumes "udp_reach newLim Allow p"
  shows "(getOrCreate_lookup Allow now dial key p = (UdpConn a, p') \<longrightarrow> a < length (up_entries p') \<and> ce_client (entry p' a) = key) \<and>
    (up_reader p = Dialed key \<longrightarrow> getOrCreate_install newLim Allow now key p = (UdpConn a, p') \<longrightarrow>
       a < length (up_entries p') \<and> ce_client (entry p' a) = key)"
proof -
  note inv = udp.reach_inv [OF assms]
  have ok: "entries_ok p" "entries_ok (p\<lparr>up_reader := Reading\<rparr>)" using inv by (simp_all add: udp_inv_def entries_ok_reader)
  have touched: "a < length (up_entries p') \<and> ce_client (entry p' a) = key"
    if "touch Allow now a q = (b, p')" "entries_ok q" "gm_get (up_clientMap q) key = Some a" for q b
    using touch_ok [OF that(1,2)] entries_okD(1) [of p' key a] that(3) by simp
  have lookup: "a < length (up_entries p') \<and> ce_client (entry p' a) = key"
    if "getOrCreate_lookup Allow now dial key p = (UdpConn a, p')"
    using that touched [OF _ ok(1)] by (auto simp: getOrCreate_lookup_def split: option.splits prod.splits if_splits)
  have install: "a < length (up_entries p') \<and> ce_client (entry p' a) = key"
    if st: "getOrCreate_install newLim Allow now key p = (UdpConn a, p')"
  proof (cases "gm_get (up_clientMap p) key")
    case (Some b)
    then show ?thesis using st touched [OF _ ok(2)]
      by (auto simp: getOrCreate_install_def Let_def split: prod.splits if_splits)
  next
    case None
    obtain lim where c: "\<not> up_cancelled p" "Allow now newLim = (True, lim)"
      using st None by (cases "Allow now newLim") (auto simp: getOrCreate_install_def Let_def split: if_splits)
    let ?q = "p\<lparr>up_reader := Reading, up_entries := up_entries p @ [\<lparr>ce_client = key, ce_open = True, ce_lastSeen = now,
      ce_limiter = lim, ce_relay = RelayRunning\<rparr>], up_clientMap := gm_put key (length (up_entries p)) (up_clientMap p)\<rparr>"
    have a: "a = length (up_entries p)" and p': "p' = ?q \<or> p' = evictOldestClient ?q"
      using st install_new [of p key Allow now newLim lim] c None by (auto split: if_splits)
    then show ?thesis using evict_client [of a ?q] by (auto simp: a)
  qed
  from lookup install show ?thesis by blast
qed

text \<open>
  Eviction removes the client that was seen longest ago: no client left in the table was
  last seen before it.
\<close>

theorem evictOldest_least_recent:
  assumes "gm_wf (up_clientMap p)" "up_clientMap p \<noteq> []" "list_all (\<lambda>(k, _). k \<noteq> []) (up_clientMap p)"
  shows "\<exists>k a. gm_get (up_clientMap p) k = Some a \<and> up_clientMap (evictOldestClient p) = gm_del k (up_clientMap p) \<and>
    list_all (\<lambda>(_, b). ce_lastSeen (entry p a) \<le> ce_lastSeen (entry p b)) (up_clientMap p) \<and>
    \<not> (a < length (up_entries p) \<and> ce_open (entry (evictOldestClient p) a))"
proof -
  let ?seen = "\<lambda>a. ce_lastSeen (entry p a)" and ?k = "oldest_loop (\<lambda>a. ce_lastSeen (entry p a)) (up_clientMap p) [] 0"
  obtain a where a: "gm_get (up_clientMap p) ?k = Some a" "list_all (\<lambda>(_, b). ?seen a \<le> ?seen b) (up_clientMap p)"
    using oldest_min [OF assms(1), of "up_clientMap p" "[]" ?seen 0] assms(2,3) by auto
  then show ?thesis
    by (intro exI [of _ ?k] exI [of _ a]) (simp add: evictOldestClient_def close_entry_def upd_entry_nth Let_def)
qed

section \<open>Witnesses\<close>

definition example_udp :: "nat udpPort" where
  "example_udp = snd (getOrCreate_install 9 (\<lambda>_ n. (0 < n, n - 1)) 5 ''c:1'' (newPortUDP\<lparr>up_reader := Dialed ''c:1''\<rparr>))"

lemma example_udp_reach: "udp_reach 9 (\<lambda>_ n. (0 < n, n - 1)) example_udp"
proof -
  let ?A = "\<lambda>_ n. (0 < n, n - 1 :: nat)"
  have 0: "udp_reach 9 ?A newPortUDP" by (rule reach_init) simp
  have "getOrCreate_lookup ?A 1 True ''c:1'' newPortUDP = (UdpDial, newPortUDP\<lparr>up_reader := Dialed ''c:1''\<rparr>)"
    by (simp add: getOrCreate_lookup_def newPortUDP_def)
  then have "udp_step 9 ?A newPortUDP (newPortUDP\<lparr>up_reader := Dialed ''c:1''\<rparr>)"
    by (rule UdpPacket [rotated]) (simp add: newPortUDP_def)
  with 0 have 1: "udp_reach 9 ?A (newPortUDP\<lparr>up_reader := Dialed ''c:1''\<rparr>)" by (rule reach_step)
  have "udp_step 9 ?A (newPortUDP\<lparr>up_reader := Dialed ''c:1''\<rparr>) example_udp"
    unfolding example_udp_def by (rule UdpInstall [OF _ surjective_pairing]) simp
  with 1 show ?thesis by (rule reach_step)
qed

lemma example_udp_state:
  "example_udp = \<lparr>up_entries = [\<lparr>ce_client = ''c:1'', ce_open = True, ce_lastSeen = 5, ce_limiter = 8, ce_relay = RelayRunning\<rparr>],
     up_clientMap = [(''c:1'', 0)], up_reader = Reading, up_cancelled = False\<rparr>"
  by (simp add: example_udp_def getOrCreate_install_def newPortUDP_def udpMaxClients_def Let_def)

theorem udp_clients_witness: "length (up_clientMap example_udp) \<le> 1023"
  using udp_clients [OF example_udp_reach] by blast

theorem udp_packet_connection_witness:
  "ce_client (entry (snd (getOrCreate_lookup (\<lambda>_ n. (0 < n, n - 1)) 6 True ''c:1'' example_udp)) 0) = ''c:1''"
  using udp_packet_connection [OF example_udp_reach, of 6 True "''c:1''" 0]
  by (simp add: example_udp_state getOrCreate_lookup_def touch_def)

theorem evictOldest_least_recent_witness: "up_clientMap (evictOldestClient example_udp) = []"
  using evictOldest_least_recent [of example_udp] by (auto simp: example_udp_state gm_wf_def split: if_splits)

end
