(* ===== verification/Port_Router.thy ===== *)
theory Port_Router
  imports Go_Net "HOL-Library.Multiset"
begin

text \<open>
  \<^verbatim>\<open>src/internal/proxyproviders/tailscale/virtual_listener.go\<close> and \<^verbatim>\<open>port_router.go\<close>: one port of
  the shared Tailscale node serves many domains. The router reads the start of a
  connection to find the host name, then hands the connection, with the bytes it read put
  back, to the virtual listener of that name. The TLS and HTTP parsers of the standard
  library are parameters. \<open>'c\<close> is the type of connections.
\<close>

section \<open>Virtual listeners\<close>

definition connBufferSize :: nat where "connBufferSize = 64"

record 'c VirtualListener =
  vl_ch :: "'c list"
  vl_closed :: bool
  vl_dropped :: nat

definition NewVirtualListener :: "'c VirtualListener" where
  "NewVirtualListener = \<lparr>vl_ch = [], vl_closed = False, vl_dropped = 0\<rparr>"

datatype 'c vl_result = Accepted 'c | ErrClosed | Blocked

text \<open>\<^verbatim>\<open>Accept\<close>; with a buffered connection and a closed \<^verbatim>\<open>done\<close> the select may take either (\<open>preferDone\<close>).\<close>

definition vl_Accept :: "bool \<Rightarrow> 'c VirtualListener \<Rightarrow> 'c vl_result \<times> 'c VirtualListener" where
  "vl_Accept preferDone vl =
     (if vl_closed vl \<and> preferDone then (ErrClosed, vl)
      else case vl_ch vl of
             c # cs \<Rightarrow> (Accepted c, vl\<lparr>vl_ch := cs\<rparr>)
           | [] \<Rightarrow> (if vl_closed vl then ErrClosed else Blocked, vl))"

text \<open>\<^verbatim>\<open>Dispatch\<close>: a connection that is refused is closed.\<close>

definition vl_Dispatch :: "'c \<Rightarrow> 'c VirtualListener \<Rightarrow> bool \<times> 'c VirtualListener" where
  "vl_Dispatch conn vl =
     (if vl_closed vl then (False, vl)
      else if length (vl_ch vl) < connBufferSize then (True, vl\<lparr>vl_ch := vl_ch vl @ [conn]\<rparr>)
      else (False, vl\<lparr>vl_dropped := vl_dropped vl + 1\<rparr>))"

text \<open>
  \<^verbatim>\<open>Close\<close> in two parts: the critical section that closes the channel, then the drain of the
  buffered connections, one receive at a time. \<open>vl_Close\<close> is both without interruption; it
  also returns the connections it closes.
\<close>

definition vl_close_channel :: "'c VirtualListener \<Rightarrow> 'c VirtualListener" where
  "vl_close_channel vl = vl\<lparr>vl_closed := True\<rparr>"

definition vl_drain_one :: "'c VirtualListener \<Rightarrow> ('c \<times> 'c VirtualListener) option" where
  "vl_drain_one vl = (case vl_ch vl of [] \<Rightarrow> None | c # cs \<Rightarrow> Some (c, vl\<lparr>vl_ch := cs\<rparr>))"

definition vl_Close :: "'c VirtualListener \<Rightarrow> 'c list \<times> 'c VirtualListener" where
  "vl_Close vl = (if vl_closed vl then ([], vl) else (vl_ch vl, (vl_close_channel vl)\<lparr>vl_ch := []\<rparr>))"

text \<open>
  A listener with its router, its acceptor and one goroutine that closes it. Connections
  are numbered in the order of their dispatch.
\<close>

record vl_world =
  vw_listener :: "nat VirtualListener"
  vw_next :: nat
  vw_accepted :: "nat list"
  vw_closed :: "nat list"
  vw_draining :: bool

inductive vl_step :: "vl_world \<Rightarrow> vl_world \<Rightarrow> bool" where
  VlDispatch: "vl_Dispatch (vw_next w) (vw_listener w) = (ok, vl) \<Longrightarrow>
    vl_step w (w\<lparr>vw_listener := vl, vw_next := vw_next w + 1, vw_closed := (if ok then vw_closed w else vw_closed w @ [vw_next w])\<rparr>)"
| VlAccept: "vl_Accept b (vw_listener w) = (Accepted c, vl) \<Longrightarrow>
    vl_step w (w\<lparr>vw_listener := vl, vw_accepted := vw_accepted w @ [c]\<rparr>)"
| VlClose: "\<not> vl_closed (vw_listener w) \<Longrightarrow>
    vl_step w (w\<lparr>vw_listener := vl_close_channel (vw_listener w), vw_draining := True\<rparr>)"
| VlDrain: "vw_draining w \<Longrightarrow> vl_drain_one (vw_listener w) = Some (c, vl) \<Longrightarrow>
    vl_step w (w\<lparr>vw_listener := vl, vw_closed := vw_closed w @ [c]\<rparr>)"
| VlDrained: "vw_draining w \<Longrightarrow> vl_drain_one (vw_listener w) = None \<Longrightarrow> vl_step w (w\<lparr>vw_draining := False\<rparr>)"

abbreviation vl_init :: "vl_world \<Rightarrow> bool" where
  "vl_init w \<equiv> w = \<lparr>vw_listener = NewVirtualListener, vw_next = 0, vw_accepted = [], vw_closed = [], vw_draining = False\<rparr>"

definition vl_inv :: "vl_world \<Rightarrow> bool" where
  "vl_inv w \<longleftrightarrow>
     mset (vl_ch (vw_listener w)) + mset (vw_accepted w) + mset (vw_closed w) = mset [0..<vw_next w] \<and>
     length (vl_ch (vw_listener w)) \<le> connBufferSize \<and>
     (vl_closed (vw_listener w) \<and> \<not> vw_draining w \<longrightarrow> vl_ch (vw_listener w) = [])"

interpretation vlw: invariant_system vl_init vl_step vl_inv
proof unfold_locales
  show "vl_init w \<Longrightarrow> vl_inv w" for w by (simp add: vl_inv_def NewVirtualListener_def)
  fix w w' assume inv: "vl_inv w" and "vl_step w w'"
  from this(2) show "vl_inv w'"
  proof cases
    case (VlDispatch ok vl)
    then show ?thesis using inv by (auto simp: vl_inv_def vl_Dispatch_def split: if_splits)
  next
    case (VlAccept b c vl)
    then show ?thesis using inv by (auto simp: vl_inv_def vl_Accept_def split: if_splits list.splits)
  next
    case (VlDrain c vl)
    then show ?thesis using inv by (auto simp: vl_inv_def vl_drain_one_def split: list.splits)
  qed (use inv in \<open>auto simp: vl_inv_def vl_close_channel_def vl_drain_one_def split: list.splits\<close>)
qed

section \<open>Finding the host name\<close>

datatype RoutingMode = RouteSNI | RouteHTTPHost

definition maxHostnameLen :: nat where "maxHostnameLen = 253"
definition tlsRecordBufSize :: nat where "tlsRecordBufSize = 16389"

text \<open>
  \<open>peek\<close> are the bytes that have arrived; \<open>sni\<close> is the server name the TLS package finds in a
  record. A record that does not fit the buffer cannot be peeked.
\<close>

definition clientHelloServerName :: "(string \<Rightarrow> string) \<Rightarrow> string \<Rightarrow> string" where
  "clientHelloServerName sni peek =
     (if length peek < 5 then []
      else if of_char (peek ! 0) \<noteq> (22 :: nat) then []
      else let recLen = of_char (peek ! 3) * 256 + of_char (peek ! 4) :: nat
           in if 5 + recLen > tlsRecordBufSize \<or> 5 + recLen > length peek then []
              else sni (take (5 + recLen) peek))"

definition stripPort :: "string \<Rightarrow> string" where
  "stripPort hostport = (case split_host_port hostport of None \<Rightarrow> hostport | Some (host, _) \<Rightarrow> host)"

definition untilEOL :: "string \<Rightarrow> string" where
  "untilEOL v = takeWhile (\<lambda>c. (of_char c :: nat) \<notin> {13, 10, 0}) v"

definition lf :: char where "lf = CHR 0x0A"
definition cr :: char where "cr = CHR 0x0D"

definition httpHostHeaderFromBytes :: "string \<Rightarrow> string" where
  "httpHostHeaderFromBytes b =
     (case index_of (lf # ''Host:'') b of
        Some i \<Rightarrow> trim_space (untilEOL (drop (i + 6) b))
      | None \<Rightarrow>
          (case index_of (lf # ''host:'') b of
             Some i \<Rightarrow> trim_space (untilEOL (drop (i + 6) b))
           | None \<Rightarrow> []))"

definition headers_end :: "string \<Rightarrow> nat option" where
  "headers_end b =
     (case index_of [cr, lf, cr, lf] b of
        Some i \<Rightarrow> Some (i + 4)
      | None \<Rightarrow> map_option (\<lambda>i. i + 2) (index_of [lf, lf] b))"

text \<open>
  \<^verbatim>\<open>httpHostHeader\<close>: \<open>reads\<close> are the results of successive \<^verbatim>\<open>Read\<close> calls (bytes, and whether an
  error came with them), \<open>readRequest\<close> gives the host of a well-formed request. The result
  has the reads that are left; \<open>None\<close> means that the loop still waits for bytes.
\<close>

fun sniff_loop :: "(string \<Rightarrow> string option) \<Rightarrow> string \<Rightarrow> (string \<times> bool) list \<Rightarrow> (string \<times> string \<times> (string \<times> bool) list) option" where
  "sniff_loop readRequest buf reads =
     (if length buf \<ge> 4096 then Some (stripPort (httpHostHeaderFromBytes buf), buf, reads)
      else case reads of
             [] \<Rightarrow> None
           | (chunk, err) # rest \<Rightarrow>
               (let b = buf @ chunk
                in if b \<noteq> [] \<and> (of_char (hd b) < (65 :: nat) \<or> (90 :: nat) < of_char (hd b)) then Some ([], [], rest)
                   else case headers_end b of
                          Some n \<Rightarrow>
                            (case readRequest (take n b) of
                               Some host \<Rightarrow> Some (stripPort host, b, rest)
                             | None \<Rightarrow> Some ([], [], rest))
                        | None \<Rightarrow>
                            if err then Some (stripPort (httpHostHeaderFromBytes b), b, rest)
                            else sniff_loop readRequest b rest))"

declare sniff_loop.simps [simp del]

definition httpHostHeader :: "(string \<Rightarrow> string option) \<Rightarrow> (string \<times> bool) list \<Rightarrow> (string \<times> string \<times> (string \<times> bool) list) option" where
  "httpHostHeader readRequest reads = sniff_loop readRequest [] reads"

section \<open>The router of a port\<close>

record 'vl PortRouter =
  pr_mode :: RoutingMode
  pr_listeners :: "(string, 'vl) gomap"

definition NewPortRouter :: "RoutingMode \<Rightarrow> 'vl PortRouter" where
  "NewPortRouter mode = \<lparr>pr_mode = mode, pr_listeners = []\<rparr>"

definition IsEmpty :: "'vl PortRouter \<Rightarrow> bool" where
  "IsEmpty r = (length (pr_listeners r) = 0)"

datatype route_decision = RouteDrop | RouteTo string

text \<open>What \<^verbatim>\<open>handleConn\<close> does once it has a host name.\<close>

definition route :: "'vl PortRouter \<Rightarrow> string \<Rightarrow> route_decision" where
  "route r hostname =
     (if hostname = [] \<or> length hostname > maxHostnameLen then RouteDrop
      else case gm_get (pr_listeners r) hostname of None \<Rightarrow> RouteDrop | Some _ \<Rightarrow> RouteTo hostname)"

text \<open>
  \<^verbatim>\<open>handleConn\<close> on the stream of a connection: where it goes and the bytes its new reader
  will deliver. In SNI mode nothing is consumed.
\<close>

definition handleConn ::
  "(string \<Rightarrow> string) \<Rightarrow> (string \<Rightarrow> string option) \<Rightarrow> 'vl PortRouter \<Rightarrow> (string \<times> bool) list \<Rightarrow> (route_decision \<times> string) option" where
  "handleConn sni readRequest r reads =
     (case pr_mode r of
        RouteSNI \<Rightarrow> Some (route r (clientHelloServerName sni (concat (map fst reads))), concat (map fst reads))
      | RouteHTTPHost \<Rightarrow>
          (case httpHostHeader readRequest reads of
             None \<Rightarrow> None
           | Some (hostname, consumed, rest) \<Rightarrow> Some (route r hostname, consumed @ concat (map fst rest))))"

section \<open>Properties\<close>

lemma sniff_loop_replays:
  "sniff_loop readRequest buf reads = Some (h, consumed, rest) \<Longrightarrow> h \<noteq> [] \<Longrightarrow>
     consumed @ concat (map fst rest) = buf @ concat (map fst reads)"
proof (induction readRequest buf reads rule: sniff_loop.induct)
  case (1 readRequest buf reads)
  show ?case
  proof (cases "length buf \<ge> 4096")
    case True
    with "1.prems" show ?thesis by (simp add: sniff_loop.simps)
  next
    case False
    then obtain chunk err rs where r: "reads = (chunk, err) # rs"
      using "1.prems"(1) by (cases reads) (auto simp: sniff_loop.simps)
    show ?thesis
      using "1.prems" "1.IH" [OF False r refl refl] False r
      by (subst (asm) sniff_loop.simps) (auto simp: Let_def split: if_splits option.splits)
  qed
qed



text \<open>
  C22: a virtual listener loses no connection: in every interleaving of dispatch, accept and close,
  each connection given to it is either buffered, or accepted by the proxy, or closed, and
  exactly one of these; at most 64 wait, and none is left once it has been closed.
\<close>

theorem virtual_listener_conserves:
  assumes "reach vl_init vl_step w"
  shows "mset (vl_ch (vw_listener w)) + mset (vw_accepted w) + mset (vw_closed w) = mset [0..<vw_next w] \<and>
    length (vl_ch (vw_listener w)) \<le> 64 \<and> (vl_closed (vw_listener w) \<and> \<not> vw_draining w \<longrightarrow> vl_ch (vw_listener w) = [])"
  using vlw.reach_inv [OF assms] by (simp add: vl_inv_def connBufferSize_def)

theorem virtual_listener_conserves_witness:
  "\<exists>w. reach vl_init vl_step w \<and> vl_closed (vw_listener w) \<and> \<not> vw_draining w \<and> vw_closed w = [0] \<and>
     mset (vl_ch (vw_listener w)) + mset (vw_accepted w) + mset (vw_closed w) = mset [0..<1]"
proof -
  let ?w0 = "\<lparr>vw_listener = NewVirtualListener, vw_next = 0, vw_accepted = [], vw_closed = [], vw_draining = False\<rparr>"
  let ?l1 = "\<lparr>vl_ch = [], vl_closed = True, vl_dropped = 0\<rparr>"
  let ?w1 = "\<lparr>vw_listener = \<lparr>vl_ch = [0], vl_closed = False, vl_dropped = 0\<rparr>, vw_next = 1, vw_accepted = [], vw_closed = [], vw_draining = False\<rparr>"
  let ?w2 = "?w1\<lparr>vw_listener := ?l1\<lparr>vl_ch := [0]\<rparr>, vw_draining := True\<rparr>"
  let ?w4 = "?w1\<lparr>vw_listener := ?l1, vw_closed := [0]\<rparr>"
  have "reach vl_init vl_step ?w0" by (rule reach_init) simp
  moreover have "vl_step ?w0 ?w1"
    using VlDispatch [of ?w0 True "\<lparr>vl_ch = [0], vl_closed = False, vl_dropped = 0\<rparr>"]
    by (simp add: vl_Dispatch_def NewVirtualListener_def connBufferSize_def)
  ultimately have r1: "reach vl_init vl_step ?w1" by (rule reach_step)
  have "vl_step ?w1 ?w2" using VlClose [of ?w1] by (simp add: vl_close_channel_def)
  with r1 have r2: "reach vl_init vl_step ?w2" by (rule reach_step)
  have "vl_step ?w2 (?w2\<lparr>vw_listener := ?l1, vw_closed := [0]\<rparr>)"
    using VlDrain [of ?w2 0 ?l1] by (simp add: vl_drain_one_def)
  with r2 have r3: "reach vl_init vl_step (?w2\<lparr>vw_listener := ?l1, vw_closed := [0]\<rparr>)" by (rule reach_step)
  have "vl_step (?w2\<lparr>vw_listener := ?l1, vw_closed := [0]\<rparr>) ?w4"
    using VlDrained [of "?w2\<lparr>vw_listener := ?l1, vw_closed := [0]\<rparr>"] by (simp add: vl_drain_one_def)
  with r3 have r4: "reach vl_init vl_step ?w4" by (rule reach_step)
  from virtual_listener_conserves [OF r4]
  have "mset (vl_ch (vw_listener ?w4)) + mset (vw_accepted ?w4) + mset (vw_closed ?w4) = mset [0..<1]" by simp
  with r4 show ?thesis by (intro exI [of _ ?w4] conjI) simp_all
qed

end
