(* ===== verification/Shared_Server.thy ===== *)
theory Shared_Server
  imports Proxy_Model Port_Router
begin

text \<open>
  \<^verbatim>\<open>src/internal/proxyproviders/tailscale/shared_server.go\<close> and \<^verbatim>\<open>eventloop.go\<close>: one Tailscale
  node shared by every proxy of the shared mode. A single goroutine owns the state; clients
  send it commands and wait for the reply. The model executes one command at a time.

  Everything the Tailscale node hands out (the node itself, listeners, packet connections,
  virtual listeners, subscriber channels) is a handle; the table of open handles says which
  of them have not been closed. What the node and the network decide (whether the node
  starts, whether a port can be opened) is the \<open>env\<close> argument of the operations.
\<close>

section \<open>Handles\<close>

record handles =
  hs_next :: nat
  hs_open :: "nat list"

definition h_open :: "handles \<Rightarrow> nat \<times> handles" where
  "h_open h = (hs_next h, h\<lparr>hs_next := hs_next h + 1, hs_open := hs_next h # hs_open h\<rparr>)"

definition h_close :: "nat \<Rightarrow> handles \<Rightarrow> handles" where
  "h_close x h = h\<lparr>hs_open := remove1 x (hs_open h)\<rparr>"

abbreviation h_close_all :: "nat list \<Rightarrow> handles \<Rightarrow> handles" where
  "h_close_all xs h \<equiv> fold h_close xs h"

lemma h_close_simps [simp]: "hs_next (h_close x h) = hs_next h" "hs_open (h_close x h) = remove1 x (hs_open h)"
  by (simp_all add: h_close_def)

lemma h_close_all_next [simp]: "hs_next (h_close_all xs h) = hs_next h"
  by (induction xs arbitrary: h) simp_all

lemma h_close_all_open: "mset (hs_open (h_close_all xs h)) = mset (hs_open h) - mset xs"
  by (induction xs arbitrary: h) (simp_all add: diff_union_swap2 [symmetric])

section \<open>The routers of the ports\<close>

definition Register :: "string \<Rightarrow> nat PortRouter \<Rightarrow> handles \<Rightarrow> (string + nat) \<times> nat PortRouter \<times> handles" where
  "Register domain r h =
     (if gm_get (pr_listeners r) domain \<noteq> None then (Inl ''duplicate registration'', r, h)
      else let (vl, h') = h_open h in (Inr vl, r\<lparr>pr_listeners := gm_put domain vl (pr_listeners r)\<rparr>, h'))"

definition Unregister :: "string \<Rightarrow> nat PortRouter \<Rightarrow> handles \<Rightarrow> bool \<times> nat PortRouter \<times> handles" where
  "Unregister domain r h =
     (case gm_get (pr_listeners r) domain of
        None \<Rightarrow> (False, r, h)
      | Some vl \<Rightarrow> (True, r\<lparr>pr_listeners := gm_del domain (pr_listeners r)\<rparr>, h_close vl h))"

definition CloseAll :: "nat PortRouter \<Rightarrow> handles \<Rightarrow> nat PortRouter \<times> handles" where
  "CloseAll r h = (r\<lparr>pr_listeners := []\<rparr>, h_close_all (map snd (pr_listeners r)) h)"

section \<open>The state of the loop\<close>

record portEntry =
  pe_listener :: nat
  pe_router :: "nat PortRouter option"
  pe_owner :: string

datatype sharedState = sharedIdle | sharedRunning | sharedClosed

record sharedRuntime =
  sr_tsServer :: "nat option"
  sr_lc :: bool
  sr_listeners :: "(int, portEntry) gomap"
  sr_packetRoutes :: "(int, nat) gomap"
  sr_subs :: "(nat, ProxyEvent list) gomap"
  sr_url :: string
  sr_authURL :: string
  sr_gen :: nat
  sr_routeCount :: int
  sr_certInFlight :: bool

datatype sharedCmd =
    acquireCmd string int string
  | acquirePacketCmd string int
  | releaseCmd string int string
  | releasePacketCmd string int
  | closeCmd
  | getURLCmd
  | getAuthURLCmd
  | getLocalClientCmd
  | subscribeCmd
  | unsubscribeCmd nat
  | watchUpdateCmd string string ProxyEvent nat
  | certDoneCmd nat
  | idleTimeoutCmd nat

datatype shared_error =
    SharedServerClosed
  | StartFailed
  | PortUsedAsUDP int
  | ListenFailed int
  | PortUsedDirectly int
  | RoutingModeConflict int
  | DuplicateRegistration string
  | PortClaimed int string
  | UnsupportedProtocol string
  | PortInUse int
  | UDPPortClaimed int

text \<open>The replies; \<open>ReplyAcquire\<close> carries the virtual or the direct listener.\<close>

datatype sharedReply =
    ReplyAcquire "shared_error + nat"
  | ReplyPacket "shared_error + nat"
  | ReplyDone
  | ReplyString string
  | ReplyLocalClient bool
  | ReplySub nat
  | NoReply

text \<open>What the outside decides when a command runs: the node starts, the port can be opened.\<close>

record shared_env =
  se_startOK :: bool
  se_listenOK :: bool

definition eventSubBufferSize :: nat where "eventSubBufferSize = 16"

section \<open>Routes\<close>

definition expected_mode :: "string \<Rightarrow> RoutingMode" where
  "expected_mode protocol = (if protocol = ProtoHTTP then RouteHTTPHost else RouteSNI)"

text \<open>
  \<^verbatim>\<open>registerRoute\<close>. A router entry that was created stays in the table when the registration
  that follows fails, as in the code; with a fresh router it cannot.
\<close>

definition register_on :: "string \<Rightarrow> int \<Rightarrow> string \<Rightarrow> portEntry \<Rightarrow> sharedRuntime \<Rightarrow> handles \<Rightarrow> (shared_error + nat) \<times> sharedRuntime \<times> handles" where
  "register_on domain port protocol entry rt h =
     (case pe_router entry of
        None \<Rightarrow> (Inl (PortUsedDirectly port), rt, h)
      | Some r \<Rightarrow>
          if pr_mode r \<noteq> expected_mode protocol then (Inl (RoutingModeConflict port), rt, h)
          else case Register domain r h of
                 (Inl _, _, h') \<Rightarrow> (Inl (DuplicateRegistration domain), rt, h')
               | (Inr vl, r', h') \<Rightarrow>
                   (Inr vl, rt\<lparr>sr_listeners := gm_put port (entry\<lparr>pe_router := Some r'\<rparr>) (sr_listeners rt),
                               sr_routeCount := sr_routeCount rt + 1\<rparr>, h'))"

definition registerRoute :: "shared_env \<Rightarrow> string \<Rightarrow> int \<Rightarrow> string \<Rightarrow> sharedRuntime \<Rightarrow> handles \<Rightarrow> (shared_error + nat) \<times> sharedRuntime \<times> handles" where
  "registerRoute env domain port protocol rt h =
     (if protocol = ProtoHTTPS \<or> protocol = ProtoHTTP then
        (case gm_get (sr_listeners rt) port of
           Some entry \<Rightarrow> register_on domain port protocol entry rt h
         | None \<Rightarrow>
             if gm_get (sr_packetRoutes rt) port \<noteq> None then (Inl (PortUsedAsUDP port), rt, h)
             else if \<not> se_listenOK env then (Inl (ListenFailed port), rt, h)
             else let (l, h') = h_open h;
                      entry = \<lparr>pe_listener = l, pe_router = Some (NewPortRouter (expected_mode protocol)), pe_owner = []\<rparr>
                  in register_on domain port protocol entry (rt\<lparr>sr_listeners := gm_put port entry (sr_listeners rt)\<rparr>) h')
      else if protocol = ProtoTCP then
        (case gm_get (sr_listeners rt) port of
           Some entry \<Rightarrow> (Inl (PortClaimed port (pe_owner entry)), rt, h)
         | None \<Rightarrow>
             if gm_get (sr_packetRoutes rt) port \<noteq> None then (Inl (PortUsedAsUDP port), rt, h)
             else if \<not> se_listenOK env then (Inl (ListenFailed port), rt, h)
             else let (l, h') = h_open h
                  in (Inr l, rt\<lparr>sr_listeners := gm_put port \<lparr>pe_listener = l, pe_router = None, pe_owner = domain\<rparr> (sr_listeners rt),
                                sr_routeCount := sr_routeCount rt + 1\<rparr>, h'))
      else (Inl (UnsupportedProtocol protocol), rt, h))"

definition registerPacketRoute :: "shared_env \<Rightarrow> string \<Rightarrow> int \<Rightarrow> sharedRuntime \<Rightarrow> handles \<Rightarrow> (shared_error + nat) \<times> sharedRuntime \<times> handles" where
  "registerPacketRoute env domain port rt h =
     (if gm_get (sr_listeners rt) port \<noteq> None then (Inl (PortInUse port), rt, h)
      else if gm_get (sr_packetRoutes rt) port \<noteq> None then (Inl (UDPPortClaimed port), rt, h)
      else if \<not> se_listenOK env then (Inl (ListenFailed port), rt, h)
      else let (pc, h') = h_open h
           in (Inr pc, rt\<lparr>sr_packetRoutes := gm_put port pc (sr_packetRoutes rt), sr_routeCount := sr_routeCount rt + 1\<rparr>, h'))"

definition unregisterRoute :: "string \<Rightarrow> int \<Rightarrow> string \<Rightarrow> sharedRuntime \<Rightarrow> handles \<Rightarrow> sharedRuntime \<times> handles" where
  "unregisterRoute domain port protocol rt h =
     (case gm_get (sr_listeners rt) port of
        None \<Rightarrow> (rt, h)
      | Some entry \<Rightarrow>
          if protocol = ProtoHTTPS \<or> protocol = ProtoHTTP then
            (case pe_router entry of
               None \<Rightarrow> (rt, h)
             | Some r \<Rightarrow>
                 let (removed, r', h') = Unregister domain r h
                 in if \<not> removed then (rt, h)
                    else if IsEmpty r' then
                      (rt\<lparr>sr_routeCount := sr_routeCount rt - 1, sr_listeners := gm_del port (sr_listeners rt)\<rparr>,
                       h_close (pe_listener entry) (snd (CloseAll r' h')))
                    else (rt\<lparr>sr_routeCount := sr_routeCount rt - 1,
                             sr_listeners := gm_put port (entry\<lparr>pe_router := Some r'\<rparr>) (sr_listeners rt)\<rparr>, h'))
          else if protocol = ProtoTCP then
            (rt\<lparr>sr_routeCount := sr_routeCount rt - 1, sr_listeners := gm_del port (sr_listeners rt)\<rparr>, h_close (pe_listener entry) h)
          else (rt, h))"

definition unregisterPacketRoute :: "string \<Rightarrow> int \<Rightarrow> sharedRuntime \<Rightarrow> handles \<Rightarrow> sharedRuntime \<times> handles" where
  "unregisterPacketRoute domain port rt h =
     (case gm_get (sr_packetRoutes rt) port of
        None \<Rightarrow> (rt, h)
      | Some pc \<Rightarrow>
          (rt\<lparr>sr_packetRoutes := gm_del port (sr_packetRoutes rt), sr_routeCount := sr_routeCount rt - 1\<rparr>, h_close pc h))"

section \<open>The runtime\<close>

text \<open>\<^verbatim>\<open>stopRuntime\<close>: packet connections, then the ports with their routers, the node, the subscribers.\<close>

definition close_port :: "int \<times> portEntry \<Rightarrow> handles \<Rightarrow> handles" where
  "close_port pe h =
     h_close (pe_listener (snd pe)) (case pe_router (snd pe) of None \<Rightarrow> h | Some r \<Rightarrow> snd (CloseAll r h))"

definition stopRuntime :: "sharedRuntime \<Rightarrow> handles \<Rightarrow> handles" where
  "stopRuntime rt h =
     (let h1 = h_close_all (map snd (sr_packetRoutes rt)) h;
          h2 = fold close_port (sr_listeners rt) h1;
          h3 = (case sr_tsServer rt of None \<Rightarrow> h2 | Some s \<Rightarrow> h_close s h2)
      in h_close_all (map fst (sr_subs rt)) h3)"

text \<open>\<^verbatim>\<open>startRuntimeWithLifecycle\<close>: the subscribers of the previous runtime move to the new one.\<close>

definition startRuntimeWithLifecycle :: "shared_env \<Rightarrow> sharedRuntime option \<Rightarrow> nat \<Rightarrow> handles \<Rightarrow> sharedRuntime option \<times> handles" where
  "startRuntimeWithLifecycle env prevRT gen h =
     (if \<not> se_startOK env then (None, h)
      else let (s, h') = h_open h
           in (Some \<lparr>sr_tsServer = Some s, sr_lc = True, sr_listeners = [], sr_packetRoutes = [],
                     sr_subs = (case prevRT of None \<Rightarrow> [] | Some p \<Rightarrow> sr_subs p),
                     sr_url = [], sr_authURL = [], sr_gen = gen, sr_routeCount = 0, sr_certInFlight = False\<rparr>, h'))"

record shared_loop =
  sl_state :: sharedState
  sl_rt :: "sharedRuntime option"
  sl_nextGen :: nat
  sl_idleTimer :: "nat option"
  sl_handles :: handles
  sl_exited :: bool

definition NewSharedServer :: shared_loop where
  "NewSharedServer = \<lparr>sl_state = sharedIdle, sl_rt = None, sl_nextGen = 0, sl_idleTimer = None,
     sl_handles = \<lparr>hs_next = 0, hs_open = []\<rparr>, sl_exited = False\<rparr>"

definition ensureRunning :: "shared_env \<Rightarrow> shared_loop \<Rightarrow> (shared_error + sharedRuntime) \<times> shared_loop" where
  "ensureRunning env s =
     (case sl_state s of
        sharedClosed \<Rightarrow> (Inl SharedServerClosed, s)
      | sharedRunning \<Rightarrow> (case sl_rt s of Some rt \<Rightarrow> (Inr rt, s) | None \<Rightarrow> (Inl StartFailed, s))
      | sharedIdle \<Rightarrow>
          (case sl_rt s of
             Some rt \<Rightarrow>
               if sr_tsServer rt \<noteq> None then (Inr rt, s\<lparr>sl_state := sharedRunning\<rparr>)
               else (case startRuntimeWithLifecycle env (Some rt) (sl_nextGen s) (sl_handles s) of
                       (None, h) \<Rightarrow> (Inl StartFailed, s\<lparr>sl_handles := h\<rparr>)
                     | (Some n, h) \<Rightarrow>
                         (Inr n, s\<lparr>sl_state := sharedRunning, sl_rt := Some n, sl_nextGen := sl_nextGen s + 1, sl_handles := h\<rparr>))
           | None \<Rightarrow>
               (case startRuntimeWithLifecycle env None (sl_nextGen s) (sl_handles s) of
                  (None, h) \<Rightarrow> (Inl StartFailed, s\<lparr>sl_handles := h\<rparr>)
                | (Some n, h) \<Rightarrow>
                    (Inr n, s\<lparr>sl_state := sharedRunning, sl_rt := Some n, sl_nextGen := sl_nextGen s + 1, sl_handles := h\<rparr>))))"

section \<open>The handlers\<close>

definition handleAcquire :: "shared_env \<Rightarrow> string \<Rightarrow> int \<Rightarrow> string \<Rightarrow> shared_loop \<Rightarrow> sharedReply \<times> shared_loop" where
  "handleAcquire env domain port protocol s =
     (case ensureRunning env s of
        (Inl e, s') \<Rightarrow> (ReplyAcquire (Inl e), s')
      | (Inr rt, s') \<Rightarrow>
          (case registerRoute env domain port protocol rt (sl_handles s') of
             (Inl e, rt', h) \<Rightarrow>
               (ReplyAcquire (Inl e),
                s'\<lparr>sl_rt := Some rt', sl_handles := h, sl_state := (if sr_routeCount rt' \<le> 0 then sharedIdle else sl_state s')\<rparr>)
           | (Inr l, rt', h) \<Rightarrow> (ReplyAcquire (Inr l), s'\<lparr>sl_rt := Some rt', sl_handles := h\<rparr>)))"

definition handleAcquirePacket :: "shared_env \<Rightarrow> string \<Rightarrow> int \<Rightarrow> shared_loop \<Rightarrow> sharedReply \<times> shared_loop" where
  "handleAcquirePacket env domain port s =
     (case ensureRunning env s of
        (Inl e, s') \<Rightarrow> (ReplyPacket (Inl e), s')
      | (Inr rt, s') \<Rightarrow>
          (case registerPacketRoute env domain port rt (sl_handles s') of
             (Inl e, rt', h) \<Rightarrow>
               (ReplyPacket (Inl e),
                s'\<lparr>sl_rt := Some rt', sl_handles := h, sl_state := (if sr_routeCount rt' \<le> 0 then sharedIdle else sl_state s')\<rparr>)
           | (Inr l, rt', h) \<Rightarrow> (ReplyPacket (Inr l), s'\<lparr>sl_rt := Some rt', sl_handles := h\<rparr>)))"

definition released :: "sharedRuntime \<Rightarrow> handles \<Rightarrow> shared_loop \<Rightarrow> shared_loop" where
  "released rt h s =
     s\<lparr>sl_rt := Some rt, sl_handles := h, sl_state := (if sr_routeCount rt \<le> 0 then sharedIdle else sl_state s)\<rparr>"

definition handleRelease :: "string \<Rightarrow> int \<Rightarrow> string \<Rightarrow> shared_loop \<Rightarrow> sharedReply \<times> shared_loop" where
  "handleRelease domain port protocol s =
     (case sl_rt s of
        None \<Rightarrow> (ReplyDone, s)
      | Some rt \<Rightarrow>
          if sl_state s \<noteq> sharedRunning then (ReplyDone, s)
          else let (rt', h) = unregisterRoute domain port protocol rt (sl_handles s) in (ReplyDone, released rt' h s))"

definition handleReleasePacket :: "string \<Rightarrow> int \<Rightarrow> shared_loop \<Rightarrow> sharedReply \<times> shared_loop" where
  "handleReleasePacket domain port s =
     (case sl_rt s of
        None \<Rightarrow> (ReplyDone, s)
      | Some rt \<Rightarrow>
          if sl_state s \<noteq> sharedRunning then (ReplyDone, s)
          else let (rt', h) = unregisterPacketRoute domain port rt (sl_handles s) in (ReplyDone, released rt' h s))"

definition handleClose :: "shared_loop \<Rightarrow> sharedReply \<times> shared_loop" where
  "handleClose s =
     (ReplyDone, case sl_rt s of None \<Rightarrow> s | Some rt \<Rightarrow> s\<lparr>sl_handles := stopRuntime rt (sl_handles s)\<rparr>)"

definition handleIdleTimeout :: "nat \<Rightarrow> shared_loop \<Rightarrow> shared_loop" where
  "handleIdleTimeout gen s =
     (case sl_rt s of
        None \<Rightarrow> s
      | Some rt \<Rightarrow>
          if sl_state s = sharedIdle \<and> gen = sr_gen rt
          then s\<lparr>sl_rt := None, sl_handles := stopRuntime rt (sl_handles s)\<rparr> else s)"

definition offer_event :: "ProxyEvent \<Rightarrow> ProxyEvent list \<Rightarrow> ProxyEvent list" where
  "offer_event evt buf = (if length buf < eventSubBufferSize then buf @ [evt] else buf)"

definition handleWatchUpdate :: "string \<Rightarrow> string \<Rightarrow> ProxyEvent \<Rightarrow> nat \<Rightarrow> shared_loop \<Rightarrow> shared_loop" where
  "handleWatchUpdate url authURL evt gen s =
     (case sl_rt s of
        None \<Rightarrow> s
      | Some rt \<Rightarrow>
          if gen \<noteq> sr_gen rt then s
          else s\<lparr>sl_rt := Some (rt\<lparr>sr_url := (if url \<noteq> [] then url else sr_url rt),
                                   sr_authURL := (if authURL \<noteq> [] then authURL else sr_authURL rt),
                                   sr_subs := map (\<lambda>(c, buf). (c, offer_event evt buf)) (sr_subs rt),
                                   sr_certInFlight := (sr_certInFlight rt \<or>
                                     (ev_Status evt = ProxyStatusRunning \<and> sr_tsServer rt \<noteq> None \<and> sr_lc rt))\<rparr>)\<rparr>)"

definition handleCertDone :: "nat \<Rightarrow> shared_loop \<Rightarrow> shared_loop" where
  "handleCertDone gen s =
     (case sl_rt s of
        None \<Rightarrow> s
      | Some rt \<Rightarrow> if gen = sr_gen rt then s\<lparr>sl_rt := Some (rt\<lparr>sr_certInFlight := False\<rparr>)\<rparr> else s)"

definition handleGetURL :: "shared_loop \<Rightarrow> sharedReply" where
  "handleGetURL s = ReplyString (case sl_rt s of None \<Rightarrow> [] | Some rt \<Rightarrow> sr_url rt)"

definition handleGetAuthURL :: "shared_loop \<Rightarrow> sharedReply" where
  "handleGetAuthURL s = ReplyString (case sl_rt s of None \<Rightarrow> [] | Some rt \<Rightarrow> sr_authURL rt)"

definition handleGetLocalClient :: "shared_loop \<Rightarrow> sharedReply" where
  "handleGetLocalClient s = ReplyLocalClient (case sl_rt s of None \<Rightarrow> False | Some rt \<Rightarrow> sr_lc rt)"

definition placeholder_runtime :: sharedRuntime where
  "placeholder_runtime = \<lparr>sr_tsServer = None, sr_lc = False, sr_listeners = [], sr_packetRoutes = [], sr_subs = [],
     sr_url = [], sr_authURL = [], sr_gen = 0, sr_routeCount = 0, sr_certInFlight = False\<rparr>"

definition handleSubscribe :: "shared_loop \<Rightarrow> sharedReply \<times> shared_loop" where
  "handleSubscribe s =
     (let rt = (case sl_rt s of None \<Rightarrow> placeholder_runtime | Some rt \<Rightarrow> rt);
          (sub, h) = h_open (sl_handles s)
      in (ReplySub sub, s\<lparr>sl_rt := Some (rt\<lparr>sr_subs := gm_put sub [] (sr_subs rt)\<rparr>), sl_handles := h\<rparr>))"

definition handleUnsubscribe :: "nat \<Rightarrow> shared_loop \<Rightarrow> sharedReply \<times> shared_loop" where
  "handleUnsubscribe ch s =
     (ReplyDone,
      case sl_rt s of
        None \<Rightarrow> s
      | Some rt \<Rightarrow>
          if gm_get (sr_subs rt) ch = None then s
          else s\<lparr>sl_rt := Some (rt\<lparr>sr_subs := gm_del ch (sr_subs rt)\<rparr>), sl_handles := h_close ch (sl_handles s)\<rparr>)"

fun cancelIdleTimer :: "sharedCmd \<Rightarrow> shared_loop \<Rightarrow> shared_loop" where
  "cancelIdleTimer (acquireCmd _ _ _) s = s\<lparr>sl_idleTimer := None\<rparr>"
| "cancelIdleTimer (acquirePacketCmd _ _) s = s\<lparr>sl_idleTimer := None\<rparr>"
| "cancelIdleTimer (releaseCmd _ _ _) s = s\<lparr>sl_idleTimer := None\<rparr>"
| "cancelIdleTimer (releasePacketCmd _ _) s = s\<lparr>sl_idleTimer := None\<rparr>"
| "cancelIdleTimer closeCmd s = s\<lparr>sl_idleTimer := None\<rparr>"
| "cancelIdleTimer (idleTimeoutCmd _) s = s\<lparr>sl_idleTimer := None\<rparr>"
| "cancelIdleTimer _ s = s"

text \<open>\<^verbatim>\<open>scheduleIdleTimeout\<close>: the timer holds the generation it will send.\<close>

definition scheduleIdleTimeout :: "shared_loop \<Rightarrow> shared_loop" where
  "scheduleIdleTimeout s =
     s\<lparr>sl_idleTimer := (case sl_rt s of None \<Rightarrow> None | Some rt \<Rightarrow> if sl_state s \<noteq> sharedIdle then None else Some (sr_gen rt))\<rparr>"

fun dispatchCommand :: "shared_env \<Rightarrow> sharedCmd \<Rightarrow> shared_loop \<Rightarrow> sharedReply \<times> shared_loop" where
  "dispatchCommand env (acquireCmd d p pr) s = apsnd scheduleIdleTimeout (handleAcquire env d p pr s)"
| "dispatchCommand env (releaseCmd d p pr) s = apsnd scheduleIdleTimeout (handleRelease d p pr s)"
| "dispatchCommand env (acquirePacketCmd d p) s = apsnd scheduleIdleTimeout (handleAcquirePacket env d p s)"
| "dispatchCommand env (releasePacketCmd d p) s = apsnd scheduleIdleTimeout (handleReleasePacket d p s)"
| "dispatchCommand env (idleTimeoutCmd g) s = (NoReply, handleIdleTimeout g s)"
| "dispatchCommand env closeCmd s = apsnd (\<lambda>s. s\<lparr>sl_idleTimer := None, sl_exited := True\<rparr>) (handleClose s)"
| "dispatchCommand env (watchUpdateCmd url auth evt g) s = (NoReply, handleWatchUpdate url auth evt g s)"
| "dispatchCommand env (certDoneCmd g) s = (NoReply, handleCertDone g s)"
| "dispatchCommand env getURLCmd s = (handleGetURL s, s)"
| "dispatchCommand env getAuthURLCmd s = (handleGetAuthURL s, s)"
| "dispatchCommand env getLocalClientCmd s = (handleGetLocalClient s, s)"
| "dispatchCommand env subscribeCmd s = handleSubscribe s"
| "dispatchCommand env (unsubscribeCmd ch) s = handleUnsubscribe ch s"

text \<open>One turn of \<^verbatim>\<open>loop\<close>, and \<^verbatim>\<open>SendAndWait\<close>: a client whose loop has exited gets nothing.\<close>

definition loop_turn :: "shared_env \<Rightarrow> sharedCmd \<Rightarrow> shared_loop \<Rightarrow> sharedReply \<times> shared_loop" where
  "loop_turn env cmd s = dispatchCommand env cmd (cancelIdleTimer cmd s)"

definition SendAndWait :: "shared_env \<Rightarrow> sharedCmd \<Rightarrow> shared_loop \<Rightarrow> sharedReply option \<times> shared_loop" where
  "SendAndWait env cmd s = (if sl_exited s then (None, s) else apfst Some (loop_turn env cmd s))"

definition Acquire :: "shared_env \<Rightarrow> string \<Rightarrow> int \<Rightarrow> string \<Rightarrow> shared_loop \<Rightarrow> (shared_error + nat) \<times> shared_loop" where
  "Acquire env domain port protocol s =
     (case SendAndWait env (acquireCmd domain port protocol) s of
        (Some (ReplyAcquire r), s') \<Rightarrow> (r, s')
      | (_, s') \<Rightarrow> (Inl SharedServerClosed, s'))"

definition AcquirePacket :: "shared_env \<Rightarrow> string \<Rightarrow> int \<Rightarrow> shared_loop \<Rightarrow> (shared_error + nat) \<times> shared_loop" where
  "AcquirePacket env domain port s =
     (case SendAndWait env (acquirePacketCmd domain port) s of
        (Some (ReplyPacket r), s') \<Rightarrow> (r, s')
      | (_, s') \<Rightarrow> (Inl SharedServerClosed, s'))"

definition Release :: "string \<Rightarrow> int \<Rightarrow> string \<Rightarrow> shared_loop \<Rightarrow> shared_loop" where
  "Release domain port protocol s = snd (SendAndWait \<lparr>se_startOK = False, se_listenOK = False\<rparr> (releaseCmd domain port protocol) s)"

definition ReleasePacket :: "string \<Rightarrow> int \<Rightarrow> shared_loop \<Rightarrow> shared_loop" where
  "ReleasePacket domain port s = snd (SendAndWait \<lparr>se_startOK = False, se_listenOK = False\<rparr> (releasePacketCmd domain port) s)"

section \<open>Registrations\<close>

text \<open>
  The abstract view of the table: the list of registrations, each with its port, protocol,
  domain and the listener that was handed out. The server keeps no domain for a UDP port.
\<close>

type_synonym registration = "int \<times> string \<times> string \<times> nat"

definition mode_proto :: "RoutingMode \<Rightarrow> string" where
  "mode_proto m = (case m of RouteSNI \<Rightarrow> ProtoHTTPS | RouteHTTPHost \<Rightarrow> ProtoHTTP)"

definition entry_regs :: "int \<times> portEntry \<Rightarrow> registration list" where
  "entry_regs pe =
     (case pe_router (snd pe) of
        None \<Rightarrow> [(fst pe, ProtoTCP, pe_owner (snd pe), pe_listener (snd pe))]
      | Some r \<Rightarrow> map (\<lambda>(d, v). (fst pe, mode_proto (pr_mode r), d, v)) (pr_listeners r))"

definition packet_reg :: "int \<times> nat \<Rightarrow> registration" where
  "packet_reg ph = (fst ph, ProtoUDP, [], snd ph)"

definition registrations :: "sharedRuntime \<Rightarrow> registration list" where
  "registrations rt = concat (map entry_regs (sr_listeners rt)) @ map packet_reg (sr_packetRoutes rt)"

definition entry_handles :: "int \<times> portEntry \<Rightarrow> nat list" where
  "entry_handles pe =
     pe_listener (snd pe) # (case pe_router (snd pe) of None \<Rightarrow> [] | Some r \<Rightarrow> map snd (pr_listeners r))"

definition runtime_handles :: "sharedRuntime \<Rightarrow> nat list" where
  "runtime_handles rt =
     (case sr_tsServer rt of None \<Rightarrow> [] | Some s \<Rightarrow> [s]) @ concat (map entry_handles (sr_listeners rt)) @
     map snd (sr_packetRoutes rt) @ map fst (sr_subs rt)"

definition router_wf :: "portEntry \<Rightarrow> bool" where
  "router_wf e = (case pe_router e of None \<Rightarrow> True | Some r \<Rightarrow> gm_wf (pr_listeners r))"

definition router_used :: "portEntry \<Rightarrow> bool" where
  "router_used e = (case pe_router e of None \<Rightarrow> True | Some r \<Rightarrow> pr_listeners r \<noteq> [])"

text \<open>The invariant of a runtime; ports in \<open>except\<close> may have a router without a domain.\<close>

definition runtime_ok_but :: "int set \<Rightarrow> sharedRuntime \<Rightarrow> bool" where
  "runtime_ok_but except rt \<longleftrightarrow>
     gm_wf (sr_listeners rt) \<and> gm_wf (sr_packetRoutes rt) \<and> gm_wf (sr_subs rt) \<and>
     (\<forall>p e. gm_get (sr_listeners rt) p = Some e \<longrightarrow>
        gm_get (sr_packetRoutes rt) p = None \<and> router_wf e \<and> (p \<notin> except \<longrightarrow> router_used e)) \<and>
     (sr_tsServer rt = None \<longrightarrow> sr_listeners rt = [] \<and> sr_packetRoutes rt = []) \<and>
     sr_routeCount rt = int (length (registrations rt))"

abbreviation runtime_ok :: "sharedRuntime \<Rightarrow> bool" where "runtime_ok \<equiv> runtime_ok_but {}"

text \<open>The open handles are exactly the given ones, each of them once.\<close>

definition opened :: "nat multiset \<Rightarrow> handles \<Rightarrow> bool" where
  "opened M h \<longleftrightarrow> mset (hs_open h) = M \<and> distinct (hs_open h) \<and> (\<forall>x \<in> set (hs_open h). x < hs_next h)"

abbreviation owns :: "sharedRuntime \<Rightarrow> handles \<Rightarrow> bool" where
  "owns rt h \<equiv> opened (mset (runtime_handles rt)) h"

subsection \<open>Maps as multisets\<close>

lemma mset_concat_put_new:
  "gm_get m k = None \<Longrightarrow> mset (concat (map f (gm_put k v m))) = mset (concat (map f m)) + mset (f (k, v))"
  by (simp add: gm_get_None_iff gm_put_new)

lemma mset_concat_put_old:
  "gm_get m k = Some v0 \<Longrightarrow>
     mset (concat (map f (gm_put k v m))) + mset (f (k, v0)) = mset (concat (map f m)) + mset (f (k, v))"
  by (induction m) (auto split: if_splits)

lemma mset_concat_del:
  "gm_wf m \<Longrightarrow> gm_get m k = Some v0 \<Longrightarrow>
     mset (concat (map f m)) = mset (concat (map f (gm_del k m))) + mset (f (k, v0))"
proof (induction m)
  case (Cons a m)
  then show ?case by (cases "fst a = k") (auto simp: gm_wf_def)
qed simp

lemma mset_map_put_new: "gm_get m k = None \<Longrightarrow> mset (map f (gm_put k v m)) = add_mset (f (k, v)) (mset (map f m))"
  by (simp add: gm_get_None_iff gm_put_new)

lemma mset_map_del:
  "gm_wf m \<Longrightarrow> gm_get m k = Some v0 \<Longrightarrow> mset (map f m) = add_mset (f (k, v0)) (mset (map f (gm_del k m)))"
proof (induction m)
  case (Cons a m)
  then show ?case by (cases "fst a = k") (auto simp: gm_wf_def)
qed simp

lemma opened_open: "opened M h \<Longrightarrow> h_open h = (x, h') \<Longrightarrow> opened (add_mset x M) h'"
  by (auto simp: opened_def h_open_def less_Suc_eq)

lemma opened_close: "opened (add_mset x M) h \<Longrightarrow> opened M (h_close x h)"
  by (auto simp: opened_def dest: notin_set_remove1)

lemma owns_open:
  assumes "owns rt h" "h_open h = (x, h')" "mset (runtime_handles rt') = add_mset x (mset (runtime_handles rt))"
  shows "owns rt' h'"
  using opened_open [OF assms(1,2)] assms(3) by simp

lemma owns_close:
  assumes "owns rt h" "mset (runtime_handles rt) = add_mset x (mset (runtime_handles rt'))"
  shows "owns rt' (h_close x h)"
  using assms by (simp add: opened_close)

subsection \<open>What the operations do to the table\<close>

lemma expected_mode_proto: "protocol = ProtoHTTPS \<or> protocol = ProtoHTTP \<Longrightarrow> mode_proto (expected_mode protocol) = protocol"
  by (auto simp: expected_mode_def mode_proto_def)

lemma register_on_Inr:
  assumes reg: "register_on domain port protocol entry rt h = (Inr l, rt', h')"
    and e: "gm_get (sr_listeners rt) port = Some entry" and ok: "runtime_ok_but {port} rt" and own: "owns rt h"
    and web: "protocol = ProtoHTTPS \<or> protocol = ProtoHTTP"
  shows "runtime_ok rt'" "owns rt' h'"
    "mset (registrations rt') = add_mset (port, protocol, domain, l) (mset (registrations rt))"
    "sr_tsServer rt' = sr_tsServer rt" "sr_gen rt' = sr_gen rt" "sr_subs rt' = sr_subs rt"
proof -
  obtain r where r: "pe_router entry = Some r" "pr_mode r = expected_mode protocol" "gm_get (pr_listeners r) domain = None"
    using reg by (auto simp: register_on_def Register_def split: option.splits if_splits prod.splits)
  have hl: "h_open h = (l, h')" and
    rt': "rt' = rt\<lparr>sr_listeners := gm_put port (entry\<lparr>pe_router := Some (r\<lparr>pr_listeners := gm_put domain l (pr_listeners r)\<rparr>)\<rparr>) (sr_listeners rt),
                   sr_routeCount := sr_routeCount rt + 1\<rparr>" (is "_ = rt\<lparr>sr_listeners := gm_put port ?e' _, sr_routeCount := _\<rparr>")
    using reg r by (auto simp: register_on_def Register_def split: prod.splits)
  have "mset (entry_regs (port, ?e')) = add_mset (port, protocol, domain, l) (mset (entry_regs (port, entry)))"
    using r expected_mode_proto [OF web] by (simp add: entry_regs_def gm_get_None_iff gm_put_new)
  then show regs: "mset (registrations rt') = add_mset (port, protocol, domain, l) (mset (registrations rt))"
    using mset_concat_put_old [OF e, of entry_regs ?e'] by (simp add: registrations_def rt')
  have "mset (entry_handles (port, ?e')) = add_mset l (mset (entry_handles (port, entry)))"
    using r by (simp add: entry_handles_def gm_get_None_iff gm_put_new)
  then have "mset (runtime_handles rt') = add_mset l (mset (runtime_handles rt))"
    using mset_concat_put_old [OF e, of entry_handles ?e'] by (simp add: runtime_handles_def rt')
  with own hl show "owns rt' h'" by (rule owns_open)
  have "length (registrations rt') = Suc (length (registrations rt))"
    using regs by (metis size_add_mset size_mset)
  moreover have "router_wf entry" using ok e by (simp add: runtime_ok_but_def)
  then have "router_wf ?e'" "router_used ?e'"
    using r by (auto simp: router_wf_def router_used_def gm_get_None_iff gm_put_new gm_wf_def)
  moreover have "sr_tsServer rt \<noteq> None" using ok e by (auto simp: runtime_ok_but_def)
  ultimately show "runtime_ok rt'"
    using ok e by (auto simp: runtime_ok_but_def rt')
  show "sr_tsServer rt' = sr_tsServer rt" "sr_gen rt' = sr_gen rt" "sr_subs rt' = sr_subs rt" by (simp_all add: rt')
qed

lemma listeners_put_new_ok:
  assumes ok: "runtime_ok rt" and new: "gm_get (sr_listeners rt) port = None" "gm_get (sr_packetRoutes rt) port = None"
    and srv: "sr_tsServer rt \<noteq> None" and e: "router_wf entry" "entry_regs (port, entry) = regs"
    and x: "router_used entry \<or> port \<in> except"
  shows "runtime_ok_but except (rt\<lparr>sr_listeners := gm_put port entry (sr_listeners rt), sr_routeCount := sr_routeCount rt + int (length regs)\<rparr>)"
  using assms mset_concat_put_new [OF new(1), of entry_regs entry, THEN arg_cong [where f = size]]
  by (auto simp: runtime_ok_but_def registrations_def)

lemma listeners_put_new_owns:
  assumes "owns rt h" "h_open h = (l, h')" "gm_get (sr_listeners rt) port = None"
    "entry_handles (port, entry) = [l]" "sr_listeners rt' = gm_put port entry (sr_listeners rt)"
    "sr_packetRoutes rt' = sr_packetRoutes rt" "sr_subs rt' = sr_subs rt" "sr_tsServer rt' = sr_tsServer rt"
  shows "owns rt' h'"
proof (rule owns_open [OF assms(1,2)])
  show "mset (runtime_handles rt') = add_mset l (mset (runtime_handles rt))"
    using assms mset_concat_put_new [OF assms(3), of entry_handles entry] by (simp add: runtime_handles_def)
qed

lemma registerRoute_Inr:
  assumes reg: "registerRoute env domain port protocol rt h = (Inr l, rt', h')"
    and ok: "runtime_ok rt" and own: "owns rt h" and srv: "sr_tsServer rt \<noteq> None"
  shows "runtime_ok rt' \<and> owns rt' h' \<and>
    mset (registrations rt') = add_mset (port, protocol, domain, l) (mset (registrations rt)) \<and>
    sr_tsServer rt' = sr_tsServer rt \<and> sr_gen rt' = sr_gen rt \<and> sr_subs rt' = sr_subs rt"
proof -
  consider (web) "protocol = ProtoHTTPS \<or> protocol = ProtoHTTP" | (tcp) "protocol = ProtoTCP"
    using reg by (auto simp: registerRoute_def split: if_splits)
  then show ?thesis
  proof cases
    case web
    show ?thesis
    proof (cases "gm_get (sr_listeners rt) port")
      case (Some entry)
      have "runtime_ok_but {port} rt" using ok by (simp add: runtime_ok_but_def)
      with reg web Some own register_on_Inr [of domain port protocol entry rt h l rt' h'] show ?thesis
        by (auto simp: registerRoute_def)
    next
      case None
      define l0 h0 where "l0 = fst (h_open h)" and "h0 = snd (h_open h)"
      let ?e = "\<lparr>pe_listener = l0, pe_router = Some (NewPortRouter (expected_mode protocol)), pe_owner = []\<rparr>"
      let ?rt = "rt\<lparr>sr_listeners := gm_put port ?e (sr_listeners rt)\<rparr>"
      have free: "gm_get (sr_packetRoutes rt) port = None" and
        r: "register_on domain port protocol ?e ?rt h0 = (Inr l, rt', h')"
        using reg web None by (auto simp: registerRoute_def l0_def h0_def split_beta Let_def split: if_splits)
      have "runtime_ok_but {port} ?rt"
        using listeners_put_new_ok [OF ok None free srv, of ?e "[]" "{port}"]
        by (simp add: router_wf_def entry_regs_def NewPortRouter_def)
      moreover have "owns ?rt h0"
        by (rule listeners_put_new_owns [OF own _ None, of l0 _ ?e]) (simp_all add: l0_def h0_def entry_handles_def NewPortRouter_def)
      moreover have "mset (registrations ?rt) = mset (registrations rt)"
        using mset_concat_put_new [OF None, of entry_regs ?e] by (simp add: registrations_def entry_regs_def NewPortRouter_def)
      ultimately show ?thesis using register_on_Inr [OF r] web by auto
    qed
  next
    case tcp
    then have None: "gm_get (sr_listeners rt) port = None" and free: "gm_get (sr_packetRoutes rt) port = None"
      using reg by (auto simp: registerRoute_def split: if_splits option.splits)
    let ?e = "\<lparr>pe_listener = l, pe_router = None, pe_owner = domain\<rparr>"
    have hl: "h_open h = (l, h')" and
      rt': "rt' = rt\<lparr>sr_listeners := gm_put port ?e (sr_listeners rt), sr_routeCount := sr_routeCount rt + 1\<rparr>"
      using reg tcp None free by (auto simp: registerRoute_def split: prod.splits if_splits)
    have "runtime_ok rt'"
      using listeners_put_new_ok [OF ok None free srv, of ?e "[(port, ProtoTCP, domain, l)]" "{}"]
      by (simp add: router_wf_def router_used_def entry_regs_def rt')
    moreover have "owns rt' h'"
      by (rule listeners_put_new_owns [OF own hl None, of ?e]) (simp_all add: rt' entry_handles_def)
    ultimately show ?thesis
      using tcp mset_concat_put_new [OF None, of entry_regs ?e] by (simp add: rt' registrations_def entry_regs_def)
  qed
qed

lemma registerRoute_Inl:
  assumes "registerRoute env domain port protocol rt h = (Inl e, rt', h')"
  shows "rt' = rt \<and> h' = h"
  using assms
  by (auto simp: registerRoute_def register_on_def Register_def NewPortRouter_def Let_def split: if_splits option.splits prod.splits)

lemma registerPacketRoute_Inr:
  assumes reg: "registerPacketRoute env domain port rt h = (Inr pc, rt', h')"
    and ok: "runtime_ok rt" and own: "owns rt h" and srv: "sr_tsServer rt \<noteq> None"
  shows "runtime_ok rt' \<and> owns rt' h' \<and>
    mset (registrations rt') = add_mset (port, ProtoUDP, [], pc) (mset (registrations rt)) \<and>
    sr_tsServer rt' = sr_tsServer rt \<and> sr_gen rt' = sr_gen rt \<and> sr_subs rt' = sr_subs rt"
proof -
  have None: "gm_get (sr_listeners rt) port = None" and free: "gm_get (sr_packetRoutes rt) port = None"
    using reg by (auto simp: registerPacketRoute_def split: if_splits)
  have hl: "h_open h = (pc, h')" and
    rt': "rt' = rt\<lparr>sr_packetRoutes := gm_put port pc (sr_packetRoutes rt), sr_routeCount := sr_routeCount rt + 1\<rparr>"
    using reg None free by (auto simp: registerPacketRoute_def split: prod.splits if_splits)
  have regs: "mset (registrations rt') = add_mset (port, ProtoUDP, [], pc) (mset (registrations rt))"
    using mset_map_put_new [OF free, of packet_reg pc] by (simp add: rt' registrations_def packet_reg_def)
  moreover have "mset (runtime_handles rt') = add_mset pc (mset (runtime_handles rt))"
    using mset_map_put_new [OF free, of snd pc] by (simp add: rt' runtime_handles_def)
  with own hl have "owns rt' h'" by (rule owns_open)
  moreover have "length (registrations rt') = Suc (length (registrations rt))" using regs by (metis size_add_mset size_mset)
  then have "runtime_ok rt'"
    using ok srv None by (auto simp: runtime_ok_but_def rt')
  ultimately show ?thesis by (simp add: rt')
qed

lemma registerPacketRoute_Inl: "registerPacketRoute env domain port rt h = (Inl e, rt', h') \<Longrightarrow> rt' = rt \<and> h' = h"
  by (auto simp: registerPacketRoute_def split: if_splits prod.splits)

subsection \<open>Removing a registration\<close>

lemma registrations_in:
  assumes "runtime_ok rt" "(p, pr, d, l) \<in> set (registrations rt)"
  shows "(\<exists>e r. gm_get (sr_listeners rt) p = Some e \<and> pe_router e = Some r \<and> mode_proto (pr_mode r) = pr \<and> gm_get (pr_listeners r) d = Some l) \<or>
    (\<exists>e. gm_get (sr_listeners rt) p = Some e \<and> pe_router e = None \<and> pe_owner e = d \<and> pe_listener e = l \<and> pr = ProtoTCP) \<or>
    (gm_get (sr_packetRoutes rt) p = Some l \<and> pr = ProtoUDP \<and> d = [])"
proof -
  consider (ent) pe where "pe \<in> set (sr_listeners rt)" "(p, pr, d, l) \<in> set (entry_regs pe)"
    | (pkt) ph where "ph \<in> set (sr_packetRoutes rt)" "(p, pr, d, l) = packet_reg ph"
    using assms(2) by (auto simp: registrations_def)
  then show ?thesis
  proof cases
    case ent
    have p: "fst pe = p" using ent(2) by (auto simp: entry_regs_def split: option.splits)
    then have e: "gm_get (sr_listeners rt) p = Some (snd pe)"
      using ent(1) assms(1) gm_in_get [of "sr_listeners rt" p "snd pe"] by (auto simp: runtime_ok_but_def)
    then have "router_wf (snd pe)" using assms(1) by (simp add: runtime_ok_but_def)
    with ent(2) p e show ?thesis by (auto simp: entry_regs_def router_wf_def gm_wf_def split: option.splits)
  next
    case pkt
    then show ?thesis using assms(1) by (cases ph) (auto simp: runtime_ok_but_def packet_reg_def gm_wf_def)
  qed
qed

lemma mode_proto_web: "mode_proto m = ProtoHTTPS \<or> mode_proto m = ProtoHTTP"
  by (cases m) (simp_all add: mode_proto_def)

lemma unregisterRoute_effect:
  assumes un: "unregisterRoute domain port protocol rt h = (rt', h')"
    and ok: "runtime_ok rt" and own: "owns rt h"
    and lease: "(port, protocol, domain, l) \<in> set (registrations rt)" and np: "protocol \<noteq> ProtoUDP"
  shows "runtime_ok rt' \<and> owns rt' h' \<and>
    mset (registrations rt) = add_mset (port, protocol, domain, l) (mset (registrations rt')) \<and>
    sr_tsServer rt' = sr_tsServer rt \<and> sr_gen rt' = sr_gen rt \<and> sr_subs rt' = sr_subs rt"
proof -
  have wf: "gm_wf (sr_listeners rt)" using ok by (simp add: runtime_ok_but_def)
  have fin: ?thesis
    if regs: "mset (registrations rt) = add_mset (port, protocol, domain, l) (mset (registrations rt'))" and "owns rt' h'"
      and rt': "rt' = rt\<lparr>sr_routeCount := sr_routeCount rt - 1, sr_listeners := m\<rparr>" and "gm_wf m"
      and "\<And>p e. gm_get m p = Some e \<Longrightarrow> gm_get (sr_packetRoutes rt) p = None \<and> router_wf e \<and> router_used e"
      and "sr_tsServer rt \<noteq> None" for m
  proof -
    have "length (registrations rt) = Suc (length (registrations rt'))" using regs by (metis size_add_mset size_mset)
    with that ok show ?thesis by (auto simp: runtime_ok_but_def)
  qed
  have ents: "gm_get (sr_packetRoutes rt) p = None \<and> router_wf e \<and> router_used e" if "gm_get (sr_listeners rt) p = Some e" for p e
    using ok that by (simp add: runtime_ok_but_def)
  from registrations_in [OF ok lease] np
  consider (web) e r where "gm_get (sr_listeners rt) port = Some e" "pe_router e = Some r" "mode_proto (pr_mode r) = protocol"
      "gm_get (pr_listeners r) domain = Some l"
    | (tcp) e where "gm_get (sr_listeners rt) port = Some e" "pe_router e = None" "pe_owner e = domain" "pe_listener e = l" "protocol = ProtoTCP"
    by blast
  then show ?thesis
  proof cases
    case web
    let ?r = "r\<lparr>pr_listeners := gm_del domain (pr_listeners r)\<rparr>"
    let ?e = "e\<lparr>pe_router := Some ?r\<rparr>"
    have wfr: "gm_wf (pr_listeners r)" "gm_get (sr_packetRoutes rt) port = None" and srv: "sr_tsServer rt \<noteq> None"
      using ok web by (auto simp: runtime_ok_but_def router_wf_def split: option.splits)
    have regs: "mset (entry_regs (port, e)) = add_mset (port, protocol, domain, l) (mset (entry_regs (port, ?e)))"
      using mset_map_del [OF wfr(1) web(4), of "\<lambda>(d, v). (port, protocol, d, v)"] web(2,3) by (simp add: entry_regs_def)
    have hands: "mset (entry_handles (port, e)) = add_mset l (mset (entry_handles (port, ?e)))"
      using mset_map_del [OF wfr(1) web(4), of snd] web(2) by (simp add: entry_handles_def)
    have pr: "protocol = ProtoHTTPS \<or> protocol = ProtoHTTP" using mode_proto_web web(3) by metis
    show ?thesis
    proof (cases "gm_del domain (pr_listeners r) = []")
      case True
      then have rt': "rt' = rt\<lparr>sr_routeCount := sr_routeCount rt - 1, sr_listeners := gm_del port (sr_listeners rt)\<rparr>"
        and h': "h' = h_close (pe_listener e) (h_close l h)"
        using un web pr by (auto simp: unregisterRoute_def Unregister_def IsEmpty_def CloseAll_def)
      have "mset (registrations rt) = add_mset (port, protocol, domain, l) (mset (registrations rt'))"
        using mset_concat_del [OF wf web(1), of entry_regs] regs True by (simp add: registrations_def rt' entry_regs_def)
      moreover have "mset (runtime_handles rt) = add_mset l (add_mset (pe_listener e) (mset (runtime_handles rt')))"
        using mset_concat_del [OF wf web(1), of entry_handles] hands True by (simp add: runtime_handles_def rt' entry_handles_def)
      then have "owns rt' h'" using own unfolding h' by (intro opened_close) simp
      ultimately show ?thesis using wf srv ents by (intro fin [OF _ _ rt']) (auto split: if_splits)
    next
      case False
      then have rt': "rt' = rt\<lparr>sr_routeCount := sr_routeCount rt - 1, sr_listeners := gm_put port ?e (sr_listeners rt)\<rparr>"
        and h': "h' = h_close l h"
        using un web pr by (auto simp: unregisterRoute_def Unregister_def IsEmpty_def CloseAll_def)
      have "mset (registrations rt) = add_mset (port, protocol, domain, l) (mset (registrations rt'))"
        using mset_concat_put_old [OF web(1), of entry_regs ?e] regs by (simp add: registrations_def rt')
      moreover have "mset (runtime_handles rt) = add_mset l (mset (runtime_handles rt'))"
        using mset_concat_put_old [OF web(1), of entry_handles ?e] hands by (simp add: runtime_handles_def rt')
      then have "owns rt' h'" using own unfolding h' by (intro owns_close)
      moreover have "router_wf ?e" "router_used ?e" using wfr(1) False by (simp_all add: router_wf_def router_used_def)
      ultimately show ?thesis using wf wfr(2) srv ents by (intro fin [OF _ _ rt']) (auto split: if_splits)
    qed
  next
    case tcp
    have srv: "sr_tsServer rt \<noteq> None" using ok tcp by (auto simp: runtime_ok_but_def)
    have rt': "rt' = rt\<lparr>sr_routeCount := sr_routeCount rt - 1, sr_listeners := gm_del port (sr_listeners rt)\<rparr>" and h': "h' = h_close l h"
      using un tcp by (auto simp: unregisterRoute_def)
    have "mset (registrations rt) = add_mset (port, protocol, domain, l) (mset (registrations rt'))"
      using mset_concat_del [OF wf tcp(1), of entry_regs] tcp by (simp add: registrations_def rt' entry_regs_def)
    moreover have "mset (runtime_handles rt) = add_mset l (mset (runtime_handles rt'))"
      using mset_concat_del [OF wf tcp(1), of entry_handles] tcp by (simp add: runtime_handles_def rt' entry_handles_def)
    then have "owns rt' h'" using own unfolding h' by (intro owns_close)
    ultimately show ?thesis using wf srv ents by (intro fin [OF _ _ rt']) (auto split: if_splits)
  qed
qed

lemma unregisterPacketRoute_effect:
  assumes un: "unregisterPacketRoute domain port rt h = (rt', h')"
    and ok: "runtime_ok rt" and own: "owns rt h" and lease: "(port, ProtoUDP, d, l) \<in> set (registrations rt)"
  shows "runtime_ok rt' \<and> owns rt' h' \<and>
    mset (registrations rt) = add_mset (port, ProtoUDP, d, l) (mset (registrations rt')) \<and>
    sr_tsServer rt' = sr_tsServer rt \<and> sr_gen rt' = sr_gen rt \<and> sr_subs rt' = sr_subs rt"
proof -
  have pc: "gm_get (sr_packetRoutes rt) port = Some l" "d = []"
    using registrations_in [OF ok lease] mode_proto_web by (fastforce simp: mode_proto_def split: RoutingMode.splits)+
  have wf: "gm_wf (sr_packetRoutes rt)" using ok by (simp add: runtime_ok_but_def)
  have rt': "rt' = rt\<lparr>sr_packetRoutes := gm_del port (sr_packetRoutes rt), sr_routeCount := sr_routeCount rt - 1\<rparr>" and h': "h' = h_close l h"
    using un pc by (auto simp: unregisterPacketRoute_def)
  have regs: "mset (registrations rt) = add_mset (port, ProtoUDP, d, l) (mset (registrations rt'))"
    using mset_map_del [OF wf pc(1), of packet_reg] pc(2) by (simp add: rt' registrations_def packet_reg_def)
  have "mset (runtime_handles rt) = add_mset l (mset (runtime_handles rt'))"
    using mset_map_del [OF wf pc(1), of snd] by (simp add: rt' runtime_handles_def)
  then have "owns rt' h'" using own unfolding h' by (intro owns_close)
  moreover have "length (registrations rt) = Suc (length (registrations rt'))" using regs by (metis size_add_mset size_mset)
  ultimately show ?thesis using ok regs pc by (auto simp: runtime_ok_but_def rt')
qed

subsection \<open>Stopping and starting\<close>

lemma close_port_open: "mset (hs_open (close_port pe h)) = mset (hs_open h) - mset (entry_handles pe)"
  by (auto simp: close_port_def entry_handles_def CloseAll_def h_close_all_open split: option.splits)

lemma fold_close_port_open:
  "mset (hs_open (fold close_port pes h)) = mset (hs_open h) - mset (concat (map entry_handles pes))"
  by (induction pes arbitrary: h) (simp_all add: close_port_open)

lemma stopRuntime_closes: "owns rt h \<Longrightarrow> hs_open (stopRuntime rt h) = []"
proof -
  assume o: "owns rt h"
  have "mset (hs_open (stopRuntime rt h)) = mset (hs_open h) - mset (runtime_handles rt)"
    by (auto simp: stopRuntime_def Let_def h_close_all_open fold_close_port_open runtime_handles_def ac_simps split: option.splits)
  with o show ?thesis by (simp add: opened_def)
qed

section \<open>The server and its clients\<close>

text \<open>
  The registrations that clients hold (\<open>leases\<close>). A client releases what it holds, with the
  protocol it acquired it with; everything else may arrive at any time, also timeouts and
  updates of runtimes that are gone.
\<close>

record shared_world =
  sw_loop :: shared_loop
  sw_leases :: "registration list"

definition quiet :: "sharedCmd \<Rightarrow> bool" where
  "quiet cmd = (case cmd of acquireCmd _ _ _ \<Rightarrow> False | acquirePacketCmd _ _ \<Rightarrow> False | releaseCmd _ _ _ \<Rightarrow> False
     | releasePacketCmd _ _ \<Rightarrow> False | closeCmd \<Rightarrow> False | _ \<Rightarrow> True)"

inductive shared_step :: "shared_world \<Rightarrow> shared_world \<Rightarrow> bool" where
  ShAcquire: "\<not> sl_exited (sw_loop w) \<Longrightarrow> loop_turn env (acquireCmd d p pr) (sw_loop w) = (ReplyAcquire (Inr l), s) \<Longrightarrow>
    shared_step w (w\<lparr>sw_loop := s, sw_leases := (p, pr, d, l) # sw_leases w\<rparr>)"
| ShAcquireFails: "\<not> sl_exited (sw_loop w) \<Longrightarrow> loop_turn env (acquireCmd d p pr) (sw_loop w) = (ReplyAcquire (Inl e), s) \<Longrightarrow>
    shared_step w (w\<lparr>sw_loop := s\<rparr>)"
| ShPacket: "\<not> sl_exited (sw_loop w) \<Longrightarrow> loop_turn env (acquirePacketCmd d p) (sw_loop w) = (ReplyPacket (Inr l), s) \<Longrightarrow>
    shared_step w (w\<lparr>sw_loop := s, sw_leases := (p, ProtoUDP, [], l) # sw_leases w\<rparr>)"
| ShPacketFails: "\<not> sl_exited (sw_loop w) \<Longrightarrow> loop_turn env (acquirePacketCmd d p) (sw_loop w) = (ReplyPacket (Inl e), s) \<Longrightarrow>
    shared_step w (w\<lparr>sw_loop := s\<rparr>)"
| ShRelease: "\<not> sl_exited (sw_loop w) \<Longrightarrow> (p, pr, d, l) \<in> set (sw_leases w) \<Longrightarrow> pr \<noteq> ProtoUDP \<Longrightarrow>
    loop_turn env (releaseCmd d p pr) (sw_loop w) = (r, s) \<Longrightarrow>
    shared_step w (w\<lparr>sw_loop := s, sw_leases := remove1 (p, pr, d, l) (sw_leases w)\<rparr>)"
| ShReleasePacket: "\<not> sl_exited (sw_loop w) \<Longrightarrow> (p, ProtoUDP, [], l) \<in> set (sw_leases w) \<Longrightarrow>
    loop_turn env (releasePacketCmd d p) (sw_loop w) = (r, s) \<Longrightarrow>
    shared_step w (w\<lparr>sw_loop := s, sw_leases := remove1 (p, ProtoUDP, [], l) (sw_leases w)\<rparr>)"
| ShQuiet: "\<not> sl_exited (sw_loop w) \<Longrightarrow> quiet cmd \<Longrightarrow> loop_turn env cmd (sw_loop w) = (r, s) \<Longrightarrow>
    shared_step w (w\<lparr>sw_loop := s\<rparr>)"
| ShClose: "\<not> sl_exited (sw_loop w) \<Longrightarrow> loop_turn env closeCmd (sw_loop w) = (r, s) \<Longrightarrow> shared_step w (w\<lparr>sw_loop := s\<rparr>)"

abbreviation shared_init :: "shared_world \<Rightarrow> bool" where
  "shared_init w \<equiv> w = \<lparr>sw_loop = NewSharedServer, sw_leases = []\<rparr>"

definition loop_ok :: "shared_loop \<Rightarrow> registration multiset \<Rightarrow> bool" where
  "loop_ok s leases \<longleftrightarrow>
     (case sl_rt s of
        None \<Rightarrow> sl_state s = sharedIdle \<and> leases = {#} \<and> hs_open (sl_handles s) = []
      | Some rt \<Rightarrow> runtime_ok rt \<and> owns rt (sl_handles s) \<and> leases = mset (registrations rt) \<and>
          sl_state s = (if leases = {#} then sharedIdle else sharedRunning))"

definition shared_inv :: "shared_world \<Rightarrow> bool" where
  "shared_inv w \<longleftrightarrow>
     (if sl_exited (sw_loop w) then hs_open (sl_handles (sw_loop w)) = [] else loop_ok (sw_loop w) (mset (sw_leases w)))"

lemma loop_ok_timer [simp]: "loop_ok (s\<lparr>sl_idleTimer := t\<rparr>) L = loop_ok s L"
  by (simp add: loop_ok_def cong: option.case_cong)

lemma cancelIdleTimer_ok [simp]: "loop_ok (cancelIdleTimer cmd s) L = loop_ok s L"
  by (cases "(cmd, s)" rule: cancelIdleTimer.cases) simp_all

lemma scheduleIdleTimeout_ok [simp]: "loop_ok (scheduleIdleTimeout s) L = loop_ok s L"
  by (simp add: scheduleIdleTimeout_def)

lemma timer_exited [simp]:
  "sl_exited (cancelIdleTimer cmd s) = sl_exited s" "sl_exited (scheduleIdleTimeout s) = sl_exited s"
  by (cases "(cmd, s)" rule: cancelIdleTimer.cases) (simp_all add: scheduleIdleTimeout_def)

lemma ensureRunning_Inr:
  assumes "ensureRunning env s = (Inr rt, s')" "loop_ok s L"
  shows "runtime_ok rt \<and> owns rt (sl_handles s') \<and> L = mset (registrations rt) \<and> sr_tsServer rt \<noteq> None \<and>
    sl_rt s' = Some rt \<and> sl_state s' = sharedRunning \<and> sl_exited s' = sl_exited s"
proof -
  have fresh: "runtime_ok n \<and> owns n h' \<and> registrations n = [] \<and> sr_tsServer n \<noteq> None"
    if "startRuntimeWithLifecycle env prev g h = (Some n, h')" "opened (mset (case prev of None \<Rightarrow> [] | Some p \<Rightarrow> map fst (sr_subs p))) h"
      "case prev of None \<Rightarrow> True | Some p \<Rightarrow> gm_wf (sr_subs p)" for prev g h n h'
    using that opened_open [OF that(2), of "fst (h_open h)" "snd (h_open h)"]
    by (auto simp: startRuntimeWithLifecycle_def runtime_ok_but_def registrations_def runtime_handles_def split: if_splits prod.splits option.splits)
  show ?thesis
  proof (cases "sl_rt s")
    case None
    with assms fresh [of None] show ?thesis
      by (auto simp: ensureRunning_def loop_ok_def opened_def split: sharedState.splits prod.splits option.splits)
  next
    case (Some r)
    show ?thesis
    proof (cases "sr_tsServer r")
      case (Some x)
      with \<open>sl_rt s = Some r\<close> assms show ?thesis
        by (auto simp: ensureRunning_def loop_ok_def split: sharedState.splits if_splits)
    next
      case None
      then have "opened (mset (map fst (sr_subs r))) (sl_handles s)" "gm_wf (sr_subs r)" "L = {#}" "sl_state s = sharedIdle"
        using assms(2) \<open>sl_rt s = Some r\<close>
        by (auto simp: loop_ok_def runtime_ok_but_def registrations_def runtime_handles_def)
      with None \<open>sl_rt s = Some r\<close> assms(1) fresh [of "Some r" "sl_nextGen s" "sl_handles s"] show ?thesis
        by (auto simp: ensureRunning_def split: prod.splits option.splits)
    qed
  qed
qed

lemma ensureRunning_Inl: "ensureRunning env s = (Inl e, s') \<Longrightarrow> s' = s"
  by (auto simp: ensureRunning_def startRuntimeWithLifecycle_def split: sharedState.splits prod.splits option.splits if_splits)

lemma runtime_count: "runtime_ok rt \<Longrightarrow> sr_routeCount rt \<le> 0 \<longleftrightarrow> registrations rt = []"
  by (simp add: runtime_ok_but_def)

lemma handleAcquire_ok:
  assumes ok: "loop_ok s L" and ha: "handleAcquire env d p pr s = (ReplyAcquire res, s')"
  shows "loop_ok s' (case res of Inl _ \<Rightarrow> L | Inr l \<Rightarrow> add_mset (p, pr, d, l) L) \<and> sl_exited s' = sl_exited s"
proof (cases "ensureRunning env s")
  case (Pair er s1)
  show ?thesis
  proof (cases er)
    case (Inl e)
    with ha Pair ensureRunning_Inl [of env s e s1] ok show ?thesis by (auto simp: handleAcquire_def)
  next
    case (Inr rt)
    from ensureRunning_Inr [OF Pair [unfolded Inr] ok]
    have er: "runtime_ok rt" "owns rt (sl_handles s1)" "L = mset (registrations rt)" "sr_tsServer rt \<noteq> None"
      "sl_rt s1 = Some rt" "sl_state s1 = sharedRunning" "sl_exited s1 = sl_exited s" by simp_all
    obtain r rt' h where reg: "registerRoute env d p pr rt (sl_handles s1) = (r, rt', h)" by (metis prod_cases3)
    show ?thesis
    proof (cases r)
      case (Inl e)
      with reg registerRoute_Inl [of env d p pr rt "sl_handles s1" e rt' h] have "rt' = rt" "h = sl_handles s1" by simp_all
      with ha Pair Inr reg Inl er runtime_count [of rt] show ?thesis
        by (auto simp: handleAcquire_def loop_ok_def)
    next
      case (Inr l)
      with reg registerRoute_Inr [of env d p pr rt "sl_handles s1" l rt' h] er ha Pair \<open>er = Inr rt\<close> show ?thesis
        by (auto simp: handleAcquire_def loop_ok_def)
    qed
  qed
qed

lemma handleAcquirePacket_ok:
  assumes ok: "loop_ok s L" and ha: "handleAcquirePacket env d p s = (ReplyPacket res, s')"
  shows "loop_ok s' (case res of Inl _ \<Rightarrow> L | Inr l \<Rightarrow> add_mset (p, ProtoUDP, [], l) L) \<and> sl_exited s' = sl_exited s"
proof (cases "ensureRunning env s")
  case (Pair er s1)
  show ?thesis
  proof (cases er)
    case (Inl e)
    with ha Pair ensureRunning_Inl [of env s e s1] ok show ?thesis by (auto simp: handleAcquirePacket_def)
  next
    case (Inr rt)
    from ensureRunning_Inr [OF Pair [unfolded Inr] ok]
    have er: "runtime_ok rt" "owns rt (sl_handles s1)" "L = mset (registrations rt)" "sr_tsServer rt \<noteq> None"
      "sl_rt s1 = Some rt" "sl_state s1 = sharedRunning" "sl_exited s1 = sl_exited s" by simp_all
    obtain r rt' h where reg: "registerPacketRoute env d p rt (sl_handles s1) = (r, rt', h)" by (metis prod_cases3)
    show ?thesis
    proof (cases r)
      case (Inl e)
      with reg registerPacketRoute_Inl [of env d p rt "sl_handles s1" e rt' h] have "rt' = rt" "h = sl_handles s1" by simp_all
      with ha Pair Inr reg Inl er runtime_count [of rt] show ?thesis
        by (auto simp: handleAcquirePacket_def loop_ok_def)
    next
      case (Inr l)
      with reg registerPacketRoute_Inr [of env d p rt "sl_handles s1" l rt' h] er ha Pair \<open>er = Inr rt\<close> show ?thesis
        by (auto simp: handleAcquirePacket_def loop_ok_def)
    qed
  qed
qed

lemma loop_ok_lease:
  assumes "loop_ok s L" "x \<in># L"
  obtains rt where "sl_rt s = Some rt" "runtime_ok rt" "owns rt (sl_handles s)" "L = mset (registrations rt)" "sl_state s = sharedRunning"
  using assms by (cases "sl_rt s") (auto simp: loop_ok_def split: if_splits)

lemma released_ok:
  assumes ok: "loop_ok s L" "sl_rt s = Some rt" "x \<in># L"
    and eff: "runtime_ok rt' \<and> owns rt' h \<and> mset (registrations rt) = add_mset x (mset (registrations rt'))"
  shows "loop_ok (released rt' h s) (L - {#x#})"
  using assms runtime_count [of rt'] by (auto simp: loop_ok_def released_def)

lemma handleRelease_ok:
  assumes ok: "loop_ok s L" and l: "(p, pr, d, l) \<in># L" "pr \<noteq> ProtoUDP" and hr: "handleRelease d p pr s = (r, s')"
  shows "loop_ok s' (L - {#(p, pr, d, l)#}) \<and> sl_exited s' = sl_exited s"
proof -
  obtain rt where rt: "sl_rt s = Some rt" "runtime_ok rt" "owns rt (sl_handles s)" "L = mset (registrations rt)" "sl_state s = sharedRunning"
    using loop_ok_lease [OF ok l(1)] by blast
  obtain rt' h where un: "unregisterRoute d p pr rt (sl_handles s) = (rt', h)" by force
  from unregisterRoute_effect [OF un rt(2,3) _ l(2)] l(1) rt(4)
  have "runtime_ok rt' \<and> owns rt' h \<and> mset (registrations rt) = add_mset (p, pr, d, l) (mset (registrations rt'))" by auto
  from released_ok [OF ok rt(1) l(1) this] hr rt un show ?thesis by (auto simp: handleRelease_def released_def)
qed

lemma handleReleasePacket_ok:
  assumes ok: "loop_ok s L" and l: "(p, ProtoUDP, [], l) \<in># L" and hr: "handleReleasePacket d p s = (r, s')"
  shows "loop_ok s' (L - {#(p, ProtoUDP, [], l)#}) \<and> sl_exited s' = sl_exited s"
proof -
  obtain rt where rt: "sl_rt s = Some rt" "runtime_ok rt" "owns rt (sl_handles s)" "L = mset (registrations rt)" "sl_state s = sharedRunning"
    using loop_ok_lease [OF ok l(1)] by blast
  obtain rt' h where un: "unregisterPacketRoute d p rt (sl_handles s) = (rt', h)" by force
  from unregisterPacketRoute_effect [OF un rt(2,3)] l(1) rt(4)
  have "runtime_ok rt' \<and> owns rt' h \<and> mset (registrations rt) = add_mset (p, ProtoUDP, [], l) (mset (registrations rt'))" by auto
  from released_ok [OF ok rt(1) l(1) this] hr rt un show ?thesis by (auto simp: handleReleasePacket_def released_def)
qed

text \<open>Updates of a runtime that leave its table and its handles alone.\<close>

lemma loop_ok_update:
  assumes "loop_ok s L" "sl_rt s = Some rt" "sr_listeners rt' = sr_listeners rt" "sr_packetRoutes rt' = sr_packetRoutes rt"
    "keys (sr_subs rt') = keys (sr_subs rt)" "sr_tsServer rt' = sr_tsServer rt" "sr_routeCount rt' = sr_routeCount rt"
  shows "loop_ok (s\<lparr>sl_rt := Some rt'\<rparr>) L"
proof -
  have regs: "registrations rt' = registrations rt" using assms by (simp add: registrations_def)
  have "runtime_handles rt' = runtime_handles rt" using assms by (simp add: runtime_handles_def)
  with assms regs show ?thesis by (simp add: loop_ok_def runtime_ok_but_def gm_wf_def)
qed

lemma handleSubscribe_ok:
  assumes ok: "loop_ok s L" and hs: "handleSubscribe s = (r, s')"
  shows "loop_ok s' L \<and> sl_exited s' = sl_exited s"
proof -
  obtain x h where x: "h_open (sl_handles s) = (x, h)" by force
  define rt where "rt = (case sl_rt s of None \<Rightarrow> placeholder_runtime | Some rt \<Rightarrow> rt)"
  have rt: "runtime_ok rt" "owns rt (sl_handles s)" "L = mset (registrations rt)" "sl_state s = (if L = {#} then sharedIdle else sharedRunning)"
    using ok by (auto simp: rt_def loop_ok_def placeholder_runtime_def runtime_ok_but_def registrations_def runtime_handles_def opened_def split: option.splits)
  have "x \<notin> set (runtime_handles rt)" using rt(2) x by (auto simp: opened_def h_open_def dest: mset_eq_setD)
  then have n: "gm_get (sr_subs rt) x = None" by (auto simp: runtime_handles_def gm_get_None_iff)
  let ?rt = "rt\<lparr>sr_subs := gm_put x [] (sr_subs rt)\<rparr>"
  have s': "s' = s\<lparr>sl_rt := Some ?rt, sl_handles := h\<rparr>" using hs x by (simp add: handleSubscribe_def rt_def Let_def)
  have "owns ?rt h"
    using rt(2) x mset_map_put_new [OF n, of fst "[]"] by (intro owns_open [OF rt(2) x]) (simp add: runtime_handles_def)
  moreover have "registrations ?rt = registrations rt" by (simp add: registrations_def)
  moreover have "runtime_ok ?rt" using rt(1) by (simp add: runtime_ok_but_def registrations_def)
  ultimately show ?thesis using rt by (simp add: s' loop_ok_def)
qed

lemma handleUnsubscribe_ok:
  assumes ok: "loop_ok s L" and hs: "handleUnsubscribe ch s = (r, s')"
  shows "loop_ok s' L \<and> sl_exited s' = sl_exited s"
proof (cases "\<exists>rt buf. sl_rt s = Some rt \<and> gm_get (sr_subs rt) ch = Some buf")
  case True
  then obtain rt buf where rt: "sl_rt s = Some rt" "gm_get (sr_subs rt) ch = Some buf" by blast
  then have o: "runtime_ok rt" "owns rt (sl_handles s)" "gm_wf (sr_subs rt)" using ok by (auto simp: loop_ok_def runtime_ok_but_def)
  let ?rt = "rt\<lparr>sr_subs := gm_del ch (sr_subs rt)\<rparr>"
  have "owns ?rt (h_close ch (sl_handles s))"
    using mset_map_del [OF o(3) rt(2), of fst] by (intro owns_close [OF o(2)]) (simp add: runtime_handles_def)
  moreover have "registrations ?rt = registrations rt" by (simp add: registrations_def)
  moreover have "runtime_ok ?rt" using o(1) by (simp add: runtime_ok_but_def registrations_def)
  ultimately show ?thesis using ok hs rt by (auto simp: loop_ok_def handleUnsubscribe_def)
next
  case False
  then show ?thesis using ok hs by (auto simp: handleUnsubscribe_def split: option.splits if_splits)
qed

lemma quiet_ok:
  assumes "quiet cmd" and ok: "loop_ok s L" and "loop_turn env cmd s = (r, s')"
  shows "loop_ok s' L \<and> sl_exited s' = sl_exited s"
proof (cases cmd)
  case (watchUpdateCmd url auth evt g)
  with assms show ?thesis
    by (auto simp: loop_turn_def handleWatchUpdate_def o_def case_prod_unfold intro!: loop_ok_update [OF ok] split: option.splits if_splits)
next
  case (certDoneCmd g)
  with assms show ?thesis by (auto simp: loop_turn_def handleCertDone_def intro!: loop_ok_update [OF ok] split: option.splits if_splits)
next
  case (idleTimeoutCmd g)
  then have s': "s' = handleIdleTimeout g (s\<lparr>sl_idleTimer := None\<rparr>)" using assms by (simp add: loop_turn_def)
  show ?thesis
    using ok stopRuntime_closes [of _ "sl_handles s"]
    by (auto simp: s' handleIdleTimeout_def loop_ok_def split: option.splits if_splits)
next
  case subscribeCmd
  with assms handleSubscribe_ok [OF ok, of r s'] show ?thesis by (simp add: loop_turn_def)
next
  case (unsubscribeCmd ch)
  with assms handleUnsubscribe_ok [OF ok, of ch r s'] show ?thesis by (simp add: loop_turn_def)
qed (use assms in \<open>auto simp: loop_turn_def quiet_def\<close>)

interpretation shared: invariant_system shared_init shared_step shared_inv
proof unfold_locales
  show "shared_init w \<Longrightarrow> shared_inv w" for w by (simp add: shared_inv_def loop_ok_def NewSharedServer_def)
  fix w w' assume inv: "shared_inv w" and "shared_step w w'"
  from this(2) show "shared_inv w'"
  proof cases
    case (ShAcquire env d p pr l s)
    then show ?thesis
      using inv handleAcquire_ok [of "cancelIdleTimer (acquireCmd d p pr) (sw_loop w)" "mset (sw_leases w)" env d p pr "Inr l"]
      by (cases "handleAcquire env d p pr (sw_loop w\<lparr>sl_idleTimer := None\<rparr>)") (auto simp: shared_inv_def loop_turn_def)
  next
    case (ShAcquireFails env d p pr e s)
    then show ?thesis
      using inv handleAcquire_ok [of "cancelIdleTimer (acquireCmd d p pr) (sw_loop w)" "mset (sw_leases w)" env d p pr "Inl e"]
      by (cases "handleAcquire env d p pr (sw_loop w\<lparr>sl_idleTimer := None\<rparr>)") (auto simp: shared_inv_def loop_turn_def)
  next
    case (ShPacket env d p l s)
    then show ?thesis
      using inv handleAcquirePacket_ok [of "cancelIdleTimer (acquirePacketCmd d p) (sw_loop w)" "mset (sw_leases w)" env d p "Inr l"]
      by (cases "handleAcquirePacket env d p (sw_loop w\<lparr>sl_idleTimer := None\<rparr>)") (auto simp: shared_inv_def loop_turn_def)
  next
    case (ShPacketFails env d p e s)
    then show ?thesis
      using inv handleAcquirePacket_ok [of "cancelIdleTimer (acquirePacketCmd d p) (sw_loop w)" "mset (sw_leases w)" env d p "Inl e"]
      by (cases "handleAcquirePacket env d p (sw_loop w\<lparr>sl_idleTimer := None\<rparr>)") (auto simp: shared_inv_def loop_turn_def)
  next
    case (ShRelease p pr d l env r s)
    then show ?thesis
      using inv handleRelease_ok [of "cancelIdleTimer (releaseCmd d p pr) (sw_loop w)" "mset (sw_leases w)" p pr d l]
      by (cases "handleRelease d p pr (sw_loop w\<lparr>sl_idleTimer := None\<rparr>)") (auto simp: shared_inv_def loop_turn_def)
  next
    case (ShReleasePacket p l env d r s)
    then show ?thesis
      using inv handleReleasePacket_ok [of "cancelIdleTimer (releasePacketCmd d p) (sw_loop w)" "mset (sw_leases w)" p l]
      by (cases "handleReleasePacket d p (sw_loop w\<lparr>sl_idleTimer := None\<rparr>)") (auto simp: shared_inv_def loop_turn_def)
  next
    case (ShQuiet cmd env r s)
    then show ?thesis using inv quiet_ok [of cmd "sw_loop w" "mset (sw_leases w)" env r s] by (auto simp: shared_inv_def)
  next
    case (ShClose env r s)
    then have "loop_ok (sw_loop w) (mset (sw_leases w))" using inv by (simp add: shared_inv_def)
    with ShClose show ?thesis
      by (auto simp: shared_inv_def loop_turn_def handleClose_def loop_ok_def stopRuntime_closes split: option.splits)
  qed
qed

subsection \<open>What the invariant gives to clients\<close>

abbreviation reg_handle :: "registration \<Rightarrow> nat" where "reg_handle x \<equiv> snd (snd (snd x))"

lemma distinct_submset:
  assumes "mset a \<subseteq># mset b" "distinct b"
  shows "distinct a"
proof -
  have "count (mset a) x \<le> 1" for x
  proof -
    have "count (mset b) x \<le> 1" using assms(2) by (subst (asm) distinct_count_atmost_1) simp
    with mset_subset_eq_count [OF assms(1), of x] show ?thesis by linarith
  qed
  moreover have "count (mset a) x = 0 \<longleftrightarrow> x \<notin> set a" for x by (simp add: count_mset_0_iff)
  ultimately show ?thesis by (auto simp: distinct_count_atmost_1 le_Suc_eq)
qed

lemma entry_regs_handles: "mset (map reg_handle (entry_regs pe)) \<subseteq># mset (entry_handles pe)"
proof (cases "pe_router (snd pe)")
  case (Some r)
  have "map reg_handle (entry_regs pe) = map snd (pr_listeners r)" using Some by (simp add: entry_regs_def case_prod_unfold o_def)
  then show ?thesis using Some by (simp add: entry_handles_def del: mset_map)
qed (simp add: entry_regs_def entry_handles_def)

lemma registrations_handles: "mset (map reg_handle (registrations rt)) \<subseteq># mset (runtime_handles rt)"
proof -
  have "mset (map reg_handle (concat (map entry_regs m))) \<subseteq># mset (concat (map entry_handles m))" for m
  proof (induction m)
    case (Cons a m)
    then show ?case using entry_regs_handles [of a] by (simp add: subset_mset.add_mono)
  qed simp
  from this [of "sr_listeners rt"] show ?thesis
    by (simp add: registrations_def runtime_handles_def packet_reg_def o_def subset_mset.add_mono subset_mset.add_increasing subset_mset.add_increasing2)
qed

lemma registrations_port:
  assumes ok: "runtime_ok rt"
  shows "(\<exists>x \<in> set (registrations rt). fst x = p) \<longleftrightarrow> gm_get (sr_listeners rt) p \<noteq> None \<or> gm_get (sr_packetRoutes rt) p \<noteq> None"
proof
  assume "\<exists>x \<in> set (registrations rt). fst x = p"
  then obtain pr d l where "(p, pr, d, l) \<in> set (registrations rt)" by (metis prod.collapse)
  from registrations_in [OF ok this] show "gm_get (sr_listeners rt) p \<noteq> None \<or> gm_get (sr_packetRoutes rt) p \<noteq> None" by auto
next
  assume "gm_get (sr_listeners rt) p \<noteq> None \<or> gm_get (sr_packetRoutes rt) p \<noteq> None"
  then show "\<exists>x \<in> set (registrations rt). fst x = p"
  proof
    assume "gm_get (sr_packetRoutes rt) p \<noteq> None"
    then obtain l where "(p, l) \<in> set (sr_packetRoutes rt)" by (auto dest: map_of_SomeD)
    then have "packet_reg (p, l) \<in> set (registrations rt)" by (simp add: registrations_def)
    then show ?thesis by (force simp: packet_reg_def)
  next
    assume "gm_get (sr_listeners rt) p \<noteq> None"
    then obtain e where e: "gm_get (sr_listeners rt) p = Some e" by blast
    then have "entry_regs (p, e) \<noteq> []" using ok by (auto simp: runtime_ok_but_def router_used_def entry_regs_def split: option.splits)
    then obtain x where x: "x \<in> set (entry_regs (p, e))" by (cases "entry_regs (p, e)") auto
    then have "fst x = p" by (auto simp: entry_regs_def split: option.splits)
    moreover have "x \<in> set (registrations rt)" using x map_of_SomeD [OF e] by (auto simp: registrations_def)
    ultimately show ?thesis by blast
  qed
qed

lemma registrations_of_router:
  assumes ok: "runtime_ok rt" and e: "gm_get (sr_listeners rt) p = Some e" "pe_router e = Some r"
  shows "(p, pr, d, l) \<in> set (registrations rt) \<longleftrightarrow> pr = mode_proto (pr_mode r) \<and> gm_get (pr_listeners r) d = Some l"
proof
  assume "(p, pr, d, l) \<in> set (registrations rt)"
  from registrations_in [OF ok this] e ok show "pr = mode_proto (pr_mode r) \<and> gm_get (pr_listeners r) d = Some l"
    by (auto simp: runtime_ok_but_def)
next
  assume "pr = mode_proto (pr_mode r) \<and> gm_get (pr_listeners r) d = Some l"
  then have "(p, pr, d, l) \<in> set (entry_regs (p, e))" using e(2) by (force simp: entry_regs_def dest: map_of_SomeD)
  then show "(p, pr, d, l) \<in> set (registrations rt)" using map_of_SomeD [OF e(1)] by (auto simp: registrations_def)
qed

text \<open>
  When a port can be taken, in terms of the registrations only: a web port is shared between
  domains of one protocol, any other port has one holder.
\<close>

definition acquirable :: "shared_env \<Rightarrow> registration list \<Rightarrow> string \<Rightarrow> int \<Rightarrow> string \<Rightarrow> bool" where
  "acquirable env leases d p pr \<longleftrightarrow>
     (if \<exists>x \<in> set leases. fst x = p
      then (pr = ProtoHTTPS \<or> pr = ProtoHTTP) \<and> (\<forall>(p', pr', d', _) \<in> set leases. p' = p \<longrightarrow> pr' = pr \<and> d' \<noteq> d)
      else pr \<in> {ProtoHTTPS, ProtoHTTP, ProtoTCP} \<and> se_listenOK env)"

lemma expected_mode_iff: "pr = ProtoHTTPS \<or> pr = ProtoHTTP \<Longrightarrow> m = expected_mode pr \<longleftrightarrow> mode_proto m = pr"
  by (cases m) (auto simp: expected_mode_def mode_proto_def)

lemma router_registrations_conflict:
  assumes ok: "runtime_ok rt" and e: "gm_get (sr_listeners rt) p = Some e" "pe_router e = Some r"
  shows "(\<forall>(p', pr', d', _) \<in> set (registrations rt). p' = p \<longrightarrow> pr' = pr \<and> d' \<noteq> d) \<longleftrightarrow>
    mode_proto (pr_mode r) = pr \<and> gm_get (pr_listeners r) d = None"
proof -
  have "router_used e" using ok e by (auto simp: runtime_ok_but_def)
  then obtain a where "a \<in> set (pr_listeners r)" using e(2) by (cases "pr_listeners r") (auto simp: router_used_def)
  then have "gm_get (pr_listeners r) (fst a) \<noteq> None" by (auto simp: gm_get_None_iff)
  then obtain d0 l0 where "gm_get (pr_listeners r) d0 = Some l0" by blast
  then show ?thesis
    using registrations_of_router [OF ok e] by (auto simp: split_beta) (metis fst_conv snd_conv option.exhaust)+
qed

lemma acquirable_direct:
  assumes "(p, pr', d', l) \<in> set leases" "pr' \<noteq> ProtoHTTPS" "pr' \<noteq> ProtoHTTP"
  shows "\<not> acquirable env leases d p pr"
proof
  assume a: "acquirable env leases d p pr"
  have "\<exists>x \<in> set leases. fst x = p" using assms(1) by force
  with a have "(pr = ProtoHTTPS \<or> pr = ProtoHTTP) \<and> (\<forall>(p', pr', d', _) \<in> set leases. p' = p \<longrightarrow> pr' = pr \<and> d' \<noteq> d)"
    by (simp add: acquirable_def)
  with assms show False by blast
qed

lemma registerRoute_succeeds_iff:
  assumes ok: "runtime_ok rt"
  shows "(\<exists>l. fst (registerRoute env d p pr rt h) = Inr l) \<longleftrightarrow> acquirable env (registrations rt) d p pr"
proof (cases "gm_get (sr_listeners rt) p")
  case None
  show ?thesis
  proof (cases "gm_get (sr_packetRoutes rt) p")
    case (Some pc)
    have "(p, ProtoUDP, [], pc) \<in> set (registrations rt)"
      using map_of_SomeD [OF Some] by (force simp: registrations_def packet_reg_def)
    then have "\<not> acquirable env (registrations rt) d p pr" by (rule acquirable_direct) simp_all
    with None Some show ?thesis by (auto simp: registerRoute_def)
  next
    case pNone: None
    with None registrations_port [OF ok, of p] show ?thesis
      by (auto simp: registerRoute_def acquirable_def register_on_def Register_def NewPortRouter_def split_beta Let_def)
  qed
next
  case (Some e)
  then have x: "\<exists>x \<in> set (registrations rt). fst x = p" using registrations_port [OF ok, of p] by simp
  show ?thesis
  proof (cases "pe_router e")
    case None
    have "(p, ProtoTCP, pe_owner e, pe_listener e) \<in> set (registrations rt)"
      using map_of_SomeD [OF Some] None by (force simp: registrations_def entry_regs_def)
    then have "\<not> acquirable env (registrations rt) d p pr" by (rule acquirable_direct) simp_all
    with None Some show ?thesis by (auto simp: registerRoute_def register_on_def)
  next
    case r: (Some r)
    have "acquirable env (registrations rt) d p pr \<longleftrightarrow>
      (pr = ProtoHTTPS \<or> pr = ProtoHTTP) \<and> mode_proto (pr_mode r) = pr \<and> gm_get (pr_listeners r) d = None"
      using x router_registrations_conflict [OF ok Some r, of pr d] by (simp add: acquirable_def)
    with Some r expected_mode_iff [of pr "pr_mode r"] show ?thesis
      by (auto simp: registerRoute_def register_on_def Register_def split_beta Let_def)
  qed
qed

lemma acquirable_cong: "set a = set b \<Longrightarrow> acquirable env a d p pr = acquirable env b d p pr"
  by (simp add: acquirable_def)

definition server_up :: "shared_loop \<Rightarrow> bool" where
  "server_up s = (case sl_rt s of None \<Rightarrow> False | Some rt \<Rightarrow> sr_tsServer rt \<noteq> None)"

lemma ensureRunning_succeeds_iff:
  assumes "loop_ok s L"
  shows "(\<exists>rt. fst (ensureRunning env s) = Inr rt) \<longleftrightarrow> server_up s \<or> se_startOK env"
  using assms
  by (auto simp: ensureRunning_def server_up_def startRuntimeWithLifecycle_def loop_ok_def runtime_ok_but_def registrations_def
      split: sharedState.splits option.splits prod.splits if_splits)

lemma Acquire_unfold:
  "\<not> sl_exited s \<Longrightarrow>
     (\<exists>l. fst (Acquire env d p pr s) = Inr l) \<longleftrightarrow>
     (\<exists>rt s'. ensureRunning env (s\<lparr>sl_idleTimer := None\<rparr>) = (Inr rt, s') \<and> (\<exists>l. fst (registerRoute env d p pr rt (sl_handles s')) = Inr l))"
  by (auto simp: Acquire_def SendAndWait_def loop_turn_def handleAcquire_def split: prod.splits sum.splits)

section \<open>A run\<close>

definition env_ok :: shared_env where "env_ok = \<lparr>se_startOK = True, se_listenOK = True\<rparr>"

definition run_one :: shared_world where
  "run_one = \<lparr>sw_loop = snd (loop_turn env_ok (acquireCmd ''a.ts'' 443 ''https'') NewSharedServer),
     sw_leases = [(443, ''https'', ''a.ts'', 2)]\<rparr>"

lemma run_one_reach: "reach shared_init shared_step run_one"
proof -
  let ?w = "\<lparr>sw_loop = NewSharedServer, sw_leases = []\<rparr>"
  have "fst (loop_turn env_ok (acquireCmd ''a.ts'' 443 ''https'') NewSharedServer) = ReplyAcquire (Inr 2)" by code_simp
  then have "loop_turn env_ok (acquireCmd ''a.ts'' 443 ''https'') (sw_loop ?w) = (ReplyAcquire (Inr 2), sw_loop run_one)"
    by (simp add: run_one_def prod_eq_iff)
  from ShAcquire [OF _ this] have "shared_step ?w run_one" by (simp add: NewSharedServer_def run_one_def)
  moreover have "reach shared_init shared_step ?w" by (rule reach_init) simp
  ultimately show ?thesis by (blast intro: reach_step)
qed

lemma run_one_loop: "\<not> sl_exited (sw_loop run_one)" "hs_open (sl_handles (sw_loop run_one)) = [2, 1, 0]"
  by code_simp+

section \<open>Properties\<close>

text \<open>
  C2: in every run of the shared server, the listener of each registration a client holds is open
  until the client releases it, no two clients hold the same listener, the server runs
  exactly while there are registrations, and nothing is open that the table does not account
  for; once the server has been closed, nothing at all is open.
\<close>

theorem shared_leases_open:
  assumes "reach shared_init shared_step w"
  shows "if sl_exited (sw_loop w) then hs_open (sl_handles (sw_loop w)) = []
    else (\<forall>x \<in> set (sw_leases w). reg_handle x \<in> set (hs_open (sl_handles (sw_loop w)))) \<and>
      distinct (map reg_handle (sw_leases w)) \<and>
      (sl_state (sw_loop w) = sharedRunning \<longleftrightarrow> sw_leases w \<noteq> []) \<and>
      set (hs_open (sl_handles (sw_loop w))) = (case sl_rt (sw_loop w) of None \<Rightarrow> {} | Some rt \<Rightarrow> set (runtime_handles rt))"
proof (cases "sl_exited (sw_loop w)")
  case True
  with shared.reach_inv [OF assms] show ?thesis by (simp add: shared_inv_def)
next
  case False
  then have ok: "loop_ok (sw_loop w) (mset (sw_leases w))" using shared.reach_inv [OF assms] by (simp add: shared_inv_def)
  show ?thesis
  proof (cases "sl_rt (sw_loop w)")
    case None
    with ok False show ?thesis by (simp add: loop_ok_def)
  next
    case (Some rt)
    with ok have o: "owns rt (sl_handles (sw_loop w))" "mset (sw_leases w) = mset (registrations rt)"
      "sl_state (sw_loop w) = (if sw_leases w = [] then sharedIdle else sharedRunning)" by (simp_all add: loop_ok_def)
    have sub: "mset (map reg_handle (sw_leases w)) \<subseteq># mset (hs_open (sl_handles (sw_loop w)))"
      using registrations_handles [of rt] o(1,2) by (simp add: opened_def)
    have "distinct (hs_open (sl_handles (sw_loop w)))" using o(1) by (simp add: opened_def)
    with sub have "distinct (map reg_handle (sw_leases w))" by (rule distinct_submset)
    moreover have "set (hs_open (sl_handles (sw_loop w))) = set (runtime_handles rt)"
      using o(1) by (metis mset_eq_setD opened_def)
    moreover have "\<forall>x \<in> set (sw_leases w). reg_handle x \<in> set (hs_open (sl_handles (sw_loop w)))"
      using set_mset_mono [OF sub] by auto
    ultimately show ?thesis using False Some o(3) by simp
  qed
qed

theorem shared_leases_open_witness: "2 \<in> set (hs_open (sl_handles (sw_loop run_one)))"
proof -
  have "(443, ''https'', ''a.ts'', 2) \<in> set (sw_leases run_one)" by (simp add: run_one_def)
  then show ?thesis using shared_leases_open [OF run_one_reach] unfolding if_not_P [OF run_one_loop(1)] by fastforce
qed

text \<open>
  C10: the table of the shared server refines the list of registrations: in every reachable
  state a port is granted exactly when the node is up or starts, and either nobody has the
  port and it can be opened, or it is a web port of the same protocol without that domain.
\<close>

theorem shared_acquire_iff:
  assumes r: "reach shared_init shared_step w" and "\<not> sl_exited (sw_loop w)"
  shows "(\<exists>l. fst (Acquire env d p pr (sw_loop w)) = Inr l) \<longleftrightarrow>
    (server_up (sw_loop w) \<or> se_startOK env) \<and> acquirable env (sw_leases w) d p pr"
proof -
  let ?s = "sw_loop w\<lparr>sl_idleTimer := None\<rparr>"
  have ok: "loop_ok ?s (mset (sw_leases w))" using shared.reach_inv [OF r] assms(2) by (simp add: shared_inv_def)
  have up: "server_up ?s = server_up (sw_loop w)" by (simp add: server_up_def)
  have "(\<exists>l. fst (registerRoute env d p pr rt h) = Inr l) \<longleftrightarrow> acquirable env (sw_leases w) d p pr"
    if "ensureRunning env ?s = (Inr rt, s')" for rt s' h
    using ensureRunning_Inr [OF that ok] registerRoute_succeeds_iff [of rt env d p pr h]
      acquirable_cong [of "sw_leases w" "registrations rt"] by (metis mset_eq_setD)
  then show ?thesis
    using Acquire_unfold [OF assms(2), of env d p pr] ensureRunning_succeeds_iff [OF ok, of env] up
    by (cases "ensureRunning env ?s") auto
qed

theorem shared_acquire_iff_witness:
  "(\<exists>l. fst (Acquire env_ok ''b.ts'' 443 ''https'' (sw_loop run_one)) = Inr l) \<and>
   \<not> (\<exists>l. fst (Acquire env_ok ''b.ts'' 443 ''http'' (sw_loop run_one)) = Inr l) \<and>
   \<not> (\<exists>l. fst (Acquire env_ok ''a.ts'' 443 ''https'' (sw_loop run_one)) = Inr l)"
proof -
  have "server_up (sw_loop run_one)" by code_simp
  moreover have "acquirable env_ok (sw_leases run_one) ''b.ts'' 443 ''https''"
    "\<not> acquirable env_ok (sw_leases run_one) ''b.ts'' 443 ''http''"
    "\<not> acquirable env_ok (sw_leases run_one) ''a.ts'' 443 ''https''"
    by code_simp+
  ultimately show ?thesis using shared_acquire_iff [OF run_one_reach run_one_loop(1), of env_ok] by simp
qed

text \<open>
  The node outlives its last registration by the grace period: releasing the only
  registration keeps the node and arms the timer with its generation; a client that comes
  back before the timer fires gets the same node, even if no node could be started now;
  when the timer fires, everything is closed.
\<close>

theorem shared_idle_grace:
  assumes r: "reach shared_init shared_step w" and ex: "\<not> sl_exited (sw_loop w)"
    and l: "sw_leases w = [(p, pr, d, l)]" and np: "pr \<noteq> ProtoUDP"
  shows "\<exists>rt rt' srv. let s = Release d p pr (sw_loop w) in
    sl_rt (sw_loop w) = Some rt \<and> sr_tsServer rt = Some srv \<and>
    sl_state s = sharedIdle \<and> sl_rt s = Some rt' \<and> sr_tsServer rt' = Some srv \<and> sl_idleTimer s = Some (sr_gen rt') \<and>
    (\<exists>l'. fst (Acquire \<lparr>se_startOK = False, se_listenOK = True\<rparr> d p pr s) = Inr l') \<and>
    (let t = snd (loop_turn env (idleTimeoutCmd (sr_gen rt')) s) in sl_rt t = None \<and> hs_open (sl_handles t) = [])"
proof -
  let ?s = "sw_loop w\<lparr>sl_idleTimer := None\<rparr>" and ?L = "{#(p, pr, d, l)#}"
  have ok: "loop_ok ?s ?L" using shared.reach_inv [OF r] ex l by (simp add: shared_inv_def)
  then obtain rt where rt: "sl_rt ?s = Some rt" "runtime_ok rt" "owns rt (sl_handles ?s)" "?L = mset (registrations rt)" "sl_state ?s = sharedRunning"
    using loop_ok_lease [OF ok, of "(p, pr, d, l)"] by auto
  obtain rt' h where un: "unregisterRoute d p pr rt (sl_handles ?s) = (rt', h)" by force
  have mem: "(p, pr, d, l) \<in> set (registrations rt)" using rt(4) by (metis insertI1 set_mset_add_mset_insert set_mset_mset)
  from unregisterRoute_effect [OF un rt(2,3) mem np] rt(4)
  have eff: "runtime_ok rt'" "owns rt' h" "registrations rt' = []" "sr_tsServer rt' = sr_tsServer rt" by auto
  obtain srv where srv: "sr_tsServer rt = Some srv"
    using rt(2) mem by (cases "sr_tsServer rt") (auto simp: runtime_ok_but_def registrations_def)
  let ?t = "?s\<lparr>sl_rt := Some rt', sl_handles := h, sl_state := sharedIdle, sl_idleTimer := Some (sr_gen rt')\<rparr>"
  have s: "Release d p pr (sw_loop w) = ?t"
    using rt un ex eff runtime_count [of rt']
    by (simp add: Release_def SendAndWait_def loop_turn_def handleRelease_def released_def scheduleIdleTimeout_def)
  have pr: "pr \<in> {ProtoHTTPS, ProtoHTTP, ProtoTCP}"
    using registrations_in [OF rt(2) mem] np mode_proto_web by auto
  let ?env = "\<lparr>se_startOK = False, se_listenOK = True\<rparr>"
  have "acquirable ?env (registrations rt') d p pr" using eff(3) pr by (simp add: acquirable_def)
  then have "\<exists>l'. fst (Acquire ?env d p pr ?t) = Inr l'"
    using registerRoute_succeeds_iff [OF eff(1), of ?env d p pr h] ex srv eff(4)
    by (subst Acquire_unfold) (simp_all add: ensureRunning_def)
  moreover have "let t = snd (loop_turn env (idleTimeoutCmd (sr_gen rt')) ?t) in sl_rt t = None \<and> hs_open (sl_handles t) = []"
    using stopRuntime_closes [OF eff(2)] by (simp add: loop_turn_def handleIdleTimeout_def)
  ultimately show ?thesis using rt(1) srv eff(4) by (intro exI [of _ rt] exI [of _ rt'] exI [of _ srv]) (simp add: s Let_def)
qed

theorem shared_idle_grace_witness:
  "sl_state (Release ''a.ts'' 443 ''https'' (sw_loop run_one)) = sharedIdle \<and>
   (\<exists>l'. fst (Acquire \<lparr>se_startOK = False, se_listenOK = True\<rparr> ''a.ts'' 443 ''https'' (Release ''a.ts'' 443 ''https'' (sw_loop run_one))) = Inr l')"
proof -
  have "sw_leases run_one = [(443, ''https'', ''a.ts'', 2)]" by (simp add: run_one_def)
  from shared_idle_grace [OF run_one_reach run_one_loop(1) this, of env_ok] show ?thesis by (auto simp: Let_def)
qed

text \<open>
  The generation check does not protect a runtime that only collects subscribers: it has
  generation 0, so an update of the first node that is still queued when that node has been
  stopped is taken for one of its own.
\<close>

definition stale_run :: shared_loop where
  "stale_run =
     snd (loop_turn env_ok (watchUpdateCmd ''old.ts.net'' [] \<lparr>ev_ID = [], ev_Port = [], ev_AuthURL = [], ev_ErrorMessage = [],
            ev_Status = ProxyStatusRunning, ev_OldStatus = ProxyStatusInitializing\<rparr> 0)
       (snd (loop_turn env_ok subscribeCmd
         (snd (loop_turn env_ok (idleTimeoutCmd 0) (Release ''a.ts'' 443 ''https'' (sw_loop run_one)))))))"

lemma stale_update_accepted:
  "\<not> server_up stale_run \<and> handleGetURL stale_run = ReplyString ''old.ts.net''"
  by code_simp

text \<open>A timeout of an older generation does not stop the runtime, but it does disarm its timer.\<close>

lemma stale_timeout_disarms:
  assumes "sl_rt s = Some rt" "g \<noteq> sr_gen rt"
  shows "snd (loop_turn env (idleTimeoutCmd g) s) = s\<lparr>sl_idleTimer := None\<rparr>"
  using assms by (simp add: loop_turn_def handleIdleTimeout_def)

end
