(* ===== verification/Exposure.thy ===== *)
theory Exposure
  imports Shared_Server
begin

text \<open>
  \<^verbatim>\<open>src/internal/proxyproviders/tailscale/exposure.go\<close> and \<^verbatim>\<open>shared_proxy.go\<close>: how a proxy gets the
  listeners of its ports, either directly from its own Tailscale node or from the shared
  server. A start that fails part of the way must give back what it has taken.

  The order in which Go iterates over the ports of a configuration is not fixed, so the
  loops take the list of ports in the order of that iteration.
\<close>

datatype exposure_error =
    NotStarted
  | ProxyPortNotFound string
  | ListenError string string
  | SharedError shared_error
  | CtxErr

definition exposureLookup :: "bool \<Rightarrow> (string, 'a) gomap \<Rightarrow> string \<Rightarrow> exposure_error + 'a" where
  "exposureLookup started m portName =
     (if \<not> started then Inl NotStarted
      else case gm_get m portName of None \<Rightarrow> Inl (ProxyPortNotFound portName) | Some v \<Rightarrow> Inr v)"

section \<open>A node of its own\<close>

text \<open>\<open>pp_runtime\<close> only says whether the runtime is set; the node is in the environment.\<close>

record PerProxyExposure =
  px_listeners :: "(string, nat) gomap"
  px_rawListeners :: "(string, nat) gomap"
  px_packetConns :: "(string, nat) gomap"
  px_runtime :: bool
  px_started :: bool

definition NewPerProxyExposure :: PerProxyExposure where
  "NewPerProxyExposure = \<lparr>px_listeners = [], px_rawListeners = [], px_packetConns = [], px_runtime = False, px_started = False\<rparr>"

text \<open>
  \<^verbatim>\<open>waitForTailscaleIP\<close> polls the node every half second for at most 30 seconds; each element
  of \<open>polls\<close> is whether the address is valid then, and the list ends when the context does.
\<close>

definition maxIPPolls :: nat where "maxIPPolls = 61"

fun waitForTailscaleIP :: "nat \<Rightarrow> bool list \<Rightarrow> bool" where
  "waitForTailscaleIP 0 polls = False"
| "waitForTailscaleIP (Suc n) [] = False"
| "waitForTailscaleIP (Suc n) (valid # polls) = (valid \<or> waitForTailscaleIP n polls)"

text \<open>The calls to the node, and what it answers: which calls succeed, its address, the address polls.\<close>

datatype listen_call = ListenFunnel string | ListenTLS string | Listen string | ListenPacket string

record listen_env =
  le_ok :: "listen_call \<Rightarrow> bool"
  le_ip :: string
  le_polls :: "bool list"

definition listen :: "listen_env \<Rightarrow> listen_call \<Rightarrow> handles \<Rightarrow> nat option \<times> handles" where
  "listen env call h = (if le_ok env call then apfst Some (h_open h) else (None, h))"

definition createHTTPSListener :: "listen_env \<Rightarrow> PortConfig \<Rightarrow> handles \<Rightarrow> nat option \<times> handles" where
  "createHTTPSListener env cfg h =
     (let addr = CHR '':'' # itoa (pc_ProxyPort cfg)
      in if tp_Funnel (pc_Tailscale cfg) then listen env (ListenFunnel addr) h else listen env (ListenTLS addr) h)"

definition createPlainListener :: "listen_env \<Rightarrow> PortConfig \<Rightarrow> handles \<Rightarrow> nat option \<times> handles" where
  "createPlainListener env cfg h = listen env (Listen (CHR '':'' # itoa (pc_ProxyPort cfg))) h"

definition createUDPConn :: "listen_env \<Rightarrow> PortConfig \<Rightarrow> handles \<Rightarrow> nat option \<times> handles" where
  "createUDPConn env cfg h =
     (if waitForTailscaleIP maxIPPolls (le_polls env)
      then listen env (ListenPacket (le_ip env @ CHR '':'' # itoa (pc_ProxyPort cfg))) h else (None, h))"

definition closeAll :: "PerProxyExposure \<Rightarrow> handles \<Rightarrow> PerProxyExposure \<times> handles" where
  "closeAll e h =
     (e\<lparr>px_listeners := [], px_rawListeners := [], px_packetConns := []\<rparr>,
      h_close_all (map snd (px_packetConns e)) (h_close_all (map snd (px_rawListeners e)) (h_close_all (map snd (px_listeners e)) h)))"

text \<open>One turn of the loop of \<^verbatim>\<open>Start\<close>; an unknown protocol is skipped.\<close>

definition create_listener :: "listen_env \<Rightarrow> PortConfig \<Rightarrow> handles \<Rightarrow> nat option \<times> handles" where
  "create_listener env cfg h =
     (if pc_ProxyProtocol cfg = ProtoHTTPS then createHTTPSListener env cfg h
      else if pc_ProxyProtocol cfg = ProtoUDP then createUDPConn env cfg h else createPlainListener env cfg h)"

definition start_port :: "(string \<Rightarrow> listen_env) \<Rightarrow> string \<times> PortConfig \<Rightarrow> PerProxyExposure \<Rightarrow> handles \<Rightarrow> exposure_error option \<times> PerProxyExposure \<times> handles" where
  "start_port env port e h =
     (let (name, cfg) = port; proto = pc_ProxyProtocol cfg
      in if proto = ProtoHTTPS \<or> proto = ProtoHTTP then
           (case create_listener (env name) cfg h of
              (None, h') \<Rightarrow> (Some (ListenError proto name), closeAll e h')
            | (Some l, h') \<Rightarrow> (None, e\<lparr>px_listeners := gm_put name l (px_listeners e)\<rparr>, h'))
         else if proto = ProtoTCP then
           (case create_listener (env name) cfg h of
              (None, h') \<Rightarrow> (Some (ListenError proto name), closeAll e h')
            | (Some l, h') \<Rightarrow> (None, e\<lparr>px_rawListeners := gm_put name l (px_rawListeners e)\<rparr>, h'))
         else if proto = ProtoUDP then
           (case create_listener (env name) cfg h of
              (None, h') \<Rightarrow> (Some (ListenError proto name), closeAll e h')
            | (Some l, h') \<Rightarrow> (None, e\<lparr>px_packetConns := gm_put name l (px_packetConns e)\<rparr>, h'))
         else (None, e, h))"

fun start_ports :: "(string \<Rightarrow> listen_env) \<Rightarrow> PortConfigList \<Rightarrow> PerProxyExposure \<Rightarrow> handles \<Rightarrow> exposure_error option \<times> PerProxyExposure \<times> handles" where
  "start_ports env [] e h = (None, e, h)"
| "start_ports env (p # ps) e h =
     (case start_port env p e h of
        (Some err, e', h') \<Rightarrow> (Some err, e', h')
      | (None, e', h') \<Rightarrow> start_ports env ps e' h')"

definition PerProxy_Start :: "(string \<Rightarrow> listen_env) \<Rightarrow> PortConfigList \<Rightarrow> PerProxyExposure \<Rightarrow> handles \<Rightarrow> exposure_error option \<times> PerProxyExposure \<times> handles" where
  "PerProxy_Start env ports e h =
     (if px_started e then (None, e, h)
      else case start_ports env ports (e\<lparr>px_runtime := True, px_listeners := [], px_rawListeners := [], px_packetConns := []\<rparr>) h of
             (Some err, e', h') \<Rightarrow> (Some err, e', h')
           | (None, e', h') \<Rightarrow> (None, e'\<lparr>px_started := True\<rparr>, h'))"

definition PerProxy_Close :: "PerProxyExposure \<Rightarrow> handles \<Rightarrow> PerProxyExposure \<times> handles" where
  "PerProxy_Close e h =
     (if \<not> px_started e then (e, h)
      else let (e', h') = closeAll e h in (e'\<lparr>px_runtime := False, px_started := False\<rparr>, h'))"

definition PerProxy_GetListener :: "string \<Rightarrow> PerProxyExposure \<Rightarrow> exposure_error + nat" where
  "PerProxy_GetListener name e = exposureLookup (px_started e) (px_listeners e) name"

definition PerProxy_GetRawTCPListener :: "string \<Rightarrow> PerProxyExposure \<Rightarrow> exposure_error + nat" where
  "PerProxy_GetRawTCPListener name e = exposureLookup (px_started e) (px_rawListeners e) name"

definition PerProxy_GetPacketConn :: "string \<Rightarrow> PerProxyExposure \<Rightarrow> exposure_error + nat" where
  "PerProxy_GetPacketConn name e = exposureLookup (px_started e) (px_packetConns e) name"

subsection \<open>Its handles\<close>

definition exposure_handles :: "PerProxyExposure \<Rightarrow> nat list" where
  "exposure_handles e = map snd (px_listeners e) @ map snd (px_rawListeners e) @ map snd (px_packetConns e)"

definition names :: "PerProxyExposure \<Rightarrow> string set" where
  "names e = set (keys (px_listeners e)) \<union> set (keys (px_rawListeners e)) \<union> set (keys (px_packetConns e))"

text \<open>The exposure holds its handles on top of those that were open before (\<open>M\<close>).\<close>

abbreviation holds_over :: "nat multiset \<Rightarrow> PerProxyExposure \<Rightarrow> handles \<Rightarrow> bool" where
  "holds_over M e h \<equiv> opened (M + mset (exposure_handles e)) h"

lemma opened_close_all: "opened (mset xs + M) h \<Longrightarrow> opened M (h_close_all xs h)"
  by (induction xs arbitrary: h) (auto intro: opened_close)

lemma closeAll_opened:
  assumes "holds_over M e h" "closeAll e h = (e', h')"
  shows "opened M h' \<and> exposure_handles e' = [] \<and> names e' = {} \<and> px_started e' = px_started e"
proof -
  have "opened (mset (map snd (px_listeners e)) + (mset (map snd (px_rawListeners e)) + (mset (map snd (px_packetConns e)) + M))) h"
    using assms(1) by (simp add: exposure_handles_def ac_simps)
  then have "opened M h'" using assms(2) by (auto simp: closeAll_def intro!: opened_close_all)
  with assms(2) show ?thesis by (auto simp: closeAll_def exposure_handles_def names_def)
qed

text \<open>A started port is served from the map of its protocol.\<close>

definition served :: "string \<times> PortConfig \<Rightarrow> PerProxyExposure \<Rightarrow> handles \<Rightarrow> bool" where
  "served port e h =
     (let proto = pc_ProxyProtocol (snd port); get = (\<lambda>m. case gm_get m (fst port) of None \<Rightarrow> False | Some l \<Rightarrow> l \<in> set (hs_open h))
      in if proto = ProtoHTTPS \<or> proto = ProtoHTTP then get (px_listeners e)
         else if proto = ProtoTCP then get (px_rawListeners e)
         else if proto = ProtoUDP then get (px_packetConns e) else True)"

lemma create_listener_cases:
  "create_listener env cfg h = (None, h) \<or> create_listener env cfg h = apfst Some (h_open h)"
  by (simp add: create_listener_def createHTTPSListener_def createUDPConn_def createPlainListener_def listen_def Let_def)

lemma start_port_Some:
  assumes "start_port env p e h = (Some err, e', h')" "holds_over M e h"
  shows "opened M h' \<and> exposure_handles e' = [] \<and> px_started e' = px_started e"
proof -
  have "closeAll e h = (e', h')"
    using assms(1) create_listener_cases [of "env (fst p)" "snd p" h]
    by (auto simp: start_port_def split_beta Let_def split: if_splits option.splits)
  with closeAll_opened [OF assms(2)] show ?thesis by blast
qed

lemma start_port_None:
  assumes st: "start_port env p e h = (None, e', h')" and own: "holds_over M e h" and new: "fst p \<notin> names e"
  shows "holds_over M e' h' \<and> names e' \<subseteq> insert (fst p) (names e) \<and> px_started e' = px_started e \<and> served p e' h' \<and>
    (\<forall>q. fst q \<noteq> fst p \<longrightarrow> served q e h \<longrightarrow> served q e' h')"
proof (cases "pc_ProxyProtocol (snd p) \<in> {ProtoHTTPS, ProtoHTTP, ProtoTCP, ProtoUDP}")
  case False
  with st own show ?thesis by (auto simp: start_port_def served_def split_beta Let_def)
next
  case True
  obtain l where op: "h_open h = (l, h')"
    and e': "e' = (if pc_ProxyProtocol (snd p) = ProtoTCP then e\<lparr>px_rawListeners := gm_put (fst p) l (px_rawListeners e)\<rparr>
      else if pc_ProxyProtocol (snd p) = ProtoUDP then e\<lparr>px_packetConns := gm_put (fst p) l (px_packetConns e)\<rparr>
      else e\<lparr>px_listeners := gm_put (fst p) l (px_listeners e)\<rparr>)"
    using st True create_listener_cases [of "env (fst p)" "snd p" h]
    by (cases "h_open h") (auto simp: start_port_def split_beta Let_def split: if_splits option.splits)
  have n: "gm_get (px_listeners e) (fst p) = None" "gm_get (px_rawListeners e) (fst p) = None" "gm_get (px_packetConns e) (fst p) = None"
    using new by (auto simp: names_def gm_get_None_iff)
  have o: "hs_open h' = l # hs_open h" using op by (auto simp: h_open_def)
  have "mset (exposure_handles e') = add_mset l (mset (exposure_handles e))"
    using mset_map_put_new [OF n(1), of snd l] mset_map_put_new [OF n(2), of snd l] mset_map_put_new [OF n(3), of snd l]
    by (simp add: e' exposure_handles_def)
  then have "holds_over M e' h'" using opened_open [OF own op] by simp
  moreover have "names e' \<subseteq> insert (fst p) (names e)" by (auto simp: e' names_def dest!: gm_put_set)
  moreover have "served p e' h'" using True by (auto simp: e' o served_def Let_def)
  moreover have "served q e' h'" if "fst q \<noteq> fst p" "served q e h" for q
    using that by (auto simp: e' o served_def Let_def split: option.splits if_splits)
  ultimately show ?thesis by (auto simp: e')
qed

lemma start_ports_outcome:
  assumes "start_ports env ps e h = (r, e', h')" "holds_over M e h" "distinct (keys ps)" "set (keys ps) \<inter> names e = {}"
  shows "px_started e' = px_started e \<and>
    (case r of
       Some err \<Rightarrow> opened M h' \<and> exposure_handles e' = []
     | None \<Rightarrow> holds_over M e' h' \<and> (\<forall>p \<in> set ps. served p e' h') \<and>
         (\<forall>q. fst q \<notin> set (keys ps) \<longrightarrow> served q e h \<longrightarrow> served q e' h'))"
  using assms
proof (induction ps arbitrary: e h)
  case Nil
  then show ?case by auto
next
  case (Cons p ps)
  obtain r1 e1 h1 where st: "start_port env p e h = (r1, e1, h1)" by (metis prod_cases3)
  show ?case
  proof (cases r1)
    case (Some err)
    with start_port_Some [of env p e h err e1 h1 M] st Cons.prems show ?thesis by auto
  next
    case None
    from start_port_None [of env p e h e1 h1 M] st None Cons.prems
    have one: "holds_over M e1 h1" "names e1 \<subseteq> insert (fst p) (names e)" "px_started e1 = px_started e" "served p e1 h1"
      "\<And>q. fst q \<noteq> fst p \<Longrightarrow> served q e h \<Longrightarrow> served q e1 h1" by auto
    have "start_ports env ps e1 h1 = (r, e', h')" using Cons.prems(1) st None by simp
    moreover have d: "distinct (keys ps)" "fst p \<notin> set (keys ps)" using Cons.prems(3) by auto
    moreover have "set (keys ps) \<inter> names e1 = {}" using Cons.prems(4) one(2) d(2) by (simp del: set_map) blast
    ultimately have ih: "px_started e' = px_started e1 \<and>
      (case r of
         Some err \<Rightarrow> opened M h' \<and> exposure_handles e' = []
       | None \<Rightarrow> holds_over M e' h' \<and> (\<forall>p \<in> set ps. served p e' h') \<and>
           (\<forall>q. fst q \<notin> set (keys ps) \<longrightarrow> served q e1 h1 \<longrightarrow> served q e' h'))" using Cons.IH one(1) by blast
    show ?thesis
    proof (cases r)
      case None
      then have "served p e' h'" using ih one(4) d(2) by (cases p) simp
      with None ih one(3,5) show ?thesis by simp
    qed (use ih one(3) in simp)
  qed
qed

section \<open>The shared node\<close>

record SharedSNIExposure =
  sx_cfg :: "PortConfigList option"
  sx_vListeners :: "(string, nat) gomap"
  sx_directListeners :: "(string, nat) gomap"
  sx_packetConns :: "(string, nat) gomap"
  sx_tlsListeners :: "(string, nat) gomap"
  sx_domain :: string
  sx_cachedCert :: "(string \<times> int) option"
  sx_started :: bool

definition NewSharedSNIExposure :: "string \<Rightarrow> SharedSNIExposure" where
  "NewSharedSNIExposure domain =
     \<lparr>sx_cfg = None, sx_vListeners = [], sx_directListeners = [], sx_packetConns = [], sx_tlsListeners = [],
      sx_domain = domain, sx_cachedCert = None, sx_started = False\<rparr>"

definition acquirePort :: "shared_env \<Rightarrow> string \<times> PortConfig \<Rightarrow> SharedSNIExposure \<Rightarrow> shared_loop \<Rightarrow>
    exposure_error option \<times> SharedSNIExposure \<times> shared_loop" where
  "acquirePort env port e s =
     (let (name, cfg) = port; proto = pc_ProxyProtocol cfg
      in if proto = ProtoHTTPS then
           (case Acquire env (sx_domain e) (pc_ProxyPort cfg) proto s of
              (Inl err, s') \<Rightarrow> (Some (SharedError err), e, s')
            | (Inr vl, s') \<Rightarrow> (None, e\<lparr>sx_vListeners := gm_put name vl (sx_vListeners e),
                                       sx_tlsListeners := gm_put name vl (sx_tlsListeners e)\<rparr>, s'))
         else if proto = ProtoHTTP then
           (case Acquire env (sx_domain e) (pc_ProxyPort cfg) proto s of
              (Inl err, s') \<Rightarrow> (Some (SharedError err), e, s')
            | (Inr vl, s') \<Rightarrow> (None, e\<lparr>sx_vListeners := gm_put name vl (sx_vListeners e)\<rparr>, s'))
         else if proto = ProtoTCP then
           (case Acquire env (sx_domain e) (pc_ProxyPort cfg) proto s of
              (Inl err, s') \<Rightarrow> (Some (SharedError err), e, s')
            | (Inr l, s') \<Rightarrow> (None, e\<lparr>sx_directListeners := gm_put name l (sx_directListeners e)\<rparr>, s'))
         else if proto = ProtoUDP then
           (case AcquirePacket env (sx_domain e) (pc_ProxyPort cfg) s of
              (Inl err, s') \<Rightarrow> (Some (SharedError err), e, s')
            | (Inr pc, s') \<Rightarrow> (None, e\<lparr>sx_packetConns := gm_put name pc (sx_packetConns e)\<rparr>, s'))
         else (None, e, s))"

text \<open>One turn of the loop of \<^verbatim>\<open>rollbackAcquired\<close>.\<close>

definition rollback_port :: "string \<times> PortConfig \<Rightarrow> SharedSNIExposure \<times> shared_loop \<Rightarrow> SharedSNIExposure \<times> shared_loop" where
  "rollback_port port es =
     (let (name, cfg) = port; (e, s) = es;
          (e, s) = (if gm_get (sx_vListeners e) name \<noteq> None
                    then (e\<lparr>sx_vListeners := gm_del name (sx_vListeners e)\<rparr>, Release (sx_domain e) (pc_ProxyPort cfg) (pc_ProxyProtocol cfg) s)
                    else (e, s));
          (e, s) = (if gm_get (sx_directListeners e) name \<noteq> None
                    then (e\<lparr>sx_directListeners := gm_del name (sx_directListeners e)\<rparr>, Release (sx_domain e) (pc_ProxyPort cfg) (pc_ProxyProtocol cfg) s)
                    else (e, s))
      in if gm_get (sx_packetConns e) name \<noteq> None
         then (e\<lparr>sx_packetConns := gm_del name (sx_packetConns e)\<rparr>, ReleasePacket (sx_domain e) (pc_ProxyPort cfg) s)
         else (e, s))"

text \<open>\<open>order\<close> is the order in which the loop visits the ports of the configuration.\<close>

definition rollbackAcquired :: "PortConfigList \<Rightarrow> SharedSNIExposure \<Rightarrow> shared_loop \<Rightarrow> SharedSNIExposure \<times> shared_loop" where
  "rollbackAcquired order e s =
     (case sx_cfg e of
        None \<Rightarrow> (e, s)
      | Some _ \<Rightarrow>
          let (e, s) = fold rollback_port order (e, s)
          in (e\<lparr>sx_vListeners := [], sx_directListeners := [], sx_packetConns := [], sx_cfg := None\<rparr>, s))"

text \<open>
  The loop of \<^verbatim>\<open>Start\<close>: \<open>cancelled\<close> says at which ports the context is found cancelled, \<open>env\<close> is
  what the shared server meets at each port.
\<close>

fun acquire_ports :: "(string \<Rightarrow> bool) \<Rightarrow> (string \<Rightarrow> shared_env) \<Rightarrow> PortConfigList \<Rightarrow> PortConfigList \<Rightarrow> SharedSNIExposure \<Rightarrow> shared_loop \<Rightarrow>
    exposure_error option \<times> SharedSNIExposure \<times> shared_loop" where
  "acquire_ports cancelled env order [] e s = (None, e, s)"
| "acquire_ports cancelled env order (p # ps) e s =
     (if cancelled (fst p) then (Some CtxErr, rollbackAcquired order e s)
      else case acquirePort (env (fst p)) p e s of
             (Some err, e', s') \<Rightarrow> (Some err, rollbackAcquired order e' s')
           | (None, e', s') \<Rightarrow> acquire_ports cancelled env order ps e' s')"

definition SharedSNI_Start :: "(string \<Rightarrow> bool) \<Rightarrow> (string \<Rightarrow> shared_env) \<Rightarrow> PortConfigList \<Rightarrow> PortConfigList \<Rightarrow> SharedSNIExposure \<Rightarrow> shared_loop \<Rightarrow>
    exposure_error option \<times> SharedSNIExposure \<times> shared_loop" where
  "SharedSNI_Start cancelled env order ports e s =
     (if sx_started e then (None, e, s)
      else case acquire_ports cancelled env order ports
                  (e\<lparr>sx_cfg := Some ports, sx_vListeners := [], sx_directListeners := [], sx_tlsListeners := []\<rparr>) s of
             (Some err, e', s') \<Rightarrow> (Some err, e', s')
           | (None, e', s') \<Rightarrow> (None, e'\<lparr>sx_started := True\<rparr>, s'))"

definition SharedSNI_Close :: "PortConfigList \<Rightarrow> SharedSNIExposure \<Rightarrow> shared_loop \<Rightarrow> SharedSNIExposure \<times> shared_loop" where
  "SharedSNI_Close order e s =
     (if \<not> sx_started e then (e, s)
      else let (e', s') = rollbackAcquired order e s
           in (e'\<lparr>sx_cfg := None, sx_tlsListeners := [], sx_started := False, sx_cachedCert := None\<rparr>, s'))"

definition certCacheTTL :: int where "certCacheTTL = 300000000000"

text \<open>\<^verbatim>\<open>getCertificate\<close> at time \<open>now\<close>; \<open>fetch\<close> is what the Tailscale client returns, with the time after it.\<close>

definition getCertificate :: "int \<Rightarrow> (string + string) \<Rightarrow> int \<Rightarrow> SharedSNIExposure \<Rightarrow> (string + string) \<times> SharedSNIExposure" where
  "getCertificate now fetch later e =
     (case sx_cachedCert e of
        Some (cert, t) \<Rightarrow>
          if now - t < certCacheTTL then (Inr cert, e)
          else (case fetch of Inl err \<Rightarrow> (Inl err, e) | Inr c \<Rightarrow> (Inr c, e\<lparr>sx_cachedCert := Some (c, later)\<rparr>))
      | None \<Rightarrow> (case fetch of Inl err \<Rightarrow> (Inl err, e) | Inr c \<Rightarrow> (Inr c, e\<lparr>sx_cachedCert := Some (c, later)\<rparr>)))"

definition SharedSNI_GetListener :: "string \<Rightarrow> SharedSNIExposure \<Rightarrow> exposure_error + nat" where
  "SharedSNI_GetListener name e =
     (if \<not> sx_started e then Inl NotStarted
      else case Option.bind (sx_cfg e) (\<lambda>ports. gm_get ports name) of
             None \<Rightarrow> Inl (ProxyPortNotFound name)
           | Some cfg \<Rightarrow>
               if pc_ProxyProtocol cfg = ProtoHTTPS then exposureLookup (sx_started e) (sx_tlsListeners e) name
               else if pc_ProxyProtocol cfg = ProtoHTTP then exposureLookup (sx_started e) (sx_vListeners e) name
               else Inl (ProxyPortNotFound name))"

definition getRawTCPListener :: "string \<Rightarrow> SharedSNIExposure \<Rightarrow> exposure_error + nat" where
  "getRawTCPListener name e =
     (if \<not> sx_started e then Inl NotStarted
      else case gm_get (sx_directListeners e) name of
             Some l \<Rightarrow> Inr l
           | None \<Rightarrow> (case gm_get (sx_vListeners e) name of Some vl \<Rightarrow> Inr vl | None \<Rightarrow> Inl (ProxyPortNotFound name)))"

definition getPacketConn :: "string \<Rightarrow> SharedSNIExposure \<Rightarrow> exposure_error + nat" where
  "getPacketConn name e = exposureLookup (sx_started e) (sx_packetConns e) name"

subsection \<open>What it holds\<close>

definition held_of :: "SharedSNIExposure \<Rightarrow> string \<times> PortConfig \<Rightarrow> registration list" where
  "held_of e port =
     (let (name, cfg) = port; at = (\<lambda>m x. case gm_get m name of None \<Rightarrow> [] | Some l \<Rightarrow> [x l])
      in at (sx_vListeners e) (\<lambda>l. (pc_ProxyPort cfg, pc_ProxyProtocol cfg, sx_domain e, l)) @
         at (sx_directListeners e) (\<lambda>l. (pc_ProxyPort cfg, pc_ProxyProtocol cfg, sx_domain e, l)) @
         at (sx_packetConns e) (\<lambda>l. (pc_ProxyPort cfg, ProtoUDP, [], l)))"

abbreviation held :: "SharedSNIExposure \<Rightarrow> PortConfigList \<Rightarrow> registration list" where
  "held e ports \<equiv> concat (map (held_of e) ports)"

text \<open>Each port is in the map of its protocol.\<close>

definition typed :: "SharedSNIExposure \<Rightarrow> string \<times> PortConfig \<Rightarrow> bool" where
  "typed e port =
     (let (name, cfg) = port; proto = pc_ProxyProtocol cfg
      in (gm_get (sx_vListeners e) name \<noteq> None \<longrightarrow> proto = ProtoHTTPS \<or> proto = ProtoHTTP) \<and>
         (gm_get (sx_directListeners e) name \<noteq> None \<longrightarrow> proto = ProtoTCP) \<and>
         (gm_get (sx_packetConns e) name \<noteq> None \<longrightarrow> proto = ProtoUDP))"

text \<open>Two exposures that agree on a port name.\<close>

definition same_at :: "string \<Rightarrow> SharedSNIExposure \<Rightarrow> SharedSNIExposure \<Rightarrow> bool" where
  "same_at n e e' \<longleftrightarrow> gm_get (sx_vListeners e') n = gm_get (sx_vListeners e) n \<and>
     gm_get (sx_directListeners e') n = gm_get (sx_directListeners e) n \<and>
     gm_get (sx_packetConns e') n = gm_get (sx_packetConns e) n \<and> sx_domain e' = sx_domain e"

lemma same_at_held: "same_at n e e' \<Longrightarrow> held_of e' (n, c) = held_of e (n, c) \<and> typed e' (n, c) = typed e (n, c)"
  by (simp add: same_at_def held_of_def typed_def)

lemma held_cong: "(\<And>p. p \<in> set ports \<Longrightarrow> same_at (fst p) e e') \<Longrightarrow> held e' ports = held e ports"
  using same_at_held by (intro arg_cong [where f = concat] map_cong) (metis prod.collapse)+

subsection \<open>The calls as steps of the shared server\<close>

lemma loop_turn_exited: "cmd \<noteq> closeCmd \<Longrightarrow> sl_exited (snd (loop_turn env cmd s)) = sl_exited s"
  by (cases cmd)
    (auto simp: loop_turn_def handleAcquire_def handleAcquirePacket_def handleRelease_def handleReleasePacket_def released_def
      ensureRunning_def handleWatchUpdate_def handleCertDone_def handleSubscribe_def handleUnsubscribe_def handleIdleTimeout_def Let_def
      split: prod.splits sum.splits option.splits sharedState.splits if_splits)

lemma Acquire_step:
  assumes "Acquire env d p pr (sw_loop w) = (r, s')" "\<not> sl_exited (sw_loop w)"
  shows "shared_step w (w\<lparr>sw_loop := s', sw_leases := (case r of Inl _ \<Rightarrow> sw_leases w | Inr l \<Rightarrow> (p, pr, d, l) # sw_leases w)\<rparr>) \<and> \<not> sl_exited s'"
proof -
  obtain res where t: "loop_turn env (acquireCmd d p pr) (sw_loop w) = (ReplyAcquire res, s')" "res = r"
    using assms by (auto simp: Acquire_def SendAndWait_def loop_turn_def handleAcquire_def split: prod.splits sum.splits)
  with assms(2) ShAcquire [of w env d p pr _ s'] ShAcquireFails [of w env d p pr _ s'] loop_turn_exited [of "acquireCmd d p pr" env "sw_loop w"]
  show ?thesis by (cases r) auto
qed

lemma AcquirePacket_step:
  assumes "AcquirePacket env d p (sw_loop w) = (r, s')" "\<not> sl_exited (sw_loop w)"
  shows "shared_step w (w\<lparr>sw_loop := s', sw_leases := (case r of Inl _ \<Rightarrow> sw_leases w | Inr l \<Rightarrow> (p, ProtoUDP, [], l) # sw_leases w)\<rparr>) \<and> \<not> sl_exited s'"
proof -
  obtain res where t: "loop_turn env (acquirePacketCmd d p) (sw_loop w) = (ReplyPacket res, s')" "res = r"
    using assms by (auto simp: AcquirePacket_def SendAndWait_def loop_turn_def handleAcquirePacket_def split: prod.splits sum.splits)
  with assms(2) ShPacket [of w env d p _ s'] ShPacketFails [of w env d p _ s'] loop_turn_exited [of "acquirePacketCmd d p" env "sw_loop w"]
  show ?thesis by (cases r) auto
qed

lemma Release_step:
  assumes "(p, pr, d, l) \<in> set (sw_leases w)" "pr \<noteq> ProtoUDP" "\<not> sl_exited (sw_loop w)"
  shows "shared_step w (w\<lparr>sw_loop := Release d p pr (sw_loop w), sw_leases := remove1 (p, pr, d, l) (sw_leases w)\<rparr>) \<and>
    \<not> sl_exited (Release d p pr (sw_loop w))"
  using assms ShRelease [OF assms(3,1,2) surjective_pairing] loop_turn_exited [of "releaseCmd d p pr" _ "sw_loop w"]
  by (auto simp: Release_def SendAndWait_def)

lemma ReleasePacket_step:
  assumes "(p, ProtoUDP, [], l) \<in> set (sw_leases w)" "\<not> sl_exited (sw_loop w)"
  shows "shared_step w (w\<lparr>sw_loop := ReleasePacket d p (sw_loop w), sw_leases := remove1 (p, ProtoUDP, [], l) (sw_leases w)\<rparr>) \<and>
    \<not> sl_exited (ReleasePacket d p (sw_loop w))"
  using assms ShReleasePacket [OF assms(2,1) surjective_pairing] loop_turn_exited [of "releasePacketCmd d p" _ "sw_loop w"]
  by (auto simp: ReleasePacket_def SendAndWait_def)

text \<open>A run of the shared server from \<open>w\<close> to a state whose loop is \<open>s\<close> and whose registrations are \<open>L\<close>.\<close>

definition runs_to :: "shared_world \<Rightarrow> shared_loop \<Rightarrow> registration multiset \<Rightarrow> bool" where
  "runs_to w s L \<longleftrightarrow> (\<exists>w'. shared_step\<^sup>*\<^sup>* w w' \<and> sw_loop w' = s \<and> \<not> sl_exited s \<and> mset (sw_leases w') = L)"

lemma runs_to_step:
  assumes "runs_to w s L"
    "\<And>w' :: shared_world. sw_loop w' = s \<Longrightarrow> \<not> sl_exited s \<Longrightarrow> mset (sw_leases w') = L \<Longrightarrow>
      shared_step w' (w'\<lparr>sw_loop := s', sw_leases := f (sw_leases w')\<rparr>) \<and> \<not> sl_exited s' \<and> mset (f (sw_leases w')) = L'"
  shows "runs_to w s' L'"
proof -
  obtain w' where w': "shared_step\<^sup>*\<^sup>* w w'" "sw_loop w' = s" "\<not> sl_exited s" "mset (sw_leases w') = L"
    using assms(1) by (auto simp: runs_to_def)
  let ?w = "w'\<lparr>sw_loop := s', sw_leases := f (sw_leases w')\<rparr>"
  from assms(2) [OF w'(2-4)] w'(1) have "shared_step\<^sup>*\<^sup>* w ?w" "\<not> sl_exited s'" "mset (f (sw_leases w')) = L'"
    by (auto intro: rtranclp.rtrancl_into_rtrancl)
  then show ?thesis unfolding runs_to_def by (intro exI [of _ ?w]) simp
qed

lemma runs_to_Acquire:
  assumes "runs_to w s L" "Acquire env d p pr s = (r, s')"
  shows "runs_to w s' (case r of Inl _ \<Rightarrow> L | Inr l \<Rightarrow> add_mset (p, pr, d, l) L)"
  by (rule runs_to_step [OF assms(1), where f = "\<lambda>ls. case r of Inl _ \<Rightarrow> ls | Inr l \<Rightarrow> (p, pr, d, l) # ls"])
    (use assms(2) Acquire_step [of env d p pr _ r s'] in \<open>auto split: sum.splits\<close>)

lemma runs_to_AcquirePacket:
  assumes "runs_to w s L" "AcquirePacket env d p s = (r, s')"
  shows "runs_to w s' (case r of Inl _ \<Rightarrow> L | Inr l \<Rightarrow> add_mset (p, ProtoUDP, [], l) L)"
  by (rule runs_to_step [OF assms(1), where f = "\<lambda>ls. case r of Inl _ \<Rightarrow> ls | Inr l \<Rightarrow> (p, ProtoUDP, [], l) # ls"])
    (use assms(2) AcquirePacket_step [of env d p _ r s'] in \<open>auto split: sum.splits\<close>)

lemma mset_add_in: "mset xs = add_mset x M \<Longrightarrow> x \<in> set xs"
  by (metis insertI1 set_mset_add_mset_insert set_mset_mset)

lemma runs_to_Release:
  assumes "runs_to w s (add_mset (p, pr, d, l) L)" "pr \<noteq> ProtoUDP"
  shows "runs_to w (Release d p pr s) L"
  by (rule runs_to_step [OF assms(1), where f = "remove1 (p, pr, d, l)"])
    (use assms(2) Release_step [of p pr d l] in \<open>auto dest: mset_add_in\<close>)

lemma runs_to_ReleasePacket:
  assumes "runs_to w s (add_mset (p, ProtoUDP, [], l) L)"
  shows "runs_to w (ReleasePacket d p s) L"
  by (rule runs_to_step [OF assms(1), where f = "remove1 (p, ProtoUDP, [], l)"])
    (use ReleasePacket_step [of p l] in \<open>auto dest: mset_add_in\<close>)

subsection \<open>Acquiring and rolling back\<close>

lemma acquirePort_outcome:
  assumes ap: "acquirePort env (n, c) e s = (r, e', s')" and run: "runs_to w s L"
    and new: "gm_get (sx_vListeners e) n = None" "gm_get (sx_directListeners e) n = None" "gm_get (sx_packetConns e) n = None"
  shows "(\<forall>m. m \<noteq> n \<longrightarrow> same_at m e e') \<and> typed e' (n, c) \<and> sx_cfg e' = sx_cfg e \<and> sx_started e' = sx_started e \<and> sx_domain e' = sx_domain e \<and>
    runs_to w s' (L + mset (held_of e' (n, c))) \<and>
    (r \<noteq> None \<longrightarrow> held_of e' (n, c) = []) \<and>
    (r = None \<longrightarrow> pc_ProxyProtocol c \<in> set protocols \<longrightarrow> held_of e' (n, c) \<noteq> [])"
proof -
  let ?pr = "pc_ProxyProtocol c" and ?p = "pc_ProxyPort c"
  consider (tcp) "?pr \<in> {ProtoHTTPS, ProtoHTTP, ProtoTCP}" | (udp) "?pr = ProtoUDP" | (other) "?pr \<notin> set protocols"
    by (auto simp: protocols_def)
  then show ?thesis
  proof cases
    case tcp
    obtain res s1 where a: "Acquire env (sx_domain e) ?p ?pr s = (res, s1)" by force
    from runs_to_Acquire [OF run a] ap a tcp new show ?thesis
      by (cases res) (auto simp: acquirePort_def same_at_def typed_def held_of_def)
  next
    case udp
    obtain res s1 where a: "AcquirePacket env (sx_domain e) ?p s = (res, s1)" by force
    from runs_to_AcquirePacket [OF run a] ap a udp new show ?thesis
      by (cases res) (auto simp: acquirePort_def same_at_def typed_def held_of_def)
  next
    case other
    with ap run new show ?thesis by (auto simp: acquirePort_def same_at_def typed_def held_of_def protocols_def)
  qed
qed

lemma rollback_port_outcome:
  assumes rb: "rollback_port (n, c) (e, s) = (e', s')" and run: "runs_to w s (L + mset (held_of e (n, c)))" and ty: "typed e (n, c)"
  shows "(\<forall>m. m \<noteq> n \<longrightarrow> same_at m e e') \<and> runs_to w s' L \<and> sx_started e' = sx_started e"
proof -
  consider (none) "gm_get (sx_vListeners e) n = None" "gm_get (sx_directListeners e) n = None" "gm_get (sx_packetConns e) n = None"
    | (v) l where "gm_get (sx_vListeners e) n = Some l" "gm_get (sx_directListeners e) n = None" "gm_get (sx_packetConns e) n = None"
        "pc_ProxyProtocol c \<noteq> ProtoUDP"
    | (d) l where "gm_get (sx_vListeners e) n = None" "gm_get (sx_directListeners e) n = Some l" "gm_get (sx_packetConns e) n = None"
        "pc_ProxyProtocol c \<noteq> ProtoUDP"
    | (p) l where "gm_get (sx_vListeners e) n = None" "gm_get (sx_directListeners e) n = None" "gm_get (sx_packetConns e) n = Some l"
    using ty
    by (cases "gm_get (sx_vListeners e) n"; cases "gm_get (sx_directListeners e) n"; cases "gm_get (sx_packetConns e) n")
      (auto simp: typed_def Let_def)
  then show ?thesis
  proof cases
    case none
    with rb run show ?thesis by (auto simp: rollback_port_def same_at_def held_of_def)
  next
    case v
    then have "runs_to w (Release (sx_domain e) (pc_ProxyPort c) (pc_ProxyProtocol c) s) L"
      using run by (intro runs_to_Release [where l = l]) (simp_all add: held_of_def)
    with rb v show ?thesis by (auto simp: rollback_port_def same_at_def)
  next
    case d
    then have "runs_to w (Release (sx_domain e) (pc_ProxyPort c) (pc_ProxyProtocol c) s) L"
      using run by (intro runs_to_Release [where l = l]) (simp_all add: held_of_def)
    with rb d show ?thesis by (auto simp: rollback_port_def same_at_def)
  next
    case p
    then have "runs_to w (ReleasePacket (sx_domain e) (pc_ProxyPort c) s) L"
      using run by (intro runs_to_ReleasePacket [where l = l]) (simp add: held_of_def)
    with rb p show ?thesis by (auto simp: rollback_port_def same_at_def)
  qed
qed

lemma rollback_ports_outcome:
  assumes "fold rollback_port ports (e, s) = (e', s')" "runs_to w s (L + mset (held e ports))"
    "distinct (keys ports)" "\<forall>p \<in> set ports. typed e p"
  shows "runs_to w s' L \<and> sx_started e' = sx_started e"
  using assms
proof (induction ports arbitrary: e s)
  case (Cons p ps)
  obtain n c where p: "p = (n, c)" by force
  obtain e1 s1 where r: "rollback_port p (e, s) = (e1, s1)" by force
  have "runs_to w s ((L + mset (held e ps)) + mset (held_of e (n, c)))" using Cons.prems(2) by (simp add: p ac_simps)
  from rollback_port_outcome [OF r [unfolded p] this] Cons.prems(4) p
  have one: "\<forall>m. m \<noteq> n \<longrightarrow> same_at m e e1" "runs_to w s1 (L + mset (held e ps))" "sx_started e1 = sx_started e" by auto
  have same: "same_at (fst q) e e1" if "q \<in> set ps" for q
  proof -
    have "fst q \<in> set (keys ps)" "n \<notin> set (keys ps)" using that Cons.prems(3) p by auto
    then have "fst q \<noteq> n" by metis
    with one(1) show ?thesis by blast
  qed
  then have "held e1 ps = held e ps" by (rule held_cong)
  moreover have "\<forall>q \<in> set ps. typed e1 q"
  proof
    fix q assume q: "q \<in> set ps"
    then have "typed e q" using Cons.prems(4) by simp
    with same_at_held [OF same [OF q], of "snd q"] show "typed e1 q" by simp
  qed
  ultimately show ?case using Cons.IH [of e1 s1] Cons.prems(1,3) one(2,3) r by simp
qed simp

lemma mset_concat_perm: "mset xs = mset ys \<Longrightarrow> mset (concat (map f xs)) = mset (concat (map f ys))"
proof -
  assume "mset xs = mset ys"
  then have "image_mset (mset \<circ> f) (mset xs) = image_mset (mset \<circ> f) (mset ys)" by simp
  then have "sum_mset (mset (map (mset \<circ> f) xs)) = sum_mset (mset (map (mset \<circ> f) ys))" by simp
  then show ?thesis by (simp only: mset_concat sum_mset_sum_list map_map)
qed

definition released_all :: "SharedSNIExposure \<Rightarrow> bool" where
  "released_all e \<longleftrightarrow> sx_vListeners e = [] \<and> sx_directListeners e = [] \<and> sx_packetConns e = [] \<and> sx_cfg e = None"

lemma rollbackAcquired_outcome:
  assumes rb: "rollbackAcquired order e s = (e', s')" and run: "runs_to w s (L + mset (held e ports))"
    and cfg: "sx_cfg e = Some ports" and wf: "gm_wf ports" "mset order = mset ports" and ty: "\<forall>p \<in> set ports. typed e p"
  shows "runs_to w s' L \<and> released_all e' \<and> sx_started e' = sx_started e"
proof -
  obtain e1 s1 where f: "fold rollback_port order (e, s) = (e1, s1)" by force
  have "runs_to w s (L + mset (held e order))" using run mset_concat_perm [OF wf(2), of "held_of e"] by simp
  moreover have "distinct (keys order)" using wf by (metis gm_wf_def mset_eq_imp_distinct_iff mset_map)
  moreover have "\<forall>p \<in> set order. typed e p" using ty mset_eq_setD [OF wf(2)] by simp
  ultimately have "runs_to w s1 L \<and> sx_started e1 = sx_started e" by (rule rollback_ports_outcome [OF f])
  with rb cfg f show ?thesis by (auto simp: rollbackAcquired_def released_all_def)
qed

lemma acquire_ports_outcome:
  assumes "acquire_ports cancelled env order ps e s = (r, e', s')" "runs_to w s (L + mset (held e before))"
    "sx_cfg e = Some ports" "ports = before @ ps" "gm_wf ports" "mset order = mset ports" "\<forall>p \<in> set ports. typed e p"
    "\<forall>n \<in> set (keys ps). gm_get (sx_vListeners e) n = None \<and> gm_get (sx_directListeners e) n = None \<and> gm_get (sx_packetConns e) n = None"
  shows "sx_started e' = sx_started e \<and>
    (if r = None
     then runs_to w s' (L + mset (held e' ports)) \<and> (\<forall>p \<in> set ps. pc_ProxyProtocol (snd p) \<in> set protocols \<longrightarrow> held_of e' p \<noteq> []) \<and>
       (\<forall>p \<in> set ports. typed e' p) \<and> sx_cfg e' = Some ports \<and> (\<forall>p \<in> set before. same_at (fst p) e e')
     else runs_to w s' L \<and> released_all e')"
  using assms
proof (induction ps arbitrary: before e s)
  case Nil
  then show ?case by (auto simp: same_at_def)
next
  case (Cons p ps)
  have hp: "held_of e p = []" using Cons.prems(8) by (cases p) (simp add: held_of_def)
  have hps: "concat (map (held_of e) ps) = []"
  proof -
    have "held_of e q = []" if "q \<in> set ps" for q
    proof -
      have "fst q \<in> set (keys (p # ps))" using that by simp
      with Cons.prems(8) have "gm_get (sx_vListeners e) (fst q) = None" "gm_get (sx_directListeners e) (fst q) = None"
        "gm_get (sx_packetConns e) (fst q) = None" by blast+
      then show ?thesis by (simp add: held_of_def split_beta Let_def)
    qed
    then show ?thesis by simp
  qed
  have hall: "held e ports = held e before"
    using hp hps unfolding Cons.prems(4) by (simp only: map_append concat_append list.map concat.simps append_Nil append_Nil2)
  then have all: "runs_to w s (L + mset (held e ports))" using Cons.prems(2) by simp
  show ?case
  proof (cases "cancelled (fst p)")
    case True
    then have "r = Some CtxErr" "rollbackAcquired order e s = (e', s')" using Cons.prems(1) by simp_all
    with rollbackAcquired_outcome [OF this(2) all Cons.prems(3,5,6,7)] show ?thesis by simp
  next
    case False
    obtain n c where p: "p = (n, c)" by force
    obtain r1 e1 s1 where ap: "acquirePort (env n) (n, c) e s = (r1, e1, s1)" by (metis prod_cases3)
    have new: "gm_get (sx_vListeners e) n = None" "gm_get (sx_directListeners e) n = None" "gm_get (sx_packetConns e) n = None"
      using Cons.prems(8) p by simp_all
    note one = acquirePort_outcome [OF ap Cons.prems(2) new]
    have dist: "n \<notin> set (keys before)" "n \<notin> set (keys ps)" using Cons.prems(4,5) p by (auto simp: gm_wf_def)
    have same: "same_at (fst q) e e1" if "q \<in> set before \<or> q \<in> set ps" for q
      using one that dist by (metis image_eqI list.set_map)
    have hb: "held e1 before = held e before" using same by (intro held_cong) simp
    have ty1: "\<forall>q \<in> set ports. typed e1 q"
    proof
      fix q assume q: "q \<in> set ports"
      show "typed e1 q"
      proof (cases "q = p")
        case False
        then have "typed e q" "same_at (fst q) e e1" using q same Cons.prems(4,7) by auto
        with same_at_held [OF this(2), of "snd q"] show ?thesis by simp
      qed (use one p in simp)
    qed
    show ?thesis
    proof (cases r1)
      case (Some err)
      have hps1: "held e1 ps = held e ps" using same by (intro held_cong) simp
      have "held e1 ports = held e1 before"
        using one Some hps hps1 p unfolding Cons.prems(4) by (simp only: map_append concat_append list.map concat.simps append_Nil append_Nil2 option.distinct simp_thms)
      moreover have "runs_to w s1 (L + mset (held e before) + mset (held_of e1 (n, c)))" "held_of e1 (n, c) = []" using one Some by blast+
      ultimately have "runs_to w s1 (L + mset (held e1 ports))" using hb by simp
      moreover have "r = Some err" "rollbackAcquired order e1 s1 = (e', s')" using Cons.prems(1) False ap Some p by simp_all
      ultimately show ?thesis using rollbackAcquired_outcome [of order e1 s1 e' s' w L ports] ty1 one Cons.prems(3,5,6) by simp
    next
      case None
      have st: "acquire_ports cancelled env order ps e1 s1 = (r, e', s')" using Cons.prems(1) False ap None p by simp
      have run1: "runs_to w s1 (L + mset (held e1 (before @ [p])))" using one hb p by (simp add: ac_simps)
      have free: "\<forall>m \<in> set (keys ps). gm_get (sx_vListeners e1) m = None \<and> gm_get (sx_directListeners e1) m = None \<and> gm_get (sx_packetConns e1) m = None"
      proof
        fix m assume m: "m \<in> set (keys ps)"
        then have "same_at m e e1" using one dist(2) by metis
        then show "gm_get (sx_vListeners e1) m = None \<and> gm_get (sx_directListeners e1) m = None \<and> gm_get (sx_packetConns e1) m = None"
          using Cons.prems(8) m by (auto simp: same_at_def)
      qed
      have cfg1: "sx_cfg e1 = Some ports" "ports = (before @ [p]) @ ps" using one Cons.prems(3,4) by simp_all
      note ih = Cons.IH [OF st run1 cfg1(1,2) Cons.prems(5,6) ty1 free]
      show ?thesis
      proof (cases "r = None")
        case True
        then have sp: "\<forall>q \<in> set (before @ [p]). same_at (fst q) e1 e'" using ih by simp
        have "\<forall>q \<in> set before. same_at (fst q) e e'" using sp same by (auto simp: same_at_def)
        moreover have "pc_ProxyProtocol (snd p) \<in> set protocols \<longrightarrow> held_of e' p \<noteq> []"
          using one None p sp same_at_held [of n e1 e' c] by simp
        ultimately show ?thesis using True ih one by simp
      qed (use ih one in auto)
    qed
  qed
qed

section \<open>The proxy of the shared mode\<close>

definition primaryScheme :: "PortConfigList \<Rightarrow> string" where
  "primaryScheme ports =
     (let protos = map (\<lambda>p. pc_ProxyProtocol (snd p)) ports
      in if ProtoHTTPS \<in> set protos then ProtoHTTPS
         else if ProtoHTTP \<in> set protos then ProtoHTTP
         else if ProtoTCP \<in> set protos then ProtoTCP
         else case protos of [] \<Rightarrow> ProtoHTTPS | p # _ \<Rightarrow> p)"

definition SharedProxy_GetListener :: "PortConfigList \<Rightarrow> SharedSNIExposure \<Rightarrow> string \<Rightarrow> exposure_error + nat" where
  "SharedProxy_GetListener ports e port =
     (if gm_get ports port = None then Inl (ProxyPortNotFound port) else SharedSNI_GetListener port e)"

definition SharedProxy_GetRawTCPListener :: "PortConfigList \<Rightarrow> SharedSNIExposure \<Rightarrow> string \<Rightarrow> exposure_error + nat" where
  "SharedProxy_GetRawTCPListener ports e port =
     (if gm_get ports port = None then Inl (ProxyPortNotFound port) else getRawTCPListener port e)"

definition SharedProxy_GetPacketConn :: "PortConfigList \<Rightarrow> SharedSNIExposure \<Rightarrow> string \<Rightarrow> exposure_error + nat" where
  "SharedProxy_GetPacketConn ports e port =
     (if gm_get ports port = None then Inl (ProxyPortNotFound port) else getPacketConn port e)"

definition SharedProxy_GetURL :: "PortConfigList \<Rightarrow> string \<Rightarrow> string" where
  "SharedProxy_GetURL ports url = (if url = [] then [] else primaryScheme ports @ ''://'' @ url)"

text \<open>
  \<^verbatim>\<open>Start\<close>, \<^verbatim>\<open>Close\<close> and the goroutine \<^verbatim>\<open>forwardEvents\<close>, after the exposure has started: the
  forwarder evaluates the field \<^verbatim>\<open>stopCh\<close> each time it enters its select (\<open>FwSelect\<close> keeps
  the channel it found there, \<open>None\<close> is a nil channel, which is never ready). There is one
  stop channel, so its only state is whether it has been closed.
\<close>

datatype forwarder = FwNone | FwSubscribe | FwLoop | FwSelect "unit option" | FwReturned
datatype closer = CloseNotCalled | CloseWaiting | CloseReturned

record SharedProxy =
  sp_started :: bool
  sp_stopCh :: "unit option"
  sp_stopClosed :: bool
  sp_forwarder :: forwarder
  sp_subOpen :: bool
  sp_close :: closer

definition proxy_start :: "SharedProxy \<Rightarrow> SharedProxy" where
  "proxy_start p = (if sp_started p then p else p\<lparr>sp_started := True, sp_stopCh := Some (), sp_forwarder := FwSubscribe\<rparr>)"

definition proxy_close :: "SharedProxy \<Rightarrow> SharedProxy" where
  "proxy_close p =
     (case sp_stopCh p of
        None \<Rightarrow> p\<lparr>sp_close := CloseWaiting\<rparr>
      | Some _ \<Rightarrow> p\<lparr>sp_stopClosed := True, sp_stopCh := None, sp_close := CloseWaiting\<rparr>)"

inductive proxy_step :: "SharedProxy \<Rightarrow> SharedProxy \<Rightarrow> bool" where
  PxStart: "proxy_step p (proxy_start p)"
| PxSubscribed: "sp_forwarder p = FwSubscribe \<Longrightarrow> proxy_step p (p\<lparr>sp_forwarder := FwLoop, sp_subOpen := True\<rparr>)"
| PxNoServer: "sp_forwarder p = FwSubscribe \<Longrightarrow> proxy_step p (p\<lparr>sp_forwarder := FwReturned\<rparr>)"
| PxSelect: "sp_forwarder p = FwLoop \<Longrightarrow> proxy_step p (p\<lparr>sp_forwarder := FwSelect (sp_stopCh p)\<rparr>)"
| PxEvent: "sp_forwarder p = FwSelect c \<Longrightarrow> sp_subOpen p \<Longrightarrow> proxy_step p (p\<lparr>sp_forwarder := FwLoop\<rparr>)"
| PxServerClosed: "sp_forwarder p = FwSelect c \<Longrightarrow> \<not> sp_subOpen p \<Longrightarrow> proxy_step p (p\<lparr>sp_forwarder := FwReturned\<rparr>)"
| PxStopped: "sp_forwarder p = FwSelect (Some ()) \<Longrightarrow> sp_stopClosed p \<Longrightarrow> proxy_step p (p\<lparr>sp_forwarder := FwReturned\<rparr>)"
| PxServerStops: "sp_subOpen p \<Longrightarrow> proxy_step p (p\<lparr>sp_subOpen := False\<rparr>)"
| PxClose: "sp_close p = CloseNotCalled \<Longrightarrow> proxy_step p (proxy_close p)"
| PxCloseReturns: "sp_close p = CloseWaiting \<Longrightarrow> sp_forwarder p \<in> {FwNone, FwReturned} \<Longrightarrow> proxy_step p (p\<lparr>sp_close := CloseReturned\<rparr>)"

abbreviation proxy_init :: "SharedProxy \<Rightarrow> bool" where
  "proxy_init p \<equiv> p = \<lparr>sp_started = False, sp_stopCh = None, sp_stopClosed = False, sp_forwarder = FwNone,
     sp_subOpen = False, sp_close = CloseNotCalled\<rparr>"

definition close_stuck :: "SharedProxy \<Rightarrow> bool" where
  "close_stuck p \<longleftrightarrow> sp_started p \<and> sp_stopCh p = None \<and> sp_close p = CloseWaiting \<and> sp_forwarder p \<in> {FwLoop, FwSelect None}"

lemma close_stuck_step:
  assumes "close_stuck p" "proxy_step p p'" "sp_subOpen p" "sp_subOpen p'"
  shows "close_stuck p'"
  using assms(2) assms by cases (auto simp: close_stuck_def proxy_start_def)

definition stuck_proxy :: SharedProxy where
  "stuck_proxy = \<lparr>sp_started = True, sp_stopCh = None, sp_stopClosed = True, sp_forwarder = FwSelect None, sp_subOpen = True, sp_close = CloseWaiting\<rparr>"

lemma stuck_proxy_reach: "reach proxy_init proxy_step stuck_proxy"
proof -
  let ?p0 = "\<lparr>sp_started = False, sp_stopCh = None, sp_stopClosed = False, sp_forwarder = FwNone, sp_subOpen = False, sp_close = CloseNotCalled\<rparr>"
  let ?p1 = "proxy_start ?p0"
  have "reach proxy_init proxy_step ?p0" by (rule reach_init) simp
  then have r1: "reach proxy_init proxy_step ?p1" using PxStart by (rule reach_step)
  have "proxy_step ?p1 (?p1\<lparr>sp_forwarder := FwLoop, sp_subOpen := True\<rparr>)" by (rule PxSubscribed) (simp add: proxy_start_def)
  with r1 have r2: "reach proxy_init proxy_step (?p1\<lparr>sp_forwarder := FwLoop, sp_subOpen := True\<rparr>)" (is "reach _ _ ?p2") by (rule reach_step)
  have "proxy_step ?p2 (proxy_close ?p2)" by (rule PxClose) (simp add: proxy_start_def)
  with r2 have r3: "reach proxy_init proxy_step (proxy_close ?p2)" by (rule reach_step)
  have "proxy_step (proxy_close ?p2) stuck_proxy"
    using PxSelect [of "proxy_close ?p2"] by (simp add: proxy_close_def proxy_start_def stuck_proxy_def)
  with r3 show ?thesis by (rule reach_step)
qed

section \<open>Example ports\<close>

definition web_port :: PortConfig where
  "web_port = \<lparr>pc_targets = None, pc_name = ''443/https'', pc_ProxyProtocol = ''https'', pc_ProxyPort = 443, pc_TLSValidate = True,
     pc_NoAutoDetect = False, pc_IsRedirect = False, pc_Tailscale = \<lparr>tp_Funnel = False\<rparr>\<rparr>"

definition dns_port :: PortConfig where
  "dns_port = web_port\<lparr>pc_name := ''53/udp'', pc_ProxyProtocol := ''udp'', pc_ProxyPort := 53\<rparr>"

definition two_ports :: PortConfigList where
  "two_ports = [(''443/https'', web_port), (''53/udp'', dns_port)]"

lemma two_ports_wf: "gm_wf two_ports"
  by (simp add: two_ports_def gm_wf_def)

section \<open>Properties\<close>

text \<open>
  Starting a proxy on its own node is all or nothing: if a port cannot be opened, every
  listener opened so far is closed again and nothing else; otherwise every port has an open
  listener in the map of its protocol, and closing the exposure closes exactly those.
\<close>

theorem PerProxy_all_or_nothing:
  assumes st: "PerProxy_Start env ports e h = (r, e', h')" and fresh: "\<not> px_started e" and wf: "gm_wf ports" and h: "opened M h"
  shows "if r = None
    then px_started e' \<and> (\<forall>p \<in> set ports. served p e' h') \<and> (\<exists>e'' h''. PerProxy_Close e' h' = (e'', h'') \<and> opened M h'' \<and> \<not> px_started e'')
    else \<not> px_started e' \<and> exposure_handles e' = [] \<and> opened M h'"
proof -
  let ?e = "e\<lparr>px_runtime := True, px_listeners := [], px_rawListeners := [], px_packetConns := []\<rparr>"
  obtain r1 e1 h1 where sp: "start_ports env ports ?e h = (r1, e1, h1)" by (metis prod_cases3)
  have "holds_over M ?e h" using h by (simp add: exposure_handles_def)
  with start_ports_outcome [OF sp, of M] wf
  have out: "px_started e1 = px_started e" "case r1 of Some err \<Rightarrow> opened M h1 \<and> exposure_handles e1 = []
     | None \<Rightarrow> holds_over M e1 h1 \<and> (\<forall>p \<in> set ports. served p e1 h1)"
    by (auto simp: gm_wf_def names_def split: option.splits)
  show ?thesis
  proof (cases r1)
    case None
    then have r: "r = None" "e' = e1\<lparr>px_started := True\<rparr>" "h' = h1" using st fresh sp by (simp_all add: PerProxy_Start_def)
    moreover have "served p e' h'" if "served p e1 h1" for p using that r by (simp add: served_def Let_def)
    moreover have "holds_over M e' h'" using out(2) None r by (simp add: exposure_handles_def)
    with closeAll_opened [of M e' h'] have "\<exists>e'' h''. PerProxy_Close e' h' = (e'', h'') \<and> opened M h'' \<and> \<not> px_started e''"
      using r by (cases "closeAll e' h'") (auto simp: PerProxy_Close_def)
    ultimately show ?thesis using out(2) None by simp
  next
    case (Some err)
    with st fresh sp out show ?thesis by (auto simp: PerProxy_Start_def)
  qed
qed

theorem PerProxy_all_or_nothing_witness:
  "\<exists>e' h'. PerProxy_Start (\<lambda>_. \<lparr>le_ok = (\<lambda>_. True), le_ip = ''100.64.0.1'', le_polls = [False]\<rparr>) two_ports NewPerProxyExposure \<lparr>hs_next = 0, hs_open = []\<rparr> =
     (Some (ListenError ''udp'' ''53/udp''), e', h') \<and> opened {#} h'"
proof -
  let ?st = "PerProxy_Start (\<lambda>_. \<lparr>le_ok = (\<lambda>_. True), le_ip = ''100.64.0.1'', le_polls = [False]\<rparr>) two_ports NewPerProxyExposure \<lparr>hs_next = 0, hs_open = []\<rparr>"
  have "fst ?st = Some (ListenError ''udp'' ''53/udp'')" by code_simp
  then obtain e' h' where st: "?st = (Some (ListenError ''udp'' ''53/udp''), e', h')" by (metis prod.collapse)
  have "opened {#} \<lparr>hs_next = 0, hs_open = []\<rparr>" by (simp add: opened_def)
  from PerProxy_all_or_nothing [OF st _ two_ports_wf this] have "opened {#} h'" by (simp add: NewPerProxyExposure_def)
  with st show ?thesis by blast
qed

text \<open>
  C6: starting a proxy on the shared node is all or nothing, whatever order the ports are visited in: a start that fails or
  is cancelled, at any port, releases every registration it made and no other client's;
  a start that succeeds holds a registration for every port of a known protocol; closing
  releases exactly those. Every call is one that a client of the shared server may make.
\<close>

theorem SharedSNI_all_or_nothing:
  assumes st: "SharedSNI_Start cancelled env order ports e (sw_loop w) = (r, e', s')"
    and fresh: "\<not> sx_started e" "sx_packetConns e = []" and wf: "gm_wf ports" "mset order = mset ports" and up: "\<not> sl_exited (sw_loop w)"
  shows "if r = None
    then sx_started e' \<and> runs_to w s' (mset (sw_leases w) + mset (held e' ports)) \<and>
      (\<forall>p \<in> set ports. pc_ProxyProtocol (snd p) \<in> set protocols \<longrightarrow> held_of e' p \<noteq> []) \<and>
      (\<exists>e'' s''. SharedSNI_Close order e' s' = (e'', s'') \<and> runs_to w s'' (mset (sw_leases w)) \<and> released_all e'')
    else \<not> sx_started e' \<and> runs_to w s' (mset (sw_leases w)) \<and> released_all e'"
proof -
  let ?e = "e\<lparr>sx_cfg := Some ports, sx_vListeners := [], sx_directListeners := [], sx_tlsListeners := []\<rparr>"
  have run0: "runs_to w (sw_loop w) (mset (sw_leases w) + mset (held ?e []))" using up by (auto simp: runs_to_def)
  obtain r1 e1 s1 where ap: "acquire_ports cancelled env order ports ?e (sw_loop w) = (r1, e1, s1)" by (metis prod_cases3)
  have "\<forall>p \<in> set ports. typed ?e p" using fresh(2) by (simp add: typed_def split_beta Let_def)
  from acquire_ports_outcome [OF ap run0 _ _ wf this] fresh
  have out: "\<not> sx_started e1" and
    cs: "if r1 = None
     then runs_to w s1 (mset (sw_leases w) + mset (held e1 ports)) \<and> (\<forall>p \<in> set ports. pc_ProxyProtocol (snd p) \<in> set protocols \<longrightarrow> held_of e1 p \<noteq> []) \<and>
       (\<forall>p \<in> set ports. typed e1 p) \<and> sx_cfg e1 = Some ports
     else runs_to w s1 (mset (sw_leases w)) \<and> released_all e1"
    by (simp_all split: if_splits)
  show ?thesis
  proof (cases r1)
    case None
    then have r: "r = None" "e' = e1\<lparr>sx_started := True\<rparr>" "s' = s1" using st fresh ap by (simp_all add: SharedSNI_Start_def)
    have same: "held_of e' p = held_of e1 p" "typed e' p = typed e1 p" for p by (simp_all add: r held_of_def typed_def)
    then have "held_of e' = held_of e1" by blast
    obtain e2 s2 where rb: "rollbackAcquired order e' s' = (e2, s2)" by force
    have "runs_to w s2 (mset (sw_leases w)) \<and> released_all e2"
      using rollbackAcquired_outcome [OF rb _ _ wf, of w "mset (sw_leases w)"] cs None r \<open>held_of e' = held_of e1\<close> same(2) by simp
    then have "\<exists>e'' s''. SharedSNI_Close order e' s' = (e'', s'') \<and> runs_to w s'' (mset (sw_leases w)) \<and> released_all e''"
      using rb r by (simp add: SharedSNI_Close_def released_all_def)
    then show ?thesis using cs None r \<open>held_of e' = held_of e1\<close> by simp
  next
    case (Some err)
    with st fresh ap out cs show ?thesis by (auto simp: SharedSNI_Start_def)
  qed
qed

theorem SharedSNI_all_or_nothing_witness:
  "\<exists>e' s'. SharedSNI_Start (\<lambda>n. n = ''53/udp'') (\<lambda>_. env_ok) (rev two_ports) two_ports (NewSharedSNIExposure ''b.ts'') (sw_loop run_one) =
     (Some CtxErr, e', s') \<and> runs_to run_one s' {#(443, ''https'', ''a.ts'', 2)#}"
proof -
  let ?st = "SharedSNI_Start (\<lambda>n. n = ''53/udp'') (\<lambda>_. env_ok) (rev two_ports) two_ports (NewSharedSNIExposure ''b.ts'') (sw_loop run_one)"
  have "fst ?st = Some CtxErr" by code_simp
  then obtain e' s' where st: "?st = (Some CtxErr, e', s')" by (metis prod.collapse)
  from SharedSNI_all_or_nothing [OF st _ _ two_ports_wf _ run_one_loop(1)]
  have "runs_to run_one s' {#(443, ''https'', ''a.ts'', 2)#}" by (simp add: NewSharedSNIExposure_def run_one_def)
  with st show ?thesis by blast
qed

text \<open>
  Closing a proxy of the shared mode can wait for ever: a reachable state exists (the
  forwarder comes back to its select after \<^verbatim>\<open>Close\<close> has set the stop channel to nil) from which
  no run ends the wait as long as the shared server keeps the subscription open.
\<close>

theorem close_can_hang:
  "reach proxy_init proxy_step stuck_proxy \<and> sp_close stuck_proxy = CloseWaiting \<and>
   (\<forall>p. (\<lambda>a b. proxy_step a b \<and> sp_subOpen b)\<^sup>*\<^sup>* stuck_proxy p \<longrightarrow> sp_close p = CloseWaiting)"
proof (intro conjI allI impI)
  show "reach proxy_init proxy_step stuck_proxy" by (rule stuck_proxy_reach)
  show "sp_close stuck_proxy = CloseWaiting" by (simp add: stuck_proxy_def)
  fix p assume "(\<lambda>a b. proxy_step a b \<and> sp_subOpen b)\<^sup>*\<^sup>* stuck_proxy p"
  then have "close_stuck p \<and> sp_subOpen p"
  proof (induction rule: rtranclp_induct)
    case base
    show ?case by (simp add: stuck_proxy_def close_stuck_def)
  next
    case (step y z)
    then show ?case using close_stuck_step [of y z] by blast
  qed
  then show "sp_close p = CloseWaiting" by (simp add: close_stuck_def)
qed

theorem close_can_hang_witness: "sp_close stuck_proxy = CloseWaiting"
  using close_can_hang by blast

lemma getCertificate_fresh:
  assumes "getCertificate now fetch later e = (Inr c, e')"
  shows "fetch = Inr c \<and> sx_cachedCert e' = Some (c, later) \<or> e' = e \<and> (\<exists>t. sx_cachedCert e = Some (c, t) \<and> now - t < certCacheTTL)"
  using assms by (auto simp: getCertificate_def split: option.splits sum.splits if_splits prod.splits)

end
