(* ===== verification/Tailscale_Node.thy ===== *)
theory Tailscale_Node
  imports Proxy_Model
begin

text \<open>
  How a Tailscale node is brought up, from \<^verbatim>\<open>src/internal/proxyproviders/tailscale/\<close>: tags
  (\<^verbatim>\<open>helpers.go\<close>, \<^verbatim>\<open>acl_manager.go\<close>), the auth key (\<^verbatim>\<open>auth_manager.go\<close>, \<^verbatim>\<open>api_client.go\<close>), the saved
  state (\<^verbatim>\<open>state_manager.go\<close>), duplicate devices (\<^verbatim>\<open>device_reconciler.go\<close>), start with retries
  (\<^verbatim>\<open>retry_policy.go\<close>, \<^verbatim>\<open>node_lifecycle.go\<close>), the status events (\<^verbatim>\<open>status_watcher.go\<close>) and the
  certificates (\<^verbatim>\<open>certs.go\<close>). The Tailscale API and the node are parameters.
\<close>

section \<open>Tags\<close>

definition cleanTags :: "string \<Rightarrow> string list" where
  "cleanTags tags = filter (\<lambda>t. t \<noteq> []) (map trim_space (split_str '','' tags))"

definition parseTagsForACL :: "string \<Rightarrow> string list" where
  "parseTagsForACL raw =
     map (\<lambda>t. if has_prefix t ''tag:'' then t else ''tag:'' @ t) (filter (\<lambda>t. t \<noteq> []) (map trim_space (split_str '','' raw)))"

section \<open>Auth keys\<close>

record APIClientFactory =
  af_clientID :: string
  af_clientSecret :: string

definition NewAPIClientFactory :: "string \<Rightarrow> string \<Rightarrow> APIClientFactory" where
  "NewAPIClientFactory clientID clientSecret = \<lparr>af_clientID = trim_space clientID, af_clientSecret = trim_space clientSecret\<rparr>"

definition IsAvailable :: "APIClientFactory \<Rightarrow> bool" where
  "IsAvailable f \<longleftrightarrow> af_clientID f \<noteq> [] \<and> af_clientSecret f \<noteq> []"

record AuthConfig =
  ac_ResolvedAuthKey :: string
  ac_ProxyAuthKey :: string
  ac_ProviderAuthKey :: string

datatype oauth_error = NoTags | OAuthRejected "string list" string | OAuthFailed string | EmptyKey "string list"

definition IsAuthError :: "string \<Rightarrow> bool" where
  "IsAuthError err = contains_str err ''invalid or not permitted''"

text \<open>\<open>create\<close> is the key the Tailscale API makes for the given tags; no key is a nil response.\<close>

definition GenerateOAuthKey :: "(string list \<Rightarrow> string + string option) \<Rightarrow> string \<Rightarrow> oauth_error + string" where
  "GenerateOAuthKey create tags =
     (let cleaned = cleanTags tags
      in if cleaned = [] then Inl NoTags
         else case create cleaned of
                Inl err \<Rightarrow> if IsAuthError err then Inl (OAuthRejected cleaned err) else Inl (OAuthFailed err)
              | Inr None \<Rightarrow> Inl (EmptyKey cleaned)
              | Inr (Some key) \<Rightarrow> Inr key)"

text \<open>\<open>factory\<close> is \<open>None\<close> when the manager has none.\<close>

definition ResolveKey :: "APIClientFactory option \<Rightarrow> (string list \<Rightarrow> string + string option) \<Rightarrow> AuthConfig \<Rightarrow> string \<Rightarrow> oauth_error + string" where
  "ResolveKey factory create cfg tags =
     (if ac_ResolvedAuthKey cfg \<noteq> [] then Inr (ac_ResolvedAuthKey cfg)
      else let provider = (\<lambda>key. Inr (if key = [] then ac_ProviderAuthKey cfg else key))
           in if ac_ProxyAuthKey cfg = [] \<and> (case factory of None \<Rightarrow> False | Some f \<Rightarrow> IsAvailable f)
              then (case GenerateOAuthKey create tags of Inl e \<Rightarrow> Inl e | Inr key \<Rightarrow> provider key)
              else provider (ac_ProxyAuthKey cfg))"

section \<open>Starting with retries\<close>

record RetryPolicy =
  rp_MaxAttempts :: int
  rp_InitialBackoff :: int
  rp_MaxBackoff :: int

definition NewRetryPolicy :: RetryPolicy where
  "NewRetryPolicy = \<lparr>rp_MaxAttempts = 3, rp_InitialBackoff = 2000000000, rp_MaxBackoff = 30000000000\<rparr>"

definition IsRecoverable :: "string \<Rightarrow> bool" where
  "IsRecoverable err \<longleftrightarrow> \<not> IsAuthError err \<and> \<not> contains_str err ''hardware attestation''"

text \<open>The wait after an attempt: the 64-bit duration is doubled \<open>attempt\<close> times and then capped.\<close>

fun double_times :: "nat \<Rightarrow> int \<Rightarrow> int" where
  "double_times 0 b = b"
| "double_times (Suc n) b = double_times n (wrap64 (b * 2))"

definition start_backoff :: "RetryPolicy \<Rightarrow> nat \<Rightarrow> int" where
  "start_backoff p attempt =
     (let backoff = double_times attempt (rp_InitialBackoff p)
      in if backoff > rp_MaxBackoff p then rp_MaxBackoff p else backoff)"

datatype start_error = StartError string | StartCtx | StartExhausted int string

text \<open>
  \<open>start\<close> is the result of each attempt (\<open>None\<close> is success), \<open>ctxDone\<close> whether the context ends
  during the wait after it. The result has the waits that were made.
\<close>

fun start_retry_loop :: "RetryPolicy \<Rightarrow> (nat \<Rightarrow> string option) \<Rightarrow> (nat \<Rightarrow> bool) \<Rightarrow> nat \<Rightarrow> nat \<Rightarrow> string \<Rightarrow> start_error option \<times> int list" where
  "start_retry_loop p start ctxDone attempt 0 lastErr = (Some (StartExhausted (rp_MaxAttempts p) lastErr), [])"
| "start_retry_loop p start ctxDone attempt (Suc n) lastErr =
     (case start attempt of
        None \<Rightarrow> (None, [])
      | Some err \<Rightarrow>
          if \<not> IsRecoverable err then (Some (StartError err), [])
          else let wait = start_backoff p attempt
               in if ctxDone attempt then (Some StartCtx, [wait])
                  else apsnd ((#) wait) (start_retry_loop p start ctxDone (attempt + 1) n err))"

definition startWithRetry :: "RetryPolicy \<Rightarrow> (nat \<Rightarrow> string option) \<Rightarrow> (nat \<Rightarrow> bool) \<Rightarrow> start_error option \<times> int list" where
  "startWithRetry p start ctxDone =
     (if rp_MaxAttempts p \<le> 0 then (map_option StartError (start 0), [])
      else start_retry_loop p start ctxDone 0 (nat (rp_MaxAttempts p)) [])"

section \<open>Duplicate devices\<close>

record deviceEntry =
  de_Hostname :: string
  de_NodeID :: string
  de_Connected :: bool

record reconcileOpts =
  ro_force :: bool
  ro_hasLocalState :: bool

definition isNumeric :: "string \<Rightarrow> bool" where
  "isNumeric s \<longleftrightarrow> list_all is_digit s \<and> s \<noteq> []"

definition isDeviceMatch :: "deviceEntry \<Rightarrow> string \<Rightarrow> reconcileOpts \<Rightarrow> bool" where
  "isDeviceMatch d hostname cfg =
     (if de_Hostname d = hostname then \<not> ro_hasLocalState cfg \<or> \<not> de_Connected d
      else if \<not> has_prefix (de_Hostname d) (hostname @ ''-'') then False
      else isNumeric (drop (length hostname + 1) (de_Hostname d)))"

datatype reconcile_effect = Conflict string string | DeleteDevice string

text \<open>\<open>getDevice\<close> is the second look at the device, \<open>None\<close> when it has disappeared.\<close>

definition processDevice :: "(string \<Rightarrow> deviceEntry option) \<Rightarrow> deviceEntry \<Rightarrow> string \<Rightarrow> reconcileOpts \<Rightarrow> reconcile_effect list" where
  "processDevice getDevice d hostname cfg =
     (if \<not> isDeviceMatch d hostname cfg then []
      else if de_Connected d \<and> \<not> ro_force cfg then [Conflict (de_Hostname d) (de_NodeID d)]
      else case getDevice (de_NodeID d) of
             None \<Rightarrow> []
           | Some current \<Rightarrow>
               if de_Connected current \<and> \<not> ro_force cfg then [Conflict (de_Hostname current) (de_NodeID current)]
               else [DeleteDevice (de_NodeID current)])"

definition Reconcile :: "APIClientFactory option \<Rightarrow> (string \<Rightarrow> string + deviceEntry list) \<Rightarrow> (string \<Rightarrow> deviceEntry option) \<Rightarrow>
    string \<Rightarrow> string \<Rightarrow> reconcileOpts \<Rightarrow> reconcile_effect list" where
  "Reconcile factory listDevices getDevice hostname tags cfg =
     (if (case factory of None \<Rightarrow> True | Some f \<Rightarrow> \<not> IsAvailable f) then []
      else case cleanTags tags of
             [] \<Rightarrow> []
           | tag # _ \<Rightarrow>
               (case listDevices tag of
                  Inl err \<Rightarrow> []
                | Inr devices \<Rightarrow> concat (map (\<lambda>d. processDevice getDevice d hostname cfg) devices)))"

section \<open>Saved state\<close>

record NodeConfig =
  nc_Hostname :: string
  nc_DataDir :: string
  nc_ControlURL :: string
  nc_Tags :: string
  nc_Mode :: string
  nc_Ephemeral :: bool

record stateMeta =
  sm_Hostname :: string
  sm_ControlURL :: string
  sm_Mode :: string
  sm_Tags :: "string list"
  sm_Ephemeral :: bool

definition state_meta :: "NodeConfig \<Rightarrow> stateMeta" where
  "state_meta cfg = \<lparr>sm_Hostname = nc_Hostname cfg, sm_ControlURL = nc_ControlURL cfg, sm_Mode = nc_Mode cfg,
     sm_Tags = cleanTags (nc_Tags cfg), sm_Ephemeral = nc_Ephemeral cfg\<rparr>"

text \<open>
  The directory of a node: whether it has a \<^verbatim>\<open>tailscaled.state\<close> file, and the metadata file if it
  exists and can be read.
\<close>

record node_dir =
  nd_state :: bool
  nd_meta :: "stateMeta option"

definition StateExists :: "node_dir \<Rightarrow> bool" where
  "StateExists d = nd_state d"

definition state_changed :: "stateMeta \<Rightarrow> NodeConfig \<Rightarrow> bool" where
  "state_changed cached cfg \<longleftrightarrow>
     sm_Hostname cached \<noteq> [] \<and> sm_Hostname cached \<noteq> nc_Hostname cfg \<or>
     sm_ControlURL cached \<noteq> [] \<and> sm_ControlURL cached \<noteq> nc_ControlURL cfg \<or>
     sm_Mode cached \<noteq> [] \<and> sm_Mode cached \<noteq> nc_Mode cfg \<or>
     length (sm_Tags cached) > 0 \<and> join_str '','' (sm_Tags cached) \<noteq> join_str '','' (cleanTags (nc_Tags cfg)) \<or>
     sm_Ephemeral cached \<noteq> nc_Ephemeral cfg"

text \<open>\<open>removed\<close> says whether the directory could be removed.\<close>

definition CleanStale :: "bool \<Rightarrow> NodeConfig \<Rightarrow> node_dir \<Rightarrow> bool \<times> node_dir" where
  "CleanStale removed cfg d =
     (if \<not> nd_state d then (False, d)
      else case nd_meta d of
             None \<Rightarrow> (False, d)
           | Some cached \<Rightarrow>
               if state_changed cached cfg \<and> removed then (True, \<lparr>nd_state = False, nd_meta = None\<rparr>) else (False, d))"

definition Save :: "NodeConfig \<Rightarrow> node_dir \<Rightarrow> node_dir" where
  "Save cfg d = d\<lparr>nd_meta := Some (state_meta cfg)\<rparr>"

section \<open>Status\<close>

record NodeEvent =
  ne_URL :: string
  ne_AuthURL :: string
  ne_ErrorMessage :: string
  ne_Status :: ProxyStatus

definition node_event :: "ProxyStatus \<Rightarrow> string \<Rightarrow> string \<Rightarrow> string \<Rightarrow> NodeEvent" where
  "node_event status url authURL err = \<lparr>ne_URL = url, ne_AuthURL = authURL, ne_ErrorMessage = err, ne_Status = status\<rparr>"

definition classifyState :: "string \<Rightarrow> string \<Rightarrow> string \<Rightarrow> NodeEvent" where
  "classifyState backendState authURL dnsName =
     (if backendState = ''NeedsLogin'' then
        (if authURL = [] then node_event ProxyStatusAuthFailed [] []
           ''needs reauthentication: no auth URL available, the auth key may be invalid or expired''
         else node_event ProxyStatusAuthenticating [] authURL [])
      else if backendState = ''NoState'' then node_event ProxyStatusStarting [] [] []
      else if backendState = ''Stopped'' then node_event ProxyStatusStopped [] [] []
      else if backendState = ''Starting'' then node_event ProxyStatusStarting [] [] []
      else if backendState = ''NeedsMachineAuth'' then node_event ProxyStatusAwaitingApproval [] authURL []
      else if backendState = ''Running'' then node_event ProxyStatusRunning dnsName [] []
      else node_event ProxyStatusError [] [] (''unknown state: '' @ backendState))"

text \<open>
  \<^verbatim>\<open>Watch\<close>: each poll gives a status or an error; the context may end in the wait that follows
  (the last component). The list ends when the observation does.
\<close>

datatype status_obs =
    StatusOK string string string bool bool
  | StatusCanceled
  | StatusError bool

fun Watch :: "status_obs list \<Rightarrow> NodeEvent list" where
  "Watch [] = []"
| "Watch (StatusCanceled # _) = []"
| "Watch (StatusError ctxDone # rest) = (if ctxDone then [] else Watch rest)"
| "Watch (StatusOK backendState authURL dnsName selfOK ctxDone # rest) =
     (let evt = classifyState backendState authURL dnsName;
          out = (if ne_Status evt = ProxyStatusRunning \<and> \<not> selfOK then [] else [evt])
      in out @ (if ctxDone then [] else Watch rest))"

section \<open>Certificates\<close>

definition certMaxAttempts :: nat where "certMaxAttempts = 6"
definition certRetryInit :: int where "certRetryInit = 10000000000"
definition certRetryMax :: int where "certRetryMax = 300000000000"

datatype cert_obs = SemFails | CertOK | CertCanceled | CertFails bool

text \<open>
  \<^verbatim>\<open>acquireCertForDomain\<close>: for each attempt, whether the semaphore is obtained and what the node
  answers (with whether the context ends in the wait). The result says whether a certificate
  was made, and has the waits.
\<close>

fun cert_loop :: "(nat \<Rightarrow> cert_obs) \<Rightarrow> nat \<Rightarrow> nat \<Rightarrow> int \<Rightarrow> bool \<times> int list" where
  "cert_loop obs attempt 0 backoff = (False, [])"
| "cert_loop obs attempt (Suc n) backoff =
     (case obs attempt of
        SemFails \<Rightarrow> (False, [])
      | CertOK \<Rightarrow> (True, [])
      | CertCanceled \<Rightarrow> (False, [])
      | CertFails ctxDone \<Rightarrow>
          if ctxDone then (False, [backoff])
          else let b = wrap64 (backoff * 2); b' = (if b > certRetryMax then certRetryMax else b)
               in apsnd ((#) backoff) (cert_loop obs (attempt + 1) n b'))"

definition acquireCertForDomain :: "bool \<Rightarrow> string \<Rightarrow> bool \<Rightarrow> (nat \<Rightarrow> cert_obs) \<Rightarrow> bool \<times> int list" where
  "acquireCertForDomain hasClient domain hasSem obs =
     (if \<not> hasClient \<or> domain = [] \<or> \<not> hasSem then (False, [])
      else cert_loop obs 0 certMaxAttempts certRetryInit)"

definition acquireCert :: "bool \<Rightarrow> string list \<Rightarrow> bool \<Rightarrow> (nat \<Rightarrow> cert_obs) \<Rightarrow> bool \<times> int list" where
  "acquireCert hasClient certDomains hasSem obs =
     (case certDomains of [] \<Rightarrow> (False, []) | domain # _ \<Rightarrow> acquireCertForDomain hasClient domain hasSem obs)"

section \<open>Bringing a node up\<close>

text \<open>What the node and the API answer during \<^verbatim>\<open>NodeLifecycle.Start\<close>.\<close>

record node_env =
  ve_factory :: "APIClientFactory option"
  ve_createKey :: "string list \<Rightarrow> string + string option"
  ve_removeDir :: bool
  ve_listDevices :: "string \<Rightarrow> string + deviceEntry list"
  ve_getDevice :: "string \<Rightarrow> deviceEntry option"
  ve_start :: "nat \<Rightarrow> string option"
  ve_ctxDone :: "nat \<Rightarrow> bool"
  ve_localClient :: bool

datatype lifecycle_error = AuthKeyError oauth_error | StartTsnet start_error | LocalClientError

text \<open>\<open>lr_reconciler\<close>: the lifecycle has a device reconciler, that is, duplicates are to be prevented.\<close>

record NodeLifecycle =
  lr_cfg :: NodeConfig
  lr_authCfg :: AuthConfig
  lr_retry :: RetryPolicy
  lr_reconciler :: bool

record start_trace =
  st_dir :: node_dir
  st_effects :: "reconcile_effect list"
  st_events :: "NodeEvent list"
  st_waits :: "int list"

definition conflict_event :: "reconcile_effect \<Rightarrow> NodeEvent list" where
  "conflict_event x =
     (case x of
        Conflict hostname nodeID \<Rightarrow>
          [node_event ProxyStatusDeviceConflict [] [] (''online device with hostname '' @ hostname @ '' already exists (nodeID: '' @ nodeID @ '')'')]
      | DeleteDevice _ \<Rightarrow> [])"

definition reconcile_options :: "bool \<Rightarrow> reconcileOpts" where
  "reconcile_options stateExists = \<lparr>ro_force = \<not> stateExists, ro_hasLocalState = stateExists\<rparr>"

definition NodeLifecycle_Start :: "node_env \<Rightarrow> NodeLifecycle \<Rightarrow> node_dir \<Rightarrow> (lifecycle_error + string) \<times> start_trace" where
  "NodeLifecycle_Start env nl d =
     (case ResolveKey (ve_factory env) (ve_createKey env) (lr_authCfg nl) (nc_Tags (lr_cfg nl)) of
        Inl e \<Rightarrow> (Inl (AuthKeyError e), \<lparr>st_dir = d, st_effects = [], st_events = [], st_waits = []\<rparr>)
      | Inr key \<Rightarrow>
          let stateExists = StateExists d;
              (cleaned, d1) = CleanStale (ve_removeDir env) (lr_cfg nl) d;
              stateExists = (if cleaned then False else stateExists);
              d2 = Save (lr_cfg nl) d1;
              effects = (if lr_reconciler nl
                         then Reconcile (ve_factory env) (ve_listDevices env) (ve_getDevice env) (nc_Hostname (lr_cfg nl)) (nc_Tags (lr_cfg nl))
                                (reconcile_options stateExists)
                         else []);
              events = (if lr_reconciler nl then node_event ProxyStatusReconciling [] [] [] # concat (map conflict_event effects) else []);
              (err, waits) = startWithRetry (lr_retry nl) (ve_start env) (ve_ctxDone env);
              trace = \<lparr>st_dir = d2, st_effects = effects, st_events = events, st_waits = waits\<rparr>
          in (case err of
                Some e \<Rightarrow> (Inl (StartTsnet e), trace)
              | None \<Rightarrow> (if ve_localClient env then Inr key else Inl LocalClientError, trace)))"

section \<open>Lemmas\<close>

lemma has_prefix_iff: "has_prefix s p \<longleftrightarrow> (\<exists>t. s = p @ t)"
  by (auto simp: has_prefix_def) (metis append_take_drop_id)

lemma isDeviceMatch_name:
  assumes "isDeviceMatch d hostname cfg"
  shows "de_Hostname d = hostname \<or> (\<exists>n. de_Hostname d = hostname @ ''-'' @ n \<and> isNumeric n)"
proof (cases "de_Hostname d = hostname")
  case False
  with assms have p: "has_prefix (de_Hostname d) (hostname @ ''-'')" and n: "isNumeric (drop (length hostname + 1) (de_Hostname d))"
    by (auto simp: isDeviceMatch_def split: if_splits)
  from p obtain t where "de_Hostname d = (hostname @ ''-'') @ t" by (auto simp: has_prefix_iff)
  with n show ?thesis by auto
qed simp

lemma double_times_exact:
  "0 \<le> b \<Longrightarrow> b * 2 ^ n \<le> int64_max \<Longrightarrow> double_times n b = b * 2 ^ n"
proof (induction n arbitrary: b)
  case (Suc n)
  have le: "b * 2 \<le> b * 2 ^ Suc n" using Suc.prems(1) by (intro mult_left_mono) (simp_all add: self_le_power)
  then have "in_int64 (b * 2)" using Suc.prems by (auto simp: in_int64_def int64_min_def)
  then have w: "wrap64 (b * 2) = b * 2" by (rule wrap64_id)
  have "double_times n (b * 2) = b * 2 * 2 ^ n" using Suc.prems by (intro Suc.IH) simp_all
  with w show ?case by simp
qed simp

lemma start_retry_loop_waits:
  "length (snd (start_retry_loop p start ctxDone a n e)) \<le> n \<and>
   (\<forall>i < length (snd (start_retry_loop p start ctxDone a n e)). snd (start_retry_loop p start ctxDone a n e) ! i = start_backoff p (a + i))"
proof (induction n arbitrary: a e)
  case (Suc n)
  show ?case
    using Suc.IH [of "a + 1"] by (auto simp: Let_def nth_Cons split: option.splits nat.splits)
qed simp

lemma start_retry_loop_success:
  "fst (start_retry_loop p start ctxDone a n e) = None \<longleftrightarrow>
     (\<exists>k < n. start (a + k) = None \<and> (\<forall>j < k. \<exists>err. start (a + j) = Some err \<and> IsRecoverable err \<and> \<not> ctxDone (a + j)))"
proof (induction n arbitrary: a e)
  case (Suc n)
  show ?case
  proof (cases "start a")
    case None
    then show ?thesis by (auto intro: exI [of _ 0])
  next
    case (Some err)
    show ?thesis
    proof (cases "IsRecoverable err \<and> \<not> ctxDone a")
      case True
      have "(\<exists>k < Suc n. start (a + k) = None \<and> (\<forall>j < k. \<exists>err. start (a + j) = Some err \<and> IsRecoverable err \<and> \<not> ctxDone (a + j))) \<longleftrightarrow>
        (\<exists>k < n. start (a + 1 + k) = None \<and> (\<forall>j < k. \<exists>err. start (a + 1 + j) = Some err \<and> IsRecoverable err \<and> \<not> ctxDone (a + 1 + j)))"
        (is "?L \<longleftrightarrow> ?R")
      proof
        assume ?L
        then obtain k where k: "k < Suc n" "start (a + k) = None" "\<forall>j < k. \<exists>err. start (a + j) = Some err \<and> IsRecoverable err \<and> \<not> ctxDone (a + j)" by blast
        then obtain k' where "k = Suc k'" using Some by (cases k) auto
        with k show ?R by (intro exI [of _ k']) (force simp: add.assoc)
      next
        assume ?R
        then obtain k where k: "k < n" "start (a + 1 + k) = None" "\<forall>j < k. \<exists>err. start (a + 1 + j) = Some err \<and> IsRecoverable err \<and> \<not> ctxDone (a + 1 + j)" by blast
        have "\<exists>err. start (a + j) = Some err \<and> IsRecoverable err \<and> \<not> ctxDone (a + j)" if "j < Suc k" for j
          using that k(3) Some True by (cases j) auto
        with k show ?L by (intro exI [of _ "Suc k"]) auto
      qed
      with Some True Suc.IH [of "a + 1" err] show ?thesis by (simp add: Let_def)
    next
      case False
      have "\<not> (\<exists>k < Suc n. start (a + k) = None \<and> (\<forall>j < k. \<exists>err. start (a + j) = Some err \<and> IsRecoverable err \<and> \<not> ctxDone (a + j)))"
      proof
        assume "\<exists>k < Suc n. start (a + k) = None \<and> (\<forall>j < k. \<exists>err. start (a + j) = Some err \<and> IsRecoverable err \<and> \<not> ctxDone (a + j))"
        then obtain k where k: "start (a + k) = None" "\<forall>j < k. \<exists>err. start (a + j) = Some err \<and> IsRecoverable err \<and> \<not> ctxDone (a + j)" by blast
        then have "0 < k" using Some by (cases k) auto
        with k(2) [rule_format, of 0] Some False show False by auto
      qed
      with False Some show ?thesis by (auto simp: Let_def)
    qed
  qed
qed simp

lemma cert_loop_waits:
  assumes "0 < b" "b \<le> certRetryMax"
  shows "length (snd (cert_loop obs a n b)) \<le> n \<and> (\<forall>w \<in> set (snd (cert_loop obs a n b)). 0 < w \<and> w \<le> certRetryMax)"
  using assms
proof (induction n arbitrary: a b)
  case (Suc n)
  have w: "wrap64 (b * 2) = b * 2"
    using Suc.prems by (intro wrap64_id) (simp add: in_int64_def int64_min_def int64_max_def certRetryMax_def)
  let ?b = "if b * 2 > certRetryMax then certRetryMax else b * 2"
  have "0 < ?b" "?b \<le> certRetryMax" using Suc.prems by (auto simp: certRetryMax_def)
  from Suc.IH [OF this, of "a + 1"] Suc.prems w show ?case
    by (auto simp: Let_def split: cert_obs.splits)
qed simp

lemma Reconcile_deletes:
  assumes "DeleteDevice n \<in> set (Reconcile factory listDevices getDevice hostname tags cfg)"
  obtains tag devices d cur where "listDevices tag = Inr devices" "d \<in> set devices" "getDevice (de_NodeID d) = Some cur" "n = de_NodeID cur"
    "de_Hostname d = hostname \<or> (\<exists>k. de_Hostname d = hostname @ ''-'' @ k \<and> isNumeric k)"
    "ro_force cfg \<or> \<not> de_Connected d \<and> \<not> de_Connected cur" "de_Hostname d = hostname \<longrightarrow> \<not> ro_hasLocalState cfg \<or> \<not> de_Connected d"
proof -
  obtain tag devices d where d: "listDevices tag = Inr devices" "d \<in> set devices" "DeleteDevice n \<in> set (processDevice getDevice d hostname cfg)"
    using assms
    by (cases "cleanTags tags"; cases "listDevices (hd (cleanTags tags))") (auto simp: Reconcile_def split: if_splits)
  then obtain cur where "getDevice (de_NodeID d) = Some cur" "n = de_NodeID cur" "ro_force cfg \<or> \<not> de_Connected d \<and> \<not> de_Connected cur"
    and m: "isDeviceMatch d hostname cfg"
    by (cases "getDevice (de_NodeID d)") (auto simp: processDevice_def split: if_splits)
  with d isDeviceMatch_name [OF m] show thesis using that m by (auto simp: isDeviceMatch_def)
qed

section \<open>Properties\<close>

text \<open>
  C31: when a node starts, a device is deleted from the tailnet only if its name is the node's own
  or the node's followed by a dash and digits, and only if it is offline in the list and still
  offline when looked at again, unless the node has no usable state of its own.
\<close>

theorem node_start_deletes:
  assumes "DeleteDevice n \<in> set (st_effects (snd (NodeLifecycle_Start env nl d)))"
  shows "\<exists>tag devices dev cur. ve_listDevices env tag = Inr devices \<and> dev \<in> set devices \<and>
    ve_getDevice env (de_NodeID dev) = Some cur \<and> n = de_NodeID cur \<and>
    (de_Hostname dev = nc_Hostname (lr_cfg nl) \<or> (\<exists>k. de_Hostname dev = nc_Hostname (lr_cfg nl) @ ''-'' @ k \<and> isNumeric k)) \<and>
    (\<not> de_Connected dev \<and> \<not> de_Connected cur \<or> \<not> StateExists d \<or> fst (CleanStale (ve_removeDir env) (lr_cfg nl) d))"
proof -
  let ?ex = "if fst (CleanStale (ve_removeDir env) (lr_cfg nl) d) then False else StateExists d"
  have "DeleteDevice n \<in> set (Reconcile (ve_factory env) (ve_listDevices env) (ve_getDevice env) (nc_Hostname (lr_cfg nl)) (nc_Tags (lr_cfg nl)) (reconcile_options ?ex))"
    using assms by (auto simp: NodeLifecycle_Start_def Let_def split_beta split: sum.splits option.splits if_splits)
  then obtain tag devices dev cur where "ve_listDevices env tag = Inr devices" "dev \<in> set devices" "ve_getDevice env (de_NodeID dev) = Some cur"
    "n = de_NodeID cur" "de_Hostname dev = nc_Hostname (lr_cfg nl) \<or> (\<exists>k. de_Hostname dev = nc_Hostname (lr_cfg nl) @ ''-'' @ k \<and> isNumeric k)"
    "ro_force (reconcile_options ?ex) \<or> \<not> de_Connected dev \<and> \<not> de_Connected cur"
    by (rule Reconcile_deletes)
  then show ?thesis
    by (intro exI [of _ tag] exI [of _ devices] exI [of _ dev] exI [of _ cur]) (auto simp: reconcile_options_def split: if_splits)
qed

theorem node_start_deletes_witness:
  "\<exists>cur. Some \<lparr>de_Hostname = ''app-1'', de_NodeID = ''n1'', de_Connected = False\<rparr> = Some cur \<and> ''n1'' = de_NodeID cur \<and> \<not> de_Connected cur"
proof -
  let ?dev = "\<lparr>de_Hostname = ''app-1'', de_NodeID = ''n1'', de_Connected = False\<rparr>"
  let ?cfg = "\<lparr>nc_Hostname = ''app'', nc_DataDir = ''/d'', nc_ControlURL = [], nc_Tags = ''tag:x'', nc_Mode = [], nc_Ephemeral = False\<rparr>"
  let ?env = "\<lparr>ve_factory = Some (NewAPIClientFactory ''id'' ''secret''), ve_createKey = (\<lambda>_. Inr (Some ''k'')), ve_removeDir = True,
    ve_listDevices = (\<lambda>_. Inr [?dev]), ve_getDevice = (\<lambda>_. Some ?dev), ve_start = (\<lambda>_. None), ve_ctxDone = (\<lambda>_. False), ve_localClient = True\<rparr>"
  let ?nl = "\<lparr>lr_cfg = ?cfg, lr_authCfg = \<lparr>ac_ResolvedAuthKey = [], ac_ProxyAuthKey = [], ac_ProviderAuthKey = []\<rparr>, lr_retry = NewRetryPolicy, lr_reconciler = True\<rparr>"
  let ?d = "Save ?cfg \<lparr>nd_state = True, nd_meta = None\<rparr>"
  have "st_effects (snd (NodeLifecycle_Start ?env ?nl ?d)) = [DeleteDevice ''n1'']" by code_simp
  then have "DeleteDevice ''n1'' \<in> set (st_effects (snd (NodeLifecycle_Start ?env ?nl ?d)))" by simp
  from node_start_deletes [OF this] show ?thesis by auto
qed

text \<open>
  A node without local state deletes every device whose name is its own name, a dash and digits,
  also one that is online: the node of another proxy called \<^verbatim>\<open>app-1\<close> is removed when \<^verbatim>\<open>app\<close> starts.
\<close>

theorem force_deletes_numbered_neighbour:
  "processDevice (\<lambda>_. Some \<lparr>de_Hostname = host @ ''-'' @ show_nat k, de_NodeID = n, de_Connected = True\<rparr>)
     \<lparr>de_Hostname = host @ ''-'' @ show_nat k, de_NodeID = n, de_Connected = True\<rparr> host (reconcile_options False) = [DeleteDevice n]"
proof -
  have "isNumeric (show_nat k)" using show_nat_digits [of k] by (simp add: isNumeric_def list_all_iff)
  moreover have "has_prefix (host @ ''-'' @ show_nat k) (host @ ''-'')" by (simp add: has_prefix_iff)
  ultimately show ?thesis by (simp add: processDevice_def isDeviceMatch_def reconcile_options_def)
qed

text \<open>
  Starting a node tries at most the configured number of times, waiting twice as long after
  each failure up to the maximum; it succeeds exactly when some attempt does and every
  earlier one failed with an error that may be retried. The bound holds as long as the
  doubled delay fits 64 bits.
\<close>

theorem startWithRetry_spec:
  assumes "0 < rp_MaxAttempts p" and b: "0 \<le> rp_InitialBackoff p" "rp_InitialBackoff p * 2 ^ nat (rp_MaxAttempts p) \<le> int64_max"
  shows "(fst (startWithRetry p start ctxDone) = None \<longleftrightarrow>
      (\<exists>k < nat (rp_MaxAttempts p). start k = None \<and> (\<forall>j < k. \<exists>err. start j = Some err \<and> IsRecoverable err \<and> \<not> ctxDone j))) \<and>
    length (snd (startWithRetry p start ctxDone)) \<le> nat (rp_MaxAttempts p) \<and>
    (\<forall>i < length (snd (startWithRetry p start ctxDone)).
       snd (startWithRetry p start ctxDone) ! i = min (rp_InitialBackoff p * 2 ^ i) (rp_MaxBackoff p))"
proof -
  let ?n = "nat (rp_MaxAttempts p)" and ?r = "startWithRetry p start ctxDone"
  have r: "?r = start_retry_loop p start ctxDone 0 ?n []" using assms(1) by (simp add: startWithRetry_def)
  have bo: "start_backoff p i = min (rp_InitialBackoff p * 2 ^ i) (rp_MaxBackoff p)" if "i < ?n" for i
  proof -
    have "(2 :: int) ^ i \<le> 2 ^ ?n" using that by (intro power_increasing) simp_all
    then have "rp_InitialBackoff p * 2 ^ i \<le> rp_InitialBackoff p * 2 ^ ?n" using b(1) by (rule mult_left_mono)
    then have "double_times i (rp_InitialBackoff p) = rp_InitialBackoff p * 2 ^ i" using b by (intro double_times_exact) auto
    then show ?thesis by (simp add: start_backoff_def Let_def min_def)
  qed
  have "length (snd ?r) \<le> ?n" "\<forall>i < length (snd ?r). snd ?r ! i = start_backoff p i"
    using start_retry_loop_waits [of p start ctxDone 0 ?n "[]"] by (simp_all add: r)
  moreover have "fst ?r = None \<longleftrightarrow> (\<exists>k < ?n. start k = None \<and> (\<forall>j < k. \<exists>err. start j = Some err \<and> IsRecoverable err \<and> \<not> ctxDone j))"
    using start_retry_loop_success [of p start ctxDone 0 ?n "[]"] by (simp add: r)
  ultimately show ?thesis using bo by simp
qed

theorem startWithRetry_spec_witness:
  "fst (startWithRetry NewRetryPolicy (\<lambda>i. if i < 2 then Some ''timeout'' else None) (\<lambda>_. False)) = None"
proof -
  have "IsRecoverable ''timeout''" by code_simp
  then show ?thesis
    using startWithRetry_spec [of NewRetryPolicy "\<lambda>i. if i < 2 then Some ''timeout'' else None" "\<lambda>_. False"]
    by (auto simp: NewRetryPolicy_def int64_max_def intro: exI [of _ 2])
qed

text \<open>With the default delays the 64-bit doubling overflows at the 34th attempt: the delay is negative, so there is no wait.\<close>

lemma start_backoff_overflow: "start_backoff NewRetryPolicy 32 = 30000000000 \<and> start_backoff NewRetryPolicy 33 < 0"
  by code_simp

text \<open>
  A node whose configuration has not changed keeps its state: after the metadata has been
  saved, the check for stale state with the same configuration removes nothing; with
  another host name (or mode, or ephemeral flag) it removes the whole directory.
\<close>

theorem state_roundtrip:
  "CleanStale removed cfg (Save cfg d) = (False, Save cfg d) \<and>
   (nd_state d \<and> removed \<and> nc_Hostname cfg \<noteq> [] \<and> nc_Hostname cfg \<noteq> nc_Hostname cfg' \<longrightarrow>
     CleanStale removed cfg' (Save cfg d) = (True, \<lparr>nd_state = False, nd_meta = None\<rparr>))"
  by (auto simp: CleanStale_def Save_def state_changed_def state_meta_def)

theorem state_roundtrip_witness:
  "\<exists>cfg cfg'. CleanStale True cfg' (Save cfg \<lparr>nd_state = True, nd_meta = None\<rparr>) = (True, \<lparr>nd_state = False, nd_meta = None\<rparr>)"
proof -
  let ?c = "\<lambda>h. \<lparr>nc_Hostname = h, nc_DataDir = [], nc_ControlURL = [], nc_Tags = [], nc_Mode = [], nc_Ephemeral = False\<rparr>"
  have "CleanStale True (?c ''b'') (Save (?c ''a'') \<lparr>nd_state = True, nd_meta = None\<rparr>) = (True, \<lparr>nd_state = False, nd_meta = None\<rparr>)"
    using state_roundtrip [of True "?c ''a''" "\<lparr>nd_state = True, nd_meta = None\<rparr>" "?c ''b''"] by simp
  then show ?thesis by blast
qed

text \<open>
  The auth key of a node is the resolved one if there is one, else the proxy's own, else one
  made through OAuth when OAuth is configured, else the provider's; OAuth without a tag is an
  error, and is not silently replaced by the provider's key.
\<close>

theorem ResolveKey_precedence:
  "ResolveKey factory create cfg tags =
     (if ac_ResolvedAuthKey cfg \<noteq> [] then Inr (ac_ResolvedAuthKey cfg)
      else if ac_ProxyAuthKey cfg \<noteq> [] then Inr (ac_ProxyAuthKey cfg)
      else case factory of
             None \<Rightarrow> Inr (ac_ProviderAuthKey cfg)
           | Some f \<Rightarrow>
               if \<not> IsAvailable f then Inr (ac_ProviderAuthKey cfg)
               else if cleanTags tags = [] then Inl NoTags
               else case create (cleanTags tags) of
                      Inl err \<Rightarrow> Inl (if IsAuthError err then OAuthRejected (cleanTags tags) err else OAuthFailed err)
                    | Inr None \<Rightarrow> Inl (EmptyKey (cleanTags tags))
                    | Inr (Some k) \<Rightarrow> Inr (if k = [] then ac_ProviderAuthKey cfg else k))"
  by (auto simp: ResolveKey_def GenerateOAuthKey_def Let_def split: option.splits sum.splits)

text \<open>
  Fetching a certificate makes at most six attempts, and every wait between them is positive and
  at most five minutes, whatever the node answers.
\<close>

theorem cert_waits_bounded:
  "length (snd (acquireCertForDomain hasClient domain hasSem obs)) \<le> 6 \<and>
   list_all (\<lambda>w. 0 < w \<and> w \<le> 300000000000) (snd (acquireCertForDomain hasClient domain hasSem obs))"
  using cert_loop_waits [of certRetryInit obs 0 certMaxAttempts]
  by (auto simp: acquireCertForDomain_def certRetryInit_def certRetryMax_def certMaxAttempts_def list_all_iff)

end
