(* ===== verification/Services_Server.thy ===== *)
theory Services_Server
  imports Shared_Server
begin

text \<open>
  \<^verbatim>\<open>src/internal/proxyproviders/tailscale/services_server.go\<close>: the node shared by the proxies of the
  services mode. As in \<^verbatim>\<open>Shared_Server\<close> one goroutine owns the state, but the calls to the
  Tailscale API are made by worker goroutines: an acquire or a release starts a worker, and
  the worker sends its result back to the loop as a command. The model interleaves the
  steps of the workers with those of the loop in every order.
\<close>

section \<open>Names and ports\<close>

definition serviceKey :: "string \<Rightarrow> nat \<Rightarrow> string" where
  "serviceKey serviceName port = serviceName @ '':'' @ show_nat port"

definition port_spec :: "nat \<Rightarrow> string" where
  "port_spec p = ''tcp:'' @ show_nat p"

record serviceEntry =
  sv_listener :: nat
  sv_serviceName :: string
  sv_port :: nat
  sv_https :: bool

record servicesRuntime =
  vr_server :: "nat option"
  vr_factory :: bool
  vr_listeners :: "(string, serviceEntry) gomap"
  vr_subs :: "(nat, ProxyEvent list) gomap"
  vr_authURL :: string
  vr_refCount :: int
  vr_pendingCount :: int
  vr_gen :: nat
  vr_running :: bool

definition service_ports :: "servicesRuntime \<Rightarrow> string \<Rightarrow> nat list" where
  "service_ports rt name = map sv_port (filter (\<lambda>e. sv_serviceName e = name) (map snd (vr_listeners rt)))"

definition collectServicePorts :: "servicesRuntime \<Rightarrow> string \<Rightarrow> nat \<Rightarrow> string list" where
  "collectServicePorts rt name newPort = sort (map port_spec (remdups (newPort # service_ports rt name)))"

definition collectExistingServicePorts :: "servicesRuntime \<Rightarrow> string \<Rightarrow> string list" where
  "collectExistingServicePorts rt name = sort (map port_spec (service_ports rt name))"

definition withoutPort :: "string list \<Rightarrow> nat \<Rightarrow> string list" where
  "withoutPort ports port = filter (\<lambda>p. p \<noteq> port_spec port) ports"

section \<open>The loop\<close>

datatype servicesState = servicesIdle | servicesRunning | servicesClosed

record acquireServiceCmd =
  aq_serviceName :: string
  aq_port :: nat
  aq_https :: bool
  aq_tcp :: bool

record releaseServiceCmd =
  rl_serviceName :: string
  rl_port :: nat

text \<open>The worker goroutines: what they were asked, the generation and the factory they captured, and how far they are.\<close>

datatype acquire_phase =
    AqCreate
  | AqListen
  | AqApprove nat
  | AqRelisten
  | AqSend "string + nat"
  | AqQueued "string + nat"

datatype release_phase = RlCall | RlSend bool | RlQueued bool

datatype worker =
    AcquireWorker acquireServiceCmd nat "string list" bool acquire_phase
  | ReleaseWorker releaseServiceCmd nat "string list" release_phase

datatype service_reply =
    ServiceAcquired nat
  | ServiceError string
  | ServiceReleased
  | ServicePending

record services_loop =
  zl_state :: servicesState
  zl_rt :: "servicesRuntime option"
  zl_nextGen :: nat
  zl_idleTimer :: "nat option"
  zl_handles :: handles
  zl_localClient :: bool
  zl_authURL :: string

definition NewServicesServer :: services_loop where
  "NewServicesServer = \<lparr>zl_state = servicesIdle, zl_rt = None, zl_nextGen = 0, zl_idleTimer = None,
     zl_handles = \<lparr>hs_next = 0, hs_open = []\<rparr>, zl_localClient = False, zl_authURL = []\<rparr>"

text \<open>How the start of the node ends: with an error, without a factory and a server, or with a node.\<close>

datatype services_start = StartErr string | StartNoFactory | StartNode

definition svc_startRuntime :: "services_start \<Rightarrow> services_loop \<Rightarrow> (string + servicesRuntime) \<times> services_loop" where
  "svc_startRuntime start s =
     (case start of
        StartErr e \<Rightarrow> (Inl e, s)
      | StartNoFactory \<Rightarrow> (Inl ''lifecycle provider returned nil factory and server'', s\<lparr>zl_localClient := True\<rparr>)
      | StartNode \<Rightarrow>
          let (srv, h) = h_open (zl_handles s)
          in (Inr \<lparr>vr_server = Some srv, vr_factory = True, vr_listeners = [], vr_subs = [], vr_authURL = [],
                  vr_refCount = 0, vr_pendingCount = 0, vr_gen = 0, vr_running = False\<rparr>,
              s\<lparr>zl_handles := h, zl_localClient := True\<rparr>))"

definition svc_stopRuntime :: "servicesRuntime \<Rightarrow> services_loop \<Rightarrow> services_loop" where
  "svc_stopRuntime rt s =
     (let h1 = h_close_all (map (\<lambda>ke. sv_listener (snd ke)) (vr_listeners rt)) (zl_handles s);
          h2 = (case vr_server rt of None \<Rightarrow> h1 | Some srv \<Rightarrow> h_close srv h1)
      in s\<lparr>zl_handles := h_close_all (map fst (vr_subs rt)) h2, zl_localClient := False, zl_authURL := []\<rparr>)"

definition acquire_existing :: "acquireServiceCmd \<Rightarrow> servicesRuntime \<Rightarrow> services_loop \<Rightarrow> service_reply \<times> worker option \<times> services_loop" where
  "acquire_existing c rt s =
     (if gm_get (vr_listeners rt) (serviceKey (aq_serviceName c) (aq_port c)) \<noteq> None
      then (ServiceError ''already acquired'', None, s)
      else (ServicePending,
            Some (AcquireWorker c (vr_gen rt) (collectServicePorts rt (aq_serviceName c) (aq_port c)) (vr_factory rt) AqCreate),
            s\<lparr>zl_rt := Some (rt\<lparr>vr_pendingCount := vr_pendingCount rt + 1\<rparr>)\<rparr>))"

text \<open>\<^verbatim>\<open>handleAcquireService\<close>: the reply, the worker it starts, and the new state.\<close>

definition handleAcquireService :: "services_start \<Rightarrow> acquireServiceCmd \<Rightarrow> services_loop \<Rightarrow> service_reply \<times> worker option \<times> services_loop" where
  "handleAcquireService start c s =
     (case (zl_state s, zl_rt s) of
        (servicesIdle, None) \<Rightarrow>
          (case svc_startRuntime start s of
             (Inl e, s') \<Rightarrow> (ServiceError e, None, s')
           | (Inr rt, s') \<Rightarrow>
               let rt' = rt\<lparr>vr_gen := zl_nextGen s'\<rparr>
               in acquire_existing c rt' (s'\<lparr>zl_rt := Some rt', zl_nextGen := zl_nextGen s' + 1, zl_state := servicesRunning\<rparr>))
      | (servicesIdle, Some rt) \<Rightarrow> acquire_existing c rt (s\<lparr>zl_state := servicesRunning\<rparr>)
      | (_, Some rt) \<Rightarrow> acquire_existing c rt s
      | (_, None) \<Rightarrow> (ServiceError ''no runtime'', None, s))"

definition maybeTransitionToIdle :: "servicesRuntime \<Rightarrow> services_loop \<Rightarrow> services_loop" where
  "maybeTransitionToIdle rt s =
     (if vr_refCount rt \<le> 0 \<and> vr_pendingCount rt \<le> 0
      then (svc_stopRuntime rt s)\<lparr>zl_state := servicesIdle, zl_rt := None\<rparr> else s\<lparr>zl_rt := Some rt\<rparr>)"

definition close_result :: "(string + nat) \<Rightarrow> services_loop \<Rightarrow> services_loop" where
  "close_result res s = (case res of Inl _ \<Rightarrow> s | Inr l \<Rightarrow> s\<lparr>zl_handles := h_close l (zl_handles s)\<rparr>)"

text \<open>
  \<^verbatim>\<open>handleAcquireWorkResult\<close>; \<open>closing\<close> is the state \<^verbatim>\<open>servicesClosed\<close> that \<^verbatim>\<open>handleClose\<close> passes. Without a
  runtime the listener is not closed, as in the code.
\<close>

definition handleAcquireWorkResult :: "bool \<Rightarrow> acquireServiceCmd \<Rightarrow> nat \<Rightarrow> (string + nat) \<Rightarrow> services_loop \<Rightarrow> service_reply \<times> services_loop" where
  "handleAcquireWorkResult closing c gen res s =
     (case zl_rt s of
        None \<Rightarrow> (ServiceError ''services server closed during acquire'', s)
      | Some rt0 \<Rightarrow>
          let rt = rt0\<lparr>vr_pendingCount := vr_pendingCount rt0 - 1\<rparr>; s = s\<lparr>zl_rt := Some rt\<rparr>
          in if closing \<or> gen \<noteq> vr_gen rt then (ServiceError ''services server closed during acquire'', close_result res s)
             else case res of
                    Inl e \<Rightarrow> (ServiceError e, maybeTransitionToIdle rt s)
                  | Inr l \<Rightarrow>
                      let key = serviceKey (aq_serviceName c) (aq_port c)
                      in if gm_get (vr_listeners rt) key \<noteq> None
                         then (ServiceError ''already acquired'', maybeTransitionToIdle rt (close_result res s))
                         else (ServiceAcquired l,
                               s\<lparr>zl_state := servicesRunning,
                                 zl_rt := Some (rt\<lparr>vr_listeners := gm_put key \<lparr>sv_listener = l, sv_serviceName = aq_serviceName c,
                                                     sv_port = aq_port c, sv_https = aq_https c\<rparr> (vr_listeners rt),
                                                   vr_refCount := vr_refCount rt + 1\<rparr>)\<rparr>))"

definition handleReleaseService :: "releaseServiceCmd \<Rightarrow> services_loop \<Rightarrow> service_reply \<times> worker option \<times> services_loop" where
  "handleReleaseService c s =
     (case zl_rt s of
        None \<Rightarrow> (ServiceReleased, None, s)
      | Some rt \<Rightarrow>
          if zl_state s \<noteq> servicesRunning then (ServiceReleased, None, s)
          else let key = serviceKey (rl_serviceName c) (rl_port c)
               in case gm_get (vr_listeners rt) key of
                    None \<Rightarrow> (ServiceReleased, None, if vr_refCount rt \<le> 0 then s\<lparr>zl_state := servicesIdle\<rparr> else s)
                  | Some entry \<Rightarrow>
                      let rt' = rt\<lparr>vr_listeners := gm_del key (vr_listeners rt), vr_refCount := vr_refCount rt - 1,
                                  vr_pendingCount := vr_pendingCount rt + 1\<rparr>
                      in (ServicePending, Some (ReleaseWorker c (vr_gen rt) (collectExistingServicePorts rt' (rl_serviceName c)) RlCall),
                          s\<lparr>zl_rt := Some rt', zl_handles := h_close (sv_listener entry) (zl_handles s)\<rparr>))"

definition handleReleaseWorkResult :: "bool \<Rightarrow> nat \<Rightarrow> services_loop \<Rightarrow> service_reply \<times> services_loop" where
  "handleReleaseWorkResult closing gen s =
     (case zl_rt s of
        None \<Rightarrow> (ServiceReleased, s)
      | Some rt0 \<Rightarrow>
          let rt = rt0\<lparr>vr_pendingCount := vr_pendingCount rt0 - 1\<rparr>; s = s\<lparr>zl_rt := Some rt\<rparr>
          in if closing \<or> gen \<noteq> vr_gen rt then (ServiceReleased, s) else (ServiceReleased, maybeTransitionToIdle rt s))"

definition svc_handleIdleTimeout :: "nat \<Rightarrow> services_loop \<Rightarrow> services_loop" where
  "svc_handleIdleTimeout gen s =
     (case zl_rt s of
        None \<Rightarrow> s
      | Some rt \<Rightarrow> if zl_state s = servicesIdle \<and> gen = vr_gen rt then (svc_stopRuntime rt s)\<lparr>zl_rt := None\<rparr> else s)"

definition svc_handleWatchUpdate :: "string \<Rightarrow> ProxyStatus \<Rightarrow> string \<Rightarrow> services_loop \<Rightarrow> services_loop" where
  "svc_handleWatchUpdate authURL status err s =
     (let s = (if authURL \<noteq> [] then s\<lparr>zl_authURL := authURL, zl_rt := map_option (\<lambda>rt. rt\<lparr>vr_authURL := authURL\<rparr>) (zl_rt s)\<rparr> else s);
          evt = \<lparr>ev_ID = [], ev_Port = [], ev_AuthURL = [], ev_ErrorMessage = err, ev_Status = status, ev_OldStatus = ProxyStatusInitializing\<rparr>
      in s\<lparr>zl_rt := map_option (\<lambda>rt.
             rt\<lparr>vr_running := (vr_running rt \<or> status = ProxyStatusRunning),
                vr_subs := (if status \<noteq> ProxyStatusInitializing then map (\<lambda>(c, buf). (c, offer_event evt buf)) (vr_subs rt) else vr_subs rt)\<rparr>) (zl_rt s)\<rparr>)"

definition svc_handleGetAuthURL :: "services_loop \<Rightarrow> string" where
  "svc_handleGetAuthURL s =
     (case zl_rt s of
        Some rt \<Rightarrow> if vr_authURL rt \<noteq> [] then vr_authURL rt else zl_authURL s
      | None \<Rightarrow> zl_authURL s)"

definition svc_placeholder :: servicesRuntime where
  "svc_placeholder = \<lparr>vr_server = None, vr_factory = False, vr_listeners = [], vr_subs = [], vr_authURL = [],
     vr_refCount = 0, vr_pendingCount = 0, vr_gen = 0, vr_running = False\<rparr>"

definition svc_handleSubscribe :: "services_loop \<Rightarrow> nat \<times> services_loop" where
  "svc_handleSubscribe s =
     (let rt = (case zl_rt s of None \<Rightarrow> svc_placeholder | Some rt \<Rightarrow> rt); (sub, h) = h_open (zl_handles s)
      in (sub, s\<lparr>zl_rt := Some (rt\<lparr>vr_subs := gm_put sub [] (vr_subs rt)\<rparr>), zl_handles := h\<rparr>))"

definition svc_handleUnsubscribe :: "nat \<Rightarrow> services_loop \<Rightarrow> services_loop" where
  "svc_handleUnsubscribe ch s =
     (case zl_rt s of
        None \<Rightarrow> s
      | Some rt \<Rightarrow>
          if gm_get (vr_subs rt) ch = None then s
          else s\<lparr>zl_rt := Some (rt\<lparr>vr_subs := gm_del ch (vr_subs rt)\<rparr>), zl_handles := h_close ch (zl_handles s)\<rparr>)"

text \<open>The timer of the loop: stopped by these commands, set again after a release.\<close>

definition svc_cancelTimer :: "services_loop \<Rightarrow> services_loop" where
  "svc_cancelTimer s = s\<lparr>zl_idleTimer := None\<rparr>"

definition svc_scheduleIdleTimer :: "services_loop \<Rightarrow> services_loop" where
  "svc_scheduleIdleTimer s =
     (case zl_rt s of
        None \<Rightarrow> s
      | Some rt \<Rightarrow> if zl_state s = servicesIdle then s\<lparr>zl_idleTimer := Some (vr_gen rt)\<rparr> else s)"

section \<open>The workers\<close>

text \<open>
  One step of a worker. \<open>AqCreate\<close> cleans up the host name and makes the service, \<open>AqListen\<close> opens the
  listener, \<open>AqApprove\<close> may close it again after the device was approved and \<open>AqRelisten\<close> opens it a second
  time; a worker whose factory is nil cannot listen (the process panics), so it has no step.
\<close>

inductive worker_step :: "worker \<times> handles \<Rightarrow> worker \<times> handles \<Rightarrow> bool" where
  WkCreated: "worker_step (AcquireWorker c g ps f AqCreate, h) (AcquireWorker c g ps f AqListen, h)"
| WkCreateFails: "worker_step (AcquireWorker c g ps f AqCreate, h) (AcquireWorker c g ps f (AqSend (Inl e)), h)"
| WkListening: "f \<Longrightarrow> h_open h = (l, h') \<Longrightarrow> worker_step (AcquireWorker c g ps f AqListen, h) (AcquireWorker c g ps f (AqApprove l), h')"
| WkListenFails: "f \<Longrightarrow> worker_step (AcquireWorker c g ps f AqListen, h) (AcquireWorker c g ps f (AqSend (Inl e)), h)"
| WkNotApproved: "worker_step (AcquireWorker c g ps f (AqApprove l), h) (AcquireWorker c g ps f (AqSend (Inr l)), h)"
| WkReadvertise: "worker_step (AcquireWorker c g ps f (AqApprove l), h) (AcquireWorker c g ps f AqRelisten, h_close l h)"
| WkRelistening: "h_open h = (l, h') \<Longrightarrow> worker_step (AcquireWorker c g ps f AqRelisten, h) (AcquireWorker c g ps f (AqSend (Inr l)), h')"
| WkRelistenFails: "worker_step (AcquireWorker c g ps f AqRelisten, h) (AcquireWorker c g ps f (AqSend (Inl e)), h)"
| WkReleased: "worker_step (ReleaseWorker rc g ps RlCall, h) (ReleaseWorker rc g ps (RlSend err), h)"

text \<open>\<^verbatim>\<open>sendProducer\<close>: the result goes into the queue of the loop.\<close>

fun worker_send :: "worker \<Rightarrow> worker option" where
  "worker_send (AcquireWorker c g ps f (AqSend r)) = Some (AcquireWorker c g ps f (AqQueued r))"
| "worker_send (ReleaseWorker rc g ps (RlSend b)) = Some (ReleaseWorker rc g ps (RlQueued b))"
| "worker_send _ = None"

text \<open>When the result cannot be sent, the worker closes its listener and ends.\<close>

fun worker_abort :: "worker \<Rightarrow> handles \<Rightarrow> handles option" where
  "worker_abort (AcquireWorker c g ps f (AqSend (Inl e))) h = Some h"
| "worker_abort (AcquireWorker c g ps f (AqSend (Inr l))) h = Some (h_close l h)"
| "worker_abort (ReleaseWorker rc g ps (RlSend b)) h = Some h"
| "worker_abort _ h = None"

fun worker_gen :: "worker \<Rightarrow> nat" where
  "worker_gen (AcquireWorker c g ps f ph) = g"
| "worker_gen (ReleaseWorker rc g ps ph) = g"

fun worker_factory :: "worker \<Rightarrow> bool" where
  "worker_factory (AcquireWorker c g ps f ph) = f"
| "worker_factory (ReleaseWorker rc g ps ph) = True"

fun worker_handles :: "worker \<Rightarrow> nat list" where
  "worker_handles (AcquireWorker c g ps f (AqApprove l)) = [l]"
| "worker_handles (AcquireWorker c g ps f (AqSend (Inr l))) = [l]"
| "worker_handles (AcquireWorker c g ps f (AqQueued (Inr l))) = [l]"
| "worker_handles _ = []"

section \<open>The server, its workers and its clients\<close>

text \<open>
  A client releases a service it holds. Subscribing is only done while the server has a
  runtime; what happens otherwise is shown at the end. \<^verbatim>\<open>handleClose\<close> goes on handling results
  until none is pending or its timeout ends the wait, then stops the runtime.
\<close>

type_synonym service_lease = "string \<times> nat \<times> nat"

record services_world =
  zw_loop :: services_loop
  zw_workers :: "worker list"
  zw_leases :: "service_lease list"
  zw_closing :: bool
  zw_exited :: bool

definition remove_nth :: "nat \<Rightarrow> 'a list \<Rightarrow> 'a list" where
  "remove_nth i xs = take i xs @ drop (Suc i) xs"

definition spawn :: "worker option \<Rightarrow> worker list" where
  "spawn w = (case w of None \<Rightarrow> [] | Some x \<Rightarrow> [x])"

definition granted :: "acquireServiceCmd \<Rightarrow> service_reply \<Rightarrow> service_lease list" where
  "granted c r = (case r of ServiceAcquired l \<Rightarrow> [(aq_serviceName c, aq_port c, l)] | _ \<Rightarrow> [])"

definition open_for :: "services_world \<Rightarrow> bool" where
  "open_for w \<longleftrightarrow> \<not> zw_closing w \<and> \<not> zw_exited w"

inductive services_step :: "services_world \<Rightarrow> services_world \<Rightarrow> bool" where
  ZAcquire: "open_for w \<Longrightarrow> handleAcquireService start c (svc_cancelTimer (zw_loop w)) = (r, wk, s) \<Longrightarrow>
    services_step w (w\<lparr>zw_loop := s, zw_workers := zw_workers w @ spawn wk\<rparr>)"
| ZRelease: "open_for w \<Longrightarrow> (rl_serviceName c, rl_port c, l) \<in> set (zw_leases w) \<Longrightarrow>
    handleReleaseService c (svc_cancelTimer (zw_loop w)) = (r, wk, s) \<Longrightarrow>
    services_step w (w\<lparr>zw_loop := svc_scheduleIdleTimer s, zw_workers := zw_workers w @ spawn wk,
                      zw_leases := remove1 (rl_serviceName c, rl_port c, l) (zw_leases w)\<rparr>)"
| ZAcquired: "\<not> zw_exited w \<Longrightarrow> i < length (zw_workers w) \<Longrightarrow> zw_workers w ! i = AcquireWorker c g ps f (AqQueued res) \<Longrightarrow>
    handleAcquireWorkResult (zw_closing w) c g res (svc_cancelTimer (zw_loop w)) = (r, s) \<Longrightarrow>
    services_step w (w\<lparr>zw_loop := s, zw_workers := remove_nth i (zw_workers w), zw_leases := granted c r @ zw_leases w\<rparr>)"
| ZReleased: "\<not> zw_exited w \<Longrightarrow> i < length (zw_workers w) \<Longrightarrow> zw_workers w ! i = ReleaseWorker rc g ps (RlQueued b) \<Longrightarrow>
    handleReleaseWorkResult (zw_closing w) g (svc_cancelTimer (zw_loop w)) = (r, s) \<Longrightarrow>
    services_step w (w\<lparr>zw_loop := svc_scheduleIdleTimer s, zw_workers := remove_nth i (zw_workers w)\<rparr>)"
| ZWorker: "i < length (zw_workers w) \<Longrightarrow> worker_step (zw_workers w ! i, zl_handles (zw_loop w)) (wk, h) \<Longrightarrow>
    services_step w (w\<lparr>zw_loop := (zw_loop w)\<lparr>zl_handles := h\<rparr>, zw_workers := (zw_workers w)[i := wk]\<rparr>)"
| ZSend: "\<not> zw_exited w \<Longrightarrow> i < length (zw_workers w) \<Longrightarrow> worker_send (zw_workers w ! i) = Some wk \<Longrightarrow>
    services_step w (w\<lparr>zw_workers := (zw_workers w)[i := wk]\<rparr>)"
| ZAbort: "zw_exited w \<Longrightarrow> i < length (zw_workers w) \<Longrightarrow> worker_abort (zw_workers w ! i) (zl_handles (zw_loop w)) = Some h \<Longrightarrow>
    services_step w (w\<lparr>zw_loop := (zw_loop w)\<lparr>zl_handles := h\<rparr>, zw_workers := remove_nth i (zw_workers w)\<rparr>)"
| ZSubscribe: "open_for w \<Longrightarrow> zl_rt (zw_loop w) \<noteq> None \<Longrightarrow>
    services_step w (w\<lparr>zw_loop := snd (svc_handleSubscribe (zw_loop w))\<rparr>)"
| ZUnsubscribe: "open_for w \<Longrightarrow> services_step w (w\<lparr>zw_loop := svc_handleUnsubscribe ch (zw_loop w)\<rparr>)"
| ZWatch: "open_for w \<Longrightarrow> services_step w (w\<lparr>zw_loop := svc_handleWatchUpdate url st err (zw_loop w)\<rparr>)"
| ZIdle: "open_for w \<Longrightarrow> services_step w (w\<lparr>zw_loop := svc_handleIdleTimeout g (svc_cancelTimer (zw_loop w))\<rparr>)"
| ZClose: "open_for w \<Longrightarrow> services_step w (w\<lparr>zw_loop := svc_cancelTimer (zw_loop w), zw_closing := True\<rparr>)"
| ZCloseDone: "zw_closing w \<Longrightarrow> \<not> zw_exited w \<Longrightarrow>
    services_step w (w\<lparr>zw_loop := (case zl_rt (zw_loop w) of None \<Rightarrow> zw_loop w | Some rt \<Rightarrow> svc_stopRuntime rt (zw_loop w)), zw_exited := True\<rparr>)"

abbreviation services_init :: "services_world \<Rightarrow> bool" where
  "services_init w \<equiv> w = \<lparr>zw_loop = NewServicesServer, zw_workers = [], zw_leases = [], zw_closing = False, zw_exited = False\<rparr>"

definition svc_handles :: "servicesRuntime \<Rightarrow> nat list" where
  "svc_handles rt = (case vr_server rt of None \<Rightarrow> [] | Some s \<Rightarrow> [s]) @ map (\<lambda>ke. sv_listener (snd ke)) (vr_listeners rt) @ map fst (vr_subs rt)"

abbreviation workers_handles :: "worker list \<Rightarrow> nat list" where
  "workers_handles ws \<equiv> concat (map worker_handles ws)"

definition entry_lease :: "string \<times> serviceEntry \<Rightarrow> service_lease" where
  "entry_lease ke = (sv_serviceName (snd ke), sv_port (snd ke), sv_listener (snd ke))"

definition svc_ok :: "bool \<Rightarrow> servicesRuntime \<Rightarrow> worker list \<Rightarrow> service_lease list \<Rightarrow> bool" where
  "svc_ok closing rt ws leases \<longleftrightarrow>
     gm_wf (vr_listeners rt) \<and> gm_wf (vr_subs rt) \<and> vr_factory rt \<and> vr_server rt \<noteq> None \<and>
     (\<forall>k e. gm_get (vr_listeners rt) k = Some e \<longrightarrow> k = serviceKey (sv_serviceName e) (sv_port e)) \<and>
     vr_refCount rt = int (length (vr_listeners rt)) \<and> vr_pendingCount rt = int (length ws) \<and>
     (\<not> closing \<longrightarrow> 0 < vr_refCount rt + vr_pendingCount rt) \<and>
     (\<forall>w \<in> set ws. worker_gen w = vr_gen rt \<and> worker_factory w) \<and>
     mset leases = mset (map entry_lease (vr_listeners rt))"

definition svc_loop_ok :: "bool \<Rightarrow> services_loop \<Rightarrow> worker list \<Rightarrow> service_lease list \<Rightarrow> bool" where
  "svc_loop_ok closing s ws leases \<longleftrightarrow>
     (case zl_rt s of
        None \<Rightarrow> zl_state s = servicesIdle \<and> ws = [] \<and> leases = [] \<and> hs_open (zl_handles s) = []
      | Some rt \<Rightarrow> zl_state s = servicesRunning \<and> svc_ok closing rt ws leases \<and>
          opened (mset (svc_handles rt) + mset (workers_handles ws)) (zl_handles s))"

definition services_inv :: "services_world \<Rightarrow> bool" where
  "services_inv w \<longleftrightarrow>
     (if zw_exited w then opened (mset (workers_handles (zw_workers w))) (zl_handles (zw_loop w)) \<and> (\<forall>x \<in> set (zw_workers w). worker_factory x)
      else svc_loop_ok (zw_closing w) (zw_loop w) (zw_workers w) (zw_leases w))"

subsection \<open>Lemmas\<close>

lemma mset_concat_update:
  "i < length xs \<Longrightarrow> mset (concat (map f (xs[i := x]))) + mset (f (xs ! i)) = mset (concat (map f xs)) + mset (f x)"
proof (induction xs arbitrary: i)
  case (Cons y ys)
  then show ?case by (cases i) (auto simp: ac_simps)
qed simp

lemma remove_nth_split: "i < length xs \<Longrightarrow> xs = take i xs @ xs ! i # drop (Suc i) xs"
  by (rule id_take_nth_drop)

lemma mset_concat_remove_nth:
  assumes "i < length xs"
  shows "mset (concat (map f xs)) = mset (concat (map f (remove_nth i xs))) + mset (f (xs ! i))"
  by (subst (1) remove_nth_split [OF assms]) (simp add: remove_nth_def ac_simps)

lemma remove_nth_length: "i < length xs \<Longrightarrow> length xs = Suc (length (remove_nth i xs))"
  by (simp add: remove_nth_def)

lemma remove_nth_set: "x \<in> set (remove_nth i xs) \<Longrightarrow> x \<in> set xs"
  by (auto simp: remove_nth_def dest: in_set_takeD in_set_dropD)

lemma worker_step_ok:
  assumes "worker_step (w, h) (w', h')" "opened (M + mset (worker_handles w)) h"
  shows "opened (M + mset (worker_handles w')) h' \<and> worker_gen w' = worker_gen w \<and> worker_factory w' = worker_factory w"
  using assms by (cases rule: worker_step.cases) (auto dest: opened_open intro: opened_close)

lemma worker_send_ok:
  "worker_send w = Some w' \<Longrightarrow> worker_handles w' = worker_handles w \<and> worker_gen w' = worker_gen w \<and> worker_factory w' = worker_factory w"
proof (induction w rule: worker_send.induct)
  case (1 c g ps f r)
  then show ?case by (cases r) auto
qed auto

lemma worker_abort_ok: "worker_abort w h = Some h' \<Longrightarrow> opened (M + mset (worker_handles w)) h \<Longrightarrow> opened M h'"
  by (induction w h rule: worker_abort.induct) (auto intro: opened_close)

lemma opened_close_list: "opened (M + mset xs) h \<Longrightarrow> opened M (h_close_all xs h)"
  by (induction xs arbitrary: h) (auto intro: opened_close)

lemma svc_stopRuntime_closes:
  assumes "opened (mset (svc_handles rt) + M) (zl_handles s)"
  shows "opened M (zl_handles (svc_stopRuntime rt s))"
proof -
  let ?srv = "mset (case vr_server rt of None \<Rightarrow> [] | Some s \<Rightarrow> [s])" and ?subs = "mset (map fst (vr_subs rt))"
  have "opened ((M + ?subs + ?srv) + mset (map (\<lambda>ke. sv_listener (snd ke)) (vr_listeners rt))) (zl_handles s)"
    using assms by (simp add: svc_handles_def ac_simps)
  then have "opened (M + ?subs + ?srv) (h_close_all (map (\<lambda>ke. sv_listener (snd ke)) (vr_listeners rt)) (zl_handles s))"
    by (rule opened_close_list)
  then have "opened (M + ?subs) (case vr_server rt of None \<Rightarrow> h_close_all (map (\<lambda>ke. sv_listener (snd ke)) (vr_listeners rt)) (zl_handles s)
    | Some srv \<Rightarrow> h_close srv (h_close_all (map (\<lambda>ke. sv_listener (snd ke)) (vr_listeners rt)) (zl_handles s)))"
    by (auto split: option.splits intro: opened_close)
  then show ?thesis by (auto simp: svc_stopRuntime_def Let_def intro: opened_close_list)
qed

lemma svc_loop_ok_timer [simp]:
  "svc_loop_ok c (svc_cancelTimer s) ws ls = svc_loop_ok c s ws ls" "svc_loop_ok c (svc_scheduleIdleTimer s) ws ls = svc_loop_ok c s ws ls"
  by (auto simp: svc_loop_ok_def svc_cancelTimer_def svc_scheduleIdleTimer_def split: option.splits)

lemma acquire_existing_ok:
  assumes "zl_state s = servicesRunning" "zl_rt s = Some rt" "svc_ok True rt ws ls" "opened (mset (svc_handles rt) + mset (workers_handles ws)) (zl_handles s)"
    "vr_refCount rt + vr_pendingCount rt > 0 \<or> vr_listeners rt = []"
    "acquire_existing c rt s = (r, wk, s')"
  shows "svc_loop_ok False s' (ws @ spawn wk) ls"
  using assms
  by (auto simp: acquire_existing_def svc_loop_ok_def svc_ok_def spawn_def svc_handles_def split: if_splits)

lemma handleAcquireService_ok:
  assumes ok: "svc_loop_ok False s ws ls" and ha: "handleAcquireService start c s = (r, wk, s')"
  shows "svc_loop_ok False s' (ws @ spawn wk) ls"
proof (cases "zl_rt s")
  case (Some rt)
  with ok have o: "zl_state s = servicesRunning" "svc_ok False rt ws ls" "opened (mset (svc_handles rt) + mset (workers_handles ws)) (zl_handles s)"
    by (simp_all add: svc_loop_ok_def)
  then have "acquire_existing c rt s = (r, wk, s')" using ha Some by (simp add: handleAcquireService_def)
  moreover have "svc_ok True rt ws ls" "vr_refCount rt + vr_pendingCount rt > 0" using o(2) by (auto simp: svc_ok_def)
  ultimately show ?thesis using acquire_existing_ok [of s rt ws ls c r wk s'] o Some by blast
next
  case None
  with ok have o: "zl_state s = servicesIdle" "ws = []" "ls = []" "hs_open (zl_handles s) = []" by (simp_all add: svc_loop_ok_def)
  show ?thesis
  proof (cases start)
    case StartNode
    obtain srv h where op: "h_open (zl_handles s) = (srv, h)" by force
    let ?rt = "\<lparr>vr_server = Some srv, vr_factory = True, vr_listeners = [], vr_subs = [], vr_authURL = [],
      vr_refCount = 0, vr_pendingCount = 0, vr_gen = zl_nextGen s, vr_running = False\<rparr>"
    let ?s = "s\<lparr>zl_handles := h, zl_localClient := True, zl_rt := Some ?rt, zl_nextGen := zl_nextGen s + 1, zl_state := servicesRunning\<rparr>"
    have ae: "acquire_existing c ?rt ?s = (r, wk, s')"
      using ha None o(1) StartNode op by (simp add: handleAcquireService_def svc_startRuntime_def Let_def)
    have "opened (add_mset srv {#}) h" by (rule opened_open [OF _ op]) (use o(4) in \<open>simp add: opened_def\<close>)
    then show ?thesis
      using o(2,3) by (intro acquire_existing_ok [OF _ _ _ _ _ ae]) (simp_all add: svc_ok_def svc_handles_def)
  qed (use ha None o in \<open>auto simp: handleAcquireService_def svc_startRuntime_def svc_loop_ok_def spawn_def\<close>)
qed

lemma maybeTransitionToIdle_ok:
  assumes "zl_state s = servicesRunning" "svc_ok True rt ws ls" "opened (mset (svc_handles rt) + mset (workers_handles ws)) (zl_handles s)"
  shows "svc_loop_ok False (maybeTransitionToIdle rt s) ws ls"
proof (cases "vr_refCount rt \<le> 0 \<and> vr_pendingCount rt \<le> 0")
  case True
  with assms(2) have e: "ws = []" "ls = []" by (auto simp: svc_ok_def)
  with assms(3) svc_stopRuntime_closes [of rt "{#}" s] have "opened {#} (zl_handles (svc_stopRuntime rt s))" by simp
  with True e show ?thesis by (simp add: maybeTransitionToIdle_def svc_loop_ok_def opened_def)
next
  case False
  then have "0 < vr_refCount rt + vr_pendingCount rt" using assms(2) unfolding svc_ok_def by linarith
  with False assms show ?thesis by (auto simp: maybeTransitionToIdle_def svc_loop_ok_def svc_ok_def)
qed

lemma svc_ok_done:
  assumes "svc_ok c rt ws ls" "i < length ws"
  shows "svc_ok True (rt\<lparr>vr_pendingCount := vr_pendingCount rt - 1\<rparr>) (remove_nth i ws) ls"
  using assms remove_nth_length [OF assms(2)] by (auto simp: svc_ok_def dest: remove_nth_set)

lemma serviceKey_inj: "serviceKey a p = serviceKey b q \<longleftrightarrow> a = b \<and> p = q"
proof
  assume eq: "serviceKey a p = serviceKey b q"
  have nc: "CHR '':'' \<notin> set (show_nat n)" for n using show_nat_digits [of n] by (auto simp: is_digit_def Let_def)
  have "takeWhile (\<lambda>c. c \<noteq> CHR '':'') (rev (serviceKey x n)) = rev (show_nat n)" for x n
    using nc [of n] by (subst takeWhile_tail [of _ "CHR '':''", symmetric]) (auto simp: serviceKey_def takeWhile_append)
  with eq have "show_nat p = show_nat q" by (metis rev_is_rev_conv)
  with eq show "a = b \<and> p = q" by (simp add: serviceKey_def)
qed simp

lemma acquired_ok:
  assumes "svc_ok True rt ws ls" "gm_get (vr_listeners rt) (serviceKey n p) = None"
  shows "svc_ok c (rt\<lparr>vr_listeners := gm_put (serviceKey n p) \<lparr>sv_listener = l, sv_serviceName = n, sv_port = p, sv_https = b\<rparr> (vr_listeners rt),
      vr_refCount := vr_refCount rt + 1\<rparr>) ws ((n, p, l) # ls)"
  using assms mset_map_put_new [OF assms(2), of entry_lease]
  by (auto simp: svc_ok_def gm_get_None_iff gm_put_new_length entry_lease_def)

lemma handleAcquireWorkResult_ok:
  assumes ok: "svc_loop_ok closing s ws ls" and i: "i < length ws" "ws ! i = AcquireWorker c g ps f (AqQueued res)"
    and ha: "handleAcquireWorkResult closing c g res s = (r, s')"
  shows "svc_loop_ok closing s' (remove_nth i ws) (granted c r @ ls)"
proof -
  obtain rt where rt: "zl_rt s = Some rt" using ok i(1) by (cases "zl_rt s") (auto simp: svc_loop_ok_def)
  with ok have o: "zl_state s = servicesRunning" "svc_ok closing rt ws ls" "opened (mset (svc_handles rt) + mset (workers_handles ws)) (zl_handles s)"
    by (simp_all add: svc_loop_ok_def)
  define rt1 where "rt1 = rt\<lparr>vr_pendingCount := vr_pendingCount rt - 1\<rparr>"
  let ?ws = "remove_nth i ws" and ?wh = "case res of Inl _ \<Rightarrow> [] | Inr l \<Rightarrow> [l]"
  have ok1: "svc_ok True rt1 ?ws ls" using svc_ok_done [OF o(2) i(1)] by (simp add: rt1_def)
  have g: "g = vr_gen rt1" using o(2) nth_mem [OF i(1)] i(2) by (auto simp: svc_ok_def rt1_def)
  have "worker_handles (ws ! i) = ?wh" using i(2) by (cases res) simp_all
  then have op: "opened ((mset (svc_handles rt1) + mset (workers_handles ?ws)) + mset ?wh) (zl_handles s)"
    using o(3) mset_concat_remove_nth [OF i(1), of worker_handles] by (simp add: rt1_def svc_handles_def ac_simps)
  let ?s = "s\<lparr>zl_rt := Some rt1\<rparr>"
  have cl: "opened (mset (svc_handles rt1) + mset (workers_handles ?ws)) (zl_handles (close_result res ?s))"
    using op by (cases res) (auto simp: close_result_def intro: opened_close)
  have cr: "zl_state (close_result res ?s) = servicesRunning" "zl_rt (close_result res ?s) = Some rt1"
    using o(1) by (cases res; simp add: close_result_def)+
  show ?thesis
  proof (cases closing)
    case True
    then have "r = ServiceError ''services server closed during acquire''" "s' = close_result res ?s"
      using ha rt by (simp_all add: handleAcquireWorkResult_def Let_def rt1_def)
    then show ?thesis using True cl cr ok1 by (simp add: svc_loop_ok_def granted_def)
  next
    case False
    show ?thesis
    proof (cases res)
      case (Inl e)
      then have "r = ServiceError e" "s' = maybeTransitionToIdle rt1 ?s"
        using ha rt False g by (simp_all add: handleAcquireWorkResult_def Let_def rt1_def)
      then show ?thesis using False maybeTransitionToIdle_ok [of ?s rt1 ?ws ls] ok1 op o(1) Inl by (simp add: granted_def)
    next
      case (Inr l)
      show ?thesis
      proof (cases "gm_get (vr_listeners rt1) (serviceKey (aq_serviceName c) (aq_port c))")
        case None
        then have r: "r = ServiceAcquired l"
          and s': "s' = ?s\<lparr>zl_state := servicesRunning, zl_rt := Some (rt1\<lparr>vr_listeners := gm_put (serviceKey (aq_serviceName c) (aq_port c))
            \<lparr>sv_listener = l, sv_serviceName = aq_serviceName c, sv_port = aq_port c, sv_https = aq_https c\<rparr> (vr_listeners rt1), vr_refCount := vr_refCount rt1 + 1\<rparr>)\<rparr>"
          using ha rt False g Inr by (simp_all add: handleAcquireWorkResult_def Let_def rt1_def)
        let ?e = "\<lparr>sv_listener = l, sv_serviceName = aq_serviceName c, sv_port = aq_port c, sv_https = aq_https c\<rparr>"
        have "mset (svc_handles (rt1\<lparr>vr_listeners := gm_put (serviceKey (aq_serviceName c) (aq_port c)) ?e (vr_listeners rt1), vr_refCount := vr_refCount rt1 + 1\<rparr>)) =
          add_mset l (mset (svc_handles rt1))"
          using mset_map_put_new [OF None, of "\<lambda>ke. sv_listener (snd ke)" ?e] by (simp add: svc_handles_def)
        then show ?thesis using acquired_ok [OF ok1 None] op Inr False by (simp add: r s' svc_loop_ok_def granted_def)
      next
        case (Some e)
        then have "r = ServiceError ''already acquired''" "s' = maybeTransitionToIdle rt1 (close_result res ?s)"
          using ha rt False g Inr by (simp_all add: handleAcquireWorkResult_def Let_def rt1_def)
        then show ?thesis using False maybeTransitionToIdle_ok [OF cr(1) ok1 cl] by (simp add: granted_def)
      qed
    qed
  qed
qed

lemma handleReleaseWorkResult_ok:
  assumes ok: "svc_loop_ok closing s ws ls" and i: "i < length ws" "ws ! i = ReleaseWorker rc g ps (RlQueued b)"
    and ha: "handleReleaseWorkResult closing g s = (r, s')"
  shows "svc_loop_ok closing s' (remove_nth i ws) ls"
proof -
  obtain rt where rt: "zl_rt s = Some rt" using ok i(1) by (cases "zl_rt s") (auto simp: svc_loop_ok_def)
  with ok have o: "zl_state s = servicesRunning" "svc_ok closing rt ws ls" "opened (mset (svc_handles rt) + mset (workers_handles ws)) (zl_handles s)"
    by (simp_all add: svc_loop_ok_def)
  let ?rt = "rt\<lparr>vr_pendingCount := vr_pendingCount rt - 1\<rparr>" and ?ws = "remove_nth i ws"
  have ok1: "svc_ok True ?rt ?ws ls" by (rule svc_ok_done [OF o(2) i(1)])
  have g: "g = vr_gen rt" using o(2) nth_mem [OF i(1)] i(2) by (auto simp: svc_ok_def)
  have op: "opened (mset (svc_handles ?rt) + mset (workers_handles ?ws)) (zl_handles s)"
    using o(3) mset_concat_remove_nth [OF i(1), of worker_handles] i(2) by (simp add: svc_handles_def)
  show ?thesis
  proof (cases closing)
    case True
    then show ?thesis using ha rt ok1 op o(1) by (auto simp: handleReleaseWorkResult_def Let_def svc_loop_ok_def)
  next
    case False
    then have "s' = maybeTransitionToIdle ?rt (s\<lparr>zl_rt := Some ?rt\<rparr>)" using ha rt g by (auto simp: handleReleaseWorkResult_def Let_def)
    with False maybeTransitionToIdle_ok [of "s\<lparr>zl_rt := Some ?rt\<rparr>" ?rt ?ws ls] ok1 op o(1) show ?thesis by simp
  qed
qed

lemma handleReleaseService_ok:
  assumes ok: "svc_loop_ok False s ws ls" and l: "(rl_serviceName c, rl_port c, l) \<in> set ls"
    and hr: "handleReleaseService c s = (r, wk, s')"
  shows "svc_loop_ok False s' (ws @ spawn wk) (remove1 (rl_serviceName c, rl_port c, l) ls)"
proof -
  obtain rt where rt: "zl_rt s = Some rt" using ok l by (cases "zl_rt s") (auto simp: svc_loop_ok_def)
  with ok have o: "zl_state s = servicesRunning" "svc_ok False rt ws ls" "opened (mset (svc_handles rt) + mset (workers_handles ws)) (zl_handles s)"
    by (simp_all add: svc_loop_ok_def)
  let ?k = "serviceKey (rl_serviceName c) (rl_port c)"
  have wf: "gm_wf (vr_listeners rt)" and ls: "mset ls = mset (map entry_lease (vr_listeners rt))" using o(2) by (simp_all add: svc_ok_def)
  from l ls obtain ke where ke: "ke \<in> set (vr_listeners rt)" "entry_lease ke = (rl_serviceName c, rl_port c, l)"
    by (metis (no_types, lifting) imageE list.set_map mset_eq_setD)
  then have "gm_get (vr_listeners rt) (fst ke) = Some (snd ke)" using gm_in_get [OF wf, of "fst ke" "snd ke"] by simp
  moreover from this have "fst ke = serviceKey (sv_serviceName (snd ke)) (sv_port (snd ke))" using o(2) by (simp add: svc_ok_def)
  then have "fst ke = ?k" using ke(2) by (simp add: entry_lease_def)
  ultimately obtain e where e: "gm_get (vr_listeners rt) ?k = Some e" "entry_lease (?k, e) = (rl_serviceName c, rl_port c, l)"
    using ke(2) by (metis prod.collapse)
  let ?rt = "rt\<lparr>vr_listeners := gm_del ?k (vr_listeners rt), vr_refCount := vr_refCount rt - 1, vr_pendingCount := vr_pendingCount rt + 1\<rparr>"
  have le: "sv_listener e = l" using e(2) by (simp add: entry_lease_def)
  have s': "s' = s\<lparr>zl_rt := Some ?rt, zl_handles := h_close l (zl_handles s)\<rparr>"
    and wk: "wk = Some (ReleaseWorker c (vr_gen rt) (collectExistingServicePorts ?rt (rl_serviceName c)) RlCall)"
    using hr rt o(1) e(1) le by (simp_all add: handleReleaseService_def Let_def)
  have "mset ls = add_mset (rl_serviceName c, rl_port c, l) (mset (map entry_lease (gm_del ?k (vr_listeners rt))))"
    using ls mset_map_del [OF wf e(1), of entry_lease] e(2) by simp
  then have ls': "mset (remove1 (rl_serviceName c, rl_port c, l) ls) = mset (map entry_lease (gm_del ?k (vr_listeners rt)))" by simp
  have len: "Suc (length (gm_del ?k (vr_listeners rt))) = length (vr_listeners rt)"
    using e(1) by (intro gm_del_length [OF wf]) (metis gm_get_None_iff option.distinct(1))
  have "mset (svc_handles rt) = add_mset l (mset (svc_handles ?rt))"
    using mset_map_del [OF wf e(1), of "\<lambda>ke. sv_listener (snd ke)"] le by (simp add: svc_handles_def)
  with o(3) have "opened (mset (svc_handles ?rt) + mset (workers_handles ws)) (h_close l (zl_handles s))" by (auto intro: opened_close)
  moreover have "svc_ok False ?rt (ws @ spawn wk) (remove1 (rl_serviceName c, rl_port c, l) ls)"
    using o(2) len wf ls' unfolding svc_ok_def wk spawn_def by (auto split: if_splits)
  ultimately show ?thesis using o(1) by (simp add: s' wk spawn_def svc_loop_ok_def)
qed

lemma svc_handleSubscribe_ok:
  assumes ok: "svc_loop_ok c s ws ls" and rt: "zl_rt s = Some rt"
  shows "svc_loop_ok c (snd (svc_handleSubscribe s)) ws ls"
proof -
  obtain x h where x: "h_open (zl_handles s) = (x, h)" by force
  from ok rt have o: "svc_ok c rt ws ls" "opened (mset (svc_handles rt) + mset (workers_handles ws)) (zl_handles s)" "zl_state s = servicesRunning"
    by (simp_all add: svc_loop_ok_def)
  have "x \<notin> set (svc_handles rt)" using o(2) x by (force simp: opened_def h_open_def dest: arg_cong [where f = set_mset])
  then have n: "gm_get (vr_subs rt) x = None" by (auto simp: svc_handles_def gm_get_None_iff)
  let ?rt = "rt\<lparr>vr_subs := gm_put x [] (vr_subs rt)\<rparr>"
  have "mset (svc_handles ?rt) = add_mset x (mset (svc_handles rt))"
    using mset_map_put_new [OF n, of fst "[]"] by (simp add: svc_handles_def)
  with opened_open [OF o(2) x] have "opened (mset (svc_handles ?rt) + mset (workers_handles ws)) h" by simp
  moreover have "svc_ok c ?rt ws ls" using o(1) by (auto simp: svc_ok_def)
  ultimately show ?thesis using rt x o(3) by (simp add: svc_handleSubscribe_def Let_def svc_loop_ok_def)
qed

lemma svc_handleUnsubscribe_ok:
  assumes ok: "svc_loop_ok c s ws ls"
  shows "svc_loop_ok c (svc_handleUnsubscribe ch s) ws ls"
proof (cases "\<exists>rt buf. zl_rt s = Some rt \<and> gm_get (vr_subs rt) ch = Some buf")
  case True
  then obtain rt buf where rt: "zl_rt s = Some rt" "gm_get (vr_subs rt) ch = Some buf" by blast
  then have o: "svc_ok c rt ws ls" "opened (mset (svc_handles rt) + mset (workers_handles ws)) (zl_handles s)" "gm_wf (vr_subs rt)" "zl_state s = servicesRunning"
    using ok by (auto simp: svc_loop_ok_def svc_ok_def)
  let ?rt = "rt\<lparr>vr_subs := gm_del ch (vr_subs rt)\<rparr>"
  have "mset (svc_handles rt) = add_mset ch (mset (svc_handles ?rt))"
    using mset_map_del [OF o(3) rt(2), of fst] by (simp add: svc_handles_def)
  with o(2) have "opened (mset (svc_handles ?rt) + mset (workers_handles ws)) (h_close ch (zl_handles s))" by (auto intro: opened_close)
  moreover have "svc_ok c ?rt ws ls" using o(1) by (auto simp: svc_ok_def)
  ultimately show ?thesis using rt o(4) by (simp add: svc_handleUnsubscribe_def svc_loop_ok_def)
next
  case False
  then show ?thesis using ok by (auto simp: svc_handleUnsubscribe_def split: option.splits if_splits)
qed

lemma svc_handleWatchUpdate_ok:
  assumes ok: "svc_loop_ok c s ws ls"
  shows "svc_loop_ok c (svc_handleWatchUpdate url st err s) ws ls"
proof (cases "zl_rt s")
  case None
  with ok show ?thesis by (auto simp: svc_handleWatchUpdate_def svc_loop_ok_def Let_def)
next
  case (Some rt)
  define rt' where "rt' = the (zl_rt (svc_handleWatchUpdate url st err s))"
  have rt': "zl_rt (svc_handleWatchUpdate url st err s) = Some rt'" "keys (vr_subs rt') = keys (vr_subs rt)"
    "vr_listeners rt' = vr_listeners rt" "vr_factory rt' = vr_factory rt" "vr_server rt' = vr_server rt" "vr_refCount rt' = vr_refCount rt"
    "vr_pendingCount rt' = vr_pendingCount rt" "vr_gen rt' = vr_gen rt"
    using Some by (cases "url = []"; simp add: rt'_def svc_handleWatchUpdate_def Let_def o_def case_prod_unfold)+
  moreover have "zl_handles (svc_handleWatchUpdate url st err s) = zl_handles s" "zl_state (svc_handleWatchUpdate url st err s) = zl_state s"
    by (simp_all add: svc_handleWatchUpdate_def Let_def)
  moreover have "svc_handles rt' = svc_handles rt" using rt' by (simp add: svc_handles_def)
  moreover have "svc_ok c rt' ws ls" if "svc_ok c rt ws ls" using that rt' unfolding svc_ok_def gm_wf_def by metis
  ultimately show ?thesis using ok Some by (simp add: svc_loop_ok_def)
qed

lemma svc_handleIdleTimeout_ok: "svc_loop_ok c s ws ls \<Longrightarrow> svc_handleIdleTimeout g s = s"
  by (auto simp: svc_loop_ok_def svc_handleIdleTimeout_def split: option.splits)

lemma workers_step_ok:
  assumes ws: "worker_step (ws ! i, h) (wk, h')" "i < length ws" and op: "opened (M + mset (workers_handles ws)) h"
  shows "opened (M + mset (workers_handles (ws[i := wk]))) h'"
proof -
  let ?M = "M + mset (workers_handles (remove_nth i ws))"
  have "opened (?M + mset (worker_handles (ws ! i))) h" using op mset_concat_remove_nth [OF ws(2), of worker_handles] by (simp add: ac_simps)
  from worker_step_ok [OF ws(1) this] have o: "opened (?M + mset (worker_handles wk)) h'" by blast
  have "mset (workers_handles (ws[i := wk])) + mset (worker_handles (ws ! i)) = mset (workers_handles (remove_nth i ws)) + mset (worker_handles wk) + mset (worker_handles (ws ! i))"
    using mset_concat_update [OF ws(2), of worker_handles wk] mset_concat_remove_nth [OF ws(2), of worker_handles] by (simp add: ac_simps)
  then have "mset (workers_handles (ws[i := wk])) = mset (workers_handles (remove_nth i ws)) + mset (worker_handles wk)" by simp
  with o show ?thesis by (simp add: ac_simps)
qed

lemma svc_ok_update:
  assumes "svc_ok c rt ws ls" "i < length ws" "worker_gen wk = worker_gen (ws ! i)" "worker_factory wk = worker_factory (ws ! i)"
  shows "svc_ok c rt (ws[i := wk]) ls"
  using assms nth_mem [OF assms(2)] by (auto simp: svc_ok_def dest!: set_list_updateD)

lemma services_inv_open:
  "services_inv w \<Longrightarrow> open_for w \<Longrightarrow> svc_loop_ok False (zw_loop w) (zw_workers w) (zw_leases w)"
  by (simp add: services_inv_def open_for_def)

lemma services_worker_inv:
  assumes inv: "services_inv w" and i: "i < length (zw_workers w)" "worker_step (zw_workers w ! i, zl_handles (zw_loop w)) (wk, h)"
  shows "services_inv (w\<lparr>zw_loop := (zw_loop w)\<lparr>zl_handles := h\<rparr>, zw_workers := (zw_workers w)[i := wk]\<rparr>)"
proof -
  have wk: "worker_gen wk = worker_gen (zw_workers w ! i)" "worker_factory wk = worker_factory (zw_workers w ! i)"
    using i(2) by (cases rule: worker_step.cases; simp)+
  note st = workers_step_ok [OF i(2,1)]
  show ?thesis
  proof (cases "zw_exited w")
    case True
    with inv st [of "{#}"] wk(2) nth_mem [OF i(1)] show ?thesis by (auto simp: services_inv_def dest!: set_list_updateD)
  next
    case False
    show ?thesis
    proof (cases "zl_rt (zw_loop w)")
      case None
      with inv False i(1) show ?thesis by (simp add: services_inv_def svc_loop_ok_def)
    next
      case (Some rt)
      with inv False have "svc_ok (zw_closing w) rt (zw_workers w) (zw_leases w)"
        "opened (mset (svc_handles rt) + mset (workers_handles (zw_workers w))) (zl_handles (zw_loop w))" "zl_state (zw_loop w) = servicesRunning"
        by (simp_all add: services_inv_def svc_loop_ok_def)
      with False Some st svc_ok_update [OF _ i(1) wk] show ?thesis by (simp add: services_inv_def svc_loop_ok_def)
    qed
  qed
qed

lemma services_send_inv:
  assumes inv: "services_inv w" and i: "\<not> zw_exited w" "i < length (zw_workers w)" "worker_send (zw_workers w ! i) = Some wk"
  shows "services_inv (w\<lparr>zw_workers := (zw_workers w)[i := wk]\<rparr>)"
proof -
  note wk = worker_send_ok [OF i(3)]
  have "mset (workers_handles ((zw_workers w)[i := wk])) = mset (workers_handles (zw_workers w))"
    using mset_concat_update [OF i(2), of worker_handles wk] wk by simp
  then show ?thesis
    using inv i svc_ok_update [OF _ i(2), of _ _ _ wk] wk by (auto simp: services_inv_def svc_loop_ok_def split: option.splits)
qed

interpretation services: invariant_system services_init services_step services_inv
proof unfold_locales
  show "services_init w \<Longrightarrow> services_inv w" for w by (simp add: services_inv_def svc_loop_ok_def NewServicesServer_def)
  fix w w' assume inv: "services_inv w" and "services_step w w'"
  from this(2) show "services_inv w'"
  proof cases
    case (ZAcquire start c r wk s)
    with services_inv_open [OF inv] handleAcquireService_ok [of "svc_cancelTimer (zw_loop w)" _ _ start c r wk s] show ?thesis
      by (simp add: services_inv_def open_for_def)
  next
    case (ZRelease c l r wk s)
    with services_inv_open [OF inv] handleReleaseService_ok [of "svc_cancelTimer (zw_loop w)" _ _ c l r wk s] show ?thesis
      by (simp add: services_inv_def open_for_def)
  next
    case (ZAcquired i c g ps f res r s)
    with inv handleAcquireWorkResult_ok [of "zw_closing w" "svc_cancelTimer (zw_loop w)" "zw_workers w" "zw_leases w" i c g ps f res r s]
    show ?thesis by (simp add: services_inv_def)
  next
    case (ZReleased i rc g ps b r s)
    with inv handleReleaseWorkResult_ok [of "zw_closing w" "svc_cancelTimer (zw_loop w)" "zw_workers w" "zw_leases w" i rc g ps b r s]
    show ?thesis by (simp add: services_inv_def)
  next
    case (ZWorker i wk h)
    with services_worker_inv [OF inv] show ?thesis by simp
  next
    case (ZSend i wk)
    with services_send_inv [OF inv] show ?thesis by simp
  next
    case (ZAbort i h)
    then have op: "opened (mset (workers_handles (zw_workers w))) (zl_handles (zw_loop w))" "\<forall>x \<in> set (zw_workers w). worker_factory x"
      using inv by (simp_all add: services_inv_def)
    have "opened (mset (workers_handles (remove_nth i (zw_workers w)))) h"
      using worker_abort_ok [OF ZAbort(4)] op(1) mset_concat_remove_nth [OF ZAbort(3), of worker_handles] by simp
    with ZAbort op(2) show ?thesis by (auto simp: services_inv_def dest: remove_nth_set)
  next
    case ZSubscribe
    with services_inv_open [OF inv] svc_handleSubscribe_ok [of False "zw_loop w"] show ?thesis by (auto simp: services_inv_def open_for_def)
  next
    case (ZUnsubscribe ch)
    with services_inv_open [OF inv] svc_handleUnsubscribe_ok [of False "zw_loop w"] show ?thesis by (simp add: services_inv_def open_for_def)
  next
    case (ZWatch url st err)
    with services_inv_open [OF inv] svc_handleWatchUpdate_ok [of False "zw_loop w"] show ?thesis by (simp add: services_inv_def open_for_def)
  next
    case (ZIdle g)
    with services_inv_open [OF inv] svc_handleIdleTimeout_ok [of False "svc_cancelTimer (zw_loop w)"] show ?thesis
      by (simp add: services_inv_def open_for_def)
  next
    case ZClose
    then have "svc_loop_ok False (zw_loop w) (zw_workers w) (zw_leases w)" using services_inv_open [OF inv] by simp
    then have "svc_loop_ok True (zw_loop w) (zw_workers w) (zw_leases w)" by (auto simp: svc_loop_ok_def svc_ok_def split: option.splits)
    with ZClose show ?thesis by (simp add: services_inv_def open_for_def)
  next
    case ZCloseDone
    then have ok: "svc_loop_ok True (zw_loop w) (zw_workers w) (zw_leases w)" using inv by (simp add: services_inv_def)
    show ?thesis
    proof (cases "zl_rt (zw_loop w)")
      case None
      with ok ZCloseDone show ?thesis by (simp add: services_inv_def svc_loop_ok_def opened_def)
    next
      case (Some rt)
      with ok svc_stopRuntime_closes [of rt _ "zw_loop w"] ZCloseDone show ?thesis by (simp add: services_inv_def svc_loop_ok_def svc_ok_def)
    qed
  qed
qed

section \<open>A run\<close>

definition app_cmd :: acquireServiceCmd where
  "app_cmd = \<lparr>aq_serviceName = ''svc:app'', aq_port = 443, aq_https = True, aq_tcp = False\<rparr>"

definition services_run :: services_world where
  "services_run = \<lparr>zw_loop = snd (snd (handleAcquireService StartNode app_cmd NewServicesServer)),
     zw_workers = [AcquireWorker app_cmd 0 [''tcp:443''] True AqCreate], zw_leases = [], zw_closing = False, zw_exited = False\<rparr>"

lemma services_run_reach: "reach services_init services_step services_run"
proof -
  let ?w = "\<lparr>zw_loop = NewServicesServer, zw_workers = [], zw_leases = [], zw_closing = False, zw_exited = False\<rparr>"
  have t: "svc_cancelTimer NewServicesServer = NewServicesServer" by (simp add: svc_cancelTimer_def NewServicesServer_def)
  have "fst (snd (handleAcquireService StartNode app_cmd NewServicesServer)) = Some (AcquireWorker app_cmd 0 [''tcp:443''] True AqCreate)" by code_simp
  then have "handleAcquireService StartNode app_cmd (svc_cancelTimer (zw_loop ?w)) =
    (fst (handleAcquireService StartNode app_cmd NewServicesServer), Some (AcquireWorker app_cmd 0 [''tcp:443''] True AqCreate), zw_loop services_run)"
    by (simp add: t services_run_def prod_eq_iff)
  from ZAcquire [OF _ this] have "services_step ?w services_run" by (simp add: open_for_def spawn_def services_run_def)
  moreover have "reach services_init services_step ?w" by (rule reach_init) simp
  ultimately show ?thesis by (blast intro: reach_step)
qed

section \<open>Properties\<close>



text \<open>
  The services server has no grace period: when the result of the last release is handled, with no
  other service held and nothing pending, the node is stopped at once and everything is closed;
  and in no reachable state does the idle timeout change anything.
\<close>

theorem services_stop_at_once:
  assumes r: "reach services_init services_step w" and "open_for w"
  shows "svc_handleIdleTimeout n (zw_loop w) = zw_loop w \<and>
    (zw_workers w = [ReleaseWorker rc g ps (RlQueued b)] \<and> zw_leases w = [] \<longrightarrow>
      (let s = snd (handleReleaseWorkResult False g (svc_cancelTimer (zw_loop w))) in zl_rt s = None \<and> hs_open (zl_handles s) = []))"
proof (intro conjI impI)
  have ok: "svc_loop_ok False (zw_loop w) (zw_workers w) (zw_leases w)" by (rule services_inv_open [OF services.reach_inv [OF r] assms(2)])
  then show "svc_handleIdleTimeout n (zw_loop w) = zw_loop w" by (rule svc_handleIdleTimeout_ok)
  assume a: "zw_workers w = [ReleaseWorker rc g ps (RlQueued b)] \<and> zw_leases w = []"
  let ?r = "handleReleaseWorkResult False g (svc_cancelTimer (zw_loop w))"
  have "svc_loop_ok False (snd ?r) (remove_nth 0 (zw_workers w)) []"
    using handleReleaseWorkResult_ok [of False "svc_cancelTimer (zw_loop w)" "zw_workers w" "[]" 0 rc g ps b "fst ?r" "snd ?r"] ok a by simp
  then have e: "svc_loop_ok False (snd ?r) [] []" using a by (simp add: remove_nth_def)
  then show "let s = snd ?r in zl_rt s = None \<and> hs_open (zl_handles s) = []"
    by (auto simp: svc_loop_ok_def svc_ok_def split: option.splits)
qed

theorem services_stop_at_once_witness: "svc_handleIdleTimeout 0 (zw_loop services_run) = zw_loop services_run"
proof -
  have "open_for services_run" by (simp add: open_for_def services_run_def)
  from services_stop_at_once [OF services_run_reach this] show ?thesis by blast
qed

text \<open>
  Subscribing to a services server that has no node makes a runtime without a node; the next
  acquire takes it for a running one: although a node could be started, it starts none, and its
  worker has no factory to listen with.
\<close>

theorem services_subscribe_first:
  "\<exists>s'. handleAcquireService StartNode c (snd (svc_handleSubscribe NewServicesServer)) =
     (ServicePending, Some (AcquireWorker c 0 [port_spec (aq_port c)] False AqCreate), s') \<and> map_option vr_server (zl_rt s') = Some None"
  by (simp add: svc_handleSubscribe_def NewServicesServer_def h_open_def svc_placeholder_def handleAcquireService_def acquire_existing_def
      collectServicePorts_def service_ports_def)

lemma no_factory_no_step: "\<not> worker_step (AcquireWorker c g ps False AqListen, h) x"
  by (auto elim: worker_step.cases)

end
