(* ===== verification/Http_Identity.thy ===== *)
theory Http_Identity
  imports Rate_Limit Port_Labels
begin

text \<open>
  \<^verbatim>\<open>src/internal/proxymanager/port_http.go\<close> (what a proxied request carries to the backend)
  and \<^verbatim>\<open>src/internal/core/admin.go\<close> (who may use the management server). The two meet in
  the self-proxy case: the proxy forwards the Tailscale identity of a request in headers
  that the management server believes only together with a secret token. A header map
  has canonical keys, as \<^verbatim>\<open>net/http\<close> stores them; the client's headers are arbitrary.
\<close>

section \<open>Header maps\<close>

type_synonym header = "(string, string list) gomap"

definition token_char :: "char \<Rightarrow> bool" where
  "token_char c \<longleftrightarrow>
     (let n = of_char c :: nat
      in 48 \<le> n \<and> n \<le> 57 \<or> 65 \<le> n \<and> n \<le> 90 \<or> 97 \<le> n \<and> n \<le> 122 \<or>
         n \<in> {33, 35, 36, 37, 38, 39, 42, 43, 45, 46, 94, 95, 96, 124, 126})"

definition upper_char :: "char \<Rightarrow> char" where
  "upper_char c = (let n = of_char c :: nat in if 97 \<le> n \<and> n \<le> 122 then char_of (n - 32) else c)"

fun canon_loop :: "bool \<Rightarrow> string \<Rightarrow> string" where
  "canon_loop upper [] = []"
| "canon_loop upper (c # cs) = (if upper then upper_char c else lower_char c) # canon_loop (c = CHR ''-'') cs"

text \<open>\<^verbatim>\<open>textproto.CanonicalMIMEHeaderKey\<close>: a key with a byte no header name may have stays as it is.\<close>

definition canonical_key :: "string \<Rightarrow> string" where
  "canonical_key k = (if list_all token_char k then canon_loop True k else k)"

definition h_values :: "header \<Rightarrow> string \<Rightarrow> string list" where
  "h_values h k = (case gm_get h (canonical_key k) of None \<Rightarrow> [] | Some vs \<Rightarrow> vs)"

definition h_get :: "header \<Rightarrow> string \<Rightarrow> string" where
  "h_get h k = (case h_values h k of [] \<Rightarrow> [] | v # _ \<Rightarrow> v)"

definition h_set :: "string \<Rightarrow> string \<Rightarrow> header \<Rightarrow> header" where
  "h_set k v h = gm_put (canonical_key k) [v] h"

definition h_del :: "string \<Rightarrow> header \<Rightarrow> header" where
  "h_del k h = gm_del (canonical_key k) h"

lemma h_values_set [simp]: "h_values (h_set k v h) k' = (if canonical_key k' = canonical_key k then [v] else h_values h k')"
  by (simp add: h_values_def h_set_def)

lemma h_values_del [simp]: "h_values (h_del k h) k' = (if canonical_key k' = canonical_key k then [] else h_values h k')"
  by (simp add: h_values_def h_del_def)

lemma h_get_values: "h_get h k = (if h_values h k = [] then [] else hd (h_values h k))"
  by (simp add: h_get_def split: list.split)

lemma h_get_del [simp]: "h_get (h_del k h) k' = (if canonical_key k' = canonical_key k then [] else h_get h k')"
  by (simp add: h_get_values)

section \<open>Header names\<close>

abbreviation HeaderID :: string where "HeaderID \<equiv> ''x-tsdproxy-id''"
abbreviation HeaderUsername :: string where "HeaderUsername \<equiv> ''x-tsdproxy-username''"
abbreviation HeaderDisplayName :: string where "HeaderDisplayName \<equiv> ''x-tsdproxy-displayname''"
abbreviation HeaderProfilePicURL :: string where "HeaderProfilePicURL \<equiv> ''x-tsdproxy-profilepicurl''"
abbreviation HeaderAuthToken :: string where "HeaderAuthToken \<equiv> ''x-tsdproxy-auth-token''"
abbreviation HeaderRemoteUser :: string where "HeaderRemoteUser \<equiv> ''Remote-User''"
abbreviation HeaderXForwardedUser :: string where "HeaderXForwardedUser \<equiv> ''X-Forwarded-User''"
abbreviation HeaderXAuthRequestUser :: string where "HeaderXAuthRequestUser \<equiv> ''X-Auth-Request-User''"
abbreviation HeaderXForwardedEmail :: string where "HeaderXForwardedEmail \<equiv> ''X-Forwarded-Email''"
abbreviation HeaderXAuthRequestEmail :: string where "HeaderXAuthRequestEmail \<equiv> ''X-Auth-Request-Email''"
abbreviation HeaderXForwardedPreferredUsername :: string where
  "HeaderXForwardedPreferredUsername \<equiv> ''X-Forwarded-Preferred-Username''"
abbreviation HeaderRealIP :: string where "HeaderRealIP \<equiv> ''X-Real-IP''"
abbreviation HeaderXForwardedFor :: string where "HeaderXForwardedFor \<equiv> ''X-Forwarded-For''"

definition IdentityHeaders :: "string list" where
  "IdentityHeaders = [HeaderID, HeaderUsername, HeaderDisplayName, HeaderProfilePicURL]"

definition TrustedProxyHeaders :: "string list" where
  "TrustedProxyHeaders =
     [HeaderID, HeaderUsername, HeaderDisplayName, HeaderProfilePicURL, HeaderAuthToken, HeaderRemoteUser,
      HeaderXForwardedUser, HeaderXAuthRequestUser, HeaderXForwardedEmail, HeaderXAuthRequestEmail,
      HeaderXForwardedPreferredUsername, HeaderXForwardedFor, HeaderRealIP]"

text \<open>The canonical form of every name the code uses, evaluated once.\<close>

lemma canonical_names [simp]:
  "canonical_key HeaderID = ''X-Tsdproxy-Id''" "canonical_key HeaderUsername = ''X-Tsdproxy-Username''"
  "canonical_key HeaderDisplayName = ''X-Tsdproxy-Displayname''"
  "canonical_key HeaderProfilePicURL = ''X-Tsdproxy-Profilepicurl''"
  "canonical_key HeaderAuthToken = ''X-Tsdproxy-Auth-Token''" "canonical_key HeaderRemoteUser = ''Remote-User''"
  "canonical_key HeaderXForwardedUser = ''X-Forwarded-User''" "canonical_key HeaderXAuthRequestUser = ''X-Auth-Request-User''"
  "canonical_key HeaderXForwardedEmail = ''X-Forwarded-Email''" "canonical_key HeaderXAuthRequestEmail = ''X-Auth-Request-Email''"
  "canonical_key HeaderXForwardedPreferredUsername = ''X-Forwarded-Preferred-Username''"
  "canonical_key HeaderRealIP = ''X-Real-Ip''" "canonical_key HeaderXForwardedFor = ''X-Forwarded-For''"
  "canonical_key ''X-Forwarded-Host'' = ''X-Forwarded-Host''" "canonical_key ''X-Forwarded-Proto'' = ''X-Forwarded-Proto''"
  by code_simp+

section \<open>Requests\<close>

record Whois =
  wh_ID :: string
  wh_DisplayName :: string
  wh_Username :: string
  wh_ProfilePicURL :: string

text \<open>\<open>hq_Whois\<close> is the identity in the request context; \<open>hq_TLS\<close> says that the connection has TLS state.\<close>

record http_request =
  hq_RemoteAddr :: string
  hq_Host :: string
  hq_TLS :: bool
  hq_Header :: header
  hq_Whois :: "Whois option"

definition peer_ip :: "http_request \<Rightarrow> string" where
  "peer_ip r = resolvePeerIP \<lparr>rq_RemoteAddr = hq_RemoteAddr r, rq_XForwardedFor = h_values (hq_Header r) HeaderXForwardedFor\<rparr>"

text \<open>
  The outbound request: the server it goes to (\<open>None\<close> leaves the URL of the inbound one), its
  \<^verbatim>\<open>Host\<close> and its headers.
\<close>

record out_request =
  or_target :: "url option"
  or_Host :: string
  or_Header :: header

section \<open>The reverse proxy\<close>

definition canonicalLoopback :: string where "canonicalLoopback = ''127.0.0.1''"

definition isManagementTarget :: "url option \<Rightarrow> string \<Rightarrow> bool" where
  "isManagementTarget target httpPortStr =
     (case target of
        None \<Rightarrow> False
      | Some t \<Rightarrow>
          (let host = url_Hostname t
           in if host \<noteq> ''localhost'' \<and> host \<noteq> canonicalLoopback then False
              else url_Port t = httpPortStr \<and> (u_path t = [] \<or> u_path t = ''/'')))"

text \<open>\<^verbatim>\<open>httputil.ProxyRequest.SetXForwarded\<close>.\<close>

definition SetXForwarded :: "http_request \<Rightarrow> header \<Rightarrow> header" where
  "SetXForwarded r h =
     (let h = (case split_host_port (hq_RemoteAddr r) of
                 None \<Rightarrow> h_del HeaderXForwardedFor h
               | Some (clientIP, _) \<Rightarrow>
                   (let prior = h_values h HeaderXForwardedFor
                    in h_set HeaderXForwardedFor
                         (if prior = [] then clientIP else join_str '', '' prior @ '', '' @ clientIP) h));
          h = h_set ''X-Forwarded-Host'' (hq_Host r) h
      in h_set ''X-Forwarded-Proto'' (if hq_TLS r then ''https'' else ''http'') h)"

definition set_identity :: "Whois \<Rightarrow> header \<Rightarrow> header" where
  "set_identity user h =
     (let h = h_set HeaderID (wh_ID user) h;
          h = h_set HeaderUsername (wh_Username user) h;
          h = h_set HeaderDisplayName (wh_DisplayName user) h;
          h = h_set HeaderProfilePicURL (wh_ProfilePicURL user) h;
          h = h_set HeaderRemoteUser (wh_Username user) h;
          h = h_set HeaderXForwardedUser (wh_Username user) h;
          h = h_set HeaderXAuthRequestUser (wh_Username user) h;
          h = h_set HeaderXForwardedEmail (wh_Username user) h;
          h = h_set HeaderXAuthRequestEmail (wh_Username user) h
      in h_set HeaderXForwardedPreferredUsername (wh_DisplayName user) h)"

text \<open>The block under \<^verbatim>\<open>if identityHeaders\<close>; \<open>target\<close> is the first target of the port at that time.\<close>

definition inject_identity :: "bool \<Rightarrow> url option \<Rightarrow> string \<Rightarrow> string \<Rightarrow> http_request \<Rightarrow> header \<Rightarrow> header" where
  "inject_identity identityHeaders target httpPortStr proxyAuthToken r h =
     (case hq_Whois r of
        Some user \<Rightarrow>
          if identityHeaders \<and> wh_ID user \<noteq> [] then
            (let h = set_identity user h
             in if isManagementTarget target httpPortStr then h_set HeaderAuthToken proxyAuthToken h else h)
          else h
      | None \<Rightarrow> h)"

definition forward_headers :: "string \<Rightarrow> http_request \<Rightarrow> header \<Rightarrow> header" where
  "forward_headers proxyProtocol r h =
     (let h = SetXForwarded r h;
          peerIP = peer_ip r;
          h = (if peerIP \<noteq> [] then h_set HeaderXForwardedFor peerIP (h_set HeaderRealIP peerIP h) else h)
      in if proxyProtocol = ProtoHTTPS then h_set ''X-Forwarded-Proto'' ProtoHTTPS h else h)"

text \<open>
  \<^verbatim>\<open>proxyRewrite\<close>. The closure asks the port twice for its first target, once for the URL and
  once for the token; a re-resolution may change the target in between, so the two
  answers are separate arguments. \<open>out\<close> are the outbound headers as \<^verbatim>\<open>ReverseProxy\<close> copied
  them from the client's.
\<close>

definition proxyRewrite ::
  "string \<Rightarrow> url option \<Rightarrow> url option \<Rightarrow> bool \<Rightarrow> string \<Rightarrow> string \<Rightarrow> http_request \<Rightarrow> header \<Rightarrow> out_request" where
  "proxyRewrite proxyProtocol target target2 identityHeaders httpPortStr proxyAuthToken r out =
     (let h = fold h_del TrustedProxyHeaders out;
          h = inject_identity identityHeaders target2 httpPortStr proxyAuthToken r h
      in \<lparr>or_target = target, or_Host = hq_Host r, or_Header = forward_headers proxyProtocol r h\<rparr>)"

text \<open>The identity middleware of a proxy: the provider's answer always goes into the context.\<close>

definition ProviderUserMiddleware :: "(http_request \<Rightarrow> Whois) \<Rightarrow> http_request \<Rightarrow> http_request" where
  "ProviderUserMiddleware whois r = r\<lparr>hq_Whois := Some (whois r)\<rparr>"

datatype port_response = PortTooMany | PortForward out_request

record port_params =
  pp_Config :: PortConfig
  pp_IdentityHeaders :: bool
  pp_RateLimitEnabled :: bool
  pp_HTTPPort :: nat
  pp_ProxyAuthToken :: string

text \<open>
  The handler chain that \<^verbatim>\<open>newPortProxy\<close> builds: rate limit, identity, rewrite. Access log,
  metrics and tracing wrap it without changing the request. The limiter is a parameter
  as in \<open>Rate_Limit\<close>.
\<close>

definition port_handle ::
  "'lim \<Rightarrow> (int \<Rightarrow> 'lim \<Rightarrow> bool \<times> 'lim) \<Rightarrow> (http_request \<Rightarrow> Whois) \<Rightarrow> port_params \<Rightarrow> int \<Rightarrow> http_request \<Rightarrow> header \<Rightarrow>
   'lim ipRateLimiter \<Rightarrow> port_response \<times> 'lim ipRateLimiter" where
  "port_handle newLim Allow whois p now r out l =
     (let peer = \<lparr>rq_RemoteAddr = hq_RemoteAddr r, rq_XForwardedFor = h_values (hq_Header r) HeaderXForwardedFor\<rparr>;
          (d, l) = (if pp_RateLimitEnabled p then rateLimitMiddleware newLim Allow now peer l else (ServeNext, l));
          t = GetFirstTarget (pp_Config p)
      in case d of
           TooManyRequests \<Rightarrow> (PortTooMany, l)
         | ServeNext \<Rightarrow>
             (PortForward (proxyRewrite (pc_ProxyProtocol (pp_Config p)) t t (pp_IdentityHeaders p) (show_nat (pp_HTTPPort p))
                (pp_ProxyAuthToken p) (ProviderUserMiddleware whois r) out), l))"

datatype redirect_response = RedirectBadGateway | MovedPermanently string

definition newPortRedirect :: "PortConfig \<Rightarrow> redirect_response" where
  "newPortRedirect pconfig =
     (case GetFirstTarget pconfig of None \<Rightarrow> RedirectBadGateway | Some t \<Rightarrow> MovedPermanently (url_String t))"

section \<open>The management server\<close>

record admin_config =
  ac_APIKey :: string
  ac_Admins :: "string list"
  ac_AdminAllowLocalhost :: bool

definition localhostUserID :: string where "localhostUserID = ''__localhost__''"

definition validToken :: "string \<Rightarrow> http_request \<Rightarrow> bool" where
  "validToken token r =
     (if \<not> IsLocalhost (hq_RemoteAddr r) then False
      else if token = [] then False
      else h_get (hq_Header r) HeaderAuthToken = token)"

definition StripProxyIdentityHeaders :: "string \<Rightarrow> http_request \<Rightarrow> http_request" where
  "StripProxyIdentityHeaders token r =
     (let valid = validToken token r;
          h = h_del HeaderAuthToken (hq_Header r);
          who = \<lparr>wh_ID = h_get h HeaderID, wh_DisplayName = h_get h HeaderDisplayName,
                 wh_Username = h_get h HeaderUsername, wh_ProfilePicURL = h_get h HeaderProfilePicURL\<rparr>;
          r = (if valid \<and> wh_ID who \<noteq> [] then r\<lparr>hq_Whois := Some who\<rparr> else r)
      in r\<lparr>hq_Header := fold h_del IdentityHeaders h\<rparr>)"

definition empty_whois :: Whois where
  "empty_whois = \<lparr>wh_ID = [], wh_DisplayName = [], wh_Username = [], wh_ProfilePicURL = []\<rparr>"

definition ResolveWhois :: "http_request \<Rightarrow> Whois" where
  "ResolveWhois r = (case hq_Whois r of Some who \<Rightarrow> who | None \<Rightarrow> empty_whois)"

definition extractBearerToken :: "http_request \<Rightarrow> string" where
  "extractBearerToken r =
     (let auth = h_get (hq_Header r) ''Authorization''
      in if length auth > 7 \<and> equal_fold (take 7 auth) ''Bearer '' then drop 7 auth else [])"

definition ValidAPIKey :: "http_request \<Rightarrow> admin_config \<Rightarrow> bool" where
  "ValidAPIKey r cfg = (if ac_APIKey cfg = [] then False else extractBearerToken r = ac_APIKey cfg)"

definition isCGNAT :: "ip \<Rightarrow> bool" where
  "isCGNAT a \<longleftrightarrow> is_v4 a \<and> a ! 12 = 100 \<and> 64 \<le> a ! 13 \<and> a ! 13 \<le> 127"

text \<open>\<^verbatim>\<open>net.IP.IsPrivate\<close>.\<close>

definition is_private :: "ip \<Rightarrow> bool" where
  "is_private a \<longleftrightarrow>
     (if is_v4 a then a ! 12 = 10 \<or> a ! 12 = 172 \<and> a ! 13 div 16 = 1 \<or> a ! 12 = 192 \<and> a ! 13 = 168
      else length a = 16 \<and> a ! 0 div 2 = 126)"

definition IsTrustedSource :: "string \<Rightarrow> bool" where
  "IsTrustedSource remoteAddr =
     (let host = (case split_host_port remoteAddr of None \<Rightarrow> remoteAddr | Some (h, _) \<Rightarrow> h)
      in case parse_ip host of None \<Rightarrow> False | Some ip \<Rightarrow> is_loopback ip \<or> isCGNAT ip \<or> is_private ip)"

datatype access = Serve | Forbidden string

definition AdminMiddleware :: "admin_config \<Rightarrow> http_request \<Rightarrow> access" where
  "AdminMiddleware cfg r =
     (if ValidAPIKey r cfg then Serve
      else let id = wh_ID (ResolveWhois r)
           in if length (ac_Admins cfg) > 0 then
                (if id \<noteq> [] \<and> id \<in> set (ac_Admins cfg) then Serve
                 else if id \<noteq> [] then Forbidden ''admin access required''
                 else if IsTrustedSource (hq_RemoteAddr r) \<and> ac_AdminAllowLocalhost cfg then Serve
                 else Forbidden ''admin access requires a Tailscale connection'')
              else if id \<noteq> [] then Serve
              else if IsTrustedSource (hq_RemoteAddr r) \<and> ac_AdminAllowLocalhost cfg then Serve
              else Forbidden ''admin access requires a Tailscale connection'')"

definition ViewerMiddleware :: "admin_config \<Rightarrow> http_request \<Rightarrow> access" where
  "ViewerMiddleware cfg r =
     (if ValidAPIKey r cfg then Serve
      else if wh_ID (ResolveWhois r) \<noteq> [] then Serve
      else if IsTrustedSource (hq_RemoteAddr r) \<and> ac_AdminAllowLocalhost cfg then Serve
      else Forbidden ''dashboard access requires a Tailscale connection'')"

definition UserIDIsAdmin :: "string \<Rightarrow> admin_config \<Rightarrow> bool" where
  "UserIDIsAdmin uid cfg =
     (if length (ac_Admins cfg) = 0 then True
      else if uid = localhostUserID then ac_AdminAllowLocalhost cfg
      else uid \<in> set (ac_Admins cfg))"

definition IsAdmin :: "http_request \<Rightarrow> admin_config \<Rightarrow> bool" where
  "IsAdmin r cfg =
     (if ValidAPIKey r cfg then True
      else let id = wh_ID (ResolveWhois r)
           in if id \<noteq> [] then UserIDIsAdmin id cfg
              else IsTrustedSource (hq_RemoteAddr r) \<and> ac_AdminAllowLocalhost cfg)"

datatype whoami_response = Unauthorized | WhoAmI Whois

definition WhoAmIHandler :: "http_request \<Rightarrow> whoami_response" where
  "WhoAmIHandler r = (let who = ResolveWhois r in if wh_ID who = [] then Unauthorized else WhoAmI who)"

section \<open>What the backend receives\<close>

lemma h_values_strip:
  "h_values (fold h_del ks h) k = (if canonical_key k \<in> canonical_key ` set ks then [] else h_values h k)"
  by (induction ks arbitrary: h) auto

lemma stripped_trusted: "k \<in> set TrustedProxyHeaders \<Longrightarrow> h_values (fold h_del TrustedProxyHeaders h) k = []"
  by (simp add: h_values_strip)

lemma prior_stripped: "h_values (fold h_del TrustedProxyHeaders h) HeaderXForwardedFor = []"
  by (rule stripped_trusted) (simp add: TrustedProxyHeaders_def)

text \<open>The values of the trusted headers as a function of what the proxy itself knows about the request.\<close>

definition authenticated :: "bool \<Rightarrow> http_request \<Rightarrow> Whois option" where
  "authenticated identityHeaders r =
     (case hq_Whois r of Some user \<Rightarrow> if identityHeaders \<and> wh_ID user \<noteq> [] then Some user else None | None \<Rightarrow> None)"

definition identity_value :: "(Whois \<Rightarrow> string) \<Rightarrow> Whois option \<Rightarrow> string list" where
  "identity_value f user = (case user of None \<Rightarrow> [] | Some u \<Rightarrow> [f u])"

definition forwarded_for :: "http_request \<Rightarrow> string list" where
  "forwarded_for r =
     (if peer_ip r \<noteq> [] then [peer_ip r]
      else case split_host_port (hq_RemoteAddr r) of None \<Rightarrow> [] | Some (clientIP, _) \<Rightarrow> [clientIP])"

definition trusted_values :: "url option \<Rightarrow> bool \<Rightarrow> string \<Rightarrow> string \<Rightarrow> http_request \<Rightarrow> string list list" where
  "trusted_values target2 identityHeaders httpPortStr token r =
     (let u = authenticated identityHeaders r
      in [identity_value wh_ID u, identity_value wh_Username u, identity_value wh_DisplayName u, identity_value wh_ProfilePicURL u,
          (if u \<noteq> None \<and> isManagementTarget target2 httpPortStr then [token] else []),
          identity_value wh_Username u, identity_value wh_Username u, identity_value wh_Username u, identity_value wh_Username u,
          identity_value wh_Username u, identity_value wh_DisplayName u, forwarded_for r,
          (if peer_ip r \<noteq> [] then [peer_ip r] else [])])"

text \<open>The trusted header names in canonical form, and what the stages do to them.\<close>

lemma SetXForwarded_values:
  assumes "h_values h HeaderXForwardedFor = []"
  shows "h_values (SetXForwarded r h) k =
    (if canonical_key k = ''X-Forwarded-Proto'' then [if hq_TLS r then ''https'' else ''http'']
     else if canonical_key k = ''X-Forwarded-Host'' then [hq_Host r]
     else if canonical_key k = ''X-Forwarded-For'' then
       (case split_host_port (hq_RemoteAddr r) of None \<Rightarrow> [] | Some (clientIP, _) \<Rightarrow> [clientIP])
     else h_values h k)"
  using assms by (simp add: SetXForwarded_def Let_def split: option.split)

lemma forward_values:
  assumes "h_values h HeaderXForwardedFor = []"
  shows "h_values (forward_headers proto r h) k =
    (if canonical_key k = ''X-Forwarded-Proto'' then [if proto = ProtoHTTPS then ProtoHTTPS else if hq_TLS r then ''https'' else ''http'']
     else if canonical_key k = ''X-Forwarded-Host'' then [hq_Host r]
     else if canonical_key k = ''X-Forwarded-For'' then forwarded_for r
     else if canonical_key k = ''X-Real-Ip'' \<and> peer_ip r \<noteq> [] then [peer_ip r]
     else h_values h k)"
proof -
  have d: "''X-Forwarded-For'' \<noteq> ''X-Real-Ip''" "''X-Forwarded-For'' \<noteq> ''X-Forwarded-Host''" "''X-Forwarded-For'' \<noteq> ''X-Forwarded-Proto''"
    "''X-Real-Ip'' \<noteq> ''X-Forwarded-Host''" "''X-Real-Ip'' \<noteq> ''X-Forwarded-Proto''" by simp_all
  show ?thesis
    using d by (simp add: forward_headers_def Let_def SetXForwarded_values [OF assms] forwarded_for_def del: list.inject)
qed

lemma identity_values:
  assumes e: "list_all (\<lambda>k. h_values h k = []) TrustedProxyHeaders"
  shows "map (h_values (inject_identity idh target2 port token r h)) TrustedProxyHeaders =
    (let u = authenticated idh r
      in [identity_value wh_ID u, identity_value wh_Username u, identity_value wh_DisplayName u, identity_value wh_ProfilePicURL u,
          (if u \<noteq> None \<and> isManagementTarget target2 port then [token] else []),
          identity_value wh_Username u, identity_value wh_Username u, identity_value wh_Username u, identity_value wh_Username u,
          identity_value wh_Username u, identity_value wh_DisplayName u, [], []])"
proof (cases "authenticated idh r")
  case None
  then have "inject_identity idh target2 port token r h = h"
    by (auto simp: inject_identity_def authenticated_def split: option.splits if_splits)
  with e None show ?thesis by (simp add: TrustedProxyHeaders_def identity_value_def)
next
  case (Some user)
  then have "hq_Whois r = Some user" "idh" "wh_ID user \<noteq> []"
    by (auto simp: authenticated_def split: option.splits if_splits)
  then have "inject_identity idh target2 port token r h =
      (if isManagementTarget target2 port then h_set HeaderAuthToken token (set_identity user h) else set_identity user h)"
    by (simp add: inject_identity_def)
  with e Some show ?thesis
    by (simp add: TrustedProxyHeaders_def identity_value_def set_identity_def Let_def)
qed

lemma proxyRewrite_trusted:
  "map (h_values (or_Header (proxyRewrite proto target target2 idh port token r out))) TrustedProxyHeaders =
   trusted_values target2 idh port token r"
proof -
  define h1 where "h1 = inject_identity idh target2 port token r (fold h_del TrustedProxyHeaders out)"
  have "list_all (\<lambda>k. h_values (fold h_del TrustedProxyHeaders out) k = []) TrustedProxyHeaders"
    using stripped_trusted by (simp add: list_all_iff)
  note V = identity_values [OF this, of idh target2 port token r, folded h1_def]
  have x: "h_values h1 HeaderXForwardedFor = []" "h_values h1 HeaderRealIP = []"
    using V by (simp_all add: TrustedProxyHeaders_def Let_def)
  have "or_Header (proxyRewrite proto target target2 idh port token r out) = forward_headers proto r h1"
    by (simp add: proxyRewrite_def h1_def Let_def)
  with V x(2) show ?thesis
    by (simp add: TrustedProxyHeaders_def trusted_values_def Let_def forward_values [OF x(1)])
qed

section \<open>Properties\<close>

lemma peer_ip_remote: "\<not> IsLocalhost (hq_RemoteAddr r) \<Longrightarrow> peer_ip r = NormalizeIP (hq_RemoteAddr r)"
  by (simp add: peer_ip_def resolvePeerIP_def)


lemma trusted_value_rules:
  "h_values (or_Header (proxyRewrite proto t t2 idh port token r out)) HeaderID = identity_value wh_ID (authenticated idh r)"
  "h_values (or_Header (proxyRewrite proto t t2 idh port token r out)) HeaderUsername = identity_value wh_Username (authenticated idh r)"
  "h_values (or_Header (proxyRewrite proto t t2 idh port token r out)) HeaderDisplayName = identity_value wh_DisplayName (authenticated idh r)"
  "h_values (or_Header (proxyRewrite proto t t2 idh port token r out)) HeaderProfilePicURL = identity_value wh_ProfilePicURL (authenticated idh r)"
  "h_values (or_Header (proxyRewrite proto t t2 idh port token r out)) HeaderAuthToken =
     (if authenticated idh r \<noteq> None \<and> isManagementTarget t2 port then [token] else [])"
  using proxyRewrite_trusted [of proto t t2 idh port token r out]
  unfolding TrustedProxyHeaders_def trusted_values_def Let_def list.map list.inject by blast+


text \<open>
  When the port is re-resolved between the two reads of its target, the token can go to
  the target of the first read.
\<close>

lemma auth_token_race:
  assumes "authenticated idh r \<noteq> None" "isManagementTarget t2 port"
  shows "or_target (proxyRewrite proto t t2 idh port token r out) = t \<and>
    h_values (or_Header (proxyRewrite proto t t2 idh port token r out)) HeaderAuthToken = [token]"
  using assms by (simp add: trusted_value_rules) (simp add: proxyRewrite_def Let_def)

lemma strip_headers:
  "k \<in> set (HeaderAuthToken # IdentityHeaders) \<Longrightarrow> h_values (hq_Header (StripProxyIdentityHeaders token m)) k = []"
  unfolding StripProxyIdentityHeaders_def Let_def by (auto simp: h_values_strip)

lemma strip_whois:
  "hq_Whois (StripProxyIdentityHeaders token m) =
     (if validToken token m \<and> h_get (hq_Header m) HeaderID \<noteq> [] then
        Some \<lparr>wh_ID = h_get (hq_Header m) HeaderID, wh_DisplayName = h_get (hq_Header m) HeaderDisplayName,
          wh_Username = h_get (hq_Header m) HeaderUsername, wh_ProfilePicURL = h_get (hq_Header m) HeaderProfilePicURL\<rparr>
      else hq_Whois m)"
  by (simp add: StripProxyIdentityHeaders_def Let_def)

text \<open>
  The management server takes an identity from headers only from a loopback peer that
  knows the token; the token and the identity headers never reach its handlers.
\<close>

theorem identity_needs_token:
  "list_all (\<lambda>k. h_values (hq_Header (StripProxyIdentityHeaders token m)) k = []) (HeaderAuthToken # IdentityHeaders) \<and>
   (hq_Whois (StripProxyIdentityHeaders token m) \<noteq> hq_Whois m \<longrightarrow>
      IsLocalhost (hq_RemoteAddr m) \<and> token \<noteq> [] \<and> h_get (hq_Header m) HeaderAuthToken = token)"
  using strip_headers [of _ token m] by (auto simp: list_all_iff strip_whois validToken_def split: if_splits)

text \<open>
  In the self-proxy case the identity survives the round trip and nothing else does: the
  management server resolves a forwarded request to exactly the Tailscale user the proxy
  authenticated, and to nobody when there was none or identity headers are off,
  whatever headers the client sent.
\<close>

theorem self_proxy_identity:
  assumes "isManagementTarget t port" "token \<noteq> []" "IsLocalhost (hq_RemoteAddr m)" "hq_Whois m = None"
    and fwd: "hq_Header m = or_Header (proxyRewrite proto t t idh port token r out)"
  shows "ResolveWhois (StripProxyIdentityHeaders token m) =
    (case hq_Whois r of Some who \<Rightarrow> if idh \<and> wh_ID who \<noteq> [] then who else empty_whois | None \<Rightarrow> empty_whois)"
proof (cases "authenticated idh r")
  case None
  then have "h_get (hq_Header m) HeaderAuthToken = []" by (simp add: fwd h_get_values trusted_value_rules)
  with assms None show ?thesis
    by (auto simp: ResolveWhois_def strip_whois validToken_def authenticated_def split: option.splits if_splits)
next
  case (Some who)
  then have "hq_Whois r = Some who" "idh" "wh_ID who \<noteq> []"
    by (auto simp: authenticated_def split: option.splits if_splits)
  moreover have "h_get (hq_Header m) HeaderAuthToken = token" "h_get (hq_Header m) HeaderID = wh_ID who"
    "h_get (hq_Header m) HeaderUsername = wh_Username who" "h_get (hq_Header m) HeaderDisplayName = wh_DisplayName who"
    "h_get (hq_Header m) HeaderProfilePicURL = wh_ProfilePicURL who"
    using Some assms(1) by (simp_all add: fwd h_get_values trusted_value_rules identity_value_def)
  ultimately show ?thesis using assms by (simp add: ResolveWhois_def strip_whois validToken_def)
qed

text \<open>
  The two ways the code decides admin rights agree: \<^verbatim>\<open>IsAdmin\<close>, used to render the dashboard,
  holds exactly when \<^verbatim>\<open>AdminMiddleware\<close> serves the request, for every identity but the
  reserved one; and an admin may always view.
\<close>

theorem admin_checks_agree:
  assumes "wh_ID (ResolveWhois r) \<noteq> ''__localhost__''"
  shows "(IsAdmin r cfg \<longleftrightarrow> AdminMiddleware cfg r = Serve) \<and> (AdminMiddleware cfg r = Serve \<longrightarrow> ViewerMiddleware cfg r = Serve)"
  using assms by (simp add: IsAdmin_def AdminMiddleware_def ViewerMiddleware_def UserIDIsAdmin_def localhostUserID_def Let_def)

section \<open>Witnesses\<close>

definition example_request :: http_request where
  "example_request = \<lparr>hq_RemoteAddr = ''100.64.0.7:5000'', hq_Host = ''web.ts.net'', hq_TLS = False,
     hq_Header = [(''X-Tsdproxy-Id'', [''root''])],
     hq_Whois = Some \<lparr>wh_ID = ''42'', wh_DisplayName = ''Ann'', wh_Username = ''ann'', wh_ProfilePicURL = []\<rparr>\<rparr>"

definition management_url :: url where
  "management_url = \<lparr>u_scheme = ''http'', u_opaque = [], u_user = None, u_host = ''127.0.0.1:8080'', u_path = [], u_query = None, u_fragment = []\<rparr>"

definition management_request :: http_request where
  "management_request = \<lparr>hq_RemoteAddr = ''127.0.0.1:4000'', hq_Host = ''web.ts.net'', hq_TLS = False,
     hq_Header = or_Header (proxyRewrite ''https'' (Some management_url) (Some management_url) True ''8080'' ''secret'' example_request []),
     hq_Whois = None\<rparr>"

lemma example_facts:
  "isManagementTarget (Some management_url) ''8080''" "\<not> IsLocalhost (hq_RemoteAddr example_request)"
  "IsLocalhost (hq_RemoteAddr management_request)" "wh_ID (ResolveWhois example_request) = ''42''"
proof -
  show "isManagementTarget (Some management_url) ''8080''" "\<not> IsLocalhost (hq_RemoteAddr example_request)"
    "wh_ID (ResolveWhois example_request) = ''42''" by code_simp+
  have "IsLocalhost ''127.0.0.1:4000''" by code_simp
  then show "IsLocalhost (hq_RemoteAddr management_request)" by (simp only: management_request_def http_request.select_convs)
qed



theorem identity_needs_token_witness:
  "hq_Whois (StripProxyIdentityHeaders ''secret'' example_request) = hq_Whois example_request"
  using identity_needs_token [of "''secret''" example_request] example_facts(2) by blast

theorem self_proxy_identity_witness:
  "wh_ID (ResolveWhois (StripProxyIdentityHeaders ''secret'' management_request)) = ''42''"
proof -
  have m: "hq_Whois management_request = None" "hq_Header management_request =
      or_Header (proxyRewrite ''https'' (Some management_url) (Some management_url) True ''8080'' ''secret'' example_request [])"
    by (simp_all only: management_request_def http_request.select_convs)
  have w: "hq_Whois example_request = Some \<lparr>wh_ID = ''42'', wh_DisplayName = ''Ann'', wh_Username = ''ann'', wh_ProfilePicURL = []\<rparr>"
    by (simp only: example_request_def http_request.select_convs)
  show ?thesis unfolding self_proxy_identity [OF example_facts(1) _ example_facts(3) m, simplified] w by simp
qed

theorem admin_checks_agree_witness:
  "IsAdmin example_request \<lparr>ac_APIKey = [], ac_Admins = [''42''], ac_AdminAllowLocalhost = False\<rparr> \<longleftrightarrow>
   AdminMiddleware \<lparr>ac_APIKey = [], ac_Admins = [''42''], ac_AdminAllowLocalhost = False\<rparr> example_request = Serve"
  using admin_checks_agree [of example_request "\<lparr>ac_APIKey = [], ac_Admins = [''42''], ac_AdminAllowLocalhost = False\<rparr>"] example_facts(4)
  by simp

end
