(* ===== verification/Whois_Cache.thy ===== *)
theory Whois_Cache
  imports Http_Identity
begin

text \<open>
  \<^verbatim>\<open>src/internal/proxyproviders/tailscale/whois.go\<close> and \<^verbatim>\<open>whois_cache.go\<close>, and the choice of the peer
  address in \<^verbatim>\<open>services_server.go\<close>: who is behind an address. The identity found here is what the
  proxy puts into the identity headers, so an entry must belong to the address it is looked
  up with, and must not be older than its time to live. Times are nanoseconds; the answers of
  the Tailscale client are a parameter.
\<close>

section \<open>The answer of the Tailscale client\<close>

record UserProfile =
  up_ID :: string
  up_DisplayName :: string
  up_LoginName :: string
  up_ProfilePicURL :: string

text \<open>\<open>wi_tagged\<close> is \<open>None\<close> when the response has no node.\<close>

record WhoIsResponse =
  wi_user :: "UserProfile option"
  wi_tagged :: "bool option"

definition emptyWhois :: Whois where
  "emptyWhois = \<lparr>wh_ID = [], wh_DisplayName = [], wh_Username = [], wh_ProfilePicURL = []\<rparr>"

text \<open>\<open>lc\<close> is the local client, if there is one, with the response it gives for an address.\<close>

definition whoisFromAddr :: "(string \<Rightarrow> WhoIsResponse option) option \<Rightarrow> string \<Rightarrow> Whois" where
  "whoisFromAddr lc addr =
     (case lc of
        None \<Rightarrow> emptyWhois
      | Some whoIs \<Rightarrow>
          (case whoIs addr of
             None \<Rightarrow> emptyWhois
           | Some who \<Rightarrow>
               (case wi_user who of
                  None \<Rightarrow> emptyWhois
                | Some u \<Rightarrow>
                    if wi_tagged who = Some True then emptyWhois
                    else \<lparr>wh_ID = up_ID u, wh_DisplayName = up_DisplayName u, wh_Username = up_LoginName u,
                          wh_ProfilePicURL = up_ProfilePicURL u\<rparr>)))"

section \<open>The cache\<close>

record whoisCacheEntry =
  we_expiresAt :: int
  we_who :: Whois
  we_negative :: bool

record WhoisCache =
  wc_entries :: "(string, whoisCacheEntry) gomap"
  wc_ttl :: int
  wc_maxEntries :: int

definition whoisNegativeTTL :: int where "whoisNegativeTTL = 10000000000"
definition hour :: int where "hour = 3600000000000"

definition NewWhoisCache :: "int \<Rightarrow> int \<Rightarrow> WhoisCache" where
  "NewWhoisCache ttl maxEntries = \<lparr>wc_entries = [], wc_ttl = ttl, wc_maxEntries = maxEntries\<rparr>"

text \<open>The search of \<^verbatim>\<open>evict\<close> for the entry that expires first; \<open>oldest\<close> starts as the empty key.\<close>

fun oldest_entry :: "(string, whoisCacheEntry) gomap \<Rightarrow> int \<Rightarrow> string \<Rightarrow> string" where
  "oldest_entry [] oldestTime oldest = oldest"
| "oldest_entry ((k, e) # m) oldestTime oldest =
     (if we_expiresAt e < oldestTime then oldest_entry m (we_expiresAt e) k else oldest_entry m oldestTime oldest)"

text \<open>
  The second loop of \<^verbatim>\<open>evict\<close>, which ends when the cache is small enough; \<open>None\<close> would be a loop
  without end.
\<close>

partial_function (option) evict_loop :: "int \<Rightarrow> int \<Rightarrow> int \<Rightarrow> (string, whoisCacheEntry) gomap \<Rightarrow> (string, whoisCacheEntry) gomap option" where
  "evict_loop maxEntries ttl now m =
     (if int (length m) > maxEntries
      then evict_loop maxEntries ttl now (gm_del (oldest_entry m (now + ttl + hour) []) m)
      else Some m)"

declare evict_loop.simps [code]

definition evict :: "int \<Rightarrow> WhoisCache \<Rightarrow> WhoisCache option" where
  "evict now c =
     (let m = filter (\<lambda>(k, e). \<not> now > we_expiresAt e) (wc_entries c)
      in if wc_maxEntries c \<le> 0 \<or> int (length m) \<le> wc_maxEntries c then Some (c\<lparr>wc_entries := m\<rparr>)
         else map_option (\<lambda>m'. c\<lparr>wc_entries := m'\<rparr>) (evict_loop (wc_maxEntries c) (wc_ttl c) now m))"

definition storeEntry :: "int \<Rightarrow> string \<Rightarrow> whoisCacheEntry \<Rightarrow> WhoisCache \<Rightarrow> WhoisCache option" where
  "storeEntry now key entry c =
     (let c' = c\<lparr>wc_entries := gm_put key entry (wc_entries c)\<rparr>
      in if wc_maxEntries c > 0 \<and> int (length (wc_entries c')) > wc_maxEntries c then evict now c' else Some c')"

text \<open>
  \<^verbatim>\<open>Lookup\<close> at time \<open>now\<close>; \<open>resolve\<close> is the answer if the client is asked, at the time \<open>later\<close>. The
  package \<^verbatim>\<open>singleflight\<close> runs the function once for concurrent callers of a key.
\<close>

definition Lookup :: "int \<Rightarrow> int \<Rightarrow> Whois \<Rightarrow> string \<Rightarrow> WhoisCache \<Rightarrow> (Whois \<times> WhoisCache) option" where
  "Lookup now later resolve ip c =
     (let key = NormalizeIP ip
      in if key = [] then Some (emptyWhois, c)
         else let fetch = (let ttl = (if wh_ID resolve = [] then whoisNegativeTTL else wc_ttl c)
                           in map_option (Pair resolve)
                                (storeEntry later key \<lparr>we_expiresAt = later + ttl, we_who = resolve, we_negative = (wh_ID resolve = [])\<rparr> c))
              in case gm_get (wc_entries c) key of
                   Some entry \<Rightarrow>
                     if now < we_expiresAt entry then Some (if we_negative entry then emptyWhois else we_who entry, c) else fetch
                 | None \<Rightarrow> fetch)"

definition cachedWhoisFromAddr :: "int \<Rightarrow> int \<Rightarrow> (string \<Rightarrow> WhoIsResponse option) option \<Rightarrow> string \<Rightarrow> WhoisCache option \<Rightarrow> (Whois \<times> WhoisCache option) option" where
  "cachedWhoisFromAddr now later lc addr cache =
     (case (cache, lc) of
        (Some c, Some _) \<Rightarrow>
          let ip = NormalizeIP addr
          in if ip = [] then Some (emptyWhois, cache)
             else map_option (apsnd Some) (Lookup now later (whoisFromAddr lc addr) ip c)
      | _ \<Rightarrow> Some (whoisFromAddr lc addr, cache))"

section \<open>The peer of a service\<close>

definition trustedPeerIP :: "http_request \<Rightarrow> string" where
  "trustedPeerIP r =
     (if \<not> IsLocalhost (hq_RemoteAddr r) then NormalizeIP (hq_RemoteAddr r)
      else let xffVals = h_values (hq_Header r) HeaderXForwardedFor
           in if length xffVals \<noteq> 1 then []
              else let xff = xffVals ! 0
                   in if CHR '','' \<in> set xff then []
                      else let ip = NormalizeIP (trim_space xff)
                           in if ip = [] then []
                              else case parse_ip ip of
                                     Some parsed \<Rightarrow> if is_loopback parsed then [] else ip
                                   | None \<Rightarrow> ip)"

section \<open>Lemmas\<close>

definition whois_entry_ok :: "int \<Rightarrow> int \<Rightarrow> whoisCacheEntry \<Rightarrow> bool" where
  "whois_entry_ok now ttl e \<longleftrightarrow> we_expiresAt e < now + ttl + hour"

lemma oldest_entry_in:
  "\<forall>e \<in> set (map snd m). we_expiresAt e < t \<Longrightarrow> m \<noteq> [] \<Longrightarrow> oldest_entry m t k0 \<in> set (keys m)"
proof -
  have "oldest_entry m t k0 \<in> insert k0 (set (keys m))" for m t k0
    by (induction m t k0 rule: oldest_entry.induct) auto
  then have gen: "oldest_entry m t k0 = k0 \<or> oldest_entry m t k0 \<in> set (keys m)" for m t k0 by blast
  assume a: "\<forall>e \<in> set (map snd m). we_expiresAt e < t" "m \<noteq> []"
  then obtain k e m' where "m = (k, e) # m'" by (cases m) auto
  with a gen [of m' "we_expiresAt e" k] show ?thesis by auto
qed

lemma evict_loop_ends:
  assumes "gm_wf m" "0 \<le> maxEntries" "\<forall>e \<in> set (map snd m). whois_entry_ok now ttl e"
  shows "\<exists>m'. evict_loop maxEntries ttl now m = Some m' \<and> int (length m') \<le> maxEntries \<and> set m' \<subseteq> set m \<and> gm_wf m'"
  using assms
proof (induction "length m" arbitrary: m rule: less_induct)
  case less
  show ?case
  proof (cases "int (length m) > maxEntries")
    case False
    with less.prems show ?thesis by (auto simp: evict_loop.simps)
  next
    case True
    let ?k = "oldest_entry m (now + ttl + hour) []"
    have "m \<noteq> []" using True less.prems(2) by auto
    then have k: "?k \<in> set (keys m)" using less.prems(3) by (intro oldest_entry_in) (auto simp: whois_entry_ok_def)
    then have "length (gm_del ?k m) < length m" using gm_del_length [OF less.prems(1) k] by linarith
    moreover have sub: "set (gm_del ?k m) \<subseteq> set m" by (auto dest: gm_del_set)
    moreover have "\<forall>e \<in> set (map snd (gm_del ?k m)). whois_entry_ok now ttl e" using less.prems(3) sub by auto
    ultimately obtain m' where "evict_loop maxEntries ttl now (gm_del ?k m) = Some m'" "int (length m') \<le> maxEntries"
      "set m' \<subseteq> set (gm_del ?k m)" "gm_wf m'"
      using less.hyps [of "gm_del ?k m"] less.prems(1,2) by blast
    with sub True show ?thesis by (subst evict_loop.simps) auto
  qed
qed

text \<open>The invariant of the cache at a time: distinct keys, not too many, none that lives too long.\<close>

definition cache_ok :: "int \<Rightarrow> WhoisCache \<Rightarrow> bool" where
  "cache_ok now c \<longleftrightarrow>
     gm_wf (wc_entries c) \<and> 0 \<le> wc_ttl c \<and> 0 < wc_maxEntries c \<and> int (length (wc_entries c)) \<le> wc_maxEntries c \<and>
     (\<forall>(k, e) \<in> set (wc_entries c). we_expiresAt e \<le> now + max (wc_ttl c) whoisNegativeTTL)"

lemma gm_wf_filter: "gm_wf m \<Longrightarrow> gm_wf (filter P m)"
  unfolding gm_wf_def by (rule distinct_map_filter)

lemma storeEntry_ok:
  assumes ok: "cache_ok now c" and t: "we_expiresAt entry \<le> now + max (wc_ttl c) whoisNegativeTTL"
  shows "\<exists>c'. storeEntry now key entry c = Some c' \<and> cache_ok now c' \<and> set (wc_entries c') \<subseteq> insert (key, entry) (set (wc_entries c)) \<and>
    wc_ttl c' = wc_ttl c \<and> wc_maxEntries c' = wc_maxEntries c"
proof -
  let ?m = "gm_put key entry (wc_entries c)"
  have wf: "gm_wf ?m" using ok by (simp add: cache_ok_def)
  have sub: "set ?m \<subseteq> insert (key, entry) (set (wc_entries c))" by (auto dest: gm_put_set)
  have exp: "\<forall>(k, e) \<in> set ?m. we_expiresAt e \<le> now + max (wc_ttl c) whoisNegativeTTL" using sub ok t by (fastforce simp: cache_ok_def)
  show ?thesis
  proof (cases "int (length ?m) > wc_maxEntries c")
    case False
    with wf sub exp ok show ?thesis by (auto simp: storeEntry_def Let_def cache_ok_def)
  next
    case True
    let ?f = "filter (\<lambda>(k, e). \<not> now > we_expiresAt e) ?m"
    have wff: "gm_wf ?f" by (rule gm_wf_filter [OF wf])
    have fsub: "set ?f \<subseteq> set ?m" by auto
    show ?thesis
    proof (cases "int (length ?f) \<le> wc_maxEntries c")
      case le: True
      with True ok have "storeEntry now key entry c = Some (c\<lparr>wc_entries := ?f\<rparr>)" by (simp add: storeEntry_def evict_def Let_def cache_ok_def)
      with le wff fsub sub exp ok show ?thesis by (fastforce simp: cache_ok_def)
    next
      case gt: False
      have "\<forall>e \<in> set (map snd ?f). whois_entry_ok now (wc_ttl c) e"
        using exp ok fsub by (fastforce simp: whois_entry_ok_def hour_def whoisNegativeTTL_def cache_ok_def)
      then obtain m' where m': "evict_loop (wc_maxEntries c) (wc_ttl c) now ?f = Some m'" "int (length m') \<le> wc_maxEntries c"
        "set m' \<subseteq> set ?f" "gm_wf m'"
        using evict_loop_ends [OF wff, of "wc_maxEntries c" now "wc_ttl c"] ok by (auto simp: cache_ok_def)
      then have "storeEntry now key entry c = Some (c\<lparr>wc_entries := m'\<rparr>)" using True gt ok by (simp add: storeEntry_def evict_def Let_def cache_ok_def)
      with m' fsub sub exp ok show ?thesis by (fastforce simp: cache_ok_def)
    qed
  qed
qed

lemma cache_ok_later: "cache_ok now c \<Longrightarrow> now \<le> later \<Longrightarrow> cache_ok later c"
  by (fastforce simp: cache_ok_def)

lemma dropWhile_rev_idem: "dropWhile P (rev (dropWhile P (rev (dropWhile P xs)))) = rev (dropWhile P (rev (dropWhile P xs)))"
proof (cases "dropWhile P xs")
  case (Cons y ys)
  then have y: "\<not> P y" using hd_dropWhile [of P xs] by force
  then have "dropWhile P (rev (dropWhile P xs)) = dropWhile P (rev ys) @ [y]" using Cons by (simp add: dropWhile_append3)
  with y show ?thesis by simp
next
  case Nil
  show ?thesis unfolding Nil by simp
qed

lemma trim_space_idem: "trim_space (trim_space s) = trim_space s"
  by (simp add: trim_space_def dropWhile_rev_idem dropWhile_idem)

lemma NormalizeIP_trim: "NormalizeIP (trim_space a) = NormalizeIP a"
  by (simp add: NormalizeIP_def trim_space_idem)

section \<open>Properties\<close>

text \<open>
  A lookup always returns, whatever is in the cache (the eviction loop ends), and it keeps the
  cache within its size; the identity it returns is the one the client gives now, or that of
  an entry stored under the same address that has not expired; no entry of another address
  is changed or added, and none is kept longer than its time to live.
\<close>

theorem whois_lookup:
  assumes ok: "cache_ok now c" and t: "now \<le> later"
  shows "\<exists>who c'. Lookup now later resolve ip c = Some (who, c') \<and> cache_ok later c' \<and>
    (who = emptyWhois \<or> who = resolve \<or> (\<exists>e. gm_get (wc_entries c) (NormalizeIP ip) = Some e \<and> now < we_expiresAt e \<and> who = we_who e)) \<and>
    (\<forall>k e. (k, e) \<in> set (wc_entries c') \<longrightarrow> (k, e) \<in> set (wc_entries c) \<or> k = NormalizeIP ip \<and> we_who e = resolve)"
proof -
  let ?e = "\<lparr>we_expiresAt = later + (if wh_ID resolve = [] then whoisNegativeTTL else wc_ttl c), we_who = resolve, we_negative = (wh_ID resolve = [])\<rparr>"
  have "we_expiresAt ?e \<le> later + max (wc_ttl c) whoisNegativeTTL" by simp
  then obtain c' where st: "storeEntry later (NormalizeIP ip) ?e c = Some c'" "cache_ok later c'"
    "set (wc_entries c') \<subseteq> insert (NormalizeIP ip, ?e) (set (wc_entries c))"
    using storeEntry_ok [OF cache_ok_later [OF ok t], of ?e "NormalizeIP ip"] by blast
  have fetched: "\<forall>k e. (k, e) \<in> set (wc_entries c') \<longrightarrow> (k, e) \<in> set (wc_entries c) \<or> k = NormalizeIP ip \<and> we_who e = resolve"
    using st(3) by auto
  show ?thesis
  proof (cases "NormalizeIP ip = []")
    case True
    then show ?thesis using cache_ok_later [OF ok t] by (auto simp: Lookup_def)
  next
    case False
    show ?thesis
    proof (cases "\<exists>e. gm_get (wc_entries c) (NormalizeIP ip) = Some e \<and> now < we_expiresAt e")
      case True
      then obtain e where "gm_get (wc_entries c) (NormalizeIP ip) = Some e" "now < we_expiresAt e" by blast
      with False show ?thesis using cache_ok_later [OF ok t] by (auto simp: Lookup_def)
    next
      case miss: False
      then have "Lookup now later resolve ip c = Some (resolve, c')"
        using False st(1) by (auto simp: Lookup_def Let_def split: option.splits)
      with st(2) fetched show ?thesis by auto
    qed
  qed
qed

theorem whois_lookup_witness:
  "\<exists>who c'. Lookup 0 5 \<lparr>wh_ID = ''7'', wh_DisplayName = [], wh_Username = ''u'', wh_ProfilePicURL = []\<rparr> ''100.64.0.1:80'' (NewWhoisCache 30000000000 1024) = Some (who, c') \<and>
     cache_ok 5 c'"
proof -
  have "cache_ok 0 (NewWhoisCache 30000000000 1024)" by (simp add: cache_ok_def NewWhoisCache_def)
  from whois_lookup [OF this, of 5] show ?thesis by fastforce
qed

text \<open>
  A tagged node has no user identity: whatever profile the Tailscale client reports for it, the
  identity of its address is empty; so is that of an address the client cannot resolve.
\<close>

theorem whois_identity_untagged:
  assumes "wh_ID (whoisFromAddr lc addr) \<noteq> []"
  shows "\<exists>whoIs who u. lc = Some whoIs \<and> whoIs addr = Some who \<and> wi_user who = Some u \<and> wi_tagged who \<noteq> Some True \<and>
    whoisFromAddr lc addr = \<lparr>wh_ID = up_ID u, wh_DisplayName = up_DisplayName u, wh_Username = up_LoginName u, wh_ProfilePicURL = up_ProfilePicURL u\<rparr>"
  using assms by (auto simp: whoisFromAddr_def emptyWhois_def split: option.splits if_splits)

theorem whois_identity_untagged_witness:
  "\<exists>u. wi_user \<lparr>wi_user = Some \<lparr>up_ID = ''1'', up_DisplayName = [], up_LoginName = ''a'', up_ProfilePicURL = []\<rparr>, wi_tagged = Some False\<rparr> = Some u \<and> up_ID u = ''1''"
proof -
  let ?r = "\<lparr>wi_user = Some \<lparr>up_ID = ''1'', up_DisplayName = [], up_LoginName = ''a'', up_ProfilePicURL = []\<rparr>, wi_tagged = Some False\<rparr>"
  have "wh_ID (whoisFromAddr (Some (\<lambda>_. Some ?r)) ''x'') \<noteq> []" by (simp add: whoisFromAddr_def)
  from whois_identity_untagged [OF this] show ?thesis by auto
qed

text \<open>
  The services server and the rate limiter agree on the address of the peer of a request: the
  two implementations give the same result on every request.
\<close>

theorem trustedPeerIP_eq: "trustedPeerIP r = peer_ip r"
proof -
  have c: "contains_str x '','' \<longleftrightarrow> CHR '','' \<in> set x" for x
    using index_of_char_None [of "CHR '',''" x] by (auto simp: contains_str_def)
  show ?thesis
    by (auto simp: trustedPeerIP_def peer_ip_def resolvePeerIP_def Let_def c NormalizeIP_trim parse_ip_Nil split: option.splits)
qed

end
