(* ===== verification/Go_Path.thy ===== *)
theory Go_Path
  imports Go_Prelude
begin

text \<open>
  Go's \<^verbatim>\<open>path/filepath\<close> on Unix, as far as the sources use it: \<^verbatim>\<open>Clean\<close>, \<^verbatim>\<open>Join\<close>, \<^verbatim>\<open>IsAbs\<close>
  and \<^verbatim>\<open>Rel\<close>. A path is first taken apart into whether it is rooted and its elements
  after the lexical processing of dots, \<open>clean_parts\<close>; the functions on strings are written over
  that. The lemmas are the round trip between parts and paths and what a relative path
  without a leading \<open>..\<close> says about the two paths.
\<close>

section \<open>Clean\<close>

definition clean_elem :: "bool \<Rightarrow> string \<Rightarrow> string list \<Rightarrow> string list" where
  "clean_elem rooted e out =
     (if e = [] \<or> e = ''.'' then out
      else if e = ''..'' then
        (case out of
           [] \<Rightarrow> (if rooted then [] else [''..''])
         | x # xs \<Rightarrow> if x = ''..'' then ''..'' # out else xs)
      else e # out)"

definition clean_parts :: "string \<Rightarrow> bool \<times> string list" where
  "clean_parts p = (let rooted = has_prefix p ''/'' in (rooted, rev (fold (clean_elem rooted) (split_str ''/'' p) [])))"

definition render_path :: "bool \<times> string list \<Rightarrow> string" where
  "render_path pe =
     (let (rooted, es) = pe
      in if rooted then ''/'' @ join_str ''/'' es else if es = [] then ''.'' else join_str ''/'' es)"

definition path_Clean :: "string \<Rightarrow> string" where
  "path_Clean p = render_path (clean_parts p)"

definition path_Join :: "string list \<Rightarrow> string" where
  "path_Join es = (case dropWhile (\<lambda>e. e = []) es of [] \<Rightarrow> [] | es' \<Rightarrow> path_Clean (join_str ''/'' es'))"

definition path_IsAbs :: "string \<Rightarrow> bool" where
  "path_IsAbs p \<longleftrightarrow> has_prefix p ''/''"

section \<open>Rel\<close>

fun drop_common :: "string list \<Rightarrow> string list \<Rightarrow> string list \<times> string list" where
  "drop_common (x # xs) (y # ys) = (if x = y then drop_common xs ys else (x # xs, y # ys))"
| "drop_common xs ys = (xs, ys)"

definition path_Rel :: "string \<Rightarrow> string \<Rightarrow> string option" where
  "path_Rel base targ =
     (let (r1, be) = clean_parts base; (r2, te) = clean_parts targ
      in if r1 = r2 \<and> be = te then Some ''.''
         else if r1 \<noteq> r2 then None
         else let (b, t) = drop_common be (if \<not> r2 \<and> te = [] then [''.''] else te)
              in if b \<noteq> [] \<and> hd b = ''..'' then None
                 else Some (join_str ''/'' (replicate (length b) ''..'' @ t)))"

section \<open>Splitting and joining\<close>

lemma split_str_no_sep: "e \<in> set (split_str [c] s) \<Longrightarrow> c \<notin> set e"
proof (induction "length s" arbitrary: s rule: less_induct)
  case less
  show ?case
  proof (cases "c \<in> set s")
    case False
    with less.prems show ?thesis by (simp add: split_str_absent)
  next
    case True
    then obtain xs ys where s: "s = xs @ c # ys" "c \<notin> set xs" by (metis split_list_first)
    with less.prems have "e = xs \<or> e \<in> set (split_str [c] ys)" by (simp add: split_str_cons)
    moreover have "e \<in> set (split_str [c] ys) \<Longrightarrow> c \<notin> set e" by (rule less.hyps) (simp_all add: s)
    ultimately show ?thesis using s(2) by blast
  qed
qed

lemma split_join: "es \<noteq> [] \<Longrightarrow> \<forall>e \<in> set es. c \<notin> set e \<Longrightarrow> split_str [c] (join_str [c] es) = es"
proof (induction es rule: induct_list012)
  case (3 x y ys)
  then show ?case by (simp add: split_str_cons)
qed (simp_all add: split_str_absent)

lemma join_split: "join_str [c] (split_str [c] s) = s"
proof (induction "length s" arbitrary: s rule: less_induct)
  case less
  show ?case
  proof (cases "c \<in> set s")
    case False
    then show ?thesis by (simp add: split_str_absent)
  next
    case True
    then obtain xs ys where s: "s = xs @ c # ys" "c \<notin> set xs" by (metis split_list_first)
    moreover obtain z zs where "split_str [c] ys = z # zs" using split_str_nonempty [of "[c]" ys] by (cases "split_str [c] ys") auto
    ultimately show ?thesis using less [of ys] by (simp add: split_str_cons)
  qed
qed

section \<open>Clean paths\<close>

text \<open>What the elements of a clean path look like: no empty and dot elements, and \<open>..\<close> only in front.\<close>

definition plain_elem :: "string \<Rightarrow> bool" where
  "plain_elem e \<longleftrightarrow> e \<noteq> [] \<and> e \<noteq> ''.'' \<and> e \<noteq> ''..'' \<and> CHR ''/'' \<notin> set e"

definition clean_list :: "bool \<Rightarrow> string list \<Rightarrow> bool" where
  "clean_list rooted es \<longleftrightarrow>
     (\<exists>n ps. es = replicate n ''..'' @ ps \<and> (\<forall>e \<in> set ps. plain_elem e) \<and> (rooted \<longrightarrow> n = 0))"

lemma clean_listI: "\<forall>e \<in> set ps. plain_elem e \<Longrightarrow> (r \<longrightarrow> n = 0) \<Longrightarrow> clean_list r (replicate n ''..'' @ ps)"
  unfolding clean_list_def by blast

lemma clean_listE:
  assumes "clean_list r es"
  obtains n ps where "es = replicate n ''..'' @ ps" "\<forall>e \<in> set ps. plain_elem e" "r \<longrightarrow> n = 0"
  using assms unfolding clean_list_def by blast

lemma clean_elem_keeps:
  assumes "clean_list r (rev out)" "CHR ''/'' \<notin> set e"
  shows "clean_list r (rev (clean_elem r e out))"
proof -
  obtain n ps where o: "rev out = replicate n ''..'' @ ps" "\<forall>e \<in> set ps. plain_elem e" "r \<longrightarrow> n = 0"
    using assms(1) by (rule clean_listE)
  consider (skip) "e = [] \<or> e = ''.''" | (up) "e = ''..''" | (plain) "plain_elem e"
    using assms(2) by (auto simp: plain_elem_def)
  then show ?thesis
  proof cases
    case skip
    with assms(1) show ?thesis by (auto simp: clean_elem_def)
  next
    case plain
    with o have "rev (clean_elem r e out) = replicate n ''..'' @ (ps @ [e])" by (auto simp: clean_elem_def plain_elem_def)
    moreover have "clean_list r (replicate n ''..'' @ (ps @ [e]))" using o plain by (intro clean_listI) auto
    ultimately show ?thesis by simp
  next
    case up
    show ?thesis
    proof (cases ps rule: rev_cases)
      case Nil
      with o have out: "out = replicate n ''..''" by (metis append_Nil2 rev_replicate rev_rev_ident)
      have "clean_elem r e out = (if r then [] else replicate (Suc n) ''..'')"
        using up out o(3) by (cases n) (auto simp: clean_elem_def)
      then have "rev (clean_elem r e out) = replicate (if r then 0 else Suc n) ''..'' @ []"
        by (cases r) (simp_all only: rev_replicate append_Nil2 if_True if_False replicate_0 rev.simps)
      moreover have "clean_list r (replicate (if r then 0 else Suc n) ''..'' @ [])" by (intro clean_listI) simp_all
      ultimately show ?thesis by simp
    next
      case (snoc qs q)
      with o have "rev out = (replicate n ''..'' @ qs) @ [q]" by simp
      then have out: "out = q # rev (replicate n ''..'' @ qs)" by (simp add: rev_swap)
      have "q \<noteq> ''..''" using o(2) snoc by (simp add: plain_elem_def)
      then have "rev (clean_elem r e out) = replicate n ''..'' @ qs" using up unfolding out by (simp add: clean_elem_def)
      moreover have "clean_list r (replicate n ''..'' @ qs)" using o snoc by (intro clean_listI) auto
      ultimately show ?thesis by simp
    qed
  qed
qed

lemma fold_clean_keeps:
  "clean_list r (rev out) \<Longrightarrow> \<forall>e \<in> set xs. CHR ''/'' \<notin> set e \<Longrightarrow> clean_list r (rev (fold (clean_elem r) xs out))"
proof (induction xs arbitrary: out)
  case (Cons x xs)
  then show ?case using clean_elem_keeps [of r out x] by simp
qed simp

lemma clean_parts_clean:
  assumes "clean_parts p = (r, es)"
  shows "clean_list r es"
proof -
  have "clean_list r (rev [])" using clean_listI [of "[]" r 0] by simp
  moreover have "\<forall>e \<in> set (split_str ''/'' p). CHR ''/'' \<notin> set e" using split_str_no_sep by blast
  ultimately have "clean_list r (rev (fold (clean_elem r) (split_str ''/'' p) []))" by (rule fold_clean_keeps)
  then show ?thesis using assms by (simp add: clean_parts_def Let_def) (metis fst_conv snd_conv)
qed

lemma clean_list_no_slash:
  assumes "clean_list r es" "e \<in> set es"
  shows "CHR ''/'' \<notin> set e \<and> e \<noteq> []"
proof -
  obtain n ps where e: "es = replicate n ''..'' @ ps" "\<forall>e \<in> set ps. plain_elem e" using assms(1) by (rule clean_listE)
  with assms(2) have "e = ''..'' \<or> plain_elem e" by fastforce
  then show ?thesis by (auto simp: plain_elem_def)
qed

lemma fold_clean_ups: "fold (clean_elem False) (replicate n ''..'') (replicate m ''..'') = replicate (n + m) ''..''"
proof (induction n arbitrary: m)
  case (Suc n)
  have "clean_elem False ''..'' (replicate m ''..'') = replicate (Suc m) ''..''"
    by (cases m) (simp_all add: clean_elem_def)
  with Suc [of "Suc m"] show ?case by simp
qed simp

lemma fold_clean_plain: "\<forall>e \<in> set qs. plain_elem e \<Longrightarrow> fold (clean_elem r) qs out = rev qs @ out"
  by (induction qs arbitrary: out) (simp_all add: clean_elem_def plain_elem_def)

lemma fold_clean_id:
  assumes "clean_list r es"
  shows "fold (clean_elem r) es [] = rev es"
proof -
  obtain n ps where e: "es = replicate n ''..'' @ ps" "\<forall>e \<in> set ps. plain_elem e" "r \<longrightarrow> n = 0"
    using assms by (rule clean_listE)
  have "fold (clean_elem r) (replicate n ''..'') [] = replicate n ''..''"
    using fold_clean_ups [of n 0] e(3) by (cases r) auto
  with e fold_clean_plain show ?thesis by simp
qed

text \<open>A clean path has the parts it was made from.\<close>

lemma clean_parts_render:
  assumes "clean_list r es"
  shows "clean_parts (render_path (r, es)) = (r, es)"
proof (cases "es = []")
  case True
  moreover have "clean_parts (render_path (True, [])) = (True, [])" "clean_parts (render_path (False, [])) = (False, [])"
    by code_simp+
  ultimately show ?thesis by (cases r) simp_all
next
  case False
  then obtain x xs where es: "es = x # xs" by (cases es) auto
  have ns: "\<forall>e \<in> set es. CHR ''/'' \<notin> set e" "x \<noteq> []" using clean_list_no_slash [OF assms] es by auto
  have split: "split_str ''/'' (join_str ''/'' es) = es" using split_join [OF False ns(1)] by simp
  have "\<not> has_prefix (join_str ''/'' es) ''/''"
    using ns es by (cases x; cases xs) (auto simp: has_prefix_def)
  moreover have "split_str ''/'' (''/'' @ join_str ''/'' es) = [] # es"
    using split_str_cons [of "CHR ''/''" "[]" "join_str ''/'' es"] split by simp
  moreover have "has_prefix (''/'' @ s) ''/''" for s by (simp add: has_prefix_def)
  moreover have "clean_elem r [] [] = []" for r by (simp add: clean_elem_def)
  ultimately show ?thesis using False fold_clean_id [OF assms] split by (auto simp: render_path_def clean_parts_def)
qed

lemma clean_parts_Clean [simp]: "clean_parts (path_Clean p) = clean_parts p"
  using clean_parts_render clean_parts_clean [of p] by (cases "clean_parts p") (simp add: path_Clean_def)

text \<open>\<^verbatim>\<open>Clean\<close> is idempotent.\<close>

lemma path_Clean_idem [simp]: "path_Clean (path_Clean p) = path_Clean p"
  by (simp add: path_Clean_def clean_parts_Clean [unfolded path_Clean_def])

lemma drop_common_append: "drop_common xs ys = (b, t) \<Longrightarrow> \<exists>c. xs = c @ b \<and> ys = c @ t"
proof (induction xs ys rule: drop_common.induct)
  case (1 x xs y ys)
  show ?case
  proof (cases "x = y")
    case True
    with 1 obtain c where "xs = c @ b" "ys = c @ t" by auto
    with True show ?thesis by (intro exI [of _ "x # c"]) simp
  qed (use 1 in auto)
qed auto

lemma up_prefix:
  "has_prefix (join_str ''/'' (''..'' # xs)) ''../'' \<or> join_str ''/'' (''..'' # xs) = ''..''"
  by (cases xs) (simp_all add: has_prefix_def)

text \<open>
  When the relative path from \<open>base\<close> to \<open>targ\<close> does not start with \<open>..\<close>, then \<open>targ\<close> is \<open>base\<close> with
  further elements, none of them \<open>..\<close>.
\<close>

lemma path_Rel_inside:
  assumes rel: "path_Rel base targ = Some rel" and "rel \<noteq> ''..''" "\<not> has_prefix rel ''../''"
  shows "\<exists>r be rest. clean_parts base = (r, be) \<and> clean_parts targ = (r, be @ rest) \<and> ''..'' \<notin> set rest"
proof -
  obtain r1 be where b: "clean_parts base = (r1, be)" by (cases "clean_parts base") auto
  obtain r2 te where t: "clean_parts targ = (r2, te)" by (cases "clean_parts targ") auto
  show ?thesis
  proof (cases "r1 = r2 \<and> be = te")
    case True
    with b t show ?thesis by auto
  next
    case False
    let ?te = "if \<not> r2 \<and> te = [] then [''.''] else te"
    obtain b' t' where d: "drop_common be ?te = (b', t')" by (cases "drop_common be ?te") auto
    with False rel b t have r: "r1 = r2" "b' \<noteq> [] \<longrightarrow> hd b' \<noteq> ''..''" "rel = join_str ''/'' (replicate (length b') ''..'' @ t')"
      by (auto simp: path_Rel_def Let_def split: if_split_asm prod.splits)
    have b0: "b' = []"
    proof (rule ccontr)
      assume "b' \<noteq> []"
      then obtain n where "length b' = Suc n" by (cases b') auto
      with r(3) have "rel = join_str ''/'' (''..'' # (replicate n ''..'' @ t'))" by simp
      with up_prefix assms(2,3) show False by metis
    qed
    obtain c where c: "be = c @ b'" "?te = c @ t'" using drop_common_append [OF d] by blast
    with b0 have te: "?te = be @ t'" by simp
    have hd': "hd t' \<noteq> ''..''" if "t' \<noteq> []"
    proof
      assume "hd t' = ''..''"
      with that obtain t'' where "t' = ''..'' # t''" by (cases t') auto
      with r(3) b0 have "rel = join_str ''/'' (''..'' # t'')" by simp
      with up_prefix [of t''] assms(2,3) show False by metis
    qed
    have ne: "te \<noteq> [] \<or> r2"
    proof (rule ccontr)
      assume n: "\<not> (te \<noteq> [] \<or> r2)"
      with te have "be = [] \<or> be = [''.'']" by (auto simp: Cons_eq_append_conv)
      with n False r(1) have "be = [''.'']" by auto
      with clean_parts_clean [OF b] have "clean_list r1 [''.'']" by simp
      then obtain n ps where np: "[''.''] = replicate n ''..'' @ ps" "\<forall>e \<in> set ps. plain_elem e" by (rule clean_listE)
      have "n = 0"
      proof (rule ccontr)
        assume "n \<noteq> 0"
        then obtain m where "n = Suc m" by (cases n) blast+
        with np(1) have "[''.''] = ''..'' # (replicate m ''..'' @ ps)" by (simp only: replicate_Suc append_Cons)
        then show False by simp
      qed
      with np(1) have "ps = [''.'']" by (simp only: replicate_0 append_Nil)
      with np(2) have "plain_elem ''.''" by simp
      then show False by (simp add: plain_elem_def)
    qed
    from te ne have te': "te = be @ t'" by (auto split: if_splits)
    obtain n ps where cl: "te = replicate n ''..'' @ ps" "\<forall>e \<in> set ps. plain_elem e" using clean_parts_clean [OF t] by (rule clean_listE)
    have "''..'' \<notin> set t'"
    proof (cases "length be < n")
      case True
      then have "te ! length be = ''..''" "length be < length te" using cl(1) by (simp_all add: nth_append)
      then have "hd (drop (length be) te) = ''..''" "drop (length be) te \<noteq> []" by (simp_all add: hd_drop_conv_nth)
      with te' hd' show ?thesis by simp
    next
      case False
      have "t' = drop (length be) te" using te' by simp
      also have "\<dots> = drop (length be - n) ps" using False unfolding cl(1) by simp
      finally have "set t' \<subseteq> set ps" by (simp add: set_drop_subset)
      moreover have "''..'' \<notin> set ps" using cl(2) unfolding plain_elem_def by blast
      ultimately show ?thesis by blast
    qed
    with b t te' r(1) show ?thesis by auto
  qed
qed

end
