(* ===== verification/Target_Settings.thy ===== *)
theory Target_Settings
  imports Proxy_Model Go_Path
begin

text \<open>
  What the target providers share: \<^verbatim>\<open>targetproviders/settings/settings.go\<close> (typed look-ups in the labels
  of a target), \<^verbatim>\<open>config.ValidateKeyFilePath\<close>, the defaults and bounds of \<^verbatim>\<open>model/default.go\<close>,
  \<^verbatim>\<open>model.NewConfig\<close>, the icon guess of \<^verbatim>\<open>web/web.go\<close> and the target events of
  \<^verbatim>\<open>targetproviders.go\<close>. The files of the machine are an argument.
\<close>

section \<open>Defaults and bounds\<close>

definition DefaultProxyAccessLog :: bool where "DefaultProxyAccessLog = True"
definition DefaultIdentityHeaders :: bool where "DefaultIdentityHeaders = True"
definition DefaultProxyProvider :: string where "DefaultProxyProvider = []"
definition DefaultTailscaleEphemeral :: bool where "DefaultTailscaleEphemeral = False"
definition DefaultTailscaleRunWebClient :: bool where "DefaultTailscaleRunWebClient = False"
definition DefaultTailscaleVerbose :: bool where "DefaultTailscaleVerbose = False"
definition DefaultTailscaleFunnel :: bool where "DefaultTailscaleFunnel = False"
definition DefaultDashboardVisible :: bool where "DefaultDashboardVisible = True"
definition DefaultDashboardIcon :: string where "DefaultDashboardIcon = ''tsdproxy''"

definition RateLimitMinRPS :: int where "RateLimitMinRPS = 1"
definition RateLimitMaxRPS :: int where "RateLimitMaxRPS = 10000"
definition RateLimitMinBurst :: int where "RateLimitMinBurst = 1"
definition RateLimitMaxBurst :: int where "RateLimitMaxBurst = 100000"
definition HealthCheckMinIntervalSeconds :: int where "HealthCheckMinIntervalSeconds = 1"
definition HealthCheckMaxIntervalSeconds :: int where "HealthCheckMaxIntervalSeconds = 86400"
definition HealthCheckMinFailures :: int where "HealthCheckMinFailures = 1"
definition HealthCheckMaxFailures :: int where "HealthCheckMaxFailures = 100"
definition HealthCheckMinCooldownSeconds :: int where "HealthCheckMinCooldownSeconds = 0"
definition HealthCheckMaxCooldownSeconds :: int where "HealthCheckMaxCooldownSeconds = 86400"

lemmas setting_bounds = RateLimitMinRPS_def RateLimitMaxRPS_def RateLimitMinBurst_def RateLimitMaxBurst_def
  HealthCheckMinIntervalSeconds_def HealthCheckMaxIntervalSeconds_def HealthCheckMinFailures_def HealthCheckMaxFailures_def
  HealthCheckMinCooldownSeconds_def HealthCheckMaxCooldownSeconds_def

text \<open>\<^verbatim>\<open>NewConfig\<close>: a configuration with the defaults of its tags.\<close>

definition NewConfig :: Config where
  "NewConfig =
     \<lparr>cfg_Ports = [], cfg_TargetProvider = [], cfg_TargetID = [], cfg_TargetImage = [], cfg_ProxyProvider = [],
      cfg_Hostname = [], cfg_Domain = [], cfg_DNSProvider = [], cfg_TLSProvider = [],
      cfg_Tailscale = \<lparr>ts_Tags = [], ts_AuthKey = [], ts_ResolvedAuthKey = [], ts_Ephemeral = False, ts_RunWebClient = False, ts_Verbose = False\<rparr>,
      cfg_Dashboard = \<lparr>db_Label = [], db_Icon = ''tsdproxy'', db_Category = [], db_Visible = True\<rparr>,
      cfg_HealthCheckInterval = 30, cfg_HealthCheckFailures = 3, cfg_HealthCheckCooldown = 0,
      cfg_RateLimitRPS = 100, cfg_RateLimitBurst = 200, cfg_ProxyAccessLog = True, cfg_IdentityHeaders = True,
      cfg_AutoRestart = True, cfg_HealthCheckEnabled = True, cfg_RateLimitEnabled = True\<rparr>"

section \<open>Typed look-ups\<close>

text \<open>\<^verbatim>\<open>strconv.ParseBool\<close>.\<close>

definition parse_bool :: "string \<Rightarrow> bool option" where
  "parse_bool s =
     (if s \<in> set [''1'', ''t'', ''T'', ''true'', ''TRUE'', ''True''] then Some True
      else if s \<in> set [''0'', ''f'', ''F'', ''false'', ''FALSE'', ''False''] then Some False else None)"

definition settings_Bool :: "(string, string) gomap \<Rightarrow> string \<Rightarrow> bool \<Rightarrow> bool" where
  "settings_Bool m key defaultValue =
     (case gm_get m key of
        None \<Rightarrow> defaultValue
      | Some s \<Rightarrow> (case parse_bool s of None \<Rightarrow> defaultValue | Some b \<Rightarrow> b))"

definition settings_String :: "(string, string) gomap \<Rightarrow> string \<Rightarrow> string \<Rightarrow> string" where
  "settings_String m key defaultValue = (case gm_get m key of None \<Rightarrow> defaultValue | Some s \<Rightarrow> s)"

definition settings_Int :: "(string, string) gomap \<Rightarrow> string \<Rightarrow> int \<Rightarrow> int \<Rightarrow> int \<Rightarrow> int" where
  "settings_Int m key defaultValue minVal maxVal =
     (case gm_get m key of
        None \<Rightarrow> defaultValue
      | Some s \<Rightarrow>
          (case atoi s of
             None \<Rightarrow> defaultValue
           | Some v \<Rightarrow> if v < minVal \<or> v > maxVal then defaultValue else v))"

section \<open>Key files\<close>

text \<open>The files as the process sees them: its directory, symbolic links, kinds of files and contents.\<close>

record file_env =
  fe_getwd :: "string option"
  fe_evalSymlinks :: "string \<Rightarrow> string option"
  fe_isRegular :: "string \<Rightarrow> bool option"
  fe_readFile :: "string \<Rightarrow> string option"

datatype key_file_error =
    NoAbsolutePath
  | SymlinkError string
  | FileCheckError string
  | NotRegularFile string
  | KeyFileReadError string

definition path_Abs :: "file_env \<Rightarrow> string \<Rightarrow> string option" where
  "path_Abs fe p =
     (if path_IsAbs p then Some (path_Clean p)
      else case fe_getwd fe of None \<Rightarrow> None | Some wd \<Rightarrow> Some (path_Join [wd, p]))"

definition ValidateKeyFilePath :: "file_env \<Rightarrow> string \<Rightarrow> key_file_error + string" where
  "ValidateKeyFilePath fe p =
     (case path_Abs fe (path_Clean p) of
        None \<Rightarrow> Inl NoAbsolutePath
      | Some absPath \<Rightarrow>
          (case fe_evalSymlinks fe absPath of
             None \<Rightarrow> Inl (SymlinkError absPath)
           | Some resolved \<Rightarrow>
               (case fe_isRegular fe resolved of
                  None \<Rightarrow> Inl (FileCheckError resolved)
                | Some regular \<Rightarrow> if \<not> regular then Inl (NotRegularFile resolved) else Inr resolved)))"

definition AuthKeyFromFile :: "file_env \<Rightarrow> (string, string) gomap \<Rightarrow> string \<Rightarrow> string \<Rightarrow> key_file_error + string" where
  "AuthKeyFromFile fe m fileKey authKey =
     (case gm_get m fileKey of
        None \<Rightarrow> Inr authKey
      | Some authKeyFile \<Rightarrow>
          if authKeyFile = [] then Inr authKey
          else case ValidateKeyFilePath fe authKeyFile of
                 Inl e \<Rightarrow> Inl e
               | Inr resolved \<Rightarrow>
                   (case fe_readFile fe resolved of
                      None \<Rightarrow> Inl (KeyFileReadError resolved)
                    | Some temp \<Rightarrow> Inr (trim_space temp)))"

section \<open>Icons\<close>

definition DefaultIcon :: string where "DefaultIcon = ''tsdproxy''"

definition GuessIcon :: "string \<Rightarrow> string \<Rightarrow> string" where
  "GuessIcon defaultSet name =
     (if name = [] then DefaultIcon
      else let lastPart = last (split_str ''/'' name);
               baseName = hd (splitN2 '':'' lastPart);
               baseName = hd (splitN2 ''@'' baseName)
           in if baseName = [] then DefaultIcon else defaultSet @ ''/'' @ baseName)"

section \<open>Events of a target provider\<close>

datatype ActionType = ActionStartProxy | ActionStopProxy | ActionRestartProxy | ActionStartPort | ActionStopPort | ActionRestartPort

record TargetEvent =
  te_ID :: string
  te_Action :: ActionType

section \<open>Facts\<close>

lemma settings_Int_range:
  "settings_Int m key d lo hi = d \<or> lo \<le> settings_Int m key d lo hi \<and> settings_Int m key d lo hi \<le> hi"
  by (auto simp: settings_Int_def split: option.splits)

lemma settings_Int_bounds: "lo \<le> d \<Longrightarrow> d \<le> hi \<Longrightarrow> lo \<le> settings_Int m key d lo hi \<and> settings_Int m key d lo hi \<le> hi"
  using settings_Int_range by metis

lemma AuthKeyFromFile_reads_regular:
  assumes "AuthKeyFromFile fe m fileKey authKey = Inr k" "gm_get m fileKey = Some f" "f \<noteq> []"
  shows "\<exists>p s. ValidateKeyFilePath fe f = Inr p \<and> fe_isRegular fe p = Some True \<and> fe_readFile fe p = Some s \<and> k = trim_space s"
  using assms by (auto simp: AuthKeyFromFile_def ValidateKeyFilePath_def split: sum.splits option.splits if_splits)

text \<open>The path whose links are resolved is absolute and clean.\<close>

lemma path_Abs_rooted:
  assumes "path_Abs fe p = Some q" "\<And>wd. fe_getwd fe = Some wd \<Longrightarrow> path_IsAbs wd"
  shows "path_Clean q = q \<and> fst (clean_parts q)"
proof (cases "path_IsAbs p")
  case True
  with assms(1) have q: "q = path_Clean p" by (simp add: path_Abs_def)
  with True show ?thesis by (simp add: path_IsAbs_def) (simp add: clean_parts_def Let_def)
next
  case False
  with assms(1) obtain wd where wd: "fe_getwd fe = Some wd" "q = path_Join [wd, p]"
    by (auto simp: path_Abs_def split: option.splits)
  with assms(2) have a: "path_IsAbs wd" by simp
  then have "wd \<noteq> []" by (auto simp: path_IsAbs_def has_prefix_def)
  with wd(2) have q: "q = path_Clean (wd @ ''/'' @ p)" by (simp add: path_Join_def)
  from a have "has_prefix (wd @ ''/'' @ p) ''/''" by (cases wd) (auto simp: path_IsAbs_def has_prefix_def)
  with q show ?thesis by simp (simp add: clean_parts_def Let_def)
qed

end
