(* ===== verification/Docker_Target.thy ===== *)
theory Docker_Target
  imports Target_Settings Port_Labels "HOL-Library.Product_Lexorder" "HOL-Library.Multiset"
begin

text \<open>
  The Docker target provider, \<^verbatim>\<open>src/internal/targetproviders/docker\<close>: a container as it is inspected,
  its published ports and networks (\<^verbatim>\<open>container.go\<close>), the detection of an address that answers
  (\<^verbatim>\<open>autodetect.go\<close>), the legacy labels (\<^verbatim>\<open>legacy.go\<close>) and the configuration of the proxy made from
  its labels; then the client with its table of containers (\<^verbatim>\<open>docker.go\<close>). What Docker
  answers, the name of the machine, connection attempts and files are arguments. An address
  of \<^verbatim>\<open>net/netip\<close> is its text, \<open>None\<close> when it is not valid.
\<close>

section \<open>Labels\<close>

definition LabelPrefix :: string where "LabelPrefix = ''tsdproxy.''"
definition LabelEnable :: string where "LabelEnable = LabelPrefix @ ''enable''"
definition LabelIsEnabled :: string where "LabelIsEnabled = LabelEnable @ ''=true''"
definition LabelName :: string where "LabelName = LabelPrefix @ ''name''"
definition LabelContainerAccessLog :: string where "LabelContainerAccessLog = LabelPrefix @ ''containeraccesslog''"
definition LabelProxyProvider :: string where "LabelProxyProvider = LabelPrefix @ ''proxyprovider''"
definition LabelPort :: string where "LabelPort = LabelPrefix @ ''port.''"
definition LabelEphemeral :: string where "LabelEphemeral = LabelPrefix @ ''ephemeral''"
definition LabelRunWebClient :: string where "LabelRunWebClient = LabelPrefix @ ''runwebclient''"
definition LabelTsnetVerbose :: string where "LabelTsnetVerbose = LabelPrefix @ ''tsnet_verbose''"
definition LabelAuthKey :: string where "LabelAuthKey = LabelPrefix @ ''authkey''"
definition LabelAuthKeyFile :: string where "LabelAuthKeyFile = LabelPrefix @ ''authkeyfile''"
definition LabelAutoDetect :: string where "LabelAutoDetect = LabelPrefix @ ''autodetect''"
definition LabelTags :: string where "LabelTags = LabelPrefix @ ''tags''"
definition LabelIdentityHeaders :: string where "LabelIdentityHeaders = LabelPrefix @ ''identity_headers''"
definition LabelAutoRestart :: string where "LabelAutoRestart = LabelPrefix @ ''auto_restart''"
definition LabelHealthCheckEnabled :: string where "LabelHealthCheckEnabled = LabelPrefix @ ''health_check_enabled''"
definition LabelHealthCheckInterval :: string where "LabelHealthCheckInterval = LabelPrefix @ ''health_check_interval''"
definition LabelHealthCheckFailures :: string where "LabelHealthCheckFailures = LabelPrefix @ ''health_check_failures''"
definition LabelHealthCheckCooldown :: string where "LabelHealthCheckCooldown = LabelPrefix @ ''health_check_cooldown''"
definition LabelRateLimitEnabled :: string where "LabelRateLimitEnabled = LabelPrefix @ ''ratelimit.enabled''"
definition LabelRateLimitRPS :: string where "LabelRateLimitRPS = LabelPrefix @ ''ratelimit.rps''"
definition LabelRateLimitBurst :: string where "LabelRateLimitBurst = LabelPrefix @ ''ratelimit.burst''"
definition LabelContainerPort :: string where "LabelContainerPort = LabelPrefix @ ''container_port''"
definition LabelScheme :: string where "LabelScheme = LabelPrefix @ ''scheme''"
definition LabelTLSValidate :: string where "LabelTLSValidate = LabelPrefix @ ''tlsvalidate''"
definition LabelFunnel :: string where "LabelFunnel = LabelPrefix @ ''funnel''"
definition LabelDashboardVisible :: string where "LabelDashboardVisible = LabelPrefix @ ''dash.visible''"
definition LabelDashboardLabel :: string where "LabelDashboardLabel = LabelPrefix @ ''dash.label''"
definition LabelDashboardIcon :: string where "LabelDashboardIcon = LabelPrefix @ ''dash.icon''"
definition LabelDashboardCategory :: string where "LabelDashboardCategory = LabelPrefix @ ''dash.category''"
definition LabelDomain :: string where "LabelDomain = LabelPrefix @ ''domain''"
definition LabelDNSProvider :: string where "LabelDNSProvider = LabelPrefix @ ''dnsprovider''"
definition LabelTLSProvider :: string where "LabelTLSProvider = LabelPrefix @ ''tlsprovider''"
definition DefaultTargetScheme :: string where "DefaultTargetScheme = ''http''"
definition autoDetectTries :: nat where "autoDetectTries = 5"

section \<open>What Docker says about a container\<close>

type_synonym netip_addr = "string option"

record docker_network =
  dn_IPAddress :: netip_addr
  dn_Gateway :: netip_addr

text \<open>A port is its number, as \<^verbatim>\<open>Port()\<close> prints it, with its protocol; a binding is its host port.\<close>

record network_settings =
  ns_Ports :: "(string \<times> string, string list) gomap"
  ns_Networks :: "(string, docker_network) gomap"

record inspect_response =
  ir_ID :: string
  ir_Name :: string
  ir_Hostname :: string
  ir_NetworkMode :: string
  ir_Image :: string
  ir_Labels :: "(string, string) gomap"
  ir_PortBindings :: "(string \<times> string) list"
  ir_NetworkSettings :: "network_settings option"

type_synonym swarm_ports = "(nat \<times> nat) list"

record container =
  ct_ports :: "(string, string) gomap"
  ct_labels :: "(string, string) gomap"
  ct_image :: string
  ct_id :: string
  ct_targetProviderName :: string
  ct_name :: string
  ct_hostname :: string
  ct_networkMode :: string
  ct_defaultTargetHostname :: string
  ct_defaultBridgeAddress :: netip_addr
  ct_ipAddress :: "string list"
  ct_gateways :: "string list"
  ct_healthCheckInterval :: int
  ct_healthCheckFailures :: int
  ct_healthCheckCooldown :: int
  ct_rateLimitRPS :: int
  ct_rateLimitBurst :: int
  ct_proxyAccessLogDefault :: bool
  ct_autodetect :: bool
  ct_autoRestart :: bool
  ct_healthCheckEnabled :: bool
  ct_rateLimitEnabled :: bool
  ct_allowContainerFunnel :: bool
  ct_allowTLSValidateDisable :: bool
  ct_defaultSet :: string

definition IsHost :: "string \<Rightarrow> bool" where
  "IsHost mode \<longleftrightarrow> mode = ''host''"

section \<open>Ports and networks\<close>

definition setContainerPorts :: "inspect_response \<Rightarrow> swarm_ports \<Rightarrow> container \<Rightarrow> container" where
  "setContainerPorts d service c =
     (if IsHost (ct_networkMode c) then
        c\<lparr>ct_ports := fold (\<lambda>(p, _). gm_put p p) (ir_PortBindings d) (ct_ports c)\<rparr>
      else case ir_NetworkSettings d of
             None \<Rightarrow> c
           | Some n \<Rightarrow>
               (let ports = fold (\<lambda>((p, _), b) m. case b of [] \<Rightarrow> m | h # _ \<Rightarrow> gm_put p h m) (ns_Ports n) (ct_ports c);
                    ports = fold (\<lambda>(t, h) m. if gm_get m (show_nat t) \<noteq> None then m else gm_put (show_nat t) (show_nat h) m) service ports
                in c\<lparr>ct_ports := ports\<rparr>))"

text \<open>
  \<^verbatim>\<open>setContainerNetwork\<close>: the networks in the order of their names, those with the default bridge as
  gateway first (a stable sort).
\<close>

definition prefer_bridge :: "netip_addr \<Rightarrow> (string \<times> docker_network) list \<Rightarrow> (string \<times> docker_network) list" where
  "prefer_bridge bridge es = (if bridge = None then es else sort_key (\<lambda>e. dn_Gateway (snd e) \<noteq> bridge) es)"

definition setContainerNetwork :: "inspect_response \<Rightarrow> container \<Rightarrow> container" where
  "setContainerNetwork d c =
     (case ir_NetworkSettings d of
        None \<Rightarrow> c
      | Some n \<Rightarrow>
          (let entries = prefer_bridge (ct_defaultBridgeAddress c) (sort_key fst (ns_Networks n))
           in c\<lparr>ct_ipAddress := ct_ipAddress c @ List.map_filter (\<lambda>e. dn_IPAddress (snd e)) entries,
                ct_gateways := ct_gateways c @ List.map_filter (\<lambda>e. dn_Gateway (snd e)) entries\<rparr>))"

section \<open>The provider's settings and \<open>newContainer\<close>\<close>

record docker_provider =
  dp_name :: string
  dp_defaultProxyProvider :: string
  dp_defaultTargetHostname :: string
  dp_defaultBridgeAddress :: netip_addr
  dp_tryDockerInternalNetwork :: bool
  dp_autoRestart :: bool
  dp_healthCheckEnabled :: bool
  dp_healthCheckInterval :: int
  dp_healthCheckFailures :: int
  dp_healthCheckCooldown :: int
  dp_rateLimitEnabled :: bool
  dp_rateLimitRPS :: int
  dp_rateLimitBurst :: int
  dp_proxyAccessLogDefault :: bool
  dp_allowContainerFunnel :: bool
  dp_allowTLSValidateDisable :: bool
  dp_defaultSet :: string

definition newContainer :: "docker_provider \<Rightarrow> inspect_response \<Rightarrow> swarm_ports \<Rightarrow> container" where
  "newContainer p d service =
     (let labels = ir_Labels d;
          c = \<lparr>ct_ports = [], ct_labels = labels, ct_image = ir_Image d, ct_id = ir_ID d,
               ct_targetProviderName = dp_name p, ct_name = ir_Name d, ct_hostname = ir_Hostname d,
               ct_networkMode = ir_NetworkMode d, ct_defaultTargetHostname = dp_defaultTargetHostname p,
               ct_defaultBridgeAddress = dp_defaultBridgeAddress p, ct_ipAddress = [], ct_gateways = [],
               ct_healthCheckInterval = settings_Int labels LabelHealthCheckInterval (dp_healthCheckInterval p) HealthCheckMinIntervalSeconds HealthCheckMaxIntervalSeconds,
               ct_healthCheckFailures = settings_Int labels LabelHealthCheckFailures (dp_healthCheckFailures p) HealthCheckMinFailures HealthCheckMaxFailures,
               ct_healthCheckCooldown = settings_Int labels LabelHealthCheckCooldown (dp_healthCheckCooldown p) HealthCheckMinCooldownSeconds HealthCheckMaxCooldownSeconds,
               ct_rateLimitRPS = settings_Int labels LabelRateLimitRPS (dp_rateLimitRPS p) RateLimitMinRPS RateLimitMaxRPS,
               ct_rateLimitBurst = settings_Int labels LabelRateLimitBurst (dp_rateLimitBurst p) RateLimitMinBurst RateLimitMaxBurst,
               ct_proxyAccessLogDefault = dp_proxyAccessLogDefault p,
               ct_autodetect = settings_Bool labels LabelAutoDetect (dp_tryDockerInternalNetwork p),
               ct_autoRestart = settings_Bool labels LabelAutoRestart (dp_autoRestart p),
               ct_healthCheckEnabled = settings_Bool labels LabelHealthCheckEnabled (dp_healthCheckEnabled p),
               ct_rateLimitEnabled = settings_Bool labels LabelRateLimitEnabled (dp_rateLimitEnabled p),
               ct_allowContainerFunnel = dp_allowContainerFunnel p, ct_allowTLSValidateDisable = dp_allowTLSValidateDisable p,
               ct_defaultSet = dp_defaultSet p\<rparr>
      in setContainerNetwork d (setContainerPorts d service c))"

section \<open>Where a container answers\<close>

text \<open>
  The machine and its network: its host name, whether a connection succeeds in a try, and
  whether the context has ended after it.
\<close>

record docker_env =
  de_osname :: "string option"
  de_dial :: "nat \<Rightarrow> string \<Rightarrow> string \<Rightarrow> bool"
  de_ctxDone :: "nat \<Rightarrow> bool"
  de_files :: file_env

definition url_of :: "string \<Rightarrow> string \<Rightarrow> string \<Rightarrow> url option" where
  "url_of scheme host port = url_parse (scheme @ ''://'' @ host @ '':'' @ port)"

fun first_dial :: "(string \<Rightarrow> string \<Rightarrow> bool) \<Rightarrow> string \<Rightarrow> string list \<Rightarrow> string option" where
  "first_dial dial port [] = None"
| "first_dial dial port (ip # ips) = (if dial ip port then Some ip else first_dial dial port ips)"

definition tryInternalPort :: "(string \<Rightarrow> string \<Rightarrow> bool) \<Rightarrow> container \<Rightarrow> string \<Rightarrow> string \<Rightarrow> url option" where
  "tryInternalPort dial c scheme port =
     (let viaBridge = (case ct_defaultBridgeAddress c of
                         None \<Rightarrow> None
                       | Some addr \<Rightarrow> if IsHost (ct_networkMode c) \<and> dial addr port then Some addr else None)
      in case viaBridge of
           Some addr \<Rightarrow> url_of scheme addr port
         | None \<Rightarrow>
             (case first_dial dial port (ct_ipAddress c) of
                None \<Rightarrow> None
              | Some ip \<Rightarrow> url_of scheme ip port))"

definition tryPublishedPort :: "(string \<Rightarrow> string \<Rightarrow> bool) \<Rightarrow> container \<Rightarrow> string \<Rightarrow> string \<Rightarrow> url option" where
  "tryPublishedPort dial c scheme port =
     (case first_dial dial port (ct_gateways c) of None \<Rightarrow> None | Some gw \<Rightarrow> url_of scheme gw port)"

definition tryConnectContainer :: "(string \<Rightarrow> string \<Rightarrow> bool) \<Rightarrow> container \<Rightarrow> string \<Rightarrow> string \<Rightarrow> string \<Rightarrow> url option" where
  "tryConnectContainer dial c scheme internalPort publishedPort =
     (case (if internalPort \<noteq> [] then tryInternalPort dial c scheme internalPort else None) of
        Some u \<Rightarrow> Some u
      | None \<Rightarrow> if publishedPort \<noteq> [] then tryPublishedPort dial c scheme publishedPort else None)"

fun probe_loop :: "docker_env \<Rightarrow> container \<Rightarrow> string \<Rightarrow> string \<Rightarrow> string \<Rightarrow> nat list \<Rightarrow> url option" where
  "probe_loop env c scheme internalPort publishedPort [] = None"
| "probe_loop env c scheme internalPort publishedPort (try # tries) =
     (case tryConnectContainer (de_dial env try) c scheme internalPort publishedPort of
        Some u \<Rightarrow> Some u
      | None \<Rightarrow> if de_ctxDone env try then None else probe_loop env c scheme internalPort publishedPort tries)"

definition resolveByProbing :: "docker_env \<Rightarrow> container \<Rightarrow> string \<Rightarrow> string \<Rightarrow> string \<Rightarrow> bool \<Rightarrow> url option" where
  "resolveByProbing env c scheme internalPort publishedPort noAutoDetect =
     (if \<not> ct_autodetect c \<or> noAutoDetect then None
      else probe_loop env c scheme internalPort publishedPort [0..<autoDetectTries])"

definition resolveSelfHost :: "docker_env \<Rightarrow> container \<Rightarrow> string \<Rightarrow> string \<Rightarrow> url option" where
  "resolveSelfHost env c scheme internalPort =
     (case de_osname env of
        None \<Rightarrow> None
      | Some osname \<Rightarrow> if osname = [] \<or> ct_hostname c \<noteq> osname then None else url_of scheme ''127.0.0.1'' internalPort)"

fun first_url :: "string \<Rightarrow> string list \<Rightarrow> string \<Rightarrow> url option" where
  "first_url scheme [] port = None"
| "first_url scheme (h # hs) port = (case url_of scheme h port of None \<Rightarrow> first_url scheme hs port | Some u \<Rightarrow> Some u)"

definition resolveViaGateway :: "container \<Rightarrow> string \<Rightarrow> string \<Rightarrow> url option" where
  "resolveViaGateway c scheme publishedPort = (if publishedPort = [] then None else first_url scheme (ct_gateways c) publishedPort)"

definition resolveContainerIP :: "container \<Rightarrow> string \<Rightarrow> string \<Rightarrow> url option" where
  "resolveContainerIP c scheme internalPort =
     (case ct_ipAddress c of
        [] \<Rightarrow> None
      | ip # _ \<Rightarrow> if internalPort = [] then None else url_of scheme ip internalPort)"

definition hasExplicitPortLabel :: "container \<Rightarrow> bool" where
  "hasExplicitPortLabel c \<longleftrightarrow>
     gm_get (ct_labels c) LabelContainerPort \<noteq> None \<or> list_ex (\<lambda>(k, _). has_prefix k LabelPort) (ct_labels c)"

definition resolvePublished :: "container \<Rightarrow> string \<Rightarrow> string \<Rightarrow> string \<Rightarrow> url option" where
  "resolvePublished c scheme publishedPort internalPort =
     (if ct_defaultTargetHostname c = [] then None
      else if publishedPort = [] \<and> \<not> IsHost (ct_networkMode c) \<and> \<not> hasExplicitPortLabel c then None
      else let port = (if publishedPort = [] then internalPort else publishedPort)
           in if port = [] then None else url_of scheme (ct_defaultTargetHostname c) port)"

definition getPublishedPort :: "container \<Rightarrow> string \<Rightarrow> string" where
  "getPublishedPort c internalPort = (case gm_get (ct_ports c) internalPort of None \<Rightarrow> [] | Some p \<Rightarrow> p)"

definition or_else :: "'a option \<Rightarrow> 'a option \<Rightarrow> 'a option" where
  "or_else a b = (case a of None \<Rightarrow> b | Some x \<Rightarrow> Some x)"

definition getTargetURL :: "docker_env \<Rightarrow> container \<Rightarrow> url \<Rightarrow> bool \<Rightarrow> url option" where
  "getTargetURL env c iPort noAutoDetect =
     (let internalPort = url_Port iPort; publishedPort = getPublishedPort c internalPort; scheme = u_scheme iPort
      in if internalPort = [] \<and> publishedPort = [] then None
         else or_else (resolveSelfHost env c scheme internalPort)
             (or_else (resolveByProbing env c scheme internalPort publishedPort noAutoDetect)
             (or_else (resolvePublished c scheme publishedPort internalPort)
                (if IsHost (ct_networkMode c) then None
                 else or_else (resolveViaGateway c scheme publishedPort) (resolveContainerIP c scheme internalPort)))))"

definition generateTargetFromFirstTarget :: "docker_env \<Rightarrow> container \<Rightarrow> PortConfig \<Rightarrow> PortConfig option" where
  "generateTargetFromFirstTarget env c port =
     (case GetFirstTarget port of
        None \<Rightarrow> None
      | Some p \<Rightarrow>
          (case getTargetURL env c p (pc_NoAutoDetect port) of
             None \<Rightarrow> None
           | Some targetURL \<Rightarrow> Some (ReplaceTarget p targetURL port)))"

section \<open>The configuration of the proxy\<close>

definition alnum :: "char \<Rightarrow> bool" where
  "alnum ch \<longleftrightarrow> (let n = of_char ch :: nat in 97 \<le> n \<and> n \<le> 122 \<or> 65 \<le> n \<and> n \<le> 90 \<or> 48 \<le> n \<and> n \<le> 57)"

text \<open>\<^verbatim>\<open>^[a-zA-Z0-9]([a-zA-Z0-9-]{0,61}[a-zA-Z0-9])?$\<close>.\<close>

definition rfc1123Hostname :: "string \<Rightarrow> bool" where
  "rfc1123Hostname s \<longleftrightarrow>
     s \<noteq> [] \<and> length s \<le> 63 \<and> alnum (hd s) \<and> alnum (last s) \<and> list_all (\<lambda>ch. alnum ch \<or> ch = CHR ''-'') s"

definition getName :: "container \<Rightarrow> string" where
  "getName c = dropWhile (\<lambda>ch. ch = CHR ''/'') (ct_name c)"

definition getProxyHostname :: "container \<Rightarrow> string option" where
  "getProxyHostname c =
     (case gm_get (ct_labels c) LabelName of
        Some customName \<Rightarrow> if rfc1123Hostname customName then Some (to_lower customName) else None
      | None \<Rightarrow> Some (getName c))"

definition portOptionGates :: "container \<Rightarrow> PortOptionGates" where
  "portOptionGates c =
     \<lparr>g_FunnelSettingName = ''allowContainerFunnel'', g_AllowTLSValidateDisable = ct_allowTLSValidateDisable c,
      g_AllowFunnel = ct_allowContainerFunnel c, g_SupportNoAutoDetect = True\<rparr>"

definition getPorts :: "docker_env \<Rightarrow> container \<Rightarrow> PortConfigList" where
  "getPorts env c = Ports (ct_labels c) LabelPort (portOptionGates c) (generateTargetFromFirstTarget env c)"

text \<open>The order of \<^verbatim>\<open>getInternalPortLegacy\<close>: numbers first, by value, then the rest by name.\<close>

definition legacy_key :: "string \<Rightarrow> bool \<times> int \<times> string" where
  "legacy_key k = (case atoi k of Some n \<Rightarrow> (False, n, []) | None \<Rightarrow> (True, 0, k))"

definition getInternalPortLegacy :: "container \<Rightarrow> string" where
  "getInternalPortLegacy c =
     (case gm_get (ct_labels c) LabelContainerPort of
        Some customContainerPort \<Rightarrow> customContainerPort
      | None \<Rightarrow> (case sort_key legacy_key (keys (ct_ports c)) of [] \<Rightarrow> [] | k # _ \<Rightarrow> k))"

definition getLegacyPort :: "docker_env \<Rightarrow> container \<Rightarrow> PortConfig option" where
  "getLegacyPort env c =
     (let cPort = getInternalPortLegacy c;
          cProtocol = (case gm_get (ct_labels c) LabelScheme of None \<Rightarrow> DefaultTargetScheme | Some s \<Rightarrow> s)
      in case NewPortLongLabel (''443/https:'' @ cPort @ ''/'' @ cProtocol) of
           Inl _ \<Rightarrow> None
         | Inr port \<Rightarrow>
             (let legacyTLSValidate = settings_Bool (ct_labels c) LabelTLSValidate DefaultTLSValidate;
                  port = (if \<not> legacyTLSValidate \<and> \<not> ct_allowTLSValidateDisable c then port\<lparr>pc_TLSValidate := DefaultTLSValidate\<rparr>
                          else port\<lparr>pc_TLSValidate := legacyTLSValidate\<rparr>);
                  legacyFunnel = settings_Bool (ct_labels c) LabelFunnel DefaultTailscaleFunnel;
                  port = (if legacyFunnel \<and> \<not> ct_allowContainerFunnel c then port\<lparr>pc_Tailscale := (pc_Tailscale port)\<lparr>tp_Funnel := False\<rparr>\<rparr>
                          else port\<lparr>pc_Tailscale := (pc_Tailscale port)\<lparr>tp_Funnel := legacyFunnel\<rparr>\<rparr>)
              in generateTargetFromFirstTarget env c port))"

datatype container_error = InvalidContainerHostname string | AuthKeyFileError key_file_error

definition getTailscaleConfig :: "docker_env \<Rightarrow> container \<Rightarrow> key_file_error + Tailscale" where
  "getTailscaleConfig env c =
     (case AuthKeyFromFile (de_files env) (ct_labels c) LabelAuthKeyFile (settings_String (ct_labels c) LabelAuthKey []) of
        Inl e \<Rightarrow> Inl e
      | Inr k \<Rightarrow> Inr \<lparr>ts_Tags = settings_String (ct_labels c) LabelTags [], ts_AuthKey = k, ts_ResolvedAuthKey = [],
                     ts_Ephemeral = settings_Bool (ct_labels c) LabelEphemeral DefaultTailscaleEphemeral,
                     ts_RunWebClient = settings_Bool (ct_labels c) LabelRunWebClient DefaultTailscaleRunWebClient,
                     ts_Verbose = settings_Bool (ct_labels c) LabelTsnetVerbose DefaultTailscaleVerbose\<rparr>)"

definition newProxyConfig :: "docker_env \<Rightarrow> container \<Rightarrow> container_error + Config" where
  "newProxyConfig env c =
     (case getProxyHostname c of
        None \<Rightarrow> Inl (InvalidContainerHostname (settings_String (ct_labels c) LabelName []))
      | Some hostname \<Rightarrow>
          (case getTailscaleConfig env c of
             Inl e \<Rightarrow> Inl (AuthKeyFileError e)
           | Inr tailscale \<Rightarrow>
               (let m = ct_labels c;
                    icon = settings_String m LabelDashboardIcon [];
                    ports = getPorts env c;
                    ports = (if ports = [] then (case getLegacyPort env c of Some p \<Rightarrow> gm_put ''legacy'' p ports | None \<Rightarrow> ports) else ports)
                in Inr (NewConfig\<lparr>
                     cfg_TargetID := ct_id c, cfg_TargetImage := ct_image c, cfg_Hostname := hostname,
                     cfg_TargetProvider := ct_targetProviderName c, cfg_Tailscale := tailscale,
                     cfg_ProxyProvider := settings_String m LabelProxyProvider DefaultProxyProvider,
                     cfg_Domain := settings_String m LabelDomain [],
                     cfg_DNSProvider := settings_String m LabelDNSProvider [],
                     cfg_TLSProvider := settings_String m LabelTLSProvider [],
                     cfg_ProxyAccessLog := settings_Bool m LabelContainerAccessLog (ct_proxyAccessLogDefault c),
                     cfg_IdentityHeaders := settings_Bool m LabelIdentityHeaders DefaultIdentityHeaders,
                     cfg_AutoRestart := ct_autoRestart c, cfg_HealthCheckEnabled := ct_healthCheckEnabled c,
                     cfg_HealthCheckInterval := ct_healthCheckInterval c, cfg_HealthCheckFailures := ct_healthCheckFailures c,
                     cfg_HealthCheckCooldown := ct_healthCheckCooldown c, cfg_RateLimitEnabled := ct_rateLimitEnabled c,
                     cfg_RateLimitRPS := ct_rateLimitRPS c, cfg_RateLimitBurst := ct_rateLimitBurst c,
                     cfg_Dashboard := \<lparr>db_Label = settings_String m LabelDashboardLabel hostname,
                                       db_Icon = (if icon = [] then GuessIcon (ct_defaultSet c) (ct_image c) else icon),
                                       db_Category = settings_String m LabelDashboardCategory [],
                                       db_Visible = settings_Bool m LabelDashboardVisible DefaultDashboardVisible\<rparr>,
                     cfg_Ports := ports\<rparr>))))"

section \<open>The client\<close>

record docker_client =
  dc_provider :: docker_provider
  dc_containers :: "(string, container) gomap"

datatype docker_error = InspectError | MissingFields | ProxyConfigError container_error | TargetNotFound string

text \<open>
  \<open>inspect\<close> is Docker's answer for a container: an error, a response without configuration, or the
  response; \<open>service\<close> its answer for a swarm service.
\<close>

definition serviceIDLabel :: string where "serviceIDLabel = ''com.docker.swarm.service.id''"

definition buildProxyConfig :: "docker_env \<Rightarrow> (string \<Rightarrow> inspect_response option option) \<Rightarrow> (string \<Rightarrow> swarm_ports option) \<Rightarrow> docker_provider \<Rightarrow> string \<Rightarrow>
    docker_error + (Config \<times> container)" where
  "buildProxyConfig env inspect service p cid =
     (case inspect cid of
        None \<Rightarrow> Inl InspectError
      | Some None \<Rightarrow> Inl MissingFields
      | Some (Some d) \<Rightarrow>
          (let ports = (case gm_get (ir_Labels d) serviceIDLabel of
                          None \<Rightarrow> []
                        | Some sid \<Rightarrow> (case service sid of None \<Rightarrow> [] | Some ps \<Rightarrow> ps));
               ctn = newContainer p d ports
           in case newProxyConfig env ctn of
                Inl e \<Rightarrow> Inl (ProxyConfigError e)
              | Inr pcfg \<Rightarrow> Inr (pcfg, ctn)))"

definition docker_AddTarget :: "docker_env \<Rightarrow> (string \<Rightarrow> inspect_response option option) \<Rightarrow> (string \<Rightarrow> swarm_ports option) \<Rightarrow> string \<Rightarrow> docker_client \<Rightarrow>
    (docker_error + Config) \<times> docker_client" where
  "docker_AddTarget env inspect service cid c =
     (case buildProxyConfig env inspect service (dc_provider c) cid of
        Inl e \<Rightarrow> (Inl e, c)
      | Inr (pcfg, ctn) \<Rightarrow> (Inr pcfg, c\<lparr>dc_containers := gm_put (ct_id ctn) ctn (dc_containers c)\<rparr>))"

definition docker_ReResolve :: "docker_env \<Rightarrow> (string \<Rightarrow> inspect_response option option) \<Rightarrow> (string \<Rightarrow> swarm_ports option) \<Rightarrow> string \<Rightarrow> docker_client \<Rightarrow> docker_error + Config" where
  "docker_ReResolve env inspect service cid c = map_sum (\<lambda>e. e) fst (buildProxyConfig env inspect service (dc_provider c) cid)"

definition docker_DeleteProxy :: "string \<Rightarrow> docker_client \<Rightarrow> docker_error option \<times> docker_client" where
  "docker_DeleteProxy cid c =
     (if gm_get (dc_containers c) cid = None then (Some (TargetNotFound cid), c)
      else (None, c\<lparr>dc_containers := gm_del cid (dc_containers c)\<rparr>))"

text \<open>The default bridge: the first network marked as such whose first address range has a valid gateway.\<close>

record docker_net_summary =
  nw_default_bridge :: string
  nw_ipam :: "netip_addr list"

fun setDefaultBridgeAddress :: "docker_net_summary list \<Rightarrow> netip_addr \<Rightarrow> netip_addr" where
  "setDefaultBridgeAddress [] cur = cur"
| "setDefaultBridgeAddress (n # ns) cur =
     (if nw_default_bridge n = ''true'' then
        (case nw_ipam n of
           [] \<Rightarrow> setDefaultBridgeAddress ns cur
         | gw # _ \<Rightarrow> if gw = None then setDefaultBridgeAddress ns cur else gw)
      else setDefaultBridgeAddress ns cur)"

datatype docker_action = DockerStart | DockerDie | DockerOther

definition handleDockerEvent :: "docker_action \<Rightarrow> string \<Rightarrow> TargetEvent option" where
  "handleDockerEvent act cid =
     (case act of
        DockerStart \<Rightarrow> Some \<lparr>te_ID = cid, te_Action = ActionStartProxy\<rparr>
      | DockerDie \<Rightarrow> Some \<lparr>te_ID = cid, te_Action = ActionStopProxy\<rparr>
      | DockerOther \<Rightarrow> None)"

datatype docker_stream = Message docker_action string | StreamClosed | StreamCanceled | StreamFails string | CtxEnds
datatype watch_end = WatchRuns | WatchReturns | WatchDisconnected | WatchError string

text \<open>The goroutine of \<^verbatim>\<open>WatchEvents\<close>: the events it passes on and how it ends.\<close>

fun docker_WatchEvents :: "docker_stream list \<Rightarrow> TargetEvent list \<times> watch_end" where
  "docker_WatchEvents [] = ([], WatchRuns)"
| "docker_WatchEvents (Message act cid # ms) =
     (let (evs, e) = docker_WatchEvents ms
      in (case handleDockerEvent act cid of None \<Rightarrow> evs | Some ev \<Rightarrow> ev # evs, e))"
| "docker_WatchEvents (StreamClosed # ms) = ([], WatchDisconnected)"
| "docker_WatchEvents (StreamCanceled # ms) = ([], WatchReturns)"
| "docker_WatchEvents (StreamFails msg # ms) = ([], WatchError msg)"
| "docker_WatchEvents (CtxEnds # ms) = ([], WatchReturns)"

definition startAllProxies :: "string list option \<Rightarrow> TargetEvent list option" where
  "startAllProxies listed = map_option (map (\<lambda>cid. \<lparr>te_ID = cid, te_Action = ActionStartProxy\<rparr>)) listed"

section \<open>Lemmas\<close>

lemma generate_keeps:
  "generateTargetFromFirstTarget env c p = Some q \<Longrightarrow> pc_TLSValidate q = pc_TLSValidate p \<and> pc_Tailscale q = pc_Tailscale p"
  by (auto simp: generateTargetFromFirstTarget_def ReplaceTarget_def split: option.splits)

lemma getLegacyPort_gated:
  assumes "getLegacyPort env c = Some p"
  shows "(pc_TLSValidate p \<or> ct_allowTLSValidateDisable c) \<and> (tp_Funnel (pc_Tailscale p) \<longrightarrow> ct_allowContainerFunnel c)"
proof -
  from assms obtain p0 where g: "generateTargetFromFirstTarget env c p0 = Some p"
    and p0: "(pc_TLSValidate p0 \<or> ct_allowTLSValidateDisable c) \<and> (tp_Funnel (pc_Tailscale p0) \<longrightarrow> ct_allowContainerFunnel c)"
    by (auto simp: getLegacyPort_def Let_def DefaultTLSValidate_def split: sum.splits if_splits)
  then show ?thesis using generate_keeps [OF g] by simp
qed

lemma first_dial_Some: "first_dial dial port ips = Some ip \<Longrightarrow> ip \<in> set ips \<and> dial ip port"
  by (induction ips) (auto split: if_splits)

lemma first_url_Some: "first_url scheme hs port = Some u \<Longrightarrow> \<exists>h \<in> set hs. url_of scheme h port = Some u"
  by (induction hs) (auto split: option.splits)

lemma tryConnect_Some:
  assumes "tryConnectContainer dial c scheme ip pub = Some u"
  shows "\<exists>h q. url_of scheme h q = Some u \<and> dial h q \<and>
    (q = ip \<and> ip \<noteq> [] \<and> (h \<in> set (ct_ipAddress c) \<or> IsHost (ct_networkMode c) \<and> ct_defaultBridgeAddress c = Some h) \<or>
     q = pub \<and> pub \<noteq> [] \<and> h \<in> set (ct_gateways c))"
proof (cases "ip \<noteq> [] \<and> tryInternalPort dial c scheme ip = Some u")
  case True
  then show ?thesis
    by (auto simp: tryInternalPort_def split: option.splits if_splits dest!: first_dial_Some)
next
  case False
  with assms have "pub \<noteq> []" "tryPublishedPort dial c scheme pub = Some u"
    by (auto simp: tryConnectContainer_def split: option.splits if_splits)
  then show ?thesis by (auto simp: tryPublishedPort_def split: option.splits dest!: first_dial_Some)
qed

lemma probe_loop_Some:
  "probe_loop env c scheme ip pub ts = Some u \<Longrightarrow> \<exists>t \<in> set ts. tryConnectContainer (de_dial env t) c scheme ip pub = Some u"
  by (induction ts) (auto split: option.splits if_splits)

lemma or_else_Some: "or_else a b = Some x \<longleftrightarrow> a = Some x \<or> a = None \<and> b = Some x"
  by (cases a) (simp_all add: or_else_def)

section \<open>Properties\<close>

text \<open>
  C15: whatever its labels say, a container can turn off the TLS check of its target or open the
  funnel only if the operator allowed that in the provider's settings; this holds for the ports of the
  port labels, for ranges of ports and for the port of the legacy labels.
\<close>

theorem newProxyConfig_gated:
  assumes "newProxyConfig env c = Inr cfg" "(k, p) \<in> set (cfg_Ports cfg)"
  shows "(pc_TLSValidate p \<or> ct_allowTLSValidateDisable c) \<and> (tp_Funnel (pc_Tailscale p) \<longrightarrow> ct_allowContainerFunnel c)"
proof -
  have ports: "(pc_TLSValidate p \<or> ct_allowTLSValidateDisable c) \<and> (tp_Funnel (pc_Tailscale p) \<longrightarrow> ct_allowContainerFunnel c)"
    if "(k, p) \<in> set (getPorts env c)"
    using Ports_gated [OF generate_keeps that [unfolded getPorts_def]] by (simp add: portOptionGates_def)
  from assms have "(k, p) \<in> set (getPorts env c) \<or> getLegacyPort env c = Some p"
    by (auto simp: newProxyConfig_def Let_def split: option.splits sum.splits if_splits)
  then show ?thesis using ports getLegacyPort_gated by blast
qed

text \<open>
  Where a container is reached: an address is taken only if it answered a probe, or is the local host when
  the container is TSDProxy itself, or the configured host with a published port, or a gateway
  with a published port, or the address of the container itself. An unpublished port of a container
  in bridge mode is looked for on the configured host only if a label declares a port.
\<close>

theorem getTargetURL_reaches:
  assumes "getTargetURL env c p na = Some u"
  shows "\<exists>h q. url_of (u_scheme p) h q = Some u \<and>
    (let ip = url_Port p; pub = getPublishedPort c ip; hostMode = IsHost (ct_networkMode c)
     in h = ''127.0.0.1'' \<and> q = ip \<and> de_osname env = Some (ct_hostname c) \<or>
        ct_autodetect c \<and> \<not> na \<and> (\<exists>t. t < autoDetectTries \<and> de_dial env t h q) \<and>
          (q = ip \<and> (h \<in> set (ct_ipAddress c) \<or> hostMode \<and> ct_defaultBridgeAddress c = Some h) \<or> q = pub \<and> h \<in> set (ct_gateways c)) \<or>
        h = ct_defaultTargetHostname c \<and> h \<noteq> [] \<and> q \<noteq> [] \<and> (q = pub \<or> q = ip \<and> pub = [] \<and> (hostMode \<or> hasExplicitPortLabel c)) \<or>
        \<not> hostMode \<and> (q = pub \<and> q \<noteq> [] \<and> h \<in> set (ct_gateways c) \<or> q = ip \<and> q \<noteq> [] \<and> h \<in> set (ct_ipAddress c)))"
proof -
  let ?ip = "url_Port p" and ?pub = "getPublishedPort c (url_Port p)"
  from assms consider (self) "resolveSelfHost env c (u_scheme p) ?ip = Some u"
    | (probe) "resolveByProbing env c (u_scheme p) ?ip ?pub na = Some u"
    | (published) "resolvePublished c (u_scheme p) ?pub ?ip = Some u"
    | (gateway) "\<not> IsHost (ct_networkMode c)" "resolveViaGateway c (u_scheme p) ?pub = Some u"
    | (direct) "\<not> IsHost (ct_networkMode c)" "resolveContainerIP c (u_scheme p) ?ip = Some u"
    by (auto simp: getTargetURL_def Let_def or_else_Some split: if_splits)
  then show ?thesis
  proof cases
    case self
    then show ?thesis by (auto simp: resolveSelfHost_def Let_def split: option.splits if_splits)
  next
    case probe
    then obtain t where a: "ct_autodetect c" "\<not> na" and t: "t < autoDetectTries"
      "tryConnectContainer (de_dial env t) c (u_scheme p) ?ip ?pub = Some u"
      by (auto simp: resolveByProbing_def split: if_splits dest!: probe_loop_Some)
    from tryConnect_Some [OF t(2)] obtain h q where "url_of (u_scheme p) h q = Some u" "de_dial env t h q"
      "q = ?ip \<and> (h \<in> set (ct_ipAddress c) \<or> IsHost (ct_networkMode c) \<and> ct_defaultBridgeAddress c = Some h) \<or> q = ?pub \<and> h \<in> set (ct_gateways c)"
      by blast
    with a t(1) show ?thesis unfolding Let_def by blast
  next
    case published
    then show ?thesis by (auto simp: resolvePublished_def Let_def split: if_splits)
  next
    case gateway
    then obtain h where "h \<in> set (ct_gateways c)" "url_of (u_scheme p) h ?pub = Some u" "?pub \<noteq> []"
      by (auto simp: resolveViaGateway_def split: if_splits dest!: first_url_Some)
    with gateway(1) show ?thesis unfolding Let_def by blast
  next
    case direct
    then obtain h where "h \<in> set (ct_ipAddress c)" "url_of (u_scheme p) h ?ip = Some u" "?ip \<noteq> []"
      by (auto simp: resolveContainerIP_def split: if_splits list.splits)
    with direct(1) show ?thesis unfolding Let_def by blast
  qed
qed

text \<open>
  The addresses of a container do not depend on the order in which Go iterates over its networks, and
  if one of them has the default bridge as its gateway, that one comes first.
\<close>

definition with_networks :: "(string, docker_network) gomap \<Rightarrow> inspect_response \<Rightarrow> inspect_response" where
  "with_networks nets d = d\<lparr>ir_NetworkSettings := map_option (\<lambda>n. n\<lparr>ns_Networks := nets\<rparr>) (ir_NetworkSettings d)\<rparr>"

lemma sort_networks_cong:
  assumes "mset xs = mset ys" "distinct (map fst xs)"
  shows "sort_key fst xs = sort_key fst (ys :: (string \<times> 'a) list)"
proof (rule sort_key_inj_key_eq)
  show "mset xs = mset (sort_key fst ys)" by (simp add: assms(1))
  show "inj_on fst (set xs)" using assms(2) by (simp add: distinct_map)
  show "sorted (map fst (sort_key fst ys))" by simp
qed

lemma prefer_bridge_first:
  assumes "e \<in> set es" "dn_Gateway (snd e) = Some b"
  shows "\<exists>n rest. prefer_bridge (Some b) es = n # rest \<and> dn_Gateway (snd n) = Some b"
proof -
  let ?s = "sort_key (\<lambda>e. dn_Gateway (snd e) \<noteq> Some b) es"
  have e: "e \<in> set ?s" using assms(1) by simp
  then obtain n rest where s: "?s = n # rest" by (cases ?s) auto
  have "sorted (map (\<lambda>e. dn_Gateway (snd e) \<noteq> Some b) ?s)" by simp
  with s e assms(2) have "dn_Gateway (snd n) = Some b" by auto
  with s show ?thesis by (simp add: prefer_bridge_def)
qed

theorem container_network_deterministic:
  assumes "mset nets = mset nets'" "distinct (keys nets)"
  shows "newContainer p (with_networks nets d) service = newContainer p (with_networks nets' d) service \<and>
    (case (ir_NetworkSettings d, dp_defaultBridgeAddress p) of
       (Some n, Some b) \<Rightarrow> list_ex (\<lambda>(k, e). dn_Gateway e = Some b) nets \<longrightarrow>
          (\<exists>gs. ct_gateways (newContainer p (with_networks nets d) service) = b # gs)
     | _ \<Rightarrow> True)"
proof -
  have bridge: "\<exists>gs. ct_gateways (newContainer p (with_networks nets d) service) = b # gs"
    if "ir_NetworkSettings d = Some n" "dp_defaultBridgeAddress p = Some b" "list_ex (\<lambda>(k, e). dn_Gateway e = Some b) nets" for n b
  proof -
    from that(3) obtain e where "e \<in> set (sort_key fst nets)" "dn_Gateway (snd e) = Some b" by (auto simp: list_ex_iff)
    from prefer_bridge_first [OF this] obtain m rest
      where "prefer_bridge (Some b) (sort_key fst nets) = m # rest" "dn_Gateway (snd m) = Some b" by blast
    with that(1,2) show ?thesis
      by (simp add: newContainer_def setContainerNetwork_def setContainerPorts_def with_networks_def Let_def List.map_filter_def)
  qed
  have "newContainer p (with_networks nets d) service = newContainer p (with_networks nets' d) service"
    using sort_networks_cong [OF assms]
    by (cases "ir_NetworkSettings d") (simp_all add: newContainer_def setContainerNetwork_def setContainerPorts_def with_networks_def Let_def)
  with bridge show ?thesis by (cases "ir_NetworkSettings d"; cases "dp_defaultBridgeAddress p") auto
qed

definition settings_in_bounds :: "int \<Rightarrow> int \<Rightarrow> int \<Rightarrow> int \<Rightarrow> int \<Rightarrow> bool" where
  "settings_in_bounds interval failures cooldown rps burst \<longleftrightarrow>
     1 \<le> interval \<and> interval \<le> 86400 \<and> 1 \<le> failures \<and> failures \<le> 100 \<and> 0 \<le> cooldown \<and> cooldown \<le> 86400 \<and>
     1 \<le> rps \<and> rps \<le> 10000 \<and> 1 \<le> burst \<and> burst \<le> 100000"

lemma lower_char_alnum [simp]: "alnum (lower_char c) = alnum c"
  by (auto simp: alnum_def lower_char_def Let_def)

lemma lower_char_dash [simp]: "lower_char c = CHR ''-'' \<longleftrightarrow> c = CHR ''-''"
proof
  assume l: "lower_char c = CHR ''-''"
  have "of_char (lower_char c) = (45 :: nat)" unfolding l by simp
  then have "of_char c = (45 :: nat) \<or> lower_char c = c" by (auto simp: lower_char_def Let_def split: if_splits)
  then show "c = CHR ''-''"
  proof
    assume "of_char c = (45 :: nat)"
    also have "\<dots> = of_char (CHR ''-'')" by simp
    finally show ?thesis by (simp only: of_char_eq_iff)
  qed (use l in simp)
qed (simp add: lower_char_def Let_def)

lemma rfc1123_lower: "rfc1123Hostname s \<Longrightarrow> rfc1123Hostname (to_lower s)"
  by (auto simp: rfc1123Hostname_def to_lower_def list_all_iff hd_map last_map)

text \<open>
  A configuration made from labels is within the bounds of the program whenever the provider's
  settings are, whatever the labels say, and a host name from a label is a lower-case
  RFC 1123 name.
\<close>

theorem newProxyConfig_in_bounds:
  assumes "buildProxyConfig env inspect service p cid = Inr (cfg, ctn)"
    and "settings_in_bounds (dp_healthCheckInterval p) (dp_healthCheckFailures p) (dp_healthCheckCooldown p) (dp_rateLimitRPS p) (dp_rateLimitBurst p)"
  shows "settings_in_bounds (cfg_HealthCheckInterval cfg) (cfg_HealthCheckFailures cfg) (cfg_HealthCheckCooldown cfg) (cfg_RateLimitRPS cfg) (cfg_RateLimitBurst cfg) \<and>
    (case gm_get (ct_labels ctn) LabelName of
       Some n \<Rightarrow> cfg_Hostname cfg = to_lower n \<and> rfc1123Hostname (cfg_Hostname cfg)
     | None \<Rightarrow> cfg_Hostname cfg = getName ctn)"
proof -
  from assms(1) obtain d ports where ctn: "ctn = newContainer p d ports" and cfg: "newProxyConfig env ctn = Inr cfg"
    by (auto simp: buildProxyConfig_def Let_def split: option.splits sum.splits)
  from cfg obtain h where h: "getProxyHostname ctn = Some h" "cfg_Hostname cfg = h"
    and fields: "cfg_HealthCheckInterval cfg = ct_healthCheckInterval ctn" "cfg_HealthCheckFailures cfg = ct_healthCheckFailures ctn"
      "cfg_HealthCheckCooldown cfg = ct_healthCheckCooldown ctn" "cfg_RateLimitRPS cfg = ct_rateLimitRPS ctn" "cfg_RateLimitBurst cfg = ct_rateLimitBurst ctn"
    by (auto simp: newProxyConfig_def Let_def split: option.splits sum.splits)
  have ct: "ct_healthCheckInterval ctn = settings_Int (ir_Labels d) LabelHealthCheckInterval (dp_healthCheckInterval p) 1 86400"
    "ct_healthCheckFailures ctn = settings_Int (ir_Labels d) LabelHealthCheckFailures (dp_healthCheckFailures p) 1 100"
    "ct_healthCheckCooldown ctn = settings_Int (ir_Labels d) LabelHealthCheckCooldown (dp_healthCheckCooldown p) 0 86400"
    "ct_rateLimitRPS ctn = settings_Int (ir_Labels d) LabelRateLimitRPS (dp_rateLimitRPS p) 1 10000"
    "ct_rateLimitBurst ctn = settings_Int (ir_Labels d) LabelRateLimitBurst (dp_rateLimitBurst p) 1 100000"
    unfolding ctn by (simp_all add: newContainer_def setContainerNetwork_def setContainerPorts_def Let_def setting_bounds split: option.split)
  have "settings_in_bounds (cfg_HealthCheckInterval cfg) (cfg_HealthCheckFailures cfg) (cfg_HealthCheckCooldown cfg) (cfg_RateLimitRPS cfg) (cfg_RateLimitBurst cfg)"
    using assms(2) unfolding fields ct settings_in_bounds_def by (simp add: settings_Int_bounds)
  moreover have "case gm_get (ct_labels ctn) LabelName of
       Some n \<Rightarrow> cfg_Hostname cfg = to_lower n \<and> rfc1123Hostname (cfg_Hostname cfg)
     | None \<Rightarrow> cfg_Hostname cfg = getName ctn"
    using h by (cases "gm_get (ct_labels ctn) LabelName") (auto simp: getProxyHostname_def dest: rfc1123_lower split: if_splits)
  ultimately show ?thesis by blast
qed

text \<open>
  The legacy port is the smallest published port number, whatever the order of the map.
\<close>

lemma getInternalPortLegacy_least:
  assumes "gm_get (ct_labels c) LabelContainerPort = None" "k \<in> set (keys (ct_ports c))"
  shows "getInternalPortLegacy c \<in> set (keys (ct_ports c)) \<and> legacy_key (getInternalPortLegacy c) \<le> legacy_key k"
proof -
  let ?s = "sort_key legacy_key (keys (ct_ports c))"
  have "k \<in> set ?s" using assms(2) by simp
  then obtain m rest where s: "?s = m # rest" by (cases ?s) auto
  have "sorted (map legacy_key ?s)" by simp
  with s \<open>k \<in> set ?s\<close> have "legacy_key m \<le> legacy_key k" by auto
  moreover have "m \<in> set (keys (ct_ports c))" using s by (metis list.set_intros(1) set_sort)
  moreover have "getInternalPortLegacy c = m" using assms(1) s by (simp add: getInternalPortLegacy_def)
  ultimately show ?thesis by simp
qed

text \<open>
  The table of published ports is indexed by the number alone: when a container publishes the same
  number over TCP and UDP on different host ports, the one that is kept depends on the order of
  iteration.
\<close>

lemma published_port_order_dependent:
  "\<exists>c d ports ports'. mset ports = mset ports' \<and> distinct (keys ports) \<and>
     getPublishedPort (setContainerPorts (d\<lparr>ir_NetworkSettings := Some \<lparr>ns_Ports = ports, ns_Networks = []\<rparr>\<rparr>) [] c) ''53'' = ''1053'' \<and>
     getPublishedPort (setContainerPorts (d\<lparr>ir_NetworkSettings := Some \<lparr>ns_Ports = ports', ns_Networks = []\<rparr>\<rparr>) [] c) ''53'' = ''2053''"
proof -
  let ?ports = "[((''53'', ''udp''), [''2053'']), ((''53'', ''tcp''), [''1053''])]"
  have "getPublishedPort (setContainerPorts (d\<lparr>ir_NetworkSettings := Some \<lparr>ns_Ports = ?ports, ns_Networks = []\<rparr>\<rparr>) [] (c\<lparr>ct_ports := [], ct_networkMode := ''bridge''\<rparr>)) ''53'' = ''1053''"
    "getPublishedPort (setContainerPorts (d\<lparr>ir_NetworkSettings := Some \<lparr>ns_Ports = rev ?ports, ns_Networks = []\<rparr>\<rparr>) [] (c\<lparr>ct_ports := [], ct_networkMode := ''bridge''\<rparr>)) ''53'' = ''2053''" for c d
    by (simp_all add: getPublishedPort_def setContainerPorts_def IsHost_def)
  moreover have "mset ?ports = mset (rev ?ports)" "distinct (keys ?ports)" by simp_all
  ultimately show ?thesis by blast
qed

section \<open>A container\<close>

definition example_provider :: docker_provider where
  "example_provider =
     \<lparr>dp_name = ''local'', dp_defaultProxyProvider = ''default'', dp_defaultTargetHostname = ''172.17.0.1'', dp_defaultBridgeAddress = Some ''172.17.0.1'',
      dp_tryDockerInternalNetwork = False, dp_autoRestart = True, dp_healthCheckEnabled = True, dp_healthCheckInterval = 30,
      dp_healthCheckFailures = 3, dp_healthCheckCooldown = 0, dp_rateLimitEnabled = True, dp_rateLimitRPS = 100, dp_rateLimitBurst = 200,
      dp_proxyAccessLogDefault = True, dp_allowContainerFunnel = False, dp_allowTLSValidateDisable = False, dp_defaultSet = ''sh''\<rparr>"

definition example_inspect :: inspect_response where
  "example_inspect =
     \<lparr>ir_ID = ''c1'', ir_Name = ''/web'', ir_Hostname = ''c1'', ir_NetworkMode = ''bridge'', ir_Image = ''nginx:1'',
      ir_Labels = [(''tsdproxy.name'', ''Web''), (''tsdproxy.port.1'', ''443/https:80/http, no_tlsvalidate'')], ir_PortBindings = [],
      ir_NetworkSettings = Some \<lparr>ns_Ports = [((''80'', ''tcp''), [''8080''])],
        ns_Networks = [(''bridge'', \<lparr>dn_IPAddress = Some ''172.17.0.2'', dn_Gateway = Some ''172.17.0.1''\<rparr>)]\<rparr>\<rparr>"

definition example_docker_env :: docker_env where
  "example_docker_env =
     \<lparr>de_osname = Some ''host'', de_dial = (\<lambda>_ _ _. False), de_ctxDone = (\<lambda>_. False),
      de_files = \<lparr>fe_getwd = Some ''/'', fe_evalSymlinks = (\<lambda>_. None), fe_isRegular = (\<lambda>_. None), fe_readFile = (\<lambda>_. None)\<rparr>\<rparr>"

abbreviation example_container :: container where
  "example_container \<equiv> newContainer example_provider example_inspect []"

definition config_ports :: "container_error + Config \<Rightarrow> PortConfigList" where
  "config_ports r = (case r of Inl _ \<Rightarrow> [] | Inr cfg \<Rightarrow> cfg_Ports cfg)"

lemma example_config: "config_ports (newProxyConfig example_docker_env example_container) \<noteq> []"
  by code_simp

theorem newProxyConfig_gated_witness:
  "\<exists>k p. (k, p) \<in> set (config_ports (newProxyConfig example_docker_env example_container)) \<and> pc_TLSValidate p"
proof -
  from example_config obtain k p where kp: "(k, p) \<in> set (config_ports (newProxyConfig example_docker_env example_container))"
    by (metis list.set_intros(1) neq_Nil_conv prod.exhaust)
  then obtain cfg where cfg: "newProxyConfig example_docker_env example_container = Inr cfg" "(k, p) \<in> set (cfg_Ports cfg)"
    by (cases "newProxyConfig example_docker_env example_container") (simp_all add: config_ports_def)
  have "ct_allowTLSValidateDisable example_container = False" by code_simp
  with newProxyConfig_gated [OF cfg] have "pc_TLSValidate p" by simp
  with kp show ?thesis by blast
qed

theorem getTargetURL_reaches_witness:
  "\<exists>u h q. getTargetURL example_docker_env example_container (the (url_parse ''http://0.0.0.0:80'')) False = Some u \<and>
     url_of (u_scheme (the (url_parse ''http://0.0.0.0:80''))) h q = Some u"
proof -
  let ?u = "getTargetURL example_docker_env example_container (the (url_parse ''http://0.0.0.0:80'')) False"
  have "\<not> Option.is_none ?u" by code_simp
  then obtain u where u: "?u = Some u" by (cases ?u) simp_all
  from getTargetURL_reaches [OF this] show ?thesis using u by blast
qed

theorem container_network_deterministic_witness:
  "newContainer example_provider (with_networks [(''b'', \<lparr>dn_IPAddress = Some ''10.0.0.2'', dn_Gateway = None\<rparr>), (''a'', \<lparr>dn_IPAddress = Some ''10.1.0.2'', dn_Gateway = None\<rparr>)] example_inspect) [] =
   newContainer example_provider (with_networks [(''a'', \<lparr>dn_IPAddress = Some ''10.1.0.2'', dn_Gateway = None\<rparr>), (''b'', \<lparr>dn_IPAddress = Some ''10.0.0.2'', dn_Gateway = None\<rparr>)] example_inspect) []"
  by (rule container_network_deterministic [THEN conjunct1]) simp_all

theorem newProxyConfig_in_bounds_witness:
  "\<exists>cfg ctn. buildProxyConfig example_docker_env (\<lambda>_. Some (Some example_inspect)) (\<lambda>_. None) example_provider ''c1'' = Inr (cfg, ctn) \<and>
     cfg_HealthCheckInterval cfg \<le> 86400"
proof -
  let ?b = "buildProxyConfig example_docker_env (\<lambda>_. Some (Some example_inspect)) (\<lambda>_. None) example_provider ''c1''"
  have "isl ?b = False" by code_simp
  then obtain cfg ctn where b: "?b = Inr (cfg, ctn)" by (cases ?b) auto
  have "settings_in_bounds (dp_healthCheckInterval example_provider) (dp_healthCheckFailures example_provider)
      (dp_healthCheckCooldown example_provider) (dp_rateLimitRPS example_provider) (dp_rateLimitBurst example_provider)"
    by (simp add: settings_in_bounds_def example_provider_def)
  from newProxyConfig_in_bounds [OF b this] b show ?thesis by (auto simp: settings_in_bounds_def)
qed

end
