(* ===== verification/List_Target.thy ===== *)
theory List_Target
  imports Target_Settings
begin

text \<open>
  The list target provider, \<^verbatim>\<open>src/internal/targetproviders/list/list.go\<close>: proxies described in a file.
  The client keeps the entries of the file (\<^verbatim>\<open>configProxies\<close>) and those for which a proxy was
  made (\<^verbatim>\<open>proxies\<close>); when the file changes, it compares the new entries with the old ones and sends
  stop, start and restart events. Reading the file is an argument: whether it succeeded,
  and the entries it put into the emptied map (a YAML type error is reported after the other
  entries have been decoded).
\<close>

section \<open>Data\<close>

record list_port =
  lp_Targets :: "string list"
  lp_Tailscale :: TailscalePort
  lp_IsRedirect :: bool
  lp_TLSValidate :: bool

record proxyConfig =
  pr_Ports :: "(string, list_port) gomap"
  pr_ProxyProvider :: string
  pr_Domain :: string
  pr_DNSProvider :: string
  pr_TLSProvider :: string
  pr_Dashboard :: Dashboard
  pr_Tailscale :: Tailscale
  pr_IdentityHeaders :: bool

type_synonym configProxyList = "(string, proxyConfig) gomap"

record ListTargetProviderConfig =
  ltc_DefaultProxyProvider :: string
  ltc_HealthCheckInterval :: int
  ltc_HealthCheckFailures :: int
  ltc_HealthCheckCooldown :: int
  ltc_RateLimitRPS :: int
  ltc_RateLimitBurst :: int
  ltc_DefaultProxyAccessLog :: bool
  ltc_AutoRestart :: bool
  ltc_HealthCheckEnabled :: bool
  ltc_RateLimitEnabled :: bool

record list_client =
  lc_name :: string
  lc_config :: ListTargetProviderConfig
  lc_configProxies :: configProxyList
  lc_proxies :: configProxyList
  lc_events :: bool

datatype list_error = ListTargetNotFound string

section \<open>Ports\<close>

definition valid_target :: "string \<Rightarrow> url option" where
  "valid_target target =
     (case url_parse target of
        None \<Rightarrow> None
      | Some u \<Rightarrow> if u_scheme u = [] \<or> u_host u = [] then None else Some u)"

definition parseAndAddTargets :: "PortConfig \<Rightarrow> string list \<Rightarrow> PortConfig option" where
  "parseAndAddTargets cfg targets =
     (let cfg = fold (\<lambda>target cfg. case valid_target target of None \<Rightarrow> cfg | Some u \<Rightarrow> AddTarget u cfg) targets cfg
      in if GetTargets cfg = [] then None else Some cfg)"

definition finish_list_port :: "list_port \<Rightarrow> PortConfig \<Rightarrow> PortConfig option" where
  "finish_list_port v port =
     (case parseAndAddTargets (port\<lparr>pc_IsRedirect := lp_IsRedirect v\<rparr>) (lp_Targets v) of
        None \<Rightarrow> None
      | Some port \<Rightarrow> Some (port\<lparr>pc_TLSValidate := lp_TLSValidate v, pc_Tailscale := lp_Tailscale v\<rparr>))"

definition processPortRange :: "string \<Rightarrow> list_port \<Rightarrow> PortConfigList \<Rightarrow> PortConfigList" where
  "processPortRange k v ports =
     (case ExpandPortRangeShortLabel k of
        Inl _ \<Rightarrow> ports
      | Inr expanded \<Rightarrow>
          fold (\<lambda>(rangeKey, portCfg) ports. add_port (k @ ''.'' @ rangeKey) (finish_list_port v portCfg) ports) expanded ports)"

definition processSinglePort :: "string \<Rightarrow> list_port \<Rightarrow> PortConfigList \<Rightarrow> PortConfigList" where
  "processSinglePort k v ports =
     (case NewPortShortLabel k of
        Inl _ \<Rightarrow> ports
      | Inr port \<Rightarrow> add_port k (finish_list_port v port) ports)"

definition list_getPorts :: "(string, list_port) gomap \<Rightarrow> PortConfigList" where
  "list_getPorts l =
     fold (\<lambda>(k, v) ports. if IsPortRangeShortLabel k then processPortRange k v ports else processSinglePort k v ports) l []"

section \<open>Configurations and targets\<close>

definition buildConfig :: "string \<Rightarrow> proxyConfig \<Rightarrow> list_client \<Rightarrow> Config" where
  "buildConfig name p c =
     (let proxyProvider = (if pr_ProxyProvider p \<noteq> [] then pr_ProxyProvider p else ltc_DefaultProxyProvider (lc_config c))
      in NewConfig\<lparr>
           cfg_TargetID := name, cfg_Hostname := name, cfg_TargetProvider := lc_name c,
           cfg_Tailscale := pr_Tailscale p, cfg_ProxyProvider := proxyProvider,
           cfg_ProxyAccessLog := ltc_DefaultProxyAccessLog (lc_config c),
           cfg_IdentityHeaders := DefaultIdentityHeaders,
           cfg_AutoRestart := ltc_AutoRestart (lc_config c),
           cfg_HealthCheckEnabled := ltc_HealthCheckEnabled (lc_config c),
           cfg_HealthCheckInterval := ltc_HealthCheckInterval (lc_config c),
           cfg_HealthCheckFailures := ltc_HealthCheckFailures (lc_config c),
           cfg_HealthCheckCooldown := ltc_HealthCheckCooldown (lc_config c),
           cfg_RateLimitEnabled := ltc_RateLimitEnabled (lc_config c),
           cfg_RateLimitRPS := ltc_RateLimitRPS (lc_config c), cfg_RateLimitBurst := ltc_RateLimitBurst (lc_config c),
           cfg_Ports := list_getPorts (pr_Ports p), cfg_Dashboard := pr_Dashboard p,
           cfg_Domain := pr_Domain p, cfg_DNSProvider := pr_DNSProvider p, cfg_TLSProvider := pr_TLSProvider p\<rparr>)"

definition addTarget :: "proxyConfig \<Rightarrow> string \<Rightarrow> list_client \<Rightarrow> list_client" where
  "addTarget cfg name c = c\<lparr>lc_proxies := gm_put name cfg (lc_proxies c)\<rparr>"

definition list_newProxyConfig :: "string \<Rightarrow> proxyConfig \<Rightarrow> list_client \<Rightarrow> Config \<times> list_client" where
  "list_newProxyConfig name p c = (buildConfig name p c, addTarget p name c)"

definition list_AddTarget :: "string \<Rightarrow> list_client \<Rightarrow> (list_error + Config) \<times> list_client" where
  "list_AddTarget name c =
     (case gm_get (lc_configProxies c) name of
        None \<Rightarrow> (Inl (ListTargetNotFound name), c)
      | Some proxy \<Rightarrow> apfst Inr (list_newProxyConfig name proxy c))"

definition list_ReResolve :: "string \<Rightarrow> list_client \<Rightarrow> list_error + Config" where
  "list_ReResolve name c =
     (case gm_get (lc_configProxies c) name of
        None \<Rightarrow> Inl (ListTargetNotFound name)
      | Some proxy \<Rightarrow> Inr (buildConfig name proxy c))"

definition list_DeleteProxy :: "string \<Rightarrow> list_client \<Rightarrow> list_error option \<times> list_client" where
  "list_DeleteProxy name c =
     (if gm_get (lc_proxies c) name = None then (Some (ListTargetNotFound name), c)
      else (None, c\<lparr>lc_proxies := gm_del name (lc_proxies c)\<rparr>))"

section \<open>Events\<close>

text \<open>
  \<^verbatim>\<open>trySendEvent\<close> sends when the provider is being watched; \<open>done\<close> says for which names the context
  ends first.
\<close>

definition trySendEvent :: "(string \<Rightarrow> bool) \<Rightarrow> list_client \<Rightarrow> ActionType \<Rightarrow> string \<Rightarrow> TargetEvent list" where
  "trySendEvent ctxDone c act name =
     (if \<not> lc_events c \<or> ctxDone name then [] else [\<lparr>te_ID = name, te_Action = act\<rparr>])"

definition send_all :: "(string \<Rightarrow> bool) \<Rightarrow> list_client \<Rightarrow> ActionType \<Rightarrow> string list \<Rightarrow> TargetEvent list" where
  "send_all ctxDone c act names = concat (map (trySendEvent ctxDone c act) names)"

fun start_names :: "(string \<Rightarrow> bool) \<Rightarrow> string list \<Rightarrow> TargetEvent list" where
  "start_names ctxDone [] = []"
| "start_names ctxDone (k # ks) =
     (if ctxDone k then [] else \<lparr>te_ID = k, te_Action = ActionStartProxy\<rparr> # start_names ctxDone ks)"

definition list_WatchEvents :: "(string \<Rightarrow> bool) \<Rightarrow> bool \<Rightarrow> list_client \<Rightarrow> TargetEvent list \<times> list_client" where
  "list_WatchEvents ctxDone watchOK c =
     (let c = c\<lparr>lc_events := True\<rparr>
      in if \<not> watchOK then ([], c) else (start_names ctxDone (keys (lc_configProxies c)), c))"

definition list_Close :: "(string \<Rightarrow> bool) \<Rightarrow> list_client \<Rightarrow> TargetEvent list" where
  "list_Close ctxDone c = send_all ctxDone c ActionStopProxy (keys (lc_proxies c))"

definition onFileChange :: "bool \<times> configProxyList \<Rightarrow> (string \<Rightarrow> bool) \<Rightarrow> list_client \<Rightarrow> TargetEvent list \<times> list_client" where
  "onFileChange loaded ctxDone c =
     (let old = lc_configProxies c; (ok, new) = loaded
      in if \<not> ok then ([], c\<lparr>lc_configProxies := fold (\<lambda>(k, v). gm_put k v) old new\<rparr>)
         else let stops = filter (\<lambda>name. gm_get new name = None) (keys old);
                  starts = filter (\<lambda>name. gm_get old name = None) (keys new);
                  restarts = filter (\<lambda>name. gm_get old name \<noteq> None \<and> gm_get new name \<noteq> gm_get old name) (keys new);
                  c' = c\<lparr>lc_configProxies := new\<rparr>
              in (send_all ctxDone c' ActionStopProxy stops @ send_all ctxDone c' ActionStartProxy starts @
                  send_all ctxDone c' ActionRestartProxy restarts, c'))"

section \<open>Lemmas\<close>

lemma AddTarget_targets: "GetTargets (AddTarget u p) = GetTargets p @ [u]"
  by (simp add: AddTarget_def GetTargets_def split: option.splits)

lemma add_targets:
  "GetTargets (fold (\<lambda>target cfg. case valid_target target of None \<Rightarrow> cfg | Some u \<Rightarrow> AddTarget u cfg) ts cfg) =
   GetTargets cfg @ List.map_filter valid_target ts"
  by (induction ts arbitrary: cfg) (simp_all add: List.map_filter_def AddTarget_targets split: option.split)

lemma finish_list_port_targets:
  assumes "finish_list_port v p = Some q" "GetTargets p = []"
  shows "GetTargets q = List.map_filter valid_target (lp_Targets v) \<and> GetTargets q \<noteq> [] \<and> pc_TLSValidate q = lp_TLSValidate v \<and>
    pc_Tailscale q = lp_Tailscale v"
proof -
  from assms(1) obtain p' where p': "parseAndAddTargets (p\<lparr>pc_IsRedirect := lp_IsRedirect v\<rparr>) (lp_Targets v) = Some p'"
    "q = p'\<lparr>pc_TLSValidate := lp_TLSValidate v, pc_Tailscale := lp_Tailscale v\<rparr>"
    by (auto simp: finish_list_port_def split: option.splits)
  then have "GetTargets p' = GetTargets (p\<lparr>pc_IsRedirect := lp_IsRedirect v\<rparr>) @ List.map_filter valid_target (lp_Targets v)" "GetTargets p' \<noteq> []"
    by (auto simp: parseAndAddTargets_def Let_def add_targets split: if_splits)
  moreover have "GetTargets (p\<lparr>pc_IsRedirect := lp_IsRedirect v\<rparr>) = []" using assms(2) by (simp add: GetTargets_def)
  moreover have "GetTargets q = GetTargets p'" using p'(2) by (simp add: GetTargets_def)
  ultimately show ?thesis using p'(2) by simp
qed

lemma parseProxySegment_targets: "parseProxySegment s c = Inr p \<Longrightarrow> GetTargets p = GetTargets c"
  by (auto simp: parseProxySegment_def Let_def GetTargets_def split: option.splits if_splits)

lemma short_label_targets: "NewPortShortLabel k = Inr p \<Longrightarrow> GetTargets p = []"
  using parseProxySegment_targets by (fastforce simp: NewPortShortLabel_def defaultPortConfig_def GetTargets_def)

lemma short_range_targets:
  assumes "ExpandPortRangeShortLabel k = Inr ps" "(rk, p) \<in> set ps"
  shows "GetTargets p = []"
proof -
  have step: "\<forall>(k, p) \<in> set (fold (\<lambda>(idx, p) r. gm_put (range_key idx) (short_range_cfg pr p) r) xs acc). GetTargets p = []"
    if "\<forall>(k, p) \<in> set acc. GetTargets p = []" for xs acc pr
    using that
  proof (induction xs arbitrary: acc)
    case (Cons x xs)
    have "\<forall>(k, p) \<in> set (gm_put (range_key (fst x)) (short_range_cfg pr (snd x)) acc). GetTargets p = []"
      using Cons.prems by (auto simp: short_range_cfg_def range_cfg_def GetTargets_def dest!: gm_put_set)
    with Cons.IH show ?case by (simp add: case_prod_beta)
  qed simp
  have "\<forall>(k, p) \<in> set (fold (\<lambda>(idx, p) r. gm_put (range_key idx) (short_range_cfg pr p) r) xs []). GetTargets p = []" for xs pr
    by (rule step) simp
  with assms show ?thesis
    by (fastforce simp: ExpandPortRangeShortLabel_def Let_def dest: short_label_targets split: if_splits sum.splits)
qed

definition list_ports_ok :: "(string, list_port) gomap \<Rightarrow> PortConfigList \<Rightarrow> bool" where
  "list_ports_ok l ports \<longleftrightarrow>
     (\<forall>(k, p) \<in> set ports. \<exists>(k', v) \<in> set l. GetTargets p = List.map_filter valid_target (lp_Targets v) \<and> GetTargets p \<noteq> [] \<and>
        pc_TLSValidate p = lp_TLSValidate v \<and> pc_Tailscale p = lp_Tailscale v)"

lemma add_list_port_ok:
  assumes "list_ports_ok l ports" "(k', v) \<in> set l" "GetTargets p = []"
  shows "list_ports_ok l (add_port k (finish_list_port v p) ports)"
proof (cases "finish_list_port v p")
  case (Some q)
  have "\<exists>(k', v) \<in> set l. GetTargets q = List.map_filter valid_target (lp_Targets v) \<and> GetTargets q \<noteq> [] \<and>
        pc_TLSValidate q = lp_TLSValidate v \<and> pc_Tailscale q = lp_Tailscale v"
    using finish_list_port_targets [OF Some assms(3)] assms(2) by blast
  with Some assms(1) show ?thesis
    unfolding list_ports_ok_def add_port_def by (auto dest!: gm_put_set)
qed (use assms(1) in \<open>simp add: add_port_def\<close>)

lemma process_port_ok:
  assumes "list_ports_ok l ports" "(k, v) \<in> set l"
  shows "list_ports_ok l (if IsPortRangeShortLabel k then processPortRange k v ports else processSinglePort k v ports)"
proof (cases "IsPortRangeShortLabel k")
  case False
  then show ?thesis
    using assms short_label_targets by (cases "NewPortShortLabel k") (auto simp: processSinglePort_def intro: add_list_port_ok)
next
  case True
  show ?thesis
  proof (cases "ExpandPortRangeShortLabel k")
    case (Inr ps)
    have "list_ports_ok l (fold (\<lambda>(rangeKey, portCfg) ports. add_port (k @ ''.'' @ rangeKey) (finish_list_port v portCfg) ports) qs ports)"
      if "set qs \<subseteq> set ps" for qs
      using that assms(1)
    proof (induction qs arbitrary: ports)
      case (Cons x xs)
      have "GetTargets (snd x) = []" using short_range_targets [OF Inr, of "fst x" "snd x"] Cons.prems(1) by simp
      from add_list_port_ok [OF Cons.prems(2) assms(2) this] Cons show ?case by (simp add: case_prod_beta)
    qed simp
    then show ?thesis using True Inr by (simp add: processPortRange_def)
  qed (use True assms(1) in \<open>simp add: processPortRange_def\<close>)
qed

section \<open>Properties\<close>

text \<open>
  Every port of a proxy of the list has at least one target, each of them a URL of the file with a scheme and a
  host, in the order of the file; TLS check and funnel are what the file says.
\<close>

theorem list_getPorts_targets:
  assumes "(k, p) \<in> set (list_getPorts l)"
  shows "\<exists>(k', v) \<in> set l. GetTargets p = List.map_filter valid_target (lp_Targets v) \<and> GetTargets p \<noteq> [] \<and>
    list_all (\<lambda>u. u_scheme u \<noteq> [] \<and> u_host u \<noteq> []) (GetTargets p) \<and>
    pc_TLSValidate p = lp_TLSValidate v \<and> pc_Tailscale p = lp_Tailscale v"
proof -
  have "list_ports_ok l (fold (\<lambda>(k, v) ports. if IsPortRangeShortLabel k then processPortRange k v ports else processSinglePort k v ports) xs ports)"
    if "set xs \<subseteq> set l" "list_ports_ok l ports" for xs ports
    using that
  proof (induction xs arbitrary: ports)
    case (Cons x xs)
    have "list_ports_ok l (if IsPortRangeShortLabel (fst x) then processPortRange (fst x) (snd x) ports else processSinglePort (fst x) (snd x) ports)"
      using Cons.prems by (intro process_port_ok) auto
    with Cons show ?case by (simp add: case_prod_beta)
  qed simp
  from this [of l "[]"] have "list_ports_ok l (list_getPorts l)" unfolding list_getPorts_def by (simp add: list_ports_ok_def [of l "[]"])
  with assms have "\<exists>(k', v) \<in> set l. GetTargets p = List.map_filter valid_target (lp_Targets v) \<and> GetTargets p \<noteq> [] \<and>
    pc_TLSValidate p = lp_TLSValidate v \<and> pc_Tailscale p = lp_Tailscale v"
    unfolding list_ports_ok_def by blast
  moreover have "list_all (\<lambda>u. u_scheme u \<noteq> [] \<and> u_host u \<noteq> []) (List.map_filter valid_target ts)" for ts
    by (induction ts) (auto simp: List.map_filter_def valid_target_def split: option.splits if_splits)
  ultimately show ?thesis by fastforce
qed

text \<open>
  A reload and what the manager makes of its events: a stop removes a target, a start adds one, a
  restart replaces one.
\<close>

definition apply_event :: "(string \<Rightarrow> proxyConfig option) \<Rightarrow> TargetEvent \<Rightarrow> (string \<Rightarrow> proxyConfig option) \<Rightarrow> (string \<Rightarrow> proxyConfig option)" where
  "apply_event entries ev running =
     (case te_Action ev of
        ActionStopProxy \<Rightarrow> running(te_ID ev := None)
      | ActionStartProxy \<Rightarrow> (if running (te_ID ev) = None then running(te_ID ev := entries (te_ID ev)) else running)
      | ActionRestartProxy \<Rightarrow> (if running (te_ID ev) = None then running else running(te_ID ev := entries (te_ID ev)))
      | _ \<Rightarrow> running)"

lemma send_all_watched:
  "lc_events c \<Longrightarrow> send_all (\<lambda>_. False) c act names = map (\<lambda>n. \<lparr>te_ID = n, te_Action = act\<rparr>) names"
  by (induction names) (simp_all add: send_all_def trySendEvent_def)

lemma onFileChange_changed:
  assumes "lc_events c" "onFileChange (True, new) (\<lambda>_. False) c = (evs, c')" "ev \<in> set evs"
  shows "gm_get (lc_configProxies c) (te_ID ev) \<noteq> gm_get new (te_ID ev)"
proof -
  let ?old = "lc_configProxies c"
  have k: "n \<in> fst ` set m \<longleftrightarrow> gm_get m n \<noteq> None" for n :: string and m :: configProxyList
    using gm_get_None_iff [of m n] by (metis list.set_map)
  have evs: "evs = map (\<lambda>n. \<lparr>te_ID = n, te_Action = ActionStopProxy\<rparr>) (filter (\<lambda>name. gm_get new name = None) (keys ?old)) @
      map (\<lambda>n. \<lparr>te_ID = n, te_Action = ActionStartProxy\<rparr>) (filter (\<lambda>name. gm_get ?old name = None) (keys new)) @
      map (\<lambda>n. \<lparr>te_ID = n, te_Action = ActionRestartProxy\<rparr>)
        (filter (\<lambda>name. gm_get ?old name \<noteq> None \<and> gm_get new name \<noteq> gm_get ?old name) (keys new))"
    using assms(1,2) by (simp add: onFileChange_def Let_def send_all_watched)
  from assms(3) show ?thesis unfolding evs set_append set_map set_filter k by force
qed

lemma fold_stops:
  "fold (apply_event entries) (map (\<lambda>n. \<lparr>te_ID = n, te_Action = ActionStopProxy\<rparr>) ns) run = (\<lambda>k. if k \<in> set ns then None else run k)"
  by (induction ns arbitrary: run) (auto simp: apply_event_def fun_eq_iff)

lemma fold_starts:
  "\<forall>n \<in> set ns. run n = None \<or> run n = entries n \<Longrightarrow>
   fold (apply_event entries) (map (\<lambda>n. \<lparr>te_ID = n, te_Action = ActionStartProxy\<rparr>) ns) run = (\<lambda>k. if k \<in> set ns then entries k else run k)"
proof (induction ns arbitrary: run)
  case (Cons n ns)
  let ?run = "apply_event entries \<lparr>te_ID = n, te_Action = ActionStartProxy\<rparr> run"
  have run: "?run = run(n := entries n)" using Cons.prems by (auto simp: apply_event_def)
  then have "\<forall>m \<in> set ns. ?run m = None \<or> ?run m = entries m" using Cons.prems by auto
  from Cons.IH [OF this] have "fold (apply_event entries) (map (\<lambda>n. \<lparr>te_ID = n, te_Action = ActionStartProxy\<rparr>) ns) ?run =
      (\<lambda>k. if k \<in> set ns then entries k else ?run k)" .
  then show ?case unfolding list.map fold_simps comp_apply run by (simp add: fun_eq_iff)
qed simp

lemma fold_restarts:
  "\<forall>n \<in> set ns. run n \<noteq> None \<and> entries n \<noteq> None \<Longrightarrow>
   fold (apply_event entries) (map (\<lambda>n. \<lparr>te_ID = n, te_Action = ActionRestartProxy\<rparr>) ns) run = (\<lambda>k. if k \<in> set ns then entries k else run k)"
  by (induction ns arbitrary: run) (auto simp: apply_event_def fun_eq_iff)


text \<open>
  The setting \<^verbatim>\<open>identityHeaders\<close> of an entry is decoded, and then the default is used instead of it.
\<close>

lemma identityHeaders_ignored: "cfg_IdentityHeaders (buildConfig name p c) \<and> buildConfig name (p\<lparr>pr_IdentityHeaders := b\<rparr>) c = buildConfig name p c"
  by (simp add: buildConfig_def DefaultIdentityHeaders_def Let_def)

text \<open>
  When the file cannot be decoded as a whole, the entries that could be decoded stay in the table although
  no event was sent for them; if the next version of the file is good, they count as old, and an
  entry that was new never starts.
\<close>

lemma failed_reload_swallows_start:
  assumes "gm_get (lc_configProxies c) k = None" "gm_get new k = Some v" "gm_get good k = Some v" "lc_events c"
    "gm_wf (lc_configProxies c)"
  shows "let c1 = snd (onFileChange (False, new) (\<lambda>_. False) c); (evs, c2) = onFileChange (True, good) (\<lambda>_. False) c1
    in k \<notin> set (map te_ID evs) \<and> gm_get (lc_configProxies c2) k = Some v"
proof -
  let ?c1 = "snd (onFileChange (False, new) (\<lambda>_. False) c)"
  have put: "gm_get (fold (\<lambda>(k, v). gm_put k v) xs m) k = gm_get m k" if "k \<notin> set (keys xs)" for xs m
    using that by (induction xs arbitrary: m) (auto simp: case_prod_beta)
  have "k \<notin> set (keys (lc_configProxies c))" using assms(1) gm_get_None_iff by metis
  then have c1: "gm_get (lc_configProxies ?c1) k = Some v" "lc_events ?c1"
    using assms(2,4) put [of "lc_configProxies c" new] by (simp_all add: onFileChange_def)
  obtain evs c2 where r: "onFileChange (True, good) (\<lambda>_. False) ?c1 = (evs, c2)" by force
  from onFileChange_changed [OF c1(2) r] have ev: "set (map te_ID evs) \<subseteq> {n. gm_get (lc_configProxies ?c1) n \<noteq> gm_get good n}" by auto
  have c2: "lc_configProxies c2 = good" using r by (auto simp: onFileChange_def Let_def)
  have "k \<notin> set (map te_ID evs)" using ev c1(1) assms(3) by auto
  then show ?thesis using c2 assms(3) unfolding Let_def r by simp
qed

definition example_list_port :: list_port where
  "example_list_port = \<lparr>lp_Targets = [''http://a:80'', ''nonsense''], lp_Tailscale = \<lparr>tp_Funnel = False\<rparr>, lp_IsRedirect = False, lp_TLSValidate = True\<rparr>"

definition example_entry :: proxyConfig where
  "example_entry = \<lparr>pr_Ports = [(''443/https'', example_list_port)], pr_ProxyProvider = [], pr_Domain = [], pr_DNSProvider = [], pr_TLSProvider = [],
     pr_Dashboard = cfg_Dashboard NewConfig, pr_Tailscale = cfg_Tailscale NewConfig, pr_IdentityHeaders = False\<rparr>"

definition example_list_client :: list_client where
  "example_list_client = \<lparr>lc_name = ''list'', lc_config = \<lparr>ltc_DefaultProxyProvider = [], ltc_HealthCheckInterval = 30, ltc_HealthCheckFailures = 3,
       ltc_HealthCheckCooldown = 60, ltc_RateLimitRPS = 10, ltc_RateLimitBurst = 20, ltc_DefaultProxyAccessLog = True, ltc_AutoRestart = True,
       ltc_HealthCheckEnabled = True, ltc_RateLimitEnabled = False\<rparr>,
     lc_configProxies = [(''a'', example_entry), (''b'', example_entry)], lc_proxies = [], lc_events = True\<rparr>"

theorem list_getPorts_targets_witness: "GetTargets (snd (hd (list_getPorts [(''443/https'', example_list_port)]))) \<noteq> []"
proof -
  let ?ps = "list_getPorts [(''443/https'', example_list_port)]"
  have "?ps \<noteq> []" by code_simp
  then have "(fst (hd ?ps), snd (hd ?ps)) \<in> set ?ps" by simp
  from list_getPorts_targets [OF this] show ?thesis by blast
qed


end
