(* ===== verification/Tailscale_Provider.thy ===== *)
theory Tailscale_Provider
  imports Tailscale_Node Exposure Target_Settings
begin

text \<open>
  The Tailscale proxy provider, \<^verbatim>\<open>src/internal/proxyproviders/tailscale/provider.go\<close>: a client made from
  the configuration, the edits of the access policy (\<^verbatim>\<open>acl_manager.go\<close>), and the proxies it makes
  in its three modes; then the proxies of the per-proxy mode (\<^verbatim>\<open>proxy.go\<close>) with the close of a
  node (\<^verbatim>\<open>node_lifecycle.go\<close>), and those of the services mode (\<^verbatim>\<open>service_proxy.go\<close>, \<^verbatim>\<open>exposure.go\<close>).
\<close>

section \<open>The data directory of a node\<close>

definition validateDatadir :: "string \<Rightarrow> string \<Rightarrow> string option" where
  "validateDatadir baseDir hostname =
     (if CHR 0x00 \<in> set hostname \<or> path_IsAbs hostname then None
      else let datadir = path_Join [baseDir, hostname]
           in case path_Rel (path_Clean baseDir) (path_Clean datadir) of
                None \<Rightarrow> None
              | Some rel \<Rightarrow> if rel = ''..'' \<or> has_prefix rel ''../'' then None else Some datadir)"

text \<open>A path is inside a directory when it has the parts of the directory, then others that do not go up.\<close>

definition path_inside :: "string \<Rightarrow> string \<Rightarrow> bool" where
  "path_inside base dir =
     (let (r, be) = clean_parts base; (r', te) = clean_parts dir
      in r = r' \<and> take (length be) te = be \<and> ''..'' \<notin> set (drop (length be) te))"

lemma validateDatadir_inside: "validateDatadir base h = Some d \<Longrightarrow> path_inside base d"
proof -
  assume v: "validateDatadir base h = Some d"
  then obtain rel where rel: "path_Rel (path_Clean base) (path_Clean d) = Some rel" "rel \<noteq> ''..''" "\<not> has_prefix rel ''../''"
    by (auto simp: validateDatadir_def Let_def split: if_splits option.splits)
  from path_Rel_inside [OF this] obtain r be rest where "clean_parts base = (r, be)" "clean_parts d = (r, be @ rest)" "''..'' \<notin> set rest"
    by auto
  then show ?thesis by (simp add: path_inside_def)
qed

text \<open>\<^verbatim>\<open>validateDatadir\<close> lets a name through that stands for the base directory itself.\<close>

lemma dot_is_the_base: "validateDatadir ''/data/default'' ''.'' = Some ''/data/default'' \<and> validateDatadir ''/data/default'' ''a/..'' = Some ''/data/default''"
  by code_simp

section \<open>The access policy\<close>

record acl =
  acl_TagOwners :: "(string, string list) gomap"
  acl_NodeAttrs :: "(string list \<times> string list) list"
  acl_ETag :: string

text \<open>
  The policy service, over a state of the remote side: reading, the dry run, the conditional
  write, and what others do to it between a read and the write that follows.
\<close>

record 'w policy_api =
  pa_Get :: "'w \<Rightarrow> acl option"
  pa_Validate :: "acl \<Rightarrow> 'w \<Rightarrow> bool"
  pa_Set :: "acl \<Rightarrow> string \<Rightarrow> 'w \<Rightarrow> bool \<times> 'w"
  pa_others :: "'w \<Rightarrow> 'w"

datatype acl_error = ACLRead | ACLValidation | ACLWrite

definition funnelAttr :: string where "funnelAttr = ''funnel''"

definition applyACL :: "'w policy_api \<Rightarrow> acl \<Rightarrow> 'w \<Rightarrow> acl_error option \<times> 'w" where
  "applyACL api acl w =
     (let etag = acl_ETag acl
      in if \<not> pa_Validate api acl w then (Some ACLValidation, w)
         else case pa_Set api acl etag w of (ok, w') \<Rightarrow> (if ok then None else Some ACLWrite, w'))"

definition add_tag_owner :: "string \<Rightarrow> acl \<times> bool \<Rightarrow> acl \<times> bool" where
  "add_tag_owner tag ac =
     (let (acl, changed) = ac
      in if gm_get (acl_TagOwners acl) tag = None
         then (acl\<lparr>acl_TagOwners := gm_put tag [''autogroup:admin''] (acl_TagOwners acl)\<rparr>, True) else (acl, changed))"

definition EnsureTags :: "'w policy_api \<Rightarrow> string list \<Rightarrow> 'w \<Rightarrow> acl_error option \<times> 'w" where
  "EnsureTags api tags w =
     (case pa_Get api w of
        None \<Rightarrow> (Some ACLRead, w)
      | Some acl \<Rightarrow>
          (case fold add_tag_owner tags (acl, False) of
             (acl', changed) \<Rightarrow> if \<not> changed then (None, w) else applyACL api acl' (pa_others api w)))"

definition EnsureFunnelAttribute :: "'w policy_api \<Rightarrow> string \<Rightarrow> 'w \<Rightarrow> acl_error option \<times> 'w" where
  "EnsureFunnelAttribute api tag w =
     (case pa_Get api w of
        None \<Rightarrow> (Some ACLRead, w)
      | Some acl \<Rightarrow>
          if list_ex (\<lambda>(_, attr). funnelAttr \<in> set attr) (acl_NodeAttrs acl) then (None, w)
          else let target = (if tag = [] then ''autogroup:member'' else tag)
               in applyACL api (acl\<lparr>acl_NodeAttrs := acl_NodeAttrs acl @ [([target], [funnelAttr])]\<rparr>) (pa_others api w))"

definition autoProvisionTags :: "'w policy_api \<Rightarrow> string list \<Rightarrow> 'w \<Rightarrow> acl_error option \<times> 'w" where
  "autoProvisionTags api tags w =
     (case EnsureTags api tags w of
        (Some e, w') \<Rightarrow> (Some e, w')
      | (None, w') \<Rightarrow> EnsureFunnelAttribute api (hd tags) w')"

section \<open>The client\<close>

record TailscaleServerConfig =
  tsc_Hostname :: string
  tsc_ClientID :: string
  tsc_ReconcileInterval :: string
  tsc_ClientSecret :: string
  tsc_Tags :: string
  tsc_ControlURL :: string
  tsc_AuthKey :: string
  tsc_InitialBackoff :: string
  tsc_MaxBackoff :: string
  tsc_MaxAttempts :: int
  tsc_RetryEnabled :: bool
  tsc_MaxCertConcurrency :: int
  tsc_PreventDuplicates :: bool
  tsc_Shared :: bool
  tsc_Services :: bool
  tsc_AutoApproveDevices :: bool
  tsc_AutoRemoveConflicts :: bool
  tsc_AutoProvisionACL :: bool

definition ScopeDevices :: string where "ScopeDevices = ''devices:core''"
definition ScopeAuthKeys :: string where "ScopeAuthKeys = ''auth_keys''"
definition ScopeServices :: string where "ScopeServices = ''services''"
definition ScopesPerProxy :: "string list" where "ScopesPerProxy = [ScopeDevices, ScopeAuthKeys]"
definition ScopesServices :: "string list" where "ScopesServices = [ScopeDevices, ScopeAuthKeys, ScopeServices]"

datatype provider_error =
    OAuthAccess "string list"
  | ProvisionACL acl_error
  | InvalidDatadir string
  | SharedDomainRequired
  | ServicesNoCustomDomain
  | ResolveAuthKeyError oauth_error

text \<open>
  \<open>access\<close> says for which scopes the listing of devices succeeds. Without auto-provisioning the policy
  is only read, to warn of missing tags.
\<close>

definition validateOAuthAndProvisionACL :: "(string list \<Rightarrow> bool) \<Rightarrow> 'w policy_api \<Rightarrow> TailscaleServerConfig \<Rightarrow> APIClientFactory \<Rightarrow> 'w \<Rightarrow> provider_error option \<times> 'w" where
  "validateOAuthAndProvisionACL access api provider factory w =
     (if \<not> IsAvailable factory then (None, w)
      else let scopes = (if tsc_Services provider then ScopesServices else ScopesPerProxy)
           in if \<not> access scopes then (Some (OAuthAccess scopes), w)
              else let tags = parseTagsForACL (tsc_Tags provider)
                   in if tags \<noteq> [] \<and> tsc_AutoProvisionACL provider
                      then apfst (map_option ProvisionACL) (autoProvisionTags api tags w) else (None, w))"

record node_config = NodeConfig +
  nc_AdvertiseTags :: "string list"
  nc_RunWebClient :: bool
  nc_Verbose :: bool

record NodeLifecycleConfig =
  lcfg_NodeConfig :: node_config
  lcfg_AuthConfig :: AuthConfig
  lcfg_Retry :: RetryPolicy
  lcfg_DeviceReconciler :: bool

definition NewNodeLifecycle :: "NodeLifecycleConfig \<Rightarrow> NodeLifecycle" where
  "NewNodeLifecycle c = \<lparr>lr_cfg = NodeConfig.truncate (lcfg_NodeConfig c), lr_authCfg = lcfg_AuthConfig c, lr_retry = lcfg_Retry c,
     lr_reconciler = lcfg_DeviceReconciler c\<rparr>"

text \<open>The shared server and the services server are kept as the configuration of their node.\<close>

record tailscale_client =
  cl_Hostname :: string
  cl_AuthKey :: string
  cl_apiFactory :: APIClientFactory
  cl_tags :: string
  cl_datadir :: string
  cl_controlURL :: string
  cl_sharedHostname :: string
  cl_retryEnabled :: bool
  cl_maxAttempts :: int
  cl_authRetryInit :: int
  cl_authRetryMax :: int
  cl_reconcileInterval :: int
  cl_certSem :: int
  cl_preventDuplicates :: bool
  cl_shared :: bool
  cl_services :: bool
  cl_autoApprove :: bool
  cl_autoRemoveConflicts :: bool
  cl_sharedServer :: "NodeLifecycleConfig option"
  cl_servicesServer :: "NodeLifecycleConfig option"

definition DefaultMaxCertConcurrency :: int where "DefaultMaxCertConcurrency = 2"
definition DefaultTailscaleControlURL :: string where "DefaultTailscaleControlURL = []"
definition defaultAuthRetryInitDelay :: int where "defaultAuthRetryInitDelay = 2000000000"
definition defaultAuthRetryMaxDelay :: int where "defaultAuthRetryMaxDelay = 30000000000"

text \<open>\<open>parseDuration\<close> is \<^verbatim>\<open>time.ParseDuration\<close>, whose fractions are computed in floating point.\<close>

definition provider_New :: "(string \<Rightarrow> int option) \<Rightarrow> (string list \<Rightarrow> bool) \<Rightarrow> 'w policy_api \<Rightarrow> string \<Rightarrow> TailscaleServerConfig \<Rightarrow> string \<Rightarrow> 'w \<Rightarrow>
    (provider_error + tailscale_client) \<times> 'w" where
  "provider_New parseDuration access api name provider dataDir w =
     (let datadir = path_Join [dataDir, name];
          concurrency = (if tsc_MaxCertConcurrency provider < 1 then DefaultMaxCertConcurrency else tsc_MaxCertConcurrency provider);
          apiFactory = NewAPIClientFactory (tsc_ClientID provider) (tsc_ClientSecret provider)
      in case validateOAuthAndProvisionACL access api provider apiFactory w of
           (Some e, w') \<Rightarrow> (Inl e, w')
         | (None, w') \<Rightarrow>
             (let reconcileInterval = (case parseDuration (tsc_ReconcileInterval provider) of None \<Rightarrow> 0 | Some d \<Rightarrow> d);
                  authRetryInit = (case parseDuration (tsc_InitialBackoff provider) of None \<Rightarrow> defaultAuthRetryInitDelay | Some d \<Rightarrow> d);
                  authRetryMax = (case parseDuration (tsc_MaxBackoff provider) of None \<Rightarrow> defaultAuthRetryMaxDelay | Some d \<Rightarrow> d);
                  preventDuplicates = (tsc_PreventDuplicates provider \<and> \<not> (tsc_ClientID provider = [] \<or> tsc_ClientSecret provider = []))
              in (Inr \<lparr>cl_Hostname = name, cl_AuthKey = trim_space (tsc_AuthKey provider), cl_apiFactory = apiFactory,
                       cl_tags = trim_space (tsc_Tags provider), cl_datadir = datadir, cl_controlURL = tsc_ControlURL provider,
                       cl_sharedHostname = trim_space (tsc_Hostname provider), cl_retryEnabled = tsc_RetryEnabled provider,
                       cl_maxAttempts = tsc_MaxAttempts provider, cl_authRetryInit = authRetryInit, cl_authRetryMax = authRetryMax,
                       cl_reconcileInterval = reconcileInterval, cl_certSem = concurrency, cl_preventDuplicates = preventDuplicates,
                       cl_shared = tsc_Shared provider, cl_services = tsc_Services provider,
                       cl_autoApprove = tsc_AutoApproveDevices provider, cl_autoRemoveConflicts = tsc_AutoRemoveConflicts provider,
                       cl_sharedServer = None, cl_servicesServer = None\<rparr>, w')))"

definition runs_reconcile :: "tailscale_client \<Rightarrow> bool" where
  "runs_reconcile c \<longleftrightarrow> cl_reconcileInterval c > 0 \<and> (cl_shared c \<or> cl_services c)"

definition getControlURL :: "tailscale_client \<Rightarrow> string" where
  "getControlURL c = (if cl_controlURL c = [] then DefaultTailscaleControlURL else cl_controlURL c)"

definition trim_quotes :: "string \<Rightarrow> string" where
  "trim_quotes s = rev (dropWhile (\<lambda>ch. ch = CHR 0x22) (rev (dropWhile (\<lambda>ch. ch = CHR 0x22) s)))"

definition resolveTags :: "Config \<Rightarrow> tailscale_client \<Rightarrow> string" where
  "resolveTags cfg c =
     (let temptags = trim_quotes (trim_space (ts_Tags (cfg_Tailscale cfg)))
      in if temptags = [] then trim_quotes (trim_space (cl_tags c)) else temptags)"

definition auth_config :: "Config \<Rightarrow> tailscale_client \<Rightarrow> AuthConfig" where
  "auth_config cfg c = \<lparr>ac_ResolvedAuthKey = ts_ResolvedAuthKey (cfg_Tailscale cfg), ac_ProxyAuthKey = ts_AuthKey (cfg_Tailscale cfg), ac_ProviderAuthKey = cl_AuthKey c\<rparr>"

definition ResolveAuthKey :: "(string list \<Rightarrow> string + string option) \<Rightarrow> Config \<Rightarrow> tailscale_client \<Rightarrow> oauth_error + string" where
  "ResolveAuthKey create cfg c =
     (if cl_shared c \<or> cl_services c then
        (let authKey = ts_ResolvedAuthKey (cfg_Tailscale cfg);
             authKey = (if authKey = [] then ts_AuthKey (cfg_Tailscale cfg) else authKey)
         in Inr (if authKey = [] then cl_AuthKey c else authKey))
      else ResolveKey (Some (cl_apiFactory c)) create (auth_config cfg c) (resolveTags cfg c))"

definition buildLifecycleConfig :: "Config \<Rightarrow> node_config \<Rightarrow> tailscale_client \<Rightarrow> NodeLifecycleConfig" where
  "buildLifecycleConfig cfg nodeCfg c =
     \<lparr>lcfg_NodeConfig = nodeCfg, lcfg_AuthConfig = auth_config cfg c,
      lcfg_Retry = \<lparr>rp_MaxAttempts = (if cl_retryEnabled c then cl_maxAttempts c else 0), rp_InitialBackoff = cl_authRetryInit c, rp_MaxBackoff = cl_authRetryMax c\<rparr>,
      lcfg_DeviceReconciler = cl_preventDuplicates c\<rparr>"

datatype made_proxy = NodeProxy NodeLifecycleConfig | SharedDomainProxy string | NamedServiceProxy string

definition shared_node :: "string \<Rightarrow> string \<Rightarrow> Config \<Rightarrow> tailscale_client \<Rightarrow> NodeLifecycleConfig" where
  "shared_node mode dir cfg c =
     (let tags = resolveTags cfg c
      in buildLifecycleConfig cfg \<lparr>nc_Hostname = cl_sharedHostname c, nc_DataDir = dir, nc_ControlURL = getControlURL c, nc_Tags = tags,
           nc_Mode = mode, nc_Ephemeral = ts_Ephemeral (cfg_Tailscale cfg), nc_AdvertiseTags = cleanTags tags,
           nc_RunWebClient = False, nc_Verbose = False\<rparr> c)"

definition newSharedProxy :: "Config \<Rightarrow> tailscale_client \<Rightarrow> (provider_error + made_proxy) \<times> tailscale_client" where
  "newSharedProxy cfg c =
     (let made = (case cl_sharedServer c of
                    Some _ \<Rightarrow> Inr c
                  | None \<Rightarrow>
                      (case validateDatadir (cl_datadir c) (cl_sharedHostname c) of
                         None \<Rightarrow> Inl (InvalidDatadir (cl_sharedHostname c))
                       | Some dir \<Rightarrow> Inr (c\<lparr>cl_sharedServer := Some (shared_node ''shared'' dir cfg c)\<rparr>)))
      in case made of
           Inl e \<Rightarrow> (Inl e, c)
         | Inr c' \<Rightarrow> (if cfg_Domain cfg = [] then Inl SharedDomainRequired else Inr (SharedDomainProxy (cfg_Domain cfg)), c'))"

definition newServiceProxy :: "Config \<Rightarrow> tailscale_client \<Rightarrow> (provider_error + made_proxy) \<times> tailscale_client" where
  "newServiceProxy cfg c =
     (if cfg_Domain cfg \<noteq> [] then (Inl ServicesNoCustomDomain, c)
      else let made = (case cl_servicesServer c of
                         Some _ \<Rightarrow> Inr c
                       | None \<Rightarrow>
                           (case validateDatadir (cl_datadir c) (cl_sharedHostname c) of
                              None \<Rightarrow> Inl (InvalidDatadir (cl_sharedHostname c))
                            | Some dir \<Rightarrow> Inr (c\<lparr>cl_servicesServer := Some (shared_node ''services'' dir cfg c)\<rparr>)))
           in case made of
                Inl e \<Rightarrow> (Inl e, c)
              | Inr c' \<Rightarrow> (Inr (NamedServiceProxy (''svc:'' @ cfg_Hostname cfg)), c'))"

definition provider_NewProxy :: "Config \<Rightarrow> tailscale_client \<Rightarrow> (provider_error + made_proxy) \<times> tailscale_client" where
  "provider_NewProxy cfg c =
     (if cl_shared c then newSharedProxy cfg c
      else if cl_services c then newServiceProxy cfg c
      else case validateDatadir (cl_datadir c) (cfg_Hostname cfg) of
             None \<Rightarrow> (Inl (InvalidDatadir (cfg_Hostname cfg)), c)
           | Some datadir \<Rightarrow>
               (let t = cfg_Tailscale cfg;
                    nodeCfg = \<lparr>nc_Hostname = cfg_Hostname cfg, nc_DataDir = datadir, nc_ControlURL = getControlURL c, nc_Tags = resolveTags cfg c,
                               nc_Mode = [], nc_Ephemeral = ts_Ephemeral t, nc_AdvertiseTags = [], nc_RunWebClient = ts_RunWebClient t, nc_Verbose = ts_Verbose t\<rparr>
                in (Inr (NodeProxy (buildLifecycleConfig cfg nodeCfg c)), c)))"

section \<open>A node and its close\<close>

text \<open>
  \<^verbatim>\<open>NodeLifecycle\<close> while it lives: whether it has a runtime, whether the node is up, its events channel
  and its data directory. \<open>removeOK\<close> is whether the directory can be removed.
\<close>

record node_life =
  nf_runtime :: bool
  nf_up :: bool
  nf_eventsClosed :: bool
  nf_dir :: bool

definition life_start :: "bool \<Rightarrow> node_life \<Rightarrow> node_life" where
  "life_start ok nf = (if ok then nf\<lparr>nf_dir := True, nf_runtime := True, nf_up := True\<rparr> else nf\<lparr>nf_dir := True\<rparr>)"

definition NodeLifecycle_Close :: "bool \<Rightarrow> node_config \<Rightarrow> node_life \<Rightarrow> node_life" where
  "NodeLifecycle_Close removeOK cfg nf =
     (let nf1 = (if nf_runtime nf then nf\<lparr>nf_up := False\<rparr> else nf);
          nf2 = (if nc_Ephemeral cfg \<and> nc_DataDir cfg \<noteq> [] \<and> removeOK then nf1\<lparr>nf_dir := False\<rparr> else nf1)
      in nf2\<lparr>nf_eventsClosed := True\<rparr>)"

section \<open>The proxy of the per-proxy mode\<close>

record bridge =
  br_status :: ProxyStatus
  br_url :: string
  br_authURL :: string

datatype bridge_out = Forward ProxyEvent | PrefetchCert

definition hasHTTPSPort :: "PortConfigList \<Rightarrow> bool" where
  "hasHTTPSPort ports = list_ex (\<lambda>(_, port). pc_ProxyProtocol port = ProtoHTTPS) ports"

text \<open>One turn of \<^verbatim>\<open>bridgeEvents\<close>; \<open>room\<close> says whether the event channel takes the event.\<close>

definition bridge_event :: "PortConfigList \<Rightarrow> NodeEvent \<times> bool \<Rightarrow> bridge \<Rightarrow> bridge \<times> bridge_out list" where
  "bridge_event ports er p =
     (let (evt, room) = er
      in if br_status p = ne_Status evt \<and> br_url p = ne_URL evt \<and> br_authURL p = ne_AuthURL evt then (p, [])
         else let prevStatus = br_status p;
                  p1 = p\<lparr>br_status := ne_Status evt\<rparr>;
                  p2 = (if ne_URL evt \<noteq> [] then p1\<lparr>br_url := ne_URL evt\<rparr> else p1);
                  p3 = (if ne_AuthURL evt \<noteq> [] then p2\<lparr>br_authURL := ne_AuthURL evt\<rparr> else p2)
              in (p3, (if ne_Status evt = ProxyStatusRunning \<and> prevStatus \<noteq> ProxyStatusRunning \<and> hasHTTPSPort ports then [PrefetchCert] else []) @
                      (if room then [Forward \<lparr>ev_ID = [], ev_Port = [], ev_AuthURL = ne_AuthURL evt, ev_ErrorMessage = ne_ErrorMessage evt,
                                              ev_Status = ne_Status evt, ev_OldStatus = ProxyStatusInitializing\<rparr>] else [])))"

fun bridgeEvents :: "PortConfigList \<Rightarrow> (NodeEvent \<times> bool) list \<Rightarrow> bridge \<Rightarrow> bridge \<times> bridge_out list" where
  "bridgeEvents ports [] p = (p, [])"
| "bridgeEvents ports (e # es) p =
     (let (p1, out1) = bridge_event ports e p; (p2, out2) = bridgeEvents ports es p1 in (p2, out1 @ out2))"

definition Proxy_GetURL :: "PortConfigList \<Rightarrow> bridge \<Rightarrow> string" where
  "Proxy_GetURL ports p = (if br_url p = [] then [] else primaryScheme ports @ ''://'' @ br_url p)"

record ts_proxy =
  tx_cfg :: node_config
  tx_ports :: PortConfigList
  tx_life :: node_life
  tx_exposure :: PerProxyExposure
  tx_bridge :: bridge
  tx_bridging :: bool
  tx_eventsClosed :: bool
  tx_started :: bool

text \<open>
  \<^verbatim>\<open>Start\<close>: \<open>nodeOK\<close> is whether the node starts. The bridge runs until the lifecycle closes its
  events, so closing the lifecycle ends it.
\<close>

datatype proxy_start_error = NodeStartError | ExposureStartError exposure_error

definition Proxy_Start :: "bool \<Rightarrow> bool \<Rightarrow> (string \<Rightarrow> listen_env) \<Rightarrow> ts_proxy \<Rightarrow> handles \<Rightarrow> proxy_start_error option \<times> ts_proxy \<times> handles" where
  "Proxy_Start nodeOK removeOK env p h =
     (let p1 = p\<lparr>tx_life := life_start nodeOK (tx_life p)\<rparr>
      in if \<not> nodeOK then (Some NodeStartError, p1, h)
         else case PerProxy_Start env (tx_ports p1) (tx_exposure p1) h of
                (Some e, x, h') \<Rightarrow>
                  (Some (ExposureStartError e), p1\<lparr>tx_exposure := x, tx_life := NodeLifecycle_Close removeOK (tx_cfg p1) (tx_life p1)\<rparr>, h')
              | (None, x, h') \<Rightarrow> (None, p1\<lparr>tx_exposure := x, tx_bridging := True, tx_started := True\<rparr>, h'))"

definition Proxy_Close :: "bool \<Rightarrow> ts_proxy \<Rightarrow> handles \<Rightarrow> ts_proxy \<times> handles" where
  "Proxy_Close removeOK p h =
     (if \<not> tx_started p then (p\<lparr>tx_eventsClosed := True\<rparr>, h)
      else case PerProxy_Close (tx_exposure p) h of
             (x, h') \<Rightarrow>
               (p\<lparr>tx_exposure := x, tx_life := NodeLifecycle_Close removeOK (tx_cfg p) (tx_life p), tx_bridging := False,
                  tx_started := False, tx_eventsClosed := True\<rparr>, h'))"

definition Proxy_GetListener :: "string \<Rightarrow> ts_proxy \<Rightarrow> exposure_error + nat" where
  "Proxy_GetListener port p = (if gm_get (tx_ports p) port = None then Inl (ProxyPortNotFound port) else PerProxy_GetListener port (tx_exposure p))"

definition Proxy_GetRawTCPListener :: "string \<Rightarrow> ts_proxy \<Rightarrow> exposure_error + nat" where
  "Proxy_GetRawTCPListener port p = (if gm_get (tx_ports p) port = None then Inl (ProxyPortNotFound port) else PerProxy_GetRawTCPListener port (tx_exposure p))"

definition Proxy_GetPacketConn :: "string \<Rightarrow> ts_proxy \<Rightarrow> exposure_error + nat" where
  "Proxy_GetPacketConn port p = (if gm_get (tx_ports p) port = None then Inl (ProxyPortNotFound port) else PerProxy_GetPacketConn port (tx_exposure p))"

section \<open>The exposure of the services mode\<close>

text \<open>
  The calls to the services server are recorded in their order, an acquire with its success;
  \<open>answer\<close> is what the server says to it (\<open>None\<close>, or the listener and its name).
\<close>

datatype services_call = AcquireService string nat bool bool bool | ReleaseService string nat

record ServicesVIPExposure =
  sv_listeners :: "(string, nat \<times> string) gomap option"
  sv_cfg :: "PortConfigList option"
  sv_serviceName :: string
  sv_started :: bool

datatype vip_error = VIPCanceled | VIPUnsupported string | VIPAcquire

definition uint16_of :: "int \<Rightarrow> nat" where
  "uint16_of n = nat (n mod 65536)"

definition sv_get :: "ServicesVIPExposure \<Rightarrow> string \<Rightarrow> (nat \<times> string) option" where
  "sv_get e name = (case sv_listeners e of None \<Rightarrow> None | Some m \<Rightarrow> gm_get m name)"

definition VIP_rollback :: "ServicesVIPExposure \<Rightarrow> ServicesVIPExposure \<times> services_call list" where
  "VIP_rollback e =
     (case sv_cfg e of
        None \<Rightarrow> (e, [])
      | Some ports \<Rightarrow>
          (e\<lparr>sv_listeners := None, sv_cfg := None\<rparr>,
           map (\<lambda>(_, port). ReleaseService (sv_serviceName e) (uint16_of (pc_ProxyPort port))) (filter (\<lambda>(name, _). sv_get e name \<noteq> None) ports)))"

definition vip_flags :: "string \<Rightarrow> (bool \<times> bool) option" where
  "vip_flags proto =
     (if proto = ProtoHTTPS then Some (True, False) else if proto = ProtoHTTP then Some (False, False)
      else if proto = ProtoTCP then Some (False, True) else None)"

fun VIP_ports :: "(string \<Rightarrow> bool) \<Rightarrow> (string \<Rightarrow> (nat \<times> string) option) \<Rightarrow> PortConfigList \<Rightarrow> ServicesVIPExposure \<Rightarrow> vip_error option \<times> ServicesVIPExposure \<times> services_call list" where
  "VIP_ports canceled answer [] e = (None, e, [])"
| "VIP_ports canceled answer ((name, port) # ps) e =
     (if canceled name then (case VIP_rollback e of (e', calls) \<Rightarrow> (Some VIPCanceled, e', calls))
      else case vip_flags (pc_ProxyProtocol port) of
             None \<Rightarrow> (case VIP_rollback e of (e', calls) \<Rightarrow> (Some (VIPUnsupported (pc_ProxyProtocol port)), e', calls))
           | Some (tls, tcp) \<Rightarrow>
               (let call = AcquireService (sv_serviceName e) (uint16_of (pc_ProxyPort port)) tls tcp (answer name \<noteq> None)
                in case answer name of
                     None \<Rightarrow> (case VIP_rollback e of (e', calls) \<Rightarrow> (Some VIPAcquire, e', call # calls))
                   | Some l \<Rightarrow>
                       (case VIP_ports canceled answer ps (e\<lparr>sv_listeners := map_option (gm_put name l) (sv_listeners e)\<rparr>) of
                          (r, e', calls) \<Rightarrow> (r, e', call # calls))))"

definition VIP_Start :: "(string \<Rightarrow> bool) \<Rightarrow> (string \<Rightarrow> (nat \<times> string) option) \<Rightarrow> PortConfigList \<Rightarrow> PortConfigList \<Rightarrow> ServicesVIPExposure \<Rightarrow> vip_error option \<times> ServicesVIPExposure \<times> services_call list" where
  "VIP_Start canceled answer order ports e =
     (if sv_started e then (None, e, [])
      else case VIP_ports canceled answer order (e\<lparr>sv_cfg := Some ports, sv_listeners := Some []\<rparr>) of
             (Some err, e', calls) \<Rightarrow> (Some err, e', calls)
           | (None, e', calls) \<Rightarrow> (None, e'\<lparr>sv_started := True\<rparr>, calls))"

definition VIP_Close :: "ServicesVIPExposure \<Rightarrow> ServicesVIPExposure \<times> services_call list" where
  "VIP_Close e =
     (if \<not> sv_started e then (e, [])
      else case VIP_rollback e of (e', calls) \<Rightarrow> (e'\<lparr>sv_cfg := None, sv_started := False\<rparr>, calls))"

definition VIP_GetListener :: "string \<Rightarrow> ServicesVIPExposure \<Rightarrow> exposure_error + (nat \<times> string)" where
  "VIP_GetListener name e = exposureLookup (sv_started e) (case sv_listeners e of None \<Rightarrow> [] | Some m \<Rightarrow> m) name"

definition firstFQDN :: "ServicesVIPExposure \<Rightarrow> string" where
  "firstFQDN e = (case sv_listeners e of Some (l # _) \<Rightarrow> snd (snd l) | _ \<Rightarrow> [])"

section \<open>The proxy of the services mode\<close>

definition ServiceProxy_GetListener :: "PortConfigList \<Rightarrow> string \<Rightarrow> ServicesVIPExposure \<Rightarrow> exposure_error + (nat \<times> string)" where
  "ServiceProxy_GetListener ports port e = (if gm_get ports port = None then Inl (ProxyPortNotFound port) else VIP_GetListener port e)"

definition ServiceProxy_GetURL :: "PortConfigList \<Rightarrow> string \<Rightarrow> string" where
  "ServiceProxy_GetURL ports fqdn = (if fqdn = [] then [] else primaryScheme ports @ ''://'' @ fqdn)"

text \<open>
  \<^verbatim>\<open>Start\<close> and \<^verbatim>\<open>Close\<close> of a service proxy, called by different goroutines. Start checks \<^verbatim>\<open>started\<close>, runs
  the start of the exposure without the lock of the proxy, and finishes under it; Close closes the
  exposure, which waits for a start of the exposure that is under way, then the stop channel and
  the channel of the proxy. The forwarder subscribes and passes events on until it is stopped.
\<close>

datatype start_pc = StartIdle | StartExposing | StartExposed | StartDone

record ServiceProxy =
  vp_started :: bool
  vp_exposed :: bool
  vp_start :: start_pc
  vp_stopCh :: "unit option"
  vp_stopClosed :: bool
  vp_forwarder :: forwarder
  vp_subOpen :: bool
  vp_close :: closer
  vp_awaits :: bool
  vp_eventsClosed :: bool
  vp_panicked :: bool
  vp_early :: bool

definition svc_start_check :: "ServiceProxy \<Rightarrow> ServiceProxy" where
  "svc_start_check p = (if vp_started p then p\<lparr>vp_start := StartDone\<rparr> else p\<lparr>vp_start := StartExposing\<rparr>)"

definition svc_start_expose :: "bool \<Rightarrow> ServiceProxy \<Rightarrow> ServiceProxy" where
  "svc_start_expose ok p = (if ok then p\<lparr>vp_exposed := True, vp_start := StartExposed\<rparr> else p\<lparr>vp_start := StartDone\<rparr>)"

definition svc_start_finish :: "ServiceProxy \<Rightarrow> ServiceProxy" where
  "svc_start_finish p =
     (if vp_started p then p\<lparr>vp_start := StartDone\<rparr>
      else p\<lparr>vp_started := True, vp_stopCh := Some (), vp_forwarder := FwSubscribe, vp_start := StartDone\<rparr>)"

text \<open>
  \<open>vp_awaits\<close>: Close found a forwarder to wait for. \<open>vp_early\<close>, which the code does not have,
  records that Close came before Start was through.
\<close>

definition svc_close_begin :: "ServiceProxy \<Rightarrow> ServiceProxy" where
  "svc_close_begin p =
     (let p1 = p\<lparr>vp_exposed := False, vp_close := CloseWaiting, vp_awaits := vp_forwarder p \<noteq> FwNone, vp_early := vp_early p \<or> vp_start p \<noteq> StartDone\<rparr>
      in case vp_stopCh p of None \<Rightarrow> p1 | Some _ \<Rightarrow> p1\<lparr>vp_stopClosed := True, vp_stopCh := None\<rparr>)"

definition svc_close_finish :: "ServiceProxy \<Rightarrow> ServiceProxy" where
  "svc_close_finish p = p\<lparr>vp_close := CloseReturned, vp_eventsClosed := True\<rparr>"

definition svc_forward :: "ServiceProxy \<Rightarrow> ServiceProxy" where
  "svc_forward p = (if vp_eventsClosed p then p\<lparr>vp_panicked := True\<rparr> else p\<lparr>vp_forwarder := FwLoop\<rparr>)"

inductive service_proxy_step :: "ServiceProxy \<Rightarrow> ServiceProxy \<Rightarrow> bool" where
  VpCheck: "vp_start p = StartIdle \<Longrightarrow> service_proxy_step p (svc_start_check p)"
| VpExpose: "vp_start p = StartExposing \<Longrightarrow> service_proxy_step p (svc_start_expose ok p)"
| VpFinish: "vp_start p = StartExposed \<Longrightarrow> service_proxy_step p (svc_start_finish p)"
| VpSubscribed: "vp_forwarder p = FwSubscribe \<Longrightarrow> service_proxy_step p (p\<lparr>vp_forwarder := FwLoop, vp_subOpen := True\<rparr>)"
| VpNoServer: "vp_forwarder p = FwSubscribe \<Longrightarrow> service_proxy_step p (p\<lparr>vp_forwarder := FwReturned\<rparr>)"
| VpSelect: "vp_forwarder p = FwLoop \<Longrightarrow> service_proxy_step p (p\<lparr>vp_forwarder := FwSelect (vp_stopCh p)\<rparr>)"
| VpEvent: "vp_forwarder p = FwSelect c \<Longrightarrow> vp_subOpen p \<Longrightarrow> service_proxy_step p (svc_forward p)"
| VpServerClosed: "vp_forwarder p = FwSelect c \<Longrightarrow> \<not> vp_subOpen p \<Longrightarrow> service_proxy_step p (p\<lparr>vp_forwarder := FwReturned\<rparr>)"
| VpStopped: "vp_forwarder p = FwSelect (Some ()) \<Longrightarrow> vp_stopClosed p \<Longrightarrow> service_proxy_step p (p\<lparr>vp_forwarder := FwReturned\<rparr>)"
| VpServerStops: "vp_subOpen p \<Longrightarrow> service_proxy_step p (p\<lparr>vp_subOpen := False\<rparr>)"
| VpClose: "vp_close p = CloseNotCalled \<Longrightarrow> vp_start p \<noteq> StartExposing \<Longrightarrow> service_proxy_step p (svc_close_begin p)"
| VpCloseReturns: "vp_close p = CloseWaiting \<Longrightarrow> \<not> vp_awaits p \<or> vp_forwarder p = FwReturned \<Longrightarrow> service_proxy_step p (svc_close_finish p)"

definition service_proxy_start :: ServiceProxy where
  "service_proxy_start = \<lparr>vp_started = False, vp_exposed = False, vp_start = StartIdle, vp_stopCh = None, vp_stopClosed = False, vp_forwarder = FwNone,
     vp_subOpen = False, vp_close = CloseNotCalled, vp_awaits = False, vp_eventsClosed = False, vp_panicked = False, vp_early = False\<rparr>"

abbreviation service_proxy_init :: "ServiceProxy \<Rightarrow> bool" where
  "service_proxy_init p \<equiv> p = service_proxy_start"

section \<open>Lemmas\<close>

lemma inside_drop: "path_inside base (nc_DataDir (lcfg_NodeConfig (shared_node mode dir cfg c))) = path_inside base dir"
  by (simp add: shared_node_def buildLifecycleConfig_def Let_def)

definition acquired_services :: "services_call list \<Rightarrow> (string \<times> nat) list" where
  "acquired_services calls = List.map_filter (\<lambda>x. case x of AcquireService s p _ _ ok \<Rightarrow> if ok then Some (s, p) else None | ReleaseService _ _ \<Rightarrow> None) calls"

definition released_services :: "services_call list \<Rightarrow> (string \<times> nat) list" where
  "released_services calls = List.map_filter (\<lambda>x. case x of ReleaseService s p \<Rightarrow> Some (s, p) | AcquireService _ _ _ _ _ \<Rightarrow> None) calls"

lemma calls_simps [simp]:
  "acquired_services [] = []" "released_services [] = []"
  "acquired_services (AcquireService s p t c ok # xs) = (if ok then [(s, p)] else []) @ acquired_services xs"
  "released_services (AcquireService s p t c ok # xs) = released_services xs"
  "acquired_services (ReleaseService s p # xs) = acquired_services xs"
  "released_services (ReleaseService s p # xs) = (s, p) # released_services xs"
  by (simp_all add: acquired_services_def released_services_def List.map_filter_simps)

definition service_ports :: "string \<Rightarrow> PortConfigList \<Rightarrow> (string \<times> nat) list" where
  "service_ports s ports = map (\<lambda>(_, port). (s, uint16_of (pc_ProxyPort port))) ports"

lemma releases_only:
  "acquired_services (map (\<lambda>(_, port). ReleaseService s (uint16_of (pc_ProxyPort port))) ps) = [] \<and>
   released_services (map (\<lambda>(_, port). ReleaseService s (uint16_of (pc_ProxyPort port))) ps) = service_ports s ps"
  by (induction ps) (auto simp: service_ports_def)

text \<open>The rollback releases exactly the ports that have a listener.\<close>

lemma VIP_rollback_done:
  assumes "sv_cfg e = Some ports" "mset ports = mset (dn @ rest)" "distinct (keys (dn @ rest))" "\<forall>n. sv_get e n \<noteq> None \<longleftrightarrow> n \<in> set (keys dn)"
  shows "acquired_services (snd (VIP_rollback e)) = [] \<and>
    mset (released_services (snd (VIP_rollback e))) = mset (service_ports (sv_serviceName e) dn) \<and> sv_listeners (fst (VIP_rollback e)) = None \<and>
    sv_started (fst (VIP_rollback e)) = sv_started e"
proof -
  have P: "(\<lambda>(name, _). sv_get e name \<noteq> None) = (\<lambda>x. fst x \<in> set (keys dn))" using assms(4) by (auto simp: fun_eq_iff)
  have "filter (\<lambda>x. fst x \<in> set (keys dn)) dn = dn" by (rule filter_True) auto
  moreover have "filter (\<lambda>x. fst x \<in> set (keys dn)) rest = []" using assms(3) by (intro filter_False) auto
  ultimately have "mset (filter (\<lambda>x. fst x \<in> set (keys dn)) ports) = mset dn"
    using assms(2) by (metis filter_append mset_filter self_append_conv)
  then have "mset (service_ports s (filter (\<lambda>x. fst x \<in> set (keys dn)) ports)) = mset (service_ports s dn)" for s
    by (simp add: service_ports_def)
  with assms(1) show ?thesis unfolding VIP_rollback_def P by (simp add: releases_only)
qed

lemma VIP_ports_outcome:
  assumes "sv_cfg e = Some ports" "sv_listeners e \<noteq> None" "mset ports = mset (dn @ order)" "distinct (keys (dn @ order))"
    "\<forall>n. sv_get e n \<noteq> None \<longleftrightarrow> n \<in> set (keys dn)" "VIP_ports canceled answer order e = (r, e', calls)"
  shows "sv_started e' = sv_started e \<and>
    (if r = None
     then sv_cfg e' = Some ports \<and> sv_serviceName e' = sv_serviceName e \<and> released_services calls = [] \<and>
       acquired_services calls = service_ports (sv_serviceName e) order \<and> (\<forall>n. sv_get e' n \<noteq> None \<longleftrightarrow> n \<in> set (keys (dn @ order)))
     else sv_listeners e' = None \<and> mset (released_services calls) = mset (service_ports (sv_serviceName e) dn) + mset (acquired_services calls))"
  using assms
proof (induction order arbitrary: e dn calls)
  case Nil
  then show ?case by (auto simp: service_ports_def)
next
  case (Cons p ps)
  obtain name port where p: "p = (name, port)" by force
  note rb = VIP_rollback_done [OF Cons.prems(1,3,4,5)]
  consider "canceled name \<or> vip_flags (pc_ProxyProtocol port) = None" | tls tcp where "\<not> canceled name" "vip_flags (pc_ProxyProtocol port) = Some (tls, tcp)"
    by fastforce
  then show ?case
  proof cases
    case 1
    then have "r \<noteq> None \<and> VIP_rollback e = (e', calls)"
      using Cons.prems(6) p by (auto split: prod.splits if_splits)
    with rb show ?thesis by auto
  next
    case 2
    show ?thesis
    proof (cases "answer name")
      case None
      with 2 have "r \<noteq> None \<and> (\<exists>calls'. VIP_rollback e = (e', calls') \<and> calls = AcquireService (sv_serviceName e) (uint16_of (pc_ProxyPort port)) tls tcp False # calls')"
        using Cons.prems(6) p by (auto split: prod.splits)
      with rb show ?thesis by auto
    next
      case (Some l)
      let ?e = "e\<lparr>sv_listeners := map_option (gm_put name l) (sv_listeners e)\<rparr>"
      obtain calls' where rec: "VIP_ports canceled answer ps ?e = (r, e', calls')"
        and calls: "calls = AcquireService (sv_serviceName e) (uint16_of (pc_ProxyPort port)) tls tcp True # calls'"
        using Cons.prems(6) p 2 Some by (auto split: prod.splits)
      have get: "sv_get ?e n = (if n = name then Some l else sv_get e n)" for n
        using Cons.prems(2) by (auto simp: sv_get_def)
      have "\<forall>n. sv_get ?e n \<noteq> None \<longleftrightarrow> n \<in> set (keys (dn @ [p]))"
        using Cons.prems(5) get p by auto
      moreover have "sv_cfg ?e = Some ports" "sv_listeners ?e \<noteq> None" "mset ports = mset ((dn @ [p]) @ ps)" "distinct (keys ((dn @ [p]) @ ps))"
        using Cons.prems(1-4) by simp_all
      ultimately show ?thesis using Cons.IH [OF _ _ _ _ _ rec, of "dn @ [p]"] unfolding calls
        by (cases r) (simp_all add: p service_ports_def)
    qed
  qed
qed

lemma fold_tags:
  "fold add_tag_owner tags (acl, b) = (acl', b') \<Longrightarrow>
   acl_NodeAttrs acl' = acl_NodeAttrs acl \<and> acl_ETag acl' = acl_ETag acl \<and>
   (\<forall>t. gm_get (acl_TagOwners acl') t = (case gm_get (acl_TagOwners acl) t of Some os \<Rightarrow> Some os | None \<Rightarrow> if t \<in> set tags then Some [''autogroup:admin''] else None)) \<and>
   (\<not> b' \<longrightarrow> \<not> b \<and> acl' = acl)"
proof (induction tags arbitrary: acl b)
  case (Cons tag tags)
  obtain a1 b1 where one: "add_tag_owner tag (acl, b) = (a1, b1)" by force
  with Cons.prems have "fold add_tag_owner tags (a1, b1) = (acl', b')" by simp
  from Cons.IH [OF this] one show ?case
    by (auto simp: add_tag_owner_def Let_def split: if_splits option.splits)
qed (auto split: option.split)

text \<open>What the policy service promises: a conditional write happens only on the version it names; a version names one content.\<close>

definition policy_service :: "'w policy_api \<Rightarrow> bool" where
  "policy_service api \<longleftrightarrow>
     (\<forall>a e w w'. pa_Set api a e w = (True, w') \<longrightarrow>
        (\<exists>a0. pa_Get api w = Some a0 \<and> acl_ETag a0 = e) \<and> (\<exists>e'. pa_Get api w' = Some (a\<lparr>acl_ETag := e'\<rparr>))) \<and>
     (\<forall>w a a'. pa_Get api w = Some a \<longrightarrow> pa_Get api (pa_others api w) = Some a' \<longrightarrow> acl_ETag a' = acl_ETag a \<longrightarrow> a' = a)"

lemma applyACL_written:
  assumes "policy_service api" "applyACL api a (pa_others api w) = (None, w')" "pa_Get api w = Some a0" "acl_ETag a = acl_ETag a0"
  shows "pa_Get api (pa_others api w) = Some a0 \<and> (\<exists>e. pa_Get api w' = Some (a\<lparr>acl_ETag := e\<rparr>))"
proof -
  from assms(2) have "pa_Set api a (acl_ETag a0) (pa_others api w) = (True, w')"
    using assms(4) by (auto simp: applyACL_def Let_def split: if_splits prod.splits)
  with assms(1) obtain a1 e where "pa_Get api (pa_others api w) = Some a1" "acl_ETag a1 = acl_ETag a0" "pa_Get api w' = Some (a\<lparr>acl_ETag := e\<rparr>)"
    unfolding policy_service_def by blast
  moreover from this assms(1,3) have "a1 = a0" unfolding policy_service_def by metis
  ultimately show ?thesis by blast
qed

definition service_proxy_inv :: "ServiceProxy \<Rightarrow> bool" where
  "service_proxy_inv p \<longleftrightarrow>
     vp_early p \<or> ((vp_forwarder p = FwNone \<longleftrightarrow> \<not> vp_started p) \<and> \<not> vp_panicked p \<and>
       (vp_close p \<noteq> CloseNotCalled \<longrightarrow> vp_start p = StartDone \<and> (vp_awaits p \<longleftrightarrow> vp_forwarder p \<noteq> FwNone)) \<and>
       (vp_eventsClosed p \<longrightarrow> vp_forwarder p \<in> {FwNone, FwReturned}) \<and>
       (vp_eventsClosed p \<longleftrightarrow> vp_close p = CloseReturned))"

interpretation service_proxy: invariant_system service_proxy_init service_proxy_step service_proxy_inv
proof
  show "service_proxy_inv p'" if "service_proxy_inv p" "service_proxy_step p p'" for p p'
    using that(2,1)
    by cases (auto simp: service_proxy_inv_def svc_start_check_def svc_start_expose_def svc_start_finish_def svc_close_begin_def
        svc_close_finish_def svc_forward_def Let_def split: option.splits)
qed (simp add: service_proxy_inv_def service_proxy_start_def)

text \<open>The certificate is fetched once for each change into \<^verbatim>\<open>Running\<close>.\<close>

fun running_starts :: "ProxyStatus \<Rightarrow> ProxyStatus list \<Rightarrow> nat" where
  "running_starts prev [] = 0"
| "running_starts prev (s # ss) = (if s = ProxyStatusRunning \<and> prev \<noteq> ProxyStatusRunning then 1 else 0) + running_starts s ss"

definition forwarded :: "bridge_out list \<Rightarrow> ProxyEvent list" where
  "forwarded out = List.map_filter (\<lambda>x. case x of Forward ev \<Rightarrow> Some ev | PrefetchCert \<Rightarrow> None) out"

definition prefetches :: "bridge_out list \<Rightarrow> nat" where
  "prefetches out = length (filter (\<lambda>x. x = PrefetchCert) out)"

lemma out_simps [simp]:
  "forwarded [] = []" "forwarded (Forward ev # xs) = ev # forwarded xs" "forwarded (PrefetchCert # xs) = forwarded xs"
  "prefetches [] = 0" "prefetches (Forward ev # xs) = prefetches xs" "prefetches (PrefetchCert # xs) = Suc (prefetches xs)"
  by (simp_all add: forwarded_def prefetches_def List.map_filter_simps)

lemma remdups_adj_cons_cong: "remdups_adj (y # xs) = remdups_adj (y # ys) \<Longrightarrow> remdups_adj (x # y # xs) = remdups_adj (x # y # ys)"
  by simp

lemma bridge_event_room:
  obtains "bridge_event ports (e, True) p = (p, [])" "br_status p = ne_Status e" "br_url p = ne_URL e"
  | ev where "bridge_event ports (e, True) p =
        (p\<lparr>br_status := ne_Status e, br_url := (if ne_URL e \<noteq> [] then ne_URL e else br_url p),
           br_authURL := (if ne_AuthURL e \<noteq> [] then ne_AuthURL e else br_authURL p)\<rparr>,
         (if ne_Status e = ProxyStatusRunning \<and> br_status p \<noteq> ProxyStatusRunning \<and> hasHTTPSPort ports then [PrefetchCert] else []) @ [Forward ev])"
      "ev_Status ev = ne_Status e"
proof (cases "br_status p = ne_Status e \<and> br_url p = ne_URL e \<and> br_authURL p = ne_AuthURL e")
  case True
  then show ?thesis by (intro that(1)) (simp_all add: bridge_event_def)
next
  case False
  then show ?thesis by (intro that(2)) (auto simp: bridge_event_def Let_def)
qed

lemma bridgeEvents_room:
  "bridgeEvents ports (map (\<lambda>e. (e, True)) es) p = (p', out) \<Longrightarrow>
   br_status p' = last (br_status p # map ne_Status es) \<and>
   br_url p' = fold (\<lambda>e u. if ne_URL e \<noteq> [] then ne_URL e else u) es (br_url p) \<and>
   prefetches out = (if hasHTTPSPort ports then running_starts (br_status p) (map ne_Status es) else 0) \<and>
   remdups_adj (br_status p # map ev_Status (forwarded out)) = remdups_adj (br_status p # map ne_Status es)"
proof (induction es arbitrary: p out)
  case (Cons e es)
  obtain p1 out1 where one: "bridge_event ports (e, True) p = (p1, out1)" by force
  with Cons.prems obtain out2 where two: "bridgeEvents ports (map (\<lambda>e. (e, True)) es) p1 = (p', out2)" and out: "out = out1 @ out2"
    by (auto split: prod.splits)
  note ih = Cons.IH [OF two]
  show ?case
  proof (rule bridge_event_room [of ports e p])
    assume "bridge_event ports (e, True) p = (p, [])" "br_status p = ne_Status e" "br_url p = ne_URL e"
    with one ih out show ?thesis by auto
  next
    fix ev
    assume "bridge_event ports (e, True) p =
        (p\<lparr>br_status := ne_Status e, br_url := (if ne_URL e \<noteq> [] then ne_URL e else br_url p),
           br_authURL := (if ne_AuthURL e \<noteq> [] then ne_AuthURL e else br_authURL p)\<rparr>,
         (if ne_Status e = ProxyStatusRunning \<and> br_status p \<noteq> ProxyStatusRunning \<and> hasHTTPSPort ports then [PrefetchCert] else []) @ [Forward ev])"
      "ev_Status ev = ne_Status e"
    with one ih out show ?thesis by (auto intro: remdups_adj_cons_cong)
  qed
qed simp

section \<open>Properties\<close>

text \<open>The data directories of the node that was made and of the shared nodes of the client.\<close>

definition node_dirs :: "(provider_error + made_proxy) \<Rightarrow> tailscale_client \<Rightarrow> string list" where
  "node_dirs r c =
     (case r of Inr (NodeProxy n) \<Rightarrow> [nc_DataDir (lcfg_NodeConfig n)] | _ \<Rightarrow> []) @
     map (\<lambda>n. nc_DataDir (lcfg_NodeConfig n)) (List.map_filter (\<lambda>x. x) [cl_sharedServer c, cl_servicesServer c])"

definition shared_dirs :: "tailscale_client \<Rightarrow> string list" where
  "shared_dirs c = map (\<lambda>n. nc_DataDir (lcfg_NodeConfig n)) (List.map_filter (\<lambda>x. x) [cl_sharedServer c, cl_servicesServer c])"

lemma node_dirs_Inl: "node_dirs (Inl e) c = shared_dirs c"
  by (simp add: node_dirs_def shared_dirs_def)

lemma node_dirs_Node: "node_dirs (Inr (NodeProxy n)) c = nc_DataDir (lcfg_NodeConfig n) # shared_dirs c"
  by (simp add: node_dirs_def shared_dirs_def)

lemma node_dirs_other: "(\<And>n. m \<noteq> NodeProxy n) \<Longrightarrow> node_dirs (Inr m) c = shared_dirs c"
  by (auto simp: node_dirs_def shared_dirs_def split: made_proxy.split)

lemma shared_dirs_add:
  "list_all (path_inside b) (shared_dirs c) \<Longrightarrow> path_inside b dir \<Longrightarrow>
   list_all (path_inside b) (shared_dirs (c\<lparr>cl_sharedServer := Some (shared_node mode dir cfg c0)\<rparr>)) \<and>
   list_all (path_inside b) (shared_dirs (c\<lparr>cl_servicesServer := Some (shared_node mode dir cfg c0)\<rparr>))"
  by (cases "cl_sharedServer c"; cases "cl_servicesServer c") (simp_all add: shared_dirs_def List.map_filter_simps inside_drop)

lemma newSharedProxy_dirs:
  "(r, c') = newSharedProxy cfg c \<Longrightarrow> list_all (path_inside (cl_datadir c)) (node_dirs (Inl e) c) \<Longrightarrow>
   cl_datadir c' = cl_datadir c \<and> list_all (path_inside (cl_datadir c)) (node_dirs r c')"
  by (cases "cl_sharedServer c"; cases "validateDatadir (cl_datadir c) (cl_sharedHostname c)")
    (auto simp: newSharedProxy_def node_dirs_Inl node_dirs_other shared_dirs_add dest: validateDatadir_inside)

lemma newServiceProxy_dirs:
  "(r, c') = newServiceProxy cfg c \<Longrightarrow> list_all (path_inside (cl_datadir c)) (node_dirs (Inl e) c) \<Longrightarrow>
   cl_datadir c' = cl_datadir c \<and> list_all (path_inside (cl_datadir c)) (node_dirs r c')"
  by (cases "cfg_Domain cfg = []"; cases "cl_servicesServer c"; cases "validateDatadir (cl_datadir c) (cl_sharedHostname c)")
    (auto simp: newServiceProxy_def node_dirs_Inl node_dirs_other shared_dirs_add dest: validateDatadir_inside)

text \<open>
  Whatever the host name of a proxy is, the data directories of the nodes of a provider stay
  inside the directory of the provider.
\<close>

theorem NewProxy_datadir:
  assumes "provider_NewProxy cfg c = (r, c')" "list_all (path_inside (cl_datadir c)) (node_dirs (Inl SharedDomainRequired) c)"
  shows "cl_datadir c' = cl_datadir c \<and> list_all (path_inside (cl_datadir c)) (node_dirs r c')"
proof (cases "cl_shared c \<or> cl_services c")
  case True
  then have "(r, c') = newSharedProxy cfg c \<or> (r, c') = newServiceProxy cfg c"
    using assms(1) by (auto simp: provider_NewProxy_def split: if_splits)
  then show ?thesis using newSharedProxy_dirs newServiceProxy_dirs assms(2) by metis
next
  case False
  then show ?thesis
    using assms by (auto simp: provider_NewProxy_def Let_def node_dirs_Inl node_dirs_Node buildLifecycleConfig_def dest: validateDatadir_inside split: option.splits)
qed

text \<open>
  Provisioning tags in the access policy loses nothing: when it succeeds, every tag has an owner, a tag that
  had owners keeps them, so do all other tags and the node attributes, and nobody changed the policy
  between the read and the write.
\<close>

theorem EnsureTags_keeps_policy:
  assumes "policy_service api" "EnsureTags api tags w = (None, w')"
  shows "\<exists>a a'. pa_Get api w = Some a \<and> pa_Get api w' = Some a' \<and> acl_NodeAttrs a' = acl_NodeAttrs a \<and>
    (\<forall>t. gm_get (acl_TagOwners a') t =
       (case gm_get (acl_TagOwners a) t of Some os \<Rightarrow> Some os | None \<Rightarrow> if t \<in> set tags then Some [''autogroup:admin''] else None)) \<and>
    (w' = w \<or> pa_Get api (pa_others api w) = Some a)"
proof -
  from assms(2) obtain a where a: "pa_Get api w = Some a" by (cases "pa_Get api w") (simp_all add: EnsureTags_def)
  obtain a1 b where f: "fold add_tag_owner tags (a, False) = (a1, b)" by force
  note ft = fold_tags [OF f]
  show ?thesis
  proof (cases b)
    case False
    with assms(2) a f have "w' = w" by (simp add: EnsureTags_def)
    with ft False a show ?thesis by metis
  next
    case True
    with assms(2) a f have "applyACL api a1 (pa_others api w) = (None, w')" by (simp add: EnsureTags_def)
    from applyACL_written [OF assms(1) this a] ft obtain e where
      "pa_Get api (pa_others api w) = Some a" "pa_Get api w' = Some (a1\<lparr>acl_ETag := e\<rparr>)" by metis
    with ft a show ?thesis by fastforce
  qed
qed

text \<open>
  The bridge between a node and its proxy loses no change of status: what it forwards, without repetitions, is
  what the node reported; the status is the last reported one, the URL the last one that was not empty, and a certificate
  is fetched once for each change into running if a port needs one.
\<close>

theorem bridgeEvents_history:
  assumes "bridgeEvents ports (map (\<lambda>e. (e, True)) es) p = (p', out)"
  shows "br_status p' = last (br_status p # map ne_Status es) \<and>
    br_url p' = fold (\<lambda>e u. if ne_URL e \<noteq> [] then ne_URL e else u) es (br_url p) \<and>
    prefetches out = (if hasHTTPSPort ports then running_starts (br_status p) (map ne_Status es) else 0) \<and>
    remdups_adj (br_status p # map ev_Status (forwarded out)) = remdups_adj (br_status p # map ne_Status es)"
  by (rule bridgeEvents_room [OF assms])

text \<open>
  Starting the services of a proxy is all or nothing, whatever order the ports are visited in: a start that fails or is
  cancelled releases every service it acquired and no other; one that succeeds has acquired a service for every port, and
  closing releases exactly those.
\<close>

theorem VIP_all_or_nothing:
  assumes "VIP_Start canceled answer order ports e = (r, e', calls)" "\<not> sv_started e" "gm_wf ports" "mset order = mset ports"
  shows "if r = None
    then sv_started e' \<and> released_services calls = [] \<and> mset (acquired_services calls) = mset (service_ports (sv_serviceName e) ports) \<and>
      mset (released_services (snd (VIP_Close e'))) = mset (acquired_services calls) \<and> \<not> sv_started (fst (VIP_Close e'))
    else \<not> sv_started e' \<and> sv_listeners e' = None \<and> mset (released_services calls) = mset (acquired_services calls)"
proof -
  let ?e = "e\<lparr>sv_cfg := Some ports, sv_listeners := Some []\<rparr>"
  obtain r1 e1 where v: "VIP_ports canceled answer order ?e = (r1, e1, calls)" and
    res: "r = r1" "e' = (if r1 = None then e1\<lparr>sv_started := True\<rparr> else e1)"
    using assms(1,2) by (auto simp: VIP_Start_def split: prod.splits option.splits)
  have d: "distinct (keys order)" using assms(3,4) by (metis gm_wf_def mset_eq_imp_distinct_iff mset_map)
  have sp: "mset (service_ports s order) = mset (service_ports s ports)" for s using assms(4) by (simp add: service_ports_def)
  have "mset ports = mset ([] @ order)" "distinct (keys ([] @ order))" "\<forall>n. sv_get ?e n \<noteq> None \<longleftrightarrow> n \<in> set (keys [])"
    using assms(4) d by (simp_all add: sv_get_def)
  from VIP_ports_outcome [OF _ _ this v] have o: "sv_started e1 = sv_started e"
    "if r1 = None
     then sv_cfg e1 = Some ports \<and> sv_serviceName e1 = sv_serviceName e \<and> released_services calls = [] \<and>
       acquired_services calls = service_ports (sv_serviceName e) order \<and> (\<forall>n. sv_get e1 n \<noteq> None \<longleftrightarrow> n \<in> set (keys order))
     else sv_listeners e1 = None \<and> mset (released_services calls) = mset (acquired_services calls)"
    by (cases r1; simp add: service_ports_def)+
  show ?thesis
  proof (cases r1)
    case None
    with o res have e': "sv_cfg e' = Some ports" "sv_serviceName e' = sv_serviceName e" "sv_started e'" "\<forall>n. sv_get e' n \<noteq> None \<longleftrightarrow> n \<in> set (keys order)"
      by (simp_all add: sv_get_def)
    from VIP_rollback_done [OF e'(1) _ _ e'(4), of "[]"] assms(4) d e' have
      "mset (released_services (snd (VIP_rollback e'))) = mset (service_ports (sv_serviceName e) order)" by simp
    with None o res e' sp show ?thesis by (auto simp: VIP_Close_def split_beta)
  next
    case (Some x)
    with o res assms(2) show ?thesis by simp
  qed
qed

text \<open>
  A service proxy that is closed after its start is through never sends on its closed event channel, and
  Close returns only when the forwarder has.
\<close>

theorem service_proxy_close_safe:
  assumes "reach service_proxy_init service_proxy_step p" "\<not> vp_early p"
  shows "\<not> vp_panicked p \<and> (vp_eventsClosed p \<longrightarrow> vp_forwarder p \<in> {FwNone, FwReturned})"
  using service_proxy.reach_inv [OF assms(1)] assms(2) by (auto simp: service_proxy_inv_def)

text \<open>
  Closed during its start, it starts a forwarder whose channel is closed, and the next event of the server
  crashes the program.
\<close>

lemma service_close_during_start_panics: "\<exists>p. reach service_proxy_init service_proxy_step p \<and> vp_panicked p"
proof -
  let ?p0 = service_proxy_start
  let ?p1 = "svc_start_check ?p0"
  let ?p2 = "svc_start_expose True ?p1"
  let ?p3 = "svc_close_begin ?p2"
  let ?p4 = "svc_close_finish ?p3"
  let ?p5 = "svc_start_finish ?p4"
  let ?p6 = "?p5\<lparr>vp_forwarder := FwLoop, vp_subOpen := True\<rparr>"
  let ?p7 = "?p6\<lparr>vp_forwarder := FwSelect (vp_stopCh ?p6)\<rparr>"
  let ?p8 = "svc_forward ?p7"
  note defs = service_proxy_start_def svc_start_check_def svc_start_expose_def svc_close_begin_def svc_close_finish_def svc_start_finish_def svc_forward_def
  have "reach service_proxy_init service_proxy_step ?p0" by (rule reach_init) simp
  then have "reach service_proxy_init service_proxy_step ?p1" by (rule reach_step) (rule VpCheck, simp add: defs)
  then have "reach service_proxy_init service_proxy_step ?p2" by (rule reach_step) (rule VpExpose, simp add: defs)
  then have "reach service_proxy_init service_proxy_step ?p3" by (rule reach_step) (rule VpClose, simp_all add: defs)
  then have "reach service_proxy_init service_proxy_step ?p4" by (rule reach_step) (rule VpCloseReturns, simp_all add: defs)
  then have "reach service_proxy_init service_proxy_step ?p5" by (rule reach_step) (rule VpFinish, simp add: defs)
  then have "reach service_proxy_init service_proxy_step ?p6" by (rule reach_step) (rule VpSubscribed, simp add: defs)
  then have "reach service_proxy_init service_proxy_step ?p7" by (rule reach_step) (rule VpSelect, simp)
  then have "reach service_proxy_init service_proxy_step ?p8" by (rule reach_step) (rule VpEvent, simp_all)
  moreover have "vp_panicked ?p8" by (simp add: defs)
  ultimately show ?thesis by blast
qed

text \<open>A shared proxy without a domain is refused, but its settings have become those of the shared node.\<close>

lemma shared_domain_checked_late:
  assumes "cl_shared c" "cl_sharedServer c = None" "cfg_Domain cfg = []" "validateDatadir (cl_datadir c) (cl_sharedHostname c) = Some dir"
  shows "provider_NewProxy cfg c = (Inl SharedDomainRequired, c\<lparr>cl_sharedServer := Some (shared_node ''shared'' dir cfg c)\<rparr>)"
  using assms by (simp add: provider_NewProxy_def newSharedProxy_def)

text \<open>Credentials of blanks pass the check of \<^verbatim>\<open>New\<close>, but are not available to the API.\<close>

lemma blank_credentials_keep_preventDuplicates:
  assumes "tsc_ClientID p = '' ''" "tsc_ClientSecret p \<noteq> []" "tsc_PreventDuplicates p"
  shows "\<exists>c. fst (provider_New parse access api name p dir w) = Inr c \<and> cl_preventDuplicates c \<and> \<not> IsAvailable (cl_apiFactory c)"
proof -
  have "trim_space '' '' = []" by code_simp
  then show ?thesis using assms by (simp add: provider_New_def validateOAuthAndProvisionACL_def IsAvailable_def NewAPIClientFactory_def Let_def)
qed

text \<open>After an authentication URL was seen, the same status is forwarded again at every poll.\<close>

lemma running_event_repeats:
  assumes "br_authURL p \<noteq> []" "ne_AuthURL e = []" "br_status p = ne_Status e" "br_url p = ne_URL e"
  shows "fst (bridge_event ports (e, True) p) = p \<and> length (snd (bridge_event ports (e, True) p)) = 1"
  using assms by (auto simp: bridge_event_def Let_def)

text \<open>A proxy whose node did not start is closed without closing the node, so the directory of an ephemeral node stays.\<close>

lemma failed_start_leaks_dir:
  assumes "\<not> tx_started p" "nf_dir (tx_life p)"
  shows "nf_dir (tx_life (fst (Proxy_Close removeOK p h)))"
  using assms by (simp add: Proxy_Close_def)

section \<open>Witnesses\<close>

definition example_ts_client :: tailscale_client where
  "example_ts_client = \<lparr>cl_Hostname = ''default'', cl_AuthKey = [], cl_apiFactory = NewAPIClientFactory [] [], cl_tags = ''tag:x'',
     cl_datadir = ''/data/default'', cl_controlURL = [], cl_sharedHostname = ''tsdproxy'', cl_retryEnabled = True, cl_maxAttempts = 3,
     cl_authRetryInit = 2000000000, cl_authRetryMax = 30000000000, cl_reconcileInterval = 0, cl_certSem = 2, cl_preventDuplicates = False,
     cl_shared = False, cl_services = False, cl_autoApprove = False, cl_autoRemoveConflicts = False, cl_sharedServer = None, cl_servicesServer = None\<rparr>"

theorem NewProxy_datadir_witness:
  "\<exists>r. provider_NewProxy (NewConfig\<lparr>cfg_Hostname := ''web''\<rparr>) example_ts_client = (r, example_ts_client) \<and> \<not> isl r \<and>
     path_inside ''/data/default'' (hd (node_dirs r example_ts_client))"
proof -
  let ?r = "provider_NewProxy (NewConfig\<lparr>cfg_Hostname := ''web''\<rparr>) example_ts_client"
  have "validateDatadir ''/data/default'' ''web'' \<noteq> None" by code_simp
  then obtain r n where r: "?r = (r, example_ts_client)" "r = Inr (NodeProxy n)"
    by (auto simp: provider_NewProxy_def example_ts_client_def Let_def)
  have "list_all (path_inside (cl_datadir example_ts_client)) (node_dirs (Inl SharedDomainRequired) example_ts_client)"
    by (simp add: node_dirs_def example_ts_client_def List.map_filter_simps)
  from NewProxy_datadir [OF r(1) this] r(2) have "path_inside (cl_datadir example_ts_client) (hd (node_dirs r example_ts_client))"
    by (simp add: node_dirs_Node)
  with r show ?thesis by (auto simp: example_ts_client_def)
qed

definition example_policy :: "acl policy_api" where
  "example_policy = \<lparr>pa_Get = Some, pa_Validate = (\<lambda>_ _. True),
     pa_Set = (\<lambda>a e w. if acl_ETag w = e then (True, a\<lparr>acl_ETag := CHR ''x'' # e\<rparr>) else (False, w)), pa_others = (\<lambda>w. w)\<rparr>"

theorem EnsureTags_keeps_policy_witness:
  "let w = \<lparr>acl_TagOwners = [(''tag:a'', [''me''])], acl_NodeAttrs = [], acl_ETag = ''1''\<rparr>;
       (r, w') = EnsureTags example_policy [''tag:a'', ''tag:b''] w
   in r = None \<and> gm_get (acl_TagOwners w') ''tag:a'' = Some [''me''] \<and> gm_get (acl_TagOwners w') ''tag:b'' = Some [''autogroup:admin'']"
proof -
  let ?w = "\<lparr>acl_TagOwners = [(''tag:a'', [''me''])], acl_NodeAttrs = [], acl_ETag = ''1''\<rparr>"
  have pol: "policy_service example_policy" by (auto simp: policy_service_def example_policy_def split: if_splits)
  have "fst (EnsureTags example_policy [''tag:a'', ''tag:b''] ?w) = None"
    by (simp add: EnsureTags_def example_policy_def add_tag_owner_def applyACL_def)
  then obtain w' where e: "EnsureTags example_policy [''tag:a'', ''tag:b''] ?w = (None, w')" by (metis prod.collapse)
  from EnsureTags_keeps_policy [OF pol e] obtain a a' where g: "pa_Get example_policy ?w = Some a" "pa_Get example_policy w' = Some a'"
    "\<forall>t. gm_get (acl_TagOwners a') t = (case gm_get (acl_TagOwners a) t of Some os \<Rightarrow> Some os
       | None \<Rightarrow> if t \<in> set [''tag:a'', ''tag:b''] then Some [''autogroup:admin''] else None)"
    by (elim exE conjE)
  from g(1,2) have "a = ?w" "a' = w'" by (simp_all add: example_policy_def)
  with g(3) have "gm_get (acl_TagOwners w') ''tag:a'' = Some [''me'']" "gm_get (acl_TagOwners w') ''tag:b'' = Some [''autogroup:admin'']" by simp_all
  with e show ?thesis by (simp add: Let_def)
qed

theorem bridgeEvents_history_witness:
  "prefetches (snd (bridgeEvents [(''443/https'', web_port)] (map (\<lambda>e. (e, True))
     [node_event ProxyStatusRunning ''a.ts.net'' [] [], node_event ProxyStatusStarting [] [] [], node_event ProxyStatusRunning ''a.ts.net'' [] []])
     \<lparr>br_status = ProxyStatusInitializing, br_url = [], br_authURL = []\<rparr>)) = 2"
proof -
  let ?es = "[node_event ProxyStatusRunning ''a.ts.net'' [] [], node_event ProxyStatusStarting [] [] [], node_event ProxyStatusRunning ''a.ts.net'' [] []]"
  let ?p = "\<lparr>br_status = ProxyStatusInitializing, br_url = [], br_authURL = []\<rparr>"
  obtain p' out where b: "bridgeEvents [(''443/https'', web_port)] (map (\<lambda>e. (e, True)) ?es) ?p = (p', out)" by force
  have "hasHTTPSPort [(''443/https'', web_port)]" by code_simp
  with bridgeEvents_history [OF b] have "prefetches out = 2" by (simp add: node_event_def)
  with b show ?thesis by simp
qed

theorem VIP_all_or_nothing_witness:
  "let e = \<lparr>sv_listeners = None, sv_cfg = None, sv_serviceName = ''svc:web'', sv_started = False\<rparr>;
       (r, e', calls) = VIP_Start (\<lambda>_. False) (\<lambda>n. Some (0, ''web.ts.net'')) two_ports two_ports e
   in r \<noteq> None \<and> mset (released_services calls) = mset (acquired_services calls) \<and> length calls = 2"
proof -
  let ?e = "\<lparr>sv_listeners = None, sv_cfg = None, sv_serviceName = ''svc:web'', sv_started = False\<rparr>"
  let ?s = "VIP_Start (\<lambda>_. False) (\<lambda>n. Some (0, ''web.ts.net'')) two_ports two_ports ?e"
  obtain r e' calls where s: "?s = (r, e', calls)" by (metis prod_cases3)
  have "Option.is_none (fst ?s) = False" "length (snd (snd ?s)) = 2" by code_simp+
  with s have r: "r \<noteq> None" "length calls = 2" by (simp_all add: Option.is_none_def)
  from VIP_all_or_nothing [OF s _ two_ports_wf refl] r(1) have "mset (released_services calls) = mset (acquired_services calls)" by simp
  with s r show ?thesis by (simp add: Let_def)
qed

theorem service_proxy_close_safe_witness:
  "\<not> vp_panicked (svc_close_finish (svc_close_begin (svc_start_expose False (svc_start_check service_proxy_start))))"
proof -
  let ?p1 = "svc_start_check service_proxy_start"
  let ?p2 = "svc_start_expose False ?p1"
  let ?p3 = "svc_close_begin ?p2"
  note defs = service_proxy_start_def svc_start_check_def svc_start_expose_def svc_close_begin_def svc_close_finish_def
  have "reach service_proxy_init service_proxy_step service_proxy_start" by (rule reach_init) simp
  then have "reach service_proxy_init service_proxy_step ?p1" by (rule reach_step) (rule VpCheck, simp add: defs)
  then have "reach service_proxy_init service_proxy_step ?p2" by (rule reach_step) (rule VpExpose, simp add: defs)
  then have "reach service_proxy_init service_proxy_step ?p3" by (rule reach_step) (rule VpClose, simp_all add: defs)
  then have "reach service_proxy_init service_proxy_step (svc_close_finish ?p3)" by (rule reach_step) (rule VpCloseReturns, simp_all add: defs)
  from service_proxy_close_safe [OF this] show ?thesis by (simp add: defs)
qed

end
