(* ===== verification/Config_Keys.thy ===== *)
theory Config_Keys
  imports Go_Prelude "HOL-Library.Product_Lexorder"
begin

text \<open>
  \<^verbatim>\<open>src/internal/config/keynormalizer.go\<close>: the keys of a configuration file are brought to their
  canonical spelling before it is decoded, and unknown keys are reported with suggestions. The
  Go types that reflection walks are trees; a struct type is its name and its fields.
\<close>

section \<open>Types and lookups\<close>

datatype gtype = TScalar | TPtr gtype | TSeq gtype | TMap gtype | TStruct string "gfield list"
  and gfield = GField (gf_name: string) (gf_tag: string) (gf_exported: bool) (gf_anonymous: bool) (gf_type: gtype)

record keyLookup =
  kl_canonical :: "(string, string) gomap"
  kl_byType :: "(gtype, string list) gomap"
  kl_rootType :: "gtype option"

definition normalizeKey :: "string \<Rightarrow> string" where
  "normalizeKey s = filter (\<lambda>c. c \<noteq> CHR ''_'' \<and> c \<noteq> CHR ''-'') (to_lower s)"

definition parseYAMLTag :: "string \<Rightarrow> string" where
  "parseYAMLTag tag = (if tag = [] then [] else hd (split_str '','' tag))"

text \<open>How a field is treated: left out, embedded, or a key of this name.\<close>

datatype field_kind = FieldSkipped | FieldEmbedded | FieldNamed string

definition field_kind :: "gfield \<Rightarrow> field_kind" where
  "field_kind f =
     (if \<not> gf_exported f then FieldSkipped
      else let name = parseYAMLTag (gf_tag f)
           in if name = ''-'' then FieldSkipped
              else if gf_anonymous f \<and> name = [] then FieldEmbedded
              else FieldNamed (if name = [] then to_lower (gf_name f) else name))"

definition add_valid :: "gtype \<Rightarrow> string \<Rightarrow> keyLookup \<Rightarrow> keyLookup" where
  "add_valid t name k =
     (let names = (case gm_get (kl_byType k) t of None \<Rightarrow> [] | Some ns \<Rightarrow> ns)
      in k\<lparr>kl_byType := gm_put t (if name \<in> set names then names else names @ [name]) (kl_byType k)\<rparr>)"

definition add_canonical :: "string \<Rightarrow> keyLookup \<Rightarrow> keyLookup" where
  "add_canonical name k =
     (if gm_get (kl_canonical k) (normalizeKey name) = None
      then k\<lparr>kl_canonical := gm_put (normalizeKey name) name (kl_canonical k)\<rparr> else k)"

lemma gf_type_size: "size (gf_type f) < size f"
  by (cases f) simp

function walkType :: "gtype \<Rightarrow> keyLookup \<Rightarrow> keyLookup"
  and walkFields :: "gfield list \<Rightarrow> gtype \<Rightarrow> keyLookup \<Rightarrow> keyLookup" where
  "walkType TScalar k = k"
| "walkType (TPtr t) k = walkType t k"
| "walkType (TSeq t) k = walkType t k"
| "walkType (TMap t) k = walkType t k"
| "walkType (TStruct n fs) k =
     (if gm_get (kl_byType k) (TStruct n fs) \<noteq> None then k
      else walkFields fs (TStruct n fs) (k\<lparr>kl_byType := gm_put (TStruct n fs) [] (kl_byType k)\<rparr>))"
| "walkFields [] t k = k"
| "walkFields (f # fs) t k =
     (case field_kind f of
        FieldSkipped \<Rightarrow> walkFields fs t k
      | FieldEmbedded \<Rightarrow> walkFields fs t (walkType (gf_type f) k)
      | FieldNamed name \<Rightarrow> walkFields fs t (walkType (gf_type f) (add_valid t name (add_canonical name k))))"
  by pat_completeness auto

termination
  by (relation "measure (case_sum (\<lambda>(t, _). size t) (\<lambda>(fs, _). size_list size fs))") (auto intro: less_trans [OF gf_type_size])

fun indirectType :: "gtype \<Rightarrow> gtype" where
  "indirectType (TPtr t) = indirectType t"
| "indirectType t = t"

definition buildKeyLookup :: "gtype option \<Rightarrow> keyLookup" where
  "buildKeyLookup root =
     (let empty = \<lparr>kl_canonical = [], kl_byType = [], kl_rootType = None\<rparr>
      in case root of
           None \<Rightarrow> empty
         | Some r \<Rightarrow> (case indirectType r of
                       TStruct n fs \<Rightarrow> walkType (TStruct n fs) (empty\<lparr>kl_rootType := Some (TStruct n fs)\<rparr>)
                     | _ \<Rightarrow> empty))"

definition find_key :: "keyLookup \<Rightarrow> string \<Rightarrow> string option" where
  "find_key k input = gm_get (kl_canonical k) (normalizeKey input)"

function fieldTypeByCanonical :: "gtype \<Rightarrow> string \<Rightarrow> gtype option"
  and field_in :: "gfield list \<Rightarrow> string \<Rightarrow> gtype option" where
  "fieldTypeByCanonical (TPtr t) c = fieldTypeByCanonical t c"
| "fieldTypeByCanonical (TStruct n fs) c = field_in fs c"
| "fieldTypeByCanonical TScalar c = None"
| "fieldTypeByCanonical (TSeq t) c = None"
| "fieldTypeByCanonical (TMap t) c = None"
| "field_in [] c = None"
| "field_in (f # fs) c =
     (case field_kind f of
        FieldSkipped \<Rightarrow> field_in fs c
      | FieldEmbedded \<Rightarrow> (case fieldTypeByCanonical (gf_type f) c of Some t \<Rightarrow> Some t | None \<Rightarrow> field_in fs c)
      | FieldNamed name \<Rightarrow> if name = c then Some (gf_type f) else field_in fs c)"
  by pat_completeness auto

termination
  by (relation "measure (case_sum (\<lambda>(t, _). size t) (\<lambda>(fs, _). size_list size fs))") (auto intro: less_trans [OF gf_type_size])

definition validFields :: "keyLookup \<Rightarrow> gtype \<Rightarrow> string list" where
  "validFields k t = (case gm_get (kl_byType k) (indirectType t) of None \<Rightarrow> [] | Some names \<Rightarrow> sort names)"

section \<open>Suggestions\<close>

fun lev_cells :: "char \<Rightarrow> string \<Rightarrow> nat list \<Rightarrow> nat \<Rightarrow> nat list" where
  "lev_cells c (y # ys) (p0 # p1 # ps) left =
     (let cost = (if c = y then 0 else 1); m = min (min (p1 + 1) (left + 1)) (p0 + cost)
      in m # lev_cells c ys (p1 # ps) m)"
| "lev_cells c _ _ left = []"

definition lev_row :: "string \<Rightarrow> nat \<times> char \<Rightarrow> nat list \<Rightarrow> nat list" where
  "lev_row b ic prev = fst ic # lev_cells (snd ic) b prev (fst ic)"

definition levenshtein :: "string \<Rightarrow> string \<Rightarrow> nat" where
  "levenshtein a b =
     (if a = b then 0 else if a = [] then length b else if b = [] then length a
      else last (fold (lev_row b) (enumerate 1 a) [0..<length b + 1]))"

fun commonPrefixLen :: "string \<Rightarrow> string \<Rightarrow> nat" where
  "commonPrefixLen (x # xs) (y # ys) = (if x \<noteq> y then 0 else Suc (commonPrefixLen xs ys))"
| "commonPrefixLen _ _ = 0"

definition maxSuggestionDistance :: nat where "maxSuggestionDistance = 3"
definition minSuggestionPrefix :: nat where "minSuggestionPrefix = 3"
definition maxSuggestions :: nat where "maxSuggestions = 3"

definition close_to :: "string \<Rightarrow> string \<Rightarrow> bool" where
  "close_to input v \<longleftrightarrow>
     levenshtein (to_lower input) (to_lower v) \<le> maxSuggestionDistance \<or> commonPrefixLen (to_lower input) (to_lower v) \<ge> minSuggestionPrefix"

definition suggest :: "string \<Rightarrow> string list \<Rightarrow> string list" where
  "suggest input valid =
     (let cands = map (\<lambda>v. (levenshtein (to_lower input) (to_lower v), v)) (filter (close_to input) valid)
      in map snd (take maxSuggestions (sort cands)))"

section \<open>Walking a file\<close>

datatype ynode =
    YScalar string nat nat
  | YMapping "(ynode \<times> ynode) list"
  | YSequence "ynode list"
  | YDocument "ynode list"
  | YAlias

record keyIssue =
  ki_Original :: string
  ki_Suggestions :: "string list"
  ki_Line :: nat
  ki_Column :: nat

text \<open>\<open>field_node\<close> is where \<^verbatim>\<open>recurseFieldValue\<close> goes on: with which type, if at all.\<close>

definition field_node :: "gtype \<Rightarrow> gtype option" where
  "field_node ft =
     (case indirectType ft of
        TStruct n fs \<Rightarrow> Some (TStruct n fs)
      | TMap t \<Rightarrow> Some (TMap t)
      | TSeq t \<Rightarrow> Some t
      | _ \<Rightarrow> None)"

definition seq_elem :: "gtype \<Rightarrow> gtype" where
  "seq_elem t = (case t of TSeq e \<Rightarrow> e | _ \<Rightarrow> t)"

text \<open>
  \<^verbatim>\<open>processStructField\<close>: the key as it is written back, the issue, and the type its value is walked with.
\<close>

definition processStructField :: "keyLookup \<Rightarrow> gtype \<Rightarrow> ynode \<Rightarrow> ynode \<times> keyIssue list \<times> gtype option" where
  "processStructField k typ key =
     (case key of
        YScalar original line col \<Rightarrow>
          (case find_key k original of
             None \<Rightarrow> (key, [\<lparr>ki_Original = original, ki_Suggestions = suggest original (validFields k typ), ki_Line = line, ki_Column = col\<rparr>], None)
           | Some canonical \<Rightarrow>
               (YScalar canonical line col, [],
                case fieldTypeByCanonical typ canonical of None \<Rightarrow> None | Some ft \<Rightarrow> field_node ft))
      | _ \<Rightarrow> (key, [], None))"

function walkNode :: "keyLookup \<Rightarrow> gtype \<Rightarrow> ynode \<Rightarrow> ynode \<times> keyIssue list"
  and walkItems :: "keyLookup \<Rightarrow> gtype \<Rightarrow> ynode list \<Rightarrow> ynode list \<times> keyIssue list"
  and walkMapValues :: "keyLookup \<Rightarrow> gtype \<Rightarrow> (ynode \<times> ynode) list \<Rightarrow> (ynode \<times> ynode) list \<times> keyIssue list"
  and walkStructMapping :: "keyLookup \<Rightarrow> gtype \<Rightarrow> (ynode \<times> ynode) list \<Rightarrow> (ynode \<times> ynode) list \<times> keyIssue list" where
  "walkNode k t (YDocument cs) = apfst YDocument (walkItems k t cs)"
| "walkNode k t (YMapping ps) =
     (case indirectType t of
        TMap v \<Rightarrow> apfst YMapping (walkMapValues k v ps)
      | TStruct n fs \<Rightarrow> apfst YMapping (walkStructMapping k (TStruct n fs) ps)
      | _ \<Rightarrow> (YMapping ps, []))"
| "walkNode k t (YSequence cs) = apfst YSequence (walkItems k (seq_elem (indirectType t)) cs)"
| "walkNode k t (YScalar s l c) = (YScalar s l c, [])"
| "walkNode k t YAlias = (YAlias, [])"
| "walkItems k t [] = ([], [])"
| "walkItems k t (n # ns) =
     (case walkNode k t n of (n', i1) \<Rightarrow> case walkItems k t ns of (ns', i2) \<Rightarrow> (n' # ns', i1 @ i2))"
| "walkMapValues k t [] = ([], [])"
| "walkMapValues k t (p # ps) =
     (case walkNode k t (snd p) of (v', i1) \<Rightarrow> case walkMapValues k t ps of (ps', i2) \<Rightarrow> ((fst p, v') # ps', i1 @ i2))"
| "walkStructMapping k t [] = ([], [])"
| "walkStructMapping k t (p # ps) =
     (case processStructField k t (fst p) of
        (key', i1, ft) \<Rightarrow>
          case (case ft of None \<Rightarrow> (snd p, []) | Some t' \<Rightarrow> walkNode k t' (snd p)) of
            (v', i2) \<Rightarrow> case walkStructMapping k t ps of (ps', i3) \<Rightarrow> ((key', v') # ps', i1 @ i2 @ i3))"
  by pat_completeness auto

termination
proof (relation "measure (\<lambda>x. case x of
      Inl (Inl (k, t, n)) \<Rightarrow> size n | Inl (Inr (k, t, ns)) \<Rightarrow> size_list size ns
    | Inr (Inl (k, t, ps)) \<Rightarrow> size_list (\<lambda>x. Suc (size (fst x) + size (snd x))) ps | Inr (Inr (k, t, ps)) \<Rightarrow> size_list (\<lambda>x. Suc (size (fst x) + size (snd x))) ps)", goal_cases)
qed (auto simp: size_prod_simp split_beta)

definition normalizeNodeKeys :: "ynode \<Rightarrow> keyLookup \<Rightarrow> ynode \<times> keyIssue list" where
  "normalizeNodeKeys node k = (case kl_rootType k of None \<Rightarrow> (node, []) | Some t \<Rightarrow> walkNode k t node)"

section \<open>The distance is the cost of the cheapest alignment\<close>

text \<open>The textbook recursion, and what a distance is: the least cost of an alignment, each insertion, deletion and substitution costing one.\<close>

fun edit :: "string \<Rightarrow> string \<Rightarrow> nat" where
  "edit [] ys = length ys"
| "edit xs [] = length xs"
| "edit (x # xs) (y # ys) = min (min (edit xs (y # ys) + 1) (edit (x # xs) ys + 1)) (edit xs ys + (if x = y then 0 else 1))"

inductive aligns :: "nat \<Rightarrow> string \<Rightarrow> string \<Rightarrow> bool" where
  AlignNil: "aligns 0 [] []"
| AlignDelete: "aligns n xs ys \<Longrightarrow> aligns (Suc n) (x # xs) ys"
| AlignInsert: "aligns n xs ys \<Longrightarrow> aligns (Suc n) xs (y # ys)"
| AlignKeep: "aligns n xs ys \<Longrightarrow> aligns n (x # xs) (x # ys)"
| AlignSubstitute: "aligns n xs ys \<Longrightarrow> aligns (Suc n) (x # xs) (y # ys)"

lemma aligns_length: "aligns (length xs) xs []" "aligns (length ys) [] ys"
  by (induction xs, auto intro: aligns.intros) (induction ys, auto intro: aligns.intros)

lemma aligns_edit: "aligns (edit xs ys) xs ys"
proof (induction xs ys rule: edit.induct)
  case (3 x xs y ys)
  then have "aligns (edit xs (y # ys) + 1) (x # xs) (y # ys)" "aligns (edit (x # xs) ys + 1) (x # xs) (y # ys)"
    "aligns (edit xs ys + (if x = y then 0 else 1)) (x # xs) (y # ys)"
    using AlignDelete AlignInsert AlignKeep AlignSubstitute by fastforce+
  then show ?case by (simp add: min_def)
qed (auto intro: aligns_length aligns.intros simp: aligns_length)

lemma edit_Nil2: "edit xs [] = length xs"
  by (cases xs) simp_all

lemma edit_least: "aligns n xs ys \<Longrightarrow> edit xs ys \<le> n"
proof (induction rule: aligns.induct)
  case (AlignDelete n xs ys x)
  then show ?case by (cases ys) (auto simp: edit_Nil2)
next
  case (AlignInsert n xs ys y)
  then show ?case by (cases xs) auto
qed auto

lemma aligns_snoc:
  "aligns n xs ys \<Longrightarrow> aligns (Suc n) (xs @ [x]) ys \<and> aligns (Suc n) xs (ys @ [y]) \<and> aligns n (xs @ [x]) (ys @ [x]) \<and> aligns (Suc n) (xs @ [x]) (ys @ [y])"
  by (induction rule: aligns.induct) (auto intro: aligns.intros)

lemma aligns_rev: "aligns n xs ys \<Longrightarrow> aligns n (rev xs) (rev ys)"
  by (induction rule: aligns.induct) (auto intro: aligns.intros simp: aligns_snoc)

lemma edit_rev: "edit (rev xs) (rev ys) = edit xs ys"
  using edit_least aligns_edit aligns_rev [of _ xs ys] aligns_rev [of _ "rev xs" "rev ys"] by (metis antisym rev_rev_ident)

text \<open>The row of a prefix of the first string: the distances to the prefixes of the second; both prefixes are kept reversed.\<close>

fun dist_row :: "string \<Rightarrow> string \<Rightarrow> string \<Rightarrow> nat list" where
  "dist_row r dn [] = [edit r dn]"
| "dist_row r dn (y # ys) = edit r dn # dist_row r (y # dn) ys"

lemma dist_row_Nil: "dist_row [] dn ys = [length dn..<length dn + length ys + 1]"
  by (induction ys arbitrary: dn) (simp_all add: upt_conv_Cons del: upt_Suc)

lemma dist_row_last: "last (dist_row r dn ys) = edit r (rev ys @ dn)"
proof (induction ys arbitrary: dn)
  case (Cons y ys)
  then show ?case by (cases ys) simp_all
qed simp

lemma lev_cells_row: "lev_cells c ys (dist_row r dn ys) (edit (c # r) dn) = tl (dist_row (c # r) dn ys)"
proof (induction ys arbitrary: dn)
  case (Cons y ys)
  obtain ps where ps: "dist_row r (y # dn) ys = edit r (y # dn) # ps" by (cases ys) simp_all
  obtain qs where qs: "dist_row (c # r) (y # dn) ys = edit (c # r) (y # dn) # qs" by (cases ys) simp_all
  have "lev_cells c (y # ys) (edit r dn # edit r (y # dn) # ps) (edit (c # r) dn) =
      edit (c # r) (y # dn) # lev_cells c ys (edit r (y # dn) # ps) (edit (c # r) (y # dn))" by (simp add: Let_def)
  with Cons [of "y # dn"] ps qs show ?case by simp
qed simp

lemma lev_row_dist: "lev_row b (Suc (length r), c) (dist_row r [] b) = dist_row (c # r) [] b"
  using lev_cells_row [of c b r "[]"] by (cases b) (simp_all add: lev_row_def edit_Nil2)

lemma lev_fold: "fold (lev_row b) (enumerate (Suc (length r)) a) (dist_row r [] b) = dist_row (rev a @ r) [] b"
proof (induction a arbitrary: r)
  case (Cons c a)
  from Cons [of "c # r"] show ?case by (simp add: lev_row_dist)
qed simp

lemma levenshtein_edit: "levenshtein a b = edit a b"
proof -
  have "aligns 0 a a" by (induction a) (auto intro: aligns.intros)
  then have z: "edit a a = 0" using edit_least by fastforce
  have "fold (lev_row b) (enumerate 1 a) [0..<length b + 1] = dist_row (rev a) [] b"
    using lev_fold [of b "[]" a] by (simp add: dist_row_Nil)
  then have "last (fold (lev_row b) (enumerate 1 a) [0..<length b + 1]) = edit (rev a) (rev b)" by (simp add: dist_row_last)
  with z show ?thesis by (auto simp: levenshtein_def edit_rev edit_Nil2)
qed

section \<open>Normalisation\<close>

lemma normalizeKey_idem [simp]: "normalizeKey (normalizeKey s) = normalizeKey s"
proof -
  have "lower_char (lower_char c) = lower_char c" for c using to_lower_idem [of "[c]"] by (simp add: to_lower_def)
  moreover have "lower_char c = CHR ''_'' \<longleftrightarrow> c = CHR ''_''" "lower_char c = CHR ''-'' \<longleftrightarrow> c = CHR ''-''" if "lower_char c = c" for c
    using that by simp_all
  ultimately have "map lower_char (filter (\<lambda>c. c \<noteq> CHR ''_'' \<and> c \<noteq> CHR ''-'') (map lower_char s)) = filter (\<lambda>c. c \<noteq> CHR ''_'' \<and> c \<noteq> CHR ''-'') (map lower_char s)"
    by (induction s) auto
  then show ?thesis unfolding normalizeKey_def to_lower_def by simp
qed

text \<open>The table maps a normalised key to a name that normalises to it.\<close>

definition lookup_ok :: "keyLookup \<Rightarrow> bool" where
  "lookup_ok k \<longleftrightarrow> list_all (\<lambda>(n, c). normalizeKey c = n) (kl_canonical k)"

lemma add_canonical_ok: "lookup_ok k \<Longrightarrow> lookup_ok (add_valid t n (add_canonical name k))"
  by (auto simp: lookup_ok_def add_canonical_def add_valid_def Let_def list_all_iff dest!: gm_put_set)

lemma walk_ok: "lookup_ok k \<Longrightarrow> lookup_ok (walkType t k)" "lookup_ok k \<Longrightarrow> lookup_ok (walkFields fs t k)"
proof (induction t k and fs t k rule: walkType_walkFields.induct)
  case (5 n fs k)
  then show ?case by (simp add: lookup_ok_def)
next
  case (7 f fs t k)
  then show ?case by (auto split: field_kind.split intro: add_canonical_ok)
qed simp_all

lemma buildKeyLookup_ok: "lookup_ok (buildKeyLookup root)"
  by (auto simp: buildKeyLookup_def Let_def lookup_ok_def walk_ok [unfolded lookup_ok_def] simp del: walkType.simps split: option.split gtype.split)

lemma find_canonical:
  assumes "lookup_ok k" "find_key k s = Some c"
  shows "find_key k c = Some c \<and> normalizeKey c = normalizeKey s"
proof -
  from assms(2) have "(normalizeKey s, c) \<in> set (kl_canonical k)" by (auto simp: find_key_def dest: map_of_SomeD)
  with assms(1) have "normalizeKey c = normalizeKey s" by (auto simp: lookup_ok_def list_all_iff)
  with assms(2) show ?thesis by (simp add: find_key_def)
qed

lemma processStructField_idem:
  assumes "lookup_ok k" "processStructField k t key = (key', i, ft)"
  shows "processStructField k t key' = (key', i, ft)"
  using assms find_canonical [OF assms(1)]
  by (auto simp: processStructField_def split: ynode.splits option.splits)

lemma apfst_eq: "apfst f x = (f (fst x), snd x)"
  by (cases x) simp

lemma walk_idem:
  assumes ok: "lookup_ok k"
  shows "walkNode k t (fst (walkNode k t n)) = walkNode k t n"
    and "walkItems k t (fst (walkItems k t ns)) = walkItems k t ns"
    and "walkMapValues k t (fst (walkMapValues k t ps)) = walkMapValues k t ps"
    and "walkStructMapping k t (fst (walkStructMapping k t ps)) = walkStructMapping k t ps"
  using ok
proof (induction k t n and k t ns and k t ps and k t ps rule: walkNode_walkItems_walkMapValues_walkStructMapping.induct)
  case (1 k t cs)
  then show ?case by (simp add: apfst_eq)
next
  case (2 k t ps)
  then show ?case by (cases "indirectType t") (simp_all add: apfst_eq)
next
  case (3 k t cs)
  then show ?case by (simp add: apfst_eq)
next
  case (7 k t n ns)
  then show ?case using 7(2) [OF prod.collapse] by (simp add: split_beta)
next
  case (9 k t p ps)
  then show ?case using 9(2) [OF prod.collapse] by (simp add: split_beta)
next
  case (11 k t p ps)
  obtain key' i1 ft where f: "processStructField k t (fst p) = (key', i1, ft)" by (metis prod_cases3)
  let ?v = "case ft of None \<Rightarrow> (snd p, []) | Some t' \<Rightarrow> walkNode k t' (snd p)"
  have "(case ft of None \<Rightarrow> (fst ?v, []) | Some t' \<Rightarrow> walkNode k t' (fst ?v)) = ?v"
  proof (cases ft)
    case (Some t')
    with 11(1) [OF f [symmetric] refl Some] 11(3) show ?thesis by simp
  qed simp
  moreover have "walkStructMapping k t (fst (walkStructMapping k t ps)) = walkStructMapping k t ps"
    using 11 f by (cases ?v) auto
  ultimately show ?case using processStructField_idem [OF 11(3) f] f by (cases ft) (simp_all add: split_beta)
qed simp_all

section \<open>Properties\<close>

text \<open>
  C37: the two-row computation of \<^verbatim>\<open>levenshtein\<close> gives the edit distance: the least cost of an alignment of the two
  strings.
\<close>

theorem levenshtein_least: "levenshtein a b = (LEAST n. aligns n a b)"
  unfolding levenshtein_edit by (rule Least_equality [symmetric]) (auto intro: aligns_edit edit_least)

text \<open>
  Normalising the keys of a file is done once and for all: a second pass over the result changes nothing and reports
  the same unknown keys with the same suggestions.
\<close>

theorem normalizeNodeKeys_idem:
  "normalizeNodeKeys (fst (normalizeNodeKeys node (buildKeyLookup root))) (buildKeyLookup root) = normalizeNodeKeys node (buildKeyLookup root)"
  by (simp add: normalizeNodeKeys_def walk_idem(1) [OF buildKeyLookup_ok] split: option.split)

text \<open>Suggestions are at most three of the close names, the closest first.\<close>

lemma suggest_spec:
  "length (suggest input valid) \<le> 3 \<and> set (suggest input valid) \<subseteq> {v \<in> set valid. close_to input v} \<and>
   sorted (map (\<lambda>v. (levenshtein (to_lower input) (to_lower v), v)) (suggest input valid))"
proof -
  let ?key = "\<lambda>v. (levenshtein (to_lower input) (to_lower v), v)"
  let ?cs = "take maxSuggestions (sort (map ?key (filter (close_to input) valid)))"
  have s: "suggest input valid = map snd ?cs" by (simp add: suggest_def)
  have sub: "set ?cs \<subseteq> ?key ` {v \<in> set valid. close_to input v}" using set_take_subset by fastforce
  have "map ?key (map snd ?cs) = ?cs" unfolding map_map by (rule map_idI) (use sub in auto)
  moreover have "sorted ?cs" by (intro sorted_wrt_take) simp
  moreover have "length ?cs \<le> 3" by (simp add: maxSuggestions_def)
  ultimately show ?thesis unfolding s using sub by auto
qed

text \<open>Names of another struct count as known, so a key in the wrong place is neither reported nor decoded.\<close>

lemma misplaced_key_accepted:
  "let http = TStruct ''HTTPConfig'' [GField ''Port'' ''port'' True False TScalar];
       log = TStruct ''LogConfig'' [GField ''Level'' ''level'' True False TScalar];
       root = TStruct ''Data'' [GField ''HTTP'' ''http'' True False http, GField ''Log'' ''log'' True False log];
       file = YMapping [(YScalar ''http'' 1 1, YMapping [(YScalar ''Level'' 2 3, YScalar ''debug'' 2 10)])]
   in snd (normalizeNodeKeys file (buildKeyLookup (Some root))) = [] \<and> fieldTypeByCanonical http ''level'' = None"
  by code_simp

end
