(* ===== verification/Config_Load.thy ===== *)
theory Config_Load
  imports Domain_Setup Tailscale_Provider
begin

text \<open>
  How the configuration of the program comes about: \<^verbatim>\<open>src/internal/config/config.go\<close> (defaults, secrets
  from files, the environment), \<^verbatim>\<open>generateproviders.go\<close> (the configuration when there is no file) and
  \<^verbatim>\<open>validator.go\<close>. Decoding the file, setting defaults by reflection and checking the tags of structs
  are parameters; an entry without a body is a nil pointer, \<open>None\<close>.
\<close>

section \<open>Data\<close>

record server_config = TailscaleServerConfig +
  tsc_AuthKeyFile :: string
  tsc_ClientSecretFile :: string

record target_entry =
  tg_DefaultProxyProvider :: string

record docker_entry = target_entry +
  dk_Host :: string
  dk_TargetHostname :: string

record proxmox_entry = target_entry +
  px_APIToken :: string
  px_APITokenFile :: string

record dns_entry = DNSProviderConfig +
  dpc_APITokenFile :: string

record Data =
  da_Providers :: "(string, server_config option) gomap"
  da_DataDir :: string
  da_Docker :: "(string, docker_entry option) gomap"
  da_Incus :: "(string, target_entry option) gomap"
  da_Proxmox :: "(string, proxmox_entry option) gomap"
  da_DNSProviders :: "(string, dns_entry option) gomap"
  da_TLSProviders :: "(string, TLSProviderConfig option) gomap"
  da_DefaultProxyProvider :: string
  da_DefaultDNSProvider :: string
  da_DefaultTLSProvider :: string
  da_APIKey :: string
  da_APIKeyFile :: string
  da_HTTPHostname :: string
  da_AdminAllowLocalhost :: bool

definition domain_part :: "Data \<Rightarrow> domain_config" where
  "domain_part d = \<lparr>dc_DefaultDNSProvider = da_DefaultDNSProvider d, dc_DefaultTLSProvider = da_DefaultTLSProvider d,
     dc_DNSProviders = map (apsnd (map_option DNSProviderConfig.truncate)) (da_DNSProviders d), dc_TLSProviders = da_TLSProviders d\<rparr>"

datatype init_error =
    LoadError string
  | SaveError
  | StructInvalid
  | NoProxyProviders
  | NilProvider string
  | SharedAndServices string
  | SharedNeedsHostname string
  | ServicesNeedsHostname string
  | ServicesNeedsClientID string
  | ServicesNeedsSecret string
  | ServicesNeedsTags string
  | ApproveNeedsOAuth string
  | RemoveNeedsOAuth string
  | ReconcileNeedsOAuth string
  | DomainInvalid validation_error
  | DefaultProxyProviderNotFound string
  | NoDefaultProxyProvider
  | NilDereference string
  | KeyFile key_file_error
  | EmptySecretFile string

section \<open>Validation\<close>

definition hasOAuthCredentials :: "server_config \<Rightarrow> bool" where
  "hasOAuthCredentials p \<longleftrightarrow> tsc_ClientID p \<noteq> [] \<and> (tsc_ClientSecret p \<noteq> [] \<or> tsc_ClientSecretFile p \<noteq> [])"

definition isReconcileIntervalPositive :: "(string \<Rightarrow> int option) \<Rightarrow> server_config \<Rightarrow> bool" where
  "isReconcileIntervalPositive parseDuration p = (case parseDuration (tsc_ReconcileInterval p) of None \<Rightarrow> False | Some d \<Rightarrow> d > 0)"

definition validateServicesProvider :: "string \<Rightarrow> server_config \<Rightarrow> init_error option" where
  "validateServicesProvider name p =
     (if \<not> tsc_Services p then None
      else if tsc_Hostname p = [] then Some (ServicesNeedsHostname name)
      else if tsc_ClientID p = [] then Some (ServicesNeedsClientID name)
      else if tsc_ClientSecret p = [] \<and> tsc_ClientSecretFile p = [] then Some (ServicesNeedsSecret name)
      else if tsc_Tags p = [] then Some (ServicesNeedsTags name)
      else if tsc_AutoApproveDevices p \<and> \<not> hasOAuthCredentials p then Some (ApproveNeedsOAuth name)
      else if tsc_AutoRemoveConflicts p \<and> \<not> hasOAuthCredentials p then Some (RemoveNeedsOAuth name)
      else None)"

definition validateProviderOAuthFeatures :: "(string \<Rightarrow> int option) \<Rightarrow> string \<Rightarrow> server_config \<Rightarrow> init_error option" where
  "validateProviderOAuthFeatures parseDuration name p =
     (if isReconcileIntervalPositive parseDuration p \<and> \<not> hasOAuthCredentials p \<and> \<not> tsc_PreventDuplicates p
      then Some (ReconcileNeedsOAuth name) else None)"

fun servers_check :: "(string \<Rightarrow> int option) \<Rightarrow> (string, server_config option) gomap \<Rightarrow> init_error option" where
  "servers_check parseDuration [] = None"
| "servers_check parseDuration ((name, p) # rest) =
     (case p of
        None \<Rightarrow> Some (NilProvider name)
      | Some p \<Rightarrow>
          if tsc_Shared p \<and> tsc_Services p then Some (SharedAndServices name)
          else if tsc_Shared p \<and> tsc_Hostname p = [] then Some (SharedNeedsHostname name)
          else case validateServicesProvider name p of
                 Some e \<Rightarrow> Some e
               | None \<Rightarrow> (case validateProviderOAuthFeatures parseDuration name p of
                           Some e \<Rightarrow> Some e | None \<Rightarrow> servers_check parseDuration rest))"

definition validateProxyProviders :: "(string \<Rightarrow> int option) \<Rightarrow> Data \<Rightarrow> init_error option" where
  "validateProxyProviders parseDuration d =
     (if da_Providers d = [] then Some NoProxyProviders else servers_check parseDuration (da_Providers d))"

definition hasProxyProvider :: "string \<Rightarrow> Data \<Rightarrow> bool" where
  "hasProxyProvider name d = list_ex (\<lambda>(n, _). equal_fold n name) (da_Providers d)"

definition getDefaultProxyProvider :: "Data \<Rightarrow> init_error + string" where
  "getDefaultProxyProvider d = (case da_Providers d of [] \<Rightarrow> Inl NoDefaultProxyProvider | (name, _) # _ \<Rightarrow> Inr (to_lower name))"

text \<open>\<^verbatim>\<open>addDefaultProxyProviderTo\<dots>\<close>, the same for Docker, Incus and Proxmox.\<close>

fun add_default_provider :: "(string \<Rightarrow> bool) \<Rightarrow> string \<Rightarrow> (string \<times> 'a target_entry_scheme option) list \<Rightarrow> init_error + (string \<times> 'a target_entry_scheme option) list" where
  "add_default_provider has dflt [] = Inr []"
| "add_default_provider has dflt ((name, p) # ps) =
     (case p of
        None \<Rightarrow> Inl (NilDereference name)
      | Some e \<Rightarrow>
          if tg_DefaultProxyProvider e \<noteq> [] \<and> \<not> has (tg_DefaultProxyProvider e) then Inl (DefaultProxyProviderNotFound (tg_DefaultProxyProvider e))
          else case add_default_provider has dflt ps of
                 Inl err \<Rightarrow> Inl err
               | Inr ps' \<Rightarrow> Inr ((name, Some (if tg_DefaultProxyProvider e = [] then e\<lparr>tg_DefaultProxyProvider := dflt\<rparr> else e)) # ps'))"

definition defaultProvider :: "Data \<Rightarrow> init_error + Data" where
  "defaultProvider d =
     (if da_DefaultProxyProvider d \<noteq> [] then
        (if hasProxyProvider (da_DefaultProxyProvider d) d then Inr d else Inl (DefaultProxyProviderNotFound (da_DefaultProxyProvider d)))
      else case getDefaultProxyProvider d of Inl e \<Rightarrow> Inl e | Inr temp \<Rightarrow> Inr (d\<lparr>da_DefaultProxyProvider := to_lower temp\<rparr>))"

definition addDefaultProviders :: "Data \<Rightarrow> init_error + Data" where
  "addDefaultProviders d =
     (let has = (\<lambda>n. hasProxyProvider n d); dflt = da_DefaultProxyProvider d
      in case add_default_provider has dflt (da_Docker d) of
           Inl e \<Rightarrow> Inl e
         | Inr docker \<Rightarrow>
             (case add_default_provider has dflt (da_Incus d) of
                Inl e \<Rightarrow> Inl e
              | Inr incus \<Rightarrow>
                  (case add_default_provider has dflt (da_Proxmox d) of
                     Inl e \<Rightarrow> Inl e
                   | Inr proxmox \<Rightarrow> Inr (d\<lparr>da_Docker := docker, da_Incus := incus, da_Proxmox := proxmox\<rparr>))))"

definition config_validate :: "(Data \<Rightarrow> bool) \<Rightarrow> (string \<Rightarrow> int option) \<Rightarrow> Data \<Rightarrow> init_error + Data" where
  "config_validate structOK parseDuration d =
     (if \<not> structOK d then Inl StructInvalid
      else case validateProxyProviders parseDuration d of
             Some e \<Rightarrow> Inl e
           | None \<Rightarrow>
               (case validateDNSProviders (domain_part d) of
                  Some e \<Rightarrow> Inl (DomainInvalid e)
                | None \<Rightarrow>
                    (case validateTLSProviders (domain_part d) of
                       Some e \<Rightarrow> Inl (DomainInvalid e)
                     | None \<Rightarrow> (case defaultProvider d of Inl e \<Rightarrow> Inl e | Inr d' \<Rightarrow> addDefaultProviders d'))))"

section \<open>Secrets\<close>

definition getAuthKeyFromFile :: "file_env \<Rightarrow> string \<Rightarrow> init_error + string" where
  "getAuthKeyFromFile fe authKeyFile =
     (case ValidateKeyFilePath fe authKeyFile of
        Inl e \<Rightarrow> Inl (KeyFile e)
      | Inr resolved \<Rightarrow> (case fe_readFile fe resolved of None \<Rightarrow> Inl (KeyFile (KeyFileReadError resolved)) | Some s \<Rightarrow> Inr (trim_space s)))"

text \<open>A loop over the entries of a map that may change each of them and stops at the first error.\<close>

fun each_entry :: "('k \<Rightarrow> 'v \<Rightarrow> init_error + 'v) \<Rightarrow> ('k \<times> 'v option) list \<Rightarrow> init_error + ('k \<times> 'v option) list" where
  "each_entry f [] = Inr []"
| "each_entry f ((k, v) # m) =
     (case (case v of None \<Rightarrow> Inr None | Some x \<Rightarrow> map_sum (\<lambda>e. e) Some (f k x)) of
        Inl e \<Rightarrow> Inl e
      | Inr v' \<Rightarrow> map_sum (\<lambda>e. e) ((#) (k, v')) (each_entry f m))"

definition loadTailscaleAuthKeys :: "file_env \<Rightarrow> Data \<Rightarrow> init_error + Data" where
  "loadTailscaleAuthKeys fe d =
     map_sum (\<lambda>e. e) (\<lambda>m. d\<lparr>da_Providers := m\<rparr>)
       (each_entry (\<lambda>_ p. if (tsc_ClientSecret p \<noteq> [] \<and> tsc_ClientID p \<noteq> []) \<or> tsc_AuthKeyFile p = [] then Inr p
                          else map_sum (\<lambda>e. e) (\<lambda>key. p\<lparr>tsc_AuthKey := key\<rparr>) (getAuthKeyFromFile fe (tsc_AuthKeyFile p))) (da_Providers d))"

definition loadAPIKey :: "file_env \<Rightarrow> Data \<Rightarrow> init_error + Data" where
  "loadAPIKey fe d =
     (if da_APIKeyFile d = [] then Inr d
      else case getAuthKeyFromFile fe (da_APIKeyFile d) of
             Inl e \<Rightarrow> Inl e
           | Inr key \<Rightarrow> if key = [] then Inl (EmptySecretFile (da_APIKeyFile d)) else Inr (d\<lparr>da_APIKey := key\<rparr>))"

definition nonempty_secret :: "file_env \<Rightarrow> string \<Rightarrow> (string \<Rightarrow> 'a) \<Rightarrow> init_error + 'a" where
  "nonempty_secret fe file put =
     (case getAuthKeyFromFile fe file of Inl e \<Rightarrow> Inl e | Inr s \<Rightarrow> if s = [] then Inl (EmptySecretFile file) else Inr (put s))"

definition loadTailscaleClientSecrets :: "file_env \<Rightarrow> Data \<Rightarrow> init_error + Data" where
  "loadTailscaleClientSecrets fe d =
     map_sum (\<lambda>e. e) (\<lambda>m. d\<lparr>da_Providers := m\<rparr>)
       (each_entry (\<lambda>_ p. if tsc_ClientSecretFile p = [] then Inr p
                          else nonempty_secret fe (tsc_ClientSecretFile p) (\<lambda>s. p\<lparr>tsc_ClientSecret := s\<rparr>)) (da_Providers d))"

definition loadDNSProviderTokens :: "file_env \<Rightarrow> Data \<Rightarrow> init_error + Data" where
  "loadDNSProviderTokens fe d =
     map_sum (\<lambda>e. e) (\<lambda>m. d\<lparr>da_DNSProviders := m\<rparr>)
       (each_entry (\<lambda>_ p. if dpc_APITokenFile p = [] then Inr p
                          else map_sum (\<lambda>e. e) (\<lambda>t. p\<lparr>dpc_APIToken := t\<rparr>) (getAuthKeyFromFile fe (dpc_APITokenFile p))) (da_DNSProviders d))"

definition loadProxmoxTokens :: "file_env \<Rightarrow> Data \<Rightarrow> init_error + Data" where
  "loadProxmoxTokens fe d =
     map_sum (\<lambda>e. e) (\<lambda>m. d\<lparr>da_Proxmox := m\<rparr>)
       (each_entry (\<lambda>_ p. if px_APITokenFile p = [] then Inr p
                          else nonempty_secret fe (px_APITokenFile p) (\<lambda>t. p\<lparr>px_APIToken := t\<rparr>)) (da_Proxmox d))"

definition and_then :: "'e + 'a \<Rightarrow> ('a \<Rightarrow> 'e + 'b) \<Rightarrow> 'e + 'b" where
  "and_then r f = (case r of Inl e \<Rightarrow> Inl e | Inr x \<Rightarrow> f x)"

definition loadSecretsFromFiles :: "file_env \<Rightarrow> Data \<Rightarrow> init_error + Data" where
  "loadSecretsFromFiles fe d =
     and_then (loadTailscaleAuthKeys fe d) (\<lambda>d. and_then (loadAPIKey fe d) (\<lambda>d. and_then (loadTailscaleClientSecrets fe d)
       (\<lambda>d. and_then (loadDNSProviderTokens fe d) (loadProxmoxTokens fe))))"

section \<open>The environment\<close>

definition upper_char :: "char \<Rightarrow> char" where
  "upper_char c = (let n = of_char c :: nat in if 97 \<le> n \<and> n \<le> 122 then char_of (n - 32) else c)"

definition env_prefix :: "string \<Rightarrow> string" where
  "env_prefix name = ''TSDPROXY_TAILSCALE_'' @ map (\<lambda>c. upper_char (if c = CHR ''-'' then CHR ''_'' else c)) name"

definition env_override :: "(string \<Rightarrow> string option) \<Rightarrow> string \<Rightarrow> server_config \<Rightarrow> server_config" where
  "env_override lookupEnv name p =
     (let p1 = (case lookupEnv (env_prefix name @ ''_CLIENTID'') of
                  Some val \<Rightarrow> if tsc_ClientID p = [] then p\<lparr>tsc_ClientID := val\<rparr> else p
                | None \<Rightarrow> p)
      in case lookupEnv (env_prefix name @ ''_CLIENTSECRET'') of
           Some val \<Rightarrow> if tsc_ClientSecret p1 = [] then p1\<lparr>tsc_ClientSecret := val\<rparr> else p1
         | None \<Rightarrow> p1)"

definition LoadTailscaleEnvOverrides :: "(string \<Rightarrow> string option) \<Rightarrow> Data \<Rightarrow> Data" where
  "LoadTailscaleEnvOverrides lookupEnv d =
     d\<lparr>da_Providers := map (\<lambda>(name, p). (name, map_option (env_override lookupEnv name) p)) (da_Providers d)\<rparr>"

definition getenv :: "(string \<Rightarrow> string option) \<Rightarrow> string \<Rightarrow> string" where
  "getenv lookupEnv name = (case lookupEnv name of None \<Rightarrow> [] | Some v \<Rightarrow> v)"

definition loadTailscaleAuthKeyEnvOverrides :: "(string \<Rightarrow> string option) \<Rightarrow> Data \<Rightarrow> Data" where
  "loadTailscaleAuthKeyEnvOverrides lookupEnv d =
     (let authKey = getenv lookupEnv ''TSDPROXY_AUTHKEY''
      in if authKey = [] then d
         else d\<lparr>da_Providers := map (apsnd (map_option (\<lambda>p. if tsc_AuthKey p = [] then p\<lparr>tsc_AuthKey := authKey\<rparr> else p))) (da_Providers d)\<rparr>)"

definition applyDockerDefaults :: "bool \<Rightarrow> Data \<Rightarrow> Data" where
  "applyDockerDefaults inDocker d =
     (if \<not> inDocker then d
      else d\<lparr>da_HTTPHostname := (if da_HTTPHostname d = ''127.0.0.1'' then ''0.0.0.0'' else da_HTTPHostname d), da_AdminAllowLocalhost := True\<rparr>)"

section \<open>The default configuration\<close>

text \<open>\<open>docker\<close> and \<open>server\<close> are entries with the defaults of their types; \<open>hostResolves\<close>: \<^verbatim>\<open>host.docker.internal\<close> can be looked up.\<close>

definition generateDockerConfig :: "(string \<Rightarrow> string option) \<Rightarrow> bool \<Rightarrow> docker_entry \<Rightarrow> Data \<Rightarrow> Data" where
  "generateDockerConfig lookupEnv hostResolves docker d =
     (let host = getenv lookupEnv ''DOCKER_HOST''; name = getenv lookupEnv ''TSDPROXY_HOSTNAME'';
          e1 = (if host \<noteq> [] then docker\<lparr>dk_Host := host\<rparr> else docker);
          e2 = (if name \<noteq> [] then e1\<lparr>dk_TargetHostname := name\<rparr> else e1);
          e3 = (if hostResolves then e2\<lparr>dk_TargetHostname := ''host.docker.internal''\<rparr> else e2)
      in d\<lparr>da_Docker := gm_put ''local'' (Some e3) (da_Docker d)\<rparr>)"

definition generateTailscaleConfig :: "(string \<Rightarrow> string option) \<Rightarrow> server_config \<Rightarrow> Data \<Rightarrow> Data" where
  "generateTailscaleConfig lookupEnv server d =
     (let authKeyFile = getenv lookupEnv ''TSDPROXY_AUTHKEYFILE''; controlURL = getenv lookupEnv ''TSDPROXY_CONTROLURL'';
          dataDir = getenv lookupEnv ''TSDPROXY_DATADIR'';
          s1 = (if authKeyFile \<noteq> [] then server\<lparr>tsc_AuthKeyFile := authKeyFile\<rparr> else server);
          s2 = (if controlURL \<noteq> [] then s1\<lparr>tsc_ControlURL := controlURL\<rparr> else s1);
          d1 = (if dataDir \<noteq> [] then d\<lparr>da_DataDir := dataDir\<rparr> else d);
          d2 = d1\<lparr>da_Providers := gm_put ''default'' (Some s2) (da_Providers d1)\<rparr>
      in if da_DefaultProxyProvider d2 = [] then d2\<lparr>da_DefaultProxyProvider := ''default''\<rparr> else d2)"

text \<open>What the process finds when it starts; \<open>ie_load\<close> is the decoded file, \<open>None\<close> when there is none.\<close>

record init_env =
  ie_load :: "string + Data option"
  ie_setDefaults :: "Data \<Rightarrow> Data"
  ie_lookupEnv :: "string \<Rightarrow> string option"
  ie_inDocker :: bool
  ie_hostResolves :: bool
  ie_docker :: docker_entry
  ie_server :: server_config
  ie_save :: bool
  ie_files :: file_env
  ie_structOK :: "Data \<Rightarrow> bool"
  ie_parseDuration :: "string \<Rightarrow> int option"

definition loadConfigFile :: "init_env \<Rightarrow> Data \<Rightarrow> init_error + Data" where
  "loadConfigFile env cfg =
     (case ie_load env of
        Inl e \<Rightarrow> Inl (LoadError e)
      | Inr (Some d) \<Rightarrow> Inr d
      | Inr None \<Rightarrow>
          (let d1 = applyDockerDefaults (ie_inDocker env) (ie_setDefaults env cfg);
               d2 = generateTailscaleConfig (ie_lookupEnv env) (ie_server env)
                      (generateDockerConfig (ie_lookupEnv env) (ie_hostResolves env) (ie_docker env) d1)
           in if ie_save env then Inr d2 else Inl SaveError))"

definition empty_data :: Data where
  "empty_data = \<lparr>da_Providers = [], da_DataDir = [], da_Docker = [], da_Incus = [], da_Proxmox = [], da_DNSProviders = [], da_TLSProviders = [],
     da_DefaultProxyProvider = [], da_DefaultDNSProvider = [], da_DefaultTLSProvider = [], da_APIKey = [], da_APIKeyFile = [], da_HTTPHostname = [],
     da_AdminAllowLocalhost = False\<rparr>"

definition InitializeConfig :: "init_env \<Rightarrow> init_error + Data" where
  "InitializeConfig env =
     and_then (loadConfigFile env empty_data) (\<lambda>d.
       and_then (loadSecretsFromFiles (ie_files env) (applyDockerDefaults (ie_inDocker env) (ie_setDefaults env d))) (\<lambda>d.
         config_validate (ie_structOK env) (ie_parseDuration env)
           (LoadTailscaleEnvOverrides (ie_lookupEnv env) (loadTailscaleAuthKeyEnvOverrides (ie_lookupEnv env) d))))"

section \<open>Lemmas\<close>

definition server_sound :: "server_config \<Rightarrow> bool" where
  "server_sound p \<longleftrightarrow>
     \<not> (tsc_Shared p \<and> tsc_Services p) \<and> (tsc_Hostname p = [] \<longrightarrow> \<not> tsc_Shared p \<and> \<not> tsc_Services p) \<and>
     (tsc_Services p \<longrightarrow> hasOAuthCredentials p \<and> tsc_Tags p \<noteq> [])"

lemma servers_check_sound:
  "servers_check parse ps = None \<Longrightarrow> list_all (\<lambda>(_, p). case p of None \<Rightarrow> False | Some p \<Rightarrow> server_sound p) ps"
  by (induction ps) (auto simp: validateServicesProvider_def server_sound_def hasOAuthCredentials_def split: option.splits if_splits)

lemma add_default_provider_sound:
  "add_default_provider has dflt ps = Inr ps' \<Longrightarrow> has dflt \<Longrightarrow>
   keys ps' = keys ps \<and> list_all (\<lambda>(_, p). case p of None \<Rightarrow> False | Some e \<Rightarrow> has (tg_DefaultProxyProvider e)) ps'"
  by (induction ps arbitrary: ps') (auto split: option.splits if_splits sum.splits)

lemma defaultProvider_sound:
  assumes "defaultProvider d = Inr d'"
  shows "hasProxyProvider (da_DefaultProxyProvider d') d' \<and> da_Providers d' = da_Providers d"
  using assms
  by (auto simp: defaultProvider_def getDefaultProxyProvider_def hasProxyProvider_def equal_fold_def split: if_splits sum.splits list.splits)

section \<open>Properties\<close>

definition targets_sound :: "Data \<Rightarrow> (string \<times> 'a target_entry_scheme option) list \<Rightarrow> bool" where
  "targets_sound d ps = list_all (\<lambda>(_, p). case p of None \<Rightarrow> False | Some e \<Rightarrow> hasProxyProvider (tg_DefaultProxyProvider e) d) ps"

text \<open>
  C23: a configuration the program starts with is consistent: there is a proxy provider, the default provider of the
  program and of every Docker, Incus and Proxmox provider exists, no provider is shared and of services at once, both of these modes have
  a host name, and the services mode has credentials and tags.
\<close>

theorem InitializeConfig_sound:
  assumes "InitializeConfig env = Inr d"
  shows "hasProxyProvider (da_DefaultProxyProvider d) d \<and> targets_sound d (da_Docker d) \<and> targets_sound d (da_Incus d) \<and> targets_sound d (da_Proxmox d) \<and>
    list_all (\<lambda>(_, p). case p of None \<Rightarrow> False | Some p \<Rightarrow> server_sound p) (da_Providers d)"
proof -
  from assms obtain d0 where v: "config_validate (ie_structOK env) (ie_parseDuration env) d0 = Inr d"
    by (auto simp: InitializeConfig_def and_then_def split: sum.splits)
  then obtain d1 where s: "validateProxyProviders (ie_parseDuration env) d0 = None" "defaultProvider d0 = Inr d1" "addDefaultProviders d1 = Inr d"
    by (auto simp: config_validate_def split: if_splits option.splits sum.splits)
  note d1 = defaultProvider_sound [OF s(2)]
  from s(3) obtain docker incus proxmox where a: "add_default_provider (\<lambda>n. hasProxyProvider n d1) (da_DefaultProxyProvider d1) (da_Docker d1) = Inr docker"
    "add_default_provider (\<lambda>n. hasProxyProvider n d1) (da_DefaultProxyProvider d1) (da_Incus d1) = Inr incus"
    "add_default_provider (\<lambda>n. hasProxyProvider n d1) (da_DefaultProxyProvider d1) (da_Proxmox d1) = Inr proxmox"
    "d = d1\<lparr>da_Docker := docker, da_Incus := incus, da_Proxmox := proxmox\<rparr>"
    by (auto simp: addDefaultProviders_def Let_def split: sum.splits)
  have has: "hasProxyProvider n (d1\<lparr>da_Docker := docker, da_Incus := incus, da_Proxmox := proxmox\<rparr>) = hasProxyProvider n d1" for n
    by (simp add: hasProxyProvider_def)
  have "list_all (\<lambda>(_, p). case p of None \<Rightarrow> False | Some p \<Rightarrow> server_sound p) (da_Providers d)"
    using s(1) d1 a(4) by (auto simp: validateProxyProviders_def dest: servers_check_sound split: if_splits)
  with d1 a(4) add_default_provider_sound [OF a(1)] add_default_provider_sound [OF a(2)] add_default_provider_sound [OF a(3)]
  show ?thesis by (simp add: has targets_sound_def cong: option.case_cong)
qed

text \<open>In a container, a host name and a restriction that the file sets are replaced like defaults.\<close>

lemma docker_overrides_explicit: "da_AdminAllowLocalhost (applyDockerDefaults True (d\<lparr>da_AdminAllowLocalhost := False\<rparr>))"
  by (simp add: applyDockerDefaults_def)

text \<open>The variables of a provider with a dash are not those of the comment, and two providers can share them.\<close>

lemma env_prefix_dash: "env_prefix ''my-eu-prod'' = ''TSDPROXY_TAILSCALE_MY_EU_PROD'' \<and> env_prefix ''a-b'' = env_prefix ''a_b''"
  by code_simp

text \<open>The environment never replaces credentials of the file.\<close>

lemma env_override_keeps:
  "(tsc_ClientID p \<noteq> [] \<longrightarrow> tsc_ClientID (env_override lookup name p) = tsc_ClientID p) \<and>
   (tsc_ClientSecret p \<noteq> [] \<longrightarrow> tsc_ClientSecret (env_override lookup name p) = tsc_ClientSecret p)"
  by (auto simp: env_override_def Let_def split: option.splits)

section \<open>Witness\<close>

definition example_server :: server_config where
  "example_server = \<lparr>tsc_Hostname = [], tsc_ClientID = [], tsc_ReconcileInterval = ''0'', tsc_ClientSecret = [], tsc_Tags = [], tsc_ControlURL = [],
     tsc_AuthKey = ''k'', tsc_InitialBackoff = ''2s'', tsc_MaxBackoff = ''30s'', tsc_MaxAttempts = 3, tsc_RetryEnabled = True, tsc_MaxCertConcurrency = 2,
     tsc_PreventDuplicates = False, tsc_Shared = False, tsc_Services = False, tsc_AutoApproveDevices = False, tsc_AutoRemoveConflicts = False,
     tsc_AutoProvisionACL = False, tsc_AuthKeyFile = [], tsc_ClientSecretFile = []\<rparr>"

definition example_init_env :: init_env where
  "example_init_env = \<lparr>ie_load = Inr None, ie_setDefaults = (\<lambda>d. d), ie_lookupEnv = (\<lambda>_. None), ie_inDocker = True, ie_hostResolves = True,
     ie_docker = \<lparr>tg_DefaultProxyProvider = [], dk_Host = ''unix:///var/run/docker.sock'', dk_TargetHostname = ''172.31.0.1''\<rparr>, ie_server = example_server,
     ie_save = True, ie_files = \<lparr>fe_getwd = None, fe_evalSymlinks = Some, fe_isRegular = (\<lambda>_. Some True), fe_readFile = (\<lambda>_. None)\<rparr>,
     ie_structOK = (\<lambda>_. True), ie_parseDuration = (\<lambda>_. Some 0)\<rparr>"

theorem InitializeConfig_sound_witness:
  "\<exists>d. InitializeConfig example_init_env = Inr d \<and> hasProxyProvider (da_DefaultProxyProvider d) d \<and> keys (da_Docker d) = [''local'']"
proof -
  have ok: "isl (InitializeConfig example_init_env) = False" by code_simp
  then obtain d where d: "InitializeConfig example_init_env = Inr d" by (cases "InitializeConfig example_init_env") simp_all
  have "keys (da_Docker (projr (InitializeConfig example_init_env))) = [''local'']" by code_simp
  with d InitializeConfig_sound [OF d] show ?thesis by simp
qed

end
