(* ===== verification/Webhook.thy ===== *)
theory Webhook
  imports Http_Identity "HOL-Library.Multiset"
begin

text \<open>
  \<^verbatim>\<open>src/internal/core/webhook/webhook.go\<close>: status events of proxies are posted to webhooks. An event is put into a
  bounded queue for each webhook whose filter it passes; eight workers drain the queue and retry. Templates, the
  rendering of JSON and the HTTP client are parameters. Payloads are JSON values.
\<close>

section \<open>Events and payloads\<close>

record WebhookConfig =
  wc_Headers :: "(string, string) gomap"
  wc_URL :: string
  wc_Type :: string
  wc_Template :: string
  wc_TemplateContentType :: string
  wc_Events :: "string list"

record WebhookEvent =
  we_ProxyName :: string
  we_Status :: string
  we_OldStatus :: string
  we_Timestamp :: string
  we_Message :: string

datatype json = JStr string | JNum int | JBool bool | JArr "json list" | JObj "(string \<times> json) list"

datatype payload = JSONBody json | TextBody string

definition contentTypeJSON :: string where "contentTypeJSON = ''application/json''"
definition contentTypeTextPlain :: string where "contentTypeTextPlain = ''text/plain''"

definition NewEvent :: "string \<Rightarrow> string \<Rightarrow> ProxyStatus \<Rightarrow> ProxyStatus \<Rightarrow> WebhookEvent" where
  "NewEvent now proxyName oldStatus newStatus =
     (let s = ProxyStatus_String (ProxyStatus_iota newStatus); s0 = ProxyStatus_String (ProxyStatus_iota oldStatus)
      in \<lparr>we_ProxyName = proxyName, we_Status = s, we_OldStatus = s0, we_Timestamp = now,
          we_Message = ''Proxy '' @ [CHR 0x27] @ proxyName @ [CHR 0x27] @ '' status changed from '' @ s0 @ '' to '' @ s\<rparr>)"

definition eventMatchesFilter :: "WebhookEvent \<Rightarrow> string list \<Rightarrow> bool" where
  "eventMatchesFilter ev flt \<longleftrightarrow> flt = [] \<or> list_ex (\<lambda>f. equal_fold f (we_Status ev)) flt"

text \<open>An at sign is followed by a zero-width space, in UTF-8.\<close>

definition sanitizeWebhookField :: "string \<Rightarrow> string" where
  "sanitizeWebhookField s = concat (map (\<lambda>c. if c = CHR ''@'' then [CHR ''@'', CHR 0xE2, CHR 0x80, CHR 0x8B] else [c]) s)"

definition discordColor :: "string \<Rightarrow> int" where
  "discordColor status =
     (let s = to_lower status
      in if s = ''running'' then 5763719
         else if s \<in> set [''error'', ''stopped'', ''stopping'', ''authfailed''] then 15548997
         else if s \<in> set [''authenticating'', ''awaitingapproval'', ''paused''] then 16098851
         else if s = ''deviceconflict'' then 16426522
         else if s \<in> set [''reconciling'', ''initializing'', ''starting''] then 3447003
         else 5766978)"

definition formatGeneric :: "WebhookEvent \<Rightarrow> payload \<times> string" where
  "formatGeneric ev =
     (JSONBody (JObj [(''proxy'', JStr (we_ProxyName ev)), (''status'', JStr (we_Status ev)), (''previousStatus'', JStr (we_OldStatus ev)),
                      (''timestamp'', JStr (we_Timestamp ev)), (''message'', JStr (we_Message ev))]), contentTypeJSON)"

definition discord_field :: "string \<Rightarrow> string \<Rightarrow> json" where
  "discord_field name value = JObj [(''name'', JStr name), (''value'', JStr value), (''inline'', JBool True)]"

definition formatDiscord :: "WebhookEvent \<Rightarrow> payload \<times> string" where
  "formatDiscord ev =
     (JSONBody (JObj [(''embeds'', JArr [JObj [
        (''title'', JStr ''TSDProxy Status Update''),
        (''fields'', JArr [discord_field ''Proxy'' (sanitizeWebhookField (we_ProxyName ev)), discord_field ''Status'' (we_Status ev),
                           discord_field ''Previous'' (we_OldStatus ev)]),
        (''timestamp'', JStr (we_Timestamp ev)), (''color'', JNum (discordColor (we_Status ev)))]])]), contentTypeJSON)"

definition backquoted :: "string \<Rightarrow> string" where
  "backquoted s = [CHR 0x60] @ s @ [CHR 0x60]"

definition formatSlack :: "WebhookEvent \<Rightarrow> payload \<times> string" where
  "formatSlack ev =
     (let name = sanitizeWebhookField (we_ProxyName ev); nl = [CHR 0x0A]
      in (JSONBody (JObj [
            (''text'', JStr (''TSDProxy: Proxy '' @ backquoted name @ '' status changed to '' @ backquoted (we_Status ev))),
            (''blocks'', JArr [JObj [(''type'', JStr ''section''), (''text'', JObj [(''type'', JStr ''mrkdwn''),
              (''text'', JStr (''*TSDProxy Status Update*'' @ nl @ ''Proxy: '' @ backquoted name @ nl @ ''Status: '' @ backquoted (we_Status ev) @ nl @
                 ''Previous: '' @ backquoted (we_OldStatus ev)))])]])]), contentTypeJSON))"

definition formatNtfy :: "WebhookEvent \<Rightarrow> payload \<times> string" where
  "formatNtfy ev =
     (TextBody (''Proxy: '' @ sanitizeWebhookField (we_ProxyName ev) @ [CHR 0x0A] @ ''Status: '' @ we_Status ev @ [CHR 0x0A] @ ''Previous: '' @ we_OldStatus ev),
      contentTypeTextPlain)"

definition redactURL :: "string \<Rightarrow> string" where
  "redactURL rawURL = (case url_parse rawURL of None \<Rightarrow> ''<invalid-url>'' | Some u \<Rightarrow> u_scheme u @ ''://'' @ u_host u)"

section \<open>Sending\<close>

record webhook_request =
  rq_URL :: string
  rq_Header :: header
  rq_Body :: payload

datatype send_error = RenderError | RequestError | DoError string | BadStatus int

text \<open>
  \<open>wn_template\<close> is the template of a webhook, if it has one that parses: its rendering of an event;
  \<open>wn_do\<close> the answer of the server: an error or a status.
\<close>

record webhook_env =
  wn_template :: "nat \<Rightarrow> (WebhookEvent \<Rightarrow> string option) option"
  wn_do :: "webhook_request \<Rightarrow> string + int"

definition webhookMaxStatus :: int where "webhookMaxStatus = 300"

definition webhook_payload :: "webhook_env \<Rightarrow> nat \<Rightarrow> WebhookConfig \<Rightarrow> WebhookEvent \<Rightarrow> (payload \<times> string) option" where
  "webhook_payload env index cfg ev =
     (case wn_template env index of
        Some tmpl \<Rightarrow> map_option (\<lambda>s. (TextBody s, if wc_TemplateContentType cfg \<noteq> [] then wc_TemplateContentType cfg else contentTypeJSON)) (tmpl ev)
      | None \<Rightarrow>
          Some (if to_lower (wc_Type cfg) = ''discord'' then formatDiscord ev
                else if to_lower (wc_Type cfg) = ''slack'' then formatSlack ev
                else if to_lower (wc_Type cfg) = ''ntfy'' then formatNtfy ev
                else formatGeneric ev))"

definition sendOne :: "webhook_env \<Rightarrow> nat \<Rightarrow> WebhookConfig \<Rightarrow> WebhookEvent \<Rightarrow> send_error option" where
  "sendOne env index cfg ev =
     (case webhook_payload env index cfg ev of
        None \<Rightarrow> Some RenderError
      | Some (body, contentType) \<Rightarrow>
          if url_parse (wc_URL cfg) = None then Some RequestError
          else let hdr = fold (\<lambda>(k, v). h_set k v) (wc_Headers cfg) (h_set ''Content-Type'' contentType [])
               in case wn_do env \<lparr>rq_URL = wc_URL cfg, rq_Header = hdr, rq_Body = body\<rparr> of
                    Inl e \<Rightarrow> Some (DoError e)
                  | Inr status \<Rightarrow> if status \<ge> webhookMaxStatus then Some (BadStatus status) else None)"

definition maxRetries :: nat where "maxRetries = 3"

datatype retry_result = Sent | SendCanceled | SendFailed

text \<open>
  \<^verbatim>\<open>sendWithRetry\<close>: \<open>done\<close> and \<open>doneWait\<close> say whether the context of the sender has ended before an attempt and in the wait
  after it, \<open>send\<close> is the result of each attempt. The waits, in nanoseconds, are part of the result.
\<close>

fun webhook_retry :: "(nat \<Rightarrow> bool) \<Rightarrow> (nat \<Rightarrow> bool) \<Rightarrow> (nat \<Rightarrow> send_error option) \<Rightarrow> nat \<Rightarrow> nat \<Rightarrow> int \<Rightarrow> retry_result \<times> int list" where
  "webhook_retry ctxDone doneWait send attempt 0 backoff = (SendFailed, [])"
| "webhook_retry ctxDone doneWait send attempt (Suc n) backoff =
     (if ctxDone attempt then (SendCanceled, [])
      else case send attempt of
             None \<Rightarrow> (Sent, [])
           | Some e \<Rightarrow>
               if attempt < maxRetries
               then (if doneWait attempt then (SendCanceled, [backoff])
                     else apsnd ((#) backoff) (webhook_retry ctxDone doneWait send (attempt + 1) n (backoff * 2)))
               else webhook_retry ctxDone doneWait send (attempt + 1) n backoff)"

definition sendWithRetry :: "(nat \<Rightarrow> bool) \<Rightarrow> (nat \<Rightarrow> bool) \<Rightarrow> (nat \<Rightarrow> webhook_env) \<Rightarrow> nat \<Rightarrow> WebhookConfig \<Rightarrow> WebhookEvent \<Rightarrow> retry_result \<times> int list" where
  "sendWithRetry ctxDone doneWait env index cfg ev = webhook_retry ctxDone doneWait (\<lambda>a. sendOne (env a) index cfg ev) 1 maxRetries 1000000000"

text \<open>\<^verbatim>\<open>SendSync\<close>: the first error, after all matching webhooks were tried.\<close>

definition SendSync :: "(nat \<Rightarrow> WebhookConfig \<Rightarrow> retry_result) \<Rightarrow> WebhookConfig list \<Rightarrow> WebhookEvent \<Rightarrow> retry_result option" where
  "SendSync sendRetry configs ev =
     List.find (\<lambda>r. r \<noteq> Sent)
       (map (\<lambda>(i, cfg). sendRetry i cfg) (filter (\<lambda>(i, cfg). eventMatchesFilter ev (wc_Events cfg)) (enumerate 0 configs)))"

section \<open>The sender\<close>

record sendJob =
  sj_event :: WebhookEvent
  sj_cfg :: WebhookConfig
  sj_index :: nat

datatype worker = WorkerIdle | WorkerBusy sendJob | WorkerExited

definition webhookWorkers :: nat where "webhookWorkers = 8"
definition webhookQueueSize :: nat where "webhookQueueSize = 256"

text \<open>
  The last three fields are not in the code: the jobs that were put into the queue, those a worker is through with, and those that
  were dropped.
\<close>

record Sender =
  ws_configs :: "WebhookConfig list"
  ws_queue :: "sendJob list"
  ws_workers :: "worker list"
  ws_started :: bool
  ws_closed :: bool
  ws_closeReturned :: bool
  ws_accepted :: "sendJob list"
  ws_finished :: "sendJob list"
  ws_dropped :: "sendJob list"

definition NewSender :: "WebhookConfig list \<Rightarrow> Sender" where
  "NewSender configs = \<lparr>ws_configs = configs, ws_queue = [], ws_workers = [], ws_started = False, ws_closed = False, ws_closeReturned = False,
     ws_accepted = [], ws_finished = [], ws_dropped = []\<rparr>"

definition Sender_Start :: "Sender \<Rightarrow> Sender" where
  "Sender_Start s = s\<lparr>ws_workers := ws_workers s @ replicate webhookWorkers WorkerIdle, ws_started := True\<rparr>"

definition send_job :: "sendJob \<Rightarrow> Sender \<Rightarrow> Sender" where
  "send_job job s =
     (if length (ws_queue s) < webhookQueueSize
      then s\<lparr>ws_queue := ws_queue s @ [job], ws_accepted := job # ws_accepted s\<rparr> else s\<lparr>ws_dropped := job # ws_dropped s\<rparr>)"

definition Sender_Send :: "WebhookEvent \<Rightarrow> Sender \<Rightarrow> Sender" where
  "Sender_Send ev s =
     (if ws_closed s then s
      else fold (\<lambda>(i, cfg). send_job \<lparr>sj_event = ev, sj_cfg = cfg, sj_index = i\<rparr>)
             (filter (\<lambda>(i, cfg). eventMatchesFilter ev (wc_Events cfg)) (enumerate 0 (ws_configs s))) s)"

definition worker_take :: "nat \<Rightarrow> Sender \<Rightarrow> Sender" where
  "worker_take w s =
     (case ws_queue s of
        job # q \<Rightarrow> s\<lparr>ws_queue := q, ws_workers := (ws_workers s)[w := WorkerBusy job]\<rparr>
      | [] \<Rightarrow> if ws_closed s then s\<lparr>ws_workers := (ws_workers s)[w := WorkerExited]\<rparr> else s)"

definition worker_finish :: "nat \<Rightarrow> Sender \<Rightarrow> Sender" where
  "worker_finish w s =
     (case ws_workers s ! w of
        WorkerBusy job \<Rightarrow> s\<lparr>ws_workers := (ws_workers s)[w := WorkerIdle], ws_finished := job # ws_finished s\<rparr>
      | _ \<Rightarrow> s)"

text \<open>\<^verbatim>\<open>Close\<close> closes the queue, waits for the workers, and only then cancels the context of their requests.\<close>

inductive sender_step :: "Sender \<Rightarrow> Sender \<Rightarrow> bool" where
  WsStart: "\<not> ws_started s \<Longrightarrow> sender_step s (Sender_Start s)"
| WsSend: "sender_step s (Sender_Send ev s)"
| WsTake: "w < length (ws_workers s) \<Longrightarrow> ws_workers s ! w = WorkerIdle \<Longrightarrow> sender_step s (worker_take w s)"
| WsFinish: "w < length (ws_workers s) \<Longrightarrow> ws_workers s ! w = WorkerBusy job \<Longrightarrow> sender_step s (worker_finish w s)"
| WsClose: "\<not> ws_closed s \<Longrightarrow> sender_step s (s\<lparr>ws_closed := True\<rparr>)"
| WsCloseReturns: "ws_closed s \<Longrightarrow> \<forall>w \<in> set (ws_workers s). w = WorkerExited \<Longrightarrow> sender_step s (s\<lparr>ws_closeReturned := True\<rparr>)"

definition busy_jobs :: "worker list \<Rightarrow> sendJob list" where
  "busy_jobs ws = List.map_filter (\<lambda>w. case w of WorkerBusy job \<Rightarrow> Some job | _ \<Rightarrow> None) ws"

definition sender_inv :: "Sender \<Rightarrow> bool" where
  "sender_inv s \<longleftrightarrow>
     length (ws_queue s) \<le> webhookQueueSize \<and>
     mset (ws_accepted s) = mset (ws_queue s) + mset (busy_jobs (ws_workers s)) + mset (ws_finished s) \<and>
     length (ws_workers s) = (if ws_started s then webhookWorkers else 0) \<and>
     (WorkerExited \<in> set (ws_workers s) \<longrightarrow> ws_closed s \<and> ws_queue s = []) \<and>
     (ws_closeReturned s \<longrightarrow> ws_closed s)"

lemma busy_jobs_append: "busy_jobs (xs @ ys) = busy_jobs xs @ busy_jobs ys"
  by (simp add: busy_jobs_def List.map_filter_def)

lemma busy_jobs_update:
  assumes "w < length ws"
  shows "mset (busy_jobs (ws[w := x])) + mset (busy_jobs [ws ! w]) = mset (busy_jobs ws) + mset (busy_jobs [x])"
proof -
  have "ws = take w ws @ [ws ! w] @ drop (Suc w) ws" using assms by (simp add: id_take_nth_drop)
  then have "busy_jobs ws = busy_jobs (take w ws) @ busy_jobs [ws ! w] @ busy_jobs (drop (Suc w) ws)" by (metis busy_jobs_append)
  moreover have "ws[w := x] = take w ws @ [x] @ drop (Suc w) ws" using assms by (simp add: upd_conv_take_nth_drop)
  then have "busy_jobs (ws[w := x]) = busy_jobs (take w ws) @ busy_jobs [x] @ busy_jobs (drop (Suc w) ws)" by (metis busy_jobs_append)
  ultimately show ?thesis by simp
qed

lemma busy_one [simp]: "busy_jobs [WorkerIdle] = []" "busy_jobs [WorkerExited] = []" "busy_jobs [WorkerBusy j] = [j]" "busy_jobs [] = []"
  by (simp_all add: busy_jobs_def List.map_filter_simps)

lemma busy_replicate: "busy_jobs (replicate n WorkerIdle) = []"
  by (induction n) (simp_all add: busy_jobs_def List.map_filter_simps)

lemma send_job_inv: "sender_inv s \<Longrightarrow> \<not> ws_closed s \<Longrightarrow> sender_inv (send_job job s) \<and> \<not> ws_closed (send_job job s)"
  by (auto simp: sender_inv_def send_job_def)

lemma send_jobs_inv: "sender_inv s \<Longrightarrow> \<not> ws_closed s \<Longrightarrow> sender_inv (fold (\<lambda>(i, cfg). send_job (job i cfg)) xs s)"
  by (induction xs arbitrary: s) (auto simp: send_job_inv split_beta)

interpretation sender: invariant_system "\<lambda>s. s = NewSender configs" sender_step sender_inv
proof unfold_locales
  show "s = NewSender configs \<Longrightarrow> sender_inv s" for s by (simp add: sender_inv_def NewSender_def)
  fix s s' assume inv: "sender_inv s" and "sender_step s s'"
  from this(2) show "sender_inv s'"
  proof cases
    case WsStart
    then show ?thesis using inv by (auto simp: sender_inv_def Sender_Start_def busy_jobs_append busy_replicate)
  next
    case (WsSend ev)
    then show ?thesis
      using inv send_jobs_inv [OF inv, of "\<lambda>i cfg. \<lparr>sj_event = ev, sj_cfg = cfg, sj_index = i\<rparr>"] by (simp add: Sender_Send_def)
  next
    case (WsTake w)
    show ?thesis
    proof (cases "ws_queue s")
      case Nil
      then show ?thesis using WsTake inv busy_jobs_update [OF WsTake(2), of WorkerExited] by (auto simp: sender_inv_def worker_take_def)
    next
      case (Cons job q)
      then have "WorkerExited \<notin> set (ws_workers s)" using inv by (auto simp: sender_inv_def)
      then have "WorkerExited \<notin> set ((ws_workers s)[w := WorkerBusy job])" by (metis insertE set_update_subset_insert subsetD worker.distinct(6))
      then show ?thesis using Cons WsTake inv busy_jobs_update [OF WsTake(2), of "WorkerBusy job"] by (auto simp: sender_inv_def worker_take_def)
    qed
  next
    case (WsFinish w job)
    have "WorkerExited \<in> set ((ws_workers s)[w := WorkerIdle]) \<Longrightarrow> WorkerExited \<in> set (ws_workers s)"
      by (metis insertE set_update_subset_insert subsetD worker.distinct(4))
    then show ?thesis using WsFinish inv busy_jobs_update [OF WsFinish(2), of WorkerIdle] by (auto simp: sender_inv_def worker_finish_def)
  qed (use inv in \<open>auto simp: sender_inv_def\<close>)
qed


definition worker_work :: "worker \<Rightarrow> nat" where
  "worker_work w = (case w of WorkerIdle \<Rightarrow> 1 | WorkerBusy _ \<Rightarrow> 2 | WorkerExited \<Rightarrow> 0)"

definition close_work :: "Sender \<Rightarrow> nat" where
  "close_work s = 3 * length (ws_queue s) + sum_list (map worker_work (ws_workers s))"

lemma sum_update:
  assumes "w < length ws"
  shows "sum_list (map f (ws[w := x])) + f (ws ! w) = sum_list (map f ws) + (f x :: nat)"
proof -
  have "f (ws ! w) \<le> sum_list (map f ws)" using assms by (metis elem_le_sum_list length_map nth_map)
  then show ?thesis using assms by (simp add: map_update sum_list_update)
qed

text \<open>A closed sender: what is not drained yet shrinks with each step of a worker, and some worker has a step until all have exited.\<close>

lemma worker_take_drains:
  assumes "w < length (ws_workers s)" "ws_closed s" "ws_workers s ! w = WorkerIdle"
  shows "close_work (worker_take w s) < close_work s \<and> ws_closed (worker_take w s)"
  using sum_update [OF assms(1), of worker_work WorkerExited] sum_update [OF assms(1), of worker_work "WorkerBusy (hd (ws_queue s))"] assms(2,3)
  by (auto simp: worker_take_def close_work_def worker_work_def split: list.splits)

lemma worker_finish_drains:
  assumes "w < length (ws_workers s)" "ws_closed s" "ws_workers s ! w = WorkerBusy job"
  shows "close_work (worker_finish w s) < close_work s \<and> ws_closed (worker_finish w s)"
  using sum_update [OF assms(1), of worker_work WorkerIdle] assms(2,3)
  by (auto simp: worker_finish_def close_work_def worker_work_def)

lemma busy_all_exited: "\<forall>w \<in> set ws. w = WorkerExited \<Longrightarrow> busy_jobs ws = []"
  by (induction ws) (simp_all add: busy_jobs_def List.map_filter_simps)

definition worker_step :: "nat \<Rightarrow> Sender \<Rightarrow> Sender" where
  "worker_step w s = (case ws_workers s ! w of WorkerIdle \<Rightarrow> worker_take w s | WorkerBusy _ \<Rightarrow> worker_finish w s | WorkerExited \<Rightarrow> s)"

text \<open>
  C36: A webhook sender loses nothing that it took. In every state it can reach the queue holds at most 256 jobs, and the jobs that were
  accepted are those in the queue, those a worker is sending, and those sent or given up. Once it is closed, each
  step of a worker that has not exited leaves less to do, whatever is sent meanwhile, so that \<^verbatim>\<open>Close\<close> returns; and when all workers
  of a started sender have exited, every accepted job was processed.
\<close>
theorem webhook_conserves:
  assumes "reach (\<lambda>s. s = NewSender configs) sender_step s"
  shows "length (ws_queue s) \<le> 256
    \<and> mset (ws_accepted s) = mset (ws_queue s) + mset (busy_jobs (ws_workers s)) + mset (ws_finished s)
    \<and> (ws_closed s \<longrightarrow> Sender_Send ev s = s
         \<and> (\<forall>w < length (ws_workers s). ws_workers s ! w \<noteq> WorkerExited
              \<longrightarrow> sender_step s (worker_step w s) \<and> ws_closed (worker_step w s) \<and> close_work (worker_step w s) < close_work s)
         \<and> ((\<forall>w \<in> set (ws_workers s). w = WorkerExited) \<and> ws_started s \<longrightarrow> ws_queue s = [] \<and> mset (ws_finished s) = mset (ws_accepted s)))"
proof (intro conjI impI allI)
  have inv: "sender_inv s" using assms by (rule sender.reach_inv)
  show "length (ws_queue s) \<le> 256" "mset (ws_accepted s) = mset (ws_queue s) + mset (busy_jobs (ws_workers s)) + mset (ws_finished s)"
    using inv by (auto simp: sender_inv_def webhookQueueSize_def)
  {
    assume "ws_closed s" then show "Sender_Send ev s = s" by (simp add: Sender_Send_def)
  next
    fix w assume "ws_closed s" "w < length (ws_workers s)" "ws_workers s ! w \<noteq> WorkerExited"
    then show "sender_step s (worker_step w s)" "ws_closed (worker_step w s)" "close_work (worker_step w s) < close_work s"
      using worker_take_drains worker_finish_drains
      by (auto simp: worker_step_def split: worker.splits intro: sender_step.WsTake sender_step.WsFinish)
  next
    assume "ws_closed s" "(\<forall>w \<in> set (ws_workers s). w = WorkerExited) \<and> ws_started s"
    moreover from this have "WorkerExited \<in> set (ws_workers s)" using inv
      by (cases "ws_workers s") (auto simp: sender_inv_def webhookWorkers_def)
    ultimately show "ws_queue s = []" "mset (ws_finished s) = mset (ws_accepted s)"
      using inv busy_all_exited by (auto simp: sender_inv_def)
  }
qed

definition ev_sample :: WebhookEvent where
  "ev_sample = \<lparr>we_ProxyName = ''app'', we_Status = ''Running'', we_OldStatus = ''Starting'', we_Timestamp = [], we_Message = []\<rparr>"

definition cfg_sample :: WebhookConfig where
  "cfg_sample = \<lparr>wc_Headers = [], wc_URL = ''https://h/x'', wc_Type = ''slack'', wc_Template = [], wc_TemplateContentType = [], wc_Events = []\<rparr>"

definition sent_sample :: Sender where
  "sent_sample = Sender_Send ev_sample (Sender_Start (NewSender [cfg_sample]))"

lemma sent_sample_reach: "reach (\<lambda>s. s = NewSender [cfg_sample]) sender_step sent_sample"
proof -
  have "reach (\<lambda>s. s = NewSender [cfg_sample]) sender_step (Sender_Start (NewSender [cfg_sample]))"
    by (rule reach_step [OF reach_init], rule refl, rule WsStart) (simp add: NewSender_def)
  then show ?thesis unfolding sent_sample_def by (rule reach_step) (rule WsSend)
qed

theorem webhook_conserves_witness:
  "length (ws_queue sent_sample) = 1 \<and> mset (ws_accepted sent_sample) = mset (ws_queue sent_sample) + mset (busy_jobs (ws_workers sent_sample)) + mset (ws_finished sent_sample)"
  using webhook_conserves [OF sent_sample_reach, of ev_sample]
  by (simp add: sent_sample_def Sender_Send_def send_job_def Sender_Start_def NewSender_def webhookQueueSize_def eventMatchesFilter_def cfg_sample_def)

text \<open>
  A delivery makes at most three attempts, one second and then two apart. It succeeds exactly if one of the attempts does,
  and the later ones are not made, when the context of the sender does not end meanwhile.
\<close>
theorem sendWithRetry_spec:
  "sendWithRetry (\<lambda>_. False) (\<lambda>_. False) env index cfg ev =
     (let ok = (\<lambda>a. sendOne (env a) index cfg ev = None)
      in if ok 1 then (Sent, []) else if ok 2 then (Sent, [1000000000])
         else (if ok 3 then Sent else SendFailed, [1000000000, 2000000000]))"
  by (simp add: sendWithRetry_def maxRetries_def eval_nat_numeral split: option.splits)

end
