(* ===== verification/Proxmox_Notes.thy ===== *)
theory Proxmox_Notes
  imports Docker_Target
begin

text \<open>
  \<^verbatim>\<open>src/internal/targetproviders/proxmox/notes.go\<close>: the settings of a Proxmox guest are YAML in its notes, in
  two styles that can be mixed: flat keys like the labels of Docker, and the structure of the list provider. Decoding
  YAML (generic and into structs) and base64 are parameters; a decoded value is a tree.
\<close>

section \<open>Values of a document\<close>

text \<open>
  Keys that are not strings make a map of another Go type, \<open>YAnyMap\<close>. A float is given as it is printed. \<open>YOther\<close> is
  a value of any other type, like a time.
\<close>

datatype ykey = KStr string | KInt int | KBool bool | KFloat string | KNull

datatype yaml =
    YStr string
  | YBool bool
  | YInt int
  | YFloat string
  | YNull
  | YSeq "yaml list"
  | YMap "(string \<times> yaml) list"
  | YAnyMap "(ykey \<times> yaml) list"
  | YOther

record notesPort =
  np_Targets :: "string list"
  np_Tailscale :: TailscalePort
  np_IsRedirect :: bool
  np_TLSValidate :: bool

record notesConfig =
  nc_Settings :: "(string, string) gomap"
  nc_Ports :: "(string, notesPort) gomap"
  nc_Enable :: bool

record listDashboard =
  ld_Label :: "string option"
  ld_Icon :: "string option"
  ld_Category :: "string option"
  ld_Visible :: "bool option"

record listTailscale =
  lt_Tags :: "string option"
  lt_Ephemeral :: "bool option"
  lt_RunWebClient :: "bool option"
  lt_Verbose :: "bool option"
  lt_AuthKey :: "string option"

record listFields =
  lf_Hostname :: "string option"
  lf_ProxyProvider :: "string option"
  lf_DNSProvider :: "string option"
  lf_TLSProvider :: "string option"
  lf_IdentityHeaders :: "bool option"
  lf_Dashboard :: "listDashboard option"
  lf_Tailscale :: "listTailscale option"

text \<open>
  What the libraries decode: a document, base64 in two alphabets, the fields of a block, and ports, each without a body or
  with the defaults of \<^verbatim>\<open>UnmarshalYAML\<close> where it has none.
\<close>

record notes_env =
  ye_doc :: "string \<Rightarrow> (string \<times> yaml) list option"
  ye_b64Std :: "string \<Rightarrow> string option"
  ye_b64URL :: "string \<Rightarrow> string option"
  ye_fields :: "(string \<times> yaml) list \<Rightarrow> listFields option"
  ye_ports :: "yaml \<Rightarrow> (string, notesPort option) gomap option"

section \<open>Keys of settings\<close>

definition ConfigPrefix :: string where "ConfigPrefix = ''tsdproxy.''"
definition ConfigIsEnabled :: string where "ConfigIsEnabled = ConfigPrefix @ ''enable''"
definition ConfigName :: string where "ConfigName = ConfigPrefix @ ''name''"
definition ConfigContainerAccessLog :: string where "ConfigContainerAccessLog = ConfigPrefix @ ''containeraccesslog''"
definition ConfigProxyProvider :: string where "ConfigProxyProvider = ConfigPrefix @ ''proxyprovider''"
definition ConfigPort :: string where "ConfigPort = ConfigPrefix @ ''port.''"
definition ConfigEphemeral :: string where "ConfigEphemeral = ConfigPrefix @ ''ephemeral''"
definition ConfigRunWebClient :: string where "ConfigRunWebClient = ConfigPrefix @ ''runwebclient''"
definition ConfigTsnetVerbose :: string where "ConfigTsnetVerbose = ConfigPrefix @ ''tsnet_verbose''"
definition ConfigAuthKey :: string where "ConfigAuthKey = ConfigPrefix @ ''authkey''"
definition ConfigAuthKeyFile :: string where "ConfigAuthKeyFile = ConfigPrefix @ ''authkeyfile''"
definition ConfigTags :: string where "ConfigTags = ConfigPrefix @ ''tags''"
definition ConfigIdentityHeaders :: string where "ConfigIdentityHeaders = ConfigPrefix @ ''identity_headers''"
definition ConfigAutoRestart :: string where "ConfigAutoRestart = ConfigPrefix @ ''auto_restart''"
definition ConfigHealthCheckEnabled :: string where "ConfigHealthCheckEnabled = ConfigPrefix @ ''health_check_enabled''"
definition ConfigHealthCheckInterval :: string where "ConfigHealthCheckInterval = ConfigPrefix @ ''health_check_interval''"
definition ConfigHealthCheckFailures :: string where "ConfigHealthCheckFailures = ConfigPrefix @ ''health_check_failures''"
definition ConfigHealthCheckCooldown :: string where "ConfigHealthCheckCooldown = ConfigPrefix @ ''health_check_cooldown''"
definition ConfigRateLimitEnabled :: string where "ConfigRateLimitEnabled = ConfigPrefix @ ''ratelimit.enabled''"
definition ConfigRateLimitRPS :: string where "ConfigRateLimitRPS = ConfigPrefix @ ''ratelimit.rps''"
definition ConfigRateLimitBurst :: string where "ConfigRateLimitBurst = ConfigPrefix @ ''ratelimit.burst''"
definition ConfigDashboardVisible :: string where "ConfigDashboardVisible = ConfigPrefix @ ''dash.visible''"
definition ConfigDashboardLabel :: string where "ConfigDashboardLabel = ConfigPrefix @ ''dash.label''"
definition ConfigDashboardIcon :: string where "ConfigDashboardIcon = ConfigPrefix @ ''dash.icon''"
definition ConfigDashboardCategory :: string where "ConfigDashboardCategory = ConfigPrefix @ ''dash.category''"
definition ConfigDomain :: string where "ConfigDomain = ConfigPrefix @ ''domain''"
definition ConfigDNSProvider :: string where "ConfigDNSProvider = ConfigPrefix @ ''dnsprovider''"
definition ConfigTLSProvider :: string where "ConfigTLSProvider = ConfigPrefix @ ''tlsprovider''"
definition notesRootKey :: string where "notesRootKey = ''tsdproxy''"

definition listStyleKeys :: "string list" where
  "listStyleKeys = [''hostname'', ''proxyProvider'', ''dnsProvider'', ''tlsProvider'', ''identityHeaders'', ''dashboard'', ''tailscale'', ''ports'']"

section \<open>Reading a document\<close>

definition key_print :: "ykey \<Rightarrow> string" where
  "key_print k = (case k of KStr s \<Rightarrow> s | KInt i \<Rightarrow> itoa i | KBool b \<Rightarrow> (if b then ''true'' else ''false'') | KFloat s \<Rightarrow> s | KNull \<Rightarrow> ''<nil>'')"

text \<open>Keys that print alike overwrite each other, in the order of iteration.\<close>

primrec normalizeTree :: "yaml \<Rightarrow> yaml" where
  "normalizeTree (YStr s) = YStr s"
| "normalizeTree (YBool b) = YBool b"
| "normalizeTree (YInt i) = YInt i"
| "normalizeTree (YFloat s) = YFloat s"
| "normalizeTree YNull = YNull"
| "normalizeTree (YSeq vs) = YSeq (map normalizeTree vs)"
| "normalizeTree (YMap ps) = YMap (map (map_prod id normalizeTree) ps)"
| "normalizeTree (YAnyMap ps) = YMap (fold (\<lambda>(k, v). gm_put k v) (map (map_prod key_print normalizeTree) ps) [])"
| "normalizeTree YOther = YOther"

definition b64Prefix :: string where "b64Prefix = ''b64:''"
definition base64BlockSize :: nat where "base64BlockSize = 4"

definition padBase64 :: "string \<Rightarrow> string" where
  "padBase64 s =
     (if length s mod base64BlockSize = 2 then s @ ''==''
      else if length s mod base64BlockSize = 3 then s @ ''='' else s)"

definition trim_prefix :: "string \<Rightarrow> string \<Rightarrow> string" where
  "trim_prefix s p = (if has_prefix s p then drop (length p) s else s)"

definition decodeBase64Notes :: "notes_env \<Rightarrow> string \<Rightarrow> string" where
  "decodeBase64Notes env notes =
     (let n = padBase64 (trim_prefix notes b64Prefix)
      in case ye_b64Std env n of
           Some d \<Rightarrow> d
         | None \<Rightarrow> (case ye_b64URL env n of Some d \<Rightarrow> d | None \<Rightarrow> []))"

fun first_doc :: "notes_env \<Rightarrow> string list \<Rightarrow> (string \<times> yaml) list option" where
  "first_doc env [] = None"
| "first_doc env (c # cs) =
     (if c = [] then first_doc env cs
      else case ye_doc env c of
             None \<Rightarrow> first_doc env cs
           | Some doc \<Rightarrow> Some (map (map_prod id normalizeTree) doc))"

definition parseNotesDocument :: "notes_env \<Rightarrow> string \<Rightarrow> (string \<times> yaml) list option" where
  "parseNotesDocument env notes =
     (let trimmed = trim_space notes
      in if trimmed = [] then None else first_doc env [trimmed, decodeBase64Notes env trimmed])"

section \<open>Flat settings\<close>

definition format_bool :: "bool \<Rightarrow> string" where
  "format_bool b = (if b then ''true'' else ''false'')"

definition assignSetting :: "string \<Rightarrow> yaml \<Rightarrow> (string, string) gomap \<Rightarrow> (string, string) gomap" where
  "assignSetting key value settings =
     (case value of
        YStr v \<Rightarrow> gm_put key v settings
      | YBool v \<Rightarrow> gm_put key (format_bool v) settings
      | YInt v \<Rightarrow> gm_put key (itoa v) settings
      | YFloat v \<Rightarrow> gm_put key v settings
      | YNull \<Rightarrow> gm_put key [] settings
      | _ \<Rightarrow> settings)"

function flattenSettings :: "string \<Rightarrow> (string \<times> yaml) list \<Rightarrow> (string, string) gomap \<Rightarrow> (string, string) gomap" where
  "flattenSettings pfx [] settings = settings"
| "flattenSettings pfx ((key, value) # block) settings =
     flattenSettings pfx block
       (if pfx = ConfigPrefix \<and> key \<in> set listStyleKeys then settings
        else case value of
               YMap nested \<Rightarrow> flattenSettings (pfx @ key @ ''.'') nested settings
             | _ \<Rightarrow> assignSetting (pfx @ key) value settings)"
  by pat_completeness auto

termination
  by (relation "measure (\<lambda>(_, ps, _). size_list (\<lambda>p. Suc (size (snd p))) ps)") (auto simp: size_prod_simp)

definition dottedTsdproxyKeys :: "(string \<times> yaml) list \<Rightarrow> (string \<times> yaml) list" where
  "dottedTsdproxyKeys doc = filter (\<lambda>(key, _). has_prefix key ConfigPrefix) doc"

definition flatten_dotted :: "(string \<times> yaml) list \<Rightarrow> (string, string) gomap \<Rightarrow> (string, string) gomap" where
  "flatten_dotted dotted settings =
     fold (\<lambda>(key, value) s. case value of YMap nested \<Rightarrow> flattenSettings (key @ ''.'') nested s | _ \<Rightarrow> assignSetting key value s) dotted settings"

definition settingsDisable :: "(string, string) gomap \<Rightarrow> bool" where
  "settingsDisable settings =
     (case gm_get settings ConfigIsEnabled of
        None \<Rightarrow> False
      | Some value \<Rightarrow> (case parse_bool value of None \<Rightarrow> False | Some enable \<Rightarrow> \<not> enable))"

section \<open>The style of the list provider\<close>

definition setString :: "string \<Rightarrow> string option \<Rightarrow> (string, string) gomap \<Rightarrow> (string, string) gomap" where
  "setString key value settings =
     (case value of
        None \<Rightarrow> settings
      | Some v \<Rightarrow> if v \<noteq> [] \<and> gm_get settings key = None then gm_put key v settings else settings)"

definition setBool :: "string \<Rightarrow> bool option \<Rightarrow> (string, string) gomap \<Rightarrow> (string, string) gomap" where
  "setBool key value settings =
     (case value of
        None \<Rightarrow> settings
      | Some v \<Rightarrow> if gm_get settings key = None then gm_put key (format_bool v) settings else settings)"

definition merge_dashboard :: "listDashboard \<Rightarrow> (string, string) gomap \<Rightarrow> (string, string) gomap" where
  "merge_dashboard d s =
     setBool ConfigDashboardVisible (ld_Visible d) (setString ConfigDashboardCategory (ld_Category d)
       (setString ConfigDashboardIcon (ld_Icon d) (setString ConfigDashboardLabel (ld_Label d) s)))"

definition merge_tailscale :: "listTailscale \<Rightarrow> (string, string) gomap \<Rightarrow> (string, string) gomap" where
  "merge_tailscale t s =
     setString ConfigAuthKey (lt_AuthKey t) (setBool ConfigTsnetVerbose (lt_Verbose t)
       (setBool ConfigRunWebClient (lt_RunWebClient t) (setBool ConfigEphemeral (lt_Ephemeral t) (setString ConfigTags (lt_Tags t) s))))"

definition merge_fields :: "listFields \<Rightarrow> (string, string) gomap \<Rightarrow> (string, string) gomap" where
  "merge_fields f s =
     (let s = setBool ConfigIdentityHeaders (lf_IdentityHeaders f) (setString ConfigTLSProvider (lf_TLSProvider f)
                (setString ConfigDNSProvider (lf_DNSProvider f) (setString ConfigProxyProvider (lf_ProxyProvider f)
                  (setString ConfigName (lf_Hostname f) s))));
          s = (case lf_Dashboard f of None \<Rightarrow> s | Some d \<Rightarrow> merge_dashboard d s)
      in case lf_Tailscale f of None \<Rightarrow> s | Some t \<Rightarrow> merge_tailscale t s)"

datatype notes_error = InvalidBlock | InvalidPorts

definition mergeListFields :: "notes_env \<Rightarrow> (string \<times> yaml) list option \<Rightarrow> (string, string) gomap \<Rightarrow> notes_error + (string, string) gomap" where
  "mergeListFields env block settings =
     (case block of
        None \<Rightarrow> Inr settings
      | Some b \<Rightarrow> (case ye_fields env b of None \<Rightarrow> Inl InvalidBlock | Some f \<Rightarrow> Inr (merge_fields f settings)))"

definition newNotesPort :: notesPort where
  "newNotesPort = \<lparr>np_Targets = [], np_Tailscale = \<lparr>tp_Funnel = False\<rparr>, np_IsRedirect = False, np_TLSValidate = True\<rparr>"

definition mergeListPorts :: "notes_env \<Rightarrow> (string \<times> yaml) list option \<Rightarrow> notes_error + (string, notesPort) gomap" where
  "mergeListPorts env block =
     (case block of
        None \<Rightarrow> Inr []
      | Some b \<Rightarrow>
          (case gm_get b ''ports'' of
             None \<Rightarrow> Inr []
           | Some raw \<Rightarrow>
               if raw = YNull then Inr []
               else case ye_ports env raw of
                      None \<Rightarrow> Inl InvalidPorts
                    | Some ports \<Rightarrow> Inr (map (apsnd (\<lambda>p. case p of None \<Rightarrow> newNotesPort | Some p \<Rightarrow> p)) ports)))"

definition tsdproxy_block :: "(string \<times> yaml) list \<Rightarrow> (string \<times> yaml) list option" where
  "tsdproxy_block doc = (case gm_get doc notesRootKey of Some (YMap b) \<Rightarrow> Some b | _ \<Rightarrow> None)"

definition flat_settings :: "(string \<times> yaml) list \<Rightarrow> (string, string) gomap" where
  "flat_settings doc =
     flatten_dotted (dottedTsdproxyKeys doc)
       (case tsdproxy_block doc of None \<Rightarrow> [] | Some b \<Rightarrow> flattenSettings ConfigPrefix b [])"

definition no_config :: notesConfig where
  "no_config = \<lparr>nc_Settings = [], nc_Ports = [], nc_Enable = False\<rparr>"

definition parseTsdproxyConfig :: "notes_env \<Rightarrow> string \<Rightarrow> notes_error + notesConfig" where
  "parseTsdproxyConfig env notes =
     (case parseNotesDocument env notes of
        None \<Rightarrow> Inr no_config
      | Some doc \<Rightarrow>
          if tsdproxy_block doc = None \<and> dottedTsdproxyKeys doc = [] then Inr no_config
          else case mergeListFields env (tsdproxy_block doc) (flat_settings doc) of
                 Inl e \<Rightarrow> Inl e
               | Inr settings \<Rightarrow>
                   (case mergeListPorts env (tsdproxy_block doc) of
                      Inl e \<Rightarrow> Inl e
                    | Inr ports \<Rightarrow> Inr \<lparr>nc_Settings = settings, nc_Ports = ports, nc_Enable = \<not> settingsDisable settings\<rparr>))"

section \<open>Lemmas\<close>

definition extends :: "(string, string) gomap \<Rightarrow> (string, string) gomap \<Rightarrow> bool" where
  "extends s s' \<longleftrightarrow> (\<forall>k v. gm_get s k = Some v \<longrightarrow> gm_get s' k = Some v)"

lemma extends_refl [simp, intro]: "extends s s"
  by (simp add: extends_def)

lemma extends_trans [trans]: "extends s s' \<Longrightarrow> extends s' s'' \<Longrightarrow> extends s s''"
  by (simp add: extends_def)

lemma set_extends: "extends s t \<Longrightarrow> extends s (setString key v t)" "extends s t \<Longrightarrow> extends s (setBool key b t)"
  by (auto simp: extends_def setString_def setBool_def split: option.split)

lemma merge_fields_extends: "extends s (merge_fields f s)"
  by (auto simp: merge_fields_def merge_dashboard_def merge_tailscale_def Let_def intro!: set_extends split: option.split)

lemma padBase64_aligned: "length (padBase64 s) mod 4 = 0 \<or> length s mod 4 = 1"
proof -
  have "length s mod 4 < 4" by simp
  then have "length s mod 4 = 0 \<or> length s mod 4 = 1 \<or> length s mod 4 = 2 \<or> length s mod 4 = 3" by linarith
  then show ?thesis by (auto simp: padBase64_def base64BlockSize_def mod_add_eq) presburger+
qed

section \<open>Properties\<close>

text \<open>
  What the notes of a guest mean. Notes without data of TSDProxy are not an error and do not enable the guest; otherwise
  each flat setting keeps its value whatever the fields in the style of the list provider say, a host name of that style
  is taken when the flat style gives none, and the guest is enabled unless the setting says that it is not.
\<close>
theorem parseTsdproxyConfig_spec:
  assumes "parseTsdproxyConfig env notes = Inr cfg"
  shows "case parseNotesDocument env notes of
      None \<Rightarrow> cfg = no_config
    | Some doc \<Rightarrow>
        if tsdproxy_block doc = None \<and> dottedTsdproxyKeys doc = [] then cfg = no_config
        else extends (flat_settings doc) (nc_Settings cfg) \<and> nc_Enable cfg = (\<not> settingsDisable (nc_Settings cfg)) \<and>
          (tsdproxy_block doc = None \<longrightarrow> nc_Settings cfg = flat_settings doc \<and> nc_Ports cfg = [])"
  using assms merge_fields_extends
  by (auto simp: parseTsdproxyConfig_def mergeListFields_def mergeListPorts_def split: option.splits sum.splits if_splits)

text \<open>
  The same setting in two spellings, nested and dotted: which one counts depends on the order of iteration over the map, that
  is, on chance.
\<close>

lemma spelling_order_dependent:
  "let a = (''dash'', YMap [(''icon'', YStr ''x'')]); b = (''dash.icon'', YStr ''y'')
   in gm_get (flattenSettings ConfigPrefix [a, b] []) ConfigDashboardIcon = Some ''y'' \<and>
      gm_get (flattenSettings ConfigPrefix [b, a] []) ConfigDashboardIcon = Some ''x''"
  by code_simp

text \<open>The alternative of base64 is only tried when the notes are not a document themselves.\<close>

lemma plain_notes_first: "trim_space notes \<noteq> [] \<Longrightarrow> ye_doc env (trim_space notes) = Some doc \<Longrightarrow>
   parseNotesDocument env notes = Some (map (map_prod id normalizeTree) doc)"
  by (simp add: parseNotesDocument_def)

definition example_notes_env :: notes_env where
  "example_notes_env =
     \<lparr>ye_doc = (\<lambda>s. Some [(''tsdproxy'', YMap [(''name'', YStr ''web''), (''port'', YAnyMap [(KInt 443, YStr ''443/https:80/http'')])])]),
      ye_b64Std = (\<lambda>_. None), ye_b64URL = (\<lambda>_. None),
      ye_fields = (\<lambda>_. Some \<lparr>lf_Hostname = Some ''other'', lf_ProxyProvider = None, lf_DNSProvider = None, lf_TLSProvider = None,
        lf_IdentityHeaders = None, lf_Dashboard = None, lf_Tailscale = None\<rparr>),
      ye_ports = (\<lambda>_. None)\<rparr>"

definition example_notes :: notesConfig where
  "example_notes = \<lparr>nc_Settings = [(''tsdproxy.name'', ''web''), (''tsdproxy.port.443'', ''443/https:80/http'')], nc_Ports = [], nc_Enable = True\<rparr>"

lemma example_notes_parsed: "parseTsdproxyConfig example_notes_env ''tsdproxy:'' = Inr example_notes"
  by code_simp

theorem parseTsdproxyConfig_spec_witness:
  "nc_Enable example_notes = (\<not> settingsDisable (nc_Settings example_notes)) \<and> gm_get (nc_Settings example_notes) ConfigName = Some ''web''"
proof -
  have d: "parseNotesDocument example_notes_env ''tsdproxy:'' =
      Some [(''tsdproxy'', YMap [(''name'', YStr ''web''), (''port'', YMap [(''443'', YStr ''443/https:80/http'')])])]" by code_simp
  from parseTsdproxyConfig_spec [OF example_notes_parsed] have "nc_Enable example_notes = (\<not> settingsDisable (nc_Settings example_notes))"
    by (simp add: d tsdproxy_block_def notesRootKey_def)
  then show ?thesis by (simp add: example_notes_def ConfigName_def ConfigPrefix_def)
qed

end
