(* ===== verification/Proxmox_Target.thy ===== *)
theory Proxmox_Target
  imports Proxmox_Notes
begin

text \<open>
  The Proxmox target provider: \<^verbatim>\<open>src/internal/targetproviders/proxmox/guest.go\<close>, from a guest and its notes to the
  configuration of its proxy, and \<^verbatim>\<open>proxmox.go\<close>, the poll of the cluster and the events it sends. What the
  API of Proxmox answers (\<^verbatim>\<open>rest.go\<close>) is an argument.
\<close>

section \<open>Guests\<close>

text \<open>An address of \<^verbatim>\<open>net/netip\<close>: its 16 bytes, whether it is one of version 4 in either form, and its text when unmapped.\<close>

record guest_addr =
  ga_bytes :: ip
  ga_is4 :: bool
  ga_text :: string

record GuestInterface =
  gi_Name :: string
  gi_Addresses :: "guest_addr list"

record GuestResource =
  gr_ID :: string
  gr_Node :: string
  gr_Name :: string
  gr_Type :: string
  gr_Status :: string
  gr_VMID :: int
  gr_Template :: int

record GuestConfig =
  gc_Notes :: string
  gc_Description :: string
  gc_Tags :: string

text \<open>The settings of the provider; \<open>pp_defaultSet\<close> is the default icon set of the assets.\<close>

record proxmox_provider =
  pp_name :: string
  pp_defaultProxyProvider :: string
  pp_defaultTargetHostname :: string
  pp_autoRestart :: bool
  pp_healthCheckEnabled :: bool
  pp_healthCheckInterval :: int
  pp_healthCheckFailures :: int
  pp_healthCheckCooldown :: int
  pp_rateLimitEnabled :: bool
  pp_rateLimitRPS :: int
  pp_rateLimitBurst :: int
  pp_proxyAccessLogDefault :: bool
  pp_allowGuestFunnel :: bool
  pp_allowTLSValidateDisable :: bool
  pp_defaultSet :: string

record guest =
  gu_settings :: "(string, string) gomap"
  gu_listPorts :: "(string, notesPort) gomap"
  gu_tags :: string
  gu_name :: string
  gu_provider :: proxmox_provider
  gu_ips :: "string list"
  gu_healthCheckInterval :: int
  gu_healthCheckFailures :: int
  gu_healthCheckCooldown :: int
  gu_rateLimitRPS :: int
  gu_rateLimitBurst :: int
  gu_healthCheckEnabled :: bool
  gu_rateLimitEnabled :: bool
  gu_autoRestart :: bool

definition primaryInterface :: string where "primaryInterface = ''eth0''"
definition loopbackInterface :: string where "loopbackInterface = ''lo''"
definition placeholderHost :: string where "placeholderHost = ''0.0.0.0''"
definition guestTypeQemu :: string where "guestTypeQemu = ''qemu''"
definition guestTypeLXC :: string where "guestTypeLXC = ''lxc''"
definition statusRunning :: string where "statusRunning = ''running''"

definition is_link_local :: "guest_addr \<Rightarrow> bool" where
  "is_link_local a \<longleftrightarrow>
     (if ga_is4 a then ga_bytes a ! 12 = 169 \<and> ga_bytes a ! 13 = 254
      else ga_bytes a ! 0 = 254 \<and> ga_bytes a ! 1 div 64 = 2)"

definition is_multicast :: "guest_addr \<Rightarrow> bool" where
  "is_multicast a \<longleftrightarrow> (if ga_is4 a then ga_bytes a ! 12 div 16 = 14 else ga_bytes a ! 0 = 255)"

definition usable_addr :: "guest_addr \<Rightarrow> bool" where
  "usable_addr a \<longleftrightarrow> \<not> (is_loopback (ga_bytes a) \<or> is_link_local a \<or> is_multicast a)"

text \<open>
  \<^verbatim>\<open>setInterfaces\<close>: of interfaces with one name the last counts; the primary one comes first, the others by name;
  addresses of version 4 before those of version 6.
\<close>

definition setInterfaces :: "GuestInterface list \<Rightarrow> string list" where
  "setInterfaces interfaces =
     (let byName = fold (\<lambda>i. gm_put (gi_Name i) i) (filter (\<lambda>i. gi_Name i \<noteq> loopbackInterface) interfaces) [];
          ordered = sort_key (\<lambda>e. (fst e \<noteq> primaryInterface, fst e)) byName;
          addrs = filter usable_addr (concat (map (\<lambda>e. gi_Addresses (snd e)) ordered))
      in map ga_text (filter ga_is4 addrs @ filter (\<lambda>a. \<not> ga_is4 a) addrs))"

definition newGuest :: "proxmox_provider \<Rightarrow> GuestResource \<Rightarrow> GuestConfig \<Rightarrow> notesConfig \<Rightarrow> GuestInterface list \<Rightarrow> guest" where
  "newGuest p resource cfg notesCfg interfaces =
     (let m = nc_Settings notesCfg
      in \<lparr>gu_settings = m, gu_listPorts = nc_Ports notesCfg, gu_tags = gc_Tags cfg, gu_name = gr_Name resource, gu_provider = p,
          gu_ips = setInterfaces interfaces,
          gu_healthCheckInterval = settings_Int m ConfigHealthCheckInterval (pp_healthCheckInterval p) HealthCheckMinIntervalSeconds HealthCheckMaxIntervalSeconds,
          gu_healthCheckFailures = settings_Int m ConfigHealthCheckFailures (pp_healthCheckFailures p) HealthCheckMinFailures HealthCheckMaxFailures,
          gu_healthCheckCooldown = settings_Int m ConfigHealthCheckCooldown (pp_healthCheckCooldown p) HealthCheckMinCooldownSeconds HealthCheckMaxCooldownSeconds,
          gu_rateLimitRPS = settings_Int m ConfigRateLimitRPS (pp_rateLimitRPS p) RateLimitMinRPS RateLimitMaxRPS,
          gu_rateLimitBurst = settings_Int m ConfigRateLimitBurst (pp_rateLimitBurst p) RateLimitMinBurst RateLimitMaxBurst,
          gu_healthCheckEnabled = settings_Bool m ConfigHealthCheckEnabled (pp_healthCheckEnabled p),
          gu_rateLimitEnabled = settings_Bool m ConfigRateLimitEnabled (pp_rateLimitEnabled p),
          gu_autoRestart = settings_Bool m ConfigAutoRestart (pp_autoRestart p)\<rparr>)"

section \<open>Targets\<close>

text \<open>The host of a guest: the one configured for the provider, else its first address.\<close>

definition guest_host :: "guest \<Rightarrow> string option" where
  "guest_host g =
     (let host = pp_defaultTargetHostname (gu_provider g)
      in if host \<noteq> [] then Some host else case gu_ips g of [] \<Rightarrow> None | ip # _ \<Rightarrow> Some ip)"

definition guest_getTargetURL :: "guest \<Rightarrow> url \<Rightarrow> url option" where
  "guest_getTargetURL g iPort =
     (let port = url_Port iPort
      in if port = [] then None
         else case guest_host g of
                None \<Rightarrow> None
              | Some host \<Rightarrow> url_parse (u_scheme iPort @ ''://'' @ join_host_port host port))"

definition guest_generateTarget :: "guest \<Rightarrow> PortConfig \<Rightarrow> PortConfig option" where
  "guest_generateTarget g port =
     (case GetFirstTarget port of
        None \<Rightarrow> None
      | Some p \<Rightarrow> (case guest_getTargetURL g p of None \<Rightarrow> None | Some u \<Rightarrow> Some (ReplaceTarget p u port)))"

definition guest_portOptionGates :: "guest \<Rightarrow> PortOptionGates" where
  "guest_portOptionGates g =
     \<lparr>g_FunnelSettingName = ''allowGuestFunnel'', g_AllowTLSValidateDisable = pp_allowTLSValidateDisable (gu_provider g),
      g_AllowFunnel = pp_allowGuestFunnel (gu_provider g), g_SupportNoAutoDetect = False\<rparr>"

section \<open>Ports in the style of the list provider\<close>

definition gateTLSValidate :: "guest \<Rightarrow> bool \<Rightarrow> bool" where
  "gateTLSValidate g tlsValidate = (if tlsValidate \<or> pp_allowTLSValidateDisable (gu_provider g) then tlsValidate else True)"

definition gateFunnel :: "guest \<Rightarrow> bool \<Rightarrow> bool" where
  "gateFunnel g funnel = (if \<not> funnel \<or> pp_allowGuestFunnel (gu_provider g) then funnel else False)"

definition labelPlaceholder :: "PortConfig \<Rightarrow> url option" where
  "labelPlaceholder cfg = List.find (\<lambda>t. url_Hostname t = placeholderHost) (GetTargets cfg)"

definition explicit_url :: "string \<Rightarrow> url option" where
  "explicit_url raw = (case url_parse raw of None \<Rightarrow> None | Some u \<Rightarrow> if u_scheme u = [] \<or> u_host u = [] then None else Some u)"

fun add_explicit :: "string list \<Rightarrow> url option \<Rightarrow> PortConfig \<Rightarrow> bool \<Rightarrow> PortConfig \<times> bool" where
  "add_explicit [] placeholder cfg added = (cfg, added)"
| "add_explicit (raw # raws) placeholder cfg added =
     (case explicit_url raw of
        None \<Rightarrow> add_explicit raws placeholder cfg added
      | Some u \<Rightarrow>
          (case placeholder of
             Some p \<Rightarrow> add_explicit raws None (ReplaceTarget p u cfg) True
           | None \<Rightarrow> add_explicit raws None (AddTarget u cfg) True))"

definition addExplicitTargets :: "PortConfig \<Rightarrow> string list \<Rightarrow> PortConfig option" where
  "addExplicitTargets cfg targets =
     (case add_explicit targets (labelPlaceholder cfg) cfg False of (cfg', added) \<Rightarrow> if added then Some cfg' else None)"

definition targetSchemeFor :: "string \<Rightarrow> string" where
  "targetSchemeFor proxyProtocol = (if proxyProtocol = ProtoTCP then ProtoTCP else if proxyProtocol = ProtoUDP then ProtoUDP else ProtoHTTP)"

definition addGeneratedTarget :: "guest \<Rightarrow> PortConfig \<Rightarrow> PortConfig option" where
  "addGeneratedTarget g cfg =
     (case guest_host g of
        None \<Rightarrow> None
      | Some host \<Rightarrow>
          (case labelPlaceholder cfg of
             Some p \<Rightarrow> map_option (\<lambda>u. ReplaceTarget p u cfg) (url_parse (u_scheme p @ ''://'' @ join_host_port host (url_Port p)))
           | None \<Rightarrow>
               map_option (\<lambda>u. AddTarget u cfg)
                 (url_parse (targetSchemeFor (pc_ProxyProtocol cfg) @ ''://'' @ join_host_port host (itoa (pc_ProxyPort cfg))))))"

definition applyListPort :: "guest \<Rightarrow> notesPort \<Rightarrow> PortConfig \<Rightarrow> PortConfig option" where
  "applyListPort g entry cfg =
     (let cfg = cfg\<lparr>pc_IsRedirect := np_IsRedirect entry, pc_TLSValidate := gateTLSValidate g (np_TLSValidate entry),
                    pc_Tailscale := \<lparr>tp_Funnel = gateFunnel g (tp_Funnel (np_Tailscale entry))\<rparr>\<rparr>
      in if np_Targets entry \<noteq> [] then addExplicitTargets cfg (np_Targets entry)
         else if pc_IsRedirect cfg then None
         else addGeneratedTarget g cfg)"

definition newPortFromLabel :: "string \<Rightarrow> port_error + PortConfig" where
  "newPortFromLabel label =
     (if contains_str label '':'' \<or> contains_str label redirectSeparator then NewPortLongLabel label else NewPortShortLabel label)"

definition processListPortRange :: "guest \<Rightarrow> string \<Rightarrow> notesPort \<Rightarrow> PortConfigList \<Rightarrow> PortConfigList" where
  "processListPortRange g label entry ports =
     (case ExpandPortRangeShortLabel label of
        Inl _ \<Rightarrow> ports
      | Inr expanded \<Rightarrow> fold (\<lambda>(rangeKey, cfg). add_port (label @ ''.'' @ rangeKey) (applyListPort g entry cfg)) expanded ports)"

definition processListPort :: "guest \<Rightarrow> string \<times> notesPort \<Rightarrow> PortConfigList \<Rightarrow> PortConfigList" where
  "processListPort g le ports =
     (case le of (label, entry) \<Rightarrow>
        if IsPortRangeShortLabel label then processListPortRange g label entry ports
        else case newPortFromLabel label of
               Inl _ \<Rightarrow> ports
             | Inr cfg \<Rightarrow> add_port label (applyListPort g entry cfg) ports)"

definition guest_getPorts :: "guest \<Rightarrow> PortConfigList" where
  "guest_getPorts g =
     fold (processListPort g) (gu_listPorts g) (Ports (gu_settings g) ConfigPort (guest_portOptionGates g) (guest_generateTarget g))"

section \<open>The configuration of the proxy\<close>

definition guest_getProxyHostname :: "guest \<Rightarrow> string option" where
  "guest_getProxyHostname g =
     (case gm_get (gu_settings g) ConfigName of
        Some customName \<Rightarrow> if rfc1123Hostname customName then Some (to_lower customName) else None
      | None \<Rightarrow> Some (to_lower (gu_name g)))"

definition guest_getTailscaleConfig :: "file_env \<Rightarrow> guest \<Rightarrow> key_file_error + Tailscale" where
  "guest_getTailscaleConfig fe g =
     (let m = gu_settings g
      in case AuthKeyFromFile fe m ConfigAuthKeyFile (settings_String m ConfigAuthKey []) of
           Inl e \<Rightarrow> Inl e
         | Inr k \<Rightarrow> Inr \<lparr>ts_Tags = settings_String m ConfigTags [], ts_AuthKey = k, ts_ResolvedAuthKey = [],
                        ts_Ephemeral = settings_Bool m ConfigEphemeral DefaultTailscaleEphemeral,
                        ts_RunWebClient = settings_Bool m ConfigRunWebClient DefaultTailscaleRunWebClient,
                        ts_Verbose = settings_Bool m ConfigTsnetVerbose DefaultTailscaleVerbose\<rparr>)"

definition iconHint :: "guest \<Rightarrow> string" where
  "iconHint g = map (\<lambda>c. if c = CHR '';'' then CHR '' '' else c) (gu_tags g)"

definition guest_newProxyConfig :: "file_env \<Rightarrow> guest \<Rightarrow> string \<Rightarrow> container_error + Config" where
  "guest_newProxyConfig fe g targetID =
     (case guest_getProxyHostname g of
        None \<Rightarrow> Inl (InvalidContainerHostname (settings_String (gu_settings g) ConfigName []))
      | Some hostname \<Rightarrow>
          (case guest_getTailscaleConfig fe g of
             Inl e \<Rightarrow> Inl (AuthKeyFileError e)
           | Inr tailscale \<Rightarrow>
               (let m = gu_settings g; p = gu_provider g; icon = settings_String m ConfigDashboardIcon []
                in Inr (NewConfig\<lparr>
                     cfg_TargetID := targetID, cfg_TargetImage := gu_tags g, cfg_Hostname := hostname,
                     cfg_TargetProvider := pp_name p, cfg_Tailscale := tailscale,
                     cfg_ProxyProvider := settings_String m ConfigProxyProvider DefaultProxyProvider,
                     cfg_Domain := settings_String m ConfigDomain [],
                     cfg_DNSProvider := settings_String m ConfigDNSProvider [],
                     cfg_TLSProvider := settings_String m ConfigTLSProvider [],
                     cfg_ProxyAccessLog := settings_Bool m ConfigContainerAccessLog (pp_proxyAccessLogDefault p),
                     cfg_IdentityHeaders := settings_Bool m ConfigIdentityHeaders DefaultIdentityHeaders,
                     cfg_AutoRestart := gu_autoRestart g, cfg_HealthCheckEnabled := gu_healthCheckEnabled g,
                     cfg_HealthCheckInterval := gu_healthCheckInterval g, cfg_HealthCheckFailures := gu_healthCheckFailures g,
                     cfg_HealthCheckCooldown := gu_healthCheckCooldown g, cfg_RateLimitEnabled := gu_rateLimitEnabled g,
                     cfg_RateLimitRPS := gu_rateLimitRPS g, cfg_RateLimitBurst := gu_rateLimitBurst g,
                     cfg_Dashboard := \<lparr>db_Label = settings_String m ConfigDashboardLabel hostname,
                                       db_Icon = (if icon = [] then GuessIcon (pp_defaultSet p) (iconHint g) else icon),
                                       db_Category = settings_String m ConfigDashboardCategory [],
                                       db_Visible = settings_Bool m ConfigDashboardVisible DefaultDashboardVisible\<rparr>,
                     cfg_Ports := guest_getPorts g\<rparr>))))"

section \<open>The client\<close>

record guestState =
  st_notes :: "notesConfig option"
  st_status :: string
  st_resource :: GuestResource

record proxmox_client =
  pc_provider :: proxmox_provider
  pc_guests :: "(string, guest) gomap"
  pc_states :: "(string, guestState) gomap"

text \<open>\<open>None\<close> where a call of the API fails.\<close>

record proxmox_env =
  pe_ListGuests :: "GuestResource list option"
  pe_GetGuestConfig :: "string \<Rightarrow> string \<Rightarrow> string \<Rightarrow> GuestConfig option"
  pe_GetGuestInterfaces :: "string \<Rightarrow> string \<Rightarrow> string \<Rightarrow> GuestInterface list option"
  pe_notes :: notes_env
  pe_files :: file_env

datatype proxmox_error =
    GuestNotFound string
  | GuestConfigError
  | GuestNotesError notes_error
  | GuestNotEnabled string
  | GuestNotRunning string string
  | GuestProxyConfig container_error
  | ProxmoxTargetNotFound string

definition st_enabled :: "guestState \<Rightarrow> bool" where
  "st_enabled s \<longleftrightarrow> (case st_notes s of None \<Rightarrow> False | Some n \<Rightarrow> nc_Enable n)"

definition parseGuestNotes :: "notes_env \<Rightarrow> GuestConfig \<Rightarrow> notes_error + notesConfig" where
  "parseGuestNotes env cfg = parseTsdproxyConfig env (if gc_Description cfg \<noteq> [] then gc_Description cfg else gc_Notes cfg)"

definition findGuestResource :: "proxmox_env \<Rightarrow> string \<Rightarrow> proxmox_client \<Rightarrow> GuestResource option" where
  "findGuestResource env gid c =
     (case (case gm_get (pc_states c) gid of Some s \<Rightarrow> if gr_ID (st_resource s) = gid then Some (st_resource s) else None | None \<Rightarrow> None) of
        Some r \<Rightarrow> Some r
      | None \<Rightarrow> (case pe_ListGuests env of None \<Rightarrow> None | Some guests \<Rightarrow> List.find (\<lambda>r. gr_ID r = gid) guests))"

definition proxmox_buildProxyConfig :: "proxmox_env \<Rightarrow> string \<Rightarrow> proxmox_client \<Rightarrow> proxmox_error + (Config \<times> guest)" where
  "proxmox_buildProxyConfig env gid c =
     (case findGuestResource env gid c of
        None \<Rightarrow> Inl (GuestNotFound gid)
      | Some r \<Rightarrow>
          (case pe_GetGuestConfig env (gr_Node r) (gr_Type r) (itoa (gr_VMID r)) of
             None \<Rightarrow> Inl GuestConfigError
           | Some cfg \<Rightarrow>
               (case parseGuestNotes (pe_notes env) cfg of
                  Inl e \<Rightarrow> Inl (GuestNotesError e)
                | Inr notesCfg \<Rightarrow>
                    if \<not> nc_Enable notesCfg then Inl (GuestNotEnabled gid)
                    else if gr_Status r \<noteq> statusRunning then Inl (GuestNotRunning gid (gr_Status r))
                    else let interfaces = (case pe_GetGuestInterfaces env (gr_Node r) (gr_Type r) (itoa (gr_VMID r)) of None \<Rightarrow> [] | Some is \<Rightarrow> is);
                             g = newGuest (pc_provider c) r cfg notesCfg interfaces
                         in case guest_newProxyConfig (pe_files env) g gid of
                              Inl e \<Rightarrow> Inl (GuestProxyConfig e)
                            | Inr pcfg \<Rightarrow> Inr (pcfg, g))))"

definition proxmox_AddTarget :: "proxmox_env \<Rightarrow> string \<Rightarrow> proxmox_client \<Rightarrow> (proxmox_error + Config) \<times> proxmox_client" where
  "proxmox_AddTarget env gid c =
     (case proxmox_buildProxyConfig env gid c of
        Inl e \<Rightarrow> (Inl e, c)
      | Inr (pcfg, g) \<Rightarrow> (Inr pcfg, c\<lparr>pc_guests := gm_put gid g (pc_guests c)\<rparr>))"

definition proxmox_ReResolve :: "proxmox_env \<Rightarrow> string \<Rightarrow> proxmox_client \<Rightarrow> proxmox_error + Config" where
  "proxmox_ReResolve env gid c = map_sum (\<lambda>e. e) fst (proxmox_buildProxyConfig env gid c)"

definition proxmox_DeleteProxy :: "string \<Rightarrow> proxmox_client \<Rightarrow> proxmox_error option \<times> proxmox_client" where
  "proxmox_DeleteProxy gid c =
     (if gm_get (pc_guests c) gid = None then (Some (ProxmoxTargetNotFound gid), c)
      else (None, c\<lparr>pc_guests := gm_del gid (pc_guests c)\<rparr>))"

section \<open>Polling\<close>

definition no_resource :: GuestResource where
  "no_resource = \<lparr>gr_ID = [], gr_Node = [], gr_Name = [], gr_Type = [], gr_Status = [], gr_VMID = 0, gr_Template = 0\<rparr>"

definition storeState :: "string \<Rightarrow> guestState \<Rightarrow> proxmox_client \<Rightarrow> proxmox_client" where
  "storeState gid s c =
     (let s = (if gr_ID (st_resource s) = [] then case gm_get (pc_states c) gid of Some prev \<Rightarrow> s\<lparr>st_resource := st_resource prev\<rparr> | None \<Rightarrow> s else s)
      in c\<lparr>pc_states := gm_put gid s (pc_states c)\<rparr>)"

text \<open>\<^verbatim>\<open>sendEvent\<close> while the context lives.\<close>

definition guest_event :: "string \<Rightarrow> ActionType \<Rightarrow> TargetEvent list" where
  "guest_event gid act = [\<lparr>te_ID = gid, te_Action = act\<rparr>]"

definition handleStoppedGuest :: "GuestResource \<Rightarrow> bool \<Rightarrow> proxmox_client \<Rightarrow> TargetEvent list \<times> proxmox_client" where
  "handleStoppedGuest r tracked c =
     (if tracked then guest_event (gr_ID r) ActionStopProxy else [],
      storeState (gr_ID r) \<lparr>st_notes = None, st_status = gr_Status r, st_resource = no_resource\<rparr> c)"

definition running_event :: "string \<Rightarrow> guestState option \<Rightarrow> bool \<Rightarrow> notesConfig \<Rightarrow> TargetEvent list" where
  "running_event gid prev tracked n =
     (if \<not> nc_Enable n then if tracked then guest_event gid ActionStopProxy else []
      else case prev of
             None \<Rightarrow> guest_event gid ActionStartProxy
           | Some s \<Rightarrow>
               if st_status s \<noteq> statusRunning \<or> \<not> st_enabled s then guest_event gid ActionStartProxy
               else if st_notes s \<noteq> Some n then guest_event gid (if tracked then ActionRestartProxy else ActionStartProxy)
               else [])"

definition handleRunningGuest :: "proxmox_env \<Rightarrow> GuestResource \<Rightarrow> guestState option \<Rightarrow> bool \<Rightarrow> proxmox_client \<Rightarrow> TargetEvent list \<times> proxmox_client" where
  "handleRunningGuest env r prev tracked c =
     (case pe_GetGuestConfig env (gr_Node r) (gr_Type r) (itoa (gr_VMID r)) of
        None \<Rightarrow> ([], c)
      | Some cfg \<Rightarrow>
          (case parseGuestNotes (pe_notes env) cfg of
             Inl _ \<Rightarrow> ([], c)
           | Inr n \<Rightarrow>
               (running_event (gr_ID r) prev tracked n,
                storeState (gr_ID r) \<lparr>st_notes = Some n, st_status = statusRunning, st_resource = r\<rparr> c)))"

definition is_guest :: "GuestResource \<Rightarrow> bool" where
  "is_guest r \<longleftrightarrow> gr_Template r = 0 \<and> (gr_Type r = guestTypeQemu \<or> gr_Type r = guestTypeLXC)"

definition poll_guest :: "proxmox_env \<Rightarrow> GuestResource \<Rightarrow> proxmox_client \<Rightarrow> TargetEvent list \<times> proxmox_client" where
  "poll_guest env r c =
     (let tracked = gm_get (pc_guests c) (gr_ID r) \<noteq> None
      in if gr_Status r \<noteq> statusRunning then handleStoppedGuest r tracked c
         else handleRunningGuest env r (gm_get (pc_states c) (gr_ID r)) tracked c)"

text \<open>\<open>obey\<close> is what the proxy manager makes of the events of a guest before the next one is looked at: which guests the provider then tracks.\<close>

fun poll_guests :: "(TargetEvent list \<Rightarrow> proxmox_client \<Rightarrow> proxmox_client) \<Rightarrow> proxmox_env \<Rightarrow> GuestResource list \<Rightarrow> proxmox_client \<Rightarrow> TargetEvent list \<times> proxmox_client" where
  "poll_guests obey env [] c = ([], c)"
| "poll_guests obey env (r # rs) c =
     (case poll_guest env r c of
        (evs, c1) \<Rightarrow> (case poll_guests obey env rs (obey evs c1) of (evs', c2) \<Rightarrow> (evs @ evs', c2)))"

definition emitDeleted :: "string list \<Rightarrow> proxmox_client \<Rightarrow> TargetEvent list \<times> proxmox_client" where
  "emitDeleted seen c =
     (let deleted = filter (\<lambda>gid. gid \<notin> set seen) (keys (pc_states c))
      in (concat (map (\<lambda>gid. if gm_get (pc_guests c) gid \<noteq> None then guest_event gid ActionStopProxy else []) deleted),
          c\<lparr>pc_states := filter (\<lambda>(gid, _). gid \<in> set seen) (pc_states c)\<rparr>))"

definition pollOnce :: "(TargetEvent list \<Rightarrow> proxmox_client \<Rightarrow> proxmox_client) \<Rightarrow> proxmox_env \<Rightarrow> proxmox_client \<Rightarrow> (TargetEvent list \<times> proxmox_client) option" where
  "pollOnce obey env c =
     (case pe_ListGuests env of
        None \<Rightarrow> None
      | Some guests \<Rightarrow>
          (let rs = filter is_guest guests
           in case poll_guests obey env rs c of
                (evs, c1) \<Rightarrow> (case emitDeleted (map gr_ID rs) c1 of (evs', c2) \<Rightarrow> Some (evs @ evs', obey evs' c2))))"

text \<open>\<^verbatim>\<open>WatchEvents\<close>: the first poll must succeed; the result of a poll that fails later is the snapshot as it was.\<close>

fun poll_loop :: "(TargetEvent list \<Rightarrow> proxmox_client \<Rightarrow> proxmox_client) \<Rightarrow> proxmox_env list \<Rightarrow> proxmox_client \<Rightarrow> TargetEvent list \<times> proxmox_client" where
  "poll_loop obey [] c = ([], c)"
| "poll_loop obey (env # envs) c =
     (case pollOnce obey env c of
        None \<Rightarrow> poll_loop obey envs c
      | Some (evs, c1) \<Rightarrow> apfst ((@) evs) (poll_loop obey envs c1))"

definition proxmox_WatchEvents :: "(TargetEvent list \<Rightarrow> proxmox_client \<Rightarrow> proxmox_client) \<Rightarrow> proxmox_env \<Rightarrow> proxmox_env list \<Rightarrow> proxmox_client \<Rightarrow> (TargetEvent list \<times> proxmox_client) option" where
  "proxmox_WatchEvents obey first ticks c =
     (case pollOnce obey first c of
        None \<Rightarrow> None
      | Some (evs, c1) \<Rightarrow> Some (apfst ((@) evs) (poll_loop obey ticks c1)))"

section \<open>Ports are gated\<close>

definition guest_gated :: "guest \<Rightarrow> PortConfig \<Rightarrow> bool" where
  "guest_gated g p \<longleftrightarrow> (pc_TLSValidate p \<or> pp_allowTLSValidateDisable (gu_provider g)) \<and> (tp_Funnel (pc_Tailscale p) \<longrightarrow> pp_allowGuestFunnel (gu_provider g))"

lemma gated_targets [simp]:
  "guest_gated g (ReplaceTarget p u cfg) = guest_gated g cfg" "guest_gated g (AddTarget u cfg) = guest_gated g cfg"
  by (simp_all add: guest_gated_def ReplaceTarget_def AddTarget_def)

lemma add_explicit_gated: "guest_gated g (fst (add_explicit ts ph cfg b)) = guest_gated g cfg"
  by (induction ts ph cfg b rule: add_explicit.induct) (simp_all split: option.split)

lemma applyListPort_gated:
  assumes "applyListPort g entry cfg = Some q"
  shows "guest_gated g q"
proof -
  define c where "c = cfg\<lparr>pc_IsRedirect := np_IsRedirect entry, pc_TLSValidate := gateTLSValidate g (np_TLSValidate entry),
                    pc_Tailscale := \<lparr>tp_Funnel = gateFunnel g (tp_Funnel (np_Tailscale entry))\<rparr>\<rparr>"
  have c: "guest_gated g c" by (simp add: c_def guest_gated_def gateTLSValidate_def gateFunnel_def)
  from assms consider "addExplicitTargets c (np_Targets entry) = Some q" | "addGeneratedTarget g c = Some q"
    by (auto simp: applyListPort_def c_def [symmetric] Let_def split: if_splits)
  then show ?thesis
  proof cases
    case 1
    then have "q = fst (add_explicit (np_Targets entry) (labelPlaceholder c) c False)"
      by (auto simp: addExplicitTargets_def split: prod.splits if_splits)
    then show ?thesis using c by (simp add: add_explicit_gated)
  next
    case 2
    then show ?thesis using c by (auto simp: addGeneratedTarget_def split: option.splits)
  qed
qed

definition all_gated :: "guest \<Rightarrow> PortConfigList \<Rightarrow> bool" where
  "all_gated g ports \<longleftrightarrow> (\<forall>(k, p) \<in> set ports. guest_gated g p)"

lemma add_port_gated: "all_gated g ports \<Longrightarrow> (\<And>q. r = Some q \<Longrightarrow> guest_gated g q) \<Longrightarrow> all_gated g (add_port k r ports)"
  by (auto simp: all_gated_def add_port_def split: option.splits dest!: gm_put_set)

lemma fold_gated: "(\<And>x ports. all_gated g ports \<Longrightarrow> all_gated g (f x ports)) \<Longrightarrow> all_gated g ports \<Longrightarrow> all_gated g (fold f xs ports)"
  by (induction xs arbitrary: ports) simp_all

lemma processListPort_gated: "all_gated g ports \<Longrightarrow> all_gated g (processListPort g le ports)"
  by (cases le) (auto simp: processListPort_def processListPortRange_def split: sum.split
      intro!: fold_gated add_port_gated intro: applyListPort_gated)

lemma guest_generate_keeps:
  "guest_generateTarget g p = Some q \<Longrightarrow> pc_TLSValidate q = pc_TLSValidate p \<and> pc_Tailscale q = pc_Tailscale p"
  by (auto simp: guest_generateTarget_def ReplaceTarget_def split: option.splits)

lemma guest_getPorts_gated: "all_gated g (guest_getPorts g)"
proof -
  let ?flat = "Ports (gu_settings g) ConfigPort (guest_portOptionGates g) (guest_generateTarget g)"
  have "all_gated g ?flat"
    using Ports_gated [OF guest_generate_keeps] by (fastforce simp: all_gated_def guest_gated_def guest_portOptionGates_def)
  then show ?thesis by (simp add: guest_getPorts_def fold_gated processListPort_gated)
qed


text \<open>
  C29: Whatever the notes of a guest say, in either style, its proxy can turn off the TLS check of a target or open the funnel
  only if the operator allowed that for the provider, its numbers are within the bounds of the program whenever the provider's
  are, and a host name set in the notes is a lower-case RFC 1123 name.
\<close>
theorem guest_config_sound:
  assumes "proxmox_buildProxyConfig env gid c = Inr (cfg, g)"
    and "settings_in_bounds (pp_healthCheckInterval (pc_provider c)) (pp_healthCheckFailures (pc_provider c)) (pp_healthCheckCooldown (pc_provider c))
      (pp_rateLimitRPS (pc_provider c)) (pp_rateLimitBurst (pc_provider c))"
  shows "list_all (\<lambda>(k, p). (pc_TLSValidate p \<or> pp_allowTLSValidateDisable (pc_provider c)) \<and> (tp_Funnel (pc_Tailscale p) \<longrightarrow> pp_allowGuestFunnel (pc_provider c)))
      (cfg_Ports cfg)
    \<and> settings_in_bounds (cfg_HealthCheckInterval cfg) (cfg_HealthCheckFailures cfg) (cfg_HealthCheckCooldown cfg) (cfg_RateLimitRPS cfg) (cfg_RateLimitBurst cfg)
    \<and> (case gm_get (gu_settings g) ConfigName of
         Some n \<Rightarrow> cfg_Hostname cfg = to_lower n \<and> rfc1123Hostname (cfg_Hostname cfg)
       | None \<Rightarrow> cfg_Hostname cfg = to_lower (gu_name g))"
proof -
  from assms(1) obtain r gcfg n ifs where g: "g = newGuest (pc_provider c) r gcfg n ifs" and cfg: "guest_newProxyConfig (pe_files env) g gid = Inr cfg"
    by (auto simp: proxmox_buildProxyConfig_def Let_def split: option.splits sum.splits if_splits)
  from cfg obtain h where h: "guest_getProxyHostname g = Some h" "cfg_Hostname cfg = h"
    and ports: "cfg_Ports cfg = guest_getPorts g"
    and fields: "cfg_HealthCheckInterval cfg = gu_healthCheckInterval g" "cfg_HealthCheckFailures cfg = gu_healthCheckFailures g"
      "cfg_HealthCheckCooldown cfg = gu_healthCheckCooldown g" "cfg_RateLimitRPS cfg = gu_rateLimitRPS g" "cfg_RateLimitBurst cfg = gu_rateLimitBurst g"
    by (auto simp: guest_newProxyConfig_def Let_def split: option.splits sum.splits)
  have p: "gu_provider g = pc_provider c" by (simp add: g newGuest_def Let_def)
  have "list_all (\<lambda>(k, p). guest_gated g p) (cfg_Ports cfg)"
    using guest_getPorts_gated [of g] by (auto simp: ports all_gated_def list_all_iff)
  moreover have "settings_in_bounds (cfg_HealthCheckInterval cfg) (cfg_HealthCheckFailures cfg) (cfg_HealthCheckCooldown cfg) (cfg_RateLimitRPS cfg) (cfg_RateLimitBurst cfg)"
    using assms(2) unfolding fields settings_in_bounds_def by (simp add: g newGuest_def Let_def setting_bounds settings_Int_bounds)
  moreover have "case gm_get (gu_settings g) ConfigName of
         Some n \<Rightarrow> cfg_Hostname cfg = to_lower n \<and> rfc1123Hostname (cfg_Hostname cfg)
       | None \<Rightarrow> cfg_Hostname cfg = to_lower (gu_name g)"
    using h by (cases "gm_get (gu_settings g) ConfigName") (auto simp: guest_getProxyHostname_def dest: rfc1123_lower split: if_splits)
  ultimately show ?thesis unfolding guest_gated_def p by blast
qed

section \<open>What a poll converges to\<close>

text \<open>A proxy manager that carries out every event; \<open>mk\<close> is the guest a start tracks.\<close>

definition obey_event :: "(string \<Rightarrow> guest) \<Rightarrow> TargetEvent \<Rightarrow> proxmox_client \<Rightarrow> proxmox_client" where
  "obey_event mk e c =
     (case te_Action e of
        ActionStartProxy \<Rightarrow> c\<lparr>pc_guests := gm_put (te_ID e) (mk (te_ID e)) (pc_guests c)\<rparr>
      | ActionRestartProxy \<Rightarrow> c\<lparr>pc_guests := gm_put (te_ID e) (mk (te_ID e)) (pc_guests c)\<rparr>
      | ActionStopProxy \<Rightarrow> c\<lparr>pc_guests := gm_del (te_ID e) (pc_guests c)\<rparr>
      | _ \<Rightarrow> c)"

definition obey_all :: "(string \<Rightarrow> guest) \<Rightarrow> TargetEvent list \<Rightarrow> proxmox_client \<Rightarrow> proxmox_client" where
  "obey_all mk evs c = fold (obey_event mk) evs c"

text \<open>What the client knows of a guest that matters for the next event: whether it is tracked, its last status and notes.\<close>

type_synonym guest_view = "bool \<times> (string \<times> notesConfig option) option"

definition guest_view :: "proxmox_client \<Rightarrow> string \<Rightarrow> guest_view" where
  "guest_view c gid = (gm_get (pc_guests c) gid \<noteq> None, map_option (\<lambda>s. (st_status s, st_notes s)) (gm_get (pc_states c) gid))"

definition up :: "(string \<times> notesConfig option) option \<Rightarrow> bool" where
  "up x \<longleftrightarrow> (case x of None \<Rightarrow> False | Some (st, n) \<Rightarrow> st = statusRunning \<and> (case n of None \<Rightarrow> False | Some n \<Rightarrow> nc_Enable n))"

definition tracks :: "proxmox_client \<Rightarrow> bool" where
  "tracks c \<longleftrightarrow> (\<forall>gid. fst (guest_view c gid) = up (snd (guest_view c gid)))"

definition guest_notes :: "proxmox_env \<Rightarrow> GuestResource \<Rightarrow> notesConfig option" where
  "guest_notes env r =
     (case pe_GetGuestConfig env (gr_Node r) (gr_Type r) (itoa (gr_VMID r)) of
        None \<Rightarrow> None
      | Some cfg \<Rightarrow> (case parseGuestNotes (pe_notes env) cfg of Inl _ \<Rightarrow> None | Inr n \<Rightarrow> Some n))"

definition next_view :: "proxmox_env \<Rightarrow> GuestResource \<Rightarrow> guest_view \<Rightarrow> guest_view" where
  "next_view env r v =
     (if gr_Status r \<noteq> statusRunning then (False, Some (gr_Status r, None))
      else case guest_notes env r of None \<Rightarrow> v | Some n \<Rightarrow> (nc_Enable n, Some (statusRunning, Some n)))"

lemma next_view_up: "fst v = up (snd v) \<Longrightarrow> fst (next_view env r v) = up (snd (next_view env r v))"
  by (auto simp: next_view_def up_def split: option.split)

lemma next_view_idem [simp]: "next_view env r (next_view env r v) = next_view env r v"
  by (auto simp: next_view_def split: option.split)

lemma obey_keeps [simp]: "pc_states (obey_event mk e c) = pc_states c" "pc_states (obey_all mk evs c) = pc_states c"
proof -
  show *: "pc_states (obey_event mk e c) = pc_states c" for e c by (simp add: obey_event_def split: ActionType.split)
  show "pc_states (obey_all mk evs c) = pc_states c" unfolding obey_all_def by (induction evs arbitrary: c) (simp_all add: *)
qed

lemma obey_other: "gid \<notin> te_ID ` set evs \<Longrightarrow> gm_get (pc_guests (obey_all mk evs c)) gid = gm_get (pc_guests c) gid"
  unfolding obey_all_def by (induction evs arbitrary: c) (auto simp: obey_event_def split: ActionType.split)

lemma obey_one [simp]: "obey_all mk [] c = c" "obey_all mk [e] c = obey_event mk e c"
  by (simp_all add: obey_all_def)

lemma store_view [simp]:
  "guest_view (storeState gid s c) g = (if g = gid then (fst (guest_view c g), Some (st_status s, st_notes s)) else guest_view c g)"
  by (simp add: storeState_def guest_view_def Let_def split: option.split)

lemma obey_view [simp]:
  "guest_view (obey_all mk (guest_event gid ActionStopProxy) c) g = (if g = gid then (False, snd (guest_view c g)) else guest_view c g)"
  "guest_view (obey_all mk (guest_event gid ActionStartProxy) c) g = (if g = gid then (True, snd (guest_view c g)) else guest_view c g)"
  "guest_view (obey_all mk (guest_event gid ActionRestartProxy) c) g = (if g = gid then (True, snd (guest_view c g)) else guest_view c g)"
  by (simp_all add: guest_event_def obey_event_def guest_view_def)

definition event_of_view :: "string \<Rightarrow> guest_view \<Rightarrow> notesConfig \<Rightarrow> TargetEvent list" where
  "event_of_view gid v n =
     (if \<not> nc_Enable n then if fst v then guest_event gid ActionStopProxy else []
      else if up (snd v) then if snd v = Some (statusRunning, Some n) then [] else guest_event gid (if fst v then ActionRestartProxy else ActionStartProxy)
      else guest_event gid ActionStartProxy)"

lemma running_event_view:
  "running_event gid (gm_get (pc_states c) gid) (gm_get (pc_guests c) gid \<noteq> None) n = event_of_view gid (guest_view c gid) n"
  by (cases "gm_get (pc_states c) gid")
    (auto simp: running_event_def event_of_view_def guest_view_def up_def st_enabled_def split: option.split)

lemma event_of_view_settled: "fst v = up (snd v) \<Longrightarrow> event_of_view gid (nc_Enable n, Some (statusRunning, Some n)) n = []"
  by (simp add: event_of_view_def up_def)

lemma poll_stopped_view:
  assumes "gr_Status r \<noteq> statusRunning" "poll_guest env r c = (evs, c1)"
  shows "evs = (if fst (guest_view c (gr_ID r)) then guest_event (gr_ID r) ActionStopProxy else [])
    \<and> c1 = storeState (gr_ID r) \<lparr>st_notes = None, st_status = gr_Status r, st_resource = no_resource\<rparr> c"
  using assms by (auto simp: poll_guest_def handleStoppedGuest_def guest_view_def Let_def)

lemma poll_running_view:
  assumes "gr_Status r = statusRunning" "poll_guest env r c = (evs, c1)"
  shows "case guest_notes env r of
      None \<Rightarrow> evs = [] \<and> c1 = c
    | Some n \<Rightarrow> evs = event_of_view (gr_ID r) (guest_view c (gr_ID r)) n
        \<and> c1 = storeState (gr_ID r) \<lparr>st_notes = Some n, st_status = statusRunning, st_resource = r\<rparr> c"
  using assms running_event_view [of "gr_ID r" c]
  by (auto simp: poll_guest_def handleRunningGuest_def guest_notes_def Let_def split: option.splits sum.splits)

lemma poll_guest_view:
  assumes "tracks c" "poll_guest env r c = (evs, c1)"
  shows "guest_view (obey_all mk evs c1) gid = (if gid = gr_ID r then next_view env r (guest_view c gid) else guest_view c gid)
    \<and> (next_view env r (guest_view c (gr_ID r)) = guest_view c (gr_ID r) \<longrightarrow> evs = [])"
proof -
  have t: "fst (guest_view c (gr_ID r)) = up (snd (guest_view c (gr_ID r)))" using assms(1) by (simp add: tracks_def)
  show ?thesis
  proof (cases "gr_Status r = statusRunning")
    case False
    from poll_stopped_view [OF this assms(2)] False show ?thesis
      by (cases "guest_view c (gr_ID r)") (auto simp: next_view_def)
  next
    case True
    note p = poll_running_view [OF True assms(2)]
    show ?thesis
    proof (cases "guest_notes env r")
      case None
      with p True show ?thesis by (simp add: next_view_def)
    next
      case (Some n)
      with p have e: "evs = event_of_view (gr_ID r) (guest_view c (gr_ID r)) n"
        "c1 = storeState (gr_ID r) \<lparr>st_notes = Some n, st_status = statusRunning, st_resource = r\<rparr> c" by auto
      have "guest_view (obey_all mk evs c1) gid = (if gid = gr_ID r then (nc_Enable n, Some (statusRunning, Some n)) else guest_view c gid)"
        using t unfolding e event_of_view_def by (auto simp: up_def)
      moreover have "evs = []" if "guest_view c (gr_ID r) = (nc_Enable n, Some (statusRunning, Some n))"
        using event_of_view_settled [OF t] that by (simp add: e)
      ultimately show ?thesis using True Some by (auto simp: next_view_def)
    qed
  qed
qed

lemma poll_guest_tracks:
  assumes "tracks c" "poll_guest env r c = (evs, c1)"
  shows "tracks (obey_all mk evs c1)"
  using poll_guest_view [OF assms] assms(1) next_view_up [of "guest_view c (gr_ID r)"] by (simp add: tracks_def)

lemma poll_guests_view:
  assumes "tracks c" "distinct (map gr_ID rs)" "poll_guests (obey_all mk) env rs c = (evs, c')"
  shows "tracks c' \<and> (\<forall>gid. gid \<notin> gr_ID ` set rs \<longrightarrow> guest_view c' gid = guest_view c gid)
    \<and> (\<forall>r \<in> set rs. guest_view c' (gr_ID r) = next_view env r (guest_view c (gr_ID r)))
    \<and> ((\<forall>r \<in> set rs. next_view env r (guest_view c (gr_ID r)) = guest_view c (gr_ID r)) \<longrightarrow> evs = [])"
  using assms
proof (induction rs arbitrary: c evs)
  case Nil
  then show ?case by simp
next
  case (Cons r rs)
  obtain e1 c1 where p: "poll_guest env r c = (e1, c1)" by fastforce
  let ?c = "obey_all mk e1 c1"
  obtain e2 where q: "poll_guests (obey_all mk) env rs ?c = (e2, c')" "evs = e1 @ e2"
    using Cons.prems(3) p by (auto split: prod.splits)
  note v = poll_guest_view [OF Cons.prems(1) p, of mk]
  have r: "gr_ID r \<notin> gr_ID ` set rs" using Cons.prems(2) by simp
  have other: "gr_ID x \<noteq> gr_ID r" if "x \<in> set rs" for x using that r by (metis imageI)
  from Cons.IH [OF poll_guest_tracks [OF Cons.prems(1) p] _ q(1)] Cons.prems(2)
  have IH: "tracks c'" "\<And>gid. gid \<notin> gr_ID ` set rs \<Longrightarrow> guest_view c' gid = guest_view ?c gid"
    "\<And>x. x \<in> set rs \<Longrightarrow> guest_view c' (gr_ID x) = next_view env x (guest_view ?c (gr_ID x))"
    "(\<forall>x \<in> set rs. next_view env x (guest_view ?c (gr_ID x)) = guest_view ?c (gr_ID x)) \<longrightarrow> e2 = []"
    by auto
  show ?case using IH v other r q(2) by (simp add: image_iff)
qed

lemma emitDeleted_view:
  assumes "tracks c" "emitDeleted seen c = (evs, c1)"
  shows "guest_view (obey_all mk evs c1) gid = (if gid \<in> set seen then guest_view c gid else (False, None))"
    and "(\<forall>gid. gid \<notin> set seen \<longrightarrow> guest_view c gid = (False, None)) \<longrightarrow> evs = []"
proof -
  let ?del = "filter (\<lambda>gid. gid \<notin> set seen) (keys (pc_states c))"
  have e: "evs = map (\<lambda>gid. \<lparr>te_ID = gid, te_Action = ActionStopProxy\<rparr>) (filter (\<lambda>gid. gm_get (pc_guests c) gid \<noteq> None) ?del)"
    and c1: "c1 = c\<lparr>pc_states := filter (\<lambda>(gid, _). gid \<in> set seen) (pc_states c)\<rparr>"
  proof -
    have "concat (map (\<lambda>gid. if gm_get (pc_guests c) gid \<noteq> None then guest_event gid ActionStopProxy else []) ds)
       = map (\<lambda>gid. \<lparr>te_ID = gid, te_Action = ActionStopProxy\<rparr>) (filter (\<lambda>gid. gm_get (pc_guests c) gid \<noteq> None) ds)" for ds
      by (induction ds) (simp_all add: guest_event_def)
    then show "evs = map (\<lambda>gid. \<lparr>te_ID = gid, te_Action = ActionStopProxy\<rparr>) (filter (\<lambda>gid. gm_get (pc_guests c) gid \<noteq> None) ?del)"
      and "c1 = c\<lparr>pc_states := filter (\<lambda>(gid, _). gid \<in> set seen) (pc_states c)\<rparr>"
      using assms(2) by (auto simp: emitDeleted_def Let_def)
  qed
  have states: "gm_get (filter (\<lambda>(gid, _). gid \<in> set seen) m) gid = (if gid \<in> set seen then gm_get m gid else None)" for m :: "(string, guestState) gomap"
    by (induction m) auto
  have stops: "gm_get (pc_guests (obey_all mk (map (\<lambda>gid. \<lparr>te_ID = gid, te_Action = ActionStopProxy\<rparr>) ids) d)) gid =
      (if gid \<in> set ids then None else gm_get (pc_guests d) gid)" for ids d
    unfolding obey_all_def by (induction ids arbitrary: d) (auto simp: obey_event_def)
  have t: "(gm_get (pc_guests c) gid \<noteq> None) = up (snd (guest_view c gid))" using assms(1) by (simp add: tracks_def guest_view_def)
  show "guest_view (obey_all mk evs c1) gid = (if gid \<in> set seen then guest_view c gid else (False, None))"
  proof (cases "gm_get (pc_states c) gid")
    case None
    then show ?thesis using t by (simp add: guest_view_def e stops c1 states up_def)
  next
    case (Some s)
    then have "gid \<in> set (keys (pc_states c))" by (metis gm_get_None_iff option.distinct(1))
    then show ?thesis using Some by (auto simp: guest_view_def e stops c1 states)
  qed
  show "(\<forall>gid. gid \<notin> set seen \<longrightarrow> guest_view c gid = (False, None)) \<longrightarrow> evs = []"
    by (auto simp: e filter_empty_conv guest_view_def)
qed

text \<open>
  C28: The events of a poll lead to the state of the cluster. If the provider tracks exactly the guests that were
  up and enabled at the last poll, and the proxy manager carries out the events, then after a poll it tracks exactly the
  guests that are listed, run and are enabled by their notes, where a guest whose notes cannot be read keeps its
  state; a second poll of the same cluster sends nothing.
\<close>
theorem poll_converges:
  assumes "tracks c" "pe_ListGuests env = Some guests" "distinct (map gr_ID (filter is_guest guests))"
  shows "\<exists>evs c'. pollOnce (obey_all mk) env c = Some (evs, c') \<and> tracks c' \<and>
    (\<forall>gid. gm_get (pc_guests c') gid \<noteq> None \<longleftrightarrow>
       (\<exists>r \<in> set guests. is_guest r \<and> gr_ID r = gid \<and> gr_Status r = statusRunning \<and>
          (case guest_notes env r of None \<Rightarrow> gm_get (pc_guests c) gid \<noteq> None | Some n \<Rightarrow> nc_Enable n))) \<and>
    (\<exists>c''. pollOnce (obey_all mk) env c' = Some ([], c''))"
proof -
  let ?rs = "filter is_guest guests"
  obtain e1 c1 where p: "poll_guests (obey_all mk) env ?rs c = (e1, c1)" by fastforce
  note v = poll_guests_view [OF assms(1,3) p]
  obtain e2 c2 where d: "emitDeleted (map gr_ID ?rs) c1 = (e2, c2)" by fastforce
  let ?c = "obey_all mk e2 c2"
  have w: "guest_view ?c gid = (if gid \<in> gr_ID ` set ?rs then guest_view c1 gid else (False, None))" for gid
    using emitDeleted_view(1) [OF _ d, of mk gid] v by (simp only: set_map)
  have tr: "tracks ?c" using v w by (simp add: tracks_def up_def)
  have next_c: "guest_view ?c (gr_ID r) = next_view env r (guest_view c (gr_ID r))" if "r \<in> set ?rs" for r
    using that v w [of "gr_ID r"] by auto
  have once: "pollOnce (obey_all mk) env c = Some (e1 @ e2, ?c)" by (simp add: pollOnce_def assms(2) p d Let_def)
  obtain e3 c3 where p': "poll_guests (obey_all mk) env ?rs ?c = (e3, c3)" by fastforce
  note v' = poll_guests_view [OF tr assms(3) p']
  obtain e4 c4 where d': "emitDeleted (map gr_ID ?rs) c3 = (e4, c4)" by fastforce
  have "e3 = []" using v' next_c by simp
  moreover have "e4 = []"
  proof -
    have "guest_view c3 gid = (False, None)" if "gid \<notin> set (map gr_ID ?rs)" for gid
      using that v' w [of gid] by simp
    then show ?thesis using emitDeleted_view(2) [OF _ d'] v' by blast
  qed
  ultimately have again: "pollOnce (obey_all mk) env ?c = Some ([], obey_all mk e4 c4)"
    by (simp add: pollOnce_def assms(2) p' d' Let_def)
  have tracked: "(gm_get (pc_guests ?c) gid \<noteq> None) = (\<exists>r \<in> set guests. is_guest r \<and> gr_ID r = gid \<and> gr_Status r = statusRunning \<and>
          (case guest_notes env r of None \<Rightarrow> gm_get (pc_guests c) gid \<noteq> None | Some n \<Rightarrow> nc_Enable n))" for gid
  proof (cases "gid \<in> gr_ID ` set ?rs")
    case False
    then show ?thesis using w [of gid] by (auto simp: guest_view_def)
  next
    case True
    then obtain r where r: "r \<in> set ?rs" "gr_ID r = gid" by auto
    have only: "x = r" if "x \<in> set guests" "is_guest x" "gr_ID x = gid" for x
      using that r assms(3) by (auto simp: distinct_map dest: inj_onD)
    have "gm_get (pc_guests ?c) gid \<noteq> None \<longleftrightarrow> fst (guest_view ?c gid)" by (simp add: guest_view_def)
    also have "\<dots> = fst (next_view env r (guest_view c gid))" using next_c [OF r(1)] r(2) by simp
    also have "\<dots> \<longleftrightarrow> gr_Status r = statusRunning \<and> (case guest_notes env r of None \<Rightarrow> gm_get (pc_guests c) gid \<noteq> None | Some n \<Rightarrow> nc_Enable n)"
      by (simp add: next_view_def guest_view_def split: option.split)
    finally show ?thesis using r only by auto
  qed
  show ?thesis using once tr tracked again by blast
qed

section \<open>What modelling showed\<close>

text \<open>
  A guest that has stopped keeps the resource of its last run in the snapshot, and look-ups take the resource, status included, from
  there: it never looks stopped to \<^verbatim>\<open>buildProxyConfig\<close>.
\<close>

lemma stopped_guest_looks_running:
  "gm_get (pc_states c) (gr_ID r) = Some s \<Longrightarrow> gr_ID (st_resource s) = gr_ID r \<Longrightarrow> gr_Status (st_resource s) = statusRunning \<Longrightarrow>
   findGuestResource env (gr_ID r) (snd (handleStoppedGuest r t c)) = Some (st_resource s)"
  by (simp add: findGuestResource_def handleStoppedGuest_def storeState_def no_resource_def Let_def)

text \<open>A port label that redirects loses that when it is a key of the \<open>ports\<close> of the notes and has no targets: it is dropped or a plain proxy.\<close>

lemma redirect_label_lost: "np_Targets entry = [] \<Longrightarrow> applyListPort g entry cfg = Some q \<Longrightarrow> \<not> pc_IsRedirect q"
  by (auto simp: applyListPort_def addGeneratedTarget_def ReplaceTarget_def AddTarget_def Let_def split: if_splits option.splits)

text \<open>The addresses a guest is reached at are usable ones of its interfaces.\<close>

lemma setInterfaces_usable:
  "t \<in> set (setInterfaces is) \<Longrightarrow> \<exists>i \<in> set is. gi_Name i \<noteq> loopbackInterface \<and> (\<exists>a \<in> set (gi_Addresses i). usable_addr a \<and> ga_text a = t)"
proof -
  have upd: "(k, v) \<in> set (fold (\<lambda>i. gm_put (gi_Name i) i) is' m) \<Longrightarrow> v \<in> set is' \<or> (k, v) \<in> set m" for k v is' m
    by (induction is' arbitrary: m) (auto dest: gm_put_set)
  assume "t \<in> set (setInterfaces is)"
  then show ?thesis by (fastforce simp: setInterfaces_def Let_def dest: upd)
qed

section \<open>Witnesses\<close>

definition example_proxmox :: proxmox_client where
  "example_proxmox =
     \<lparr>pc_provider = \<lparr>pp_name = ''pve'', pp_defaultProxyProvider = ''default'', pp_defaultTargetHostname = ''10.0.0.9'', pp_autoRestart = True,
        pp_healthCheckEnabled = True, pp_healthCheckInterval = 30, pp_healthCheckFailures = 3, pp_healthCheckCooldown = 0, pp_rateLimitEnabled = True,
        pp_rateLimitRPS = 100, pp_rateLimitBurst = 200, pp_proxyAccessLogDefault = True, pp_allowGuestFunnel = False,
        pp_allowTLSValidateDisable = False, pp_defaultSet = ''sh''\<rparr>,
      pc_guests = [], pc_states = []\<rparr>"

definition example_guest :: GuestResource where
  "example_guest = \<lparr>gr_ID = ''lxc/101'', gr_Node = ''n1'', gr_Name = ''web'', gr_Type = ''lxc'', gr_Status = ''running'', gr_VMID = 101, gr_Template = 0\<rparr>"

definition example_proxmox_env :: proxmox_env where
  "example_proxmox_env =
     \<lparr>pe_ListGuests = Some [example_guest], pe_GetGuestConfig = (\<lambda>_ _ _. Some \<lparr>gc_Notes = ''tsdproxy:'', gc_Description = [], gc_Tags = ''debian''\<rparr>),
      pe_GetGuestInterfaces = (\<lambda>_ _ _. None), pe_notes = example_notes_env,
      pe_files = \<lparr>fe_getwd = None, fe_evalSymlinks = (\<lambda>_. None), fe_isRegular = (\<lambda>_. None), fe_readFile = (\<lambda>_. None)\<rparr>\<rparr>"

theorem poll_converges_witness:
  "\<exists>evs c'. pollOnce (obey_all (\<lambda>_. undefined)) example_proxmox_env example_proxmox = Some (evs, c') \<and> tracks c'"
proof -
  have "tracks example_proxmox" by (simp add: tracks_def guest_view_def example_proxmox_def up_def)
  moreover have "pe_ListGuests example_proxmox_env = Some [example_guest]" by (simp add: example_proxmox_env_def)
  moreover have "distinct (map gr_ID (filter is_guest [example_guest]))" by simp
  ultimately show ?thesis using poll_converges by blast
qed

theorem guest_config_sound_witness:
  "\<exists>cfg g. proxmox_buildProxyConfig example_proxmox_env ''lxc/101'' example_proxmox = Inr (cfg, g) \<and> cfg_HealthCheckInterval cfg \<le> 86400"
proof -
  let ?b = "proxmox_buildProxyConfig example_proxmox_env ''lxc/101'' example_proxmox"
  have "isl ?b = False" by code_simp
  then obtain cfg g where b: "?b = Inr (cfg, g)" by (cases ?b) auto
  have "settings_in_bounds (pp_healthCheckInterval (pc_provider example_proxmox)) (pp_healthCheckFailures (pc_provider example_proxmox))
      (pp_healthCheckCooldown (pc_provider example_proxmox)) (pp_rateLimitRPS (pc_provider example_proxmox)) (pp_rateLimitBurst (pc_provider example_proxmox))"
    by (simp add: settings_in_bounds_def example_proxmox_def)
  from guest_config_sound [OF b this] b show ?thesis by (auto simp: settings_in_bounds_def)
qed

end
