(* ===== verification/Incus_Target.thy ===== *)
theory Incus_Target
  imports Docker_Target
begin

text \<open>
  The Incus target provider: \<^verbatim>\<open>src/internal/targetproviders/incus/instance.go\<close>, from an instance and its state to the
  configuration of its proxy, and \<^verbatim>\<open>incus.go\<close>, the client and the events of the server it turns into events
  of targets. What Incus answers is an argument.
\<close>

section \<open>Keys of the configuration\<close>

definition incusPrefix :: string where "incusPrefix = ''user.tsdproxy.''"
definition incusKey :: "string \<Rightarrow> string" where "incusKey k = incusPrefix @ k"
definition imageDescriptionKey :: string where "imageDescriptionKey = ''image.description''"
definition addressScopeGlobal :: string where "addressScopeGlobal = ''global''"
definition stateWaitTries :: nat where "stateWaitTries = 5"

definition instanceEnabled :: "(string, string) gomap \<Rightarrow> bool" where
  "instanceEnabled m = settings_Bool m (incusKey ''enable'') False"

section \<open>Instances\<close>

record incus_address =
  ia_Scope :: string
  ia_Address :: string

type_synonym instance_state = "(string, incus_address list) gomap"

record incus_instance =
  in_Name :: string
  in_Config :: "(string, string) gomap"
  in_Running :: bool
  in_Status :: string

record incus_provider =
  ip_name :: string
  ip_defaultProxyProvider :: string
  ip_defaultTargetHostname :: string
  ip_autoRestart :: bool
  ip_healthCheckEnabled :: bool
  ip_healthCheckInterval :: int
  ip_healthCheckFailures :: int
  ip_healthCheckCooldown :: int
  ip_rateLimitEnabled :: bool
  ip_rateLimitRPS :: int
  ip_rateLimitBurst :: int
  ip_proxyAccessLogDefault :: bool
  ip_allowInstanceFunnel :: bool
  ip_allowTLSValidateDisable :: bool
  ip_defaultSet :: string

record instance_data =
  is_config :: "(string, string) gomap"
  is_image :: string
  is_name :: string
  is_provider :: incus_provider
  is_ips :: "string list"
  is_healthCheckInterval :: int
  is_healthCheckFailures :: int
  is_healthCheckCooldown :: int
  is_rateLimitRPS :: int
  is_rateLimitBurst :: int
  is_healthCheckEnabled :: bool
  is_rateLimitEnabled :: bool
  is_autoRestart :: bool

text \<open>
  \<^verbatim>\<open>setInstanceNetwork\<close>; \<open>parseAddr\<close> is \<^verbatim>\<open>netip.ParseAddr\<close>: whether the address is of version 4, in
  either form, and its text when unmapped.
\<close>

definition setInstanceNetwork :: "(string \<Rightarrow> (bool \<times> string) option) \<Rightarrow> instance_state option \<Rightarrow> string list" where
  "setInstanceNetwork parseAddr state =
     (case state of
        None \<Rightarrow> []
      | Some network \<Rightarrow>
          (let ordered = sort_key (\<lambda>e. (fst e \<noteq> ''eth0'', fst e)) (filter (\<lambda>e. fst e \<noteq> ''lo'') network);
               addrs = List.map_filter (\<lambda>a. if ia_Scope a \<noteq> addressScopeGlobal then None else parseAddr (ia_Address a))
                         (concat (map snd ordered))
           in map snd (filter fst addrs @ filter (\<lambda>a. \<not> fst a) addrs)))"

definition newInstance :: "(string \<Rightarrow> (bool \<times> string) option) \<Rightarrow> incus_provider \<Rightarrow> incus_instance \<Rightarrow> instance_state option \<Rightarrow> instance_data" where
  "newInstance parseAddr p inst state =
     (let m = in_Config inst
      in \<lparr>is_config = m, is_image = settings_String m imageDescriptionKey [], is_name = in_Name inst, is_provider = p,
          is_ips = setInstanceNetwork parseAddr state,
          is_healthCheckInterval = settings_Int m (incusKey ''health_check_interval'') (ip_healthCheckInterval p) HealthCheckMinIntervalSeconds HealthCheckMaxIntervalSeconds,
          is_healthCheckFailures = settings_Int m (incusKey ''health_check_failures'') (ip_healthCheckFailures p) HealthCheckMinFailures HealthCheckMaxFailures,
          is_healthCheckCooldown = settings_Int m (incusKey ''health_check_cooldown'') (ip_healthCheckCooldown p) HealthCheckMinCooldownSeconds HealthCheckMaxCooldownSeconds,
          is_rateLimitRPS = settings_Int m (incusKey ''ratelimit.rps'') (ip_rateLimitRPS p) RateLimitMinRPS RateLimitMaxRPS,
          is_rateLimitBurst = settings_Int m (incusKey ''ratelimit.burst'') (ip_rateLimitBurst p) RateLimitMinBurst RateLimitMaxBurst,
          is_healthCheckEnabled = settings_Bool m (incusKey ''health_check_enabled'') (ip_healthCheckEnabled p),
          is_rateLimitEnabled = settings_Bool m (incusKey ''ratelimit.enabled'') (ip_rateLimitEnabled p),
          is_autoRestart = settings_Bool m (incusKey ''auto_restart'') (ip_autoRestart p)\<rparr>)"

definition instance_getTargetURL :: "instance_data \<Rightarrow> url \<Rightarrow> url option" where
  "instance_getTargetURL i iPort =
     (let port = url_Port iPort; host = ip_defaultTargetHostname (is_provider i)
      in if port = [] then None
         else case (if host \<noteq> [] then Some host else case is_ips i of [] \<Rightarrow> None | ip # _ \<Rightarrow> Some ip) of
                None \<Rightarrow> None
              | Some host \<Rightarrow> url_parse (u_scheme iPort @ ''://'' @ join_host_port host port))"

definition instance_generateTarget :: "instance_data \<Rightarrow> PortConfig \<Rightarrow> PortConfig option" where
  "instance_generateTarget i port =
     (case GetFirstTarget port of
        None \<Rightarrow> None
      | Some p \<Rightarrow> (case instance_getTargetURL i p of None \<Rightarrow> None | Some u \<Rightarrow> Some (ReplaceTarget p u port)))"

definition instance_portOptionGates :: "instance_data \<Rightarrow> PortOptionGates" where
  "instance_portOptionGates i =
     \<lparr>g_FunnelSettingName = ''allowInstanceFunnel'', g_AllowTLSValidateDisable = ip_allowTLSValidateDisable (is_provider i),
      g_AllowFunnel = ip_allowInstanceFunnel (is_provider i), g_SupportNoAutoDetect = False\<rparr>"

definition instance_getPorts :: "instance_data \<Rightarrow> PortConfigList" where
  "instance_getPorts i = Ports (is_config i) (incusKey ''port.'') (instance_portOptionGates i) (instance_generateTarget i)"

definition instance_getProxyHostname :: "instance_data \<Rightarrow> string option" where
  "instance_getProxyHostname i =
     (case gm_get (is_config i) (incusKey ''name'') of
        Some customName \<Rightarrow> if rfc1123Hostname customName then Some (to_lower customName) else None
      | None \<Rightarrow> Some (to_lower (is_name i)))"

definition instance_getTailscaleConfig :: "file_env \<Rightarrow> instance_data \<Rightarrow> key_file_error + Tailscale" where
  "instance_getTailscaleConfig fe i =
     (let m = is_config i
      in case AuthKeyFromFile fe m (incusKey ''authkeyfile'') (settings_String m (incusKey ''authkey'') []) of
           Inl e \<Rightarrow> Inl e
         | Inr k \<Rightarrow> Inr \<lparr>ts_Tags = settings_String m (incusKey ''tags'') [], ts_AuthKey = k, ts_ResolvedAuthKey = [],
                        ts_Ephemeral = settings_Bool m (incusKey ''ephemeral'') DefaultTailscaleEphemeral,
                        ts_RunWebClient = settings_Bool m (incusKey ''runwebclient'') DefaultTailscaleRunWebClient,
                        ts_Verbose = settings_Bool m (incusKey ''tsnet_verbose'') DefaultTailscaleVerbose\<rparr>)"

definition instance_newProxyConfig :: "file_env \<Rightarrow> instance_data \<Rightarrow> container_error + Config" where
  "instance_newProxyConfig fe i =
     (case instance_getProxyHostname i of
        None \<Rightarrow> Inl (InvalidContainerHostname (settings_String (is_config i) (incusKey ''name'') []))
      | Some hostname \<Rightarrow>
          (case instance_getTailscaleConfig fe i of
             Inl e \<Rightarrow> Inl (AuthKeyFileError e)
           | Inr tailscale \<Rightarrow>
               (let m = is_config i; p = is_provider i; icon = settings_String m (incusKey ''dash.icon'') []
                in Inr (NewConfig\<lparr>
                     cfg_TargetID := is_name i, cfg_TargetImage := is_image i, cfg_Hostname := hostname,
                     cfg_TargetProvider := ip_name p, cfg_Tailscale := tailscale,
                     cfg_ProxyProvider := settings_String m (incusKey ''proxyprovider'') DefaultProxyProvider,
                     cfg_Domain := settings_String m (incusKey ''domain'') [],
                     cfg_DNSProvider := settings_String m (incusKey ''dnsprovider'') [],
                     cfg_TLSProvider := settings_String m (incusKey ''tlsprovider'') [],
                     cfg_ProxyAccessLog := settings_Bool m (incusKey ''containeraccesslog'') (ip_proxyAccessLogDefault p),
                     cfg_IdentityHeaders := settings_Bool m (incusKey ''identity_headers'') DefaultIdentityHeaders,
                     cfg_AutoRestart := is_autoRestart i, cfg_HealthCheckEnabled := is_healthCheckEnabled i,
                     cfg_HealthCheckInterval := is_healthCheckInterval i, cfg_HealthCheckFailures := is_healthCheckFailures i,
                     cfg_HealthCheckCooldown := is_healthCheckCooldown i, cfg_RateLimitEnabled := is_rateLimitEnabled i,
                     cfg_RateLimitRPS := is_rateLimitRPS i, cfg_RateLimitBurst := is_rateLimitBurst i,
                     cfg_Dashboard := \<lparr>db_Label = settings_String m (incusKey ''dash.label'') hostname,
                                       db_Icon = (if icon = [] then GuessIcon (ip_defaultSet p) (is_image i) else icon),
                                       db_Category = settings_String m (incusKey ''dash.category'') [],
                                       db_Visible = settings_Bool m (incusKey ''dash.visible'') DefaultDashboardVisible\<rparr>,
                     cfg_Ports := instance_getPorts i\<rparr>))))"

section \<open>The client\<close>

record incus_client =
  ic_provider :: incus_provider
  ic_instances :: "(string, instance_data) gomap"

text \<open>
  What the server answers: an instance, the state of one in each try (\<open>None\<close> on an error), the list of instances;
  \<open>ie_ctxDone\<close>: the context ends in the wait after a try.
\<close>

record incus_env =
  ie_GetInstance :: "string \<Rightarrow> incus_instance option"
  ie_GetInstanceState :: "nat \<Rightarrow> string \<Rightarrow> instance_state option"
  ie_GetInstances :: "incus_instance list option"
  ie_ctxDone :: "nat \<Rightarrow> bool"
  ie_parseAddr :: "string \<Rightarrow> (bool \<times> string) option"
  ie_fileEnv :: file_env

datatype incus_error =
    InstanceFetchError
  | InstanceNotEnabled string
  | InstanceNotRunning string string
  | InstanceProxyConfig container_error
  | IncusTargetNotFound string

definition hasGlobalAddress :: "instance_state \<Rightarrow> bool" where
  "hasGlobalAddress network = list_ex (\<lambda>e. list_ex (\<lambda>a. ia_Scope a = addressScopeGlobal) (snd e)) network"

fun state_loop :: "incus_env \<Rightarrow> string \<Rightarrow> nat list \<Rightarrow> instance_state option \<Rightarrow> instance_state option" where
  "state_loop env iid [] prev = prev"
| "state_loop env iid (try # tries) prev =
     (case ie_GetInstanceState env try iid of
        None \<Rightarrow> None
      | Some st \<Rightarrow> if hasGlobalAddress st \<or> ie_ctxDone env try then Some st else state_loop env iid tries (Some st))"

definition waitForInstanceState :: "incus_env \<Rightarrow> string \<Rightarrow> instance_state option" where
  "waitForInstanceState env iid = state_loop env iid [0..<stateWaitTries] None"

definition incus_buildProxyConfig :: "incus_env \<Rightarrow> incus_provider \<Rightarrow> string \<Rightarrow> incus_error + (Config \<times> instance_data)" where
  "incus_buildProxyConfig env p iid =
     (case ie_GetInstance env iid of
        None \<Rightarrow> Inl InstanceFetchError
      | Some inst \<Rightarrow>
          if \<not> instanceEnabled (in_Config inst) then Inl (InstanceNotEnabled iid)
          else if \<not> in_Running inst then Inl (InstanceNotRunning iid (in_Status inst))
          else let i = newInstance (ie_parseAddr env) p inst (waitForInstanceState env iid)
               in case instance_newProxyConfig (ie_fileEnv env) i of
                    Inl e \<Rightarrow> Inl (InstanceProxyConfig e)
                  | Inr pcfg \<Rightarrow> Inr (pcfg, i))"

definition incus_AddTarget :: "incus_env \<Rightarrow> string \<Rightarrow> incus_client \<Rightarrow> (incus_error + Config) \<times> incus_client" where
  "incus_AddTarget env iid c =
     (case incus_buildProxyConfig env (ic_provider c) iid of
        Inl e \<Rightarrow> (Inl e, c)
      | Inr (pcfg, i) \<Rightarrow> (Inr pcfg, c\<lparr>ic_instances := gm_put iid i (ic_instances c)\<rparr>))"

definition incus_ReResolve :: "incus_env \<Rightarrow> string \<Rightarrow> incus_client \<Rightarrow> incus_error + Config" where
  "incus_ReResolve env iid c = map_sum (\<lambda>e. e) fst (incus_buildProxyConfig env (ic_provider c) iid)"

definition incus_DeleteProxy :: "string \<Rightarrow> incus_client \<Rightarrow> incus_error option \<times> incus_client" where
  "incus_DeleteProxy iid c =
     (if gm_get (ic_instances c) iid = None then (Some (IncusTargetNotFound iid), c)
      else (None, c\<lparr>ic_instances := gm_del iid (ic_instances c)\<rparr>))"

section \<open>Events\<close>

definition incus_event :: "string \<Rightarrow> ActionType \<Rightarrow> TargetEvent list" where
  "incus_event name act = [\<lparr>te_ID = name, te_Action = act\<rparr>]"

definition emitIfEnabled :: "incus_env \<Rightarrow> string \<Rightarrow> ActionType \<Rightarrow> TargetEvent list" where
  "emitIfEnabled env name act =
     (case ie_GetInstance env name of
        None \<Rightarrow> []
      | Some inst \<Rightarrow> if instanceEnabled (in_Config inst) then incus_event name act else [])"

definition emitIfTracked :: "incus_client \<Rightarrow> string \<Rightarrow> ActionType \<Rightarrow> TargetEvent list" where
  "emitIfTracked c name act = (if gm_get (ic_instances c) name = None then [] else incus_event name act)"

definition filterTsdproxyKeys :: "(string, string) gomap \<Rightarrow> (string, string) gomap" where
  "filterTsdproxyKeys m = filter (\<lambda>(k, _). has_prefix k incusPrefix) m"

text \<open>\<^verbatim>\<open>reflect.DeepEqual\<close> of two maps: the same keys with the same values, in any order.\<close>

definition map_eq :: "('k, 'v) gomap \<Rightarrow> ('k, 'v) gomap \<Rightarrow> bool" where
  "map_eq a b \<longleftrightarrow> (\<forall>k \<in> set (keys a) \<union> set (keys b). gm_get a k = gm_get b k)"

definition tsdproxyConfigChanged :: "(string, string) gomap \<Rightarrow> (string, string) gomap \<Rightarrow> bool" where
  "tsdproxyConfigChanged oldConfig newConfig \<longleftrightarrow> \<not> map_eq (filterTsdproxyKeys oldConfig) (filterTsdproxyKeys newConfig)"

definition handleInstanceUpdated :: "incus_env \<Rightarrow> incus_client \<Rightarrow> string \<Rightarrow> TargetEvent list" where
  "handleInstanceUpdated env c name =
     (case ie_GetInstance env name of
        None \<Rightarrow> []
      | Some inst \<Rightarrow>
          (case gm_get (ic_instances c) name of
             None \<Rightarrow> if instanceEnabled (in_Config inst) then incus_event name ActionStartProxy else []
           | Some tracked \<Rightarrow>
               if \<not> instanceEnabled (in_Config inst) then incus_event name ActionStopProxy
               else if tsdproxyConfigChanged (is_config tracked) (in_Config inst) then incus_event name ActionRestartProxy
               else []))"

datatype lifecycle_action =
    InstanceStarted | InstanceRestarted | InstanceStopped | InstanceShutdown | InstancePaused | InstanceResumed | InstanceDeleted | InstanceUpdated | LifecycleOther

text \<open>An event is a lifecycle event whose metadata can be decoded, with its action and name, or something else.\<close>

definition handleEvent :: "incus_env \<Rightarrow> incus_client \<Rightarrow> (lifecycle_action \<times> string) option \<Rightarrow> TargetEvent list" where
  "handleEvent env c ev =
     (case ev of
        None \<Rightarrow> []
      | Some (act, name) \<Rightarrow>
          if name = [] then []
          else (case act of
                  InstanceStarted \<Rightarrow> emitIfEnabled env name ActionStartProxy
                | InstanceRestarted \<Rightarrow> emitIfEnabled env name ActionRestartProxy
                | InstanceStopped \<Rightarrow> emitIfEnabled env name ActionStopProxy
                | InstanceShutdown \<Rightarrow> emitIfEnabled env name ActionStopProxy
                | InstancePaused \<Rightarrow> emitIfEnabled env name ActionStopProxy
                | InstanceResumed \<Rightarrow> emitIfEnabled env name ActionStartProxy
                | InstanceDeleted \<Rightarrow> emitIfTracked c name ActionStopProxy
                | InstanceUpdated \<Rightarrow> handleInstanceUpdated env c name
                | LifecycleOther \<Rightarrow> []))"

definition incus_startAllProxies :: "incus_env \<Rightarrow> TargetEvent list option" where
  "incus_startAllProxies env =
     map_option (\<lambda>is. concat (map (\<lambda>inst. incus_event (in_Name inst) ActionStartProxy)
                                (filter (\<lambda>inst. in_Running inst \<and> instanceEnabled (in_Config inst)) is))) (ie_GetInstances env)"

datatype incus_stream = LifecycleEvent "(lifecycle_action \<times> string) option" | IncusCtxEnds | StreamEnds "string option"

text \<open>
  The loop over the channel of the listener: what it sends, with the client and the server as each event finds them, and how it
  ends. \<open>StreamEnds\<close> is the closing of the channel, with the error \<^verbatim>\<open>Wait\<close> gives.
\<close>

fun incus_WatchEvents :: "(incus_env \<times> incus_client \<times> incus_stream) list \<Rightarrow> TargetEvent list \<times> watch_end" where
  "incus_WatchEvents [] = ([], WatchRuns)"
| "incus_WatchEvents ((env, c, LifecycleEvent ev) # rest) = apfst ((@) (handleEvent env c ev)) (incus_WatchEvents rest)"
| "incus_WatchEvents ((env, c, IncusCtxEnds) # rest) = ([], WatchReturns)"
| "incus_WatchEvents ((env, c, StreamEnds w) # rest) = ([], case w of None \<Rightarrow> WatchDisconnected | Some e \<Rightarrow> WatchError e)"

section \<open>Connecting\<close>

record incus_connection =
  co_Socket :: string
  co_URL :: string
  co_Project :: string
  co_TLSClientCertFile :: string
  co_TLSClientKeyFile :: string
  co_TLSServerCertFile :: string
  co_TLSIdenticalCertificate :: bool
  co_TLSInsecureSkipVerify :: bool

record connection_args =
  ca_InsecureSkipVerify :: bool
  ca_IdenticalCertificate :: bool
  ca_TLSClientCert :: string
  ca_TLSClientKey :: string
  ca_TLSServerCert :: string

datatype connect_error = SocketAndURL | TLSClientMaterial | MaterialReadError string | ServerRefuses
datatype connection = UnixConnection string string | HTTPSConnection string connection_args string

definition loadTLSMaterial :: "(string \<Rightarrow> string option) \<Rightarrow> incus_connection \<Rightarrow> connection_args \<Rightarrow> connect_error + connection_args" where
  "loadTLSMaterial readFile p args =
     (let read = (\<lambda>f k. case readFile f of None \<Rightarrow> Inl (MaterialReadError f) | Some s \<Rightarrow> k s);
          ca = (\<lambda>args. if co_TLSServerCertFile p = [] then Inr args else read (co_TLSServerCertFile p) (\<lambda>s. Inr (args\<lparr>ca_TLSServerCert := s\<rparr>)))
      in if (co_TLSClientCertFile p = []) \<noteq> (co_TLSClientKeyFile p = []) then Inl TLSClientMaterial
         else if co_TLSClientCertFile p = [] then ca args
         else read (co_TLSClientCertFile p) (\<lambda>cert. read (co_TLSClientKeyFile p)
                (\<lambda>key. ca (args\<lparr>ca_TLSClientCert := cert, ca_TLSClientKey := key\<rparr>))))"

text \<open>\<open>accepts\<close>: the server answers the connection that is made.\<close>

definition incus_connect :: "(string \<Rightarrow> string option) \<Rightarrow> (connection \<Rightarrow> bool) \<Rightarrow> incus_connection \<Rightarrow> connect_error + connection" where
  "incus_connect readFile accepts p =
     (if co_Socket p \<noteq> [] \<and> co_URL p \<noteq> [] then Inl SocketAndURL
      else let try = (\<lambda>con. if accepts con then Inr con else Inl ServerRefuses)
           in if co_URL p \<noteq> [] then
                (case loadTLSMaterial readFile p \<lparr>ca_InsecureSkipVerify = co_TLSInsecureSkipVerify p, ca_IdenticalCertificate = co_TLSIdenticalCertificate p,
                    ca_TLSClientCert = [], ca_TLSClientKey = [], ca_TLSServerCert = []\<rparr> of
                   Inl e \<Rightarrow> Inl e
                 | Inr args \<Rightarrow> try (HTTPSConnection (co_URL p) args (co_Project p)))
              else try (UnixConnection (co_Socket p) (co_Project p)))"

section \<open>Lemmas\<close>

lemma instance_generate_keeps:
  "instance_generateTarget i p = Some q \<Longrightarrow> pc_TLSValidate q = pc_TLSValidate p \<and> pc_Tailscale q = pc_Tailscale p"
  by (auto simp: instance_generateTarget_def ReplaceTarget_def split: option.splits)

lemma instance_ports_gated:
  "(k, p) \<in> set (instance_getPorts i) \<Longrightarrow> (pc_TLSValidate p \<or> ip_allowTLSValidateDisable (is_provider i)) \<and>
     (tp_Funnel (pc_Tailscale p) \<longrightarrow> ip_allowInstanceFunnel (is_provider i))"
  using Ports_gated [OF instance_generate_keeps] by (fastforce simp: instance_getPorts_def instance_portOptionGates_def)

lemma map_eq_refl [simp]: "map_eq m m"
  by (simp add: map_eq_def)

lemma filter_get: "gm_get (filterTsdproxyKeys m) k = (if has_prefix k incusPrefix then gm_get m k else None)"
  unfolding filterTsdproxyKeys_def by (induction m) auto

lemma unchanged_iff: "\<not> tsdproxyConfigChanged a b \<longleftrightarrow> (\<forall>k. has_prefix k incusPrefix \<longrightarrow> gm_get a k = gm_get b k)"
proof -
  have "gm_get (filterTsdproxyKeys a) k = gm_get (filterTsdproxyKeys b) k"
    if "k \<notin> set (keys (filterTsdproxyKeys a)) \<union> set (keys (filterTsdproxyKeys b))" for k
    using that by (metis Un_iff gm_get_None_iff)
  then have "map_eq (filterTsdproxyKeys a) (filterTsdproxyKeys b) \<longleftrightarrow> (\<forall>k. gm_get (filterTsdproxyKeys a) k = gm_get (filterTsdproxyKeys b) k)"
    unfolding map_eq_def by blast
  then show ?thesis by (auto simp: tsdproxyConfigChanged_def filter_get)
qed

lemma enabled_by_keys: "(\<And>k. has_prefix k incusPrefix \<Longrightarrow> gm_get a k = gm_get b k) \<Longrightarrow> instanceEnabled a = instanceEnabled b"
  by (simp add: instanceEnabled_def settings_Bool_def incusKey_def has_prefix_def)

lemma AddTarget_config:
  assumes "incus_AddTarget env iid c = (Inr cfg, c')"
  shows "\<exists>inst i. ie_GetInstance env iid = Some inst \<and> gm_get (ic_instances c') iid = Some i \<and> is_config i = in_Config inst"
  using assms
  by (auto simp: incus_AddTarget_def incus_buildProxyConfig_def newInstance_def Let_def split: sum.splits option.splits if_splits)

section \<open>Properties\<close>

text \<open>What a proxy manager that carries out an event makes of the client.\<close>

definition incus_obey :: "incus_env \<Rightarrow> TargetEvent list \<Rightarrow> incus_client \<Rightarrow> incus_client" where
  "incus_obey env evs c =
     fold (\<lambda>e c. case te_Action e of
             ActionStopProxy \<Rightarrow> snd (incus_DeleteProxy (te_ID e) c)
           | _ \<Rightarrow> snd (incus_AddTarget env (te_ID e) (snd (incus_DeleteProxy (te_ID e) c)))) evs c"

text \<open>
  An update of an instance is answered once. If the instance is fetched, is enabled only while it can be given a proxy,
  and the events are carried out, the instance is tracked afterwards exactly if it is enabled; the same
  update then causes no event, nor does any later change of the instance that leaves its \<^verbatim>\<open>user.tsdproxy.\<close> keys as they are.
\<close>
theorem instance_update_settles:
  assumes "ie_GetInstance env name = Some inst"
    and "instanceEnabled (in_Config inst) \<Longrightarrow> \<exists>r. incus_buildProxyConfig env (ic_provider c) name = Inr r"
    and "c' = incus_obey env (handleInstanceUpdated env c name) c"
    and "ie_GetInstance env' name = Some inst'"
    and "\<And>k. has_prefix k incusPrefix \<Longrightarrow> gm_get (in_Config inst') k = gm_get (in_Config inst) k"
  shows "(gm_get (ic_instances c') name \<noteq> None \<longleftrightarrow> instanceEnabled (in_Config inst)) \<and> handleInstanceUpdated env' c' name = []"
proof -
  have same: "instanceEnabled (in_Config inst') = instanceEnabled (in_Config inst)"
    "\<not> tsdproxyConfigChanged (in_Config inst) (in_Config inst')"
    using assms(5) enabled_by_keys unchanged_iff by metis+
  have added: "\<exists>i. gm_get (ic_instances (snd (incus_AddTarget env name d))) name = Some i \<and> is_config i = in_Config inst"
    if "instanceEnabled (in_Config inst)" "ic_provider d = ic_provider c" for d
  proof -
    from assms(2) [OF that(1)] that(2) obtain pcfg i where "incus_buildProxyConfig env (ic_provider d) name = Inr (pcfg, i)" by auto
    then have "incus_AddTarget env name d = (Inr pcfg, snd (incus_AddTarget env name d))" by (simp add: incus_AddTarget_def)
    from AddTarget_config [OF this] assms(1) show ?thesis by auto
  qed
  have p: "ic_provider (snd (incus_DeleteProxy name c)) = ic_provider c" by (simp add: incus_DeleteProxy_def)
  show ?thesis
  proof (cases "instanceEnabled (in_Config inst)")
    case False
    then have "gm_get (ic_instances c') name = None"
      unfolding assms(3) using assms(1)
      by (cases "gm_get (ic_instances c) name") (simp_all add: handleInstanceUpdated_def incus_obey_def incus_event_def incus_DeleteProxy_def)
    with False same(1) assms(4) show ?thesis by (simp add: handleInstanceUpdated_def)
  next
    case True
    show ?thesis
    proof (cases "\<exists>t. gm_get (ic_instances c) name = Some t \<and> \<not> tsdproxyConfigChanged (is_config t) (in_Config inst)")
      case True
      then obtain t where t: "gm_get (ic_instances c) name = Some t" "\<not> tsdproxyConfigChanged (is_config t) (in_Config inst)" by blast
      with assms(1,3) \<open>instanceEnabled (in_Config inst)\<close> have c': "c' = c" by (simp add: handleInstanceUpdated_def incus_obey_def)
      have "\<not> tsdproxyConfigChanged (is_config t) (in_Config inst')" using t(2) assms(5) by (simp add: unchanged_iff)
      then show ?thesis using t(1) assms(4) same(1) \<open>instanceEnabled (in_Config inst)\<close> by (simp add: c' handleInstanceUpdated_def)
    next
      case False
      then have "\<exists>a. a \<noteq> ActionStopProxy \<and> handleInstanceUpdated env c name = incus_event name a"
        using assms(1) \<open>instanceEnabled (in_Config inst)\<close> by (auto simp: handleInstanceUpdated_def split: option.splits)
      then have "c' = snd (incus_AddTarget env name (snd (incus_DeleteProxy name c)))"
        unfolding assms(3) by (auto simp: incus_obey_def incus_event_def split: ActionType.split)
      with added [OF \<open>instanceEnabled (in_Config inst)\<close> p] obtain i
        where "gm_get (ic_instances c') name = Some i" "is_config i = in_Config inst" by auto
      then show ?thesis using same assms(4) \<open>instanceEnabled (in_Config inst)\<close> by (simp add: handleInstanceUpdated_def)
    qed
  qed
qed

text \<open>The wait ends with a state that has a global address, with the last one, or with none after an error; it makes at most five requests.\<close>

lemma state_loop_result:
  "state_loop env iid ts prev = Some st \<Longrightarrow> prev = Some st \<or> (\<exists>t \<in> set ts. ie_GetInstanceState env t iid = Some st)"
  by (induction ts arbitrary: prev) (auto split: option.splits if_splits)

lemma waitForInstanceState_seen: "waitForInstanceState env iid = Some st \<Longrightarrow> \<exists>t < stateWaitTries. ie_GetInstanceState env t iid = Some st"
  using state_loop_result [of env iid "[0..<stateWaitTries]" None st] by (auto simp: waitForInstanceState_def)

text \<open>
  An update of an instance that does not run but is enabled and untracked asks for a start that must fail.
\<close>

lemma stopped_update_asks_start:
  "ie_GetInstance env name = Some inst \<Longrightarrow> instanceEnabled (in_Config inst) \<Longrightarrow> \<not> in_Running inst \<Longrightarrow> gm_get (ic_instances c) name = None \<Longrightarrow>
   handleInstanceUpdated env c name = incus_event name ActionStartProxy \<and>
   incus_AddTarget env name c = (Inl (InstanceNotRunning name (in_Status inst)), c)"
  by (simp add: handleInstanceUpdated_def incus_AddTarget_def incus_buildProxyConfig_def)

section \<open>Witness\<close>

definition example_incus :: incus_client where
  "example_incus =
     \<lparr>ic_provider = \<lparr>ip_name = ''inc'', ip_defaultProxyProvider = ''default'', ip_defaultTargetHostname = [], ip_autoRestart = True,
        ip_healthCheckEnabled = True, ip_healthCheckInterval = 30, ip_healthCheckFailures = 3, ip_healthCheckCooldown = 0, ip_rateLimitEnabled = True,
        ip_rateLimitRPS = 100, ip_rateLimitBurst = 200, ip_proxyAccessLogDefault = True, ip_allowInstanceFunnel = False,
        ip_allowTLSValidateDisable = False, ip_defaultSet = ''sh''\<rparr>,
      ic_instances = []\<rparr>"

definition example_instance :: incus_instance where
  "example_instance = \<lparr>in_Name = ''web'', in_Config = [(''user.tsdproxy.enable'', ''true'')], in_Running = True, in_Status = ''Running''\<rparr>"

definition example_incus_env :: incus_env where
  "example_incus_env =
     \<lparr>ie_GetInstance = (\<lambda>_. Some example_instance), ie_GetInstanceState = (\<lambda>_ _. Some [(''eth0'', [\<lparr>ia_Scope = ''global'', ia_Address = ''10.0.0.5''\<rparr>])]),
      ie_GetInstances = Some [example_instance], ie_ctxDone = (\<lambda>_. False), ie_parseAddr = (\<lambda>s. Some (True, s)),
      ie_fileEnv = \<lparr>fe_getwd = None, fe_evalSymlinks = (\<lambda>_. None), fe_isRegular = (\<lambda>_. None), fe_readFile = (\<lambda>_. None)\<rparr>\<rparr>"

theorem instance_update_settles_witness:
  "gm_get (ic_instances (incus_obey example_incus_env (handleInstanceUpdated example_incus_env example_incus ''web'') example_incus)) ''web'' \<noteq> None"
proof -
  have fetch: "ie_GetInstance example_incus_env ''web'' = Some example_instance" by (simp add: example_incus_env_def)
  have "isl (incus_buildProxyConfig example_incus_env (ic_provider example_incus) ''web'') = False" by code_simp
  then have build: "\<exists>r. incus_buildProxyConfig example_incus_env (ic_provider example_incus) ''web'' = Inr r"
    by (cases "incus_buildProxyConfig example_incus_env (ic_provider example_incus) ''web''") simp_all
  have "instanceEnabled (in_Config example_instance)" by code_simp
  with instance_update_settles [OF fetch build refl fetch] show ?thesis by simp
qed

end
