(* ===== verification/Services_API.thy ===== *)
theory Services_API
  imports Services_Server Tailscale_Node Whois_Cache
begin

text \<open>
  The calls \<^verbatim>\<open>src/internal/proxyproviders/tailscale/services_server.go\<close> makes outside its loop: the service of a proxy is
  created, updated and deleted by the API of Tailscale, a device that has the name of a service is removed, the node is
  approved as a host of the service, certificates are fetched ahead. What the API answers is an argument; the calls made are part of
  the result.
\<close>

section \<open>Errors by their text\<close>

definition isNotFound :: "string \<Rightarrow> bool" where
  "isNotFound msg \<longleftrightarrow> contains_str msg ''not found'' \<or> contains_str msg ''404''"

definition isNameInUseError :: "string \<Rightarrow> bool" where
  "isNameInUseError msg \<longleftrightarrow> contains_str msg ''name is in use'' \<or> contains_str msg ''409''"

section \<open>Services\<close>

record VIPService =
  vs_Name :: string
  vs_Addrs :: "string list"
  vs_Ports :: "string list"
  vs_Tags :: "string list"

datatype api_call =
    CreateOrUpdate VIPService
  | GetService string
  | DeleteService string
  | ListDevices
  | GetDevice string
  | DeleteTailnetDevice string

datatype vip_error =
    NoAPIClient
  | APIError string
  | GetExisting string
  | AutoRemove removal_error string
  and removal_error = ListFails string | ConflictingDeviceOnline string string | DeleteFails string string

text \<open>
  The answers: of the n-th \<^verbatim>\<open>CreateOrUpdate\<close>, an error or none; the addresses of a service; the devices; one
  device again, \<open>None\<close> when it cannot be read; of the deletion of a device and of a service.
\<close>

record vip_env =
  va_client :: bool
  va_create :: "nat \<Rightarrow> VIPService \<Rightarrow> string option"
  va_get :: "string \<Rightarrow> string + string list"
  va_list :: "string + deviceEntry list"
  va_getDevice :: "string \<Rightarrow> deviceEntry option"
  va_deleteDevice :: "string \<Rightarrow> string option"
  va_delete :: "string \<Rightarrow> string option"

record services_config =
  sc_tags :: string
  sc_autoRemoveConflicts :: bool

text \<open>The host name of a service: what follows \<^verbatim>\<open>svc:\<close>, if it has that prefix.\<close>

definition service_hostname :: "string \<Rightarrow> string option" where
  "service_hostname serviceName = (if has_prefix serviceName ''svc:'' then Some (drop 4 serviceName) else None)"

fun remove_conflicts :: "vip_env \<Rightarrow> string \<Rightarrow> deviceEntry list \<Rightarrow> removal_error option \<times> api_call list" where
  "remove_conflicts env hostname [] = (None, [])"
| "remove_conflicts env hostname (d # ds) =
     (if de_Hostname d \<noteq> hostname then remove_conflicts env hostname ds
      else if de_Connected d then (Some (ConflictingDeviceOnline (de_Hostname d) (de_NodeID d)), [])
      else apsnd ((#) (GetDevice (de_NodeID d)))
        (case va_getDevice env (de_NodeID d) of
           None \<Rightarrow> remove_conflicts env hostname ds
         | Some current \<Rightarrow>
             if de_Connected current then (Some (ConflictingDeviceOnline (de_Hostname current) (de_NodeID current)), [])
             else apsnd ((#) (DeleteTailnetDevice (de_NodeID current)))
               (case va_deleteDevice env (de_NodeID current) of
                  Some e \<Rightarrow> (Some (DeleteFails (de_NodeID current) e), [])
                | None \<Rightarrow> remove_conflicts env hostname ds)))"

definition removeConflictingDevice :: "vip_env \<Rightarrow> string \<Rightarrow> removal_error option \<times> api_call list" where
  "removeConflictingDevice env serviceName =
     (case service_hostname serviceName of
        None \<Rightarrow> (None, [])
      | Some hostname \<Rightarrow>
          apsnd ((#) ListDevices) (case va_list env of Inl e \<Rightarrow> (Some (ListFails e), []) | Inr devices \<Rightarrow> remove_conflicts env hostname devices))"

definition vip_service :: "services_config \<Rightarrow> string \<Rightarrow> string list \<Rightarrow> string list \<Rightarrow> VIPService" where
  "vip_service cfg serviceName addrs ports = \<lparr>vs_Name = serviceName, vs_Addrs = addrs, vs_Ports = ports, vs_Tags = cleanTags (sc_tags cfg)\<rparr>"

definition retry_create :: "vip_env \<Rightarrow> VIPService \<Rightarrow> vip_error option \<times> api_call list" where
  "retry_create env svc = (map_option APIError (va_create env 1 svc), [CreateOrUpdate svc])"

definition createOrUpdateVIPServiceProd :: "vip_env \<Rightarrow> services_config \<Rightarrow> string \<Rightarrow> string list \<Rightarrow> vip_error option \<times> api_call list" where
  "createOrUpdateVIPServiceProd env cfg serviceName ports =
     (if \<not> va_client env then (Some NoAPIClient, [])
      else let svc = vip_service cfg serviceName [] ports
           in apsnd ((#) (CreateOrUpdate svc))
             (case va_create env 0 svc of
                None \<Rightarrow> (None, [])
              | Some err \<Rightarrow>
                  if sc_autoRemoveConflicts cfg \<and> isNameInUseError err then
                    (case removeConflictingDevice env serviceName of
                       (Some e, calls) \<Rightarrow> (Some (AutoRemove e err), calls)
                     | (None, calls) \<Rightarrow> apsnd ((@) calls) (retry_create env svc))
                  else if \<not> contains_str err ''addrs must contain'' then (Some (APIError err), [])
                  else apsnd ((#) (GetService serviceName))
                    (case va_get env serviceName of
                       Inl e \<Rightarrow> if \<not> isNotFound e then (Some (GetExisting e), []) else retry_create env svc
                     | Inr addrs \<Rightarrow> retry_create env (vip_service cfg serviceName addrs ports))))"

definition deleteVIPServiceProd :: "vip_env \<Rightarrow> string \<Rightarrow> vip_error option \<times> api_call list" where
  "deleteVIPServiceProd env serviceName =
     (if \<not> va_client env then (Some NoAPIClient, []) else (map_option APIError (va_delete env serviceName), [DeleteService serviceName]))"

text \<open>After a failed listen: the service is cut down to the other ports of it, or deleted when there are none. Errors are logged only.\<close>

definition rollbackVIPServiceOnListenFailure :: "vip_env \<Rightarrow> services_config \<Rightarrow> string \<Rightarrow> string list \<Rightarrow> nat \<Rightarrow> api_call list" where
  "rollbackVIPServiceOnListenFailure env cfg serviceName allPorts failedPort =
     (let remaining = withoutPort allPorts failedPort
      in if remaining = [] then snd (deleteVIPServiceProd env serviceName)
         else snd (createOrUpdateVIPServiceProd env cfg serviceName remaining))"

definition releaseServiceAsync :: "vip_env \<Rightarrow> services_config \<Rightarrow> string \<Rightarrow> string list \<Rightarrow> vip_error option \<times> api_call list" where
  "releaseServiceAsync env cfg serviceName remainingPorts =
     (if remainingPorts = [] then deleteVIPServiceProd env serviceName else createOrUpdateVIPServiceProd env cfg serviceName remainingPorts)"

definition reconcileServiceHostname :: "bool \<Rightarrow> APIClientFactory option \<Rightarrow> (string \<Rightarrow> string + deviceEntry list) \<Rightarrow> (string \<Rightarrow> deviceEntry option) \<Rightarrow>
    string \<Rightarrow> string \<Rightarrow> reconcile_effect list" where
  "reconcileServiceHostname hasReconciler factory listDevices getDevice tags serviceName =
     (case service_hostname serviceName of
        None \<Rightarrow> []
      | Some hostname \<Rightarrow>
          if hasReconciler then Reconcile factory listDevices getDevice hostname tags \<lparr>ro_force = False, ro_hasLocalState = False\<rparr> else [])"

section \<open>Approval\<close>

datatype approval_error = ApproveNoClient | ApproveNotInitialized | NoNodeStatus | NoSelf | EmptyNodeID | ApproveRequest | ApproveStatus int

text \<open>\<open>status\<close> is the identifier of the own node in its status, if it has one; \<open>post\<close> the status of the answer.\<close>

record approve_env =
  ap_server :: bool
  ap_client :: bool
  ap_initialized :: bool
  ap_status :: "string option option"
  ap_post :: "string list \<Rightarrow> int option"

definition approval_path :: "string \<Rightarrow> string \<Rightarrow> string list" where
  "approval_path serviceName nodeID =
     [''api'', ''v2'', ''tailnet'', ''-'', ''services'', serviceName, ''device'', nodeID, ''approved'']"

definition approveServiceDeviceForServer :: "approve_env \<Rightarrow> string \<Rightarrow> approval_error option" where
  "approveServiceDeviceForServer env serviceName =
     (if \<not> ap_server env then None
      else if \<not> ap_client env then Some ApproveNoClient
      else if \<not> ap_initialized env then Some ApproveNotInitialized
      else case ap_status env of
             None \<Rightarrow> Some NoNodeStatus
           | Some None \<Rightarrow> Some NoSelf
           | Some (Some nodeID) \<Rightarrow>
               if nodeID = [] then Some EmptyNodeID
               else case ap_post env (approval_path serviceName nodeID) of
                      None \<Rightarrow> Some ApproveRequest
                    | Some status \<Rightarrow> if status \<noteq> 200 then Some (ApproveStatus status) else None)"

section \<open>Certificates and identity\<close>

text \<open>\<open>certDomains\<close> are the names the node may have certificates for, \<open>fqdn\<close> the name of a listener.\<close>

definition validCertDomains :: "servicesRuntime \<Rightarrow> string list \<Rightarrow> string list" where
  "validCertDomains rt certDomains = (if vr_server rt = None then [] else certDomains)"

definition prefetchCerts :: "bool \<Rightarrow> servicesRuntime \<Rightarrow> string list \<Rightarrow> (nat \<Rightarrow> string) \<Rightarrow> string list" where
  "prefetchCerts localClient rt certDomains fqdn =
     (if \<not> localClient then []
      else map (\<lambda>e. fqdn (sv_listener e))
        (filter (\<lambda>e. sv_https e \<and> fqdn (sv_listener e) \<noteq> [] \<and> fqdn (sv_listener e) \<in> set (validCertDomains rt certDomains)) (map snd (vr_listeners rt))))"

definition prefetchCertForService :: "bool \<Rightarrow> servicesRuntime \<Rightarrow> string list \<Rightarrow> bool \<Rightarrow> string option \<Rightarrow> string option" where
  "prefetchCertForService localClient rt certDomains https listenerFQDN =
     (case listenerFQDN of
        None \<Rightarrow> None
      | Some fqdn \<Rightarrow>
          if \<not> vr_running rt \<or> \<not> https \<or> fqdn = [] \<or> \<not> localClient \<or> fqdn \<notin> set (validCertDomains rt certDomains) then None
          else Some fqdn)"

definition services_Whois :: "int \<Rightarrow> int \<Rightarrow> (string \<Rightarrow> WhoIsResponse option) option \<Rightarrow> http_request option \<Rightarrow> WhoisCache option \<Rightarrow> (Whois \<times> WhoisCache option) option" where
  "services_Whois now later localClient r cache =
     (case r of
        None \<Rightarrow> Some (emptyWhois, cache)
      | Some req \<Rightarrow>
          if localClient = None then Some (emptyWhois, cache)
          else let peerIP = trustedPeerIP req
               in if peerIP = [] then Some (emptyWhois, cache) else cachedWhoisFromAddr now later localClient peerIP cache)"

section \<open>Lemmas\<close>

fun creates :: "api_call list \<Rightarrow> VIPService list" where
  "creates [] = []"
| "creates (CreateOrUpdate s # cs) = s # creates cs"
| "creates (_ # cs) = creates cs"

lemma creates_append [simp]: "creates (xs @ ys) = creates xs @ creates ys"
  by (induction xs rule: creates.induct) simp_all

lemma remove_conflicts_deletes:
  "DeleteTailnetDevice n \<in> set (snd (remove_conflicts env hostname ds)) \<Longrightarrow>
   \<exists>d \<in> set ds. \<exists>current. de_Hostname d = hostname \<and> \<not> de_Connected d \<and> va_getDevice env (de_NodeID d) = Some current \<and>
     \<not> de_Connected current \<and> de_NodeID current = n"
  by (induction ds) (auto split: if_splits option.splits)

lemma remove_conflicts_creates [simp]: "creates (snd (remove_conflicts env hostname ds)) = []"
  by (induction ds) (simp_all split: option.split)

lemma removeConflicting_creates [simp]: "creates (snd (removeConflictingDevice env s)) = []"
  by (simp add: removeConflictingDevice_def split: option.split sum.split)

lemma removeConflicting_creates_of: "removeConflictingDevice env s = (r, calls) \<Longrightarrow> creates calls = []"
  by (metis removeConflicting_creates snd_conv)

lemma remove_conflicts_clears:
  "fst (remove_conflicts env hostname ds) = None \<Longrightarrow> d \<in> set ds \<Longrightarrow> de_Hostname d = hostname \<Longrightarrow>
   \<not> de_Connected d \<and> (\<forall>current. va_getDevice env (de_NodeID d) = Some current \<longrightarrow>
      DeleteTailnetDevice (de_NodeID current) \<in> set (snd (remove_conflicts env hostname ds)) \<and> va_deleteDevice env (de_NodeID current) = None)"
  by (induction ds) (auto split: if_splits option.splits)

section \<open>Properties\<close>

definition conflict_removed :: "vip_env \<Rightarrow> services_config \<Rightarrow> string \<Rightarrow> string list \<Rightarrow> string \<Rightarrow> bool" where
  "conflict_removed env cfg serviceName ports n \<longleftrightarrow>
     sc_autoRemoveConflicts cfg \<and>
     (case va_create env 0 (vip_service cfg serviceName [] ports) of None \<Rightarrow> False | Some err \<Rightarrow> isNameInUseError err) \<and>
     (case va_list env of
        Inl _ \<Rightarrow> False
      | Inr devices \<Rightarrow> list_ex (\<lambda>d. ''svc:'' @ de_Hostname d = serviceName \<and> \<not> de_Connected d \<and>
          (case va_getDevice env (de_NodeID d) of None \<Rightarrow> False | Some current \<Rightarrow> \<not> de_Connected current \<and> de_NodeID current = n)) devices)"

text \<open>
  Creating or updating the service of a proxy is careful. It makes at most two attempts, always with the same name, ports and
  tags, and with no addresses or those the service has. A device is deleted only if the operator allowed that, the name was
  refused as being in use, and the device has the name of the service and was offline twice: when the devices were listed and
  when it was looked at again.
\<close>
theorem createOrUpdate_careful:
  "case createOrUpdateVIPServiceProd env cfg serviceName ports of
     (res, calls) \<Rightarrow>
       length (creates calls) \<le> 2 \<and>
       list_all (\<lambda>s. vs_Name s = serviceName \<and> vs_Ports s = ports \<and> vs_Tags s = cleanTags (sc_tags cfg)
         \<and> (vs_Addrs s = [] \<or> va_get env serviceName = Inr (vs_Addrs s))) (creates calls) \<and>
       list_all (\<lambda>c. case c of DeleteTailnetDevice n \<Rightarrow> conflict_removed env cfg serviceName ports n | _ \<Rightarrow> True) calls"
proof -
  obtain res calls where c: "createOrUpdateVIPServiceProd env cfg serviceName ports = (res, calls)" by fastforce
  let ?svc = "vip_service cfg serviceName [] ports"
  have "length (creates calls) \<le> 2"
    using c
    by (auto dest!: removeConflicting_creates_of simp: createOrUpdateVIPServiceProd_def retry_create_def Let_def split: if_splits option.splits sum.splits prod.splits)
  moreover have "list_all (\<lambda>s. vs_Name s = serviceName \<and> vs_Ports s = ports \<and> vs_Tags s = cleanTags (sc_tags cfg)
         \<and> (vs_Addrs s = [] \<or> va_get env serviceName = Inr (vs_Addrs s))) (creates calls)"
    using c
    by (auto dest!: removeConflicting_creates_of simp: createOrUpdateVIPServiceProd_def retry_create_def vip_service_def Let_def split: if_splits option.splits sum.splits prod.splits)
  moreover have "conflict_removed env cfg serviceName ports n" if "DeleteTailnetDevice n \<in> set calls" for n
  proof -
    from that c obtain err where err: "va_create env 0 ?svc = Some err" "sc_autoRemoveConflicts cfg" "isNameInUseError err"
      and "DeleteTailnetDevice n \<in> set (snd (removeConflictingDevice env serviceName))"
      by (auto simp: createOrUpdateVIPServiceProd_def retry_create_def Let_def split: if_splits option.splits sum.splits prod.splits)
    then obtain hostname devices where h: "service_hostname serviceName = Some hostname" "va_list env = Inr devices"
      and "DeleteTailnetDevice n \<in> set (snd (remove_conflicts env hostname devices))"
      by (auto simp: removeConflictingDevice_def split: option.splits sum.splits)
    from remove_conflicts_deletes [OF this(3)] obtain d current where d: "d \<in> set devices" "de_Hostname d = hostname" "\<not> de_Connected d"
      "va_getDevice env (de_NodeID d) = Some current" "\<not> de_Connected current" "de_NodeID current = n" by blast
    have "''svc:'' @ hostname = serviceName"
    proof -
      have "take 4 serviceName = ''svc:''" "hostname = drop 4 serviceName"
        using h(1) by (auto simp: service_hostname_def has_prefix_def numeral_eq_Suc split: if_splits)
      then show ?thesis by (metis append_take_drop_id)
    qed
    then show ?thesis using err h(2) d by (auto simp: conflict_removed_def list_ex_iff)
  qed
  ultimately show ?thesis by (auto simp: c list_all_iff split: api_call.split)
qed

text \<open>
  A retry after a removal has no offline device in its way: when it succeeds, no device of the list with the name of the service was
  online, and each that could be looked at again was deleted.
\<close>
theorem removeConflicting_clears:
  assumes "removeConflictingDevice env (''svc:'' @ hostname) = (None, calls)" "va_list env = Inr devices" "d \<in> set devices" "de_Hostname d = hostname"
  shows "\<not> de_Connected d \<and>
    (\<forall>current. va_getDevice env (de_NodeID d) = Some current \<longrightarrow> DeleteTailnetDevice (de_NodeID current) \<in> set calls)"
proof -
  have "service_hostname (''svc:'' @ hostname) = Some hostname" by (simp add: service_hostname_def has_prefix_def)
  with assms(1,2) have "fst (remove_conflicts env hostname devices) = None" "set (snd (remove_conflicts env hostname devices)) \<subseteq> set calls"
    by (auto simp: removeConflictingDevice_def apsnd_def map_prod_def split: prod.splits)
  with remove_conflicts_clears [OF this(1) assms(3,4)] show ?thesis by auto
qed

text \<open>Errors are recognised by digits: a refused port with 409 in its number counts as a name in use.\<close>

lemma port_taken_for_conflict: "isNameInUseError ''invalid port tcp:4090''"
  by code_simp

text \<open>A certificate is fetched ahead only for the name of an HTTPS listener the node may have certificates for.\<close>

lemma prefetch_valid:
  "f \<in> set (prefetchCerts lc rt domains fqdn) \<Longrightarrow> lc \<and> vr_server rt \<noteq> None \<and> f \<in> set domains \<and> (\<exists>k e. (k, e) \<in> set (vr_listeners rt) \<and> sv_https e \<and> fqdn (sv_listener e) = f)"
  by (fastforce simp: prefetchCerts_def validCertDomains_def split: if_splits)

definition example_vip_env :: vip_env where
  "example_vip_env =
     \<lparr>va_client = True, va_create = (\<lambda>n _. if n = 0 then Some ''name is in use'' else None), va_get = (\<lambda>_. Inr []),
      va_list = Inr [\<lparr>de_Hostname = ''app'', de_NodeID = ''n1'', de_Connected = False\<rparr>],
      va_getDevice = (\<lambda>_. Some \<lparr>de_Hostname = ''app'', de_NodeID = ''n1'', de_Connected = False\<rparr>), va_deleteDevice = (\<lambda>_. None), va_delete = (\<lambda>_. None)\<rparr>"

theorem removeConflicting_clears_witness:
  "\<exists>calls. removeConflictingDevice example_vip_env (''svc:'' @ ''app'') = (None, calls) \<and> DeleteTailnetDevice ''n1'' \<in> set calls"
proof -
  have r: "removeConflictingDevice example_vip_env (''svc:'' @ ''app'') = (None, [ListDevices, GetDevice ''n1'', DeleteTailnetDevice ''n1''])"
    by code_simp
  have l: "va_list example_vip_env = Inr [\<lparr>de_Hostname = ''app'', de_NodeID = ''n1'', de_Connected = False\<rparr>]" by (simp add: example_vip_env_def)
  from removeConflicting_clears [OF r l, of "\<lparr>de_Hostname = ''app'', de_NodeID = ''n1'', de_Connected = False\<rparr>"] show ?thesis
    using r by (auto simp: example_vip_env_def)
qed

end
