(* ===== verification/Cloudflare.thy ===== *)
theory Cloudflare
  imports Go_Prelude "HOL-Library.Word"
begin

unbundle bit_operations_syntax

text \<open>
  \<^verbatim>\<open>src/internal/dnsproviders/cloudflare/cloudflare.go\<close>: DNS records of a domain at Cloudflare. The zone of a domain is looked for
  and remembered, stale records are deleted, the one that is wanted is made. What the API answers is an argument, the
  calls made are part of the result.
\<close>

section \<open>Requests\<close>

record cf_response =
  cf_Success :: bool
  cf_Errors :: "string list"
  cf_Result :: string

datatype cf_error =
    RateLimiter
  | HTTPRequest string
  | HTTPStatus int string
  | ParseResponse
  | APIFailure "string option"
  | InvalidDomain string
  | NoZone string
  | DeleteStale string cf_error

definition errorBodySnippetLen :: nat where "errorBodySnippetLen = 200"

text \<open>\<open>waits\<close>: the limiter lets the request pass; \<open>answer\<close>: an error, or status and body; \<open>decode\<close> reads JSON.\<close>

definition doRequest :: "bool \<Rightarrow> string + (int \<times> string) \<Rightarrow> (string \<Rightarrow> cf_response option) \<Rightarrow> cf_error + string" where
  "doRequest waits answer decode =
     (if \<not> waits then Inl RateLimiter
      else case answer of
             Inl e \<Rightarrow> Inl (HTTPRequest e)
           | Inr (status, data) \<Rightarrow>
               if status < 200 \<or> status \<ge> 300 then
                 Inl (HTTPStatus status (if length data > errorBodySnippetLen then take errorBodySnippetLen data @ ''...'' else data))
               else (case decode data of
                       None \<Rightarrow> Inl ParseResponse
                     | Some r \<Rightarrow>
                         if \<not> cf_Success r then Inl (APIFailure (case cf_Errors r of [] \<Rightarrow> None | m # _ \<Rightarrow> Some m))
                         else Inr (cf_Result r)))"

record cfDNSRecord =
  cr_ID :: string
  cr_Type :: string
  cr_Name :: string
  cr_Content :: string
  cr_Proxied :: bool
  cr_TTL :: int

datatype cf_call =
    CfZones string
  | CfList string string string
  | CfDelete string string
  | CfCreate string cfDNSRecord

text \<open>The answers, as \<open>doRequest\<close> and the decoding of the result give them: the zones of a name, the records of a type and a name, a deletion, a creation.\<close>

record cf_env =
  ce_zones :: "string \<Rightarrow> cf_error + string list"
  ce_list :: "string \<Rightarrow> string \<Rightarrow> string \<Rightarrow> cf_error + cfDNSRecord list"
  ce_delete :: "string \<Rightarrow> string \<Rightarrow> cf_error option"
  ce_create :: "string \<Rightarrow> cfDNSRecord \<Rightarrow> cf_error + bool"

type_synonym zone_cache = "(string, string) gomap"

section \<open>Locks\<close>

definition fnv32a :: "string \<Rightarrow> 32 word" where
  "fnv32a s = fold (\<lambda>c h. (h XOR of_nat (of_char c)) * 16777619) s 2166136261"

definition lockDomain :: "string \<Rightarrow> nat" where
  "lockDomain domain = unat (fnv32a (to_lower domain)) mod 256"

section \<open>Zones\<close>

definition minDomainParts :: nat where "minDomainParts = 2"

definition trim_dot :: "string \<Rightarrow> string" where
  "trim_dot s = (if s \<noteq> [] \<and> last s = CHR ''.'' then butlast s else s)"

text \<open>The names of the zones that are tried: from the whole domain to its last two labels.\<close>

fun zone_names :: "string list \<Rightarrow> string list" where
  "zone_names (p # q # parts) = join_str ''.'' (p # q # parts) # zone_names (q # parts)"
| "zone_names _ = []"

fun zone_loop :: "cf_env \<Rightarrow> string \<Rightarrow> string list \<Rightarrow> zone_cache \<Rightarrow> (cf_error + string) \<times> zone_cache \<times> cf_call list" where
  "zone_loop env domain [] cache = (Inl (NoZone domain), cache, [])"
| "zone_loop env domain (zoneName # names) cache =
     (case gm_get cache zoneName of
        Some z \<Rightarrow> (Inr z, cache, [])
      | None \<Rightarrow>
          apsnd (apsnd ((#) (CfZones zoneName)))
            (case ce_zones env zoneName of
               Inl e \<Rightarrow> (Inl e, cache, [])
             | Inr (z # _) \<Rightarrow> (Inr z, gm_put zoneName z cache, [])
             | Inr [] \<Rightarrow> zone_loop env domain names cache))"

definition resolveZoneID :: "cf_env \<Rightarrow> string \<Rightarrow> zone_cache \<Rightarrow> (cf_error + string) \<times> zone_cache \<times> cf_call list" where
  "resolveZoneID env domain cache =
     (let parts = split_str ''.'' (trim_dot domain)
      in if length parts < minDomainParts then (Inl (InvalidDomain domain), cache, []) else zone_loop env domain (zone_names parts) cache)"

section \<open>Records\<close>

fun delete_stale :: "cf_env \<Rightarrow> string \<Rightarrow> string \<Rightarrow> cfDNSRecord list \<Rightarrow> bool \<Rightarrow> (cf_error + bool) \<times> cf_call list" where
  "delete_stale env zoneID value [] found = (Inr found, [])"
| "delete_stale env zoneID value (r # rs) found =
     (if equal_fold (cr_Content r) value then delete_stale env zoneID value rs True
      else apsnd ((#) (CfDelete zoneID (cr_ID r)))
        (case ce_delete env zoneID (cr_ID r) of
           Some e \<Rightarrow> (Inl (DeleteStale (cr_ID r) e), [])
         | None \<Rightarrow> delete_stale env zoneID value rs found))"

definition new_record :: "string \<Rightarrow> string \<Rightarrow> string \<Rightarrow> int \<Rightarrow> cfDNSRecord" where
  "new_record recordType name content ttl = \<lparr>cr_ID = [], cr_Type = recordType, cr_Name = name, cr_Content = content, cr_Proxied = False, cr_TTL = ttl\<rparr>"

text \<open>The zone and then the records of a domain, for the three operations on them.\<close>

definition with_records :: "cf_env \<Rightarrow> string \<Rightarrow> string \<Rightarrow> zone_cache \<Rightarrow> (string \<Rightarrow> cfDNSRecord list \<Rightarrow> (cf_error + 'a) \<times> cf_call list) \<Rightarrow>
    (cf_error + 'a) \<times> zone_cache \<times> cf_call list" where
  "with_records env domain recordType cache k =
     (case resolveZoneID env domain cache of
        (Inl e, cache', calls) \<Rightarrow> (Inl e, cache', calls)
      | (Inr zoneID, cache', calls) \<Rightarrow>
          (case (case ce_list env zoneID recordType domain of Inl e \<Rightarrow> (Inl e, []) | Inr records \<Rightarrow> k zoneID records) of
             (res, calls') \<Rightarrow> (res, cache', calls @ CfList zoneID recordType domain # calls')))"

definition CreateRecord :: "cf_env \<Rightarrow> string \<Rightarrow> string \<Rightarrow> string \<Rightarrow> zone_cache \<Rightarrow> (cf_error + unit) \<times> zone_cache \<times> cf_call list" where
  "CreateRecord env domain recordType value cache =
     with_records env domain recordType cache
       (\<lambda>zoneID records.
          case delete_stale env zoneID value records False of
            (Inl e, calls) \<Rightarrow> (Inl e, calls)
          | (Inr found, calls) \<Rightarrow>
              if found then (Inr (), calls)
              else let r = new_record recordType domain value 1
                   in (case ce_create env zoneID r of Inl e \<Rightarrow> Inl e | Inr _ \<Rightarrow> Inr (), calls @ [CfCreate zoneID r]))"

fun delete_all :: "cf_env \<Rightarrow> string \<Rightarrow> cfDNSRecord list \<Rightarrow> (cf_error + unit) \<times> cf_call list" where
  "delete_all env zoneID [] = (Inr (), [])"
| "delete_all env zoneID (r # rs) =
     apsnd ((#) (CfDelete zoneID (cr_ID r)))
       (case ce_delete env zoneID (cr_ID r) of Some e \<Rightarrow> (Inl e, []) | None \<Rightarrow> delete_all env zoneID rs)"

definition cf_DeleteRecord :: "cf_env \<Rightarrow> string \<Rightarrow> string \<Rightarrow> zone_cache \<Rightarrow> (cf_error + unit) \<times> zone_cache \<times> cf_call list" where
  "cf_DeleteRecord env domain recordType cache = with_records env domain recordType cache (delete_all env)"

definition cf_ValidateRecord :: "cf_env \<Rightarrow> string \<Rightarrow> string \<Rightarrow> string \<Rightarrow> zone_cache \<Rightarrow> (cf_error + bool) \<times> zone_cache \<times> cf_call list" where
  "cf_ValidateRecord env domain recordType expectedValue cache =
     with_records env domain recordType cache (\<lambda>_ records. (Inr (list_ex (\<lambda>r. equal_fold (cr_Content r) expectedValue) records), []))"

section \<open>Challenges of ACME\<close>

record libdns_record =
  lr_Type :: string
  lr_Name :: string
  lr_Data :: string
  lr_TTL :: int

fun append_loop :: "cf_env \<Rightarrow> string \<Rightarrow> libdns_record list \<Rightarrow> libdns_record list \<times> cf_error option \<times> cf_call list" where
  "append_loop env zoneID [] = ([], None, [])"
| "append_loop env zoneID (rec # recs) =
     (let r = new_record (lr_Type rec) (lr_Name rec) (lr_Data rec) (lr_TTL rec)
      in case ce_create env zoneID r of
           Inl e \<Rightarrow> ([], Some e, [CfCreate zoneID r])
         | Inr decoded \<Rightarrow>
             (case append_loop env zoneID recs of
                (created, err, calls) \<Rightarrow> (if decoded then rec # created else created, err, CfCreate zoneID r # calls)))"

definition AppendRecords :: "cf_env \<Rightarrow> string \<Rightarrow> libdns_record list \<Rightarrow> zone_cache \<Rightarrow> libdns_record list \<times> cf_error option \<times> zone_cache \<times> cf_call list" where
  "AppendRecords env zone recs cache =
     (case resolveZoneID env zone cache of
        (Inl e, cache', calls) \<Rightarrow> ([], Some e, cache', calls)
      | (Inr zoneID, cache', calls) \<Rightarrow> (case append_loop env zoneID recs of (created, err, calls') \<Rightarrow> (created, err, cache', calls @ calls')))"

definition delete_matches :: "cf_env \<Rightarrow> string \<Rightarrow> libdns_record \<Rightarrow> libdns_record list \<times> cf_call list" where
  "delete_matches env zoneID rec =
     apsnd ((#) (CfList zoneID (lr_Type rec) (lr_Name rec)))
       (case ce_list env zoneID (lr_Type rec) (lr_Name rec) of
          Inl _ \<Rightarrow> ([], [])
        | Inr records \<Rightarrow>
            (map (\<lambda>_. rec) (filter (\<lambda>r. ce_delete env zoneID (cr_ID r) = None) records), map (\<lambda>r. CfDelete zoneID (cr_ID r)) records))"

definition DeleteRecords :: "cf_env \<Rightarrow> string \<Rightarrow> libdns_record list \<Rightarrow> zone_cache \<Rightarrow> libdns_record list \<times> cf_error option \<times> zone_cache \<times> cf_call list" where
  "DeleteRecords env zone recs cache =
     (case resolveZoneID env zone cache of
        (Inl e, cache', calls) \<Rightarrow> ([], Some e, cache', calls)
      | (Inr zoneID, cache', calls) \<Rightarrow>
          (concat (map (\<lambda>rec. fst (delete_matches env zoneID rec)) recs), None, cache',
           calls @ concat (map (\<lambda>rec. snd (delete_matches env zoneID rec)) recs)))"

section \<open>Lemmas\<close>

lemma zone_names_length: "z \<in> set (zone_names parts) \<Longrightarrow> length z \<le> length (join_str ''.'' parts)"
proof (induction parts rule: zone_names.induct)
  case (1 p q parts)
  show ?case
  proof (cases "z = join_str ''.'' (p # q # parts)")
    case False
    then have "length z \<le> length (join_str ''.'' (q # parts))" using 1 by simp
    then show ?thesis by simp
  qed simp
qed simp_all

lemma zone_names_distinct: "distinct (zone_names parts)"
proof (induction parts rule: zone_names.induct)
  case (1 p q parts)
  have "join_str ''.'' (p # q # parts) \<notin> set (zone_names (q # parts))"
  proof
    assume "join_str ''.'' (p # q # parts) \<in> set (zone_names (q # parts))"
    from zone_names_length [OF this] show False by simp
  qed
  then show ?case using 1 by simp
qed simp_all

lemma zone_loop_cache:
  "zone_loop env d names cache = (Inr z, cache', calls) \<Longrightarrow> cache' = cache \<or> (\<exists>n \<in> set names. gm_get cache n = None \<and> cache' = gm_put n z cache)"
proof (induction names arbitrary: calls)
  case (Cons n names)
  then show ?case
    by (cases "gm_get cache n"; cases "ce_zones env n") (auto simp: apsnd_def map_prod_def split: list.splits prod.splits)
qed simp

text \<open>The zone that was found is found again, from the cache where it was put.\<close>

lemma zone_loop_again:
  assumes "zone_loop env d names cache = (Inr z, cache', calls)" "distinct names" "ce_zones env' = ce_zones env"
  shows "\<exists>calls'. zone_loop env' d names cache' = (Inr z, cache', calls') \<and> (\<forall>c \<in> set calls'. \<exists>n. c = CfZones n)"
  using assms
proof (induction names arbitrary: calls)
  case Nil
  then show ?case by simp
next
  case (Cons n names)
  show ?case
  proof (cases "gm_get cache n")
    case (Some z')
    then show ?thesis using Cons.prems(1) by auto
  next
    case None
    then obtain zs where zs: "ce_zones env n = Inr zs" using Cons.prems(1) by (cases "ce_zones env n") auto
    show ?thesis
    proof (cases zs)
      case (Cons z' rest)
      then show ?thesis using None zs Cons.prems(1) by auto
    next
      case Nil
      with None zs Cons.prems(1) obtain calls0 where l: "zone_loop env d names cache = (Inr z, cache', calls0)"
        by (auto simp: apsnd_def map_prod_def split: prod.splits)
      from Cons.IH [OF this] Cons.prems(2,3) obtain calls'
        where again: "zone_loop env' d names cache' = (Inr z, cache', calls')" "\<forall>c \<in> set calls'. \<exists>n. c = CfZones n" by auto
      from zone_loop_cache [OF l] Cons.prems(2) None have "gm_get cache' n = None" by auto
      then show ?thesis using again zs Nil Cons.prems(3) by auto
    qed
  qed
qed

lemma resolve_again:
  assumes "resolveZoneID env d cache = (Inr z, cache', calls)" "ce_zones env' = ce_zones env"
  shows "\<exists>calls'. resolveZoneID env' d cache' = (Inr z, cache', calls') \<and> (\<forall>c \<in> set calls'. \<exists>n. c = CfZones n)"
  using assms zone_loop_again [OF _ zone_names_distinct] by (fastforce simp: resolveZoneID_def Let_def split: if_splits)

lemma delete_stale_found:
  "delete_stale env z v rs b = (Inr found, calls) \<Longrightarrow>
   found = (b \<or> list_ex (\<lambda>r. equal_fold (cr_Content r) v) rs) \<and> calls = map (\<lambda>r. CfDelete z (cr_ID r)) (filter (\<lambda>r. \<not> equal_fold (cr_Content r) v) rs)"
proof (induction rs arbitrary: b calls)
  case Nil
  then show ?case by simp
next
  case (Cons r rs)
  show ?case
  proof (cases "equal_fold (cr_Content r) v")
    case True
    then show ?thesis using Cons by auto
  next
    case False
    then obtain calls0 where "delete_stale env z v rs b = (Inr found, calls0)" "calls = CfDelete z (cr_ID r) # calls0"
      using Cons.prems by (auto simp: apsnd_def map_prod_def split: option.splits prod.splits)
    then show ?thesis using Cons.IH False by auto
  qed
qed

text \<open>What calls that succeed make of the records of one type and name.\<close>

definition cf_effect :: "cf_call list \<Rightarrow> cfDNSRecord list \<Rightarrow> cfDNSRecord list" where
  "cf_effect calls rs =
     fold (\<lambda>c rs. case c of CfDelete _ i \<Rightarrow> filter (\<lambda>r. cr_ID r \<noteq> i) rs | CfCreate _ r \<Rightarrow> rs @ [r] | _ \<Rightarrow> rs) calls rs"

lemma cf_effect_append [simp]: "cf_effect (xs @ ys) rs = cf_effect ys (cf_effect xs rs)"
  by (simp add: cf_effect_def)

lemma cf_effect_reads: "\<forall>c \<in> set calls. (\<exists>n. c = CfZones n) \<or> (\<exists>a b d. c = CfList a b d) \<Longrightarrow> cf_effect calls rs = rs"
  unfolding cf_effect_def by (induction calls) auto

lemma cf_effect_deletes: "cf_effect (map (\<lambda>r. CfDelete z (cr_ID r)) ds) rs = filter (\<lambda>r. cr_ID r \<notin> cr_ID ` set ds) rs"
  unfolding cf_effect_def by (induction ds arbitrary: rs) (auto intro: filter_cong)

lemma zone_loop_reads: "zone_loop env d names cache = (res, cache', calls) \<Longrightarrow> \<forall>c \<in> set calls. \<exists>n. c = CfZones n"
proof (induction names arbitrary: calls)
  case (Cons n names)
  then show ?case by (auto simp: apsnd_def map_prod_def split: option.splits sum.splits list.splits prod.splits)
qed simp

lemma resolve_reads: "resolveZoneID env d cache = (res, cache', calls) \<Longrightarrow> \<forall>c \<in> set calls. \<exists>n. c = CfZones n"
  using zone_loop_reads by (fastforce simp: resolveZoneID_def Let_def split: if_splits)

definition cf_writes :: "cf_call list \<Rightarrow> cf_call list" where
  "cf_writes calls = filter (\<lambda>c. case c of CfDelete _ _ \<Rightarrow> True | CfCreate _ _ \<Rightarrow> True | _ \<Rightarrow> False) calls"

section \<open>Properties\<close>

lemma CreateRecord_steps:
  assumes "CreateRecord env domain recordType value cache = (Inr (), cache', calls)"
  obtains z zcalls records where "resolveZoneID env domain cache = (Inr z, cache', zcalls)" "ce_list env z recordType domain = Inr records"
    "calls = zcalls @ CfList z recordType domain # map (\<lambda>r. CfDelete z (cr_ID r)) (filter (\<lambda>r. \<not> equal_fold (cr_Content r) value) records)
      @ (if list_ex (\<lambda>r. equal_fold (cr_Content r) value) records then [] else [CfCreate z (new_record recordType domain value 1)])"
  using assms
  by (fastforce simp: CreateRecord_def with_records_def Let_def split: prod.splits sum.splits if_splits dest!: delete_stale_found)

definition listed :: "cf_env \<Rightarrow> string \<Rightarrow> string \<Rightarrow> zone_cache \<Rightarrow> cfDNSRecord list" where
  "listed env domain recordType cache =
     (case resolveZoneID env domain cache of
        (Inr z, _, _) \<Rightarrow> (case ce_list env z recordType domain of Inr rs \<Rightarrow> rs | Inl _ \<Rightarrow> [])
      | _ \<Rightarrow> [])"


text \<open>Names that differ in case only share a lock.\<close>

lemma lockDomain_case: "equal_fold a b \<Longrightarrow> lockDomain a = lockDomain b"
  by (simp add: lockDomain_def equal_fold_def)

text \<open>
  The clean-up of one challenge deletes every record of its type and name, whatever their data: a second challenge under way for the
  same name loses its record.
\<close>

lemma DeleteRecords_ignores_data:
  "resolveZoneID env zone cache = (Inr z, cache', calls) \<Longrightarrow> ce_list env z (lr_Type rec) (lr_Name rec) = Inr [r1, r2] \<Longrightarrow>
   CfDelete z (cr_ID r1) \<in> set (snd (snd (snd (DeleteRecords env zone [rec] cache)))) \<and> CfDelete z (cr_ID r2) \<in> set (snd (snd (snd (DeleteRecords env zone [rec] cache))))"
  by (simp add: DeleteRecords_def delete_matches_def)

definition example_cf_env :: cf_env where
  "example_cf_env =
     \<lparr>ce_zones = (\<lambda>n. if n = ''example.com'' then Inr [''z1''] else Inr []),
      ce_list = (\<lambda>_ _ _. Inr [\<lparr>cr_ID = ''r1'', cr_Type = ''CNAME'', cr_Name = ''app.example.com'', cr_Content = ''old.ts.net'', cr_Proxied = True, cr_TTL = 1\<rparr>]),
      ce_delete = (\<lambda>_ _. None), ce_create = (\<lambda>_ _. Inr True)\<rparr>"


end
