(* ===== verification/Dashboard_Prefs.thy ===== *)
theory Dashboard_Prefs
  imports Proxy_Model
begin

text \<open>
  \<^verbatim>\<open>src/internal/dashboard/preferences.go\<close> and the form handler of \<^verbatim>\<open>dash.go\<close>: the preferences of each user, cached in memory and
  kept in one file each. A file is what \<^verbatim>\<open>json.Unmarshal\<close> makes of it over the defaults, or it is unparsable. Slices are values
  except where the code compacts one in place that the caller still holds (\<open>shared_pins\<close>).
\<close>

section \<open>Preferences\<close>

record Preferences =
  pf_FilterHealth :: string
  pf_FilterStatus :: string
  pf_Sort :: string
  pf_View :: string
  pf_Pinned :: "string list"
  pf_Dark :: bool
  pf_Grouped :: bool

definition defaultPreferences :: Preferences where
  "defaultPreferences =
     \<lparr>pf_FilterHealth = ''all'', pf_FilterStatus = ''all'', pf_Sort = ''name'', pf_View = ''card'', pf_Pinned = [], pf_Dark = True, pf_Grouped = False\<rparr>"

definition validSortKeys :: "string list" where
  "validSortKeys = [''name'', ''status'', ''provider'', ''health'']"

definition validViewValues :: "string list" where
  "validViewValues = [''card'', ''list'']"

definition validFilterStatusValues :: "string list" where
  "validFilterStatusValues =
     [''all'', ''Running'', ''Stopped'', ''Error'', ''Paused'', ''Authenticating'', ''AwaitingApproval'', ''AuthFailed'', ''DeviceConflict'', ''Reconciling'']"

definition validFilterHealthValues :: "string list" where
  "validFilterHealthValues = [''all'', ''healthy'', ''down'', ''unknown'']"

fun clean_pins :: "string list \<Rightarrow> string list \<Rightarrow> string list" where
  "clean_pins seen [] = []"
| "clean_pins seen (name # names) =
     (if name \<noteq> [] \<and> name \<notin> set seen then name # clean_pins (name # seen) names else clean_pins seen names)"

definition validatePrefs :: "Preferences \<Rightarrow> Preferences" where
  "validatePrefs p =
     (let def = defaultPreferences;
          view = (if pf_View p = ''compact'' then ''list'' else pf_View p)
      in p\<lparr>pf_View := (if view \<in> set validViewValues then view else pf_View def),
           pf_Sort := (if pf_Sort p \<in> set validSortKeys then pf_Sort p else pf_Sort def),
           pf_FilterStatus := (if pf_FilterStatus p \<in> set validFilterStatusValues then pf_FilterStatus p else pf_FilterStatus def),
           pf_FilterHealth := (if pf_FilterHealth p \<in> set validFilterHealthValues then pf_FilterHealth p else pf_FilterHealth def),
           pf_Pinned := clean_pins [] (pf_Pinned p)\<rparr>)"

text \<open>What the caller's slice holds once a copy of the preferences was validated: the names kept are moved to its front.\<close>

definition shared_pins :: "Preferences \<Rightarrow> Preferences" where
  "shared_pins p = (let clean = clean_pins [] (pf_Pinned p) in p\<lparr>pf_Pinned := clean @ drop (length clean) (pf_Pinned p)\<rparr>)"

section \<open>The store\<close>

datatype pref_file = Stored Preferences | Unparsable

record PreferencesStore =
  st_dir :: string
  st_cache :: "(string, Preferences) gomap"
  st_files :: "(string, pref_file) gomap"

definition NewPreferencesStore :: "string \<Rightarrow> (string, pref_file) gomap \<Rightarrow> PreferencesStore" where
  "NewPreferencesStore dir files = \<lparr>st_dir = dir @ ''/dashboard/preferences'', st_cache = [], st_files = files\<rparr>"

definition safe_char :: "char \<Rightarrow> bool" where
  "safe_char c \<longleftrightarrow>
     (let n = of_char c :: nat
      in n \<in> {97..122} \<or> n \<in> {65..90} \<or> n \<in> {48..57} \<or> n = 95 \<or> n = 45)"

definition normalizeUserID :: "string \<Rightarrow> string" where
  "normalizeUserID userID = (if userID \<noteq> [] \<and> list_all safe_char userID then userID else ''_invalid'')"

definition store_path :: "PreferencesStore \<Rightarrow> string \<Rightarrow> string" where
  "store_path s userID = st_dir s @ ''/'' @ normalizeUserID userID @ ''.json''"

text \<open>What the file system answers: whether a file that is there can be read, the failures of writing the temporary file and of renaming it.\<close>

record fs_env =
  fs_read :: "string option"
  fs_prepare :: "string option"
  fs_rename :: "string option"

definition loadFromDisk :: "fs_env \<Rightarrow> string \<Rightarrow> PreferencesStore \<Rightarrow> (string option \<times> Preferences) \<times> PreferencesStore" where
  "loadFromDisk fs userID s =
     (let key = normalizeUserID userID
      in case gm_get (st_files s) (store_path s userID) of
           None \<Rightarrow> ((None, defaultPreferences), s\<lparr>st_cache := gm_put key defaultPreferences (st_cache s)\<rparr>)
         | Some f \<Rightarrow>
             (case fs_read fs of
                Some e \<Rightarrow> ((Some e, defaultPreferences), s)
              | None \<Rightarrow>
                  let p = validatePrefs (case f of Stored p \<Rightarrow> p | Unparsable \<Rightarrow> defaultPreferences)
                  in ((None, p), s\<lparr>st_cache := gm_put key p (st_cache s)\<rparr>)))"

definition Load :: "fs_env \<Rightarrow> string \<Rightarrow> PreferencesStore \<Rightarrow> (string option \<times> Preferences) \<times> PreferencesStore" where
  "Load fs userID s =
     (case gm_get (st_cache s) (normalizeUserID userID) of
        Some cached \<Rightarrow> ((None, cached), s)
      | None \<Rightarrow> loadFromDisk fs userID s)"

text \<open>\<open>saveLocked\<close> is \<open>save\<close> under a lock that is held already.\<close>

definition saveLocked :: "fs_env \<Rightarrow> string \<Rightarrow> Preferences \<Rightarrow> PreferencesStore \<Rightarrow> string option \<times> PreferencesStore" where
  "saveLocked fs userID prefs s =
     (case fs_prepare fs of
        Some e \<Rightarrow> (Some e, s)
      | None \<Rightarrow>
          (case fs_rename fs of
             Some e \<Rightarrow> (Some e, s)
           | None \<Rightarrow>
               (None, s\<lparr>st_files := gm_put (store_path s userID) (Stored (validatePrefs prefs)) (st_files s),
                        st_cache := gm_put (normalizeUserID userID) (shared_pins prefs) (st_cache s)\<rparr>)))"

definition Update :: "fs_env \<Rightarrow> string \<Rightarrow> (Preferences \<Rightarrow> Preferences) \<Rightarrow> PreferencesStore \<Rightarrow> string option \<times> PreferencesStore" where
  "Update fs userID f s =
     (case loadFromDisk fs userID s of
        ((Some e, _), s') \<Rightarrow> (Some e, s')
      | ((None, prefs), s') \<Rightarrow> saveLocked fs userID (f prefs) s')"

text \<open>\<open>order\<close> is the order in which the map of the pinned names is read.\<close>

definition toggle_pins :: "(string list \<Rightarrow> string list) \<Rightarrow> string \<Rightarrow> Preferences \<Rightarrow> Preferences" where
  "toggle_pins order proxyName p =
     (let pinned = remdups (pf_Pinned p)
      in p\<lparr>pf_Pinned := order (if proxyName \<in> set pinned then removeAll proxyName pinned else proxyName # pinned)\<rparr>)"

definition TogglePin :: "fs_env \<Rightarrow> (string list \<Rightarrow> string list) \<Rightarrow> string \<Rightarrow> string \<Rightarrow> PreferencesStore \<Rightarrow> (string option \<times> Preferences) \<times> PreferencesStore" where
  "TogglePin fs order userID proxyName s =
     (case Update fs userID (toggle_pins order proxyName) s of
        (Some e, s') \<Rightarrow> ((Some e, defaultPreferences), s')
      | (None, s') \<Rightarrow> ((None, toggle_pins order proxyName (snd (fst (loadFromDisk fs userID s)))), s'))"

definition loadPrefs :: "fs_env \<Rightarrow> string \<Rightarrow> PreferencesStore option \<Rightarrow> Preferences \<times> PreferencesStore option" where
  "loadPrefs fs userID store =
     (case store of
        None \<Rightarrow> (defaultPreferences, None)
      | Some s \<Rightarrow> (case Load fs userID s of ((Some _, _), s') \<Rightarrow> (defaultPreferences, Some s') | ((None, p), s') \<Rightarrow> (p, Some s')))"

section \<open>The form\<close>

text \<open>\<open>form\<close> gives the value of a field, \<^verbatim>\<open>\"\"\<close> when it is missing.\<close>

definition form_prefs :: "(string \<Rightarrow> string) \<Rightarrow> Preferences \<Rightarrow> Preferences" where
  "form_prefs form p =
     (let p = (if form ''dark'' \<noteq> [] then p\<lparr>pf_Dark := (form ''dark'' = ''true'')\<rparr> else p);
          p = (if form ''view'' \<noteq> [] then p\<lparr>pf_View := form ''view''\<rparr> else p);
          p = (if form ''sort'' \<noteq> [] then p\<lparr>pf_Sort := form ''sort''\<rparr> else p);
          p = (if form ''grouped'' \<noteq> [] then p\<lparr>pf_Grouped := (form ''grouped'' = ''true'')\<rparr> else p);
          p = (if form ''filterStatus'' \<noteq> [] then p\<lparr>pf_FilterStatus := form ''filterStatus''\<rparr> else p)
      in if form ''filterHealth'' \<noteq> [] then p\<lparr>pf_FilterHealth := form ''filterHealth''\<rparr> else p)"

definition subjectRemote :: string where "subjectRemote = ''__remote__''"

datatype prefs_response = PrefsForbidden | Refresh | RenderList Preferences

definition updatePreferencesHandler :: "fs_env \<Rightarrow> string \<Rightarrow> (string \<Rightarrow> string) \<Rightarrow> PreferencesStore option \<Rightarrow> prefs_response \<times> PreferencesStore option" where
  "updatePreferencesHandler fs userID form store =
     (if userID = subjectRemote then (PrefsForbidden, store)
      else let store = map_option (\<lambda>s. snd (Update fs userID (form_prefs form) s)) store
           in if form ''dark'' \<noteq> [] \<or> form ''view'' \<noteq> [] then (Refresh, store)
              else case loadPrefs fs userID store of (prefs, store) \<Rightarrow> (RenderList prefs, store))"

section \<open>Lemmas\<close>

lemma clean_pins_set [simp]: "set (clean_pins seen names) = set names - set seen - {[]}"
  by (induction seen names rule: clean_pins.induct) auto

lemma clean_pins_distinct [simp]: "distinct (clean_pins seen names)"
  by (induction seen names rule: clean_pins.induct) auto

lemma clean_pins_none: "set names \<subseteq> set seen \<union> {[]} \<Longrightarrow> clean_pins seen names = []"
  by (induction seen names rule: clean_pins.induct) auto

lemma clean_pins_keep: "distinct xs \<Longrightarrow> [] \<notin> set xs \<Longrightarrow> set xs \<inter> set seen = {} \<Longrightarrow> clean_pins seen (xs @ ys) = xs @ clean_pins (rev xs @ seen) ys"
  by (induction xs arbitrary: seen) auto

lemma clean_pins_again: "set ys \<subseteq> set names \<Longrightarrow> clean_pins [] (clean_pins [] names @ ys) = clean_pins [] names"
  by (subst clean_pins_keep) (auto intro!: clean_pins_none)

definition prefs_ok :: "Preferences \<Rightarrow> bool" where
  "prefs_ok p \<longleftrightarrow> pf_View p \<in> set validViewValues \<and> pf_Sort p \<in> set validSortKeys \<and> pf_FilterStatus p \<in> set validFilterStatusValues
     \<and> pf_FilterHealth p \<in> set validFilterHealthValues \<and> distinct (pf_Pinned p) \<and> [] \<notin> set (pf_Pinned p)"

lemma defaults_valid:
  "pf_View defaultPreferences \<in> set validViewValues" "pf_Sort defaultPreferences \<in> set validSortKeys"
  "pf_FilterStatus defaultPreferences \<in> set validFilterStatusValues" "pf_FilterHealth defaultPreferences \<in> set validFilterHealthValues"
  by (simp_all add: defaultPreferences_def validViewValues_def validSortKeys_def validFilterStatusValues_def validFilterHealthValues_def)

lemma validatePrefs_ok [simp]: "prefs_ok (validatePrefs p)"
  by (simp add: prefs_ok_def validatePrefs_def Let_def defaults_valid)

lemma validatePrefs_id: "prefs_ok p \<Longrightarrow> validatePrefs p = p"
  using clean_pins_keep [of "pf_Pinned p" "[]" "[]"]
  by (cases p) (auto simp: prefs_ok_def validatePrefs_def Let_def validViewValues_def)

lemma validatePrefs_shared [simp]: "validatePrefs (shared_pins p) = validatePrefs p"
  by (simp add: validatePrefs_def shared_pins_def Let_def clean_pins_again set_drop_subset)

lemma default_ok [simp]: "prefs_ok defaultPreferences"
  by (simp add: prefs_ok_def defaultPreferences_def validViewValues_def validSortKeys_def validFilterStatusValues_def validFilterHealthValues_def)

lemma shared_pins_id: "prefs_ok p \<Longrightarrow> shared_pins p = p"
  using clean_pins_keep [of "pf_Pinned p" "[]" "[]"] by (simp add: prefs_ok_def shared_pins_def Let_def)

lemma normalize_idem [simp]: "normalizeUserID (normalizeUserID u) = normalizeUserID u"
proof -
  have "list_all safe_char ''_invalid''" by code_simp
  then show ?thesis by (simp add: normalizeUserID_def)
qed

lemma store_path_eq: "store_path s u = store_path s v \<longleftrightarrow> normalizeUserID u = normalizeUserID v"
  by (simp add: store_path_def)

section \<open>What is on disk\<close>

text \<open>What a store that starts with these files gives to a user.\<close>

definition on_disk :: "PreferencesStore \<Rightarrow> string \<Rightarrow> Preferences" where
  "on_disk s u = (case gm_get (st_files s) (store_path s u) of Some (Stored p) \<Rightarrow> validatePrefs p | _ \<Rightarrow> defaultPreferences)"

definition cache_agrees :: "PreferencesStore \<Rightarrow> bool" where
  "cache_agrees s \<longleftrightarrow> (\<forall>u p. gm_get (st_cache s) (normalizeUserID u) = Some p \<longrightarrow> validatePrefs p = on_disk s u)"

lemma on_disk_ok [simp]: "prefs_ok (on_disk s u)"
  by (simp add: on_disk_def split: option.splits pref_file.splits)

lemma on_disk_cache [simp]: "on_disk (s\<lparr>st_cache := c\<rparr>) u = on_disk s u"
  by (simp add: on_disk_def store_path_def)

lemma on_disk_norm: "normalizeUserID u = normalizeUserID v \<Longrightarrow> on_disk s u = on_disk s v"
  by (simp add: on_disk_def store_path_def)

lemma loadFromDisk_val:
  "loadFromDisk fs u s = ((None, p), s') \<Longrightarrow> p = on_disk s u \<and> s' = s\<lparr>st_cache := gm_put (normalizeUserID u) p (st_cache s)\<rparr>"
  "loadFromDisk fs u s = ((Some e, p), s') \<Longrightarrow> s' = s"
  by (auto simp: loadFromDisk_def on_disk_def Let_def validatePrefs_id split: option.splits pref_file.splits)

lemma loadFromDisk_agrees:
  assumes "cache_agrees s"
  shows "cache_agrees (snd (loadFromDisk fs u s))"
proof (cases "loadFromDisk fs u s")
  case (Pair r s')
  then show ?thesis
    using assms loadFromDisk_val [of fs u s]
    by (cases r; cases "fst r") (auto simp: cache_agrees_def validatePrefs_id dest!: on_disk_norm [of _ u s])
qed

lemma Load_agrees: "cache_agrees s \<Longrightarrow> cache_agrees (snd (Load fs u s))"
  by (auto simp: Load_def loadFromDisk_agrees split: option.splits)

lemma saveLocked_files:
  "saveLocked fs u p s = (None, s') \<Longrightarrow> on_disk s' v = (if normalizeUserID v = normalizeUserID u then validatePrefs p else on_disk s v)"
  by (auto simp: saveLocked_def on_disk_def store_path_def validatePrefs_id split: option.splits)

lemma saveLocked_agrees:
  assumes "cache_agrees s"
  shows "cache_agrees (snd (saveLocked fs u p s))"
proof (cases "saveLocked fs u p s")
  case (Pair r s')
  show ?thesis
  proof (cases r)
    case None
    have "st_cache s' = gm_put (normalizeUserID u) (shared_pins p) (st_cache s)"
      using Pair None by (auto simp: saveLocked_def split: option.splits)
    then show ?thesis using Pair None assms saveLocked_files [of fs u p s s'] by (auto simp: cache_agrees_def)
  next
    case (Some e)
    then show ?thesis using Pair assms by (auto simp: saveLocked_def split: option.splits)
  qed
qed

lemma Update_agrees: "cache_agrees s \<Longrightarrow> cache_agrees (snd (Update fs u f s))"
  using loadFromDisk_agrees [of s fs u] by (auto simp: Update_def saveLocked_agrees split: prod.splits option.splits)

lemma TogglePin_agrees: "cache_agrees s \<Longrightarrow> cache_agrees (snd (TogglePin fs order u n s))"
  using Update_agrees [of s fs u "toggle_pins order n"] by (auto simp: TogglePin_def split: prod.splits option.splits)

text \<open>The operations of the handlers, with what the file system answers each.\<close>

datatype prefs_op =
    OpLoad fs_env string
  | OpSave fs_env string Preferences
  | OpUpdate fs_env string "Preferences \<Rightarrow> Preferences"
  | OpToggle fs_env "string list \<Rightarrow> string list" string string

fun prefs_run :: "prefs_op \<Rightarrow> PreferencesStore \<Rightarrow> PreferencesStore" where
  "prefs_run (OpLoad fs u) s = snd (Load fs u s)"
| "prefs_run (OpSave fs u p) s = snd (saveLocked fs u p s)"
| "prefs_run (OpUpdate fs u f) s = snd (Update fs u f s)"
| "prefs_run (OpToggle fs order u n) s = snd (TogglePin fs order u n s)"

lemma prefs_run_agrees: "cache_agrees s \<Longrightarrow> cache_agrees (fold prefs_run ops s)"
proof (induction ops arbitrary: s)
  case (Cons x ops)
  then show ?case by (cases x) (auto simp: Load_agrees saveLocked_agrees Update_agrees TogglePin_agrees)
qed simp

definition fs_ok :: fs_env where "fs_ok = \<lparr>fs_read = None, fs_prepare = None, fs_rename = None\<rparr>"

lemma loadFromDisk_ok: "fst (loadFromDisk fs_ok u s) = (None, on_disk s u)"
  by (auto simp: loadFromDisk_def on_disk_def Let_def fs_ok_def validatePrefs_id split: option.splits pref_file.splits)

lemma Load_fresh: "st_cache s = [] \<Longrightarrow> snd (fst (Load fs_ok u s)) = on_disk s u"
  by (simp add: Load_def loadFromDisk_ok)

lemma Load_cached: "cache_agrees s \<Longrightarrow> validatePrefs (snd (fst (Load fs_ok u s))) = on_disk s u"
  by (auto simp: Load_def loadFromDisk_ok cache_agrees_def validatePrefs_id split: option.splits)

section \<open>Properties\<close>

text \<open>
  C33: The store keeps preferences that are well-formed. After any operations on a new store over any files, with any failures of the file
  system, a user of a store that starts anew gets preferences whose values are all legal and whose pinned names are distinct and not
  empty, and these are the validation of what the running store answers: the memory never departs from the disk by more than that.
\<close>
theorem prefs_store_sound:
  "let s = fold prefs_run ops (NewPreferencesStore dir files); anew = s\<lparr>st_cache := []\<rparr>
   in prefs_ok (snd (fst (Load fs_ok u anew))) \<and> snd (fst (Load fs_ok u anew)) = validatePrefs (snd (fst (Load fs_ok u s)))"
proof -
  have "cache_agrees (NewPreferencesStore dir files)" by (simp add: cache_agrees_def NewPreferencesStore_def)
  from Load_cached [OF prefs_run_agrees [OF this]] show ?thesis by (simp add: Load_fresh Let_def)
qed

text \<open>A pin that is toggled is the only thing that changes, for this user only.\<close>

lemma TogglePin_exact:
  assumes "TogglePin fs order u n s = ((None, p), s')" "\<And>xs. set (order xs) = set xs" "n \<noteq> []"
  shows "set (pf_Pinned (on_disk s' u)) = (if n \<in> set (pf_Pinned (on_disk s u)) then set (pf_Pinned (on_disk s u)) - {n} else insert n (set (pf_Pinned (on_disk s u))))"
    "(on_disk s' u)\<lparr>pf_Pinned := []\<rparr> = (on_disk s u)\<lparr>pf_Pinned := []\<rparr>"
    "normalizeUserID v \<noteq> normalizeUserID u \<Longrightarrow> on_disk s' v = on_disk s v"
proof -
  obtain q s0 where l: "loadFromDisk fs u s = ((None, q), s0)" and sv: "saveLocked fs u (toggle_pins order n q) s0 = (None, s')"
    using assms(1) by (auto simp: TogglePin_def Update_def split: prod.splits option.splits)
  have q: "q = on_disk s u" and s0: "on_disk s0 w = on_disk s w" for w using loadFromDisk_val(1) [OF l] by auto
  have ok: "prefs_ok q" by (simp add: q)
  have on: "on_disk s' w = (if normalizeUserID w = normalizeUserID u then validatePrefs (toggle_pins order n q) else on_disk s w)" for w
    using saveLocked_files [OF sv] s0 by simp
  show "set (pf_Pinned (on_disk s' u)) = (if n \<in> set (pf_Pinned (on_disk s u)) then set (pf_Pinned (on_disk s u)) - {n} else insert n (set (pf_Pinned (on_disk s u))))"
    using ok assms(2,3) by (auto simp: on q [symmetric] validatePrefs_def toggle_pins_def Let_def prefs_ok_def)
  show "(on_disk s' u)\<lparr>pf_Pinned := []\<rparr> = (on_disk s u)\<lparr>pf_Pinned := []\<rparr>"
    using ok by (cases q) (auto simp: on q [symmetric] validatePrefs_def toggle_pins_def Let_def prefs_ok_def validViewValues_def)
  show "normalizeUserID v \<noteq> normalizeUserID u \<Longrightarrow> on_disk s' v = on_disk s v" by (simp add: on)
qed

text \<open>The value that an update caches is not validated: until the next update or a restart, an unknown filter is in force, and hides every proxy.\<close>

lemma Update_caches_unvalidated:
  "case Update fs_ok ''u'' (\<lambda>p. p\<lparr>pf_FilterStatus := ''none''\<rparr>) (NewPreferencesStore ''/data'' []) of
     (err, s) \<Rightarrow> err = None \<and> pf_FilterStatus (snd (fst (Load fs_ok ''u'' s))) = ''none'' \<and> pf_FilterStatus (on_disk s ''u'') = ''all''"
  by code_simp

text \<open>Users whose identity is not a safe file name share one file.\<close>

lemma unsafe_users_share: "normalizeUserID ''a@example.com'' = normalizeUserID ''b@example.com''"
  by code_simp

end
