(* ===== verification/Dashboard_View.thy ===== *)
theory Dashboard_View
  imports Proxy Dashboard_Prefs Http_Identity "HOL-Library.Product_Lexorder" "HOL-Library.Multiset"
begin

text \<open>
  \<^verbatim>\<open>src/internal/dashboard/viewmodel.go\<close>, \<^verbatim>\<open>stream.go\<close>, \<^verbatim>\<open>sse.go\<close> and the view functions of \<^verbatim>\<open>dash.go\<close>: the list of proxies
  that a user sees, and the messages that keep it up to date in a connected browser. A map is the list of its entries in the order
  in which a loop visits them. Rendering of HTML is not modelled: a message holds the data of its component.
\<close>

section \<open>Data of a proxy\<close>

text \<open>A proxy with what its getters add: URLs of the provider, the latency of the last check in nanoseconds, texts of times.\<close>

record shown_proxy =
  sp_proxy :: Proxy
  sp_URL :: string
  sp_AuthURL :: string
  sp_Latency :: int
  sp_Uptime :: string
  sp_when :: "int \<Rightarrow> string \<times> string"

type_synonym ProxyList = "(string, shown_proxy) gomap"

record PortEntry =
  pe_PortConfig :: PortConfig
  pe_URL :: string
  pe_TargetURL :: string

record StatusHistoryEntry =
  sh_Status :: string
  sh_Timestamp :: string
  sh_When :: string

record ProxyData =
  pd_Enabled :: bool
  pd_Name :: string
  pd_URL :: string
  pd_ProxyStatus :: ProxyStatus
  pd_ErrorMessage :: string
  pd_Icon :: string
  pd_Label :: string
  pd_Ports :: "PortEntry list"
  pd_Hostname :: string
  pd_TargetProvider :: string
  pd_TargetID :: string
  pd_TargetImage :: string
  pd_TailscaleTags :: string
  pd_TailscaleEphemeral :: bool
  pd_TailscaleRunWebClient :: bool
  pd_ProxyAccessLog :: bool
  pd_AuthURL :: string
  pd_HealthStatus :: string
  pd_HealthLatency :: string
  pd_HealthError :: string
  pd_Category :: string
  pd_StatusHistory :: "StatusHistoryEntry list"
  pd_Uptime :: string
  pd_Pinned :: bool
  pd_IsAdmin :: bool
  pd_Domain :: string
  pd_DNSStatus :: string
  pd_TLSStatus :: string
  pd_DomainError :: string

definition trim_scheme :: "string \<Rightarrow> string \<Rightarrow> string" where
  "trim_scheme p s = (if has_prefix s p then drop (length p) s else s)"

definition buildPortEntries :: "PortConfigList \<Rightarrow> string \<Rightarrow> PortEntry list" where
  "buildPortEntries ports hostname =
     map (\<lambda>(_, target).
       let scheme = pc_ProxyProtocol target; base = scheme @ ''://'' @ hostname; port = '':'' @ itoa (pc_ProxyPort target);
           portURL = (if scheme = ProtoHTTPS then (if pc_ProxyPort target \<noteq> 443 then base @ port else base)
                      else if scheme = ProtoHTTP then (if pc_ProxyPort target \<noteq> 80 then base @ port else base)
                      else base @ port)
       in \<lparr>pe_PortConfig = target, pe_URL = portURL, pe_TargetURL = GetFirstTargetString target\<rparr>) ports"

definition formatHealthStatus :: "HealthResult \<Rightarrow> int \<Rightarrow> string \<times> string \<times> string" where
  "formatHealthStatus health latency =
     (if hr_Status health = HealthUnknown then ([], [], [])
      else (HealthStatus_String (hr_Status health),
            if latency > 0 then ''('' @ itoa (latency div 1000000) @ ''ms)'' else [], hr_Error health))"

definition authenticating :: "ProxyStatus \<Rightarrow> bool" where
  "authenticating status \<longleftrightarrow> status \<in> {ProxyStatusAuthenticating, ProxyStatusAwaitingApproval, ProxyStatusAuthFailed}"

definition status_text :: "ProxyStatus \<Rightarrow> string" where
  "status_text s = ProxyStatus_String (ProxyStatus_iota s)"

definition buildProxyDataFromProxy :: "string \<Rightarrow> shown_proxy \<Rightarrow> string list \<Rightarrow> bool \<Rightarrow> ProxyData" where
  "buildProxyDataFromProxy name s pinned isAdmin =
     (let p = sp_proxy s; cfg = px_Config p; status = px_status p;
          proxyURL = (if authenticating status then sp_AuthURL s else sp_URL s);
          hostname = trim_scheme ''udp://'' (trim_scheme ''tcp://'' (trim_scheme ''http://'' (trim_scheme ''https://'' proxyURL)));
          (healthStatus, healthLatency, healthError) = formatHealthStatus (px_GetHealth p) (sp_Latency s)
      in \<lparr>pd_Enabled = (authenticating status \<or> status = ProxyStatusRunning), pd_Name = name, pd_URL = proxyURL,
          pd_ProxyStatus = status,
          pd_ErrorMessage = (if px_lastError p = [] then px_domainError p else px_lastError p),
          pd_Icon = (if db_Icon (cfg_Dashboard cfg) = [] then ''tsdproxy'' else db_Icon (cfg_Dashboard cfg)),
          pd_Label = (if db_Label (cfg_Dashboard cfg) = [] then name else db_Label (cfg_Dashboard cfg)),
          pd_Ports = buildPortEntries (cfg_Ports cfg) hostname, pd_Hostname = hostname,
          pd_TargetProvider = cfg_TargetProvider cfg, pd_TargetID = cfg_TargetID cfg, pd_TargetImage = cfg_TargetImage cfg,
          pd_TailscaleTags = ts_Tags (cfg_Tailscale cfg), pd_TailscaleEphemeral = ts_Ephemeral (cfg_Tailscale cfg),
          pd_TailscaleRunWebClient = ts_RunWebClient (cfg_Tailscale cfg), pd_ProxyAccessLog = cfg_ProxyAccessLog cfg,
          pd_AuthURL = (if authenticating status then sp_AuthURL s else []),
          pd_HealthStatus = healthStatus, pd_HealthLatency = healthLatency, pd_HealthError = healthError,
          pd_Category = db_Category (cfg_Dashboard cfg),
          pd_StatusHistory = map (\<lambda>t. \<lparr>sh_Status = status_text (tr_Status t), sh_Timestamp = fst (sp_when s (tr_Timestamp t)),
                                       sh_When = snd (sp_when s (tr_Timestamp t))\<rparr>) (px_statusHistory p),
          pd_Uptime = sp_Uptime s, pd_Pinned = (name \<in> set pinned), pd_IsAdmin = isAdmin, pd_Domain = cfg_Domain cfg,
          pd_DNSStatus = lc_Status_String (px_dnsStatus p), pd_TLSStatus = lc_Status_String (px_tlsStatus p),
          pd_DomainError = px_domainError p\<rparr>)"

section \<open>The view\<close>

record ProxyViewItem =
  vi_Name :: string
  vi_Category :: string
  vi_Data :: ProxyData

record DashboardGroup =
  dg_Name :: string
  dg_Items :: "ProxyViewItem list"

record DashboardView =
  dv_Items :: "ProxyViewItem list"
  dv_Groups :: "DashboardGroup list"

definition healthRank :: "string \<Rightarrow> nat" where
  "healthRank h = (if h = ''healthy'' then 0 else if h = ''unknown'' then 1 else if h = ''down'' then 2 else 3)"

definition healthValue :: "string \<Rightarrow> string" where
  "healthValue h = (if h = [] then ''unknown'' else h)"

definition matchesFilter :: "ProxyData \<Rightarrow> Preferences \<Rightarrow> string \<Rightarrow> bool" where
  "matchesFilter data prefs search =
     (if pf_FilterStatus prefs \<noteq> ''all'' \<and> status_text (pd_ProxyStatus data) \<noteq> pf_FilterStatus prefs then False
      else if pf_FilterHealth prefs \<noteq> ''all'' \<and> healthValue (pd_HealthStatus data) \<noteq> pf_FilterHealth prefs then False
      else if search \<noteq> [] \<and> \<not> contains_str (to_lower (pd_Label data)) (to_lower search) then False
      else True)"

definition item_less :: "string \<Rightarrow> string list \<Rightarrow> ProxyViewItem \<Rightarrow> ProxyViewItem \<Rightarrow> bool" where
  "item_less sortKey pinned i j =
     (let iPinned = (vi_Name i \<in> set pinned); jPinned = (vi_Name j \<in> set pinned)
      in if iPinned \<noteq> jPinned then iPinned
         else if sortKey = ''status'' then status_text (pd_ProxyStatus (vi_Data i)) < status_text (pd_ProxyStatus (vi_Data j))
         else if sortKey = ''provider'' then pd_TargetProvider (vi_Data i) < pd_TargetProvider (vi_Data j)
         else if sortKey = ''health'' then
           (let ih = healthRank (healthValue (pd_HealthStatus (vi_Data i))); jh = healthRank (healthValue (pd_HealthStatus (vi_Data j)))
            in if ih \<noteq> jh then ih < jh else vi_Name i < vi_Name j)
         else vi_Name i < vi_Name j)"

text \<open>\<^verbatim>\<open>sort.SliceStable\<close>.\<close>

fun stable_insert :: "('a \<Rightarrow> 'a \<Rightarrow> bool) \<Rightarrow> 'a \<Rightarrow> 'a list \<Rightarrow> 'a list" where
  "stable_insert lt x [] = [x]"
| "stable_insert lt x (y # ys) = (if lt y x then y # stable_insert lt x ys else x # y # ys)"

definition sort_slice_stable :: "('a \<Rightarrow> 'a \<Rightarrow> bool) \<Rightarrow> 'a list \<Rightarrow> 'a list" where
  "sort_slice_stable lt xs = foldr (stable_insert lt) xs []"

definition sortItems :: "ProxyViewItem list \<Rightarrow> string \<Rightarrow> string list \<Rightarrow> ProxyViewItem list" where
  "sortItems items sortKey pinned = sort_slice_stable (item_less sortKey pinned) items"

definition item_group :: "ProxyViewItem \<Rightarrow> string" where
  "item_group item = (let cat = trim_space (vi_Category item) in if cat = [] then ''Ungrouped'' else cat)"

fun group_loop :: "ProxyViewItem list \<Rightarrow> (string, ProxyViewItem list) gomap \<Rightarrow> string list \<Rightarrow> (string, ProxyViewItem list) gomap \<times> string list" where
  "group_loop [] groups order = (groups, order)"
| "group_loop (item # items) groups order =
     (let cat = item_group item
      in case gm_get groups cat of
           None \<Rightarrow> group_loop items (gm_put cat [item] groups) (order @ [cat])
         | Some xs \<Rightarrow> group_loop items (gm_put cat (xs @ [item]) groups) order)"

definition groupItems :: "ProxyViewItem list \<Rightarrow> DashboardGroup list" where
  "groupItems items =
     (case group_loop items [] [] of
        (groups, order) \<Rightarrow> map (\<lambda>cat. \<lparr>dg_Name = cat, dg_Items = (case gm_get groups cat of Some xs \<Rightarrow> xs | None \<Rightarrow> [])\<rparr>) order)"

definition view_item :: "string \<Rightarrow> shown_proxy \<Rightarrow> Preferences \<Rightarrow> bool \<Rightarrow> ProxyViewItem" where
  "view_item name p prefs isAdmin =
     \<lparr>vi_Name = name, vi_Category = db_Category (cfg_Dashboard (px_Config (sp_proxy p))),
      vi_Data = buildProxyDataFromProxy name p (pf_Pinned prefs) isAdmin\<rparr>"

abbreviation visible :: "shown_proxy \<Rightarrow> bool" where
  "visible p \<equiv> db_Visible (cfg_Dashboard (px_Config (sp_proxy p)))"

definition BuildDashboardView :: "ProxyList \<Rightarrow> Preferences \<Rightarrow> string \<Rightarrow> bool \<Rightarrow> DashboardView" where
  "BuildDashboardView proxies prefs search isAdmin =
     (let items = filter (\<lambda>i. matchesFilter (vi_Data i) prefs search)
                    (map (\<lambda>(name, p). view_item name p prefs isAdmin) (filter (\<lambda>(name, p). visible p) proxies));
          items = sortItems items (pf_Sort prefs) (pf_Pinned prefs)
      in \<lparr>dv_Items = items, dv_Groups = (if pf_Grouped prefs then groupItems items else [])\<rparr>)"

section \<open>Messages to a browser\<close>

datatype SSEMessage =
    ListRefresh DashboardView
  | CardUpdate string ProxyData
  | PanelUpdate string ProxyData
  | BadgeUpdate string ProxyData
  | Notify string
  | ConnID string

definition chanSizeSSEQueue :: nat where "chanSizeSSEQueue = 256"
definition maxSSEClients :: nat where "maxSSEClients = 256"

record sseClient =
  sc_channel :: "SSEMessage list"
  sc_done :: bool
  sc_userID :: string
  sc_connID :: string
  sc_search :: string
  sc_isAdmin :: bool

text \<open>Once \<^verbatim>\<open>done\<close> is closed nobody reads the channel: a message that the select still puts into it is lost like one that it drops.\<close>

definition send :: "SSEMessage \<Rightarrow> sseClient \<Rightarrow> sseClient" where
  "send msg c = (if sc_done c then c else if length (sc_channel c) < chanSizeSSEQueue then c\<lparr>sc_channel := sc_channel c @ [msg]\<rparr> else c)"

record dash =
  da_clients :: "(string, sseClient) gomap"
  da_lastHealth :: "(string, string) gomap"

datatype stream_result = Streaming | TooManyConnections

definition stream_enter :: "string \<Rightarrow> string \<Rightarrow> bool \<Rightarrow> dash \<Rightarrow> stream_result \<times> dash" where
  "stream_enter connID userID isAdmin d =
     (if length (da_clients d) \<ge> maxSSEClients then (TooManyConnections, d)
      else (Streaming, d\<lparr>da_clients := gm_put connID
              \<lparr>sc_channel = [], sc_done = False, sc_userID = userID, sc_connID = connID, sc_search = [], sc_isAdmin = isAdmin\<rparr> (da_clients d)\<rparr>))"

definition removeSSEClient :: "string \<Rightarrow> dash \<Rightarrow> dash" where
  "removeSSEClient name d = d\<lparr>da_clients := gm_del name (da_clients d)\<rparr>"

definition on_client :: "string \<Rightarrow> (sseClient \<Rightarrow> sseClient) \<Rightarrow> dash \<Rightarrow> dash" where
  "on_client connID f d = d\<lparr>da_clients := map (\<lambda>(k, c). (k, if k = connID then f c else c)) (da_clients d)\<rparr>"

definition updateClientSearch :: "string \<Rightarrow> string \<Rightarrow> string \<Rightarrow> dash \<Rightarrow> dash" where
  "updateClientSearch userID connID search d =
     d\<lparr>da_clients := map (\<lambda>(k, c). (k, if sc_userID c \<noteq> userID then c
                                        else if connID \<noteq> [] \<and> sc_connID c \<noteq> connID then c
                                        else c\<lparr>sc_search := search\<rparr>)) (da_clients d)\<rparr>"

definition list_message :: "ProxyList \<Rightarrow> (string \<Rightarrow> Preferences) \<Rightarrow> sseClient \<Rightarrow> SSEMessage" where
  "list_message proxies prefsOf c = ListRefresh (BuildDashboardView proxies (prefsOf (sc_userID c)) (sc_search c) (sc_isAdmin c))"

definition renderHTMXList :: "ProxyList \<Rightarrow> (string \<Rightarrow> Preferences) \<Rightarrow> sseClient \<Rightarrow> sseClient" where
  "renderHTMXList proxies prefsOf c = send (list_message proxies prefsOf c) c"

definition clientNeedsFullRender :: "Preferences \<Rightarrow> ProxyEvent \<Rightarrow> bool" where
  "clientNeedsFullRender prefs event =
     (if pf_Sort prefs = ''status'' \<or> pf_Sort prefs = ''health'' then True
      else if pf_FilterStatus prefs \<noteq> ''all''
              \<and> (pf_FilterStatus prefs = status_text (ev_OldStatus event)) \<noteq> (pf_FilterStatus prefs = status_text (ev_Status event)) then True
      else pf_Grouped prefs)"

definition status_notification :: "ProxyEvent \<Rightarrow> SSEMessage list" where
  "status_notification event =
     (case ev_Status event of
        ProxyStatusStopped \<Rightarrow> [Notify (ev_ID event @ CHR 0x00 # ''Stopped'')]
      | ProxyStatusError \<Rightarrow> [Notify (ev_ID event @ CHR 0x00 # ''Error'')]
      | _ \<Rightarrow> [])"

text \<open>What one client is sent for an event of a status.\<close>

definition event_messages :: "ProxyList \<Rightarrow> (string \<Rightarrow> Preferences) \<Rightarrow> ProxyEvent \<Rightarrow> sseClient \<Rightarrow> SSEMessage list" where
  "event_messages proxies prefsOf event c =
     (let prefs = prefsOf (sc_userID c); full = list_message proxies prefsOf c # status_notification event
      in case gm_get proxies (ev_ID event) of
           None \<Rightarrow> full
         | Some p \<Rightarrow>
             if \<not> visible p then []
             else if clientNeedsFullRender prefs event \<or> ev_Status event = ProxyStatusInitializing then full
             else let data = buildProxyDataFromProxy (ev_ID event) p (pf_Pinned prefs) (sc_isAdmin c)
                  in if \<not> matchesFilter data prefs (sc_search c) then []
                     else [CardUpdate (ev_ID event) data, PanelUpdate (ev_ID event) data, BadgeUpdate (ev_ID event) data] @ status_notification event)"

definition handleStatusEvent :: "ProxyList \<Rightarrow> (string \<Rightarrow> Preferences) \<Rightarrow> ProxyEvent \<Rightarrow> dash \<Rightarrow> dash" where
  "handleStatusEvent proxies prefsOf event d =
     d\<lparr>da_clients := map (\<lambda>(k, c). (k, fold send (event_messages proxies prefsOf event c) c)) (da_clients d)\<rparr>"

definition resyncAllClients :: "ProxyList \<Rightarrow> (string \<Rightarrow> Preferences) \<Rightarrow> dash \<Rightarrow> dash" where
  "resyncAllClients proxies prefsOf d = d\<lparr>da_clients := map (\<lambda>(k, c). (k, renderHTMXList proxies prefsOf c)) (da_clients d)\<rparr>"

definition health_key :: "shown_proxy \<Rightarrow> string" where
  "health_key p =
     (let h = px_GetHealth (sp_proxy p)
      in HealthStatus_String (hr_Status h) @ '':'' @ hr_Error h @ '':'' @ itoa (sp_Latency p div 1000000))"

definition refreshClientCards :: "ProxyList \<Rightarrow> (string \<Rightarrow> Preferences) \<Rightarrow> dash \<Rightarrow> dash" where
  "refreshClientCards proxies prefsOf d =
     (if da_clients d = [] then d
      else let newHealth = map (\<lambda>(name, p). (name, health_key p)) proxies;
               changed = (list_ex (\<lambda>(name, key). gm_get (da_lastHealth d) name \<noteq> Some key) newHealth
                          \<or> list_ex (\<lambda>(name, _). gm_get newHealth name = None) (da_lastHealth d));
               d' = d\<lparr>da_lastHealth := newHealth\<rparr>
           in if \<not> changed then d' else resyncAllClients proxies prefsOf d')"

section \<open>Event streams\<close>

definition sse_nl :: char where "sse_nl = CHR 0x0A"
definition sse_cr :: char where "sse_cr = CHR 0x0D"

definition WriteSSE :: "string \<Rightarrow> string \<Rightarrow> string" where
  "WriteSSE event data =
     ''event: '' @ event @ [sse_nl] @ concat (map (\<lambda>line. ''data: '' @ line @ [sse_nl]) (split_str [sse_nl] data)) @ [sse_nl]"

definition WriteSSEPartialComponent :: "string \<Rightarrow> string" where
  "WriteSSEPartialComponent html = concat (map (\<lambda>line. ''data: '' @ line @ [sse_nl]) (split_str [sse_nl] html)) @ [sse_nl]"

section \<open>Handlers\<close>

definition dashboardSubject :: "http_request \<Rightarrow> admin_config \<Rightarrow> string" where
  "dashboardSubject r cfg =
     (let who = ResolveWhois r
      in if wh_ID who \<noteq> [] then wh_ID who
         else if IsTrustedSource (hq_RemoteAddr r) then ''__localhost__''
         else if ValidAPIKey r cfg then ''__apikey__''
         else subjectRemote)"

datatype 'a dash_response =
    InvalidProxyName
  | ProxyNotFound
  | PreferencesNeedAuth
  | OperationFailed
  | Rendered 'a
  | StatusOK

text \<open>\<open>action\<close>: the error of the operation on the proxy manager; the calls made are part of the result. \<open>panel\<close>: the data of the proxy after it.\<close>

definition proxyActionHandler :: "ProxyList \<Rightarrow> (string \<Rightarrow> string option) \<Rightarrow> bool \<Rightarrow> (string \<Rightarrow> ProxyData) \<Rightarrow> string \<Rightarrow> ProxyData dash_response \<times> string list" where
  "proxyActionHandler proxies action hxRequest panel name =
     (if name = [] then (InvalidProxyName, [])
      else case gm_get proxies name of
             None \<Rightarrow> (ProxyNotFound, [])
           | Some p \<Rightarrow>
               if \<not> visible p then (ProxyNotFound, [])
               else (if action name \<noteq> None then OperationFailed else if hxRequest then Rendered (panel name) else StatusOK, [name]))"

definition proxyModalHandler :: "ProxyList \<Rightarrow> Preferences \<Rightarrow> bool \<Rightarrow> string \<Rightarrow> ProxyData dash_response" where
  "proxyModalHandler proxies prefs isAdmin name =
     (if name = [] then InvalidProxyName
      else case gm_get proxies name of
             None \<Rightarrow> ProxyNotFound
           | Some p \<Rightarrow> if \<not> visible p then ProxyNotFound else Rendered (buildProxyDataFromProxy name p (pf_Pinned prefs) isAdmin))"

definition togglePinHandler :: "fs_env \<Rightarrow> (string list \<Rightarrow> string list) \<Rightarrow> ProxyList \<Rightarrow> string \<Rightarrow> string \<Rightarrow> bool \<Rightarrow> string \<Rightarrow> PreferencesStore option \<Rightarrow>
    DashboardView dash_response \<times> PreferencesStore option" where
  "togglePinHandler fs order proxies userID search isAdmin name store =
     (if name = [] then (InvalidProxyName, store)
      else case gm_get proxies name of
             None \<Rightarrow> (ProxyNotFound, store)
           | Some p \<Rightarrow>
               if \<not> visible p then (ProxyNotFound, store)
               else if userID = subjectRemote then (PreferencesNeedAuth, store)
               else case loadPrefs fs userID (map_option (\<lambda>s. snd (TogglePin fs order userID name s)) store) of
                      (prefs, store) \<Rightarrow> (Rendered (BuildDashboardView proxies prefs search isAdmin), store))"

definition validateLogStreamProxy :: "ProxyList \<Rightarrow> string \<Rightarrow> shown_proxy dash_response" where
  "validateLogStreamProxy proxies name =
     (if name = [] then InvalidProxyName
      else case gm_get proxies name of
             None \<Rightarrow> ProxyNotFound
           | Some p \<Rightarrow> if \<not> visible p then ProxyNotFound else Rendered p)"

text \<open>A batch of log lines: the first and what the channel holds, at most fifty.\<close>

fun drain_loop :: "nat \<Rightarrow> string list \<Rightarrow> string list \<times> string list" where
  "drain_loop 0 ch = ([], ch)"
| "drain_loop (Suc n) [] = ([], [])"
| "drain_loop (Suc n) (l # ch) = apfst ((#) l) (drain_loop n ch)"

definition drainBatch :: "string list \<Rightarrow> string \<Rightarrow> string list \<times> string list" where
  "drainBatch ch first = apfst ((#) first) (drain_loop 49 ch)"

section \<open>Sorting\<close>

definition item_key :: "string \<Rightarrow> string list \<Rightarrow> ProxyViewItem \<Rightarrow> bool \<times> nat \<times> string" where
  "item_key sortKey pinned i =
     (vi_Name i \<notin> set pinned,
      if sortKey = ''health'' then healthRank (healthValue (pd_HealthStatus (vi_Data i))) else 0,
      if sortKey = ''status'' then status_text (pd_ProxyStatus (vi_Data i))
      else if sortKey = ''provider'' then pd_TargetProvider (vi_Data i) else vi_Name i)"

lemma item_less_key: "item_less sortKey pinned i j \<longleftrightarrow> item_key sortKey pinned i < item_key sortKey pinned j"
  by (auto simp: item_less_def item_key_def Let_def less_prod_def')

lemma sort_slice_stable_key:
  assumes "\<And>x y. lt x y \<longleftrightarrow> f x < (f y :: 'b :: linorder)"
  shows "sort_slice_stable lt xs = sort_key f xs"
proof -
  have "stable_insert lt x ys = insort_key f x ys" for x ys
    by (induction ys) (auto simp: assms not_less)
  then show ?thesis by (simp add: sort_slice_stable_def sort_key_def cong: foldr_cong)
qed

lemma sortItems_key: "sortItems items sortKey pinned = sort_key (item_key sortKey pinned) items"
  unfolding sortItems_def by (rule sort_slice_stable_key) (rule item_less_key)

lemma insort_key_map: "f (g x) = f x \<Longrightarrow> \<forall>y \<in> set ys. f (g y) = f y \<Longrightarrow> insort_key f (g x) (map g ys) = map g (insort_key f x ys)"
  by (induction ys) auto

lemma sort_key_map: "\<forall>x \<in> set xs. f (g x) = f x \<Longrightarrow> sort_key f (map g xs) = map g (sort_key f xs)"
  by (induction xs) (auto simp: insort_key_map)

section \<open>Groups\<close>

definition group_ok :: "ProxyViewItem list \<Rightarrow> (string, ProxyViewItem list) gomap \<Rightarrow> string list \<Rightarrow> bool" where
  "group_ok items groups order \<longleftrightarrow>
     distinct order \<and> (\<forall>cat. gm_get groups cat = (if cat \<in> set order then Some (filter (\<lambda>i. item_group i = cat) items) else None))
     \<and> set order = item_group ` set items"

lemma group_loop_ok:
  "group_ok done groups order \<Longrightarrow> group_loop items groups order = (groups', order') \<Longrightarrow> group_ok (done @ items) groups' order'"
proof (induction items arbitrary: "done" groups order)
  case (Cons item items)
  let ?cat = "item_group item"
  show ?case
  proof (cases "gm_get groups ?cat")
    case None
    then have new: "?cat \<notin> set order" using Cons.prems(1) by (auto simp: group_ok_def split: if_splits)
    then have "filter (\<lambda>i. item_group i = ?cat) done = []" using Cons.prems(1) by (auto simp: group_ok_def filter_empty_conv) (metis image_eqI)
    then have "group_ok (done @ [item]) (gm_put ?cat [item] groups) (order @ [?cat])"
      using Cons.prems(1) new by (auto simp: group_ok_def)
    from Cons.IH [OF this] Cons.prems(2) None show ?thesis by (simp add: Let_def)
  next
    case (Some xs)
    then have "group_ok (done @ [item]) (gm_put ?cat (xs @ [item]) groups) order"
      using Cons.prems(1) by (auto simp: group_ok_def split: if_splits)
    from Cons.IH [OF this] Cons.prems(2) Some show ?thesis by (simp add: Let_def)
  qed
qed simp

lemma groupItems_ok:
  "distinct (map dg_Name (groupItems items))
   \<and> set (map dg_Name (groupItems items)) = item_group ` set items
   \<and> (\<forall>g \<in> set (groupItems items). dg_Items g = filter (\<lambda>i. item_group i = dg_Name g) items)"
proof -
  obtain groups order where g: "group_loop items [] [] = (groups, order)" by fastforce
  have "group_ok [] [] []" by (simp add: group_ok_def)
  from group_loop_ok [OF this g] have "group_ok items groups order" by simp
  then show ?thesis by (auto simp: groupItems_def g group_ok_def comp_def)
qed

section \<open>Keeping a browser up to date\<close>

text \<open>What a message does to the list that a browser shows. A card is identified by the name of its proxy.\<close>

definition set_card :: "string \<Rightarrow> ProxyData \<Rightarrow> ProxyViewItem \<Rightarrow> ProxyViewItem" where
  "set_card name data i = (if vi_Name i = name then i\<lparr>vi_Data := data\<rparr> else i)"

fun browser_apply :: "SSEMessage \<Rightarrow> DashboardView \<Rightarrow> DashboardView" where
  "browser_apply (ListRefresh v) _ = v"
| "browser_apply (CardUpdate name data) v =
     \<lparr>dv_Items = map (set_card name data) (dv_Items v), dv_Groups = map (\<lambda>g. g\<lparr>dg_Items := map (set_card name data) (dg_Items g)\<rparr>) (dv_Groups v)\<rparr>"
| "browser_apply _ v = v"

lemma notifications_show_nothing: "fold browser_apply (status_notification event) v = v"
  by (simp add: status_notification_def split: ProxyStatus.splits)

lemma list_message_shows:
  "fold browser_apply (list_message proxies prefsOf c # status_notification event) v
   = BuildDashboardView proxies (prefsOf (sc_userID c)) (sc_search c) (sc_isAdmin c)"
  by (simp add: notifications_show_nothing list_message_def)

definition listed_items :: "ProxyList \<Rightarrow> Preferences \<Rightarrow> string \<Rightarrow> bool \<Rightarrow> ProxyViewItem list" where
  "listed_items proxies prefs search isAdmin =
     filter (\<lambda>i. matchesFilter (vi_Data i) prefs search)
       (map (\<lambda>(name, p). view_item name p prefs isAdmin) (filter (\<lambda>(name, p). visible p) proxies))"

lemma BuildDashboardView_items:
  "BuildDashboardView proxies prefs search isAdmin =
     (let items = sort_key (item_key (pf_Sort prefs) (pf_Pinned prefs)) (listed_items proxies prefs search isAdmin)
      in \<lparr>dv_Items = items, dv_Groups = (if pf_Grouped prefs then groupItems items else [])\<rparr>)"
  by (simp add: BuildDashboardView_def listed_items_def sortItems_key Let_def)

lemma gm_put_present:
  "gm_wf m \<Longrightarrow> gm_get m k = Some p \<Longrightarrow> gm_put k q m = map (\<lambda>e. if fst e = k then (k, q) else e) m"
proof (induction m)
  case (Cons a m)
  have "map (\<lambda>e. if fst e = k then (k, q) else e) m = m" if "fst a = k"
    using that Cons.prems(1) by (intro map_idI) (fastforce simp: gm_wf_def image_iff)
  then show ?case using Cons by (cases a) (auto simp: gm_wf_def)
qed simp

lemma gm_put_absent: "gm_get m k = None \<Longrightarrow> gm_put k q m = m @ [(k, q)]"
  by (induction m) (auto split: if_splits)

text \<open>Entries that are replaced by ones of the same visibility, key and match, one by one.\<close>

lemma filter_map_replace:
  assumes "\<forall>e \<in> set xs. V (g e) = V e \<and> (V e \<longrightarrow> I (g e) = U (I e) \<and> M (U (I e)) = M (I e))"
  shows "filter M (map I (filter V (map g xs))) = map U (filter M (map I (filter V xs)))"
  using assms by (induction xs) auto

text \<open>A change of status that leaves configuration and health as they are.\<close>

definition status_change :: "ProxyEvent \<Rightarrow> shown_proxy \<Rightarrow> shown_proxy \<Rightarrow> bool" where
  "status_change ev p q \<longleftrightarrow>
     px_Config (sp_proxy q) = px_Config (sp_proxy p) \<and> hr_Status (px_GetHealth (sp_proxy q)) = hr_Status (px_GetHealth (sp_proxy p))
     \<and> px_status (sp_proxy p) = ev_OldStatus ev \<and> px_status (sp_proxy q) = ev_Status ev"

lemma build_data_fields [simp]:
  "pd_ProxyStatus (buildProxyDataFromProxy k p pins a) = px_status (sp_proxy p)"
  "pd_HealthStatus (buildProxyDataFromProxy k p pins a)
   = (if hr_Status (px_GetHealth (sp_proxy p)) = HealthUnknown then [] else HealthStatus_String (hr_Status (px_GetHealth (sp_proxy p))))"
  "pd_Label (buildProxyDataFromProxy k p pins a)
   = (if db_Label (cfg_Dashboard (px_Config (sp_proxy p))) = [] then k else db_Label (cfg_Dashboard (px_Config (sp_proxy p))))"
  "pd_TargetProvider (buildProxyDataFromProxy k p pins a) = cfg_TargetProvider (px_Config (sp_proxy p))"
  by (simp_all add: buildProxyDataFromProxy_def formatHealthStatus_def Let_def)

lemma status_change_matches:
  assumes "status_change ev p q" "\<not> clientNeedsFullRender prefs ev"
  shows "matchesFilter (buildProxyDataFromProxy k q pins a) prefs search = matchesFilter (buildProxyDataFromProxy k p pins a) prefs search"
proof -
  have cfg: "px_Config (sp_proxy q) = px_Config (sp_proxy p)" and hs: "hr_Status (px_GetHealth (sp_proxy q)) = hr_Status (px_GetHealth (sp_proxy p))"
    and st: "px_status (sp_proxy p) = ev_OldStatus ev" "px_status (sp_proxy q) = ev_Status ev"
    using assms(1) by (simp_all add: status_change_def)
  have "pf_FilterStatus prefs \<noteq> ''all'' \<Longrightarrow> (pf_FilterStatus prefs = status_text (ev_OldStatus ev)) = (pf_FilterStatus prefs = status_text (ev_Status ev))"
    using assms(2) unfolding clientNeedsFullRender_def by metis
  then have status: "(pf_FilterStatus prefs \<noteq> ''all'' \<and> status_text (ev_Status ev) \<noteq> pf_FilterStatus prefs)
      = (pf_FilterStatus prefs \<noteq> ''all'' \<and> status_text (ev_OldStatus ev) \<noteq> pf_FilterStatus prefs)" by metis
  show ?thesis unfolding matchesFilter_def build_data_fields cfg hs st status ..
qed

lemma listed_items_change:
  assumes wf: "gm_wf m" and p: "gm_get m k = Some p" and ch: "status_change ev p q" and quiet: "\<not> clientNeedsFullRender prefs ev"
  shows "listed_items (gm_put k q m) prefs search a = map (set_card k (buildProxyDataFromProxy k q (pf_Pinned prefs) a)) (listed_items m prefs search a)"
proof -
  let ?g = "\<lambda>e. if fst e = k then (k, q) else e"
  have one: "snd e = p" if "e \<in> set m" "fst e = k" for e
    using that p wf by (metis gm_in_get option.inject prod.collapse)
  have cfg: "px_Config (sp_proxy q) = px_Config (sp_proxy p)" using ch by (simp add: status_change_def)
  show ?thesis
    unfolding listed_items_def gm_put_present [OF wf p]
  proof (rule filter_map_replace, intro ballI conjI impI)
    fix e assume e: "e \<in> set m"
    show "(case ?g e of (name, p) \<Rightarrow> visible p) = (case e of (name, p) \<Rightarrow> visible p)"
      using one [OF e] cfg by (cases e) auto
    show "(case ?g e of (name, p) \<Rightarrow> view_item name p prefs a) = set_card k (buildProxyDataFromProxy k q (pf_Pinned prefs) a) (case e of (name, p) \<Rightarrow> view_item name p prefs a)"
      using one [OF e] cfg by (cases e) (auto simp: view_item_def set_card_def)
    show "matchesFilter (vi_Data (set_card k (buildProxyDataFromProxy k q (pf_Pinned prefs) a) (case e of (name, p) \<Rightarrow> view_item name p prefs a))) prefs search
        = matchesFilter (vi_Data (case e of (name, p) \<Rightarrow> view_item name p prefs a)) prefs search"
      using one [OF e] status_change_matches [OF ch quiet] by (cases e) (auto simp: view_item_def set_card_def)
  qed
qed

lemma listed_items_of:
  assumes "gm_wf m" "gm_get m k = Some p" "i \<in> set (listed_items m prefs search a)" "vi_Name i = k"
  shows "i = view_item k p prefs a \<and> matchesFilter (buildProxyDataFromProxy k p (pf_Pinned prefs) a) prefs search"
proof -
  obtain name r where r: "(name, r) \<in> set m" "i = view_item name r prefs a" "matchesFilter (vi_Data i) prefs search"
    using assms(3) by (auto simp: listed_items_def)
  then have "name = k" using assms(4) by (simp add: view_item_def)
  with r(1) assms(1,2) have "r = p" by (simp add: gm_in_get)
  with r \<open>name = k\<close> show ?thesis by (simp add: view_item_def)
qed

lemma listed_items_invisible:
  assumes "gm_wf m" "\<not> visible q" "\<forall>p. gm_get m k = Some p \<longrightarrow> \<not> visible p"
  shows "listed_items (gm_put k q m) prefs search a = listed_items m prefs search a"
proof (cases "gm_get m k")
  case None
  then show ?thesis using assms(2) by (simp add: gm_put_absent listed_items_def)
next
  case (Some p)
  have hidden: "\<not> visible (snd e)" if "e \<in> set m" "fst e = k" for e
    using that Some assms(1,3) by (metis gm_in_get prod.collapse)
  have "filter (\<lambda>(name, p). visible p) (map (\<lambda>e. if fst e = k then (k, q) else e) xs) = filter (\<lambda>(name, p). visible p) xs"
    if "\<forall>e \<in> set xs. fst e = k \<longrightarrow> \<not> visible (snd e)" for xs
    using that assms(2) by (induction xs) auto
  then show ?thesis using hidden by (simp add: listed_items_def gm_put_present [OF assms(1) Some])
qed


definition example_shown :: "ProxyStatus \<Rightarrow> shown_proxy" where
  "example_shown st =
     \<lparr>sp_proxy = (NewProxy (example_cfg ''http://web:80'') None 0)\<lparr>px_status := st\<rparr>, sp_URL = ''https://app.ts.net'', sp_AuthURL = [], sp_Latency = 0,
      sp_Uptime = [], sp_when = (\<lambda>_. ([], []))\<rparr>"

definition example_event :: ProxyEvent where
  "example_event = \<lparr>ev_ID = ''app'', ev_Port = [], ev_AuthURL = [], ev_ErrorMessage = [], ev_Status = ProxyStatusRunning, ev_OldStatus = ProxyStatusStarting\<rparr>"


section \<open>What the view shows\<close>

text \<open>Sorted by a key whose first part is false for the pinned names: these come first.\<close>

lemma sorted_flag_first:
  "sorted (map f xs) \<Longrightarrow> (\<And>x. fst (f x) \<longleftrightarrow> \<not> P x) \<Longrightarrow> xs = filter P xs @ filter (\<lambda>x. \<not> P x) xs"
proof (induction xs)
  case (Cons x xs)
  show ?case
  proof (cases "P x")
    case False
    then have "\<not> P y" if "y \<in> set xs" for y using that Cons.prems by (auto simp: less_eq_prod_def)
    then show ?thesis using False Cons by simp
  qed (use Cons in simp)
qed simp

lemma view_pinned_first:
  "let items = dv_Items (BuildDashboardView proxies prefs search a); pinned = (\<lambda>i. vi_Name i \<in> set (pf_Pinned prefs))
   in mset items = mset (listed_items proxies prefs search a) \<and> items = filter pinned items @ filter (\<lambda>i. \<not> pinned i) items"
proof -
  let ?f = "item_key (pf_Sort prefs) (pf_Pinned prefs)"
  have "sorted (map ?f (sort_key ?f (listed_items proxies prefs search a)))" by simp
  from sorted_flag_first [OF this, of "\<lambda>i. vi_Name i \<in> set (pf_Pinned prefs)"]
  show ?thesis by (simp add: BuildDashboardView_items Let_def item_key_def)
qed

text \<open>Sorted by provider, proxies of one provider stand in the order in which the map was visited, which differs from call to call.\<close>

lemma provider_order_unstable:
  assumes "pf_Sort prefs = ''provider''" "pf_Pinned prefs = []" "visible p" "visible q"
    "cfg_TargetProvider (px_Config (sp_proxy p)) = cfg_TargetProvider (px_Config (sp_proxy q))"
    "pf_FilterStatus prefs = ''all''" "pf_FilterHealth prefs = ''all''"
  shows "map vi_Name (dv_Items (BuildDashboardView [(''a'', p), (''b'', q)] prefs [] adm)) = [''a'', ''b'']"
    "map vi_Name (dv_Items (BuildDashboardView [(''b'', q), (''a'', p)] prefs [] adm)) = [''b'', ''a'']"
  using assms by (simp_all add: BuildDashboardView_items listed_items_def view_item_def matchesFilter_def item_key_def Let_def)

text \<open>A client whose buffer has room gets the messages in their order; a full one is brought up to date by the next list that fits.\<close>

lemma send_room: "\<not> sc_done c \<Longrightarrow> length (sc_channel c) + length msgs \<le> chanSizeSSEQueue \<Longrightarrow> sc_channel (fold send msgs c) = sc_channel c @ msgs"
  by (induction msgs arbitrary: c) (auto simp: send_def)

lemma send_bounded: "length (sc_channel c) \<le> chanSizeSSEQueue \<Longrightarrow> length (sc_channel (fold send msgs c)) \<le> chanSizeSSEQueue"
  by (induction msgs arbitrary: c) (auto simp: send_def)

lemma stream_enter_bounded: "length (da_clients d) \<le> maxSSEClients \<Longrightarrow> length (da_clients (snd (stream_enter connID u a d))) \<le> maxSSEClients"
  by (auto simp: stream_enter_def gm_put_length)

text \<open>A hidden proxy can be neither acted upon nor seen, and a batch loses no line.\<close>

lemma hidden_proxy_untouched:
  "gm_get proxies name = Some p \<Longrightarrow> \<not> visible p \<Longrightarrow>
   snd (proxyActionHandler proxies action hx panel name) = [] \<and> (\<forall>v. proxyModalHandler proxies prefs adm name \<noteq> Rendered v)
   \<and> snd (togglePinHandler fs order proxies u search adm name store) = store \<and> (\<forall>q. validateLogStreamProxy proxies name \<noteq> Rendered q)"
  by (simp add: proxyActionHandler_def proxyModalHandler_def togglePinHandler_def validateLogStreamProxy_def)

lemma drainBatch_lossless: "drainBatch ch l = (batch, rest) \<Longrightarrow> batch @ rest = l # ch \<and> length batch \<le> 50"
proof -
  have "fst (drain_loop n ch) @ snd (drain_loop n ch) = ch \<and> length (fst (drain_loop n ch)) \<le> n" for n
    by (induction n ch rule: drain_loop.induct) auto
  from this [of 49] show "drainBatch ch l = (batch, rest) \<Longrightarrow> batch @ rest = l # ch \<and> length batch \<le> 50"
    by (auto simp: drainBatch_def apfst_def map_prod_def split: prod.splits)
qed

text \<open>How a browser reads a stream: a line ends at LF or at CR, fields are collected until an empty line.\<close>

fun sse_events :: "string \<Rightarrow> string list \<Rightarrow> string list \<Rightarrow> (string \<times> string) list" where
  "sse_events event data [] = []"
| "sse_events event data (line # lines) =
     (if line = [] then (if data = [] then sse_events [] [] lines else (event, join_str [sse_nl] data) # sse_events [] [] lines)
      else if has_prefix line ''event: '' then sse_events (drop 7 line) data lines
      else if has_prefix line ''data: '' then sse_events event (data @ [drop 6 line]) lines
      else sse_events event data lines)"

definition sse_read :: "string \<Rightarrow> (string \<times> string) list" where
  "sse_read s = sse_events [] [] (split_str [sse_nl] (map (\<lambda>c. if c = sse_cr then sse_nl else c) s))"

text \<open>Data that has carriage returns makes events of its own: only LF starts a new data line.\<close>

lemma WriteSSE_injection:
  "sse_read (WriteSSE ''notify'' (''a'' @ [sse_cr, sse_cr] @ ''event: conn-id'' @ [sse_cr] @ ''data: x'')) = [(''notify'', ''a''), (''conn-id'', ''x'')]"
  by code_simp

end
