(* ===== verification/Rest_API.thy ===== *)
theory Rest_API
  imports Dashboard_View
begin

text \<open>
  \<^verbatim>\<open>src/internal/api/api.go\<close>: what the API says of the proxies. The version and the test of the webhooks are not modelled.
\<close>

section \<open>Answers\<close>

record apiPort =
  ap_Name :: string
  ap_ProxyProtocol :: string
  ap_TargetURL :: string
  ap_ProxyPort :: int
  ap_TLSValidate :: bool
  ap_IsRedirect :: bool
  ap_Funnel :: bool

record apiProxy =
  ax_Category :: string
  ax_TargetID :: string
  ax_Status :: string
  ax_Health :: string
  ax_HealthLatency :: string
  ax_URL :: string
  ax_TargetImage :: string
  ax_Name :: string
  ax_Label :: string
  ax_Uptime :: string
  ax_TargetProvider :: string
  ax_StatusHistory :: "(string \<times> string) list"
  ax_Tags :: string
  ax_Ephemeral :: bool
  ax_RunWebClient :: bool
  ax_Ports :: "apiPort list"

record apiHealthResponse =
  ah_Total :: nat
  ah_Running :: nat
  ah_Stopped :: nat
  ah_Error :: nat
  ah_Paused :: nat
  ah_Unhealthy :: nat

definition toAPIPorts :: "shown_proxy \<Rightarrow> apiPort list" where
  "toAPIPorts s =
     map (\<lambda>(k, v). \<lparr>ap_Name = k, ap_ProxyProtocol = pc_ProxyProtocol v, ap_TargetURL = GetFirstTargetString v, ap_ProxyPort = pc_ProxyPort v,
                    ap_TLSValidate = pc_TLSValidate v, ap_IsRedirect = pc_IsRedirect v, ap_Funnel = tp_Funnel (pc_Tailscale v)\<rparr>)
       (cfg_Ports (px_Config (sp_proxy s)))"

definition toAPIProxy :: "string \<Rightarrow> shown_proxy \<Rightarrow> apiProxy" where
  "toAPIProxy name s =
     (let p = sp_proxy s; cfg = px_Config p; status = px_status p
      in \<lparr>ax_Category = db_Category (cfg_Dashboard cfg), ax_TargetID = cfg_TargetID cfg, ax_Status = status_text status,
          ax_Health = HealthStatus_String (hr_Status (px_GetHealth p)),
          ax_HealthLatency = (if sp_Latency s > 0 then itoa (sp_Latency s div 1000000) @ ''ms'' else []),
          ax_URL = (if authenticating status then sp_AuthURL s else sp_URL s), ax_TargetImage = cfg_TargetImage cfg, ax_Name = name,
          ax_Label = (if db_Label (cfg_Dashboard cfg) = [] then name else db_Label (cfg_Dashboard cfg)), ax_Uptime = sp_Uptime s,
          ax_TargetProvider = cfg_TargetProvider cfg,
          ax_StatusHistory = map (\<lambda>t. (status_text (tr_Status t), fst (sp_when s (tr_Timestamp t)))) (px_statusHistory p),
          ax_Tags = ts_Tags (cfg_Tailscale cfg), ax_Ephemeral = ts_Ephemeral (cfg_Tailscale cfg),
          ax_RunWebClient = ts_RunWebClient (cfg_Tailscale cfg), ax_Ports = toAPIPorts s\<rparr>)"

definition listProxiesHandler :: "ProxyList \<Rightarrow> apiProxy list" where
  "listProxiesHandler proxies = map (\<lambda>(name, p). toAPIProxy name p) (filter (\<lambda>(name, p). visible p) proxies)"

definition getProxyHandler :: "ProxyList \<Rightarrow> string \<Rightarrow> apiProxy dash_response" where
  "getProxyHandler proxies name =
     (if name = [] then InvalidProxyName
      else case gm_get proxies name of
             None \<Rightarrow> ProxyNotFound
           | Some p \<Rightarrow> if \<not> visible p then ProxyNotFound else Rendered (toAPIProxy name p))"

definition getProxyPortsHandler :: "ProxyList \<Rightarrow> string \<Rightarrow> apiPort list dash_response" where
  "getProxyPortsHandler proxies name =
     (if name = [] then InvalidProxyName
      else case gm_get proxies name of
             None \<Rightarrow> ProxyNotFound
           | Some p \<Rightarrow> if \<not> visible p then ProxyNotFound else Rendered (toAPIPorts p))"

definition count_proxy :: "shown_proxy \<Rightarrow> apiHealthResponse \<Rightarrow> apiHealthResponse" where
  "count_proxy s r =
     (let r = r\<lparr>ah_Total := ah_Total r + 1\<rparr>;
          r = (case px_status (sp_proxy s) of
                 ProxyStatusRunning \<Rightarrow> r\<lparr>ah_Running := ah_Running r + 1\<rparr>
               | ProxyStatusStopped \<Rightarrow> r\<lparr>ah_Stopped := ah_Stopped r + 1\<rparr>
               | ProxyStatusError \<Rightarrow> r\<lparr>ah_Error := ah_Error r + 1\<rparr>
               | ProxyStatusPaused \<Rightarrow> r\<lparr>ah_Paused := ah_Paused r + 1\<rparr>
               | _ \<Rightarrow> r)
      in if hr_Status (px_GetHealth (sp_proxy s)) = HealthDown then r\<lparr>ah_Unhealthy := ah_Unhealthy r + 1\<rparr> else r)"

definition aggregateHealthHandler :: "ProxyList \<Rightarrow> apiHealthResponse" where
  "aggregateHealthHandler proxies =
     fold (\<lambda>(_, p). count_proxy p) proxies \<lparr>ah_Total = 0, ah_Running = 0, ah_Stopped = 0, ah_Error = 0, ah_Paused = 0, ah_Unhealthy = 0\<rparr>"

section \<open>The API and the dashboard agree\<close>

text \<open>Without filters the dashboard lists the proxies that the API lists, under the same labels and URLs.\<close>

lemma api_lists_the_dashboard:
  assumes "pf_FilterStatus prefs = ''all''" "pf_FilterHealth prefs = ''all''"
  shows "mset (map (\<lambda>i. (vi_Name i, pd_Label (vi_Data i), pd_URL (vi_Data i))) (dv_Items (BuildDashboardView proxies prefs [] a)))
    = mset (map (\<lambda>x. (ax_Name x, ax_Label x, ax_URL x)) (listProxiesHandler proxies))"
proof -
  have all: "filter (\<lambda>i. matchesFilter (vi_Data i) prefs []) xs = xs" for xs using assms by (simp add: matchesFilter_def)
  have one: "(vi_Name (view_item name p prefs a), pd_Label (vi_Data (view_item name p prefs a)), pd_URL (vi_Data (view_item name p prefs a)))
      = (ax_Name (toAPIProxy name p), ax_Label (toAPIProxy name p), ax_URL (toAPIProxy name p))" for name p
    by (simp add: view_item_def toAPIProxy_def Let_def) (simp add: buildProxyDataFromProxy_def formatHealthStatus_def Let_def)
  let ?shown = "\<lambda>i. (vi_Name i, pd_Label (vi_Data i), pd_URL (vi_Data i))" and ?said = "\<lambda>x. (ax_Name x, ax_Label x, ax_URL x)"
  have "mset (map ?shown (sort_key f xs)) = mset (map ?shown xs)" for xs and f :: "ProxyViewItem \<Rightarrow> bool \<times> nat \<times> string"
    by (simp only: mset_map mset_sort)
  moreover have "map ?shown (listed_items proxies prefs [] a) = map ?said (listProxiesHandler proxies)"
    using one by (auto simp: listed_items_def all listProxiesHandler_def)
  ultimately show ?thesis unfolding BuildDashboardView_items Let_def DashboardView.select_convs by metis
qed

text \<open>The counts are those of the proxies, hidden ones included.\<close>

lemma count_proxy_fields [simp]:
  "ah_Total (count_proxy p r) = ah_Total r + 1"
  "ah_Running (count_proxy p r) = ah_Running r + (if px_status (sp_proxy p) = ProxyStatusRunning then 1 else 0)"
  "ah_Unhealthy (count_proxy p r) = ah_Unhealthy r + (if hr_Status (px_GetHealth (sp_proxy p)) = HealthDown then 1 else 0)"
  by (simp_all add: count_proxy_def Let_def split: ProxyStatus.split)

lemma aggregateHealth_counts:
  "ah_Total (aggregateHealthHandler proxies) = length proxies"
  "ah_Running (aggregateHealthHandler proxies) = length (filter (\<lambda>(_, p). px_status (sp_proxy p) = ProxyStatusRunning) proxies)"
  "ah_Unhealthy (aggregateHealthHandler proxies) = length (filter (\<lambda>(_, p). hr_Status (px_GetHealth (sp_proxy p)) = HealthDown) proxies)"
proof -
  have "ah_Total (fold (\<lambda>(_, p). count_proxy p) proxies r) = ah_Total r + length proxies
      \<and> ah_Running (fold (\<lambda>(_, p). count_proxy p) proxies r) = ah_Running r + length (filter (\<lambda>(_, p). px_status (sp_proxy p) = ProxyStatusRunning) proxies)
      \<and> ah_Unhealthy (fold (\<lambda>(_, p). count_proxy p) proxies r)
         = ah_Unhealthy r + length (filter (\<lambda>(_, p). hr_Status (px_GetHealth (sp_proxy p)) = HealthDown) proxies)" for r
    by (induction proxies arbitrary: r) auto
  then show "ah_Total (aggregateHealthHandler proxies) = length proxies"
    "ah_Running (aggregateHealthHandler proxies) = length (filter (\<lambda>(_, p). px_status (sp_proxy p) = ProxyStatusRunning) proxies)"
    "ah_Unhealthy (aggregateHealthHandler proxies) = length (filter (\<lambda>(_, p). hr_Status (px_GetHealth (sp_proxy p)) = HealthDown) proxies)"
    by (simp_all add: aggregateHealthHandler_def)
qed

end
