(* ===== verification/Icons.thy ===== *)
theory Icons
  imports Target_Settings
begin

text \<open>
  \<^verbatim>\<open>src/web/web.go\<close>, \<^verbatim>\<open>icon_download.go\<close> and the download command of \<^verbatim>\<open>cmd/server/icons_cmd.go\<close>: icons that are served from
  a directory, fetched into it on demand, or unpacked from an archive. A disk is a map from paths to contents; every access to a
  file and every request is recorded, so that it can be said which files a request reaches. Static files are not modelled.
\<close>

section \<open>Names\<close>

definition iconExtSVG :: string where "iconExtSVG = ''.svg''"
definition iconExtPNG :: string where "iconExtPNG = ''.png''"
definition iconExtWebP :: string where "iconExtWebP = ''.webp''"

record IconSet =
  ic_Repo :: string
  ic_Version :: string
  ic_RefType :: string
  ic_SvgDir :: string
  ic_SHA256 :: string

type_synonym IconManifest = "(string, IconSet) gomap"

text \<open>The manifest of \<^verbatim>\<open>scripts/icons.json\<close>, which is built into the program.\<close>

definition ParseIconManifest :: IconManifest where
  "ParseIconManifest =
     [(''si'', \<lparr>ic_Repo = ''simple-icons/simple-icons'', ic_Version = ''16.18.0'', ic_RefType = ''tags'', ic_SvgDir = ''icons'',
               ic_SHA256 = ''34b0a5297104363bb424845e25af67e3de407d0fd767fcac44b1456fa508cecf''\<rparr>),
      (''mdi'', \<lparr>ic_Repo = ''Templarian/MaterialDesign-SVG'', ic_Version = ''v7.4.47'', ic_RefType = ''tags'', ic_SvgDir = ''svg'',
                ic_SHA256 = ''898f04f590d6e2902f48d89d223b4bfbd4c5d311b20d36459fcab4d58097154c''\<rparr>),
      (''sh'', \<lparr>ic_Repo = ''selfhst/icons'', ic_Version = ''ecfb6aaa4a0b74ad772cab95ef13754063fa4c55'', ic_RefType = ''commits'', ic_SvgDir = ''svg'',
               ic_SHA256 = ''78d87edbb7c597b68aaf6ad85d8f44bfe1920fdaa6039b66199fa1f2d7e99f40''\<rparr>)]"

definition strip_suffix :: "string \<Rightarrow> string \<Rightarrow> string option" where
  "strip_suffix suf s =
     (if length suf \<le> length s \<and> drop (length s - length suf) s = suf then Some (take (length s - length suf) s) else None)"

definition iconExtFromPath :: "string \<Rightarrow> string \<times> string" where
  "iconExtFromPath path =
     (case strip_suffix iconExtSVG path of
        Some stripped \<Rightarrow> (iconExtSVG, stripped)
      | None \<Rightarrow>
          (case strip_suffix iconExtPNG path of
             Some stripped \<Rightarrow> (iconExtPNG, stripped)
           | None \<Rightarrow>
               (case strip_suffix iconExtWebP path of
                  Some stripped \<Rightarrow> (iconExtWebP, stripped)
                | None \<Rightarrow> (iconExtSVG, path))))"

definition iconContentType :: "string \<Rightarrow> string" where
  "iconContentType ext = (if ext = iconExtPNG then ''image/png'' else if ext = iconExtWebP then ''image/webp'' else ''image/svg+xml'')"

text \<open>The pattern \<^verbatim>\<open>^[a-z0-9][a-z0-9._-]*$\<close>.\<close>

definition lower_alnum :: "char \<Rightarrow> bool" where
  "lower_alnum c \<longleftrightarrow> (let n = of_char c :: nat in 97 \<le> n \<and> n \<le> 122 \<or> 48 \<le> n \<and> n \<le> 57)"

definition safeName :: "string \<Rightarrow> bool" where
  "safeName s = (case s of [] \<Rightarrow> False | c # cs \<Rightarrow> lower_alnum c \<and> list_all (\<lambda>c. lower_alnum c \<or> c \<in> set ''._-'') cs)"

section \<open>The downloader\<close>

record IconDownloader =
  dl_manifest :: IconManifest
  dl_failed :: "string list"
  dl_cacheDir :: string
  dl_defaultSet :: string
  dl_enabled :: bool

type_synonym disk = "(string, string) gomap"

datatype icon_io = ReadIcon string | WriteIcon string | RenameIcon string string | RemoveIcon string | GetURL string

datatype icon_error =
    PathTraversal string
  | FileMissing string
  | DownloadDisabled
  | UnknownSet string
  | UnsafeName string
  | PreviouslyFailed string
  | DownloadError string
  | IconNotFound string
  | DownloadStatus int
  | IconWriteError string

text \<open>What a download and the writing of a file meet: the answer to a request, with a body that can be read or not, and failures of the disk.\<close>

record icon_env =
  ie_get :: "string \<Rightarrow> string + (int \<times> string option)"
  ie_write :: "string option"
  ie_rename :: "string option"

definition resolveIcon :: "IconDownloader \<Rightarrow> string \<Rightarrow> string \<times> string \<times> string" where
  "resolveIcon d name =
     (if name = [] then ([], [], [])
      else let name = (case strip_suffix iconExtSVG name of Some n \<Rightarrow> n | None \<Rightarrow> name);
               (ext, name) = (case strip_suffix iconExtPNG name of
                                Some n \<Rightarrow> (iconExtPNG, n)
                              | None \<Rightarrow> (case strip_suffix iconExtWebP name of Some n \<Rightarrow> (iconExtWebP, n) | None \<Rightarrow> (iconExtSVG, name)))
           in case splitN2 ''/'' name of
                [iset, iconName] \<Rightarrow> (iset, iconName, ext)
              | parts \<Rightarrow> (dl_defaultSet d, hd parts, ext))"

definition validateName :: "IconDownloader \<Rightarrow> string \<Rightarrow> string \<Rightarrow> icon_error option" where
  "validateName d iset iconName =
     (if gm_get (dl_manifest d) iset = None then Some (UnknownSet iset)
      else if \<not> safeName iconName then Some (UnsafeName iconName)
      else None)"

definition safePath :: "IconDownloader \<Rightarrow> string \<Rightarrow> string \<Rightarrow> string \<Rightarrow> icon_error + string" where
  "safePath d iset iconName ext =
     (let cleanBase = path_Clean (path_Join [dl_cacheDir d, iset]);
          fullPath = path_Join [cleanBase, iconName @ ext];
          cleanPath = path_Clean fullPath
      in if \<not> has_prefix cleanPath (cleanBase @ ''/'') \<and> cleanPath \<noteq> cleanBase then Inl (PathTraversal fullPath) else Inr cleanPath)"

definition icon_Get :: "IconDownloader \<Rightarrow> disk \<Rightarrow> string \<Rightarrow> string \<Rightarrow> string \<Rightarrow> (icon_error + string) \<times> icon_io list" where
  "icon_Get d fs iset iconName ext =
     (case safePath d iset iconName ext of
        Inl e \<Rightarrow> (Inl e, [])
      | Inr path \<Rightarrow> (case gm_get fs path of Some data \<Rightarrow> Inr data | None \<Rightarrow> Inl (FileMissing path), [ReadIcon path]))"

definition path_Dir :: "string \<Rightarrow> string" where
  "path_Dir p = path_Clean (rev (dropWhile (\<lambda>c. c \<noteq> CHR ''/'') (rev p)))"

definition writeAtomically :: "icon_env \<Rightarrow> IconDownloader \<Rightarrow> string \<Rightarrow> string \<Rightarrow> string \<Rightarrow> string \<Rightarrow> disk \<Rightarrow> icon_error option \<times> disk \<times> icon_io list" where
  "writeAtomically env d iset iconName ext data fs =
     (case safePath d iset iconName ext of
        Inl e \<Rightarrow> (Some e, fs, [])
      | Inr path \<Rightarrow>
          let tmpPath = path_Join [path_Dir path, ''.'' @ iconName @ ext @ ''.tmp'']
          in case ie_write env of
               Some e \<Rightarrow> (Some (IconWriteError e), fs, [])
             | None \<Rightarrow>
                 (case ie_rename env of
                    Some e \<Rightarrow> (Some (IconWriteError e), fs, [WriteIcon tmpPath, RemoveIcon tmpPath])
                  | None \<Rightarrow> (None, gm_put path data fs, [WriteIcon tmpPath, RenameIcon tmpPath path])))"

definition buildURL :: "IconDownloader \<Rightarrow> string \<Rightarrow> string \<Rightarrow> string" where
  "buildURL d iset iconName =
     (let cfg = (case gm_get (dl_manifest d) iset of Some c \<Rightarrow> c | None \<Rightarrow> \<lparr>ic_Repo = [], ic_Version = [], ic_RefType = [], ic_SvgDir = [], ic_SHA256 = []\<rparr>)
      in ''https://raw.githubusercontent.com/'' @ ic_Repo cfg @ ''/'' @ ic_Version cfg @ ''/'' @ ic_SvgDir cfg @ ''/'' @ iconName @ ''.svg'')"

text \<open>One call of \<^verbatim>\<open>Fetch\<close>; calls for the same icon that run at the same time share it.\<close>

definition Fetch :: "icon_env \<Rightarrow> string \<Rightarrow> string \<Rightarrow> string \<Rightarrow> IconDownloader \<Rightarrow> disk \<Rightarrow> (icon_error + string) \<times> IconDownloader \<times> disk \<times> icon_io list" where
  "Fetch env iset iconName ext d fs =
     (if \<not> dl_enabled d then (Inl DownloadDisabled, d, fs, [])
      else case validateName d iset iconName of
             Some e \<Rightarrow> (Inl e, d, fs, [])
           | None \<Rightarrow>
               let key = iset @ ''/'' @ iconName
               in if key \<in> List.set (dl_failed d) then (Inl (PreviouslyFailed key), d, fs, [])
                  else case icon_Get d fs iset iconName ext of
                         (Inr data, io) \<Rightarrow> (Inr data, d, fs, io)
                       | (Inl _, io) \<Rightarrow>
                           let url = buildURL d iset iconName; io = io @ io @ [GetURL url]
                           in case ie_get env url of
                                Inl e \<Rightarrow> (Inl (DownloadError e), d, fs, io)
                              | Inr (status, body) \<Rightarrow>
                                  if status = 404 then (Inl (IconNotFound key), d\<lparr>dl_failed := key # dl_failed d\<rparr>, fs, io)
                                  else if status \<noteq> 200 then (Inl (DownloadStatus status), d, fs, io)
                                  else (case body of
                                          None \<Rightarrow> (Inl (DownloadError ''read''), d, fs, io)
                                        | Some data \<Rightarrow>
                                            (case writeAtomically env d iset iconName ext data fs of
                                               (Some e, fs', io') \<Rightarrow> (Inl e, d, fs', io @ io')
                                             | (None, fs', io') \<Rightarrow> (Inr data, d, fs', io @ io'))))"

section \<open>Serving\<close>

record Assets =
  as_downloader :: IconDownloader
  as_iconsDir :: string
  as_defaultSet :: string

definition NewIconDownloader :: "IconManifest \<Rightarrow> string \<Rightarrow> bool \<Rightarrow> string \<Rightarrow> IconDownloader" where
  "NewIconDownloader manifest cacheDir enabled defaultSet =
     \<lparr>dl_manifest = manifest, dl_failed = [], dl_cacheDir = cacheDir, dl_defaultSet = defaultSet, dl_enabled = enabled\<rparr>"

definition NewAssets :: "string \<Rightarrow> string \<Rightarrow> string \<Rightarrow> bool \<Rightarrow> Assets" where
  "NewAssets iconsDir dataDir defaultSet download =
     (let iconsDir = (if iconsDir = [] then path_Join [dataDir, ''icons''] else iconsDir);
          defaultSet = (if defaultSet = [] then ''sh'' else defaultSet)
      in \<lparr>as_downloader = NewIconDownloader ParseIconManifest iconsDir download defaultSet, as_iconsDir = iconsDir, as_defaultSet = defaultSet\<rparr>)"

text \<open>An icon that was found, with whether it came from the disk; none; or an answer that was given already.\<close>

datatype icon_lookup = IconFound string bool | IconNone | IconHandled

definition serveIconFromCacheOrDownload ::
  "icon_env \<Rightarrow> string \<Rightarrow> string \<Rightarrow> string \<Rightarrow> bool \<Rightarrow> Assets \<Rightarrow> disk \<Rightarrow> icon_lookup \<times> Assets \<times> disk \<times> icon_io list" where
  "serveIconFromCacheOrDownload env iset iconName ext rootLevel a fs =
     (let rootPath = path_Join [as_iconsDir a, iconName @ ext];
          root = (if rootLevel then gm_get fs rootPath else None);
          io = (if rootLevel then [ReadIcon rootPath] else []);
          iset = (if rootLevel then as_defaultSet a else iset);
          d = as_downloader a
      in case root of
           Some data \<Rightarrow> (IconFound data True, a, fs, io)
         | None \<Rightarrow>
             if gm_get (dl_manifest d) iset = None \<and> iset \<noteq> [] then (IconHandled, a, fs, io)
             else case icon_Get d fs iset iconName ext of
                    (Inr data, io') \<Rightarrow> (IconFound data True, a, fs, io @ io')
                  | (Inl _, io') \<Rightarrow>
                      if ext = iconExtSVG then
                        (case Fetch env iset iconName ext d fs of
                           (Inr data, d', fs', io'') \<Rightarrow> (IconFound data False, a\<lparr>as_downloader := d'\<rparr>, fs', io @ io' @ io'')
                         | (Inl _, d', fs', io'') \<Rightarrow> (IconNone, a\<lparr>as_downloader := d'\<rparr>, fs', io @ io' @ io''))
                      else (IconNone, a, fs, io @ io'))"

datatype icon_response =
    MethodNotAllowed
  | DefaultSVG
  | InvalidPath
  | UnknownIconSet
  | IconData string string bool
  | IconMissing

definition trim_prefix1 :: "string \<Rightarrow> string \<Rightarrow> string" where
  "trim_prefix1 p s = (if has_prefix s p then drop (length p) s else s)"

definition IconsHandler :: "icon_env \<Rightarrow> string \<Rightarrow> string \<Rightarrow> Assets \<Rightarrow> disk \<Rightarrow> icon_response \<times> Assets \<times> disk \<times> icon_io list" where
  "IconsHandler env meth urlPath a fs =
     (if meth \<noteq> ''GET'' \<and> meth \<noteq> ''HEAD'' then (MethodNotAllowed, a, fs, [])
      else let requestPath = trim_prefix1 ''/'' (trim_prefix1 ''/icons/'' urlPath)
           in if requestPath = ''tsdproxy.svg'' \<or> requestPath = ''tsdproxy'' then (DefaultSVG, a, fs, [])
              else if contains_str requestPath ''..'' then (InvalidPath, a, fs, [])
              else let (ext, namePath) = iconExtFromPath requestPath;
                       (iset, iconName, rootLevel) = (case splitN2 ''/'' namePath of
                                                       [iset, iconName] \<Rightarrow> (iset, iconName, False)
                                                     | parts \<Rightarrow> ([], hd parts, True))
                   in case serveIconFromCacheOrDownload env iset iconName ext rootLevel a fs of
                        (IconHandled, rest) \<Rightarrow> (UnknownIconSet, rest)
                      | (IconFound data cacheHit, rest) \<Rightarrow> (IconData (iconContentType ext) data cacheHit, rest)
                      | (IconNone, rest) \<Rightarrow> (if ext = iconExtSVG then DefaultSVG else IconMissing, rest))"

text \<open>The file that the page reads for the icon of a proxy, if it reads one.\<close>

definition IconSVG_reads :: "(string \<Rightarrow> bool) \<Rightarrow> Assets \<Rightarrow> string \<Rightarrow> string option" where
  "IconSVG_reads isGlyph a name =
     (let name = (if name = [] then DefaultIcon else name)
      in if isGlyph name then None
         else let (iset, iconName, _) = resolveIcon (as_downloader a) name
              in if iset = [] then None
                 else (case safePath (as_downloader a) iset iconName iconExtSVG of Inl _ \<Rightarrow> None | Inr path \<Rightarrow> Some path))"

section \<open>The download of a set\<close>

definition repoShortName :: "string \<Rightarrow> string" where
  "repoShortName repo = (case splitN2 ''/'' repo of [_, name] \<Rightarrow> name | parts \<Rightarrow> hd parts)"

definition set_url :: "IconSet \<Rightarrow> string" where
  "set_url cfg =
     (if ic_RefType cfg = ''commits'' then ''https://github.com/'' @ ic_Repo cfg @ ''/archive/'' @ ic_Version cfg @ ''.tar.gz''
      else ''https://github.com/'' @ ic_Repo cfg @ ''/archive/refs/'' @ ic_RefType cfg @ ''/'' @ ic_Version cfg @ ''.tar.gz'')"

text \<open>Entries of an archive: whether it is a regular file, its name and its contents.\<close>

type_synonym tar_entry = "bool \<times> string \<times> string"

definition entry_target :: "string \<Rightarrow> string \<Rightarrow> string \<Rightarrow> tar_entry \<Rightarrow> string option" where
  "entry_target dest archivePrefix svgDir e =
     (case e of (regular, name, _) \<Rightarrow>
        if \<not> regular then None
        else case splitN2 ''/'' name of
               [p0, rest] \<Rightarrow>
                 (case splitN2 ''/'' rest of
                    [p1, p2] \<Rightarrow>
                      if p0 \<noteq> archivePrefix \<or> p1 \<noteq> svgDir then None
                      else if strip_suffix ''.svg'' p2 = None then None
                      else Some (path_Join [dest, p2])
                  | _ \<Rightarrow> None)
             | _ \<Rightarrow> None)"

fun extractSVGTarball :: "string \<Rightarrow> string \<Rightarrow> string \<Rightarrow> tar_entry list \<Rightarrow> disk \<Rightarrow> nat \<Rightarrow> nat \<times> disk" where
  "extractSVGTarball dest archivePrefix svgDir [] fs count = (count, fs)"
| "extractSVGTarball dest archivePrefix svgDir (e # es) fs count =
     (case entry_target dest archivePrefix svgDir e of
        None \<Rightarrow> extractSVGTarball dest archivePrefix svgDir es fs count
      | Some outPath \<Rightarrow> extractSVGTarball dest archivePrefix svgDir es (gm_put outPath (take (100 * 2 ^ 20) (snd (snd e))) fs) (count + 1))"

definition countSVGFiles :: "string \<Rightarrow> disk \<Rightarrow> nat" where
  "countSVGFiles dir fs = length (filter (\<lambda>p. strip_suffix ''.svg'' p \<noteq> None \<and> path_Dir p = path_Clean dir) (keys fs))"

datatype set_result = SetCached nat | SetFailed string | SetSaved nat

text \<open>\<open>sha\<close> is the digest of the archive in hexadecimal, \<open>untar\<close> its entries.\<close>

definition downloadSet ::
  "icon_env \<Rightarrow> (string \<Rightarrow> string) \<Rightarrow> (string \<Rightarrow> tar_entry list option) \<Rightarrow> string \<Rightarrow> IconSet \<Rightarrow> string \<Rightarrow> disk \<Rightarrow> set_result \<times> disk" where
  "downloadSet env sha untar setName cfg iconsDir fs =
     (let dest = path_Join [iconsDir, setName]; existing = countSVGFiles dest fs
      in if existing > 0 then (SetCached existing, fs)
         else case ie_get env (set_url cfg) of
                Inl e \<Rightarrow> (SetFailed ''download'', fs)
              | Inr (status, body) \<Rightarrow>
                  if status \<noteq> 200 then (SetFailed ''HTTP'', fs)
                  else (case body of
                          None \<Rightarrow> (SetFailed ''read response'', fs)
                        | Some data \<Rightarrow>
                            if sha data \<noteq> ic_SHA256 cfg then (SetFailed ''SHA256 mismatch'', fs)
                            else (case untar data of
                                    None \<Rightarrow> (SetFailed ''gzip'', fs)
                                  | Some entries \<Rightarrow>
                                      let archivePrefix = repoShortName (ic_Repo cfg) @ ''-'' @ trim_prefix1 ''v'' (ic_Version cfg);
                                          (count, fs') = extractSVGTarball dest archivePrefix (ic_SvgDir cfg) entries fs 0
                                      in (SetSaved count, fs'))))"

section \<open>Substrings and elements of paths\<close>

lemma contains_str_iff: "contains_str s sub \<longleftrightarrow> (\<exists>a b. s = a @ sub @ b)"
proof (induction s)
  case Nil
  then show ?case by (auto simp: contains_str_def)
next
  case (Cons c cs)
  show ?case
  proof (cases "has_prefix (c # cs) sub")
    case True
    then have "c # cs = [] @ sub @ drop (length sub) (c # cs)" unfolding has_prefix_def by (metis append_Nil append_take_drop_id)
    moreover have "contains_str (c # cs) sub" using True by (simp add: contains_str_def)
    ultimately show ?thesis by blast
  next
    case False
    then have "contains_str (c # cs) sub \<longleftrightarrow> contains_str cs sub" by (auto simp: contains_str_def)
    moreover have "(\<exists>a b. c # cs = a @ sub @ b) \<longleftrightarrow> (\<exists>a b. cs = a @ sub @ b)"
    proof
      assume "\<exists>a b. c # cs = a @ sub @ b"
      then obtain a b where ab: "c # cs = a @ sub @ b" by blast
      have "a \<noteq> []" using False ab by (auto simp: has_prefix_def)
      with ab show "\<exists>a b. cs = a @ sub @ b" by (cases a) auto
    next
      assume "\<exists>a b. cs = a @ sub @ b"
      then show "\<exists>a b. c # cs = a @ sub @ b" by (metis append_Cons)
    qed
    ultimately show ?thesis using Cons by simp
  qed
qed

lemma contains_str_part: "\<not> contains_str (a @ s @ b) sub \<Longrightarrow> \<not> contains_str s sub"
  unfolding contains_str_iff by (metis append.assoc)

lemma join_part: "e \<in> set es \<Longrightarrow> \<exists>a b. join_str sep es = a @ e @ b"
proof (induction es rule: induct_list012)
  case (2 x)
  then have "join_str sep [x] = [] @ e @ []" by simp
  then show ?case by blast
next
  case (3 x y ys)
  show ?case
  proof (cases "e = x")
    case True
    then have "join_str sep (x # y # ys) = [] @ e @ (sep @ join_str sep (y # ys))" by simp
    then show ?thesis by blast
  next
    case False
    then obtain a b where "join_str sep (y # ys) = a @ e @ b" using 3 by auto
    then have "join_str sep (x # y # ys) = (x @ sep @ a) @ e @ b" by simp
    then show ?thesis by blast
  qed
qed simp

lemma no_dotdot_elem: "\<not> contains_str s ''..'' \<Longrightarrow> ''..'' \<notin> set (split_str [c] s)"
  using join_part [of "''..''" "split_str [c] s" "[c]"] unfolding contains_str_iff join_split by auto

lemma split_str_sep: "split_str [c] (a @ c # b) = split_str [c] a @ split_str [c] b"
proof (induction "length a" arbitrary: a rule: less_induct)
  case less
  show ?case
  proof (cases "c \<in> set a")
    case False
    then show ?thesis by (simp add: split_str_cons split_str_absent)
  next
    case True
    then obtain xs ys where a: "a = xs @ c # ys" "c \<notin> set xs" by (metis split_list_first)
    then show ?thesis using less [of ys] by (simp add: split_str_cons)
  qed
qed

lemma split_str_end: "c \<notin> set t \<Longrightarrow> e \<in> set (split_str [c] (s @ t)) \<Longrightarrow> e \<in> set (split_str [c] s) \<or> (\<exists>f. e = f @ t)"
proof (induction "length s" arbitrary: s rule: less_induct)
  case less
  show ?case
  proof (cases "c \<in> set s")
    case False
    with less.prems show ?thesis by (auto simp: split_str_absent)
  next
    case True
    then obtain xs ys where s: "s = xs @ c # ys" "c \<notin> set xs" by (metis split_list_first)
    with less.prems have "e = xs \<or> e \<in> set (split_str [c] (ys @ t))" by (simp add: split_str_cons)
    then show ?thesis using less.hyps [of ys] less.prems(1) s by (auto simp: split_str_cons)
  qed
qed

lemma fold_clean_down:
  "''..'' \<notin> set es \<Longrightarrow> fold (clean_elem r) es out = rev (filter (\<lambda>e. e \<noteq> [] \<and> e \<noteq> ''.'') es) @ out"
  by (induction es arbitrary: out) (auto simp: clean_elem_def)

section \<open>Staying inside a directory\<close>

definition inside :: "string \<Rightarrow> string \<Rightarrow> bool" where
  "inside dir p \<longleftrightarrow> (\<exists>r be rest. clean_parts dir = (r, be) \<and> clean_parts p = (r, be @ rest) \<and> ''..'' \<notin> set rest)"

lemma inside_refl: "inside d d"
  unfolding inside_def by (metis append.right_neutral empty_iff empty_set prod.collapse)

lemma inside_trans: "inside a b \<Longrightarrow> inside b c \<Longrightarrow> inside a c"
  unfolding inside_def by fastforce

lemma inside_Clean [simp]: "inside d (path_Clean p) \<longleftrightarrow> inside d p" "inside (path_Clean d) p \<longleftrightarrow> inside d p"
  by (simp_all add: inside_def)

lemma clean_parts_child:
  assumes "d \<noteq> []" "''..'' \<notin> set (split_str ''/'' s)" "clean_parts d = (r, be)"
  shows "clean_parts (d @ ''/'' @ s) = (r, be @ filter (\<lambda>e. e \<noteq> [] \<and> e \<noteq> ''.'') (split_str ''/'' s))"
proof -
  have "has_prefix (d @ ''/'' @ s) ''/'' = has_prefix d ''/''" using assms(1) by (cases d) (auto simp: has_prefix_def)
  moreover have "split_str ''/'' (d @ ''/'' @ s) = split_str ''/'' d @ split_str ''/'' s" using split_str_sep [of "CHR ''/''" d s] by simp
  ultimately show ?thesis using assms(2,3) by (auto simp: clean_parts_def Let_def fold_clean_down)
qed

lemma inside_Join:
  assumes "d \<noteq> []" "''..'' \<notin> set (split_str ''/'' s)"
  shows "inside d (path_Join [d, s])"
proof -
  obtain r be where d: "clean_parts d = (r, be)" by fastforce
  have "path_Join [d, s] = path_Clean (d @ ''/'' @ s)" using assms(1) by (simp add: path_Join_def)
  moreover have "inside d (d @ ''/'' @ s)"
    using clean_parts_child [OF assms d] d assms(2) by (auto simp: inside_def)
  ultimately show ?thesis by simp
qed

lemma path_Clean_nonempty [simp]: "path_Clean p \<noteq> []"
proof -
  have "render_path (r, es) \<noteq> []" if "clean_list r es" for r es
    using that clean_list_no_slash [OF that] by (cases es; cases "tl es") (auto simp: render_path_def)
  then show ?thesis using clean_parts_clean [of p] by (cases "clean_parts p") (auto simp: path_Clean_def)
qed

lemma safePath_inside:
  assumes "safePath d iset iconName ext = Inr path" "dl_cacheDir d \<noteq> []" "''..'' \<notin> List.set (split_str ''/'' iset)"
    "''..'' \<notin> List.set (split_str ''/'' (iconName @ ext))"
  shows "inside (dl_cacheDir d) path"
proof -
  let ?base = "path_Clean (path_Join [dl_cacheDir d, iset])"
  have "path = path_Clean (path_Join [?base, iconName @ ext])" using assms(1) by (auto simp: safePath_def Let_def split: if_splits)
  moreover have "inside ?base (path_Join [?base, iconName @ ext])" using assms by (intro inside_Join) simp_all
  moreover have "inside (dl_cacheDir d) ?base" using assms by (simp add: inside_Join)
  ultimately show ?thesis using inside_trans by simp
qed

section \<open>What the handler touches\<close>

fun io_paths :: "icon_io \<Rightarrow> string list" where
  "io_paths (ReadIcon p) = [p]"
| "io_paths (WriteIcon p) = [p]"
| "io_paths (RenameIcon p q) = [p, q]"
| "io_paths (RemoveIcon p) = [p]"
| "io_paths (GetURL _) = []"

definition io_ok :: "string \<Rightarrow> icon_io \<Rightarrow> bool" where
  "io_ok dir io \<longleftrightarrow> list_all (inside dir) (io_paths io)
     \<and> (case io of GetURL url \<Rightarrow> \<exists>iset name. safeName name \<and> gm_get ParseIconManifest iset \<noteq> None
           \<and> url = buildURL (NewIconDownloader ParseIconManifest dir True []) iset name | _ \<Rightarrow> True)"

lemma icon_ext_no_slash: "ext \<in> {iconExtSVG, iconExtPNG, iconExtWebP} \<Longrightarrow> CHR ''/'' \<notin> set ext"
  by (auto simp: iconExtSVG_def iconExtPNG_def iconExtWebP_def)

lemma dotdot_no_ext: "ext \<in> {iconExtSVG, iconExtPNG, iconExtWebP} \<Longrightarrow> ''..'' \<noteq> f @ ext"
  by (auto simp: iconExtSVG_def iconExtPNG_def iconExtWebP_def dest: arg_cong [of _ _ length])

lemma icon_file_no_dotdot:
  assumes "''..'' \<notin> set (split_str ''/'' name)" "ext \<in> {iconExtSVG, iconExtPNG, iconExtWebP}"
  shows "''..'' \<notin> set (split_str ''/'' (name @ ext))"
  using split_str_end [OF icon_ext_no_slash [OF assms(2)], of "''..''" name] dotdot_no_ext [OF assms(2)] assms(1) by auto

lemma iconExtFromPath_parts:
  "iconExtFromPath path = (ext, stripped) \<Longrightarrow> ext \<in> {iconExtSVG, iconExtPNG, iconExtWebP} \<and> (\<exists>b. path = stripped @ b)"
  by (auto simp: iconExtFromPath_def strip_suffix_def split: option.splits if_splits) (metis append_take_drop_id)+

lemma splitN2_parts:
  "splitN2 [c] s = [a, b] \<Longrightarrow> s = a @ c # b \<and> c \<notin> set a"
  "splitN2 [c] s = [a] \<Longrightarrow> s = a \<and> c \<notin> set a"
proof -
  have "(\<exists>a b. s = a @ c # b \<and> c \<notin> set a \<and> splitN2 [c] s = [a, b]) \<or> (c \<notin> set s \<and> splitN2 [c] s = [s])"
  proof (cases "c \<in> set s")
    case True
    then obtain a b where "s = a @ c # b" "c \<notin> set a" by (metis split_list_first)
    then show ?thesis using splitN2_cons by blast
  qed (simp add: splitN2_absent)
  then show "splitN2 [c] s = [a, b] \<Longrightarrow> s = a @ c # b \<and> c \<notin> set a" "splitN2 [c] s = [a] \<Longrightarrow> s = a \<and> c \<notin> set a" by auto
qed

lemma splitN2_cases: "(\<exists>a b. splitN2 [c] s = [a, b]) \<or> splitN2 [c] s = [s]"
  by (cases "c \<in> set s") (metis split_list_first splitN2_cons, simp add: splitN2_absent)

lemma manifest_no_dotdot: "gm_get ParseIconManifest iset \<noteq> None \<Longrightarrow> ''..'' \<notin> List.set (split_str ''/'' iset)"
  by (auto simp: ParseIconManifest_def split_str_absent split: if_splits)

lemma safeName_chars: "safeName name \<Longrightarrow> CHR ''/'' \<notin> set name \<and> name \<noteq> [] \<and> hd name \<noteq> CHR ''.''"
  by (cases name) (auto simp: safeName_def lower_alnum_def list_all_iff)

lemma icon_Get_ok:
  assumes "dl_cacheDir d \<noteq> []" "''..'' \<notin> List.set (split_str ''/'' iset)" "''..'' \<notin> List.set (split_str ''/'' name)"
    "ext \<in> {iconExtSVG, iconExtPNG, iconExtWebP}"
  shows "list_all (io_ok (dl_cacheDir d)) (snd (icon_Get d fs iset name ext))"
  using safePath_inside [OF _ assms(1,2) icon_file_no_dotdot [OF assms(3,4)]]
  by (auto simp: icon_Get_def io_ok_def split: sum.split)

section \<open>The temporary file\<close>

lemma dropWhile_until: "c \<notin> set xs \<Longrightarrow> dropWhile (\<lambda>x. x \<noteq> c) (xs @ c # ys) = c # ys"
  by (induction xs) auto

lemma path_Dir_render:
  assumes "clean_list r (es @ [e])"
  shows "clean_parts (path_Dir (render_path (r, es @ [e]))) = (r, es)"
proof -
  have e: "CHR ''/'' \<notin> set e" using clean_list_no_slash [OF assms] by auto
  have es: "clean_list r es"
  proof -
    obtain n ps where c: "es @ [e] = replicate n ''..'' @ ps" "\<forall>e \<in> set ps. plain_elem e" "r \<longrightarrow> n = 0" using assms by (rule clean_listE)
    show ?thesis
    proof (cases ps rule: rev_cases)
      case Nil
      with c(1) obtain k where k: "n = Suc k" by (cases n) auto
      then have "es @ [e] = replicate k ''..'' @ [''..'']" using c(1) Nil by (simp add: replicate_append_same)
      then have "es = replicate (n - 1) ''..'' @ []" using k by simp
      then show ?thesis using clean_listI [of "[]" r "n - 1"] c(3) by simp
    next
      case (snoc qs q)
      then have "es = replicate n ''..'' @ qs" using c(1) by simp
      then show ?thesis using clean_listI [of qs r n] c(2,3) snoc by simp
    qed
  qed
  have drop: "rev (dropWhile (\<lambda>c. c \<noteq> CHR ''/'') (rev (p @ CHR ''/'' # e))) = p @ ''/''" for p
    using dropWhile_until [of "CHR ''/''" "rev e" "rev p"] e by auto
  have none: "dropWhile (\<lambda>c. c \<noteq> CHR ''/'') (rev e) = []" using e by (auto simp: dropWhile_eq_Nil_conv)
  show ?thesis
  proof (cases "es = []")
    case True
    have "clean_parts (path_Clean ''/'') = (True, [])" "clean_parts (path_Clean []) = (False, [])" by code_simp+
    moreover have "render_path (r, [e]) = (if r then [] @ CHR ''/'' # e else e)" by (simp add: render_path_def)
    ultimately show ?thesis using True drop [of "[]"] by (simp add: path_Dir_def none)
  next
    case False
    have "join_str ''/'' (es @ [e]) = join_str ''/'' es @ CHR ''/'' # e" using False by (induction es rule: induct_list012) auto
    then have "render_path (r, es @ [e]) = render_path (r, es) @ CHR ''/'' # e" using False by (simp add: render_path_def)
    then have "path_Dir (render_path (r, es @ [e])) = path_Clean (render_path (r, es) @ ''/'')" using drop by (simp add: path_Dir_def)
    moreover have "render_path (r, es) \<noteq> []" using clean_list_no_slash [OF es] False by (cases es; cases "tl es") (auto simp: render_path_def)
    then have "clean_parts (render_path (r, es) @ ''/'' @ []) = (r, es)"
      using clean_parts_child [of "render_path (r, es)" "[]" r es] clean_parts_render [OF es] by (simp add: split_str_absent)
    ultimately show ?thesis by simp
  qed
qed

lemma safePath_parts:
  assumes "safePath d iset name ext = Inr path" "dl_cacheDir d \<noteq> []" "''..'' \<notin> List.set (split_str ''/'' iset)" "safeName name"
    "ext \<in> {iconExtSVG, iconExtPNG, iconExtWebP}"
  shows "\<exists>r be rest. clean_parts (dl_cacheDir d) = (r, be) \<and> ''..'' \<notin> List.set rest \<and> path = render_path (r, be @ rest @ [name @ ext])
    \<and> clean_list r (be @ rest @ [name @ ext])"
proof -
  let ?base = "path_Clean (path_Join [dl_cacheDir d, iset])" and ?rest = "filter (\<lambda>e. e \<noteq> [] \<and> e \<noteq> ''.'') (split_str ''/'' iset)"
  obtain r be where c: "clean_parts (dl_cacheDir d) = (r, be)" by fastforce
  have "path_Join [dl_cacheDir d, iset] = path_Clean (dl_cacheDir d @ ''/'' @ iset)" using assms(2) by (simp add: path_Join_def)
  then have base: "clean_parts ?base = (r, be @ ?rest)" using clean_parts_child [OF assms(2,3) c] by simp
  have no: "CHR ''/'' \<notin> List.set (name @ ext)" "name @ ext \<noteq> []" "name @ ext \<noteq> ''.''"
    using safeName_chars [OF assms(4)] icon_ext_no_slash [OF assms(5)] by (auto simp: append_eq_Cons_conv)
  have dd: "''..'' \<notin> List.set (split_str ''/'' (name @ ext))"
    using no dotdot_no_ext [OF assms(5), of name] by (auto simp: split_str_absent)
  have "path = path_Clean (path_Join [?base, name @ ext])" using assms(1) by (auto simp: safePath_def Let_def split: if_splits)
  moreover have "path_Join [?base, name @ ext] = path_Clean (?base @ ''/'' @ (name @ ext))"
    by (simp add: path_Join_def [of "[?base, name @ ext]"])
  ultimately have p: "path = path_Clean (?base @ ''/'' @ (name @ ext))" by simp
  have "clean_parts (?base @ ''/'' @ (name @ ext)) = (r, (be @ ?rest) @ [name @ ext])"
    using clean_parts_child [OF path_Clean_nonempty dd base] no by (simp add: split_str_absent)
  then have "path = render_path (r, be @ ?rest @ [name @ ext])" "clean_list r (be @ ?rest @ [name @ ext])"
    using clean_parts_clean unfolding p by (auto simp: path_Clean_def)
  moreover have "''..'' \<notin> List.set ?rest" using assms(3) by auto
  ultimately show ?thesis using c by blast
qed

lemma tmp_inside:
  assumes "safePath d iset name ext = Inr path" "dl_cacheDir d \<noteq> []" "''..'' \<notin> List.set (split_str ''/'' iset)" "safeName name"
    "ext \<in> {iconExtSVG, iconExtPNG, iconExtWebP}"
  shows "inside (dl_cacheDir d) (path_Join [path_Dir path, ''.'' @ name @ ext @ ''.tmp''])"
proof -
  obtain r be rest where p: "clean_parts (dl_cacheDir d) = (r, be)" "''..'' \<notin> List.set rest" "path = render_path (r, be @ rest @ [name @ ext])"
    "clean_list r (be @ rest @ [name @ ext])" using safePath_parts [OF assms] by blast
  then have "clean_parts (path_Dir path) = (r, be @ rest)" using path_Dir_render [of r "be @ rest"] by simp
  with p have dir: "inside (dl_cacheDir d) (path_Dir path)" by (auto simp: inside_def)
  have "CHR ''/'' \<notin> List.set (''.'' @ name @ ext @ ''.tmp'')"
    using safeName_chars [OF assms(4)] icon_ext_no_slash [OF assms(5)] by simp
  moreover have "length (''.'' @ name @ ext @ ''.tmp'') \<noteq> length ''..''" by simp
  then have "''.'' @ name @ ext @ ''.tmp'' \<noteq> ''..''" by metis
  ultimately have "''..'' \<notin> List.set (split_str ''/'' (''.'' @ name @ ext @ ''.tmp''))" by (simp add: split_str_absent)
  moreover have "path_Dir path \<noteq> []" by (simp add: path_Dir_def)
  ultimately show ?thesis using inside_trans [OF dir inside_Join] by blast
qed

section \<open>Properties\<close>

definition icons_wf :: "string \<Rightarrow> Assets \<Rightarrow> bool" where
  "icons_wf dir a \<longleftrightarrow> dir \<noteq> [] \<and> as_iconsDir a = dir \<and> dl_cacheDir (as_downloader a) = dir \<and> dl_manifest (as_downloader a) = ParseIconManifest"

lemma NewAssets_wf: "icons_wf (as_iconsDir (NewAssets iconsDir dataDir defaultSet download)) (NewAssets iconsDir dataDir defaultSet download)"
proof -
  have "path_Join [dataDir, ''icons''] \<noteq> []" by (simp add: path_Join_def)
  then show ?thesis by (simp add: icons_wf_def NewAssets_def NewIconDownloader_def Let_def)
qed

lemma writeAtomically_ok:
  assumes "writeAtomically env d iset name ext data fs = (r, fs', io)" "dl_cacheDir d \<noteq> []" "''..'' \<notin> List.set (split_str ''/'' iset)" "safeName name"
    "ext \<in> {iconExtSVG, iconExtPNG, iconExtWebP}"
  shows "list_all (io_ok (dl_cacheDir d)) io"
proof (cases "safePath d iset name ext")
  case (Inr path)
  have "''..'' \<notin> List.set (split_str ''/'' name)" using safeName_chars [OF assms(4)] by (auto simp: split_str_absent)
  then have "inside (dl_cacheDir d) path" using safePath_inside [OF Inr assms(2,3)] icon_file_no_dotdot assms(5) by blast
  then show ?thesis using assms(1) tmp_inside [OF Inr assms(2-5)] Inr
    by (auto simp: writeAtomically_def Let_def io_ok_def split: option.splits)
qed (use assms(1) in \<open>auto simp: writeAtomically_def\<close>)

lemma Fetch_ok:
  assumes "Fetch env iset name ext d fs = (r, d', fs', io)" "dl_cacheDir d \<noteq> []" "dl_manifest d = ParseIconManifest"
    "ext \<in> {iconExtSVG, iconExtPNG, iconExtWebP}"
  shows "list_all (io_ok (dl_cacheDir d)) io \<and> dl_cacheDir d' = dl_cacheDir d \<and> dl_manifest d' = dl_manifest d"
proof (cases "dl_enabled d \<and> validateName d iset name = None")
  case False
  then show ?thesis using assms(1) by (auto simp: Fetch_def split: option.splits if_splits)
next
  case True
  then have m: "gm_get ParseIconManifest iset \<noteq> None" and safe: "safeName name"
    using assms(3) by (auto simp: validateName_def split: if_splits)
  have dd: "''..'' \<notin> List.set (split_str ''/'' iset)" "''..'' \<notin> List.set (split_str ''/'' name)"
    using manifest_no_dotdot [OF m] safeName_chars [OF safe] by (auto simp: split_str_absent)
  obtain g gio where g: "icon_Get d fs iset name ext = (g, gio)" by fastforce
  have gok: "list_all (io_ok (dl_cacheDir d)) gio" using icon_Get_ok [OF assms(2) dd assms(4), of fs] g by simp
  have url: "io_ok (dl_cacheDir d) (GetURL (buildURL d iset name))"
    using m safe assms(3) by (auto simp: io_ok_def buildURL_def NewIconDownloader_def Let_def)
  have wok: "list_all (io_ok (dl_cacheDir d)) (snd (snd (writeAtomically env d iset name ext data fs)))" for data
    using writeAtomically_ok [OF _ assms(2) dd(1) safe assms(4), of env data fs]
    by (cases "writeAtomically env d iset name ext data fs" rule: prod_cases3) simp
  show ?thesis using assms(1) True gok url wok
    by (auto simp: Fetch_def g Let_def split: sum.splits option.splits if_splits prod.splits) (metis snd_conv)+
qed

lemma serve_ok:
  assumes "serveIconFromCacheOrDownload env iset name ext rootLevel a fs = (r, a', fs', io)" "icons_wf dir a"
    "ext \<in> {iconExtSVG, iconExtPNG, iconExtWebP}" "''..'' \<notin> List.set (split_str ''/'' iset)" "''..'' \<notin> List.set (split_str ''/'' name)"
  shows "list_all (io_ok dir) io \<and> icons_wf dir a'"
proof -
  let ?d = "as_downloader a" and ?set = "if rootLevel then as_defaultSet a else iset"
  have wf: "dir \<noteq> []" "as_iconsDir a = dir" "dl_cacheDir ?d = dir" "dl_manifest ?d = ParseIconManifest" using assms(2) by (auto simp: icons_wf_def)
  have root: "io_ok dir (ReadIcon (path_Join [dir, name @ ext]))"
    using inside_Join [OF wf(1) icon_file_no_dotdot [OF assms(5,3)]] by (simp add: io_ok_def)
  show ?thesis
  proof (cases "gm_get ParseIconManifest ?set = None \<and> ?set \<noteq> []")
    case True
    then show ?thesis using assms(1,2) wf root by (auto simp: serveIconFromCacheOrDownload_def Let_def split: option.splits if_splits)
  next
    case False
    then have dd: "''..'' \<notin> List.set (split_str ''/'' ?set)" using manifest_no_dotdot by (auto simp: split_str_absent)
    obtain g gio where g: "icon_Get ?d fs ?set name ext = (g, gio)" by fastforce
    have gok: "list_all (io_ok dir) gio" using icon_Get_ok [of ?d ?set name ext fs] g wf dd assms(3,5) by simp
    obtain f d' fs1 fio where f: "Fetch env ?set name ext ?d fs = (f, d', fs1, fio)" by (rule prod_cases4)
    have fok: "list_all (io_ok dir) fio \<and> icons_wf dir (a\<lparr>as_downloader := d'\<rparr>)"
      using Fetch_ok [OF f _ wf(4) assms(3)] wf by (auto simp: icons_wf_def)
    show ?thesis using assms(1,2) wf root False gok fok
      unfolding serveIconFromCacheOrDownload_def Let_def wf g f by (auto split: option.splits if_splits sum.splits)
  qed
qed

lemma IconsHandler_ok:
  assumes "IconsHandler env meth urlPath a fs = (r, a', fs', io)" "icons_wf dir a"
  shows "list_all (io_ok dir) io \<and> icons_wf dir a'"
proof -
  let ?path = "trim_prefix1 ''/'' (trim_prefix1 ''/icons/'' urlPath)"
  obtain ext namePath where e: "iconExtFromPath ?path = (ext, namePath)" by fastforce
  obtain iset name rootLevel where n: "(case splitN2 ''/'' namePath of [iset, iconName] \<Rightarrow> (iset, iconName, False) | parts \<Rightarrow> ([], hd parts, True)) = (iset, name, rootLevel)"
    by (rule prod_cases3)
  obtain l a1 fs1 sio where s: "serveIconFromCacheOrDownload env iset name ext rootLevel a fs = (l, a1, fs1, sio)" by (rule prod_cases4)
  show ?thesis
  proof (cases "contains_str ?path ''..''")
    case True
    then show ?thesis using assms by (auto simp: IconsHandler_def Let_def split: if_splits)
  next
    case False
    from iconExtFromPath_parts [OF e] obtain b where ext: "ext \<in> {iconExtSVG, iconExtPNG, iconExtWebP}" and p: "?path = [] @ namePath @ b" by auto
    have no: "\<not> contains_str namePath ''..''" using contains_str_part [of "[]" namePath b] False p by simp
    have "\<not> contains_str iset ''..'' \<and> \<not> contains_str name ''..''"
    proof -
      consider (two) x y where "splitN2 ''/'' namePath = [x, y]" | (one) "splitN2 ''/'' namePath = [namePath]" using splitN2_cases by blast
      then show ?thesis
      proof cases
        case two
        then have np: "namePath = [] @ x @ (CHR ''/'' # y)" "namePath = (x @ ''/'') @ y @ []" using splitN2_parts(1) by auto
        have "iset = x" "name = y" using n two by auto
        then show ?thesis using contains_str_part no np by metis
      next
        case one
        then have "iset = []" "name = namePath" using n by auto
        then show ?thesis using no by (simp add: contains_str_def)
      qed
    qed
    then have dd: "''..'' \<notin> List.set (split_str ''/'' iset)" "''..'' \<notin> List.set (split_str ''/'' name)" using no_dotdot_elem by blast+
    from serve_ok [OF s assms(2) ext dd] show ?thesis
      using assms False e n s by (auto simp: IconsHandler_def Let_def split: if_splits icon_lookup.splits)
  qed
qed

text \<open>A run of requests, each with what the network and the disk answer.\<close>

fun icons_run :: "(icon_env \<times> string \<times> string) list \<Rightarrow> Assets \<Rightarrow> disk \<Rightarrow> icon_io list" where
  "icons_run [] a fs = []"
| "icons_run ((env, meth, urlPath) # rs) a fs =
     (case IconsHandler env meth urlPath a fs of (_, a', fs', io) \<Rightarrow> io @ icons_run rs a' fs')"

text \<open>
  C24: A request for an icon stays in the directory of the icons. For any sequence of requests with any methods and paths, over any disk and any
  settings, every file that is read, written, renamed or removed lies in this directory or below it, and every request that is sent out
  asks for an icon with a safe name in a set of the manifest.
\<close>
theorem icons_confined:
  "let a = NewAssets iconsDir dataDir defaultSet download in list_all (io_ok (as_iconsDir a)) (icons_run requests a fs)"
proof -
  have "list_all (io_ok dir) (icons_run requests a fs)" if "icons_wf dir a" for dir a
    using that
  proof (induction requests arbitrary: a fs)
    case (Cons x rs)
    obtain env meth urlPath where x: "x = (env, meth, urlPath)" by (cases x)
    obtain r a' fs' io where h: "IconsHandler env meth urlPath a fs = (r, a', fs', io)" by (rule prod_cases4)
    from IconsHandler_ok [OF h Cons.prems] Cons.IH show ?case by (simp add: x h)
  qed simp
  then show ?thesis using NewAssets_wf by (simp add: Let_def)
qed

text \<open>The name of an icon that a target gives is not checked: with the set \<^verbatim>\<open>..\<close> the page reads a file beside the directory.\<close>

lemma IconSVG_escapes:
  "IconSVG_reads (\<lambda>_. False) (NewAssets ''/data/icons'' ''/data'' ''sh'' True) ''../secret'' = Some ''/data/secret.svg''"
  by code_simp

text \<open>An archive with dots in the names of its entries is unpacked outside of the directory of the set.\<close>

lemma tarball_escapes:
  "entry_target ''/data/icons/sh'' ''icons-1'' ''svg'' (True, ''icons-1/svg/../../evil.svg'', ''x'') = Some ''/data/evil.svg''"
  by code_simp

text \<open>One icon that was fetched on demand makes the download of its set believe that it has the set.\<close>

lemma one_icon_is_a_set:
  "downloadSet env sha untar ''sh'' cfg ''/data/icons'' [(''/data/icons/sh/nginx.svg'', ''<svg/>'')] = (SetCached 1, [(''/data/icons/sh/nginx.svg'', ''<svg/>'')])"
proof -
  have "countSVGFiles (path_Join [''/data/icons'', ''sh'']) [(''/data/icons/sh/nginx.svg'', ''<svg/>'')] = 1" by code_simp
  then show ?thesis by (simp add: downloadSet_def)
qed

end
