(* ===== verification/Metrics.thy ===== *)
theory Metrics
  imports Go_Prelude
begin

text \<open>
  \<^verbatim>\<open>src/internal/core/metrics/metrics.go\<close>: the gauges and counters of the proxies, and the middleware that counts requests. A vector
  of metrics is a map from labels to the addresses of its series: a series that was looked up can still be written after it was
  deleted from the vector. The calls on a vector are atomic, as Prometheus documents. Registration and exposition are not modelled.
\<close>

section \<open>Vectors\<close>

record 'l vec =
  vc_series :: "('l, nat) gomap"
  vc_values :: "int list"

definition empty_vec :: "'l vec" where "empty_vec = \<lparr>vc_series = [], vc_values = []\<rparr>"

text \<open>\<^verbatim>\<open>With\<close>: the series of the labels, made when it is missing.\<close>

definition vec_With :: "'l \<Rightarrow> 'l vec \<Rightarrow> nat \<times> 'l vec" where
  "vec_With l v =
     (case gm_get (vc_series v) l of
        Some a \<Rightarrow> (a, v)
      | None \<Rightarrow> (length (vc_values v), \<lparr>vc_series = vc_series v @ [(l, length (vc_values v))], vc_values = vc_values v @ [0]\<rparr>))"

definition series_Add :: "int \<Rightarrow> nat \<Rightarrow> 'l vec \<Rightarrow> 'l vec" where
  "series_Add n a v = v\<lparr>vc_values := (vc_values v)[a := vc_values v ! a + n]\<rparr>"

definition series_Set :: "int \<Rightarrow> nat \<Rightarrow> 'l vec \<Rightarrow> 'l vec" where
  "series_Set n a v = v\<lparr>vc_values := (vc_values v)[a := n]\<rparr>"

definition vec_Set :: "'l \<Rightarrow> int \<Rightarrow> 'l vec \<Rightarrow> 'l vec" where
  "vec_Set l n v = (case vec_With l v of (a, v') \<Rightarrow> series_Set n a v')"

text \<open>\<^verbatim>\<open>DeletePartialMatch\<close>.\<close>

definition vec_Delete :: "('l \<Rightarrow> bool) \<Rightarrow> 'l vec \<Rightarrow> 'l vec" where
  "vec_Delete P v = v\<lparr>vc_series := filter (\<lambda>(l, _). \<not> P l) (vc_series v)\<rparr>"

text \<open>What a scrape reads.\<close>

definition vec_Collect :: "'l vec \<Rightarrow> ('l \<times> int) list" where
  "vec_Collect v = map (\<lambda>(l, a). (l, vc_values v ! a)) (vc_series v)"

section \<open>The metrics\<close>

record Metrics =
  mt_ProxiesTotal :: int
  mt_RequestsTotal :: "(string \<times> string \<times> string) vec"
  mt_RequestsInFlight :: "(string \<times> string) vec"
  mt_ProxyStatus :: "(string \<times> string) vec"
  mt_ProxyUp :: "string vec"
  mt_ConnectionsActive :: "(string \<times> string) vec"
  mt_UDPClientsActive :: "(string \<times> string) vec"
  mt_CertExpirySeconds :: "string vec"

definition NewMetrics :: Metrics where
  "NewMetrics =
     \<lparr>mt_ProxiesTotal = 0, mt_RequestsTotal = empty_vec, mt_RequestsInFlight = empty_vec, mt_ProxyStatus = empty_vec, mt_ProxyUp = empty_vec,
      mt_ConnectionsActive = empty_vec, mt_UDPClientsActive = empty_vec, mt_CertExpirySeconds = empty_vec\<rparr>"

definition SetProxyCount :: "int \<Rightarrow> Metrics \<Rightarrow> Metrics" where
  "SetProxyCount count m = m\<lparr>mt_ProxiesTotal := count\<rparr>"

text \<open>\<^verbatim>\<open>SetProxyStatus\<close> and \<^verbatim>\<open>DeleteProxyMetrics\<close> change the status under \<^verbatim>\<open>statusMu\<close>.\<close>

definition SetProxyStatus :: "string \<Rightarrow> string \<Rightarrow> Metrics \<Rightarrow> Metrics" where
  "SetProxyStatus proxyName status m =
     m\<lparr>mt_ProxyStatus := vec_Set (proxyName, status) 1 (vec_Delete (\<lambda>(p, _). p = proxyName) (mt_ProxyStatus m))\<rparr>"

definition SetProxyUp :: "string \<Rightarrow> int \<Rightarrow> Metrics \<Rightarrow> Metrics" where
  "SetProxyUp proxyName up m = m\<lparr>mt_ProxyUp := vec_Set proxyName up (mt_ProxyUp m)\<rparr>"

definition SetConnectionsActive :: "string \<Rightarrow> string \<Rightarrow> int \<Rightarrow> Metrics \<Rightarrow> Metrics" where
  "SetConnectionsActive proxyName portName count m = m\<lparr>mt_ConnectionsActive := vec_Set (proxyName, portName) count (mt_ConnectionsActive m)\<rparr>"

definition SetUDPClientsActive :: "string \<Rightarrow> string \<Rightarrow> int \<Rightarrow> Metrics \<Rightarrow> Metrics" where
  "SetUDPClientsActive proxyName portName count m = m\<lparr>mt_UDPClientsActive := vec_Set (proxyName, portName) count (mt_UDPClientsActive m)\<rparr>"

definition SetCertExpirySeconds :: "string \<Rightarrow> int \<Rightarrow> Metrics \<Rightarrow> Metrics" where
  "SetCertExpirySeconds proxyName seconds m = m\<lparr>mt_CertExpirySeconds := vec_Set proxyName seconds (mt_CertExpirySeconds m)\<rparr>"

definition metricCollectBufferSize :: nat where "metricCollectBufferSize = 64"

text \<open>
  \<^verbatim>\<open>Collect\<close> sends every series of the vector to a channel that nobody reads before it returned: with more series than the
  channel holds the call does not return, which is \<open>None\<close>.
\<close>

definition zeroPortGaugeByProxy :: "string \<Rightarrow> (string \<times> string) vec \<Rightarrow> (string \<times> string) vec option" where
  "zeroPortGaugeByProxy proxyName g =
     (let collected = vec_Collect g
      in if length collected > metricCollectBufferSize then None
         else Some (fold (\<lambda>((proxy, port), _) g. if proxy \<noteq> proxyName \<or> port = [] then g else vec_Set (proxyName, port) 0 g) collected g))"

definition ResetProxyPortMetrics :: "string \<Rightarrow> Metrics \<Rightarrow> Metrics option" where
  "ResetProxyPortMetrics proxyName m =
     (case zeroPortGaugeByProxy proxyName (mt_ConnectionsActive m) of
        None \<Rightarrow> None
      | Some g \<Rightarrow>
          (case zeroPortGaugeByProxy proxyName (mt_UDPClientsActive m) of
             None \<Rightarrow> None
           | Some g' \<Rightarrow> Some (m\<lparr>mt_ConnectionsActive := g, mt_UDPClientsActive := g'\<rparr>)))"

definition DeleteProxyMetrics :: "string \<Rightarrow> Metrics \<Rightarrow> Metrics" where
  "DeleteProxyMetrics proxyName m =
     m\<lparr>mt_RequestsTotal := vec_Delete (\<lambda>(p, _). p = proxyName) (mt_RequestsTotal m),
       mt_RequestsInFlight := vec_Delete (\<lambda>(p, _). p = proxyName) (mt_RequestsInFlight m),
       mt_ProxyUp := vec_Delete (\<lambda>p. p = proxyName) (mt_ProxyUp m),
       mt_ConnectionsActive := vec_Delete (\<lambda>(p, _). p = proxyName) (mt_ConnectionsActive m),
       mt_UDPClientsActive := vec_Delete (\<lambda>(p, _). p = proxyName) (mt_UDPClientsActive m),
       mt_CertExpirySeconds := vec_Delete (\<lambda>p. p = proxyName) (mt_CertExpirySeconds m),
       mt_ProxyStatus := vec_Delete (\<lambda>(p, _). p = proxyName) (mt_ProxyStatus m)\<rparr>"

section \<open>The middleware\<close>

record statusRecorder =
  sr_statusCode :: int
  sr_sent :: "int list"

definition newRecorder :: statusRecorder where "newRecorder = \<lparr>sr_statusCode = 200, sr_sent = []\<rparr>"

definition rec_WriteHeader :: "int \<Rightarrow> statusRecorder \<Rightarrow> statusRecorder" where
  "rec_WriteHeader code r = r\<lparr>sr_statusCode := code, sr_sent := sr_sent r @ [code]\<rparr>"

text \<open>A request between the calls on the vectors: the series it counted itself in, then the one it will leave.\<close>

datatype req_phase = RqEnter | RqFound nat | RqCounted | RqServing nat | RqLeft

record request_run =
  rr_proxy :: string
  rr_port :: string
  rr_phase :: req_phase

record metrics_world =
  mw_metrics :: Metrics
  mw_requests :: "request_run list"

definition labels_of :: "request_run \<Rightarrow> string \<times> string" where
  "labels_of r = (rr_proxy r, rr_port r)"

definition set_request :: "nat \<Rightarrow> req_phase \<Rightarrow> (string \<times> string) vec \<Rightarrow> metrics_world \<Rightarrow> metrics_world" where
  "set_request i ph v w =
     w\<lparr>mw_metrics := (mw_metrics w)\<lparr>mt_RequestsInFlight := v\<rparr>, mw_requests := (mw_requests w)[i := (mw_requests w ! i)\<lparr>rr_phase := ph\<rparr>]\<rparr>"

abbreviation in_flight :: "metrics_world \<Rightarrow> (string \<times> string) vec" where
  "in_flight w \<equiv> mt_RequestsInFlight (mw_metrics w)"

inductive metrics_step :: "metrics_world \<Rightarrow> metrics_world \<Rightarrow> bool" where
  arrive: "metrics_step w (w\<lparr>mw_requests := mw_requests w @ [\<lparr>rr_proxy = p, rr_port = q, rr_phase = RqEnter\<rparr>]\<rparr>)"
| find: "i < length (mw_requests w) \<Longrightarrow> rr_phase (mw_requests w ! i) = RqEnter \<Longrightarrow> vec_With (labels_of (mw_requests w ! i)) (in_flight w) = (a, v) \<Longrightarrow>
    metrics_step w (set_request i (RqFound a) v w)"
| inc: "i < length (mw_requests w) \<Longrightarrow> rr_phase (mw_requests w ! i) = RqFound a \<Longrightarrow>
    metrics_step w (set_request i RqCounted (series_Add 1 a (in_flight w)) w)"
| defer_find: "i < length (mw_requests w) \<Longrightarrow> rr_phase (mw_requests w ! i) = RqCounted \<Longrightarrow> vec_With (labels_of (mw_requests w ! i)) (in_flight w) = (a, v) \<Longrightarrow>
    metrics_step w (set_request i (RqServing a) v w)"
| leave: "i < length (mw_requests w) \<Longrightarrow> rr_phase (mw_requests w ! i) = RqServing a \<Longrightarrow>
    metrics_step w (set_request i RqLeft (series_Add (- 1) a (in_flight w)) w)"
| status: "metrics_step w (w\<lparr>mw_metrics := SetProxyStatus p s (mw_metrics w)\<rparr>)"

text \<open>The same, with proxies that are removed while requests run.\<close>

inductive metrics_step_del :: "metrics_world \<Rightarrow> metrics_world \<Rightarrow> bool" where
  step: "metrics_step w w' \<Longrightarrow> metrics_step_del w w'"
| delete: "metrics_step_del w (w\<lparr>mw_metrics := DeleteProxyMetrics p (mw_metrics w)\<rparr>)"

definition metrics_init :: "metrics_world \<Rightarrow> bool" where
  "metrics_init w \<longleftrightarrow> w = \<lparr>mw_metrics = NewMetrics, mw_requests = []\<rparr>"

inductive_cases metrics_stepE: "metrics_step w w'"

section \<open>Vectors as maps\<close>

definition vec_ok :: "'l vec \<Rightarrow> bool" where
  "vec_ok v \<longleftrightarrow> gm_wf (vc_series v) \<and> distinct (map snd (vc_series v)) \<and> (\<forall>(l, a) \<in> set (vc_series v). a < length (vc_values v))"

text \<open>The value of a label, 0 when it has no series.\<close>

definition vec_val :: "'l vec \<Rightarrow> 'l \<Rightarrow> int option" where
  "vec_val v l = map_option ((!) (vc_values v)) (gm_get (vc_series v) l)"

lemma vec_ok_empty [simp]: "vec_ok empty_vec"
  by (simp add: vec_ok_def empty_vec_def)

lemma vec_ok_bound: "vec_ok v \<Longrightarrow> gm_get (vc_series v) l = Some a \<Longrightarrow> a < length (vc_values v)"
  by (auto simp: vec_ok_def dest: map_of_SomeD)

lemma vec_ok_inj: "vec_ok v \<Longrightarrow> gm_get (vc_series v) l = Some a \<Longrightarrow> gm_get (vc_series v) l' = Some a \<Longrightarrow> l = l'"
  unfolding vec_ok_def by (metis distinct_map inj_onD map_of_SomeD prod.inject snd_conv)

lemma vec_With_ok:
  assumes "vec_ok v" "vec_With l v = (a, v')"
  shows "vec_ok v' \<and> gm_get (vc_series v') l = Some a \<and> vec_val v' l' = (if l' = l \<and> vec_val v l = None then Some 0 else vec_val v l')
    \<and> a < length (vc_values v')"
proof (cases "gm_get (vc_series v) l")
  case (Some b)
  then show ?thesis using assms vec_ok_bound by (auto simp: vec_With_def vec_val_def)
next
  case None
  have lt: "\<forall>(k, b) \<in> set (vc_series v). b < length (vc_values v)" using assms(1) by (simp add: vec_ok_def)
  have v': "v' = \<lparr>vc_series = vc_series v @ [(l, length (vc_values v))], vc_values = vc_values v @ [0]\<rparr>" "a = length (vc_values v)"
    using None assms(2) by (auto simp: vec_With_def)
  have "l \<notin> set (keys (vc_series v))" using None by (simp add: gm_get_None_iff)
  then have ok: "vec_ok v'" using assms(1) lt unfolding v' vec_ok_def gm_wf_def by fastforce
  have "vec_val v' l' = (if l' = l then Some 0 else vec_val v l')"
    using None lt by (auto simp: v' vec_val_def map_add_def nth_append split: option.splits dest: map_of_SomeD)
  then show ?thesis using ok None by (simp add: v' vec_val_def map_add_def)
qed

lemma series_Set_ok:
  assumes "vec_ok v" "gm_get (vc_series v) l = Some a"
  shows "vec_ok (series_Set n a v) \<and> vec_val (series_Set n a v) l' = (if l' = l then Some n else vec_val v l')"
proof -
  have "vec_ok (series_Set n a v)" using assms(1) by (simp add: vec_ok_def series_Set_def)
  moreover have "vec_val (series_Set n a v) l' = (if l' = l then Some n else vec_val v l')"
  proof (cases "gm_get (vc_series v) l'")
    case (Some b)
    then have "b = a \<longleftrightarrow> l' = l" using vec_ok_inj [OF assms(1)] assms(2) by auto
    then show ?thesis using Some vec_ok_bound [OF assms] assms(2) by (auto simp: series_Set_def vec_val_def)
  qed (use assms(2) in \<open>auto simp: series_Set_def vec_val_def\<close>)
  ultimately show ?thesis ..
qed

lemma vec_Set_ok: "vec_ok v \<Longrightarrow> vec_ok (vec_Set l n v) \<and> vec_val (vec_Set l n v) l' = (if l' = l then Some n else vec_val v l')"
proof -
  assume ok: "vec_ok v"
  obtain a v' where w: "vec_With l v = (a, v')" by fastforce
  from vec_With_ok [OF ok w] have v': "vec_ok v'" "gm_get (vc_series v') l = Some a" "l' \<noteq> l \<Longrightarrow> vec_val v' l' = vec_val v l'" by auto
  from series_Set_ok [OF v'(1,2), of n l'] v'(3) show ?thesis by (auto simp: vec_Set_def w)
qed

lemma vec_Delete_ok: "vec_ok v \<Longrightarrow> vec_ok (vec_Delete P v) \<and> vec_val (vec_Delete P v) l = (if P l then None else vec_val v l)"
proof -
  assume ok: "vec_ok v"
  have "map_of (filter (\<lambda>(l, _). \<not> P l) m) l = (if P l then None else map_of m l)" for m :: "('a \<times> nat) list"
    by (induction m) auto
  moreover have "gm_wf m \<Longrightarrow> gm_wf (filter Q m)" "distinct (map snd m) \<Longrightarrow> distinct (map snd (filter Q m))" for m :: "('a \<times> nat) list" and Q
    by (auto simp: gm_wf_def distinct_map_filter)
  ultimately show ?thesis using ok by (simp add: vec_ok_def vec_Delete_def vec_val_def)
qed

section \<open>Properties\<close>

text \<open>The operations of the proxy manager on the status.\<close>

datatype status_op = OpStatus string string | OpDelete string

fun status_run :: "status_op \<Rightarrow> Metrics \<Rightarrow> Metrics" where
  "status_run (OpStatus p s) m = SetProxyStatus p s m"
| "status_run (OpDelete p) m = DeleteProxyMetrics p m"

text \<open>The status that a proxy was given last, unless it was deleted since.\<close>

fun status_spec :: "status_op \<Rightarrow> (string \<Rightarrow> string option) \<Rightarrow> string \<Rightarrow> string option" where
  "status_spec (OpStatus p s) f = f(p := Some s)"
| "status_spec (OpDelete p) f = f(p := None)"

lemma status_run_step:
  assumes "vec_ok (mt_ProxyStatus m)" "\<And>p s. vec_val (mt_ProxyStatus m) (p, s) = (if f p = Some s then Some 1 else None)"
  shows "vec_ok (mt_ProxyStatus (status_run x m))"
    "vec_val (mt_ProxyStatus (status_run x m)) (p, s) = (if status_spec x f p = Some s then Some 1 else None)"
proof -
  have d: "vec_ok (vec_Delete (\<lambda>(p, _). p = q) (mt_ProxyStatus m))"
    "vec_val (vec_Delete (\<lambda>(p, _). p = q) (mt_ProxyStatus m)) l = (if fst l = q then None else vec_val (mt_ProxyStatus m) l)" for q l
    using vec_Delete_ok [OF assms(1), of "\<lambda>(p, _). p = q" l] by (auto split: prod.splits)
  show "vec_ok (mt_ProxyStatus (status_run x m))"
    by (cases x) (simp_all add: SetProxyStatus_def DeleteProxyMetrics_def d vec_Set_ok)
  show "vec_val (mt_ProxyStatus (status_run x m)) (p, s) = (if status_spec x f p = Some s then Some 1 else None)"
    using assms(2) by (cases x) (auto simp: SetProxyStatus_def DeleteProxyMetrics_def d vec_Set_ok)
qed

text \<open>
  A scrape shows one status for each proxy. After any sequence of changes of status and removals, whatever the proxies, the series of
  a proxy and a status is there exactly when this is the last status the proxy was given since it was removed, and its value is 1.
\<close>
theorem scraped_status:
  "vec_val (mt_ProxyStatus (fold status_run ops NewMetrics)) (p, s) = (if fold status_spec ops (\<lambda>_. None) p = Some s then Some 1 else None)"
proof -
  have "vec_ok (mt_ProxyStatus m) \<Longrightarrow> (\<And>p s. vec_val (mt_ProxyStatus m) (p, s) = (if f p = Some s then Some 1 else None)) \<Longrightarrow>
      vec_val (mt_ProxyStatus (fold status_run ops m)) (p, s) = (if fold status_spec ops f p = Some s then Some 1 else None)" for m f
  proof (induction ops arbitrary: m f)
    case (Cons x ops)
    show ?case using Cons.IH [OF status_run_step(1) [OF Cons.prems] status_run_step(2) [OF Cons.prems]] by simp
  qed simp
  moreover have "vec_val (mt_ProxyStatus NewMetrics) l = None" for l by (simp add: NewMetrics_def empty_vec_def vec_val_def)
  ultimately show ?thesis by (simp add: NewMetrics_def)
qed

section \<open>Requests in flight\<close>

definition counted :: "req_phase \<Rightarrow> bool" where
  "counted ph \<longleftrightarrow> (case ph of RqCounted \<Rightarrow> True | RqServing _ \<Rightarrow> True | _ \<Rightarrow> False)"

definition running :: "string \<times> string \<Rightarrow> metrics_world \<Rightarrow> nat" where
  "running l w = length (filter (\<lambda>r. labels_of r = l \<and> counted (rr_phase r)) (mw_requests w))"

fun phase_series :: "req_phase \<Rightarrow> nat option" where
  "phase_series (RqFound a) = Some a"
| "phase_series (RqServing a) = Some a"
| "phase_series _ = None"

definition metrics_inv :: "metrics_world \<Rightarrow> bool" where
  "metrics_inv w \<longleftrightarrow> vec_ok (in_flight w)
     \<and> (\<forall>r \<in> set (mw_requests w). \<forall>a. phase_series (rr_phase r) = Some a \<longrightarrow> gm_get (vc_series (in_flight w)) (labels_of r) = Some a)
     \<and> (\<forall>l. (case vec_val (in_flight w) l of None \<Rightarrow> 0 | Some n \<Rightarrow> n) = int (running l w))"

lemma vec_val_get: "vec_val v l = None \<longleftrightarrow> gm_get (vc_series v) l = None"
  by (simp add: vec_val_def)

lemma series_Add_ok:
  assumes "vec_ok v" "gm_get (vc_series v) l = Some a"
  shows "vec_ok (series_Add n a v) \<and> vc_series (series_Add n a v) = vc_series v
    \<and> vec_val (series_Add n a v) l' = (if l' = l then map_option (\<lambda>x. x + n) (vec_val v l) else vec_val v l')"
proof -
  have "series_Add n a v = series_Set (vc_values v ! a + n) a v" by (simp add: series_Add_def series_Set_def)
  then show ?thesis using series_Set_ok [OF assms, of "vc_values v ! a + n" l'] assms(2) by (auto simp: vec_val_def series_Set_def)
qed

lemma vec_With_keeps: "vec_With l v = (a, v') \<Longrightarrow> gm_get (vc_series v) k = Some b \<Longrightarrow> gm_get (vc_series v') k = Some b"
  by (auto simp: vec_With_def map_add_def split: option.splits)

text \<open>A request that moves to another phase changes the count of its own labels only.\<close>

lemma length_filter_update:
  "i < length xs \<Longrightarrow> length (filter P (xs[i := y])) + (if P (xs ! i) then 1 else 0) = length (filter P xs) + (if P y then 1 else 0)"
proof (induction xs arbitrary: i)
  case (Cons x xs)
  then show ?case by (cases i) fastforce+
qed simp

lemma running_set:
  assumes "i < length (mw_requests w)"
  shows "running l (set_request i ph v w) + (if labels_of (mw_requests w ! i) = l \<and> counted (rr_phase (mw_requests w ! i)) then 1 else 0)
    = running l w + (if labels_of (mw_requests w ! i) = l \<and> counted ph then 1 else 0)"
  using length_filter_update [OF assms, of "\<lambda>r. labels_of r = l \<and> counted (rr_phase r)"] assms
  by (simp add: running_def set_request_def labels_of_def)

definition gauge :: "string \<times> string \<Rightarrow> metrics_world \<Rightarrow> int" where
  "gauge l w = (case vec_val (in_flight w) l of None \<Rightarrow> 0 | Some n \<Rightarrow> n)"

lemma metrics_inv_gauge: "metrics_inv w \<Longrightarrow> gauge l w = int (running l w)"
  unfolding metrics_inv_def gauge_def by blast

lemma metrics_inv_set:
  assumes inv: "metrics_inv w" and i: "i < length (mw_requests w)" and ok: "vec_ok v"
    and keep: "\<And>k b. gm_get (vc_series (in_flight w)) k = Some b \<Longrightarrow> gm_get (vc_series v) k = Some b"
    and ser: "\<And>a. phase_series ph = Some a \<Longrightarrow> gm_get (vc_series v) (labels_of (mw_requests w ! i)) = Some a"
    and val: "\<And>l. (case vec_val v l of None \<Rightarrow> 0 | Some n \<Rightarrow> n) = gauge l w
      + (if l = labels_of (mw_requests w ! i) then (if counted ph then 1 else 0) - (if counted (rr_phase (mw_requests w ! i)) then 1 else 0) else 0)"
  shows "metrics_inv (set_request i ph v w)"
proof -
  have fl: "in_flight (set_request i ph v w) = v" by (simp add: set_request_def)
  have "\<forall>r \<in> set (mw_requests (set_request i ph v w)). \<forall>a. phase_series (rr_phase r) = Some a \<longrightarrow> gm_get (vc_series v) (labels_of r) = Some a"
  proof (intro ballI allI impI)
    fix r a assume r: "r \<in> set (mw_requests (set_request i ph v w))" "phase_series (rr_phase r) = Some a"
    then consider "r = (mw_requests w ! i)\<lparr>rr_phase := ph\<rparr>" | "r \<in> set (mw_requests w)"
      using set_update_subset_insert by (fastforce simp: set_request_def)
    then show "gm_get (vc_series v) (labels_of r) = Some a"
    proof cases
      case 1
      then show ?thesis using ser r(2) by (simp add: labels_of_def)
    next
      case 2
      then show ?thesis using keep r(2) inv by (auto simp: metrics_inv_def)
    qed
  qed
  moreover have "(case vec_val v l of None \<Rightarrow> 0 | Some n \<Rightarrow> n) = int (running l (set_request i ph v w))" for l
    using val [of l] running_set [OF i, of l ph v] metrics_inv_gauge [OF inv, of l] by (auto split: if_splits)
  ultimately show ?thesis using ok by (simp add: metrics_inv_def fl)
qed

lemma metrics_inv_step:
  assumes inv: "metrics_inv w" and step: "metrics_step w w'"
  shows "metrics_inv w'"
  using step
proof cases
  case (arrive p q)
  then show ?thesis using inv by (auto simp: metrics_inv_def running_def counted_def)
next
  case (find i a v)
  from inv have ok: "vec_ok (in_flight w)" by (simp add: metrics_inv_def)
  show ?thesis unfolding find(1)
    using vec_With_ok [OF ok find(4)] vec_With_keeps [OF find(4)] find(3)
    by (intro metrics_inv_set [OF inv find(2)]) (auto simp: counted_def gauge_def split: option.splits)
next
  case (inc i a)
  from inv have ok: "vec_ok (in_flight w)" by (simp add: metrics_inv_def)
  have a: "gm_get (vc_series (in_flight w)) (labels_of (mw_requests w ! i)) = Some a" using inv inc(2,3) nth_mem by (fastforce simp: metrics_inv_def)
  then obtain n where "vec_val (in_flight w) (labels_of (mw_requests w ! i)) = Some n" by (simp add: vec_val_def)
  then show ?thesis unfolding inc(1)
    using series_Add_ok [OF ok a] inc(3) by (intro metrics_inv_set [OF inv inc(2)]) (auto simp: counted_def gauge_def)
next
  case (defer_find i a v)
  from inv have ok: "vec_ok (in_flight w)" by (simp add: metrics_inv_def)
  show ?thesis unfolding defer_find(1)
    using vec_With_ok [OF ok defer_find(4)] vec_With_keeps [OF defer_find(4)] defer_find(3)
    by (intro metrics_inv_set [OF inv defer_find(2)]) (auto simp: counted_def gauge_def split: option.splits)
next
  case (leave i a)
  from inv have ok: "vec_ok (in_flight w)" by (simp add: metrics_inv_def)
  have a: "gm_get (vc_series (in_flight w)) (labels_of (mw_requests w ! i)) = Some a" using inv leave(2,3) nth_mem by (fastforce simp: metrics_inv_def)
  then obtain n where "vec_val (in_flight w) (labels_of (mw_requests w ! i)) = Some n" by (simp add: vec_val_def)
  then show ?thesis unfolding leave(1)
    using series_Add_ok [OF ok a] leave(3) by (intro metrics_inv_set [OF inv leave(2)]) (auto simp: counted_def gauge_def)
next
  case (status p s)
  then show ?thesis using inv by (simp add: metrics_inv_def SetProxyStatus_def running_def)
qed

interpretation in_flight_metrics: invariant_system metrics_init metrics_step metrics_inv
proof
  show "metrics_init w \<Longrightarrow> metrics_inv w" for w
    by (auto simp: metrics_init_def metrics_inv_def NewMetrics_def empty_vec_def vec_ok_def vec_val_def running_def gm_wf_def)
qed (rule metrics_inv_step)

text \<open>
  The gauge of the requests in flight is exact: in every interleaving of requests over any proxies and ports, as long as no proxy is
  removed, the value a scrape reads for a port is the number of its requests that were counted and have not left.
\<close>
theorem in_flight_exact:
  assumes "reach metrics_init metrics_step w"
  shows "gauge l w = int (running l w)"
  using in_flight_metrics.reach_inv [OF assms] by (rule metrics_inv_gauge)

definition one_request :: "req_phase \<Rightarrow> (string \<times> string) vec \<Rightarrow> metrics_world" where
  "one_request ph v = \<lparr>mw_metrics = NewMetrics\<lparr>mt_RequestsInFlight := v\<rparr>, mw_requests = [\<lparr>rr_proxy = ''app'', rr_port = ''web'', rr_phase = ph\<rparr>]\<rparr>"

definition one_series :: "int list \<Rightarrow> nat \<Rightarrow> (string \<times> string) vec" where
  "one_series vals a = \<lparr>vc_series = [((''app'', ''web''), a)], vc_values = vals\<rparr>"

lemma one_request_steps:
  "metrics_step \<lparr>mw_metrics = NewMetrics, mw_requests = []\<rparr> (one_request RqEnter empty_vec)"
  "metrics_step (one_request RqEnter empty_vec) (one_request (RqFound 0) (one_series [0] 0))"
  "metrics_step (one_request (RqFound 0) (one_series [0] 0)) (one_request RqCounted (one_series [1] 0))"
  "metrics_step (one_request RqCounted empty_vec\<lparr>mw_metrics := (mw_metrics (one_request RqCounted empty_vec))\<lparr>mt_RequestsInFlight := empty_vec\<lparr>vc_values := [1]\<rparr>\<rparr>\<rparr>)
     (one_request (RqServing 1) (one_series [1, 0] 1))"
  "metrics_step (one_request (RqServing 1) (one_series [1, 0] 1)) (one_request RqLeft (one_series [1, - 1] 1))"
proof -
  show "metrics_step \<lparr>mw_metrics = NewMetrics, mw_requests = []\<rparr> (one_request RqEnter empty_vec)"
    using metrics_step.arrive [of "\<lparr>mw_metrics = NewMetrics, mw_requests = []\<rparr>" "''app''" "''web''"] by (simp add: one_request_def NewMetrics_def)
  show "metrics_step (one_request RqEnter empty_vec) (one_request (RqFound 0) (one_series [0] 0))"
    using metrics_step.find [of 0 "one_request RqEnter empty_vec" 0 "one_series [0] 0"]
    by (simp add: one_request_def set_request_def labels_of_def vec_With_def empty_vec_def one_series_def NewMetrics_def)
  show "metrics_step (one_request (RqFound 0) (one_series [0] 0)) (one_request RqCounted (one_series [1] 0))"
    using metrics_step.inc [of 0 "one_request (RqFound 0) (one_series [0] 0)" 0]
    by (simp add: one_request_def set_request_def series_Add_def one_series_def NewMetrics_def)
  show "metrics_step (one_request RqCounted empty_vec\<lparr>mw_metrics := (mw_metrics (one_request RqCounted empty_vec))\<lparr>mt_RequestsInFlight := empty_vec\<lparr>vc_values := [1]\<rparr>\<rparr>\<rparr>)
     (one_request (RqServing 1) (one_series [1, 0] 1))"
    using metrics_step.defer_find [of 0 "one_request RqCounted empty_vec\<lparr>mw_metrics := (mw_metrics (one_request RqCounted empty_vec))\<lparr>mt_RequestsInFlight := empty_vec\<lparr>vc_values := [1]\<rparr>\<rparr>\<rparr>" 1 "one_series [1, 0] 1"]
    by (simp add: one_request_def set_request_def labels_of_def vec_With_def empty_vec_def one_series_def NewMetrics_def)
  show "metrics_step (one_request (RqServing 1) (one_series [1, 0] 1)) (one_request RqLeft (one_series [1, - 1] 1))"
    using metrics_step.leave [of 0 "one_request (RqServing 1) (one_series [1, 0] 1)" 1]
    by (simp add: one_request_def set_request_def series_Add_def one_series_def NewMetrics_def)
qed

theorem in_flight_exact_witness:
  "gauge (''app'', ''web'') (one_request RqCounted (one_series [1] 0)) = int (running (''app'', ''web'') (one_request RqCounted (one_series [1] 0)))"
proof (rule in_flight_exact)
  have "metrics_init \<lparr>mw_metrics = NewMetrics, mw_requests = []\<rparr>" by (simp add: metrics_init_def)
  then show "reach metrics_init metrics_step (one_request RqCounted (one_series [1] 0))"
    using one_request_steps(1,2,3) by (meson reach.intros)
qed

text \<open>
  A proxy that is removed between the two look-ups of a request: the request is counted in the series that was deleted and leaves one made
  anew, which stays at minus one.
\<close>

lemma in_flight_below_zero: "\<exists>w. reach metrics_init metrics_step_del w \<and> gauge (''app'', ''web'') w = - 1 \<and> running (''app'', ''web'') w = 0"
proof (intro exI conjI)
  let ?w = "one_request RqCounted (one_series [1] 0)"
  let ?d = "one_request RqCounted empty_vec\<lparr>mw_metrics := (mw_metrics (one_request RqCounted empty_vec))\<lparr>mt_RequestsInFlight := empty_vec\<lparr>vc_values := [1]\<rparr>\<rparr>\<rparr>"
  have "?w\<lparr>mw_metrics := DeleteProxyMetrics ''app'' (mw_metrics ?w)\<rparr> = ?d"
    by (simp add: one_request_def DeleteProxyMetrics_def NewMetrics_def vec_Delete_def empty_vec_def one_series_def)
  then have "metrics_step_del ?w ?d" using metrics_step_del.delete [of ?w "''app''"] by simp
  moreover have "metrics_init \<lparr>mw_metrics = NewMetrics, mw_requests = []\<rparr>" by (simp add: metrics_init_def)
  ultimately show "reach metrics_init metrics_step_del (one_request RqLeft (one_series [1, - 1] 1))"
    using one_request_steps by (meson reach.intros metrics_step_del.step)
  show "gauge (''app'', ''web'') (one_request RqLeft (one_series [1, - 1] 1)) = - 1"
    by (simp add: gauge_def one_request_def one_series_def vec_val_def)
  show "running (''app'', ''web'') (one_request RqLeft (one_series [1, - 1] 1)) = 0"
    by (simp add: running_def one_request_def counted_def)
qed

section \<open>Resetting the gauges of a proxy\<close>

lemma zero_fold:
  "vec_ok g \<Longrightarrow> vec_ok (fold (\<lambda>((proxy, port), _) g. if proxy \<noteq> p \<or> port = [] then g else vec_Set (p, port) 0 g) xs g)
   \<and> vec_val (fold (\<lambda>((proxy, port), _) g. if proxy \<noteq> p \<or> port = [] then g else vec_Set (p, port) 0 g) xs g) l
     = (if fst l = p \<and> snd l \<noteq> [] \<and> l \<in> fst ` set xs then Some 0 else vec_val g l)"
proof (induction xs arbitrary: g)
  case (Cons x xs)
  obtain proxy port n where x: "x = ((proxy, port), n)" by (metis prod.collapse)
  show ?case
  proof (cases "proxy \<noteq> p \<or> port = []")
    case True
    then show ?thesis using Cons.IH [OF Cons.prems] x by (cases l) auto
  next
    case False
    then show ?thesis using Cons.IH [of "vec_Set (p, port) 0 g"] vec_Set_ok [OF Cons.prems] x by (cases l) auto
  qed
qed simp

text \<open>When it returns, the gauges of the proxy are zero and those of the others are as they were.\<close>

lemma zeroPortGauge_effect:
  assumes "vec_ok g" "zeroPortGaugeByProxy p g = Some g'"
  shows "vec_val g' l = (if fst l = p \<and> snd l \<noteq> [] \<and> vec_val g l \<noteq> None then Some 0 else vec_val g l)"
proof -
  have "l \<in> fst ` set (vec_Collect g) \<longleftrightarrow> vec_val g l \<noteq> None"
    unfolding vec_val_get gm_get_None_iff by (force simp: vec_Collect_def)
  then show ?thesis using assms zero_fold [OF assms(1), of p "vec_Collect g" l] by (auto simp: zeroPortGaugeByProxy_def Let_def split: if_splits)
qed


text \<open>Sixty-five proxies of one TCP port each: pausing one of them hangs.\<close>

definition many_ports :: Metrics where
  "many_ports = fold (\<lambda>n. SetConnectionsActive (itoa (int n)) ''tcp'' 1) [0..<65] NewMetrics"


end
