(* ===== verification/Config_File.thy ===== *)
theory Config_File
  imports Config_Keys Go_Path
begin

text \<open>
  \<^verbatim>\<open>src/internal/config/configfile.go\<close>: reading a configuration file, and the watch that calls back when the file changed and then rested
  for half a second. The goroutine of the watch, the timer and the callers interleave; a step is one turn of the loop or one firing
  of the timer. The file system, the watcher library and the YAML decoder are parameters.
\<close>

section \<open>Reading\<close>

datatype 'e load_error = LoadRead 'e | LoadYAML 'e | UnknownFields "keyIssue list" | LoadDecode 'e

text \<open>\<open>parse\<close> gives the root node, \<open>None\<close> when the document is empty; \<open>decode\<close> fills the structure.\<close>

definition unmarshalNormalized :: "gtype option \<Rightarrow> ('d \<Rightarrow> 'e + ynode option) \<Rightarrow> (ynode \<Rightarrow> 'v \<Rightarrow> 'e + 'v) \<Rightarrow> 'd \<Rightarrow> 'v \<Rightarrow> 'e load_error + 'v" where
  "unmarshalNormalized root parse decode data out =
     (case parse data of
        Inl e \<Rightarrow> Inl (LoadYAML e)
      | Inr None \<Rightarrow> Inr out
      | Inr (Some node) \<Rightarrow>
          (case normalizeNodeKeys node (buildKeyLookup root) of
             (node', issues) \<Rightarrow>
               if issues \<noteq> [] then Inl (UnknownFields issues)
               else (case decode node' out of Inl e \<Rightarrow> Inl (LoadDecode e) | Inr v \<Rightarrow> Inr v)))"

definition file_Load :: "gtype option \<Rightarrow> ('d \<Rightarrow> 'e + ynode option) \<Rightarrow> (ynode \<Rightarrow> 'v \<Rightarrow> 'e + 'v) \<Rightarrow> 'e + 'd \<Rightarrow> 'v \<Rightarrow> 'e load_error + 'v" where
  "file_Load root parse decode readFile out = (case readFile of Inl e \<Rightarrow> Inl (LoadRead e) | Inr data \<Rightarrow> unmarshalNormalized root parse decode data out)"

section \<open>The watch\<close>

record fs_event =
  fe_Name :: string
  fe_Write :: bool
  fe_Create :: bool

text \<open>
  \<open>cf_timer\<close> is the event of the timer that is set. \<open>cf_runs\<close> collects for each call of \<^verbatim>\<open>onChange\<close> how many changes had been seen by then,
  \<open>cf_changes\<close>; both only record the history.
\<close>

datatype watch_loop = NoLoop | Looping | LoopEnded

record config_file =
  cf_filename :: string
  cf_watching :: bool
  cf_stopped :: bool
  cf_loop :: watch_loop
  cf_done :: bool
  cf_realFile :: string
  cf_timer :: "fs_event option"
  cf_changes :: nat
  cf_runs :: "nat list"

definition NewConfigFile :: "string \<Rightarrow> config_file" where
  "NewConfigFile filename =
     \<lparr>cf_filename = filename, cf_watching = False, cf_stopped = False, cf_loop = NoLoop, cf_done = False, cf_realFile = [], cf_timer = None,
      cf_changes = 0, cf_runs = []\<rparr>"

text \<open>\<open>evalSymlinks\<close>: what the name of the file resolves to.\<close>

definition watch_real :: "string option \<Rightarrow> string \<Rightarrow> string" where
  "watch_real evalSymlinks file = (case evalSymlinks of Some p \<Rightarrow> p | None \<Rightarrow> file)"

definition file_handleEvent :: "fs_event \<Rightarrow> string option \<Rightarrow> config_file \<Rightarrow> config_file" where
  "file_handleEvent event evalSymlinks f =
     (let file = path_Clean (cf_filename f); currentFile = watch_real evalSymlinks file
      in if path_Clean (fe_Name event) = file \<and> (fe_Write event \<or> fe_Create event) \<or> currentFile \<noteq> [] \<and> currentFile \<noteq> cf_realFile f
         then f\<lparr>cf_realFile := currentFile, cf_timer := Some event, cf_changes := cf_changes f + 1\<rparr>
         else f)"

text \<open>The watch starts: the watcher may not be made, the directory may not be added. Then the loop runs.\<close>

datatype watch_start = WatchOK | NoWatcher | NoDirectory

definition file_Watch :: "watch_start \<Rightarrow> string option \<Rightarrow> config_file \<Rightarrow> config_file" where
  "file_Watch result evalSymlinks f =
     (let f = f\<lparr>cf_watching := True\<rparr>
      in case result of
           NoWatcher \<Rightarrow> f\<lparr>cf_done := True, cf_loop := LoopEnded\<rparr>
         | NoDirectory \<Rightarrow> f\<lparr>cf_done := True, cf_loop := LoopEnded\<rparr>
         | WatchOK \<Rightarrow> f\<lparr>cf_loop := Looping, cf_realFile := watch_real evalSymlinks (path_Clean (cf_filename f))\<rparr>)"

text \<open>The end of the loop, at a stop, at an error of the watcher or when its channels are closed.\<close>

definition file_watch_end :: "config_file \<Rightarrow> config_file" where
  "file_watch_end f = f\<lparr>cf_timer := None, cf_loop := LoopEnded, cf_done := True\<rparr>"

definition timer_fires :: "config_file \<Rightarrow> config_file" where
  "timer_fires f = f\<lparr>cf_timer := None, cf_runs := cf_runs f @ [cf_changes f]\<rparr>"

text \<open>The first part of \<^verbatim>\<open>Close\<close>; it then waits for \<open>cf_done\<close>.\<close>

definition close_signal :: "config_file \<Rightarrow> config_file" where
  "close_signal f = (if \<not> cf_watching f \<or> cf_stopped f then f else f\<lparr>cf_stopped := True, cf_timer := None\<rparr>)"

definition close_returns :: "config_file \<Rightarrow> bool" where
  "close_returns f \<longleftrightarrow> \<not> cf_watching f \<or> cf_stopped f \<and> cf_done f"

inductive watch_step :: "config_file \<Rightarrow> config_file \<Rightarrow> bool" where
  watch: "\<not> cf_watching f \<Longrightarrow> watch_step f (file_Watch result real f)"
| event: "cf_loop f = Looping \<Longrightarrow> watch_step f (file_handleEvent ev real f)"
| fires: "cf_timer f \<noteq> None \<Longrightarrow> watch_step f (timer_fires f)"
| close: "watch_step f (close_signal f)"
| stop: "cf_loop f = Looping \<Longrightarrow> cf_stopped f \<Longrightarrow> watch_step f (file_watch_end f)"

text \<open>The same with errors of the watcher, or its channels closed.\<close>

inductive watch_step_err :: "config_file \<Rightarrow> config_file \<Rightarrow> bool" where
  step: "watch_step f f' \<Longrightarrow> watch_step_err f f'"
| error: "cf_loop f = Looping \<Longrightarrow> watch_step_err f (file_watch_end f)"

definition watch_init :: "config_file \<Rightarrow> bool" where
  "watch_init f \<longleftrightarrow> (\<exists>filename. f = NewConfigFile filename)"

section \<open>Invariant\<close>

definition watch_inv :: "config_file \<Rightarrow> bool" where
  "watch_inv f \<longleftrightarrow>
     (cf_done f \<longleftrightarrow> cf_loop f = LoopEnded) \<and> (cf_loop f \<noteq> Looping \<longrightarrow> cf_timer f = None) \<and> (cf_watching f \<longleftrightarrow> cf_loop f \<noteq> NoLoop)
     \<and> (\<not> cf_stopped f \<and> cf_loop f \<noteq> Looping \<longrightarrow> cf_changes f = 0 \<and> cf_runs f = [])
     \<and> (cf_stopped f \<or> cf_timer f \<noteq> None \<or> (if cf_runs f = [] then 0 else last (cf_runs f)) = cf_changes f)"

lemma watch_inv_step:
  assumes "watch_inv f" "watch_step f f'"
  shows "watch_inv f'"
  using assms(2)
proof cases
  case (watch result real)
  then show ?thesis using assms(1) by (cases result) (auto simp: watch_inv_def file_Watch_def Let_def split: if_splits)
next
  case (event ev real)
  then show ?thesis using assms(1) by (auto simp: watch_inv_def file_handleEvent_def Let_def split: if_splits)
next
  case fires
  then show ?thesis using assms(1) by (auto simp: watch_inv_def timer_fires_def)
next
  case close
  then show ?thesis using assms(1) by (auto simp: watch_inv_def close_signal_def)
next
  case stop
  then show ?thesis using assms(1) by (auto simp: watch_inv_def file_watch_end_def)
qed

interpretation watching: invariant_system watch_init watch_step watch_inv
proof
  show "watch_init f \<Longrightarrow> watch_inv f" for f by (auto simp: watch_init_def watch_inv_def NewConfigFile_def)
qed (rule watch_inv_step)

section \<open>Properties\<close>

lemma ended_stays:
  assumes "watch_step\<^sup>*\<^sup>* f f'" "cf_loop f = LoopEnded" "cf_timer f = None" "cf_watching f"
  shows "cf_runs f' = cf_runs f \<and> cf_loop f' = LoopEnded \<and> cf_timer f' = None \<and> cf_watching f'"
  using assms
proof (induction rule: rtranclp_induct)
  case (step g h)
  from step(2) show ?case using step(3-6) by cases (auto simp: close_signal_def)
qed simp


definition config_event :: fs_event where "config_event = \<lparr>fe_Name = ''/c/t.yaml'', fe_Write = True, fe_Create = False\<rparr>"

definition changed_file :: config_file where
  "changed_file = file_handleEvent config_event None (file_Watch WatchOK None (NewConfigFile ''/c/t.yaml''))"

lemma changed_file_reach: "reach watch_init watch_step changed_file"
proof -
  have "watch_init (NewConfigFile ''/c/t.yaml'')" by (auto simp: watch_init_def)
  moreover have "watch_step (NewConfigFile ''/c/t.yaml'') (file_Watch WatchOK None (NewConfigFile ''/c/t.yaml''))"
    by (rule watch_step.watch) (simp add: NewConfigFile_def)
  moreover have "watch_step (file_Watch WatchOK None (NewConfigFile ''/c/t.yaml'')) changed_file"
    unfolding changed_file_def by (rule watch_step.event) (simp add: file_Watch_def Let_def)
  ultimately show ?thesis by (meson reach.intros)
qed

lemma changed_file_vals: "cf_timer changed_file = Some config_event \<and> cf_changes changed_file = 1 \<and> cf_loop changed_file = Looping \<and> \<not> cf_stopped changed_file
  \<and> cf_runs changed_file = []"
  by code_simp


text \<open>One error of the watcher ends the watch: a change that waits for the timer is never reloaded, nor is any later one.\<close>

lemma watch_error_loses_change:
  "\<exists>f. reach watch_init watch_step_err f \<and> cf_changes f = 1 \<and> \<not> cf_stopped f \<and> (\<forall>f'. watch_step_err\<^sup>*\<^sup>* f f' \<longrightarrow> cf_runs f' = [])"
proof (intro exI conjI)
  have "reach watch_init watch_step_err f" if "reach watch_init watch_step f" for f
    using that by induction (auto intro: reach.intros watch_step_err.intros)
  moreover have "watch_step_err changed_file (file_watch_end changed_file)" using changed_file_vals by (intro watch_step_err.error) simp
  ultimately show "reach watch_init watch_step_err (file_watch_end changed_file)" using changed_file_reach by (meson reach_step)
  show "cf_changes (file_watch_end changed_file) = 1" "\<not> cf_stopped (file_watch_end changed_file)" using changed_file_vals by (simp_all add: file_watch_end_def)
  show "\<forall>f'. watch_step_err\<^sup>*\<^sup>* (file_watch_end changed_file) f' \<longrightarrow> cf_runs f' = []"
  proof (intro allI impI)
    have w: "cf_watching changed_file" by code_simp
    fix f' assume "watch_step_err\<^sup>*\<^sup>* (file_watch_end changed_file) f'"
    then have "cf_runs f' = [] \<and> cf_loop f' = LoopEnded \<and> cf_timer f' = None \<and> cf_watching f'"
    proof (induction rule: rtranclp_induct)
      case base
      then show ?case using changed_file_vals w by (simp add: file_watch_end_def)
    next
      case (step g h)
      from step(2) have "watch_step g h" using step(3) by cases simp_all
      then show ?case using ended_stays [of g h] step(3) by auto
    qed
    then show "cf_runs f' = []" ..
  qed
qed

text \<open>A file with unknown keys changes nothing of the structure: the errors name them all.\<close>

lemma unknown_fields_refused:
  "parse data = Inr (Some node) \<Longrightarrow> snd (normalizeNodeKeys node (buildKeyLookup root)) \<noteq> [] \<Longrightarrow>
   unmarshalNormalized root parse decode data out = Inl (UnknownFields (snd (normalizeNodeKeys node (buildKeyLookup root))))"
  by (cases "normalizeNodeKeys node (buildKeyLookup root)") (simp add: unmarshalNormalized_def)

end
