(* ===== verification/Http_Server.thy ===== *)
theory Http_Server
  imports Http_Identity Go_Path
begin

text \<open>
  The management server: the routes and middlewares of \<^verbatim>\<open>src/internal/core/http.go\<close>, \<^verbatim>\<open>sessions.go\<close>, \<^verbatim>\<open>csrf.go\<close> and
  \<^verbatim>\<open>healthcheck.go\<close>, and the route tables of the dashboard, the API and \<^verbatim>\<open>cmd/server/main.go\<close>. A handler maps a request
  to a response; what an endpoint answers is modelled in the theory of its component, here it matters with which
  request an endpoint is reached. The multiplexer is the one of the standard library, its rules of precedence and its
  redirects included; requests with the method CONNECT, whose path it does not clean, are left out.
\<close>

section \<open>Patterns of the multiplexer\<close>

datatype segment = Lit string | Wild | Multi

record pattern =
  pt_method :: string
  pt_segs :: "segment list"

definition path_unescape :: "string \<Rightarrow> string" where
  "path_unescape s = (case unescape EncPath s of None \<Rightarrow> s | Some t \<Rightarrow> t)"

definition parse_segment :: "string \<Rightarrow> segment" where
  "parse_segment s =
     (if s = [] then Multi
      else if s = ''{$}'' then Lit ''/''
      else if hd s = CHR ''{'' then Wild
      else Lit (path_unescape s))"

text \<open>\<^verbatim>\<open>parsePattern\<close> for the patterns the program registers: an optional method and a path.\<close>

definition parse_pattern :: "string \<Rightarrow> pattern" where
  "parse_pattern s =
     (let (a, b) = cut_str (CHR '' '') s;
          (m, p) = (case b of None \<Rightarrow> ([], a) | Some p \<Rightarrow> (a, p))
      in \<lparr>pt_method = m, pt_segs = map parse_segment (split_str ''/'' (drop 1 p))\<rparr>)"

datatype relation = Equivalent | MoreGeneral | MoreSpecific | Disjoint | Overlaps

fun flip_relation :: "relation \<Rightarrow> relation" where
  "flip_relation MoreGeneral = MoreSpecific"
| "flip_relation MoreSpecific = MoreGeneral"
| "flip_relation r = r"

fun combine :: "relation \<Rightarrow> relation \<Rightarrow> relation" where
  "combine Equivalent r = r"
| "combine Disjoint r = Disjoint"
| "combine Overlaps r = (if r = Disjoint then Disjoint else Overlaps)"
| "combine q r = (if r = Equivalent then q else if r = flip_relation q then Overlaps else r)"

fun compare_segs :: "segment \<Rightarrow> segment \<Rightarrow> relation" where
  "compare_segs Multi Multi = Equivalent"
| "compare_segs Multi _ = MoreGeneral"
| "compare_segs _ Multi = MoreSpecific"
| "compare_segs Wild Wild = Equivalent"
| "compare_segs Wild (Lit s) = (if s = ''/'' then Disjoint else MoreGeneral)"
| "compare_segs (Lit s) Wild = (if s = ''/'' then Disjoint else MoreSpecific)"
| "compare_segs (Lit s) (Lit t) = (if s = t then Equivalent else Disjoint)"

definition ends_multi :: "segment list \<Rightarrow> bool" where
  "ends_multi ss \<longleftrightarrow> ss \<noteq> [] \<and> last ss = Multi"

definition compare_paths :: "segment list \<Rightarrow> segment list \<Rightarrow> relation" where
  "compare_paths s1 s2 =
     (if length s1 \<noteq> length s2 \<and> \<not> ends_multi s1 \<and> \<not> ends_multi s2 then Disjoint
      else let rel = fold (\<lambda>(a, b) rel. combine rel (compare_segs a b)) (zip s1 s2) Equivalent
           in if rel = Disjoint then Disjoint
              else if length s1 = length s2 then rel
              else if length s1 < length s2 \<and> ends_multi s1 then combine rel MoreGeneral
              else if length s2 < length s1 \<and> ends_multi s2 then combine rel MoreSpecific
              else Disjoint)"

definition compare_methods :: "string \<Rightarrow> string \<Rightarrow> relation" where
  "compare_methods m1 m2 =
     (if m1 = m2 then Equivalent
      else if m1 = [] then MoreGeneral
      else if m2 = [] then MoreSpecific
      else if m1 = ''GET'' \<and> m2 = ''HEAD'' then MoreGeneral
      else if m2 = ''GET'' \<and> m1 = ''HEAD'' then MoreSpecific
      else Disjoint)"

text \<open>Two patterns that match a common request, neither being the more specific one: registering both panics.\<close>

definition conflicts :: "pattern \<Rightarrow> pattern \<Rightarrow> bool" where
  "conflicts p q \<longleftrightarrow>
     (let m = compare_methods (pt_method p) (pt_method q);
          rel = (if m = Disjoint then Disjoint else combine m (compare_paths (pt_segs p) (pt_segs q)))
      in rel = Equivalent \<or> rel = Overlaps)"

section \<open>Matching\<close>

text \<open>
  The segments of a path as the routing tree walks them: unescaped, with \<^verbatim>\<open>/\<close> for the empty segment behind a final slash.
\<close>

definition path_segments :: "string \<Rightarrow> string list" where
  "path_segments p =
     (let ss = split_str ''/'' (drop 1 p)
      in map path_unescape (butlast ss) @ [if last ss = [] then ''/'' else path_unescape (last ss)])"

definition child :: "segment \<Rightarrow> (segment list \<times> 'h) list \<Rightarrow> (segment list \<times> 'h) list" where
  "child s t = map (\<lambda>(ss, h). (tl ss, h)) (filter (\<lambda>(ss, h). ss \<noteq> [] \<and> hd ss = s) t)"

text \<open>\<^verbatim>\<open>matchPath\<close>: a literal child first, then a wildcard, then the rest of the path; with the values of the wildcards.\<close>

fun match_path :: "string list \<Rightarrow> string list \<Rightarrow> (segment list \<times> 'h) list \<Rightarrow> ('h \<times> string list) option" where
  "match_path [] ms t = (case filter (\<lambda>(ss, h). ss = []) t of [] \<Rightarrow> None | (_, h) # _ \<Rightarrow> Some (h, ms))"
| "match_path (s # ss) ms t =
     (case match_path ss ms (child (Lit s) t) of
        Some r \<Rightarrow> Some r
      | None \<Rightarrow>
          (case (if s = ''/'' then None else match_path ss (ms @ [s]) (child Wild t)) of
             Some r \<Rightarrow> Some r
           | None \<Rightarrow> (case child Multi t of [] \<Rightarrow> None | (_, h) # _ \<Rightarrow> Some (h, ms))))"

type_synonym 'h routes = "(pattern \<times> 'h) list"

definition of_method :: "string \<Rightarrow> 'h routes \<Rightarrow> (segment list \<times> pattern \<times> 'h) list" where
  "of_method m rs = map (\<lambda>(p, h). (pt_segs p, p, h)) (filter (\<lambda>(p, h). pt_method p = m) rs)"

definition mux_match :: "'h routes \<Rightarrow> string \<Rightarrow> string \<Rightarrow> ((pattern \<times> 'h) \<times> string list) option" where
  "mux_match rs m path =
     (let ss = path_segments path
      in case match_path ss [] (of_method m rs) of
           Some r \<Rightarrow> Some r
         | None \<Rightarrow>
             (case (if m = ''HEAD'' then match_path ss [] (of_method ''GET'' rs) else None) of
                Some r \<Rightarrow> Some r
              | None \<Rightarrow> match_path ss [] (of_method [] rs)))"

text \<open>\<^verbatim>\<open>exactMatch\<close>: no part of the path but its final slash is matched by the rest pattern.\<close>

definition exact_match :: "((pattern \<times> 'h) \<times> string list) option \<Rightarrow> string \<Rightarrow> bool" where
  "exact_match n path \<longleftrightarrow>
     (case n of
        None \<Rightarrow> False
      | Some ((p, _), _) \<Rightarrow>
          if \<not> ends_multi (pt_segs p) then True
          else if path \<noteq> [] \<and> last path \<noteq> CHR ''/'' then False
          else length (pt_segs p) = length (filter (\<lambda>c. c = CHR ''/'') path))"

definition clean_path :: "string \<Rightarrow> string" where
  "clean_path p =
     (if p = [] then ''/''
      else let p = (if hd p \<noteq> CHR ''/'' then CHR ''/'' # p else p);
               np = path_Clean p
           in if last p = CHR ''/'' \<and> np \<noteq> ''/'' then np @ ''/'' else np)"

datatype 'h found = Found 'h "string list" | Redirect string | NoRoute

definition mux_find :: "'h routes \<Rightarrow> string \<Rightarrow> string \<Rightarrow> 'h found" where
  "mux_find rs m escaped =
     (let path = clean_path escaped;
          n = mux_match rs m path
      in if \<not> exact_match n path \<and> last path \<noteq> CHR ''/'' \<and> exact_match (mux_match rs m (path @ ''/'')) (path @ ''/'')
           then Redirect (path @ ''/'')
         else if path \<noteq> escaped then Redirect path
         else case n of None \<Rightarrow> NoRoute | Some ((_, h), ms) \<Rightarrow> Found h ms)"

section \<open>Requests and handlers\<close>

text \<open>\<open>aq_Cookie\<close> is the value of the cookie \<^verbatim>\<open>session_id\<close>; \<open>aq_Values\<close> are the path values the multiplexer sets.\<close>

record app_request =
  aq_Method :: string
  aq_Path :: string
  aq_Cookie :: "string option"
  aq_Req :: http_request
  aq_Values :: "string list"

datatype endpoint =
    DashboardPage | ListFragment | ProxyModal | Stream | UpdatePreferences | PinAction
  | StreamProxyLogs | RestartAction | PauseAction | ResumeAction | ReauthAction
  | ListProxies | GetProxyDetail | GetProxyPorts | VersionPage | AggregateHealth | WhoAmIPage | TestWebhook
  | ReadyPage | MetricsPage | GrafanaDashboard | GrafanaDatasource | IconFiles | StaticFiles

datatype app_outcome =
    Reach endpoint app_request
  | Denied string
  | CrossOrigin
  | MovedTo string
  | NotFound

record app_response =
  rs_SetCookie :: "string option"
  rs_outcome :: app_outcome

type_synonym handler = "app_request \<Rightarrow> app_response"
type_synonym middleware = "handler \<Rightarrow> handler"

definition reply :: "app_outcome \<Rightarrow> app_response" where
  "reply x = \<lparr>rs_SetCookie = None, rs_outcome = x\<rparr>"

definition serve :: "endpoint \<Rightarrow> handler" where
  "serve e q = reply (Reach e q)"

record HTTPServer =
  hs_Mux :: "handler routes"
  hs_middlewares :: "middleware list"

definition NewHTTPServer :: HTTPServer where
  "NewHTTPServer = \<lparr>hs_Mux = [], hs_middlewares = []\<rparr>"

definition Use :: "middleware \<Rightarrow> HTTPServer \<Rightarrow> HTTPServer" where
  "Use mw a = a\<lparr>hs_middlewares := hs_middlewares a @ [mw]\<rparr>"

text \<open>\<^verbatim>\<open>ServeMux.Handle\<close>: \<open>None\<close> is the panic on a conflicting pattern.\<close>

definition mux_Handle :: "string \<Rightarrow> handler \<Rightarrow> HTTPServer \<Rightarrow> HTTPServer option" where
  "mux_Handle pattern h a =
     (let p = parse_pattern pattern
      in if list_ex (\<lambda>(q, _). conflicts p q) (hs_Mux a) then None else Some (a\<lparr>hs_Mux := hs_Mux a @ [(p, h)]\<rparr>))"

text \<open>The middlewares that are there when a route is registered wrap it, the one added first outermost.\<close>

definition Handle :: "string \<Rightarrow> handler \<Rightarrow> HTTPServer \<Rightarrow> HTTPServer option" where
  "Handle pattern h a = mux_Handle pattern (foldr (\<lambda>mw f. mw f) (hs_middlewares a) h) a"

definition Get :: "string \<Rightarrow> handler \<Rightarrow> HTTPServer \<Rightarrow> HTTPServer option" where
  "Get pattern h = Handle (''GET '' @ pattern) h"

definition Post :: "string \<Rightarrow> handler \<Rightarrow> HTTPServer \<Rightarrow> HTTPServer option" where
  "Post pattern h = Handle (''POST '' @ pattern) h"

definition Put :: "string \<Rightarrow> handler \<Rightarrow> HTTPServer \<Rightarrow> HTTPServer option" where
  "Put pattern h = Handle (''PUT '' @ pattern) h"

text \<open>What the server does with a request.\<close>

definition mux_serve :: "HTTPServer \<Rightarrow> handler" where
  "mux_serve a q =
     (case mux_find (hs_Mux a) (aq_Method q) (aq_Path q) of
        Found h ms \<Rightarrow> h (q\<lparr>aq_Values := ms\<rparr>)
      | Redirect p \<Rightarrow> reply (MovedTo p)
      | NoRoute \<Rightarrow> reply NotFound)"

section \<open>Middlewares\<close>

definition strip_middleware :: "string \<Rightarrow> middleware" where
  "strip_middleware token next q = next (q\<lparr>aq_Req := StripProxyIdentityHeaders token (aq_Req q)\<rparr>)"

text \<open>\<open>parses\<close> is \<^verbatim>\<open>uuid.Parse\<close>, \<open>fresh\<close> the next \<^verbatim>\<open>uuid.New\<close>.\<close>

definition SessionMiddleware :: "(string \<Rightarrow> bool) \<Rightarrow> string \<Rightarrow> middleware" where
  "SessionMiddleware parses fresh next q =
     (let (sessionID, set_cookie) =
            (case aq_Cookie q of
               None \<Rightarrow> (fresh, Some fresh)
             | Some v \<Rightarrow> if parses v then (v, None) else (fresh, Some fresh));
          r = aq_Req q;
          resp = next (q\<lparr>aq_Req := r\<lparr>hq_Header := h_set ''X-Session-ID'' sessionID (hq_Header r)\<rparr>\<rparr>)
      in case set_cookie of None \<Rightarrow> resp | Some c \<Rightarrow> resp\<lparr>rs_SetCookie := Some c\<rparr>)"

text \<open>\<^verbatim>\<open>http.CrossOriginProtection\<close> with no trusted origins and no bypass patterns.\<close>

definition cross_origin_ok :: "app_request \<Rightarrow> bool" where
  "cross_origin_ok q =
     (let h = hq_Header (aq_Req q); site = h_get h ''Sec-Fetch-Site''; origin = h_get h ''Origin''
      in if aq_Method q \<in> set [''GET'', ''HEAD'', ''OPTIONS''] then True
         else if site = ''same-origin'' \<or> site = ''none'' then True
         else if site \<noteq> [] then False
         else if origin = [] then True
         else case url_parse origin of None \<Rightarrow> False | Some o' \<Rightarrow> u_host o' = hq_Host (aq_Req q))"

definition CSRFMiddleware :: middleware where
  "CSRFMiddleware next q = (if cross_origin_ok q then next q else reply CrossOrigin)"

definition guarded :: "(http_request \<Rightarrow> access) \<Rightarrow> middleware" where
  "guarded mw next q = (case mw (aq_Req q) of Serve \<Rightarrow> next q | Forbidden s \<Rightarrow> reply (Denied s))"

section \<open>The routes\<close>

record app_config =
  ap_admin :: admin_config
  ap_token :: string
  ap_uuid_parses :: "string \<Rightarrow> bool"
  ap_uuid_fresh :: string

definition health_AddRoutes :: "HTTPServer \<Rightarrow> HTTPServer option" where
  "health_AddRoutes = Handle ''GET /health/ready/'' (serve ReadyPage)"

text \<open>The routes are registered one after the other; a panic ends the registration.\<close>

fun register_all :: "(HTTPServer \<Rightarrow> HTTPServer option) list \<Rightarrow> HTTPServer \<Rightarrow> HTTPServer option" where
  "register_all [] a = Some a"
| "register_all (f # fs) a = (case f a of None \<Rightarrow> None | Some a' \<Rightarrow> register_all fs a')"

definition dash_AddRoutes :: "app_config \<Rightarrow> HTTPServer \<Rightarrow> HTTPServer option" where
  "dash_AddRoutes c =
     (let viewMW = guarded (ViewerMiddleware (ap_admin c)); adminMW = guarded (AdminMiddleware (ap_admin c))
      in register_all
          [Get ''/{$}'' (viewMW (serve DashboardPage)),
           Get ''/dashboard/list'' (viewMW (serve ListFragment)),
           Get ''/dashboard/proxy/{name}/modal'' (viewMW (serve ProxyModal)),
           Get ''/stream'' (viewMW (serve Stream)),
           Put ''/api/dashboard/preferences'' (viewMW (serve UpdatePreferences)),
           Post ''/api/dashboard/pin/{name}'' (viewMW (serve PinAction)),
           Get ''/stream/{name}/logs'' (adminMW (serve StreamProxyLogs)),
           Post ''/api/proxy/{name}/restart'' (adminMW (serve RestartAction)),
           Post ''/api/proxy/{name}/pause'' (adminMW (serve PauseAction)),
           Post ''/api/proxy/{name}/resume'' (adminMW (serve ResumeAction)),
           Post ''/api/proxy/{name}/reauth'' (adminMW (serve ReauthAction))])"

definition api_AddRoutes :: "app_config \<Rightarrow> HTTPServer \<Rightarrow> HTTPServer option" where
  "api_AddRoutes c =
     (let authMW = guarded (AdminMiddleware (ap_admin c))
      in register_all
          [Get ''/api/v1/proxies'' (authMW (serve ListProxies)),
           Get ''/api/v1/proxies/{name}'' (authMW (serve GetProxyDetail)),
           Get ''/api/v1/proxies/{name}/ports'' (authMW (serve GetProxyPorts)),
           Get ''/api/version'' (authMW (serve VersionPage)),
           Get ''/api/health'' (authMW (serve AggregateHealth)),
           Get ''/api/whoami'' (authMW (serve WhoAmIPage)),
           Post ''/api/webhook/test'' (authMW (serve TestWebhook))])"

text \<open>The server as \<^verbatim>\<open>InitializeApp\<close> leaves it, and the routes that \<^verbatim>\<open>Start\<close> adds before it listens.\<close>

definition init_server :: "app_config \<Rightarrow> HTTPServer option" where
  "init_server c =
     health_AddRoutes (Use CSRFMiddleware (Use (SessionMiddleware (ap_uuid_parses c) (ap_uuid_fresh c))
       (Use (strip_middleware (ap_token c)) NewHTTPServer)))"

definition start_routes :: "app_config \<Rightarrow> HTTPServer \<Rightarrow> HTTPServer option" where
  "start_routes c =
     register_all
       [dash_AddRoutes c,
        api_AddRoutes c,
        mux_Handle ''/icons/'' (serve IconFiles),
        mux_Handle ''/'' (serve StaticFiles),
        Get ''/metrics'' (guarded (AdminMiddleware (ap_admin c)) (serve MetricsPage)),
        Get ''/-/grafana/dashboard.json'' (serve GrafanaDashboard),
        Get ''/-/grafana/datasource.yaml'' (serve GrafanaDatasource)]"

definition app_server :: "app_config \<Rightarrow> HTTPServer option" where
  "app_server c = (case init_server c of None \<Rightarrow> None | Some a \<Rightarrow> start_routes c a)"

section \<open>The table of the routes\<close>

definition viewer_only :: "endpoint list" where
  "viewer_only = [DashboardPage, ListFragment, ProxyModal, Stream, UpdatePreferences, PinAction]"

definition admin_only :: "endpoint list" where
  "admin_only =
     [StreamProxyLogs, RestartAction, PauseAction, ResumeAction, ReauthAction, ListProxies, GetProxyDetail, GetProxyPorts,
      VersionPage, AggregateHealth, WhoAmIPage, TestWebhook, MetricsPage]"

definition guard_of :: "app_config \<Rightarrow> endpoint \<Rightarrow> handler" where
  "guard_of c e =
     (if e \<in> set viewer_only then guarded (ViewerMiddleware (ap_admin c)) (serve e)
      else if e \<in> set admin_only then guarded (AdminMiddleware (ap_admin c)) (serve e)
      else serve e)"

definition wrapped :: "app_config \<Rightarrow> handler \<Rightarrow> handler" where
  "wrapped c h = strip_middleware (ap_token c) (SessionMiddleware (ap_uuid_parses c) (ap_uuid_fresh c) (CSRFMiddleware h))"

definition route_of :: "app_config \<Rightarrow> endpoint \<Rightarrow> handler" where
  "route_of c e = (if e \<in> set [IconFiles, StaticFiles] then serve e else wrapped c (guard_of c e))"

definition all_routes :: "(string \<times> endpoint) list" where
  "all_routes =
     [(''GET /health/ready/'', ReadyPage),
      (''GET /{$}'', DashboardPage), (''GET /dashboard/list'', ListFragment), (''GET /dashboard/proxy/{name}/modal'', ProxyModal),
      (''GET /stream'', Stream), (''PUT /api/dashboard/preferences'', UpdatePreferences), (''POST /api/dashboard/pin/{name}'', PinAction),
      (''GET /stream/{name}/logs'', StreamProxyLogs), (''POST /api/proxy/{name}/restart'', RestartAction),
      (''POST /api/proxy/{name}/pause'', PauseAction), (''POST /api/proxy/{name}/resume'', ResumeAction),
      (''POST /api/proxy/{name}/reauth'', ReauthAction), (''GET /api/v1/proxies'', ListProxies),
      (''GET /api/v1/proxies/{name}'', GetProxyDetail), (''GET /api/v1/proxies/{name}/ports'', GetProxyPorts),
      (''GET /api/version'', VersionPage), (''GET /api/health'', AggregateHealth), (''GET /api/whoami'', WhoAmIPage),
      (''POST /api/webhook/test'', TestWebhook), (''/icons/'', IconFiles), (''/'', StaticFiles), (''GET /metrics'', MetricsPage),
      (''GET /-/grafana/dashboard.json'', GrafanaDashboard), (''GET /-/grafana/datasource.yaml'', GrafanaDatasource)]"

text \<open>Registration without the handlers: the patterns never conflict.\<close>

fun no_conflict :: "pattern list \<Rightarrow> pattern list \<Rightarrow> bool" where
  "no_conflict ps [] = True"
| "no_conflict ps (q # qs) = (\<not> list_ex (conflicts q) ps \<and> no_conflict (ps @ [q]) qs)"

lemma patterns_ok: "no_conflict [] (map (parse_pattern \<circ> fst) all_routes)"
  by code_simp

definition all_middlewares :: "app_config \<Rightarrow> middleware list" where
  "all_middlewares c = [strip_middleware (ap_token c), SessionMiddleware (ap_uuid_parses c) (ap_uuid_fresh c), CSRFMiddleware]"

text \<open>Two ways of registering routes that agree on every server with the middlewares \<open>M\<close>.\<close>

definition same_routes :: "middleware list \<Rightarrow> (HTTPServer \<Rightarrow> HTTPServer option) \<Rightarrow> (HTTPServer \<Rightarrow> HTTPServer option) \<Rightarrow> bool" where
  "same_routes M f g \<longleftrightarrow> (\<forall>a. hs_middlewares a = M \<longrightarrow> f a = g a \<and> (\<forall>a'. g a = Some a' \<longrightarrow> hs_middlewares a' = M))"

lemma same_mux_Handle [intro]: "same_routes M (mux_Handle p h) (mux_Handle p h)"
  by (auto simp: same_routes_def mux_Handle_def Let_def)

lemma same_Handle: "same_routes M (Handle p h) (mux_Handle p (foldr (\<lambda>mw f. mw f) M h))"
  by (auto simp: same_routes_def Handle_def mux_Handle_def Let_def)

lemma same_register_step:
  assumes "same_routes M f g" "same_routes M (register_all fs) (register_all gs)"
  shows "same_routes M (register_all (f # fs)) (register_all (g # gs))"
  unfolding same_routes_def
proof (intro allI impI)
  fix a :: HTTPServer assume a: "hs_middlewares a = M"
  have fg: "f a = g a" "g a = Some b \<Longrightarrow> hs_middlewares b = M" for b
    using assms(1) a unfolding same_routes_def by metis+
  have rest: "hs_middlewares b = M \<Longrightarrow> register_all fs b = register_all gs b"
    "hs_middlewares b = M \<Longrightarrow> register_all gs b = Some d \<Longrightarrow> hs_middlewares d = M" for b d
    using assms(2) unfolding same_routes_def by metis+
  show "register_all (f # fs) a = register_all (g # gs) a \<and> (\<forall>a'. register_all (g # gs) a = Some a' \<longrightarrow> hs_middlewares a' = M)"
  proof (cases "g a")
    case None
    then show ?thesis using fg(1) by (simp only: register_all.simps option.case) auto
  next
    case (Some b)
    from fg(2) [OF this] have b: "hs_middlewares b = M" .
    have "register_all (f # fs) a = register_all (g # gs) a" "register_all (g # gs) a = register_all gs b"
      by (simp_all only: register_all.simps fg(1) Some option.case rest(1) [OF b])
    then show ?thesis using rest(2) [OF b] by metis
  qed
qed

lemma same_register_all: "list_all2 (same_routes M) fs gs \<Longrightarrow> same_routes M (register_all fs) (register_all gs)"
proof (induction rule: list_all2_induct)
  case Nil
  then show ?case by (simp add: same_routes_def)
next
  case (Cons f fs g gs)
  then show ?case by (blast intro: same_register_step)
qed

lemma register_append: "register_all (xs @ ys) a = (case register_all xs a of None \<Rightarrow> None | Some b \<Rightarrow> register_all ys b)"
  by (induction xs arbitrary: a) (auto split: option.splits)

lemma register_nested: "register_all (register_all xs # register_all ys # zs) = register_all (xs @ ys @ zs)"
  by (rule ext) (simp add: register_append split: option.splits)

lemma register_routes:
  assumes "no_conflict (map fst (hs_Mux a)) (map (parse_pattern \<circ> fst) rs)"
  shows "register_all (map (\<lambda>(p, e). mux_Handle p (f e)) rs) a = Some (a\<lparr>hs_Mux := hs_Mux a @ map (\<lambda>(p, e). (parse_pattern p, f e)) rs\<rparr>)"
  using assms
proof (induction rs arbitrary: a)
  case (Cons r rs)
  obtain p e where r: "r = (p, e)" by fastforce
  have ex: "list_ex (\<lambda>(q, _). conflicts p' q) xs = list_ex (conflicts p') (map fst xs)" for p' and xs :: "handler routes"
    by (induction xs) auto
  from Cons.prems have nc: "\<not> list_ex (conflicts (parse_pattern p)) (map fst (hs_Mux a))"
    "no_conflict (map fst (hs_Mux (a\<lparr>hs_Mux := hs_Mux a @ [(parse_pattern p, f e)]\<rparr>))) (map (parse_pattern \<circ> fst) rs)"
    by (simp_all add: r comp_def)
  show ?case using Cons.IH [OF nc(2)] nc(1) by (simp add: r mux_Handle_def ex Let_def)
qed simp

definition direct_route :: "app_config \<Rightarrow> string \<times> endpoint \<Rightarrow> HTTPServer \<Rightarrow> HTTPServer option" where
  "direct_route c = (\<lambda>(p, e). mux_Handle p (route_of c e))"

lemma same_route:
  assumes "e \<notin> {IconFiles, StaticFiles}" "h = guard_of c e"
  shows "same_routes (all_middlewares c) (Handle p h) (direct_route c (p, e))"
  using same_Handle [of "all_middlewares c" p h] assms(1) unfolding assms(2)
  by (simp add: direct_route_def route_of_def all_middlewares_def wrapped_def [abs_def])

lemma same_plain: "e \<in> {IconFiles, StaticFiles} \<Longrightarrow> same_routes M (mux_Handle p (serve e)) (direct_route c (p, e))"
  using same_mux_Handle [of M p "serve e"] by (auto simp: direct_route_def route_of_def)

lemma same_parts:
  "same_routes (all_middlewares c) (dash_AddRoutes c) (register_all (map (direct_route c) (take 11 (drop 1 all_routes))))"
  "same_routes (all_middlewares c) (api_AddRoutes c) (register_all (map (direct_route c) (take 7 (drop 12 all_routes))))"
  "same_routes (all_middlewares c) (start_routes c) (register_all (map (direct_route c) (drop 1 all_routes)))"
proof -
  note simps = all_routes_def Get_def Post_def Put_def Let_def
  note guards = guard_of_def viewer_only_def admin_only_def
  show d: "same_routes (all_middlewares c) (dash_AddRoutes c) (register_all (map (direct_route c) (take 11 (drop 1 all_routes))))"
    unfolding dash_AddRoutes_def Let_def
    by (rule same_register_all) (simp add: simps, intro conjI same_route; simp add: guards)
  show a: "same_routes (all_middlewares c) (api_AddRoutes c) (register_all (map (direct_route c) (take 7 (drop 12 all_routes))))"
    unfolding api_AddRoutes_def Let_def
    by (rule same_register_all) (simp add: simps, intro conjI same_route; simp add: guards)
  have rest: "map (direct_route c) (drop 19 all_routes) =
      [direct_route c (''/icons/'', IconFiles), direct_route c (''/'', StaticFiles), direct_route c (''GET /metrics'', MetricsPage),
       direct_route c (''GET /-/grafana/dashboard.json'', GrafanaDashboard), direct_route c (''GET /-/grafana/datasource.yaml'', GrafanaDatasource)]"
    by (simp add: all_routes_def)
  have "same_routes (all_middlewares c) (start_routes c)
      (register_all (register_all (map (direct_route c) (take 11 (drop 1 all_routes))) #
        register_all (map (direct_route c) (take 7 (drop 12 all_routes))) # map (direct_route c) (drop 19 all_routes)))"
    unfolding start_routes_def rest Get_def append.simps
    by (intro same_register_all list.rel_intros d a same_plain same_route) (simp_all add: guards)
  also have "register_all (register_all (map (direct_route c) (take 11 (drop 1 all_routes))) #
        register_all (map (direct_route c) (take 7 (drop 12 all_routes))) # map (direct_route c) (drop 19 all_routes))
      = register_all (map (direct_route c) (drop 1 all_routes))"
    unfolding register_nested by (rule arg_cong [of _ _ register_all]) (simp add: all_routes_def)
  finally show "same_routes (all_middlewares c) (start_routes c) (register_all (map (direct_route c) (drop 1 all_routes)))" .
qed

lemma app_server_routes:
  "app_server c = Some \<lparr>hs_Mux = map (\<lambda>(p, e). (parse_pattern p, route_of c e)) all_routes, hs_middlewares = all_middlewares c\<rparr>"
proof -
  let ?a = "\<lparr>hs_Mux = [], hs_middlewares = all_middlewares c\<rparr>"
  have i: "init_server c = direct_route c (hd all_routes) ?a"
    using same_route [of ReadyPage "serve ReadyPage" c "''GET /health/ready/''"]
    by (simp add: init_server_def health_AddRoutes_def Use_def NewHTTPServer_def all_middlewares_def guard_of_def viewer_only_def
        admin_only_def same_routes_def all_routes_def)
  have m: "direct_route c (hd all_routes) ?a = Some b \<Longrightarrow> hs_middlewares b = all_middlewares c" for b
    by (auto simp: direct_route_def all_routes_def mux_Handle_def Let_def)
  have "app_server c = (case direct_route c (hd all_routes) ?a of None \<Rightarrow> None
      | Some b \<Rightarrow> register_all (map (direct_route c) (drop 1 all_routes)) b)"
  proof (cases "direct_route c (hd all_routes) ?a")
    case (Some b)
    have "start_routes c b = register_all (map (direct_route c) (drop 1 all_routes)) b"
      using same_parts(3) [of c] m [OF Some] unfolding same_routes_def by blast
    then show ?thesis by (simp add: app_server_def i Some del: One_nat_def)
  qed (simp add: app_server_def i)
  also have "\<dots> = register_all (map (direct_route c) (hd all_routes # drop 1 all_routes)) ?a" by (simp del: One_nat_def)
  also have "hd all_routes # drop 1 all_routes = all_routes" by (simp add: all_routes_def)
  also have "register_all (map (direct_route c) all_routes) ?a =
      Some (?a\<lparr>hs_Mux := map (\<lambda>(p, e). (parse_pattern p, route_of c e)) all_routes\<rparr>)"
    unfolding direct_route_def using register_routes [of ?a all_routes "route_of c"] patterns_ok by simp
  finally show ?thesis by simp
qed

section \<open>Guards\<close>

lemma child_snd: "snd ` set (child s t) \<subseteq> snd ` set t"
  by (force simp: child_def)

lemma match_path_in: "match_path ss ms t = Some (h, vs) \<Longrightarrow> h \<in> snd ` set t"
proof (induction ss ms t rule: match_path.induct)
  case (1 ms t)
  then have "h \<in> snd ` set (filter (\<lambda>(ss, h). ss = []) t)" by (cases "filter (\<lambda>(ss, h). ss = []) t") auto
  then show ?case by auto
next
  case (2 s ss ms t)
  show ?case
  proof (cases "match_path ss ms (child (Lit s) t)")
    case (Some r)
    then have "match_path ss ms (child (Lit s) t) = Some (h, vs)" using 2(3) by simp
    from 2(1) [OF this] show ?thesis by (rule subsetD [OF child_snd])
  next
    case lit: None
    show ?thesis
    proof (cases "if s = ''/'' then None else match_path ss (ms @ [s]) (child Wild t)")
      case (Some r)
      then have w: "s \<noteq> ''/''" "match_path ss (ms @ [s]) (child Wild t) = Some (h, vs)" using 2(3) lit by (simp_all split: if_splits)
      have "h \<in> snd ` set (child Wild t)" by (rule 2(2) [OF lit w])
      then show ?thesis by (rule subsetD [OF child_snd])
    next
      case None
      then have "h \<in> snd ` set (child Multi t)" using 2(3) lit by (auto split: list.splits)
      then show ?thesis by (rule subsetD [OF child_snd])
    qed
  qed
qed

lemma mux_find_in: "mux_find rs m p = Found h ms \<Longrightarrow> \<exists>q. (q, h) \<in> set rs"
  by (force simp: mux_find_def mux_match_def of_method_def Let_def split: option.splits if_splits dest!: match_path_in)

lemma guarded_reach: "rs_outcome (guarded mw (serve e) q) = Reach e' r \<Longrightarrow> e' = e \<and> r = q \<and> mw (aq_Req q) = Serve"
  by (simp add: guarded_def serve_def reply_def split: access.splits)

lemma guard_of_reach:
  "rs_outcome (guard_of c e q) = Reach e' r \<Longrightarrow> e' = e \<and> r = q \<and>
     (e \<in> set viewer_only \<longrightarrow> ViewerMiddleware (ap_admin c) (aq_Req q) = Serve) \<and>
     (e \<in> set admin_only \<longrightarrow> AdminMiddleware (ap_admin c) (aq_Req q) = Serve)"
  by (auto simp: guard_of_def serve_def reply_def viewer_only_def admin_only_def dest!: guarded_reach split: if_splits)

lemma session_outcome:
  "\<exists>sid. rs_outcome (SessionMiddleware parses fresh h q) =
     rs_outcome (h (q\<lparr>aq_Req := (aq_Req q)\<lparr>hq_Header := h_set ''X-Session-ID'' sid (hq_Header (aq_Req q))\<rparr>\<rparr>))"
  by (auto simp: SessionMiddleware_def Let_def split: option.splits)

text \<open>
  What a guard finds out about a request and about the request that the proxy itself let through: the headers that the session
  adds play no part.
\<close>

lemma canonical_session: "canonical_key ''X-Session-ID'' = ''X-Session-Id''"
  "canonical_key ''Authorization'' = ''Authorization''" "canonical_key ''Sec-Fetch-Site'' = ''Sec-Fetch-Site''" "canonical_key ''Origin'' = ''Origin''"
  by code_simp+

lemma session_header_get: "k \<in> {''Authorization'', ''Origin'', ''Sec-Fetch-Site''} \<Longrightarrow> h_get (h_set ''X-Session-ID'' sid h) k = h_get h k"
  by (auto simp: h_get_values canonical_session)

lemma guards_session:
  "ViewerMiddleware cfg (r\<lparr>hq_Header := h_set ''X-Session-ID'' sid (hq_Header r)\<rparr>) = ViewerMiddleware cfg r"
  "AdminMiddleware cfg (r\<lparr>hq_Header := h_set ''X-Session-ID'' sid (hq_Header r)\<rparr>) = AdminMiddleware cfg r"
  by (simp_all add: ViewerMiddleware_def AdminMiddleware_def ValidAPIKey_def extractBearerToken_def session_header_get ResolveWhois_def Let_def)

lemma wrapped_reach:
  assumes "rs_outcome (wrapped c (guard_of c e) q) = Reach e' r"
  shows "e' = e \<and> aq_Values r = aq_Values q \<and> cross_origin_ok (q\<lparr>aq_Req := StripProxyIdentityHeaders (ap_token c) (aq_Req q)\<rparr>) \<and>
    (e \<in> set viewer_only \<longrightarrow> ViewerMiddleware (ap_admin c) (StripProxyIdentityHeaders (ap_token c) (aq_Req q)) = Serve) \<and>
    (e \<in> set admin_only \<longrightarrow> AdminMiddleware (ap_admin c) (StripProxyIdentityHeaders (ap_token c) (aq_Req q)) = Serve)"
proof -
  let ?s = "StripProxyIdentityHeaders (ap_token c) (aq_Req q)"
  obtain sid where sid: "rs_outcome (CSRFMiddleware (guard_of c e) (q\<lparr>aq_Req := ?s\<lparr>hq_Header := h_set ''X-Session-ID'' sid (hq_Header ?s)\<rparr>\<rparr>)) = Reach e' r"
    using assms session_outcome [of "ap_uuid_parses c" "ap_uuid_fresh c" "CSRFMiddleware (guard_of c e)" "q\<lparr>aq_Req := ?s\<rparr>"] by (auto simp: wrapped_def strip_middleware_def)
  let ?q = "q\<lparr>aq_Req := ?s\<lparr>hq_Header := h_set ''X-Session-ID'' sid (hq_Header ?s)\<rparr>\<rparr>"
  have ok: "cross_origin_ok ?q" "rs_outcome (guard_of c e ?q) = Reach e' r"
    using sid by (auto simp: CSRFMiddleware_def reply_def split: if_splits)
  have "cross_origin_ok ?q = cross_origin_ok (q\<lparr>aq_Req := ?s\<rparr>)"
    by (cases q) (simp add: cross_origin_ok_def session_header_get Let_def split: option.splits)
  then show ?thesis using ok(1) guard_of_reach [OF ok(2)] by (auto simp: guards_session)
qed

lemma cross_origin_ok_values: "cross_origin_ok (q\<lparr>aq_Values := ms, aq_Req := s\<rparr>) = cross_origin_ok (q\<lparr>aq_Req := s\<rparr>)"
  by (simp add: cross_origin_ok_def Let_def split: option.splits)

text \<open>
  C12: No page of the management server is reached around its guard. Whatever the request, its method, path and headers, and whatever the
  multiplexer makes of them: the registration of the routes does not panic, and if a request reaches an endpoint of the dashboard
  then the viewer check holds, if it reaches an action, a log, the API or the metrics then the admin check holds, both for the
  request after its identity headers were removed, so that the identity they see is the one the proxy itself vouched for; and apart
  from icons and static files a request that changes state does not come from another origin.
\<close>
theorem routes_guarded:
  "\<exists>a. app_server c = Some a \<and>
     (\<forall>q e r. rs_outcome (mux_serve a q) = Reach e r \<longrightarrow>
        (let s = StripProxyIdentityHeaders (ap_token c) (aq_Req q)
         in (e \<in> set viewer_only \<longrightarrow> ViewerMiddleware (ap_admin c) s = Serve) \<and>
            (e \<in> set admin_only \<longrightarrow> AdminMiddleware (ap_admin c) s = Serve) \<and>
            (e \<in> {IconFiles, StaticFiles} \<or> cross_origin_ok (q\<lparr>aq_Req := s\<rparr>))))"
proof -
  let ?a = "\<lparr>hs_Mux = map (\<lambda>(p, e). (parse_pattern p, route_of c e)) all_routes, hs_middlewares = all_middlewares c\<rparr>"
  have "let s = StripProxyIdentityHeaders (ap_token c) (aq_Req q)
       in (e \<in> set viewer_only \<longrightarrow> ViewerMiddleware (ap_admin c) s = Serve) \<and>
          (e \<in> set admin_only \<longrightarrow> AdminMiddleware (ap_admin c) s = Serve) \<and>
          (e \<in> {IconFiles, StaticFiles} \<or> cross_origin_ok (q\<lparr>aq_Req := s\<rparr>))"
    if r: "rs_outcome (mux_serve ?a q) = Reach e r" for q e r
  proof -
    from r obtain h ms where f: "mux_find (hs_Mux ?a) (aq_Method q) (aq_Path q) = Found h ms"
      by (auto simp: mux_serve_def reply_def split: found.splits)
    obtain e' where h: "h = route_of c e'" using mux_find_in [OF f] by auto
    show ?thesis
    proof (cases "e' \<in> {IconFiles, StaticFiles}")
      case True
      then have "e = e'" using r f by (auto simp: mux_serve_def h route_of_def serve_def reply_def)
      then show ?thesis using True by (auto simp: viewer_only_def admin_only_def Let_def)
    next
      case False
      then have "rs_outcome (wrapped c (guard_of c e') (q\<lparr>aq_Values := ms\<rparr>)) = Reach e r" using r f by (simp add: mux_serve_def h route_of_def)
      from wrapped_reach [OF this] show ?thesis by (simp add: Let_def cross_origin_ok_values)
    qed
  qed
  then show ?thesis unfolding app_server_routes by blast
qed

section \<open>Witnesses\<close>

definition example_app :: app_config where
  "example_app = \<lparr>ap_admin = \<lparr>ac_APIKey = ''key'', ac_Admins = [''alice''], ac_AdminAllowLocalhost = False\<rparr>, ap_token = ''token'',
     ap_uuid_parses = (\<lambda>_. False), ap_uuid_fresh = ''s1''\<rparr>"

definition api_request :: "string \<Rightarrow> string \<Rightarrow> header \<Rightarrow> app_request" where
  "api_request m p h = \<lparr>aq_Method = m, aq_Path = p, aq_Cookie = None,
     aq_Req = \<lparr>hq_RemoteAddr = ''100.64.0.9:4000'', hq_Host = ''dash.ts.net'', hq_TLS = False, hq_Header = h, hq_Whois = None\<rparr>, aq_Values = []\<rparr>"

lemma api_key_pauses:
  "map_option (\<lambda>a. case rs_outcome (mux_serve a (api_request ''POST'' ''/api/proxy/web/pause'' [(''Authorization'', [''Bearer key''])])) of
      Reach e r \<Rightarrow> Some (e, aq_Values r) | _ \<Rightarrow> None) (app_server example_app) = Some (Some (PauseAction, [''web'']))"
  by code_simp

theorem routes_guarded_witness:
  "\<exists>a r. app_server example_app = Some a \<and>
     rs_outcome (mux_serve a (api_request ''POST'' ''/api/proxy/web/pause'' [(''Authorization'', [''Bearer key''])])) = Reach PauseAction r \<and>
     AdminMiddleware (ap_admin example_app)
       (StripProxyIdentityHeaders ''token'' (aq_Req (api_request ''POST'' ''/api/proxy/web/pause'' [(''Authorization'', [''Bearer key''])]))) = Serve"
proof -
  obtain a where a: "app_server example_app = Some a" "\<And>q e r. rs_outcome (mux_serve a q) = Reach e r \<Longrightarrow>
      (let s = StripProxyIdentityHeaders (ap_token example_app) (aq_Req q)
       in (e \<in> set viewer_only \<longrightarrow> ViewerMiddleware (ap_admin example_app) s = Serve) \<and>
          (e \<in> set admin_only \<longrightarrow> AdminMiddleware (ap_admin example_app) s = Serve) \<and>
          (e \<in> {IconFiles, StaticFiles} \<or> cross_origin_ok (q\<lparr>aq_Req := s\<rparr>)))"
    using routes_guarded [of example_app] by blast
  obtain r where r: "rs_outcome (mux_serve a (api_request ''POST'' ''/api/proxy/web/pause'' [(''Authorization'', [''Bearer key''])])) = Reach PauseAction r"
    using api_key_pauses by (auto simp: a(1) split: app_outcome.splits)
  have t: "ap_token example_app = ''token''" by (simp add: example_app_def)
  show ?thesis using a(1) r a(2) [OF r] by (auto simp: Let_def admin_only_def t)
qed

end
