(* ===== verification/App.thy ===== *)
theory App
  imports Http_Server Registry
begin

text \<open>
  The program as a whole, \<^verbatim>\<open>src/cmd/server/main.go\<close>: the construction, the order of \<^verbatim>\<open>Start\<close> and \<^verbatim>\<open>Stop\<close>, and the providers that
  the proxy manager gets from the configuration. The main goroutine is a sequence of steps, one for each call it makes;
  requests, streams, events and failures of the server come in between. The commands for the health check and for icons,
  and the set-up of tracing, are not part of it.
\<close>

section \<open>Providers from the configuration\<close>

definition NewProxyManager :: "string \<Rightarrow> provider_tables \<Rightarrow> bool \<Rightarrow> bool \<Rightarrow> ProxyManager" where
  "NewProxyManager defaultProxyProvider tables cleanupDNS cleanupTLS =
     \<lparr>pm_heap = [], pm_Proxies = [], pm_targetIndex = [], pm_building = [], pm_TargetProviders = [], pm_ProxyProviders = [],
      pm_DefaultProxyProvider = defaultProxyProvider, pm_tables = tables, pm_dns = NewLifecycleManager cleanupDNS,
      pm_tls = NewLifecycleManager cleanupTLS, pm_stopping = False, pm_count = 0, pm_subs = [], pm_nextSub = 0\<rparr>"

text \<open>The constructor of each provider fails or gives a provider; a list is one map of the configuration in the order it is visited.\<close>

record provider_results =
  pr_Tailscale :: "(string \<times> (string + ProxyProvider)) list"
  pr_Docker :: "(string \<times> (string + TargetProvider)) list"
  pr_Lists :: "(string \<times> (string + TargetProvider)) list"
  pr_Incus :: "(string \<times> (string + TargetProvider)) list"
  pr_Proxmox :: "(string \<times> (string + TargetProvider)) list"

definition addProxyProviders :: "provider_results \<Rightarrow> ProxyManager \<Rightarrow> ProxyManager" where
  "addProxyProviders res =
     fold (\<lambda>(name, r) pm. case r of Inl _ \<Rightarrow> pm | Inr p \<Rightarrow> addProxyProvider p name pm) (pr_Tailscale res)"

definition add_target_map :: "(string \<times> (string + TargetProvider)) list \<Rightarrow> ProxyManager \<Rightarrow> ProxyManager" where
  "add_target_map = fold (\<lambda>(name, r) pm. case r of Inl _ \<Rightarrow> pm | Inr p \<Rightarrow> addTargetProvider p name pm)"

definition addTargetProviders :: "provider_results \<Rightarrow> ProxyManager \<Rightarrow> ProxyManager" where
  "addTargetProviders res pm =
     (let pm = add_target_map (pr_Docker res) pm;
          pm = add_target_map (pr_Lists res) pm;
          pm = add_target_map (pr_Incus res) pm
      in add_target_map (pr_Proxmox res) pm)"

text \<open>\<^verbatim>\<open>ProxyManager.Start\<close>; \<open>dnsProviders\<close> is \<open>addDNSProviders\<close>, which changes the tables of providers.\<close>

definition pm_Start :: "provider_results \<Rightarrow> (provider_tables \<Rightarrow> provider_tables) \<Rightarrow> ProxyManager \<Rightarrow> string option \<times> ProxyManager" where
  "pm_Start res dnsProviders pm =
     (let pm = addTargetProviders res (addProxyProviders res pm);
          pm = pm\<lparr>pm_tables := dnsProviders (pm_tables pm)\<rparr>
      in if pm_ProxyProviders pm = [] then (Some ''no proxy providers found'', pm)
         else if pm_TargetProviders pm = [] then (Some ''no target providers found'', pm)
         else (None, pm))"

section \<open>The program\<close>

datatype stage =
    Initialized | RoutesAdded | Bound | Serving | ManagerStarted | WatchingEvents | Running
  | NotReadyAgain | Drained | ServerShut | DashboardClosed | ProxiesStopped | Done

text \<open>\<open>wa_ended\<close> is an end of the process before \<^verbatim>\<open>Stop\<close> has returned: a panic, a fatal error or a signal nobody waits for.\<close>

record WebApp =
  wa_stage :: stage
  wa_ended :: bool
  wa_HTTP :: HTTPServer
  wa_ready :: bool
  wa_listening :: bool
  wa_PM :: ProxyManager
  wa_watched :: "string list"
  wa_streams :: nat
  wa_forced :: bool

definition InitializeApp :: "app_config \<Rightarrow> ProxyManager \<Rightarrow> WebApp option" where
  "InitializeApp c pm =
     (case init_server c of
        None \<Rightarrow> None
      | Some http \<Rightarrow>
          Some \<lparr>wa_stage = Initialized, wa_ended = False, wa_HTTP = http, wa_ready = False, wa_listening = False,
                wa_PM = pm, wa_watched = [], wa_streams = 0, wa_forced = False\<rparr>)"

definition SetReady :: "WebApp \<Rightarrow> WebApp" where "SetReady w = w\<lparr>wa_ready := True\<rparr>"
definition SetNotReady :: "WebApp \<Rightarrow> WebApp" where "SetNotReady w = w\<lparr>wa_ready := False\<rparr>"

text \<open>The answer of \<^verbatim>\<open>/health/ready/\<close>.\<close>

definition Ready :: "WebApp \<Rightarrow> nat \<times> string" where
  "Ready w = (if wa_ready w then (200, ''OK'') else (503, ''NOK''))"

definition fatal :: "WebApp \<Rightarrow> WebApp" where
  "fatal w = w\<lparr>wa_ended := True, wa_listening := False\<rparr>"

text \<open>
  The calls of \<^verbatim>\<open>Start\<close> and \<^verbatim>\<open>Stop\<close>, one at a time. \<open>bound\<close> is the result of \<^verbatim>\<open>net.Listen\<close>. \<^verbatim>\<open>Shutdown\<close> closes the
  listener and waits until no request is in progress or ten seconds have passed; then it returns all the same.
\<close>

fun Start_next :: "app_config \<Rightarrow> provider_results \<Rightarrow> (provider_tables \<Rightarrow> provider_tables) \<Rightarrow> bool \<Rightarrow> stage \<Rightarrow> WebApp \<Rightarrow> WebApp" where
  "Start_next c res dns bound Initialized w =
     (case start_routes c (wa_HTTP w) of None \<Rightarrow> fatal w | Some http \<Rightarrow> w\<lparr>wa_HTTP := http, wa_stage := RoutesAdded\<rparr>)"
| "Start_next c res dns bound RoutesAdded w = (if bound then w\<lparr>wa_stage := Bound\<rparr> else fatal w)"
| "Start_next c res dns bound Bound w = w\<lparr>wa_listening := True, wa_stage := Serving\<rparr>"
| "Start_next c res dns bound Serving w =
     (case pm_Start res dns (wa_PM w) of
        (Some _, pm) \<Rightarrow> fatal (w\<lparr>wa_PM := pm\<rparr>)
      | (None, pm) \<Rightarrow> w\<lparr>wa_PM := pm, wa_stage := ManagerStarted\<rparr>)"
| "Start_next c res dns bound ManagerStarted w = w\<lparr>wa_watched := keys (pm_TargetProviders (wa_PM w)), wa_stage := WatchingEvents\<rparr>"
| "Start_next c res dns bound WatchingEvents w = (SetReady w)\<lparr>wa_stage := Running\<rparr>"
| "Start_next c res dns bound _ w = w"

fun Stop_next :: "int \<Rightarrow> stage \<Rightarrow> WebApp \<Rightarrow> WebApp" where
  "Stop_next now Running w = (SetNotReady w)\<lparr>wa_stage := NotReadyAgain\<rparr>"
| "Stop_next now NotReadyAgain w = w\<lparr>wa_stage := Drained\<rparr>"
| "Stop_next now Drained w = w\<lparr>wa_listening := False, wa_forced := (wa_streams w > 0), wa_stage := ServerShut\<rparr>"
| "Stop_next now ServerShut w = w\<lparr>wa_stage := DashboardClosed\<rparr>"
| "Stop_next now DashboardClosed w = w\<lparr>wa_PM := StopAllProxies now (wa_PM w), wa_watched := [], wa_stage := ProxiesStopped\<rparr>"
| "Stop_next now ProxiesStopped w = w\<lparr>wa_stage := Done\<rparr>"
| "Stop_next now _ w = w"

definition starting :: "stage \<Rightarrow> bool" where
  "starting s \<longleftrightarrow> s \<in> set [Initialized, RoutesAdded, Bound, Serving, ManagerStarted, WatchingEvents]"

inductive app_step :: "app_config \<Rightarrow> provider_results \<Rightarrow> (provider_tables \<Rightarrow> provider_tables) \<Rightarrow> WebApp \<Rightarrow> WebApp \<Rightarrow> bool" for c res dns where
  StartCall: "\<not> wa_ended w \<Longrightarrow> starting (wa_stage w) \<Longrightarrow> app_step c res dns w (Start_next c res dns bound (wa_stage w) w)"
| StopCall: "\<not> wa_ended w \<Longrightarrow> \<not> starting (wa_stage w) \<Longrightarrow> app_step c res dns w (Stop_next now (wa_stage w) w)"
| EarlySignal: "\<not> wa_ended w \<Longrightarrow> starting (wa_stage w) \<Longrightarrow> app_step c res dns w (fatal w)"
| ServeFails: "\<not> wa_ended w \<Longrightarrow> wa_listening w \<Longrightarrow> app_step c res dns w (fatal w)"
| StreamOpens: "\<not> wa_ended w \<Longrightarrow> wa_listening w \<Longrightarrow> app_step c res dns w (w\<lparr>wa_streams := Suc (wa_streams w)\<rparr>)"
| StreamEnds: "\<not> wa_ended w \<Longrightarrow> wa_streams w > 0 \<Longrightarrow> app_step c res dns w (w\<lparr>wa_streams := wa_streams w - 1\<rparr>)"
| ManagerWorks: "\<not> wa_ended w \<Longrightarrow> wa_listening w \<or> wa_watched w \<noteq> [] \<Longrightarrow> pm_step (wa_PM w) pm \<Longrightarrow>
    pm_stopping pm = pm_stopping (wa_PM w) \<Longrightarrow> app_step c res dns w (w\<lparr>wa_PM := pm\<rparr>)"

inductive_cases app_stepE: "app_step c res dns w w'"

section \<open>The manager keeps its providers\<close>

text \<open>What the work of the manager does not touch.\<close>

definition same_providers :: "ProxyManager \<Rightarrow> ProxyManager \<Rightarrow> bool" where
  "same_providers pm pm' \<longleftrightarrow> pm_TargetProviders pm' = pm_TargetProviders pm \<and> pm_ProxyProviders pm' = pm_ProxyProviders pm"

lemma same_providers_refl [simp, intro]: "same_providers pm pm"
  by (simp add: same_providers_def)

lemma same_providers_trans: "same_providers pm pm' \<Longrightarrow> same_providers pm' pm'' \<Longrightarrow> same_providers pm pm''"
  by (simp add: same_providers_def)

lemma fold_broadcast_targets [simp]: "pm_TargetProviders (fold broadcastStatusEvents evs pm) = pm_TargetProviders pm"
  by (induction evs arbitrary: pm) (simp_all add: broadcastStatusEvents_def)

lemma put_proxy_targets [simp]: "pm_TargetProviders (put_proxy a p pm) = pm_TargetProviders pm"
  by (simp add: put_proxy_def)

lemma remove_keeps: "removeAndTeardown now h i pm = (r, pm') \<Longrightarrow> same_providers pm pm'"
  by (auto simp: removeAndTeardown_def teardownProxy_def unregister_def updateProxyCount_def Let_def same_providers_def
      split: option.splits if_splits)

lemma begin_keeps: "newProxy_begin env cfg pm = (r, pm') \<Longrightarrow> same_providers pm pm'"
proof -
  have "same_providers pm (closeAndRemoveProxy now h pm)" for now h
    using remove_keeps [of now h "\<lambda>_. True" pm] by (cases "removeAndTeardown now h (\<lambda>_. True) pm") (simp add: closeAndRemoveProxy_def)
  then show "newProxy_begin env cfg pm = (r, pm') \<Longrightarrow> same_providers pm pm'"
    by (auto simp: newProxy_begin_def Let_def same_providers_def split: sum.splits option.splits if_splits)
qed

lemma finish_keeps: "newProxy_finish env a pm = (r, pm') \<Longrightarrow> same_providers pm pm'"
  by (auto simp: newProxy_finish_def registerProxy_def configure_domain_def broadcastStatusEvents_def updateProxyCount_def Let_def same_providers_def
      split: sum.splits option.splits if_splits)

lemma pm_step_keeps: "pm_step pm pm' \<Longrightarrow> same_providers pm pm'"
proof (induction rule: pm_step.cases)
  case (PmSubscribe pm s pm')
  then show ?case by (auto simp: SubscribeStatusEvents_def same_providers_def Let_def)
qed (auto simp: broadcastStatusEvents_def cancelSubscription_def same_providers_def intro: begin_keeps [unfolded same_providers_def] finish_keeps [unfolded same_providers_def] remove_keeps [unfolded same_providers_def]
  dest!: begin_keeps finish_keeps remove_keeps)

section \<open>Invariant\<close>

definition full_server :: "app_config \<Rightarrow> HTTPServer" where
  "full_server c = \<lparr>hs_Mux = map (\<lambda>(p, e). (parse_pattern p, route_of c e)) all_routes, hs_middlewares = all_middlewares c\<rparr>"

definition with_providers :: "stage \<Rightarrow> bool" where
  "with_providers s \<longleftrightarrow> s \<notin> set [Initialized, RoutesAdded, Bound, Serving]"

definition app_inv :: "app_config \<Rightarrow> WebApp \<Rightarrow> bool" where
  "app_inv c w \<longleftrightarrow>
     (if wa_stage w = Initialized then init_server c = Some (wa_HTTP w) else wa_HTTP w = full_server c)
     \<and> (wa_ready w \<longrightarrow> wa_stage w = Running)
     \<and> (wa_listening w \<longrightarrow> \<not> wa_ended w \<and> wa_stage w \<in> set [Serving, ManagerStarted, WatchingEvents, Running, NotReadyAgain, Drained])
     \<and> (wa_stage w \<in> set [Serving, ManagerStarted, WatchingEvents, Running, NotReadyAgain, Drained] \<longrightarrow> wa_listening w \<or> wa_ended w)
     \<and> (with_providers (wa_stage w) \<longrightarrow> pm_ProxyProviders (wa_PM w) \<noteq> [] \<and> pm_TargetProviders (wa_PM w) \<noteq> [])
     \<and> (wa_stage w \<in> set [WatchingEvents, Running, NotReadyAgain, Drained, ServerShut, DashboardClosed] \<longrightarrow>
          wa_watched w = keys (pm_TargetProviders (wa_PM w)))
     \<and> (pm_stopping (wa_PM w) \<longrightarrow> wa_stage w \<in> set [ProxiesStopped, Done])"

definition app_init :: "app_config \<Rightarrow> WebApp \<Rightarrow> bool" where
  "app_init c w \<longleftrightarrow> (\<exists>dp t cd ct. InitializeApp c (NewProxyManager dp t cd ct) = Some w)"

lemma start_routes_full: "init_server c = Some a \<Longrightarrow> start_routes c a = Some (full_server c)"
  using app_server_routes [of c] by (simp add: app_server_def full_server_def)

lemma fold_keeps: "(\<And>x pm. f (g x pm) = f pm) \<Longrightarrow> f (fold g xs pm) = f pm"
  by (induction xs arbitrary: pm) simp_all

lemma add_maps_keep [simp]:
  "pm_stopping (add_target_map xs pm) = pm_stopping pm" "pm_stopping (addProxyProviders res pm) = pm_stopping pm"
  "pm_ProxyProviders (add_target_map xs pm) = pm_ProxyProviders pm"
  unfolding add_target_map_def addProxyProviders_def
  by (rule fold_keeps; simp add: addTargetProvider_def addProxyProvider_def split: prod.split sum.split)+

lemma pm_Start_keeps:
  "pm_Start res dns pm = (e, pm') \<Longrightarrow> pm_stopping pm' = pm_stopping pm \<and>
    (e = None \<longrightarrow> pm_ProxyProviders pm' \<noteq> [] \<and> pm_TargetProviders pm' \<noteq> [])"
  by (auto simp: pm_Start_def addTargetProviders_def Let_def split: if_splits)

lemma Start_next_inv:
  assumes inv: "app_inv c w" and up: "\<not> wa_ended w" "starting (wa_stage w)"
  shows "app_inv c (Start_next c res dns bound (wa_stage w) w)"
proof (cases "wa_stage w")
  case Initialized
  then show ?thesis using inv up by (simp add: app_inv_def start_routes_full with_providers_def)
next
  case RoutesAdded
  then show ?thesis using inv up by (simp add: app_inv_def with_providers_def fatal_def)
next
  case Bound
  then show ?thesis using inv up by (simp add: app_inv_def with_providers_def)
next
  case Serving
  obtain e pm where s: "pm_Start res dns (wa_PM w) = (e, pm)" by fastforce
  from Serving s show ?thesis using inv up pm_Start_keeps [OF s] by (cases e) (simp_all add: app_inv_def with_providers_def fatal_def)
next
  case ManagerStarted
  then show ?thesis using inv up by (simp add: app_inv_def with_providers_def)
next
  case WatchingEvents
  then show ?thesis using inv up by (simp add: app_inv_def with_providers_def SetReady_def)
qed (use up in \<open>simp_all add: starting_def\<close>)

lemma Stop_next_inv:
  assumes inv: "app_inv c w" and up: "\<not> wa_ended w" "\<not> starting (wa_stage w)"
  shows "app_inv c (Stop_next now (wa_stage w) w)"
proof (cases "wa_stage w")
  case DashboardClosed
  have "same_providers pm (removeProxy now h pm)" for h pm
    using remove_keeps [of now h "\<lambda>_. True" pm] by (cases "removeAndTeardown now h (\<lambda>_. True) pm") (simp add: removeProxy_def)
  then have "(pm_TargetProviders pm, pm_ProxyProviders pm) = (pm_TargetProviders (removeProxy now h pm), pm_ProxyProviders (removeProxy now h pm))" for h pm
    by (simp add: same_providers_def)
  then have f: "(\<lambda>pm. (pm_TargetProviders pm, pm_ProxyProviders pm)) (fold (removeProxy now) hs pm) = (pm_TargetProviders pm, pm_ProxyProviders pm)" for hs pm
    using fold_keeps [where f = "\<lambda>pm. (pm_TargetProviders pm, pm_ProxyProviders pm)" and g = "removeProxy now"] by metis
  then have "pm_TargetProviders (StopAllProxies now (wa_PM w)) = pm_TargetProviders (wa_PM w)"
    "pm_ProxyProviders (StopAllProxies now (wa_PM w)) = pm_ProxyProviders (wa_PM w)"
    by (simp_all add: StopAllProxies_def)
  then show ?thesis using DashboardClosed inv up by (simp add: app_inv_def with_providers_def)
qed (use inv up in \<open>simp_all add: app_inv_def with_providers_def starting_def SetNotReady_def\<close>)

lemma fatal_inv: "app_inv c w \<Longrightarrow> app_inv c (fatal w)"
  by (auto simp: app_inv_def fatal_def)

lemma app_inv_step: "app_inv c w \<Longrightarrow> app_step c res dns w w' \<Longrightarrow> app_inv c w'"
proof (erule app_stepE)
  fix bound assume "app_inv c w" "w' = Start_next c res dns bound (wa_stage w) w" "\<not> wa_ended w" "starting (wa_stage w)"
  then show ?thesis using Start_next_inv by simp
next
  fix now assume "app_inv c w" "w' = Stop_next now (wa_stage w) w" "\<not> wa_ended w" "\<not> starting (wa_stage w)"
  then show ?thesis using Stop_next_inv by simp
next
  fix pm assume w: "app_inv c w" "w' = w\<lparr>wa_PM := pm\<rparr>" "pm_step (wa_PM w) pm" "pm_stopping pm = pm_stopping (wa_PM w)"
  from pm_step_keeps [OF w(3)] have "pm_TargetProviders pm = pm_TargetProviders (wa_PM w)" "pm_ProxyProviders pm = pm_ProxyProviders (wa_PM w)"
    by (simp_all add: same_providers_def)
  then show ?thesis using w by (simp add: app_inv_def)
qed (simp_all add: fatal_inv, simp_all add: app_inv_def)

interpretation app: invariant_system "app_init c" "app_step c res dns" "app_inv c" for c res dns
proof
  show "app_init c w \<Longrightarrow> app_inv c w" for w
    by (auto simp: app_init_def InitializeApp_def app_inv_def with_providers_def NewProxyManager_def split: option.splits)
qed (rule app_inv_step)


section \<open>Providers of the same name\<close>

lemma add_target_get:
  "gm_get (pm_TargetProviders (add_target_map xs pm)) n =
     (case filter (\<lambda>(m, r). m = n \<and> \<not> isl r) (rev xs) of [] \<Rightarrow> gm_get (pm_TargetProviders pm) n | (_, r) # _ \<Rightarrow> Some (projr r))"
proof (induction xs rule: rev_induct)
  case (snoc x xs)
  then show ?case
    by (cases x) (auto simp: add_target_map_def addTargetProvider_def split: sum.splits)
qed (simp add: add_target_map_def)

lemma same_name_drops_provider:
  "pm_TargetProviders (addTargetProviders \<lparr>pr_Tailscale = [], pr_Docker = [(''local'', Inr p)], pr_Lists = [], pr_Incus = [(''local'', Inr q)],
      pr_Proxmox = []\<rparr> (NewProxyManager d t cd ct)) = [(''local'', q)]"
  by (simp add: addTargetProviders_def add_target_map_def addTargetProvider_def NewProxyManager_def Let_def)

text \<open>A dashboard that stays open makes every stop wait for the whole time of the shutdown: its stream only ends with the request.\<close>

lemma open_dashboard_delays_stop:
  assumes "wa_stage w = Running" "wa_streams w > 0"
  shows "wa_forced (Stop_next now Drained (Stop_next now NotReadyAgain (Stop_next now Running w)))"
  using assms by (simp add: SetNotReady_def)

section \<open>Witnesses\<close>

definition example_results :: provider_results where
  "example_results = \<lparr>pr_Tailscale = [(''default'', Inr plain_provider)], pr_Docker = [(''local'', Inl ''no socket'')],
     pr_Lists = [(''files'', Inr \<lparr>tg_DefaultProxyProviderName = ''default'', tg_AddTarget = (\<lambda>_. Inl [])\<rparr>)], pr_Incus = [], pr_Proxmox = []\<rparr>"

definition example_program :: WebApp where
  "example_program = \<lparr>wa_stage = Initialized, wa_ended = False, wa_HTTP = the (init_server example_app), wa_ready = False, wa_listening = False,
     wa_PM = NewProxyManager ''default'' (pm_tables empty_manager) True True, wa_watched = [], wa_streams = 0, wa_forced = False\<rparr>"

lemma init_server_ok: "\<exists>a. init_server c = Some a"
  using app_server_routes [of c] by (auto simp: app_server_def split: option.splits)

lemma run_app_reach:
  assumes "reach (app_init example_app) (app_step example_app example_results (\<lambda>t. t)) w" "\<not> wa_ended w"
  shows "reach (app_init example_app) (app_step example_app example_results (\<lambda>t. t))
    (if starting (wa_stage w) then Start_next example_app example_results (\<lambda>t. t) True (wa_stage w) w else Stop_next 1 (wa_stage w) w)"
proof (cases "starting (wa_stage w)")
  case True
  show ?thesis using reach_step [OF assms(1) StartCall [OF assms(2) True, of example_app example_results "\<lambda>t. t" True]] True by simp
next
  case False
  show ?thesis using reach_step [OF assms(1) StopCall [OF assms(2) False, of example_app example_results "\<lambda>t. t" 1]] False by simp
qed

lemma example_program_ready:
  "reach (app_init example_app) (app_step example_app example_results (\<lambda>t. t))
     (example_program\<lparr>wa_HTTP := full_server example_app, wa_listening := True, wa_stage := Running, wa_ready := True, wa_watched := [''files''],
        wa_PM := snd (pm_Start example_results (\<lambda>t. t) (wa_PM example_program))\<rparr>)"
proof -
  let ?R = "reach (app_init example_app) (app_step example_app example_results (\<lambda>t. t))"
  let ?full = "full_server example_app"
  let ?m = "NewProxyManager ''default'' (pm_tables empty_manager) True True"
  obtain a where a: "init_server example_app = Some a" using init_server_ok by blast
  obtain pm where pm: "pm_Start example_results (\<lambda>t. t) ?m = (None, pm)" "keys (pm_TargetProviders pm) = [''files'']"
    by (simp add: pm_Start_def example_results_def addProxyProviders_def addTargetProviders_def add_target_map_def addTargetProvider_def
        addProxyProvider_def NewProxyManager_def Let_def)
  note simps = example_program_def starting_def SetReady_def pm a
  have "?R example_program"
    by (rule reach_init) (auto simp: app_init_def InitializeApp_def example_program_def a empty_manager_def)
  from run_app_reach [OF this] have "?R (example_program\<lparr>wa_HTTP := ?full, wa_stage := RoutesAdded\<rparr>)"
    using start_routes_full [OF a] by (simp add: simps)
  from run_app_reach [OF this] have "?R (example_program\<lparr>wa_HTTP := ?full, wa_stage := Bound\<rparr>)" by (simp add: simps)
  from run_app_reach [OF this] have "?R (example_program\<lparr>wa_HTTP := ?full, wa_listening := True, wa_stage := Serving\<rparr>)" by (simp add: simps)
  from run_app_reach [OF this] have "?R (example_program\<lparr>wa_HTTP := ?full, wa_listening := True, wa_PM := pm, wa_stage := ManagerStarted\<rparr>)"
    by (simp add: simps)
  from run_app_reach [OF this] have "?R (example_program\<lparr>wa_HTTP := ?full, wa_listening := True, wa_PM := pm, wa_watched := [''files''], wa_stage := WatchingEvents\<rparr>)"
    by (simp add: simps)
  from run_app_reach [OF this] show ?thesis by (simp add: simps)
qed


end
