(* ===== verification/Proxmox_REST.thy ===== *)
theory Proxmox_REST
  imports Proxmox_Target Go_Path
begin

text \<open>
  The client of the Proxmox API, \<^verbatim>\<open>src/internal/targetproviders/proxmox/rest.go\<close>. What a server answers to a request is the
  environment; the JSON parser, the address parser of \<^verbatim>\<open>net/netip\<close> and the reading of certificates are functions in it. The
  decoding of values into the structures of the code, with its treatment of null, unknown keys and wrong types, is modelled.
\<close>

section \<open>JSON values and their decoding\<close>

datatype jval = JsNull | JsBool bool | JsNum int | JsFraction | JsString string | JsArray "jval list" | JsObject "(string \<times> jval) list"

text \<open>A field of a structure: null leaves it alone, a value of another type is an error.\<close>

fun dec_string :: "jval \<Rightarrow> string \<Rightarrow> string option" where
  "dec_string JsNull old = Some old"
| "dec_string (JsString s) old = Some s"
| "dec_string _ old = None"

fun dec_int :: "jval \<Rightarrow> int \<Rightarrow> int option" where
  "dec_int JsNull old = Some old"
| "dec_int (JsNum n) old = (if in_int64 n then Some n else None)"
| "dec_int _ old = None"

text \<open>
  The fields are decoded in the order of the object; a key is matched in any case, an unknown one is skipped. Any wrong type makes the
  whole call fail.
\<close>

fun dec_fields :: "(string \<Rightarrow> jval \<Rightarrow> 'a \<Rightarrow> 'a option) \<Rightarrow> (string \<times> jval) list \<Rightarrow> 'a \<Rightarrow> 'a option" where
  "dec_fields f [] x = Some x"
| "dec_fields f ((k, v) # kvs) x = (case f k v x of None \<Rightarrow> None | Some x' \<Rightarrow> dec_fields f kvs x')"

fun dec_struct :: "(string \<Rightarrow> jval \<Rightarrow> 'a \<Rightarrow> 'a option) \<Rightarrow> jval \<Rightarrow> 'a \<Rightarrow> 'a option" where
  "dec_struct f JsNull x = Some x"
| "dec_struct f (JsObject kvs) x = dec_fields f kvs x"
| "dec_struct f _ x = None"

fun dec_list :: "(jval \<Rightarrow> 'a option) \<Rightarrow> jval \<Rightarrow> 'a list option" where
  "dec_list f JsNull = Some []"
| "dec_list f (JsArray vs) = those (map f vs)"
| "dec_list f _ = None"

section \<open>The client\<close>

datatype http_answer = NoAnswer string | BodyBroken | Answer nat string string

record tls_options =
  to_insecure :: bool
  to_roots :: "string option"

text \<open>\<open>TlsClient\<close> is a client of its own with the settings for TLS, \<open>Injected\<close> one of the caller.\<close>

datatype doer = DefaultClient | TlsClient tls_options | Injected

record rest_env =
  re_Do :: "doer \<Rightarrow> string \<Rightarrow> string \<Rightarrow> http_answer"
  re_json :: "string \<Rightarrow> jval option"
  re_ParseAddr :: "string \<Rightarrow> guest_addr option"
  re_ReadFile :: "string \<Rightarrow> string option"
  re_has_cert :: "string \<Rightarrow> bool"

record rest_config =
  rf_URL :: string
  rf_Token :: string
  rf_Node :: string
  rf_Insecure :: bool
  rf_CACertFile :: string

record restClient =
  rc_doer :: doer
  rc_baseURL :: string
  rc_token :: string
  rc_node :: string

datatype rest_error =
    ErrInvalidAPIToken
  | ReadCACert string
  | NoCertificate string
  | Connecting string rest_error
  | Executing string
  | ReadingResponse
  | ApiError string string string
  | DecodingResponse string
  | DecodingData string
  | ErrInvalidGuestID string

definition apiPathPrefix :: string where "apiPathPrefix = ''/api2/json''"
definition authTokenIntro :: string where "authTokenIntro = ''PVEAPIToken=''"
definition maxResponseBytes :: nat where "maxResponseBytes = 4 * 2 ^ 20"

text \<open>\<^verbatim>\<open>url.PathEscape\<close>.\<close>

definition segment_char :: "char \<Rightarrow> bool" where
  "segment_char c \<longleftrightarrow> unreserved c \<or> c \<in> set ''$&+=:@''"

definition PathEscape :: "string \<Rightarrow> string" where
  "PathEscape s =
     concat (map (\<lambda>c. if segment_char c then [c] else [CHR ''%'', hex_digit (of_char c div 16), hex_digit (of_char c mod 16)]) s)"

definition guestConfigPath :: "string \<Rightarrow> string \<Rightarrow> string \<Rightarrow> string" where
  "guestConfigPath node guestType vmid = ''/nodes/'' @ PathEscape node @ ''/'' @ PathEscape guestType @ ''/'' @ PathEscape vmid @ ''/config''"

fun errors_field :: "string \<Rightarrow> jval \<Rightarrow> (string, string) gomap \<Rightarrow> (string, string) gomap option" where
  "errors_field k v m =
     (if \<not> equal_fold k ''errors'' then Some m
      else case v of
             JsNull \<Rightarrow> Some []
           | JsObject kvs \<Rightarrow>
               dec_fields (\<lambda>k v m. case dec_string v [] of None \<Rightarrow> None | Some s \<Rightarrow> Some (gm_put k s m)) kvs m
           | _ \<Rightarrow> None)"

text \<open>The message of an error; the entries of the map come in the order it is visited.\<close>

definition pveErrorMessage :: "(string \<Rightarrow> jval option) \<Rightarrow> string \<Rightarrow> string" where
  "pveErrorMessage parse body =
     (case (case parse body of None \<Rightarrow> None | Some v \<Rightarrow> dec_struct errors_field v []) of
        None \<Rightarrow> trim_space body
      | Some [] \<Rightarrow> trim_space body
      | Some m \<Rightarrow> join_str ''; '' (map (\<lambda>(k, v). k @ '': '' @ v) m))"

definition data_field :: "string \<Rightarrow> jval \<Rightarrow> jval option \<Rightarrow> jval option option" where
  "data_field k v d = Some (if equal_fold k ''data'' then Some v else d)"

text \<open>\<^verbatim>\<open>get\<close>: the data of the answer, \<open>None\<close> when there are none and the structure to fill stays as it is.\<close>

definition rest_get :: "rest_env \<Rightarrow> restClient \<Rightarrow> string \<Rightarrow> rest_error + jval option" where
  "rest_get env r path =
     (case re_Do env (rc_doer r) (rc_baseURL r @ apiPathPrefix @ path) (authTokenIntro @ rc_token r) of
        NoAnswer e \<Rightarrow> Inl (Executing e)
      | BodyBroken \<Rightarrow> Inl ReadingResponse
      | Answer code status body \<Rightarrow>
          (let body = take maxResponseBytes body
           in if code < 200 \<or> code \<ge> 300 then Inl (ApiError path status (pveErrorMessage (re_json env) body))
              else case (case re_json env body of None \<Rightarrow> None | Some v \<Rightarrow> dec_struct data_field v None) of
                     None \<Rightarrow> Inl (DecodingResponse path)
                   | Some None \<Rightarrow> Inr None
                   | Some (Some JsNull) \<Rightarrow> Inr None
                   | Some (Some v) \<Rightarrow> Inr (Some v)))"

definition rest_fill :: "string \<Rightarrow> (jval \<Rightarrow> 'a option) \<Rightarrow> 'a \<Rightarrow> rest_error + jval option \<Rightarrow> rest_error + 'a" where
  "rest_fill path dec out r =
     (case r of
        Inl e \<Rightarrow> Inl e
      | Inr None \<Rightarrow> Inr out
      | Inr (Some v) \<Rightarrow> (case dec v of None \<Rightarrow> Inl (DecodingData path) | Some x \<Rightarrow> Inr x))"

definition version_field :: "string \<Rightarrow> jval \<Rightarrow> string \<Rightarrow> string option" where
  "version_field k v s = (if equal_fold k ''version'' then dec_string v s else Some s)"

definition GetVersion :: "rest_env \<Rightarrow> restClient \<Rightarrow> rest_error + string" where
  "GetVersion env r = rest_fill ''/version'' (\<lambda>v. dec_struct version_field v []) [] (rest_get env r ''/version'')"

definition resource_field :: "string \<Rightarrow> jval \<Rightarrow> GuestResource \<Rightarrow> GuestResource option" where
  "resource_field k v g =
     (if equal_fold k ''id'' then map_option (\<lambda>s. g\<lparr>gr_ID := s\<rparr>) (dec_string v (gr_ID g))
      else if equal_fold k ''node'' then map_option (\<lambda>s. g\<lparr>gr_Node := s\<rparr>) (dec_string v (gr_Node g))
      else if equal_fold k ''name'' then map_option (\<lambda>s. g\<lparr>gr_Name := s\<rparr>) (dec_string v (gr_Name g))
      else if equal_fold k ''type'' then map_option (\<lambda>s. g\<lparr>gr_Type := s\<rparr>) (dec_string v (gr_Type g))
      else if equal_fold k ''status'' then map_option (\<lambda>s. g\<lparr>gr_Status := s\<rparr>) (dec_string v (gr_Status g))
      else if equal_fold k ''vmid'' then map_option (\<lambda>n. g\<lparr>gr_VMID := n\<rparr>) (dec_int v (gr_VMID g))
      else if equal_fold k ''template'' then map_option (\<lambda>n. g\<lparr>gr_Template := n\<rparr>) (dec_int v (gr_Template g))
      else Some g)"

definition ListGuests :: "rest_env \<Rightarrow> restClient \<Rightarrow> rest_error + GuestResource list" where
  "ListGuests env r =
     (let path = ''/cluster/resources?type=vm''
      in case rest_fill path (dec_list (\<lambda>v. dec_struct resource_field v no_resource)) [] (rest_get env r path) of
           Inl e \<Rightarrow> Inl e
         | Inr guests \<Rightarrow> Inr (filter (\<lambda>g. \<not> (rc_node r \<noteq> [] \<and> gr_Node g \<noteq> rc_node r)) guests))"

definition config_field :: "string \<Rightarrow> jval \<Rightarrow> GuestConfig \<Rightarrow> GuestConfig option" where
  "config_field k v c =
     (if equal_fold k ''name'' then map_option (\<lambda>_. c) (dec_string v [])
      else if equal_fold k ''notes'' then map_option (\<lambda>s. c\<lparr>gc_Notes := s\<rparr>) (dec_string v (gc_Notes c))
      else if equal_fold k ''description'' then map_option (\<lambda>s. c\<lparr>gc_Description := s\<rparr>) (dec_string v (gc_Description c))
      else if equal_fold k ''tags'' then map_option (\<lambda>s. c\<lparr>gc_Tags := s\<rparr>) (dec_string v (gc_Tags c))
      else Some c)"

definition no_guest_config :: GuestConfig where
  "no_guest_config = \<lparr>gc_Notes = [], gc_Description = [], gc_Tags = []\<rparr>"

definition GetGuestConfig :: "rest_env \<Rightarrow> restClient \<Rightarrow> string \<Rightarrow> string \<Rightarrow> string \<Rightarrow> rest_error + GuestConfig" where
  "GetGuestConfig env r node guestType vmid =
     (let path = guestConfigPath node guestType vmid
      in rest_fill path (\<lambda>v. dec_struct config_field v no_guest_config) no_guest_config (rest_get env r path))"

section \<open>Interfaces\<close>

record qemu_iface =
  qi_Name :: string
  qi_IPAddresses :: "string list"

definition ip_field :: "string \<Rightarrow> jval \<Rightarrow> string \<Rightarrow> string option" where
  "ip_field k v s =
     (if equal_fold k ''ip-address'' then dec_string v s
      else if equal_fold k ''ip-address-type'' then map_option (\<lambda>_. s) (dec_string v [])
      else Some s)"

definition qemu_field :: "string \<Rightarrow> jval \<Rightarrow> qemu_iface \<Rightarrow> qemu_iface option" where
  "qemu_field k v i =
     (if equal_fold k ''name'' then map_option (\<lambda>s. i\<lparr>qi_Name := s\<rparr>) (dec_string v (qi_Name i))
      else if equal_fold k ''ip-addresses'' then
        map_option (\<lambda>as. i\<lparr>qi_IPAddresses := as\<rparr>) (dec_list (\<lambda>v. dec_struct ip_field v []) v)
      else Some i)"

definition result_field :: "string \<Rightarrow> jval \<Rightarrow> qemu_iface list \<Rightarrow> qemu_iface list option" where
  "result_field k v is =
     (if equal_fold k ''result'' then dec_list (\<lambda>v. dec_struct qemu_field v \<lparr>qi_Name = [], qi_IPAddresses = []\<rparr>) v else Some is)"

definition getQemuAgentInterfaces :: "rest_env \<Rightarrow> restClient \<Rightarrow> string \<Rightarrow> string \<Rightarrow> rest_error + GuestInterface list" where
  "getQemuAgentInterfaces env r node vmid =
     (let path = ''/nodes/'' @ PathEscape node @ ''/qemu/'' @ PathEscape vmid @ ''/agent/network-get-interfaces''
      in case rest_fill path (\<lambda>v. dec_struct result_field v []) [] (rest_get env r path) of
           Inl e \<Rightarrow> Inl e
         | Inr ifaces \<Rightarrow>
             Inr (map (\<lambda>i. \<lparr>gi_Name = qi_Name i, gi_Addresses = List.map_filter (re_ParseAddr env) (qi_IPAddresses i)\<rparr>) ifaces))"

record lxc_iface =
  li_Name :: string
  li_Inet :: string
  li_Inet6 :: string

definition lxc_field :: "string \<Rightarrow> jval \<Rightarrow> lxc_iface \<Rightarrow> lxc_iface option" where
  "lxc_field k v i =
     (if equal_fold k ''name'' then map_option (\<lambda>s. i\<lparr>li_Name := s\<rparr>) (dec_string v (li_Name i))
      else if equal_fold k ''inet'' then map_option (\<lambda>s. i\<lparr>li_Inet := s\<rparr>) (dec_string v (li_Inet i))
      else if equal_fold k ''inet6'' then map_option (\<lambda>s. i\<lparr>li_Inet6 := s\<rparr>) (dec_string v (li_Inet6 i))
      else Some i)"

definition getLxcInterfaces :: "rest_env \<Rightarrow> restClient \<Rightarrow> string \<Rightarrow> string \<Rightarrow> rest_error + GuestInterface list" where
  "getLxcInterfaces env r node vmid =
     (let path = ''/nodes/'' @ PathEscape node @ ''/lxc/'' @ PathEscape vmid @ ''/interfaces''
      in case rest_fill path (dec_list (\<lambda>v. dec_struct lxc_field v \<lparr>li_Name = [], li_Inet = [], li_Inet6 = []\<rparr>)) [] (rest_get env r path) of
           Inl e \<Rightarrow> Inl e
         | Inr ifaces \<Rightarrow>
             Inr (map (\<lambda>i. let raw = (if li_Inet i \<noteq> [] then [li_Inet i] else []) @ (if li_Inet6 i \<noteq> [] then [li_Inet6 i] else [])
                           in \<lparr>gi_Name = li_Name i, gi_Addresses = List.map_filter (\<lambda>a. re_ParseAddr env (hd (splitN2 ''/'' a))) raw\<rparr>) ifaces))"

definition GetGuestInterfaces :: "rest_env \<Rightarrow> restClient \<Rightarrow> string \<Rightarrow> string \<Rightarrow> string \<Rightarrow> rest_error + GuestInterface list" where
  "GetGuestInterfaces env r node guestType vmid =
     (if guestType = guestTypeQemu then getQemuAgentInterfaces env r node vmid
      else if guestType = guestTypeLXC then getLxcInterfaces env r node vmid
      else Inl (ErrInvalidGuestID (guestType @ ''/'' @ vmid)))"

section \<open>Construction\<close>

definition newTLSTransport :: "rest_env \<Rightarrow> bool \<Rightarrow> string \<Rightarrow> rest_error + tls_options" where
  "newTLSTransport env insecureSkipVerify caCertFile =
     (if caCertFile = [] then Inr \<lparr>to_insecure = insecureSkipVerify, to_roots = None\<rparr>
      else case re_ReadFile env caCertFile of
             None \<Rightarrow> Inl (ReadCACert caCertFile)
           | Some ca \<Rightarrow>
               if \<not> re_has_cert env ca then Inl (NoCertificate caCertFile)
               else Inr \<lparr>to_insecure = insecureSkipVerify, to_roots = Some ca\<rparr>)"

definition trim_right_slash :: "string \<Rightarrow> string" where
  "trim_right_slash s = rev (dropWhile (\<lambda>c. c = CHR ''/'') (rev s))"

definition newRestClient :: "rest_env \<Rightarrow> rest_config \<Rightarrow> bool \<Rightarrow> rest_error + restClient" where
  "newRestClient env cfg injected =
     (if CHR ''='' \<notin> set (rf_Token cfg) then Inl ErrInvalidAPIToken
      else case (if injected then Inr Injected
                 else if rf_Insecure cfg \<or> rf_CACertFile cfg \<noteq> [] then
                   (case newTLSTransport env (rf_Insecure cfg) (rf_CACertFile cfg) of Inl e \<Rightarrow> Inl e | Inr t \<Rightarrow> Inr (TlsClient t))
                 else Inr DefaultClient) of
             Inl e \<Rightarrow> Inl e
           | Inr d \<Rightarrow>
               (let client = \<lparr>rc_doer = d, rc_baseURL = trim_right_slash (rf_URL cfg), rc_token = rf_Token cfg, rc_node = rf_Node cfg\<rparr>
                in case GetVersion env client of Inl e \<Rightarrow> Inl (Connecting (rf_URL cfg) e) | Inr _ \<Rightarrow> Inr client))"

section \<open>The provider over the client\<close>

text \<open>What the provider sees of the API through the client.\<close>

definition rest_proxmox_env :: "rest_env \<Rightarrow> restClient \<Rightarrow> notes_env \<Rightarrow> file_env \<Rightarrow> proxmox_env" where
  "rest_proxmox_env env r ns fs =
     \<lparr>pe_ListGuests = (case ListGuests env r of Inl _ \<Rightarrow> None | Inr gs \<Rightarrow> Some gs),
      pe_GetGuestConfig = (\<lambda>n t v. case GetGuestConfig env r n t v of Inl _ \<Rightarrow> None | Inr c \<Rightarrow> Some c),
      pe_GetGuestInterfaces = (\<lambda>n t v. case GetGuestInterfaces env r n t v of Inl _ \<Rightarrow> None | Inr is \<Rightarrow> Some is),
      pe_notes = ns, pe_files = fs\<rparr>"

section \<open>Paths\<close>

lemma hex_digit_val: "d < 16 \<Longrightarrow> hex_val (hex_digit d) = Some d"
  by (auto simp: hex_val_def hex_digit_def Let_def)

lemma hex_digit_no_slash: "d < 16 \<Longrightarrow> hex_digit d \<noteq> CHR ''/''"
proof -
  have "(of_char (CHR ''/'') :: nat) = 47" by simp
  moreover have "d < 16 \<Longrightarrow> (of_char (hex_digit d) :: nat) \<noteq> 47" by (simp add: hex_digit_def)
  ultimately show "d < 16 \<Longrightarrow> ?thesis" by metis
qed

lemma segment_char_plain: "segment_char c \<Longrightarrow> c \<noteq> CHR ''/'' \<and> c \<noteq> CHR ''%''"
proof -
  have "\<not> segment_char (CHR ''/'')" "\<not> segment_char (CHR ''%'')" by code_simp+
  then show "segment_char c \<Longrightarrow> ?thesis" by metis
qed

lemma PathEscape_Cons:
  "PathEscape (c # s) = (if segment_char c then [c] else [CHR ''%'', hex_digit (of_char c div 16), hex_digit (of_char c mod 16)]) @ PathEscape s"
  by (simp add: PathEscape_def)

lemma char_hex: "char_of (16 * ((of_char c :: nat) div 16) + of_char c mod 16) = c"
  by simp

lemma of_char_bound: "(of_char c :: nat) div 16 < 16"
  by (rule less_mult_imp_div_less) (simp add: nat_of_char_less_256)

lemma unescape_PathEscape: "unescape EncPath (PathEscape s) = Some s"
proof (induction s)
  case (Cons c s)
  show ?case
  proof (cases "segment_char c")
    case True
    then show ?thesis using Cons segment_char_plain by (simp add: PathEscape_Cons)
  next
    case False
    have "unescape EncPath (PathEscape (c # s)) = Some (char_of (16 * ((of_char c :: nat) div 16) + of_char c mod 16) # s)"
      using False Cons by (simp add: PathEscape_Cons hex_digit_val of_char_bound del: mult_div_mod_eq)
    then show ?thesis by simp
  qed
qed (simp add: PathEscape_def)

lemma PathEscape_no_slash: "CHR ''/'' \<notin> set (PathEscape s)"
proof (induction s)
  case (Cons c s)
  then show ?case using segment_char_plain [of c] hex_digit_no_slash [of "of_char c div 16"] hex_digit_no_slash [of "of_char c mod 16"] of_char_bound [of c]
    by (auto simp: PathEscape_Cons)
qed (simp add: PathEscape_def)

text \<open>
  The address of a guest cannot be redirected by its data. Whatever the names of the node, the type and the guest, slashes, percent
  and question marks included, the path of its configuration has the five segments of the API, and they decode to just these names.
\<close>
theorem guestConfigPath_segments:
  "map (unescape EncPath) (split_str ''/'' (guestConfigPath node guestType vmid)) =
     map Some [[], ''nodes'', node, guestType, vmid, ''config'']"
proof -
  have "guestConfigPath node guestType vmid = join_str ''/'' [[], ''nodes'', PathEscape node, PathEscape guestType, PathEscape vmid, ''config'']"
    by (simp add: guestConfigPath_def)
  moreover have "split_str ''/'' (join_str ''/'' [[], ''nodes'', PathEscape node, PathEscape guestType, PathEscape vmid, ''config'']) =
      [[], ''nodes'', PathEscape node, PathEscape guestType, PathEscape vmid, ''config'']"
    by (rule split_join) (simp_all add: PathEscape_no_slash)
  ultimately show ?thesis by (simp add: unescape_PathEscape)
qed

section \<open>Answers\<close>

text \<open>A refusal by the server, a broken answer or one of a wrong shape never changes what the provider knows.\<close>

lemma bad_answer_keeps:
  assumes "\<And>code status body. re_Do env (rc_doer r) (rc_baseURL r @ apiPathPrefix @ ''/cluster/resources?type=vm'') (authTokenIntro @ rc_token r)
      = Answer code status body \<Longrightarrow> code < 200 \<or> code \<ge> 300 \<or> re_json env (take maxResponseBytes body) = None"
  shows "pollOnce obey (rest_proxmox_env env r ns fs) c = None"
proof -
  have "isl (rest_get env r ''/cluster/resources?type=vm'')"
    using assms by (auto simp: rest_get_def Let_def split: http_answer.splits option.splits)
  then obtain e where "rest_get env r ''/cluster/resources?type=vm'' = Inl e" by (cases "rest_get env r ''/cluster/resources?type=vm''") auto
  then have "ListGuests env r = Inl e" by (simp add: ListGuests_def rest_fill_def)
  then show ?thesis by (simp add: pollOnce_def rest_proxmox_env_def)
qed

text \<open>
  An answer without data is an empty list and no error: every guest the provider tracks is stopped.
\<close>

lemma null_data_stops_all:
  assumes "rest_get env r ''/cluster/resources?type=vm'' = Inr None"
  shows "pollOnce (\<lambda>_ c. c) (rest_proxmox_env env r ns fs) c =
    Some (concat (map (\<lambda>gid. if gm_get (pc_guests c) gid \<noteq> None then guest_event gid ActionStopProxy else []) (keys (pc_states c))), c\<lparr>pc_states := []\<rparr>)"
proof -
  have l: "ListGuests env r = Inr []" using assms by (simp add: ListGuests_def rest_fill_def)
  have "filter (\<lambda>(gid, _). False) xs = []" for xs :: "(string \<times> guestState) list" by (induction xs) auto
  then show ?thesis by (simp add: l pollOnce_def rest_proxmox_env_def emitDeleted_def Let_def)
qed

text \<open>Only the guests of the node that is asked for are seen, and with it unset all of them.\<close>

lemma ListGuests_node:
  assumes "ListGuests env r = Inr gs"
  shows "g \<in> set gs \<Longrightarrow> rc_node r = [] \<or> gr_Node g = rc_node r"
  using assms by (auto simp: ListGuests_def Let_def split: sum.splits)

text \<open>A client exists only after the server has accepted its token.\<close>

lemma newRestClient_checked:
  assumes "newRestClient env cfg injected = Inr r"
  shows "CHR ''='' \<in> set (rc_token r) \<and> (\<exists>v. GetVersion env r = Inr v) \<and>
    (\<forall>t. rc_doer r = TlsClient t \<longrightarrow> to_insecure t = rf_Insecure cfg \<and>
       (rf_CACertFile cfg \<noteq> [] \<longrightarrow> (\<exists>ca. to_roots t = Some ca \<and> re_ReadFile env (rf_CACertFile cfg) = Some ca \<and> re_has_cert env ca)))"
  using assms by (auto simp: newRestClient_def newTLSTransport_def Let_def split: if_splits sum.splits option.splits)

end
