(* ===== verification/Ssh_Tunnel.thy ===== *)
theory Ssh_Tunnel
  imports Go_Net
begin

text \<open>
  The SSH tunnel to a remote Docker daemon, \<^verbatim>\<open>src/internal/targetproviders/docker/sshtunnel\<close>: its construction, and the connections
  it opens, shares between dials, drops and closes. Connections are numbered in the order in which they are dialled; what the
  network and the SSH library answer is the environment of an operation. The critical sections of the mutex are the steps.
\<close>

section \<open>Construction\<close>

record ssh_config =
  sc_Host :: string
  sc_PrivateKeyFile :: string
  sc_PrivateKeyPassphrase :: string
  sc_KnownHostsFile :: string
  sc_AgentSocket :: string
  sc_InsecureSkipHostCheck :: bool

text \<open>\<open>se_agent\<close> is what the agent behind a socket answers: no connection, an error or the number of its keys.\<close>

datatype agent_answer = AgentDown | AgentBroken | AgentKeys nat

record ssh_env =
  se_ReadFile :: "string \<Rightarrow> string option"
  se_parse_key :: "string \<Rightarrow> string option \<Rightarrow> bool"
  se_auth_sock :: string
  se_agent :: "string \<Rightarrow> agent_answer"
  se_known_hosts :: "string \<Rightarrow> bool"

datatype ssh_error =
    ErrNotSSHHost | ParsingURL | ReadingKey string | ParsingKey | ErrNoAuthMethods | NoKnownHosts | BadKnownHosts string
  | ErrTunnelClosed | TcpDial | HandshakeCanceled | HandshakeFailed | SessionFailed | PipesFailed | ExecFailed

datatype auth_method = KeyAuth string | AgentAuth string

datatype host_key_check = AcceptAny | KnownHosts string

definition privateKeyAuth :: "ssh_env \<Rightarrow> ssh_config \<Rightarrow> ssh_error + auth_method option" where
  "privateKeyAuth env cfg =
     (if sc_PrivateKeyFile cfg = [] then Inr None
      else case se_ReadFile env (sc_PrivateKeyFile cfg) of
             None \<Rightarrow> Inl (ReadingKey (sc_PrivateKeyFile cfg))
           | Some key \<Rightarrow>
               if se_parse_key env key (if sc_PrivateKeyPassphrase cfg \<noteq> [] then Some (sc_PrivateKeyPassphrase cfg) else None)
                 then Inr (Some (KeyAuth key)) else Inl ParsingKey)"

text \<open>The method of the agent, and whether a connection to it is left open; a failure only skips the agent.\<close>

definition agentAuth :: "ssh_env \<Rightarrow> ssh_config \<Rightarrow> auth_method option \<times> bool" where
  "agentAuth env cfg =
     (let socketPath = (if sc_AgentSocket cfg = [] then se_auth_sock env else sc_AgentSocket cfg)
      in if socketPath = [] then (None, False)
         else case se_agent env socketPath of
                AgentDown \<Rightarrow> (None, False)
              | AgentBroken \<Rightarrow> (None, False)
              | AgentKeys n \<Rightarrow> if n = 0 then (None, False) else (Some (AgentAuth socketPath), True))"

definition authMethods :: "ssh_env \<Rightarrow> ssh_config \<Rightarrow> ssh_error + (auth_method list \<times> bool)" where
  "authMethods env cfg =
     (case privateKeyAuth env cfg of
        Inl e \<Rightarrow> Inl e
      | Inr m \<Rightarrow>
          (let methods = (case m of None \<Rightarrow> [] | Some a \<Rightarrow> [a]);
               (agentMethod, agentConn) = agentAuth env cfg;
               methods = methods @ (case agentMethod of None \<Rightarrow> [] | Some a \<Rightarrow> [a])
           in if methods = [] then Inl ErrNoAuthMethods else Inr (methods, agentConn)))"

definition hostKeyCallback :: "ssh_env \<Rightarrow> ssh_config \<Rightarrow> ssh_error + host_key_check" where
  "hostKeyCallback env cfg =
     (if sc_InsecureSkipHostCheck cfg then Inr AcceptAny
      else if sc_KnownHostsFile cfg = [] then Inl NoKnownHosts
      else if se_known_hosts env (sc_KnownHostsFile cfg) then Inr (KnownHosts (sc_KnownHostsFile cfg))
      else Inl (BadKnownHosts (sc_KnownHostsFile cfg)))"

record Tunnel =
  tn_host :: string
  tn_user :: string
  tn_auth :: "auth_method list"
  tn_check :: host_key_check
  tn_agentConn :: bool
  tn_conn :: "nat option"
  tn_closed :: bool

text \<open>The result, and whether a connection to the agent is open when \<^verbatim>\<open>New\<close> returns.\<close>

definition NewTunnel :: "ssh_env \<Rightarrow> ssh_config \<Rightarrow> (ssh_error + Tunnel) \<times> bool" where
  "NewTunnel env cfg =
     (if \<not> has_prefix (sc_Host cfg) ''ssh://'' then (Inl ErrNotSSHHost, False)
      else case url_parse (sc_Host cfg) of
             None \<Rightarrow> (Inl ParsingURL, False)
           | Some parsed \<Rightarrow>
               (let host = url_Hostname parsed;
                    port = (if url_Port parsed = [] then ''22'' else url_Port parsed);
                    username = (case u_user parsed of None \<Rightarrow> [] | Some (n, _) \<Rightarrow> n);
                    user = (if username = [] then ''root'' else username)
                in case authMethods env cfg of
                     Inl e \<Rightarrow> (Inl e, False)
                   | Inr (methods, agentConn) \<Rightarrow>
                       (case hostKeyCallback env cfg of
                          Inl e \<Rightarrow> (Inl e, agentConn)
                        | Inr check \<Rightarrow>
                            (Inr \<lparr>tn_host = join_host_port host port, tn_user = user, tn_auth = methods, tn_check = check,
                                  tn_agentConn = agentConn, tn_conn = None, tn_closed = False\<rparr>, agentConn))))"

section \<open>Connections\<close>

text \<open>
  \<open>sw_open\<close> says of each TCP connection that was dialled whether it is open, with or without its SSH client. \<open>sw_pending\<close> are the
  handshakes whose dial was cancelled, \<open>sw_dialing\<close> the dials that got a client and open a session on it, \<open>sw_sessions\<close> the
  sessions handed out, each with its client and whether it is closed.
\<close>

record ssh_world =
  sw_tunnel :: Tunnel
  sw_open :: "bool list"
  sw_pending :: "nat list"
  sw_dialing :: "nat list"
  sw_sessions :: "(nat \<times> bool) list"

datatype connect_result = DialFails | DialHangs | HandshakeBad | HandshakeGood

definition close_conn :: "nat \<Rightarrow> ssh_world \<Rightarrow> ssh_world" where
  "close_conn i w = w\<lparr>sw_open := (sw_open w)[i := False]\<rparr>"

text \<open>\<^verbatim>\<open>ensureConnected\<close>; \<open>DialHangs\<close> is a context that ends while the handshake runs.\<close>

definition ensureConnected :: "connect_result \<Rightarrow> ssh_world \<Rightarrow> ssh_error option \<times> ssh_world" where
  "ensureConnected res w =
     (if tn_conn (sw_tunnel w) \<noteq> None then (None, w)
      else let i = length (sw_open w); w' = w\<lparr>sw_open := sw_open w @ [True]\<rparr>
           in case res of
                DialFails \<Rightarrow> (Some TcpDial, w)
              | DialHangs \<Rightarrow> (Some HandshakeCanceled, w'\<lparr>sw_pending := i # sw_pending w\<rparr>)
              | HandshakeBad \<Rightarrow> (Some HandshakeFailed, close_conn i w')
              | HandshakeGood \<Rightarrow> (None, w'\<lparr>sw_tunnel := (sw_tunnel w)\<lparr>tn_conn := Some i\<rparr>\<rparr>))"

text \<open>The end of a cancelled handshake: its result has a function that closes it, which does nothing when the handshake succeeded.\<close>

definition late_handshake :: "bool \<Rightarrow> nat \<Rightarrow> ssh_world \<Rightarrow> ssh_world" where
  "late_handshake good i w =
     (let w = w\<lparr>sw_pending := remove1 i (sw_pending w)\<rparr>
      in if good then w else close_conn i w)"

text \<open>The first critical section of \<^verbatim>\<open>DialContext\<close>.\<close>

definition dial_begin :: "connect_result \<Rightarrow> ssh_world \<Rightarrow> ssh_error option \<times> ssh_world" where
  "dial_begin res w =
     (if tn_closed (sw_tunnel w) then (Some ErrTunnelClosed, w)
      else case ensureConnected res w of
             (Some e, w) \<Rightarrow> (Some e, w)
           | (None, w) \<Rightarrow>
               (case tn_conn (sw_tunnel w) of
                  None \<Rightarrow> (None, w)
                | Some i \<Rightarrow> (None, w\<lparr>sw_dialing := i # sw_dialing w\<rparr>)))"

definition invalidateConnection :: "nat \<Rightarrow> ssh_world \<Rightarrow> ssh_world" where
  "invalidateConnection stale w =
     (if tn_conn (sw_tunnel w) = Some stale
        then (close_conn stale w)\<lparr>sw_tunnel := (sw_tunnel w)\<lparr>tn_conn := None\<rparr>\<rparr>
      else w)"

text \<open>The rest of \<^verbatim>\<open>DialContext\<close>: the session, its pipes and the command.\<close>

definition dial_finish :: "ssh_error option \<Rightarrow> nat \<Rightarrow> ssh_world \<Rightarrow> ssh_world" where
  "dial_finish e i w =
     (let w = w\<lparr>sw_dialing := remove1 i (sw_dialing w)\<rparr>
      in case e of
           Some _ \<Rightarrow> invalidateConnection i w
         | None \<Rightarrow> w\<lparr>sw_sessions := sw_sessions w @ [(i, False)]\<rparr>)"

text \<open>\<^verbatim>\<open>sshSessionConn.Close\<close>: the session is closed by the first call.\<close>

definition session_Close :: "nat \<Rightarrow> ssh_world \<Rightarrow> ssh_world" where
  "session_Close s w = w\<lparr>sw_sessions := (sw_sessions w)[s := (fst (sw_sessions w ! s), True)]\<rparr>"

definition tunnel_Close :: "ssh_world \<Rightarrow> ssh_world" where
  "tunnel_Close w =
     (let t = (sw_tunnel w)\<lparr>tn_closed := True, tn_agentConn := False\<rparr>
      in case tn_conn t of
           None \<Rightarrow> w\<lparr>sw_tunnel := t\<rparr>
         | Some i \<Rightarrow> (close_conn i w)\<lparr>sw_tunnel := t\<lparr>tn_conn := None\<rparr>\<rparr>)"

text \<open>The flag says whether a cancelled handshake may still succeed.\<close>

inductive ssh_step :: "bool \<Rightarrow> ssh_world \<Rightarrow> ssh_world \<Rightarrow> bool" for late where
  DialBegin: "dial_begin res w = (e, w') \<Longrightarrow> ssh_step late w w'"
| DialFinish: "i \<in> set (sw_dialing w) \<Longrightarrow> ssh_step late w (dial_finish e i w)"
| LateHandshake: "i \<in> set (sw_pending w) \<Longrightarrow> good \<longrightarrow> late \<Longrightarrow> ssh_step late w (late_handshake good i w)"
| SessionClose: "s < length (sw_sessions w) \<Longrightarrow> ssh_step late w (session_Close s w)"
| TunnelClose: "ssh_step late w (tunnel_Close w)"

inductive_cases ssh_stepE: "ssh_step late w w'"

definition ssh_init :: "ssh_world \<Rightarrow> bool" where
  "ssh_init w \<longleftrightarrow> (\<exists>env cfg t a. NewTunnel env cfg = (Inr t, a) \<and>
     w = \<lparr>sw_tunnel = t, sw_open = [], sw_pending = [], sw_dialing = [], sw_sessions = []\<rparr>)"

section \<open>Which connections are open\<close>

text \<open>A connection is in use while it is the client of the tunnel or its handshake still runs.\<close>

definition in_use :: "ssh_world \<Rightarrow> nat \<Rightarrow> bool" where
  "in_use w i \<longleftrightarrow> tn_conn (sw_tunnel w) = Some i \<or> i \<in> set (sw_pending w)"

definition ssh_inv :: "ssh_world \<Rightarrow> bool" where
  "ssh_inv w \<longleftrightarrow>
     (\<forall>i < length (sw_open w). sw_open w ! i \<longleftrightarrow> in_use w i)
     \<and> (\<forall>i. in_use w i \<longrightarrow> i < length (sw_open w))
     \<and> distinct (sw_pending w)
     \<and> (\<forall>i \<in> set (sw_pending w). tn_conn (sw_tunnel w) \<noteq> Some i)
     \<and> (tn_closed (sw_tunnel w) \<longrightarrow> tn_conn (sw_tunnel w) = None \<and> \<not> tn_agentConn (sw_tunnel w))"

lemma ensureConnected_inv: "ssh_inv w \<Longrightarrow> \<not> tn_closed (sw_tunnel w) \<Longrightarrow> ensureConnected res w = (e, w') \<Longrightarrow> ssh_inv w'"
  by (cases res) (fastforce simp: ssh_inv_def in_use_def ensureConnected_def close_conn_def Let_def nth_append nth_list_update split: if_splits)+

lemma ssh_inv_other:
  "ssh_inv (w\<lparr>sw_dialing := d\<rparr>) = ssh_inv w" "ssh_inv (w\<lparr>sw_sessions := ss\<rparr>) = ssh_inv w"
  by (simp_all add: ssh_inv_def in_use_def)

lemma invalidate_inv: "ssh_inv w \<Longrightarrow> ssh_inv (invalidateConnection i w)"
  by (auto simp: ssh_inv_def in_use_def invalidateConnection_def close_conn_def nth_list_update)

lemma late_inv: "ssh_inv w \<Longrightarrow> i \<in> set (sw_pending w) \<Longrightarrow> ssh_inv (late_handshake False i w)"
  by (auto simp: ssh_inv_def in_use_def late_handshake_def close_conn_def Let_def nth_list_update)

lemma tunnel_Close_inv: "ssh_inv w \<Longrightarrow> ssh_inv (tunnel_Close w)"
  by (auto simp: ssh_inv_def in_use_def tunnel_Close_def close_conn_def Let_def nth_list_update split: option.splits)

lemma ssh_inv_step: "ssh_inv w \<Longrightarrow> ssh_step False w w' \<Longrightarrow> ssh_inv w'"
proof (erule ssh_stepE)
  fix res e assume "ssh_inv w" "dial_begin res w = (e, w')"
  then show ?thesis using ensureConnected_inv
    by (auto simp: dial_begin_def ssh_inv_other split: if_splits prod.splits option.splits)
next
  fix i e assume "ssh_inv w" "w' = dial_finish e i w"
  then show ?thesis by (auto simp: dial_finish_def Let_def ssh_inv_other invalidate_inv split: option.splits)
next
  fix i good assume "ssh_inv w" "w' = late_handshake good i w" "i \<in> set (sw_pending w)" "good \<longrightarrow> False"
  then show ?thesis using late_inv by simp
qed (simp_all add: session_Close_def ssh_inv_other tunnel_Close_inv)

lemma ssh_inv_init: "ssh_init w \<Longrightarrow> ssh_inv w"
  by (auto simp: ssh_init_def ssh_inv_def in_use_def NewTunnel_def Let_def split: if_splits option.splits sum.splits)

interpretation ssh: invariant_system ssh_init "ssh_step False" ssh_inv
  by unfold_locales (auto intro: ssh_inv_init ssh_inv_step)

text \<open>
  C26: The tunnel owns its connections. In every interleaving of dials, sessions and closes in which no handshake succeeds after its dial was
  cancelled, a connection is open only while it is the client of the tunnel or its handshake still runs, so a connection that failed or
  was replaced is closed; and once the tunnel is closed it holds no client and no connection to the agent, and refuses every dial.
\<close>
theorem tunnel_owns_connections:
  assumes "reach ssh_init (ssh_step False) w"
  shows "(\<forall>i < length (sw_open w). sw_open w ! i \<longleftrightarrow> tn_conn (sw_tunnel w) = Some i \<or> i \<in> set (sw_pending w)) \<and>
    (tn_closed (sw_tunnel w) \<longrightarrow> tn_conn (sw_tunnel w) = None \<and> \<not> tn_agentConn (sw_tunnel w) \<and>
       (\<forall>res. dial_begin res w = (Some ErrTunnelClosed, w)))"
  using ssh.reach_inv [OF assms] by (simp add: ssh_inv_def in_use_def dial_begin_def)

text \<open>A failure on one connection leaves a newer one alone.\<close>

lemma invalidate_stale: "tn_conn (sw_tunnel w) \<noteq> Some i \<Longrightarrow> invalidateConnection i w = w"
  by (simp add: invalidateConnection_def)

text \<open>Host keys are checked unless the configuration says otherwise.\<close>

lemma NewTunnel_checks_host:
  "NewTunnel env cfg = (Inr t, a) \<Longrightarrow> \<not> sc_InsecureSkipHostCheck cfg \<Longrightarrow> tn_check t = KnownHosts (sc_KnownHostsFile cfg) \<and> tn_auth t \<noteq> []"
  by (auto simp: NewTunnel_def hostKeyCallback_def authMethods_def Let_def split: if_splits option.splits sum.splits prod.splits)

section \<open>Witnesses\<close>

definition example_ssh_env :: ssh_env where
  "example_ssh_env = \<lparr>se_ReadFile = (\<lambda>_. None), se_parse_key = (\<lambda>_ _. False), se_auth_sock = ''/agent'', se_agent = (\<lambda>_. AgentKeys 1),
     se_known_hosts = (\<lambda>_. True)\<rparr>"

definition example_ssh_config :: ssh_config where
  "example_ssh_config = \<lparr>sc_Host = ''ssh://docker.lan'', sc_PrivateKeyFile = [], sc_PrivateKeyPassphrase = [], sc_KnownHostsFile = ''known'',
     sc_AgentSocket = [], sc_InsecureSkipHostCheck = False\<rparr>"

definition example_tunnel :: Tunnel where
  "example_tunnel = \<lparr>tn_host = ''docker.lan:22'', tn_user = ''root'', tn_auth = [AgentAuth ''/agent''], tn_check = KnownHosts ''known'',
     tn_agentConn = True, tn_conn = None, tn_closed = False\<rparr>"

lemma example_new: "NewTunnel example_ssh_env example_ssh_config = (Inr example_tunnel, True)"
  by code_simp

definition ssh_start :: ssh_world where
  "ssh_start = \<lparr>sw_tunnel = example_tunnel, sw_open = [], sw_pending = [], sw_dialing = [], sw_sessions = []\<rparr>"

lemma ssh_start_init: "ssh_init ssh_start"
  unfolding ssh_init_def ssh_start_def using example_new by blast

lemma ssh_start_reach: "reach ssh_init (ssh_step late) ssh_start"
  by (rule reach_init) (rule ssh_start_init)

text \<open>
  The function that releases a cancelled handshake does nothing when the handshake succeeds: the connection is then open for good, also
  after the tunnel was closed.
\<close>

lemma cancelled_handshake_leaks:
  "\<exists>w. reach ssh_init (ssh_step True) w \<and> tn_closed (sw_tunnel w) \<and> sw_pending w = [] \<and> sw_dialing w = [] \<and> sw_open w = [True]"
proof -
  let ?w1 = "ssh_start\<lparr>sw_open := [True], sw_pending := [0]\<rparr>"
  have "dial_begin DialHangs ssh_start = (Some HandshakeCanceled, ?w1)"
    by (simp add: dial_begin_def ensureConnected_def ssh_start_def example_tunnel_def Let_def)
  from reach_step [OF ssh_start_reach DialBegin [OF this]] have "reach ssh_init (ssh_step True) ?w1" .
  moreover have "ssh_step True ?w1 (late_handshake True 0 ?w1)" by (rule LateHandshake) simp_all
  ultimately have "reach ssh_init (ssh_step True) (late_handshake True 0 ?w1)" by (rule reach_step)
  then have "reach ssh_init (ssh_step True) (tunnel_Close (late_handshake True 0 ?w1))" using TunnelClose by (rule reach_step)
  moreover have "tn_closed (sw_tunnel (tunnel_Close (late_handshake True 0 ?w1)))" "sw_pending (tunnel_Close (late_handshake True 0 ?w1)) = []"
    "sw_dialing (tunnel_Close (late_handshake True 0 ?w1)) = []" "sw_open (tunnel_Close (late_handshake True 0 ?w1)) = [True]"
    by (simp_all add: tunnel_Close_def late_handshake_def ssh_start_def example_tunnel_def Let_def)
  ultimately show ?thesis by blast
qed

text \<open>Without a file of known hosts the construction fails, but the connection to the agent it has made stays open.\<close>

lemma agent_left_open:
  "NewTunnel example_ssh_env (example_ssh_config\<lparr>sc_KnownHostsFile := []\<rparr>) = (Inl NoKnownHosts, True)"
  by code_simp

theorem tunnel_owns_connections_witness:
  "\<exists>w. reach ssh_init (ssh_step False) w \<and> sw_open w = [False] \<and> tn_closed (sw_tunnel w) \<and> dial_begin HandshakeGood w = (Some ErrTunnelClosed, w)"
proof -
  let ?w1 = "ssh_start\<lparr>sw_open := [True], sw_tunnel := example_tunnel\<lparr>tn_conn := Some 0\<rparr>, sw_dialing := [0]\<rparr>"
  have "dial_begin HandshakeGood ssh_start = (None, ?w1)"
    by (simp add: dial_begin_def ensureConnected_def ssh_start_def example_tunnel_def Let_def)
  from reach_step [OF ssh_start_reach DialBegin [OF this]] have "reach ssh_init (ssh_step False) ?w1" .
  then have r: "reach ssh_init (ssh_step False) (tunnel_Close ?w1)" using TunnelClose by (rule reach_step)
  have c: "tn_closed (sw_tunnel (tunnel_Close ?w1))" "sw_open (tunnel_Close ?w1) = [False]"
    by (simp_all add: tunnel_Close_def close_conn_def ssh_start_def example_tunnel_def Let_def)
  then show ?thesis using tunnel_owns_connections [OF r] r by blast
qed

end
