(* ===== verification/Http_Port.thy ===== *)
theory Http_Port
  imports Http_Identity Metrics Log_Buffer
begin

text \<open>
  The rest of \<^verbatim>\<open>src/internal/proxymanager/port_http.go\<close> and the access log of \<^verbatim>\<open>src/internal/core/log.go\<close>: what the wrappers around
  the reverse proxy record of a response, the answer to a failed backend, and the start and close of a port. A handler is the
  sequence of its calls on the \<^verbatim>\<open>ResponseWriter\<close>; the innermost writer is the one of \<^verbatim>\<open>net/http\<close>.
\<close>

section \<open>Responses\<close>

datatype write_event = WHeader int | WBody string | WFlush

text \<open>What a client has received: the informational headers, the final status and the body.\<close>

record client_view =
  cv_informational :: "int list"
  cv_status :: "int option"
  cv_body :: string

definition no_response :: client_view where
  "no_response = \<lparr>cv_informational = [], cv_status = None, cv_body = []\<rparr>"

definition informational :: "int \<Rightarrow> bool" where
  "informational code \<longleftrightarrow> 100 \<le> code \<and> code \<le> 199 \<and> code \<noteq> 101"

text \<open>The writer of the server: the first final status counts, a body without one has status 200.\<close>

fun net_write :: "write_event \<Rightarrow> client_view \<Rightarrow> client_view" where
  "net_write (WHeader code) v =
     (if cv_status v \<noteq> None then v
      else if informational code then v\<lparr>cv_informational := cv_informational v @ [code]\<rparr>
      else v\<lparr>cv_status := Some code\<rparr>)"
| "net_write (WBody b) v = v\<lparr>cv_status := Some (case cv_status v of None \<Rightarrow> 200 | Some c \<Rightarrow> c), cv_body := cv_body v @ b\<rparr>"
| "net_write WFlush v = v\<lparr>cv_status := Some (case cv_status v of None \<Rightarrow> 200 | Some c \<Rightarrow> c)\<rparr>"

text \<open>A handler that returns without a header has answered 200.\<close>

definition net_finish :: "client_view \<Rightarrow> client_view" where
  "net_finish v = v\<lparr>cv_status := Some (case cv_status v of None \<Rightarrow> 200 | Some c \<Rightarrow> c)\<rparr>"

section \<open>Recorders\<close>

record LogRecord =
  lr_status :: int

definition log_WriteHeader :: "int \<Rightarrow> LogRecord \<Rightarrow> LogRecord" where
  "log_WriteHeader status r = r\<lparr>lr_status := status\<rparr>"

record spanStatusRecorder =
  sp_statusCode :: int
  sp_written :: bool

definition span_WriteHeader :: "int \<Rightarrow> spanStatusRecorder \<Rightarrow> spanStatusRecorder" where
  "span_WriteHeader code r = (if \<not> sp_written r then r\<lparr>sp_statusCode := code, sp_written := True\<rparr> else r)"

definition span_Write :: "spanStatusRecorder \<Rightarrow> spanStatusRecorder" where
  "span_Write r = (if \<not> sp_written r then r\<lparr>sp_statusCode := 200, sp_written := True\<rparr> else r)"

fun log_event :: "write_event \<Rightarrow> LogRecord \<Rightarrow> LogRecord" where
  "log_event (WHeader c) r = log_WriteHeader c r"
| "log_event _ r = r"

fun metrics_event :: "write_event \<Rightarrow> statusRecorder \<Rightarrow> statusRecorder" where
  "metrics_event (WHeader c) r = rec_WriteHeader c r"
| "metrics_event _ r = r"

fun span_event :: "write_event \<Rightarrow> spanStatusRecorder \<Rightarrow> spanStatusRecorder" where
  "span_event (WHeader c) r = span_WriteHeader c r"
| "span_event (WBody _) r = span_Write r"
| "span_event WFlush r = r"

text \<open>\<^verbatim>\<open>spanAttrsMiddleware\<close>: whether the span is marked as failed.\<close>

definition span_failed :: "write_event list \<Rightarrow> bool" where
  "span_failed es \<longleftrightarrow> sp_statusCode (fold span_event es \<lparr>sp_statusCode = 200, sp_written = False\<rparr>) \<ge> 500"

text \<open>\<^verbatim>\<open>LoggerMiddleware\<close>: the status it logs, and the line it writes to the buffer of the proxy.\<close>

definition logged_status :: "write_event list \<Rightarrow> int" where
  "logged_status es = lr_status (fold log_event es \<lparr>lr_status = 200\<rparr>)"

definition access_line :: "string \<Rightarrow> int \<Rightarrow> string \<Rightarrow> string \<Rightarrow> string" where
  "access_line timestamp status meth path =
     timestamp @ '' '' @ itoa status @ '' '' @ meth @ '' '' @ path @ [char_of (10 :: nat)]"

definition counted_code :: "write_event list \<Rightarrow> int" where
  "counted_code es = sr_statusCode (fold metrics_event es newRecorder)"

section \<open>The reverse proxy\<close>

text \<open>
  What a backend makes of a request: informational headers, a status and a body, or a failure, which may be that the context of the
  request was cancelled.
\<close>

datatype backend_result = Responds "int list" int string | Fails bool

definition proxyErrorHandler :: "bool \<Rightarrow> write_event list" where
  "proxyErrorHandler cancelled = (if cancelled then [] else [WHeader 502])"

fun reverse_proxy :: "backend_result \<Rightarrow> write_event list" where
  "reverse_proxy (Responds infos code body) =
     map WHeader infos @ [WHeader code] @ (if body = [] then [] else [WBody body, WFlush])"
| "reverse_proxy (Fails cancelled) = proxyErrorHandler cancelled"

record portProxyParams =
  hp_port :: port_params
  hp_AccessLog :: bool
  hp_Metrics :: bool
  hp_Tracing :: bool

text \<open>What is left of a request when its handler has returned.\<close>

record served_request =
  sv_client :: client_view
  sv_counted :: "int option"
  sv_logged :: "int option"
  sv_span :: "bool option"

text \<open>
  The chain of \<^verbatim>\<open>newPortProxy\<close>, from the outside: metrics, access log, rate limit, identity, span, reverse proxy. A refusal by the
  limiter never reaches the span.
\<close>

definition serve_request ::
  "'lim \<Rightarrow> (int \<Rightarrow> 'lim \<Rightarrow> bool \<times> 'lim) \<Rightarrow> (http_request \<Rightarrow> Whois) \<Rightarrow> portProxyParams \<Rightarrow> (out_request \<Rightarrow> backend_result) \<Rightarrow>
   int \<Rightarrow> http_request \<Rightarrow> header \<Rightarrow> 'lim ipRateLimiter \<Rightarrow> served_request \<times> 'lim ipRateLimiter" where
  "serve_request newLim Allow whois p backend now r out l =
     (let (d, l') = port_handle newLim Allow whois (hp_port p) now r out l;
          (es, span) = (case d of
             PortTooMany \<Rightarrow> ([WHeader 429, WBody (''rate limit exceeded'' @ [char_of (10 :: nat)])], None)
           | PortForward o' \<Rightarrow> (let es = reverse_proxy (backend o') in (es, if hp_Tracing p then Some (span_failed es) else None)))
      in (\<lparr>sv_client = net_finish (fold net_write es no_response),
           sv_counted = (if hp_Metrics p then Some (counted_code es) else None),
           sv_logged = (if hp_AccessLog p then Some (logged_status es) else None),
           sv_span = span\<rparr>, l'))"

section \<open>What is recorded is what was served\<close>

definition well_formed :: "backend_result \<Rightarrow> bool" where
  "well_formed b \<longleftrightarrow> (case b of Responds infos code _ \<Rightarrow> list_all informational infos \<and> \<not> informational code | Fails _ \<Rightarrow> True)"

lemma fold_infos:
  "cv_status v = None \<Longrightarrow> list_all informational is \<Longrightarrow>
     fold net_write (map WHeader is) v = v\<lparr>cv_informational := cv_informational v @ is\<rparr>"
  by (induction "is" arbitrary: v) auto

lemma client_status:
  assumes "well_formed b"
  shows "cv_status (net_finish (fold net_write (reverse_proxy b) no_response)) =
    Some (case b of Responds _ code _ \<Rightarrow> code | Fails c \<Rightarrow> if c then 200 else 502)"
proof (cases b)
  case (Responds infos code body)
  then show ?thesis using assms by (simp add: well_formed_def fold_infos no_response_def net_finish_def)
next
  case (Fails c)
  then show ?thesis by (simp add: proxyErrorHandler_def net_finish_def no_response_def informational_def)
qed

lemma logged_reverse: "logged_status (reverse_proxy b) = (case b of Responds _ code _ \<Rightarrow> code | Fails c \<Rightarrow> if c then 200 else 502)"
  by (cases b) (simp_all add: logged_status_def proxyErrorHandler_def log_WriteHeader_def)

lemma counted_reverse: "counted_code (reverse_proxy b) = (case b of Responds _ code _ \<Rightarrow> code | Fails c \<Rightarrow> if c then 200 else 502)"
  by (cases b) (simp_all add: counted_code_def proxyErrorHandler_def rec_WriteHeader_def newRecorder_def)

lemma span_written: "sp_written r \<Longrightarrow> fold span_event es r = r"
proof (induction es)
  case (Cons e es)
  then show ?case by (cases e) (simp_all add: span_WriteHeader_def span_Write_def)
qed simp

lemma span_reverse:
  "span_failed (reverse_proxy b) \<longleftrightarrow> 500 \<le> (case b of Responds infos code _ \<Rightarrow> (case infos of [] \<Rightarrow> code | i # _ \<Rightarrow> i) | Fails c \<Rightarrow> if c then 200 else 502)"
  by (cases b) (auto simp: span_failed_def proxyErrorHandler_def span_WriteHeader_def span_written split: list.split)


text \<open>
  An informational header hides a failure from the trace: the span records the first header it sees.
\<close>

lemma early_hints_hide_failure:
  "let es = reverse_proxy (Responds [103] 502 []) in cv_status (net_finish (fold net_write es no_response)) = Some 502 \<and> counted_code es = 502 \<and> \<not> span_failed es"
  by code_simp

text \<open>The path in the access log is decoded: a line feed in it makes a second line.\<close>

lemma access_line_forged:
  "\<exists>path. split_str [char_of (10 :: nat)] (access_line ''t'' 200 ''GET'' path) = [''t 200 GET /a'', ''t 500 GET /b'', []]"
  by (rule exI [of _ "''/a'' @ [char_of (10 :: nat)] @ ''t 500 GET /b''"]) code_simp

section \<open>Start and close of a port\<close>

text \<open>
  A listener that is handed to \<^verbatim>\<open>startWithListener\<close>: before the check of the port, between the check and \<^verbatim>\<open>Serve\<close>, served, and
  returned. Requests are numbered in the order of their arrival, with the answer they got.
\<close>

datatype serve_phase = Offered | Locked | Served | Returned

record http_listener =
  hl_phase :: serve_phase
  hl_open :: bool

datatype request_state = InProgress | Answered client_view

datatype close_phase = NotClosing | Draining | PortClosed

record http_port =
  po_ctx_done :: bool
  po_started :: bool
  po_inShutdown :: bool
  po_close :: close_phase
  po_listeners :: "http_listener list"
  po_requests :: "request_state list"

definition newHttpPort :: http_port where
  "newHttpPort = \<lparr>po_ctx_done = False, po_started = False, po_inShutdown = False, po_close = NotClosing, po_listeners = [], po_requests = []\<rparr>"

definition set_listener :: "nat \<Rightarrow> serve_phase \<Rightarrow> bool \<Rightarrow> http_port \<Rightarrow> http_port" where
  "set_listener i ph op p = p\<lparr>po_listeners := (po_listeners p)[i := \<lparr>hl_phase = ph, hl_open = op\<rparr>]\<rparr>"

text \<open>\<^verbatim>\<open>portStartLock\<close> and the assignments under the lock: a port whose context is done closes the listener.\<close>

definition start_lock :: "nat \<Rightarrow> http_port \<Rightarrow> http_port" where
  "start_lock i p =
     (let p = p\<lparr>po_started := True\<rparr>
      in if po_ctx_done p then set_listener i Returned False p else set_listener i Locked True p)"

text \<open>\<^verbatim>\<open>Serve\<close> refuses when the server is shutting down; the listener is then closed after it.\<close>

definition serve_enter :: "nat \<Rightarrow> http_port \<Rightarrow> http_port" where
  "serve_enter i p = (if po_inShutdown p then set_listener i Returned False p else set_listener i Served True p)"

definition close_served :: "http_listener \<Rightarrow> http_listener" where
  "close_served l = (if hl_phase l = Served then l\<lparr>hl_open := False\<rparr> else l)"

text \<open>The begin of \<^verbatim>\<open>close\<close>: \<^verbatim>\<open>Shutdown\<close> closes the listeners that are served.\<close>

definition close_begin :: "http_port \<Rightarrow> http_port" where
  "close_begin p = p\<lparr>po_inShutdown := True, po_close := Draining, po_listeners := map close_served (po_listeners p)\<rparr>"

text \<open>The end of it, when no request is in progress or the time is over: the context of the port is cancelled.\<close>

definition close_end :: "http_port \<Rightarrow> http_port" where
  "close_end p = p\<lparr>po_close := PortClosed, po_ctx_done := True\<rparr>"

definition answer_with :: "nat \<Rightarrow> backend_result \<Rightarrow> http_port \<Rightarrow> http_port" where
  "answer_with j b p =
     p\<lparr>po_requests := (po_requests p)[j := Answered (net_finish (fold net_write (reverse_proxy b) no_response))]\<rparr>"

text \<open>
  A backend answers or fails of its own, \<open>Fails True\<close> when the client has left; once the context of the port is done, what is still in
  progress fails as cancelled.
\<close>

inductive port_step :: "http_port \<Rightarrow> http_port \<Rightarrow> bool" where
  offer: "port_step p (p\<lparr>po_listeners := po_listeners p @ [\<lparr>hl_phase = Offered, hl_open = True\<rparr>]\<rparr>)"
| lock: "i < length (po_listeners p) \<Longrightarrow> hl_phase (po_listeners p ! i) = Offered \<Longrightarrow> port_step p (start_lock i p)"
| enter: "i < length (po_listeners p) \<Longrightarrow> hl_phase (po_listeners p ! i) = Locked \<Longrightarrow> port_step p (serve_enter i p)"
| accept: "i < length (po_listeners p) \<Longrightarrow> hl_phase (po_listeners p ! i) = Served \<Longrightarrow> hl_open (po_listeners p ! i) \<Longrightarrow>
    port_step p (p\<lparr>po_requests := po_requests p @ [InProgress]\<rparr>)"
| returns: "i < length (po_listeners p) \<Longrightarrow> hl_phase (po_listeners p ! i) = Served \<Longrightarrow> \<not> hl_open (po_listeners p ! i) \<or> broken \<Longrightarrow>
    port_step p (set_listener i Returned False p)"
| answer: "j < length (po_requests p) \<Longrightarrow> po_requests p ! j = InProgress \<Longrightarrow> \<not> po_ctx_done p \<Longrightarrow> port_step p (answer_with j b p)"
| cancelled: "j < length (po_requests p) \<Longrightarrow> po_requests p ! j = InProgress \<Longrightarrow> po_ctx_done p \<Longrightarrow> port_step p (answer_with j (Fails True) p)"
| begin_close: "po_close p = NotClosing \<Longrightarrow> port_step p (close_begin p)"
| end_close: "po_close p = Draining \<Longrightarrow> port_step p (close_end p)"

inductive_cases port_stepE: "port_step p p'"

definition listener_ok :: "http_port \<Rightarrow> http_listener \<Rightarrow> bool" where
  "listener_ok p l \<longleftrightarrow> (hl_phase l = Returned \<longrightarrow> \<not> hl_open l) \<and> (hl_phase l = Served \<longrightarrow> po_inShutdown p \<longrightarrow> \<not> hl_open l)"

definition port_inv :: "http_port \<Rightarrow> bool" where
  "port_inv p \<longleftrightarrow> (\<forall>l \<in> set (po_listeners p). listener_ok p l) \<and> (po_close p \<noteq> NotClosing \<longleftrightarrow> po_inShutdown p) \<and>
     (po_ctx_done p \<longleftrightarrow> po_close p = PortClosed)"

lemma port_inv_set:
  assumes "port_inv p" "listener_ok p \<lparr>hl_phase = ph, hl_open = op\<rparr>"
  shows "port_inv (set_listener i ph op p)"
  using assms set_update_subset_insert [of "po_listeners p" i] by (fastforce simp: port_inv_def set_listener_def listener_ok_def)

lemma port_inv_frame:
  "port_inv (p\<lparr>po_requests := rs\<rparr>) = port_inv p" "port_inv (p\<lparr>po_started := b\<rparr>) = port_inv p" "port_inv (answer_with j r p) = port_inv p"
  by (simp_all add: port_inv_def listener_ok_def answer_with_def)

lemma port_inv_step: "port_inv p \<Longrightarrow> port_step p p' \<Longrightarrow> port_inv p'"
proof (erule port_stepE)
  fix i assume "port_inv p" "p' = start_lock i p"
  moreover have "listener_ok q \<lparr>hl_phase = Locked, hl_open = True\<rparr>" "listener_ok q \<lparr>hl_phase = Returned, hl_open = False\<rparr>" for q
    by (simp_all add: listener_ok_def)
  ultimately show ?thesis by (simp add: start_lock_def Let_def port_inv_set port_inv_frame)
next
  fix i assume "port_inv p" "p' = serve_enter i p"
  moreover have "\<not> po_inShutdown p \<Longrightarrow> listener_ok p \<lparr>hl_phase = Served, hl_open = True\<rparr>" "listener_ok p \<lparr>hl_phase = Returned, hl_open = False\<rparr>"
    by (simp_all add: listener_ok_def)
  ultimately show ?thesis by (simp add: serve_enter_def port_inv_set)
next
  fix i broken assume "port_inv p" "p' = set_listener i Returned False p"
  then show ?thesis using port_inv_set [of p Returned False i] by (simp add: listener_ok_def)
next
  assume "port_inv p" "p' = close_begin p" "po_close p = NotClosing"
  then show ?thesis by (auto simp: port_inv_def close_begin_def close_served_def listener_ok_def)
qed (auto simp: port_inv_frame port_inv_def listener_ok_def close_end_def answer_with_def)

interpretation http_port: invariant_system "\<lambda>p. p = newHttpPort" port_step port_inv
proof
  show "p = newHttpPort \<Longrightarrow> port_inv p" for p by (simp add: newHttpPort_def port_inv_def)
qed (rule port_inv_step)


section \<open>Witnesses\<close>

definition serving_port :: http_port where
  "serving_port = \<lparr>po_ctx_done = False, po_started = True, po_inShutdown = False, po_close = NotClosing,
     po_listeners = [\<lparr>hl_phase = Served, hl_open = True\<rparr>], po_requests = [InProgress]\<rparr>"

lemma serving_port_reach: "reach (\<lambda>p. p = newHttpPort) port_step serving_port"
proof -
  let ?R = "reach (\<lambda>p. p = newHttpPort) port_step"
  have "?R newHttpPort" by (rule reach_init) simp
  from reach_step [OF this offer] have "?R (newHttpPort\<lparr>po_listeners := [\<lparr>hl_phase = Offered, hl_open = True\<rparr>]\<rparr>)" by (simp add: newHttpPort_def)
  from reach_step [OF this lock [of 0]] have "?R (newHttpPort\<lparr>po_started := True, po_listeners := [\<lparr>hl_phase = Locked, hl_open = True\<rparr>]\<rparr>)"
    by (simp add: newHttpPort_def start_lock_def set_listener_def Let_def)
  from reach_step [OF this enter [of 0]] have "?R (newHttpPort\<lparr>po_started := True, po_listeners := [\<lparr>hl_phase = Served, hl_open = True\<rparr>]\<rparr>)"
    by (simp add: newHttpPort_def serve_enter_def set_listener_def)
  from reach_step [OF this accept [of 0]] show ?thesis by (simp add: newHttpPort_def serving_port_def)
qed

text \<open>
  A request that is still in progress when the close of its port gives up is answered 200 with an empty body: its context is cancelled,
  which the error handler takes for a client that has left.
\<close>

lemma close_answers_200:
  "\<exists>p. reach (\<lambda>p. p = newHttpPort) port_step p \<and> po_requests p = [Answered \<lparr>cv_informational = [], cv_status = Some 200, cv_body = []\<rparr>] \<and>
     po_close p = PortClosed"
proof -
  let ?R = "reach (\<lambda>p. p = newHttpPort) port_step"
  let ?p = "close_end (close_begin serving_port)"
  have "?R (close_begin serving_port)" by (rule reach_step [OF serving_port_reach begin_close]) (simp add: serving_port_def)
  from reach_step [OF this end_close] have "?R ?p" by (simp add: close_begin_def)
  from reach_step [OF this cancelled [of 0]] have "?R (answer_with 0 (Fails True) ?p)" by (simp add: close_begin_def close_end_def serving_port_def)
  moreover have "po_requests (answer_with 0 (Fails True) ?p) = [Answered \<lparr>cv_informational = [], cv_status = Some 200, cv_body = []\<rparr>]"
    "po_close (answer_with 0 (Fails True) ?p) = PortClosed"
    by (simp_all add: answer_with_def proxyErrorHandler_def net_finish_def no_response_def close_begin_def close_end_def serving_port_def)
  ultimately show ?thesis by blast
qed


definition plain_port :: portProxyParams where
  "plain_port = \<lparr>hp_port = \<lparr>pp_Config = defaultPortConfig ''443/https'', pp_IdentityHeaders = True, pp_RateLimitEnabled = False, pp_HTTPPort = 8080,
     pp_ProxyAuthToken = ''token''\<rparr>, hp_AccessLog = True, hp_Metrics = True, hp_Tracing = True\<rparr>"


end
