(* ===== verification/Watch_Loop.thy ===== *)
theory Watch_Loop
  imports Proxy_Manager
begin

text \<open>
  The goroutine that \<^verbatim>\<open>WatchEvents\<close> of \<^verbatim>\<open>src/internal/proxymanager/events.go\<close> runs for each target provider: it keeps one watch of the
  provider going, dispatches the events, and starts the watch again after a pause when the stream ends or fails. A step is one
  turn of a select; the shutdown of the manager cancels its context at any time.
\<close>

datatype watch_phase = WatchTop | WatchStream | WatchPause int | WatchReturned

text \<open>\<open>wl_fails\<close> counts the streams that ended since the last event; it is not in the code.\<close>

record 'e provider_watch =
  wl_stopping :: bool
  wl_done :: bool
  wl_phase :: watch_phase
  wl_backoff :: int
  wl_running :: nat
  wl_received :: "'e list"
  wl_dispatched :: "'e list"
  wl_fails :: nat

definition second_ns :: int where "second_ns = 1000000000"

definition newProviderWatch :: "'e provider_watch" where
  "newProviderWatch = \<lparr>wl_stopping = False, wl_done = False, wl_phase = WatchTop, wl_backoff = second_ns, wl_running = 0, wl_received = [], wl_dispatched = [], wl_fails = 0\<rparr>"

definition watch_top :: "'e provider_watch \<Rightarrow> 'e provider_watch" where
  "watch_top w = (if wl_done w then w\<lparr>wl_phase := WatchReturned\<rparr> else w\<lparr>wl_phase := WatchStream, wl_running := Suc (wl_running w)\<rparr>)"

text \<open>An event is dispatched by a goroutine of its own, which a manager that is stopping does not start.\<close>

definition watch_event :: "'e \<Rightarrow> 'e provider_watch \<Rightarrow> 'e provider_watch" where
  "watch_event e w =
     w\<lparr>wl_received := wl_received w @ [e], wl_dispatched := (if wl_stopping w then wl_dispatched w else wl_dispatched w @ [e]),
       wl_backoff := second_ns, wl_fails := 0\<rparr>"

text \<open>The stream is closed or reports an error: the watch is cancelled and waited for, then comes a pause of the current length.\<close>

definition watch_broken :: "'e provider_watch \<Rightarrow> 'e provider_watch" where
  "watch_broken w =
     w\<lparr>wl_running := wl_running w - 1, wl_phase := WatchPause (wl_backoff w), wl_backoff := reconnectBackoff (wl_backoff w), wl_fails := Suc (wl_fails w)\<rparr>"

definition watch_done :: "'e provider_watch \<Rightarrow> 'e provider_watch" where
  "watch_done w = w\<lparr>wl_running := wl_running w - 1, wl_phase := WatchReturned\<rparr>"

text \<open>The steps of the goroutine itself and of its surroundings; a select with several ready cases takes any of them.\<close>

inductive watch_own :: "'e provider_watch \<Rightarrow> 'e provider_watch \<Rightarrow> bool" where
  top: "wl_phase w = WatchTop \<Longrightarrow> watch_own w (watch_top w)"
| event: "wl_phase w = WatchStream \<Longrightarrow> watch_own w (watch_event e w)"
| broken: "wl_phase w = WatchStream \<Longrightarrow> watch_own w (watch_broken w)"
| finish: "wl_phase w = WatchStream \<Longrightarrow> wl_done w \<Longrightarrow> watch_own w (watch_done w)"
| resume: "wl_phase w = WatchPause d \<Longrightarrow> watch_own w (w\<lparr>wl_phase := WatchTop\<rparr>)"

inductive provider_step :: "'e provider_watch \<Rightarrow> 'e provider_watch \<Rightarrow> bool" where
  own: "watch_own w w' \<Longrightarrow> provider_step w w'"
| stop: "provider_step w (w\<lparr>wl_stopping := True\<rparr>)"
| cancel: "wl_stopping w \<Longrightarrow> provider_step w (w\<lparr>wl_done := True\<rparr>)"

inductive_cases watch_ownE: "watch_own w w'"
inductive_cases provider_stepE: "provider_step w w'"

section \<open>Invariant\<close>

text \<open>The length of the pause after \<open>n\<close> streams without an event: doubled each time, at most five minutes.\<close>

definition pause_after :: "nat \<Rightarrow> int" where
  "pause_after n = (if n \<le> 8 then 2 ^ n * second_ns else maxWatchBackoff)"

lemma pause_after_bounds: "second_ns \<le> pause_after n \<and> pause_after n \<le> maxWatchBackoff"
proof -
  have "n \<le> 8 \<Longrightarrow> (2::int) ^ n \<le> 2 ^ 8" by (rule power_increasing) simp_all
  moreover have "(1::int) \<le> 2 ^ n" by simp
  ultimately show ?thesis by (auto simp: pause_after_def second_ns_def maxWatchBackoff_def)
qed

lemma pause_after_Suc: "reconnectBackoff (pause_after n) = pause_after (Suc n)"
proof (cases "n < 9")
  case True
  then have "n \<in> set [0, 1, 2, 3, 4, 5, 6, 7, 8]" by auto
  then show ?thesis
    by (auto simp: reconnectBackoff_def pause_after_def second_ns_def maxWatchBackoff_def wrap64_def backoffMultiplier_def Let_def)
next
  case False
  then show ?thesis by (simp add: reconnectBackoff_def pause_after_def maxWatchBackoff_def wrap64_def backoffMultiplier_def Let_def)
qed

definition watch_loop_inv :: "'e provider_watch \<Rightarrow> bool" where
  "watch_loop_inv w \<longleftrightarrow> wl_backoff w = pause_after (wl_fails w)
     \<and> wl_running w = (if wl_phase w = WatchStream then 1 else 0)
     \<and> (\<forall>d. wl_phase w = WatchPause d \<longrightarrow> wl_fails w > 0 \<and> d = pause_after (wl_fails w - 1))
     \<and> (wl_phase w = WatchReturned \<longrightarrow> wl_done w)
     \<and> (\<exists>lost. wl_received w = wl_dispatched w @ lost \<and> (\<not> wl_stopping w \<longrightarrow> lost = []))"

lemma watch_loop_inv_step: "watch_loop_inv w \<Longrightarrow> provider_step w w' \<Longrightarrow> watch_loop_inv w'"
proof (erule provider_stepE)
  assume inv: "watch_loop_inv w" and own: "watch_own w w'"
  from own show ?thesis
  proof cases
    case top
    then show ?thesis using inv by (auto simp: watch_loop_inv_def watch_top_def)
  next
    case (event e)
    obtain lost where "wl_received w = wl_dispatched w @ lost" "\<not> wl_stopping w \<longrightarrow> lost = []" using inv by (auto simp: watch_loop_inv_def)
    then have "wl_received (watch_event e w) = wl_dispatched (watch_event e w) @ (if wl_stopping w then lost @ [e] else [])"
      by (simp add: watch_event_def)
    moreover have "pause_after 0 = second_ns" by (simp add: pause_after_def)
    ultimately show ?thesis using inv event by (auto simp: watch_loop_inv_def watch_event_def)
  next
    case broken
    then show ?thesis using inv by (auto simp: watch_loop_inv_def watch_broken_def pause_after_Suc)
  next
    case finish
    then show ?thesis using inv by (auto simp: watch_loop_inv_def watch_done_def)
  next
    case (resume d)
    then show ?thesis using inv by (auto simp: watch_loop_inv_def)
  qed
qed (auto simp: watch_loop_inv_def)

interpretation provider_watch: invariant_system "\<lambda>w. w = newProviderWatch" provider_step watch_loop_inv
proof
  show "w = newProviderWatch \<Longrightarrow> watch_loop_inv w" for w :: "'e provider_watch"
    by (simp add: newProviderWatch_def watch_loop_inv_def pause_after_def)
qed (rule watch_loop_inv_step)

section \<open>Properties\<close>


text \<open>After the context is done the goroutine has at most three steps of its own left that are not events.\<close>

definition steps_left :: "'e provider_watch \<Rightarrow> nat" where
  "steps_left w = (case wl_phase w of WatchReturned \<Rightarrow> 0 | WatchTop \<Rightarrow> 1 | WatchPause _ \<Rightarrow> 2 | WatchStream \<Rightarrow> 3)"

lemma watch_returns:
  assumes "watch_own w w'" "wl_done w" "wl_received w' = wl_received w"
  shows "steps_left w' < steps_left w"
  using assms by (auto elim!: watch_ownE simp: steps_left_def watch_top_def watch_event_def watch_broken_def watch_done_def split: watch_phase.splits)

section \<open>Witnesses\<close>

definition failed_twice :: "nat provider_watch" where
  "failed_twice = watch_broken (watch_top ((watch_broken (watch_top newProviderWatch))\<lparr>wl_phase := WatchTop\<rparr>))"

lemma failed_twice_reach: "reach (\<lambda>w. w = newProviderWatch) provider_step failed_twice"
proof -
  let ?R = "reach (\<lambda>w. w = newProviderWatch) provider_step"
  let ?w1 = "watch_top newProviderWatch :: nat provider_watch"
  let ?w2 = "watch_broken ?w1"
  let ?w3 = "?w2\<lparr>wl_phase := WatchTop\<rparr>"
  have p: "wl_phase newProviderWatch = WatchTop" "wl_phase ?w1 = WatchStream" "wl_phase ?w2 = WatchPause second_ns" "wl_phase ?w3 = WatchTop"
    "wl_phase (watch_top ?w3) = WatchStream"
    by (simp_all add: newProviderWatch_def watch_top_def watch_broken_def)
  have "?R newProviderWatch" by (rule reach_init) simp
  from reach_step [OF this own [OF top [OF p(1)]]] have "?R ?w1" .
  from reach_step [OF this own [OF broken [OF p(2)]]] have "?R ?w2" .
  from reach_step [OF this own [OF resume [OF p(3)]]] have "?R ?w3" .
  from reach_step [OF this own [OF top [OF p(4)]]] have "?R (watch_top ?w3)" .
  from reach_step [OF this own [OF broken [OF p(5)]]] show ?thesis by (simp add: failed_twice_def)
qed


end
