(* ===== verification/Tls_Certs.thy ===== *)
theory Tls_Certs
  imports Go_Path Go_Net Metrics
begin

text \<open>
  Certificates of domains: the ACME provider of \<^verbatim>\<open>src/internal/tlsproviders/acme/acme.go\<close> around the certmagic library, and the
  goroutine of \<^verbatim>\<open>src/internal/proxymanager/domain.go\<close> that reports when a certificate expires. Also the identifiers that
  \<^verbatim>\<open>src/internal/dom/id.go\<close> makes for the elements of the dashboard.
\<close>

section \<open>The ACME provider\<close>

record acme_Config =
  ac_Email :: string
  ac_CA :: string
  ac_CertStorage :: string
  ac_DataDir :: string

text \<open>\<open>ap_cache_running\<close> is the cache of the provider, whose goroutine \<^verbatim>\<open>Close\<close> stops; \<open>ap_stops\<close> counts the calls of \<^verbatim>\<open>Stop\<close>.\<close>

record acme_Provider =
  am_CA :: string
  am_Email :: string
  am_storage :: string
  am_closed :: bool
  am_cache_running :: bool
  am_stops :: nat

definition acme_New :: "string \<Rightarrow> acme_Config \<Rightarrow> acme_Provider" where
  "acme_New production cfg =
     (let ca = (if ac_CA cfg = [] then production else ac_CA cfg);
          storage = (if ac_CertStorage cfg = [] \<and> ac_DataDir cfg \<noteq> [] then path_Join [ac_DataDir cfg, ''certmagic''] else ac_CertStorage cfg)
      in \<lparr>am_CA = ca, am_Email = ac_Email cfg, am_storage = storage, am_closed = False, am_cache_running = True, am_stops = 0\<rparr>)"

text \<open>The library's answers are the arguments: \<open>manage\<close> obtains a certificate, \<open>cached\<close> reads it.\<close>

definition acme_Provision :: "(string list \<Rightarrow> string option) \<Rightarrow> string \<Rightarrow> string option" where
  "acme_Provision manage domain =
     (case manage [domain] of None \<Rightarrow> None | Some e \<Rightarrow> Some (''acme: provision cert for '' @ domain @ '': '' @ e))"

definition acme_GetCertificate :: "(string \<Rightarrow> string + 'c) \<Rightarrow> string \<Rightarrow> string + 'c" where
  "acme_GetCertificate cached domain =
     (case cached domain of Inl e \<Rightarrow> Inl (''acme: get cert for '' @ domain @ '': '' @ e) | Inr c \<Rightarrow> Inr c)"

definition acme_Close :: "acme_Provider \<Rightarrow> acme_Provider" where
  "acme_Close p = (if am_closed p then p else p\<lparr>am_closed := True, am_cache_running := False, am_stops := Suc (am_stops p)\<rparr>)"

lemma acme_Close_once: "0 < n \<Longrightarrow> (acme_Close ^^ n) (acme_New ca cfg) = acme_Close (acme_New ca cfg)"
proof (induction n)
  case (Suc n)
  then show ?case by (cases n) (simp_all add: acme_Close_def acme_New_def Let_def)
qed simp

section \<open>The expiry of a certificate\<close>

text \<open>A certificate: the end of its validity if the library has parsed it, and its raw chain, of which the first may parse.\<close>

record certificate =
  ce_Leaf :: "int option"
  ce_Certificate :: "int option list"

text \<open>The remaining time in whole seconds, never below 0; \<open>None\<close> if there is no certificate.\<close>

definition cert_remaining :: "int \<Rightarrow> certificate option \<Rightarrow> int option" where
  "cert_remaining now answer =
     (case answer of
        None \<Rightarrow> None
      | Some cert \<Rightarrow>
          (case (case ce_Leaf cert of
                   Some t \<Rightarrow> Some t
                 | None \<Rightarrow> (case ce_Certificate cert of [] \<Rightarrow> None | c # _ \<Rightarrow> c)) of
             None \<Rightarrow> None
           | Some notAfter \<Rightarrow> Some (max 0 (notAfter - now))))"

definition updateCertExpiryMetric :: "int \<Rightarrow> certificate option \<Rightarrow> string \<Rightarrow> Metrics \<Rightarrow> bool \<times> Metrics" where
  "updateCertExpiryMetric now answer hostname m =
     (case cert_remaining now answer of
        None \<Rightarrow> (False, m)
      | Some r \<Rightarrow> (True, SetCertExpirySeconds hostname r m))"

record cert_tracker =
  ct_failures :: nat
  ct_warnings :: nat
  ct_metrics :: Metrics

definition certFailureWarnThreshold :: nat where
  "certFailureWarnThreshold = 3"

definition cert_tick :: "string \<Rightarrow> int \<times> certificate option \<Rightarrow> cert_tracker \<Rightarrow> cert_tracker" where
  "cert_tick hostname obs t =
     (case updateCertExpiryMetric (fst obs) (snd obs) hostname (ct_metrics t) of
        (True, m) \<Rightarrow> t\<lparr>ct_failures := 0, ct_metrics := m\<rparr>
      | (False, m) \<Rightarrow>
          (let n = Suc (ct_failures t)
           in t\<lparr>ct_failures := n, ct_warnings := (if n = certFailureWarnThreshold then Suc (ct_warnings t) else ct_warnings t), ct_metrics := m\<rparr>))"

text \<open>The goroutine until it is told to stop: one observation at the start, which does not count as a failure, and one for each tick.\<close>

definition startCertExpiryTracking :: "string \<Rightarrow> int \<times> certificate option \<Rightarrow> (int \<times> certificate option) list \<Rightarrow> Metrics \<Rightarrow> cert_tracker" where
  "startCertExpiryTracking hostname first ticks m =
     fold (cert_tick hostname) ticks
       \<lparr>ct_failures = 0, ct_warnings = 0, ct_metrics = snd (updateCertExpiryMetric (fst first) (snd first) hostname m)\<rparr>"

text \<open>What the gauge should show: the time that was left at the last observation with a certificate.\<close>

definition last_remaining :: "(int \<times> certificate option) list \<Rightarrow> int option" where
  "last_remaining obs = (case filter (\<lambda>r. r \<noteq> None) (rev (map (\<lambda>(now, a). cert_remaining now a) obs)) of [] \<Rightarrow> None | r # _ \<Rightarrow> r)"

definition cert_gauge :: "string \<Rightarrow> Metrics \<Rightarrow> int option" where
  "cert_gauge hostname m = vec_val (mt_CertExpirySeconds m) hostname"

lemma expiry_metric_ok:
  assumes "vec_ok (mt_CertExpirySeconds m)"
  shows "vec_ok (mt_CertExpirySeconds (snd (updateCertExpiryMetric now a h m))) \<and>
    cert_gauge h (snd (updateCertExpiryMetric now a h m)) = (case cert_remaining now a of None \<Rightarrow> cert_gauge h m | Some r \<Rightarrow> Some r)"
  using vec_Set_ok [OF assms] assms by (simp add: updateCertExpiryMetric_def cert_gauge_def SetCertExpirySeconds_def split: option.split)

lemma cert_tick_metrics: "ct_metrics (cert_tick h x t) = snd (updateCertExpiryMetric (fst x) (snd x) h (ct_metrics t))"
  by (simp add: cert_tick_def Let_def split: prod.split bool.split)

lemma last_remaining_snoc:
  "last_remaining (obs @ [x]) = (case cert_remaining (fst x) (snd x) of None \<Rightarrow> last_remaining obs | Some r \<Rightarrow> Some r)"
  by (simp add: last_remaining_def case_prod_beta split: option.split)

text \<open>The gauge of a domain shows the time that was left when its certificate was last seen, whatever failed in between.\<close>

lemma gauge_shows_last_certificate:
  "cert_gauge h (ct_metrics (startCertExpiryTracking h first ticks NewMetrics)) = last_remaining (first # ticks)"
proof -
  let ?m = "\<lambda>ticks. ct_metrics (startCertExpiryTracking h first ticks NewMetrics)"
  have init: "vec_ok (mt_CertExpirySeconds NewMetrics)" "cert_gauge h NewMetrics = None"
    by (simp_all add: NewMetrics_def cert_gauge_def vec_val_def empty_vec_def vec_ok_def gm_wf_def)
  have "vec_ok (mt_CertExpirySeconds (?m ticks)) \<and> cert_gauge h (?m ticks) = last_remaining (first # ticks)"
  proof (induction ticks rule: rev_induct)
    case Nil
    have "last_remaining [] = None" by (simp add: last_remaining_def)
    moreover have "last_remaining [first] = (case cert_remaining (fst first) (snd first) of None \<Rightarrow> last_remaining [] | Some r \<Rightarrow> Some r)"
      using last_remaining_snoc [of "[]" first] by simp
    ultimately show ?case using expiry_metric_ok [OF init(1)] init(2) by (simp add: startCertExpiryTracking_def split: option.split)
  next
    case (snoc x ticks)
    have "?m (ticks @ [x]) = snd (updateCertExpiryMetric (fst x) (snd x) h (?m ticks))"
      by (simp add: startCertExpiryTracking_def cert_tick_metrics)
    then show ?case using snoc.IH expiry_metric_ok last_remaining_snoc [of "first # ticks" x] by (simp split: option.splits)
  qed
  then show ?thesis ..
qed

section \<open>Identifiers of elements\<close>

text \<open>The lower case hexadecimal of \<^verbatim>\<open>fmt.Fprintf\<close>, and \<^verbatim>\<open>SafeID\<close> on the runes of a string.\<close>

definition lower_hex :: "nat \<Rightarrow> char" where
  "lower_hex d = (if d < 10 then char_of (48 + d) else char_of (87 + d))"

fun fmt_x :: "nat \<Rightarrow> string" where
  "fmt_x n = (if n < 16 then [lower_hex n] else fmt_x (n div 16) @ [lower_hex (n mod 16)])"

declare fmt_x.simps [simp del]

definition id_rune :: "nat \<Rightarrow> bool" where
  "id_rune r \<longleftrightarrow> (97 \<le> r \<and> r \<le> 122) \<or> (65 \<le> r \<and> r \<le> 90) \<or> (48 \<le> r \<and> r \<le> 57) \<or> r = 45"

definition SafeID :: "nat list \<Rightarrow> string" where
  "SafeID s = concat (map (\<lambda>r. if id_rune r then [char_of r] else [CHR ''_''] @ fmt_x r @ [CHR ''_'']) s)"

lemma lower_hex_val: "d < 16 \<Longrightarrow> hex_val (lower_hex d) = Some d"
  by (auto simp: hex_val_def lower_hex_def Let_def)

lemma hex_num_snoc: "list_all is_hex xs \<Longrightarrow> is_hex c \<Longrightarrow> hex_num acc (xs @ [c]) = 16 * hex_num acc xs + the (hex_val c)"
  by (induction xs arbitrary: acc) (auto simp: is_hex_def)

lemma fmt_x_hex: "list_all is_hex (fmt_x n)"
proof (induction n rule: fmt_x.induct)
  case (1 n)
  moreover have "d < 16 \<Longrightarrow> is_hex (lower_hex d)" for d by (simp add: is_hex_def lower_hex_val)
  ultimately show ?case by (subst fmt_x.simps) simp
qed

lemma fmt_x_num: "hex_num 0 (fmt_x n) = n"
proof (induction n rule: fmt_x.induct)
  case (1 n)
  then show ?case
    by (subst fmt_x.simps) (simp add: lower_hex_val hex_num_snoc fmt_x_hex is_hex_def)
qed

lemma fmt_x_no_underscore: "CHR ''_'' \<notin> set (fmt_x n)"
  using fmt_x_hex [of n] by (auto simp: list_all_iff is_hex_def hex_val_def)

lemma until_stop: "x \<notin> set xs \<Longrightarrow> takeWhile (\<lambda>c. c \<noteq> x) (xs @ x # ys) = xs \<and> dropWhile (\<lambda>c. c \<noteq> x) (xs @ x # ys) = x # ys"
  by (induction xs) auto

lemma SafeID_Cons: "SafeID (r # s) = (if id_rune r then [char_of r] else [CHR ''_''] @ fmt_x r @ [CHR ''_'']) @ SafeID s"
  by (simp add: SafeID_def)

text \<open>Reading an identifier back; the rest of the string is read with as much fuel as it has characters.\<close>

fun read_id :: "nat \<Rightarrow> string \<Rightarrow> nat list" where
  "read_id 0 _ = []"
| "read_id (Suc f) [] = []"
| "read_id (Suc f) (c # s) =
     (if c = CHR ''_'' then hex_num 0 (takeWhile (\<lambda>c. c \<noteq> CHR ''_'') s) # read_id f (drop 1 (dropWhile (\<lambda>c. c \<noteq> CHR ''_'') s))
      else of_char c # read_id f s)"

lemma read_SafeID: "length (SafeID s) \<le> f \<Longrightarrow> read_id f (SafeID s) = s"
proof (induction s arbitrary: f)
  case Nil
  then show ?case by (cases f) (simp_all add: SafeID_def)
next
  case (Cons r s)
  obtain g where f: "f = Suc g" using Cons.prems by (cases f) (auto simp: SafeID_Cons split: if_splits)
  show ?case
  proof (cases "id_rune r")
    case True
    then have "r < 256" "r \<noteq> 95" by (auto simp: id_rune_def)
    then have n: "of_char (char_of r) = r" by simp
    have "char_of r \<noteq> CHR ''_''"
    proof
      assume "char_of r = CHR ''_''"
      then have "of_char (char_of r) = (95 :: nat)" by simp
      then show False using n \<open>r \<noteq> 95\<close> by simp
    qed
    then show ?thesis using True Cons f n by (simp add: SafeID_Cons)
  next
    case False
    have "takeWhile (\<lambda>c. c \<noteq> CHR ''_'') (fmt_x r @ CHR ''_'' # SafeID s) = fmt_x r"
      "dropWhile (\<lambda>c. c \<noteq> CHR ''_'') (fmt_x r @ CHR ''_'' # SafeID s) = CHR ''_'' # SafeID s"
      using until_stop [OF fmt_x_no_underscore] by blast+
    then show ?thesis using False Cons f by (simp add: SafeID_Cons fmt_x_num)
  qed
qed

text \<open>
  Names that differ have elements of their own: the identifier that the dashboard makes of a name can be read back, so an event for one
  proxy never updates the element of another.
\<close>
theorem SafeID_reads_back: "read_id (length (SafeID s)) (SafeID s) = s \<and> inj SafeID"
  using read_SafeID [of s] read_SafeID by (auto intro!: injI) (metis order_refl le_cases)

end
