(* ===== verification/Spec2Isabelle.thy ===== *)
theory Spec2Isabelle
  imports Port_Labels Keyed_Locks Rate_Limit Registry Port_Forward Udp_Port Exposure Tailscale_Node
    Services_Server Whois_Cache Docker_Target List_Target
    Tailscale_Provider Config_Keys Config_Load Webhook Proxmox_Target Incus_Target Services_API
    Cloudflare Dashboard_Prefs Rest_API Icons Metrics Config_File App Proxmox_REST Ssh_Tunnel
    Http_Port Watch_Loop Tls_Certs
begin

text \<open>
  A verification development of TSDProxy (Go, under \<^verbatim>\<open>src/\<close>), a reverse proxy that exposes
  containers and services as machines or services of a Tailscale network.

  \<^bold>\<open>The program.\<close> Target providers (Docker, a list file, Incus, Proxmox) watch what runs and
  send events; the proxy manager (\<^verbatim>\<open>internal/proxymanager\<close>) turns the labels of a target into a
  configuration (\<^verbatim>\<open>internal/model\<close>), makes a proxy for it and keeps the registry of proxies; a proxy
  gets its listeners from a proxy provider (\<^verbatim>\<open>internal/proxyproviders/tailscale\<close>: a node of its
  own, a node shared by several domains, or a service of a node) and forwards what arrives to
  the target over HTTP, TCP or UDP. Health checks re-resolve targets, domains get DNS records
  and certificates, and a management server shows and changes all of it.

  \<^bold>\<open>Theories.\<close> \<open>Go_Prelude\<close> has what every theory shares: 64-bit integers, Go maps as association
  lists in their order of iteration (\<open>gomap\<close>), string functions of the standard library, the
  locale \<open>invariant_system\<close> of transition systems with an invariant, which each state machine below
  interprets, and its reachable states \<open>reach\<close>. \<open>Go_Net\<close> models URLs, host and port strings and IP
  addresses of the standard library. Then, with the files they model:

  \<^item> \<open>Port_Config\<close>, \<open>Port_Labels\<close>: \<^verbatim>\<open>model/port.go\<close>, the labels that describe ports.
  \<^item> \<open>Proxy_Model\<close>: \<^verbatim>\<open>model/status.go\<close>, \<^verbatim>\<open>model/proxyconfig.go\<close>, \<^verbatim>\<open>model/whois.go\<close>.
  \<^item> \<open>Keyed_Locks\<close>: \<^verbatim>\<open>proxymanager/locks.go\<close>, one transition per critical section.
  \<^item> \<open>Log_Buffer\<close>: \<^verbatim>\<open>proxymanager/logbuffer.go\<close>, and its refinement of the history of lines.
  \<^item> \<open>Rate_Limit\<close>: \<^verbatim>\<open>proxymanager/ratelimit.go\<close>, and its refinement of an LRU list.
  \<^item> \<open>Health\<close>: \<^verbatim>\<open>proxymanager/health.go\<close>.
  \<^item> \<open>Lifecycle\<close>, \<open>Domain_Setup\<close>: \<^verbatim>\<open>dnsproviders\<close>, \<^verbatim>\<open>tlsproviders\<close>, \<^verbatim>\<open>proxymanager/domain.go\<close>, \<^verbatim>\<open>providers.go\<close>.
  \<^item> \<open>Proxy\<close>, \<open>Proxy_Lifecycle\<close>: \<^verbatim>\<open>proxymanager/proxy.go\<close>, \<^verbatim>\<open>proxyports.go\<close>, \<^verbatim>\<open>proxytls.go\<close>.
  \<^item> \<open>Proxy_Manager\<close>, \<open>Registry\<close>: \<^verbatim>\<open>proxymanager.go\<close>, \<^verbatim>\<open>events.go\<close>, \<^verbatim>\<open>broadcast.go\<close>, \<^verbatim>\<open>targets.go\<close>; the registry, its
    index and the events, with the invariant of all its steps.
  \<^item> \<open>Http_Identity\<close>: \<^verbatim>\<open>proxymanager/port_http.go\<close>, \<^verbatim>\<open>core/admin.go\<close>, \<^verbatim>\<open>consts/proxymanager.go\<close>; who a request is
    from, and who may use the management server.
  \<^item> \<open>Port_Forward\<close>, \<open>Udp_Port\<close>: \<^verbatim>\<open>proxymanager/port_tcp.go\<close>, \<^verbatim>\<open>port_http.go\<close>, \<^verbatim>\<open>port_udp.go\<close>.
  \<^item> \<open>Port_Router\<close>, \<open>Shared_Server\<close>: \<^verbatim>\<open>tailscale/port_router.go\<close>, \<^verbatim>\<open>virtual_listener.go\<close>, \<^verbatim>\<open>shared_server.go\<close>,
    \<^verbatim>\<open>eventloop.go\<close>; a command of the loop is one function of its state.
  \<^item> \<open>Exposure\<close>: \<^verbatim>\<open>tailscale/exposure.go\<close>, \<^verbatim>\<open>shared_proxy.go\<close>.
  \<^item> \<open>Services_Server\<close>: \<^verbatim>\<open>tailscale/services_server.go\<close>, the loop, its workers and their interleavings.
    \<open>Services_API\<close>: its calls to the API of Tailscale.
  \<^item> \<open>Tailscale_Node\<close>: \<^verbatim>\<open>tailscale/node_lifecycle.go\<close>, \<^verbatim>\<open>auth_manager.go\<close>, \<^verbatim>\<open>device_reconciler.go\<close>, \<^verbatim>\<open>state_manager.go\<close>,
    \<^verbatim>\<open>status_watcher.go\<close>, \<^verbatim>\<open>certs.go\<close>, \<^verbatim>\<open>retry_policy.go\<close>.
  \<^item> \<open>Whois_Cache\<close>: \<^verbatim>\<open>tailscale/whois.go\<close>, \<^verbatim>\<open>whois_cache.go\<close>.
  \<^item> \<open>Tailscale_Provider\<close>: \<^verbatim>\<open>tailscale/provider.go\<close>, \<^verbatim>\<open>acl_manager.go\<close>, \<^verbatim>\<open>proxy.go\<close>, \<^verbatim>\<open>service_proxy.go\<close>, the services part of
    \<^verbatim>\<open>exposure.go\<close>; the proxies a provider makes, and their start and close.
  \<^item> \<open>Go_Path\<close>: paths of files as \<^verbatim>\<open>path/filepath\<close> treats them. \<open>Target_Settings\<close>: \<^verbatim>\<open>model/default.go\<close>,
    \<^verbatim>\<open>targetproviders/settings\<close>, the key files of \<^verbatim>\<open>config/config.go\<close>; what the target providers share.
  \<^item> \<open>Docker_Target\<close>: \<^verbatim>\<open>targetproviders/docker\<close>; from what Docker says of a container to the configuration of
    its proxy, and the events of the provider.
  \<^item> \<open>List_Target\<close>: \<^verbatim>\<open>targetproviders/list/list.go\<close>; entries of a file, and what a reload sends.
  \<^item> \<open>Proxmox_Notes\<close>, \<open>Proxmox_Target\<close>: \<^verbatim>\<open>targetproviders/proxmox\<close>; the notes of a guest, its configuration, and what the events
    of the polls converge to. \<open>Incus_Target\<close>: \<^verbatim>\<open>targetproviders/incus\<close>, instances and their events.
  \<^item> \<open>Config_Keys\<close>: \<^verbatim>\<open>config/keynormalizer.go\<close>, the spelling of keys and the suggestions. \<open>Config_Load\<close>: \<^verbatim>\<open>config/config.go\<close>,
    \<^verbatim>\<open>generateproviders.go\<close>, \<^verbatim>\<open>validator.go\<close>; from the decoded file to a configuration the program starts with.
  \<^item> \<open>Webhook\<close>: \<^verbatim>\<open>core/webhook/webhook.go\<close>, the queue of a sender and its workers, payloads and retries.
  \<^item> \<open>Cloudflare\<close>: \<^verbatim>\<open>dnsproviders/cloudflare/cloudflare.go\<close>, zones and records.
  \<^item> \<open>Dashboard_Prefs\<close>: \<^verbatim>\<open>dashboard/preferences.go\<close>, the preferences of the users in memory and on disk. \<open>Dashboard_View\<close>:
    \<^verbatim>\<open>dashboard/viewmodel.go\<close>, \<^verbatim>\<open>stream.go\<close>, \<^verbatim>\<open>sse.go\<close>, \<^verbatim>\<open>dash.go\<close>; the list a user sees, the handlers, and the messages that keep a browser
    up to date. \<open>Rest_API\<close>: \<^verbatim>\<open>api/api.go\<close>, what the API says of the same proxies.
  \<^item> \<open>Http_Server\<close>: \<^verbatim>\<open>core/http.go\<close>, \<^verbatim>\<open>sessions.go\<close>, \<^verbatim>\<open>csrf.go\<close>, \<^verbatim>\<open>healthcheck.go\<close> and the route tables; the management server as a
    function from requests to the endpoint that is reached. \<open>App\<close>: \<^verbatim>\<open>cmd/server/main.go\<close>, the order of start and stop around it.
  \<^item> \<open>Icons\<close>: \<^verbatim>\<open>web/web.go\<close>, \<^verbatim>\<open>icon_download.go\<close>, \<^verbatim>\<open>cmd/server/icons_cmd.go\<close>. \<open>Metrics\<close>: \<^verbatim>\<open>core/metrics/metrics.go\<close>.
    \<open>Config_File\<close>: \<^verbatim>\<open>config/configfile.go\<close>, loading and watching the file of the configuration.
  \<^item> \<open>Proxmox_REST\<close>: \<^verbatim>\<open>targetproviders/proxmox/rest.go\<close>, the requests to the Proxmox API and the decoding of its answers.
    \<open>Ssh_Tunnel\<close>: \<^verbatim>\<open>targetproviders/docker/sshtunnel\<close>, the tunnel to a remote Docker and the connections it owns.
  \<^item> \<open>Http_Port\<close>: the responses of \<^verbatim>\<open>proxymanager/port_http.go\<close>, what metrics, trace and the access log of \<^verbatim>\<open>core/log.go\<close> record of
    them, start and close of an HTTP port. \<open>Watch_Loop\<close>: the goroutine of \<^verbatim>\<open>WatchEvents\<close> in \<^verbatim>\<open>proxymanager/events.go\<close>.
  \<^item> \<open>Tls_Certs\<close>: \<^verbatim>\<open>tlsproviders/acme/acme.go\<close>, the tracking of certificates in \<^verbatim>\<open>proxymanager/domain.go\<close>, \<^verbatim>\<open>dom/id.go\<close>.

  \<^bold>\<open>How the code is modelled.\<close> Structs are records, closed sets of values datatypes, fallible
  calls return a sum or an option, maps are \<open>gomap\<close> in an arbitrary but fixed order: a lemma that
  holds for every order holds for Go's random iteration. Mutable objects that are shared (proxies, locks,
  UDP clients) live in a list and are named by their address. Things that are opened and
  closed (listeners, connections, subscriptions) are numbers of a table of open handles,
  \<open>handles\<close>, so that a leak, a double close and the use of a closed one can be stated. Durations
  are nanoseconds, 64-bit where the code computes with them. What other code answers (the network, the
  Tailscale API, the clock, a parser of the standard library) is an argument of the definition
  that asks. Goroutines are the steps of an inductive relation; a step is what happens under one
  lock or in one turn of an event loop.

  \<^bold>\<open>Loops.\<close> Loops over data are structural recursion; loops that wait (accept, sniffing,
  polling) take the list of what they observe, and end with it; retry loops count down from
  the bound of the code (\<open>maxIPPolls\<close> is 61: a poll at once and one each half second of the
  timeout of 30 s; \<open>certMaxAttempts\<close>, \<open>maxTCPAcceptRetries\<close> and \<open>rp_MaxAttempts\<close> are the code's). The eviction of the
  identity cache has no such bound and is a partial function, proved to return.

  \<^bold>\<open>Not modelled.\<close> Bytes in transit, TLS, timeouts of sockets, attributes of spans, the structured log, HTML, the text of JSON (its decoding
  into the structures of the code is, for the Proxmox API), static files, the health check command. Of the
  components named above: saving a configuration file.
\<close>

end
